(* ===== verification/Opt_Prelude.thy ===== *)
theory Opt_Prelude
  imports Main "HOL-Library.Word" "HOL-Library.Char_ord" "HOL-Library.List_Lexorder"
begin

text \<open>
  Shared vocabulary of the development: the machine integer types of the C++ code, the
  value-level \<open>Result\<close> type, the string routines of the C++ standard library that the
  components use (decimal printing, \<open>std::stoll\<close>, \<open>std::getline\<close>, ASCII case folding)
  and \<open>std::map\<close> as a key-sorted association list behind the interface
  \<open>ordered_map\<close>.  The lemmas here are the ones several components share.
\<close>

named_theorems result_simps \<open>case analysis of results\<close>
named_theorems str_simps \<open>line and token splitting\<close>

section \<open>Types\<close>

type_synonym u8 = "8 word"
type_synonym u16 = "16 word"
type_synonym u32 = "32 word"
type_synonym u64 = "64 word"

text \<open>A UTF-16 string, one code unit per element.\<close>

type_synonym wstring = "16 word list"

definition wide :: "string \<Rightarrow> wstring" where
  "wide s = map (\<lambda>c. of_nat (of_char c)) s"

text \<open>
  The newline and carriage return characters of the text formats.
\<close>

abbreviation LF :: char where "LF \<equiv> CHR 0x0A"
abbreviation CR :: char where "CR \<equiv> CHR 0x0D"

lemma unat_u32_less: "unat (w :: u32) < 4294967296"
  using unsigned_less [of w, where 'a = nat] by simp

lemma unat_u32_take_bit_64: "take_bit 64 (unat (w :: u32)) = unat w"
  using unat_u32_less [of w] by (simp add: take_bit_nat_eq_self_iff)

section \<open>Characters and ASCII folding\<close>

definition is_digit :: "char \<Rightarrow> bool" where
  "is_digit c \<longleftrightarrow> 48 \<le> (of_char c :: nat) \<and> (of_char c :: nat) \<le> 57"

definition is_upper :: "char \<Rightarrow> bool" where
  "is_upper c \<longleftrightarrow> 65 \<le> (of_char c :: nat) \<and> (of_char c :: nat) \<le> 90"

definition is_lower :: "char \<Rightarrow> bool" where
  "is_lower c \<longleftrightarrow> 97 \<le> (of_char c :: nat) \<and> (of_char c :: nat) \<le> 122"

definition to_lower :: "char \<Rightarrow> char" where
  "to_lower c = (if is_upper c then char_of ((of_char c :: nat) + 32) else c)"

definition digit_val :: "char \<Rightarrow> nat" where
  "digit_val c = of_char c - 48"

definition digit_chr :: "nat \<Rightarrow> char" where
  "digit_chr d = char_of (48 + d)"

lemma of_char_digit_chr [simp]: "d < 10 \<Longrightarrow> (of_char (digit_chr d) :: nat) = 48 + d"
  by (simp add: digit_chr_def)

lemma is_digit_digit_chr [simp]: "d < 10 \<Longrightarrow> is_digit (digit_chr d)"
  by (simp add: is_digit_def)

lemma digit_val_digit_chr [simp]: "d < 10 \<Longrightarrow> digit_val (digit_chr d) = d"
  by (simp add: digit_val_def)

lemma digit_val_less: "is_digit c \<Longrightarrow> digit_val c < 10"
  by (auto simp: is_digit_def digit_val_def)

lemma digit_chr_digit_val [simp]: "is_digit c \<Longrightarrow> digit_chr (digit_val c) = c"
  by (simp add: is_digit_def digit_val_def digit_chr_def)

lemma to_lower_idem [simp]: "to_lower (to_lower c) = to_lower c"
  by (auto simp: to_lower_def is_upper_def)

section \<open>Decimal numerals\<close>

text \<open>\<open>std::to_string\<close> and \<open>operator<<\<close> on unsigned and signed integers.\<close>

fun dec_of_nat :: "nat \<Rightarrow> string" where
  "dec_of_nat n = (if n < 10 then [digit_chr n] else dec_of_nat (n div 10) @ [digit_chr (n mod 10)])"

declare dec_of_nat.simps [simp del]

definition dec_of_int :: "int \<Rightarrow> string" where
  "dec_of_int i = (if i < 0 then CHR ''-'' # dec_of_nat (nat (- i)) else dec_of_nat (nat i))"

definition dec_val :: "nat \<Rightarrow> string \<Rightarrow> nat" where
  "dec_val acc s = foldl (\<lambda>a c. a * 10 + digit_val c) acc s"

lemma dec_val_Nil [simp]: "dec_val a [] = a"
  by (simp add: dec_val_def)

lemma dec_val_Cons [simp]: "dec_val a (c # s) = dec_val (a * 10 + digit_val c) s"
  by (simp add: dec_val_def)

lemma dec_val_append [simp]: "dec_val a (s @ t) = dec_val (dec_val a s) t"
  by (simp add: dec_val_def)

lemma dec_val_mono: "a \<le> b \<Longrightarrow> dec_val a s \<le> dec_val b s"
  by (induction s arbitrary: a b) auto

lemma dec_val_ge: "a \<le> dec_val a s"
proof (induction s arbitrary: a)
  case (Cons c s)
  have "a \<le> a * 10 + digit_val c" by simp
  also have "\<dots> \<le> dec_val (a * 10 + digit_val c) s" by (rule Cons.IH)
  finally show ?case by simp
qed simp

lemma dec_of_nat_ne [simp]: "dec_of_nat n \<noteq> []"
  by (subst dec_of_nat.simps) simp

lemma dec_of_nat_digits: "\<forall>c \<in> set (dec_of_nat n). is_digit c"
proof (induction n rule: dec_of_nat.induct)
  case (1 n)
  then show ?case
    by (cases "n < 10") (auto simp: dec_of_nat.simps [of n])
qed

lemma dec_val_dec_of_nat [simp]: "dec_val 0 (dec_of_nat n) = n"
proof (induction n rule: dec_of_nat.induct)
  case (1 n)
  then show ?case
    by (cases "n < 10") (auto simp: dec_of_nat.simps [of n])
qed

lemma dec_of_nat_inj: "dec_of_nat m = dec_of_nat n \<Longrightarrow> m = n"
  by (metis dec_val_dec_of_nat)

text \<open>
  \<open>std::stoll\<close> with base 10: leading white space, an optional sign, the longest run of
  digits; \<open>None\<close> for the two exceptions (no digits, value outside 64 bits).
\<close>

definition is_space :: "char \<Rightarrow> bool" where
  "is_space c \<longleftrightarrow> (of_char c :: nat) = 32 \<or> (9 \<le> (of_char c :: nat) \<and> (of_char c :: nat) \<le> 13)"

definition stoll_digits :: "string \<Rightarrow> nat option" where
  "stoll_digits s = (let ds = takeWhile is_digit s in if ds = [] then None else Some (dec_val 0 ds))"

definition stoll :: "string \<Rightarrow> int option" where
  "stoll s =
     (let t = dropWhile is_space s;
          neg = (t \<noteq> [] \<and> hd t = CHR ''-'');
          u = (if t \<noteq> [] \<and> (hd t = CHR ''-'' \<or> hd t = CHR ''+'') then tl t else t)
      in case stoll_digits u of
           None \<Rightarrow> None
         | Some n \<Rightarrow>
             (let v = (if neg then - int n else int n)
              in if - (2 ^ 63) \<le> v \<and> v < 2 ^ 63 then Some v else None))"

lemma is_digit_not_space [simp]: "is_digit c \<Longrightarrow> \<not> is_space c"
  by (auto simp: is_digit_def is_space_def)

lemma is_digit_not_sign [simp]: "is_digit c \<Longrightarrow> c \<noteq> CHR ''-'' \<and> c \<noteq> CHR ''+''"
  by (auto simp: is_digit_def)

lemma takeWhile_dec_of_nat [simp]: "takeWhile is_digit (dec_of_nat n) = dec_of_nat n"
  using dec_of_nat_digits by (simp add: takeWhile_eq_all_conv)

lemma hd_dec_of_nat_digit [simp]: "is_digit (hd (dec_of_nat n))"
  using dec_of_nat_digits [of n] by simp

lemma dropWhile_space_dec_of_nat [simp]: "dropWhile is_space (dec_of_nat n) = dec_of_nat n"
  by (metis dec_of_nat_ne dropWhile_eq_self_iff hd_dec_of_nat_digit is_digit_not_space)

lemma stoll_dec_of_int:
  assumes "- (2 ^ 63) \<le> i" and "i < 2 ^ 63"
  shows "stoll (dec_of_int i) = Some i"
proof (cases "i < 0")
  case True
  have "\<not> is_space (CHR ''-'')" by (simp add: is_space_def)
  with True assms show ?thesis
    by (simp add: stoll_def dec_of_int_def stoll_digits_def)
next
  case False
  have "hd (dec_of_nat (nat i)) \<noteq> CHR ''-''" "hd (dec_of_nat (nat i)) \<noteq> CHR ''+''"
    using is_digit_not_sign [OF hd_dec_of_nat_digit] by auto
  with False assms show ?thesis
    by (simp add: stoll_def dec_of_int_def stoll_digits_def)
qed

lemma dec_of_int_chars: "\<forall>c \<in> set (dec_of_int i). is_digit c \<or> c = CHR ''-''"
  using dec_of_nat_digits by (auto simp: dec_of_int_def)

lemma dec_of_int_no_LF: "LF \<notin> set (dec_of_int i)"
  using dec_of_int_chars [of i] by (auto simp: is_digit_def)

section \<open>Lines and tokens\<close>

text \<open>
  The lines a loop \<open>while (std::getline(in, line))\<close> sees: a text that does not end in a
  newline gives its last, non-empty segment as a line; a final newline gives no extra line.
\<close>

fun getlines_acc :: "string \<Rightarrow> string \<Rightarrow> string list" where
  "getlines_acc cur [] = (if cur = [] then [] else [rev cur])"
| "getlines_acc cur (c # s) =
     (if c = LF then rev cur # getlines_acc [] s else getlines_acc (c # cur) s)"

definition getlines :: "string \<Rightarrow> string list" where
  "getlines s = getlines_acc [] s"

definition unlines :: "string list \<Rightarrow> string" where
  "unlines ls = concat (map (\<lambda>l. l @ [LF]) ls)"

lemma unlines_Nil [simp]: "unlines [] = []"
  by (simp add: unlines_def)

lemma unlines_Cons [simp]: "unlines (l # ls) = l @ LF # unlines ls"
  by (simp add: unlines_def)

lemma unlines_append [simp]: "unlines (xs @ ys) = unlines xs @ unlines ys"
  by (simp add: unlines_def)

lemma getlines_acc_line:
  "LF \<notin> set l \<Longrightarrow> getlines_acc cur (l @ LF # s) = (rev cur @ l) # getlines_acc [] s"
  by (induction l arbitrary: cur) auto

lemma getlines_unlines [str_simps]:
  "\<forall>l \<in> set ls. LF \<notin> set l \<Longrightarrow> getlines (unlines ls) = ls"
  unfolding getlines_def by (induction ls) (auto simp: getlines_acc_line)

lemma getlines_no_LF_acc:
  "LF \<notin> set cur \<Longrightarrow> \<forall>l \<in> set (getlines_acc cur s). LF \<notin> set l"
  by (induction cur s rule: getlines_acc.induct) auto

lemma getlines_no_LF: "l \<in> set (getlines s) \<Longrightarrow> LF \<notin> set l"
  using getlines_no_LF_acc [of "[]" s] by (auto simp: getlines_def)

text \<open>\<open>find\<close> of one character and the two \<open>substr\<close> calls around it.\<close>

definition split_first :: "char \<Rightarrow> string \<Rightarrow> (string \<times> string) option" where
  "split_first c s =
     (if c \<in> set s then Some (takeWhile (\<lambda>x. x \<noteq> c) s, tl (dropWhile (\<lambda>x. x \<noteq> c) s)) else None)"

lemma split_first_append [str_simps]:
  assumes "c \<notin> set k"
  shows "split_first c (k @ c # v) = Some (k, v)"
proof -
  from assms have "\<And>x. x \<in> set k \<Longrightarrow> x \<noteq> c" by blast
  then have "takeWhile (\<lambda>x. x \<noteq> c) (k @ c # v) = k" and "dropWhile (\<lambda>x. x \<noteq> c) (k @ c # v) = c # v"
    by (subst takeWhile_append2 dropWhile_append2; simp)+
  then show ?thesis by (simp add: split_first_def)
qed

lemma split_first_Some:
  assumes "split_first c s = Some (k, v)"
  shows "s = k @ c # v \<and> c \<notin> set k"
proof -
  from assms have c: "c \<in> set s" and k: "k = takeWhile (\<lambda>x. x \<noteq> c) s"
    and v: "v = tl (dropWhile (\<lambda>x. x \<noteq> c) s)"
    by (auto simp: split_first_def split: if_splits)
  from c have ne: "dropWhile (\<lambda>x. x \<noteq> c) s \<noteq> []" by (simp add: dropWhile_eq_Nil_conv)
  then have "hd (dropWhile (\<lambda>x. x \<noteq> c) s) = c" using hd_dropWhile [OF ne] by simp
  with ne v have "dropWhile (\<lambda>x. x \<noteq> c) s = c # v" by (metis list.collapse)
  with k have "s = k @ c # v" by (metis takeWhile_dropWhile_id)
  moreover from k have "c \<notin> set k" by (auto dest: set_takeWhileD)
  ultimately show ?thesis by simp
qed

lemma split_first_None: "split_first c s = None \<longleftrightarrow> c \<notin> set s"
  by (simp add: split_first_def)

text \<open>\<open>find\<close> of a substring: the text before its first occurrence and the text after it.\<close>

fun split_sub :: "string \<Rightarrow> string \<Rightarrow> (string \<times> string) option" where
  "split_sub pat [] = (if pat = [] then Some ([], []) else None)"
| "split_sub pat (c # s) =
     (if take (length pat) (c # s) = pat then Some ([], drop (length pat) (c # s))
      else map_option (\<lambda>(a, b). (c # a, b)) (split_sub pat s))"

lemma take_pat_iff: "take (length pat) s = pat \<longleftrightarrow> (\<exists>t. s = pat @ t)"
  by (metis append_eq_conv_conj append_take_drop_id)

lemma split_sub_Some: "split_sub pat s = Some (a, b) \<Longrightarrow> s = a @ pat @ b"
proof (induction pat s arbitrary: a rule: split_sub.induct)
  case (2 pat c s)
  show ?case
  proof (cases "take (length pat) (c # s) = pat")
    case True
    with 2(2) have "a = []" and b: "b = drop (length pat) (c # s)" by auto
    with True show ?thesis by (metis append_Nil append_take_drop_id)
  qed (use 2 in auto)
qed (auto split: if_splits)

lemma split_sub_here: "split_sub pat (pat @ b) = Some ([], b)"
proof (cases "pat @ b")
  case (Cons c s)
  then have "take (length pat) (c # s) = pat" by (metis take_pat_iff)
  moreover from Cons have "drop (length pat) (c # s) = b" by (metis append_eq_conv_conj)
  ultimately show ?thesis using Cons by simp
qed simp

lemma split_sub_None_append: "split_sub pat (f @ g) = None \<Longrightarrow> split_sub pat f = None"
proof (induction f)
  case Nil
  then show ?case by (cases g) (auto split: if_splits)
next
  case (Cons c f)
  then have "take (length pat) (c # f @ g) \<noteq> pat" and n: "split_sub pat (f @ g) = None"
    by (auto split: if_splits)
  then have "take (length pat) (c # f) \<noteq> pat"
    unfolding take_pat_iff by (metis append.assoc append_Cons)
  with Cons.IH [OF n] show ?case by simp
qed

text \<open>An occurrence at the end of a prefix is an occurrence in the whole text.\<close>

lemma split_sub_extend: "split_sub pat (a @ pat) = Some (a, []) \<Longrightarrow> split_sub pat (a @ pat @ b) = Some (a, b)"
proof (induction a)
  case (Cons c a)
  have "take (length pat) ((c # a @ pat) @ b) = take (length pat) (c # a @ pat)"
    by (subst take_append) simp
  with Cons show ?case by (auto split: if_splits)
qed (simp add: split_sub_here)

text \<open>A character of the pattern that the text before it lacks fixes the first occurrence.\<close>

lemma split_sub_mark:
  assumes pat: "pat = p @ x # q" and "x \<notin> set p" and "x \<notin> set a"
  shows "split_sub pat (a @ pat @ b) = Some (a, b)"
  using assms(3)
proof (induction a)
  case (Cons c a)
  have "take (length pat) (c # a @ pat @ b) \<noteq> pat"
  proof
    assume "take (length pat) (c # a @ pat @ b) = pat"
    then obtain t where t: "(c # a @ p) @ (x # q @ b) = p @ (x # q @ t)"
      unfolding take_pat_iff pat by auto
    from arg_cong [OF t, of "\<lambda>s. s ! length p"] have "(c # a @ p) ! length p = x"
      by (simp only: nth_append) simp
    moreover have "(c # a @ p) ! length p \<in> set (c # a @ p)" by (intro nth_mem) simp
    ultimately show False using Cons.prems assms(2) by auto
  qed
  with Cons show ?case by simp
qed (simp add: split_sub_here)

lemma split_sub_fixed:
  assumes "split_sub pat s = Some (a, b)"
  shows "split_sub pat (a @ pat) = Some (a, [])"
  using assms
proof (induction pat s arbitrary: a rule: split_sub.induct)
  case (2 pat c s)
  show ?case
  proof (cases "take (length pat) (c # s) = pat")
    case True
    with 2(2) split_sub_here [of pat "[]"] show ?thesis by auto
  next
    case False
    with 2(2) obtain a' where a: "a = c # a'" and s': "split_sub pat s = Some (a', b)" by auto
    then have "c # s = (c # a' @ pat) @ b" using split_sub_Some by fastforce
    with False have "take (length pat) (c # a' @ pat) \<noteq> pat"
      unfolding take_pat_iff by (metis append.assoc)
    with 2(1) [OF False s'] a show ?thesis by simp
  qed
qed (auto split: if_splits)

lemma split_sub_suffix: "split_sub pat (g @ l @ pat) = Some (g @ l, []) \<Longrightarrow> split_sub pat (l @ pat) = Some (l, [])"
  by (induction g) (auto split: if_splits)

lemma split_sub_before:
  "split_sub pat (f @ g @ pat) = Some (f @ g, []) \<Longrightarrow> g \<noteq> [] \<Longrightarrow> pat \<noteq> [] \<Longrightarrow> split_sub pat f = None"
proof (induction f)
  case (Cons c f)
  then have "take (length pat) (c # f @ g @ pat) \<noteq> pat" and s: "split_sub pat (f @ g @ pat) = Some (f @ g, [])"
    by (auto split: if_splits)
  then have "take (length pat) (c # f) \<noteq> pat"
    unfolding take_pat_iff by (metis append.assoc append_Cons)
  with Cons.IH [OF s Cons.prems(2,3)] show ?case by simp
qed simp

text \<open>A character outside the pattern separates the searches before and after it.\<close>

lemma split_sub_skip:
  assumes "split_sub pat f = None" and "c \<notin> set pat" and "pat \<noteq> []"
  shows "split_sub pat (f @ c # s) = map_option (\<lambda>(a, b). (f @ c # a, b)) (split_sub pat s)"
  using assms(1)
proof (induction f)
  case Nil
  have "take (length pat) (c # s) \<noteq> pat"
    using assms(2,3) by (cases pat) auto
  then show ?case by simp
next
  case (Cons x f)
  then have x: "take (length pat) (x # f) \<noteq> pat" and n: "split_sub pat f = None" by (auto split: if_splits)
  have "take (length pat) (x # f @ c # s) \<noteq> pat"
  proof
    assume h: "take (length pat) (x # f @ c # s) = pat"
    then obtain t where t: "(x # f) @ c # s = pat @ t" unfolding take_pat_iff by auto
    then consider us where "pat = (x # f) @ us" "us @ t = c # s" | us where "x # f = pat @ us"
      using t unfolding append_eq_append_conv2 by metis
    then show False
    proof cases
      case (1 us)
      then show False using x assms(2) by (cases us) (auto simp: take_pat_iff)
    next
      case (2 us)
      with x show False unfolding take_pat_iff by blast
    qed
  qed
  with Cons.IH [OF n] show ?case by (cases "split_sub pat s") auto
qed

section \<open>Injective maps\<close>

definition map_inj :: "('k \<rightharpoonup> 'v) \<Rightarrow> bool" where
  "map_inj m \<longleftrightarrow> (\<forall>j k v. m j = Some v \<longrightarrow> m k = Some v \<longrightarrow> j = k)"

lemma map_injD: "map_inj m \<Longrightarrow> m j = Some v \<Longrightarrow> m k = Some v \<Longrightarrow> j = k"
  unfolding map_inj_def by blast

lemma map_inj_upd: "map_inj m \<Longrightarrow> v \<notin> ran m \<Longrightarrow> map_inj (m(k \<mapsto> v))"
  unfolding map_inj_def ran_def by auto

lemma map_inj_del: "map_inj m \<Longrightarrow> map_inj (m(k := None))"
  unfolding map_inj_def by auto

lemma ran_del: "map_inj m \<Longrightarrow> m k = Some v \<Longrightarrow> ran (m(k := None)) = ran m - {v}"
  by (auto simp: ran_def dest: map_injD split: if_splits)

section \<open>Ordered maps\<close>

text \<open>
  \<open>std::map\<close>: an association list strictly sorted by key, so that iteration order is
  the list order.  Clients use the interface \<open>ordered_map\<close> only.
\<close>

fun om_put :: "'k::linorder \<Rightarrow> 'v \<Rightarrow> ('k \<times> 'v) list \<Rightarrow> ('k \<times> 'v) list" where
  "om_put k v [] = [(k, v)]"
| "om_put k v (e # m) =
     (if k < fst e then (k, v) # e # m
      else if k = fst e then (k, v) # m
      else e # om_put k v m)"

fun om_del :: "'k::linorder \<Rightarrow> ('k \<times> 'v) list \<Rightarrow> ('k \<times> 'v) list" where
  "om_del k [] = []"
| "om_del k (e # m) = (if fst e = k then m else e # om_del k m)"

definition om_get :: "('k \<times> 'v) list \<Rightarrow> 'k \<rightharpoonup> 'v" where
  "om_get m = map_of m"

definition om_wf :: "('k::linorder \<times> 'v) list \<Rightarrow> bool" where
  "om_wf m \<longleftrightarrow> sorted_wrt (<) (map fst m)"

locale ordered_map =
  fixes empty :: 'm
    and get :: "'m \<Rightarrow> 'k \<rightharpoonup> 'v"
    and put :: "'k \<Rightarrow> 'v \<Rightarrow> 'm \<Rightarrow> 'm"
    and del :: "'k \<Rightarrow> 'm \<Rightarrow> 'm"
    and wf :: "'m \<Rightarrow> bool"
  assumes get_empty: "get empty k = None"
    and get_put: "get (put k v m) = (get m)(k \<mapsto> v)"
    and get_del: "wf m \<Longrightarrow> get (del k m) = (get m)(k := None)"
    and wf_empty: "wf empty"
    and wf_put: "wf m \<Longrightarrow> wf (put k v m)"
    and wf_del: "wf m \<Longrightarrow> wf (del k m)"
begin

lemma get_put_same: "get (put k v m) k = Some v"
  by (simp add: get_put)

lemma get_put_other: "j \<noteq> k \<Longrightarrow> get (put k v m) j = get m j"
  by (simp add: get_put)

lemma get_del_same: "wf m \<Longrightarrow> get (del k m) k = None"
  by (simp add: get_del)

lemma get_del_other: "wf m \<Longrightarrow> j \<noteq> k \<Longrightarrow> get (del k m) j = get m j"
  by (simp add: get_del)

lemma get_del_put: "wf m \<Longrightarrow> get m k = None \<Longrightarrow> get (del k (put k v m)) = get m"
  by (auto simp: get_del wf_put get_put)

end

lemma om_put_get: "om_get (om_put k v m) = (om_get m)(k \<mapsto> v)"
  by (induction m) (auto simp: om_get_def fun_eq_iff)

lemma om_put_keys: "fst ` set (om_put k v m) = insert k (fst ` set m)"
  by (induction m) auto

lemma om_put_wf: "om_wf m \<Longrightarrow> om_wf (om_put k v m)"
proof (induction m)
  case (Cons e m)
  then have wf: "om_wf m" and lt: "\<forall>x \<in> fst ` set m. fst e < x"
    by (auto simp: om_wf_def)
  from Cons.IH [OF wf] have "om_wf (om_put k v m)" .
  moreover have "fst ` set (om_put k v m) = insert k (fst ` set m)"
    by (rule om_put_keys)
  ultimately show ?case
    using Cons.prems lt by (fastforce simp: om_wf_def simp flip: set_map)
qed (simp add: om_wf_def)

lemma om_get_notin: "k \<notin> fst ` set m \<Longrightarrow> om_get m k = None"
  by (simp add: om_get_def map_of_eq_None_iff)

lemma om_del_get: "om_wf m \<Longrightarrow> om_get (om_del k m) = (om_get m)(k := None)"
proof (induction m)
  case (Cons e m)
  then have wf: "om_wf m" and lt: "\<forall>x \<in> fst ` set m. fst e < x"
    by (auto simp: om_wf_def)
  show ?case
  proof (cases "fst e = k")
    case True
    with lt have "om_get m k = None" by (auto intro!: om_get_notin)
    with True show ?thesis by (auto simp: om_get_def fun_eq_iff)
  next
    case False
    with Cons.IH [OF wf] show ?thesis by (auto simp: om_get_def fun_eq_iff)
  qed
qed (simp add: om_get_def)

lemma om_del_subset: "set (om_del k m) \<subseteq> set m"
  by (induction m) auto

lemma om_del_wf: "om_wf m \<Longrightarrow> om_wf (om_del k m)"
proof (induction m)
  case (Cons e m)
  then show ?case using om_del_subset [of k m] by (force simp: om_wf_def)
qed simp

interpretation om: ordered_map "[]" om_get om_put om_del om_wf
  by unfold_locales
    (simp_all add: om_put_get om_del_get om_put_wf om_del_wf, simp_all add: om_get_def om_wf_def)

lemma om_wf_filter: "om_wf m \<Longrightarrow> om_wf (filter P m)"
  unfolding om_wf_def by (induction m) auto

lemma om_wf_distinct: "om_wf m \<Longrightarrow> distinct (map fst m)"
  unfolding om_wf_def by (simp add: strict_sorted_iff)

lemma om_get_in_set: "om_wf m \<Longrightarrow> om_get m k = Some v \<longleftrightarrow> (k, v) \<in> set m"
  unfolding om_get_def by (simp add: om_wf_distinct map_of_eq_Some_iff)

lemma om_get_filter:
  assumes "om_wf m"
  shows "om_get (filter (\<lambda>e. P (snd e)) m) k =
    (case om_get m k of None \<Rightarrow> None | Some v \<Rightarrow> if P v then Some v else None)"
proof (cases "om_get (filter (\<lambda>e. P (snd e)) m) k")
  case None
  then have "\<not> (\<exists>v. (k, v) \<in> set m \<and> P v)"
    by (force simp: om_get_def map_of_eq_None_iff)
  with None show ?thesis
    using om_get_in_set [OF assms] by (auto split: option.splits)
next
  case (Some v)
  then have "(k, v) \<in> set m" "P v"
    using om_get_in_set [OF om_wf_filter [OF assms]] by (auto)
  with Some show ?thesis
    using om_get_in_set [OF assms, of k v] by auto
qed

text \<open>Inserting the entries of a sorted list one after the other rebuilds that list.\<close>

lemma om_put_last: "om_wf (m @ [(k, v)]) \<Longrightarrow> om_put k v m = m @ [(k, v)]"
proof (induction m)
  case (Cons e m)
  then have "fst e < k" and "om_wf (m @ [(k, v)])" by (auto simp: om_wf_def)
  with Cons.IH show ?case by auto
qed simp

lemma foldl_om_put: "om_wf (m @ es) \<Longrightarrow> foldl (\<lambda>m e. om_put (fst e) (snd e) m) m es = m @ es"
proof (induction es arbitrary: m)
  case (Cons e es)
  then have "om_wf (m @ [e])" by (auto simp: om_wf_def sorted_wrt_append)
  then have "om_put (fst e) (snd e) m = m @ [e]" by (intro om_put_last [of m "fst e" "snd e", simplified])
  with Cons show ?case by simp
qed simp

end
