(* ===== verification/Common_Error.thy ===== *)
theory Common_Error
  imports Opt_Prelude
begin

text \<open>
  The error model of \<^verbatim>\<open>include/common/error.hpp\<close> and \<^verbatim>\<open>source/common/error.cpp\<close>:
  an error carries its domain, the raw code, the failed operation and a display text.
  \<open>Result<T>\<close> is the sum type \<open>Error + 'a\<close> (\<open>Inl\<close> the failure) and \<open>Result<void>\<close>
  is \<open>Error + unit\<close>.  The text the operating system has for a code
  (\<open>FormatMessageW\<close>) is the parameter \<open>sysmsg\<close>; the empty text stands for its failure.
  Display texts that the source writes in Chinese are transcribed as ASCII glosses, one
  gloss per source literal: no code compares them.
\<close>

datatype ErrorDomain =
  Win32 | HResult | Pdh | NtStatus | Validation | Unsupported | Internal

record Error =
  err_domain :: ErrorDomain
  err_code :: u64
  err_operation :: string
  err_message :: string

type_synonym 'a result = "Error + 'a"

abbreviation Success :: "'a \<Rightarrow> 'a result" where "Success \<equiv> Inr"
abbreviation Failure :: "Error \<Rightarrow> 'a result" where "Failure \<equiv> Inl"

definition HasValue :: "'a result \<Rightarrow> bool" where
  "HasValue r = (case r of Inl _ \<Rightarrow> False | Inr _ \<Rightarrow> True)"

lemma HasValue_simps [simp]: "HasValue (Inr v)" "\<not> HasValue (Inl e)"
  by (simp_all add: HasValue_def)

definition ErrorDomain_ToString :: "ErrorDomain \<Rightarrow> string" where
  "ErrorDomain_ToString d =
     (case d of
        Win32 \<Rightarrow> ''Win32''
      | HResult \<Rightarrow> ''HRESULT''
      | Pdh \<Rightarrow> ''PDH''
      | NtStatus \<Rightarrow> ''NTSTATUS''
      | Validation \<Rightarrow> ''Validation''
      | Unsupported \<Rightarrow> ''Unsupported''
      | Internal \<Rightarrow> ''Internal'')"

definition hex_chr :: "nat \<Rightarrow> char" where
  "hex_chr d = (if d < 10 then char_of (48 + d) else char_of (55 + d))"

fun hex_of_nat :: "nat \<Rightarrow> string" where
  "hex_of_nat n = (if n < 16 then [hex_chr n] else hex_of_nat (n div 16) @ [hex_chr (n mod 16)])"

declare hex_of_nat.simps [simp del]

definition FormatSystemMessage :: "(u32 \<Rightarrow> string) \<Rightarrow> u32 \<Rightarrow> string" where
  "FormatSystemMessage sysmsg c =
     rev (dropWhile (\<lambda>x. x = CR \<or> x = LF) (rev (sysmsg c)))"

definition FormatUnknown :: "ErrorDomain \<Rightarrow> u64 \<Rightarrow> string" where
  "FormatUnknown d c = ErrorDomain_ToString d @ '' error 0x'' @ hex_of_nat (unat c)"

definition FormatErrorMessage :: "(u32 \<Rightarrow> string) \<Rightarrow> ErrorDomain \<Rightarrow> u64 \<Rightarrow> string" where
  "FormatErrorMessage sysmsg d c =
     (if d = Win32 \<or> d = HResult then
        (let m = FormatSystemMessage sysmsg (ucast c)
         in if m = [] then FormatUnknown d c else m)
      else if d = Pdh \<or> d = NtStatus then FormatUnknown d c
      else if d = Validation then ''Validation error''
      else if d = Unsupported then ''Unsupported operation''
      else FormatUnknown d c)"

definition MakeError :: "(u32 \<Rightarrow> string) \<Rightarrow> ErrorDomain \<Rightarrow> u64 \<Rightarrow> string \<Rightarrow> Error" where
  "MakeError sysmsg d c op =
     \<lparr>err_domain = d, err_code = c, err_operation = op,
      err_message = FormatErrorMessage sysmsg d c\<rparr>"

definition FromWin32 :: "(u32 \<Rightarrow> string) \<Rightarrow> u32 \<Rightarrow> string \<Rightarrow> Error" where
  "FromWin32 sysmsg c op = MakeError sysmsg Win32 (ucast c) op"

text \<open>The three signed constructors reinterpret the code as 32-bit unsigned first.\<close>

definition FromHResult :: "(u32 \<Rightarrow> string) \<Rightarrow> u32 \<Rightarrow> string \<Rightarrow> Error" where
  "FromHResult sysmsg c op = MakeError sysmsg HResult (ucast c) op"

definition FromPdh :: "(u32 \<Rightarrow> string) \<Rightarrow> u32 \<Rightarrow> string \<Rightarrow> Error" where
  "FromPdh sysmsg c op = MakeError sysmsg Pdh (ucast c) op"

definition FromNtStatus :: "(u32 \<Rightarrow> string) \<Rightarrow> u32 \<Rightarrow> string \<Rightarrow> Error" where
  "FromNtStatus sysmsg c op = MakeError sysmsg NtStatus (ucast c) op"

definition Error_Unsupported :: "string \<Rightarrow> string \<Rightarrow> Error" where
  "Error_Unsupported op msg =
     \<lparr>err_domain = Unsupported, err_code = 0, err_operation = op, err_message = msg\<rparr>"

definition Error_Validation :: "string \<Rightarrow> string \<Rightarrow> Error" where
  "Error_Validation op msg =
     \<lparr>err_domain = Validation, err_code = 0, err_operation = op, err_message = msg\<rparr>"

lemma err_domain_Validation [simp]: "err_domain (Error_Validation op msg) = Validation"
  by (simp add: Error_Validation_def)

lemma hex_of_nat_ne: "hex_of_nat n \<noteq> []"
  by (subst hex_of_nat.simps) simp

lemma FormatErrorMessage_ne: "FormatErrorMessage sysmsg d c \<noteq> []"
  by (simp add: FormatErrorMessage_def FormatUnknown_def Let_def)

text \<open>The code survives widening: no sign extension reaches the 64-bit field.\<close>

lemma FromHResult_code: "unat (err_code (FromHResult sysmsg c op)) = unat c"
  by (simp add: FromHResult_def MakeError_def unsigned_ucast_eq unat_u32_take_bit_64)

lemma FormatSystemMessage_trimmed:
  "FormatSystemMessage sysmsg c = [] \<or>
   (last (FormatSystemMessage sysmsg c) \<noteq> CR \<and> last (FormatSystemMessage sysmsg c) \<noteq> LF)"
proof (cases "dropWhile (\<lambda>x. x = CR \<or> x = LF) (rev (sysmsg c)) = []")
  case False
  from hd_dropWhile [OF False] False show ?thesis
    by (simp add: FormatSystemMessage_def last_rev)
qed (simp add: FormatSystemMessage_def)

end
