(* ===== verification/Policy_Engine.thy ===== *)
theory Policy_Engine
  imports Common_Error
begin

text \<open>
  The decision core: \<^verbatim>\<open>include/policy/policy_engine.hpp\<close> and
  \<^verbatim>\<open>source/policy/policy_engine.cpp\<close>.  Memory margin and pressure grading, the rule table
  \<open>EvaluatePolicy\<close>, the hysteresis filter and the evaluator that composes them.  Clock
  readings and durations are milliseconds as \<open>int\<close>; 64-bit counters are words.
\<close>

section \<open>Data\<close>

datatype ResourcePressure = Comfortable | Adequate | Tight | Critical

datatype PolicyAction = NoOp | Notify | SuggestMemoryTune | SuggestPriorityBoost

record PolicyThresholds =
  comfortableMarginPercent :: int
  adequateMarginPercent :: int
  tightMarginPercent :: int

definition default_thresholds :: PolicyThresholds where
  "default_thresholds =
     \<lparr>comfortableMarginPercent = 30, adequateMarginPercent = 15, tightMarginPercent = 5\<rparr>"

record GameFocus =
  gf_gameId :: string
  gf_running :: bool
  gf_foreground :: bool
  gf_pauseWhenBackground :: bool

record PolicyInput =
  in_pressure :: ResourcePressure
  in_game :: GameFocus
  in_userPresent :: bool

record PolicyDecision =
  d_action :: PolicyAction
  d_gameId :: string
  d_reasonCode :: string
  d_reason :: string
  d_ttlMs :: int

definition empty_decision :: PolicyDecision where
  "empty_decision = \<lparr>d_action = NoOp, d_gameId = [], d_reasonCode = [], d_reason = [], d_ttlMs = 0\<rparr>"

definition PressureToString :: "ResourcePressure \<Rightarrow> string" where
  "PressureToString p =
     (case p of Comfortable \<Rightarrow> ''comfortable'' | Adequate \<Rightarrow> ''adequate''
      | Tight \<Rightarrow> ''tight'' | Critical \<Rightarrow> ''critical'')"

definition ActionToString :: "PolicyAction \<Rightarrow> string" where
  "ActionToString a =
     (case a of NoOp \<Rightarrow> ''NoOp'' | Notify \<Rightarrow> ''Notify''
      | SuggestMemoryTune \<Rightarrow> ''SuggestMemoryTune''
      | SuggestPriorityBoost \<Rightarrow> ''SuggestPriorityBoost'')"

text \<open>The grades are ordered from the roomiest to the tightest, as the enum declares them.\<close>

fun pressure_rank :: "ResourcePressure \<Rightarrow> nat" where
  "pressure_rank Comfortable = 0"
| "pressure_rank Adequate = 1"
| "pressure_rank Tight = 2"
| "pressure_rank Critical = 3"

lemma pressure_rank_inj: "pressure_rank p = pressure_rank q \<Longrightarrow> p = q"
  by (cases p; cases q) simp_all

instantiation ResourcePressure :: linorder
begin

definition less_eq_ResourcePressure :: "ResourcePressure \<Rightarrow> ResourcePressure \<Rightarrow> bool" where
  "less_eq_ResourcePressure p q \<longleftrightarrow> pressure_rank p \<le> pressure_rank q"

definition less_ResourcePressure :: "ResourcePressure \<Rightarrow> ResourcePressure \<Rightarrow> bool" where
  "less_ResourcePressure p q \<longleftrightarrow> pressure_rank p < pressure_rank q"

instance
  by standard
    (auto simp: less_eq_ResourcePressure_def less_ResourcePressure_def dest: pressure_rank_inj)

end

section \<open>Pure grading and rules\<close>

definition ComputeMemoryMarginPercent :: "u64 \<Rightarrow> u64 \<Rightarrow> u32 result" where
  "ComputeMemoryMarginPercent availableBytes totalBytes =
     (if totalBytes = 0 \<or> availableBytes > totalBytes then
        Failure (Error_Validation ''ComputeMemoryMarginPercent''
          ''invalid memory counts (total == 0 or available > total)'')
      else Success (ucast ((availableBytes * 100) div totalBytes)))"

definition thresholds_ok :: "PolicyThresholds \<Rightarrow> bool" where
  "thresholds_ok t \<longleftrightarrow>
     tightMarginPercent t \<ge> 0 \<and>
     tightMarginPercent t < adequateMarginPercent t \<and>
     adequateMarginPercent t < comfortableMarginPercent t \<and>
     comfortableMarginPercent t \<le> 100"

definition ClassifyPressure :: "int \<Rightarrow> PolicyThresholds \<Rightarrow> ResourcePressure result" where
  "ClassifyPressure margin t =
     (if margin < 0 \<or> margin > 100 then
        Failure (Error_Validation ''ClassifyPressure'' ''margin percent must be in 0..100'')
      else if \<not> thresholds_ok t then
        Failure (Error_Validation ''ClassifyPressure''
          ''thresholds must satisfy 0 <= tight < adequate < comfortable <= 100'')
      else if margin > comfortableMarginPercent t then Success Comfortable
      else if margin > adequateMarginPercent t then Success Adequate
      else if margin > tightMarginPercent t then Success Tight
      else Success Critical)"

definition EvaluatePolicy :: "PolicyInput \<Rightarrow> PolicyDecision" where
  "EvaluatePolicy inp =
     (let g = in_game inp;
          decide = (\<lambda>a c r. \<lparr>d_action = a, d_gameId = gf_gameId g, d_reasonCode = c,
                             d_reason = r, d_ttlMs = 0\<rparr>)
      in if \<not> gf_running g \<or> gf_gameId g = [] then decide NoOp ''no_game''
             ''no game is running''
         else if in_pressure inp = Critical then decide Notify ''mem_critical''
             ''memory margin critical: notify only''
         else if \<not> in_userPresent inp then decide NoOp ''user_away''
             ''user is away: no suggestion''
         else if \<not> gf_foreground g \<and> gf_pauseWhenBackground g then decide NoOp ''game_background''
             ''game in background and paused''
         else if in_pressure inp = Tight then decide SuggestMemoryTune ''mem_tight''
             ''memory margin tight: suggest maintenance''
         else if gf_foreground g then decide SuggestPriorityBoost ''prio_boost''
             ''game in foreground with margin: suggest priority boost''
         else decide NoOp ''mem_ok''
             ''margin sufficient: no evidence, no optimisation'')"

section \<open>Hysteresis\<close>

record HysteresisFilter =
  hf_cooldown :: int
  hf_state :: bool
  hf_lastChange :: int
  hf_hasState :: bool

definition HysteresisFilter_new :: "int \<Rightarrow> HysteresisFilter" where
  "HysteresisFilter_new cooldown =
     \<lparr>hf_cooldown = (if cooldown < 0 then 0 else cooldown), hf_state = False,
      hf_lastChange = 0, hf_hasState = False\<rparr>"

definition HysteresisFilter_Update ::
    "HysteresisFilter \<Rightarrow> bool \<Rightarrow> int \<Rightarrow> bool \<times> HysteresisFilter" where
  "HysteresisFilter_Update f new now =
     (if \<not> hf_hasState f then
        (new, f\<lparr>hf_state := new, hf_lastChange := now, hf_hasState := True\<rparr>)
      else if new = hf_state f then (hf_state f, f)
      else if now - hf_lastChange f < hf_cooldown f then (hf_state f, f)
      else (new, f\<lparr>hf_state := new, hf_lastChange := now\<rparr>))"

definition HysteresisFilter_Reset :: "HysteresisFilter \<Rightarrow> HysteresisFilter" where
  "HysteresisFilter_Reset f = f\<lparr>hf_state := False, hf_hasState := False, hf_lastChange := 0\<rparr>"

section \<open>The evaluator\<close>

record PolicyEvaluation =
  ev_decision :: PolicyDecision
  ev_suppressed :: bool

record PolicyEvaluator =
  pe_thresholds :: PolicyThresholds
  pe_cooldown :: int
  pe_filter :: HysteresisFilter
  pe_lastDecision :: PolicyDecision
  pe_hasLast :: bool

definition SameDecision :: "PolicyDecision \<Rightarrow> PolicyDecision \<Rightarrow> bool" where
  "SameDecision a b \<longleftrightarrow>
     d_action a = d_action b \<and> d_gameId a = d_gameId b \<and> d_reasonCode a = d_reasonCode b"

definition PolicyEvaluator_new :: "PolicyThresholds \<Rightarrow> int \<Rightarrow> PolicyEvaluator" where
  "PolicyEvaluator_new t cooldown =
     (let cd = (if cooldown < 0 then 0 else cooldown)
      in \<lparr>pe_thresholds = t, pe_cooldown = cd, pe_filter = HysteresisFilter_new cd,
          pe_lastDecision = empty_decision, pe_hasLast = False\<rparr>)"

definition fresh_decision :: "PolicyEvaluator \<Rightarrow> PolicyInput \<Rightarrow> PolicyDecision" where
  "fresh_decision e inp =
     (let d = EvaluatePolicy inp
      in if d_action d \<noteq> NoOp then d\<lparr>d_ttlMs := pe_cooldown e\<rparr> else d)"

definition PolicyEvaluator_Evaluate ::
    "PolicyEvaluator \<Rightarrow> PolicyInput \<Rightarrow> int \<Rightarrow> PolicyEvaluation \<times> PolicyEvaluator" where
  "PolicyEvaluator_Evaluate e inp now =
     (let fresh = fresh_decision e inp;
          acting = (d_action fresh \<noteq> NoOp)
      in if \<not> pe_hasLast e then
           (\<lparr>ev_decision = fresh, ev_suppressed = False\<rparr>,
            e\<lparr>pe_hasLast := True, pe_lastDecision := fresh,
              pe_filter := snd (HysteresisFilter_Update (pe_filter e) acting now)\<rparr>)
         else if SameDecision (pe_lastDecision e) fresh then
           (\<lparr>ev_decision = fresh, ev_suppressed = False\<rparr>, e)
         else
           (let (effective, filt) = HysteresisFilter_Update (pe_filter e) acting now
            in if effective = acting then
                 (\<lparr>ev_decision = fresh, ev_suppressed = False\<rparr>,
                  e\<lparr>pe_filter := filt, pe_lastDecision := fresh\<rparr>)
               else (\<lparr>ev_decision = pe_lastDecision e, ev_suppressed = True\<rparr>,
                     e\<lparr>pe_filter := filt\<rparr>)))"

definition PolicyEvaluator_Reset :: "PolicyEvaluator \<Rightarrow> PolicyEvaluator" where
  "PolicyEvaluator_Reset e =
     e\<lparr>pe_hasLast := False, pe_lastDecision := empty_decision,
       pe_filter := HysteresisFilter_Reset (pe_filter e)\<rparr>"

definition PolicyEvaluator_IsActing :: "PolicyEvaluator \<Rightarrow> bool" where
  "PolicyEvaluator_IsActing e = hf_state (pe_filter e)"

section \<open>Grading is total and monotone\<close>

lemma ClassifyPressure_Success_iff:
  "HasValue (ClassifyPressure m t) \<longleftrightarrow> 0 \<le> m \<and> m \<le> 100 \<and> thresholds_ok t"
  by (simp add: ClassifyPressure_def)

lemma ClassifyPressure_rank:
  assumes "ClassifyPressure m t = Success p"
  shows "pressure_rank p =
    of_bool (m \<le> comfortableMarginPercent t) + of_bool (m \<le> adequateMarginPercent t) +
    of_bool (m \<le> tightMarginPercent t)"
  using assms by (auto simp: ClassifyPressure_def thresholds_ok_def split: if_splits)

text \<open>
  The grading succeeds exactly on margins in 0..100 with ordered thresholds, and a larger
  margin is never graded as tighter.
\<close>

theorem ClassifyPressure_total_monotone:
  "(HasValue (ClassifyPressure m t) \<longleftrightarrow> 0 \<le> m \<and> m \<le> 100 \<and> thresholds_ok t) \<and>
   (ClassifyPressure m t = Success p \<and> ClassifyPressure m' t = Success p' \<and> m \<le> m' \<longrightarrow> p' \<le> p)"
  using ClassifyPressure_rank [of m t p] ClassifyPressure_rank [of m' t p']
  by (auto simp: ClassifyPressure_Success_iff less_eq_ResourcePressure_def)

theorem ClassifyPressure_total_monotone_witness:
  "ClassifyPressure 10 default_thresholds = Success Tight \<and>
   ClassifyPressure 40 default_thresholds = Success Comfortable \<and> Comfortable \<le> Tight"
  using ClassifyPressure_total_monotone [of 10 default_thresholds Tight 40 Comfortable]
  by (simp add: ClassifyPressure_def thresholds_ok_def default_thresholds_def)

section \<open>The margin is a percentage\<close>

lemma margin_word_div:
  fixes a t :: u64
  assumes "unat t * 100 < 2 ^ 64" and "a \<le> t"
  shows "unat ((a * 100) div t) = unat a * 100 div unat t"
proof -
  have "unat a \<le> unat t" using assms(2) by (simp add: word_le_nat_alt)
  with assms(1) have "unat a * 100 < 2 ^ 64" by linarith
  then have "unat (a * 100) = unat a * 100"
    by (simp add: unat_word_ariths)
  then show ?thesis by (simp add: unat_div)
qed

lemma percent_le_100: "(a::nat) \<le> t \<Longrightarrow> a * 100 div t \<le> 100"
  by (metis div_le_mono div_mult_self1_is_m div_by_0 le0 mult.commute mult_le_mono1 not_gr0)

text \<open>
  For a valid pair of counters whose total stays below 2^64/100 the margin is the exact
  rounded-down percentage and lies in 0..100.
\<close>

theorem ComputeMemoryMarginPercent_exact:
  assumes "0 < unat t" and "a \<le> t" and "unat t * 100 < 2 ^ 64"
  shows "\<exists>m. ComputeMemoryMarginPercent a t = Success m \<and>
    unat m = unat a * 100 div unat t \<and> unat m \<le> 100"
proof -
  have le: "unat a * 100 div unat t \<le> 100"
    using assms(2) by (intro percent_le_100) (simp add: word_le_nat_alt)
  let ?q = "(a * 100) div t"
  have q: "unat ?q = unat a * 100 div unat t"
    using assms(3,2) by (rule margin_word_div)
  with le have "unat (ucast ?q :: u32) = unat a * 100 div unat t"
    by (simp add: unsigned_ucast_eq take_bit_nat_eq_self_iff)
  with assms le show ?thesis
    by (auto simp: ComputeMemoryMarginPercent_def unat_gt_0)
qed

theorem ComputeMemoryMarginPercent_exact_witness:
  "\<exists>m. ComputeMemoryMarginPercent 6 8 = Success m \<and> unat m = 75 \<and> unat m \<le> 100"
  using ComputeMemoryMarginPercent_exact [of 8 6] by simp

text \<open>
  The bound on the total is needed: with 2^61 bytes of which all are available the 64-bit
  product wraps to 4 times 2^61 and the margin reads 4 instead of 100.
\<close>

lemma ComputeMemoryMarginPercent_wraps:
  "ComputeMemoryMarginPercent (2 ^ 61) (2 ^ 61) = Success 4"
  by (simp add: ComputeMemoryMarginPercent_def)

section \<open>The rules\<close>

lemma EvaluatePolicy_gameId [simp]: "d_gameId (EvaluatePolicy inp) = gf_gameId (in_game inp)"
  by (simp add: EvaluatePolicy_def Let_def)

lemma EvaluatePolicy_ttl [simp]: "d_ttlMs (EvaluatePolicy inp) = 0"
  by (simp add: EvaluatePolicy_def Let_def)

text \<open>
  C1: A suggestion to act on the system is made only for a running, identified game, below
  critical pressure, with the user present and the game in front or not paused in the
  background; a priority boost further needs the foreground and a margin above tight, and
  critical pressure of a running game yields exactly the notification.
\<close>

theorem EvaluatePolicy_safe:
  "(d_action (EvaluatePolicy inp) \<in> {SuggestMemoryTune, SuggestPriorityBoost} \<longrightarrow>
      gf_running (in_game inp) \<and> gf_gameId (in_game inp) \<noteq> [] \<and> in_pressure inp < Critical \<and>
      in_userPresent inp \<and>
      (gf_foreground (in_game inp) \<or> \<not> gf_pauseWhenBackground (in_game inp))) \<and>
   (d_action (EvaluatePolicy inp) = SuggestPriorityBoost \<longrightarrow>
      gf_foreground (in_game inp) \<and> in_pressure inp < Tight) \<and>
   (d_action (EvaluatePolicy inp) = Notify \<longleftrightarrow>
      gf_running (in_game inp) \<and> gf_gameId (in_game inp) \<noteq> [] \<and> in_pressure inp = Critical)"
  by (cases "in_pressure inp")
    (simp_all add: EvaluatePolicy_def Let_def less_ResourcePressure_def)

theorem EvaluatePolicy_safe_witness:
  "let inp = \<lparr>in_pressure = Adequate,
       in_game = \<lparr>gf_gameId = ''g'', gf_running = True, gf_foreground = True,
                  gf_pauseWhenBackground = True\<rparr>, in_userPresent = True\<rparr>
   in d_action (EvaluatePolicy inp) = SuggestPriorityBoost \<and> in_pressure inp < Tight"
  using EvaluatePolicy_safe [of "\<lparr>in_pressure = Adequate,
       in_game = \<lparr>gf_gameId = ''g'', gf_running = True, gf_foreground = True,
                  gf_pauseWhenBackground = True\<rparr>, in_userPresent = True\<rparr>"]
  by (simp add: EvaluatePolicy_def)

section \<open>Debouncing\<close>

text \<open>
  What a debounce filter promises its client: an update returns the new state; a filter
  that has a state keeps it or takes the requested one; a change of state stamps the time
  and happens no earlier than the cooldown after the previous stamp.
\<close>

locale debounce =
  fixes upd :: "'f \<Rightarrow> bool \<Rightarrow> int \<Rightarrow> bool \<times> 'f"
    and st :: "'f \<Rightarrow> bool"
    and has :: "'f \<Rightarrow> bool"
    and stamp :: "'f \<Rightarrow> int"
    and cd :: "'f \<Rightarrow> int"
  assumes upd_result: "fst (upd f b t) = st (snd (upd f b t))"
    and upd_cd: "cd (snd (upd f b t)) = cd f"
    and upd_has: "has (snd (upd f b t))"
    and upd_first: "\<not> has f \<Longrightarrow> st (snd (upd f b t)) = b \<and> stamp (snd (upd f b t)) = t"
    and upd_keep: "has f \<Longrightarrow> st (snd (upd f b t)) = st f \<Longrightarrow> stamp (snd (upd f b t)) = stamp f"
    and upd_switch: "has f \<Longrightarrow> st (snd (upd f b t)) \<noteq> st f \<Longrightarrow>
        st (snd (upd f b t)) = b \<and> stamp (snd (upd f b t)) = t \<and> cd f \<le> t - stamp f"
    and upd_refuse: "has f \<Longrightarrow> st (snd (upd f b t)) \<noteq> b \<Longrightarrow> t - stamp f < cd f"
begin

primrec switches :: "'f \<Rightarrow> (bool \<times> int) list \<Rightarrow> int list" where
  "switches f [] = []"
| "switches f (e # es) =
     (let f' = snd (upd f (fst e) (snd e))
      in if has f \<and> st f' = st f then switches f' es else snd e # switches f' es)"

lemma switches_spaced:
  "(has f \<longrightarrow> successively (\<lambda>a b. cd f \<le> b - a) (stamp f # switches f es)) \<and>
   successively (\<lambda>a b. cd f \<le> b - a) (switches f es)"
proof (induction es arbitrary: f)
  case (Cons e es)
  let ?f = "snd (upd f (fst e) (snd e))"
  have IH: "successively (\<lambda>a b. cd f \<le> b - a) (stamp ?f # switches ?f es)"
    using Cons.IH [of ?f] by (simp add: upd_has upd_cd)
  show ?case
  proof (cases "has f \<and> st ?f = st f")
    case True
    then have "stamp ?f = stamp f" by (simp add: upd_keep)
    with True Cons.IH [of ?f] IH show ?thesis by (simp add: upd_cd)
  next
    case False
    have st: "stamp ?f = snd e"
      using False upd_first upd_switch by blast
    moreover have "has f \<Longrightarrow> cd f \<le> snd e - stamp f"
      using False upd_switch by blast
    ultimately show ?thesis using False IH by (auto simp: Let_def)
  qed
qed simp

end

interpretation hyst: debounce HysteresisFilter_Update hf_state hf_hasState hf_lastChange hf_cooldown
  by unfold_locales (auto simp: HysteresisFilter_Update_def split: if_splits)

text \<open>The times at which a sequence of updates (requested state, clock) switches the filter.\<close>

primrec switch_times :: "HysteresisFilter \<Rightarrow> (bool \<times> int) list \<Rightarrow> int list" where
  "switch_times f [] = []"
| "switch_times f (e # es) =
     (let f' = snd (HysteresisFilter_Update f (fst e) (snd e))
      in if hf_hasState f \<and> hf_state f' = hf_state f then switch_times f' es
         else snd e # switch_times f' es)"

lemma switch_times_eq: "switch_times f es = hyst.switches f es"
  by (induction es arbitrary: f) (simp_all add: Let_def)

text \<open>
  C36: Whatever the caller requests and however the clock runs, two consecutive switches of the
  debounce filter are at least the cooldown apart.
\<close>

theorem HysteresisFilter_switches_spaced:
  "successively (\<lambda>a b. hf_cooldown f \<le> b - a) (switch_times f es)"
  using hyst.switches_spaced [of f es] by (simp add: switch_times_eq)

section \<open>Reachable evaluators\<close>

inductive evaluator_reach :: "PolicyThresholds \<Rightarrow> int \<Rightarrow> PolicyEvaluator \<Rightarrow> bool"
  for t :: PolicyThresholds and cd :: int where
  start: "evaluator_reach t cd (PolicyEvaluator_new t cd)"
| evaluate: "evaluator_reach t cd e \<Longrightarrow>
    evaluator_reach t cd (snd (PolicyEvaluator_Evaluate e inp now))"
| reset: "evaluator_reach t cd e \<Longrightarrow> evaluator_reach t cd (PolicyEvaluator_Reset e)"

definition evaluator_inv :: "PolicyEvaluator \<Rightarrow> bool" where
  "evaluator_inv e \<longleftrightarrow>
     hf_hasState (pe_filter e) = pe_hasLast e \<and>
     hf_state (pe_filter e) = (d_action (pe_lastDecision e) \<noteq> NoOp) \<and>
     hf_cooldown (pe_filter e) = pe_cooldown e \<and> 0 \<le> pe_cooldown e"

lemma evaluator_inv_new: "evaluator_inv (PolicyEvaluator_new t cd)"
  by (simp add: evaluator_inv_def PolicyEvaluator_new_def HysteresisFilter_new_def
      empty_decision_def Let_def)

lemma evaluator_inv_Reset: "evaluator_inv e \<Longrightarrow> evaluator_inv (PolicyEvaluator_Reset e)"
  by (simp add: evaluator_inv_def PolicyEvaluator_Reset_def HysteresisFilter_Reset_def
      empty_decision_def)

lemma SameDecision_action: "SameDecision a b \<Longrightarrow> d_action a = d_action b"
  by (simp add: SameDecision_def)

lemma evaluator_inv_Evaluate:
  assumes "evaluator_inv e"
  shows "evaluator_inv (snd (PolicyEvaluator_Evaluate e inp now))"
  using assms
  by (auto simp: evaluator_inv_def PolicyEvaluator_Evaluate_def HysteresisFilter_Update_def Let_def
      split: if_splits)

lemma evaluator_reach_inv: "evaluator_reach t cd e \<Longrightarrow> evaluator_inv e"
  by (induction rule: evaluator_reach.induct)
    (auto intro: evaluator_inv_new evaluator_inv_Reset evaluator_inv_Evaluate)

lemma Evaluate_output:
  assumes "evaluator_inv e" and "PolicyEvaluator_Evaluate e inp now = (out, e')"
  shows "(d_action (ev_decision out) \<noteq> NoOp) = PolicyEvaluator_IsActing e'"
  using assms
  by (auto simp: evaluator_inv_def PolicyEvaluator_Evaluate_def HysteresisFilter_Update_def
      PolicyEvaluator_IsActing_def Let_def SameDecision_action split: if_splits)

lemma Evaluate_suppressed:
  assumes "evaluator_inv e" and "PolicyEvaluator_Evaluate e inp now = (out, e')"
  shows "if ev_suppressed out
    then ev_decision out = pe_lastDecision e \<and> e' = e \<and>
      (d_action (EvaluatePolicy inp) \<noteq> NoOp) \<noteq> PolicyEvaluator_IsActing e \<and>
      now - hf_lastChange (pe_filter e) < pe_cooldown e
    else ev_decision out = fresh_decision e inp"
  using assms
  by (auto simp: evaluator_inv_def PolicyEvaluator_Evaluate_def HysteresisFilter_Update_def
      PolicyEvaluator_IsActing_def fresh_decision_def Let_def split: if_splits)

text \<open>
  C35: In every reachable evaluator the emitted decision acts exactly when the evaluator then
  reports acting; a decision is held back only if it would flip between acting and not acting
  within the cooldown, and then the previous decision is repeated and nothing changes;
  otherwise the fresh decision is emitted.
\<close>

theorem PolicyEvaluator_output_correct:
  assumes "evaluator_reach t cd e" and "PolicyEvaluator_Evaluate e inp now = (out, e')"
  shows "(d_action (ev_decision out) \<noteq> NoOp) = PolicyEvaluator_IsActing e' \<and>
    (if ev_suppressed out
     then ev_decision out = pe_lastDecision e \<and> e' = e \<and>
       (d_action (EvaluatePolicy inp) \<noteq> NoOp) \<noteq> PolicyEvaluator_IsActing e \<and>
       now - hf_lastChange (pe_filter e) < pe_cooldown e
     else ev_decision out = fresh_decision e inp)"
  using evaluator_reach_inv [OF assms(1)] assms(2)
  by (simp add: Evaluate_output Evaluate_suppressed)

definition sample_input :: "bool \<Rightarrow> PolicyInput" where
  "sample_input running = \<lparr>in_pressure = Adequate,
     in_game = \<lparr>gf_gameId = ''g'', gf_running = running, gf_foreground = True,
                gf_pauseWhenBackground = True\<rparr>, in_userPresent = True\<rparr>"

definition sample_evaluator :: PolicyEvaluator where
  "sample_evaluator =
     snd (PolicyEvaluator_Evaluate (PolicyEvaluator_new default_thresholds 5000)
       (sample_input True) 0)"

theorem PolicyEvaluator_output_correct_witness:
  "\<exists>out e'. PolicyEvaluator_Evaluate sample_evaluator (sample_input False) 1000 = (out, e') \<and>
     ev_suppressed out \<and> d_action (ev_decision out) = SuggestPriorityBoost \<and>
     PolicyEvaluator_IsActing e'"
proof -
  have r: "evaluator_reach default_thresholds 5000 sample_evaluator"
    unfolding sample_evaluator_def by (intro evaluator_reach.intros)
  obtain out e' where ev: "PolicyEvaluator_Evaluate sample_evaluator (sample_input False) 1000 = (out, e')"
    by (cases "PolicyEvaluator_Evaluate sample_evaluator (sample_input False) 1000")
  have "ev_suppressed out \<and> d_action (ev_decision out) = SuggestPriorityBoost"
    using ev by (auto simp: sample_evaluator_def sample_input_def PolicyEvaluator_Evaluate_def
      fresh_decision_def EvaluatePolicy_def PolicyEvaluator_new_def HysteresisFilter_new_def
      HysteresisFilter_Update_def SameDecision_def Let_def default_thresholds_def)
  with ev PolicyEvaluator_output_correct [OF r ev] show ?thesis by auto
qed

end
