(* ===== verification/Power_Locker.thy ===== *)
theory Power_Locker
  imports Common_Error
begin

text \<open>
  Reference-counted power requests: \<^verbatim>\<open>include/power/power_locker.hpp\<close> and
  \<^verbatim>\<open>source/power/power_locker.cpp\<close>.  The injected backend is a record of functions over an
  abstract system state; \<open>Win32PowerRequestBackend\<close> builds it from the Win32 calls, which
  are a parameter.  The interface \<open>power_backend\<close> says what the locker relies on; the
  locker's lemmas are proved against it, and the Win32 backend provides it for every API that
  behaves as documented (\<open>win32_power_api\<close>).
\<close>

section \<open>Types and names\<close>

datatype PowerLockType = ExecutionRequired | DisplayRequired

definition PowerLockTypeToString :: "PowerLockType \<Rightarrow> string" where
  "PowerLockTypeToString t =
     (case t of ExecutionRequired \<Rightarrow> ''execution'' | DisplayRequired \<Rightarrow> ''display'')"

definition ParsePowerLockType :: "string \<Rightarrow> PowerLockType result" where
  "ParsePowerLockType name =
     (let folded = map to_lower name
      in if folded = ''execution'' then Success ExecutionRequired
         else if folded = ''display'' then Success DisplayRequired
         else Failure (Error_Validation ''ParsePowerLockType''
           ''unknown power lock type (expected execution/display)''))"

section \<open>The backend\<close>

record 's PowerRequestBackend =
  CreateRequest :: "string \<Rightarrow> 's \<Rightarrow> u64 result \<times> 's"
  SetRequest :: "u64 \<Rightarrow> PowerLockType \<Rightarrow> 's \<Rightarrow> unit result \<times> 's"
  ClearRequest :: "u64 \<Rightarrow> PowerLockType \<Rightarrow> 's \<Rightarrow> unit result \<times> 's"
  CloseRequest :: "u64 \<Rightarrow> 's \<Rightarrow> 's"

text \<open>The Win32 functions the production backend calls.\<close>

datatype POWER_REQUEST_TYPE = PowerRequestDisplayRequired | PowerRequestExecutionRequired

record 's power_api =
  PowerCreateRequest :: "string \<Rightarrow> 's \<Rightarrow> u64 \<times> 's"
  PowerSetRequest :: "u64 \<Rightarrow> POWER_REQUEST_TYPE \<Rightarrow> 's \<Rightarrow> bool \<times> 's"
  PowerClearRequest :: "u64 \<Rightarrow> POWER_REQUEST_TYPE \<Rightarrow> 's \<Rightarrow> bool \<times> 's"
  api_CloseHandle :: "u64 \<Rightarrow> 's \<Rightarrow> 's"
  api_GetLastError :: "'s \<Rightarrow> u32"
  api_FormatMessage :: "u32 \<Rightarrow> string"

definition INVALID_HANDLE_VALUE :: u64 where
  "INVALID_HANDLE_VALUE = 0xFFFFFFFFFFFFFFFF"

definition ToWin32Type :: "PowerLockType \<Rightarrow> POWER_REQUEST_TYPE" where
  "ToWin32Type t =
     (case t of ExecutionRequired \<Rightarrow> PowerRequestExecutionRequired
      | DisplayRequired \<Rightarrow> PowerRequestDisplayRequired)"

definition Win32_CreateRequest :: "'s power_api \<Rightarrow> string \<Rightarrow> 's \<Rightarrow> u64 result \<times> 's" where
  "Win32_CreateRequest api reason s =
     (let (h, s1) = PowerCreateRequest api (take 127 reason) s
      in if h = 0 \<or> h = INVALID_HANDLE_VALUE
         then (Failure (FromWin32 (api_FormatMessage api) (api_GetLastError api s1)
                 ''PowerCreateRequest''), s1)
         else (Success h, s1))"

definition Win32_SetRequest ::
    "'s power_api \<Rightarrow> u64 \<Rightarrow> PowerLockType \<Rightarrow> 's \<Rightarrow> unit result \<times> 's" where
  "Win32_SetRequest api h t s =
     (let (ok, s1) = PowerSetRequest api h (ToWin32Type t) s
      in if \<not> ok
         then (Failure (FromWin32 (api_FormatMessage api) (api_GetLastError api s1)
                 ''PowerSetRequest''), s1)
         else (Success (), s1))"

definition Win32_ClearRequest ::
    "'s power_api \<Rightarrow> u64 \<Rightarrow> PowerLockType \<Rightarrow> 's \<Rightarrow> unit result \<times> 's" where
  "Win32_ClearRequest api h t s =
     (let (ok, s1) = PowerClearRequest api h (ToWin32Type t) s
      in if \<not> ok
         then (Failure (FromWin32 (api_FormatMessage api) (api_GetLastError api s1)
                 ''PowerClearRequest''), s1)
         else (Success (), s1))"

definition Win32_CloseRequest :: "'s power_api \<Rightarrow> u64 \<Rightarrow> 's \<Rightarrow> 's" where
  "Win32_CloseRequest api h s = (if h \<noteq> 0 then api_CloseHandle api h s else s)"

definition Win32PowerRequestBackend :: "'s power_api \<Rightarrow> 's PowerRequestBackend" where
  "Win32PowerRequestBackend api =
     \<lparr>CreateRequest = Win32_CreateRequest api, SetRequest = Win32_SetRequest api,
      ClearRequest = Win32_ClearRequest api, CloseRequest = Win32_CloseRequest api\<rparr>"

section \<open>The locker\<close>

record LockState =
  lk_count :: nat
  lk_handle :: u64
  lk_reason :: string

definition lk_empty :: LockState where
  "lk_empty = \<lparr>lk_count = 0, lk_handle = 0, lk_reason = []\<rparr>"

text \<open>\<open>pl_hasBackend\<close>: the shared pointer to the backend is not null.\<close>

record PowerLocker =
  pl_hasBackend :: bool
  pl_states :: "PowerLockType \<Rightarrow> LockState"

definition PowerLocker_new :: "bool \<Rightarrow> PowerLocker" where
  "PowerLocker_new hasBackend = \<lparr>pl_hasBackend = hasBackend, pl_states = (\<lambda>_. lk_empty)\<rparr>"

definition set_lock :: "PowerLockType \<Rightarrow> LockState \<Rightarrow> PowerLocker \<Rightarrow> PowerLocker" where
  "set_lock t st p = p\<lparr>pl_states := (pl_states p)(t := st)\<rparr>"

definition AcquireLock ::
    "'s PowerRequestBackend \<Rightarrow> PowerLockType \<Rightarrow> string \<Rightarrow> PowerLocker \<Rightarrow> 's \<Rightarrow>
     unit result \<times> PowerLocker \<times> 's" where
  "AcquireLock B t reason p s =
     (if \<not> pl_hasBackend p then
        (Failure (Error_Validation ''PowerLocker::AcquireLock'' ''no power request backend''), p, s)
      else
        (let st = pl_states p t
         in if lk_count st = 0 then
              (case CreateRequest B reason s of
                 (Inl e, s1) \<Rightarrow> (Failure e, p, s1)
               | (Inr h, s1) \<Rightarrow>
                   (case SetRequest B h t s1 of
                      (Inl e, s2) \<Rightarrow> (Failure e, p, CloseRequest B h s2)
                    | (Inr _, s2) \<Rightarrow>
                        (Success (),
                         set_lock t \<lparr>lk_count = lk_count st + 1, lk_handle = h, lk_reason = reason\<rparr> p,
                         s2)))
            else (Success (), set_lock t (st\<lparr>lk_count := lk_count st + 1\<rparr>) p, s)))"

definition ReleaseLock ::
    "'s PowerRequestBackend \<Rightarrow> PowerLockType \<Rightarrow> PowerLocker \<Rightarrow> 's \<Rightarrow>
     unit result \<times> PowerLocker \<times> 's" where
  "ReleaseLock B t p s =
     (let st = pl_states p t
      in if lk_count st = 0 then (Success (), p, s)
         else if lk_count st - 1 = 0 then
           (case ClearRequest B (lk_handle st) t s of
              (Inl e, s1) \<Rightarrow> (Failure e, p, s1)
            | (Inr _, s1) \<Rightarrow> (Success (), set_lock t lk_empty p, CloseRequest B (lk_handle st) s1))
         else (Success (), set_lock t (st\<lparr>lk_count := lk_count st - 1\<rparr>) p, s))"

definition release_type ::
    "'s PowerRequestBackend \<Rightarrow> PowerLockType \<Rightarrow> PowerLocker \<times> 's \<Rightarrow> PowerLocker \<times> 's" where
  "release_type B t ps =
     (let p = fst ps; s = snd ps; st = pl_states p t
      in if lk_count st = 0 then (p, s)
         else (set_lock t lk_empty p,
               (if lk_handle st \<noteq> 0 \<and> pl_hasBackend p
                then CloseRequest B (lk_handle st) (snd (ClearRequest B (lk_handle st) t s))
                else s)))"

definition PowerLocker_ReleaseAll ::
    "'s PowerRequestBackend \<Rightarrow> PowerLocker \<Rightarrow> 's \<Rightarrow> PowerLocker \<times> 's" where
  "PowerLocker_ReleaseAll B p s =
     release_type B DisplayRequired (release_type B ExecutionRequired (p, s))"

definition IsLocked :: "PowerLocker \<Rightarrow> PowerLockType \<Rightarrow> bool" where
  "IsLocked p t \<longleftrightarrow> lk_count (pl_states p t) > 0"

definition LockCount :: "PowerLocker \<Rightarrow> PowerLockType \<Rightarrow> nat" where
  "LockCount p t = lk_count (pl_states p t)"

definition LockReason :: "PowerLocker \<Rightarrow> PowerLockType \<Rightarrow> string" where
  "LockReason p t = lk_reason (pl_states p t)"

text \<open>The steps a client can take with one locker.\<close>

inductive locker_step ::
    "'s PowerRequestBackend \<Rightarrow> PowerLocker \<times> 's \<Rightarrow> PowerLocker \<times> 's \<Rightarrow> bool"
  for B :: "'s PowerRequestBackend" where
  acquire: "AcquireLock B t reason p s = (r, p', s') \<Longrightarrow> locker_step B (p, s) (p', s')"
| release: "ReleaseLock B t p s = (r, p', s') \<Longrightarrow> locker_step B (p, s) (p', s')"
| release_all: "PowerLocker_ReleaseAll B p s = (p', s') \<Longrightarrow> locker_step B (p, s) (p', s')"

inductive_cases locker_stepE: "locker_step B (p, s) (p', s')"

text \<open>The invariant that ties the counts to the handles and requests of the system.\<close>

definition lock_requests :: "PowerLocker \<Rightarrow> (u64 \<times> PowerLockType) set" where
  "lock_requests p = {(h, t). 0 < lk_count (pl_states p t) \<and> h = lk_handle (pl_states p t)}"

definition locker_wf :: "PowerLocker \<Rightarrow> bool" where
  "locker_wf p \<longleftrightarrow>
     (\<forall>t. if lk_count (pl_states p t) = 0 then pl_states p t = lk_empty
          else lk_handle (pl_states p t) \<noteq> 0 \<and> pl_hasBackend p) \<and>
     (IsLocked p ExecutionRequired \<and> IsLocked p DisplayRequired \<longrightarrow>
        lk_handle (pl_states p ExecutionRequired) \<noteq> lk_handle (pl_states p DisplayRequired))"

lemma PowerLockType_all: "(\<forall>t. P t) \<longleftrightarrow> P ExecutionRequired \<and> P DisplayRequired"
  by (metis PowerLockType.exhaust)

lemma set_lock_same [simp]: "pl_states (set_lock t st p) t = st"
  by (simp add: set_lock_def)

lemma set_lock_other [simp]: "t' \<noteq> t \<Longrightarrow> pl_states (set_lock t st p) t' = pl_states p t'"
  by (simp add: set_lock_def)

lemma set_lock_hasBackend [simp]: "pl_hasBackend (set_lock t st p) = pl_hasBackend p"
  by (simp add: set_lock_def)

lemma lk_empty_simps [simp]: "lk_count lk_empty = 0" "lk_handle lk_empty = 0" "lk_reason lk_empty = []"
  by (simp_all add: lk_empty_def)

lemma lock_requests_iff: "(h, t) \<in> lock_requests p \<longleftrightarrow> IsLocked p t \<and> h = lk_handle (pl_states p t)"
  by (simp add: lock_requests_def IsLocked_def)

lemma lock_requests_set_lock:
  "lock_requests (set_lock t st p) =
     {(h, t') \<in> lock_requests p. t' \<noteq> t} \<union> (if lk_count st > 0 then {(lk_handle st, t)} else {})"
  by (auto simp: lock_requests_def set_lock_def)

lemma lock_requests_recount:
  assumes "IsLocked p t" and "0 < n"
  shows "lock_requests (set_lock t ((pl_states p t)\<lparr>lk_count := n\<rparr>) p) = lock_requests p"
  using assms by (auto simp: lock_requests_def set_lock_def IsLocked_def)

lemma locker_wf_recount:
  assumes "locker_wf p" and "IsLocked p t" and "0 < n"
  shows "locker_wf (set_lock t ((pl_states p t)\<lparr>lk_count := n\<rparr>) p)"
  using assms by (auto simp: locker_wf_def set_lock_def IsLocked_def split: if_splits)

lemma locker_wf_empty: "locker_wf p \<Longrightarrow> locker_wf (set_lock t lk_empty p)"
  by (auto simp: locker_wf_def set_lock_def IsLocked_def)

lemma locker_wf_handle_unique:
  assumes "locker_wf p" and "IsLocked p t" and "(lk_handle (pl_states p t), t') \<in> lock_requests p"
  shows "t' = t"
  using assms by (cases t; cases t') (auto simp: locker_wf_def lock_requests_iff)

section \<open>What the locker needs from a backend\<close>

locale power_backend =
  fixes B :: "'s PowerRequestBackend"
    and opn :: "'s \<Rightarrow> u64 set"
    and act :: "'s \<Rightarrow> (u64 \<times> PowerLockType) set"
  assumes create_ok: "CreateRequest B r s = (Inr h, s') \<Longrightarrow>
      h \<noteq> 0 \<and> h \<notin> opn s \<and> opn s' = insert h (opn s) \<and> act s' = act s"
    and create_fail: "CreateRequest B r s = (Inl e, s') \<Longrightarrow> opn s' = opn s \<and> act s' = act s"
    and set_ok: "SetRequest B h t s = (Inr u, s') \<Longrightarrow>
      opn s' = opn s \<and> act s' = insert (h, t) (act s)"
    and set_fail: "SetRequest B h t s = (Inl e, s') \<Longrightarrow> opn s' = opn s \<and> act s' = act s"
    and clear_ok: "ClearRequest B h t s = (Inr u, s') \<Longrightarrow>
      opn s' = opn s \<and> act s' = act s - {(h, t)}"
    and clear_fail: "ClearRequest B h t s = (Inl e, s') \<Longrightarrow> opn s' = opn s \<and> act s' = act s"
    and close: "opn (CloseRequest B h s) = opn s - {h} \<and>
      act (CloseRequest B h s) = {(h', t). (h', t) \<in> act s \<and> h' \<noteq> h}"
begin

text \<open>
  \<open>Op\<close> and \<open>A\<close> are the handles and requests other parts of the system had before the
  locker was created.
\<close>

definition agrees :: "u64 set \<Rightarrow> (u64 \<times> PowerLockType) set \<Rightarrow> PowerLocker \<Rightarrow> 's \<Rightarrow> bool" where
  "agrees Op A p s \<longleftrightarrow>
     locker_wf p \<and> fst ` A \<subseteq> Op \<and> fst ` lock_requests p \<inter> Op = {} \<and>
     opn s = Op \<union> fst ` lock_requests p \<and> act s = A \<union> lock_requests p"

lemma agrees_new:
  "fst ` act s \<subseteq> opn s \<Longrightarrow> agrees (opn s) (act s) (PowerLocker_new hb) s"
  by (auto simp: agrees_def PowerLocker_new_def locker_wf_def lock_requests_def IsLocked_def)

lemma agrees_same: "agrees Op A p s \<Longrightarrow> opn s' = opn s \<Longrightarrow> act s' = act s \<Longrightarrow> agrees Op A p s'"
  by (simp add: agrees_def)

lemma agrees_fresh:
  assumes "agrees Op A p s" and "h \<notin> opn s" and "(h', t) \<in> act s"
  shows "h' \<noteq> h"
  using assms by (force simp: agrees_def)

lemma agrees_recount:
  "agrees Op A p s \<Longrightarrow> IsLocked p t \<Longrightarrow> 0 < n \<Longrightarrow>
   agrees Op A (set_lock t ((pl_states p t)\<lparr>lk_count := n\<rparr>) p) s"
  by (simp add: agrees_def lock_requests_recount locker_wf_recount)

lemma agrees_add:
  assumes ag: "agrees Op A p s" and free: "\<not> IsLocked p t" and hb: "pl_hasBackend p"
    and h: "h \<noteq> 0" "h \<notin> opn s"
    and s': "opn s' = insert h (opn s)" "act s' = insert (h, t) (act s)"
    and st: "lk_count st > 0" "lk_handle st = h"
  shows "agrees Op A (set_lock t st p) s'"
proof -
  have req: "lock_requests (set_lock t st p) = insert (h, t) (lock_requests p)"
    using free st by (auto simp: lock_requests_set_lock lock_requests_iff)
  have "\<And>t'. (h, t') \<notin> lock_requests p"
    using ag h(2) by (force simp: agrees_def)
  then have fresh: "\<And>t'. IsLocked p t' \<Longrightarrow> lk_handle (pl_states p t') \<noteq> h"
    by (auto simp: lock_requests_iff)
  from fresh [of ExecutionRequired] fresh [of DisplayRequired] have "locker_wf (set_lock t st p)"
    using ag hb h(1) st free
    by (cases t) (auto simp: agrees_def locker_wf_def PowerLockType_all IsLocked_def split: if_splits)
  with ag h s' req show ?thesis by (auto simp: agrees_def)
qed

lemma agrees_remove:
  assumes ag: "agrees Op A p s" and held: "IsLocked p t" and h: "h = lk_handle (pl_states p t)"
    and s': "opn s' = opn s - {h}" "act s' = {(h', t'). (h', t') \<in> act s \<and> h' \<noteq> h}"
  shows "agrees Op A (set_lock t lk_empty p) s'"
proof -
  have wf: "locker_wf p" using ag by (simp add: agrees_def)
  have mem: "(h, t) \<in> lock_requests p" using held h by (simp add: lock_requests_iff)
  have uniq: "\<And>t'. (h, t') \<in> lock_requests p \<Longrightarrow> t' = t"
    using locker_wf_handle_unique [OF wf held] h by blast
  have req: "lock_requests (set_lock t lk_empty p) = {(h', t') \<in> lock_requests p. h' \<noteq> h}"
    using uniq h by (auto simp: lock_requests_set_lock lock_requests_iff)
  have "h \<notin> Op" using ag mem by (force simp: agrees_def)
  with ag s' req show ?thesis
    by (force simp: agrees_def locker_wf_empty)
qed

lemma release_drop:
  assumes "agrees Op A p s" and "ClearRequest B h t s = (r, s1)"
  shows "opn (CloseRequest B h s1) = opn s - {h} \<and>
    act (CloseRequest B h s1) = {(h', t'). (h', t') \<in> act s \<and> h' \<noteq> h}"
proof (cases r)
  case (Inl e)
  with assms(2) clear_fail [of h t s e s1] close [of h s1] show ?thesis by simp
next
  case (Inr u)
  with assms(2) clear_ok [of h t s u s1] close [of h s1] show ?thesis by auto
qed

lemma agrees_AcquireLock:
  assumes ag: "agrees Op A p s" and acq: "AcquireLock B t reason p s = (r, p', s')"
  shows "agrees Op A p' s'"
proof (cases "pl_hasBackend p \<and> lk_count (pl_states p t) = 0")
  case False
  with acq ag show ?thesis
    by (auto simp: AcquireLock_def Let_def IsLocked_def split: if_splits intro!: agrees_recount)
next
  case True
  obtain rc s1 where c: "CreateRequest B reason s = (rc, s1)" by fastforce
  show ?thesis
  proof (cases rc)
    case (Inl e)
    with True acq c ag show ?thesis
      by (auto simp: AcquireLock_def intro: agrees_same dest: create_fail)
  next
    case (Inr h)
    obtain rs s2 where st: "SetRequest B h t s1 = (rs, s2)" by fastforce
    note cok = create_ok [OF c [unfolded Inr]]
    show ?thesis
    proof (cases rs)
      case (Inl e)
      have "opn (CloseRequest B h s2) = opn s" "act (CloseRequest B h s2) = act s"
        using cok set_fail [OF st [unfolded Inl]] close [of h s2] agrees_fresh [OF ag]
        by auto
      with True acq c Inr st Inl ag show ?thesis
        by (auto simp: AcquireLock_def intro: agrees_same)
    next
      case (Inr u)
      have "agrees Op A (set_lock t \<lparr>lk_count = 1, lk_handle = h, lk_reason = reason\<rparr> p) s2"
        using ag True cok set_ok [OF st [unfolded Inr]]
        by (intro agrees_add [of Op A p s t h s2]) (auto simp: IsLocked_def)
      with True acq c \<open>rc = Inr h\<close> st Inr show ?thesis
        by (auto simp: AcquireLock_def)
    qed
  qed
qed

lemma agrees_ReleaseLock:
  assumes ag: "agrees Op A p s" and rel: "ReleaseLock B t p s = (r, p', s')"
  shows "agrees Op A p' s'"
proof (cases "lk_count (pl_states p t) = 1")
  case False
  with rel ag show ?thesis
    by (auto simp: ReleaseLock_def Let_def IsLocked_def split: if_splits intro!: agrees_recount)
next
  case True
  let ?h = "lk_handle (pl_states p t)"
  obtain rc s1 where c: "ClearRequest B ?h t s = (rc, s1)" by fastforce
  show ?thesis
  proof (cases rc)
    case (Inl e)
    with True rel c ag show ?thesis
      by (auto simp: ReleaseLock_def intro: agrees_same dest: clear_fail)
  next
    case (Inr u)
    have "agrees Op A (set_lock t lk_empty p) (CloseRequest B ?h s1)"
      using ag True release_drop [OF ag c]
      by (intro agrees_remove [of Op A p s t ?h]) (auto simp: IsLocked_def)
    with True rel c Inr show ?thesis by (auto simp: ReleaseLock_def)
  qed
qed

lemma agrees_release_type:
  assumes "agrees Op A (fst ps) (snd ps)"
  shows "agrees Op A (fst (release_type B t ps)) (snd (release_type B t ps))"
proof (cases "lk_count (pl_states (fst ps) t) = 0")
  case True
  with assms show ?thesis by (simp add: release_type_def)
next
  case False
  let ?h = "lk_handle (pl_states (fst ps) t)"
  obtain rc s1 where c: "ClearRequest B ?h t (snd ps) = (rc, s1)" by fastforce
  have "?h \<noteq> 0 \<and> pl_hasBackend (fst ps)"
    using assms False by (auto simp: agrees_def locker_wf_def split: if_splits)
  moreover have "agrees Op A (set_lock t lk_empty (fst ps)) (CloseRequest B ?h s1)"
    using assms False release_drop [OF assms c]
    by (intro agrees_remove [of Op A "fst ps" "snd ps" t ?h]) (auto simp: IsLocked_def)
  ultimately show ?thesis using False c by (simp add: release_type_def Let_def)
qed

lemma agrees_ReleaseAll:
  assumes "agrees Op A p s" and "PowerLocker_ReleaseAll B p s = (p', s')"
  shows "agrees Op A p' s'"
proof -
  have "agrees Op A (fst (release_type B ExecutionRequired (p, s)))
      (snd (release_type B ExecutionRequired (p, s)))"
    using assms(1) by (intro agrees_release_type) simp
  from agrees_release_type [OF this, of DisplayRequired] assms(2) show ?thesis
    by (simp add: PowerLocker_ReleaseAll_def)
qed

lemma agrees_step: "locker_step B ps ps' \<Longrightarrow> agrees Op A (fst ps) (snd ps) \<Longrightarrow> agrees Op A (fst ps') (snd ps')"
  by (induction rule: locker_step.induct)
    (auto intro: agrees_AcquireLock agrees_ReleaseLock agrees_ReleaseAll)

lemma agrees_steps:
  "(locker_step B)\<^sup>*\<^sup>* ps ps' \<Longrightarrow> agrees Op A (fst ps) (snd ps) \<Longrightarrow> agrees Op A (fst ps') (snd ps')"
  by (induction rule: rtranclp_induct) (auto intro: agrees_step)

lemma AcquireLock_failure_frame:
  assumes ag: "agrees Op A p s" and acq: "AcquireLock B t reason p s = (Inl e, p', s')"
  shows "p' = p \<and> opn s' = opn s \<and> act s' = act s"
proof -
  have "p' = p"
    using acq by (auto simp: AcquireLock_def Let_def split: if_splits prod.splits sum.splits)
  moreover from this agrees_AcquireLock [OF ag acq] ag have "opn s' = opn s \<and> act s' = act s"
    by (simp add: agrees_def)
  ultimately show ?thesis by simp
qed

lemma ReleaseLock_failure_frame:
  assumes ag: "agrees Op A p s" and rel: "ReleaseLock B t p s = (Inl e, p', s')"
  shows "p' = p \<and> opn s' = opn s \<and> act s' = act s"
proof -
  have "p' = p"
    using rel by (auto simp: ReleaseLock_def Let_def split: if_splits prod.splits sum.splits)
  moreover from this agrees_ReleaseLock [OF ag rel] ag have "opn s' = opn s \<and> act s' = act s"
    by (simp add: agrees_def)
  ultimately show ?thesis by simp
qed

end

section \<open>The Win32 backend\<close>

text \<open>
  The documented behaviour of the four calls, on the kernel's table of open power request
  objects (\<open>opn\<close>) and of the requests set on them (\<open>act\<close>): a created object is new and
  not the null or invalid handle, failures change nothing, closing an object cancels its
  requests.
\<close>

locale win32_power_api =
  fixes api :: "'s power_api"
    and opn :: "'s \<Rightarrow> u64 set"
    and act :: "'s \<Rightarrow> (u64 \<times> POWER_REQUEST_TYPE) set"
  assumes api_create_ok: "PowerCreateRequest api r s = (h, s') \<Longrightarrow> h \<noteq> 0 \<Longrightarrow> h \<noteq> INVALID_HANDLE_VALUE \<Longrightarrow>
      h \<notin> opn s \<and> opn s' = insert h (opn s) \<and> act s' = act s"
    and api_create_fail: "PowerCreateRequest api r s = (h, s') \<Longrightarrow>
      h = 0 \<or> h = INVALID_HANDLE_VALUE \<Longrightarrow> opn s' = opn s \<and> act s' = act s"
    and api_set: "PowerSetRequest api h k s = (ok, s') \<Longrightarrow>
      opn s' = opn s \<and> act s' = (if ok then insert (h, k) (act s) else act s)"
    and api_clear: "PowerClearRequest api h k s = (ok, s') \<Longrightarrow>
      opn s' = opn s \<and> act s' = (if ok then act s - {(h, k)} else act s)"
    and api_close: "h \<noteq> 0 \<Longrightarrow> opn (api_CloseHandle api h s) = opn s - {h} \<and>
      act (api_CloseHandle api h s) = {(h', k). (h', k) \<in> act s \<and> h' \<noteq> h}"
    and api_null: "0 \<notin> opn s" "(0, k) \<notin> act s"

lemma ToWin32Type_inj [simp]: "ToWin32Type t = ToWin32Type t' \<longleftrightarrow> t = t'"
  by (cases t; cases t') (simp_all add: ToWin32Type_def)

definition lock_view :: "(u64 \<times> POWER_REQUEST_TYPE) set \<Rightarrow> (u64 \<times> PowerLockType) set" where
  "lock_view X = {(h, t). (h, ToWin32Type t) \<in> X}"

lemma lock_view_simps [simp]:
  "lock_view (insert (h, ToWin32Type t) X) = insert (h, t) (lock_view X)"
  "lock_view (X - {(h, ToWin32Type t)}) = lock_view X - {(h, t)}"
  by (auto simp: lock_view_def)

sublocale win32_power_api \<subseteq>
    win32: power_backend "Win32PowerRequestBackend api" opn "\<lambda>s. lock_view (act s)"
proof (unfold_locales, goal_cases)
  case (1 r s h s')
  then show ?case
    by (auto simp: Win32PowerRequestBackend_def Win32_CreateRequest_def split: prod.splits if_splits dest!: api_create_ok)
next
  case (2 r s e s')
  then show ?case
    by (auto simp: Win32PowerRequestBackend_def Win32_CreateRequest_def split: prod.splits if_splits dest!: api_create_fail)
next
  case (3 h t s u s')
  then show ?case
    by (auto simp: Win32PowerRequestBackend_def Win32_SetRequest_def split: prod.splits if_splits dest!: api_set)
next
  case (4 h t s e s')
  then show ?case
    by (auto simp: Win32PowerRequestBackend_def Win32_SetRequest_def split: prod.splits if_splits dest!: api_set)
next
  case (5 h t s u s')
  then show ?case
    by (auto simp: Win32PowerRequestBackend_def Win32_ClearRequest_def split: prod.splits if_splits dest!: api_clear)
next
  case (6 h t s e s')
  then show ?case
    by (auto simp: Win32PowerRequestBackend_def Win32_ClearRequest_def split: prod.splits if_splits dest!: api_clear)
next
  case (7 h s)
  show ?case
    using api_close [of h s] api_null
    by (cases "h = 0")
      (auto simp: Win32PowerRequestBackend_def Win32_CloseRequest_def lock_view_def)
qed

text \<open>
  A reference kernel that has this behaviour, with one switch per call that makes it fail.
\<close>

record kernel =
  k_next :: nat
  k_open :: "nat list"
  k_reqs :: "(nat \<times> POWER_REQUEST_TYPE) list"
  k_failCreate :: bool
  k_failSet :: bool
  k_failClear :: bool

definition kernel_init :: kernel where
  "kernel_init = \<lparr>k_next = 1000, k_open = [], k_reqs = [], k_failCreate = False,
     k_failSet = False, k_failClear = False\<rparr>"

definition kernel_limit :: nat where
  "kernel_limit = 65536"

definition kernel_power_api :: "kernel power_api" where
  "kernel_power_api =
     \<lparr>PowerCreateRequest = (\<lambda>r k.
        if k_failCreate k \<or> k_next k \<ge> kernel_limit \<or> k_next k = 0 \<or> k_next k \<in> set (k_open k)
        then (0, k)
        else (of_nat (k_next k), k\<lparr>k_next := k_next k + 1, k_open := k_next k # k_open k\<rparr>)),
      PowerSetRequest = (\<lambda>h t k.
        if k_failSet k \<or> h = 0 then (False, k)
        else (True, k\<lparr>k_reqs := (unat h, t) # k_reqs k\<rparr>)),
      PowerClearRequest = (\<lambda>h t k.
        if k_failClear k then (False, k)
        else (True, k\<lparr>k_reqs := filter (\<lambda>x. x \<noteq> (unat h, t)) (k_reqs k)\<rparr>)),
      api_CloseHandle = (\<lambda>h k. k\<lparr>k_open := filter (\<lambda>x. x \<noteq> unat h) (k_open k),
        k_reqs := filter (\<lambda>x. fst x \<noteq> unat h) (k_reqs k)\<rparr>),
      api_GetLastError = (\<lambda>k. 5),
      api_FormatMessage = (\<lambda>c. ''denied'')\<rparr>"

definition kernel_opn :: "kernel \<Rightarrow> u64 set" where
  "kernel_opn k = {h. h \<noteq> 0 \<and> unat h \<in> set (k_open k)}"

definition kernel_act :: "kernel \<Rightarrow> (u64 \<times> POWER_REQUEST_TYPE) set" where
  "kernel_act k = {(h, t). h \<noteq> 0 \<and> (unat h, t) \<in> set (k_reqs k)}"

lemma unat_small: "n < kernel_limit \<Longrightarrow> unat (of_nat n :: u64) = n"
  by (simp add: kernel_limit_def unsigned_of_nat take_bit_nat_eq_self_iff)

lemma unat_eq_small: "n < kernel_limit \<Longrightarrow> unat (h :: u64) = n \<longleftrightarrow> h = of_nat n"
  by (metis unat_small word_unat_eq_iff)

interpretation kernel_api: win32_power_api kernel_power_api kernel_opn kernel_act
proof (unfold_locales, goal_cases)
  case (1 r k h k')
  then show ?case
    by (auto simp: kernel_power_api_def kernel_opn_def kernel_act_def unat_eq_small not_le
        unat_small split: if_splits)
next
  case (2 r k h k')
  have "of_nat (k_next k) \<noteq> INVALID_HANDLE_VALUE" "of_nat (k_next k) \<noteq> (0 :: u64)"
    if "k_next k < kernel_limit" "k_next k \<noteq> 0"
  proof -
    have "unat (of_nat (k_next k) :: u64) \<noteq> unat INVALID_HANDLE_VALUE"
      using that unat_small [of "k_next k"] by (simp add: INVALID_HANDLE_VALUE_def kernel_limit_def)
    then show "of_nat (k_next k) \<noteq> INVALID_HANDLE_VALUE" by auto
    have "unat (of_nat (k_next k) :: u64) \<noteq> 0" using that unat_small by simp
    then show "of_nat (k_next k) \<noteq> (0 :: u64)" by auto
  qed
  with 2 show ?case by (auto simp: kernel_power_api_def split: if_splits)
next
  case (3 h t k ok k')
  then show ?case by (auto simp: kernel_power_api_def kernel_opn_def kernel_act_def
        simp flip: word_unat_eq_iff split: if_splits)
next
  case (4 h t k ok k')
  then show ?case by (auto simp: kernel_power_api_def kernel_opn_def kernel_act_def
        simp flip: word_unat_eq_iff split: if_splits)
next
  case (5 h k)
  then show ?case
    by (auto simp: kernel_power_api_def kernel_opn_def kernel_act_def simp flip: word_unat_eq_iff)
qed (simp_all add: kernel_opn_def kernel_act_def)

section \<open>Properties\<close>

text \<open>
  C8: Over any backend with the documented behaviour and any sequence of acquire, release and
  release-all calls, exactly the requests of the held lock types are in force and exactly their
  handles are open beyond what was there before: nothing leaks and nothing is cancelled early.
\<close>

theorem PowerLocker_requests_match_counts:
  assumes "power_backend B opn act" and "fst ` act s0 \<subseteq> opn s0"
    and "(locker_step B)\<^sup>*\<^sup>* (PowerLocker_new hb, s0) (p, s)"
  shows "(\<forall>h t. (h, t) \<in> act s - act s0 \<longleftrightarrow> IsLocked p t \<and> h = lk_handle (pl_states p t)) \<and>
    act s0 \<subseteq> act s \<and> opn s = opn s0 \<union> {lk_handle (pl_states p t) | t. IsLocked p t}"
proof -
  have "power_backend.agrees opn act (opn s0) (act s0) p s"
    using power_backend.agrees_steps [OF assms(1,3)] power_backend.agrees_new [OF assms(1,2)]
    by fastforce
  note ag = this [unfolded power_backend.agrees_def [OF assms(1)]]
  have "\<And>h t. (h, t) \<in> lock_requests p \<Longrightarrow> (h, t) \<notin> act s0"
    using ag by force
  moreover have "fst ` lock_requests p = {lk_handle (pl_states p t) | t. IsLocked p t}"
    by (auto simp: lock_requests_def IsLocked_def image_iff)
  ultimately show ?thesis using ag by (auto simp: lock_requests_iff)
qed

definition kernel_backend :: "kernel PowerRequestBackend" where
  "kernel_backend = Win32PowerRequestBackend kernel_power_api"

lemma kernel_backend_ok: "power_backend kernel_backend kernel_opn (\<lambda>k. lock_view (kernel_act k))"
  unfolding kernel_backend_def by (rule kernel_api.win32.power_backend_axioms)

definition demo_locked :: "unit result \<times> PowerLocker \<times> kernel" where
  "demo_locked = AcquireLock kernel_backend DisplayRequired ''game'' (PowerLocker_new True) kernel_init"

lemma demo_locked_eval:
  "fst demo_locked = Success ()" "IsLocked (fst (snd demo_locked)) DisplayRequired"
  "k_open (snd (snd demo_locked)) = [1000]"
  by (simp_all add: demo_locked_def AcquireLock_def PowerLocker_new_def kernel_backend_def
      Win32PowerRequestBackend_def Win32_CreateRequest_def Win32_SetRequest_def kernel_power_api_def
      kernel_init_def kernel_limit_def INVALID_HANDLE_VALUE_def IsLocked_def)

theorem PowerLocker_requests_match_counts_witness:
  "\<exists>p k h. demo_locked = (Success (), p, k) \<and> IsLocked p DisplayRequired \<and>
     (h, DisplayRequired) \<in> lock_view (kernel_act k) \<and> kernel_opn k \<noteq> {}"
proof -
  obtain p k where d: "demo_locked = (Success (), p, k)"
    using demo_locked_eval(1) by (metis prod.collapse)
  have step: "(locker_step kernel_backend)\<^sup>*\<^sup>* (PowerLocker_new True, kernel_init) (p, k)"
    using d unfolding demo_locked_def by (intro r_into_rtranclp locker_step.acquire)
  have base: "fst ` lock_view (kernel_act kernel_init) \<subseteq> kernel_opn kernel_init"
    by (simp add: kernel_act_def kernel_init_def lock_view_def)
  have held: "IsLocked p DisplayRequired" using d demo_locked_eval(2) by (metis fst_conv snd_conv)
  then show ?thesis
    using PowerLocker_requests_match_counts [OF kernel_backend_ok base step] d by blast
qed

text \<open>
  A failed acquire or release changes neither the locker nor the open handles and the
  requests in force, so the caller can retry.
\<close>

theorem PowerLocker_failure_changes_nothing:
  assumes "power_backend B opn act" and "fst ` act s0 \<subseteq> opn s0"
    and "(locker_step B)\<^sup>*\<^sup>* (PowerLocker_new hb, s0) (p, s)"
    and "AcquireLock B t reason p s = (Failure e, p', s') \<or> ReleaseLock B t p s = (Failure e, p', s')"
  shows "p' = p \<and> opn s' = opn s \<and> act s' = act s"
proof -
  have "power_backend.agrees opn act (opn s0) (act s0) p s"
    using power_backend.agrees_steps [OF assms(1,3)] power_backend.agrees_new [OF assms(1,2)]
    by fastforce
  with assms(4) show ?thesis
    by (auto dest: power_backend.AcquireLock_failure_frame [OF assms(1)]
        power_backend.ReleaseLock_failure_frame [OF assms(1)])
qed

theorem PowerLocker_failure_changes_nothing_witness:
  "\<exists>e p' k'. AcquireLock kernel_backend DisplayRequired ''game'' (PowerLocker_new True)
      (kernel_init\<lparr>k_failSet := True\<rparr>) = (Failure e, p', k') \<and>
     p' = PowerLocker_new True \<and> kernel_opn k' = {}"
proof -
  let ?k = "kernel_init\<lparr>k_failSet := True\<rparr>"
  have base: "fst ` lock_view (kernel_act ?k) \<subseteq> kernel_opn ?k"
    by (simp add: kernel_act_def kernel_init_def lock_view_def)
  obtain e p' k' where f: "AcquireLock kernel_backend DisplayRequired ''game'' (PowerLocker_new True) ?k
      = (Failure e, p', k')"
    by (simp add: AcquireLock_def PowerLocker_new_def kernel_backend_def
      Win32PowerRequestBackend_def Win32_CreateRequest_def Win32_SetRequest_def kernel_power_api_def
      kernel_init_def kernel_limit_def INVALID_HANDLE_VALUE_def)
  have "kernel_opn ?k = {}" by (simp add: kernel_opn_def kernel_init_def)
  with f PowerLocker_failure_changes_nothing
      [OF kernel_backend_ok base rtranclp.rtrancl_refl disjI1 [OF f]]
  show ?thesis by auto
qed

lemma AcquireLock_LockCount:
  "AcquireLock B t reason p s = (r, p', s') \<Longrightarrow>
   LockCount p' = (if HasValue r then (LockCount p)(t := LockCount p t + 1) else LockCount p)"
  by (auto simp: AcquireLock_def LockCount_def fun_eq_iff set_lock_def Let_def
      split: if_splits prod.splits sum.splits)

lemma ReleaseLock_LockCount:
  "ReleaseLock B t p s = (r, p', s') \<Longrightarrow>
   LockCount p' = (if HasValue r then (LockCount p)(t := LockCount p t - 1) else LockCount p)"
  by (auto simp: ReleaseLock_def LockCount_def fun_eq_iff set_lock_def Let_def
      split: if_splits prod.splits sum.splits)

lemma ReleaseAll_LockCount:
  "PowerLocker_ReleaseAll B p s = (p', s') \<Longrightarrow> LockCount p' = (\<lambda>_. 0)"
  by (auto simp: PowerLocker_ReleaseAll_def release_type_def LockCount_def fun_eq_iff Let_def
      PowerLockType_all set_lock_def split: if_splits)

text \<open>
  The locker implements a pair of saturating counters: a successful acquire adds one to
  its type, a successful release takes one off (never below zero), release-all clears both, and
  no operation on one type touches the other.
\<close>

theorem PowerLocker_refines_counters:
  "(AcquireLock B t reason p s = (r, p', s') \<longrightarrow>
      LockCount p' = (if HasValue r then (LockCount p)(t := LockCount p t + 1) else LockCount p)) \<and>
   (ReleaseLock B t p s = (r, p', s') \<longrightarrow>
      LockCount p' = (if HasValue r then (LockCount p)(t := LockCount p t - 1) else LockCount p)) \<and>
   (PowerLocker_ReleaseAll B p s = (p', s') \<longrightarrow> LockCount p' = (\<lambda>_. 0))"
  by (intro conjI impI)
    (erule AcquireLock_LockCount ReleaseLock_LockCount ReleaseAll_LockCount)+

theorem PowerLocker_refines_counters_witness:
  "LockCount (fst (snd demo_locked)) DisplayRequired = 1"
  using PowerLocker_refines_counters [of kernel_backend DisplayRequired "''game''"
      "PowerLocker_new True" kernel_init "fst demo_locked" "fst (snd demo_locked)"
      "snd (snd demo_locked)"] demo_locked_eval(1)
  by (simp add: demo_locked_def LockCount_def PowerLocker_new_def)

end
