(* ===== verification/Priority_Booster.thy ===== *)
theory Priority_Booster
  imports Common_Error
begin

text \<open>
  Priority leases with conditional restore: \<^verbatim>\<open>include/priority/priority_booster.hpp\<close> and
  \<^verbatim>\<open>source/priority/priority_booster.cpp\<close>, with \<open>PriorityLevel\<close> from
  \<^verbatim>\<open>include/config/config_manager.hpp\<close>.  The backend is a record of functions over an
  abstract system state, queries are pure reads of that state.  The interface
  \<open>priority_backend\<close> relates it to a table of open handles and of process priority
  classes.  Between two calls the system state may be anything: other programs change
  priorities and exit.
\<close>

section \<open>Data\<close>

datatype PriorityLevel = PL_None | PL_AboveNormal | PL_High

fun PriorityLevel_rank :: "PriorityLevel \<Rightarrow> nat" where
  "PriorityLevel_rank PL_None = 0"
| "PriorityLevel_rank PL_AboveNormal = 1"
| "PriorityLevel_rank PL_High = 2"

definition LevelExceeds :: "PriorityLevel \<Rightarrow> PriorityLevel \<Rightarrow> bool" where
  "LevelExceeds level maxLevel \<longleftrightarrow> PriorityLevel_rank level > PriorityLevel_rank maxLevel"

definition PriorityLevelToWin32Class :: "PriorityLevel \<Rightarrow> u32 result" where
  "PriorityLevelToWin32Class level =
     (case level of
        PL_AboveNormal \<Rightarrow> Success 0x8000
      | PL_High \<Rightarrow> Success 0x80
      | PL_None \<Rightarrow> Failure (Error_Validation ''PriorityLevelToWin32Class'' ''no boost level (none)''))"

record 's PriorityBackend =
  OpenProcess :: "u32 \<Rightarrow> 's \<Rightarrow> u64 result \<times> 's"
  QueryCreationTime :: "u64 \<Rightarrow> 's \<Rightarrow> u64"
  QueryPriorityClass :: "u64 \<Rightarrow> 's \<Rightarrow> u32"
  SetPriorityClass :: "u64 \<Rightarrow> u32 \<Rightarrow> 's \<Rightarrow> unit result \<times> 's"
  CloseProcess :: "u64 \<Rightarrow> 's \<Rightarrow> 's"

text \<open>The Win32 calls of the production backend.\<close>

record 's process_api =
  papi_OpenProcess :: "u32 \<Rightarrow> u32 \<Rightarrow> 's \<Rightarrow> u64 \<times> 's"
  papi_GetProcessTimes :: "u64 \<Rightarrow> 's \<Rightarrow> (u32 \<times> u32) option"
  papi_GetPriorityClass :: "u64 \<Rightarrow> 's \<Rightarrow> u32"
  papi_SetPriorityClass :: "u64 \<Rightarrow> u32 \<Rightarrow> 's \<Rightarrow> bool \<times> 's"
  papi_CloseHandle :: "u64 \<Rightarrow> 's \<Rightarrow> 's"
  papi_GetLastError :: "'s \<Rightarrow> u32"
  papi_FormatMessage :: "u32 \<Rightarrow> string"

text \<open>\<open>PROCESS_QUERY_LIMITED_INFORMATION | PROCESS_SET_INFORMATION | SYNCHRONIZE\<close>.\<close>

definition kMinProcessAccess :: u32 where
  "kMinProcessAccess = or (or 0x1000 0x0200) 0x00100000"

definition Win32_OpenProcess :: "'s process_api \<Rightarrow> u32 \<Rightarrow> 's \<Rightarrow> u64 result \<times> 's" where
  "Win32_OpenProcess api pid s =
     (let (h, s1) = papi_OpenProcess api kMinProcessAccess pid s
      in if h = 0
         then (Failure (FromWin32 (papi_FormatMessage api) (papi_GetLastError api s1) ''OpenProcess''), s1)
         else (Success h, s1))"

text \<open>The pair is \<open>(dwHighDateTime, dwLowDateTime)\<close>.\<close>

definition Win32_QueryCreationTime :: "'s process_api \<Rightarrow> u64 \<Rightarrow> 's \<Rightarrow> u64" where
  "Win32_QueryCreationTime api h s =
     (case papi_GetProcessTimes api h s of
        None \<Rightarrow> 0
      | Some (hi, lo) \<Rightarrow> or (push_bit 32 (ucast hi)) (ucast lo))"

definition Win32_QueryPriorityClass :: "'s process_api \<Rightarrow> u64 \<Rightarrow> 's \<Rightarrow> u32" where
  "Win32_QueryPriorityClass api h s = papi_GetPriorityClass api h s"

definition Win32_SetPriorityClass :: "'s process_api \<Rightarrow> u64 \<Rightarrow> u32 \<Rightarrow> 's \<Rightarrow> unit result \<times> 's" where
  "Win32_SetPriorityClass api h c s =
     (let (ok, s1) = papi_SetPriorityClass api h c s
      in if \<not> ok
         then (Failure (FromWin32 (papi_FormatMessage api) (papi_GetLastError api s1) ''SetPriorityClass''), s1)
         else (Success (), s1))"

definition Win32_CloseProcess :: "'s process_api \<Rightarrow> u64 \<Rightarrow> 's \<Rightarrow> 's" where
  "Win32_CloseProcess api h s = (if h \<noteq> 0 then papi_CloseHandle api h s else s)"

definition Win32PriorityBackend :: "'s process_api \<Rightarrow> 's PriorityBackend" where
  "Win32PriorityBackend api =
     \<lparr>OpenProcess = Win32_OpenProcess api, QueryCreationTime = Win32_QueryCreationTime api,
      QueryPriorityClass = Win32_QueryPriorityClass api,
      SetPriorityClass = Win32_SetPriorityClass api, CloseProcess = Win32_CloseProcess api\<rparr>"

section \<open>The booster\<close>

record LeaseState =
  ls_pid :: u32
  ls_creationTime100ns :: u64
  ls_handle :: u64
  ls_originalClass :: u32
  ls_targetClass :: u32
  ls_level :: PriorityLevel
  ls_count :: nat

record PriorityBooster =
  pb_maxLevel :: PriorityLevel
  pb_leases :: "(string \<times> LeaseState) list"

definition PriorityBooster_new :: "PriorityLevel \<Rightarrow> PriorityBooster" where
  "PriorityBooster_new maxLevel = \<lparr>pb_maxLevel = maxLevel, pb_leases = []\<rparr>"

abbreviation lease_of :: "PriorityBooster \<Rightarrow> string \<Rightarrow> LeaseState option" where
  "lease_of b g \<equiv> om_get (pb_leases b) g"

text \<open>
  \<open>RestoreLastLease\<close>: \<open>None\<close> if the lease can be removed (restored, or nothing to
  restore), the error otherwise.
\<close>

definition RestoreLastLease ::
    "'s PriorityBackend \<Rightarrow> LeaseState \<Rightarrow> 's \<Rightarrow> Error option \<times> LeaseState \<times> 's" where
  "RestoreLastLease B st s =
     (let gone = (None, st\<lparr>ls_handle := 0, ls_count := 0\<rparr>, CloseProcess B (ls_handle st) s);
          currentClass = QueryPriorityClass B (ls_handle st) s
      in if ls_creationTime100ns st \<noteq> 0 \<and>
            QueryCreationTime B (ls_handle st) s \<noteq> ls_creationTime100ns st then gone
         else if currentClass = 0 then gone
         else if currentClass \<noteq> ls_targetClass st then gone
         else (case SetPriorityClass B (ls_handle st) (ls_originalClass st) s of
                 (Inl e, s1) \<Rightarrow> (Some e, st\<lparr>ls_count := 1\<rparr>, s1)
               | (Inr _, s1) \<Rightarrow>
                   (None, st\<lparr>ls_handle := 0, ls_count := 0\<rparr>, CloseProcess B (ls_handle st) s1)))"

definition ReleaseBoost ::
    "'s PriorityBackend \<Rightarrow> string \<Rightarrow> u32 \<Rightarrow> PriorityBooster \<Rightarrow> 's \<Rightarrow>
     unit result \<times> PriorityBooster \<times> 's" where
  "ReleaseBoost B gameId pid b s =
     (case lease_of b gameId of
        None \<Rightarrow> (Success (), b, s)
      | Some st \<Rightarrow>
          if ls_pid st \<noteq> pid then
            (Failure (Error_Validation ''PriorityBooster::ReleaseBoost''
               ''release pid does not match the boosted process''), b, s)
          else if ls_count st > 1 then
            (Success (),
             b\<lparr>pb_leases := om_put gameId (st\<lparr>ls_count := ls_count st - 1\<rparr>) (pb_leases b)\<rparr>, s)
          else
            (case RestoreLastLease B st s of
               (Some e, st', s1) \<Rightarrow> (Failure e, b\<lparr>pb_leases := om_put gameId st' (pb_leases b)\<rparr>, s1)
             | (None, st', s1) \<Rightarrow> (Success (), b\<lparr>pb_leases := om_del gameId (pb_leases b)\<rparr>, s1)))"

text \<open>The fresh acquisition at the end of \<open>AcquireBoost\<close>.\<close>

definition acquire_fresh ::
    "'s PriorityBackend \<Rightarrow> string \<Rightarrow> u32 \<Rightarrow> u64 \<Rightarrow> PriorityLevel \<Rightarrow> PriorityBooster \<Rightarrow> 's \<Rightarrow>
     unit result \<times> PriorityBooster \<times> 's" where
  "acquire_fresh B gameId pid expected level b s =
     (case PriorityLevelToWin32Class level of
        Inl e \<Rightarrow> (Failure e, b, s)
      | Inr target \<Rightarrow>
          (case OpenProcess B pid s of
             (Inl e, s1) \<Rightarrow> (Failure e, b, s1)
           | (Inr h, s1) \<Rightarrow>
               (let actual = QueryCreationTime B h s1;
                    original = QueryPriorityClass B h s1
                in if expected \<noteq> 0 \<and> (actual = 0 \<or> actual \<noteq> expected) then
                     (Failure (Error_Validation ''PriorityBooster::AcquireBoost''
                        ''process identity mismatch (pid reused or unverifiable)''),
                      b, CloseProcess B h s1)
                   else if original = 0 then
                     (Failure \<lparr>err_domain = Internal, err_code = 0,
                        err_operation = ''PriorityBooster::AcquireBoost'',
                        err_message = ''failed to query current priority class''\<rparr>,
                      b, CloseProcess B h s1)
                   else
                     (case SetPriorityClass B h target s1 of
                        (Inl e, s2) \<Rightarrow> (Failure e, b, CloseProcess B h s2)
                      | (Inr _, s2) \<Rightarrow>
                          (Success (),
                           b\<lparr>pb_leases := om_put gameId
                              \<lparr>ls_pid = pid,
                               ls_creationTime100ns = (if actual \<noteq> 0 then actual else expected),
                               ls_handle = h, ls_originalClass = original, ls_targetClass = target,
                               ls_level = level, ls_count = 1\<rparr> (pb_leases b)\<rparr>, s2)))))"

definition AcquireBoost ::
    "'s PriorityBackend \<Rightarrow> string \<Rightarrow> u32 \<Rightarrow> u64 \<Rightarrow> PriorityLevel \<Rightarrow> PriorityBooster \<Rightarrow> 's \<Rightarrow>
     unit result \<times> PriorityBooster \<times> 's" where
  "AcquireBoost B gameId pid expected level b s =
     (if level = PL_None then
        (Failure (Error_Validation ''PriorityBooster::AcquireBoost'' ''no boost level (none)''), b, s)
      else if LevelExceeds level (pb_maxLevel b) then
        (Failure (Error_Validation ''PriorityBooster::AcquireBoost''
           ''priority level exceeds configured maximum''), b, s)
      else
        (case lease_of b gameId of
           None \<Rightarrow> acquire_fresh B gameId pid expected level b s
         | Some st \<Rightarrow>
             if ls_pid st = pid then
               (Success (),
                b\<lparr>pb_leases := om_put gameId (st\<lparr>ls_count := ls_count st + 1\<rparr>) (pb_leases b)\<rparr>, s)
             else
               (case ReleaseBoost B gameId (ls_pid st) b s of
                  (Inl e, b1, s1) \<Rightarrow> (Failure e, b1, s1)
                | (Inr _, b1, s1) \<Rightarrow> acquire_fresh B gameId pid expected level b1 s1)))"

definition ForceCleanLease :: "'s PriorityBackend \<Rightarrow> LeaseState \<Rightarrow> 's \<Rightarrow> 's" where
  "ForceCleanLease B st s =
     (if ls_handle st \<noteq> 0 then
        (let currentClass = QueryPriorityClass B (ls_handle st) s;
             s1 = (if currentClass \<noteq> 0 \<and> currentClass = ls_targetClass st
                   then snd (SetPriorityClass B (ls_handle st) (ls_originalClass st) s) else s)
         in CloseProcess B (ls_handle st) s1)
      else s)"

definition PriorityBooster_ReleaseAll ::
    "'s PriorityBackend \<Rightarrow> PriorityBooster \<Rightarrow> 's \<Rightarrow> PriorityBooster \<times> 's" where
  "PriorityBooster_ReleaseAll B b s =
     (b\<lparr>pb_leases := []\<rparr>, foldl (\<lambda>s e. ForceCleanLease B (snd e) s) s (pb_leases b))"

definition IsBoosted :: "PriorityBooster \<Rightarrow> string \<Rightarrow> bool" where
  "IsBoosted b g = (case lease_of b g of None \<Rightarrow> False | Some st \<Rightarrow> ls_count st > 0)"

definition BoostCount :: "PriorityBooster \<Rightarrow> string \<Rightarrow> nat" where
  "BoostCount b g = (case lease_of b g of None \<Rightarrow> 0 | Some st \<Rightarrow> ls_count st)"

record BoostState =
  bs_gameId :: string
  bs_pid :: u32
  bs_level :: PriorityLevel
  bs_count :: nat
  bs_creationTime100ns :: u64

definition GetStates :: "PriorityBooster \<Rightarrow> BoostState list" where
  "GetStates b =
     map (\<lambda>(g, st). \<lparr>bs_gameId = g, bs_pid = ls_pid st, bs_level = ls_level st,
        bs_count = ls_count st, bs_creationTime100ns = ls_creationTime100ns st\<rparr>) (pb_leases b)"

definition lease_ok :: "PriorityLevel \<Rightarrow> LeaseState \<Rightarrow> bool" where
  "lease_ok maxLevel st \<longleftrightarrow>
     1 \<le> ls_count st \<and> ls_handle st \<noteq> 0 \<and> ls_originalClass st \<noteq> 0 \<and>
     PriorityLevelToWin32Class (ls_level st) = Success (ls_targetClass st) \<and>
     \<not> LevelExceeds (ls_level st) maxLevel"

lemma lease_put [simp]: "lease_of (b\<lparr>pb_leases := om_put g st m\<rparr>) g' =
    (if g' = g then Some st else om_get m g')"
  by (simp add: om.get_put)

definition lease_handles :: "PriorityBooster \<Rightarrow> string \<rightharpoonup> u64" where
  "lease_handles b g = map_option ls_handle (lease_of b g)"

text \<open>What the two calls do to the leases, whatever the backend answers.\<close>

lemma acquire_fresh_leases:
  assumes "acquire_fresh B g pid expected level b s = (r, b', s')"
  shows "if HasValue r then \<exists>st. b' = b\<lparr>pb_leases := om_put g st (pb_leases b)\<rparr> \<and> ls_pid st = pid \<and> ls_count st = 1
    else b' = b"
  using assms by (auto simp: acquire_fresh_def Let_def split: sum.splits prod.splits if_splits)

lemma AcquireBoost_fresh_leases:
  assumes "lease_of b g = None" and "AcquireBoost B g pid expected level b s = (r, b', s')"
  shows "if HasValue r then \<exists>st. b' = b\<lparr>pb_leases := om_put g st (pb_leases b)\<rparr> \<and> ls_pid st = pid \<and> ls_count st = 1
    else b' = b"
  using assms acquire_fresh_leases [of B g pid expected level b s r b' s']
  by (auto simp: AcquireBoost_def split: if_splits)

lemma ReleaseBoost_single_leases:
  assumes "lease_of b g = Some st" and "ls_pid st = pid" and "ls_count st = 1"
    and "ReleaseBoost B g pid b s = (r, b', s')"
  shows "if HasValue r then b' = b\<lparr>pb_leases := om_del g (pb_leases b)\<rparr>
    else \<exists>st'. b' = b\<lparr>pb_leases := om_put g st' (pb_leases b)\<rparr> \<and> ls_pid st' = pid \<and> ls_count st' = 1"
  using assms
  by (auto simp: ReleaseBoost_def RestoreLastLease_def Let_def split: sum.splits prod.splits if_splits)

section \<open>What the booster needs from a backend\<close>

text \<open>
  \<open>hpid\<close> is the table of open handles and the processes they name, \<open>pclass\<close> the
  priority class of a process (0 once it has exited) and \<open>ctime\<close> its creation time.
\<close>

locale priority_backend =
  fixes B :: "'s PriorityBackend"
    and hpid :: "'s \<Rightarrow> u64 \<rightharpoonup> u32"
    and pclass :: "'s \<Rightarrow> u32 \<Rightarrow> u32"
    and ctime :: "'s \<Rightarrow> u32 \<Rightarrow> u64"
  assumes open_ok: "OpenProcess B pid s = (Inr h, s') \<Longrightarrow>
      h \<noteq> 0 \<and> hpid s h = None \<and> hpid s' = (hpid s)(h \<mapsto> pid) \<and> pclass s' = pclass s \<and> ctime s' = ctime s"
    and open_fail: "OpenProcess B pid s = (Inl e, s') \<Longrightarrow>
      hpid s' = hpid s \<and> pclass s' = pclass s \<and> ctime s' = ctime s"
    and query_class: "QueryPriorityClass B h s = (case hpid s h of None \<Rightarrow> 0 | Some pid \<Rightarrow> pclass s pid)"
    and query_time: "QueryCreationTime B h s = (case hpid s h of None \<Rightarrow> 0 | Some pid \<Rightarrow> ctime s pid)"
    and set_ok: "SetPriorityClass B h c s = (Inr u, s') \<Longrightarrow>
      hpid s' = hpid s \<and> ctime s' = ctime s \<and>
      (\<exists>pid. hpid s h = Some pid \<and> pclass s' = (pclass s)(pid := c))"
    and set_fail: "SetPriorityClass B h c s = (Inl e, s') \<Longrightarrow>
      hpid s' = hpid s \<and> pclass s' = pclass s \<and> ctime s' = ctime s"
    and close: "hpid (CloseProcess B h s) = (hpid s)(h := None) \<and>
      pclass (CloseProcess B h s) = pclass s \<and> ctime (CloseProcess B h s) = ctime s"
begin

text \<open>A fresh acquisition, seen through the tables.\<close>

lemma acquire_fresh_ok:
  assumes "acquire_fresh B g pid expected level b s = (Inr u, b', s')"
  shows "\<exists>h st. h \<noteq> 0 \<and> hpid s h = None \<and> hpid s' = (hpid s)(h \<mapsto> pid) \<and> ctime s' = ctime s \<and>
    PriorityLevelToWin32Class level = Success (ls_targetClass st) \<and>
    pclass s pid \<noteq> 0 \<and> pclass s' = (pclass s)(pid := ls_targetClass st) \<and>
    b' = b\<lparr>pb_leases := om_put g st (pb_leases b)\<rparr> \<and>
    ls_pid st = pid \<and> ls_handle st = h \<and> ls_originalClass st = pclass s pid \<and> ls_level st = level \<and>
    ls_count st = 1 \<and> ls_creationTime100ns st = (if ctime s pid \<noteq> 0 then ctime s pid else expected) \<and>
    (expected \<noteq> 0 \<longrightarrow> ctime s pid = expected)"
proof -
  obtain target where t: "PriorityLevelToWin32Class level = Inr target"
    using assms by (auto simp: acquire_fresh_def split: sum.splits)
  obtain h s1 where o: "OpenProcess B pid s = (Inr h, s1)"
    using assms t by (auto simp: acquire_fresh_def split: sum.splits prod.splits)
  note ov = open_ok [OF o]
  have q: "QueryPriorityClass B h s1 = pclass s pid" "QueryCreationTime B h s1 = ctime s pid"
    using ov by (simp_all add: query_class query_time)
  obtain u2 where st: "SetPriorityClass B h target s1 = (Inr u2, s')"
    using assms t o by (auto simp: acquire_fresh_def Let_def split: sum.splits prod.splits if_splits)
  from set_ok [OF st] ov
  have "hpid s' = (hpid s)(h \<mapsto> pid)" "pclass s' = (pclass s)(pid := target)" "ctime s' = ctime s"
    by auto
  note sv = this
  let ?st = "\<lparr>ls_pid = pid, ls_creationTime100ns = (if ctime s pid \<noteq> 0 then ctime s pid else expected),
    ls_handle = h, ls_originalClass = pclass s pid, ls_targetClass = target, ls_level = level,
    ls_count = 1\<rparr>"
  have "b' = b\<lparr>pb_leases := om_put g ?st (pb_leases b)\<rparr> \<and> pclass s pid \<noteq> 0 \<and>
      (expected \<noteq> 0 \<longrightarrow> ctime s pid = expected)"
    using assms t o q st by (auto simp: acquire_fresh_def Let_def split: if_splits)
  with ov sv t show ?thesis by (intro exI [of _ h] exI [of _ ?st]) simp
qed

lemma acquire_fresh_fail:
  assumes "acquire_fresh B g pid expected level b s = (Inl e, b', s')"
  shows "b' = b \<and> hpid s' = hpid s \<and> pclass s' = pclass s \<and> ctime s' = ctime s"
proof (cases "PriorityLevelToWin32Class level")
  case (Inl e')
  with assms show ?thesis by (simp add: acquire_fresh_def)
next
  case t: (Inr target)
  obtain ro s1 where o: "OpenProcess B pid s = (ro, s1)" by fastforce
  show ?thesis
  proof (cases ro)
    case (Inl e')
    with assms t o show ?thesis by (auto simp: acquire_fresh_def dest: open_fail)
  next
    case h: (Inr h)
    note ov = open_ok [OF o [unfolded h]]
    obtain rs s2 where st: "SetPriorityClass B h target s1 = (rs, s2)" by fastforce
    have undo: "(hpid s)(h := None) = hpid s" using ov by auto
    show ?thesis
      using assms t o h st ov close [of h s1] close [of h s2] undo
      by (cases rs) (auto simp: acquire_fresh_def Let_def split: if_splits dest: set_fail)
  qed
qed

text \<open>What a release does to the system.\<close>

lemma RestoreLastLease_view:
  assumes "RestoreLastLease B st s = (r, st', s')" and "hpid s (ls_handle st) = Some (ls_pid st)"
  shows "ctime s' = ctime s \<and>
    (case r of
       Some e \<Rightarrow> hpid s' = hpid s \<and> pclass s' = pclass s \<and> st' = st\<lparr>ls_count := 1\<rparr>
     | None \<Rightarrow> hpid s' = (hpid s)(ls_handle st := None) \<and>
        pclass s' =
          (if (ls_creationTime100ns st = 0 \<or> ctime s (ls_pid st) = ls_creationTime100ns st) \<and>
              pclass s (ls_pid st) \<noteq> 0 \<and> pclass s (ls_pid st) = ls_targetClass st
           then (pclass s)(ls_pid st := ls_originalClass st) else pclass s))"
proof -
  obtain rs s1 where st: "SetPriorityClass B (ls_handle st) (ls_originalClass st) s = (rs, s1)"
    by fastforce
  show ?thesis
    using assms st close [of "ls_handle st" s] close [of "ls_handle st" s1]
    by (cases rs)
      (auto simp: RestoreLastLease_def Let_def query_class query_time split: if_splits
        dest: set_ok set_fail)
qed

text \<open>
  The booster owns its handles: every lease has an open handle of its own, to its process,
  and apart from \<open>base\<close> (what others hold) nothing is open.
\<close>

definition owns :: "u64 set \<Rightarrow> PriorityBooster \<Rightarrow> 's \<Rightarrow> bool" where
  "owns base b s \<longleftrightarrow>
     om_wf (pb_leases b) \<and>
     (\<forall>g st. lease_of b g = Some st \<longrightarrow>
        lease_ok (pb_maxLevel b) st \<and> hpid s (ls_handle st) = Some (ls_pid st) \<and> ls_handle st \<notin> base) \<and>
     map_inj (lease_handles b) \<and>
     dom (hpid s) = base \<union> ran (lease_handles b)"

lemma owns_new: "owns (dom (hpid s)) (PriorityBooster_new m) s"
  by (simp add: owns_def PriorityBooster_new_def om.wf_empty om.get_empty lease_handles_def map_inj_def ran_def)

lemma owns_same: "owns base b s \<Longrightarrow> hpid s' = hpid s \<Longrightarrow> owns base b s'"
  by (simp add: owns_def)

lemma owns_recount:
  assumes "owns base b s" and "lease_of b g = Some st" and "1 \<le> n"
  shows "owns base (b\<lparr>pb_leases := om_put g (st\<lparr>ls_count := n\<rparr>) (pb_leases b)\<rparr>) s"
proof -
  let ?b = "b\<lparr>pb_leases := om_put g (st\<lparr>ls_count := n\<rparr>) (pb_leases b)\<rparr>"
  have "lease_handles ?b = lease_handles b"
    using assms(2) by (simp add: lease_handles_def fun_eq_iff om.get_put)
  moreover have "om_wf (pb_leases ?b)" using assms(1) by (simp add: owns_def om.wf_put)
  moreover have "lease_ok (pb_maxLevel b) (st\<lparr>ls_count := n\<rparr>)"
    using assms by (simp add: owns_def lease_ok_def)
  ultimately show ?thesis
    using assms(1,2) by (simp add: owns_def om.get_put)
qed

lemma owns_add:
  assumes ow: "owns base b s" and none: "lease_of b g = None" and ok: "lease_ok (pb_maxLevel b) st"
    and fresh: "hpid s (ls_handle st) = None" and s': "hpid s' = (hpid s)(ls_handle st \<mapsto> ls_pid st)"
  shows "owns base (b\<lparr>pb_leases := om_put g st (pb_leases b)\<rparr>) s'"
proof -
  let ?b = "b\<lparr>pb_leases := om_put g st (pb_leases b)\<rparr>"
  have hm: "lease_handles ?b = (lease_handles b)(g \<mapsto> ls_handle st)"
    by (simp add: lease_handles_def fun_eq_iff om.get_put)
  have free: "ls_handle st \<notin> base \<union> ran (lease_handles b)"
    using ow fresh by (metis domIff owns_def)
  have g: "lease_handles b g = None" using none by (simp add: lease_handles_def)
  have "\<And>g' st'. lease_of b g' = Some st' \<Longrightarrow> ls_handle st' \<noteq> ls_handle st"
    using ow fresh by (metis option.distinct(1) owns_def)
  moreover have "om_wf (pb_leases ?b)" using ow by (simp add: owns_def om.wf_put)
  moreover have "map_inj (lease_handles ?b)"
    using ow free by (simp add: hm owns_def map_inj_upd)
  moreover have "dom (hpid s') = base \<union> ran (lease_handles ?b)"
    using ow s' by (simp add: hm g owns_def)
  ultimately show ?thesis
    using ow ok s' free by (simp add: owns_def om.get_put)
qed

lemma owns_del:
  assumes ow: "owns base b s" and st: "lease_of b g = Some st"
    and s': "hpid s' = (hpid s)(ls_handle st := None)"
  shows "owns base (b\<lparr>pb_leases := om_del g (pb_leases b)\<rparr>) s'"
proof -
  let ?b = "b\<lparr>pb_leases := om_del g (pb_leases b)\<rparr>"
  have wf: "om_wf (pb_leases b)" using ow by (simp add: owns_def)
  have hm: "lease_handles ?b = (lease_handles b)(g := None)"
    using wf by (simp add: lease_handles_def fun_eq_iff om.get_del)
  have g: "lease_handles b g = Some (ls_handle st)" using st by (simp add: lease_handles_def)
  have inj: "map_inj (lease_handles b)" using ow by (simp add: owns_def)
  have other: "\<And>g' st'. g' \<noteq> g \<Longrightarrow> lease_of b g' = Some st' \<Longrightarrow> ls_handle st' \<noteq> ls_handle st"
    using map_injD [OF inj _ g] by (metis lease_handles_def option.simps(9))
  have nb: "ls_handle st \<notin> base" using ow st by (simp add: owns_def)
  have "om_wf (pb_leases ?b)" using wf by (simp add: om.wf_del)
  moreover have "map_inj (lease_handles ?b)" using inj by (simp add: hm map_inj_del)
  moreover have "dom (hpid s') = base \<union> ran (lease_handles ?b)"
    using ow s' nb by (auto simp: hm ran_del [OF inj g] owns_def)
  ultimately show ?thesis
    using ow s' other by (simp add: owns_def om.get_del [OF wf])
qed

lemma owns_ReleaseBoost:
  assumes ow: "owns base b s" and rel: "ReleaseBoost B g pid b s = (r, b', s')"
  shows "owns base b' s'"
proof (cases "lease_of b g")
  case None
  with ow rel show ?thesis by (simp add: ReleaseBoost_def)
next
  case (Some st)
  have h: "hpid s (ls_handle st) = Some (ls_pid st)" using ow Some by (simp add: owns_def)
  obtain x st' s1 where rr: "RestoreLastLease B st s = (x, st', s1)" by (metis prod_cases3)
  note rv = RestoreLastLease_view [OF rr h]
  show ?thesis
  proof (cases "ls_pid st \<noteq> pid \<or> ls_count st > 1")
    case True
    with ow rel Some show ?thesis
      by (auto simp: ReleaseBoost_def split: if_splits intro: owns_recount)
  next
    case False
    have "x = Some e \<Longrightarrow> owns base (b\<lparr>pb_leases := om_put g st' (pb_leases b)\<rparr>) s1" for e
      using rv owns_recount [OF ow Some, of 1] by (auto intro: owns_same)
    moreover have "x = None \<Longrightarrow> owns base (b\<lparr>pb_leases := om_del g (pb_leases b)\<rparr>) s1"
      using rv by (auto intro: owns_del [OF ow Some])
    ultimately show ?thesis
      using False rel Some rr by (auto simp: ReleaseBoost_def split: option.splits)
  qed
qed

lemma owns_acquire_fresh:
  assumes ow: "owns base b s" and none: "lease_of b g = None"
    and lv: "\<not> LevelExceeds level (pb_maxLevel b)"
    and acq: "acquire_fresh B g pid expected level b s = (r, b', s')"
  shows "owns base b' s'"
proof (cases r)
  case (Inl e)
  with acquire_fresh_fail [OF acq [unfolded Inl]] ow show ?thesis by (auto intro: owns_same)
next
  case (Inr u)
  obtain h st where f: "h \<noteq> 0" "hpid s h = None" "hpid s' = (hpid s)(h \<mapsto> pid)"
    "PriorityLevelToWin32Class level = Success (ls_targetClass st)" "pclass s pid \<noteq> 0"
    "b' = b\<lparr>pb_leases := om_put g st (pb_leases b)\<rparr>" "ls_pid st = pid" "ls_handle st = h"
    "ls_originalClass st = pclass s pid" "ls_level st = level" "ls_count st = 1"
    using acquire_fresh_ok [OF acq [unfolded Inr]] by blast
  then have "lease_ok (pb_maxLevel b) st" using lv by (simp add: lease_ok_def)
  with f show ?thesis using owns_add [OF ow none, of st s'] by simp
qed

text \<open>
  A restart of a game (same id, other pid) releases the old lease once only, so ownership is
  kept if that lease was the last one.
\<close>

lemma owns_AcquireBoost:
  assumes ow: "owns base b s"
    and last: "\<And>st. lease_of b g = Some st \<Longrightarrow> ls_pid st \<noteq> pid \<Longrightarrow> ls_count st = 1"
    and acq: "AcquireBoost B g pid expected level b s = (r, b', s')"
  shows "owns base b' s'"
proof (cases "level = PL_None \<or> LevelExceeds level (pb_maxLevel b)")
  case True
  with acq ow show ?thesis by (auto simp: AcquireBoost_def split: if_splits)
next
  case lv: False
  show ?thesis
  proof (cases "lease_of b g")
    case None
    have "acquire_fresh B g pid expected level b s = (r, b', s')"
      using acq lv None by (simp add: AcquireBoost_def)
    with lv show ?thesis using owns_acquire_fresh [OF ow None] by blast
  next
    case (Some st)
    show ?thesis
    proof (cases "ls_pid st = pid")
      case True
      with acq lv Some ow show ?thesis
        by (auto simp: AcquireBoost_def intro: owns_recount)
    next
      case False
      obtain r1 b1 s1 where rel: "ReleaseBoost B g (ls_pid st) b s = (r1, b1, s1)"
        by (metis prod_cases3)
      have ow1: "owns base b1 s1" using owns_ReleaseBoost [OF ow rel] .
      have wf: "om_wf (pb_leases b)" using ow by (simp add: owns_def)
      have mx: "pb_maxLevel b1 = pb_maxLevel b"
        using rel by (auto simp: ReleaseBoost_def split: option.splits prod.splits if_splits)
      have none: "lease_of b1 g = None" if "r1 = Inr u" for u
        using rel that last [OF Some False] Some wf
        by (auto simp: ReleaseBoost_def om.get_del split: option.splits prod.splits)
      show ?thesis
      proof (cases r1)
        case (Inl e)
        with acq lv Some False rel ow1 show ?thesis by (simp add: AcquireBoost_def)
      next
        case (Inr u)
        have "acquire_fresh B g pid expected level b1 s1 = (r, b', s')"
          using acq lv Some False rel Inr by (simp add: AcquireBoost_def)
        with lv mx show ?thesis using owns_acquire_fresh [OF ow1 none [OF Inr]] by metis
      qed
    qed
  qed
qed

lemma hpid_ForceCleanLease:
  "ls_handle st \<noteq> 0 \<Longrightarrow> hpid (ForceCleanLease B st s) = (hpid s)(ls_handle st := None)"
  using close set_ok set_fail
  by (cases "SetPriorityClass B (ls_handle st) (ls_originalClass st) s";
      cases "fst (SetPriorityClass B (ls_handle st) (ls_originalClass st) s)")
    (auto simp: ForceCleanLease_def Let_def)

lemma hpid_foldl_ForceClean:
  "\<forall>e \<in> set es. ls_handle (snd e) \<noteq> 0 \<Longrightarrow>
   hpid (foldl (\<lambda>s e. ForceCleanLease B (snd e) s) s es) =
     (hpid s) |` (- (\<lambda>e. ls_handle (snd e)) ` set es)"
proof (induction es arbitrary: s)
  case (Cons e es)
  then show ?case
    by (auto simp: hpid_ForceCleanLease restrict_map_def fun_eq_iff)
qed (simp add: restrict_map_def fun_eq_iff)

lemma owns_ReleaseAll:
  assumes ow: "owns base b s" and ra: "PriorityBooster_ReleaseAll B b s = (b', s')"
  shows "owns base b' s'"
proof -
  have wf: "om_wf (pb_leases b)" using ow by (simp add: owns_def)
  have mem: "\<And>g st. (g, st) \<in> set (pb_leases b) \<longleftrightarrow> lease_of b g = Some st"
    using om_get_in_set [OF wf] by blast
  then have nz: "\<forall>e \<in> set (pb_leases b). ls_handle (snd e) \<noteq> 0"
    using ow by (auto simp: owns_def lease_ok_def)
  have img: "(\<lambda>e. ls_handle (snd e)) ` set (pb_leases b) = ran (lease_handles b)"
    using mem by (force simp: ran_def lease_handles_def)
  have "dom (hpid s') = base"
    using ra ow hpid_foldl_ForceClean [OF nz, of s] img
    by (force simp: PriorityBooster_ReleaseAll_def owns_def lease_handles_def ran_def)
  moreover have "b' = b\<lparr>pb_leases := []\<rparr>" using ra by (simp add: PriorityBooster_ReleaseAll_def)
  ultimately show ?thesis
    by (simp add: owns_def om.get_empty om.wf_empty lease_handles_def map_inj_def ran_def)
qed

end

section \<open>The Win32 backend\<close>

text \<open>
  The documented behaviour of the process calls.  \<open>ptime\<close> is the creation time as the
  pair of its high and low halves.
\<close>

locale win32_process_api =
  fixes api :: "'s process_api"
    and hpid :: "'s \<Rightarrow> u64 \<rightharpoonup> u32"
    and pclass :: "'s \<Rightarrow> u32 \<Rightarrow> u32"
    and ptime :: "'s \<Rightarrow> u32 \<Rightarrow> u32 \<times> u32"
  assumes api_open: "papi_OpenProcess api a pid s = (h, s') \<Longrightarrow>
      pclass s' = pclass s \<and> ptime s' = ptime s \<and>
      (if h = 0 then hpid s' = hpid s else hpid s h = None \<and> hpid s' = (hpid s)(h \<mapsto> pid))"
    and api_class: "papi_GetPriorityClass api h s = (case hpid s h of None \<Rightarrow> 0 | Some pid \<Rightarrow> pclass s pid)"
    and api_times: "papi_GetProcessTimes api h s = map_option (ptime s) (hpid s h)"
    and api_set: "papi_SetPriorityClass api h c s = (ok, s') \<Longrightarrow>
      hpid s' = hpid s \<and> ptime s' = ptime s \<and>
      (if ok then \<exists>pid. hpid s h = Some pid \<and> pclass s' = (pclass s)(pid := c) else pclass s' = pclass s)"
    and api_close: "hpid (papi_CloseHandle api h s) = (hpid s)(h := None) \<and>
      pclass (papi_CloseHandle api h s) = pclass s \<and> ptime (papi_CloseHandle api h s) = ptime s"
    and api_null: "hpid s 0 = None"

definition filetime :: "u32 \<times> u32 \<Rightarrow> u64" where
  "filetime t = or (push_bit 32 (ucast (fst t))) (ucast (snd t))"

sublocale win32_process_api \<subseteq>
    win32: priority_backend "Win32PriorityBackend api" hpid pclass "\<lambda>s pid. filetime (ptime s pid)"
proof (unfold_locales, goal_cases)
  case (1 pid s h s')
  then show ?case
    by (auto simp: Win32PriorityBackend_def Win32_OpenProcess_def split: prod.splits if_splits dest!: api_open)
next
  case (2 pid s e s')
  then show ?case
    by (auto simp: Win32PriorityBackend_def Win32_OpenProcess_def split: prod.splits if_splits dest!: api_open)
next
  case (3 h s)
  then show ?case
    by (simp add: Win32PriorityBackend_def Win32_QueryPriorityClass_def api_class)
next
  case (4 h s)
  then show ?case
    by (auto simp: Win32PriorityBackend_def Win32_QueryCreationTime_def api_times filetime_def
        split: option.splits prod.splits)
next
  case (5 h c s u s')
  then show ?case
    by (auto simp: Win32PriorityBackend_def Win32_SetPriorityClass_def split: prod.splits if_splits dest!: api_set)
next
  case (6 h c s e s')
  then show ?case
    by (auto simp: Win32PriorityBackend_def Win32_SetPriorityClass_def split: prod.splits if_splits dest!: api_set)
next
  case (7 h s)
  then show ?case
    using api_close [of h s] api_null [of s]
    by (auto simp: Win32PriorityBackend_def Win32_CloseProcess_def)
qed

text \<open>A reference process table with this behaviour and switches for failures.\<close>

record ptable =
  pt_next :: u64
  pt_handles :: "u64 \<rightharpoonup> u32"
  pt_class :: "u32 \<Rightarrow> u32"
  pt_time :: "u32 \<Rightarrow> u32 \<times> u32"
  pt_failOpen :: bool
  pt_failSet :: bool

definition ptable_init :: ptable where
  "ptable_init = \<lparr>pt_next = 100, pt_handles = Map.empty, pt_class = (\<lambda>_. 0x20),
     pt_time = (\<lambda>pid. (0, pid)), pt_failOpen = False, pt_failSet = False\<rparr>"

definition ptable_api :: "ptable process_api" where
  "ptable_api =
     \<lparr>papi_OpenProcess = (\<lambda>a pid k.
        if pt_failOpen k \<or> pt_next k = 0 \<or> pt_handles k (pt_next k) \<noteq> None then (0, k)
        else (pt_next k, k\<lparr>pt_next := pt_next k + 1, pt_handles := (pt_handles k)(pt_next k \<mapsto> pid)\<rparr>)),
      papi_GetProcessTimes = (\<lambda>h k. if h = 0 then None else map_option (pt_time k) (pt_handles k h)),
      papi_GetPriorityClass = (\<lambda>h k. if h = 0 then 0
        else case pt_handles k h of None \<Rightarrow> 0 | Some pid \<Rightarrow> pt_class k pid),
      papi_SetPriorityClass = (\<lambda>h c k. if pt_failSet k \<or> h = 0 then (False, k)
        else case pt_handles k h of None \<Rightarrow> (False, k)
          | Some pid \<Rightarrow> (True, k\<lparr>pt_class := (pt_class k)(pid := c)\<rparr>)),
      papi_CloseHandle = (\<lambda>h k. k\<lparr>pt_handles := (pt_handles k)(h := None)\<rparr>),
      papi_GetLastError = (\<lambda>k. 5),
      papi_FormatMessage = (\<lambda>c. ''denied'')\<rparr>"

definition ptable_hpid :: "ptable \<Rightarrow> u64 \<rightharpoonup> u32" where
  "ptable_hpid k = (pt_handles k)(0 := None)"

interpretation ptable_api: win32_process_api ptable_api ptable_hpid pt_class pt_time
proof (unfold_locales, goal_cases)
  case (1 a pid s h s')
  then show ?case
    by (auto simp: ptable_api_def ptable_hpid_def fun_eq_iff split: if_splits)
next
  case (2 h s)
  then show ?case by (simp add: ptable_api_def ptable_hpid_def)
next
  case (3 h s)
  then show ?case by (simp add: ptable_api_def ptable_hpid_def)
next
  case (4 h c s ok s')
  then show ?case by (auto simp: ptable_api_def ptable_hpid_def split: if_splits option.splits)
next
  case (5 h s)
  then show ?case by (simp add: ptable_api_def ptable_hpid_def fun_eq_iff)
next
  case (6 s)
  then show ?case by (simp add: ptable_hpid_def)
qed

definition ptable_backend :: "ptable PriorityBackend" where
  "ptable_backend = Win32PriorityBackend ptable_api"

lemma ptable_backend_ok:
  "priority_backend ptable_backend ptable_hpid pt_class (\<lambda>k pid. filetime (pt_time k pid))"
  unfolding ptable_backend_def by (rule ptable_api.win32.priority_backend_axioms)

lemmas ptable_eval = ptable_backend_def Win32PriorityBackend_def Win32_OpenProcess_def
  Win32_QueryCreationTime_def Win32_QueryPriorityClass_def Win32_SetPriorityClass_def
  Win32_CloseProcess_def ptable_api_def ptable_init_def

lemmas booster_eval = AcquireBoost_def acquire_fresh_def ReleaseBoost_def RestoreLastLease_def
  PriorityBooster_new_def PriorityLevelToWin32Class_def LevelExceeds_def om_get_def

section \<open>Properties\<close>

text \<open>
  The calls of a client, interleaved with changes the rest of the system makes to priority
  classes and processes (it cannot touch this program's handle table).  A restart (an
  acquire for a known game with another pid) happens only while the old lease is the last.
\<close>

inductive booster_step ::
    "'s PriorityBackend \<Rightarrow> ('s \<Rightarrow> u64 \<rightharpoonup> u32) \<Rightarrow> PriorityBooster \<times> 's \<Rightarrow> PriorityBooster \<times> 's \<Rightarrow> bool"
  for B :: "'s PriorityBackend" and hpid :: "'s \<Rightarrow> u64 \<rightharpoonup> u32" where
  acquire: "\<lbrakk>\<forall>st. lease_of b g = Some st \<and> ls_pid st \<noteq> pid \<longrightarrow> ls_count st = 1;
    AcquireBoost B g pid expected level b s = (r, b', s')\<rbrakk> \<Longrightarrow> booster_step B hpid (b, s) (b', s')"
| release: "ReleaseBoost B g pid b s = (r, b', s') \<Longrightarrow> booster_step B hpid (b, s) (b', s')"
| release_all: "PriorityBooster_ReleaseAll B b s = (b', s') \<Longrightarrow> booster_step B hpid (b, s) (b', s')"
| environment: "hpid s' = hpid s \<Longrightarrow> booster_step B hpid (b, s) (b, s')"

context priority_backend
begin

lemma owns_step:
  "booster_step B hpid bs bs' \<Longrightarrow> owns base (fst bs) (snd bs) \<Longrightarrow> owns base (fst bs') (snd bs')"
proof (induction rule: booster_step.induct)
  case (acquire b g pid expected level s r b' s')
  then show ?case using owns_AcquireBoost [of base b s g pid expected level r b' s'] by simp
qed (auto intro: owns_ReleaseBoost owns_ReleaseAll owns_same)

lemma owns_steps:
  "(booster_step B hpid)\<^sup>*\<^sup>* bs bs' \<Longrightarrow> owns base (fst bs) (snd bs) \<Longrightarrow> owns base (fst bs') (snd bs')"
  by (induction rule: rtranclp_induct) (auto intro: owns_step)

end

text \<open>
  C9: Through every interleaving of calls and outside changes the booster holds exactly one open
  handle per lease and no others: each names the leased process, each lease is counted at
  least once, and no lease exceeds the configured maximum level.
\<close>

theorem PriorityBooster_owns_exactly_its_handles:
  assumes "priority_backend B hpid pclass ctime"
    and "(booster_step B hpid)\<^sup>*\<^sup>* (PriorityBooster_new m, s0) (b, s)"
  shows "dom (hpid s) = dom (hpid s0) \<union> {ls_handle st | g st. lease_of b g = Some st} \<and>
    (\<forall>g st. lease_of b g = Some st \<longrightarrow>
       hpid s (ls_handle st) = Some (ls_pid st) \<and> ls_handle st \<notin> dom (hpid s0) \<and>
       1 \<le> ls_count st \<and> \<not> LevelExceeds (ls_level st) (pb_maxLevel b) \<and>
       PriorityLevelToWin32Class (ls_level st) = Success (ls_targetClass st))"
proof -
  have "priority_backend.owns hpid (dom (hpid s0)) b s"
    using priority_backend.owns_steps [OF assms] priority_backend.owns_new [OF assms(1)] by fastforce
  note ow = this [unfolded priority_backend.owns_def [OF assms(1)]]
  have "ran (lease_handles b) = {ls_handle st | g st. lease_of b g = Some st}"
    by (force simp: lease_handles_def ran_def)
  with ow show ?thesis by (auto simp: lease_ok_def)
qed

definition demo_boost :: "unit result \<times> PriorityBooster \<times> ptable" where
  "demo_boost = AcquireBoost ptable_backend ''g'' 7 0 PL_AboveNormal
     (PriorityBooster_new PL_AboveNormal) ptable_init"

lemma demo_boost_eval:
  "demo_boost = (Success (), \<lparr>pb_maxLevel = PL_AboveNormal, pb_leases = [(''g'',
     \<lparr>ls_pid = 7, ls_creationTime100ns = 7, ls_handle = 100, ls_originalClass = 0x20,
      ls_targetClass = 0x8000, ls_level = PL_AboveNormal, ls_count = 1\<rparr>)]\<rparr>,
     ptable_init\<lparr>pt_next := 101, pt_handles := [100 \<mapsto> 7], pt_class := (\<lambda>_. 0x20)(7 := 0x8000)\<rparr>)"
  by (simp add: demo_boost_def booster_eval ptable_eval)

lemma demo_boost_acquire:
  "AcquireBoost ptable_backend ''g'' 7 0 PL_AboveNormal (PriorityBooster_new PL_AboveNormal) ptable_init =
   (fst demo_boost, fst (snd demo_boost), snd (snd demo_boost))"
  by (simp add: demo_boost_def)

lemma demo_boost_reach:
  "(booster_step ptable_backend ptable_hpid)\<^sup>*\<^sup>* (PriorityBooster_new PL_AboveNormal, ptable_init)
     (fst (snd demo_boost), snd (snd demo_boost))"
  by (rule r_into_rtranclp, rule booster_step.acquire [OF _ demo_boost_acquire])
    (simp add: PriorityBooster_new_def om.get_empty)

theorem PriorityBooster_owns_exactly_its_handles_witness:
  "dom (ptable_hpid (snd (snd demo_boost))) = {100}"
proof -
  have "{ls_handle st | g st. lease_of (fst (snd demo_boost)) g = Some st} = {100}"
    by (auto simp: demo_boost_eval om_get_def split: if_splits)
  moreover have "dom (ptable_hpid ptable_init) = {}" by (simp add: ptable_hpid_def ptable_init_def)
  ultimately show ?thesis
    using conjunct1 [OF PriorityBooster_owns_exactly_its_handles [OF ptable_backend_ok demo_boost_reach]]
    by simp
qed

text \<open>
  C10: A release writes a priority class only in one case: the last lease of that game and
  pid is released, the process is still the leased one and still has the class this booster
  set; then it gets its original class back.  Priorities changed by others, exited or replaced
  processes and every other process are left alone.
\<close>

theorem ReleaseBoost_conditional_restore:
  assumes "priority_backend B hpid pclass ctime"
    and "(booster_step B hpid)\<^sup>*\<^sup>* (PriorityBooster_new m, s0) (b, s)"
    and "ReleaseBoost B g pid b s = (r, b', s')"
  shows "pclass s' = pclass s \<or>
    (\<exists>st. lease_of b g = Some st \<and> ls_pid st = pid \<and> ls_count st = 1 \<and>
      (ls_creationTime100ns st = 0 \<or> ctime s pid = ls_creationTime100ns st) \<and>
      pclass s pid = ls_targetClass st \<and> pclass s' = (pclass s)(pid := ls_originalClass st))"
proof (cases "lease_of b g")
  case None
  with assms(3) show ?thesis by (simp add: ReleaseBoost_def)
next
  case (Some st)
  have ow: "priority_backend.owns hpid (dom (hpid s0)) b s"
    using priority_backend.owns_steps [OF assms(1,2)] priority_backend.owns_new [OF assms(1)] by fastforce
  have h: "hpid s (ls_handle st) = Some (ls_pid st)" and c: "1 \<le> ls_count st"
    using ow Some by (auto simp: priority_backend.owns_def [OF assms(1)] lease_ok_def)
  obtain x st' s1 where rr: "RestoreLastLease B st s = (x, st', s1)" by (metis prod_cases3)
  note rv = priority_backend.RestoreLastLease_view [OF assms(1) rr h]
  show ?thesis
  proof (cases "ls_pid st = pid \<and> \<not> ls_count st > 1")
    case True
    with assms(3) Some rr have "s' = s1" by (auto simp: ReleaseBoost_def split: option.splits)
    moreover have "pclass s1 = pclass s \<or>
      ((ls_creationTime100ns st = 0 \<or> ctime s (ls_pid st) = ls_creationTime100ns st) \<and>
       pclass s (ls_pid st) = ls_targetClass st \<and> pclass s1 = (pclass s)(ls_pid st := ls_originalClass st))"
      using rv by (cases x) (simp_all split: if_splits)
    ultimately show ?thesis using Some True c by force
  next
    case False
    with assms(3) Some show ?thesis by (auto simp: ReleaseBoost_def split: if_splits)
  qed
qed

theorem ReleaseBoost_conditional_restore_witness:
  "\<exists>b' k'. ReleaseBoost ptable_backend ''g'' 7 (fst (snd demo_boost)) (snd (snd demo_boost)) =
      (Success (), b', k') \<and> pt_class k' 7 = 0x20 \<and> pb_leases b' = []"
proof -
  let ?b = "fst (snd demo_boost)" and ?k = "snd (snd demo_boost)"
  obtain b' k' where rel: "ReleaseBoost ptable_backend ''g'' 7 ?b ?k = (Success (), b', k')"
    and cls: "pt_class k' 7 \<noteq> pt_class ?k 7" and gone: "pb_leases b' = []"
    by (simp add: demo_boost_eval booster_eval ptable_eval)
  from ReleaseBoost_conditional_restore [OF ptable_backend_ok demo_boost_reach rel] cls
  have "pt_class k' 7 = 0x20" by (auto simp: demo_boost_eval om_get_def)
  with rel gone show ?thesis by blast
qed

text \<open>
  Acquiring and releasing a boost is the identity on the system: if the process keeps the
  boosted class in between, a successful release gives it its original class back, leaves all
  other processes as they are, closes the handle and forgets the lease.
\<close>

theorem AcquireBoost_ReleaseBoost_roundtrip:
  assumes be: "priority_backend B hpid pclass ctime"
    and wf: "om_wf (pb_leases b)" and none: "lease_of b g = None"
    and acq: "AcquireBoost B g pid expected level b s = (Success u, b1, s1)"
    and env: "hpid s2 = hpid s1" "pclass s2 pid = pclass s1 pid" "ctime s2 pid = ctime s1 pid"
      "ctime s pid \<noteq> 0"
    and rel: "ReleaseBoost B g pid b1 s2 = (Success u', b2, s3)"
  shows "pclass s3 = (pclass s2)(pid := pclass s pid) \<and> hpid s3 = hpid s \<and>
    lease_of b2 = lease_of b"
proof -
  have "acquire_fresh B g pid expected level b s = (Success u, b1, s1)"
    using acq none by (simp add: AcquireBoost_def split: if_splits)
  from priority_backend.acquire_fresh_ok [OF be this]
  obtain h st where f: "hpid s h = None" "hpid s1 = (hpid s)(h \<mapsto> pid)" "ctime s1 = ctime s"
    "PriorityLevelToWin32Class level = Success (ls_targetClass st)"
    "pclass s1 = (pclass s)(pid := ls_targetClass st)"
    "b1 = b\<lparr>pb_leases := om_put g st (pb_leases b)\<rparr>" "ls_pid st = pid" "ls_handle st = h"
    "ls_originalClass st = pclass s pid" "ls_count st = 1"
    "ls_creationTime100ns st = ctime s pid"
    using env(4) by auto
  have st: "lease_of b1 g = Some st" by (simp add: f(6) om.get_put)
  have tnz: "ls_targetClass st \<noteq> 0"
    using f(4) by (cases level) (auto simp: PriorityLevelToWin32Class_def)
  obtain x st' s' where rr: "RestoreLastLease B st s2 = (x, st', s')" by (metis prod_cases3)
  have x: "x = None" and s3: "s3 = s'" and b2: "b2 = b1\<lparr>pb_leases := om_del g (pb_leases b1)\<rparr>"
    using rel st rr f(7,10) by (auto simp: ReleaseBoost_def split: option.splits)
  have h: "hpid s2 (ls_handle st) = Some (ls_pid st)" using env(1) f by simp
  from priority_backend.RestoreLastLease_view [OF be rr h] x env f tnz
  have "hpid s' = (hpid s1)(h := None)" "pclass s' = (pclass s2)(pid := pclass s pid)" by auto
  moreover have "lease_of b2 = lease_of b"
    using none b2 f(6) om.get_del_put [OF wf, of g st] by simp
  ultimately show ?thesis using s3 f(1,2) by auto
qed

theorem AcquireBoost_ReleaseBoost_roundtrip_witness:
  "\<exists>b2 k3. ReleaseBoost ptable_backend ''g'' 7 (fst (snd demo_boost)) (snd (snd demo_boost)) =
      (Success (), b2, k3) \<and> pt_class k3 = (\<lambda>_. 0x20) \<and> ptable_hpid k3 = Map.empty"
proof -
  let ?b = "fst (snd demo_boost)" and ?k = "snd (snd demo_boost)"
  obtain b2 k3 where rel: "ReleaseBoost ptable_backend ''g'' 7 ?b ?k = (Success (), b2, k3)"
    by (simp add: demo_boost_eval booster_eval ptable_eval)
  have acq: "AcquireBoost ptable_backend ''g'' 7 0 PL_AboveNormal (PriorityBooster_new PL_AboveNormal)
      ptable_init = (Success (), ?b, ?k)"
    using demo_boost_acquire by (simp add: demo_boost_eval)
  have t: "filetime (pt_time ptable_init 7) \<noteq> 0" by (simp add: filetime_def ptable_init_def)
  have e: "om_wf (pb_leases (PriorityBooster_new PL_AboveNormal))"
    "lease_of (PriorityBooster_new PL_AboveNormal) ''g'' = None"
    by (simp_all add: PriorityBooster_new_def om.wf_empty om.get_empty)
  from AcquireBoost_ReleaseBoost_roundtrip [OF ptable_backend_ok e acq refl refl refl t rel] rel
  show ?thesis
    by (auto simp: demo_boost_eval ptable_init_def ptable_hpid_def fun_eq_iff)
qed

text \<open>
  A restarted game under a doubled lease loses the old process: two acquires for pid 7,
  one for pid 8 of the same game and its release all succeed, no lease is left, yet the
  handle of pid 7 is still open and pid 7 still runs with the boosted class.
\<close>

theorem AcquireBoost_restart_leaks_doubled_lease:
  "\<exists>b2 k2 b3 k3 b4 k4.
     AcquireBoost ptable_backend ''g'' 7 0 PL_AboveNormal (fst (snd demo_boost)) (snd (snd demo_boost)) =
       (Success (), b2, k2) \<and>
     AcquireBoost ptable_backend ''g'' 8 0 PL_AboveNormal b2 k2 = (Success (), b3, k3) \<and>
     ReleaseBoost ptable_backend ''g'' 8 b3 k3 = (Success (), b4, k4) \<and>
     pb_leases b4 = [] \<and> ptable_hpid k4 = [100 \<mapsto> 7] \<and> pt_class k4 7 = 0x8000"
  by (simp add: demo_boost_eval booster_eval ptable_eval ptable_hpid_def fun_eq_iff)

text \<open>A failing restart has already given up the old lease, so failure is not without effect.\<close>

lemma AcquireBoost_failed_restart_drops_lease:
  "\<exists>e b2 k2. AcquireBoost ptable_backend ''g'' 8 0 PL_AboveNormal (fst (snd demo_boost))
       ((snd (snd demo_boost))\<lparr>pt_failOpen := True\<rparr>) = (Failure e, b2, k2) \<and>
     pb_leases (fst (snd demo_boost)) \<noteq> [] \<and> pb_leases b2 = []"
  by (simp add: demo_boost_eval booster_eval ptable_eval)

text \<open>
  Apart from restarts a failed acquire leaves the leases, the handles and all priority
  classes as they were.
\<close>

theorem AcquireBoost_failure_changes_nothing:
  assumes "priority_backend B hpid pclass ctime"
    and "\<forall>st. lease_of b g = Some st \<longrightarrow> ls_pid st = pid"
    and "AcquireBoost B g pid expected level b s = (Failure e, b', s')"
  shows "b' = b \<and> hpid s' = hpid s \<and> pclass s' = pclass s"
  using assms(2,3) priority_backend.acquire_fresh_fail [OF assms(1)]
  by (auto simp: AcquireBoost_def split: if_splits option.splits)

theorem AcquireBoost_failure_changes_nothing_witness:
  "\<exists>e b' k'. AcquireBoost ptable_backend ''g'' 7 0 PL_AboveNormal (PriorityBooster_new PL_AboveNormal)
      (ptable_init\<lparr>pt_failSet := True\<rparr>) = (Failure e, b', k') \<and> ptable_hpid k' = Map.empty"
proof -
  let ?b = "PriorityBooster_new PL_AboveNormal" and ?k = "ptable_init\<lparr>pt_failSet := True\<rparr>"
  obtain e b' k' where f: "AcquireBoost ptable_backend ''g'' 7 0 PL_AboveNormal ?b ?k = (Failure e, b', k')"
    by (simp add: booster_eval ptable_eval)
  have "\<forall>st. lease_of ?b ''g'' = Some st \<longrightarrow> ls_pid st = 7"
    by (simp add: PriorityBooster_new_def om.get_empty)
  from AcquireBoost_failure_changes_nothing [OF ptable_backend_ok this f] f show ?thesis
    by (auto simp: ptable_hpid_def ptable_init_def)
qed

end
