(* ===== verification/Policy_Executor.thy ===== *)
theory Policy_Executor
  imports Policy_Engine Power_Locker Priority_Booster
begin

text \<open>
  The executor that turns decisions into reversible actions:
  \<^verbatim>\<open>include/policy/policy_executor.hpp\<close> and \<^verbatim>\<open>source/policy/policy_executor.cpp\<close>.  Its
  state holds the power locker and the priority booster it drives (the shared pointers, which
  are not null), the two system states behind their backends and the events sent to the
  action observer, oldest first.
\<close>

section \<open>Data\<close>

record ExecutorActionEvent =
  ae_operationId :: string
  ae_target :: string
  ae_detail :: string
  ae_ok :: bool

record ExecutorConfig =
  ec_priorityEnabled :: bool
  ec_priorityMaxLevel :: PriorityLevel
  ec_powerExecutionRequired :: bool
  ec_powerDisplayRequired :: bool
  ec_powerReason :: string
  ec_failuresToHalt :: nat
  ec_actionObserver :: bool

definition default_executor_config :: ExecutorConfig where
  "default_executor_config =
     \<lparr>ec_priorityEnabled = False, ec_priorityMaxLevel = PL_AboveNormal,
      ec_powerExecutionRequired = False, ec_powerDisplayRequired = False,
      ec_powerReason = ''CppOptimizer policy: game running (R1)'',
      ec_failuresToHalt = 0, ec_actionObserver = False\<rparr>"

record ExecutorTarget =
  et_gameId :: string
  et_pid :: u32
  et_creationTime100ns :: u64
  et_running :: bool

record ExecutorEffect =
  ef_priorityBoosted :: bool
  ef_priorityReleased :: bool
  ef_powerHeld :: bool
  ef_powerReleased :: bool
  ef_displayHeld :: bool
  ef_displayReleased :: bool
  ef_skipped :: string

definition no_effect :: ExecutorEffect where
  "no_effect = \<lparr>ef_priorityBoosted = False, ef_priorityReleased = False, ef_powerHeld = False,
     ef_powerReleased = False, ef_displayHeld = False, ef_displayReleased = False, ef_skipped = []\<rparr>"

record ('s, 't) PolicyExecutor =
  x_config :: ExecutorConfig
  x_powerHeld :: bool
  x_displayHeld :: bool
  x_priorityGameId :: string
  x_priorityPid :: u32
  x_failures :: nat
  x_halted :: bool
  x_power :: PowerLocker
  x_priority :: PriorityBooster
  x_powerSys :: 's
  x_prioritySys :: 't
  x_events :: "ExecutorActionEvent list"

text \<open>Both backends.\<close>

record ('s, 't) Backends =
  be_power :: "'s PowerRequestBackend"
  be_priority :: "'t PriorityBackend"

definition PolicyExecutor_new ::
    "ExecutorConfig \<Rightarrow> PowerLocker \<Rightarrow> PriorityBooster \<Rightarrow> 's \<Rightarrow> 't \<Rightarrow> ('s, 't) PolicyExecutor" where
  "PolicyExecutor_new c p b s t =
     \<lparr>x_config = c, x_powerHeld = False, x_displayHeld = False, x_priorityGameId = [],
      x_priorityPid = 0, x_failures = 0, x_halted = False, x_power = p, x_priority = b,
      x_powerSys = s, x_prioritySys = t, x_events = []\<rparr>"

section \<open>Operations\<close>

definition EmitAction ::
    "string \<Rightarrow> string \<Rightarrow> string \<Rightarrow> bool \<Rightarrow> ('s, 't) PolicyExecutor \<Rightarrow> ('s, 't) PolicyExecutor" where
  "EmitAction oid tgt det ok x =
     (if \<not> ec_actionObserver (x_config x) then x
      else x\<lparr>x_events := x_events x @ [\<lparr>ae_operationId = oid, ae_target = tgt, ae_detail = det, ae_ok = ok\<rparr>]\<rparr>)"

definition pid_target :: "string \<Rightarrow> u32 \<Rightarrow> string" where
  "pid_target g pid = g @ '' pid '' @ dec_of_nat (unat pid)"

text \<open>The calls into the booster and the locker, each followed by its event.\<close>

definition do_unboost ::
    "('s, 't) Backends \<Rightarrow> string \<Rightarrow> ('s, 't) PolicyExecutor \<Rightarrow> unit result \<times> ('s, 't) PolicyExecutor" where
  "do_unboost W det x =
     (let (r, b, t) = ReleaseBoost (be_priority W) (x_priorityGameId x) (x_priorityPid x)
                        (x_priority x) (x_prioritySys x)
      in (r, EmitAction ''priority.unboost'' (pid_target (x_priorityGameId x) (x_priorityPid x)) det
            (HasValue r) (x\<lparr>x_priority := b, x_prioritySys := t\<rparr>)))"

definition do_boost ::
    "('s, 't) Backends \<Rightarrow> ExecutorTarget \<Rightarrow> ('s, 't) PolicyExecutor \<Rightarrow>
     unit result \<times> ('s, 't) PolicyExecutor" where
  "do_boost W tg x =
     (let (r, b, t) = AcquireBoost (be_priority W) (et_gameId tg) (et_pid tg) (et_creationTime100ns tg)
                        (ec_priorityMaxLevel (x_config x)) (x_priority x) (x_prioritySys x)
      in (r, EmitAction ''priority.boost'' (pid_target (et_gameId tg) (et_pid tg))
            (''level='' @ dec_of_nat (PriorityLevel_rank (ec_priorityMaxLevel (x_config x))))
            (HasValue r) (x\<lparr>x_priority := b, x_prioritySys := t\<rparr>)))"

definition do_hold ::
    "('s, 't) Backends \<Rightarrow> PowerLockType \<Rightarrow> string \<Rightarrow> ('s, 't) PolicyExecutor \<Rightarrow>
     unit result \<times> ('s, 't) PolicyExecutor" where
  "do_hold W ty det x =
     (let (r, p, s) = AcquireLock (be_power W) ty (ec_powerReason (x_config x)) (x_power x) (x_powerSys x)
      in (r, EmitAction ''power.hold'' ''policy (game running)'' det (HasValue r)
            (x\<lparr>x_power := p, x_powerSys := s\<rparr>)))"

definition do_unhold ::
    "('s, 't) Backends \<Rightarrow> PowerLockType \<Rightarrow> string \<Rightarrow> ('s, 't) PolicyExecutor \<Rightarrow>
     unit result \<times> ('s, 't) PolicyExecutor" where
  "do_unhold W ty det x =
     (let (r, p, s) = ReleaseLock (be_power W) ty (x_power x) (x_powerSys x)
      in (r, EmitAction ''power.release'' ''policy'' det (HasValue r) (x\<lparr>x_power := p, x_powerSys := s\<rparr>)))"

definition boost_desired :: "ExecutorConfig \<Rightarrow> PolicyDecision \<Rightarrow> ExecutorTarget \<Rightarrow> bool" where
  "boost_desired c d tg \<longleftrightarrow>
     ec_priorityEnabled c \<and> et_running tg \<and> d_action d = SuggestPriorityBoost"

definition acquire_target ::
    "('s, 't) Backends \<Rightarrow> ExecutorTarget \<Rightarrow> ExecutorEffect \<Rightarrow> ('s, 't) PolicyExecutor \<Rightarrow>
     unit result \<times> ExecutorEffect \<times> ('s, 't) PolicyExecutor" where
  "acquire_target W tg ef x =
     (case do_boost W tg x of
        (Inl e, x1) \<Rightarrow> (Failure e, ef, x1)
      | (Inr _, x1) \<Rightarrow>
          (Success (), ef\<lparr>ef_priorityBoosted := True\<rparr>,
           x1\<lparr>x_priorityGameId := et_gameId tg, x_priorityPid := et_pid tg\<rparr>))"

definition ReconcilePriority ::
    "('s, 't) Backends \<Rightarrow> PolicyDecision \<Rightarrow> ExecutorTarget \<Rightarrow> ExecutorEffect \<Rightarrow> ('s, 't) PolicyExecutor \<Rightarrow>
     unit result \<times> ExecutorEffect \<times> ('s, 't) PolicyExecutor" where
  "ReconcilePriority W d tg ef x =
     (if boost_desired (x_config x) d tg then
        (if et_pid tg = 0 then
           (Success (), ef\<lparr>ef_skipped := ''priority boost skipped: no valid process identity''\<rparr>, x)
         else if x_priorityGameId x = et_gameId tg \<and> x_priorityPid x = et_pid tg then
           (Success (), ef, x)
         else if x_priorityGameId x \<noteq> [] then
           (case do_unboost W ''target change pre-release'' x of
              (Inl e, x1) \<Rightarrow> (Failure e, ef, x1)
            | (Inr _, x1) \<Rightarrow>
                acquire_target W tg (ef\<lparr>ef_priorityReleased := True\<rparr>) (x1\<lparr>x_priorityGameId := []\<rparr>))
         else acquire_target W tg ef x)
      else if x_priorityGameId x \<noteq> [] then
        (case do_unboost W ''game exit or no longer desired'' x of
           (Inl e, x1) \<Rightarrow> (Failure e, ef, x1)
         | (Inr _, x1) \<Rightarrow>
             (Success (), ef\<lparr>ef_priorityReleased := True\<rparr>, x1\<lparr>x_priorityGameId := []\<rparr>))
      else (Success (), ef, x))"

text \<open>
  The \<open>bool&\<close> parameters \<open>held\<close>, \<open>heldFlag\<close> and \<open>releasedFlag\<close> of the source are the
  fields of the lock type.
\<close>

definition type_held :: "PowerLockType \<Rightarrow> ('s, 't) PolicyExecutor \<Rightarrow> bool" where
  "type_held ty x = (case ty of ExecutionRequired \<Rightarrow> x_powerHeld x | DisplayRequired \<Rightarrow> x_displayHeld x)"

definition set_type_held ::
    "PowerLockType \<Rightarrow> bool \<Rightarrow> ('s, 't) PolicyExecutor \<Rightarrow> ('s, 't) PolicyExecutor" where
  "set_type_held ty v x =
     (case ty of ExecutionRequired \<Rightarrow> x\<lparr>x_powerHeld := v\<rparr> | DisplayRequired \<Rightarrow> x\<lparr>x_displayHeld := v\<rparr>)"

definition mark_held :: "PowerLockType \<Rightarrow> ExecutorEffect \<Rightarrow> ExecutorEffect" where
  "mark_held ty ef =
     (case ty of ExecutionRequired \<Rightarrow> ef\<lparr>ef_powerHeld := True\<rparr> | DisplayRequired \<Rightarrow> ef\<lparr>ef_displayHeld := True\<rparr>)"

definition mark_released :: "PowerLockType \<Rightarrow> ExecutorEffect \<Rightarrow> ExecutorEffect" where
  "mark_released ty ef =
     (case ty of ExecutionRequired \<Rightarrow> ef\<lparr>ef_powerReleased := True\<rparr>
      | DisplayRequired \<Rightarrow> ef\<lparr>ef_displayReleased := True\<rparr>)"

definition ReconcilePowerLock ::
    "('s, 't) Backends \<Rightarrow> PowerLockType \<Rightarrow> bool \<Rightarrow> string \<Rightarrow> ExecutorEffect \<Rightarrow> ('s, 't) PolicyExecutor \<Rightarrow>
     unit result \<times> ExecutorEffect \<times> ('s, 't) PolicyExecutor" where
  "ReconcilePowerLock W ty desired det ef x =
     (if desired \<and> \<not> type_held ty x then
        (case do_hold W ty det x of
           (Inl e, x1) \<Rightarrow> (Failure e, ef, x1)
         | (Inr _, x1) \<Rightarrow> (Success (), mark_held ty ef, set_type_held ty True x1))
      else if \<not> desired \<and> type_held ty x then
        (case do_unhold W ty (det @ '' (game exit or no longer desired)'') x of
           (Inl e, x1) \<Rightarrow> (Failure e, ef, x1)
         | (Inr _, x1) \<Rightarrow> (Success (), mark_released ty ef, set_type_held ty False x1))
      else (Success (), ef, x))"

definition ReconcilePower ::
    "('s, 't) Backends \<Rightarrow> ExecutorTarget \<Rightarrow> ExecutorEffect \<Rightarrow> ('s, 't) PolicyExecutor \<Rightarrow>
     unit result \<times> ExecutorEffect \<times> ('s, 't) PolicyExecutor" where
  "ReconcilePower W tg ef x =
     (case ReconcilePowerLock W ExecutionRequired
             (ec_powerExecutionRequired (x_config x) \<and> et_running tg) ''execution power request'' ef x of
        (Inl e, ef1, x1) \<Rightarrow> (Failure e, ef1, x1)
      | (Inr _, ef1, x1) \<Rightarrow>
          ReconcilePowerLock W DisplayRequired
            (ec_powerDisplayRequired (x_config x1) \<and> et_running tg) ''display power request'' ef1 x1)"

definition count_failure :: "('s, 't) PolicyExecutor \<Rightarrow> ('s, 't) PolicyExecutor" where
  "count_failure x =
     (if ec_failuresToHalt (x_config x) > 0 then
        (let n = x_failures x + 1
         in x\<lparr>x_failures := n, x_halted := (x_halted x \<or> n \<ge> ec_failuresToHalt (x_config x))\<rparr>)
      else x)"

definition ApplyDecision ::
    "('s, 't) Backends \<Rightarrow> PolicyDecision \<Rightarrow> ExecutorTarget \<Rightarrow> ('s, 't) PolicyExecutor \<Rightarrow>
     ExecutorEffect result \<times> ('s, 't) PolicyExecutor" where
  "ApplyDecision W d tg x =
     (if x_halted x then
        (Success (no_effect\<lparr>ef_skipped := ''execution halted: '' @
             dec_of_nat (ec_failuresToHalt (x_config x)) @
             '' consecutive R1 action failures (Safe Mode-like; advisory only)''\<rparr>), x)
      else
        (case ReconcilePriority W d tg no_effect x of
           (Inl e, _, x1) \<Rightarrow> (Failure e, count_failure x1)
         | (Inr _, ef1, x1) \<Rightarrow>
             (case ReconcilePower W tg ef1 x1 of
                (Inl e, _, x2) \<Rightarrow> (Failure e, count_failure x2)
              | (Inr _, ef2, x2) \<Rightarrow> (Success ef2, x2\<lparr>x_failures := 0\<rparr>))))"

definition release_power_type ::
    "('s, 't) Backends \<Rightarrow> PowerLockType \<Rightarrow> string \<Rightarrow> ('s, 't) PolicyExecutor \<Rightarrow> ('s, 't) PolicyExecutor" where
  "release_power_type W ty det x =
     (if type_held ty x then set_type_held ty False (snd (do_unhold W ty det x)) else x)"

definition Executor_ReleaseAll ::
    "('s, 't) Backends \<Rightarrow> ('s, 't) PolicyExecutor \<Rightarrow> ('s, 't) PolicyExecutor" where
  "Executor_ReleaseAll W x =
     (let x1 = (if x_priorityGameId x \<noteq> []
                then (snd (do_unboost W ''release-all on exit'' x))\<lparr>x_priorityGameId := []\<rparr> else x);
          x2 = release_power_type W ExecutionRequired ''release-all on exit'' x1
      in release_power_type W DisplayRequired ''release-all on exit (display)'' x2)"

definition IsPriorityHeld :: "('s, 't) PolicyExecutor \<Rightarrow> bool" where
  "IsPriorityHeld x \<longleftrightarrow> x_priorityGameId x \<noteq> []"

definition IsPowerHeld :: "('s, 't) PolicyExecutor \<Rightarrow> bool" where
  "IsPowerHeld x = x_powerHeld x"

definition IsDisplayHeld :: "('s, 't) PolicyExecutor \<Rightarrow> bool" where
  "IsDisplayHeld x = x_displayHeld x"

definition IsHalted :: "('s, 't) PolicyExecutor \<Rightarrow> bool" where
  "IsHalted x = x_halted x"

definition ResetHalt :: "('s, 't) PolicyExecutor \<Rightarrow> ('s, 't) PolicyExecutor" where
  "ResetHalt x = x\<lparr>x_halted := False, x_failures := 0\<rparr>"

lemmas do_defs_all = do_unboost_def do_boost_def do_hold_def do_unhold_def

section \<open>Frames\<close>

text \<open>The state falls into three parts that the two reconciliations change separately.\<close>

definition core_part :: "('s, 't) PolicyExecutor \<Rightarrow> ExecutorConfig \<times> nat \<times> bool" where
  "core_part x = (x_config x, x_failures x, x_halted x)"

definition power_part :: "('s, 't) PolicyExecutor \<Rightarrow> bool \<times> bool \<times> PowerLocker \<times> 's" where
  "power_part x = (x_powerHeld x, x_displayHeld x, x_power x, x_powerSys x)"

definition priority_part :: "('s, 't) PolicyExecutor \<Rightarrow> string \<times> u32 \<times> PriorityBooster \<times> 't" where
  "priority_part x = (x_priorityGameId x, x_priorityPid x, x_priority x, x_prioritySys x)"

lemmas parts_defs = core_part_def power_part_def priority_part_def

lemma core_part_config: "core_part x' = core_part x \<Longrightarrow> x_config x' = x_config x"
  by (simp add: core_part_def)

lemma EmitAction_sel [simp]:
  "x_config (EmitAction a b c d x) = x_config x"
  "x_powerHeld (EmitAction a b c d x) = x_powerHeld x"
  "x_displayHeld (EmitAction a b c d x) = x_displayHeld x"
  "x_priorityGameId (EmitAction a b c d x) = x_priorityGameId x"
  "x_priorityPid (EmitAction a b c d x) = x_priorityPid x"
  "x_failures (EmitAction a b c d x) = x_failures x"
  "x_halted (EmitAction a b c d x) = x_halted x"
  "x_power (EmitAction a b c d x) = x_power x"
  "x_priority (EmitAction a b c d x) = x_priority x"
  "x_powerSys (EmitAction a b c d x) = x_powerSys x"
  "x_prioritySys (EmitAction a b c d x) = x_prioritySys x"
  by (simp_all add: EmitAction_def)

lemma EmitAction_parts [simp]:
  "core_part (EmitAction a b c d x) = core_part x"
  "power_part (EmitAction a b c d x) = power_part x"
  "priority_part (EmitAction a b c d x) = priority_part x"
  by (simp_all add: parts_defs)

lemma set_type_held_parts [simp]:
  "core_part (set_type_held ty v x) = core_part x"
  "priority_part (set_type_held ty v x) = priority_part x"
  "x_power (set_type_held ty v x) = x_power x"
  "x_powerSys (set_type_held ty v x) = x_powerSys x"
  by (cases ty; simp add: set_type_held_def parts_defs)+

lemma type_held_set [simp]:
  "type_held ty' (set_type_held ty v x) = (if ty' = ty then v else type_held ty' x)"
  by (cases ty; cases ty') (simp_all add: type_held_def set_type_held_def)

lemma type_held_power_part: "power_part x' = power_part x \<Longrightarrow> type_held ty x' = type_held ty x"
  by (cases ty) (simp_all add: type_held_def power_part_def)

lemma priority_part_update [simp]:
  "core_part (x\<lparr>x_priorityGameId := g\<rparr>) = core_part x"
  "core_part (x\<lparr>x_priorityGameId := g, x_priorityPid := i\<rparr>) = core_part x"
  "power_part (x\<lparr>x_priorityGameId := g\<rparr>) = power_part x"
  "power_part (x\<lparr>x_priorityGameId := g, x_priorityPid := i\<rparr>) = power_part x"
  by (simp_all add: parts_defs)

lemma do_unboost_frame:
  assumes "do_unboost W det x = (r, x')"
  shows "core_part x' = core_part x \<and> power_part x' = power_part x \<and>
    x_priorityGameId x' = x_priorityGameId x \<and> x_priorityPid x' = x_priorityPid x \<and>
    ReleaseBoost (be_priority W) (x_priorityGameId x) (x_priorityPid x) (x_priority x) (x_prioritySys x) =
      (r, x_priority x', x_prioritySys x')"
  using assms by (auto simp: do_unboost_def parts_defs split: prod.splits)

lemma do_boost_frame:
  assumes "do_boost W tg x = (r, x')"
  shows "core_part x' = core_part x \<and> power_part x' = power_part x \<and>
    x_priorityGameId x' = x_priorityGameId x \<and> x_priorityPid x' = x_priorityPid x \<and>
    AcquireBoost (be_priority W) (et_gameId tg) (et_pid tg) (et_creationTime100ns tg)
      (ec_priorityMaxLevel (x_config x)) (x_priority x) (x_prioritySys x) =
      (r, x_priority x', x_prioritySys x')"
  using assms by (auto simp: do_boost_def parts_defs split: prod.splits)

lemma do_hold_frame:
  assumes "do_hold W ty det x = (r, x')"
  shows "core_part x' = core_part x \<and> priority_part x' = priority_part x \<and>
    type_held ty' x' = type_held ty' x \<and>
    AcquireLock (be_power W) ty (ec_powerReason (x_config x)) (x_power x) (x_powerSys x) =
      (r, x_power x', x_powerSys x')"
  using assms
  by (cases ty') (auto simp: do_hold_def parts_defs type_held_def split: prod.splits)

lemma do_unhold_frame:
  assumes "do_unhold W ty det x = (r, x')"
  shows "core_part x' = core_part x \<and> priority_part x' = priority_part x \<and>
    type_held ty' x' = type_held ty' x \<and>
    ReleaseLock (be_power W) ty (x_power x) (x_powerSys x) = (r, x_power x', x_powerSys x')"
  using assms
  by (cases ty') (auto simp: do_unhold_def parts_defs type_held_def split: prod.splits)

text \<open>
  The cases of a power reconciliation: nothing to do, an acquire or a release, each of which
  may fail.
\<close>

lemma ReconcilePowerLock_cases:
  assumes "ReconcilePowerLock W ty desired det ef x = (r, ef', x')"
  obtains (idle) "desired = type_held ty x" "HasValue r" "x' = x"
  | (hold) r1 x1 where "desired" "\<not> type_held ty x" "do_hold W ty det x = (r1, x1)" "HasValue r = HasValue r1"
      "x' = (if HasValue r1 then set_type_held ty True x1 else x1)"
  | (unhold) det' r1 x1 where "\<not> desired" "type_held ty x" "do_unhold W ty det' x = (r1, x1)"
      "HasValue r = HasValue r1" "x' = (if HasValue r1 then set_type_held ty False x1 else x1)"
proof (cases "desired = type_held ty x")
  case True
  with assms have "HasValue r" "x' = x" by (auto simp: ReconcilePowerLock_def)
  with True show ?thesis by (rule idle)
next
  case False
  show ?thesis
  proof (cases desired)
    case True
    obtain rh xh where h: "do_hold W ty det x = (rh, xh)" by fastforce
    have nh: "\<not> type_held ty x" using True False by simp
    have "HasValue r = HasValue rh" "x' = (if HasValue rh then set_type_held ty True xh else xh)"
      using True nh assms h by (cases rh; auto simp: ReconcilePowerLock_def)+
    then show ?thesis by (rule hold [OF True nh h])
  next
    case nd: False
    obtain ru xu where u: "do_unhold W ty (det @ '' (game exit or no longer desired)'') x = (ru, xu)"
      by fastforce
    have hd: "type_held ty x" using nd False by simp
    have "HasValue r = HasValue ru" "x' = (if HasValue ru then set_type_held ty False xu else xu)"
      using nd hd assms u by (cases ru; auto simp: ReconcilePowerLock_def)+
    then show ?thesis by (rule unhold [OF nd hd u])
  qed
qed

lemma ReconcilePowerLock_frame:
  assumes "ReconcilePowerLock W ty desired det ef x = (r, ef', x')"
  shows "core_part x' = core_part x \<and> priority_part x' = priority_part x \<and>
    type_held ty' x' = (if ty' = ty \<and> HasValue r then desired else type_held ty' x)"
  using assms
proof (cases rule: ReconcilePowerLock_cases)
  case idle
  then show ?thesis by simp
next
  case (hold r1 x1)
  from hold do_hold_frame [OF hold(3), of ty'] show ?thesis by simp
next
  case (unhold det' r1 x1)
  from unhold do_unhold_frame [OF unhold(3), of ty'] show ?thesis by simp
qed

lemma ReconcilePower_cases:
  assumes "ReconcilePower W tg ef x = (r, ef', x')"
  obtains r1 ef1 x1 where
    "ReconcilePowerLock W ExecutionRequired
      (ec_powerExecutionRequired (x_config x) \<and> et_running tg) ''execution power request'' ef x = (r1, ef1, x1)"
    "\<not> HasValue r1" "\<not> HasValue r" "x' = x1"
  | r1 ef1 x1 where
    "ReconcilePowerLock W ExecutionRequired
      (ec_powerExecutionRequired (x_config x) \<and> et_running tg) ''execution power request'' ef x = (r1, ef1, x1)"
    "HasValue r1"
    "ReconcilePowerLock W DisplayRequired
      (ec_powerDisplayRequired (x_config x) \<and> et_running tg) ''display power request'' ef1 x1 = (r, ef', x')"
proof -
  obtain r1 ef1 x1 where e: "ReconcilePowerLock W ExecutionRequired
      (ec_powerExecutionRequired (x_config x) \<and> et_running tg) ''execution power request'' ef x = (r1, ef1, x1)"
    by (metis prod_cases3)
  have c: "x_config x1 = x_config x"
    using conjunct1 [OF ReconcilePowerLock_frame [OF e]] by (rule core_part_config)
  show ?thesis
  proof (cases r1)
    case (Inl err)
    with assms e have r: "\<not> HasValue r" "x' = x1" by (auto simp: ReconcilePower_def)
    show ?thesis by (rule that(1) [OF e _ r]) (simp add: Inl)
  next
    case (Inr u)
    with assms e c have "ReconcilePowerLock W DisplayRequired
      (ec_powerDisplayRequired (x_config x) \<and> et_running tg) ''display power request'' ef1 x1 = (r, ef', x')"
      by (simp add: ReconcilePower_def)
    from that(2) [OF e _ this] show ?thesis by (simp add: Inr)
  qed
qed

lemma ReconcilePower_frame:
  assumes "ReconcilePower W tg ef x = (r, ef', x')"
  shows "core_part x' = core_part x \<and> priority_part x' = priority_part x \<and>
    (HasValue r \<longrightarrow>
       x_powerHeld x' = (ec_powerExecutionRequired (x_config x) \<and> et_running tg) \<and>
       x_displayHeld x' = (ec_powerDisplayRequired (x_config x) \<and> et_running tg))"
  using assms
proof (cases rule: ReconcilePower_cases)
  case (1 r1 ef1 x1)
  from 1 ReconcilePowerLock_frame [OF 1(1)] show ?thesis by simp
next
  case (2 r1 ef1 x1)
  have "type_held ExecutionRequired x1 = (ec_powerExecutionRequired (x_config x) \<and> et_running tg)"
    using 2(2) ReconcilePowerLock_frame [OF 2(1), of ExecutionRequired] by simp
  with ReconcilePowerLock_frame [OF 2(1)] ReconcilePowerLock_frame [OF 2(3), of ExecutionRequired]
    ReconcilePowerLock_frame [OF 2(3), of DisplayRequired]
  show ?thesis by (simp add: type_held_def)
qed

lemma acquire_target_frame:
  assumes "acquire_target W tg ef x = (r, ef', x')"
  shows "core_part x' = core_part x \<and> power_part x' = power_part x \<and>
    x_priorityGameId x' = (if HasValue r then et_gameId tg else x_priorityGameId x) \<and>
    x_priorityPid x' = (if HasValue r then et_pid tg else x_priorityPid x) \<and>
    (\<exists>u. AcquireBoost (be_priority W) (et_gameId tg) (et_pid tg) (et_creationTime100ns tg)
      (ec_priorityMaxLevel (x_config x)) (x_priority x) (x_prioritySys x) =
      (u, x_priority x', x_prioritySys x') \<and> HasValue u = HasValue r)"
proof -
  obtain rb xb where b: "do_boost W tg x = (rb, xb)" by fastforce
  show ?thesis
  proof (cases rb)
    case (Inl e)
    with assms b have "\<not> HasValue r" "x' = xb" by (auto simp: acquire_target_def)
    with Inl do_boost_frame [OF b] show ?thesis by simp
  next
    case (Inr u)
    with assms b have x': "x' = xb\<lparr>x_priorityGameId := et_gameId tg, x_priorityPid := et_pid tg\<rparr>"
      and "HasValue r" by (auto simp: acquire_target_def)
    with do_boost_frame [OF b] Inr show ?thesis by simp
  qed
qed

lemma ReconcilePriority_cases:
  assumes "ReconcilePriority W d tg ef x = (r, ef', x')"
  obtains (idle) "HasValue r" "x' = x"
      "if boost_desired (x_config x) d tg
       then et_pid tg = 0 \<or> (x_priorityGameId x = et_gameId tg \<and> x_priorityPid x = et_pid tg)
       else x_priorityGameId x = []"
  | (unboost) r1 x1 det where "\<not> boost_desired (x_config x) d tg" "x_priorityGameId x \<noteq> []"
      "do_unboost W det x = (r1, x1)" "HasValue r = HasValue r1"
      "x' = (if HasValue r1 then x1\<lparr>x_priorityGameId := []\<rparr> else x1)"
  | (boost) "boost_desired (x_config x) d tg" "et_pid tg \<noteq> 0" "x_priorityGameId x = []"
      "acquire_target W tg ef x = (r, ef', x')"
  | (swap_fail) r1 x1 det where "boost_desired (x_config x) d tg" "et_pid tg \<noteq> 0" "x_priorityGameId x \<noteq> []"
      "do_unboost W det x = (r1, x1)" "\<not> HasValue r1" "\<not> HasValue r" "x' = x1"
  | (swap) r1 x1 det where "boost_desired (x_config x) d tg" "et_pid tg \<noteq> 0" "x_priorityGameId x \<noteq> []"
      "do_unboost W det x = (r1, x1)" "HasValue r1"
      "acquire_target W tg (ef\<lparr>ef_priorityReleased := True\<rparr>) (x1\<lparr>x_priorityGameId := []\<rparr>) = (r, ef', x')"
proof (cases "boost_desired (x_config x) d tg")
  case des: True
  show ?thesis
  proof (cases "et_pid tg = 0 \<or> (x_priorityGameId x = et_gameId tg \<and> x_priorityPid x = et_pid tg)")
    case True
    with des assms idle show ?thesis by (auto simp: ReconcilePriority_def split: if_splits)
  next
    case False
    obtain r1 x1 where u: "do_unboost W ''target change pre-release'' x = (r1, x1)" by fastforce
    show ?thesis
    proof (cases "x_priorityGameId x = []")
      case True
      with des False assms boost show ?thesis by (auto simp: ReconcilePriority_def)
    next
      case ne: False
      show ?thesis
      proof (cases r1)
        case (Inl e)
        with des False ne assms u swap_fail [OF des _ ne u] show ?thesis
          by (auto simp: ReconcilePriority_def)
      next
        case (Inr w)
        with des False ne assms u swap [OF des _ ne u] show ?thesis
          by (auto simp: ReconcilePriority_def)
      qed
    qed
  qed
next
  case nd: False
  obtain r1 x1 where u: "do_unboost W ''game exit or no longer desired'' x = (r1, x1)" by fastforce
  show ?thesis
  proof (cases "x_priorityGameId x = []")
    case True
    with nd assms idle show ?thesis by (auto simp: ReconcilePriority_def)
  next
    case False
    with nd assms u unboost [OF nd False u] show ?thesis
      by (cases r1) (auto simp: ReconcilePriority_def)
  qed
qed

lemma ReconcilePriority_frame:
  assumes "ReconcilePriority W d tg ef x = (r, ef', x')"
  shows "core_part x' = core_part x \<and> power_part x' = power_part x \<and>
    (HasValue r \<longrightarrow>
       (if \<not> boost_desired (x_config x) d tg then x_priorityGameId x' = []
        else if et_pid tg = 0 then x' = x
        else x_priorityGameId x' = et_gameId tg \<and> x_priorityPid x' = et_pid tg))"
  using assms
proof (cases rule: ReconcilePriority_cases)
  case idle
  then show ?thesis by (auto split: if_splits)
next
  case (unboost r1 x1 det)
  from unboost do_unboost_frame [OF unboost(3)] show ?thesis by simp
next
  case boost
  from boost acquire_target_frame [OF boost(4)] show ?thesis by simp
next
  case (swap_fail r1 x1 det)
  from swap_fail do_unboost_frame [OF swap_fail(4)] show ?thesis by simp
next
  case (swap r1 x1 det)
  from swap do_unboost_frame [OF swap(4)] acquire_target_frame [OF swap(6)] show ?thesis by simp
qed

section \<open>Invariant\<close>

text \<open>
  The executor's record agrees with the locker and the booster: a power type is locked once
  while it is marked as held and not at all otherwise, and the only lease is the recorded one.
\<close>

definition lease_inv :: "string \<Rightarrow> u32 \<Rightarrow> PriorityBooster \<Rightarrow> bool" where
  "lease_inv g pid b \<longleftrightarrow> om_wf (pb_leases b) \<and>
     (if g = [] then lease_of b = Map.empty
      else \<exists>st. lease_of b = [g \<mapsto> st] \<and> ls_pid st = pid \<and> ls_count st = 1)"

definition exec_inv :: "('s, 't) PolicyExecutor \<Rightarrow> bool" where
  "exec_inv x \<longleftrightarrow>
     (\<forall>ty. LockCount (x_power x) ty = of_bool (type_held ty x)) \<and>
     lease_inv (x_priorityGameId x) (x_priorityPid x) (x_priority x)"

lemma exec_inv_parts:
  "exec_inv x \<Longrightarrow> power_part x' = power_part x \<Longrightarrow> priority_part x' = priority_part x \<Longrightarrow> exec_inv x'"
  unfolding exec_inv_def using type_held_power_part [of x' x]
  by (simp add: power_part_def priority_part_def)

lemma exec_inv_new:
  "exec_inv (PolicyExecutor_new c (PowerLocker_new hb) (PriorityBooster_new m) s t)"
  by (simp add: exec_inv_def lease_inv_def PolicyExecutor_new_def PowerLocker_new_def
      PriorityBooster_new_def LockCount_def type_held_def om.wf_empty om.get_empty fun_eq_iff
      split: PowerLockType.splits)

text \<open>Lock counts follow the flags through one power reconciliation.\<close>

lemma ReconcilePowerLock_counts:
  assumes inv: "\<forall>ty. LockCount (x_power x) ty = of_bool (type_held ty x)"
    and rec: "ReconcilePowerLock W ty desired det ef x = (r, ef', x')"
  shows "\<forall>ty. LockCount (x_power x') ty = of_bool (type_held ty x')"
  using rec
proof (cases rule: ReconcilePowerLock_cases)
  case idle
  with inv show ?thesis by simp
next
  case (hold r1 x1)
  have th: "\<And>ty'. type_held ty' x1 = type_held ty' x"
    and acq: "AcquireLock (be_power W) ty (ec_powerReason (x_config x)) (x_power x) (x_powerSys x) =
      (r1, x_power x1, x_powerSys x1)"
    using do_hold_frame [OF hold(3)] by blast+
  from inv hold th AcquireLock_LockCount [OF acq] show ?thesis by simp
next
  case (unhold det' r1 x1)
  have th: "\<And>ty'. type_held ty' x1 = type_held ty' x"
    and rel: "ReleaseLock (be_power W) ty (x_power x) (x_powerSys x) = (r1, x_power x1, x_powerSys x1)"
    using do_unhold_frame [OF unhold(3)] by blast+
  from inv unhold th ReleaseLock_LockCount [OF rel] show ?thesis by simp
qed

lemma exec_inv_ReconcilePowerLock:
  assumes "exec_inv x" and "ReconcilePowerLock W ty desired det ef x = (r, ef', x')"
  shows "exec_inv x'"
proof -
  have "priority_part x' = priority_part x" using ReconcilePowerLock_frame [OF assms(2)] by blast
  with assms(1) ReconcilePowerLock_counts [OF _ assms(2)] show ?thesis
    by (simp add: exec_inv_def priority_part_def)
qed

lemma exec_inv_ReconcilePower:
  assumes "exec_inv x" and "ReconcilePower W tg ef x = (r, ef', x')"
  shows "exec_inv x'"
  using assms(2)
proof (cases rule: ReconcilePower_cases)
  case (1 r1 ef1 x1)
  with assms(1) show ?thesis by (auto intro: exec_inv_ReconcilePowerLock)
next
  case (2 r1 ef1 x1)
  with assms(1) show ?thesis by (auto intro: exec_inv_ReconcilePowerLock)
qed

lemma lease_inv_release:
  assumes inv: "lease_inv g pid b" and ne: "g \<noteq> []"
    and rel: "ReleaseBoost B g pid b s = (r, b', s')"
  shows "lease_inv (if HasValue r then [] else g) pid b'"
proof -
  obtain st where st: "lease_of b = [g \<mapsto> st]" "ls_pid st = pid" "ls_count st = 1"
    and wf: "om_wf (pb_leases b)"
    using inv ne by (auto simp: lease_inv_def)
  have "lease_of b g = Some st" using st(1) by simp
  from ReleaseBoost_single_leases [OF this st(2,3) rel] show ?thesis
    using ne wf st(1) by (cases "HasValue r") (auto simp: lease_inv_def om.get_del om.wf_del om.get_put om.wf_put)
qed

lemma lease_inv_acquire:
  assumes inv: "lease_inv [] pid0 b" and ne: "g \<noteq> []"
    and acq: "AcquireBoost B g pid expected level b s = (r, b', s')"
  shows "lease_inv (if HasValue r then g else []) pid b'"
proof -
  have e: "lease_of b = Map.empty" and wf: "om_wf (pb_leases b)"
    using inv by (auto simp: lease_inv_def)
  have "lease_of b g = None" using e by simp
  from AcquireBoost_fresh_leases [OF this acq] show ?thesis
    using ne wf e by (cases "HasValue r") (auto simp: lease_inv_def om.get_put om.wf_put)
qed

lemma lease_inv_Nil: "lease_inv [] pid b \<Longrightarrow> lease_inv [] pid' b"
  by (simp add: lease_inv_def)

lemma lease_inv_acquire_target:
  assumes inv: "lease_inv [] pid0 (x_priority x)" and none: "x_priorityGameId x = []" and ne: "et_gameId tg \<noteq> []"
    and acq: "acquire_target W tg ef x = (r, ef', x')"
  shows "lease_inv (x_priorityGameId x') (x_priorityPid x') (x_priority x')"
proof -
  obtain u where u: "AcquireBoost (be_priority W) (et_gameId tg) (et_pid tg) (et_creationTime100ns tg)
      (ec_priorityMaxLevel (x_config x)) (x_priority x) (x_prioritySys x) =
      (u, x_priority x', x_prioritySys x')" "HasValue u = HasValue r"
    and ids: "x_priorityGameId x' = (if HasValue r then et_gameId tg else [])"
      "x_priorityPid x' = (if HasValue r then et_pid tg else x_priorityPid x)"
    using acquire_target_frame [OF acq] none by auto
  from lease_inv_acquire [OF inv ne u(1)] u(2) ids show ?thesis
    by (auto intro: lease_inv_Nil)
qed

lemma exec_inv_ReconcilePriority:
  assumes inv: "exec_inv x" and ne: "et_running tg \<longrightarrow> et_gameId tg \<noteq> []"
    and rec: "ReconcilePriority W d tg ef x = (r, ef', x')"
  shows "exec_inv x'"
proof -
  have pow: "power_part x' = power_part x" using ReconcilePriority_frame [OF rec] by blast
  have li: "lease_inv (x_priorityGameId x) (x_priorityPid x) (x_priority x)"
    using inv by (simp add: exec_inv_def)
  have un: "lease_inv (if HasValue r1 then [] else x_priorityGameId x1) (x_priorityPid x1) (x_priority x1)"
    if "do_unboost W det x = (r1, x1)" "x_priorityGameId x \<noteq> []" for r1 x1 det
  proof -
    have "ReleaseBoost (be_priority W) (x_priorityGameId x) (x_priorityPid x) (x_priority x) (x_prioritySys x) =
        (r1, x_priority x1, x_prioritySys x1)"
      and ids: "x_priorityGameId x1 = x_priorityGameId x" "x_priorityPid x1 = x_priorityPid x"
      using do_unboost_frame [OF that(1)] by auto
    from lease_inv_release [OF li that(2) this(1)] ids show ?thesis by (cases "HasValue r1") simp_all
  qed
  have named: "et_gameId tg \<noteq> []" if "boost_desired (x_config x) d tg" using ne that by (simp add: boost_desired_def)
  have "lease_inv (x_priorityGameId x') (x_priorityPid x') (x_priority x')"
    using rec
  proof (cases rule: ReconcilePriority_cases)
    case idle
    with li show ?thesis by simp
  next
    case (unboost r1 x1 det)
    from un [OF unboost(3,2)] unboost(5) show ?thesis by (cases "HasValue r1") simp_all
  next
    case boost
    with li lease_inv_acquire_target [OF _ _ named boost(4)] show ?thesis by simp
  next
    case (swap_fail r1 x1 det)
    from un [OF swap_fail(4,3)] swap_fail show ?thesis by simp
  next
    case (swap r1 x1 det)
    from un [OF swap(4,3)] swap(5) have "lease_inv [] (x_priorityPid x1) (x_priority x1)" by simp
    then show ?thesis using lease_inv_acquire_target [OF _ _ named swap(6)] swap(1) by simp
  qed
  with inv pow type_held_power_part [OF pow] show ?thesis
    by (simp add: exec_inv_def power_part_def)
qed

section \<open>Whole calls\<close>

lemma count_failure_parts [simp]:
  "power_part (count_failure x) = power_part x" "priority_part (count_failure x) = priority_part x"
  "x_config (count_failure x) = x_config x" "x_events (count_failure x) = x_events x"
  by (simp_all add: count_failure_def parts_defs Let_def)

lemma reset_failures_parts [simp]:
  "power_part (x\<lparr>x_failures := n\<rparr>) = power_part x" "priority_part (x\<lparr>x_failures := n\<rparr>) = priority_part x"
  by (simp_all add: parts_defs)

lemma ApplyDecision_cases:
  assumes "ApplyDecision W d tg x = (r, x')"
  obtains (halted) "x_halted x" "x' = x" "HasValue r"
  | (priority_failed) r1 ef1 x1 where "\<not> x_halted x" "ReconcilePriority W d tg no_effect x = (r1, ef1, x1)"
      "\<not> HasValue r1" "\<not> HasValue r" "x' = count_failure x1"
  | (power_failed) r1 ef1 x1 r2 ef2 x2 where "\<not> x_halted x" "ReconcilePriority W d tg no_effect x = (r1, ef1, x1)"
      "HasValue r1" "ReconcilePower W tg ef1 x1 = (r2, ef2, x2)" "\<not> HasValue r2" "\<not> HasValue r"
      "x' = count_failure x2"
  | (ok) r1 ef1 x1 r2 ef2 x2 where "\<not> x_halted x" "ReconcilePriority W d tg no_effect x = (r1, ef1, x1)"
      "HasValue r1" "ReconcilePower W tg ef1 x1 = (r2, ef2, x2)" "HasValue r2" "r = Success ef2"
      "x' = x2\<lparr>x_failures := 0\<rparr>"
proof (cases "x_halted x")
  case True
  with assms have "x' = x" "HasValue r" by (auto simp: ApplyDecision_def)
  with True show ?thesis by (rule halted)
next
  case nh: False
  obtain r1 ef1 x1 where p: "ReconcilePriority W d tg no_effect x = (r1, ef1, x1)" by (metis prod_cases3)
  obtain r2 ef2 x2 where q: "ReconcilePower W tg ef1 x1 = (r2, ef2, x2)" by (metis prod_cases3)
  show ?thesis
  proof (cases r1)
    case (Inl e)
    with nh p assms have "\<not> HasValue r" "x' = count_failure x1" by (auto simp: ApplyDecision_def)
    from priority_failed [OF nh p _ this] Inl show ?thesis by simp
  next
    case r1: (Inr u)
    show ?thesis
    proof (cases r2)
      case (Inl e)
      with nh p q r1 assms have "\<not> HasValue r" "x' = count_failure x2" by (auto simp: ApplyDecision_def)
      from power_failed [OF nh p _ q _ this] Inl r1 show ?thesis by simp
    next
      case (Inr v)
      with nh p q r1 assms have "r = Success ef2" "x' = x2\<lparr>x_failures := 0\<rparr>" by (auto simp: ApplyDecision_def)
      from ok [OF nh p _ q _ this] Inr r1 show ?thesis by simp
    qed
  qed
qed

lemma exec_inv_ApplyDecision:
  assumes inv: "exec_inv x" and ne: "et_running tg \<longrightarrow> et_gameId tg \<noteq> []" and ap: "ApplyDecision W d tg x = (r, x')"
  shows "exec_inv x'"
  using ap
proof (cases rule: ApplyDecision_cases)
  case halted
  with inv show ?thesis by simp
next
  case (priority_failed r1 ef1 x1)
  from exec_inv_ReconcilePriority [OF inv ne priority_failed(2)] priority_failed(5) show ?thesis
    by (auto intro: exec_inv_parts [of x1])
next
  case (power_failed r1 ef1 x1 r2 ef2 x2)
  from exec_inv_ReconcilePower [OF exec_inv_ReconcilePriority [OF inv ne power_failed(2)] power_failed(4)]
    power_failed(7)
  show ?thesis by (auto intro: exec_inv_parts [of x2])
next
  case (ok r1 ef1 x1 r2 ef2 x2)
  from exec_inv_ReconcilePower [OF exec_inv_ReconcilePriority [OF inv ne ok(2)] ok(4)] ok(7)
  show ?thesis by (auto intro: exec_inv_parts [of x2])
qed

lemma ReconcilePriority_core: "ReconcilePriority W d tg ef x = (r, ef', x') \<Longrightarrow> core_part x' = core_part x"
  using ReconcilePriority_frame by blast

lemma ReconcilePower_core: "ReconcilePower W tg ef x = (r, ef', x') \<Longrightarrow> core_part x' = core_part x"
  using ReconcilePower_frame by blast

lemma ApplyDecision_config: "ApplyDecision W d tg x = (r, x') \<Longrightarrow> x_config x' = x_config x"
  by (erule ApplyDecision_cases)
    (auto dest!: ReconcilePriority_core ReconcilePower_core simp: core_part_def)

lemma ApplyDecision_reconciled:
  assumes "ApplyDecision W d tg x = (Success ef, x')" and "\<not> x_halted x"
  shows "x_powerHeld x' = (ec_powerExecutionRequired (x_config x) \<and> et_running tg) \<and>
    x_displayHeld x' = (ec_powerDisplayRequired (x_config x) \<and> et_running tg) \<and>
    (\<not> boost_desired (x_config x) d tg \<longrightarrow> x_priorityGameId x' = []) \<and>
    (boost_desired (x_config x) d tg \<and> et_pid tg \<noteq> 0 \<longrightarrow>
       x_priorityGameId x' = et_gameId tg \<and> x_priorityPid x' = et_pid tg)"
  using assms(1)
proof (cases rule: ApplyDecision_cases)
  case (ok r1 ef1 x1 r2 ef2 x2)
  have c: "x_config x1 = x_config x" using ReconcilePriority_core [OF ok(2)] by (simp add: core_part_def)
  from ReconcilePriority_frame [OF ok(2)] ReconcilePower_frame [OF ok(4)] ok c show ?thesis
    by (auto simp: priority_part_def split: if_splits)
qed (use assms in auto)

lemma ApplyDecision_halt_step:
  assumes "ApplyDecision W d tg x = (r, x')" and "\<not> x_halted x"
    and N: "ec_failuresToHalt (x_config x) = N" "0 < N"
  shows "if HasValue r then x_failures x' = 0 \<and> \<not> x_halted x'
    else x_failures x' = Suc (x_failures x) \<and> x_halted x' = (N \<le> Suc (x_failures x))"
  using assms(1)
proof (cases rule: ApplyDecision_cases)
  case (priority_failed r1 ef1 x1)
  with ReconcilePriority_core [OF priority_failed(2)] assms show ?thesis
    by (simp add: core_part_def count_failure_def Let_def)
next
  case (power_failed r1 ef1 x1 r2 ef2 x2)
  with ReconcilePriority_core [OF power_failed(2)] ReconcilePower_core [OF power_failed(4)] assms show ?thesis
    by (simp add: core_part_def count_failure_def Let_def)
next
  case (ok r1 ef1 x1 r2 ef2 x2)
  with ReconcilePriority_core [OF ok(2)] ReconcilePower_core [OF ok(4)] assms show ?thesis
    by (simp add: core_part_def)
qed (use assms in auto)

section \<open>Calls as steps of the locker and the booster\<close>

abbreviation power_cfg :: "('s, 't) PolicyExecutor \<Rightarrow> PowerLocker \<times> 's" where
  "power_cfg x \<equiv> (x_power x, x_powerSys x)"

abbreviation priority_cfg :: "('s, 't) PolicyExecutor \<Rightarrow> PriorityBooster \<times> 't" where
  "priority_cfg x \<equiv> (x_priority x, x_prioritySys x)"

lemma power_cfg_parts: "power_part x' = power_part x \<Longrightarrow> power_cfg x' = power_cfg x"
  by (simp add: power_part_def)

lemma priority_cfg_parts: "priority_part x' = priority_part x \<Longrightarrow> priority_cfg x' = priority_cfg x"
  by (simp add: priority_part_def)

lemma ReconcilePowerLock_steps:
  assumes "ReconcilePowerLock W ty desired det ef x = (r, ef', x')"
  shows "(locker_step (be_power W))\<^sup>*\<^sup>* (power_cfg x) (power_cfg x')"
  using assms
proof (cases rule: ReconcilePowerLock_cases)
  case (hold r1 x1)
  have "locker_step (be_power W) (power_cfg x) (power_cfg x1)"
    using do_hold_frame [OF hold(3), of ty] by (blast intro: locker_step.acquire)
  with hold(5) show ?thesis by (cases "HasValue r1") auto
next
  case (unhold det' r1 x1)
  have "locker_step (be_power W) (power_cfg x) (power_cfg x1)"
    using do_unhold_frame [OF unhold(3), of ty] by (blast intro: locker_step.release)
  with unhold(5) show ?thesis by (cases "HasValue r1") auto
qed simp

lemma ReconcilePower_steps:
  assumes "ReconcilePower W tg ef x = (r, ef', x')"
  shows "(locker_step (be_power W))\<^sup>*\<^sup>* (power_cfg x) (power_cfg x')"
  using assms
  by (cases rule: ReconcilePower_cases) (auto dest: ReconcilePowerLock_steps intro: rtranclp_trans)

lemma ApplyDecision_power_steps:
  assumes "ApplyDecision W d tg x = (r, x')"
  shows "(locker_step (be_power W))\<^sup>*\<^sup>* (power_cfg x) (power_cfg x')"
  using assms
proof (cases rule: ApplyDecision_cases)
  case (priority_failed r1 ef1 x1)
  have "power_part x1 = power_part x" using ReconcilePriority_frame [OF priority_failed(2)] by blast
  with priority_failed(5) power_cfg_parts [of x' x] show ?thesis by simp
next
  case (power_failed r1 ef1 x1 r2 ef2 x2)
  have "power_part x1 = power_part x" using ReconcilePriority_frame [OF power_failed(2)] by blast
  with ReconcilePower_steps [OF power_failed(4)] power_cfg_parts [of x1 x] power_cfg_parts [of x' x2]
    power_failed(7) show ?thesis by simp
next
  case (ok r1 ef1 x1 r2 ef2 x2)
  have "power_part x1 = power_part x" using ReconcilePriority_frame [OF ok(2)] by blast
  with ReconcilePower_steps [OF ok(4)] power_cfg_parts [of x1 x] ok(7) show ?thesis by simp
qed simp

lemma acquire_target_step:
  assumes "lease_inv [] pid (x_priority x)" and "acquire_target W tg ef x = (r, ef', x')"
  shows "booster_step (be_priority W) hpid (priority_cfg x) (priority_cfg x')"
proof -
  have "\<forall>st. lease_of (x_priority x) (et_gameId tg) = Some st \<and> ls_pid st \<noteq> et_pid tg \<longrightarrow> ls_count st = 1"
    using assms(1) by (simp add: lease_inv_def)
  then show ?thesis
    using acquire_target_frame [OF assms(2)] by (blast intro: booster_step.acquire)
qed

lemma do_unboost_step:
  "do_unboost W det x = (r, x') \<Longrightarrow> booster_step (be_priority W) hpid (priority_cfg x) (priority_cfg x')"
  using do_unboost_frame by (blast intro: booster_step.release)

lemma ReconcilePriority_steps:
  assumes inv: "exec_inv x" and rec: "ReconcilePriority W d tg ef x = (r, ef', x')"
  shows "(booster_step (be_priority W) hpid)\<^sup>*\<^sup>* (priority_cfg x) (priority_cfg x')"
  using rec
proof (cases rule: ReconcilePriority_cases)
  case (unboost r1 x1 det)
  with do_unboost_step [OF unboost(3), of hpid] show ?thesis by (cases "HasValue r1") auto
next
  case boost
  with inv have "lease_inv [] (x_priorityPid x) (x_priority x)" by (simp add: exec_inv_def)
  from acquire_target_step [OF this boost(4), of hpid] show ?thesis by auto
next
  case (swap_fail r1 x1 det)
  with do_unboost_step [OF swap_fail(4), of hpid] show ?thesis by auto
next
  case (swap r1 x1 det)
  let ?x1 = "x1\<lparr>x_priorityGameId := []\<rparr>"
  have rel: "ReleaseBoost (be_priority W) (x_priorityGameId x) (x_priorityPid x) (x_priority x) (x_prioritySys x) =
      (r1, x_priority x1, x_prioritySys x1)"
    using do_unboost_frame [OF swap(4)] by blast
  have "lease_inv (x_priorityGameId x) (x_priorityPid x) (x_priority x)" using inv by (simp add: exec_inv_def)
  from lease_inv_release [OF this swap(3) rel] swap(5)
  have "lease_inv [] (x_priorityPid x) (x_priority ?x1)" by simp
  from acquire_target_step [OF this swap(6), of hpid] do_unboost_step [OF swap(4), of hpid]
  show ?thesis by (auto intro: converse_rtranclp_into_rtranclp)
qed simp

lemma ApplyDecision_priority_steps:
  assumes "exec_inv x" and "ApplyDecision W d tg x = (r, x')"
  shows "(booster_step (be_priority W) hpid)\<^sup>*\<^sup>* (priority_cfg x) (priority_cfg x')"
  using assms(2)
proof (cases rule: ApplyDecision_cases)
  case (priority_failed r1 ef1 x1)
  with ReconcilePriority_steps [OF assms(1) priority_failed(2), of hpid] priority_cfg_parts [of x' x1]
  show ?thesis by simp
next
  case (power_failed r1 ef1 x1 r2 ef2 x2)
  have "priority_part x2 = priority_part x1" using ReconcilePower_frame [OF power_failed(4)] by blast
  with ReconcilePriority_steps [OF assms(1) power_failed(2), of hpid] priority_cfg_parts [of x2 x1]
    priority_cfg_parts [of x' x2] power_failed(7) show ?thesis by simp
next
  case (ok r1 ef1 x1 r2 ef2 x2)
  have "priority_part x2 = priority_part x1" using ReconcilePower_frame [OF ok(4)] by blast
  with ReconcilePriority_steps [OF assms(1) ok(2), of hpid] priority_cfg_parts [of x2 x1] ok(7)
  show ?thesis by simp
qed simp

section \<open>Reachable executors\<close>

text \<open>
  The executor as the control loop drives it: a fresh locker and booster, then decisions and resets of
  the halt.  A target that runs has the identifier of its game; one that does not run is empty.
\<close>

inductive exec_reach ::
    "('s, 't) Backends \<Rightarrow> ExecutorConfig \<Rightarrow> PriorityLevel \<Rightarrow> 's \<Rightarrow> 't \<Rightarrow> ('s, 't) PolicyExecutor \<Rightarrow> bool"
  for W :: "('s, 't) Backends" and c :: ExecutorConfig and m :: PriorityLevel and s :: 's and t :: 't where
  start: "exec_reach W c m s t (PolicyExecutor_new c (PowerLocker_new True) (PriorityBooster_new m) s t)"
| decide: "exec_reach W c m s t x \<Longrightarrow> (et_running tg \<longrightarrow> et_gameId tg \<noteq> []) \<Longrightarrow> ApplyDecision W d tg x = (r, x') \<Longrightarrow>
    exec_reach W c m s t x'"
| reset: "exec_reach W c m s t x \<Longrightarrow> exec_reach W c m s t (ResetHalt x)"

lemma exec_inv_ResetHalt: "exec_inv x \<Longrightarrow> exec_inv (ResetHalt x)"
  by (rule exec_inv_parts) (simp_all add: ResetHalt_def parts_defs)

lemma exec_reach_inv: "exec_reach W c m s t x \<Longrightarrow> exec_inv x \<and> x_config x = c"
proof (induction rule: exec_reach.induct)
  case start
  show ?case by (simp add: exec_inv_new) (simp add: PolicyExecutor_new_def)
next
  case (decide x tg d r x')
  then show ?case by (auto intro: exec_inv_ApplyDecision simp: ApplyDecision_config)
next
  case (reset x)
  then show ?case by (auto intro: exec_inv_ResetHalt) (simp add: ResetHalt_def)
qed

section \<open>Properties\<close>

text \<open>
  C2: After a successful call of an executor that is not halted the system is in the desired
  state: each power type is locked exactly when its switch is on and the game runs; no lease is
  left unless a boost is wanted; and if one is wanted for a process with a known pid, that
  process holds the only lease, counted once.  A running target has the identifier of its game.
\<close>

theorem ApplyDecision_reaches_desired_state:
  assumes "exec_reach W c m s t x" and "\<not> x_halted x" and "et_running tg \<longrightarrow> et_gameId tg \<noteq> []"
    and "ApplyDecision W d tg x = (Success ef, x')"
  shows "(IsLocked (x_power x') ExecutionRequired \<longleftrightarrow> ec_powerExecutionRequired c \<and> et_running tg) \<and>
    (IsLocked (x_power x') DisplayRequired \<longleftrightarrow> ec_powerDisplayRequired c \<and> et_running tg) \<and>
    (\<not> boost_desired c d tg \<longrightarrow> (\<forall>g. \<not> IsBoosted (x_priority x') g)) \<and>
    (boost_desired c d tg \<and> et_pid tg \<noteq> 0 \<longrightarrow>
       (\<exists>st. lease_of (x_priority x') = [et_gameId tg \<mapsto> st] \<and> ls_pid st = et_pid tg \<and> ls_count st = 1))"
proof -
  have inv: "exec_inv x" and c: "x_config x = c" using exec_reach_inv [OF assms(1)] by auto
  have inv': "exec_inv x'" using exec_inv_ApplyDecision [OF inv assms(3,4)] .
  note rec = ApplyDecision_reconciled [OF assms(4,2), unfolded c]
  have lk: "\<And>ty. IsLocked (x_power x') ty = type_held ty x'"
    using inv' by (simp add: exec_inv_def IsLocked_def LockCount_def)
  have "lease_inv (x_priorityGameId x') (x_priorityPid x') (x_priority x')"
    using inv' by (simp add: exec_inv_def)
  moreover have "et_gameId tg \<noteq> []" if "boost_desired c d tg" using assms(3) that by (simp add: boost_desired_def)
  ultimately show ?thesis
    using rec lk by (auto simp: type_held_def lease_inv_def IsBoosted_def)
qed

definition demo_backends :: "(kernel, ptable) Backends" where
  "demo_backends = \<lparr>be_power = kernel_backend, be_priority = ptable_backend\<rparr>"

definition demo_config :: ExecutorConfig where
  "demo_config = default_executor_config\<lparr>ec_priorityEnabled := True, ec_powerExecutionRequired := True,
     ec_actionObserver := True, ec_failuresToHalt := 2\<rparr>"

definition demo_target :: "bool \<Rightarrow> ExecutorTarget" where
  "demo_target running = \<lparr>et_gameId = ''g'', et_pid = 7, et_creationTime100ns = 0, et_running = running\<rparr>"

definition boost_decision :: PolicyDecision where
  "boost_decision = empty_decision\<lparr>d_action := SuggestPriorityBoost, d_gameId := ''g''\<rparr>"

definition demo_executor :: "kernel \<Rightarrow> ptable \<Rightarrow> (kernel, ptable) PolicyExecutor" where
  "demo_executor k q = PolicyExecutor_new demo_config (PowerLocker_new True) (PriorityBooster_new PL_AboveNormal) k q"

lemmas demo_defs = demo_backends_def demo_config_def demo_target_def boost_decision_def demo_executor_def
  PolicyExecutor_new_def default_executor_config_def empty_decision_def

lemmas exec_eval = ApplyDecision_def ReconcilePriority_def boost_desired_def acquire_target_def do_defs_all
  ReconcilePower_def ReconcilePowerLock_def type_held_def set_type_held_def EmitAction_def

lemma demo_apply_ok:
  "HasValue (fst (ApplyDecision demo_backends boost_decision (demo_target True)
     (demo_executor kernel_init ptable_init)))"
  by (simp add: demo_defs exec_eval booster_eval ptable_eval AcquireLock_def PowerLocker_new_def
      kernel_backend_def Win32PowerRequestBackend_def Win32_CreateRequest_def Win32_SetRequest_def
      kernel_power_api_def kernel_init_def kernel_limit_def INVALID_HANDLE_VALUE_def lk_empty_def)

theorem ApplyDecision_reaches_desired_state_witness:
  "\<exists>ef x'. ApplyDecision demo_backends boost_decision (demo_target True)
       (demo_executor kernel_init ptable_init) = (Success ef, x') \<and>
     IsLocked (x_power x') ExecutionRequired \<and> \<not> IsLocked (x_power x') DisplayRequired"
proof -
  obtain ef x' where a: "ApplyDecision demo_backends boost_decision (demo_target True)
       (demo_executor kernel_init ptable_init) = (Success ef, x')"
    using demo_apply_ok by (auto simp: HasValue_def split: sum.splits)
      (metis prod.collapse)
  have r: "exec_reach demo_backends demo_config PL_AboveNormal kernel_init ptable_init
      (demo_executor kernel_init ptable_init)"
    unfolding demo_executor_def by (rule exec_reach.start)
  have "\<not> x_halted (demo_executor kernel_init ptable_init)" "et_running (demo_target True) \<longrightarrow> et_gameId (demo_target True) \<noteq> []"
    by (simp_all add: demo_defs)
  from ApplyDecision_reaches_desired_state [OF r this a] a show ?thesis
    by (auto simp: demo_config_def default_executor_config_def demo_target_def)
qed

lemma ApplyDecision_gates_closed:
  assumes "\<not> ec_priorityEnabled (x_config x)" "\<not> ec_powerExecutionRequired (x_config x)"
    "\<not> ec_powerDisplayRequired (x_config x)"
    and "x_priorityGameId x = []" "\<not> x_powerHeld x" "\<not> x_displayHeld x"
  shows "ApplyDecision W d tg x = (Success (if x_halted x then no_effect\<lparr>ef_skipped := ''execution halted: '' @
             dec_of_nat (ec_failuresToHalt (x_config x)) @
             '' consecutive R1 action failures (Safe Mode-like; advisory only)''\<rparr> else no_effect),
       if x_halted x then x else x\<lparr>x_failures := 0\<rparr>)"
  using assms
  by (simp add: ApplyDecision_def ReconcilePriority_def boost_desired_def ReconcilePower_def
      ReconcilePowerLock_def type_held_def)

lemma exec_reach_gates_closed:
  assumes "exec_reach W c m s t x"
    and "\<not> ec_priorityEnabled c" "\<not> ec_powerExecutionRequired c" "\<not> ec_powerDisplayRequired c"
  shows "x_config x = c \<and> x_priorityGameId x = [] \<and> \<not> x_powerHeld x \<and> \<not> x_displayHeld x \<and>
    x_powerSys x = s \<and> x_prioritySys x = t \<and> x_events x = []"
  using assms
proof (induction rule: exec_reach.induct)
  case start
  show ?case by (simp add: PolicyExecutor_new_def)
next
  case (decide x tg d r x')
  then show ?case using ApplyDecision_gates_closed [of x W d tg] by (auto split: if_splits)
next
  case (reset x)
  then show ?case by (simp add: ResetHalt_def)
qed

text \<open>
  With both configuration gates closed the executor is purely advisory: in every reachable
  state nothing has been touched (both systems are as at the start), nothing is held and no
  action event was sent, and every call succeeds.
\<close>

theorem executor_advisory_when_gates_closed:
  assumes "exec_reach W c m s t x"
    and "\<not> ec_priorityEnabled c" "\<not> ec_powerExecutionRequired c" "\<not> ec_powerDisplayRequired c"
  shows "x_powerSys x = s \<and> x_prioritySys x = t \<and> x_events x = [] \<and>
    \<not> IsPriorityHeld x \<and> \<not> IsPowerHeld x \<and> \<not> IsDisplayHeld x \<and>
    HasValue (fst (ApplyDecision W d tg x))"
  using exec_reach_gates_closed [OF assms] assms(2-4)
  by (simp add: ApplyDecision_gates_closed IsPriorityHeld_def IsPowerHeld_def IsDisplayHeld_def)

theorem executor_advisory_when_gates_closed_witness:
  "x_events (snd (ApplyDecision demo_backends boost_decision (demo_target True)
     (PolicyExecutor_new default_executor_config (PowerLocker_new True)
       (PriorityBooster_new PL_AboveNormal) kernel_init ptable_init))) = []"
proof -
  let ?x = "PolicyExecutor_new default_executor_config (PowerLocker_new True)
       (PriorityBooster_new PL_AboveNormal) kernel_init ptable_init"
  have "exec_reach demo_backends default_executor_config PL_AboveNormal kernel_init ptable_init
      (snd (ApplyDecision demo_backends boost_decision (demo_target True) ?x))"
    by (rule exec_reach.decide [OF exec_reach.start _ prod.collapse [symmetric]])
      (simp add: demo_target_def)
  from executor_advisory_when_gates_closed [OF this] show ?thesis
    by (simp add: default_executor_config_def)
qed

lemma lease_inv_BoostCount:
  "lease_inv g pid b \<Longrightarrow> BoostCount b g' = of_bool (g \<noteq> [] \<and> g' = g)"
  by (auto simp: lease_inv_def BoostCount_def split: if_splits)

lemma ReconcilePriority_no_boost:
  assumes "exec_inv x" "exec_inv x'" and "ReconcilePriority W d tg ef x = (r, ef', x')"
    and nd: "\<not> boost_desired (x_config x) d tg"
  shows "BoostCount (x_priority x') g \<le> BoostCount (x_priority x) g"
proof -
  have l: "lease_inv (x_priorityGameId x) (x_priorityPid x) (x_priority x)"
    "lease_inv (x_priorityGameId x') (x_priorityPid x') (x_priority x')"
    using assms(1,2) by (simp_all add: exec_inv_def)
  have "x_priorityGameId x' = [] \<or> x_priorityGameId x' = x_priorityGameId x"
    using assms(3)
  proof (cases rule: ReconcilePriority_cases)
    case (unboost r1 x1 det)
    with do_unboost_frame [OF unboost(3)] show ?thesis by simp
  qed (use nd in auto)
  with l show ?thesis by (auto simp: lease_inv_BoostCount)
qed

text \<open>
  C37: Only a boost decision for a running game with the priority gate open can create a lease:
  under any other decision, or for a stopped game, no game has more leases after the call than
  before, whether the call succeeds or fails.  A running target has the identifier of its game.
\<close>

theorem executor_boosts_only_on_request:
  assumes "exec_reach W c m s t x" and "et_running tg \<longrightarrow> et_gameId tg \<noteq> []" and "ApplyDecision W d tg x = (r, x')"
    and "\<not> (ec_priorityEnabled c \<and> et_running tg \<and> d_action d = SuggestPriorityBoost)"
  shows "BoostCount (x_priority x') g \<le> BoostCount (x_priority x) g"
proof -
  have inv: "exec_inv x" and c: "x_config x = c" using exec_reach_inv [OF assms(1)] by auto
  have nd: "\<not> boost_desired (x_config x) d tg" using assms(4) c by (simp add: boost_desired_def)
  have step: "BoostCount (x_priority x1) g \<le> BoostCount (x_priority x) g"
    if "ReconcilePriority W d tg no_effect x = (r1, ef1, x1)" for r1 ef1 x1
    using ReconcilePriority_no_boost [OF inv exec_inv_ReconcilePriority [OF inv assms(2) that] that nd] .
  show ?thesis
    using assms(3)
  proof (cases rule: ApplyDecision_cases)
    case (priority_failed r1 ef1 x1)
    with step [OF priority_failed(2)] show ?thesis by (simp add: count_failure_def Let_def)
  next
    case (power_failed r1 ef1 x1 r2 ef2 x2)
    with step [OF power_failed(2)] ReconcilePower_frame [OF power_failed(4)] show ?thesis
      by (simp add: count_failure_def Let_def priority_part_def)
  next
    case (ok r1 ef1 x1 r2 ef2 x2)
    with step [OF ok(2)] ReconcilePower_frame [OF ok(4)] show ?thesis
      by (simp add: priority_part_def)
  qed simp
qed

theorem executor_boosts_only_on_request_witness:
  "BoostCount (x_priority (snd (ApplyDecision demo_backends empty_decision (demo_target True)
     (demo_executor kernel_init ptable_init)))) ''g'' = 0"
proof -
  have r: "exec_reach demo_backends demo_config PL_AboveNormal kernel_init ptable_init
      (demo_executor kernel_init ptable_init)"
    unfolding demo_executor_def by (rule exec_reach.start)
  have "BoostCount (x_priority (demo_executor kernel_init ptable_init)) ''g'' = 0"
    by (simp add: demo_defs BoostCount_def PriorityBooster_new_def om.get_empty)
  moreover have "et_running (demo_target True) \<longrightarrow> et_gameId (demo_target True) \<noteq> []" by (simp add: demo_target_def)
  moreover have "\<not> (ec_priorityEnabled demo_config \<and> et_running (demo_target True) \<and>
      d_action empty_decision = SuggestPriorityBoost)" by (simp add: empty_decision_def)
  ultimately show ?thesis
    using executor_boosts_only_on_request [OF r _ prod.collapse [symmetric], of "demo_target True"
        empty_decision "''g''"] by simp
qed

text \<open>A sequence of calls, recording which of them succeeded.\<close>

fun apply_run ::
    "('s, 't) Backends \<Rightarrow> (PolicyDecision \<times> ExecutorTarget) list \<Rightarrow> ('s, 't) PolicyExecutor \<Rightarrow>
     bool list \<times> ('s, 't) PolicyExecutor" where
  "apply_run W [] x = ([], x)"
| "apply_run W (i # ins) x =
     (let (r, x1) = ApplyDecision W (fst i) (snd i) x;
          (oks, x2) = apply_run W ins x1
      in (HasValue r # oks, x2))"

fun failure_streak :: "nat \<Rightarrow> nat \<Rightarrow> bool list \<Rightarrow> bool" where
  "failure_streak N k [] = False"
| "failure_streak N k (ok # oks) =
     (if ok then failure_streak N 0 oks else N \<le> Suc k \<or> failure_streak N (Suc k) oks)"

lemma failure_streak_iff:
  "k < N \<Longrightarrow> failure_streak N k oks \<longleftrightarrow>
     (\<exists>vs. oks = replicate (N - k) False @ vs) \<or> (\<exists>us vs. oks = us @ replicate N False @ vs)"
proof (induction N k oks rule: failure_streak.induct)
  case (1 N k)
  then show ?case by auto
next
  case (2 N k ok oks)
  have N: "N - k = Suc (N - Suc k)" using "2.prems" by simp
  have shift: "(\<exists>us vs. ok # oks = us @ replicate N False @ vs) \<longleftrightarrow>
      (\<exists>vs. ok # oks = replicate N False @ vs) \<or> (\<exists>us vs. oks = us @ replicate N False @ vs)"
    by (metis append_Cons append_Nil list.exhaust list.inject)
  show ?case
  proof (cases ok)
    case True
    have "failure_streak N 0 oks \<longleftrightarrow> (\<exists>us vs. oks = us @ replicate N False @ vs)"
      using "2.IH"(1) [OF True] "2.prems" by (metis append_Nil diff_zero gr_implies_not0 neq0_conv)
    moreover have "\<not> (\<exists>vs. ok # oks = replicate N False @ vs)"
      using True "2.prems" by (cases N) auto
    ultimately show ?thesis using True N shift by auto
  next
    case False
    have first: "(\<exists>vs. ok # oks = replicate (N - k) False @ vs) \<longleftrightarrow> (\<exists>vs. oks = replicate (N - Suc k) False @ vs)"
      using False N by simp
    have pre: "\<exists>vs. oks = replicate (N - Suc k) False @ vs" if "ok # oks = replicate N False @ vs" for vs
    proof -
      have "replicate N False = replicate (N - k) False @ replicate k False"
        using "2.prems" by (simp flip: replicate_add)
      with that N False show ?thesis by auto
    qed
    show ?thesis
    proof (cases "N \<le> Suc k")
      case True
      then have "N - Suc k = 0" by simp
      with True False first show ?thesis by simp
    next
      case lt: False
      from "2.IH"(2) [OF False] lt have "failure_streak N (Suc k) oks \<longleftrightarrow>
        (\<exists>vs. oks = replicate (N - Suc k) False @ vs) \<or> (\<exists>us vs. oks = us @ replicate N False @ vs)"
        by simp
      with False lt first shift pre show ?thesis by auto
    qed
  qed
qed

lemma apply_run_halted: "x_halted x \<Longrightarrow> apply_run W ins x = (replicate (length ins) True, x)"
  by (induction ins) (simp_all add: ApplyDecision_def)

lemma apply_run_streak:
  assumes "\<not> x_halted x" and "ec_failuresToHalt (x_config x) = N" "0 < N"
    and "apply_run W ins x = (oks, x')"
  shows "x_halted x' = failure_streak N (x_failures x) oks"
  using assms
proof (induction ins arbitrary: x oks)
  case (Cons i ins)
  obtain r x1 where a: "ApplyDecision W (fst i) (snd i) x = (r, x1)" by fastforce
  obtain oks1 x2 where b2: "apply_run W ins x1 = (oks1, x2)" by fastforce
  have run: "oks = HasValue r # oks1" "x' = x2" using Cons.prems(4) a b2 by auto
  note b = b2 [folded run(2)]
  note st = ApplyDecision_halt_step [OF a Cons.prems(1-3)]
  have cfg: "ec_failuresToHalt (x_config x1) = N"
    using ApplyDecision_config [OF a] Cons.prems(2) by simp
  show ?case
  proof (cases "x_halted x1")
    case True
    with st apply_run_halted [OF True, of W ins] b run show ?thesis by (auto split: if_splits)
  next
    case False
    from Cons.IH [OF False cfg Cons.prems(3) b] st False run show ?thesis by (auto split: if_splits)
  qed
qed simp

text \<open>
  C38: With the failure limit N set, a run of calls from an executor with a clean record ends
  halted exactly if the calls contain N failures in a row, and a halted executor ignores every
  further call: all succeed and its whole state, both systems included, stays as it is.
\<close>

theorem executor_halts_after_consecutive_failures:
  assumes "ec_failuresToHalt (x_config x) = N" and "0 < N" and "\<not> x_halted x" and "x_failures x = 0"
    and "apply_run W ins x = (oks, x')"
  shows "(x_halted x' \<longleftrightarrow> (\<exists>us vs. oks = us @ replicate N False @ vs)) \<and>
    (x_halted x' \<longrightarrow> apply_run W later x' = (replicate (length later) True, x'))"
proof -
  have "x_halted x' = failure_streak N 0 oks"
    using apply_run_streak [OF assms(3,1,2,5)] assms(4) by simp
  also have "\<dots> \<longleftrightarrow> (\<exists>us vs. oks = us @ replicate N False @ vs)"
    using failure_streak_iff [of 0 N oks] assms(2) by (metis append_Nil diff_zero)
  finally show ?thesis using apply_run_halted by blast
qed

definition demo_failing :: "(kernel, ptable) PolicyExecutor" where
  "demo_failing = demo_executor kernel_init (ptable_init\<lparr>pt_failOpen := True\<rparr>)"

theorem executor_halts_after_consecutive_failures_witness:
  "x_halted (snd (apply_run demo_backends
     [(boost_decision, demo_target True), (boost_decision, demo_target True)] demo_failing))"
proof -
  let ?ins = "[(boost_decision, demo_target True), (boost_decision, demo_target True)]"
  obtain oks x' where run: "apply_run demo_backends ?ins demo_failing = (oks, x')" by fastforce
  have "oks = [False, False]"
    using run by (auto simp: demo_failing_def demo_defs exec_eval booster_eval ptable_eval
        count_failure_def split: prod.splits)
  then have "\<exists>us vs. oks = us @ replicate 2 False @ vs"
    by (intro exI [of _ "[]"]) (simp add: numeral_2_eq_2)
  moreover have "ec_failuresToHalt (x_config demo_failing) = 2" "\<not> x_halted demo_failing"
    "x_failures demo_failing = 0"
    by (simp_all add: demo_failing_def demo_defs)
  ultimately show ?thesis
    using executor_halts_after_consecutive_failures [OF _ _ _ _ run, of 2] run by simp
qed

end
