(* ===== verification/File_System.thy ===== *)
theory File_System
  imports Common_Error
begin

text \<open>
  The file operations of the C++ library and of Win32 that the persistent parts of the
  program use: \<open>std::filesystem\<close> (\<open>is_directory\<close>, \<open>exists\<close>, \<open>create_directories\<close>,
  \<open>remove\<close>, \<open>file_size\<close>, \<open>resize_file\<close> and the parts of a path), binary \<open>ifstream\<close>/\<open>ofstream\<close> and
  \<open>MoveFileExW\<close> with replacement.  The disk is a map from path to content and a set of
  directories.  Every operation takes the failures the system injects into it as a record
  of functions (\<open>disk_faults\<close>), so that a theorem over all faults covers full disks,
  missing rights and aborted writes.  Two paths name the same file only when they are
  equal as strings.

  The locale \<open>line_log\<close> states what the writers of append-only logs promise, and the
  locale \<open>atomic_store\<close> states what the ``temporary file and replace'' writers of the
  program promise; each writer is an interpretation of its locale.
\<close>

type_synonym path = string

record disk =
  files :: "path \<rightharpoonup> string"
  dirs :: "path \<Rightarrow> bool"

record disk_faults =
  fail_stat :: "path \<Rightarrow> u32 option"
  fail_mkdir :: "path \<Rightarrow> u32 option"
  fail_open_read :: "path \<Rightarrow> u32 option"
  fail_read :: "path \<Rightarrow> (nat \<times> u32) option"
  fail_open_write :: "path \<Rightarrow> u32 option"
  fail_write :: "path \<Rightarrow> (nat \<times> u32) option"
  fail_move :: "path \<Rightarrow> u32 option"
  fail_remove :: "path \<Rightarrow> u32 option"
  fail_size :: "path \<Rightarrow> u32 option"
  dir_size :: "path \<Rightarrow> u32 + nat"
  fail_resize :: "path \<Rightarrow> u32 option"

definition no_faults :: disk_faults where
  "no_faults =
     \<lparr>fail_stat = \<lambda>_. None, fail_mkdir = \<lambda>_. None, fail_open_read = \<lambda>_. None,
      fail_read = \<lambda>_. None, fail_open_write = \<lambda>_. None, fail_write = \<lambda>_. None,
      fail_move = \<lambda>_. None, fail_remove = \<lambda>_. None,
      fail_size = \<lambda>_. None, dir_size = \<lambda>_. Inr 0, fail_resize = \<lambda>_. None\<rparr>"

definition empty_disk :: disk where
  "empty_disk = \<lparr>files = \<lambda>_. None, dirs = \<lambda>_. False\<rparr>"

section \<open>Paths\<close>

text \<open>
  \<open>std::filesystem::path\<close> on Windows.  The root name is a drive (\<open>C:\<close>), a device prefix
  or a server name; \<open>parent_path\<close> drops the file name and the separators before it but
  never the root path.
\<close>

definition is_slash :: "char \<Rightarrow> bool" where
  "is_slash c \<longleftrightarrow> c = CHR ''/'' \<or> c = CHR 0x5C"

definition has_drive :: "path \<Rightarrow> bool" where
  "has_drive p =
     (case p of c # d # _ \<Rightarrow> (is_upper c \<or> is_lower c) \<and> d = CHR '':'' | _ \<Rightarrow> False)"

definition root_name_len :: "path \<Rightarrow> nat" where
  "root_name_len p =
     (if length p < 2 then 0
      else if has_drive p then 2
      else if \<not> is_slash (p ! 0) then 0
      else if length p \<ge> 4 \<and> is_slash (p ! 3) \<and> (length p = 4 \<or> \<not> is_slash (p ! 4)) \<and>
              (is_slash (p ! 1) \<and> (p ! 2 = CHR ''?'' \<or> p ! 2 = CHR ''.'') \<or>
               p ! 1 = CHR ''?'' \<and> p ! 2 = CHR ''?'') then 3
      else if length p \<ge> 3 \<and> is_slash (p ! 1) \<and> \<not> is_slash (p ! 2)
        then 3 + length (takeWhile (\<lambda>c. \<not> is_slash c) (drop 3 p))
      else 0)"

definition root_path_len :: "path \<Rightarrow> nat" where
  "root_path_len p =
     root_name_len p + length (takeWhile is_slash (drop (root_name_len p) p))"

definition parent_path :: "path \<Rightarrow> path" where
  "parent_path p =
     (let r = root_path_len p;
          rel = rev (drop r p);
          up = dropWhile is_slash (dropWhile (\<lambda>c. \<not> is_slash c) rel)
      in take r p @ rev up)"

definition path_filename :: "path \<Rightarrow> string" where
  "path_filename p = rev (takeWhile (\<lambda>c. \<not> is_slash c) (rev (drop (root_path_len p) p)))"

text \<open>
  \<open>stem\<close> and \<open>extension\<close> split the file name, without a stream suffix after a colon, at its
  last period; a period in first place and the name \<open>..\<close> start no extension.
\<close>

definition plain_name :: "path \<Rightarrow> string" where
  "plain_name p = takeWhile (\<lambda>c. c \<noteq> CHR '':'') (path_filename p)"

definition ext_len :: "string \<Rightarrow> nat" where
  "ext_len n =
     (let e = length (takeWhile (\<lambda>c. c \<noteq> CHR ''.'') (rev n)) + 1
      in if n = ''..'' \<or> length n \<le> e then 0 else e)"

definition path_stem :: "path \<Rightarrow> string" where
  "path_stem p = take (length (plain_name p) - ext_len (plain_name p)) (plain_name p)"

definition path_extension :: "path \<Rightarrow> string" where
  "path_extension p = drop (length (plain_name p) - ext_len (plain_name p)) (plain_name p)"

text \<open>\<open>operator/\<close> with a name that has no root: a drive alone takes no separator.\<close>

definition path_append :: "path \<Rightarrow> string \<Rightarrow> path" where
  "path_append p n =
     (if root_name_len p = length p then (if length p \<ge> 3 then p @ [CHR 0x5C] @ n else p @ n)
      else if is_slash (last p) then p @ n
      else p @ [CHR 0x5C] @ n)"

lemma length_parent_path: "length (parent_path p) \<le> length p"
proof -
  have *: "length (dropWhile Q (dropWhile P xs)) \<le> length xs" for P Q :: "char \<Rightarrow> bool" and xs
    by (meson length_dropWhile_le order_trans)
  let ?r = "root_path_len p"
  have "length (dropWhile is_slash (dropWhile (\<lambda>c. \<not> is_slash c) (rev (drop ?r p)))) \<le> length (drop ?r p)"
    using * [of _ _ "rev (drop ?r p)"] by simp
  then show ?thesis by (simp add: parent_path_def Let_def)
qed

text \<open>The directories that \<open>create_directories\<close> makes: the path and its ancestors.\<close>

function ancestors :: "path \<Rightarrow> path list" where
  "ancestors p =
     (if p = [] then []
      else if length (parent_path p) < length p then p # ancestors (parent_path p)
      else [p])"
  by pat_completeness auto
termination by (relation "measure length") auto

declare ancestors.simps [simp del]

section \<open>Queries\<close>

definition is_directory :: "disk_faults \<Rightarrow> disk \<Rightarrow> path \<Rightarrow> bool" where
  "is_directory io d p = (fail_stat io p = None \<and> dirs d p)"

text \<open>\<open>exists(path, ec)\<close>: the answer and the error code, if any.\<close>

definition path_exists :: "disk_faults \<Rightarrow> disk \<Rightarrow> path \<Rightarrow> bool \<times> u32 option" where
  "path_exists io d p =
     (case fail_stat io p of
        Some c \<Rightarrow> (False, Some c)
      | None \<Rightarrow> (dirs d p \<or> files d p \<noteq> None, None))"

text \<open>
  \<open>file_size(path, ec)\<close>; what it says of a directory is left to the implementation
  (\<open>dir_size\<close>).
\<close>

definition file_size :: "disk_faults \<Rightarrow> disk \<Rightarrow> path \<Rightarrow> u32 + nat" where
  "file_size io d p =
     (case fail_size io p of
        Some c \<Rightarrow> Inl c
      | None \<Rightarrow>
          (case files d p of
             Some s \<Rightarrow> Inr (length s)
           | None \<Rightarrow> if dirs d p then dir_size io p else Inl 2))"

section \<open>Reading\<close>

text \<open>
  An input stream: the lines \<open>getline\<close> delivers, and the error that ended it early, if
  any (\<open>bad()\<close>).  A stream that goes bad in the middle of a line loses that line.
\<close>

record in_stream =
  in_lines :: "string list"
  in_bad :: "u32 option"

definition complete_part :: "string \<Rightarrow> string" where
  "complete_part s = rev (dropWhile (\<lambda>c. c \<noteq> LF) (rev s))"

definition open_read :: "disk_faults \<Rightarrow> disk \<Rightarrow> path \<Rightarrow> u32 + in_stream" where
  "open_read io d p =
     (case fail_open_read io p of
        Some c \<Rightarrow> Inl c
      | None \<Rightarrow>
          (case files d p of
             None \<Rightarrow> Inl 2
           | Some s \<Rightarrow>
               (case fail_read io p of
                  None \<Rightarrow> Inr \<lparr>in_lines = getlines s, in_bad = None\<rparr>
                | Some (n, c) \<Rightarrow>
                    Inr \<lparr>in_lines = getlines (complete_part (take n s)), in_bad = Some c\<rparr>)))"

section \<open>Writing\<close>

definition set_file :: "path \<Rightarrow> string \<Rightarrow> disk \<Rightarrow> disk" where
  "set_file p s d = d\<lparr>files := (files d)(p \<mapsto> s)\<rparr>"

definition del_file :: "path \<Rightarrow> disk \<Rightarrow> disk" where
  "del_file p d = d\<lparr>files := (files d)(p := None)\<rparr>"

text \<open>\<open>create_directories(path, ec)\<close>: an empty path is not found (\<open>ERROR_PATH_NOT_FOUND\<close>).\<close>

definition create_directories :: "disk_faults \<Rightarrow> path \<Rightarrow> disk \<Rightarrow> (u32 + unit) \<times> disk" where
  "create_directories io p d =
     (if p = [] then (Inl 3, d)
      else case fail_mkdir io p of
        Some c \<Rightarrow> (Inl c, d)
      | None \<Rightarrow> (Inr (), d\<lparr>dirs := \<lambda>q. dirs d q \<or> q \<in> set (ancestors p)\<rparr>))"

text \<open>
  Opening for writing: \<open>trunc\<close> empties the file, \<open>app\<close> keeps it.  A directory cannot be
  opened (\<open>ERROR_ACCESS_DENIED\<close>).
\<close>

definition open_write :: "disk_faults \<Rightarrow> path \<Rightarrow> bool \<Rightarrow> disk \<Rightarrow> (u32 + unit) \<times> disk" where
  "open_write io p app d =
     (case fail_open_write io p of
        Some c \<Rightarrow> (Inl c, d)
      | None \<Rightarrow>
          if dirs d p then (Inl 5, d)
          else (Inr (),
                if app then (case files d p of None \<Rightarrow> set_file p [] d | Some _ \<Rightarrow> d)
                else set_file p [] d))"

text \<open>Writing and flushing: on failure only a prefix has reached the disk.\<close>

definition write_flush :: "disk_faults \<Rightarrow> path \<Rightarrow> string \<Rightarrow> disk \<Rightarrow> (u32 + unit) \<times> disk" where
  "write_flush io p s d =
     (let old = (case files d p of None \<Rightarrow> [] | Some t \<Rightarrow> t)
      in case fail_write io p of
           Some (n, c) \<Rightarrow> (Inl c, set_file p (old @ take n s) d)
         | None \<Rightarrow> (Inr (), set_file p (old @ s) d))"

text \<open>\<open>remove(path, ec)\<close> and \<open>DeleteFileW\<close>; a missing file is not an error of \<open>remove\<close>.\<close>

definition remove_file :: "disk_faults \<Rightarrow> path \<Rightarrow> disk \<Rightarrow> (u32 + bool) \<times> disk" where
  "remove_file io p d =
     (case fail_remove io p of
        Some c \<Rightarrow> (Inl c, d)
      | None \<Rightarrow> (Inr (files d p \<noteq> None), del_file p d))"

text \<open>\<open>MoveFileExW\<close> with \<open>MOVEFILE_REPLACE_EXISTING\<close>: one atomic change of the disk.\<close>

definition move_replace :: "disk_faults \<Rightarrow> path \<Rightarrow> path \<Rightarrow> disk \<Rightarrow> (u32 + unit) \<times> disk" where
  "move_replace io src dst d =
     (case fail_move io src of
        Some c \<Rightarrow> (Inl c, d)
      | None \<Rightarrow>
          if dirs d dst then (Inl 5, d)
          else (case files d src of
                  None \<Rightarrow> (Inl 2, d)
                | Some s \<Rightarrow> (Inr (), set_file dst s (del_file src d))))"

text \<open>\<open>resize_file\<close>: cuts the file or pads it with zero bytes.\<close>

definition resize_file :: "disk_faults \<Rightarrow> path \<Rightarrow> nat \<Rightarrow> disk \<Rightarrow> (u32 + unit) \<times> disk" where
  "resize_file io p n d =
     (case fail_resize io p of
        Some c \<Rightarrow> (Inl c, d)
      | None \<Rightarrow>
          (case files d p of
             None \<Rightarrow> (Inl 2, d)
           | Some s \<Rightarrow> (Inr (), set_file p (take n s @ replicate (n - length s) (CHR 0x00)) d)))"

section \<open>Laws\<close>

lemma files_set_file [simp]: "files (set_file p s d) = (files d)(p \<mapsto> s)"
  by (simp add: set_file_def)

lemma dirs_set_file [simp]: "dirs (set_file p s d) = dirs d"
  by (simp add: set_file_def)

lemma files_del_file [simp]: "files (del_file p d) = (files d)(p := None)"
  by (simp add: del_file_def)

lemma dirs_del_file [simp]: "dirs (del_file p d) = dirs d"
  by (simp add: del_file_def)

lemma create_directories_named:
  "p \<noteq> [] \<Longrightarrow> create_directories io p d =
     (case fail_mkdir io p of Some c \<Rightarrow> (Inl c, d)
      | None \<Rightarrow> (Inr (), d\<lparr>dirs := \<lambda>q. dirs d q \<or> q \<in> set (ancestors p)\<rparr>))"
  unfolding create_directories_def by simp

lemma create_directories_files [simp]:
  "create_directories io p d = (r, d') \<Longrightarrow> files d' = files d"
  unfolding create_directories_def by (cases "p = []"; cases "fail_mkdir io p") auto

lemma create_directories_dirs:
  "create_directories io p d = (r, d') \<Longrightarrow> dirs d q \<Longrightarrow> dirs d' q"
  unfolding create_directories_def by (cases "p = []"; cases "fail_mkdir io p") auto

lemma no_faults_simps [simp]:
  "fail_stat no_faults p = None" "fail_mkdir no_faults p = None"
  "fail_open_read no_faults p = None" "fail_read no_faults p = None"
  "fail_open_write no_faults p = None" "fail_write no_faults p = None"
  "fail_move no_faults p = None" "fail_remove no_faults p = None"
  "fail_size no_faults p = None" "fail_resize no_faults p = None"
  by (simp_all add: no_faults_def)

lemma open_write_cases:
  assumes "open_write io p app d = (r, d')"
  obtains (failed) c where "r = Inl c" "d' = d"
  | (opened) "r = Inr ()" "\<not> dirs d p" "dirs d' = dirs d"
      "files d' = (files d)(p \<mapsto> (if app then (case files d p of None \<Rightarrow> [] | Some s \<Rightarrow> s) else []))"
  using assms
  by (cases "fail_open_write io p"; cases "dirs d p"; cases app; cases "files d p")
    (auto simp: open_write_def fun_upd_idem)

lemma write_flush_cases:
  assumes "write_flush io p s d = (r, d')"
  obtains (failed) n c where "r = Inl c" "dirs d' = dirs d"
      "files d' = (files d)(p \<mapsto> (case files d p of None \<Rightarrow> [] | Some t \<Rightarrow> t) @ take n s)"
  | (flushed) "r = Inr ()" "dirs d' = dirs d"
      "files d' = (files d)(p \<mapsto> (case files d p of None \<Rightarrow> [] | Some t \<Rightarrow> t) @ s)"
  using assms by (cases "fail_write io p") (auto simp: write_flush_def Let_def)

lemma remove_file_cases:
  assumes "remove_file io p d = (r, d')"
  obtains (failed) c where "r = Inl c" "d' = d"
  | (removed) b where "r = Inr b" "files d' = (files d)(p := None)" "dirs d' = dirs d"
  using assms by (cases "fail_remove io p") (auto simp: remove_file_def)

lemma move_replace_cases:
  assumes "move_replace io src dst d = (r, d')"
  obtains (failed) c where "r = Inl c" "d' = d"
  | (moved) s where "r = Inr ()" "files d src = Some s" "dirs d' = dirs d"
      "files d' = (files d)(src := None, dst \<mapsto> s)"
  using assms
  by (cases "fail_move io src"; cases "dirs d dst"; cases "files d src") (auto simp: move_replace_def)

text \<open>\<open>create_directories(parent_path)\<close>, skipped when there is no parent.\<close>

definition make_parent :: "disk_faults \<Rightarrow> path \<Rightarrow> disk \<Rightarrow> (u32 + unit) \<times> disk" where
  "make_parent io p d =
     (if parent_path p \<noteq> [] then create_directories io (parent_path p) d else (Inr (), d))"

lemma make_parent_files: "make_parent io p d = (r, d') \<Longrightarrow> files d' = files d"
  by (auto simp: make_parent_def split: if_splits)

section \<open>The append sequence\<close>

text \<open>
  The sequence of the writers of line logs: make the parent directory, open for append, write
  and flush.  The failure tells the stage and its error code.
\<close>

datatype append_fault = App_mkdir u32 | App_open u32 | App_flush u32

definition append_text :: "disk_faults \<Rightarrow> path \<Rightarrow> string \<Rightarrow> disk \<Rightarrow> (append_fault + unit) \<times> disk" where
  "append_text io p s d =
     (case make_parent io p d of
        (Inl c, d1) \<Rightarrow> (Inl (App_mkdir c), d1)
      | (Inr _, d1) \<Rightarrow>
          (case open_write io p True d1 of
             (Inl c, d2) \<Rightarrow> (Inl (App_open c), d2)
           | (Inr _, d2) \<Rightarrow>
               (case write_flush io p s d2 of
                  (Inl c, d3) \<Rightarrow> (Inl (App_flush c), d3)
                | (Inr _, d3) \<Rightarrow> (Inr (), d3))))"

definition content :: "disk \<Rightarrow> path \<Rightarrow> string" where
  "content d p = (case files d p of None \<Rightarrow> [] | Some s \<Rightarrow> s)"

lemma content_Some: "files d p = Some s \<Longrightarrow> content d p = s"
  by (simp add: content_def)

lemma append_text_cases:
  assumes "append_text io p s d = (r, d')"
  obtains (untouched) e where "r = Inl e" "files d' = files d"
  | (partial) n c where "r = Inl (App_flush c)" "files d' = (files d)(p \<mapsto> content d p @ take n s)"
  | (appended) "r = Inr ()" "files d' = (files d)(p \<mapsto> content d p @ s)"
proof -
  obtain r1 d1 where m: "make_parent io p d = (r1, d1)" by fastforce
  obtain r2 d2 where o: "open_write io p True d1 = (r2, d2)" by fastforce
  obtain r3 d3 where w: "write_flush io p s d2 = (r3, d3)" by fastforce
  note f1 = make_parent_files [OF m]
  show thesis
  proof (cases r1)
    case (Inl c)
    with assms m f1 untouched show thesis by (auto simp: append_text_def)
  next
    case (Inr u)
    note r1 = this
    show thesis
      using o
    proof (cases rule: open_write_cases)
      case (failed c)
      with assms m o r1 f1 untouched show thesis by (auto simp: append_text_def)
    next
      case opened
      have f2: "files d2 = (files d)(p \<mapsto> content d p)" using opened f1 by (simp add: content_def)
      show thesis
        using w
      proof (cases rule: write_flush_cases)
        case (failed n c)
        then have "r = Inl (App_flush c)" and "files d' = (files d)(p \<mapsto> content d p @ take n s)"
          using assms m o r1 w opened(1) f2 by (auto simp: append_text_def)
        then show thesis by (rule partial)
      next
        case flushed
        then have "r = Inr ()" and "files d' = (files d)(p \<mapsto> content d p @ s)"
          using assms m o r1 w opened(1) f2 by (auto simp: append_text_def)
        then show thesis by (rule appended)
      qed
    qed
  qed
qed

text \<open>What the writers of line logs promise; each of them is an interpretation.\<close>

locale line_log =
  fixes append :: "disk_faults \<Rightarrow> path \<Rightarrow> 'a \<Rightarrow> disk \<Rightarrow> unit result \<times> disk"
    and line :: "'a \<Rightarrow> string"
  assumes append_ok: "append io p x d = (Success u, d') \<Longrightarrow>
      files d' = (files d)(p \<mapsto> content d p @ line x @ [LF])"
    and append_fail: "append io p x d = (Failure e, d') \<Longrightarrow>
      files d' = files d \<or> (\<exists>n. files d' = (files d)(p \<mapsto> content d p @ take n (line x @ [LF])))"
begin

text \<open>Nothing that is in a log is ever lost, and no other file is touched.\<close>

lemma append_only:
  assumes "append io p x d = (r, d')"
  shows "\<exists>t. content d' p = content d p @ t"
  using assms append_ok [of io p x d _ d'] append_fail [of io p x d _ d']
  by (cases r) (fastforce simp: content_def)+

lemma append_frame: "append io p x d = (r, d') \<Longrightarrow> q \<noteq> p \<Longrightarrow> files d' q = files d q"
  using append_ok [of io p x d _ d'] append_fail [of io p x d _ d']
  by (cases r) (fastforce)+

lemma append_line:
  assumes "append io p x d = (Success u, d')" and "content d p = unlines ls" and "\<forall>l \<in> set ls. LF \<notin> set l"
    and "LF \<notin> set (line x)"
  shows "getlines (content d' p) = getlines (content d p) @ [line x]"
proof -
  have "content d' p = unlines (ls @ [line x])"
    using append_ok [OF assms(1)] assms(2) by (simp add: content_def)
  moreover have "\<forall>l \<in> set (ls @ [line x]). LF \<notin> set l" using assms(3,4) by auto
  ultimately show ?thesis using assms(2,3) getlines_unlines by metis
qed

end

section \<open>The temporary-file-and-replace sequence\<close>

text \<open>
  The sequence the writers share: truncate \<open>path.tmp\<close>, write and flush it, move it over
  the target; a failed flush or move removes the temporary file again.  The failure tells
  the stage, its error code and, for the flush, the code of a failed clean-up.
\<close>

datatype replace_fault = Temp_open u32 | Temp_flush u32 "u32 option" | Temp_move u32

definition temp_path :: "path \<Rightarrow> path" where
  "temp_path p = p @ ''.tmp''"

definition temp_replace ::
  "disk_faults \<Rightarrow> path \<Rightarrow> string \<Rightarrow> disk \<Rightarrow> (replace_fault + unit) \<times> disk" where
  "temp_replace io p s d =
     (let t = temp_path p
      in case open_write io t False d of
           (Inl c, d1) \<Rightarrow> (Inl (Temp_open c), d1)
         | (Inr _, d1) \<Rightarrow>
             (case write_flush io t s d1 of
                (Inl c, d2) \<Rightarrow>
                  (case remove_file io t d2 of
                     (Inl rc, d3) \<Rightarrow> (Inl (Temp_flush c (Some rc)), d3)
                   | (Inr _, d3) \<Rightarrow> (Inl (Temp_flush c None), d3))
              | (Inr _, d2) \<Rightarrow>
                  (case move_replace io t p d2 of
                     (Inl c, d3) \<Rightarrow> (Inl (Temp_move c), snd (remove_file io t d3))
                   | (Inr _, d3) \<Rightarrow> (Inr (), d3))))"

lemma temp_path_other [simp]: "temp_path p \<noteq> p" "p \<noteq> temp_path p"
  by (simp_all add: temp_path_def)

lemma remove_file_frame: "q \<noteq> p \<Longrightarrow> files (snd (remove_file io p d)) q = files d q"
  by (auto simp: remove_file_def split: option.splits)

lemma temp_replace_fail:
  assumes "temp_replace io p s d = (Inl e, d')" and q: "q \<noteq> temp_path p"
  shows "files d' q = files d q"
proof -
  obtain r1 d1 where o: "open_write io (temp_path p) False d = (r1, d1)" by fastforce
  have d1: "files d1 q = files d q"
    by (rule open_write_cases [OF o]) (use q in auto)
  show ?thesis
  proof (cases r1)
    case (Inl c)
    with assms o d1 show ?thesis by (simp add: temp_replace_def Let_def)
  next
    case (Inr u)
    obtain r2 d2 where w: "write_flush io (temp_path p) s d1 = (r2, d2)" by fastforce
    have d2: "files d2 q = files d q"
      by (rule write_flush_cases [OF w]) (use d1 q in auto)
    show ?thesis
    proof (cases r2)
      case (Inl c)
      obtain r3 d3 where "remove_file io (temp_path p) d2 = (r3, d3)" by fastforce
      with assms o w Inr Inl d2 remove_file_frame [OF q, of io d2] show ?thesis
        by (auto simp: temp_replace_def Let_def split: sum.splits)
    next
      case Inr2: (Inr u2)
      obtain r3 d3 where m: "move_replace io (temp_path p) p d2 = (r3, d3)" by fastforce
      with assms o w Inr Inr2 obtain c where "r3 = Inl c" and d': "d' = snd (remove_file io (temp_path p) d3)"
        by (cases r3) (auto simp: temp_replace_def Let_def)
      with m have "d3 = d2" by (auto elim: move_replace_cases)
      with d' d2 remove_file_frame [OF q] show ?thesis by simp
    qed
  qed
qed

lemma temp_replace_ok:
  assumes "temp_replace io p s d = (Inr u, d')"
  shows "files d' = (files d)(temp_path p := None, p \<mapsto> s)"
proof -
  from assms obtain d1 d2 where o: "open_write io (temp_path p) False d = (Inr (), d1)"
    and w: "write_flush io (temp_path p) s d1 = (Inr (), d2)"
    and m: "move_replace io (temp_path p) p d2 = (Inr (), d')"
    by (auto simp: temp_replace_def Let_def split: prod.splits sum.splits)
  from o have d1: "files d1 = (files d)(temp_path p \<mapsto> [])" by (elim open_write_cases) auto
  from w have d2: "files d2 = (files d1)(temp_path p \<mapsto> s)"
    by (rule write_flush_cases) (auto simp: d1)
  from m have "files d' = (files d2)(temp_path p := None, p \<mapsto> s)"
    by (rule move_replace_cases) (auto simp: d2)
  with d1 d2 show ?thesis by simp
qed

lemma temp_replace_ok_dirs:
  assumes "temp_replace io p s d = (Inr u, d')"
  shows "dirs d' = dirs d \<and> \<not> dirs d' p"
proof -
  from assms obtain d1 d2 where o: "open_write io (temp_path p) False d = (Inr (), d1)"
    and w: "write_flush io (temp_path p) s d1 = (Inr (), d2)"
    and m: "move_replace io (temp_path p) p d2 = (Inr (), d')"
    by (auto simp: temp_replace_def Let_def split: prod.splits sum.splits)
  from o have "dirs d1 = dirs d" by (elim open_write_cases) auto
  moreover from w have "dirs d2 = dirs d1" by (elim write_flush_cases) auto
  moreover from m have "dirs d' = dirs d2" by (elim move_replace_cases) auto
  moreover from m have "\<not> dirs d2 p"
    by (auto simp: move_replace_def split: option.splits if_splits)
  ultimately show ?thesis by simp
qed

text \<open>Without faults the sequence succeeds unless a directory is in the way.\<close>

lemma temp_replace_no_faults:
  "\<not> dirs d p \<Longrightarrow> \<not> dirs d (temp_path p) \<Longrightarrow> fst (temp_replace no_faults p s d) = Inr ()"
  by (simp add: temp_replace_def Let_def open_write_def write_flush_def move_replace_def)

lemma remove_file_dirs [simp]: "dirs (snd (remove_file io p d)) = dirs d"
  by (simp add: remove_file_def split: option.splits)

lemma temp_replace_dirs: "dirs (snd (temp_replace io p s d)) = dirs d"
  by (simp add: temp_replace_def Let_def open_write_def write_flush_def move_replace_def remove_file_def
      split: option.splits)

lemma ancestors_length: "q \<in> set (ancestors p) \<Longrightarrow> length q \<le> length p"
proof (induction p rule: ancestors.induct)
  case (1 p)
  then show ?case by (subst (asm) (2) ancestors.simps) (fastforce split: if_splits)
qed

text \<open>No directory stands where the file or its temporary file goes.\<close>

definition clear_path :: "path \<Rightarrow> disk \<Rightarrow> bool" where
  "clear_path p d \<longleftrightarrow> p \<noteq> [] \<and> length (parent_path p) < length p \<and> \<not> dirs d p \<and> \<not> dirs d (temp_path p)"

lemma make_parent_clear: "clear_path p d \<Longrightarrow> make_parent io p d = (r, d') \<Longrightarrow> clear_path p d'"
proof -
  assume c: "clear_path p d" and m: "make_parent io p d = (r, d')"
  have "q \<notin> set (ancestors (parent_path p))" if "q = p \<or> q = temp_path p" for q
  proof
    assume "q \<in> set (ancestors (parent_path p))"
    then have "length q \<le> length (parent_path p)" by (rule ancestors_length)
    moreover have "length p \<le> length q" using that by (auto simp: temp_path_def)
    ultimately show False using c by (simp add: clear_path_def)
  qed
  moreover have "dirs d' q \<longrightarrow> dirs d q \<or> q \<in> set (ancestors (parent_path p))" for q
    using m by (cases "parent_path p = []"; cases "fail_mkdir io (parent_path p)")
      (auto simp: make_parent_def create_directories_named)
  ultimately show "clear_path p d'" using c unfolding clear_path_def by blast
qed

section \<open>The temporary-file-and-replace contract\<close>

locale atomic_store =
  fixes store :: "disk_faults \<Rightarrow> path \<Rightarrow> 'a \<Rightarrow> disk \<Rightarrow> 'r result \<times> disk"
    and temp :: "path \<Rightarrow> path"
    and render :: "'a \<Rightarrow> string"
  assumes temp_other: "temp p \<noteq> p"
    and store_ok: "store io p x d = (Success v, d') \<Longrightarrow>
      files d' = (files d)(temp p := None, p \<mapsto> render x)"
    and store_fail: "store io p x d = (Failure e, d') \<Longrightarrow> q \<noteq> temp p \<Longrightarrow> files d' q = files d q"
begin

lemma store_frame:
  assumes "store io p x d = (r, d')" and "q \<noteq> p" and "q \<noteq> temp p"
  shows "files d' q = files d q"
proof (cases r)
  case (Inl e)
  with assms store_fail [of io p x d e d' q] show ?thesis by simp
next
  case (Inr v)
  with assms store_ok [of io p x d v d'] show ?thesis by simp
qed

text \<open>A reader of the target sees the old or the new content, never a mixture.\<close>

lemma store_all_or_nothing:
  assumes "store io p x d = (r, d')"
  shows "files d' p = (if HasValue r then Some (render x) else files d p)"
proof (cases r)
  case (Inl e)
  with assms store_fail [of io p x d e d' p] temp_other [of p] show ?thesis by simp
next
  case (Inr v)
  with assms store_ok [of io p x d v d'] temp_other [of p] show ?thesis by simp
qed

end

end
