(* ===== verification/Audit_Log.thy ===== *)
theory Audit_Log
  imports File_System
begin

text \<open>
  The audit trail: \<^verbatim>\<open>include/audit/audit_log.hpp\<close> and \<^verbatim>\<open>source/audit/audit_log.cpp\<close>.
  Records and their line format, the append-only audit and journal files, the bounded
  in-process log, the read-only tail, and the two levels of semantic compression: audit lines
  into summary lines (\<open>CompactAuditFile\<close>), summary lines into one
  (\<open>FoldAuditSummaryFile\<close>).  Files live on the disk of \<open>File_System\<close> with its injected
  faults; the local time stamp and the monotonic clock reading are arguments.  Counters are
  \<open>std::size_t\<close>, that is 64 bits wide: \<open>add64\<close> wraps.
\<close>

section \<open>Records and lines\<close>

datatype RiskLevel = R0 | R1 | R2 | R3 | R4

definition RiskLevelToString :: "RiskLevel \<Rightarrow> string" where
  "RiskLevelToString level =
     (case level of R0 \<Rightarrow> ''R0'' | R1 \<Rightarrow> ''R1'' | R2 \<Rightarrow> ''R2'' | R3 \<Rightarrow> ''R3'' | R4 \<Rightarrow> ''R4'')"

record AuditRecord =
  ar_operationId :: string
  ar_risk :: RiskLevel
  ar_caller :: string
  ar_target :: string
  ar_detail :: string
  ar_ok :: bool
  ar_at :: int

text \<open>A \<open>char\<close> is signed: widening it to \<open>wchar_t\<close> extends its sign.\<close>

definition widen :: "string \<Rightarrow> wstring" where
  "widen s = map (\<lambda>c. signed (of_nat (of_char c) :: 8 word)) s"

definition FormatAuditRecord :: "AuditRecord \<Rightarrow> wstring" where
  "FormatAuditRecord r =
     wide ''[audit] '' @ wide (RiskLevelToString (ar_risk r)) @ wide '' '' @
     widen (ar_operationId r) @ wide '' '' @ wide (if ar_ok r then ''ok'' else ''fail'') @
     wide '' caller='' @ widen (ar_caller r) @ wide '' target='' @ widen (ar_target r) @
     wide '' detail='' @ widen (ar_detail r)"

definition Sanitized :: "string \<Rightarrow> string" where
  "Sanitized field =
     map (\<lambda>c. if (of_char c :: nat) < 0x20 \<or> (of_char c :: nat) = 0x7F then CHR '' '' else c) field"

definition FormatAuditLineAscii :: "string \<Rightarrow> AuditRecord \<Rightarrow> string" where
  "FormatAuditLineAscii timestamp r =
     timestamp @ '' [audit] '' @ RiskLevelToString (ar_risk r) @ '' '' @ Sanitized (ar_operationId r) @
     (if ar_ok r then '' ok'' else '' fail'') @ '' caller='' @ Sanitized (ar_caller r) @
     '' target='' @ Sanitized (ar_target r) @ '' detail='' @ Sanitized (ar_detail r)"

definition kMaxAuditReadBytes :: nat where "kMaxAuditReadBytes = 8 * 1024 * 1024"
definition kMaxAuditLineBytes :: nat where "kMaxAuditLineBytes = 4096"

section \<open>Counting\<close>

definition add64 :: "nat \<Rightarrow> nat \<Rightarrow> nat" where
  "add64 a b = (a + b) mod 2 ^ 64"

record AuditOperationCount =
  oc_operationId :: string
  oc_ok :: nat
  oc_fail :: nat

text \<open>The linear search for an operation, with a new entry at the end when it is not found.\<close>

fun count_op :: "string \<Rightarrow> nat \<Rightarrow> nat \<Rightarrow> AuditOperationCount list \<Rightarrow> AuditOperationCount list" where
  "count_op op k f [] = [\<lparr>oc_operationId = op, oc_ok = add64 0 k, oc_fail = add64 0 f\<rparr>]"
| "count_op op k f (e # es) =
     (if oc_operationId e = op
      then e\<lparr>oc_ok := add64 (oc_ok e) k, oc_fail := add64 (oc_fail e) f\<rparr> # es
      else e # count_op op k f es)"

definition ok_part :: "bool \<Rightarrow> nat" where "ok_part b = (if b then 1 else 0)"
definition fail_part :: "bool \<Rightarrow> nat" where "fail_part b = (if b then 0 else 1)"

record AuditSummary =
  as_total :: nat
  as_ok :: nat
  as_fail :: nat
  as_byOperation :: "AuditOperationCount list"
  as_firstAt :: int
  as_lastAt :: int

definition AuditSummary_empty :: AuditSummary where
  "AuditSummary_empty =
     \<lparr>as_total = 0, as_ok = 0, as_fail = 0, as_byOperation = [], as_firstAt = 0, as_lastAt = 0\<rparr>"

text \<open>One round of the loop; the flag is \<open>hasTime\<close>.\<close>

definition summarize_record :: "AuditSummary \<times> bool \<Rightarrow> AuditRecord \<Rightarrow> AuditSummary \<times> bool" where
  "summarize_record st r =
     (let (s, hasTime) = st;
          s1 = s\<lparr>as_total := add64 (as_total s) 1,
                 as_ok := add64 (as_ok s) (ok_part (ar_ok r)),
                 as_fail := add64 (as_fail s) (fail_part (ar_ok r)),
                 as_byOperation :=
                   count_op (ar_operationId r) (ok_part (ar_ok r)) (fail_part (ar_ok r)) (as_byOperation s)\<rparr>
      in if ar_at r \<noteq> 0
         then (let s2 = (if \<not> hasTime \<or> ar_at r < as_firstAt s1 then s1\<lparr>as_firstAt := ar_at r\<rparr> else s1);
                   s3 = (if \<not> hasTime \<or> ar_at r > as_lastAt s2 then s2\<lparr>as_lastAt := ar_at r\<rparr> else s2)
               in (s3, True))
         else (s1, hasTime))"

definition SummarizeRecords :: "AuditRecord list \<Rightarrow> AuditSummary" where
  "SummarizeRecords records = fst (foldl summarize_record (AuditSummary_empty, False) records)"

record AuditLinePrefix =
  lp_timestamp :: string
  lp_operationId :: string
  lp_ok :: bool

definition ParseAuditLinePrefix :: "string \<Rightarrow> AuditLinePrefix option" where
  "ParseAuditLinePrefix line =
     (case split_sub '' [audit] '' line of
        None \<Rightarrow> None
      | Some (timestamp, rest) \<Rightarrow>
          if timestamp = [] then None
          else (case split_first (CHR '' '') rest of
                  None \<Rightarrow> None
                | Some (_, rest1) \<Rightarrow>
                    (case split_first (CHR '' '') rest1 of
                       None \<Rightarrow> None
                     | Some (operationId, rest2) \<Rightarrow>
                         (let result = takeWhile (\<lambda>c. c \<noteq> CHR '' '') rest2
                          in if operationId = [] then None
                             else if result = ''ok''
                               then Some \<lparr>lp_timestamp = timestamp, lp_operationId = operationId, lp_ok = True\<rparr>
                             else if result = ''fail''
                               then Some \<lparr>lp_timestamp = timestamp, lp_operationId = operationId, lp_ok = False\<rparr>
                             else None))))"

record AuditLineSummary =
  ls_total :: nat
  ls_ok :: nat
  ls_fail :: nat
  ls_unparsed :: nat
  ls_byOperation :: "AuditOperationCount list"
  ls_firstTimestamp :: string
  ls_lastTimestamp :: string

definition AuditLineSummary_empty :: AuditLineSummary where
  "AuditLineSummary_empty =
     \<lparr>ls_total = 0, ls_ok = 0, ls_fail = 0, ls_unparsed = 0, ls_byOperation = [],
      ls_firstTimestamp = [], ls_lastTimestamp = []\<rparr>"

definition summarize_line :: "AuditLineSummary \<Rightarrow> string \<Rightarrow> AuditLineSummary" where
  "summarize_line s line =
     (case ParseAuditLinePrefix line of
        None \<Rightarrow> s\<lparr>ls_unparsed := add64 (ls_unparsed s) 1\<rparr>
      | Some p \<Rightarrow>
          s\<lparr>ls_total := add64 (ls_total s) 1,
            ls_ok := add64 (ls_ok s) (ok_part (lp_ok p)),
            ls_fail := add64 (ls_fail s) (fail_part (lp_ok p)),
            ls_byOperation :=
              count_op (lp_operationId p) (ok_part (lp_ok p)) (fail_part (lp_ok p)) (ls_byOperation s),
            ls_firstTimestamp := (if ls_firstTimestamp s = [] then lp_timestamp p else ls_firstTimestamp s),
            ls_lastTimestamp := lp_timestamp p\<rparr>)"

definition SummarizeAuditLines :: "string list \<Rightarrow> AuditLineSummary" where
  "SummarizeAuditLines lines = foldl summarize_line AuditLineSummary_empty lines"

section \<open>Summary lines\<close>

record CompactOptions =
  co_maxBytes :: nat
  co_maxLines :: nat
  co_keepTailLines :: nat
  co_summaryMaxBytes :: nat

definition default_CompactOptions :: CompactOptions where
  "default_CompactOptions =
     \<lparr>co_maxBytes = 10 * 1024 * 1024, co_maxLines = 20000, co_keepTailLines = 2000,
      co_summaryMaxBytes = 50 * 1024 * 1024\<rparr>"

definition ShouldCompactAuditFile :: "nat \<Rightarrow> nat \<Rightarrow> CompactOptions \<Rightarrow> bool" where
  "ShouldCompactAuditFile currentBytes currentLines options \<longleftrightarrow>
     co_maxBytes options > 0 \<and> currentBytes \<ge> co_maxBytes options \<or>
     co_maxLines options > 0 \<and> currentLines \<ge> co_maxLines options"

definition op_field :: "AuditOperationCount \<Rightarrow> string" where
  "op_field e = oc_operationId e @ ''='' @ dec_of_nat (oc_ok e) @ ''/'' @ dec_of_nat (oc_fail e)"

definition FormatAuditSummaryLine :: "AuditLineSummary \<Rightarrow> string" where
  "FormatAuditSummaryLine s =
     ls_firstTimestamp s @ (if ls_firstTimestamp s \<noteq> [] then ''..'' @ ls_lastTimestamp s else []) @
     '' [audit-summary] total='' @ dec_of_nat (ls_total s) @ '' ok='' @ dec_of_nat (ls_ok s) @
     '' fail='' @ dec_of_nat (ls_fail s) @ '' unparsed='' @ dec_of_nat (ls_unparsed s) @
     concat (map (\<lambda>e. '' '' @ op_field e) (ls_byOperation s))"

definition kCountLimit :: nat where
  "kCountLimit = (2 ^ 64 - 1 - 9) div 10"

fun scan_count :: "nat \<Rightarrow> string \<Rightarrow> nat option" where
  "scan_count v [] = Some v"
| "scan_count v (c # s) =
     (if \<not> is_digit c then Some v
      else if v > kCountLimit then None
      else scan_count (v * 10 + digit_val c) s)"

definition ExtractCount :: "string \<Rightarrow> string \<Rightarrow> nat option" where
  "ExtractCount flds key =
     (case split_sub key flds of
        None \<Rightarrow> None
      | Some (_, s) \<Rightarrow> if s = [] \<or> \<not> is_digit (hd s) then None else scan_count 0 s)"

fun parse_digits_from :: "nat \<Rightarrow> string \<Rightarrow> nat option" where
  "parse_digits_from v [] = Some v"
| "parse_digits_from v (c # s) =
     (if \<not> is_digit c then None
      else if v > kCountLimit then None
      else parse_digits_from (v * 10 + digit_val c) s)"

definition ParseDigits :: "string \<Rightarrow> nat option" where
  "ParseDigits t = (if t = [] then None else parse_digits_from 0 t)"

definition ParseOperationCount :: "string \<Rightarrow> AuditOperationCount option" where
  "ParseOperationCount token =
     (case split_first (CHR ''='') token of
        None \<Rightarrow> None
      | Some (op, v) \<Rightarrow>
          if op = [] then None
          else (case split_first (CHR ''/'') v of
                  None \<Rightarrow> None
                | Some (a, b) \<Rightarrow>
                    (case (ParseDigits a, ParseDigits b) of
                       (Some k, Some f) \<Rightarrow> Some \<lparr>oc_operationId = op, oc_ok = k, oc_fail = f\<rparr>
                     | _ \<Rightarrow> None)))"

record AuditSummaryRecord =
  sr_firstTimestamp :: string
  sr_lastTimestamp :: string
  sr_total :: nat
  sr_ok :: nat
  sr_fail :: nat
  sr_unparsed :: nat
  sr_byOperation :: "AuditOperationCount list"

text \<open>Skipping a known field: the text after the blank that ends it, nothing when there is none.\<close>

definition skip_field :: "string \<Rightarrow> string \<Rightarrow> string" where
  "skip_field rest key =
     (case split_sub key rest of
        None \<Rightarrow> []
      | Some (_, s) \<Rightarrow> (case split_first (CHR '' '') (key @ s) of None \<Rightarrow> [] | Some (_, t) \<Rightarrow> t))"

fun tokens_acc :: "string \<Rightarrow> string \<Rightarrow> string list" where
  "tokens_acc cur [] = (if cur = [] then [] else [rev cur])"
| "tokens_acc cur (c # s) =
     (if c = CHR '' '' then (if cur = [] then tokens_acc [] s else rev cur # tokens_acc [] s)
      else tokens_acc (c # cur) s)"

fun parse_op_fields :: "string list \<Rightarrow> AuditOperationCount list option" where
  "parse_op_fields [] = Some []"
| "parse_op_fields (t # ts) =
     (case ParseOperationCount t of
        None \<Rightarrow> None
      | Some e \<Rightarrow> map_option (\<lambda>es. e # es) (parse_op_fields ts))"

definition parse_range :: "string \<Rightarrow> (string \<times> string) option" where
  "parse_range rng =
     (if rng = [] then Some ([], [])
      else case split_sub ''..'' rng of
             None \<Rightarrow> None
           | Some (f, l) \<Rightarrow> if f = [] \<or> l = [] then None else Some (f, l))"

definition ParseAuditSummaryLine :: "string \<Rightarrow> AuditSummaryRecord option" where
  "ParseAuditSummaryLine line =
     (case split_sub '' [audit-summary] '' line of
        None \<Rightarrow> None
      | Some (rng, flds) \<Rightarrow>
          (case parse_range rng of
             None \<Rightarrow> None
           | Some (f, l) \<Rightarrow>
               (case (ExtractCount flds ''total='', ExtractCount flds ''ok='',
                      ExtractCount flds ''fail='', ExtractCount flds ''unparsed='') of
                  (Some t, Some k, Some b, Some u) \<Rightarrow>
                    (case parse_op_fields (tokens_acc []
                            (foldl skip_field flds [''total='', ''ok='', ''fail='', ''unparsed=''])) of
                       None \<Rightarrow> None
                     | Some ops \<Rightarrow>
                         Some \<lparr>sr_firstTimestamp = f, sr_lastTimestamp = l, sr_total = t, sr_ok = k,
                               sr_fail = b, sr_unparsed = u, sr_byOperation = ops\<rparr>)
                | _ \<Rightarrow> None)))"

record AuditCompactionTotals =
  ct_ranges :: nat
  ct_total :: nat
  ct_ok :: nat
  ct_fail :: nat
  ct_unparsed :: nat
  ct_unparsable :: nat
  ct_firstTimestamp :: string
  ct_lastTimestamp :: string

definition AuditCompactionTotals_empty :: AuditCompactionTotals where
  "AuditCompactionTotals_empty =
     \<lparr>ct_ranges = 0, ct_total = 0, ct_ok = 0, ct_fail = 0, ct_unparsed = 0, ct_unparsable = 0,
      ct_firstTimestamp = [], ct_lastTimestamp = []\<rparr>"

definition analyze_line :: "AuditCompactionTotals \<Rightarrow> string \<Rightarrow> AuditCompactionTotals" where
  "analyze_line c line =
     (case ParseAuditSummaryLine line of
        None \<Rightarrow> c\<lparr>ct_unparsable := add64 (ct_unparsable c) 1\<rparr>
      | Some r \<Rightarrow>
          c\<lparr>ct_ranges := add64 (ct_ranges c) 1,
            ct_total := add64 (ct_total c) (sr_total r),
            ct_ok := add64 (ct_ok c) (sr_ok r),
            ct_fail := add64 (ct_fail c) (sr_fail r),
            ct_unparsed := add64 (ct_unparsed c) (sr_unparsed r),
            ct_firstTimestamp := (if ct_firstTimestamp c = [] then sr_firstTimestamp r else ct_firstTimestamp c),
            ct_lastTimestamp := (if sr_lastTimestamp r \<noteq> [] then sr_lastTimestamp r else ct_lastTimestamp c)\<rparr>)"

definition AnalyzeAuditSummaryLines :: "string list \<Rightarrow> AuditCompactionTotals" where
  "AnalyzeAuditSummaryLines lines = foldl analyze_line AuditCompactionTotals_empty lines"

definition AuditSummaryPath :: "path \<Rightarrow> path" where
  "AuditSummaryPath p = path_append (parent_path p) (path_stem p @ ''-summary'' @ path_extension p)"

definition AuditPathForSummary :: "path \<Rightarrow> path" where
  "AuditPathForSummary sp =
     (let stem = path_stem sp; n = length ''-summary''
      in if length stem > n \<and> drop (length stem - n) stem = ''-summary''
         then path_append (parent_path sp) (take (length stem - n) stem @ path_extension sp)
         else [])"

section \<open>Append-only files\<close>

datatype JournalPhase = Before | After | State

definition JournalPhaseToString :: "JournalPhase \<Rightarrow> string" where
  "JournalPhaseToString ph = (case ph of Before \<Rightarrow> ''before'' | After \<Rightarrow> ''after'' | State \<Rightarrow> ''state'')"

record JournalEntry =
  je_timestamp :: string
  je_phase :: string
  je_operationId :: string
  je_ok :: bool

definition ParseJournalLine :: "string \<Rightarrow> JournalEntry option" where
  "ParseJournalLine line =
     (case split_sub '' [journal] '' line of
        None \<Rightarrow> None
      | Some (timestamp, flds) \<Rightarrow>
          (case split_first (CHR '' '') flds of
             None \<Rightarrow> None
           | Some (ph, rest) \<Rightarrow>
               (case split_first (CHR '' '') rest of
                  None \<Rightarrow> None
                | Some (op, result) \<Rightarrow>
                    if take 2 result = ''ok''
                      then Some \<lparr>je_timestamp = timestamp, je_phase = ph, je_operationId = op, je_ok = True\<rparr>
                    else if take 4 result = ''fail''
                      then Some \<lparr>je_timestamp = timestamp, je_phase = ph, je_operationId = op, je_ok = False\<rparr>
                    else None)))"

definition journal_line :: "string \<Rightarrow> JournalPhase \<Rightarrow> string \<Rightarrow> bool \<Rightarrow> string \<Rightarrow> string \<Rightarrow> string" where
  "journal_line timestamp ph operationId ok target detail =
     timestamp @ '' [journal] '' @ JournalPhaseToString ph @ '' '' @ Sanitized operationId @
     (if ok then '' ok'' else '' fail'') @ '' caller='' @ Sanitized ''cli'' @
     '' target='' @ Sanitized target @ '' detail='' @ Sanitized detail"

definition AppendJournalLine ::
  "(u32 \<Rightarrow> string) \<Rightarrow> disk_faults \<Rightarrow> string \<Rightarrow> path \<Rightarrow> JournalPhase \<Rightarrow> string \<Rightarrow> bool \<Rightarrow> string \<Rightarrow> string \<Rightarrow>
   disk \<Rightarrow> unit result \<times> disk" where
  "AppendJournalLine sysmsg io timestamp p ph operationId ok target detail d =
     (if p = [] then (Failure (Error_Validation ''AppendJournalLine'' ''path must not be empty''), d)
      else case append_text io p (journal_line timestamp ph operationId ok target detail @ [LF]) d of
             (Inl (App_mkdir c), d1) \<Rightarrow> (Failure (FromWin32 sysmsg c ''create_directories(action journal)''), d1)
           | (Inl (App_open c), d1) \<Rightarrow> (Failure (FromWin32 sysmsg c ''open action journal for append''), d1)
           | (Inl (App_flush c), d1) \<Rightarrow> (Failure (FromWin32 sysmsg c ''flush action journal''), d1)
           | (Inr _, d1) \<Rightarrow> (Success (), d1))"

definition ProbeAuditWritable ::
  "(u32 \<Rightarrow> string) \<Rightarrow> disk_faults \<Rightarrow> path \<Rightarrow> disk \<Rightarrow> unit result \<times> disk" where
  "ProbeAuditWritable sysmsg io p d =
     (if p = [] then (Failure (Error_Validation ''ProbeAuditWritable'' ''path must not be empty''), d)
      else case make_parent io p d of
             (Inl c, d1) \<Rightarrow> (Failure (FromWin32 sysmsg c ''create_directories(audit probe)''), d1)
           | (Inr _, d1) \<Rightarrow>
               (case open_write io p True d1 of
                  (Inl c, d2) \<Rightarrow> (Failure (FromWin32 sysmsg c ''open audit log for probe''), d2)
                | (Inr _, d2) \<Rightarrow> (Success (), d2)))"

definition AppendAuditLine ::
  "(u32 \<Rightarrow> string) \<Rightarrow> disk_faults \<Rightarrow> string \<Rightarrow> path \<Rightarrow> AuditRecord \<Rightarrow> disk \<Rightarrow> unit result \<times> disk" where
  "AppendAuditLine sysmsg io timestamp p r d =
     (if p = [] then (Failure (Error_Validation ''AppendAuditLine'' ''path must not be empty''), d)
      else case append_text io p (FormatAuditLineAscii timestamp r @ [LF]) d of
             (Inl (App_mkdir c), d1) \<Rightarrow> (Failure (FromWin32 sysmsg c ''create_directories(audit log)''), d1)
           | (Inl (App_open c), d1) \<Rightarrow> (Failure (FromWin32 sysmsg c ''open audit log for append''), d1)
           | (Inl (App_flush c), d1) \<Rightarrow> (Failure (FromWin32 sysmsg c ''flush audit log''), d1)
           | (Inr _, d1) \<Rightarrow> (Success (), d1))"

section \<open>The bounded log and the tail\<close>

text \<open>A deque with a capacity: append at the back, drop the front when it is too long.\<close>

definition push_ring :: "nat \<Rightarrow> 'a list \<Rightarrow> 'a \<Rightarrow> 'a list" where
  "push_ring capacity ring x =
     (let r = ring @ [x] in if length r > capacity then tl r else r)"

record AuditLogOptions =
  alo_capacity :: nat
  alo_enabled :: bool
  alo_filePath :: path

definition default_AuditLogOptions :: AuditLogOptions where
  "default_AuditLogOptions = \<lparr>alo_capacity = 128, alo_enabled = True, alo_filePath = []\<rparr>"

record AuditLog =
  al_options :: AuditLogOptions
  al_records :: "AuditRecord list"

definition AuditLog_new :: "AuditLogOptions \<Rightarrow> AuditLog" where
  "AuditLog_new options = \<lparr>al_options = options, al_records = []\<rparr>"

definition AuditLog_Append ::
  "(u32 \<Rightarrow> string) \<Rightarrow> disk_faults \<Rightarrow> string \<Rightarrow> int \<Rightarrow> AuditRecord \<Rightarrow> AuditLog \<Rightarrow> disk \<Rightarrow>
   unit result \<times> AuditLog \<times> disk" where
  "AuditLog_Append sysmsg io timestamp now r0 log d =
     (let opt = al_options log
      in if \<not> alo_enabled opt
         then (Failure (Error_Unsupported ''AuditLog::Append'' ''audit unavailable (disabled)''), log, d)
         else
           (let r = (if ar_at r0 = 0 then r0\<lparr>ar_at := now\<rparr> else r0);
                log' = log\<lparr>al_records := push_ring (alo_capacity opt) (al_records log) r\<rparr>
            in if alo_filePath opt = [] then (Success (), log', d)
               else case AppendAuditLine sysmsg io timestamp (alo_filePath opt) r d of
                      (Inl e, d1) \<Rightarrow> (Failure e, log, d1)
                    | (Inr _, d1) \<Rightarrow> (Success (), log', d1)))"

definition AuditLog_IsAvailable :: "AuditLog \<Rightarrow> bool" where
  "AuditLog_IsAvailable log = alo_enabled (al_options log)"

definition AuditLog_IsPersistent :: "AuditLog \<Rightarrow> bool" where
  "AuditLog_IsPersistent log = (alo_filePath (al_options log) \<noteq> [])"

definition AuditLog_Records :: "AuditLog \<Rightarrow> AuditRecord list" where
  "AuditLog_Records log = al_records log"

definition AuditLog_Capacity :: "AuditLog \<Rightarrow> nat" where
  "AuditLog_Capacity log = alo_capacity (al_options log)"

definition AuditLog_Size :: "AuditLog \<Rightarrow> nat" where
  "AuditLog_Size log = length (al_records log)"

record AuditTail =
  at_totalLines :: nat
  at_lines :: "string list"

definition cut_line :: "string \<Rightarrow> string" where
  "cut_line line =
     (if length line > kMaxAuditLineBytes then take kMaxAuditLineBytes line @ ''...'' else line)"

definition tail_line :: "nat \<Rightarrow> AuditTail \<Rightarrow> string \<Rightarrow> AuditTail" where
  "tail_line maxLines t line =
     (let t1 = t\<lparr>at_totalLines := add64 (at_totalLines t) 1\<rparr>
      in if maxLines = 0 then t1
         else t1\<lparr>at_lines := push_ring maxLines (at_lines t) (cut_line line)\<rparr>)"

definition ReadAuditTail ::
  "(u32 \<Rightarrow> string) \<Rightarrow> disk_faults \<Rightarrow> disk \<Rightarrow> path \<Rightarrow> nat \<Rightarrow> AuditTail result" where
  "ReadAuditTail sysmsg io d p maxLines =
     (if p = [] then Failure (Error_Validation ''ReadAuditTail'' ''path must not be empty'')
      else case path_exists io d p of
             (_, Some c) \<Rightarrow> Failure (FromWin32 sysmsg c ''exists(audit log)'')
           | (False, None) \<Rightarrow> Success \<lparr>at_totalLines = 0, at_lines = []\<rparr>
           | (True, None) \<Rightarrow>
               (case file_size io d p of
                  Inl c \<Rightarrow> Failure (FromWin32 sysmsg c ''file_size(audit log)'')
                | Inr sz \<Rightarrow>
                    if sz > kMaxAuditReadBytes
                    then Failure (Error_Validation ''ReadAuditTail'' ''audit file exceeds the tail limit (8 MiB)'')
                    else (case open_read io d p of
                            Inl c \<Rightarrow> Failure (FromWin32 sysmsg c ''open audit log for read'')
                          | Inr st \<Rightarrow>
                              (case in_bad st of
                                 Some c \<Rightarrow> Failure (FromWin32 sysmsg c ''read audit log'')
                               | None \<Rightarrow>
                                   Success (foldl (tail_line maxLines)
                                     \<lparr>at_totalLines = 0, at_lines = []\<rparr> (in_lines st))))))"

section \<open>Line format\<close>

lemma Sanitized_no_LF: "LF \<notin> set (Sanitized s)"
  by (auto simp: Sanitized_def split: if_splits)

lemma RiskLevelToString_chars: "set (RiskLevelToString l) \<inter> {LF, CHR '' '', CHR ''[''} = {}"
  by (cases l) (simp_all add: RiskLevelToString_def)

lemma FormatAuditLineAscii_no_LF: "LF \<notin> set ts \<Longrightarrow> LF \<notin> set (FormatAuditLineAscii ts r)"
  using Sanitized_no_LF RiskLevelToString_chars [of "ar_risk r"]
  by (auto simp: FormatAuditLineAscii_def split: if_splits)

lemma journal_line_no_LF: "LF \<notin> set ts \<Longrightarrow> LF \<notin> set (journal_line ts ph op ok target detail)"
  using Sanitized_no_LF
  by (auto simp: journal_line_def JournalPhaseToString_def split: JournalPhase.splits if_splits)

text \<open>An identifier the line format carries unchanged: printable, without blanks, not empty.\<close>

definition id_ok :: "string \<Rightarrow> bool" where
  "id_ok op \<longleftrightarrow> op \<noteq> [] \<and> (\<forall>c \<in> set op. (of_char c :: nat) > 0x20 \<and> (of_char c :: nat) \<noteq> 0x7F)"

definition stamp_ok :: "string \<Rightarrow> bool" where
  "stamp_ok ts \<longleftrightarrow> ts \<noteq> [] \<and> CHR ''['' \<notin> set ts \<and> CHR ''.'' \<notin> set ts \<and> LF \<notin> set ts"

lemma id_ok_no_blank: "id_ok op \<Longrightarrow> CHR '' '' \<notin> set op"
  by (auto simp: id_ok_def)

lemma Sanitized_id: "id_ok op \<Longrightarrow> Sanitized op = op"
  unfolding Sanitized_def id_ok_def by (rule map_idI) auto

lemma split_audit_marker:
  "CHR ''['' \<notin> set ts \<Longrightarrow> split_sub '' [audit] '' (ts @ '' [audit] '' @ rest) = Some (ts, rest)"
  by (rule split_sub_mark [of _ "'' ''" "CHR ''[''" "''audit] ''"]) simp_all

lemma split_journal_marker:
  "CHR ''['' \<notin> set ts \<Longrightarrow> split_sub '' [journal] '' (ts @ '' [journal] '' @ rest) = Some (ts, rest)"
  by (rule split_sub_mark [of _ "'' ''" "CHR ''[''" "''journal] ''"]) simp_all

text \<open>The prefix parser finds the fields of every line the formatter writes.\<close>

lemma ParseAuditLinePrefix_FormatAuditLineAscii:
  assumes "stamp_ok ts" and "id_ok (ar_operationId r)"
  shows "ParseAuditLinePrefix (FormatAuditLineAscii ts r) =
    Some \<lparr>lp_timestamp = ts, lp_operationId = ar_operationId r, lp_ok = ar_ok r\<rparr>"
proof -
  define res where "res = (if ar_ok r then ''ok'' else ''fail'')"
  define rest where "rest = ''caller='' @ Sanitized (ar_caller r) @ '' target='' @ Sanitized (ar_target r) @
    '' detail='' @ Sanitized (ar_detail r)"
  have line: "FormatAuditLineAscii ts r = ts @ '' [audit] '' @ RiskLevelToString (ar_risk r) @
      CHR '' '' # ar_operationId r @ CHR '' '' # res @ CHR '' '' # rest"
    by (simp add: FormatAuditLineAscii_def res_def rest_def Sanitized_id [OF assms(2)])
  have "takeWhile (\<lambda>c. c \<noteq> CHR '' '') (res @ CHR '' '' # rest) = res"
    by (simp add: res_def)
  moreover have "CHR '' '' \<notin> set (RiskLevelToString (ar_risk r))"
    using RiskLevelToString_chars [of "ar_risk r"] by auto
  ultimately show ?thesis
    using assms id_ok_no_blank [OF assms(2)]
    by (simp add: line ParseAuditLinePrefix_def split_audit_marker [simplified] split_first_append stamp_ok_def
        id_ok_def res_def Let_def del: takeWhile.simps)
qed

lemma ParseJournalLine_journal_line:
  assumes "CHR ''['' \<notin> set ts" and "id_ok op"
  shows "ParseJournalLine (journal_line ts ph op ok target detail) =
    Some \<lparr>je_timestamp = ts, je_phase = JournalPhaseToString ph, je_operationId = op, je_ok = ok\<rparr>"
proof -
  define rest where "rest = (if ok then ''ok'' else ''fail'') @ '' caller='' @ Sanitized ''cli'' @
    '' target='' @ Sanitized target @ '' detail='' @ Sanitized detail"
  have line: "journal_line ts ph op ok target detail = ts @ '' [journal] '' @ JournalPhaseToString ph @
      CHR '' '' # op @ CHR '' '' # rest"
    by (simp add: journal_line_def rest_def Sanitized_id [OF assms(2)])
  have "CHR '' '' \<notin> set (JournalPhaseToString ph)"
    by (cases ph) (simp_all add: JournalPhaseToString_def)
  then show ?thesis
    using assms id_ok_no_blank [OF assms(2)]
    by (simp add: line ParseJournalLine_def split_journal_marker [simplified] split_first_append)
      (simp add: rest_def)
qed

section \<open>The append-only files\<close>

interpretation audit_file: line_log "\<lambda>io p r d. AppendAuditLine sysmsg io ts p r d" "FormatAuditLineAscii ts"
  for sysmsg ts
proof (unfold_locales, goal_cases)
  case (1 io p r d u d')
  then show ?case
    by (auto simp: AppendAuditLine_def split: if_splits prod.splits sum.splits append_fault.splits
        elim!: append_text_cases)
next
  case (2 io p r d e d')
  then show ?case
    by (auto simp: AppendAuditLine_def split: if_splits prod.splits sum.splits append_fault.splits
        elim!: append_text_cases)
qed

interpretation journal_file: line_log
  "\<lambda>io p (ph, op, ok, target, detail) d. AppendJournalLine sysmsg io ts p ph op ok target detail d"
  "\<lambda>(ph, op, ok, target, detail). journal_line ts ph op ok target detail"
  for sysmsg ts
proof (unfold_locales, goal_cases)
  case (1 io p x d u d')
  then show ?case
    by (cases x) (auto simp: AppendJournalLine_def split: if_splits prod.splits sum.splits append_fault.splits
        elim!: append_text_cases)
next
  case (2 io p x d e d')
  then show ?case
    by (cases x) (auto simp: AppendJournalLine_def split: if_splits prod.splits sum.splits append_fault.splits
        elim!: append_text_cases)
qed

text \<open>
  The audit file is an append-only log of parseable records.  A successful append puts
  exactly one line after the lines that are there, and the line parses back to the time stamp,
  the operation and the outcome of the record; a failed append leaves the old content in place,
  with at most a part of the new line after it.  No other file changes.\<close>
theorem AppendAuditLine_adds_one_record:
  assumes run: "AppendAuditLine sysmsg io ts p r d = (res, d')"
    and log: "content d p = unlines ls" "\<forall>l \<in> set ls. LF \<notin> set l"
    and fmt: "stamp_ok ts" "id_ok (ar_operationId r)"
  shows "(HasValue res \<longrightarrow>
      (\<exists>line. getlines (content d' p) = getlines (content d p) @ [line] \<and>
        ParseAuditLinePrefix line =
          Some \<lparr>lp_timestamp = ts, lp_operationId = ar_operationId r, lp_ok = ar_ok r\<rparr>)) \<and>
    (\<exists>n. content d' p = content d p @ take n (FormatAuditLineAscii ts r @ [LF])) \<and>
    (\<forall>q. q \<noteq> p \<longrightarrow> files d' q = files d q)"
proof -
  have nl: "LF \<notin> set (FormatAuditLineAscii ts r)"
    using fmt(1) FormatAuditLineAscii_no_LF by (simp add: stamp_ok_def)
  have "\<exists>n. content d' p = content d p @ take n (FormatAuditLineAscii ts r @ [LF])"
  proof (cases res)
    case (Inl e)
    then have "files d' = files d \<or>
      (\<exists>n. files d' = (files d)(p \<mapsto> content d p @ take n (FormatAuditLineAscii ts r @ [LF])))"
      using audit_file.append_fail run by blast
    then show ?thesis
    proof
      assume "files d' = files d"
      then have "content d' p = content d p @ take 0 (FormatAuditLineAscii ts r @ [LF])"
        by (simp add: content_def)
      then show ?thesis by blast
    qed (auto simp: content_Some)
  next
    case (Inr u)
    then have "content d' p =
        content d p @ take (Suc (length (FormatAuditLineAscii ts r))) (FormatAuditLineAscii ts r @ [LF])"
      using audit_file.append_ok run by (simp add: content_Some)
    then show ?thesis by blast
  qed
  moreover have "\<exists>line. getlines (content d' p) = getlines (content d p) @ [line] \<and>
        ParseAuditLinePrefix line =
          Some \<lparr>lp_timestamp = ts, lp_operationId = ar_operationId r, lp_ok = ar_ok r\<rparr>" if "HasValue res"
  proof -
    from that obtain u where "res = Success u" by (cases res) auto
    with run audit_file.append_line [OF _ log nl] ParseAuditLinePrefix_FormatAuditLineAscii [OF fmt]
    show ?thesis by blast
  qed
  ultimately show ?thesis using audit_file.append_frame run by blast
qed

theorem AppendAuditLine_adds_one_record_witness:
  "\<exists>line. getlines (content (snd (AppendAuditLine (\<lambda>_. []) no_faults ''2024-01-01 00:00:00'' ''a.log''
      \<lparr>ar_operationId = ''priority.boost'', ar_risk = R1, ar_caller = ''policy'', ar_target = ''g'',
       ar_detail = ''x'', ar_ok = False, ar_at = 0\<rparr> empty_disk)) ''a.log'') = [line] \<and>
    ParseAuditLinePrefix line = Some \<lparr>lp_timestamp = ''2024-01-01 00:00:00'',
      lp_operationId = ''priority.boost'', lp_ok = False\<rparr>"
proof -
  let ?r = "\<lparr>ar_operationId = ''priority.boost'', ar_risk = R1, ar_caller = ''policy'', ar_target = ''g'',
       ar_detail = ''x'', ar_ok = False, ar_at = 0\<rparr>"
  let ?run = "AppendAuditLine (\<lambda>_. []) no_faults ''2024-01-01 00:00:00'' ''a.log'' ?r empty_disk"
  have "fst ?run = Success ()"
    by (simp add: AppendAuditLine_def append_text_def make_parent_def parent_path_def root_path_len_def
        root_name_len_def has_drive_def is_slash_def open_write_def write_flush_def empty_disk_def Let_def)
  then have "?run = (Success (), snd ?run)" by (metis prod.collapse)
  from AppendAuditLine_adds_one_record [OF this, of "[]"] show ?thesis
    by (simp add: content_def empty_disk_def stamp_ok_def id_ok_def getlines_def)
qed

section \<open>The bounded log and the tail are windows on the newest entries\<close>

definition newest :: "nat \<Rightarrow> 'a list \<Rightarrow> 'a list" where
  "newest n xs = drop (length xs - n) xs"

lemma length_newest: "length (newest n xs) = min n (length xs)"
  by (simp add: newest_def)

lemma push_ring_newest: "length ring \<le> n \<Longrightarrow> push_ring n ring x = newest n (ring @ [x])"
  by (cases ring) (auto simp: push_ring_def newest_def Let_def not_less Suc_diff_le)

lemma newest_newest: "newest n (newest n xs @ ys) = newest n (xs @ ys)"
  by (cases "n \<le> length xs") (simp_all add: newest_def add.commute)

lemma foldl_push_ring: "foldl (push_ring n) (newest n xs) ys = newest n (xs @ ys)"
proof (induction ys arbitrary: xs)
  case (Cons y ys)
  have "push_ring n (newest n xs) y = newest n (xs @ [y])"
    by (simp add: push_ring_newest length_newest newest_newest)
  with Cons.IH [of "xs @ [y]"] show ?case by simp
qed simp

lemma add64_small: "a + b < 2 ^ 64 \<Longrightarrow> add64 a b = a + b"
  by (simp add: add64_def)

lemma length_getlines_acc: "length (getlines_acc cur s) \<le> length s + (if cur = [] then 0 else 1)"
  by (induction cur s rule: getlines_acc.induct) auto

lemma length_getlines: "length (getlines s) \<le> length s"
  using length_getlines_acc [of "[]" s] by (simp add: getlines_def)

text \<open>A sequence of calls, each with its own faults, time stamp and clock reading.\<close>

fun audit_runs ::
  "(u32 \<Rightarrow> string) \<Rightarrow> (disk_faults \<times> string \<times> int \<times> AuditRecord) list \<Rightarrow> AuditLog \<Rightarrow> disk \<Rightarrow>
   AuditLog \<times> disk \<times> (string \<times> AuditRecord) list" where
  "audit_runs sysmsg [] log d = (log, d, [])"
| "audit_runs sysmsg ((io, ts, now, r) # cs) log d =
     (case AuditLog_Append sysmsg io ts now r log d of
        (res, log1, d1) \<Rightarrow>
          (case audit_runs sysmsg cs log1 d1 of
             (log2, d2, acc) \<Rightarrow>
               (log2, d2,
                if HasValue res then (ts, if ar_at r = 0 then r\<lparr>ar_at := now\<rparr> else r) # acc else acc)))"

lemma AuditLog_Append_cases:
  assumes "AuditLog_Append sysmsg io ts now r log d = (res, log', d')"
  obtains (refused) e where "res = Failure e" "log' = log"
      "alo_enabled (al_options log) \<Longrightarrow> alo_filePath (al_options log) \<noteq> [] \<and>
       AppendAuditLine sysmsg io ts (alo_filePath (al_options log)) (if ar_at r = 0 then r\<lparr>ar_at := now\<rparr> else r) d =
         (Failure e, d')"
      "\<not> alo_enabled (al_options log) \<Longrightarrow> d' = d"
  | (accepted) "res = Success ()" "alo_enabled (al_options log)"
      "log' = log\<lparr>al_records := push_ring (alo_capacity (al_options log)) (al_records log)
         (if ar_at r = 0 then r\<lparr>ar_at := now\<rparr> else r)\<rparr>"
      "alo_filePath (al_options log) = [] \<Longrightarrow> d' = d"
      "alo_filePath (al_options log) \<noteq> [] \<Longrightarrow>
       AppendAuditLine sysmsg io ts (alo_filePath (al_options log)) (if ar_at r = 0 then r\<lparr>ar_at := now\<rparr> else r) d =
         (Success (), d')"
  using assms by (auto simp: AuditLog_Append_def Let_def split: if_splits prod.splits sum.splits)

lemma audit_runs_records:
  assumes "audit_runs sysmsg cs log d = (log', d', acc)"
    and "al_records log = newest (alo_capacity (al_options log)) hist"
  shows "al_options log' = al_options log \<and>
    al_records log' = newest (alo_capacity (al_options log)) (hist @ map snd acc) \<and>
    (alo_enabled (al_options log) \<or> acc = [] \<and> d' = d)"
  using assms
proof (induction sysmsg cs log d arbitrary: hist log' d' acc rule: audit_runs.induct)
  case (2 sysmsg io ts now r cs log d)
  obtain res log1 d1 where a: "AuditLog_Append sysmsg io ts now r log d = (res, log1, d1)"
    using prod_cases3 by blast
  obtain acc' where rest: "audit_runs sysmsg cs log1 d1 = (log', d', acc')"
    and acc: "acc = (if HasValue res then (ts, if ar_at r = 0 then r\<lparr>ar_at := now\<rparr> else r) # acc' else acc')"
    using 2(2) a by (auto split: prod.splits)
  note IH = 2(1) [OF a [symmetric] refl rest]
  show ?case
    using a
  proof (cases rule: AuditLog_Append_cases)
    case (refused e)
    with IH [of hist] 2(3) acc show ?thesis by auto
  next
    case accepted
    let ?h = "hist @ [if ar_at r = 0 then r\<lparr>ar_at := now\<rparr> else r]"
    have "al_records log1 = newest (alo_capacity (al_options log1)) ?h"
      using accepted(3) 2(3) by (simp add: push_ring_newest length_newest newest_newest)
    from IH [OF this] accepted acc show ?thesis by auto
  qed
qed simp

lemma audit_runs_append_only:
  assumes "audit_runs sysmsg cs log d = (log', d', acc)"
  shows "\<exists>t. content d' (alo_filePath (al_options log)) = content d (alo_filePath (al_options log)) @ t"
  using assms
proof (induction sysmsg cs log d arbitrary: log' d' acc rule: audit_runs.induct)
  case (2 sysmsg io ts now r cs log d)
  obtain res log1 d1 where a: "AuditLog_Append sysmsg io ts now r log d = (res, log1, d1)"
    using prod_cases3 by blast
  obtain acc' where rest: "audit_runs sysmsg cs log1 d1 = (log', d', acc')"
    using 2(2) a by (auto split: prod.splits)
  have "al_options log1 = al_options log" using a by (cases rule: AuditLog_Append_cases) auto
  with 2(1) [OF a [symmetric] refl rest] obtain t where
    t: "content d' (alo_filePath (al_options log)) = content d1 (alo_filePath (al_options log)) @ t" by auto
  have "\<exists>u. content d1 (alo_filePath (al_options log)) = content d (alo_filePath (al_options log)) @ u"
    using a
  proof (cases rule: AuditLog_Append_cases)
    case (refused e)
    then show ?thesis
      by (cases "alo_enabled (al_options log)") (auto dest: audit_file.append_only)
  next
    case accepted
    then show ?thesis
      by (cases "alo_filePath (al_options log) = []") (auto dest: audit_file.append_only)
  qed
  with t show ?case by auto
qed simp

lemma audit_runs_persisted:
  assumes "audit_runs sysmsg cs log d = (log', d', acc)" and "alo_filePath (al_options log) \<noteq> []"
    and "(ts, r) \<in> set acc"
  shows "\<exists>pre post. content d' (alo_filePath (al_options log)) = pre @ FormatAuditLineAscii ts r @ LF # post"
  using assms
proof (induction sysmsg cs log d arbitrary: log' d' acc rule: audit_runs.induct)
  case (2 sysmsg io t0 now r0 cs log d)
  let ?r = "if ar_at r0 = 0 then r0\<lparr>ar_at := now\<rparr> else r0"
  let ?f = "alo_filePath (al_options log)"
  obtain res log1 d1 where a: "AuditLog_Append sysmsg io t0 now r0 log d = (res, log1, d1)"
    using prod_cases3 by blast
  obtain acc' where rest: "audit_runs sysmsg cs log1 d1 = (log', d', acc')"
    and acc: "acc = (if HasValue res then (t0, ?r) # acc' else acc')"
    using 2(2) a by (auto split: prod.splits)
  have opt: "al_options log1 = al_options log" using a by (cases rule: AuditLog_Append_cases) auto
  note IH = 2(1) [OF a [symmetric] refl rest]
  show ?case
  proof (cases "(ts, r) \<in> set acc'")
    case True
    with IH opt 2(3) show ?thesis by auto
  next
    case False
    with acc 2(4) have new: "HasValue res" "ts = t0" "r = ?r" by (auto split: if_splits)
    from a new(1) 2(3) have "AppendAuditLine sysmsg io t0 ?f ?r d = (Success (), d1)"
      by (cases rule: AuditLog_Append_cases) auto
    then have "content d1 ?f = content d ?f @ FormatAuditLineAscii ts r @ [LF]"
      using audit_file.append_ok new(2,3) by (simp add: content_Some)
    with audit_runs_append_only [OF rest] opt show ?thesis by auto
  qed
qed simp

text \<open>
  C29: The process-wide audit log, over every sequence of appends with arbitrary faults: it holds
  exactly the newest accepted records, at most its capacity, in order; when it is disabled nothing
  is accepted and nothing is written; and in persistent mode every accepted record is in the file
  as a complete line, so success means persisted.\<close>
theorem AuditLog_window_and_persistence:
  assumes "audit_runs sysmsg cs (AuditLog_new options) d = (log, d', acc)"
  shows "AuditLog_Records log = newest (AuditLog_Capacity log) (map snd acc) \<and>
    AuditLog_Size log \<le> alo_capacity options \<and>
    (\<not> AuditLog_IsAvailable log \<longrightarrow> acc = [] \<and> d' = d) \<and>
    (AuditLog_IsPersistent log \<longrightarrow> (\<forall>(ts, r) \<in> set acc. \<exists>pre post.
       content d' (alo_filePath options) = pre @ FormatAuditLineAscii ts r @ LF # post))"
proof -
  have new: "al_options (AuditLog_new options) = options" "al_records (AuditLog_new options) = []"
    by (simp_all add: AuditLog_new_def)
  from audit_runs_records [OF assms, of "[]"] new
  have r: "al_options log = options" "al_records log = newest (alo_capacity options) (map snd acc)"
    "alo_enabled options \<or> acc = [] \<and> d' = d"
    by (simp_all add: newest_def)
  moreover have "\<forall>(ts, r) \<in> set acc. \<exists>pre post.
       content d' (alo_filePath options) = pre @ FormatAuditLineAscii ts r @ LF # post"
    if "alo_filePath options \<noteq> []"
    using audit_runs_persisted [OF assms] that new by auto
  ultimately show ?thesis
    by (auto simp: AuditLog_Records_def AuditLog_Capacity_def AuditLog_Size_def AuditLog_IsAvailable_def
        AuditLog_IsPersistent_def length_newest)
qed

theorem AuditLog_window_and_persistence_witness:
  "let r = \<lparr>ar_operationId = ''a'', ar_risk = R1, ar_caller = ''c'', ar_target = ''t'', ar_detail = [],
              ar_ok = True, ar_at = 7\<rparr>
   in AuditLog_Records (fst (audit_runs (\<lambda>_. []) [(no_faults, ''x'', 1, r), (no_faults, ''y'', 2, r\<lparr>ar_at := 0\<rparr>)]
        (AuditLog_new \<lparr>alo_capacity = 1, alo_enabled = True, alo_filePath = []\<rparr>) empty_disk)) =
      newest 1 [r, r\<lparr>ar_at := 2\<rparr>]"
proof -
  let ?r = "\<lparr>ar_operationId = ''a'', ar_risk = R1, ar_caller = ''c'', ar_target = ''t'', ar_detail = [],
              ar_ok = True, ar_at = (7::int)\<rparr>"
  let ?o = "\<lparr>alo_capacity = 1, alo_enabled = True, alo_filePath = []\<rparr>"
  let ?run = "audit_runs (\<lambda>_. []) [(no_faults, ''x'', 1, ?r), (no_faults, ''y'', 2, ?r\<lparr>ar_at := 0\<rparr>)]
        (AuditLog_new ?o) empty_disk"
  have acc: "snd (snd ?run) = [(''x'', ?r), (''y'', ?r\<lparr>ar_at := 2\<rparr>)]"
    and cap: "AuditLog_Capacity (fst ?run) = 1"
    by (simp_all add: AuditLog_Append_def AuditLog_new_def AuditLog_Capacity_def Let_def)
  have "?run = (fst ?run, fst (snd ?run), snd (snd ?run))" by simp
  from AuditLog_window_and_persistence [OF this] have "AuditLog_Records (fst ?run) =
      newest 1 (map snd [(''x'', ?r), (''y'', ?r\<lparr>ar_at := 2\<rparr>)])"
    unfolding acc cap by (rule conjunct1)
  then show ?thesis by (simp only: Let_def list.map snd_conv)
qed

text \<open>The reader of the tail: its two outputs over a list of lines.\<close>

lemma foldl_tail_line:
  assumes "k + length ls < 2 ^ 64"
  shows "foldl (tail_line n) \<lparr>at_totalLines = k, at_lines = newest n (map cut_line ks)\<rparr> ls =
    \<lparr>at_totalLines = k + length ls, at_lines = newest n (map cut_line (ks @ ls))\<rparr>"
  using assms
proof (induction ls arbitrary: k ks)
  case (Cons l ls)
  have "tail_line n \<lparr>at_totalLines = k, at_lines = newest n (map cut_line ks)\<rparr> l =
      \<lparr>at_totalLines = k + 1, at_lines = newest n (map cut_line (ks @ [l]))\<rparr>"
    using Cons.prems
    by (auto simp: tail_line_def Let_def add64_small push_ring_newest length_newest newest_newest)
      (simp add: newest_def)
  with Cons.IH [of "k + 1" "ks @ [l]"] Cons.prems show ?case by simp
qed simp

lemma length_cut_line: "length (cut_line l) \<le> kMaxAuditLineBytes + 3"
  by (simp add: cut_line_def)

text \<open>
  Reading the tail of the audit file succeeds only on a missing file, with no lines, or on a
  file within the size limit that was read to its end; then the count is the number of lines in
  the file and the lines returned are the newest ones, oldest first, each cut to the line limit.\<close>
theorem ReadAuditTail_exact:
  assumes "ReadAuditTail sysmsg io d p n = Success t"
  shows "files d p = None \<and> t = \<lparr>at_totalLines = 0, at_lines = []\<rparr> \<or>
    (\<exists>s. files d p = Some s \<and> length s \<le> kMaxAuditReadBytes \<and> at_totalLines t = length (getlines s) \<and>
       at_lines t = newest n (map cut_line (getlines s)) \<and>
       (\<forall>l \<in> set (at_lines t). length l \<le> kMaxAuditLineBytes + 3))"
proof (cases "files d p")
  case None
  with assms show ?thesis
    by (auto simp: ReadAuditTail_def path_exists_def open_read_def
        split: if_splits option.splits sum.splits bool.splits)
next
  case (Some s)
  with assms obtain st where sz: "length s \<le> kMaxAuditReadBytes" and o: "open_read io d p = Inr st"
    and b: "in_bad st = None"
    and t: "t = foldl (tail_line n) \<lparr>at_totalLines = 0, at_lines = []\<rparr> (in_lines st)"
    by (auto simp: ReadAuditTail_def path_exists_def file_size_def
        split: if_splits option.splits sum.splits bool.splits)
  from o b Some have st: "in_lines st = getlines s"
    by (auto simp: open_read_def split: option.splits)
  have "length (getlines s) < 2 ^ 64"
    using length_getlines [of s] sz by (simp add: kMaxAuditReadBytes_def)
  with foldl_tail_line [of 0 "getlines s" n "[]"] t st
  have "t = \<lparr>at_totalLines = length (getlines s), at_lines = newest n (map cut_line (getlines s))\<rparr>"
    by (simp add: newest_def)
  moreover have "\<forall>l \<in> set (newest n (map cut_line (getlines s))). length l \<le> kMaxAuditLineBytes + 3"
    using length_cut_line by (auto simp: newest_def dest!: in_set_dropD)
  ultimately show ?thesis using Some sz by simp
qed

theorem ReadAuditTail_exact_witness:
  "case ReadAuditTail (\<lambda>_. []) no_faults (set_file ''a'' (unlines [''x'', ''y'', ''z'']) empty_disk) ''a'' 2 of
     Inl _ \<Rightarrow> False
   | Inr t \<Rightarrow> at_totalLines t = 3 \<and> at_lines t = newest 2 [''x'', ''y'', ''z'']"
proof -
  let ?d = "set_file ''a'' (unlines [''x'', ''y'', ''z'']) empty_disk"
  obtain t where t: "ReadAuditTail (\<lambda>_. []) no_faults ?d ''a'' 2 = Success t"
    by (simp add: ReadAuditTail_def path_exists_def file_size_def kMaxAuditReadBytes_def open_read_def)
  from ReadAuditTail_exact [OF t] t show ?thesis
    by (simp add: getlines_def cut_line_def kMaxAuditLineBytes_def)
qed

end
