(* ===== verification/Audit_Compaction.thy ===== *)
theory Audit_Compaction
  imports Audit_Log
begin

text \<open>
  The first level of semantic compression of the audit trail (\<open>CompactAuditFile\<close> of
  \<^verbatim>\<open>source/audit/audit_log.cpp\<close>) on the disk with its injected faults: summary lines read
  back, what a successful run keeps, what a failed run leaves behind.
\<close>

section \<open>Compressing the audit file\<close>

record CompactResult =
  cr_compacted :: bool
  cr_beforeLines :: nat
  cr_afterLines :: nat
  cr_summarizedLines :: nat
  cr_unparsedKept :: nat
  cr_summaryPath :: path

definition CompactResult_empty :: CompactResult where
  "CompactResult_empty =
     \<lparr>cr_compacted = False, cr_beforeLines = 0, cr_afterLines = 0, cr_summarizedLines = 0,
      cr_unparsedKept = 0, cr_summaryPath = []\<rparr>"

definition compact_head :: "CompactOptions \<Rightarrow> string list \<Rightarrow> string list" where
  "compact_head options lines =
     take (length lines - min (co_keepTailLines options) (length lines)) lines"

definition compact_retained :: "CompactOptions \<Rightarrow> string list \<Rightarrow> string list" where
  "compact_retained options lines =
     filter (\<lambda>l. ParseAuditLinePrefix l = None) (compact_head options lines) @
     drop (length lines - min (co_keepTailLines options) (length lines)) lines"

definition compact_record ::
  "path \<Rightarrow> CompactOptions \<Rightarrow> nat \<Rightarrow> nat \<Rightarrow> AuditLineSummary \<Rightarrow> AuditRecord" where
  "compact_record p options before kept summary =
     \<lparr>ar_operationId = ''audit.compact'', ar_risk = R0, ar_caller = ''audit'',
      ar_target = path_stem p @ path_extension p,
      ar_detail = ''before='' @ dec_of_nat before @ '' after='' @ dec_of_nat (kept + 1) @
        '' summarized='' @ dec_of_nat (ls_total summary) @ '' unparsed='' @ dec_of_nat (ls_unparsed summary) @
        '' threshold_bytes='' @ dec_of_nat (co_maxBytes options) @
        '' threshold_lines='' @ dec_of_nat (co_maxLines options),
      ar_ok = True, ar_at = 0\<rparr>"

text \<open>
  The three writes: temporary file, summary line, replacement.  The size of the summary file
  for the roll-back is 0 when it cannot be determined.
\<close>

definition summary_size :: "disk_faults \<Rightarrow> disk \<Rightarrow> path \<Rightarrow> nat" where
  "summary_size io d sp =
     (if fst (path_exists io d sp) then (case file_size io d sp of Inl _ \<Rightarrow> 0 | Inr n \<Rightarrow> n) else 0)"

definition compact_append ::
  "(u32 \<Rightarrow> string) \<Rightarrow> disk_faults \<Rightarrow> path \<Rightarrow> string \<Rightarrow> disk \<Rightarrow> unit result \<times> disk" where
  "compact_append sysmsg io p text d =
     (let sp = AuditSummaryPath p; t = temp_path p
      in case (if parent_path p \<noteq> [] then create_directories io (parent_path sp) d else (Inr (), d)) of
           (Inl c, d1) \<Rightarrow>
             (Failure (FromWin32 sysmsg c ''create_directories(audit summary)''), snd (remove_file io t d1))
         | (Inr _, d1) \<Rightarrow>
             (case open_write io sp True d1 of
                (Inl c, d2) \<Rightarrow>
                  (case remove_file io t d2 of
                     (Inl rc, d3) \<Rightarrow> (Failure (FromWin32 sysmsg rc ''open audit summary for append''), d3)
                   | (Inr _, d3) \<Rightarrow> (Failure (FromWin32 sysmsg c ''open audit summary for append''), d3))
              | (Inr _, d2) \<Rightarrow>
                  (case write_flush io sp text d2 of
                     (Inl c, d3) \<Rightarrow>
                       (Failure (FromWin32 sysmsg c ''append audit summary''), snd (remove_file io t d3))
                   | (Inr _, d3) \<Rightarrow> (Success (), d3))))"

definition compact_write ::
  "(u32 \<Rightarrow> string) \<Rightarrow> disk_faults \<Rightarrow> path \<Rightarrow> string list \<Rightarrow> string \<Rightarrow> disk \<Rightarrow> unit result \<times> disk" where
  "compact_write sysmsg io p retained summaryLine d =
     (let sp = AuditSummaryPath p; t = temp_path p
      in case open_write io t False d of
           (Inl c, d1) \<Rightarrow> (Failure (FromWin32 sysmsg c ''create audit temp file''), d1)
         | (Inr _, d1) \<Rightarrow>
             (case write_flush io t (unlines retained) d1 of
                (Inl c, d2) \<Rightarrow>
                  (Failure (FromWin32 sysmsg c ''write audit temp file''), snd (remove_file io t d2))
              | (Inr _, d2) \<Rightarrow>
                  (let summaryBeforeBytes = summary_size io d2 sp
                   in case compact_append sysmsg io p (summaryLine @ [LF]) d2 of
                        (Inl e, d3) \<Rightarrow> (Failure e, d3)
                      | (Inr _, d3) \<Rightarrow>
                          (case move_replace io t p d3 of
                             (Inl c, d4) \<Rightarrow>
                               (Failure (FromWin32 sysmsg c ''MoveFileExW(audit compact)''),
                                snd (resize_file io sp summaryBeforeBytes (snd (remove_file io t d4))))
                           | (Inr _, d4) \<Rightarrow> (Success (), d4)))))"

definition compact_lines ::
  "(u32 \<Rightarrow> string) \<Rightarrow> disk_faults \<Rightarrow> string \<Rightarrow> path \<Rightarrow> CompactOptions \<Rightarrow> nat \<Rightarrow> string list \<Rightarrow> disk \<Rightarrow>
   CompactResult result \<times> disk" where
  "compact_lines sysmsg io timestamp p options sz lines d =
     (let result = CompactResult_empty\<lparr>cr_beforeLines := length lines, cr_afterLines := length lines\<rparr>
      in if \<not> ShouldCompactAuditFile sz (length lines) options then (Success result, d)
         else
           (let summary = SummarizeAuditLines (compact_head options lines);
                kept = compact_retained options lines
            in if kept = lines then (Success (result\<lparr>cr_unparsedKept := ls_unparsed summary\<rparr>), d)
               else
                 (let retained = kept @ [FormatAuditLineAscii timestamp
                        (compact_record p options (length lines) (length kept) summary)]
                  in case compact_write sysmsg io p retained (FormatAuditSummaryLine summary) d of
                       (Inl e, d1) \<Rightarrow> (Failure e, d1)
                     | (Inr _, d1) \<Rightarrow>
                         (Success \<lparr>cr_compacted = True, cr_beforeLines = length lines,
                            cr_afterLines = length retained, cr_summarizedLines = ls_total summary,
                            cr_unparsedKept = ls_unparsed summary,
                            cr_summaryPath = AuditSummaryPath p\<rparr>, d1))))"

definition CompactAuditFile ::
  "(u32 \<Rightarrow> string) \<Rightarrow> disk_faults \<Rightarrow> string \<Rightarrow> path \<Rightarrow> CompactOptions \<Rightarrow> disk \<Rightarrow> CompactResult result \<times> disk" where
  "CompactAuditFile sysmsg io timestamp p options d =
     (if p = [] then (Failure (Error_Validation ''CompactAuditFile'' ''path must not be empty''), d)
      else case path_exists io d p of
             (_, Some c) \<Rightarrow> (Failure (FromWin32 sysmsg c ''exists(audit log)''), d)
           | (False, None) \<Rightarrow> (Success CompactResult_empty, d)
           | (True, None) \<Rightarrow>
               (case file_size io d p of
                  Inl c \<Rightarrow> (Failure (FromWin32 sysmsg c ''file_size(audit log)''), d)
                | Inr sz \<Rightarrow>
                    if sz > kMaxAuditReadBytes
                    then (Failure (Error_Validation ''CompactAuditFile''
                            ''audit file exceeds the compaction limit (8 MiB)''), d)
                    else (case open_read io d p of
                            Inl c \<Rightarrow> (Failure (FromWin32 sysmsg c ''open audit log for compact''), d)
                          | Inr st \<Rightarrow>
                              (case in_bad st of
                                 Some c \<Rightarrow> (Failure (FromWin32 sysmsg c ''read audit log for compact''), d)
                               | None \<Rightarrow> compact_lines sysmsg io timestamp p options sz (in_lines st) d))))"

section \<open>Summary lines read back\<close>

text \<open>The largest counts the parser accepts: its overflow guard is a little early.\<close>

definition count_ok :: "nat \<Rightarrow> bool" where
  "count_ok n \<longleftrightarrow> n div 10 \<le> kCountLimit"

lemma count_ok_step: "count_ok (dec_val (v * 10 + digit_val c) ds) \<Longrightarrow> is_digit c \<Longrightarrow> v \<le> kCountLimit"
  using dec_val_ge [of "v * 10 + digit_val c" ds] digit_val_less [of c] by (simp add: count_ok_def)

lemma scan_count_digits:
  assumes "\<forall>c \<in> set ds. is_digit c" and "count_ok (dec_val v ds)" and "rest = [] \<or> \<not> is_digit (hd rest)"
  shows "scan_count v (ds @ rest) = Some (dec_val v ds)"
  using assms
proof (induction ds arbitrary: v)
  case Nil
  then show ?case by (cases rest) auto
next
  case (Cons c ds)
  then have "v \<le> kCountLimit" using count_ok_step by simp
  with Cons show ?case by simp
qed

lemma parse_digits_from_digits:
  "\<forall>c \<in> set ds. is_digit c \<Longrightarrow> count_ok (dec_val v ds) \<Longrightarrow> parse_digits_from v ds = Some (dec_val v ds)"
proof (induction ds arbitrary: v)
  case (Cons c ds)
  then have "v \<le> kCountLimit" using count_ok_step by simp
  with Cons show ?case by simp
qed simp

lemma ParseDigits_dec: "count_ok n \<Longrightarrow> ParseDigits (dec_of_nat n) = Some n"
  using parse_digits_from_digits [OF dec_of_nat_digits, of 0 n] by (simp add: ParseDigits_def)

lemma scan_dec: "count_ok n \<Longrightarrow> rest = [] \<or> \<not> is_digit (hd rest) \<Longrightarrow> scan_count 0 (dec_of_nat n @ rest) = Some n"
  using scan_count_digits [OF dec_of_nat_digits, of 0 n rest] by simp

lemma dec_of_nat_notin: "\<not> is_digit x \<Longrightarrow> x \<notin> set (dec_of_nat n)"
  using dec_of_nat_digits by blast

lemma not_digits [simp]:
  "\<not> is_digit (CHR '' '')" "\<not> is_digit (CHR ''/'')" "\<not> is_digit (CHR ''='')" "\<not> is_digit (CHR ''k'')"
  "\<not> is_digit (CHR ''f'')" "\<not> is_digit (CHR ''u'')" "\<not> is_digit LF"
  by (simp_all add: is_digit_def)

lemma ExtractCount_at:
  assumes "split_sub key flds = Some (pre, dec_of_nat n @ rest)" and "count_ok n"
    and "rest = [] \<or> \<not> is_digit (hd rest)"
  shows "ExtractCount flds key = Some n"
  using assms scan_dec [of n rest] hd_dec_of_nat_digit [of n] by (simp add: ExtractCount_def)

definition op_ok :: "AuditOperationCount \<Rightarrow> bool" where
  "op_ok e \<longleftrightarrow> oc_operationId e \<noteq> [] \<and> CHR '' '' \<notin> set (oc_operationId e) \<and> CHR ''='' \<notin> set (oc_operationId e) \<and>
     count_ok (oc_ok e) \<and> count_ok (oc_fail e)"

lemma ParseOperationCount_op_field: "op_ok e \<Longrightarrow> ParseOperationCount (op_field e) = Some e"
  using split_first_append [of "CHR ''=''" "oc_operationId e"]
    split_first_append [OF dec_of_nat_notin [of "CHR ''/''"]]
  by (simp add: op_ok_def ParseOperationCount_def op_field_def ParseDigits_dec)

lemma parse_op_fields_map: "\<forall>e \<in> set es. op_ok e \<Longrightarrow> parse_op_fields (map op_field es) = Some es"
  by (induction es) (auto simp: ParseOperationCount_op_field)

lemma op_field_token: "op_ok e \<Longrightarrow> op_field e \<noteq> [] \<and> CHR '' '' \<notin> set (op_field e)"
  using dec_of_nat_notin [of "CHR '' ''"] by (auto simp: op_ok_def op_field_def)

lemma tokens_acc_word:
  "CHR '' '' \<notin> set w \<Longrightarrow> rev cur @ w \<noteq> [] \<Longrightarrow>
   tokens_acc cur (w @ s) = (case s of [] \<Rightarrow> [rev cur @ w] | c # t \<Rightarrow>
     if c = CHR '' '' then (rev cur @ w) # tokens_acc [] t else tokens_acc (rev w @ cur) s)"
proof (induction w arbitrary: cur)
  case Nil
  then show ?case by (cases s) auto
next
  case (Cons x w)
  from Cons.IH [of "x # cur"] Cons.prems show ?case by (auto split: list.splits)
qed

lemma tokens_of_fields:
  assumes "\<forall>w \<in> set (w # ws). w \<noteq> [] \<and> CHR '' '' \<notin> set w"
  shows "tokens_acc [] (w @ concat (map (\<lambda>v. '' '' @ v) ws)) = w # ws"
  using assms
proof (induction ws arbitrary: w)
  case Nil
  then show ?case using tokens_acc_word [of w "[]" "[]"] by simp
next
  case (Cons v ws)
  from Cons.IH [of v] Cons.prems tokens_acc_word [of w "[]" "'' '' @ v @ concat (map (\<lambda>v. '' '' @ v) ws)"]
  show ?case by simp
qed

text \<open>A time range that the parser splits where the formatter joined it.\<close>

abbreviation summary_marker :: string where "summary_marker \<equiv> '' [audit-summary] ''"

definition range_ok :: "string \<Rightarrow> string \<Rightarrow> bool" where
  "range_ok f l \<longleftrightarrow>
     f = [] \<and> l = [] \<or>
     f \<noteq> [] \<and> l \<noteq> [] \<and> split_sub ''..'' (f @ ''..'') = Some (f, []) \<and>
     split_sub summary_marker (f @ ''..'' @ l @ summary_marker) = Some (f @ ''..'' @ l, [])"

definition summary_ok :: "AuditLineSummary \<Rightarrow> bool" where
  "summary_ok s \<longleftrightarrow>
     range_ok (ls_firstTimestamp s) (ls_lastTimestamp s) \<and>
     count_ok (ls_total s) \<and> count_ok (ls_ok s) \<and> count_ok (ls_fail s) \<and> count_ok (ls_unparsed s) \<and>
     (\<forall>e \<in> set (ls_byOperation s). op_ok e)"

definition summary_fields :: "AuditLineSummary \<Rightarrow> string" where
  "summary_fields s =
     ''total='' @ dec_of_nat (ls_total s) @ '' ok='' @ dec_of_nat (ls_ok s) @
     '' fail='' @ dec_of_nat (ls_fail s) @ '' unparsed='' @ dec_of_nat (ls_unparsed s) @
     concat (map (\<lambda>v. '' '' @ v) (map op_field (ls_byOperation s)))"

definition summary_range :: "AuditLineSummary \<Rightarrow> string" where
  "summary_range s =
     (if ls_firstTimestamp s \<noteq> [] then ls_firstTimestamp s @ ''..'' @ ls_lastTimestamp s else [])"

lemma FormatAuditSummaryLine_parts: "FormatAuditSummaryLine s = summary_range s @ summary_marker @ summary_fields s"
  by (simp add: FormatAuditSummaryLine_def summary_range_def summary_fields_def comp_def)

lemma hd_ops: "concat (map (\<lambda>v. '' '' @ v) ws) = [] \<or> \<not> is_digit (hd (concat (map (\<lambda>v. '' '' @ v) ws)))"
  by (cases ws) auto

lemma ExtractCount_summary_fields:
  assumes "summary_ok s"
  shows "ExtractCount (summary_fields s) ''total='' = Some (ls_total s)"
    and "ExtractCount (summary_fields s) ''ok='' = Some (ls_ok s)"
    and "ExtractCount (summary_fields s) ''fail='' = Some (ls_fail s)"
    and "ExtractCount (summary_fields s) ''unparsed='' = Some (ls_unparsed s)"
proof -
  let ?t = "dec_of_nat (ls_total s)" and ?k = "dec_of_nat (ls_ok s)" and ?b = "dec_of_nat (ls_fail s)"
  let ?u = "dec_of_nat (ls_unparsed s)"
  let ?ops = "concat (map (\<lambda>v. '' '' @ v) (map op_field (ls_byOperation s)))"
  have c: "count_ok (ls_total s)" "count_ok (ls_ok s)" "count_ok (ls_fail s)" "count_ok (ls_unparsed s)"
    using assms by (auto simp: summary_ok_def)
  have "summary_fields s = ''total='' @ ?t @ ('' ok='' @ ?k @ '' fail='' @ ?b @ '' unparsed='' @ ?u @ ?ops)"
    by (simp add: summary_fields_def)
  then have "split_sub ''total='' (summary_fields s) =
      Some ([], ?t @ ('' ok='' @ ?k @ '' fail='' @ ?b @ '' unparsed='' @ ?u @ ?ops))"
    using split_sub_here [of "''total=''"] by simp
  then show "ExtractCount (summary_fields s) ''total='' = Some (ls_total s)"
    by (rule ExtractCount_at) (use c in simp_all)
  let ?pk = "''total='' @ ?t @ '' ''"
  have "split_sub ''ok='' (?pk @ ''ok='' @ (?k @ ('' fail='' @ ?b @ '' unparsed='' @ ?u @ ?ops))) =
      Some (?pk, ?k @ ('' fail='' @ ?b @ '' unparsed='' @ ?u @ ?ops))"
    by (rule split_sub_mark [of _ "''o''" "CHR ''k''" "''=''"]) (simp_all add: dec_of_nat_notin)
  then have "split_sub ''ok='' (summary_fields s) = Some (?pk, ?k @ ('' fail='' @ ?b @ '' unparsed='' @ ?u @ ?ops))"
    by (simp add: summary_fields_def)
  then show "ExtractCount (summary_fields s) ''ok='' = Some (ls_ok s)"
    by (rule ExtractCount_at) (use c in simp_all)
  let ?pb = "''total='' @ ?t @ '' ok='' @ ?k @ '' ''"
  have "split_sub ''fail='' (?pb @ ''fail='' @ (?b @ ('' unparsed='' @ ?u @ ?ops))) =
      Some (?pb, ?b @ ('' unparsed='' @ ?u @ ?ops))"
    by (rule split_sub_mark [of _ "[]" "CHR ''f''" "''ail=''"]) (simp_all add: dec_of_nat_notin)
  then have "split_sub ''fail='' (summary_fields s) = Some (?pb, ?b @ ('' unparsed='' @ ?u @ ?ops))"
    by (simp add: summary_fields_def)
  then show "ExtractCount (summary_fields s) ''fail='' = Some (ls_fail s)"
    by (rule ExtractCount_at) (use c in simp_all)
  let ?pu = "''total='' @ ?t @ '' ok='' @ ?k @ '' fail='' @ ?b @ '' ''"
  have "split_sub ''unparsed='' (?pu @ ''unparsed='' @ (?u @ ?ops)) = Some (?pu, ?u @ ?ops)"
    by (rule split_sub_mark [of _ "[]" "CHR ''u''" "''nparsed=''"]) (simp_all add: dec_of_nat_notin)
  then have "split_sub ''unparsed='' (summary_fields s) = Some (?pu, ?u @ ?ops)"
    by (simp add: summary_fields_def)
  then show "ExtractCount (summary_fields s) ''unparsed='' = Some (ls_unparsed s)"
    by (rule ExtractCount_at) (use c hd_ops in blast)+
qed

lemma skip_field_here:
  assumes "CHR '' '' \<notin> set key"
  shows "skip_field (key @ dec_of_nat n @ CHR '' '' # rest) key = rest"
    and "skip_field (key @ dec_of_nat n) key = []"
proof -
  have "CHR '' '' \<notin> set (key @ dec_of_nat n)" using assms dec_of_nat_notin [of "CHR '' ''" n] by simp
  then show "skip_field (key @ dec_of_nat n @ CHR '' '' # rest) key = rest"
    and "skip_field (key @ dec_of_nat n) key = []"
    using split_first_append [of "CHR '' ''" "key @ dec_of_nat n" rest]
      split_first_None [of "CHR '' ''" "key @ dec_of_nat n"]
    by (simp_all add: skip_field_def split_sub_here)
qed

lemma tokens_summary_fields:
  assumes "summary_ok s"
  shows "tokens_acc [] (foldl skip_field (summary_fields s) [''total='', ''ok='', ''fail='', ''unparsed='']) =
    map op_field (ls_byOperation s)"
proof -
  let ?ops = "concat (map (\<lambda>v. '' '' @ v) (map op_field (ls_byOperation s)))"
  have "foldl skip_field (summary_fields s) [''total='', ''ok='', ''fail''@''='', ''unparsed=''] =
      skip_field (''unparsed='' @ dec_of_nat (ls_unparsed s) @ ?ops) ''unparsed=''"
    using skip_field_here(1) [of "''total=''"] skip_field_here(1) [of "''ok=''"] skip_field_here(1) [of "''fail=''"]
    by (simp add: summary_fields_def)
  moreover have "tokens_acc [] (skip_field (''unparsed='' @ dec_of_nat (ls_unparsed s) @ ?ops) ''unparsed='') =
      map op_field (ls_byOperation s)"
  proof (cases "ls_byOperation s")
    case Nil
    then show ?thesis using skip_field_here(2) [of "''unparsed=''" "ls_unparsed s"] by simp
  next
    case (Cons e es)
    with assms have "\<forall>w \<in> set (op_field e # map op_field es). w \<noteq> [] \<and> CHR '' '' \<notin> set w"
      using op_field_token by (auto simp: summary_ok_def)
    from tokens_of_fields [OF this] Cons
      skip_field_here(1) [of "''unparsed=''" "ls_unparsed s" "op_field e @ concat (map (\<lambda>v. '' '' @ v) (map op_field es))"]
    show ?thesis by simp
  qed
  ultimately show ?thesis by simp
qed

lemma summary_range_split:
  assumes "range_ok (ls_firstTimestamp s) (ls_lastTimestamp s)"
  shows "split_sub summary_marker (summary_range s @ summary_marker @ rest) = Some (summary_range s, rest)"
    and "parse_range (summary_range s) = Some (ls_firstTimestamp s, ls_lastTimestamp s)"
proof -
  show "split_sub summary_marker (summary_range s @ summary_marker @ rest) = Some (summary_range s, rest)"
  proof (cases "ls_firstTimestamp s = []")
    case True
    then show ?thesis using split_sub_here [of summary_marker rest] by (simp add: summary_range_def)
  next
    case False
    then have "split_sub summary_marker (summary_range s @ summary_marker) = Some (summary_range s, [])"
      using assms by (auto simp: range_ok_def summary_range_def)
    then show ?thesis by (rule split_sub_extend)
  qed
  show "parse_range (summary_range s) = Some (ls_firstTimestamp s, ls_lastTimestamp s)"
    using assms split_sub_extend [of "''..''" "ls_firstTimestamp s" "ls_lastTimestamp s"]
    by (auto simp: parse_range_def summary_range_def range_ok_def)
qed

definition as_record :: "AuditLineSummary \<Rightarrow> AuditSummaryRecord" where
  "as_record s =
     \<lparr>sr_firstTimestamp = ls_firstTimestamp s, sr_lastTimestamp = ls_lastTimestamp s, sr_total = ls_total s,
      sr_ok = ls_ok s, sr_fail = ls_fail s, sr_unparsed = ls_unparsed s, sr_byOperation = ls_byOperation s\<rparr>"

lemma ParseAuditSummaryLine_Format:
  assumes "summary_ok s"
  shows "ParseAuditSummaryLine (FormatAuditSummaryLine s) = Some (as_record s)"
proof -
  have r: "range_ok (ls_firstTimestamp s) (ls_lastTimestamp s)" and o: "\<forall>e \<in> set (ls_byOperation s). op_ok e"
    using assms by (auto simp: summary_ok_def)
  show ?thesis
    unfolding ParseAuditSummaryLine_def FormatAuditSummaryLine_parts summary_range_split [OF r]
      option.case prod.case ExtractCount_summary_fields [OF assms] tokens_summary_fields [OF assms]
      parse_op_fields_map [OF o]
    by (simp add: as_record_def)
qed

section \<open>What a summary counts\<close>

definition lookup_op :: "AuditOperationCount list \<Rightarrow> string \<Rightarrow> bool \<Rightarrow> nat" where
  "lookup_op ops op b =
     (case find (\<lambda>e. oc_operationId e = op) ops of None \<Rightarrow> 0 | Some e \<Rightarrow> if b then oc_ok e else oc_fail e)"

definition outcome_of :: "string \<Rightarrow> string \<Rightarrow> bool \<Rightarrow> bool" where
  "outcome_of line op b =
     (case ParseAuditLinePrefix line of None \<Rightarrow> False | Some p \<Rightarrow> lp_operationId p = op \<and> lp_ok p = b)"

definition op_count :: "string list \<Rightarrow> string \<Rightarrow> bool \<Rightarrow> nat" where
  "op_count lines op b = length (filter (\<lambda>l. outcome_of l op b) lines)"

abbreviation unparsable :: "string \<Rightarrow> bool" where
  "unparsable l \<equiv> ParseAuditLinePrefix l = None"

lemma op_count_append [simp]: "op_count (xs @ ys) op b = op_count xs op b + op_count ys op b"
  by (simp add: op_count_def)

lemma op_count_le: "op_count xs op b \<le> length xs"
  by (simp add: op_count_def)

lemma op_count_unparsable: "op_count (filter unparsable xs) op b = 0"
  by (auto simp: op_count_def outcome_of_def filter_empty_conv)

lemma lookup_op_count_op:
  "lookup_op (count_op op' k f es) op b =
     (if op = op' then add64 (lookup_op es op b) (if b then k else f) else lookup_op es op b)"
  by (cases b; induction es) (auto simp: lookup_op_def)

lemma SummarizeAuditLines_snoc: "SummarizeAuditLines (ls @ [l]) = summarize_line (SummarizeAuditLines ls) l"
  by (simp add: SummarizeAuditLines_def)

lemma SummarizeAuditLines_counts:
  assumes "length ls < 2 ^ 64"
  shows "lookup_op (ls_byOperation (SummarizeAuditLines ls)) op b = op_count ls op b \<and>
    ls_unparsed (SummarizeAuditLines ls) = length (filter unparsable ls) \<and>
    ls_total (SummarizeAuditLines ls) = length (filter (\<lambda>l. \<not> unparsable l) ls)"
  using assms
proof (induction ls rule: rev_induct)
  case Nil
  then show ?case
    by (simp add: SummarizeAuditLines_def AuditLineSummary_empty_def lookup_op_def op_count_def)
next
  case (snoc l ls)
  have le: "op_count ls op b + 1 < 2 ^ 64" "length (filter unparsable ls) + 1 < 2 ^ 64"
    "length (filter (\<lambda>l. \<not> unparsable l) ls) + 1 < 2 ^ 64"
    using snoc.prems op_count_le [of ls op b]
    by (auto intro: le_less_trans [OF length_filter_le])
  from snoc show ?case
  proof (cases "ParseAuditLinePrefix l")
    case None
    with snoc le show ?thesis
      by (simp add: SummarizeAuditLines_snoc summarize_line_def add64_small)
        (simp add: op_count_def outcome_of_def)
  next
    case (Some p)
    have "op_count [l] op b = (if lp_operationId p = op \<and> lp_ok p = b then 1 else 0)"
      using Some by (simp add: op_count_def outcome_of_def)
    with Some snoc le show ?thesis
      by (auto simp: SummarizeAuditLines_snoc summarize_line_def lookup_op_count_op ok_part_def fail_part_def add64_small)
  qed
qed

section \<open>The writes of a compaction\<close>

lemma compact_append_cases:
  assumes "compact_append sysmsg io p text d = (r, d')" and d: "temp_path p \<noteq> AuditSummaryPath p"
  obtains (failed) e where "r = Failure e"
      "\<And>q. q \<noteq> temp_path p \<Longrightarrow> q \<noteq> AuditSummaryPath p \<Longrightarrow> files d' q = files d q"
      "\<exists>n. content d' (AuditSummaryPath p) = content d (AuditSummaryPath p) @ take n text"
      "fail_write io (AuditSummaryPath p) = None \<Longrightarrow> content d' (AuditSummaryPath p) = content d (AuditSummaryPath p)"
  | (written) "r = Success ()"
      "files d' = (files d)(AuditSummaryPath p \<mapsto> content d (AuditSummaryPath p) @ text)"
proof -
  let ?sp = "AuditSummaryPath p" and ?t = "temp_path p"
  obtain r1 d1 where m: "(if parent_path p \<noteq> [] then create_directories io (parent_path ?sp) d else (Inr (), d)) = (r1, d1)"
    by fastforce
  have f1: "files d1 = files d" using m by (auto split: if_splits)
  have rm: "files (snd (remove_file io ?t x)) q = files x q" if "q \<noteq> ?t" for x q
    using that by (rule remove_file_frame)
  obtain r2 d2 where o: "open_write io ?sp True d1 = (r2, d2)" by fastforce
  obtain r3 d3 where w: "write_flush io ?sp text d2 = (r3, d3)" by fastforce
  have same: "\<exists>n. content x ?sp = content d ?sp @ take n text" if "files x ?sp = files d ?sp" for x
    using that by (intro exI [of _ 0]) (simp add: content_def)
  show thesis
  proof (cases r1)
    case (Inl c)
    then have run: "r = Failure (FromWin32 sysmsg c ''create_directories(audit summary)'')" "d' = snd (remove_file io ?t d1)"
      using assms(1) m by (simp_all add: compact_append_def Let_def)
    show thesis
      by (rule failed [OF run(1)]) (use run(2) rm f1 d same in \<open>auto simp: content_def\<close>)
  next
    case (Inr u)
    note r1 = this
    show thesis
      using o
    proof (cases rule: open_write_cases)
      case (failed c)
      then have "\<exists>e. r = Failure e" "d' = snd (remove_file io ?t d1)"
        using assms(1) m o r1 by (auto simp: compact_append_def Let_def split: prod.splits sum.splits)
      then show thesis
        using that(1) rm f1 d same by (metis content_def)
    next
      case opened
      then have f2: "files d2 = (files d)(?sp \<mapsto> content d ?sp)" using f1 by (simp add: content_def)
      show thesis
        using w
      proof (cases rule: write_flush_cases)
        case (failed n c)
        then have run: "r = Failure (FromWin32 sysmsg c ''append audit summary'')" "d' = snd (remove_file io ?t d3)"
          using assms(1) m o w r1 opened(1) by (simp_all add: compact_append_def Let_def)
        have fw: "fail_write io ?sp \<noteq> None"
          using failed(1) w by (auto simp: write_flush_def Let_def split: option.splits)
        have "content d' ?sp = content d ?sp @ take n text"
          using run(2) rm [of ?sp d3] d failed(3) f2 by (simp add: content_def)
        moreover have "files d' q = files d q" if "q \<noteq> ?t" "q \<noteq> ?sp" for q
          using that run(2) rm [of q d3] failed(3) f2 by simp
        ultimately show thesis using that(1) [OF run(1)] fw by blast
      next
        case flushed
        then have "r = Success ()" "files d' = (files d)(?sp \<mapsto> content d ?sp @ text)"
          using assms(1) m o w r1 opened(1) f2 by (simp_all add: compact_append_def Let_def)
        then show thesis by (rule written)
      qed
    qed
  qed
qed

lemma summary_size_exact:
  "fail_stat io sp = None \<Longrightarrow> fail_size io sp = None \<Longrightarrow> \<not> dirs d sp \<Longrightarrow> summary_size io d sp = length (content d sp)"
  by (auto simp: summary_size_def path_exists_def file_size_def content_def split: option.splits)

lemma resize_file_cases:
  assumes "resize_file io p n d = (r, d')"
  obtains (failed) c where "r = Inl c" "d' = d"
  | (resized) s where "r = Inr ()" "files d p = Some s"
      "files d' = (files d)(p \<mapsto> take n s @ replicate (n - length s) (CHR 0x00))"
  using assms by (cases "fail_resize io p"; cases "files d p") (auto simp: resize_file_def)

lemma open_app_not_dir: "open_write io p True d = (Inr u, d') \<Longrightarrow> \<not> dirs d p"
  by (elim open_write_cases) auto

lemma compact_append_no_dir:
  assumes "compact_append sysmsg io p text d = (Success u, d')"
  shows "\<not> dirs d (AuditSummaryPath p)"
proof -
  let ?sp = "AuditSummaryPath p"
  obtain r1 d1 where m: "(if parent_path p \<noteq> [] then create_directories io (parent_path ?sp) d else (Inr (), d)) = (r1, d1)"
    by fastforce
  obtain r2 d2 where o: "open_write io ?sp True d1 = (r2, d2)" by fastforce
  have "\<exists>v. r2 = Inr v"
    using assms [unfolded compact_append_def Let_def m] o
    by (cases r1; cases r2) (simp_all split: prod.splits sum.splits)
  then have "\<not> dirs d1 ?sp" using o open_app_not_dir by blast
  moreover have "dirs d q \<Longrightarrow> dirs d1 q" for q
    using m create_directories_dirs by (cases "parent_path p = []") auto
  ultimately show ?thesis by blast
qed

text \<open>The three files a compaction touches.\<close>

definition compact_paths_ok :: "path \<Rightarrow> bool" where
  "compact_paths_ok p \<longleftrightarrow> AuditSummaryPath p \<noteq> p \<and> AuditSummaryPath p \<noteq> temp_path p"

text \<open>What a failed compaction may leave of the summary file.\<close>

definition summary_after_failure :: "disk_faults \<Rightarrow> path \<Rightarrow> disk \<Rightarrow> disk \<Rightarrow> bool" where
  "summary_after_failure io p d d' \<longleftrightarrow>
     (let sp = AuditSummaryPath p
      in fail_stat io sp = None \<and> fail_size io sp = None \<longrightarrow>
         (\<exists>t. content d' sp = content d sp @ t) \<and>
         (fail_write io sp = None \<and> fail_resize io sp = None \<longrightarrow> content d' sp = content d sp))"

lemma temp_written:
  assumes "open_write io t False d = (Inr u, d1)" and "write_flush io t s d1 = (Inr v, d2)"
  shows "files d2 = (files d)(t \<mapsto> s)" and "dirs d2 = dirs d"
proof -
  have d1: "files d1 = (files d)(t \<mapsto> [])" "dirs d1 = dirs d"
    using assms(1) by (auto elim: open_write_cases)
  show "files d2 = (files d)(t \<mapsto> s)" "dirs d2 = dirs d"
    using assms(2) d1 by (auto elim!: write_flush_cases)
qed

lemma rollback_content:
  assumes "files d p = Some (old @ t)"
  shows "\<exists>u. content (snd (resize_file io p (length old) d)) p = old @ u"
    and "fail_resize io p = None \<Longrightarrow> content (snd (resize_file io p (length old) d)) p = old"
  using assms by (auto simp: resize_file_def content_def split: option.splits)

lemma compact_write_ok:
  assumes "compact_write sysmsg io p retained line d = (Success u, d')" and "compact_paths_ok p"
  shows "files d' = (files d)(temp_path p := None, p \<mapsto> unlines retained,
      AuditSummaryPath p \<mapsto> content d (AuditSummaryPath p) @ line @ [LF])"
proof -
  let ?sp = "AuditSummaryPath p" and ?t = "temp_path p"
  obtain d1 d2 d3 where o: "open_write io ?t False d = (Inr (), d1)"
    and w: "write_flush io ?t (unlines retained) d1 = (Inr (), d2)"
    and a: "compact_append sysmsg io p (line @ [LF]) d2 = (Success (), d3)"
    and m: "move_replace io ?t p d3 = (Inr (), d')"
    using assms(1) by (auto simp: compact_write_def Let_def split: prod.splits sum.splits)
  have ne: "?t \<noteq> ?sp" "?sp \<noteq> p" using assms(2) by (auto simp: compact_paths_ok_def)
  note d2 = temp_written(1) [OF o w]
  have d3: "files d3 = (files d2)(?sp \<mapsto> content d2 ?sp @ line @ [LF])"
    using a ne(1) by (cases rule: compact_append_cases) auto
  have "files d' = (files d3)(?t := None, p \<mapsto> unlines retained)"
    using m by (cases rule: move_replace_cases) (use d3 d2 ne in auto)
  moreover have "content d2 ?sp = content d ?sp" using d2 ne by (simp add: content_def)
  ultimately show ?thesis using d2 d3 ne by (auto simp: fun_eq_iff)
qed

lemma compact_write_fail:
  assumes "compact_write sysmsg io p retained line d = (Failure e, d')" and "compact_paths_ok p"
  shows "(\<forall>q. q \<noteq> temp_path p \<longrightarrow> q \<noteq> AuditSummaryPath p \<longrightarrow> files d' q = files d q) \<and>
    summary_after_failure io p d d'"
proof -
  let ?sp = "AuditSummaryPath p" and ?t = "temp_path p"
  have ne: "?t \<noteq> ?sp" "?sp \<noteq> p" "?sp \<noteq> ?t" using assms(2) by (auto simp: compact_paths_ok_def)
  have same: ?thesis if "\<And>q. q \<noteq> ?t \<Longrightarrow> files d' q = files d q"
    using that ne by (simp add: summary_after_failure_def content_def Let_def)
  obtain r1 d1 where o: "open_write io ?t False d = (r1, d1)" by fastforce
  obtain r2 d2 where w: "write_flush io ?t (unlines retained) d1 = (r2, d2)" by fastforce
  obtain r3 d3 where a: "compact_append sysmsg io p (line @ [LF]) d2 = (r3, d3)" by fastforce
  consider c where "r1 = Inl c" | c where "r1 = Inr ()" "r2 = Inl c" | "r1 = Inr ()" "r2 = Inr ()"
    by (cases r1; cases r2) auto
  then show ?thesis
  proof cases
    case (1 c)
    then have "d' = d1" using assms(1) o by (simp add: compact_write_def Let_def)
    with o 1 show ?thesis by (intro same) (auto elim!: open_write_cases)
  next
    case (2 c)
    then have "d' = snd (remove_file io ?t d2)" using assms(1) o w by (simp add: compact_write_def Let_def)
    with o w 2 show ?thesis
      by (intro same) (auto simp: remove_file_frame elim!: open_write_cases write_flush_cases)
  next
    case 3
    note d2 = temp_written [OF o [unfolded 3] w [unfolded 3]]
    have c2: "content d2 ?sp = content d ?sp" using d2 ne by (simp add: content_def)
    show ?thesis
      using a ne(1)
    proof (cases rule: compact_append_cases)
      case (failed e')
      then have "d' = d3" using assms(1) o w a 3 by (simp add: compact_write_def Let_def)
      with failed c2 d2 show ?thesis by (auto simp: summary_after_failure_def Let_def)
    next
      case written
      then obtain c d4 where m: "move_replace io ?t p d3 = (Inl c, d4)"
        and d': "d' = snd (resize_file io ?sp (summary_size io d2 ?sp) (snd (remove_file io ?t d4)))"
        using assms(1) o w a 3 by (auto simp: compact_write_def Let_def split: prod.splits sum.splits)
      have d4: "d4 = d3" using m by (cases rule: move_replace_cases) auto
      let ?x = "snd (remove_file io ?t d3)"
      have x: "files ?x q = files d3 q" if "q \<noteq> ?t" for q using that by (rule remove_file_frame)
      then have xsp: "files ?x ?sp = Some (content d ?sp @ line @ [LF])" using written(2) c2 ne by simp
      have nd: "\<not> dirs d2 ?sp" using a written(1) compact_append_no_dir by simp
      have "files d' q = files d q" if "q \<noteq> ?t" "q \<noteq> ?sp" for q
      proof -
        have "files d' q = files ?x q"
          unfolding d' d4 using that(2) by (auto simp: resize_file_def split: option.splits)
        then show ?thesis using x [OF that(1)] written(2) d2 that by simp
      qed
      moreover have "summary_after_failure io p d d'"
        using rollback_content [OF xsp, of io] nd c2 summary_size_exact [of io ?sp d2]
        unfolding summary_after_failure_def d' d4 Let_def by auto
      ultimately show ?thesis by blast
    qed
  qed
qed

section \<open>Compaction\<close>

lemma CompactAuditFile_stages:
  assumes "CompactAuditFile sysmsg io ts p options d = (r, d')"
  obtains (early) "d' = d" "\<And>v. r = Success v \<Longrightarrow> \<not> cr_compacted v"
  | (lines) s where "files d p = Some s" "length s \<le> kMaxAuditReadBytes"
      "compact_lines sysmsg io ts p options (length s) (getlines s) d = (r, d')"
proof (cases "files d p")
  case None
  then have "open_read io d p = Inl (case fail_open_read io p of Some c \<Rightarrow> c | None \<Rightarrow> 2)"
    by (simp add: open_read_def split: option.splits)
  with assms early show thesis
    by (auto simp: CompactAuditFile_def CompactResult_empty_def
        split: if_splits prod.splits bool.splits option.splits sum.splits)
next
  case (Some s)
  show thesis
  proof (cases "length s \<le> kMaxAuditReadBytes \<and> fail_open_read io p = None \<and> fail_read io p = None \<and>
      fail_stat io p = None \<and> fail_size io p = None \<and> p \<noteq> []")
    case True
    with Some assms have "compact_lines sysmsg io ts p options (length s) (getlines s) d = (r, d')"
      by (simp add: CompactAuditFile_def path_exists_def file_size_def open_read_def)
    with Some True show thesis by (intro lines) auto
  next
    case False
    with Some assms have "d' = d \<and> (\<exists>e. r = Failure e)"
      by (auto simp: CompactAuditFile_def path_exists_def file_size_def open_read_def
          split: if_splits option.splits sum.splits prod.splits)
    then show thesis by (intro early) auto
  qed
qed

lemma compact_lines_cases:
  assumes "compact_lines sysmsg io ts p options sz ls d = (r, d')"
  obtains (unchanged) "d' = d" "\<And>v. r = Success v \<Longrightarrow> \<not> cr_compacted v" "\<And>e. r \<noteq> Failure e"
  | (rewrite) summary retained where
      "summary = SummarizeAuditLines (compact_head options ls)"
      "retained = compact_retained options ls @ [FormatAuditLineAscii ts
         (compact_record p options (length ls) (length (compact_retained options ls)) summary)]"
      "\<And>e. r = Failure e \<Longrightarrow> compact_write sysmsg io p retained (FormatAuditSummaryLine summary) d = (Failure e, d')"
      "\<And>v. r = Success v \<Longrightarrow> compact_write sysmsg io p retained (FormatAuditSummaryLine summary) d = (Success (), d') \<and>
         cr_afterLines v = length retained \<and> cr_summarizedLines v = ls_total summary \<and>
         cr_unparsedKept v = ls_unparsed summary"
  using assms
  by (auto simp: compact_lines_def CompactResult_empty_def Let_def split: if_splits prod.splits sum.splits)

lemma compact_split: "compact_head options ls @ drop (length (compact_head options ls)) ls = ls"
  by (simp add: compact_head_def)

lemma compact_retained_alt:
  "compact_retained options ls =
     filter unparsable (compact_head options ls) @ drop (length (compact_head options ls)) ls"
  by (simp add: compact_retained_def compact_head_def)

text \<open>
  C26: Compaction loses no count.  When a run reports that it compacted the audit file, the new
  file holds, in order, the unparsable lines of the compressed part, the whole tail and one
  record of the run itself; one line was added to the summary file, nothing else changed; and
  for every operation and outcome the records before the run are those in the new summary plus
  those still in the file.  Every unparsable line is kept verbatim.\<close>
theorem CompactAuditFile_keeps_counts:
  assumes run: "CompactAuditFile sysmsg io ts p options d = (Success v, d')"
    and "cr_compacted v" and paths: "compact_paths_ok p" and ts: "LF \<notin> set ts"
  shows "\<exists>before kept self summary.
    before = getlines (content d p) \<and>
    files d' = (files d)(temp_path p := None, p \<mapsto> unlines (kept @ [self]),
      AuditSummaryPath p \<mapsto> content d (AuditSummaryPath p) @ FormatAuditSummaryLine summary @ [LF]) \<and>
    getlines (content d' p) = kept @ [self] \<and> cr_afterLines v = length kept + 1 \<and>
    kept = filter unparsable (compact_head options before) @ drop (length (compact_head options before)) before \<and>
    filter unparsable kept = filter unparsable before \<and>
    (\<forall>op b. op_count before op b = lookup_op (ls_byOperation summary) op b + op_count kept op b) \<and>
    cr_summarizedLines v = ls_total summary \<and>
    ls_total summary + length kept = length before"
proof -
  from run assms(2) obtain s where s: "files d p = Some s" "length s \<le> kMaxAuditReadBytes"
    and c: "compact_lines sysmsg io ts p options (length s) (getlines s) d = (Success v, d')"
    by (cases rule: CompactAuditFile_stages) auto
  let ?before = "getlines s" and ?head = "compact_head options (getlines s)"
  let ?summary = "SummarizeAuditLines ?head" and ?kept = "compact_retained options ?before"
  let ?self = "FormatAuditLineAscii ts (compact_record p options (length ?before) (length ?kept) ?summary)"
  from c assms(2) have w: "compact_write sysmsg io p (?kept @ [?self]) (FormatAuditSummaryLine ?summary) d = (Success (), d')"
    and v: "cr_afterLines v = length ?kept + 1" "cr_summarizedLines v = ls_total ?summary"
    by (cases rule: compact_lines_cases; simp)+
  note f = compact_write_ok [OF w paths]
  have "\<forall>l \<in> set (?kept @ [?self]). LF \<notin> set l"
    using getlines_no_LF FormatAuditLineAscii_no_LF [OF ts]
    by (auto simp: compact_retained_alt compact_head_def dest: in_set_takeD in_set_dropD)
  moreover have "p \<noteq> AuditSummaryPath p" using paths by (auto simp: compact_paths_ok_def)
  then have "content d' p = unlines (?kept @ [?self])"
    unfolding content_def f by (simp only: fun_upd_apply if_True if_False option.case simp_thms)
  ultimately have g: "getlines (content d' p) = ?kept @ [?self]" using getlines_unlines by metis
  have small: "length ?head < 2 ^ 64"
    using length_getlines [of s] s(2) by (simp add: compact_head_def kMaxAuditReadBytes_def)
  note cnt = SummarizeAuditLines_counts [OF small]
  have ops: "op_count ?before op b = lookup_op (ls_byOperation ?summary) op b + op_count ?kept op b" for op b
    using arg_cong [OF compact_split [of options ?before], of "\<lambda>l. op_count l op b"] cnt [of op b]
    by (simp add: compact_retained_alt op_count_unparsable)
  have unp: "filter unparsable ?kept = filter unparsable ?before"
    using arg_cong [OF compact_split [of options ?before], of "filter unparsable"]
    by (simp add: compact_retained_alt)
  have "ls_total ?summary + length ?kept = length ?before"
    using arg_cong [OF compact_split [of options ?before], of length] cnt
      sum_length_filter_compl [of unparsable ?head]
    by (simp add: compact_retained_alt del: not_None_eq)
  with f g v ops unp s(1) show ?thesis
    by (intro exI [of _ ?before] exI [of _ ?kept] exI [of _ ?self] exI [of _ ?summary])
      (simp add: content_Some compact_retained_alt)
qed

text \<open>
  C28: A failed compaction leaves the audit file as it was, and every file but the temporary one
  and the summary.  Where the size of the summary file could be read, its old content is still
  in place, and unless its own write or the roll-back failed too it is exactly the old one, so a
  repeated run does not count anything twice.\<close>
theorem CompactAuditFile_failure_keeps_file:
  assumes "CompactAuditFile sysmsg io ts p options d = (Failure e, d')" and "compact_paths_ok p"
  shows "files d' p = files d p \<and>
    (\<forall>q. q \<noteq> temp_path p \<longrightarrow> q \<noteq> AuditSummaryPath p \<longrightarrow> files d' q = files d q) \<and>
    (fail_stat io (AuditSummaryPath p) = None \<and> fail_size io (AuditSummaryPath p) = None \<longrightarrow>
      (\<exists>t. content d' (AuditSummaryPath p) = content d (AuditSummaryPath p) @ t) \<and>
      (fail_write io (AuditSummaryPath p) = None \<and> fail_resize io (AuditSummaryPath p) = None \<longrightarrow>
        content d' (AuditSummaryPath p) = content d (AuditSummaryPath p)))"
proof -
  have "d' = d \<or> (\<exists>ret line. compact_write sysmsg io p ret line d = (Failure e, d'))"
    using assms(1)
  proof (cases rule: CompactAuditFile_stages)
    case (lines s)
    from lines(3) show ?thesis by (cases rule: compact_lines_cases) auto
  qed simp
  then show ?thesis
  proof
    assume "\<exists>ret line. compact_write sysmsg io p ret line d = (Failure e, d')"
    then obtain ret line where "compact_write sysmsg io p ret line d = (Failure e, d')" by blast
    note w = compact_write_fail [OF this assms(2)]
    have "p \<noteq> AuditSummaryPath p" using assms(2) by (auto simp: compact_paths_ok_def)
    with w have "files d' p = files d p" by simp
    with w show ?thesis unfolding summary_after_failure_def Let_def by blast
  qed simp
qed

text \<open>
  With the default options the size threshold never leads to a compaction: a file that reaches
  it is beyond the read limit, so the run is refused and nothing changes.\<close>
theorem CompactAuditFile_default_size_threshold_refused:
  assumes "files d p = Some s" and "length s \<ge> co_maxBytes default_CompactOptions"
  shows "\<exists>e. CompactAuditFile sysmsg io ts p default_CompactOptions d = (Failure e, d)"
proof -
  have "length s > kMaxAuditReadBytes"
    using assms(2) by (simp add: default_CompactOptions_def kMaxAuditReadBytes_def)
  with assms(1) show ?thesis
    by (auto simp: CompactAuditFile_def path_exists_def file_size_def split: option.splits)
qed

theorem CompactAuditFile_default_size_threshold_refused_witness:
  "\<exists>e. CompactAuditFile (\<lambda>_. []) no_faults [] ''a'' default_CompactOptions
     (set_file ''a'' (replicate 10485760 LF) empty_disk) =
     (Failure e, set_file ''a'' (replicate 10485760 LF) empty_disk)"
proof (rule CompactAuditFile_default_size_threshold_refused)
  show "files (set_file ''a'' (replicate 10485760 LF) empty_disk) ''a'' = Some (replicate 10485760 LF)"
    by (simp only: files_set_file fun_upd_same)
  have "length (replicate 10485760 LF) = (10485760 :: nat)" by (rule length_replicate)
  then show "co_maxBytes default_CompactOptions \<le> length (replicate 10485760 LF)"
    unfolding default_CompactOptions_def CompactOptions.select_convs by linarith
qed

section \<open>An example file\<close>

definition demo_lines :: "string list" where
  "demo_lines = [''t [audit] R1 op ok x'', ''junk'']"

definition demo_disk :: disk where
  "demo_disk = set_file ''a-summary.log'' (unlines [''old'']) (set_file ''a.log'' (unlines demo_lines) empty_disk)"

definition demo_options :: CompactOptions where
  "demo_options = \<lparr>co_maxBytes = 0, co_maxLines = 1, co_keepTailLines = 0, co_summaryMaxBytes = 1\<rparr>"

lemma demo_paths: "AuditSummaryPath ''a.log'' = ''a-summary.log''" "parent_path ''a.log'' = []"
  "compact_paths_ok ''a.log''"
  by code_simp+

lemma demo_files: "files demo_disk = [''a.log'' \<mapsto> unlines demo_lines, ''a-summary.log'' \<mapsto> unlines [''old'']]"
  "dirs demo_disk = (\<lambda>_. False)"
  by (simp_all add: demo_disk_def empty_disk_def)

lemma demo_reads: "getlines (unlines demo_lines) = demo_lines" "length (unlines demo_lines) = 26"
  by code_simp+

lemma demo_plan: "ShouldCompactAuditFile 26 (length demo_lines) demo_options"
  "compact_retained demo_options demo_lines = [''junk'']" "demo_lines \<noteq> [''junk'']" "[''junk''] \<noteq> demo_lines"
  by code_simp+

lemma demo_run:
  assumes "fail_stat io ''a.log'' = None" "fail_size io ''a.log'' = None" "fail_open_read io ''a.log'' = None"
    "fail_read io ''a.log'' = None"
  shows "CompactAuditFile sysmsg io ts ''a.log'' demo_options demo_disk =
    compact_lines sysmsg io ts ''a.log'' demo_options 26 demo_lines demo_disk"
  using assms
  by (simp add: CompactAuditFile_def path_exists_def file_size_def open_read_def demo_files demo_reads
      kMaxAuditReadBytes_def del: unlines_Cons)

lemma demo_write_ok: "fst (compact_write sysmsg no_faults ''a.log'' ret line demo_disk) = Success ()"
  by (simp add: compact_write_def compact_append_def Let_def demo_paths temp_path_def open_write_def write_flush_def
      move_replace_def demo_files)

lemma demo_rewrite:
  "compact_lines sysmsg io ts ''a.log'' demo_options 26 demo_lines demo_disk = (r, d') \<Longrightarrow>
   \<exists>ret line r0. compact_write sysmsg io ''a.log'' ret line demo_disk = (r0, d') \<and> HasValue r0 = HasValue r \<and>
     (\<forall>v. r = Success v \<longrightarrow> cr_compacted v)"
  by (auto simp: compact_lines_def Let_def demo_plan split: prod.splits sum.splits) (metis HasValue_simps)+

text \<open>
  A roll-back without a known size destroys the summary file.  When the summary cannot be
  examined and the final replacement fails, the file is cut to length 0: all counts of earlier
  compactions are lost, while the audit file is unchanged.\<close>
theorem CompactAuditFile_blind_rollback_erases_summary:
  "\<exists>io d p e d'. CompactAuditFile sysmsg io ts p demo_options d = (Failure e, d') \<and>
     content d (AuditSummaryPath p) \<noteq> [] \<and> content d' (AuditSummaryPath p) = [] \<and> files d' p = files d p"
proof -
  let ?io = "no_faults\<lparr>fail_stat := \<lambda>p. if p = ''a-summary.log'' then Some 5 else None, fail_move := \<lambda>_. Some 32\<rparr>"
  obtain r d' where run: "CompactAuditFile sysmsg ?io ts ''a.log'' demo_options demo_disk = (r, d')" by fastforce
  have "compact_lines sysmsg ?io ts ''a.log'' demo_options 26 demo_lines demo_disk = (r, d')"
    using run by (subst (asm) demo_run) simp_all
  from demo_rewrite [OF this] obtain ret line r0 where
    w: "compact_write sysmsg ?io ''a.log'' ret line demo_disk = (r0, d')" and r: "HasValue r0 = HasValue r" by blast
  have "\<not> HasValue r0 \<and> content d' ''a-summary.log'' = [] \<and> files d' ''a.log'' = files demo_disk ''a.log''"
    using w
    by (auto simp add: compact_write_def compact_append_def Let_def demo_paths temp_path_def open_write_def
        write_flush_def move_replace_def demo_files remove_file_def resize_file_def summary_size_def
        path_exists_def file_size_def content_def)
  moreover obtain e where "r = Failure e" using r calculation by (cases r) auto
  moreover have "content demo_disk ''a-summary.log'' \<noteq> []" by (simp add: content_def demo_files)
  ultimately show ?thesis using run demo_paths(1) by metis
qed

theorem CompactAuditFile_keeps_counts_witness:
  "\<exists>v d'. CompactAuditFile (\<lambda>_. []) no_faults ''u'' ''a.log'' demo_options demo_disk = (Success v, d') \<and>
     (\<exists>(summary :: AuditLineSummary) kept. filter unparsable kept = filter unparsable demo_lines \<and>
       (\<forall>op b. op_count demo_lines op b = lookup_op (ls_byOperation summary) op b + op_count kept op b))"
proof -
  obtain r d' where run: "CompactAuditFile (\<lambda>_. []) no_faults ''u'' ''a.log'' demo_options demo_disk = (r, d')"
    by fastforce
  then have "compact_lines (\<lambda>_. []) no_faults ''u'' ''a.log'' demo_options 26 demo_lines demo_disk = (r, d')"
    by (subst (asm) demo_run) simp_all
  from demo_rewrite [OF this] demo_write_ok obtain v where v: "r = Success v" "cr_compacted v"
    by (cases r) (metis HasValue_simps fst_conv)+
  have c: "getlines (content demo_disk ''a.log'') = demo_lines"
    by (simp add: content_def demo_files demo_reads)
  have "LF \<notin> set ''u''" by simp
  from CompactAuditFile_keeps_counts [OF run [unfolded v(1)] v(2) demo_paths(3) this]
  have "\<exists>kept (summary :: AuditLineSummary). filter unparsable kept = filter unparsable demo_lines \<and>
      (\<forall>op x. op_count demo_lines op x = lookup_op (ls_byOperation summary) op x + op_count kept op x)"
    unfolding c by (elim exE conjE) (hypsubst, intro exI conjI, assumption+)
  with run v(1) show ?thesis by blast
qed

theorem CompactAuditFile_failure_keeps_file_witness:
  "\<exists>e d'. CompactAuditFile (\<lambda>_. []) (no_faults\<lparr>fail_move := \<lambda>_. Some 32\<rparr>) ''u'' ''a.log'' demo_options demo_disk =
      (Failure e, d') \<and> files d' ''a.log'' = files demo_disk ''a.log'' \<and>
      content d' ''a-summary.log'' = content demo_disk ''a-summary.log''"
proof -
  let ?io = "no_faults\<lparr>fail_move := \<lambda>_. Some 32\<rparr>"
  obtain r d' where run: "CompactAuditFile (\<lambda>_. []) ?io ''u'' ''a.log'' demo_options demo_disk = (r, d')"
    by fastforce
  then have "compact_lines (\<lambda>_. []) ?io ''u'' ''a.log'' demo_options 26 demo_lines demo_disk = (r, d')"
    by (subst (asm) demo_run) simp_all
  from demo_rewrite [OF this] obtain ret line r0 where
    w: "compact_write (\<lambda>_. []) ?io ''a.log'' ret line demo_disk = (r0, d')" and r: "HasValue r0 = HasValue r" by blast
  have "\<not> HasValue r0"
    using w by (auto simp add: compact_write_def compact_append_def Let_def demo_paths temp_path_def open_write_def
        write_flush_def move_replace_def demo_files)
  with r obtain e where e: "r = Failure e" by (cases r) auto
  from CompactAuditFile_failure_keeps_file [OF run [unfolded e] demo_paths(3)] run e demo_paths(1)
  show ?thesis by simp
qed

end
