(* ===== verification/Audit_Folding.thy ===== *)
theory Audit_Folding
  imports Audit_Compaction
begin

text \<open>
  The second level of compression (\<open>FoldAuditSummaryFile\<close> of
  \<^verbatim>\<open>source/audit/audit_log.cpp\<close>): the lines of the summary file become one.  Every parsed
  summary line prints to a line that parses to the same record, merging adds the counts, and the
  review of the file (\<open>AnalyzeAuditSummaryLines\<close>) reads the same totals afterwards.
\<close>

section \<open>Folding the summary file\<close>

record FoldSummaryResult =
  fr_folded :: bool
  fr_beforeLines :: nat
  fr_afterLines :: nat
  fr_mergedRanges :: nat
  fr_unparsableKept :: nat

definition FoldSummaryResult_empty :: FoldSummaryResult where
  "FoldSummaryResult_empty =
     \<lparr>fr_folded = False, fr_beforeLines = 0, fr_afterLines = 0, fr_mergedRanges = 0, fr_unparsableKept = 0\<rparr>"

definition kMaxSummaryReadBytes :: nat where "kMaxSummaryReadBytes = 64 * 1024 * 1024"

text \<open>The state of the reading loop: lines seen, ranges merged, merged summary, lines kept.\<close>

record fold_state =
  fo_before :: nat
  fo_ranges :: nat
  fo_merged :: AuditLineSummary
  fo_kept :: "string list"

definition fold_start :: fold_state where
  "fold_start = \<lparr>fo_before = 0, fo_ranges = 0, fo_merged = AuditLineSummary_empty, fo_kept = []\<rparr>"

definition merge_record :: "AuditLineSummary \<Rightarrow> AuditSummaryRecord \<Rightarrow> AuditLineSummary" where
  "merge_record s r =
     s\<lparr>ls_total := add64 (ls_total s) (sr_total r),
       ls_ok := add64 (ls_ok s) (sr_ok r),
       ls_fail := add64 (ls_fail s) (sr_fail r),
       ls_unparsed := add64 (ls_unparsed s) (sr_unparsed r),
       ls_byOperation := foldl (\<lambda>ops e. count_op (oc_operationId e) (oc_ok e) (oc_fail e) ops)
         (ls_byOperation s) (sr_byOperation r),
       ls_firstTimestamp := (if ls_firstTimestamp s = [] then sr_firstTimestamp r else ls_firstTimestamp s),
       ls_lastTimestamp := (if sr_lastTimestamp r \<noteq> [] then sr_lastTimestamp r else ls_lastTimestamp s)\<rparr>"

definition fold_line :: "fold_state \<Rightarrow> string \<Rightarrow> fold_state" where
  "fold_line f line =
     (let f1 = f\<lparr>fo_before := add64 (fo_before f) 1\<rparr>
      in case ParseAuditSummaryLine line of
           None \<Rightarrow> f1\<lparr>fo_kept := fo_kept f @ [line]\<rparr>
         | Some r \<Rightarrow> f1\<lparr>fo_ranges := add64 (fo_ranges f) 1, fo_merged := merge_record (fo_merged f) r\<rparr>)"

definition fold_record :: "path \<Rightarrow> FoldSummaryResult \<Rightarrow> CompactOptions \<Rightarrow> AuditRecord" where
  "fold_record auditPath result options =
     \<lparr>ar_operationId = ''audit.fold'', ar_risk = R0, ar_caller = ''audit'',
      ar_target = path_stem auditPath @ path_extension auditPath,
      ar_detail = ''merged_ranges='' @ dec_of_nat (fr_mergedRanges result) @
        '' before='' @ dec_of_nat (fr_beforeLines result) @ '' after='' @ dec_of_nat (fr_afterLines result) @
        '' unparsable_kept='' @ dec_of_nat (fr_unparsableKept result) @
        '' summary_max_bytes='' @ dec_of_nat (co_summaryMaxBytes options),
      ar_ok = True, ar_at = 0\<rparr>"

definition fold_write ::
  "(u32 \<Rightarrow> string) \<Rightarrow> disk_faults \<Rightarrow> string \<Rightarrow> path \<Rightarrow> CompactOptions \<Rightarrow> fold_state \<Rightarrow> disk \<Rightarrow>
   FoldSummaryResult result \<times> disk" where
  "fold_write sysmsg io timestamp sp options f d =
     (let result = \<lparr>fr_folded = False, fr_beforeLines = fo_before f, fr_afterLines = fo_before f,
            fr_mergedRanges = fo_ranges f, fr_unparsableKept = length (fo_kept f)\<rparr>
      in if fo_ranges f = 0 then (Success result, d)
         else if 1 + length (fo_kept f) \<ge> fo_before f then (Success result, d)
         else
           (let rewritten = FormatAuditSummaryLine (fo_merged f) # fo_kept f
            in case temp_replace io sp (unlines rewritten) d of
                 (Inl (Temp_open c), d1) \<Rightarrow>
                   (Failure (FromWin32 sysmsg c ''create audit summary temp file''), d1)
               | (Inl (Temp_flush c _), d1) \<Rightarrow>
                   (Failure (FromWin32 sysmsg c ''write audit summary temp file''), d1)
               | (Inl (Temp_move c), d1) \<Rightarrow>
                   (Failure (FromWin32 sysmsg c ''MoveFileExW(audit summary fold)''), d1)
               | (Inr _, d1) \<Rightarrow>
                   (let result1 = result\<lparr>fr_folded := True, fr_afterLines := length rewritten\<rparr>;
                        auditPath = AuditPathForSummary sp
                    in if auditPath = [] then (Success result1, d1)
                       else case AppendAuditLine sysmsg io timestamp auditPath
                                   (fold_record auditPath result1 options) d1 of
                              (Inl e, d2) \<Rightarrow> (Failure e, d2)
                            | (Inr _, d2) \<Rightarrow> (Success result1, d2))))"

definition FoldAuditSummaryFile ::
  "(u32 \<Rightarrow> string) \<Rightarrow> disk_faults \<Rightarrow> string \<Rightarrow> path \<Rightarrow> CompactOptions \<Rightarrow> disk \<Rightarrow> FoldSummaryResult result \<times> disk" where
  "FoldAuditSummaryFile sysmsg io timestamp sp options d =
     (if sp = [] then (Failure (Error_Validation ''FoldAuditSummaryFile'' ''path must not be empty''), d)
      else if is_directory io d sp
        then (Failure (Error_Validation ''FoldAuditSummaryFile'' ''the summary path is a directory, not a file''), d)
      else case fail_stat io sp of
             Some c \<Rightarrow> (Failure (FromWin32 sysmsg c ''is_directory(audit summary)''), d)
           | None \<Rightarrow>
      (case path_exists io d sp of
         (False, Some c) \<Rightarrow> (Failure (FromWin32 sysmsg c ''exists(audit summary)''), d)
       | (False, None) \<Rightarrow> (Success FoldSummaryResult_empty, d)
       | (True, _) \<Rightarrow>
           (case file_size io d sp of
              Inl c \<Rightarrow> (Failure (FromWin32 sysmsg c ''file_size(audit summary)''), d)
            | Inr sz \<Rightarrow>
                if co_summaryMaxBytes options = 0 \<or> sz < co_summaryMaxBytes options
                then (Success FoldSummaryResult_empty, d)
                else if sz > kMaxSummaryReadBytes
                then (Failure (Error_Validation ''FoldAuditSummaryFile''
                        ''summary file exceeds the fold read limit (64 MiB)''), d)
                else (case open_read io d sp of
                        Inl c \<Rightarrow> (Failure (FromWin32 sysmsg c ''open audit summary for fold''), d)
                      | Inr st \<Rightarrow>
                          (case in_bad st of
                             Some c \<Rightarrow> (Failure (FromWin32 sysmsg c ''read audit summary for fold''), d)
                           | None \<Rightarrow>
                               fold_write sysmsg io timestamp sp options
                                 (foldl fold_line fold_start (in_lines st)) d)))))"

section \<open>Parsed summary lines print again\<close>

definition no_LF :: "string \<Rightarrow> bool" where "no_LF s \<longleftrightarrow> LF \<notin> set s"

definition record_ok :: "AuditSummaryRecord \<Rightarrow> bool" where
  "record_ok r \<longleftrightarrow>
     range_ok (sr_firstTimestamp r) (sr_lastTimestamp r) \<and>
     no_LF (sr_firstTimestamp r) \<and> no_LF (sr_lastTimestamp r) \<and>
     (\<forall>e \<in> set (sr_byOperation r). op_ok e \<and> no_LF (oc_operationId e))"

lemma count_ok_extend: "v \<le> kCountLimit \<Longrightarrow> is_digit c \<Longrightarrow> count_ok (v * 10 + digit_val c)"
  using digit_val_less [of c] by (simp add: count_ok_def)

lemma parse_digits_count_ok: "parse_digits_from v s = Some n \<Longrightarrow> count_ok v \<Longrightarrow> count_ok n"
  by (induction v s rule: parse_digits_from.induct) (auto simp: count_ok_extend split: if_splits)

lemma ParseDigits_count_ok: "ParseDigits s = Some n \<Longrightarrow> count_ok n"
  using parse_digits_count_ok [of 0 s n] by (simp add: ParseDigits_def count_ok_def split: if_splits)

lemma ParseOperationCount_ok:
  assumes "ParseOperationCount t = Some e" and "CHR '' '' \<notin> set t" and "no_LF t"
  shows "op_ok e \<and> no_LF (oc_operationId e)"
proof -
  from assms(1) obtain op v where s: "split_first (CHR ''='') t = Some (op, v)" and ne: "op \<noteq> []"
    and e: "oc_operationId e = op" "count_ok (oc_ok e)" "count_ok (oc_fail e)"
    by (auto simp: ParseOperationCount_def split: option.splits prod.splits if_splits simp: ParseDigits_count_ok)
  with split_first_Some [OF s] assms(2,3) show ?thesis by (auto simp: op_ok_def no_LF_def)
qed

lemma parse_op_fields_ok:
  "parse_op_fields ts = Some es \<Longrightarrow> \<forall>t \<in> set ts. CHR '' '' \<notin> set t \<and> no_LF t \<Longrightarrow>
   \<forall>e \<in> set es. op_ok e \<and> no_LF (oc_operationId e)"
  by (induction ts arbitrary: es) (auto split: option.splits dest: ParseOperationCount_ok)

lemma tokens_acc_chars:
  "CHR '' '' \<notin> set cur \<Longrightarrow> t \<in> set (tokens_acc cur s) \<Longrightarrow> CHR '' '' \<notin> set t \<and> set t \<subseteq> set cur \<union> set s"
  by (induction cur s rule: tokens_acc.induct) (auto split: if_splits)

lemma skip_field_chars: "set (skip_field rest key) \<subseteq> set rest"
proof
  fix x
  assume "x \<in> set (skip_field rest key)"
  then obtain a b u t where s: "split_sub key rest = Some (a, b)"
    and f: "split_first (CHR '' '') (key @ b) = Some (u, t)" and x: "x \<in> set t"
    by (auto simp: skip_field_def split: option.splits prod.splits) metis
  have "x \<in> set (key @ b)" using x split_first_Some [OF f] by auto
  then show "x \<in> set rest" using split_sub_Some [OF s] by auto
qed

lemma foldl_skip_chars: "set (foldl skip_field s keys) \<subseteq> set s"
  by (induction keys arbitrary: s) (use skip_field_chars in fastforce)+

lemma parse_range_ok:
  assumes "split_sub summary_marker line = Some (rng, flds)" and "parse_range rng = Some (f, l)"
  shows "range_ok f l \<and> (f = [] \<or> rng = f @ ''..'' @ l)"
proof (cases "rng = []")
  case False
  with assms(2) have s: "split_sub ''..'' rng = Some (f, l)" and ne: "f \<noteq> []" "l \<noteq> []"
    by (auto simp: parse_range_def split: option.splits if_splits)
  have "rng = f @ ''..'' @ l" using split_sub_Some [OF s] by simp
  with split_sub_fixed [OF s] split_sub_fixed [OF assms(1)] ne show ?thesis by (simp add: range_ok_def)
qed (use assms(2) in \<open>simp add: parse_range_def range_ok_def\<close>)

lemma ParseAuditSummaryLine_ok:
  assumes "ParseAuditSummaryLine line = Some r" and nl: "LF \<notin> set line"
  shows "record_ok r"
proof -
  from assms(1) obtain rng flds f l where m: "split_sub summary_marker line = Some (rng, flds)"
    and r: "parse_range rng = Some (f, l)" "sr_firstTimestamp r = f" "sr_lastTimestamp r = l"
    and o: "parse_op_fields (tokens_acc [] (foldl skip_field flds [''total='', ''ok='', ''fail='', ''unparsed=''])) =
      Some (sr_byOperation r)"
    unfolding ParseAuditSummaryLine_def by (auto split: option.splits prod.splits)
  have line: "line = rng @ summary_marker @ flds" using split_sub_Some [OF m] .
  have "\<forall>t \<in> set (tokens_acc [] (foldl skip_field flds [''total='', ''ok='', ''fail='', ''unparsed=''])).
      CHR '' '' \<notin> set t \<and> no_LF t"
    using tokens_acc_chars [of "[]"] foldl_skip_chars [of flds] nl line unfolding no_LF_def by fastforce
  from parse_op_fields_ok [OF o this] parse_range_ok [OF m r(1)] r nl line show ?thesis
    by (auto simp: record_ok_def no_LF_def range_ok_def)
qed

lemma range_ok_merge:
  assumes "range_ok f1 l1" and "range_ok f2 l2" and "f1 \<noteq> []" and "f2 \<noteq> []"
  shows "range_ok f1 l2"
proof -
  have a: "split_sub summary_marker (f1 @ (''..'' @ l1) @ summary_marker) = Some (f1 @ ''..'' @ l1, [])"
    and b: "split_sub summary_marker ((f2 @ ''..'') @ l2 @ summary_marker) = Some ((f2 @ ''..'') @ l2, [])"
    using assms by (auto simp: range_ok_def)
  have n: "split_sub summary_marker f1 = None" by (rule split_sub_before [OF a]) simp_all
  have s: "split_sub summary_marker (l2 @ summary_marker) = Some (l2, [])" by (rule split_sub_suffix [OF b])
  have "split_sub summary_marker ([] @ CHR ''.'' # l2 @ summary_marker) = Some ([] @ CHR ''.'' # l2, [])"
    by (subst split_sub_skip) (use s in simp_all)
  with split_sub_skip [OF n, of "CHR ''.''" "CHR ''.'' # l2 @ summary_marker"]
  have "split_sub summary_marker (f1 @ ''..'' @ l2 @ summary_marker) = Some (f1 @ ''..'' @ l2, [])"
    by simp
  with assms show ?thesis by (auto simp: range_ok_def)
qed

section \<open>Merging summaries\<close>

definition entry_sum :: "AuditOperationCount list \<Rightarrow> string \<Rightarrow> bool \<Rightarrow> nat" where
  "entry_sum es op b =
     sum_list (map (\<lambda>e. if oc_operationId e = op then (if b then oc_ok e else oc_fail e) else 0) es)"

definition ops_weight :: "AuditOperationCount list \<Rightarrow> nat" where
  "ops_weight es = sum_list (map (\<lambda>e. oc_ok e + oc_fail e) es)"

definition record_weight :: "AuditSummaryRecord \<Rightarrow> nat" where
  "record_weight r = sr_total r + sr_ok r + sr_fail r + sr_unparsed r + ops_weight (sr_byOperation r)"

definition summary_weight :: "AuditLineSummary \<Rightarrow> nat" where
  "summary_weight s = ls_total s + ls_ok s + ls_fail s + ls_unparsed s + ops_weight (ls_byOperation s)"

lemma count_ok_mono: "count_ok n \<Longrightarrow> m \<le> n \<Longrightarrow> count_ok m"
  unfolding count_ok_def by (meson div_le_mono le_trans)

lemma count_ok_less: "count_ok n \<Longrightarrow> n < 2 ^ 64"
  by (simp add: count_ok_def kCountLimit_def)

lemma count_op_merge:
  assumes "\<forall>e \<in> set es. op_ok e \<and> no_LF (oc_operationId e)" and "count_ok (ops_weight es + k + f)"
    and "op \<noteq> []" "CHR '' '' \<notin> set op" "CHR ''='' \<notin> set op" "no_LF op"
  shows "(\<forall>e \<in> set (count_op op k f es). op_ok e \<and> no_LF (oc_operationId e)) \<and>
    ops_weight (count_op op k f es) = ops_weight es + k + f \<and>
    entry_sum (count_op op k f es) op' b = entry_sum es op' b + (if op' = op then (if b then k else f) else 0)"
  using assms
proof (induction es)
  case Nil
  then have "k < 2 ^ 64" "f < 2 ^ 64" "count_ok k" "count_ok f"
    using count_ok_less [of "k + f"] count_ok_mono [of "k + f"] by (simp_all add: ops_weight_def)
  with Nil show ?case by (auto simp: ops_weight_def entry_sum_def op_ok_def add64_small)
next
  case (Cons e es)
  have w: "count_ok (oc_ok e + k)" "count_ok (oc_fail e + f)" "count_ok (ops_weight es + k + f)"
    using Cons.prems(2) by (auto elim!: count_ok_mono simp: ops_weight_def)
  show ?case
  proof (cases "oc_operationId e = op")
    case True
    with Cons.prems w count_ok_less show ?thesis
      by (auto simp: ops_weight_def entry_sum_def op_ok_def add64_small)
  next
    case False
    from Cons.IH [OF _ w(3) assms(3-6)] Cons.prems(1) False show ?thesis
      by (auto simp: ops_weight_def entry_sum_def)
  qed
qed

lemma foldl_count_op_merge:
  assumes "\<forall>e \<in> set es. op_ok e \<and> no_LF (oc_operationId e)" and "\<forall>e \<in> set ns. op_ok e \<and> no_LF (oc_operationId e)"
    and "count_ok (ops_weight es + ops_weight ns)"
  defines "res \<equiv> foldl (\<lambda>ops e. count_op (oc_operationId e) (oc_ok e) (oc_fail e) ops) es ns"
  shows "(\<forall>e \<in> set res. op_ok e \<and> no_LF (oc_operationId e)) \<and> ops_weight res = ops_weight es + ops_weight ns \<and>
    (\<forall>op b. entry_sum res op b = entry_sum es op b + entry_sum ns op b)"
  using assms(1-3) unfolding res_def
proof (induction ns arbitrary: es)
  case Nil
  then show ?case by (simp add: ops_weight_def entry_sum_def)
next
  case (Cons n ns)
  have ok: "oc_operationId n \<noteq> []" "CHR '' '' \<notin> set (oc_operationId n)" "CHR ''='' \<notin> set (oc_operationId n)"
    "no_LF (oc_operationId n)" using Cons.prems(2) by (auto simp: op_ok_def)
  have w: "count_ok (ops_weight es + oc_ok n + oc_fail n)"
    using Cons.prems(3) by (auto elim!: count_ok_mono simp: ops_weight_def)
  note one = count_op_merge [OF Cons.prems(1) w ok]
  let ?es = "count_op (oc_operationId n) (oc_ok n) (oc_fail n) es"
  have "count_ok (ops_weight ?es + ops_weight ns)"
    using one Cons.prems(3) by (simp add: ops_weight_def add.assoc)
  with Cons.IH [of ?es] one Cons.prems(2) show ?case
    by (auto simp: ops_weight_def entry_sum_def)
qed

definition merged_ok :: "AuditLineSummary \<Rightarrow> bool" where
  "merged_ok s \<longleftrightarrow> range_ok (ls_firstTimestamp s) (ls_lastTimestamp s) \<and>
     no_LF (ls_firstTimestamp s) \<and> no_LF (ls_lastTimestamp s) \<and>
     (\<forall>e \<in> set (ls_byOperation s). op_ok e \<and> no_LF (oc_operationId e))"

lemma merged_summary_ok: "merged_ok s \<Longrightarrow> count_ok (summary_weight s) \<Longrightarrow> summary_ok s"
  unfolding merged_ok_def summary_ok_def by (auto elim!: count_ok_mono simp: summary_weight_def)

lemma range_ok_empty: "range_ok f l \<Longrightarrow> f = [] \<longleftrightarrow> l = []"
  by (auto simp: range_ok_def)

lemma merge_record_ok:
  assumes s: "merged_ok s" and r: "record_ok r" and w: "count_ok (summary_weight s + record_weight r)"
  shows "merged_ok (merge_record s r)"
    and "summary_weight (merge_record s r) = summary_weight s + record_weight r"
    and "ls_total (merge_record s r) = ls_total s + sr_total r"
    and "ls_ok (merge_record s r) = ls_ok s + sr_ok r"
    and "ls_fail (merge_record s r) = ls_fail s + sr_fail r"
    and "ls_unparsed (merge_record s r) = ls_unparsed s + sr_unparsed r"
    and "entry_sum (ls_byOperation (merge_record s r)) op b =
      entry_sum (ls_byOperation s) op b + entry_sum (sr_byOperation r) op b"
proof -
  have "summary_weight s + record_weight r < 2 ^ 64" using w by (rule count_ok_less)
  then have c: "ls_total s + sr_total r < 2 ^ 64" "ls_ok s + sr_ok r < 2 ^ 64"
    "ls_fail s + sr_fail r < 2 ^ 64" "ls_unparsed s + sr_unparsed r < 2 ^ 64"
    by (auto simp: summary_weight_def record_weight_def)
  have wo: "count_ok (ops_weight (ls_byOperation s) + ops_weight (sr_byOperation r))"
    using w by (auto elim!: count_ok_mono simp: summary_weight_def record_weight_def)
  note ops = foldl_count_op_merge [OF _ _ wo]
  have so: "\<forall>e \<in> set (ls_byOperation s). op_ok e \<and> no_LF (oc_operationId e)"
    and ro: "\<forall>e \<in> set (sr_byOperation r). op_ok e \<and> no_LF (oc_operationId e)"
    using s r by (auto simp: merged_ok_def record_ok_def)
  note ops = ops [OF so ro]
  show t: "ls_total (merge_record s r) = ls_total s + sr_total r"
    "ls_ok (merge_record s r) = ls_ok s + sr_ok r" "ls_fail (merge_record s r) = ls_fail s + sr_fail r"
    "ls_unparsed (merge_record s r) = ls_unparsed s + sr_unparsed r"
    using c by (simp_all add: merge_record_def add64_small)
  show "entry_sum (ls_byOperation (merge_record s r)) op b =
      entry_sum (ls_byOperation s) op b + entry_sum (sr_byOperation r) op b"
    using ops by (simp add: merge_record_def)
  show "summary_weight (merge_record s r) = summary_weight s + record_weight r"
    unfolding summary_weight_def t record_weight_def using ops by (simp add: merge_record_def)
  have "range_ok (ls_firstTimestamp (merge_record s r)) (ls_lastTimestamp (merge_record s r))"
    using s r range_ok_merge [of "ls_firstTimestamp s" "ls_lastTimestamp s" "sr_firstTimestamp r" "sr_lastTimestamp r"]
      range_ok_empty [of "ls_firstTimestamp s" "ls_lastTimestamp s"]
      range_ok_empty [of "sr_firstTimestamp r" "sr_lastTimestamp r"]
    by (auto simp: merge_record_def merged_ok_def record_ok_def)
  with ops s r show "merged_ok (merge_record s r)"
    by (auto simp: merge_record_def merged_ok_def record_ok_def)
qed

section \<open>Folding\<close>

abbreviation foreign :: "string \<Rightarrow> bool" where
  "foreign l \<equiv> ParseAuditSummaryLine l = None"

definition line_weight :: "string \<Rightarrow> nat" where
  "line_weight l = (case ParseAuditSummaryLine l of None \<Rightarrow> 0 | Some r \<Rightarrow> record_weight r)"

text \<open>All counts of a summary file together stay within what the parser reads.\<close>

definition fold_fits :: "string list \<Rightarrow> bool" where
  "fold_fits ls \<longleftrightarrow> count_ok (sum_list (map line_weight ls)) \<and> length ls < 2 ^ 64"

definition op_total :: "string list \<Rightarrow> string \<Rightarrow> bool \<Rightarrow> nat" where
  "op_total ls op b = sum_list (map (\<lambda>l. case ParseAuditSummaryLine l of
     None \<Rightarrow> 0 | Some r \<Rightarrow> entry_sum (sr_byOperation r) op b) ls)"

definition fold_inv :: "string list \<Rightarrow> fold_state \<Rightarrow> bool" where
  "fold_inv ls f \<longleftrightarrow>
     fo_before f = length ls \<and> fo_ranges f = length (filter (\<lambda>l. \<not> foreign l) ls) \<and>
     fo_kept f = filter foreign ls \<and> merged_ok (fo_merged f) \<and>
     summary_weight (fo_merged f) = sum_list (map line_weight ls) \<and>
     (\<forall>op b. entry_sum (ls_byOperation (fo_merged f)) op b = op_total ls op b) \<and>
     AnalyzeAuditSummaryLines ls =
       \<lparr>ct_ranges = fo_ranges f, ct_total = ls_total (fo_merged f), ct_ok = ls_ok (fo_merged f),
        ct_fail = ls_fail (fo_merged f), ct_unparsed = ls_unparsed (fo_merged f),
        ct_unparsable = length (fo_kept f), ct_firstTimestamp = ls_firstTimestamp (fo_merged f),
        ct_lastTimestamp = ls_lastTimestamp (fo_merged f)\<rparr>"

lemma Analyze_snoc: "AnalyzeAuditSummaryLines (ls @ [l]) = analyze_line (AnalyzeAuditSummaryLines ls) l"
  by (simp add: AnalyzeAuditSummaryLines_def)

lemma fold_inv_start: "fold_inv [] fold_start"
  by (simp add: fold_inv_def fold_start_def AuditLineSummary_empty_def merged_ok_def range_ok_def no_LF_def
      summary_weight_def ops_weight_def entry_sum_def op_total_def AnalyzeAuditSummaryLines_def
      AuditCompactionTotals_empty_def)

lemma fold_inv_line:
  assumes inv: "fold_inv ls f" and fits: "fold_fits (ls @ [l])" and nl: "LF \<notin> set l"
  shows "fold_inv (ls @ [l]) (fold_line f l)"
proof -
  have len: "length ls + 1 < 2 ^ 64" using fits by (simp add: fold_fits_def)
  have k: "length (filter P ls) + 1 < 2 ^ 64" for P
    using len le_less_trans [OF add_right_mono [OF length_filter_le [of P ls]]] by blast
  show ?thesis
  proof (cases "ParseAuditSummaryLine l")
    case None
    with inv len k [of foreign] show ?thesis
      by (auto simp: fold_inv_def fold_line_def Let_def Analyze_snoc analyze_line_def add64_small line_weight_def
          op_total_def)
  next
    case (Some r)
    have ok: "merged_ok (fo_merged f)" and w: "summary_weight (fo_merged f) = sum_list (map line_weight ls)"
      using inv by (simp_all add: fold_inv_def)
    have "count_ok (summary_weight (fo_merged f) + record_weight r)"
      using fits w Some by (simp add: fold_fits_def line_weight_def)
    note m = merge_record_ok [OF ok ParseAuditSummaryLine_ok [OF Some nl] this]
    have first: "ls_firstTimestamp (merge_record (fo_merged f) r) =
        (if ls_firstTimestamp (fo_merged f) = [] then sr_firstTimestamp r else ls_firstTimestamp (fo_merged f))"
      and lst: "ls_lastTimestamp (merge_record (fo_merged f) r) =
        (if sr_lastTimestamp r \<noteq> [] then sr_lastTimestamp r else ls_lastTimestamp (fo_merged f))"
      by (simp_all add: merge_record_def)
    have t: "add64 (ls_total (fo_merged f)) (sr_total r) = ls_total (merge_record (fo_merged f) r)"
      "add64 (ls_ok (fo_merged f)) (sr_ok r) = ls_ok (merge_record (fo_merged f) r)"
      "add64 (ls_fail (fo_merged f)) (sr_fail r) = ls_fail (merge_record (fo_merged f) r)"
      "add64 (ls_unparsed (fo_merged f)) (sr_unparsed r) = ls_unparsed (merge_record (fo_merged f) r)"
      by (simp_all add: merge_record_def)
    have "fold_line f l = f\<lparr>fo_before := length ls + 1, fo_ranges := fo_ranges f + 1,
        fo_merged := merge_record (fo_merged f) r\<rparr>"
      using Some inv len k [of "\<lambda>l. \<not> foreign l"]
      by (simp add: fold_line_def Let_def fold_inv_def add64_small del: not_None_eq)
    moreover have "AnalyzeAuditSummaryLines (ls @ [l]) =
       \<lparr>ct_ranges = fo_ranges f + 1, ct_total = ls_total (merge_record (fo_merged f) r),
        ct_ok = ls_ok (merge_record (fo_merged f) r), ct_fail = ls_fail (merge_record (fo_merged f) r),
        ct_unparsed = ls_unparsed (merge_record (fo_merged f) r), ct_unparsable = length (fo_kept f),
        ct_firstTimestamp = ls_firstTimestamp (merge_record (fo_merged f) r),
        ct_lastTimestamp = ls_lastTimestamp (merge_record (fo_merged f) r)\<rparr>"
      using Some inv k [of "\<lambda>l. \<not> foreign l"] unfolding first lst
      by (simp add: Analyze_snoc analyze_line_def fold_inv_def add64_small t del: not_None_eq)
    ultimately show ?thesis
      using inv Some m(1,2,7) by (simp add: fold_inv_def line_weight_def op_total_def)
  qed
qed

lemma fold_inv_lines:
  "fold_fits ls \<Longrightarrow> \<forall>l \<in> set ls. LF \<notin> set l \<Longrightarrow> fold_inv ls (foldl fold_line fold_start ls)"
proof (induction ls rule: rev_induct)
  case Nil
  then show ?case by (simp add: fold_inv_start)
next
  case (snoc l ls)
  have "fold_fits ls" using snoc.prems(1) by (auto simp: fold_fits_def elim: count_ok_mono)
  with snoc fold_inv_line show ?case by simp
qed

lemma Analyze_foreign:
  assumes "\<forall>l \<in> set ls. foreign l" and "ct_unparsable c + length ls < 2 ^ 64"
  shows "foldl analyze_line c ls = c\<lparr>ct_unparsable := ct_unparsable c + length ls\<rparr>"
  using assms
proof (induction ls arbitrary: c)
  case (Cons l ls)
  then have "analyze_line c l = c\<lparr>ct_unparsable := ct_unparsable c + 1\<rparr>"
    by (simp add: analyze_line_def add64_small)
  with Cons show ?case by simp
qed simp

lemma Format_no_LF:
  assumes "merged_ok s"
  shows "LF \<notin> set (FormatAuditSummaryLine s)"
proof -
  have "LF \<notin> set (op_field e)" if "e \<in> set (ls_byOperation s)" for e
    using that assms dec_of_nat_notin [of LF] by (auto simp: merged_ok_def op_field_def no_LF_def)
  then show ?thesis
    using assms dec_of_nat_notin [of LF] by (auto simp: FormatAuditSummaryLine_def merged_ok_def no_LF_def)
qed

lemma folded_lines:
  assumes inv: "fold_inv ls f" and fits: "fold_fits ls"
  defines "new \<equiv> FormatAuditSummaryLine (fo_merged f) # fo_kept f"
  shows "AnalyzeAuditSummaryLines new = (AnalyzeAuditSummaryLines ls)\<lparr>ct_ranges := 1\<rparr>"
    and "op_total new op b = op_total ls op b"
    and "filter foreign new = filter foreign ls"
proof -
  have "summary_ok (fo_merged f)"
    using inv fits by (auto simp: fold_inv_def fold_fits_def intro: merged_summary_ok)
  note p = ParseAuditSummaryLine_Format [OF this]
  have kept: "\<forall>l \<in> set (fo_kept f). foreign l" and len: "length (fo_kept f) < 2 ^ 64"
    using inv fits le_less_trans [OF length_filter_le] by (auto simp: fold_inv_def fold_fits_def)
  have small: "count_ok (summary_weight (fo_merged f))" using inv fits by (simp add: fold_inv_def fold_fits_def)
  then have "ls_total (fo_merged f) < 2 ^ 64" "ls_ok (fo_merged f) < 2 ^ 64" "ls_fail (fo_merged f) < 2 ^ 64"
    "ls_unparsed (fo_merged f) < 2 ^ 64"
    by (auto dest!: count_ok_less simp: summary_weight_def)
  then have one: "analyze_line AuditCompactionTotals_empty (FormatAuditSummaryLine (fo_merged f)) =
      \<lparr>ct_ranges = 1, ct_total = ls_total (fo_merged f), ct_ok = ls_ok (fo_merged f),
        ct_fail = ls_fail (fo_merged f), ct_unparsed = ls_unparsed (fo_merged f),
        ct_unparsable = 0, ct_firstTimestamp = ls_firstTimestamp (fo_merged f),
        ct_lastTimestamp = ls_lastTimestamp (fo_merged f)\<rparr>"
    by (simp add: analyze_line_def p as_record_def AuditCompactionTotals_empty_def add64_small)
  show "AnalyzeAuditSummaryLines new = (AnalyzeAuditSummaryLines ls)\<lparr>ct_ranges := 1\<rparr>"
    using inv Analyze_foreign [OF kept] len unfolding new_def
    by (simp add: AnalyzeAuditSummaryLines_def [of "_ # _"] one fold_inv_def)
  have "op_total (fo_kept f) op b = 0" using kept by (simp add: op_total_def)
  then show "op_total new op b = op_total ls op b"
    using inv unfolding new_def by (simp add: op_total_def p as_record_def fold_inv_def)
  have "fo_kept f = filter foreign ls" using inv by (simp add: fold_inv_def)
  then show "filter foreign new = filter foreign ls" unfolding new_def by (simp add: p)
qed

lemma FoldAuditSummaryFile_folded:
  assumes "FoldAuditSummaryFile sysmsg io ts sp options d = (Success v, d')" and "fr_folded v"
  obtains s where "files d sp = Some s"
    "fold_write sysmsg io ts sp options (foldl fold_line fold_start (getlines s)) d = (Success v, d')"
    "length s \<le> kMaxSummaryReadBytes"
proof -
  note run = assms(1) [unfolded FoldAuditSummaryFile_def]
  have a: "sp \<noteq> []" "\<not> is_directory io d sp" using run by (auto split: if_splits)
  have b: "fail_stat io sp = None" using run a by (cases "fail_stat io sp") simp_all
  have c: "files d sp \<noteq> None"
    using run a b assms(2)
    by (cases "files d sp") (auto simp: path_exists_def is_directory_def FoldSummaryResult_empty_def)
  then obtain s where s: "files d sp = Some s" by blast
  have e: "path_exists io d sp = (True, None)" using b s by (simp add: path_exists_def)
  have f: "file_size io d sp = Inr (length s)"
    using run a b e s by (cases "fail_size io sp") (simp_all add: file_size_def)
  have g: "\<not> (co_summaryMaxBytes options = 0 \<or> length s < co_summaryMaxBytes options)"
    by (rule notI) (use run a b e f assms(2) in \<open>auto simp: FoldSummaryResult_empty_def\<close>)
  have h: "length s \<le> kMaxSummaryReadBytes" using run a b e f g by (simp split: if_splits)
  obtain st where o: "open_read io d sp = Inr st" "in_bad st = None"
    using run a b e f g h by (cases "open_read io d sp") (auto split: option.splits)
  then have "in_lines st = getlines s" using s by (auto simp: open_read_def split: option.splits)
  with run a b e f g h o have "fold_write sysmsg io ts sp options (foldl fold_line fold_start (getlines s)) d = (Success v, d')"
    by simp
  with s h show thesis by (intro that)
qed

lemma fold_write_cases:
  assumes "fold_write sysmsg io ts sp options f d = (Success v, d')" and "fr_folded v"
  obtains d1 where "temp_replace io sp (unlines (FormatAuditSummaryLine (fo_merged f) # fo_kept f)) d = (Inr (), d1)"
    "d' = d1 \<or> (\<exists>r. AppendAuditLine sysmsg io ts (AuditPathForSummary sp) r d1 = (Success (), d'))"
    "fr_afterLines v = 1 + length (fo_kept f)" "fr_beforeLines v = fo_before f" "1 + length (fo_kept f) < fo_before f"
proof -
  note run = assms(1) [unfolded fold_write_def Let_def]
  have c: "fo_ranges f \<noteq> 0" "\<not> fo_before f \<le> 1 + length (fo_kept f)" using run assms(2) by (auto split: if_splits)
  obtain r d1 where t: "temp_replace io sp (unlines (FormatAuditSummaryLine (fo_merged f) # fo_kept f)) d = (r, d1)"
    by fastforce
  from run c t have r: "r = Inr ()"
    by (cases r) (auto split: replace_fault.splits)
  obtain r2 d2 where a: "AppendAuditLine sysmsg io ts (AuditPathForSummary sp) (fold_record (AuditPathForSummary sp)
      \<lparr>fr_folded = True, fr_beforeLines = fo_before f, fr_afterLines = 1 + length (fo_kept f),
       fr_mergedRanges = fo_ranges f, fr_unparsableKept = length (fo_kept f)\<rparr> options) d1 = (r2, d2)"
    by fastforce
  show thesis
  proof (cases "AuditPathForSummary sp = []")
    case True
    with run c t r that show thesis by auto
  next
    case False
    with run c t r a have "r2 = Inr ()" "d' = d2" "fr_afterLines v = 1 + length (fo_kept f)" "fr_beforeLines v = fo_before f"
      by (cases r2; auto)+
    with a c t r that show thesis by auto
  qed
qed

lemma fold_write_folded:
  assumes "fold_write sysmsg io ts sp options f d = (Success v, d')" and "fr_folded v"
    and "AuditPathForSummary sp \<noteq> sp"
  shows "files d' sp = Some (unlines (FormatAuditSummaryLine (fo_merged f) # fo_kept f)) \<and>
    fr_afterLines v = 1 + length (fo_kept f) \<and> fr_beforeLines v = fo_before f \<and> 1 + length (fo_kept f) < fo_before f"
proof -
  obtain d1 where t: "temp_replace io sp (unlines (FormatAuditSummaryLine (fo_merged f) # fo_kept f)) d = (Inr (), d1)"
    and rest: "d' = d1 \<or> (\<exists>r. AppendAuditLine sysmsg io ts (AuditPathForSummary sp) r d1 = (Success (), d'))"
    and v: "fr_afterLines v = 1 + length (fo_kept f)" "fr_beforeLines v = fo_before f" "1 + length (fo_kept f) < fo_before f"
    using fold_write_cases [OF assms(1,2)] by blast
  have "files d' sp = files d1 sp"
    using rest audit_file.append_frame assms(3) by metis
  with temp_replace_ok [OF t] v show ?thesis by simp
qed

text \<open>
  C27: Folding the summary file preserves what the review reads from it.  After a successful fold
  the file has fewer lines; the review of the new file gives the same totals, the same time range
  and the same number of foreign lines as before, with one range instead of many; the counts of
  every operation are unchanged; and foreign lines are kept verbatim and in order.\<close>
theorem FoldAuditSummaryFile_keeps_totals:
  assumes run: "FoldAuditSummaryFile sysmsg io ts sp options d = (Success v, d')" and "fr_folded v"
    and fits: "fold_fits (getlines (content d sp))" and path: "AuditPathForSummary sp \<noteq> sp"
  shows "AnalyzeAuditSummaryLines (getlines (content d' sp)) =
      (AnalyzeAuditSummaryLines (getlines (content d sp)))\<lparr>ct_ranges := 1\<rparr> \<and>
    (\<forall>op b. op_total (getlines (content d' sp)) op b = op_total (getlines (content d sp)) op b) \<and>
    filter foreign (getlines (content d' sp)) = filter foreign (getlines (content d sp)) \<and>
    length (getlines (content d' sp)) < length (getlines (content d sp)) \<and>
    fr_afterLines v = length (getlines (content d' sp)) \<and> fr_beforeLines v = length (getlines (content d sp))"
proof -
  obtain s where s: "files d sp = Some s"
    and w: "fold_write sysmsg io ts sp options (foldl fold_line fold_start (getlines s)) d = (Success v, d')"
    using FoldAuditSummaryFile_folded [OF run assms(2)] by blast
  let ?f = "foldl fold_line fold_start (getlines s)"
  let ?new = "FormatAuditSummaryLine (fo_merged ?f) # fo_kept ?f"
  have c: "content d sp = s" using s by (simp add: content_Some)
  have inv: "fold_inv (getlines s) ?f" using fold_inv_lines fits getlines_no_LF c by blast
  have f: "files d' sp = Some (unlines ?new)" and v: "fr_afterLines v = 1 + length (fo_kept ?f)"
    "fr_beforeLines v = fo_before ?f" "1 + length (fo_kept ?f) < fo_before ?f"
    using fold_write_folded [OF w assms(2) path] by auto
  have "\<forall>l \<in> set ?new. LF \<notin> set l"
    using inv Format_no_LF [of "fo_merged ?f"] getlines_no_LF by (auto simp: fold_inv_def)
  then have g: "getlines (content d' sp) = ?new"
    using getlines_unlines f by (simp only: content_Some)
  have b: "fo_before ?f = length (getlines s)" using inv by (simp add: fold_inv_def)
  note new = folded_lines [OF inv fits [unfolded c]]
  show ?thesis
    unfolding g c using new v b by (intro conjI allI) simp_all
qed

text \<open>An example: two equal summary lines become one.\<close>

definition demo_summary :: AuditLineSummary where
  "demo_summary = \<lparr>ls_total = 3, ls_ok = 2, ls_fail = 1, ls_unparsed = 0,
     ls_byOperation = [\<lparr>oc_operationId = ''op'', oc_ok = 2, oc_fail = 1\<rparr>],
     ls_firstTimestamp = ''a'', ls_lastTimestamp = ''b''\<rparr>"

definition demo_fold_disk :: disk where
  "demo_fold_disk = set_file ''a-summary.log''
     (unlines [FormatAuditSummaryLine demo_summary, FormatAuditSummaryLine demo_summary]) empty_disk"

lemma demo_fold_paths: "AuditPathForSummary ''a-summary.log'' = ''a.log''" by code_simp

lemma demo_range: "range_ok ''a'' ''b''" by code_simp

lemma demo_summary_ok: "summary_ok demo_summary"
  using demo_range by (simp add: summary_ok_def demo_summary_def op_ok_def count_ok_def kCountLimit_def)

lemma demo_line: "ParseAuditSummaryLine (FormatAuditSummaryLine demo_summary) = Some (as_record demo_summary)"
  by (rule ParseAuditSummaryLine_Format [OF demo_summary_ok])

lemma demo_line_text: "FormatAuditSummaryLine demo_summary = ''a..b [audit-summary] total=3 ok=2 fail=1 unparsed=0 op=2/1''"
  by code_simp

lemma demo_fold_content: "getlines (content demo_fold_disk ''a-summary.log'') =
    [FormatAuditSummaryLine demo_summary, FormatAuditSummaryLine demo_summary]"
  unfolding demo_fold_disk_def content_def files_set_file fun_upd_same option.case
  by (rule getlines_unlines) (simp add: demo_line_text)

lemma demo_fold_fits: "fold_fits (getlines (content demo_fold_disk ''a-summary.log''))"
  unfolding demo_fold_content
  by (simp add: fold_fits_def line_weight_def demo_line)
    (simp add: record_weight_def as_record_def demo_summary_def ops_weight_def count_ok_def kCountLimit_def)

theorem FoldAuditSummaryFile_keeps_totals_witness:
  "\<exists>v d'. FoldAuditSummaryFile (\<lambda>_. []) no_faults ''t'' ''a-summary.log'' demo_options demo_fold_disk = (Success v, d') \<and>
     length (getlines (content d' ''a-summary.log'')) < 2 \<and>
     op_total (getlines (content d' ''a-summary.log'')) ''op'' True =
       op_total (getlines (content demo_fold_disk ''a-summary.log'')) ''op'' True"
proof -
  let ?sp = "''a-summary.log''" and ?L = "FormatAuditSummaryLine demo_summary"
  let ?f = "foldl fold_line fold_start [?L, ?L]"
  have f: "fo_before ?f = 2" "fo_ranges ?f = 2" "fo_kept ?f = []"
    by (simp_all add: fold_line_def demo_line fold_start_def add64_def Let_def)
  have c: "files demo_fold_disk ?sp = Some (unlines [?L, ?L])" "dirs demo_fold_disk = (\<lambda>_. False)"
    by (simp_all add: demo_fold_disk_def empty_disk_def)
  have g: "getlines (unlines [?L, ?L]) = [?L, ?L]"
    by (rule getlines_unlines) (simp add: demo_line_text)
  have len: "length (unlines [?L, ?L]) = 2 * length ?L + 2" by simp
  have ll: "length ?L = 58" by (simp add: demo_line_text)
  have run: "FoldAuditSummaryFile (\<lambda>_. []) no_faults ''t'' ?sp demo_options demo_fold_disk =
      fold_write (\<lambda>_. []) no_faults ''t'' ?sp demo_options ?f demo_fold_disk"
    using c g len ll
    by (simp add: FoldAuditSummaryFile_def is_directory_def path_exists_def file_size_def open_read_def
        kMaxSummaryReadBytes_def demo_options_def del: unlines_Cons foldl_Cons)
  obtain d1 where t: "temp_replace no_faults ?sp (unlines [FormatAuditSummaryLine (fo_merged ?f)]) demo_fold_disk = (Inr (), d1)"
    using temp_replace_no_faults [of demo_fold_disk ?sp] c(2) by (metis prod.collapse)
  have d1: "dirs d1 = (\<lambda>_. False)" using temp_replace_ok_dirs [OF t] c(2) by simp
  obtain v d' where v: "fold_write (\<lambda>_. []) no_faults ''t'' ?sp demo_options ?f demo_fold_disk = (Success v, d')" "fr_folded v"
    using t f d1 unfolding fold_write_def Let_def demo_fold_paths f
    by (simp add: AppendAuditLine_def append_text_def make_parent_def demo_paths(2) open_write_def write_flush_def Let_def)
  have "AuditPathForSummary ?sp \<noteq> ?sp" by (simp add: demo_fold_paths)
  from FoldAuditSummaryFile_keeps_totals [OF run [unfolded v(1)] v(2) demo_fold_fits this] run v(1)
  show ?thesis by (simp add: demo_fold_content)
qed

end
