(* ===== verification/Config_Manager.thy ===== *)
theory Config_Manager
  imports File_System Policy_Engine Priority_Booster
begin

text \<open>
  The configuration: \<^verbatim>\<open>include/config/config_manager.hpp\<close> and
  \<^verbatim>\<open>source/config/config_manager.cpp\<close>.  The TOML library is not part of the program: its parser
  and its node accessors are a record of functions over an abstract type of nodes
  (\<open>toml_api\<close>), and every theorem holds for all of them.  A double is kept as its bit
  pattern.  The file operations of \<open>AppendGameRules\<close> run on the disk of \<open>File_System\<close>.
\<close>

section \<open>The snapshot\<close>

datatype RunMode = Observe | Balanced | Experimental

datatype CleanLevel = Clean_None | Clean_Light | Clean_Medium | Clean_Deep

record LayerConfig =
  ly_monitoring :: bool
  ly_maintenance :: bool
  ly_emergency :: bool

record PowerConfig =
  pw_executionRequired :: bool
  pw_displayRequired :: bool
  pw_switchPowerScheme :: bool

record PriorityConfig =
  pr_enabled :: bool
  pr_maxLevel :: PriorityLevel

record GpuHeartbeatConfig =
  gh_enabled :: bool
  gh_maxMeasuredLoadPercent :: u64

record PolicyConfig =
  pc_comfortableMarginPercent :: int
  pc_adequateMarginPercent :: int
  pc_tightMarginPercent :: int
  pc_cooldownMs :: int
  pc_userAwayIdleSeconds :: int
  pc_haltAfterActionFailures :: int

record SafeModeConfig =
  sm_enabled :: bool
  sm_failuresToEnter :: int
  sm_countingWindowMs :: int
  sm_cooldownMs :: int

record GameConfig =
  gc_id :: string
  gc_displayName :: string
  gc_processNames :: "string list"
  gc_windowTitleContains :: string
  gc_pauseWhenBackground :: bool

record ApplicationConfig =
  ap_mode :: RunMode
  ap_safeModeOnRecoveryError :: bool

record LoggingConfig =
  lg_level :: string
  lg_directory :: string
  lg_maxFileMb :: u32
  lg_maxFiles :: u32
  lg_console :: bool

record MemoryConfig =
  mc_queryEnabled :: bool
  mc_scheduledCleanEnabled :: bool
  mc_allowNativeWrite :: bool
  mc_maxCleanLevel :: CleanLevel

record ConfigVersion =
  cv_major :: nat
  cv_minor :: nat
  cv_patch :: nat
  cv_prerelease :: string

record ConfigSnapshot =
  cs_version :: ConfigVersion
  cs_unknownKeys :: "string list"
  cs_application :: ApplicationConfig
  cs_logging :: LoggingConfig
  cs_layers :: LayerConfig
  cs_power :: PowerConfig
  cs_priority :: PriorityConfig
  cs_memory :: MemoryConfig
  cs_gpuHeartbeat :: GpuHeartbeatConfig
  cs_scheduler :: bool
  cs_diskCache :: bool
  cs_policy :: PolicyConfig
  cs_safeMode :: SafeModeConfig
  cs_games :: "GameConfig list"
  cs_agentForm :: string

definition default_snapshot :: ConfigSnapshot where
  "default_snapshot =
     \<lparr>cs_version = \<lparr>cv_major = 1, cv_minor = 0, cv_patch = 0, cv_prerelease = []\<rparr>,
      cs_unknownKeys = [],
      cs_application = \<lparr>ap_mode = Observe, ap_safeModeOnRecoveryError = True\<rparr>,
      cs_logging = \<lparr>lg_level = ''info'', lg_directory = [], lg_maxFileMb = 10, lg_maxFiles = 5, lg_console = True\<rparr>,
      cs_layers = \<lparr>ly_monitoring = True, ly_maintenance = False, ly_emergency = False\<rparr>,
      cs_power = \<lparr>pw_executionRequired = True, pw_displayRequired = False, pw_switchPowerScheme = False\<rparr>,
      cs_priority = \<lparr>pr_enabled = False, pr_maxLevel = PL_AboveNormal\<rparr>,
      cs_memory = \<lparr>mc_queryEnabled = True, mc_scheduledCleanEnabled = False, mc_allowNativeWrite = False,
        mc_maxCleanLevel = Clean_Light\<rparr>,
      cs_gpuHeartbeat = \<lparr>gh_enabled = False, gh_maxMeasuredLoadPercent = 0x3FF0000000000000\<rparr>,
      cs_scheduler = False, cs_diskCache = False,
      cs_policy = \<lparr>pc_comfortableMarginPercent = 30, pc_adequateMarginPercent = 15, pc_tightMarginPercent = 5,
        pc_cooldownMs = 5000, pc_userAwayIdleSeconds = 0, pc_haltAfterActionFailures = 0\<rparr>,
      cs_safeMode = \<lparr>sm_enabled = True, sm_failuresToEnter = 3, sm_countingWindowMs = 5000, sm_cooldownMs = 2000\<rparr>,
      cs_games = [], cs_agentForm = ''startup_tray''\<rparr>"

section \<open>Versions\<close>

definition kSupportedConfigMajor :: nat where "kSupportedConfigMajor = 1"

definition version_error :: "string \<Rightarrow> 'a result" where
  "version_error msg = Failure (Error_Validation ''ParseConfigVersion'' msg)"

text \<open>
  The loop over the numeric part: finished segments, current value, digits seen and whether the
  first of them was zero.
\<close>

fun parse_segments :: "nat list \<Rightarrow> nat \<Rightarrow> nat \<Rightarrow> bool \<Rightarrow> string \<Rightarrow> (nat list \<times> nat) result" where
  "parse_segments done v digits zero [] = Success (done @ [v], digits)"
| "parse_segments done v digits zero (c # s) =
     (if c = CHR ''.'' then
        (if digits = 0 \<or> length done \<ge> 2
         then version_error ''version must be MAJOR.MINOR.PATCH (three numeric segments)''
         else parse_segments (done @ [v]) 0 0 False s)
      else if \<not> is_digit c then version_error (''version must be MAJOR.MINOR.PATCH (ASCII digits and '' @ [CHR 0x27, CHR ''.'', CHR 0x27] @ '')'')
      else if digits \<ge> 4 then version_error ''version segments must be <= 4 digits''
      else if digits \<noteq> 0 \<and> zero then version_error ''version segments must not have leading zeros''
      else parse_segments done (v * 10 + digit_val c) (digits + 1)
             (if digits = 0 then c = CHR ''0'' else zero) s)"

definition prerelease_char :: "char \<Rightarrow> bool" where
  "prerelease_char c \<longleftrightarrow> is_digit c \<or> is_lower c \<or> is_upper c \<or> c = CHR ''.'' \<or> c = CHR ''-''"

definition check_prerelease :: "string \<Rightarrow> unit result" where
  "check_prerelease p =
     (if p = [] \<or> length p > 32 then version_error (''prerelease must be 1..32 characters after '' @ [CHR 0x27, CHR ''-'', CHR 0x27])
      else if hd p = CHR ''.'' \<or> last p = CHR ''.'' \<or> split_sub ''..'' p \<noteq> None
        then version_error ''prerelease must not contain empty segments''
      else if \<not> list_all prerelease_char p
        then version_error (''prerelease accepts ASCII letters/digits/'' @ [CHR 0x27, CHR ''.'', CHR 0x27] @ ''/'' @
               [CHR 0x27, CHR ''-'', CHR 0x27] @ '' only'')
      else Success ())"

definition ParseConfigVersion :: "string \<Rightarrow> ConfigVersion result" where
  "ParseConfigVersion text =
     (if text = [] \<or> length text > 48 then version_error ''version must be 1..48 ASCII characters''
      else
        (let (body, pre) = (case split_first (CHR ''-'') text of
               None \<Rightarrow> (text, None) | Some (b, p) \<Rightarrow> (b, Some p))
         in case parse_segments [] 0 0 False body of
              Inl e \<Rightarrow> Failure e
            | Inr (segs, digits) \<Rightarrow>
                if digits = 0 \<or> length segs \<noteq> 3
                then version_error ''version must be MAJOR.MINOR.PATCH (three numeric segments)''
                else (case (case pre of None \<Rightarrow> Success () | Some p \<Rightarrow> check_prerelease p) of
                        Inl e \<Rightarrow> Failure e
                      | Inr _ \<Rightarrow>
                          Success \<lparr>cv_major = segs ! 0, cv_minor = segs ! 1, cv_patch = segs ! 2,
                                   cv_prerelease = (case pre of None \<Rightarrow> [] | Some p \<Rightarrow> p)\<rparr>)))"

definition FormatConfigVersion :: "ConfigVersion \<Rightarrow> string" where
  "FormatConfigVersion v =
     dec_of_nat (cv_major v) @ ''.'' @ dec_of_nat (cv_minor v) @ ''.'' @ dec_of_nat (cv_patch v) @
     (if cv_prerelease v \<noteq> [] then ''-'' @ cv_prerelease v else [])"

section \<open>Modes and levels\<close>

definition AllowsLocalReversibleActions :: "RunMode \<Rightarrow> LayerConfig \<Rightarrow> bool" where
  "AllowsLocalReversibleActions mode layers \<longleftrightarrow>
     mode \<noteq> Observe \<and> (ly_maintenance layers \<or> ly_emergency layers)"

definition AllowsSystemLevelActions :: "RunMode \<Rightarrow> LayerConfig \<Rightarrow> bool" where
  "AllowsSystemLevelActions mode layers \<longleftrightarrow> mode = Experimental \<and> ly_emergency layers"

definition ToLower :: "string \<Rightarrow> string" where
  "ToLower text = map to_lower text"

definition ParseRunMode :: "string \<Rightarrow> RunMode result" where
  "ParseRunMode name =
     (let lower = ToLower name
      in if lower = ''observe'' then Success Observe
         else if lower = ''balanced'' then Success Balanced
         else if lower = ''experimental'' then Success Experimental
         else Failure (Error_Validation ''ParseRunMode''
           ''Unknown run mode (expected observe/balanced/experimental)''))"

definition ParseCleanLevel :: "string \<Rightarrow> CleanLevel result" where
  "ParseCleanLevel name =
     (let lower = ToLower name
      in if lower = ''none'' then Success Clean_None
         else if lower = ''light'' then Success Clean_Light
         else if lower = ''medium'' then Success Clean_Medium
         else if lower = ''deep'' then Success Clean_Deep
         else Failure (Error_Validation ''ParseCleanLevel''
           ''Unknown clean level (expected none/light/medium/deep)''))"

definition ParsePriorityLevel :: "string \<Rightarrow> PriorityLevel result" where
  "ParsePriorityLevel name =
     (let lower = ToLower name
      in if lower = ''none'' then Success PL_None
         else if lower = ''above_normal'' then Success PL_AboveNormal
         else if lower = ''high'' then Success PL_High
         else if lower = ''realtime''
           then Failure (Error_Validation ''ParsePriorityLevel'' ''realtime priority is forbidden'')
         else Failure (Error_Validation ''ParsePriorityLevel''
           ''Unknown priority level (expected none/above_normal/high)''))"

section \<open>Writing game rules\<close>

text \<open>The four upper-case hexadecimal digits of a control character.\<close>

definition u_escape :: "char \<Rightarrow> string" where
  "u_escape c =
     [CHR 0x5C, CHR ''u'', CHR ''0'', CHR ''0'', hex_chr (of_char c div 16), hex_chr (of_char c mod 16)]"

definition toml_char :: "char \<Rightarrow> string" where
  "toml_char c =
     (if c = CHR 0x22 then [CHR 0x5C, CHR 0x22]
      else if c = CHR 0x5C then [CHR 0x5C, CHR 0x5C]
      else if c = CHR 0x08 then [CHR 0x5C, CHR ''b'']
      else if c = CHR 0x09 then [CHR 0x5C, CHR ''t'']
      else if c = CHR 0x0A then [CHR 0x5C, CHR ''n'']
      else if c = CHR 0x0C then [CHR 0x5C, CHR ''f'']
      else if c = CHR 0x0D then [CHR 0x5C, CHR ''r'']
      else if (of_char c :: nat) < 0x20 then u_escape c
      else [c])"

definition ToTomlString :: "string \<Rightarrow> string" where
  "ToTomlString text = [CHR 0x22] @ concat (map toml_char text) @ [CHR 0x22]"

fun join_toml :: "string list \<Rightarrow> string" where
  "join_toml [] = []"
| "join_toml [n] = ToTomlString n"
| "join_toml (n # ns) = ToTomlString n @ '', '' @ join_toml ns"

text \<open>The comment line above each rule, in its UTF-8 bytes.\<close>

definition rule_comment :: string where
  "rule_comment =
     ''# '' @ [CHR 0xE7, CHR 0x94, CHR 0xB1] @ '' CppOptimizer --add-game '' @
     [CHR 0xE7, CHR 0x94, CHR 0x9F, CHR 0xE6, CHR 0x88, CHR 0x90]"

definition game_rule_toml :: "GameConfig \<Rightarrow> string" where
  "game_rule_toml g =
     rule_comment @ [LF] @ ''[[games]]'' @ [LF] @
     ''id = '' @ ToTomlString (gc_id g) @ [LF] @
     (if gc_displayName g \<noteq> [] then ''display_name = '' @ ToTomlString (gc_displayName g) @ [LF] else []) @
     (if gc_processNames g \<noteq> []
      then ''process_names = ['' @ join_toml (gc_processNames g) @ '']'' @ [LF] else []) @
     ''pause_when_background = '' @ (if gc_pauseWhenBackground g then ''true'' else ''false'') @ [LF, LF]"

definition FormatGameRulesToml :: "GameConfig list \<Rightarrow> string" where
  "FormatGameRulesToml rules = concat (map game_rule_toml rules)"

text \<open>
  Reading the whole file with \<open>ReadFile\<close>.  A missing file (\<open>ERROR_FILE_NOT_FOUND\<close>, 2) is empty.
\<close>

definition read_all :: "(u32 \<Rightarrow> string) \<Rightarrow> disk_faults \<Rightarrow> path \<Rightarrow> disk \<Rightarrow> string result" where
  "read_all sysmsg io p d =
     (case (case fail_open_read io p of
              Some c \<Rightarrow> Inl c
            | None \<Rightarrow> (case files d p of None \<Rightarrow> Inl (if dirs d p then 5 else 2) | Some s \<Rightarrow> Inr s)) of
        Inl c \<Rightarrow> if c = 2 then Success [] else Failure (FromWin32 sysmsg c ''CreateFileW'')
      | Inr s \<Rightarrow>
          (case fail_read io p of
             Some (_, c) \<Rightarrow> Failure (FromWin32 sysmsg c ''ReadFile'')
           | None \<Rightarrow> Success s))"

definition appended_rules :: "string \<Rightarrow> GameConfig list \<Rightarrow> string" where
  "appended_rules old rules =
     (if old \<noteq> [] \<and> last old \<noteq> LF then old @ [LF] else old) @ FormatGameRulesToml rules"

text \<open>
  The temporary file is opened without sharing.  When the write fails its handle is still open, so
  \<open>DeleteFileW\<close> fails with a sharing violation and the file stays; after a failed move the handle
  is closed and the deletion can succeed.
\<close>

definition AppendGameRules ::
  "(u32 \<Rightarrow> string) \<Rightarrow> disk_faults \<Rightarrow> path \<Rightarrow> GameConfig list \<Rightarrow> disk \<Rightarrow> unit result \<times> disk" where
  "AppendGameRules sysmsg io p rules d =
     (if rules = [] then (Success (), d)
      else case read_all sysmsg io p d of
             Inl e \<Rightarrow> (Failure e, d)
           | Inr old \<Rightarrow>
               (let t = temp_path p
                in case open_write io t False d of
                     (Inl c, d1) \<Rightarrow> (Failure (FromWin32 sysmsg c ''CreateFileW(tmp)''), d1)
                   | (Inr _, d1) \<Rightarrow>
                       (case write_flush io t (appended_rules old rules) d1 of
                          (Inl c, d2) \<Rightarrow> (Failure (FromWin32 sysmsg c ''WriteFile''), d2)
                        | (Inr _, d2) \<Rightarrow>
                            (case move_replace io t p d2 of
                               (Inl c, d3) \<Rightarrow>
                                 (Failure (FromWin32 sysmsg c ''MoveFileExW''), snd (remove_file io t d3))
                             | (Inr _, d3) \<Rightarrow> (Success (), d3)))))"

section \<open>Merging game rules\<close>

fun replace_rule :: "GameConfig \<Rightarrow> GameConfig list \<Rightarrow> GameConfig list" where
  "replace_rule g [] = [g]"
| "replace_rule g (h # hs) =
     (if ToLower (gc_id h) = ToLower (gc_id g) then g # hs else h # replace_rule g hs)"

definition MergeGameRules :: "GameConfig list \<Rightarrow> GameConfig list \<Rightarrow> GameConfig list" where
  "MergeGameRules mainRules localRules = foldl (\<lambda>merged g. replace_rule g merged) mainRules localRules"

section \<open>Loading\<close>

text \<open>
  The TOML library as the code uses it: subscript (nothing when the key is absent), \<open>as_table\<close>,
  \<open>as_array\<close>, the keys of a table in iteration order, \<open>value<T>\<close> and \<open>type\<close>.
\<close>

record 'n toml_api =
  tm_get :: "'n \<Rightarrow> string \<Rightarrow> 'n option"
  tm_is_table :: "'n \<Rightarrow> bool"
  tm_as_array :: "'n \<Rightarrow> 'n list option"
  tm_keys :: "'n \<Rightarrow> string list"
  tm_string :: "'n \<Rightarrow> string option"
  tm_bool :: "'n \<Rightarrow> bool option"
  tm_int :: "'n \<Rightarrow> int option"
  tm_double :: "'n \<Rightarrow> u64 option"
  tm_type_integer :: "'n \<Rightarrow> bool"
  tm_type_string :: "'n \<Rightarrow> bool"

definition section_of :: "'n toml_api \<Rightarrow> 'n \<Rightarrow> string \<Rightarrow> 'n option" where
  "section_of A t k =
     (case tm_get A t k of None \<Rightarrow> None | Some n \<Rightarrow> if tm_is_table A n then Some n else None)"

definition array_of :: "'n toml_api \<Rightarrow> 'n \<Rightarrow> string \<Rightarrow> 'n list option" where
  "array_of A t k = (case tm_get A t k of None \<Rightarrow> None | Some n \<Rightarrow> tm_as_array A n)"

definition str_at :: "'n toml_api \<Rightarrow> 'n \<Rightarrow> string \<Rightarrow> string option" where
  "str_at A t k = (case tm_get A t k of None \<Rightarrow> None | Some n \<Rightarrow> tm_string A n)"

definition bool_at :: "'n toml_api \<Rightarrow> 'n \<Rightarrow> string \<Rightarrow> bool option" where
  "bool_at A t k = (case tm_get A t k of None \<Rightarrow> None | Some n \<Rightarrow> tm_bool A n)"

definition int_at :: "'n toml_api \<Rightarrow> 'n \<Rightarrow> string \<Rightarrow> int option" where
  "int_at A t k = (case tm_get A t k of None \<Rightarrow> None | Some n \<Rightarrow> tm_int A n)"

definition double_at :: "'n toml_api \<Rightarrow> 'n \<Rightarrow> string \<Rightarrow> u64 option" where
  "double_at A t k = (case tm_get A t k of None \<Rightarrow> None | Some n \<Rightarrow> tm_double A n)"

text \<open>The value of a key where it is present, the old one otherwise.\<close>

definition set_or :: "'v option \<Rightarrow> 'v \<Rightarrow> 'v" where
  "set_or v old = (case v of None \<Rightarrow> old | Some x \<Rightarrow> x)"

text \<open>Numbers outside 32 bits are skipped.\<close>

definition i32_or :: "int option \<Rightarrow> int \<Rightarrow> int" where
  "i32_or v old =
     (case v of None \<Rightarrow> old | Some x \<Rightarrow> if - (2 ^ 31) \<le> x \<and> x \<le> 2 ^ 31 - 1 then x else old)"

text \<open>Positive numbers are cast to 32 bits.\<close>

definition u32_or :: "int option \<Rightarrow> u32 \<Rightarrow> u32" where
  "u32_or v old = (case v of None \<Rightarrow> old | Some x \<Rightarrow> if x > 0 then of_int x else old)"

text \<open>Every section starts from the defaults and yields its own part of the snapshot.\<close>

definition load_version :: "'n toml_api \<Rightarrow> 'n \<Rightarrow> ConfigVersion result" where
  "load_version A t =
     (case tm_get A t ''version'' of
        None \<Rightarrow> Success (cs_version default_snapshot)
      | Some n \<Rightarrow>
          (case (if tm_type_integer A n then Some (dec_of_int (set_or (tm_int A n) 0) @ ''.0.0'')
                 else if tm_type_string A n then Some (set_or (tm_string A n) [])
                 else None) of
             None \<Rightarrow> Failure (Error_Validation ''LoadConfig''
               (''version must be a string '' @ [CHR 0x22] @ ''M.m.p[-pre]'' @ [CHR 0x22] @ '' (or legacy integer)''))
           | Some text \<Rightarrow>
               (case ParseConfigVersion text of
                  Inl e \<Rightarrow> Failure e
                | Inr v \<Rightarrow>
                    if cv_major v \<noteq> kSupportedConfigMajor
                    then Failure (Error_Validation ''LoadConfig''
                      ''unsupported config version major (supported: 1.x.y)'')
                    else Success v)))"

definition load_application :: "'n toml_api \<Rightarrow> 'n \<Rightarrow> ApplicationConfig result" where
  "load_application A t =
     (let a = cs_application default_snapshot
      in case section_of A t ''application'' of
           None \<Rightarrow> Success a
         | Some n \<Rightarrow>
             (case (case str_at A n ''mode'' of None \<Rightarrow> Success (ap_mode a) | Some m \<Rightarrow> ParseRunMode m) of
                Inl e \<Rightarrow> Failure e
              | Inr mode \<Rightarrow>
                  Success
                    \<lparr>ap_mode = mode,
                     ap_safeModeOnRecoveryError =
                       set_or (bool_at A n ''safe_mode_on_recovery_error'') (ap_safeModeOnRecoveryError a)\<rparr>))"

definition load_logging :: "'n toml_api \<Rightarrow> 'n \<Rightarrow> LoggingConfig" where
  "load_logging A t =
     (let l = cs_logging default_snapshot
      in case section_of A t ''logging'' of
           None \<Rightarrow> l
         | Some n \<Rightarrow>
             \<lparr>lg_level = set_or (str_at A n ''level'') (lg_level l),
              lg_directory = set_or (str_at A n ''directory'') (lg_directory l),
              lg_maxFileMb = u32_or (int_at A n ''max_file_mb'') (lg_maxFileMb l),
              lg_maxFiles = u32_or (int_at A n ''max_files'') (lg_maxFiles l),
              lg_console = set_or (bool_at A n ''console'') (lg_console l)\<rparr>)"

definition load_memory :: "'n toml_api \<Rightarrow> 'n \<Rightarrow> MemoryConfig result" where
  "load_memory A t =
     (let m = cs_memory default_snapshot
      in case section_of A t ''memory'' of
           None \<Rightarrow> Success m
         | Some n \<Rightarrow>
             (case (case str_at A n ''max_clean_level'' of
                      None \<Rightarrow> Success (mc_maxCleanLevel m) | Some l \<Rightarrow> ParseCleanLevel l) of
                Inl e \<Rightarrow> Failure e
              | Inr level \<Rightarrow>
                  Success
                    \<lparr>mc_queryEnabled = set_or (bool_at A n ''query_enabled'') (mc_queryEnabled m),
                     mc_scheduledCleanEnabled =
                       set_or (bool_at A n ''scheduled_clean_enabled'') (mc_scheduledCleanEnabled m),
                     mc_allowNativeWrite = set_or (bool_at A n ''allow_native_write'') (mc_allowNativeWrite m),
                     mc_maxCleanLevel = level\<rparr>))"

definition load_layers :: "'n toml_api \<Rightarrow> 'n \<Rightarrow> LayerConfig" where
  "load_layers A t =
     (let l = cs_layers default_snapshot
      in case section_of A t ''layers'' of
           None \<Rightarrow> l
         | Some n \<Rightarrow>
             \<lparr>ly_monitoring = set_or (bool_at A n ''monitoring'') (ly_monitoring l),
              ly_maintenance = set_or (bool_at A n ''maintenance'') (ly_maintenance l),
              ly_emergency = set_or (bool_at A n ''emergency'') (ly_emergency l)\<rparr>)"

definition load_power :: "'n toml_api \<Rightarrow> 'n \<Rightarrow> PowerConfig" where
  "load_power A t =
     (let p = cs_power default_snapshot
      in case section_of A t ''power'' of
           None \<Rightarrow> p
         | Some n \<Rightarrow>
             \<lparr>pw_executionRequired = set_or (bool_at A n ''execution_required'') (pw_executionRequired p),
              pw_displayRequired = set_or (bool_at A n ''display_required'') (pw_displayRequired p),
              pw_switchPowerScheme = set_or (bool_at A n ''switch_power_scheme'') (pw_switchPowerScheme p)\<rparr>)"

text \<open>An unknown or forbidden level keeps the default.\<close>

definition load_priority :: "'n toml_api \<Rightarrow> 'n \<Rightarrow> PriorityConfig" where
  "load_priority A t =
     (let p = cs_priority default_snapshot
      in case section_of A t ''priority'' of
           None \<Rightarrow> p
         | Some n \<Rightarrow>
             \<lparr>pr_enabled = set_or (bool_at A n ''enabled'') (pr_enabled p),
              pr_maxLevel =
                (case str_at A n ''max_level'' of
                   None \<Rightarrow> pr_maxLevel p
                 | Some l \<Rightarrow> (case ParsePriorityLevel l of Inl _ \<Rightarrow> pr_maxLevel p | Inr v \<Rightarrow> v))\<rparr>)"

definition load_gpu_heartbeat :: "'n toml_api \<Rightarrow> 'n \<Rightarrow> GpuHeartbeatConfig" where
  "load_gpu_heartbeat A t =
     (let g = cs_gpuHeartbeat default_snapshot
      in case section_of A t ''gpu_heartbeat'' of
           None \<Rightarrow> g
         | Some n \<Rightarrow>
             \<lparr>gh_enabled = set_or (bool_at A n ''enabled'') (gh_enabled g),
              gh_maxMeasuredLoadPercent =
                set_or (double_at A n ''max_measured_load_percent'') (gh_maxMeasuredLoadPercent g)\<rparr>)"

definition load_toggle :: "'n toml_api \<Rightarrow> 'n \<Rightarrow> string \<Rightarrow> bool" where
  "load_toggle A t name =
     (case section_of A t name of None \<Rightarrow> False | Some n \<Rightarrow> set_or (bool_at A n ''enabled'') False)"

definition policy_ok :: "PolicyConfig \<Rightarrow> bool" where
  "policy_ok p \<longleftrightarrow>
     0 \<le> pc_tightMarginPercent p \<and> pc_tightMarginPercent p < pc_adequateMarginPercent p \<and>
     pc_adequateMarginPercent p < pc_comfortableMarginPercent p \<and> pc_comfortableMarginPercent p \<le> 100 \<and>
     pc_cooldownMs p \<ge> 0 \<and> 0 \<le> pc_userAwayIdleSeconds p \<and> pc_userAwayIdleSeconds p \<le> 86400 \<and>
     0 \<le> pc_haltAfterActionFailures p \<and> pc_haltAfterActionFailures p \<le> 10000"

definition load_policy :: "'n toml_api \<Rightarrow> 'n \<Rightarrow> PolicyConfig result" where
  "load_policy A t =
     (let p = cs_policy default_snapshot;
          q = (case section_of A t ''policy'' of
                 None \<Rightarrow> p
               | Some n \<Rightarrow>
                   \<lparr>pc_comfortableMarginPercent =
                      i32_or (int_at A n ''comfortable_margin_percent'') (pc_comfortableMarginPercent p),
                    pc_adequateMarginPercent =
                      i32_or (int_at A n ''adequate_margin_percent'') (pc_adequateMarginPercent p),
                    pc_tightMarginPercent = i32_or (int_at A n ''tight_margin_percent'') (pc_tightMarginPercent p),
                    pc_cooldownMs = i32_or (int_at A n ''cooldown_ms'') (pc_cooldownMs p),
                    pc_userAwayIdleSeconds =
                      i32_or (int_at A n ''user_away_idle_seconds'') (pc_userAwayIdleSeconds p),
                    pc_haltAfterActionFailures =
                      i32_or (int_at A n ''halt_after_action_failures'') (pc_haltAfterActionFailures p)\<rparr>)
      in if \<not> policy_ok q then Failure (Error_Validation ''LoadConfig'' (''[policy] thresholds must satisfy '' @
           ''0 <= tight < adequate < comfortable <= 100, cooldown_ms >= 0, '' @
           ''user_away_idle_seconds in 0..86400 (0 = gate off), '' @
           ''halt_after_action_failures in 0..10000 (0 = off)''))
         else Success q)"

definition safe_mode_ok :: "SafeModeConfig \<Rightarrow> bool" where
  "safe_mode_ok m \<longleftrightarrow>
     1 \<le> sm_failuresToEnter m \<and> sm_failuresToEnter m \<le> 100 \<and>
     1 \<le> sm_countingWindowMs m \<and> sm_countingWindowMs m \<le> 600000 \<and>
     1 \<le> sm_cooldownMs m \<and> sm_cooldownMs m \<le> 600000"

definition load_ipc :: "'n toml_api \<Rightarrow> 'n \<Rightarrow> SafeModeConfig result" where
  "load_ipc A t =
     (let m = cs_safeMode default_snapshot;
          q = (case section_of A t ''ipc'' of
                 None \<Rightarrow> m
               | Some n \<Rightarrow>
                   \<lparr>sm_enabled = set_or (bool_at A n ''safe_mode_enabled'') (sm_enabled m),
                    sm_failuresToEnter = i32_or (int_at A n ''safe_mode_failures'') (sm_failuresToEnter m),
                    sm_countingWindowMs = i32_or (int_at A n ''safe_mode_window_ms'') (sm_countingWindowMs m),
                    sm_cooldownMs = i32_or (int_at A n ''safe_mode_cooldown_ms'') (sm_cooldownMs m)\<rparr>)
      in if \<not> safe_mode_ok q then Failure (Error_Validation ''LoadConfig'' (''[ipc] safe_mode must satisfy '' @
           ''1 <= failures <= 100, 1 <= window_ms <= 600000, '' @ ''1 <= cooldown_ms <= 600000''))
         else Success q)"

definition load_game :: "'n toml_api \<Rightarrow> 'n \<Rightarrow> GameConfig" where
  "load_game A n =
     \<lparr>gc_id = set_or (str_at A n ''id'') [],
      gc_displayName = set_or (str_at A n ''display_name'') [],
      gc_processNames =
        (case array_of A n ''process_names'' of
           None \<Rightarrow> [] | Some ns \<Rightarrow> List.map_filter (tm_string A) ns),
      gc_windowTitleContains = set_or (str_at A n ''window_title_contains'') [],
      gc_pauseWhenBackground = set_or (bool_at A n ''pause_when_background'') True\<rparr>"

definition load_games :: "'n toml_api \<Rightarrow> 'n \<Rightarrow> GameConfig list" where
  "load_games A t =
     (case array_of A t ''games'' of
        None \<Rightarrow> []
      | Some ns \<Rightarrow> filter (\<lambda>g. gc_id g \<noteq> []) (map (load_game A) (filter (tm_is_table A) ns)))"

definition CollectUnknownKeys :: "'n toml_api \<Rightarrow> 'n \<Rightarrow> string list \<Rightarrow> string \<Rightarrow> string list" where
  "CollectUnknownKeys A t known prefix =
     map (\<lambda>k. if prefix = [] then k else prefix @ ''.'' @ k) (filter (\<lambda>k. k \<notin> set known) (tm_keys A t))"

definition known_sections :: "(string \<times> string list) list" where
  "known_sections =
     [(''application'', [''mode'', ''safe_mode_on_recovery_error'']),
      (''logging'', [''level'', ''directory'', ''max_file_mb'', ''max_files'', ''console'']),
      (''layers'', [''monitoring'', ''maintenance'', ''emergency'']),
      (''power'', [''execution_required'', ''display_required'', ''switch_power_scheme'']),
      (''priority'', [''enabled'', ''max_level'']),
      (''memory'', [''query_enabled'', ''scheduled_clean_enabled'', ''allow_native_write'', ''max_clean_level'']),
      (''gpu_heartbeat'', [''enabled'', ''max_measured_load_percent'']),
      (''scheduler'', [''enabled'']),
      (''disk_cache'', [''enabled'']),
      (''policy'', [''comfortable_margin_percent'', ''adequate_margin_percent'', ''tight_margin_percent'',
         ''cooldown_ms'', ''user_away_idle_seconds'', ''halt_after_action_failures'']),
      (''ipc'', [''safe_mode_enabled'', ''safe_mode_failures'', ''safe_mode_window_ms'', ''safe_mode_cooldown_ms'']),
      (''agent'', [''form''])]"

definition known_top :: "string list" where
  "known_top =
     [''version'', ''application'', ''logging'', ''layers'', ''power'', ''priority'', ''memory'', ''gpu_heartbeat'',
      ''scheduler'', ''disk_cache'', ''policy'', ''ipc'', ''games'', ''agent'']"

definition game_keys :: "string list" where
  "game_keys = [''id'', ''display_name'', ''process_names'', ''pause_when_background'', ''window_title_contains'']"

definition unknown_in_section :: "'n toml_api \<Rightarrow> 'n \<Rightarrow> string \<times> string list \<Rightarrow> string list" where
  "unknown_in_section A t e =
     (case section_of A t (fst e) of None \<Rightarrow> [] | Some n \<Rightarrow> CollectUnknownKeys A n (snd e) (fst e))"

definition unknown_in_game :: "'n toml_api \<Rightarrow> nat \<times> 'n \<Rightarrow> string list" where
  "unknown_in_game A e =
     (if tm_is_table A (snd e)
      then CollectUnknownKeys A (snd e) game_keys (''games['' @ dec_of_nat (fst e) @ '']'') else [])"

definition unknown_keys :: "'n toml_api \<Rightarrow> 'n \<Rightarrow> string list" where
  "unknown_keys A t =
     CollectUnknownKeys A t known_top [] @ concat (map (unknown_in_section A t) known_sections) @
     (case array_of A t ''games'' of
        None \<Rightarrow> [] | Some ns \<Rightarrow> concat (map (unknown_in_game A) (List.enumerate 0 ns)))"

text \<open>The message of a rejected form is an English gloss of the original.\<close>

definition load_agent :: "'n toml_api \<Rightarrow> 'n \<Rightarrow> string result" where
  "load_agent A t =
     (case section_of A t ''agent'' of
        None \<Rightarrow> Success (cs_agentForm default_snapshot)
      | Some n \<Rightarrow>
          (case str_at A n ''form'' of
             None \<Rightarrow> Success (cs_agentForm default_snapshot)
           | Some form \<Rightarrow>
               (let lower = ToLower form
                in if lower \<noteq> ''startup_tray'' \<and> lower \<noteq> ''task'' \<and> lower \<noteq> ''service''
                   then Failure (Error_Validation ''LoadConfig''
                     ''agent.form: only startup_tray (default), task, service'')
                   else Success lower)))"

text \<open>
  \<open>parse\<close> is the parser of the library: a description of the error, or the root table.  The
  failing checks come in the order of the code.
\<close>

definition LoadConfig ::
  "'n toml_api \<Rightarrow> (path \<Rightarrow> string + 'n) \<Rightarrow> path \<Rightarrow> ConfigSnapshot result" where
  "LoadConfig A parse p =
     (case parse p of
        Inl description \<Rightarrow> Failure (Error_Validation ''LoadConfig'' description)
      | Inr t \<Rightarrow>
     (case load_version A t of
        Inl e \<Rightarrow> Failure e
      | Inr version \<Rightarrow>
     (case load_application A t of
        Inl e \<Rightarrow> Failure e
      | Inr application \<Rightarrow>
     (case load_memory A t of
        Inl e \<Rightarrow> Failure e
      | Inr memory \<Rightarrow>
     (case load_policy A t of
        Inl e \<Rightarrow> Failure e
      | Inr policy \<Rightarrow>
     (case load_ipc A t of
        Inl e \<Rightarrow> Failure e
      | Inr safeMode \<Rightarrow>
     (case load_agent A t of
        Inl e \<Rightarrow> Failure e
      | Inr form \<Rightarrow>
          Success
            \<lparr>cs_version = version, cs_unknownKeys = unknown_keys A t, cs_application = application,
             cs_logging = load_logging A t, cs_layers = load_layers A t, cs_power = load_power A t,
             cs_priority = load_priority A t, cs_memory = memory, cs_gpuHeartbeat = load_gpu_heartbeat A t,
             cs_scheduler = load_toggle A t ''scheduler'', cs_diskCache = load_toggle A t ''disk_cache'',
             cs_policy = policy, cs_safeMode = safeMode, cs_games = load_games A t, cs_agentForm = form\<rparr>)))))))"

definition LoadConfigWithLocal ::
  "'n toml_api \<Rightarrow> (path \<Rightarrow> string + 'n) \<Rightarrow> disk_faults \<Rightarrow> disk \<Rightarrow> path \<Rightarrow> path \<Rightarrow> ConfigSnapshot result" where
  "LoadConfigWithLocal A parse io d mainPath localPath =
     (case LoadConfig A parse mainPath of
        Inl e \<Rightarrow> Failure e
      | Inr s \<Rightarrow>
          if \<not> fst (path_exists io d localPath) then Success s
          else (case LoadConfig A parse localPath of
                  Inl e \<Rightarrow> Failure e
                | Inr l \<Rightarrow> Success (s\<lparr>cs_games := MergeGameRules (cs_games s) (cs_games l)\<rparr>)))"

section \<open>Versions are canonical\<close>

lemma dec_of_nat_snoc: "n \<ge> 10 \<Longrightarrow> dec_of_nat n = dec_of_nat (n div 10) @ [digit_chr (n mod 10)]"
  by (subst dec_of_nat.simps) simp

lemma dec_of_nat_one: "n < 10 \<Longrightarrow> dec_of_nat n = [digit_chr n]"
  by (subst dec_of_nat.simps) simp

lemma dec_of_nat_bound: "n < 10 ^ length (dec_of_nat n)"
proof (induction n rule: dec_of_nat.induct)
  case (1 n)
  show ?case
  proof (cases "n < 10")
    case False
    with 1 have "n div 10 < 10 ^ length (dec_of_nat (n div 10))" by simp
    with False show ?thesis by (simp add: dec_of_nat_snoc [of n])
  qed (simp add: dec_of_nat_one)
qed

lemma dec_of_nat_length: "n < 10 ^ k \<Longrightarrow> 0 < k \<Longrightarrow> length (dec_of_nat n) \<le> k"
proof (induction n arbitrary: k rule: dec_of_nat.induct)
  case (1 n)
  show ?case
  proof (cases "n < 10")
    case False
    then have k: "k \<ge> 2" using 1(2) by (cases k; cases "k - 1") auto
    then obtain j where j: "k = Suc j" "0 < j" by (cases k) auto
    with 1(2) have "n div 10 < 10 ^ j" by (simp add: less_mult_imp_div_less mult.commute)
    from 1(1) [OF False this j(2)] False j show ?thesis by (simp add: dec_of_nat_snoc [of n])
  qed (use 1 in \<open>simp add: dec_of_nat_one\<close>)
qed

fun dots :: "nat list \<Rightarrow> string" where
  "dots [] = []"
| "dots [n] = dec_of_nat n"
| "dots (n # m # ns) = dec_of_nat n @ CHR ''.'' # dots (m # ns)"

lemma dot_not_digit: "\<not> is_digit (CHR ''.'')" "\<not> is_digit (CHR ''-'')"
  by (simp_all add: is_digit_def)

lemma digit_chr_not_dot: "d < 10 \<Longrightarrow> digit_chr d \<noteq> CHR ''.'' \<and> digit_chr d \<noteq> CHR ''-''"
  using is_digit_digit_chr [of d] is_digit_not_sign [of "digit_chr d"] by (metis dot_not_digit)

lemma digit_chr_zero: "d < 10 \<Longrightarrow> digit_chr d = CHR ''0'' \<longleftrightarrow> d = 0"
proof -
  have "digit_chr 0 = CHR ''0''" by code_simp
  moreover have "digit_val (CHR ''0'') = 0" by (simp add: digit_val_def)
  moreover assume "d < 10"
  ultimately show ?thesis by (metis digit_val_digit_chr)
qed

lemma parse_segments_number:
  "n < 10000 \<Longrightarrow>
   parse_segments done 0 0 False (dec_of_nat n @ rest) = parse_segments done n (length (dec_of_nat n)) (n = 0) rest"
proof (induction n arbitrary: rest rule: dec_of_nat.induct)
  case (1 n)
  show ?case
  proof (cases "n < 10")
    case True
    then show ?thesis by (simp add: dec_of_nat_one digit_chr_not_dot digit_chr_zero)
  next
    case False
    have d: "n mod 10 < 10" by simp
    have nz: "n div 10 \<noteq> 0" using False by (simp add: div_eq_0_iff)
    have e: "dec_of_nat n = dec_of_nat (n div 10) @ [digit_chr (n mod 10)]" using False by (intro dec_of_nat_snoc) simp
    have "length (dec_of_nat (n div 10)) \<le> 3"
      using 1(2) by (intro dec_of_nat_length) simp_all
    with 1(1) [OF False, of "digit_chr (n mod 10) # rest"] 1(2) False show ?thesis
      by (simp add: e digit_chr_not_dot [OF d] nz)
  qed
qed

lemma parse_segments_dots:
  "ns \<noteq> [] \<Longrightarrow> \<forall>n \<in> set ns. n < 10000 \<Longrightarrow> length done + length ns \<le> 3 \<Longrightarrow>
   parse_segments done 0 0 False (dots ns) = Success (done @ ns, length (dec_of_nat (last ns)))"
proof (induction ns arbitrary: "done" rule: dots.induct)
  case (2 n)
  then show ?case using parse_segments_number [of n "done" "[]"] by simp
next
  case (3 n m ns)
  have "parse_segments (done @ [n]) 0 0 False (dots (m # ns)) =
      Success ((done @ [n]) @ m # ns, length (dec_of_nat (last (m # ns))))"
    using 3(3,4) by (intro 3(1)) auto
  with 3 parse_segments_number [of n "done" "CHR ''.'' # dots (m # ns)"] show ?case by simp
qed simp

text \<open>The text a state of the loop has consumed in its current segment.\<close>

definition seg_text :: "nat \<Rightarrow> nat \<Rightarrow> string" where
  "seg_text v digits = (if digits = 0 then [] else dec_of_nat v)"

definition seg_ok :: "nat \<Rightarrow> nat \<Rightarrow> bool \<Rightarrow> bool" where
  "seg_ok v digits zero \<longleftrightarrow>
     digits \<le> 4 \<and> (if digits = 0 then v = 0 else digits = length (dec_of_nat v) \<and> (zero \<longleftrightarrow> v = 0))"

lemma seg_ok_digit:
  assumes "seg_ok v digits zero" and "is_digit c" and "digits < 4" and "digits = 0 \<or> \<not> zero"
  shows "seg_ok (v * 10 + digit_val c) (digits + 1) (if digits = 0 then c = CHR ''0'' else zero) \<and>
    seg_text (v * 10 + digit_val c) (digits + 1) = seg_text v digits @ [c]"
proof (cases "digits = 0")
  case True
  have "digit_val c = 0 \<longleftrightarrow> c = CHR ''0''"
    using assms(2) digit_chr_digit_val [of c] digit_chr_zero [of "digit_val c"] digit_val_less by metis
  with True assms digit_val_less [of c] show ?thesis
    by (simp add: seg_ok_def seg_text_def dec_of_nat_one)
next
  case False
  with assms have v: "v \<noteq> 0" "digits = length (dec_of_nat v)" "\<not> zero" by (auto simp: seg_ok_def)
  have "dec_of_nat (v * 10 + digit_val c) = dec_of_nat v @ [c]"
    using v(1) digit_val_less [OF assms(2)] assms(2) by (subst dec_of_nat_snoc) auto
  with False v assms(3) show ?thesis by (simp add: seg_ok_def seg_text_def)
qed

lemma parse_segments_inv:
  assumes "parse_segments done v digits zero s = Success (segs, dg)" and "dg \<noteq> 0" and "seg_ok v digits zero"
  shows "\<exists>ns. segs = done @ ns \<and> ns \<noteq> [] \<and> seg_text v digits @ s = dots ns \<and> (\<forall>n \<in> set ns. n < 10000)"
  using assms
proof (induction "done" v digits zero s rule: parse_segments.induct)
  case (1 "done" v digits zero)
  have "v < 10 ^ length (dec_of_nat v)" by (rule dec_of_nat_bound)
  also have "(10 :: nat) ^ length (dec_of_nat v) \<le> 10 ^ 4"
    using 1 by (intro power_increasing) (auto simp: seg_ok_def split: if_splits)
  finally show ?case using 1 by (intro exI [of _ "[v]"]) (simp add: seg_text_def)
next
  case (2 "done" v digits zero c s)
  show ?case
  proof (cases "c = CHR ''.''")
    case True
    with 2(3,4) have d: "\<not> (digits = 0 \<or> 2 \<le> length done)"
      and r: "parse_segments (done @ [v]) 0 0 False s = Success (segs, dg)"
      by (auto simp: version_error_def split: if_splits)
    from 2(1) [OF True d r 2(4)] obtain ns where ns: "segs = (done @ [v]) @ ns" "ns \<noteq> []" "s = dots ns"
      "\<forall>n \<in> set ns. n < 10000" by (auto simp: seg_ok_def seg_text_def)
    have "v < 10 ^ length (dec_of_nat v)" by (rule dec_of_nat_bound)
    also have "(10 :: nat) ^ length (dec_of_nat v) \<le> 10 ^ 4"
      using 2(5) d by (intro power_increasing) (auto simp: seg_ok_def split: if_splits)
    finally have "v < 10000" by simp
    with ns d True show ?thesis
      by (intro exI [of _ "v # ns"]) (cases ns; simp add: seg_text_def)
  next
    case False
    with 2(3,4) have c: "is_digit c" "digits < 4" "digits = 0 \<or> \<not> zero"
      and r: "parse_segments done (v * 10 + digit_val c) (digits + 1) (if digits = 0 then c = CHR ''0'' else zero) s =
        Success (segs, dg)"
      by (auto simp: version_error_def split: if_splits)
    note step = seg_ok_digit [OF 2(5) c]
    from 2(2) [OF False _ _ _ r 2(4)] c step show ?thesis by auto
  qed
qed

definition version_ok :: "ConfigVersion \<Rightarrow> bool" where
  "version_ok v \<longleftrightarrow>
     cv_major v < 10000 \<and> cv_minor v < 10000 \<and> cv_patch v < 10000 \<and>
     (cv_prerelease v = [] \<or> HasValue (check_prerelease (cv_prerelease v)))"

lemma dots_no_dash: "CHR ''-'' \<notin> set (dots ns)"
proof -
  have "CHR ''-'' \<notin> set (dec_of_nat n)" for n using dec_of_nat_digits [of n] dot_not_digit(2) by blast
  then show ?thesis by (induction ns rule: dots.induct) auto
qed

lemma FormatConfigVersion_dots:
  "FormatConfigVersion v = dots [cv_major v, cv_minor v, cv_patch v] @
     (if cv_prerelease v = [] then [] else CHR ''-'' # cv_prerelease v)"
  by (simp add: FormatConfigVersion_def)

lemma FormatConfigVersion_length:
  assumes "version_ok v"
  shows "FormatConfigVersion v \<noteq> [] \<and> length (FormatConfigVersion v) \<le> 48"
proof -
  have "length (dec_of_nat n) \<le> 4" if "n < 10000" for n
    using that by (intro dec_of_nat_length) simp_all
  then have "length (dec_of_nat (cv_major v)) \<le> 4" "length (dec_of_nat (cv_minor v)) \<le> 4"
    "length (dec_of_nat (cv_patch v)) \<le> 4"
    using assms by (auto simp: version_ok_def)
  moreover have "cv_prerelease v = [] \<or> length (cv_prerelease v) \<le> 32"
    using assms by (auto simp: version_ok_def check_prerelease_def version_error_def split: if_splits)
  ultimately show ?thesis by (auto simp: FormatConfigVersion_def)
qed

lemma ParseConfigVersion_Format:
  assumes "version_ok v"
  shows "ParseConfigVersion (FormatConfigVersion v) = Success v"
proof -
  let ?ns = "[cv_major v, cv_minor v, cv_patch v]"
  have p: "parse_segments [] 0 0 False (dots ?ns) = Success (?ns, length (dec_of_nat (cv_patch v)))"
    using assms parse_segments_dots [of ?ns "[]"] by (simp add: version_ok_def del: dots.simps)
  have s: "split_first (CHR ''-'') (FormatConfigVersion v) =
      (if cv_prerelease v = [] then None else Some (dots ?ns, cv_prerelease v))"
    using split_first_append [OF dots_no_dash, of ?ns "cv_prerelease v"] dots_no_dash [of ?ns]
    by (simp add: FormatConfigVersion_dots split_first_None del: dots.simps)
  show ?thesis
  proof (cases "cv_prerelease v = []")
    case True
    with p s FormatConfigVersion_length [OF assms] show ?thesis
      by (simp add: ParseConfigVersion_def FormatConfigVersion_dots del: dots.simps)
  next
    case False
    then obtain u where "check_prerelease (cv_prerelease v) = Success u"
      using assms by (cases "check_prerelease (cv_prerelease v)") (auto simp: version_ok_def)
    with False p s FormatConfigVersion_length [OF assms] show ?thesis
      by (simp add: ParseConfigVersion_def del: dots.simps)
  qed
qed

lemma ParseConfigVersion_Success:
  assumes "ParseConfigVersion t = Success v"
  shows "version_ok v \<and> t = FormatConfigVersion v"
proof -
  define body where "body = (case split_first (CHR ''-'') t of None \<Rightarrow> t | Some (b, p) \<Rightarrow> b)"
  define pre where "pre = (case split_first (CHR ''-'') t of None \<Rightarrow> None | Some (b, p) \<Rightarrow> Some p)"
  have pair: "(case split_first (CHR ''-'') t of None \<Rightarrow> (t, None) | Some (b, p) \<Rightarrow> (b, Some p)) = (body, pre)"
    by (simp add: body_def pre_def split: option.splits prod.splits)
  obtain segs dg where seg: "parse_segments [] 0 0 False body = Success (segs, dg)" "dg \<noteq> 0" "length segs = 3"
    and chk: "\<forall>p. pre = Some p \<longrightarrow> HasValue (check_prerelease p)"
    and v: "v = \<lparr>cv_major = segs ! 0, cv_minor = segs ! 1, cv_patch = segs ! 2,
                 cv_prerelease = (case pre of None \<Rightarrow> [] | Some p \<Rightarrow> p)\<rparr>"
    using assms unfolding ParseConfigVersion_def pair Let_def
    by (auto simp: version_error_def split: if_splits sum.splits prod.splits option.splits)
  have "\<exists>ns. segs = [] @ ns \<and> ns \<noteq> [] \<and> seg_text 0 0 @ body = dots ns \<and> (\<forall>n \<in> set ns. n < 10000)"
    by (rule parse_segments_inv [OF seg(1,2)]) (simp add: seg_ok_def)
  then have b: "body = dots segs" and lt: "\<forall>n \<in> set segs. n < 10000" by (auto simp: seg_text_def)
  obtain x y z where xyz: "segs = [x, y, z]" using seg(3) by (auto simp: length_Suc_conv numeral_3_eq_3)
  have "t = body @ (case pre of None \<Rightarrow> [] | Some p \<Rightarrow> CHR ''-'' # p)"
    unfolding body_def pre_def by (auto split: option.splits dest: split_first_Some)
  moreover have "pre \<noteq> Some []" using chk by (auto simp: check_prerelease_def version_error_def)
  ultimately have "t = FormatConfigVersion v"
    using v xyz b by (auto simp: FormatConfigVersion_dots split: option.splits)
  then show ?thesis using v xyz lt chk by (auto simp: version_ok_def split: option.splits)
qed

text \<open>
  A version text is accepted exactly when it is the canonical text of a version with three
  segments of at most four digits and a legal pre-release label, and then that version is the
  result.  Parsing and printing are inverse to each other on everything the parser accepts.\<close>
theorem ParseConfigVersion_exact:
  "ParseConfigVersion t = Success v \<longleftrightarrow> version_ok v \<and> t = FormatConfigVersion v"
  using ParseConfigVersion_Success ParseConfigVersion_Format by blast

section \<open>A loaded snapshot is valid\<close>

definition agent_forms :: "string set" where
  "agent_forms = {''startup_tray'', ''task'', ''service''}"

definition snapshot_valid :: "ConfigSnapshot \<Rightarrow> bool" where
  "snapshot_valid s \<longleftrightarrow>
     cv_major (cs_version s) = kSupportedConfigMajor \<and> policy_ok (cs_policy s) \<and> safe_mode_ok (cs_safeMode s) \<and>
     (\<forall>g \<in> set (cs_games s). gc_id g \<noteq> []) \<and> cs_agentForm s \<in> agent_forms"

lemma load_version_ok: "load_version A t = Success v \<Longrightarrow> cv_major v = kSupportedConfigMajor"
  by (auto simp: load_version_def default_snapshot_def kSupportedConfigMajor_def
      split: option.splits sum.splits if_splits)

lemma load_policy_ok: "load_policy A t = Success q \<Longrightarrow> policy_ok q"
  by (auto simp: load_policy_def Let_def split: if_splits)

lemma load_ipc_ok: "load_ipc A t = Success q \<Longrightarrow> safe_mode_ok q"
  by (auto simp: load_ipc_def Let_def split: if_splits)

lemma load_agent_ok: "load_agent A t = Success f \<Longrightarrow> f \<in> agent_forms"
  by (auto simp: load_agent_def default_snapshot_def Let_def agent_forms_def split: option.splits if_splits)

lemma load_games_ids: "g \<in> set (load_games A t) \<Longrightarrow> gc_id g \<noteq> []"
  by (auto simp: load_games_def split: option.splits)

lemma LoadConfig_valid: "LoadConfig A parse p = Success s \<Longrightarrow> snapshot_valid s"
  by (auto simp: LoadConfig_def snapshot_valid_def load_version_ok load_policy_ok load_ipc_ok load_agent_ok
      load_games_ids split: sum.splits)

text \<open>A switch that is on was written as true in its section.\<close>

definition explicit :: "'n toml_api \<Rightarrow> 'n \<Rightarrow> string \<Rightarrow> string \<Rightarrow> bool" where
  "explicit A t sec key \<longleftrightarrow> (\<exists>n. section_of A t sec = Some n \<and> bool_at A n key = Some True)"

lemma set_or_True: "set_or v False \<longleftrightarrow> v = Some True"
  by (auto simp: set_or_def split: option.splits)

lemma memory_switches:
  assumes "load_memory A t = Success m"
  shows "mc_scheduledCleanEnabled m \<longleftrightarrow> explicit A t ''memory'' ''scheduled_clean_enabled''"
    and "mc_allowNativeWrite m \<longleftrightarrow> explicit A t ''memory'' ''allow_native_write''"
  using assms
  by (auto simp: load_memory_def default_snapshot_def Let_def explicit_def set_or_True split: option.splits sum.splits)

lemma section_switches:
  "pw_switchPowerScheme (load_power A t) \<longleftrightarrow> explicit A t ''power'' ''switch_power_scheme''"
  "ly_maintenance (load_layers A t) \<longleftrightarrow> explicit A t ''layers'' ''maintenance''"
  "ly_emergency (load_layers A t) \<longleftrightarrow> explicit A t ''layers'' ''emergency''"
  "pr_enabled (load_priority A t) \<longleftrightarrow> explicit A t ''priority'' ''enabled''"
  "gh_enabled (load_gpu_heartbeat A t) \<longleftrightarrow> explicit A t ''gpu_heartbeat'' ''enabled''"
  "load_toggle A t name \<longleftrightarrow> explicit A t name ''enabled''"
  by (auto simp: load_power_def load_layers_def load_priority_def load_gpu_heartbeat_def load_toggle_def
      default_snapshot_def Let_def explicit_def set_or_True split: option.splits)

text \<open>
  C33: Every configuration that loads is well formed, whatever the file says: the schema version is
  supported, the policy thresholds are ordered and in range and accepted by the policy engine, the
  Safe Mode window is effective, every game rule has an id and the agent form is a known one.\<close>
theorem LoadConfig_snapshot_valid:
  assumes "LoadConfig A parse p = Success s"
  shows "cv_major (cs_version s) = kSupportedConfigMajor \<and>
    thresholds_ok \<lparr>comfortableMarginPercent = pc_comfortableMarginPercent (cs_policy s),
      adequateMarginPercent = pc_adequateMarginPercent (cs_policy s),
      tightMarginPercent = pc_tightMarginPercent (cs_policy s)\<rparr> \<and>
    pc_cooldownMs (cs_policy s) \<ge> 0 \<and> pc_userAwayIdleSeconds (cs_policy s) \<in> {0..86400} \<and>
    pc_haltAfterActionFailures (cs_policy s) \<in> {0..10000} \<and>
    sm_failuresToEnter (cs_safeMode s) \<in> {1..100} \<and> sm_countingWindowMs (cs_safeMode s) \<in> {1..600000} \<and>
    sm_cooldownMs (cs_safeMode s) \<in> {1..600000} \<and>
    [] \<notin> gc_id ` set (cs_games s) \<and> cs_agentForm s \<in> {''startup_tray'', ''task'', ''service''}"
  using LoadConfig_valid [OF assms]
  by (auto simp: snapshot_valid_def policy_ok_def safe_mode_ok_def agent_forms_def thresholds_ok_def)

text \<open>
  C34: No dangerous capability opens by itself.  In a loaded configuration each of these switches is on
  exactly when the file sets it to true in its own section: scheduled cleaning, native writes, power
  scheme switching, priority boosting, the GPU heartbeat, the scheduler, the maintenance and the
  emergency layer.  System-level actions need the experimental mode and the emergency layer
  written in the file.\<close>
theorem LoadConfig_switches_explicit:
  assumes "LoadConfig A parse p = Success s" and "parse p = Inr t"
  shows "(mc_scheduledCleanEnabled (cs_memory s) \<longleftrightarrow> explicit A t ''memory'' ''scheduled_clean_enabled'') \<and>
    (mc_allowNativeWrite (cs_memory s) \<longleftrightarrow> explicit A t ''memory'' ''allow_native_write'') \<and>
    (pw_switchPowerScheme (cs_power s) \<longleftrightarrow> explicit A t ''power'' ''switch_power_scheme'') \<and>
    (pr_enabled (cs_priority s) \<longleftrightarrow> explicit A t ''priority'' ''enabled'') \<and>
    (gh_enabled (cs_gpuHeartbeat s) \<longleftrightarrow> explicit A t ''gpu_heartbeat'' ''enabled'') \<and>
    (cs_scheduler s \<longleftrightarrow> explicit A t ''scheduler'' ''enabled'') \<and>
    (AllowsSystemLevelActions (ap_mode (cs_application s)) (cs_layers s) \<longrightarrow>
       explicit A t ''layers'' ''emergency'' \<and>
       (\<exists>n m. section_of A t ''application'' = Some n \<and> str_at A n ''mode'' = Some m \<and> ToLower m = ''experimental'')) \<and>
    (AllowsLocalReversibleActions (ap_mode (cs_application s)) (cs_layers s) \<longrightarrow>
       explicit A t ''layers'' ''maintenance'' \<or> explicit A t ''layers'' ''emergency'')"
proof -
  obtain a m where l: "load_application A t = Success a" "load_memory A t = Success m"
    and s: "cs_application s = a" "cs_memory s = m" "cs_power s = load_power A t" "cs_layers s = load_layers A t"
      "cs_priority s = load_priority A t" "cs_gpuHeartbeat s = load_gpu_heartbeat A t"
      "cs_scheduler s = load_toggle A t ''scheduler''"
    using assms by (auto simp: LoadConfig_def split: sum.splits)
  have "\<exists>n m. section_of A t ''application'' = Some n \<and> str_at A n ''mode'' = Some m \<and> ToLower m = ''experimental''"
    if "ap_mode a = Experimental"
    using l(1) that
    by (auto simp: load_application_def default_snapshot_def Let_def ParseRunMode_def
        split: option.splits sum.splits if_splits)
  then show ?thesis
    unfolding s AllowsSystemLevelActions_def AllowsLocalReversibleActions_def section_switches memory_switches [OF l(2)]
    by auto
qed

text \<open>A small table type, to run the loader on.\<close>

datatype toml = T_table "(string \<times> toml) list" | T_array "toml list" | T_string string | T_bool bool | T_int int

definition table_api :: "toml toml_api" where
  "table_api =
     \<lparr>tm_get = (\<lambda>n k. case n of T_table es \<Rightarrow> map_of es k | _ \<Rightarrow> None),
      tm_is_table = (\<lambda>n. case n of T_table _ \<Rightarrow> True | _ \<Rightarrow> False),
      tm_as_array = (\<lambda>n. case n of T_array ns \<Rightarrow> Some ns | _ \<Rightarrow> None),
      tm_keys = (\<lambda>n. case n of T_table es \<Rightarrow> map fst es | _ \<Rightarrow> []),
      tm_string = (\<lambda>n. case n of T_string s \<Rightarrow> Some s | _ \<Rightarrow> None),
      tm_bool = (\<lambda>n. case n of T_bool b \<Rightarrow> Some b | _ \<Rightarrow> None),
      tm_int = (\<lambda>n. case n of T_int i \<Rightarrow> Some i | _ \<Rightarrow> None),
      tm_double = (\<lambda>n. None),
      tm_type_integer = (\<lambda>n. case n of T_int _ \<Rightarrow> True | _ \<Rightarrow> False),
      tm_type_string = (\<lambda>n. case n of T_string _ \<Rightarrow> True | _ \<Rightarrow> False)\<rparr>"

definition demo_table :: toml where
  "demo_table = T_table
     [(''application'', T_table [(''mode'', T_string ''Balanced'')]),
      (''layers'', T_table [(''maintenance'', T_bool True)]),
      (''memory'', T_table [(''allow_native_write'', T_bool True)]),
      (''games'', T_array [T_table [(''id'', T_string ''g'')]]),
      (''typo'', T_bool True)]"

lemmas table_simps = table_api_def section_of_def str_at_def bool_at_def int_at_def array_of_def set_or_def i32_or_def
  u32_or_def

lemmas load_defs = load_version_def load_application_def load_memory_def load_policy_def load_ipc_def load_agent_def
  default_snapshot_def policy_ok_def safe_mode_ok_def

lemma demo_mode: "ParseRunMode ''Balanced'' = Success Balanced"
  by code_simp

lemma demo_loads: "\<exists>s. LoadConfig table_api (\<lambda>_. Inr demo_table) [] = Success s \<and>
    mc_allowNativeWrite (cs_memory s) \<and> AllowsLocalReversibleActions (ap_mode (cs_application s)) (cs_layers s)"
  by (simp add: LoadConfig_def load_defs demo_table_def table_simps demo_mode load_layers_def
      AllowsLocalReversibleActions_def Let_def)

theorem LoadConfig_snapshot_valid_witness:
  "\<exists>s. LoadConfig table_api (\<lambda>_. Inr demo_table) [] = Success s \<and> [] \<notin> gc_id ` set (cs_games s)"
  using demo_loads LoadConfig_snapshot_valid [of table_api "\<lambda>_. Inr demo_table" "[]"] by blast

theorem LoadConfig_switches_explicit_witness:
  "\<exists>s. LoadConfig table_api (\<lambda>_. Inr demo_table) [] = Success s \<and>
     explicit table_api demo_table ''memory'' ''allow_native_write'' \<and> \<not> pw_switchPowerScheme (cs_power s)"
proof -
  obtain s where s: "LoadConfig table_api (\<lambda>_. Inr demo_table) [] = Success s" "mc_allowNativeWrite (cs_memory s)"
    using demo_loads by blast
  have "\<not> explicit table_api demo_table ''power'' ''switch_power_scheme''"
    by (simp add: explicit_def table_simps demo_table_def)
  with LoadConfig_switches_explicit [OF s(1) refl] s show ?thesis by blast
qed

section \<open>Merged rules\<close>

text \<open>The first rule with an id, ids compared without case.\<close>

definition rule_for :: "string \<Rightarrow> GameConfig list \<Rightarrow> GameConfig option" where
  "rule_for i gs = find (\<lambda>g. ToLower (gc_id g) = ToLower i) gs"

abbreviation ids :: "GameConfig list \<Rightarrow> string list" where
  "ids gs \<equiv> map (\<lambda>g. ToLower (gc_id g)) gs"

lemma rule_for_simps:
  "rule_for i [] = None"
  "rule_for i (g # gs) = (if ToLower (gc_id g) = ToLower i then Some g else rule_for i gs)"
  by (simp_all add: rule_for_def)

lemma rule_for_replace:
  "rule_for i (replace_rule g gs) = (if ToLower (gc_id g) = ToLower i then Some g else rule_for i gs)"
  by (induction gs) (auto simp: rule_for_simps)

lemma ids_replace:
  "ids (replace_rule g gs) = (if ToLower (gc_id g) \<in> set (ids gs) then ids gs else ids gs @ [ToLower (gc_id g)])"
  by (induction gs) auto

lemma rule_for_merge:
  "rule_for i (MergeGameRules ms ls) = (case rule_for i (rev ls) of Some g \<Rightarrow> Some g | None \<Rightarrow> rule_for i ms)"
  unfolding MergeGameRules_def
  by (induction ls rule: rev_induct) (auto simp: rule_for_simps rule_for_replace)

lemma ids_merge:
  "\<exists>new. ids (MergeGameRules ms ls) = ids ms @ new \<and> distinct new \<and> set new = set (ids ls) - set (ids ms)"
proof (induction ls rule: rev_induct)
  case Nil
  show ?case by (simp add: MergeGameRules_def)
next
  case (snoc l ls)
  then obtain new where n: "ids (MergeGameRules ms ls) = ids ms @ new" "distinct new"
    "set new = set (ids ls) - set (ids ms)" by blast
  have m: "MergeGameRules ms (ls @ [l]) = replace_rule l (MergeGameRules ms ls)" by (simp add: MergeGameRules_def)
  show ?case
  proof (cases "ToLower (gc_id l) \<in> set (ids ms @ new)")
    case True
    with n m show ?thesis by (intro exI [of _ new]) (auto simp: ids_replace simp del: set_map)
  next
    case False
    with n m show ?thesis
      by (intro exI [of _ "new @ [ToLower (gc_id l)]"]) (auto simp: ids_replace simp del: set_map)
  qed
qed

text \<open>
  Merging the local rules into the main ones.  Under an id (upper and lower case alike) the last
  local rule wins, and without one the first main rule stays; the main rules keep their places, the
  new ids follow, each once.\<close>
theorem MergeGameRules_exact:
  "rule_for i (MergeGameRules ms ls) = (case rule_for i (rev ls) of Some g \<Rightarrow> Some g | None \<Rightarrow> rule_for i ms) \<and>
   (\<exists>new. ids (MergeGameRules ms ls) = ids ms @ new \<and> distinct new \<and> set new = set (ids ls) - set (ids ms))"
  using rule_for_merge ids_merge by blast

section \<open>Appending rules\<close>

text \<open>
  Appending rules never damages the configuration file, whatever the disk does: on success it holds
  its old content, closed by a line feed, and then the new rules; on failure it is as it was.  No
  other file than the temporary one is touched.  The one assumption is that opening the file reports
  ``not found'' only when it does not exist.\<close>
theorem AppendGameRules_all_or_nothing:
  assumes "fail_open_read io p = Some 2 \<Longrightarrow> files d p = None"
  shows "let (r, d') = AppendGameRules sysmsg io p rules d
   in (r = Success () \<longrightarrow> rules = [] \<and> d' = d \<or>
         files d' p = Some (appended_rules (content d p) rules) \<and> files d' (temp_path p) = None) \<and>
      (r \<noteq> Success () \<longrightarrow> files d' p = files d p) \<and>
      (q \<noteq> p \<and> q \<noteq> temp_path p \<longrightarrow> files d' q = files d q)"
proof (cases "rules = []")
  case True
  then show ?thesis by (simp add: AppendGameRules_def)
next
  case ne: False
  show ?thesis
  proof (cases "read_all sysmsg io p d")
    case (Inl e)
    then show ?thesis using ne by (simp add: AppendGameRules_def)
  next
    case (Inr old)
    then have old: "old = content d p"
      using assms by (auto simp: read_all_def content_def split: option.splits if_splits sum.splits)
    show ?thesis
      using ne Inr old
      by (auto simp: AppendGameRules_def Let_def open_write_def write_flush_def move_replace_def remove_file_def
          split: option.splits if_splits)
  qed
qed

theorem AppendGameRules_all_or_nothing_witness:
  "let (r, d') = AppendGameRules (\<lambda>_. []) (no_faults\<lparr>fail_write := \<lambda>_. Some (3, 112)\<rparr>) ''g''
       [\<lparr>gc_id = ''x'', gc_displayName = [], gc_processNames = [], gc_windowTitleContains = [],
         gc_pauseWhenBackground = True\<rparr>] (set_file ''g'' ''old'' empty_disk)
   in r \<noteq> Success () \<and> files d' ''g'' = Some ''old''"
  using AppendGameRules_all_or_nothing [of "no_faults\<lparr>fail_write := \<lambda>_. Some (3, 112)\<rparr>" "''g''"
      "set_file ''g'' ''old'' empty_disk" "\<lambda>_. []"
      "[\<lparr>gc_id = ''x'', gc_displayName = [], gc_processNames = [], gc_windowTitleContains = [],
         gc_pauseWhenBackground = True\<rparr>]" "[]"]
  by (simp add: AppendGameRules_def read_all_def open_write_def write_flush_def temp_path_def Let_def empty_disk_def)

section \<open>TOML strings\<close>

text \<open>
  The reader of basic strings the TOML grammar describes, up to the closing quote, with the
  universal escapes restricted to ASCII.
\<close>

definition hex_value :: "char \<Rightarrow> nat option" where
  "hex_value c =
     (if is_digit c then Some (digit_val c)
      else if CHR ''A'' \<le> c \<and> c \<le> CHR ''F'' then Some (of_char c - 55)
      else if CHR ''a'' \<le> c \<and> c \<le> CHR ''f'' then Some (of_char c - 87) else None)"

definition escape_of :: "char \<Rightarrow> char option" where
  "escape_of e =
     map_of [(CHR 0x22, CHR 0x22), (CHR 0x5C, CHR 0x5C), (CHR ''b'', CHR 0x08), (CHR ''t'', CHR 0x09),
             (CHR ''n'', CHR 0x0A), (CHR ''f'', CHR 0x0C), (CHR ''r'', CHR 0x0D)] e"

definition ascii_of :: "char \<Rightarrow> char \<Rightarrow> char \<Rightarrow> char \<Rightarrow> char option" where
  "ascii_of a b h l =
     (case (hex_value a, hex_value b, hex_value h, hex_value l) of
        (Some 0, Some 0, Some x, Some y) \<Rightarrow> if x < 8 then Some (char_of (16 * x + y)) else None
      | _ \<Rightarrow> None)"

fun toml_unescape :: "string \<Rightarrow> (string \<times> string) option" where
  "toml_unescape [] = None"
| "toml_unescape (c # s) =
     (if c = CHR 0x22 then Some ([], s)
      else if c = CHR 0x5C then
        (case s of
           [] \<Rightarrow> None
         | e # s1 \<Rightarrow>
             if e = CHR ''u'' then
               (case s1 of
                  a # b # h # l # s2 \<Rightarrow>
                    (case ascii_of a b h l of
                       None \<Rightarrow> None
                     | Some k \<Rightarrow> map_option (apfst ((#) k)) (toml_unescape s2))
                | _ \<Rightarrow> None)
             else
               (case escape_of e of
                  None \<Rightarrow> None
                | Some k \<Rightarrow> map_option (apfst ((#) k)) (toml_unescape s1)))
      else if (of_char c :: nat) < 0x20 \<and> c \<noteq> CHR 0x09 then None
      else map_option (apfst ((#) c)) (toml_unescape s))"

lemma control_chars:
  "(of_char c :: nat) < 0x20 \<longleftrightarrow> c \<in> set (map char_of [0 ..< 0x20])"
proof
  assume "(of_char c :: nat) < 0x20"
  then have "char_of (of_char c :: nat) \<in> set (map (char_of :: nat \<Rightarrow> char) [0 ..< 0x20])"
    by (auto simp del: char_of_char intro!: imageI)
  then show "c \<in> set (map char_of [0 ..< 0x20])" by simp
next
  assume "c \<in> set (map char_of [0 ..< 0x20])"
  then show "(of_char c :: nat) < 0x20" by (auto simp: of_char_of)
qed

lemma u_escape_reads:
  "list_all (\<lambda>c. (\<exists>h l. u_escape c = [CHR 0x5C, CHR ''u'', CHR ''0'', CHR ''0'', h, l] \<and>
     ascii_of (CHR ''0'') (CHR ''0'') h l = Some c)) (map char_of [0 ..< 0x20 :: nat])"
  unfolding u_escape_def by (simp add: upt_rec) code_simp

lemma toml_unescape_char:
  "toml_unescape (toml_char c @ s) = map_option (apfst ((#) c)) (toml_unescape s)"
proof (cases "toml_char c = u_escape c")
  case True
  then have "(of_char c :: nat) < 0x20"
    by (auto simp: toml_char_def u_escape_def split: if_splits)
  then obtain h l where "u_escape c = [CHR 0x5C, CHR ''u'', CHR ''0'', CHR ''0'', h, l]"
    "ascii_of (CHR ''0'') (CHR ''0'') h l = Some c"
    using u_escape_reads unfolding control_chars list_all_iff by blast
  with True show ?thesis by simp
next
  case False
  then show ?thesis
    by (auto simp: toml_char_def escape_of_def split: if_splits)
qed

lemma toml_unescape_chars:
  "toml_unescape (concat (map toml_char t) @ [CHR 0x22] @ s) = Some (t, s)"
  by (induction t) (simp_all add: toml_unescape_char)

text \<open>
  The escaping of strings is right and cannot be escaped from: reading a written string by the
  rules of TOML gives the text back, and the reader stops exactly at its closing quote, whatever
  bytes the text has and whatever follows it.\<close>
theorem ToTomlString_roundtrip:
  "\<exists>body. ToTomlString t @ s = CHR 0x22 # body \<and> toml_unescape body = Some (t, s)"
  using toml_unescape_chars [of t s] by (simp add: ToTomlString_def)

section \<open>Numbers out of range\<close>

text \<open>
  A size of 4096 TiB for the log file becomes 0, which turns rotation off, and a threshold beyond
  32 bits counts as absent.
\<close>

lemma u32_or_wraps: "u32_or (Some (2 ^ 32)) old = 0"
  by (simp add: u32_or_def)

lemma i32_or_skips: "x < - (2 ^ 31) \<or> x \<ge> 2 ^ 31 \<Longrightarrow> i32_or (Some x) old = old"
  by (auto simp: i32_or_def)

text \<open>A write that fails leaves the temporary file behind.\<close>

lemma AppendGameRules_leaves_temp:
  assumes "rules \<noteq> []" and "fail_open_read io p = None" and "fail_read io p = None" and "\<not> dirs d p"
    and "fail_open_write io (temp_path p) = None" and "\<not> dirs d (temp_path p)"
    and "fail_write io (temp_path p) = Some (n, c)"
  shows "\<exists>e. fst (AppendGameRules sysmsg io p rules d) = Failure e"
    and "files (snd (AppendGameRules sysmsg io p rules d)) (temp_path p) \<noteq> None"
  using assms
  by (auto simp: AppendGameRules_def read_all_def open_write_def write_flush_def Let_def split: option.splits)

end
