(* ===== verification/Console_Output.thy ===== *)
theory Console_Output
  imports Common_Error
begin

text \<open>
  Text conversion and console output: \<^verbatim>\<open>source/common/console_output.cpp\<close>.  The two conversion
  routines of Windows are a record of functions (\<open>codec\<close>): the converted text, or the error
  code when the reported length is zero.  A standard handle is missing, a console that takes wide
  characters, or a file or pipe that takes bytes; what was written is part of the state.
\<close>

record codec =
  WideCharToMultiByte :: "wstring \<Rightarrow> u32 + string"
  MultiByteToWideChar :: "string \<Rightarrow> u32 + wstring"

definition WideToUtf8 :: "(u32 \<Rightarrow> string) \<Rightarrow> codec \<Rightarrow> wstring \<Rightarrow> string result" where
  "WideToUtf8 sysmsg K t =
     (if t = [] then Success []
      else case WideCharToMultiByte K t of
             Inl c \<Rightarrow> Failure (FromWin32 sysmsg c ''WideCharToMultiByte'')
           | Inr s \<Rightarrow> Success s)"

definition Utf8ToWide :: "(u32 \<Rightarrow> string) \<Rightarrow> codec \<Rightarrow> string \<Rightarrow> wstring result" where
  "Utf8ToWide sysmsg K t =
     (if t = [] then Success []
      else case MultiByteToWideChar K t of
             Inl c \<Rightarrow> Failure (FromWin32 sysmsg c ''MultiByteToWideChar(CP_UTF8)'')
           | Inr s \<Rightarrow> Success s)"

datatype std_handle = No_Handle | Console_Handle wstring | Byte_Handle string

fun WriteConsoleHandle :: "codec \<Rightarrow> wstring \<Rightarrow> std_handle \<Rightarrow> std_handle" where
  "WriteConsoleHandle K t No_Handle = No_Handle"
| "WriteConsoleHandle K t (Console_Handle w) = Console_Handle (w @ t)"
| "WriteConsoleHandle K t (Byte_Handle b) =
     (case WideToUtf8 (\<lambda>_. []) K t of Inl _ \<Rightarrow> Byte_Handle b | Inr s \<Rightarrow> Byte_Handle (b @ s))"

record console =
  std_output :: std_handle
  std_error :: std_handle

definition WriteConsole :: "codec \<Rightarrow> wstring \<Rightarrow> console \<Rightarrow> console" where
  "WriteConsole K t c = c\<lparr>std_output := WriteConsoleHandle K t (std_output c)\<rparr>"

definition WriteConsoleLine :: "codec \<Rightarrow> wstring \<Rightarrow> console \<Rightarrow> console" where
  "WriteConsoleLine K t c = WriteConsole K (wide [LF]) (WriteConsole K t c)"

definition WriteConsoleError :: "codec \<Rightarrow> wstring \<Rightarrow> console \<Rightarrow> console" where
  "WriteConsoleError K t c = c\<lparr>std_error := WriteConsoleHandle K t (std_error c)\<rparr>"

definition WriteConsoleErrorLine :: "codec \<Rightarrow> wstring \<Rightarrow> console \<Rightarrow> console" where
  "WriteConsoleErrorLine K t c = WriteConsoleError K (wide [LF]) (WriteConsoleError K t c)"

text \<open>A codec to run the definitions with: one byte per unit, units from 256 on are refused.\<close>

definition byte_codec :: codec where
  "byte_codec =
     \<lparr>WideCharToMultiByte =
        (\<lambda>t. if list_all (\<lambda>u. u < 256) t then Inr (map (\<lambda>u. char_of (unat u)) t) else Inl 1113),
      MultiByteToWideChar = (\<lambda>s. Inr (wide s))\<rparr>"

text \<open>Writing only ever appends, and a line written to a console arrives whole.\<close>

lemma WriteConsoleHandle_console:
  "std_output c = Console_Handle w \<Longrightarrow>
     std_output (WriteConsoleLine K t c) = Console_Handle (w @ t @ wide [LF]) \<and>
     std_error (WriteConsoleLine K t c) = std_error c"
  by (simp add: WriteConsoleLine_def WriteConsole_def)

lemma WriteConsoleHandle_bytes:
  "\<exists>s. WriteConsoleHandle K t (Byte_Handle b) = Byte_Handle (b @ s)"
  by (auto split: sum.splits intro: exI [of _ "[]"])

end
