(* ===== verification/Process_Watcher.thy ===== *)
theory Process_Watcher
  imports Config_Manager Console_Output
begin

text \<open>
  The process watcher: \<^verbatim>\<open>include/process/process_watcher.hpp\<close> and
  \<^verbatim>\<open>source/process/process_watcher.cpp\<close>.  Rules and matching, the difference between two
  rounds of observation, the derivation of new rules, and the watcher object with its polling
  thread.  What Windows reports (the process snapshot, windows, creation times) is a record of
  functions indexed by the number of the query within the round, so that two queries may differ.
\<close>

section \<open>Data\<close>

datatype ProcessState = NotRunning | Starting | Running | Suspended | Exiting

fun StateToString :: "ProcessState \<Rightarrow> string" where
  "StateToString NotRunning = ''NotRunning''"
| "StateToString Starting = ''Starting''"
| "StateToString Running = ''Running''"
| "StateToString Suspended = ''Suspended''"
| "StateToString Exiting = ''Exiting''"

record ProcessInfo =
  pi_gameId :: string
  pi_pid :: u32
  pi_processName :: wstring
  pi_windowTitle :: wstring
  pi_state :: ProcessState
  pi_isForeground :: bool
  pi_isFullscreen :: bool
  pi_generation :: u64
  pi_creationTime100ns :: u64

record ProcessTransition =
  pt_gameId :: string
  pt_previous :: ProcessState
  pt_current :: ProcessState
  pt_info :: ProcessInfo

record ProcessEntry =
  pe_pid :: u32
  pe_name :: wstring
  pe_windowTitle :: wstring
  pe_windowTitleKnown :: bool

record GameRule =
  gr_id :: string
  gr_processNames :: "wstring list"
  gr_windowTitleContains :: wstring

record RuleMatch =
  rm_gameId :: string
  rm_entry :: ProcessEntry

record GamePresence =
  gp_gameId :: string
  gp_pid :: u32
  gp_processName :: wstring
  gp_creationTime100ns :: u64
  gp_windowTitle :: wstring
  gp_isForeground :: bool
  gp_isFullscreen :: bool

record WindowInfo =
  wi_title :: wstring
  wi_hasVisibleWindow :: bool
  wi_isForeground :: bool
  wi_isFullscreen :: bool

record ProcessDetails =
  pd_pid :: u32
  pd_name :: wstring
  pd_executablePath :: wstring
  pd_windowTitle :: wstring
  pd_hasVisibleWindow :: bool
  pd_isForeground :: bool
  pd_isFullscreen :: bool
  pd_workingSetBytes :: u64

section \<open>Rules and matching\<close>

definition rule_text :: "(u32 \<Rightarrow> string) \<Rightarrow> codec \<Rightarrow> string \<Rightarrow> wstring result" where
  "rule_text sysmsg K t =
     (if t = [] then Success []
      else case MultiByteToWideChar K t of
             Inl c \<Rightarrow> Failure (FromWin32 sysmsg c ''MultiByteToWideChar'')
           | Inr s \<Rightarrow> Success s)"

definition FoldAscii :: "u16 \<Rightarrow> u16" where
  "FoldAscii ch = (if 65 \<le> ch \<and> ch \<le> 90 then ch - 65 + 97 else ch)"

definition FoldAsciiChar :: "char \<Rightarrow> char" where
  "FoldAsciiChar ch = to_lower ch"

definition AsciiEquals :: "string \<Rightarrow> string \<Rightarrow> bool" where
  "AsciiEquals a b \<longleftrightarrow> length a = length b \<and> list_all2 (\<lambda>x y. FoldAsciiChar x = FoldAsciiChar y) a b"

fun rule_names :: "(u32 \<Rightarrow> string) \<Rightarrow> codec \<Rightarrow> string list \<Rightarrow> wstring list result" where
  "rule_names sysmsg K [] = Success []"
| "rule_names sysmsg K (n # ns) =
     (case rule_text sysmsg K n of
        Inl e \<Rightarrow> Failure e
      | Inr w \<Rightarrow> (case rule_names sysmsg K ns of Inl e \<Rightarrow> Failure e | Inr ws \<Rightarrow> Success (w # ws)))"

definition build_rule :: "(u32 \<Rightarrow> string) \<Rightarrow> codec \<Rightarrow> GameConfig \<Rightarrow> GameRule result" where
  "build_rule sysmsg K g =
     (case rule_names sysmsg K (gc_processNames g) of
        Inl e \<Rightarrow> Failure e
      | Inr names \<Rightarrow>
          (case (if gc_windowTitleContains g \<noteq> [] then rule_text sysmsg K (gc_windowTitleContains g) else Success []) of
             Inl e \<Rightarrow> Failure e
           | Inr title \<Rightarrow>
               Success \<lparr>gr_id = gc_id g, gr_processNames = names, gr_windowTitleContains = title\<rparr>))"

fun BuildGameRules :: "(u32 \<Rightarrow> string) \<Rightarrow> codec \<Rightarrow> GameConfig list \<Rightarrow> GameRule list result" where
  "BuildGameRules sysmsg K [] = Success []"
| "BuildGameRules sysmsg K (g # gs) =
     (case build_rule sysmsg K g of
        Inl e \<Rightarrow> Failure e
      | Inr r \<Rightarrow> (case BuildGameRules sysmsg K gs of Inl e \<Rightarrow> Failure e | Inr rs \<Rightarrow> Success (r # rs)))"

definition ProcessNameMatches :: "wstring \<Rightarrow> wstring \<Rightarrow> bool" where
  "ProcessNameMatches ruleName processName \<longleftrightarrow>
     ruleName \<noteq> [] \<and> length ruleName = length processName \<and>
     list_all2 (\<lambda>x y. FoldAscii x = FoldAscii y) ruleName processName"

text \<open>The two loops: every start position, every character of the needle.\<close>

fun match_at :: "wstring \<Rightarrow> wstring \<Rightarrow> bool" where
  "match_at t [] = True"
| "match_at [] (x # n) = False"
| "match_at (c # t) (x # n) = (FoldAscii c = FoldAscii x \<and> match_at t n)"

fun contains_from :: "wstring \<Rightarrow> wstring \<Rightarrow> bool" where
  "contains_from [] needle = False"
| "contains_from (c # t) needle =
     (if length needle > length (c # t) then False
      else if match_at (c # t) needle then True else contains_from t needle)"

definition ContainsAscii :: "wstring \<Rightarrow> wstring \<Rightarrow> bool" where
  "ContainsAscii text needle =
     (if needle = [] then True else if length needle > length text then False else contains_from text needle)"

fun rule_hits :: "GameRule \<Rightarrow> ProcessEntry \<Rightarrow> bool" where
  "rule_hits rule e \<longleftrightarrow>
     list_ex (\<lambda>n. ProcessNameMatches n (pe_name e)) (gr_processNames rule) \<and>
     (gr_windowTitleContains rule \<noteq> [] \<longrightarrow>
        pe_windowTitleKnown e \<and> ContainsAscii (pe_windowTitle e) (gr_windowTitleContains rule))"

fun MatchRulesToEntries :: "GameRule list \<Rightarrow> ProcessEntry list \<Rightarrow> RuleMatch list" where
  "MatchRulesToEntries [] es = []"
| "MatchRulesToEntries (r # rs) es =
     (case find (rule_hits r) es of
        None \<Rightarrow> MatchRulesToEntries rs es
      | Some e \<Rightarrow> \<lparr>rm_gameId = gr_id r, rm_entry = e\<rparr> # MatchRulesToEntries rs es)"

section \<open>The difference of two rounds\<close>

definition FindTracked :: "ProcessInfo list \<Rightarrow> string \<Rightarrow> u32 \<Rightarrow> ProcessInfo option" where
  "FindTracked tracked gameId pid = find (\<lambda>i. pi_gameId i = gameId \<and> pi_pid i = pid) tracked"

definition PresenceHas :: "GamePresence list \<Rightarrow> string \<Rightarrow> u32 \<Rightarrow> bool" where
  "PresenceHas presence gameId pid = list_ex (\<lambda>i. gp_gameId i = gameId \<and> gp_pid i = pid) presence"

definition ToProcessInfo :: "GamePresence \<Rightarrow> ProcessState \<Rightarrow> u64 \<Rightarrow> ProcessInfo" where
  "ToProcessInfo p state generation =
     \<lparr>pi_gameId = gp_gameId p, pi_pid = gp_pid p, pi_processName = gp_processName p,
      pi_windowTitle = gp_windowTitle p, pi_state = state, pi_isForeground = gp_isForeground p,
      pi_isFullscreen = gp_isFullscreen p, pi_generation = generation,
      pi_creationTime100ns = gp_creationTime100ns p\<rparr>"

record DiffResult =
  df_tracked :: "ProcessInfo list"
  df_transitions :: "ProcessTransition list"

definition transition :: "string \<Rightarrow> ProcessState \<Rightarrow> ProcessState \<Rightarrow> ProcessInfo \<Rightarrow> ProcessTransition" where
  "transition gameId previous current info =
     \<lparr>pt_gameId = gameId, pt_previous = previous, pt_current = current, pt_info = info\<rparr>"

definition is_restart :: "ProcessInfo \<Rightarrow> GamePresence \<Rightarrow> bool" where
  "is_restart prev item \<longleftrightarrow>
     pi_creationTime100ns prev \<noteq> 0 \<and> gp_creationTime100ns item \<noteq> 0 \<and>
     pi_creationTime100ns prev \<noteq> gp_creationTime100ns item"

text \<open>One present process: the entries and transitions it adds, and the next generation.\<close>

definition diff_present ::
  "ProcessInfo list \<Rightarrow> GamePresence \<Rightarrow> u64 \<Rightarrow> ProcessInfo list \<times> ProcessTransition list \<times> u64" where
  "diff_present previous item n =
     (if gp_pid item = 0 then ([], [], n)
      else case FindTracked previous (gp_gameId item) (gp_pid item) of
             None \<Rightarrow>
               (let info = ToProcessInfo item Starting n
                in ([info], [transition (gp_gameId item) NotRunning Starting info], n + 1))
           | Some prev \<Rightarrow>
               if is_restart prev item then
                 (let info = ToProcessInfo item Starting n
                  in ([info],
                      [transition (gp_gameId item) (pi_state prev) Exiting prev,
                       transition (gp_gameId item) NotRunning Starting info], n + 1))
               else
                 (let info = ToProcessInfo item Running (pi_generation prev)
                  in ([info],
                      if pi_state prev \<noteq> Running
                      then [transition (gp_gameId item) (pi_state prev) Running info] else [], n)))"

fun diff_first ::
  "ProcessInfo list \<Rightarrow> GamePresence list \<Rightarrow> u64 \<Rightarrow> ProcessInfo list \<times> ProcessTransition list \<times> u64" where
  "diff_first previous [] n = ([], [], n)"
| "diff_first previous (i # is) n =
     (let (a, b, n1) = diff_present previous i n; (as, bs, n2) = diff_first previous is n1
      in (a @ as, b @ bs, n2))"

definition diff_absent ::
  "GamePresence list \<Rightarrow> ProcessInfo \<Rightarrow> ProcessInfo list \<times> ProcessTransition list" where
  "diff_absent presence prev =
     (if PresenceHas presence (pi_gameId prev) (pi_pid prev) then ([], [])
      else case pi_state prev of
             NotRunning \<Rightarrow> ([], [])
           | Exiting \<Rightarrow> ([], [transition (pi_gameId prev) Exiting NotRunning prev])
           | s \<Rightarrow>
               (let info = prev\<lparr>pi_state := Exiting\<rparr>
                in ([info], [transition (pi_gameId prev) s Exiting info])))"

fun diff_second ::
  "GamePresence list \<Rightarrow> ProcessInfo list \<Rightarrow> ProcessInfo list \<times> ProcessTransition list" where
  "diff_second presence [] = ([], [])"
| "diff_second presence (p # ps) =
     (let (a, b) = diff_absent presence p; (as, bs) = diff_second presence ps in (a @ as, b @ bs))"

definition DiffProcessPresence ::
  "ProcessInfo list \<Rightarrow> GamePresence list \<Rightarrow> u64 \<Rightarrow> DiffResult \<times> u64" where
  "DiffProcessPresence previous presence n =
     (let (a, b, n') = diff_first previous presence n; (as, bs) = diff_second presence previous
      in (\<lparr>df_tracked = a @ as, df_transitions = b @ bs\<rparr>, n'))"

section \<open>What Windows reports\<close>

text \<open>
  A desktop is the outcome of one enumeration of the top-level windows (nothing when it failed) and
  the foreground window; a window carries what the code reads of it, rectangles as left, top, right
  and bottom.
\<close>

record window =
  wn_visible :: bool
  wn_pid :: u32
  wn_text :: wstring
  wn_rect :: "(int \<times> int \<times> int \<times> int) option"
  wn_monitor :: "(int \<times> int \<times> int \<times> int) option"

record desktop =
  dk_windows :: "window list option"
  dk_foreground :: "window option"

record process_image =
  im_path :: "wstring option"
  im_workingSet :: "u64 option"

text \<open>
  The process snapshot (its handle, the first entry, the following ones), the process times, and
  an opened process.
\<close>

record process_api =
  pa_snapshot :: "u32 option"
  pa_first :: "u32 + (u32 \<times> wstring)"
  pa_next :: "(u32 \<times> wstring) list"
  pa_times :: "nat \<Rightarrow> u32 \<Rightarrow> (u32 \<times> u32) option"
  pa_desktop :: "nat \<Rightarrow> desktop"
  pa_open :: "u32 \<Rightarrow> u32 + process_image"

definition ProcessEntry_of :: "u32 \<times> wstring \<Rightarrow> ProcessEntry" where
  "ProcessEntry_of e =
     \<lparr>pe_pid = fst e, pe_name = snd e, pe_windowTitle = [], pe_windowTitleKnown = False\<rparr>"

text \<open>\<open>ERROR_NO_MORE_FILES\<close> is 18.\<close>

definition EnumerateProcesses :: "(u32 \<Rightarrow> string) \<Rightarrow> process_api \<Rightarrow> ProcessEntry list result" where
  "EnumerateProcesses sysmsg A =
     (case pa_snapshot A of
        Some c \<Rightarrow> Failure (FromWin32 sysmsg c ''CreateToolhelp32Snapshot'')
      | None \<Rightarrow>
          (case pa_first A of
             Inl c \<Rightarrow> if c = 18 then Success [] else Failure (FromWin32 sysmsg c ''Process32FirstW'')
           | Inr e \<Rightarrow> Success (map ProcessEntry_of (e # pa_next A))))"

text \<open>High and low part of the creation time; 0 when the process cannot be opened or read.\<close>

definition QueryProcessCreationTime :: "process_api \<Rightarrow> nat \<Rightarrow> u32 \<Rightarrow> u64" where
  "QueryProcessCreationTime A k pid =
     (case pa_times A k pid of
        None \<Rightarrow> 0
      | Some (hi, lo) \<Rightarrow> or (push_bit 32 (ucast hi)) (ucast lo))"

text \<open>The callback of the window enumeration; the buffer takes 511 characters.\<close>

record WindowEnumContext =
  wc_title :: wstring
  wc_foundTitle :: bool
  wc_foundVisible :: bool

definition EnumWindowProc :: "u32 \<Rightarrow> window \<Rightarrow> WindowEnumContext \<Rightarrow> WindowEnumContext" where
  "EnumWindowProc pid w c =
     (if \<not> wn_visible w then c
      else if wn_pid w \<noteq> pid then c
      else
        (let c1 = c\<lparr>wc_foundVisible := True\<rparr>
         in if \<not> wc_foundTitle c1 \<and> wn_text w \<noteq> []
            then c1\<lparr>wc_title := take 511 (wn_text w), wc_foundTitle := True\<rparr> else c1))"

definition IsWindowFullscreen :: "window \<Rightarrow> bool" where
  "IsWindowFullscreen w =
     (case wn_rect w of
        None \<Rightarrow> False
      | Some r \<Rightarrow> (case wn_monitor w of None \<Rightarrow> False | Some q \<Rightarrow> r = q))"

definition QueryWindowInfo :: "process_api \<Rightarrow> nat \<Rightarrow> u32 \<Rightarrow> WindowInfo result" where
  "QueryWindowInfo A k pid =
     (let d = pa_desktop A k;
          c = (case dk_windows d of
                 None \<Rightarrow> \<lparr>wc_title = [], wc_foundTitle = False, wc_foundVisible = False\<rparr>
               | Some ws \<Rightarrow>
                   fold (EnumWindowProc pid) ws \<lparr>wc_title = [], wc_foundTitle = False, wc_foundVisible = False\<rparr>);
          mine = (case dk_foreground d of None \<Rightarrow> None | Some w \<Rightarrow> if wn_pid w = pid then Some w else None)
      in Success
           \<lparr>wi_title = wc_title c, wi_hasVisibleWindow = wc_foundVisible c, wi_isForeground = (mine \<noteq> None),
            wi_isFullscreen = (case mine of None \<Rightarrow> False | Some w \<Rightarrow> IsWindowFullscreen w)\<rparr>)"

section \<open>The process catalogue\<close>

definition ProcessMatchesFilter :: "ProcessDetails \<Rightarrow> wstring \<Rightarrow> bool" where
  "ProcessMatchesFilter d f =
     (if f = [] then True
      else ContainsAscii (pd_name d) f \<or> ContainsAscii (pd_executablePath d) f \<or> ContainsAscii (pd_windowTitle d) f)"

text \<open>The part before the last dot, when there is one after the first character.\<close>

definition strip_extension :: "wstring \<Rightarrow> wstring" where
  "strip_extension t =
     (let b = rev (tl (dropWhile (\<lambda>u. u \<noteq> 0x2E) (rev t)))
      in if 0x2E \<in> set t \<and> b \<noteq> [] then b else t)"

definition DeriveGameId :: "(u32 \<Rightarrow> string) \<Rightarrow> codec \<Rightarrow> wstring \<Rightarrow> string result" where
  "DeriveGameId sysmsg K processName =
     (case WideToUtf8 sysmsg K (strip_extension processName) of
        Inl _ \<Rightarrow> Failure (Error_Validation ''DeriveGameId'' ''Process name is not valid UTF-16'')
      | Inr utf8 \<Rightarrow> Success (map to_lower utf8))"

definition id_conflict :: "GameConfig list \<Rightarrow> string \<Rightarrow> bool" where
  "id_conflict existing candidate = list_ex (\<lambda>g. AsciiEquals (gc_id g) candidate) existing"

definition id_candidate :: "string \<Rightarrow> nat \<Rightarrow> string" where
  "id_candidate baseId suffix = baseId @ ''-'' @ dec_of_nat suffix"

partial_function (option) unique_suffix :: "string \<Rightarrow> GameConfig list \<Rightarrow> nat \<Rightarrow> string option" where
  [code]: "unique_suffix baseId existing suffix =
     (if \<not> id_conflict existing (id_candidate baseId suffix) then Some (id_candidate baseId suffix)
      else unique_suffix baseId existing (suffix + 1))"

definition MakeUniqueGameId :: "string \<Rightarrow> GameConfig list \<Rightarrow> string option" where
  "MakeUniqueGameId baseId existing =
     (if \<not> id_conflict existing baseId then Some baseId else unique_suffix baseId existing 2)"

definition display_name :: "(u32 \<Rightarrow> string) \<Rightarrow> codec \<Rightarrow> ProcessDetails \<Rightarrow> wstring \<Rightarrow> string" where
  "display_name sysmsg K d hint =
     (let try_name = (\<lambda>old t. if old = [] \<and> t \<noteq> []
                       then (case WideToUtf8 sysmsg K t of Inl _ \<Rightarrow> old | Inr s \<Rightarrow> s) else old)
      in try_name (try_name (try_name [] hint) (pd_windowTitle d)) (pd_name d))"

text \<open>Not returning is the value None.\<close>

definition BuildGameRuleFromProcess ::
  "(u32 \<Rightarrow> string) \<Rightarrow> codec \<Rightarrow> ProcessDetails \<Rightarrow> GameConfig list \<Rightarrow> wstring \<Rightarrow> GameConfig result option" where
  "BuildGameRuleFromProcess sysmsg K d existing hint =
     (if pd_name d = []
      then Some (Failure (Error_Validation ''BuildGameRuleFromProcess.name'' ''Process name is empty''))
      else
        (let noId = Error_Validation ''BuildGameRuleFromProcess.id''
                      ''Cannot derive a stable id from the process name''
         in case DeriveGameId sysmsg K (pd_name d) of
              Inl _ \<Rightarrow> Some (Failure noId)
            | Inr base \<Rightarrow>
                if base = [] then Some (Failure noId)
                else (case MakeUniqueGameId base existing of
                        None \<Rightarrow> None
                      | Some i \<Rightarrow>
                          (case WideToUtf8 sysmsg K (pd_name d) of
                             Inl e \<Rightarrow> Some (Failure e)
                           | Inr name \<Rightarrow>
                               Some (Success
                                 \<lparr>gc_id = i, gc_displayName = display_name sysmsg K d hint, gc_processNames = [name],
                                  gc_windowTitleContains = [], gc_pauseWhenBackground = True\<rparr>)))))"

text \<open>The part after the last backslash.\<close>

definition base_name :: "wstring \<Rightarrow> wstring" where
  "base_name t = rev (takeWhile (\<lambda>u. u \<noteq> 0x5C) (rev t))"

definition QueryProcessDetails ::
  "(u32 \<Rightarrow> string) \<Rightarrow> process_api \<Rightarrow> nat \<Rightarrow> u32 \<Rightarrow> ProcessDetails result" where
  "QueryProcessDetails sysmsg A k pid =
     (case pa_open A pid of
        Inl c \<Rightarrow> Failure (FromWin32 sysmsg c ''OpenProcess'')
      | Inr im \<Rightarrow>
          (let p = (case im_path im of None \<Rightarrow> [] | Some t \<Rightarrow> t);
               d = \<lparr>pd_pid = pid, pd_name = base_name p, pd_executablePath = p, pd_windowTitle = [],
                    pd_hasVisibleWindow = False, pd_isForeground = False, pd_isFullscreen = False,
                    pd_workingSetBytes = (case im_workingSet im of None \<Rightarrow> 0 | Some b \<Rightarrow> b)\<rparr>
           in case QueryWindowInfo A k pid of
                Inl _ \<Rightarrow> Success d
              | Inr w \<Rightarrow>
                  Success (d\<lparr>pd_windowTitle := wi_title w, pd_hasVisibleWindow := wi_hasVisibleWindow w,
                             pd_isForeground := wi_isForeground w, pd_isFullscreen := wi_isFullscreen w\<rparr>)))"

definition details_of :: "(u32 \<Rightarrow> string) \<Rightarrow> process_api \<Rightarrow> nat \<times> ProcessEntry \<Rightarrow> ProcessDetails" where
  "details_of sysmsg A e =
     (case QueryProcessDetails sysmsg A (fst e) (pe_pid (snd e)) of
        Inr d \<Rightarrow> d
      | Inl _ \<Rightarrow>
          \<lparr>pd_pid = pe_pid (snd e), pd_name = pe_name (snd e), pd_executablePath = [], pd_windowTitle = [],
           pd_hasVisibleWindow = False, pd_isForeground = False, pd_isFullscreen = False,
           pd_workingSetBytes = 0\<rparr>)"

definition EnumerateProcessDetails ::
  "(u32 \<Rightarrow> string) \<Rightarrow> process_api \<Rightarrow> bool \<Rightarrow> ProcessDetails list result" where
  "EnumerateProcessDetails sysmsg A windowOnly =
     (case EnumerateProcesses sysmsg A of
        Inl e \<Rightarrow> Failure e
      | Inr es \<Rightarrow>
          Success (filter (\<lambda>d. \<not> windowOnly \<or> pd_hasVisibleWindow d)
                     (map (details_of sysmsg A) (List.enumerate 0 es))))"

section \<open>Substrings\<close>

abbreviation folded :: "wstring \<Rightarrow> wstring" where
  "folded t \<equiv> map FoldAscii t"

lemma match_at_iff: "match_at t n \<longleftrightarrow> (\<exists>m r. t = m @ r \<and> folded m = folded n)"
proof (induction t n rule: match_at.induct)
  case (3 c t x n)
  show ?case
  proof
    assume "match_at (c # t) (x # n)"
    then obtain m r where "t = m @ r" "folded m = folded n" "FoldAscii c = FoldAscii x" using 3 by auto
    then show "\<exists>m r. c # t = m @ r \<and> folded m = folded (x # n)" by (intro exI [of _ "c # m"] exI [of _ r]) simp
  next
    assume "\<exists>m r. c # t = m @ r \<and> folded m = folded (x # n)"
    then obtain m r where m: "c # t = m @ r" "folded m = folded (x # n)" by blast
    then show "match_at (c # t) (x # n)" using 3 by (cases m) auto
  qed
qed auto

lemma contains_from_iff:
  assumes "n \<noteq> []"
  shows "contains_from t n \<longleftrightarrow> (\<exists>p m r. t = p @ m @ r \<and> folded m = folded n)"
proof (induction t)
  case Nil
  show ?case using assms by auto
next
  case (Cons c t)
  have len: "length n \<le> length (c # t)" if "c # t = p @ m @ r" "folded m = folded n" for p m r
    using arg_cong [OF that(1), of length] arg_cong [OF that(2), of length] by simp
  have here: "match_at (c # t) n \<longleftrightarrow> (\<exists>m r. c # t = [] @ m @ r \<and> folded m = folded n)"
    by (simp add: match_at_iff)
  have later: "(\<exists>p m r. c # t = (c # p) @ m @ r \<and> folded m = folded n) \<longleftrightarrow> contains_from t n"
    by (simp add: Cons.IH)
  have split: "(\<exists>p m r. c # t = p @ m @ r \<and> folded m = folded n) \<longleftrightarrow> match_at (c # t) n \<or> contains_from t n"
  proof
    assume "\<exists>p m r. c # t = p @ m @ r \<and> folded m = folded n"
    then obtain p m r where "c # t = p @ m @ r" "folded m = folded n" by blast
    then show "match_at (c # t) n \<or> contains_from t n"
      unfolding here Cons.IH by (cases p) auto
  next
    assume "match_at (c # t) n \<or> contains_from t n"
    then show "\<exists>p m r. c # t = p @ m @ r \<and> folded m = folded n"
      using here later by metis
  qed
  have "\<not> (match_at (c # t) n \<or> contains_from t n)" if "length n > length (c # t)"
    using split len that by fastforce
  then show ?case unfolding split by auto
qed

text \<open>
  The substring test of titles and filters is exact: it succeeds iff some contiguous part of the
  text equals the needle up to the case of ASCII letters.\<close>
theorem ContainsAscii_exact:
  "ContainsAscii t n \<longleftrightarrow> (\<exists>p m r. t = p @ m @ r \<and> map FoldAscii m = map FoldAscii n)"
proof (cases "n = [] \<or> length n > length t")
  case True
  have "length n \<le> length t" if "t = p @ m @ r" "map FoldAscii m = map FoldAscii n" for p m r
    using arg_cong [OF that(1), of length] arg_cong [OF that(2), of length] by simp
  then have "\<not> length n > length t" if "\<exists>p m r. t = p @ m @ r \<and> map FoldAscii m = map FoldAscii n"
    using that by (metis leD)
  moreover have "\<exists>p m r. t = p @ m @ r \<and> map FoldAscii m = map FoldAscii n" if "n = []"
    using that by (intro exI [of _ "[]"] exI [of _ "[]"] exI [of _ t]) simp
  ultimately show ?thesis using True by (auto simp: ContainsAscii_def)
next
  case False
  then show ?thesis using contains_from_iff [of n t] by (simp add: ContainsAscii_def)
qed

section \<open>Fresh ids\<close>

lemma AsciiEquals_iff: "AsciiEquals a b \<longleftrightarrow> map to_lower a = map to_lower b"
  by (auto simp: AsciiEquals_def FoldAsciiChar_def list_all2_conv_all_nth list_eq_iff_nth_eq)

lemma id_conflict_iff: "id_conflict gs c \<longleftrightarrow> ToLower c \<in> set (ids gs)"
  by (force simp: id_conflict_def AsciiEquals_iff ToLower_def list_ex_iff)

lemma to_lower_dec: "map to_lower (dec_of_nat n) = dec_of_nat n"
  using dec_of_nat_digits [of n]
  by (intro map_idI) (auto simp: to_lower_def is_upper_def is_digit_def list_all_iff)

lemma dec_of_nat_eq: "dec_of_nat m = dec_of_nat n \<longleftrightarrow> m = n"
  using dec_of_nat_inj by blast

lemma id_candidate_inj: "ToLower (id_candidate b m) = ToLower (id_candidate b n) \<longleftrightarrow> m = n"
  by (simp add: id_candidate_def ToLower_def to_lower_dec dec_of_nat_eq)

lemma some_candidate_free: "\<exists>k \<le> length gs. \<not> id_conflict gs (id_candidate b (k + 2))"
proof (rule ccontr)
  assume "\<not> ?thesis"
  then have "(\<lambda>k. ToLower (id_candidate b (k + 2))) ` {..length gs} \<subseteq> set (ids gs)"
    by (auto simp: id_conflict_iff simp del: set_map)
  from card_mono [OF _ this] have "card ((\<lambda>k. ToLower (id_candidate b (k + 2))) ` {..length gs}) \<le> card (set (ids gs))"
    by simp
  moreover have "inj_on (\<lambda>k. ToLower (id_candidate b (k + 2))) {..length gs}"
    by (auto intro!: inj_onI simp: id_candidate_inj)
  moreover have "card (set (ids gs)) \<le> length gs" using card_length [of "ids gs"] by simp
  ultimately show False by (simp add: card_image)
qed

lemma unique_suffix_least:
  assumes "\<not> id_conflict gs (id_candidate b (m + k))" and "\<And>j. j < k \<Longrightarrow> id_conflict gs (id_candidate b (m + j))"
  shows "unique_suffix b gs m = Some (id_candidate b (m + k))"
  using assms
proof (induction k arbitrary: m)
  case 0
  then show ?case by (subst unique_suffix.simps) simp
next
  case (Suc k)
  have c: "id_conflict gs (id_candidate b m)" using Suc.prems(2) [of 0] by simp
  have "unique_suffix b gs (m + 1) = Some (id_candidate b (m + 1 + k))"
    by (rule Suc.IH) (use Suc.prems(1) Suc.prems(2) [of "Suc _"] in simp_all)
  with c show ?case by (subst unique_suffix.simps) simp
qed

lemma MergeGameRules_new: "\<not> id_conflict gs (gc_id g) \<Longrightarrow> MergeGameRules gs [g] = gs @ [g]"
  unfolding MergeGameRules_def by (induction gs) (auto simp: id_conflict_iff)

lemma MakeUniqueGameId_cases:
  "\<exists>i. MakeUniqueGameId b gs = Some i \<and> \<not> id_conflict gs i \<and>
     (i = b \<or> id_conflict gs b \<and>
        (\<exists>k. 2 \<le> k \<and> k \<le> length gs + 2 \<and> i = id_candidate b k \<and> (\<forall>j \<in> {2..<k}. id_conflict gs (id_candidate b j))))"
proof -
  show ?thesis
  proof (cases "id_conflict gs b")
    case False
    then show ?thesis by (auto simp: MakeUniqueGameId_def)
  next
    case True
    define k where "k = (LEAST k. \<not> id_conflict gs (id_candidate b (k + 2)))"
    obtain k0 where k0: "k0 \<le> length gs" "\<not> id_conflict gs (id_candidate b (k0 + 2))"
      using some_candidate_free by blast
    have free: "\<not> id_conflict gs (id_candidate b (k + 2))"
      unfolding k_def by (rule LeastI) (rule k0(2))
    have below: "id_conflict gs (id_candidate b (j + 2))" if "j < k" for j
      using not_less_Least that unfolding k_def by blast
    have "k \<le> k0" unfolding k_def by (rule Least_le) (rule k0(2))
    moreover have "unique_suffix b gs 2 = Some (id_candidate b (2 + k))"
      by (rule unique_suffix_least) (use free below in \<open>simp_all add: add.commute\<close>)
    moreover have "id_conflict gs (id_candidate b j)" if "j \<in> {2..<2 + k}" for j
    proof -
      have "j = (j - 2) + 2" "j - 2 < k" using that by auto
      then show ?thesis using below [of "j - 2"] by simp
    qed
    ultimately show ?thesis
      using True k0(1) free
      by (intro exI [of _ "id_candidate b (2 + k)"]) (auto simp: MakeUniqueGameId_def add.commute intro!: exI [of _ "2 + k"])
  qed
qed

text \<open>
  Choosing a fresh id always returns.  The result is the base itself or the base with the least free
  number from 2 on, at most two more than the number of rules; it conflicts with no rule, so merging
  a rule with this id appends it and replaces nothing.\<close>
theorem MakeUniqueGameId_fresh:
  "\<exists>i. MakeUniqueGameId b gs = Some i \<and> \<not> id_conflict gs i \<and>
     (i = b \<or> id_conflict gs b \<and>
        (\<exists>k. 2 \<le> k \<and> k \<le> length gs + 2 \<and> i = id_candidate b k \<and> (\<forall>j \<in> {2..<k}. id_conflict gs (id_candidate b j)))) \<and>
     (gc_id g = i \<longrightarrow> MergeGameRules gs [g] = gs @ [g])"
  using MakeUniqueGameId_cases [of b gs] MergeGameRules_new [of gs g] by auto

theorem MakeUniqueGameId_fresh_witness:
  "let g = \<lparr>gc_id = ''a-2'', gc_displayName = [], gc_processNames = [], gc_windowTitleContains = [],
            gc_pauseWhenBackground = True\<rparr>
   in MakeUniqueGameId ''a'' [g\<lparr>gc_id := ''A''\<rparr>] = Some ''a-2'' \<and>
      MergeGameRules [g\<lparr>gc_id := ''A''\<rparr>] [g] = [g\<lparr>gc_id := ''A''\<rparr>, g]"
proof -
  define g where "g = \<lparr>gc_id = ''a-2'', gc_displayName = [], gc_processNames = [], gc_windowTitleContains = [],
            gc_pauseWhenBackground = True\<rparr>"
  have "MakeUniqueGameId ''a'' [g\<lparr>gc_id := ''A''\<rparr>] = Some ''a-2''" unfolding g_def by code_simp
  with MakeUniqueGameId_fresh [of "''a''" "[g\<lparr>gc_id := ''A''\<rparr>]" g] show ?thesis
    by (simp add: g_def [symmetric]) (simp add: g_def)
qed

lemma MakeUniqueGameId_free: "MakeUniqueGameId b gs = Some i \<Longrightarrow> \<not> id_conflict gs i"
  using MakeUniqueGameId_cases [of b gs] by auto

text \<open>
  A rule made from a running process works: for every process it either reports an error or gives a
  rule whose id is new, so that merging appends it, and that, converted back, recognises every process
  of the same name, provided that converting the name to UTF-8 and back gives the name.\<close>
theorem BuildGameRuleFromProcess_recognised:
  assumes "\<And>u. WideCharToMultiByte K (pd_name d) = Inr u \<Longrightarrow> u \<noteq> [] \<and> MultiByteToWideChar K u = Inr (pd_name d)"
    and "pe_name e = pd_name d"
  shows "\<exists>r. BuildGameRuleFromProcess sysmsg K d existing hint = Some r \<and>
    (\<forall>g. r = Success g \<longrightarrow>
       MergeGameRules existing [g] = existing @ [g] \<and>
       (\<exists>rule. BuildGameRules sysmsg K [g] = Success [rule] \<and>
          MatchRulesToEntries [rule] [e] = [\<lparr>rm_gameId = gc_id g, rm_entry = e\<rparr>]))"
proof -
  have total: "MakeUniqueGameId b existing \<noteq> None" for b
    using MakeUniqueGameId_cases [of b existing] by auto
  have "BuildGameRuleFromProcess sysmsg K d existing hint \<noteq> None"
    by (auto simp: BuildGameRuleFromProcess_def Let_def total split: sum.splits option.splits)
  then obtain r where r: "BuildGameRuleFromProcess sysmsg K d existing hint = Some r" by blast
  have "MergeGameRules existing [g] = existing @ [g] \<and>
       (\<exists>rule. BuildGameRules sysmsg K [g] = Success [rule] \<and>
          MatchRulesToEntries [rule] [e] = [\<lparr>rm_gameId = gc_id g, rm_entry = e\<rparr>])" if res: "r = Success g" for g
  proof -
    obtain b name where ne: "pd_name d \<noteq> []" and i: "MakeUniqueGameId b existing = Some (gc_id g)"
      and name: "WideToUtf8 sysmsg K (pd_name d) = Success name"
      and g: "gc_processNames g = [name]" "gc_windowTitleContains g = []"
      using r res
      by (auto simp: BuildGameRuleFromProcess_def Let_def split: if_splits sum.splits option.splits)
    have "name \<noteq> []" "MultiByteToWideChar K name = Inr (pd_name d)"
      using assms(1) name ne by (auto simp: WideToUtf8_def split: sum.splits)
    then have "BuildGameRules sysmsg K [g] = Success
        [\<lparr>gr_id = gc_id g, gr_processNames = [pd_name d], gr_windowTitleContains = []\<rparr>]"
      using g by (simp add: build_rule_def rule_text_def)
    moreover have "ProcessNameMatches (pd_name d) (pe_name e)"
      using ne assms(2) by (simp add: ProcessNameMatches_def list_all2_refl)
    ultimately show ?thesis
      using MergeGameRules_new MakeUniqueGameId_free [OF i] by simp
  qed
  with r show ?thesis by blast
qed

theorem BuildGameRuleFromProcess_recognised_witness:
  "\<exists>g. BuildGameRuleFromProcess (\<lambda>_. []) byte_codec
         \<lparr>pd_pid = 7, pd_name = wide ''G.exe'', pd_executablePath = [], pd_windowTitle = [], pd_hasVisibleWindow = False,
          pd_isForeground = False, pd_isFullscreen = False, pd_workingSetBytes = 0\<rparr> [] [] = Some (Success g) \<and>
     MergeGameRules [] [g] = [g]"
proof -
  let ?d = "\<lparr>pd_pid = 7, pd_name = wide ''G.exe'', pd_executablePath = [], pd_windowTitle = [], pd_hasVisibleWindow = False,
          pd_isForeground = False, pd_isFullscreen = False, pd_workingSetBytes = 0\<rparr>"
  let ?e = "\<lparr>pe_pid = 7, pe_name = wide ''G.exe'', pe_windowTitle = [], pe_windowTitleKnown = False\<rparr>"
  let ?r = "BuildGameRuleFromProcess (\<lambda>_. []) byte_codec ?d [] []"
  have w: "WideCharToMultiByte byte_codec (wide ''G.exe'') = Inr ''G.exe''" by code_simp
  have m: "MultiByteToWideChar byte_codec ''G.exe'' = Inr (wide ''G.exe'')" by code_simp
  have "case ?r of None \<Rightarrow> False | Some (Inl _) \<Rightarrow> False | Some (Inr _) \<Rightarrow> True" by code_simp
  then obtain g where "?r = Some (Success g)" by (auto split: option.splits sum.splits)
  moreover have "\<exists>r. ?r = Some r \<and> (\<forall>g. r = Success g \<longrightarrow> MergeGameRules [] [g] = [] @ [g] \<and>
       (\<exists>rule. BuildGameRules (\<lambda>_. []) byte_codec [g] = Success [rule] \<and>
          MatchRulesToEntries [rule] [?e] = [\<lparr>rm_gameId = gc_id g, rm_entry = ?e\<rparr>]))"
    by (rule BuildGameRuleFromProcess_recognised) (simp_all add: w m)
  ultimately show ?thesis by auto
qed

end
