(* ===== verification/Process_Lives.thy ===== *)
theory Process_Lives
  imports Process_Watcher
begin

text \<open>
  The lives of watched processes.  A life is one generation; the specification is the little state
  machine \<open>edge\<close>, and \<open>life g H\<close> replays the transitions of generation \<open>g\<close> in the history \<open>H\<close> along
  it.  The invariant \<open>lives\<close> says that history, tracked entries and generation counter agree; every
  elementary change of the two passes of \<open>DiffProcessPresence\<close> preserves it, and so does the whole.
\<close>

section \<open>The protocol\<close>

text \<open>
  The transitions of a process life, one generation, and the state they lead to: None when they do
  not follow on from each other or take a step the protocol does not have.
\<close>

fun edge :: "ProcessState \<Rightarrow> ProcessState \<Rightarrow> bool" where
  "edge NotRunning s \<longleftrightarrow> s = Starting"
| "edge Starting s \<longleftrightarrow> s = Running \<or> s = Exiting"
| "edge Running s \<longleftrightarrow> s = Exiting"
| "edge Suspended s \<longleftrightarrow> False"
| "edge Exiting s \<longleftrightarrow> s = Running \<or> s = NotRunning \<or> s = Exiting"

fun follow :: "ProcessState \<Rightarrow> ProcessTransition list \<Rightarrow> ProcessState option" where
  "follow s [] = Some s"
| "follow s (t # ts) = (if pt_previous t = s \<and> edge s (pt_current t) then follow (pt_current t) ts else None)"

definition life :: "u64 \<Rightarrow> ProcessTransition list \<Rightarrow> ProcessState option" where
  "life g ts = follow NotRunning (filter (\<lambda>t. pi_generation (pt_info t) = g) ts)"

lemma follow_append: "follow s (ts @ us) = (case follow s ts of None \<Rightarrow> None | Some q \<Rightarrow> follow q us)"
  by (induction ts arbitrary: s) auto

lemma life_snoc_other: "pi_generation (pt_info t) \<noteq> g \<Longrightarrow> life g (ts @ [t]) = life g ts"
  by (simp add: life_def)

lemma life_snoc_same:
  "pi_generation (pt_info t) = g \<Longrightarrow> life g ts = Some (pt_previous t) \<Longrightarrow> edge (pt_previous t) (pt_current t) \<Longrightarrow>
     life g (ts @ [t]) = Some (pt_current t)"
  by (simp add: life_def follow_append)

datatype proc_key = Proc_Key string u32

definition key :: "ProcessInfo \<Rightarrow> proc_key" where
  "key i = Proc_Key (pi_gameId i) (pi_pid i)"

definition pkey :: "GamePresence \<Rightarrow> proc_key" where
  "pkey i = Proc_Key (gp_gameId i) (gp_pid i)"

lemma key_pid: "key p = key q \<Longrightarrow> pi_pid p = pi_pid q"
  by (simp add: key_def)

text \<open>
  The tracked set \<open>T\<close>, the next generation \<open>n\<close> and the history \<open>H\<close> agree.
\<close>

definition lives :: "ProcessTransition list \<Rightarrow> ProcessInfo set \<Rightarrow> u64 \<Rightarrow> bool" where
  "lives H T n \<longleftrightarrow>
     (\<forall>g. life g H \<noteq> None) \<and> (\<forall>t \<in> set H. unat (pi_generation (pt_info t)) < unat n) \<and>
     inj_on key T \<and> inj_on pi_generation T \<and>
     (\<forall>i \<in> T. pi_pid i \<noteq> 0 \<and> unat (pi_generation i) < unat n \<and> pi_state i \<in> {Starting, Running, Exiting} \<and>
        life (pi_generation i) H = Some (pi_state i))"

lemma livesD:
  assumes "lives H T n" and "i \<in> T"
  shows "pi_pid i \<noteq> 0" "unat (pi_generation i) < unat n" "pi_state i \<in> {Starting, Running, Exiting}"
    "life (pi_generation i) H = Some (pi_state i)"
  using assms by (auto simp: lives_def)

lemma lives_subset: "lives H T n \<Longrightarrow> S \<subseteq> T \<Longrightarrow> lives H S n"
  unfolding lives_def by (meson inj_on_subset subset_iff)

lemma life_fresh:
  assumes "\<forall>t \<in> set H. unat (pi_generation (pt_info t)) < unat n"
  shows "life n H = Some NotRunning"
proof -
  have "filter (\<lambda>t. pi_generation (pt_info t) = n) H = []" using assms by (auto simp: filter_empty_conv)
  then show ?thesis by (simp add: life_def)
qed

lemma lives_insert:
  assumes "lives H T n" and "key q \<notin> key ` T" and "pi_generation q \<notin> pi_generation ` T"
    and "pi_pid q \<noteq> 0" and "unat (pi_generation q) < unat n" and "pi_state q \<in> {Starting, Running, Exiting}"
    and "life (pi_generation q) H = Some (pi_state q)"
  shows "lives H (insert q T) n"
proof -
  have "inj_on key (insert q T)" "inj_on pi_generation (insert q T)"
    using assms(1,2,3) by (auto simp only: lives_def inj_on_insert intro: inj_on_subset)
  with assms show ?thesis unfolding lives_def by blast
qed

lemma lives_others:
  assumes "lives H T n" and "p \<in> T"
  shows "pi_generation p \<notin> pi_generation ` (T - {p})" and "key p \<notin> key ` (T - {p})"
proof -
  have inj: "inj_on key T" "inj_on pi_generation T" using assms(1) by (simp_all only: lives_def)
  show "pi_generation p \<notin> pi_generation ` (T - {p})" using inj_onD [OF inj(2)] assms(2) by fastforce
  show "key p \<notin> key ` (T - {p})" using inj_onD [OF inj(1)] assms(2) by fastforce
qed

lemma lives_start:
  assumes "lives H T n" and "unat n < 2 ^ 64 - 1" and "pi_generation i = n" and "pi_state i = Starting"
    and "pi_pid i \<noteq> 0" and "key i \<notin> key ` T" and "t = transition gid NotRunning Starting i"
  shows "lives (H @ [t]) (insert i T) (n + 1)"
proof -
  have n1: "unat (n + 1) = unat n + 1" using assms(2) by (simp add: unat_word_ariths)
  have t: "pi_generation (pt_info t) = n" "pt_previous t = NotRunning" "pt_current t = Starting"
    using assms(3,7) by (simp_all add: transition_def)
  have old: "\<forall>u \<in> set H. unat (pi_generation (pt_info u)) < unat n" using assms(1) by (simp add: lives_def)
  have g: "life n (H @ [t]) = Some Starting"
    using life_snoc_same [of t n H] life_fresh [OF old] t by simp
  have other: "life g (H @ [t]) = life g H" if "g \<noteq> n" for g
    using life_snoc_other [of t g H] t that by simp
  have T: "pi_generation p \<noteq> n" if "p \<in> T" for p using livesD(2) [OF assms(1) that] by auto
  then have nT: "n \<notin> pi_generation ` T" by blast
  have "lives (H @ [t]) T (n + 1)"
    unfolding lives_def
  proof (intro conjI)
    show "\<forall>g. life g (H @ [t]) \<noteq> None" using g other assms(1) by (metis lives_def option.distinct(1))
    show "\<forall>u \<in> set (H @ [t]). unat (pi_generation (pt_info u)) < unat (n + 1)" using old t n1 by auto
    show "inj_on key T" "inj_on pi_generation T" using assms(1) by (simp_all only: lives_def)
    show "\<forall>p \<in> T. pi_pid p \<noteq> 0 \<and> unat (pi_generation p) < unat (n + 1) \<and>
        pi_state p \<in> {Starting, Running, Exiting} \<and> life (pi_generation p) (H @ [t]) = Some (pi_state p)"
      using livesD [OF assms(1)] T other n1 by (simp add: less_SucI)
  qed
  then show ?thesis
    by (rule lives_insert) (use assms(3-6) nT g n1 in simp_all)
qed

text \<open>A tracked process makes a step: it is replaced by \<open>S\<close>, its successor or nothing.\<close>

lemma lives_step:
  assumes "lives H T n" and "p \<in> T" and "pi_generation (pt_info t) = pi_generation p" and "pt_previous t = pi_state p"
    and "edge (pi_state p) (pt_current t)"
    and "S = {} \<or> S = {q} \<and> key q = key p \<and> pi_generation q = pi_generation p \<and> pi_state q = pt_current t \<and>
           pt_current t \<in> {Starting, Running, Exiting}"
  shows "lives (H @ [t]) ((T - {p}) \<union> S) n"
proof -
  note P = livesD [OF assms(1,2)]
  have g: "life (pi_generation p) (H @ [t]) = Some (pt_current t)"
    using life_snoc_same [of t "pi_generation p" H] P(4) assms(3,4,5) by simp
  have other: "life g (H @ [t]) = life g H" if "g \<noteq> pi_generation p" for g
    using life_snoc_other [of t g H] assms(3) that by simp
  have T: "pi_generation q \<noteq> pi_generation p" if "q \<in> T - {p}" for q
    using assms(1,2) that by (auto simp: lives_def inj_on_def)
  have "lives (H @ [t]) (T - {p}) n"
    unfolding lives_def
  proof (intro conjI)
    show "\<forall>g. life g (H @ [t]) \<noteq> None" using g other assms(1) by (metis lives_def option.distinct(1))
    show "\<forall>u \<in> set (H @ [t]). unat (pi_generation (pt_info u)) < unat n"
      using assms(1,3) P(2) by (auto simp: lives_def)
    show "inj_on key (T - {p})" "inj_on pi_generation (T - {p})"
      using assms(1) by (auto simp: lives_def intro: inj_on_subset)
    show "\<forall>i \<in> T - {p}. pi_pid i \<noteq> 0 \<and> unat (pi_generation i) < unat n \<and>
        pi_state i \<in> {Starting, Running, Exiting} \<and> life (pi_generation i) (H @ [t]) = Some (pi_state i)"
      using livesD [OF assms(1)] T other by auto
  qed
  moreover have "lives (H @ [t]) (insert q (T - {p})) n"
    if "key q = key p" "pi_generation q = pi_generation p" "pi_state q = pt_current t"
      "pt_current t \<in> {Starting, Running, Exiting}" "lives (H @ [t]) (T - {p}) n" for q
    using that(5) by (rule lives_insert) (use that(1-4) key_pid [OF that(1)] g P(1,2) lives_others [OF assms(1,2)] in simp_all)
  ultimately show ?thesis using assms(6) by auto
qed

lemma lives_same:
  assumes "lives H T n" and "p \<in> T" and "key q = key p" and "pi_generation q = pi_generation p"
    and "pi_state q = pi_state p"
  shows "lives H (insert q (T - {p})) n"
proof -
  have "lives H (T - {p}) n" by (rule lives_subset [OF assms(1)]) blast
  then show ?thesis
    by (rule lives_insert) (use assms(3-5) key_pid [OF assms(3)] livesD [OF assms(1,2)] lives_others [OF assms(1,2)] in simp_all)
qed

section \<open>The two passes\<close>

lemma T_minus: "lives H T n \<Longrightarrow> p \<in> T \<Longrightarrow> {q \<in> T. key q \<noteq> key p} = T - {p}"
  using lives_others(2) by (fastforce simp: image_iff)

lemma FindTracked_Some:
  "FindTracked ps (gp_gameId i) (gp_pid i) = Some p \<Longrightarrow> p \<in> set ps \<and> key p = pkey i"
  by (auto simp: FindTracked_def find_Some_iff key_def pkey_def)

lemma FindTracked_None: "FindTracked ps (gp_gameId i) (gp_pid i) = None \<longleftrightarrow> pkey i \<notin> key ` set ps"
  by (auto simp: FindTracked_def find_None_iff key_def pkey_def image_iff)

lemma ToProcessInfo_simps [simp]:
  "key (ToProcessInfo i s g) = pkey i" "pi_state (ToProcessInfo i s g) = s" "pi_generation (ToProcessInfo i s g) = g"
  "pi_gameId (ToProcessInfo i s g) = gp_gameId i" "pi_pid (ToProcessInfo i s g) = gp_pid i"
  by (simp_all add: ToProcessInfo_def key_def pkey_def)

lemma transition_simps [simp]:
  "pt_gameId (transition g a b i) = g" "pt_previous (transition g a b i) = a" "pt_current (transition g a b i) = b"
  "pt_info (transition g a b i) = i"
  by (simp_all add: transition_def)

lemma diff_present_lives:
  assumes "lives H T n" and "unat n < 2 ^ 64 - 1"
    and found: "\<And>p. FindTracked previous (gp_gameId i) (gp_pid i) = Some p \<Longrightarrow> p \<in> T"
    and missing: "FindTracked previous (gp_gameId i) (gp_pid i) = None \<Longrightarrow> pkey i \<notin> key ` T"
    and res: "diff_present previous i n = (a, b, n1)"
  shows "lives (H @ b) ({q \<in> T. key q \<noteq> pkey i} \<union> set a) n1 \<and> unat n1 \<le> unat n + 1 \<and> key ` set a \<subseteq> {pkey i}"
proof (cases "gp_pid i = 0")
  case True
  then have "{q \<in> T. key q \<noteq> pkey i} = T" using livesD(1) [OF assms(1)] by (auto simp: key_def pkey_def)
  with True res assms(1) show ?thesis by (auto simp: diff_present_def)
next
  case pid: False
  have n1: "unat (n + 1) = unat n + 1" using assms(2) by (simp add: unat_word_ariths)
  show ?thesis
  proof (cases "FindTracked previous (gp_gameId i) (gp_pid i)")
    case None
    have "{q \<in> T. key q \<noteq> pkey i} = T" using missing [OF None] by (auto simp: image_iff)
    moreover have "lives (H @ [transition (gp_gameId i) NotRunning Starting (ToProcessInfo i Starting n)])
        (insert (ToProcessInfo i Starting n) T) (n + 1)"
      by (rule lives_start [OF assms(1,2)]) (use pid missing [OF None] in simp_all)
    ultimately show ?thesis using res None pid n1 by (auto simp: diff_present_def Let_def)
  next
    case (Some p)
    have p: "p \<in> T" "key p = pkey i" using found [OF Some] FindTracked_Some [OF Some] by simp_all
    have T: "{q \<in> T. key q \<noteq> pkey i} = T - {p}" using T_minus [OF assms(1) p(1)] p(2) by simp
    note st = livesD(3) [OF assms(1) p(1)]
    show ?thesis
    proof (cases "is_restart p i")
      case True
      let ?t = "transition (gp_gameId i) (pi_state p) Exiting p"
      let ?q = "ToProcessInfo i Starting n"
      have "lives (H @ [?t]) ((T - {p}) \<union> {}) n"
        by (rule lives_step [OF assms(1) p(1)]) (use st in auto)
      then have out: "lives (H @ [?t]) (T - {p}) n" by simp
      have new: "key ?q \<notin> key ` (T - {p})" using lives_others(2) [OF assms(1) p(1)] p(2) by simp
      have "lives ((H @ [?t]) @ [transition (gp_gameId i) NotRunning Starting ?q]) (insert ?q (T - {p})) (n + 1)"
        by (rule lives_start [OF out assms(2) _ _ _ new]) (use pid in simp_all)
      moreover have "(a, b, n1) = ([?q], [?t, transition (gp_gameId i) NotRunning Starting ?q], n + 1)"
        using res Some pid True by (simp add: diff_present_def Let_def)
      ultimately show ?thesis using n1 T by simp
    next
      case False
      let ?q = "ToProcessInfo i Running (pi_generation p)"
      show ?thesis
      proof (cases "pi_state p = Running")
        case run: True
        have "lives H (insert ?q (T - {p})) n"
          by (rule lives_same [OF assms(1) p(1)]) (use p(2) run in simp_all)
        moreover have "(a, b, n1) = ([?q], [], n)"
          using res Some pid False run by (simp add: diff_present_def Let_def)
        ultimately show ?thesis using T by simp
      next
        case nrun: False
        have "lives (H @ [transition (gp_gameId i) (pi_state p) Running ?q]) ((T - {p}) \<union> {?q}) n"
          by (rule lives_step [OF assms(1) p(1)]) (use st nrun p(2) in auto)
        moreover have "(a, b, n1) = ([?q], [transition (gp_gameId i) (pi_state p) Running ?q], n)"
          using res Some pid False nrun by (simp add: diff_present_def Let_def)
        ultimately show ?thesis using T by simp
      qed
    qed
  qed
qed

lemma diff_first_lives:
  assumes "lives H T n" and "unat n + length is < 2 ^ 64" and "distinct (map pkey is)"
    and "\<And>i p. i \<in> set is \<Longrightarrow> FindTracked previous (gp_gameId i) (gp_pid i) = Some p \<Longrightarrow> p \<in> T"
    and "\<And>i. i \<in> set is \<Longrightarrow> FindTracked previous (gp_gameId i) (gp_pid i) = None \<Longrightarrow> pkey i \<notin> key ` T"
    and "diff_first previous is n = (a, b, n')"
  shows "lives (H @ b) ({q \<in> T. key q \<notin> pkey ` set is} \<union> set a) n' \<and> unat n' \<le> unat n + length is \<and>
    key ` set a \<subseteq> pkey ` set is"
  using assms
proof (induction "is" arbitrary: H T n a b)
  case Nil
  then show ?case by simp
next
  case (Cons i "is")
  obtain a1 b1 n1 where one: "diff_present previous i n = (a1, b1, n1)" by (cases "diff_present previous i n") auto
  obtain a2 b2 where rest: "diff_first previous is n1 = (a2, b2, n')" and ab: "a = a1 @ a2" "b = b1 @ b2"
    using Cons.prems(6) one by (auto split: prod.splits)
  let ?T = "{q \<in> T. key q \<noteq> pkey i} \<union> set a1"
  have L: "lives (H @ b1) ?T n1" "unat n1 \<le> unat n + 1" "key ` set a1 \<subseteq> {pkey i}"
    using diff_present_lives [OF Cons.prems(1) _ _ _ one] Cons.prems(2,4,5) by auto
  have other: "pkey j \<noteq> pkey i" if "j \<in> set is" for j using Cons.prems(3) that by (auto simp: image_iff)
  have "lives ((H @ b1) @ b2) ({q \<in> ?T. key q \<notin> pkey ` set is} \<union> set a2) n' \<and> unat n' \<le> unat n1 + length is \<and>
    key ` set a2 \<subseteq> pkey ` set is"
  proof (rule Cons.IH [OF L(1) _ _ _ _ rest])
    show "unat n1 + length is < 2 ^ 64" using Cons.prems(2) L(2) by simp
    show "distinct (map pkey is)" using Cons.prems(3) by simp
    show "p \<in> ?T" if "j \<in> set is" "FindTracked previous (gp_gameId j) (gp_pid j) = Some p" for j p
      using Cons.prems(4) [of j p] that other [OF that(1)] FindTracked_Some [OF that(2)] by auto
    show "pkey j \<notin> key ` ?T" if "j \<in> set is" "FindTracked previous (gp_gameId j) (gp_pid j) = None" for j
      using Cons.prems(5) [of j] that other [OF that(1)] L(3) by auto
  qed
  moreover have "{q \<in> ?T. key q \<notin> pkey ` set is} \<union> set a2 = {q \<in> T. key q \<notin> pkey ` set (i # is)} \<union> set a"
  proof -
    have "key q \<notin> pkey ` set is" if "q \<in> set a1" for q using L(3) other that by fastforce
    then show ?thesis using ab(1) by auto
  qed
  ultimately show ?case using L(2,3) ab by auto
qed

lemma PresenceHas_iff: "PresenceHas is (pi_gameId p) (pi_pid p) \<longleftrightarrow> key p \<in> pkey ` set is"
  by (force simp: PresenceHas_def list_ex_iff key_def pkey_def)

lemma key_update [simp]: "key (p\<lparr>pi_state := s\<rparr>) = key p"
  by (simp add: key_def)

lemma disjoint_from_single: "X \<subseteq> {c} \<Longrightarrow> c \<notin> Y \<Longrightarrow> X \<inter> Y = {}"
  by blast

lemma disjoint_from_outside: "X \<subseteq> P \<Longrightarrow> Y \<subseteq> Q - P \<Longrightarrow> X \<inter> Y = {}"
  by blast

lemma subset_from_single: "X \<subseteq> {c} \<Longrightarrow> c \<in> Y \<Longrightarrow> X \<subseteq> Y"
  by blast

lemma diff_second_lives:
  assumes "lives H (A \<union> {q \<in> set ps. key q \<notin> pkey ` set is}) n" and "distinct (map key ps)"
    and "key ` A \<inter> {k \<in> key ` set ps. k \<notin> pkey ` set is} = {}" and "diff_second is ps = (a, b)"
  shows "lives (H @ b) (A \<union> set a) n \<and> key ` set a \<subseteq> {k \<in> key ` set ps. k \<notin> pkey ` set is}"
  using assms
proof (induction ps arbitrary: H A a b)
  case Nil
  then show ?case by simp
next
  case (Cons p ps)
  obtain a1 b1 where one: "diff_absent is p = (a1, b1)" by (cases "diff_absent is p") auto
  obtain a2 b2 where rest: "diff_second is ps = (a2, b2)" and ab: "a = a1 @ a2" "b = b1 @ b2"
    using Cons.prems(4) one by (auto split: prod.splits)
  show ?case
  proof (cases "key p \<in> pkey ` set is")
    case True
    then have "a1 = []" "b1 = []" using one by (simp_all add: diff_absent_def PresenceHas_iff)
    moreover have "{q \<in> set (p # ps). key q \<notin> pkey ` set is} = {q \<in> set ps. key q \<notin> pkey ` set is}"
      using True by auto
    ultimately show ?thesis using Cons.IH [OF _ _ _ rest, of H A] Cons.prems(1,2,3) ab by (simp add: disjoint_iff) blast
  next
    case absent: False
    let ?T = "A \<union> {q \<in> set (p # ps). key q \<notin> pkey ` set is}"
    let ?R = "A \<union> {q \<in> set ps. key q \<notin> pkey ` set is}"
    have p: "p \<in> ?T" using absent by simp
    have notin: "key q \<noteq> key p" if "q \<in> ?R" for q
    proof -
      have "key p \<notin> key ` A" using Cons.prems(3) absent by auto
      moreover have "key p \<notin> key ` set ps" using Cons.prems(2) by auto
      ultimately show ?thesis using that by (auto simp: image_iff)
    qed
    then have R: "?T - {p} = ?R" using absent by auto
    note st = livesD(3) [OF Cons.prems(1) p]
    have step: "lives (H @ b1) (?R \<union> set a1) n \<and> key ` set a1 \<subseteq> {key p}"
    proof (cases "pi_state p = Exiting")
      case True
      have "lives (H @ [transition (pi_gameId p) Exiting NotRunning p]) ((?T - {p}) \<union> {}) n"
        by (rule lives_step [OF Cons.prems(1) p]) (use True in simp_all)
      then show ?thesis using one absent True unfolding R by (auto simp: diff_absent_def PresenceHas_iff)
    next
      case False
      let ?q = "p\<lparr>pi_state := Exiting\<rparr>"
      have "lives (H @ [transition (pi_gameId p) (pi_state p) Exiting ?q]) ((?T - {p}) \<union> {?q}) n"
        by (rule lives_step [OF Cons.prems(1) p]) (use st False in auto)
      moreover have "(a1, b1) = ([?q], [transition (pi_gameId p) (pi_state p) Exiting ?q])"
        using one absent st False by (auto simp: diff_absent_def PresenceHas_iff Let_def)
      ultimately show ?thesis unfolding R by auto
    qed
    have "lives ((H @ b1) @ b2) ((A \<union> set a1) \<union> set a2) n \<and> key ` set a2 \<subseteq> {k \<in> key ` set ps. k \<notin> pkey ` set is}"
    proof (rule Cons.IH [OF _ _ _ rest])
      show "lives (H @ b1) ((A \<union> set a1) \<union> {q \<in> set ps. key q \<notin> pkey ` set is}) n"
        using step by (simp add: Un_ac)
      show "distinct (map key ps)" using Cons.prems(2) by simp
      have "key p \<notin> key ` set ps" using Cons.prems(2) by auto
      then have "key ` set a1 \<inter> key ` set ps = {}" using disjoint_from_single step by metis
      moreover have "key ` A \<inter> {k \<in> key ` set ps. k \<notin> pkey ` set is} = {}" using Cons.prems(3) by auto
      ultimately show "key ` (A \<union> set a1) \<inter> {k \<in> key ` set ps. k \<notin> pkey ` set is} = {}"
        by (simp add: image_Un Int_Un_distrib2) blast
    qed
    moreover have "key ` set a1 \<subseteq> {k \<in> key ` set (p # ps). k \<notin> pkey ` set is}"
      by (rule subset_from_single [OF conjunct2 [OF step]]) (simp add: absent)
    ultimately show ?thesis using ab by (simp add: Un_ac image_Un) blast
  qed
qed

lemma diff_first_keys:
  "distinct (map pkey is) \<Longrightarrow> distinct (map key (fst (diff_first previous is n))) \<and>
     key ` set (fst (diff_first previous is n)) \<subseteq> pkey ` set is"
proof (induction "is" arbitrary: n)
  case (Cons i "is")
  obtain a1 b1 n1 where one: "diff_present previous i n = (a1, b1, n1)" by (cases "diff_present previous i n") auto
  obtain a2 b2 n2 where rest: "diff_first previous is n1 = (a2, b2, n2)" by (cases "diff_first previous is n1") auto
  have "a1 = [] \<or> (\<exists>q. a1 = [q] \<and> key q = pkey i)"
    using one by (auto simp: diff_present_def Let_def split: if_splits option.splits)
  moreover have "distinct (map key a2)" "key ` set a2 \<subseteq> pkey ` set is" "pkey i \<notin> pkey ` set is"
    using Cons.IH [of n1] Cons.prems rest by auto
  ultimately show ?case using one rest by (auto 0 3)
qed simp

lemma diff_second_keys:
  "distinct (map key ps) \<Longrightarrow> distinct (map key (fst (diff_second is ps))) \<and>
     key ` set (fst (diff_second is ps)) \<subseteq> key ` set ps - pkey ` set is"
proof (induction ps)
  case (Cons p ps)
  obtain a1 b1 where one: "diff_absent is p = (a1, b1)" by (cases "diff_absent is p") auto
  obtain a2 b2 where rest: "diff_second is ps = (a2, b2)" by (cases "diff_second is ps") auto
  have "a1 = [] \<or> (\<exists>q. a1 = [q] \<and> key q = key p \<and> key p \<notin> pkey ` set is)"
    using one
    by (auto simp: diff_absent_def Let_def PresenceHas_iff split: if_splits ProcessState.splits)
  moreover have "distinct (map key a2)" "key ` set a2 \<subseteq> key ` set ps - pkey ` set is" "key p \<notin> key ` set ps"
    using Cons.IH Cons.prems rest by auto
  ultimately show ?case using one rest by (auto 0 3)
qed simp

lemma DiffProcessPresence_lives:
  assumes "lives H (set previous) n" and "distinct (map key previous)" and "unat n + length presence < 2 ^ 64"
    and "distinct (map pkey presence)" and "DiffProcessPresence previous presence n = (D, n')"
  shows "lives (H @ df_transitions D) (set (df_tracked D)) n'" and "distinct (map key (df_tracked D))"
    and "unat n' \<le> unat n + length presence"
proof -
  obtain a b where first: "diff_first previous presence n = (a, b, n')"
    and D: "df_tracked D = a @ fst (diff_second presence previous)"
      "df_transitions D = b @ snd (diff_second presence previous)"
    using assms(5) by (auto simp: DiffProcessPresence_def Let_def split: prod.splits)
  obtain a2 b2 where second: "diff_second presence previous = (a2, b2)" by (cases "diff_second presence previous") auto
  let ?A = "{q \<in> set previous. key q \<notin> pkey ` set presence}"
  have L: "lives (H @ b) (?A \<union> set a) n' \<and> unat n' \<le> unat n + length presence \<and> key ` set a \<subseteq> pkey ` set presence"
    by (rule diff_first_lives [OF assms(1,3,4) _ _ first])
      (auto dest: FindTracked_Some simp: FindTracked_None)
  have "lives ((H @ b) @ b2) (set a \<union> set a2) n' \<and>
      key ` set a2 \<subseteq> {k \<in> key ` set previous. k \<notin> pkey ` set presence}"
  proof (rule diff_second_lives [OF _ assms(2) _ second])
    show "lives (H @ b) (set a \<union> ?A) n'" using L by (simp add: Un_commute)
    show "key ` set a \<inter> {k \<in> key ` set previous. k \<notin> pkey ` set presence} = {}" using L by blast
  qed
  then show "lives (H @ df_transitions D) (set (df_tracked D)) n'" using D second by simp
  show "unat n' \<le> unat n + length presence" using L by simp
  have "key ` set a \<inter> key ` set a2 = {}"
    by (rule disjoint_from_outside [of _ "pkey ` set presence" _ "key ` set previous"])
      (use L diff_second_keys [OF assms(2), of presence] second in simp_all)
  then show "distinct (map key (df_tracked D))"
    using diff_first_keys [OF assms(4), of previous n] diff_second_keys [OF assms(2), of presence] first second D
    by simp
qed

section \<open>Two limits\<close>

text \<open>
  When a process id is reused after one round of absence, the old life reports Exiting a second time.
\<close>

lemma restart_repeats_exiting:
  assumes "gp_pid i \<noteq> 0" and "FindTracked previous (gp_gameId i) (gp_pid i) = Some p" and "pi_state p = Exiting"
    and "is_restart p i"
  shows "\<exists>t ts. fst (snd (diff_present previous i n)) = t # ts \<and> pt_previous t = Exiting \<and> pt_current t = Exiting"
  using assms by (simp add: diff_present_def Let_def)

text \<open>Two rules with one id make two entries with one generation.\<close>

lemma duplicate_rules_share_generation:
  assumes "gp_pid i \<noteq> 0" and "FindTracked previous (gp_gameId i) (gp_pid i) = Some p" and "\<not> is_restart p i"
  shows "map pi_generation (fst (diff_first previous [i, i] n)) = [pi_generation p, pi_generation p]"
  using assms by (simp add: diff_present_def Let_def)

end
