(* ===== verification/Watcher_Loop.thy ===== *)
theory Watcher_Loop
  imports Process_Lives
begin

text \<open>
  The watcher object of \<^verbatim>\<open>source/process/process_watcher.cpp\<close>: one round of observation, the
  public operations and the polling thread.  The thread is a program counter in the state; every
  block of \<open>WorkerLoop\<close> between two points where the mutex is free is one step, so that the
  operations of other threads may come between any two of them.  A callback is an opaque value and
  calling it is an event.
\<close>

section \<open>State\<close>

datatype 'cb worker =
    At_Poll
  | At_Check "ProcessTransition list"
  | At_Deliver "('cb \<times> ProcessTransition) list"
  | At_Wait
  | At_End

record 'cb ProcessWatcher =
  w_detectWindows :: bool
  w_rules :: "GameRule list"
  w_tracked :: "ProcessInfo list"
  w_nextGeneration :: u64
  w_callbacks :: "'cb list"
  w_worker :: "'cb worker option"
  w_stopRequested :: bool
  w_running :: bool

definition ProcessWatcher_new :: "bool \<Rightarrow> 'cb ProcessWatcher" where
  "ProcessWatcher_new detectWindows =
     \<lparr>w_detectWindows = detectWindows, w_rules = [], w_tracked = [], w_nextGeneration = 1, w_callbacks = [],
      w_worker = None, w_stopRequested = False, w_running = False\<rparr>"

section \<open>One round\<close>

type_synonym window_cache = "(u32 \<rightharpoonup> WindowInfo) \<times> nat"

definition cache_entry :: "process_api \<Rightarrow> wstring \<Rightarrow> ProcessEntry \<Rightarrow> window_cache \<Rightarrow> window_cache" where
  "cache_entry A ruleName e c =
     (if ProcessNameMatches ruleName (pe_name e) \<and> fst c (pe_pid e) = None
      then (case QueryWindowInfo A (snd c) (pe_pid e) of
              Inl _ \<Rightarrow> (fst c, snd c + 1)
            | Inr w \<Rightarrow> ((fst c)(pe_pid e \<mapsto> w), snd c + 1))
      else c)"

definition cache_rule :: "process_api \<Rightarrow> ProcessEntry list \<Rightarrow> GameRule \<Rightarrow> window_cache \<Rightarrow> window_cache" where
  "cache_rule A es r c =
     (if gr_windowTitleContains r = [] then c
      else fold (\<lambda>n. fold (cache_entry A n) es) (gr_processNames r) c)"

definition window_cache :: "process_api \<Rightarrow> GameRule list \<Rightarrow> ProcessEntry list \<Rightarrow> window_cache" where
  "window_cache A rules es =
     (if list_ex (\<lambda>r. gr_windowTitleContains r \<noteq> []) rules
      then fold (cache_rule A es) rules (Map.empty, 0) else (Map.empty, 0))"

definition mark_entry :: "(u32 \<rightharpoonup> WindowInfo) \<Rightarrow> ProcessEntry \<Rightarrow> ProcessEntry" where
  "mark_entry cache e =
     (case cache (pe_pid e) of
        None \<Rightarrow> e
      | Some w \<Rightarrow> e\<lparr>pe_windowTitle := wi_title w, pe_windowTitleKnown := True\<rparr>)"

definition with_window :: "WindowInfo \<Rightarrow> GamePresence \<Rightarrow> GamePresence" where
  "with_window w p =
     p\<lparr>gp_windowTitle := wi_title w, gp_isForeground := wi_isForeground w, gp_isFullscreen := wi_isFullscreen w\<rparr>"

definition presence_of ::
  "process_api \<Rightarrow> bool \<Rightarrow> (u32 \<rightharpoonup> WindowInfo) \<Rightarrow> nat \<Rightarrow> RuleMatch \<Rightarrow> GamePresence" where
  "presence_of A detect cache k m =
     (let pid = pe_pid (rm_entry m);
          item = \<lparr>gp_gameId = rm_gameId m, gp_pid = pid, gp_processName = pe_name (rm_entry m),
                  gp_creationTime100ns = QueryProcessCreationTime A k pid, gp_windowTitle = [],
                  gp_isForeground = False, gp_isFullscreen = False\<rparr>
      in if \<not> detect then item
         else case cache pid of
                Some w \<Rightarrow> with_window w item
              | None \<Rightarrow> (case QueryWindowInfo A k pid of Inl _ \<Rightarrow> item | Inr w \<Rightarrow> with_window w item))"

definition observe :: "process_api \<Rightarrow> bool \<Rightarrow> GameRule list \<Rightarrow> ProcessEntry list \<Rightarrow> GamePresence list" where
  "observe A detect rules es =
     (let (cache, k) = window_cache A rules es
      in map (\<lambda>(j, m). presence_of A detect cache j m)
           (List.enumerate k (MatchRulesToEntries rules (map (mark_entry cache) es))))"

definition PollOnce ::
  "(u32 \<Rightarrow> string) \<Rightarrow> process_api \<Rightarrow> 'cb ProcessWatcher \<Rightarrow>
   ProcessTransition list result \<times> 'cb ProcessWatcher" where
  "PollOnce sysmsg A W =
     (case EnumerateProcesses sysmsg A of
        Inl e \<Rightarrow> (Failure e, W)
      | Inr es \<Rightarrow>
          (let (diff, n) = DiffProcessPresence (w_tracked W) (observe A (w_detectWindows W) (w_rules W) es)
                             (w_nextGeneration W)
           in (Success (df_transitions diff), W\<lparr>w_tracked := df_tracked diff, w_nextGeneration := n\<rparr>)))"

section \<open>Operations and the polling thread\<close>

definition SetRules ::
  "(u32 \<Rightarrow> string) \<Rightarrow> codec \<Rightarrow> GameConfig list \<Rightarrow> 'cb ProcessWatcher \<Rightarrow> unit result \<times> 'cb ProcessWatcher" where
  "SetRules sysmsg K games W =
     (case BuildGameRules sysmsg K games of
        Inl e \<Rightarrow> (Failure e, W)
      | Inr rules \<Rightarrow> (Success (), W\<lparr>w_rules := rules, w_tracked := [], w_nextGeneration := 1\<rparr>))"

text \<open>An empty callback is ignored.\<close>

definition Subscribe :: "'cb option \<Rightarrow> 'cb ProcessWatcher \<Rightarrow> 'cb ProcessWatcher" where
  "Subscribe callback W =
     (case callback of None \<Rightarrow> W | Some c \<Rightarrow> W\<lparr>w_callbacks := w_callbacks W @ [c]\<rparr>)"

text \<open>\<open>created\<close> says whether the system creates the thread.\<close>

definition Start :: "bool \<Rightarrow> 'cb ProcessWatcher \<Rightarrow> unit result \<times> 'cb ProcessWatcher" where
  "Start created W =
     (if w_worker W \<noteq> None then (Success (), W)
      else
        (let W1 = W\<lparr>w_stopRequested := False, w_running := True, w_tracked := []\<rparr>
         in if created then (Success (), W1\<lparr>w_worker := Some At_Poll\<rparr>)
            else (Failure (Error_Validation ''ProcessWatcher::Start'' ''Failed to create the polling thread''),
                  W1\<lparr>w_running := False\<rparr>)))"

text \<open>\<open>Stop\<close> up to the join, and the join, which waits for the end of the thread.\<close>

definition Stop_request :: "'cb ProcessWatcher \<Rightarrow> 'cb ProcessWatcher" where
  "Stop_request W =
     (if w_worker W = None then W\<lparr>w_running := False\<rparr>
      else W\<lparr>w_stopRequested := True, w_running := False\<rparr>)"

definition Stop_join :: "'cb ProcessWatcher \<Rightarrow> 'cb ProcessWatcher option" where
  "Stop_join W =
     (if w_worker W = None then Some W
      else if w_worker W = Some At_End then Some (W\<lparr>w_worker := None\<rparr>) else None)"

definition IsRunning :: "'cb ProcessWatcher \<Rightarrow> bool" where
  "IsRunning W = w_running W"

definition GetTrackedProcesses :: "'cb ProcessWatcher \<Rightarrow> ProcessInfo list" where
  "GetTrackedProcesses W = w_tracked W"

text \<open>One block of the loop; the second component is the call of a callback, if there is one.\<close>

definition WorkerLoop ::
  "(u32 \<Rightarrow> string) \<Rightarrow> process_api \<Rightarrow> 'cb ProcessWatcher \<Rightarrow>
   'cb ProcessWatcher \<times> ('cb \<times> ProcessTransition) option" where
  "WorkerLoop sysmsg A W =
     (case w_worker W of
        None \<Rightarrow> (W, None)
      | Some At_Poll \<Rightarrow>
          (let (r, W1) = PollOnce sysmsg A W
           in (W1\<lparr>w_worker := Some (At_Check (case r of Inl _ \<Rightarrow> [] | Inr ts \<Rightarrow> ts))\<rparr>, None))
      | Some (At_Check ts) \<Rightarrow>
          (if w_stopRequested W then (W\<lparr>w_worker := Some At_End\<rparr>, None)
           else (W\<lparr>w_worker := Some (At_Deliver (concat (map (\<lambda>t. map (\<lambda>c. (c, t)) (w_callbacks W)) ts)))\<rparr>, None))
      | Some (At_Deliver []) \<Rightarrow> (W\<lparr>w_worker := Some At_Wait\<rparr>, None)
      | Some (At_Deliver (call # calls)) \<Rightarrow> (W\<lparr>w_worker := Some (At_Deliver calls)\<rparr>, Some call)
      | Some At_Wait \<Rightarrow>
          (W\<lparr>w_worker := Some (if w_stopRequested W then At_End else At_Poll)\<rparr>, None)
      | Some At_End \<Rightarrow> (W, None))"

section \<open>Rounds\<close>

lemma MatchRulesToEntries_ids:
  "set (map rm_gameId (MatchRulesToEntries rs es)) \<subseteq> set (map gr_id rs) \<and>
   (distinct (map gr_id rs) \<longrightarrow> distinct (map rm_gameId (MatchRulesToEntries rs es))) \<and>
   length (MatchRulesToEntries rs es) \<le> length rs"
proof (induction rs)
  case (Cons r rs)
  show ?case by (cases "find (rule_hits r) es") (use Cons in auto)
qed simp

lemma presence_of_id [simp]: "gp_gameId (presence_of A d c k m) = rm_gameId m"
  by (simp add: presence_of_def with_window_def Let_def split: option.splits sum.splits)

lemma observe_ids:
  "\<exists>es'. map gp_gameId (observe A detect rules es) = map rm_gameId (MatchRulesToEntries rules es')"
proof -
  obtain cache k where c: "window_cache A rules es = (cache, k)" by (cases "window_cache A rules es") auto
  have "map gp_gameId (observe A detect rules es) =
      map (\<lambda>x. rm_gameId (snd x)) (List.enumerate k (MatchRulesToEntries rules (map (mark_entry cache) es)))"
    by (simp add: observe_def c comp_def case_prod_beta)
  also have "\<dots> = map rm_gameId (map snd (List.enumerate k (MatchRulesToEntries rules (map (mark_entry cache) es))))"
    by (simp only: map_map comp_def)
  finally show ?thesis unfolding map_snd_enumerate by blast
qed

lemma observe_distinct:
  assumes "distinct (map gr_id rules)"
  shows "distinct (map pkey (observe A detect rules es))" and "length (observe A detect rules es) \<le> length rules"
proof -
  obtain es' where e: "map gp_gameId (observe A detect rules es) = map rm_gameId (MatchRulesToEntries rules es')"
    using observe_ids by blast
  have "map gp_gameId (observe A detect rules es) =
      map (\<lambda>k. case k of Proc_Key g pid \<Rightarrow> g) (map pkey (observe A detect rules es))"
    by (simp add: pkey_def)
  then show "distinct (map pkey (observe A detect rules es))"
    using e MatchRulesToEntries_ids [of rules es'] assms by (metis distinct_map)
  show "length (observe A detect rules es) \<le> length rules"
    using arg_cong [OF e, of length] MatchRulesToEntries_ids [of rules es'] by simp
qed

lemma BuildGameRules_ids: "BuildGameRules sysmsg K gs = Success rs \<Longrightarrow> map gr_id rs = map gc_id gs"
  by (induction gs arbitrary: rs) (auto simp: build_rule_def split: sum.splits if_splits)

section \<open>Reachable watchers\<close>

text \<open>
  All interleavings of the public operations with the steps of the polling thread, with the
  transitions computed since the rules were last set.  The rules have distinct ids and the generation
  counter has room for one more round.
\<close>

definition has_room :: "'cb ProcessWatcher \<Rightarrow> bool" where
  "has_room W \<longleftrightarrow> unat (w_nextGeneration W) + length (w_rules W) < 2 ^ 64"

inductive watcher_run ::
  "(u32 \<Rightarrow> string) \<Rightarrow> codec \<Rightarrow> 'cb ProcessWatcher \<Rightarrow> ProcessTransition list \<Rightarrow> bool"
  for sysmsg :: "u32 \<Rightarrow> string" and K :: codec where
  new: "watcher_run sysmsg K (ProcessWatcher_new detect) []"
| rules: "watcher_run sysmsg K W H \<Longrightarrow> distinct (map gc_id games) \<Longrightarrow>
    SetRules sysmsg K games W = (Success (), W') \<Longrightarrow> watcher_run sysmsg K W' []"
| rules_refused: "watcher_run sysmsg K W H \<Longrightarrow> SetRules sysmsg K games W = (Failure e, W') \<Longrightarrow>
    watcher_run sysmsg K W' H"
| subscribe: "watcher_run sysmsg K W H \<Longrightarrow> watcher_run sysmsg K (Subscribe callback W) H"
| start: "watcher_run sysmsg K W H \<Longrightarrow> Start created W = (r, W') \<Longrightarrow> watcher_run sysmsg K W' H"
| stop: "watcher_run sysmsg K W H \<Longrightarrow> watcher_run sysmsg K (Stop_request W) H"
| join: "watcher_run sysmsg K W H \<Longrightarrow> Stop_join W = Some W' \<Longrightarrow> watcher_run sysmsg K W' H"
| poll: "watcher_run sysmsg K W H \<Longrightarrow> has_room W \<Longrightarrow> PollOnce sysmsg A W = (Success ts, W') \<Longrightarrow>
    watcher_run sysmsg K W' (H @ ts)"
| poll_failed: "watcher_run sysmsg K W H \<Longrightarrow> PollOnce sysmsg A W = (Failure e, W') \<Longrightarrow> watcher_run sysmsg K W' H"
| work_poll: "watcher_run sysmsg K W H \<Longrightarrow> has_room W \<Longrightarrow> w_worker W = Some At_Poll \<Longrightarrow>
    WorkerLoop sysmsg A W = (W', call) \<Longrightarrow> w_worker W' = Some (At_Check ts) \<Longrightarrow> watcher_run sysmsg K W' (H @ ts)"
| work: "watcher_run sysmsg K W H \<Longrightarrow> w_worker W \<noteq> Some At_Poll \<Longrightarrow>
    WorkerLoop sysmsg A W = (W', call) \<Longrightarrow> watcher_run sysmsg K W' H"

definition watcher_ok :: "'cb ProcessWatcher \<Rightarrow> ProcessTransition list \<Rightarrow> bool" where
  "watcher_ok W H \<longleftrightarrow>
     lives H (set (w_tracked W)) (w_nextGeneration W) \<and> distinct (map key (w_tracked W)) \<and>
     distinct (map gr_id (w_rules W)) \<and>
     (w_running W \<longleftrightarrow> w_worker W \<noteq> None \<and> \<not> w_stopRequested W) \<and>
     (w_worker W = Some At_End \<longrightarrow> w_stopRequested W)"

lemma lives_init: "lives [] {} n"
  by (simp add: lives_def life_def)

lemma PollOnce_ok:
  assumes "watcher_ok W H" and "has_room W" and "PollOnce sysmsg A W = (Success ts, W')"
  shows "watcher_ok W' (H @ ts) \<and> w_worker W' = w_worker W \<and> w_stopRequested W' = w_stopRequested W"
proof -
  obtain es where es: "EnumerateProcesses sysmsg A = Success es"
    using assms(3) by (auto simp: PollOnce_def split: sum.splits)
  let ?p = "observe A (w_detectWindows W) (w_rules W) es"
  obtain D n' where D: "DiffProcessPresence (w_tracked W) ?p (w_nextGeneration W) = (D, n')"
    by (cases "DiffProcessPresence (w_tracked W) ?p (w_nextGeneration W)") auto
  have W': "W' = W\<lparr>w_tracked := df_tracked D, w_nextGeneration := n'\<rparr>" "ts = df_transitions D"
    using assms(3) es D by (auto simp: PollOnce_def)
  have ok: "lives H (set (w_tracked W)) (w_nextGeneration W)" "distinct (map key (w_tracked W))"
    "distinct (map gr_id (w_rules W))" using assms(1) by (simp_all add: watcher_ok_def)
  have room: "unat (w_nextGeneration W) + length ?p < 2 ^ 64"
    using assms(2) observe_distinct(2) [OF ok(3), of A "w_detectWindows W" es] by (simp add: has_room_def)
  show ?thesis
    using DiffProcessPresence_lives [OF ok(1,2) room observe_distinct(1) [OF ok(3)] D] assms(1) W'
    by (simp add: watcher_ok_def)
qed

lemma PollOnce_failure: "PollOnce sysmsg A W = (Failure e, W') \<Longrightarrow> W' = W"
  by (auto simp: PollOnce_def split: sum.splits prod.splits)

lemma WorkerLoop_other:
  assumes "watcher_ok W H" and "w_worker W \<noteq> Some At_Poll" and "WorkerLoop sysmsg A W = (W', call)"
  shows "watcher_ok W' H"
proof (cases "w_worker W")
  case None
  then show ?thesis using assms by (simp add: WorkerLoop_def)
next
  case (Some pc)
  show ?thesis
  proof (cases pc)
    case (At_Deliver calls)
    then show ?thesis using assms Some by (cases calls) (auto simp: WorkerLoop_def watcher_ok_def)
  qed (use assms Some in \<open>auto simp: WorkerLoop_def watcher_ok_def split: if_splits\<close>)
qed

lemma WorkerLoop_poll:
  assumes "watcher_ok W H" and "has_room W" and "w_worker W = Some At_Poll" and "WorkerLoop sysmsg A W = (W', call)"
    and "w_worker W' = Some (At_Check ts)"
  shows "watcher_ok W' (H @ ts)"
proof (cases "PollOnce sysmsg A W")
  case (Pair r W1)
  then have W': "W' = W1\<lparr>w_worker := Some (At_Check ts)\<rparr>" "ts = (case r of Inl _ \<Rightarrow> [] | Inr ts \<Rightarrow> ts)"
    using assms(3-5) by (auto simp: WorkerLoop_def)
  show ?thesis
  proof (cases r)
    case (Inl e)
    then have "W1 = W" using Pair PollOnce_failure by simp
    then show ?thesis using W' Inl assms(1,3) by (simp add: watcher_ok_def)
  next
    case (Inr us)
    then show ?thesis using PollOnce_ok [OF assms(1,2), of sysmsg A us W1] Pair W' assms(3) by (simp add: watcher_ok_def)
  qed
qed

lemma watcher_run_ok: "watcher_run sysmsg K W H \<Longrightarrow> watcher_ok W H"
proof (induction rule: watcher_run.induct)
  case (new detect)
  show ?case by (simp add: watcher_ok_def ProcessWatcher_new_def lives_init)
next
  case (rules W H games W')
  then obtain rs where "BuildGameRules sysmsg K games = Success rs"
    "W' = W\<lparr>w_rules := rs, w_tracked := [], w_nextGeneration := 1\<rparr>"
    by (auto simp: SetRules_def split: sum.splits)
  then show ?case using rules BuildGameRules_ids by (simp add: watcher_ok_def lives_init)
next
  case (rules_refused W H games e W')
  then show ?case by (auto simp: SetRules_def split: sum.splits)
next
  case (subscribe W H callback)
  then show ?case by (auto simp: Subscribe_def watcher_ok_def split: option.splits)
next
  case (start W H created r W')
  have "lives H {} n" if "lives H T n" for T n using lives_subset that by blast
  then show ?case using start by (auto simp: Start_def watcher_ok_def Let_def split: if_splits)
next
  case (stop W H)
  then show ?case by (auto simp: Stop_request_def watcher_ok_def)
next
  case (join W H W')
  then show ?case by (auto simp: Stop_join_def watcher_ok_def split: if_splits)
next
  case (poll W H A ts W')
  then show ?case using PollOnce_ok by blast
next
  case (poll_failed W H A e W')
  then show ?case using PollOnce_failure by blast
next
  case (work_poll W H A W' call ts)
  then show ?case using WorkerLoop_poll by blast
next
  case (work W H A W' call)
  then show ?case using WorkerLoop_other by blast
qed

text \<open>
  C30: In every reachable watcher, whatever the interleaving of its operations, its polling thread and
  what Windows reports: the transitions of each process life (one generation) follow on from each
  other along the protocol from NotRunning through Starting, Running and Exiting; every tracked entry
  is in the state its transitions lead to and is never NotRunning; no two entries share a generation
  or the pair of game and process id; and the watcher reports that it runs exactly when its thread
  exists and was not told to stop.\<close>
theorem watcher_lives_follow_protocol:
  assumes "watcher_run sysmsg K W H"
  shows "(\<forall>g. life g H \<noteq> None) \<and>
    list_all (\<lambda>i. life (pi_generation i) H = Some (pi_state i) \<and> pi_state i \<in> {Starting, Running, Exiting})
      (GetTrackedProcesses W) \<and>
    distinct (map pi_generation (GetTrackedProcesses W)) \<and>
    distinct (map (\<lambda>i. (pi_gameId i, pi_pid i)) (GetTrackedProcesses W)) \<and>
    (IsRunning W \<longleftrightarrow> w_worker W \<noteq> None \<and> \<not> w_stopRequested W)"
proof -
  have ok: "lives H (set (w_tracked W)) (w_nextGeneration W)" "distinct (map key (w_tracked W))"
    "w_running W \<longleftrightarrow> w_worker W \<noteq> None \<and> \<not> w_stopRequested W"
    using watcher_run_ok [OF assms] by (simp_all add: watcher_ok_def)
  have d: "distinct (w_tracked W)" using ok(2) by (simp add: distinct_map)
  have "distinct (map pi_generation (w_tracked W))" using ok(1) d by (simp add: distinct_map lives_def)
  moreover have "distinct (map (\<lambda>i. (pi_gameId i, pi_pid i)) (w_tracked W))"
    using ok(2) by (auto simp: distinct_map inj_on_def key_def)
  moreover have "\<forall>g. life g H \<noteq> None" using ok(1) unfolding lives_def by blast
  ultimately show ?thesis
    using livesD(3,4) [OF ok(1)] ok(3) by (simp add: GetTrackedProcesses_def IsRunning_def list_all_iff)
qed

text \<open>One process that the rules name and no windows.\<close>

definition one_process :: process_api where
  "one_process =
     \<lparr>pa_snapshot = None, pa_first = Inr (7, wide ''g.exe''), pa_next = [], pa_times = (\<lambda>_ _. Some (0, 5)),
      pa_desktop = (\<lambda>_. \<lparr>dk_windows = Some [], dk_foreground = None\<rparr>), pa_open = (\<lambda>_. Inl 5)\<rparr>"

definition one_game :: GameConfig where
  "one_game = \<lparr>gc_id = ''g'', gc_displayName = [], gc_processNames = [''G.exe''], gc_windowTitleContains = [],
     gc_pauseWhenBackground = True\<rparr>"

theorem watcher_lives_follow_protocol_witness:
  "\<exists>W H. watcher_run (\<lambda>_. []) byte_codec (W :: nat ProcessWatcher) H \<and> map pt_current H = [Starting] \<and>
     distinct (map pi_generation (GetTrackedProcesses W))"
proof -
  define W1 :: "nat ProcessWatcher" where
    "W1 = snd (SetRules (\<lambda>_. []) byte_codec [one_game] (ProcessWatcher_new True))"
  define W2 where "W2 = snd (PollOnce (\<lambda>_. []) one_process W1)"
  define H where "H = (case fst (PollOnce (\<lambda>_. []) one_process W1) of Inl _ \<Rightarrow> [] | Inr ts \<Rightarrow> ts)"
  have s: "SetRules (\<lambda>_. []) byte_codec [one_game] (ProcessWatcher_new True) = (Success (), W1)"
    by (simp add: W1_def SetRules_def build_rule_def rule_text_def byte_codec_def one_game_def)
  have p: "PollOnce (\<lambda>_. []) one_process W1 = (Success H, W2)"
    by (auto simp: H_def W2_def PollOnce_def EnumerateProcesses_def one_process_def split: prod.splits)
  have "watcher_run (\<lambda>_. []) byte_codec W1 []"
    by (rule watcher_run.rules [OF watcher_run.new _ s]) simp
  moreover have "has_room W1"
    by (simp add: W1_def SetRules_def build_rule_def rule_text_def byte_codec_def one_game_def has_room_def)
  ultimately have run: "watcher_run (\<lambda>_. []) byte_codec W2 H" using watcher_run.poll [OF _ _ p] by fastforce
  have "map pt_current H = [Starting]"
    unfolding H_def W1_def by code_simp
  with run watcher_lives_follow_protocol [OF run] show ?thesis by (intro exI [of _ W2] exI [of _ H]) simp
qed

section \<open>Stopping\<close>

fun run_worker ::
  "(u32 \<Rightarrow> string) \<Rightarrow> process_api list \<Rightarrow> 'cb ProcessWatcher \<Rightarrow>
   'cb ProcessWatcher \<times> ('cb \<times> ProcessTransition) list" where
  "run_worker sysmsg [] W = (W, [])"
| "run_worker sysmsg (A # As) W =
     (let (W1, call) = WorkerLoop sysmsg A W; (W2, calls) = run_worker sysmsg As W1
      in (W2, (case call of None \<Rightarrow> calls | Some c \<Rightarrow> c # calls)))"

definition pending :: "'cb ProcessWatcher \<Rightarrow> ('cb \<times> ProcessTransition) list" where
  "pending W = (case w_worker W of Some (At_Deliver calls) \<Rightarrow> calls | _ \<Rightarrow> [])"

lemma run_worker_end:
  "w_worker W = Some At_End \<Longrightarrow> run_worker sysmsg As W = (W, [])"
  by (induction As) (simp_all add: WorkerLoop_def)

lemma run_worker_wait:
  assumes "w_stopRequested W" and "w_worker W = Some At_Wait" and "As \<noteq> []"
  shows "run_worker sysmsg As W = (W\<lparr>w_worker := Some At_End\<rparr>, [])"
  using assms by (cases As) (simp_all add: WorkerLoop_def run_worker_end)

lemma run_worker_check:
  assumes "w_stopRequested W" and "w_worker W = Some (At_Check ts)" and "As \<noteq> []"
  shows "run_worker sysmsg As W = (W\<lparr>w_worker := Some At_End\<rparr>, [])"
  using assms by (cases As) (simp_all add: WorkerLoop_def run_worker_end)

lemma run_worker_deliver:
  assumes "w_stopRequested W" and "w_worker W = Some (At_Deliver calls)" and "length calls + 2 \<le> length As"
  shows "run_worker sysmsg As W = (W\<lparr>w_worker := Some At_End\<rparr>, calls)"
  using assms
proof (induction calls arbitrary: W As)
  case Nil
  then obtain A Bs where "As = A # Bs" "Bs \<noteq> []" by (cases As) fastforce+
  then show ?case using Nil run_worker_wait [of "W\<lparr>w_worker := Some At_Wait\<rparr>" Bs sysmsg] by (simp add: WorkerLoop_def)
next
  case (Cons c calls)
  then obtain A Bs where As: "As = A # Bs" by (cases As) auto
  show ?case using Cons.IH [of "W\<lparr>w_worker := Some (At_Deliver calls)\<rparr>" Bs] Cons.prems As by (simp add: WorkerLoop_def)
qed

lemma PollOnce_frame:
  "PollOnce sysmsg A W = (r, W') \<Longrightarrow> w_stopRequested W' = w_stopRequested W \<and> w_worker W' = w_worker W \<and>
     w_running W' = w_running W"
  by (auto simp: PollOnce_def split: sum.splits prod.splits)

text \<open>
  Stopping always returns.  Once a stop is requested, the thread ends within two steps and one for
  each call of the batch it is delivering, whatever Windows reports meanwhile; those calls are the
  only ones still made, and the join then leaves a watcher without thread that is not running.\<close>
theorem Stop_returns:
  assumes "w_worker W = Some pc" and "length (pending W) + 2 \<le> length As"
  shows "\<exists>W' W''. run_worker sysmsg As (Stop_request W) = (W', pending W) \<and> w_worker W' = Some At_End \<and>
    Stop_join W' = Some W'' \<and> w_worker W'' = None \<and> \<not> IsRunning W''"
proof -
  let ?S = "W\<lparr>w_stopRequested := True, w_running := False\<rparr>"
  have ne: "As \<noteq> []" using assms(2) by auto
  have S: "Stop_request W = ?S" using assms(1) by (simp add: Stop_request_def)
  have fin: "\<exists>W'. run_worker sysmsg As ?S = (W', pending W) \<and> w_worker W' = Some At_End \<and> \<not> w_running W'"
  proof (cases pc)
    case At_Poll
    obtain A Bs where As: "As = A # Bs" "Bs \<noteq> []" using assms(2) by (cases As) fastforce+
    obtain r W1 where P: "PollOnce sysmsg A ?S = (r, W1)" by (cases "PollOnce sysmsg A ?S") auto
    show ?thesis
      using As P PollOnce_frame [OF P] At_Poll assms(1)
        run_worker_check [of "W1\<lparr>w_worker := Some (At_Check (case r of Inl _ \<Rightarrow> [] | Inr ts \<Rightarrow> ts))\<rparr>" _ Bs sysmsg]
      by (simp add: WorkerLoop_def pending_def)
  next
    case (At_Check ts)
    then show ?thesis using assms ne run_worker_check [of ?S ts As sysmsg] by (simp add: pending_def)
  next
    case (At_Deliver calls)
    then show ?thesis using assms run_worker_deliver [of ?S calls As sysmsg] by (simp add: pending_def)
  next
    case At_Wait
    then show ?thesis using assms ne run_worker_wait [of ?S As sysmsg] by (simp add: pending_def)
  next
    case At_End
    then show ?thesis using assms run_worker_end [of ?S sysmsg As] by (simp add: pending_def)
  qed
  then show ?thesis unfolding S by (auto simp: Stop_join_def IsRunning_def)
qed

theorem Stop_returns_witness:
  "\<exists>W'. run_worker (\<lambda>_. []) [one_process, one_process]
          (Stop_request ((ProcessWatcher_new True)\<lparr>w_worker := Some At_Wait, w_running := True\<rparr>)) =
        (W', [] :: (nat \<times> ProcessTransition) list) \<and> w_worker W' = Some At_End"
  using Stop_returns [of "(ProcessWatcher_new True)\<lparr>w_worker := Some At_Wait, w_running := True\<rparr>" At_Wait
      "[one_process, one_process]" "\<lambda>_. []"]
  by (auto simp: pending_def)

text \<open>
  When a callback stops the watcher from the polling thread, nobody joins the ended thread, and the
  next start reports success without starting anything.
\<close>

lemma Start_after_own_stop:
  "w_worker W = Some At_End \<Longrightarrow> Start created W = (Success (), W)"
  by (simp add: Start_def)

end
