(* ===== verification/Logger.thy ===== *)
theory Logger
  imports Console_Output "HOL-Library.Multiset"
begin

text \<open>
  The logger: \<^verbatim>\<open>include/logger/logger.hpp\<close> and \<^verbatim>\<open>source/logger/logger.cpp\<close>.  First levels and
  lines, then the bounded queue with its writing thread, then the logger on top of it.  The thread is
  a program counter in the state of the queue, and every section that holds the mutex is one step.
  The sink library is not part of the program: opening a sink and writing to it are arguments, and
  what was handed to a sink is a trace.
\<close>

section \<open>Levels and lines\<close>

datatype LogLevel = Trace | Debug | Info | Warn | Error | Critical

fun level_rank :: "LogLevel \<Rightarrow> nat" where
  "level_rank Trace = 0"
| "level_rank Debug = 1"
| "level_rank Info = 2"
| "level_rank Warn = 3"
| "level_rank Error = 4"
| "level_rank Critical = 5"

lemma level_rank_inj: "level_rank a = level_rank b \<Longrightarrow> a = b"
  by (cases a; cases b) simp_all

instantiation LogLevel :: linorder
begin

definition less_eq_LogLevel :: "LogLevel \<Rightarrow> LogLevel \<Rightarrow> bool" where
  "less_eq_LogLevel a b \<longleftrightarrow> level_rank a \<le> level_rank b"

definition less_LogLevel :: "LogLevel \<Rightarrow> LogLevel \<Rightarrow> bool" where
  "less_LogLevel a b \<longleftrightarrow> level_rank a < level_rank b"

instance
  by standard (auto simp: less_eq_LogLevel_def less_LogLevel_def dest: level_rank_inj)

end

fun LevelToString :: "LogLevel \<Rightarrow> wstring" where
  "LevelToString Trace = wide ''TRACE''"
| "LevelToString Debug = wide ''DEBUG''"
| "LevelToString Info = wide ''INFO''"
| "LevelToString Warn = wide ''WARN''"
| "LevelToString Error = wide ''ERROR''"
| "LevelToString Critical = wide ''CRITICAL''"

definition fold_upper :: "u16 \<Rightarrow> u16" where
  "fold_upper u = (if 97 \<le> u \<and> u \<le> 122 then u - 97 + 65 else u)"

definition EqualsIgnoreCaseAscii :: "wstring \<Rightarrow> wstring \<Rightarrow> bool" where
  "EqualsIgnoreCaseAscii a b \<longleftrightarrow> length a = length b \<and> list_all2 (\<lambda>x y. fold_upper x = fold_upper y) a b"

definition LevelFromString :: "wstring \<Rightarrow> LogLevel result" where
  "LevelFromString name =
     (if EqualsIgnoreCaseAscii name (wide ''TRACE'') then Success Trace
      else if EqualsIgnoreCaseAscii name (wide ''DEBUG'') then Success Debug
      else if EqualsIgnoreCaseAscii name (wide ''INFO'') then Success Info
      else if EqualsIgnoreCaseAscii name (wide ''WARN'') then Success Warn
      else if EqualsIgnoreCaseAscii name (wide ''ERROR'') then Success Error
      else if EqualsIgnoreCaseAscii name (wide ''CRITICAL'') then Success Critical
      else Failure (Error_Validation ''LevelFromString'' ''Unknown log level name''))"

record LogRecord =
  lr_level :: LogLevel
  lr_localTime :: wstring
  lr_module :: wstring
  lr_message :: wstring

definition FormatLogRecord :: "LogRecord \<Rightarrow> wstring" where
  "FormatLogRecord r =
     lr_localTime r @ wide '' ['' @ LevelToString (lr_level r) @ wide ''] '' @ lr_module r @ wide '': '' @ lr_message r"

text \<open>A failed conversion leaves an empty text.\<close>

definition ToUtf8 :: "codec \<Rightarrow> wstring \<Rightarrow> string" where
  "ToUtf8 K t =
     (if t = [] then [] else case WideCharToMultiByte K t of Inl _ \<Rightarrow> [] | Inr s \<Rightarrow> s)"

text \<open>The sink of the standard error handle: wide characters for a console, bytes otherwise.\<close>

fun sink_it :: "codec \<Rightarrow> string \<Rightarrow> std_handle \<Rightarrow> std_handle" where
  "sink_it K data No_Handle = No_Handle"
| "sink_it K data (Console_Handle w) =
     (case MultiByteToWideChar K data of Inl _ \<Rightarrow> Console_Handle w | Inr t \<Rightarrow> Console_Handle (w @ t))"
| "sink_it K data (Byte_Handle b) = Byte_Handle (b @ data)"

section \<open>The bounded queue\<close>

text \<open>
  The writing thread waits for work, hands a record to the sink outside the lock, counts it, and
  finishes.
\<close>

datatype writer = Q_Wait | Q_Sink LogRecord | Q_Finish | Q_End

record AsyncLogQueue =
  q_capacity :: nat
  q_queue :: "LogRecord list"
  q_stopping :: bool
  q_finished :: bool
  q_written :: nat
  q_dropped :: nat
  q_pushedSeq :: u64
  q_writtenSeq :: u64
  q_writer :: writer

definition AsyncLogQueue_new :: "nat \<Rightarrow> AsyncLogQueue" where
  "AsyncLogQueue_new capacity =
     \<lparr>q_capacity = capacity, q_queue = [], q_stopping = False, q_finished = False, q_written = 0, q_dropped = 0,
      q_pushedSeq = 0, q_writtenSeq = 0, q_writer = Q_Wait\<rparr>"

definition IsProtectedLevel :: "LogLevel \<Rightarrow> bool" where
  "IsProtectedLevel l \<longleftrightarrow> l = Error \<or> l = Critical"

text \<open>The oldest record that may give way to \<open>r\<close> is replaced by it.\<close>

fun replace_lower :: "LogRecord \<Rightarrow> LogRecord list \<Rightarrow> LogRecord list option" where
  "replace_lower r [] = None"
| "replace_lower r (x # xs) =
     (if \<not> IsProtectedLevel (lr_level x) \<and> lr_level x < lr_level r then Some (r # xs)
      else (case replace_lower r xs of None \<Rightarrow> None | Some ys \<Rightarrow> Some (x # ys)))"

definition Push :: "LogRecord \<Rightarrow> AsyncLogQueue \<Rightarrow> unit result \<times> AsyncLogQueue" where
  "Push r q =
     (if q_stopping q then (Failure (Error_Unsupported ''AsyncLogQueue::Push'' ''the queue was stopped''), q)
      else if length (q_queue q) < q_capacity q
        then (Success (), q\<lparr>q_queue := q_queue q @ [r], q_pushedSeq := q_pushedSeq q + 1\<rparr>)
      else if IsProtectedLevel (lr_level r)
        then (case replace_lower r (q_queue q) of
                Some xs \<Rightarrow>
                  (Success (), q\<lparr>q_queue := xs, q_dropped := q_dropped q + 1, q_pushedSeq := q_pushedSeq q + 1\<rparr>)
              | None \<Rightarrow>
                  (Failure (Error_Unsupported ''AsyncLogQueue::Push''
                     ''the queue is full of records that must not be dropped''), q))
      else (Success (), q\<lparr>q_dropped := q_dropped q + 1\<rparr>))"

text \<open>\<open>Stop\<close> up to the join; the join waits for the end of the thread.\<close>

definition Stop_queue :: "AsyncLogQueue \<Rightarrow> AsyncLogQueue" where
  "Stop_queue q = (if q_stopping q \<and> q_finished q then q else q\<lparr>q_stopping := True\<rparr>)"

text \<open>The target that \<open>Flush\<close> waits for, and the condition it waits on.\<close>

definition flush_target :: "AsyncLogQueue \<Rightarrow> u64" where
  "flush_target q = q_pushedSeq q"

definition flush_ready :: "u64 \<Rightarrow> AsyncLogQueue \<Rightarrow> bool" where
  "flush_ready target q \<longleftrightarrow> q_writtenSeq q \<ge> target \<or> q_finished q"

text \<open>
  One block of the writing thread, with the record handed to the sink, if any.  A waiting thread
  with nothing to do stays where it is.
\<close>

definition WorkerLoop :: "AsyncLogQueue \<Rightarrow> AsyncLogQueue \<times> LogRecord option" where
  "WorkerLoop q =
     (case q_writer q of
        Q_Wait \<Rightarrow>
          (case q_queue q of
             [] \<Rightarrow> (if q_stopping q then (q\<lparr>q_writer := Q_Finish\<rparr>, None) else (q, None))
           | r # rs \<Rightarrow> (q\<lparr>q_queue := rs, q_writer := Q_Sink r\<rparr>, None))
      | Q_Sink r \<Rightarrow>
          (q\<lparr>q_written := q_written q + 1, q_writtenSeq := q_writtenSeq q + 1, q_writer := Q_Wait\<rparr>, Some r)
      | Q_Finish \<Rightarrow> (q\<lparr>q_finished := True, q_writer := Q_End\<rparr>, None)
      | Q_End \<Rightarrow> (q, None))"

definition queue_IsRunning :: "AsyncLogQueue \<Rightarrow> bool" where
  "queue_IsRunning q = (\<not> q_stopping q)"

definition WrittenCount :: "AsyncLogQueue \<Rightarrow> nat" where
  "WrittenCount q = q_written q"

definition DroppedCount :: "AsyncLogQueue \<Rightarrow> nat" where
  "DroppedCount q = q_dropped q"

fun run_writer :: "nat \<Rightarrow> AsyncLogQueue \<Rightarrow> AsyncLogQueue \<times> LogRecord list" where
  "run_writer 0 q = (q, [])"
| "run_writer (Suc n) q =
     (let (q1, r) = WorkerLoop q; (q2, rs) = run_writer n q1
      in (q2, (case r of None \<Rightarrow> rs | Some x \<Rightarrow> x # rs)))"

section \<open>The logger\<close>

text \<open>
  \<open>'k\<close> names a sink.  A record that reaches the sink library is written when its level is not below
  the level set there.
\<close>

record FileSinkOptions =
  fo_maxFileMb :: u32
  fo_maxFiles :: u32
  fo_alsoConsole :: bool

datatype 'k file_sink = Rotating_File 'k nat nat | Basic_File 'k

record 'k Logger =
  lg_level :: LogLevel
  lg_impl :: "('k list \<times> LogLevel) option"
  lg_queue :: "AsyncLogQueue option"

type_synonym 'k log_line = "'k \<times> string"

text \<open>The arguments of the file sink: the size limit is a 64-bit product.\<close>

definition file_sink_spec :: "string \<Rightarrow> FileSinkOptions \<Rightarrow> string file_sink" where
  "file_sink_spec p opts =
     (if fo_maxFileMb opts > 0
      then Rotating_File p (unat (fo_maxFileMb opts) * 1024 * 1024)
             (if fo_maxFiles opts > 0 then unat (fo_maxFiles opts) else 1)
      else Basic_File p)"

text \<open>What \<open>open_sink\<close> returns is the sink, or the text of the library's exception and the last error, or
  nothing for an exception of another kind.\<close>

definition SetFileSink ::
  "(u32 \<Rightarrow> string) \<Rightarrow> codec \<Rightarrow> (string file_sink \<Rightarrow> (string \<times> u32) option + 'k) \<Rightarrow> 'k \<Rightarrow> wstring \<Rightarrow> FileSinkOptions \<Rightarrow>
   'k Logger \<Rightarrow> unit result \<times> 'k Logger" where
  "SetFileSink sysmsg K open_sink console p opts L =
     (case open_sink (file_sink_spec (ToUtf8 K p) opts) of
        Inl (Some (what, c)) \<Rightarrow> (Failure (FromWin32 sysmsg c (''Logger::SetFileSink: '' @ what)), L)
      | Inl None \<Rightarrow>
          (Failure (Error_Validation ''Logger::SetFileSink'' ''Unexpected exception while opening the log file''), L)
      | Inr k \<Rightarrow> (Success (), L\<lparr>lg_impl := Some (k # (if fo_alsoConsole opts then [console] else []), lg_level L)\<rparr>))"

text \<open>A sink that cannot be made leaves the old one.\<close>

definition SetPlainSink :: "'k option \<Rightarrow> 'k Logger \<Rightarrow> 'k Logger" where
  "SetPlainSink k L = (case k of None \<Rightarrow> L | Some x \<Rightarrow> L\<lparr>lg_impl := Some ([x], lg_level L)\<rparr>)"

definition Logger_new :: "'k option \<Rightarrow> LogLevel \<Rightarrow> 'k Logger" where
  "Logger_new debug level =
     \<lparr>lg_level = level, lg_impl = (case debug of None \<Rightarrow> None | Some k \<Rightarrow> Some ([k], level)), lg_queue = None\<rparr>"

definition SetLevel :: "LogLevel \<Rightarrow> 'k Logger \<Rightarrow> 'k Logger" where
  "SetLevel level L =
     L\<lparr>lg_level := level, lg_impl := (case lg_impl L of None \<Rightarrow> None | Some (ks, _) \<Rightarrow> Some (ks, level))\<rparr>"

definition WriteNow :: "codec \<Rightarrow> LogRecord \<Rightarrow> 'k Logger \<Rightarrow> 'k log_line list" where
  "WriteNow K r L =
     (case lg_impl L of
        None \<Rightarrow> []
      | Some (ks, level) \<Rightarrow>
          if level \<le> lr_level r then map (\<lambda>k. (k, ToUtf8 K (FormatLogRecord r))) ks else [])"

definition Write :: "codec \<Rightarrow> wstring \<Rightarrow> LogLevel \<Rightarrow> wstring \<Rightarrow> wstring \<Rightarrow> 'k Logger \<Rightarrow> 'k Logger \<times> 'k log_line list" where
  "Write K now level modul message L =
     (if level < lg_level L then (L, [])
      else
        (let r = \<lparr>lr_level = level, lr_localTime = now, lr_module = modul, lr_message = message\<rparr>
         in case lg_queue L of
              None \<Rightarrow> (L, WriteNow K r L)
            | Some q \<Rightarrow>
                (case Push r q of
                   (Inr _, q1) \<Rightarrow> (L\<lparr>lg_queue := Some q1\<rparr>, [])
                 | (Inl _, q1) \<Rightarrow> (L\<lparr>lg_queue := Some q1\<rparr>, WriteNow K r L))))"

text \<open>A step of the writing thread writes through the sinks the logger has at that time.\<close>

definition logger_work :: "codec \<Rightarrow> 'k Logger \<Rightarrow> 'k Logger \<times> 'k log_line list" where
  "logger_work K L =
     (case lg_queue L of
        None \<Rightarrow> (L, [])
      | Some q \<Rightarrow>
          (case WorkerLoop q of
             (q1, r) \<Rightarrow> (L\<lparr>lg_queue := Some q1\<rparr>, (case r of None \<Rightarrow> [] | Some x \<Rightarrow> WriteNow K x L))))"

text \<open>Stopping drains the queue: the thread runs until it has ended.\<close>

definition drain_steps :: "AsyncLogQueue \<Rightarrow> nat" where
  "drain_steps q = 2 * length (q_queue q) + 3"

definition StopAsync :: "codec \<Rightarrow> 'k Logger \<Rightarrow> 'k Logger \<times> 'k log_line list" where
  "StopAsync K L =
     (case lg_queue L of
        None \<Rightarrow> (L, [])
      | Some q \<Rightarrow>
          (case run_writer (drain_steps q) (Stop_queue q) of
             (_, rs) \<Rightarrow> (L\<lparr>lg_queue := None\<rparr>, concat (map (\<lambda>r. WriteNow K r L) rs))))"

text \<open>\<open>created\<close> says whether the system creates the writing thread.\<close>

definition SetAsyncFileSink ::
  "(u32 \<Rightarrow> string) \<Rightarrow> codec \<Rightarrow> (string file_sink \<Rightarrow> (string \<times> u32) option + 'k) \<Rightarrow> 'k \<Rightarrow> bool \<Rightarrow> wstring \<Rightarrow> FileSinkOptions \<Rightarrow>
   nat \<Rightarrow> 'k Logger \<Rightarrow> unit result \<times> 'k Logger \<times> 'k log_line list" where
  "SetAsyncFileSink sysmsg K open_sink console created p opts queueCapacity L =
     (case SetFileSink sysmsg K open_sink console p opts L of
        (Inl e, L1) \<Rightarrow> (Failure e, L1, [])
      | (Inr _, L1) \<Rightarrow>
          (case StopAsync K L1 of
             (L2, out) \<Rightarrow>
               if created
               then (Success (), L2\<lparr>lg_queue := Some (AsyncLogQueue_new (if queueCapacity > 0 then queueCapacity else 1))\<rparr>,
                     out)
               else (Failure (Error_Unsupported ''Logger::SetAsyncFileSink'' ''the writing thread cannot be created''),
                     L2, out)))"

definition IsAsync :: "'k Logger \<Rightarrow> bool" where
  "IsAsync L = (lg_queue L \<noteq> None)"

section \<open>Level names\<close>

text \<open>
  Level names and levels correspond: each level is read back from its own name in any mixture of
  ASCII cases, and a name is accepted only if it is the name of the level it gives, up to case.\<close>
theorem LevelFromString_exact:
  "LevelFromString name = Success l \<longleftrightarrow> map fold_upper name = map fold_upper (LevelToString l)"
proof -
  have e: "EqualsIgnoreCaseAscii a b \<longleftrightarrow> map fold_upper a = map fold_upper b" for a b
    by (auto simp: EqualsIgnoreCaseAscii_def list_all2_conv_all_nth list_eq_iff_nth_eq)
  define A where "A l = map fold_upper (LevelToString l)" for l
  have d: "A a \<noteq> A b" if "a \<noteq> b" for a b
    using that by (cases a; cases b) (simp_all add: A_def wide_def fold_upper_def)
  have "LevelFromString name =
     (if map fold_upper name = A Trace then Success Trace else if map fold_upper name = A Debug then Success Debug
      else if map fold_upper name = A Info then Success Info else if map fold_upper name = A Warn then Success Warn
      else if map fold_upper name = A Error then Success Error
      else if map fold_upper name = A Critical then Success Critical
      else Failure (Error_Validation ''LevelFromString'' ''Unknown log level name''))"
    by (simp only: LevelFromString_def e LevelToString.simps A_def)
  then show ?thesis
    unfolding A_def [symmetric] using d by (cases l) (auto dest: sym)
qed

section \<open>Reachable queues\<close>

definition inflight :: "AsyncLogQueue \<Rightarrow> LogRecord list" where
  "inflight q = (case q_writer q of Q_Sink r \<Rightarrow> [r] | _ \<Rightarrow> [])"

text \<open>
  All interleavings of pushes, a stop and the steps of the writing thread; with the records whose push
  reported success, the records handed to the sink and the number of replacements in a full queue.
\<close>

inductive queue_run :: "nat \<Rightarrow> AsyncLogQueue \<Rightarrow> LogRecord list \<Rightarrow> LogRecord list \<Rightarrow> nat \<Rightarrow> bool" for c :: nat where
  new: "queue_run c (AsyncLogQueue_new c) [] [] 0"
| push: "queue_run c q acc out k \<Longrightarrow> Push r q = (Success (), q') \<Longrightarrow>
    k' = (if length (q_queue q) \<ge> c \<and> IsProtectedLevel (lr_level r) then k + 1 else k) \<Longrightarrow>
    queue_run c q' (acc @ [r]) out k'"
| refused: "queue_run c q acc out k \<Longrightarrow> Push r q = (Failure e, q') \<Longrightarrow> queue_run c q' acc out k"
| stop: "queue_run c q acc out k \<Longrightarrow> queue_run c (Stop_queue q) acc out k"
| work: "queue_run c q acc out k \<Longrightarrow> WorkerLoop q = (q', None) \<Longrightarrow> queue_run c q' acc out k"
| work_sink: "queue_run c q acc out k \<Longrightarrow> WorkerLoop q = (q', Some r) \<Longrightarrow> queue_run c q' acc (out @ [r]) k"

abbreviation protected :: "LogRecord \<Rightarrow> bool" where
  "protected r \<equiv> IsProtectedLevel (lr_level r)"

definition queue_ok :: "nat \<Rightarrow> AsyncLogQueue \<Rightarrow> LogRecord list \<Rightarrow> LogRecord list \<Rightarrow> nat \<Rightarrow> bool" where
  "queue_ok c q acc out k \<longleftrightarrow>
     q_capacity q = c \<and> length (q_queue q) \<le> c \<and>
     filter_mset protected (mset acc) = filter_mset protected (mset (out @ inflight q @ q_queue q)) \<and>
     mset (out @ inflight q @ q_queue q) \<subseteq># mset acc \<and>
     length acc = length (out @ inflight q @ q_queue q) + q_dropped q \<and>
     q_written q = length out \<and> q_writtenSeq q = of_nat (length out) \<and>
     q_pushedSeq q + of_nat (q_dropped q) = of_nat (length acc + k) \<and> k \<le> q_dropped q \<and>
     (q_writer q = Q_Finish \<or> q_writer q = Q_End \<longrightarrow> q_stopping q \<and> q_queue q = []) \<and>
     (q_finished q \<longleftrightarrow> q_writer q = Q_End)"

lemma replace_lower_split:
  "replace_lower r xs = Some ys \<Longrightarrow>
     \<exists>as x bs. xs = as @ x # bs \<and> ys = as @ r # bs \<and> \<not> IsProtectedLevel (lr_level x) \<and> lr_level x < lr_level r"
proof (induction xs arbitrary: ys)
  case (Cons x xs)
  show ?case
  proof (cases "\<not> IsProtectedLevel (lr_level x) \<and> lr_level x < lr_level r")
    case True
    then show ?thesis using Cons.prems by (intro exI [of _ "[]"] exI [of _ x] exI [of _ xs]) simp
  next
    case False
    then obtain zs where z: "replace_lower r xs = Some zs" "ys = x # zs" using Cons.prems by (auto split: option.splits if_splits)
    obtain as y bs where "xs = as @ y # bs \<and> zs = as @ r # bs \<and> \<not> IsProtectedLevel (lr_level y) \<and> lr_level y < lr_level r"
      using Cons.IH [OF z(1)] by blast
    then show ?thesis using z(2) by (intro exI [of _ "x # as"] exI [of _ y] exI [of _ bs]) simp
  qed
qed simp

lemma Push_cases:
  assumes "Push r q = (Success (), q')"
  obtains (room) "length (q_queue q) < q_capacity q" "q' = q\<lparr>q_queue := q_queue q @ [r], q_pushedSeq := q_pushedSeq q + 1\<rparr>"
  | (replaced) as x bs where "\<not> length (q_queue q) < q_capacity q" "IsProtectedLevel (lr_level r)" "q_queue q = as @ x # bs"
      "\<not> IsProtectedLevel (lr_level x)"
      "q' = q\<lparr>q_queue := as @ r # bs, q_dropped := q_dropped q + 1, q_pushedSeq := q_pushedSeq q + 1\<rparr>"
  | (dropped) "\<not> length (q_queue q) < q_capacity q" "\<not> IsProtectedLevel (lr_level r)" "q' = q\<lparr>q_dropped := q_dropped q + 1\<rparr>"
  using assms by (auto simp: Push_def split: if_splits option.splits dest!: replace_lower_split)

lemma Push_not_stopping: "Push r q = (Success (), q') \<Longrightarrow> \<not> q_stopping q"
  by (auto simp: Push_def split: if_splits)

lemma subset_mset_add: "A \<subseteq># B \<Longrightarrow> A \<subseteq># add_mset x B"
  by (metis add_mset_add_single mset_subset_eq_add_left subset_mset.trans)

lemma queue_ok_push:
  assumes ok: "queue_ok c q acc out k" and p: "Push r q = (Success (), q')"
    and k': "k' = (if length (q_queue q) \<ge> c \<and> IsProtectedLevel (lr_level r) then k + 1 else k)"
  shows "queue_ok c q' (acc @ [r]) out k'"
  using p
proof (cases rule: Push_cases)
  case room
  then have "inflight q' = inflight q" by (simp add: inflight_def)
  then show ?thesis
    using ok room k' Push_not_stopping [OF p] by (auto simp: queue_ok_def subset_mset.add_increasing2)
next
  case (replaced as x bs)
  have i: "inflight q' = inflight q" using replaced(5) by (simp add: inflight_def)
  have sub: "mset out + (mset (inflight q) + (mset as + mset bs)) \<subseteq># mset acc"
    using ok replaced(3) by (auto simp: queue_ok_def intro: subset_mset.order_trans [rotated])
  have "c \<le> length (q_queue q)" using replaced(1) ok by (simp add: queue_ok_def)
  then show ?thesis
    using ok replaced k' i sub Push_not_stopping [OF p] by (auto simp: queue_ok_def)
next
  case dropped
  then have "inflight q' = inflight q" by (simp add: inflight_def)
  then show ?thesis
    using ok dropped k' Push_not_stopping [OF p] by (auto simp: queue_ok_def subset_mset_add)
qed

lemma queue_ok_work:
  assumes ok: "queue_ok c q acc out k" and w: "WorkerLoop q = (q', r)"
  shows "queue_ok c q' acc (out @ (case r of None \<Rightarrow> [] | Some x \<Rightarrow> [x])) k"
proof (cases "q_writer q")
  case Q_Wait
  show ?thesis
  proof (cases "q_queue q")
    case Nil
    then show ?thesis using ok w Q_Wait by (auto simp: WorkerLoop_def queue_ok_def inflight_def split: if_splits)
  next
    case (Cons x xs)
    then show ?thesis using ok w Q_Wait by (auto simp: WorkerLoop_def queue_ok_def inflight_def)
  qed
next
  case (Q_Sink x)
  then show ?thesis using ok w by (auto simp: WorkerLoop_def queue_ok_def inflight_def)
next
  case Q_Finish
  then show ?thesis using ok w by (auto simp: WorkerLoop_def queue_ok_def inflight_def)
next
  case Q_End
  then show ?thesis using ok w by (auto simp: WorkerLoop_def queue_ok_def inflight_def)
qed

lemma queue_run_ok: "queue_run c q acc out k \<Longrightarrow> queue_ok c q acc out k"
proof (induction rule: queue_run.induct)
  case new
  show ?case by (simp add: queue_ok_def AsyncLogQueue_new_def inflight_def)
next
  case (push q acc out k r q' k')
  then show ?case using queue_ok_push by blast
next
  case (refused q acc out k r e q')
  then show ?case by (auto simp: Push_def split: if_splits option.splits)
next
  case (stop q acc out k)
  then show ?case by (auto simp: Stop_queue_def queue_ok_def inflight_def)
next
  case (work q acc out k q')
  then show ?case using queue_ok_work [of c q acc out k q' None] by simp
next
  case (work_sink q acc out k q' r)
  then show ?case using queue_ok_work [of c q acc out k q' "Some r"] by simp
qed


section \<open>Draining\<close>

lemma run_writer_add:
  "run_writer (m + n) q = (case run_writer m q of (q1, rs) \<Rightarrow> case run_writer n q1 of (q2, ts) \<Rightarrow> (q2, rs @ ts))"
  by (induction m arbitrary: q) (auto simp: Let_def split: prod.splits option.splits)

lemma run_writer_ok:
  "queue_ok c q acc out k \<Longrightarrow> run_writer n q = (q', rs) \<Longrightarrow> queue_ok c q' acc (out @ rs) k"
proof (induction n arbitrary: q q' out rs)
  case (Suc n)
  obtain q1 r where w: "WorkerLoop q = (q1, r)" by fastforce
  obtain q2 ts where t: "run_writer n q1 = (q2, ts)" by fastforce
  have "queue_ok c q2 acc ((out @ (case r of None \<Rightarrow> [] | Some x \<Rightarrow> [x])) @ ts) k"
    by (rule Suc.IH [OF queue_ok_work [OF Suc.prems(1) w] t])
  then show ?case using Suc.prems(2) w t by (auto split: option.splits)
qed simp

lemma WorkerLoop_frame:
  "WorkerLoop q = (q', r) \<Longrightarrow> q_stopping q' = q_stopping q \<and> q_pushedSeq q' = q_pushedSeq q \<and> q_dropped q' = q_dropped q"
  by (auto simp: WorkerLoop_def split: writer.splits list.splits if_splits)

lemma run_writer_frame:
  "run_writer n q = (q', rs) \<Longrightarrow> q_stopping q' = q_stopping q \<and> q_pushedSeq q' = q_pushedSeq q \<and> q_dropped q' = q_dropped q"
  by (induction n arbitrary: q rs) (auto simp: Let_def dest: WorkerLoop_frame split: prod.splits)

lemma run_writer_waiting:
  "q_writer q = Q_Wait \<Longrightarrow>
     \<exists>q'. run_writer (2 * length (q_queue q)) q = (q', q_queue q) \<and> q_queue q' = [] \<and> q_writer q' = Q_Wait"
proof (induction "q_queue q" arbitrary: q)
  case (Cons r rs)
  let ?q1 = "q\<lparr>q_queue := rs, q_writer := Q_Sink r\<rparr>"
  let ?q2 = "?q1\<lparr>q_written := q_written q + 1, q_writtenSeq := q_writtenSeq q + 1, q_writer := Q_Wait\<rparr>"
  have "\<exists>q'. run_writer (2 * length (q_queue ?q2)) ?q2 = (q', q_queue ?q2) \<and> q_queue q' = [] \<and> q_writer q' = Q_Wait"
    by (rule Cons.hyps(1)) simp_all
  moreover have "WorkerLoop q = (?q1, None)" "WorkerLoop ?q1 = (?q2, Some r)"
    using Cons.prems Cons.hyps(2) [symmetric] by (simp_all add: WorkerLoop_def)
  ultimately show ?case using Cons.hyps(2) [symmetric] by auto
qed auto

lemma run_writer_empties:
  assumes "q_writer q = Q_Wait \<or> (\<exists>r. q_writer q = Q_Sink r)"
  shows "\<exists>q'. run_writer (length (inflight q) + 2 * length (q_queue q)) q = (q', inflight q @ q_queue q) \<and>
           q_queue q' = [] \<and> q_writer q' = Q_Wait"
proof (cases "q_writer q = Q_Wait")
  case True
  then show ?thesis using run_writer_waiting [OF True] by (simp add: inflight_def)
next
  case False
  then obtain r where r: "q_writer q = Q_Sink r" using assms by blast
  let ?q1 = "q\<lparr>q_written := q_written q + 1, q_writtenSeq := q_writtenSeq q + 1, q_writer := Q_Wait\<rparr>"
  have "WorkerLoop q = (?q1, Some r)" using r by (simp add: WorkerLoop_def)
  then show ?thesis using r run_writer_waiting [of ?q1] by (auto simp: inflight_def)
qed

lemma run_writer_finishes:
  assumes "q_queue q = []" "q_writer q = Q_Wait" "q_stopping q"
  shows "\<exists>q'. run_writer (n + 2) q = (q', []) \<and> q_finished q' \<and> q_writer q' = Q_End"
proof -
  have e: "run_writer m p = (p, [])" if "q_writer p = Q_End" for m p
    using that by (induction m) (simp_all add: WorkerLoop_def)
  show ?thesis using assms e [of "q\<lparr>q_writer := Q_End, q_finished := True\<rparr>" n]
    by (simp add: WorkerLoop_def e numeral_2_eq_2)
qed

text \<open>
  C31: Every record whose push reported success is in exactly one place: written, held by the writing
  thread, queued or counted as dropped; and a record of level Error or Critical is never dropped,
  whatever the interleaving of pushes, the stop and the writing thread, and however small the queue.\<close>
theorem AsyncLogQueue_keeps_protected:
  assumes "queue_run c q acc out k"
  shows "filter_mset protected (mset acc) = filter_mset protected (mset (out @ inflight q @ q_queue q)) \<and>
    mset (out @ inflight q @ q_queue q) \<subseteq># mset acc \<and>
    length acc = WrittenCount q + length (inflight q @ q_queue q) + DroppedCount q \<and>
    WrittenCount q = length out \<and> length (q_queue q) \<le> c"
  using queue_run_ok [OF assms] by (simp add: queue_ok_def WrittenCount_def DroppedCount_def)

lemma run_writer_stopped:
  assumes "queue_run c q acc out k"
  shows "\<exists>q'. run_writer (drain_steps q) (Stop_queue q) = (q', inflight q @ q_queue q) \<and> q_finished q'"
proof -
  have ok: "queue_ok c q acc out k" by (rule queue_run_ok [OF assms])
  define p where "p = Stop_queue q"
  have p: "q_writer p = q_writer q" "q_queue p = q_queue q" "q_stopping p" "inflight p = inflight q"
    by (simp_all add: p_def Stop_queue_def inflight_def)
  show ?thesis
  proof (cases "q_writer q = Q_Finish \<or> q_writer q = Q_End")
    case True
    then have "q_queue q = []" "q_finished p \<longleftrightarrow> q_writer q = Q_End" using ok by (simp_all add: queue_ok_def p_def Stop_queue_def)
    then show ?thesis unfolding p_def [symmetric] using True p
      by (auto simp: drain_steps_def inflight_def WorkerLoop_def numeral_3_eq_3)
  next
    case False
    then obtain p1 where p1: "run_writer (length (inflight p) + 2 * length (q_queue p)) p = (p1, inflight p @ q_queue p)"
        "q_queue p1 = []" "q_writer p1 = Q_Wait"
      using run_writer_empties [of p] p(1) by (cases "q_writer q") auto
    have "q_stopping p1" using run_writer_frame [OF p1(1)] p(3) by simp
    then obtain p2 where p2: "run_writer (1 - length (inflight p) + 2) p1 = (p2, [])" "q_finished p2"
      using run_writer_finishes [OF p1(2,3)] by blast
    have "drain_steps q = (length (inflight p) + 2 * length (q_queue p)) + (1 - length (inflight p) + 2)"
      by (simp add: drain_steps_def p(2) inflight_def split: writer.splits)
    then have "run_writer (drain_steps q) p = (p2, inflight p @ q_queue p)"
      using p1(1) p2(1) by (simp only: run_writer_add) simp
    then show ?thesis using p2(2) p by (simp add: p_def)
  qed
qed

text \<open>
  Stopping drains: from every reachable state the writing thread reaches its end within the stated
  number of steps, so the join returns; and what it still hands to the sink is exactly the record it
  held and the queued ones, in order.\<close>
theorem Stop_queue_drains:
  assumes "queue_run c q acc out k"
  shows "\<exists>q'. run_writer (drain_steps q) (Stop_queue q) = (q', inflight q @ q_queue q) \<and> q_finished q'"
  by (rule run_writer_stopped [OF assms])

text \<open>
  C32: A flush of a running queue returns, once the writing thread has had its turns, exactly if no
  queued record was ever replaced in the full queue: a replacement counts a record that the thread
  never writes.\<close>
theorem Flush_returns_iff_no_replacement:
  assumes "queue_run c q acc out k" and "\<not> q_stopping q" and "length acc < 2 ^ 64"
  shows "(\<exists>n. flush_ready (flush_target q) (fst (run_writer n q))) \<longleftrightarrow> k = 0"
proof -
  have ok: "queue_ok c q acc out k" by (rule queue_run_ok [OF assms(1)])
  define stored where "stored = length (out @ inflight q @ q_queue q)"
  have n: "length acc = stored + q_dropped q" "k \<le> q_dropped q"
    and e: "q_pushedSeq q + of_nat (q_dropped q) = of_nat (length acc + k)"
    using ok by (simp_all add: queue_ok_def stored_def)
  have s: "q_pushedSeq q = of_nat (stored + k)" using e by (simp add: n(1) algebra_simps)
  have ready: "flush_ready (flush_target q) q' \<longleftrightarrow> stored + k \<le> length (out @ rs)" if r: "run_writer m q = (q', rs)" for m q' rs
  proof -
    have ok': "queue_ok c q' acc (out @ rs) k" by (rule run_writer_ok [OF ok r])
    have "\<not> q_finished q'" using ok' run_writer_frame [OF r] assms(2) by (auto simp: queue_ok_def)
    moreover have "length (out @ rs) \<le> length acc" using ok' by (simp add: queue_ok_def)
    moreover have "q_writtenSeq q' = of_nat (length (out @ rs))" using ok' by (simp only: queue_ok_def)
    ultimately show ?thesis using n assms(3)
      by (simp only: flush_ready_def flush_target_def s) (simp add: word_le_nat_alt unat_of_nat del: of_nat_add length_append)
  qed
  show ?thesis
  proof
    assume "\<exists>n. flush_ready (flush_target q) (fst (run_writer n q))"
    then obtain m where m: "flush_ready (flush_target q) (fst (run_writer m q))" ..
    obtain q' rs where r: "run_writer m q = (q', rs)" by fastforce
    have "length acc = length (out @ rs) + length (inflight q' @ q_queue q') + q_dropped q'"
      using run_writer_ok [OF ok r] by (simp add: queue_ok_def)
    then show "k = 0" using m r ready [OF r] n(1) run_writer_frame [OF r] by simp
  next
    assume "k = 0"
    moreover have "q_writer q = Q_Wait \<or> (\<exists>r. q_writer q = Q_Sink r)"
      using ok assms(2) by (cases "q_writer q") (auto simp: queue_ok_def)
    then obtain q' where r: "run_writer (length (inflight q) + 2 * length (q_queue q)) q = (q', inflight q @ q_queue q)"
      using run_writer_empties by blast
    ultimately have "flush_ready (flush_target q) (fst (run_writer (length (inflight q) + 2 * length (q_queue q)) q))"
      using ready [OF r] by (simp add: stored_def)
    then show "\<exists>n. flush_ready (flush_target q) (fst (run_writer n q))" ..
  qed
qed


text \<open>Two records in a queue of one place, the second of level Error: a replacement.\<close>

definition info_record :: LogRecord where
  "info_record = \<lparr>lr_level = Info, lr_localTime = [], lr_module = [], lr_message = []\<rparr>"

definition error_record :: LogRecord where
  "error_record = \<lparr>lr_level = Error, lr_localTime = [], lr_module = [], lr_message = []\<rparr>"

definition replaced_queue :: AsyncLogQueue where
  "replaced_queue = (AsyncLogQueue_new 1)\<lparr>q_queue := [error_record], q_dropped := 1, q_pushedSeq := 2\<rparr>"

lemma replaced_queue_run: "queue_run 1 replaced_queue [info_record, error_record] [] 1"
proof -
  have a: "queue_run 1 ((AsyncLogQueue_new 1)\<lparr>q_queue := [info_record], q_pushedSeq := 1\<rparr>) ([] @ [info_record]) [] 0"
    by (rule queue_run.push [OF queue_run.new]) (simp_all add: Push_def AsyncLogQueue_new_def)
  have "queue_run 1 replaced_queue (([] @ [info_record]) @ [error_record]) [] 1"
    by (rule queue_run.push [OF a])
      (simp_all add: Push_def replaced_queue_def AsyncLogQueue_new_def IsProtectedLevel_def info_record_def error_record_def
        less_LogLevel_def)
  then show ?thesis by simp
qed

theorem AsyncLogQueue_keeps_protected_witness:
  "length [info_record, error_record] =
     WrittenCount replaced_queue + length (inflight replaced_queue @ q_queue replaced_queue) + DroppedCount replaced_queue"
  using AsyncLogQueue_keeps_protected [OF replaced_queue_run] by blast

theorem Stop_queue_drains_witness:
  "\<exists>q'. run_writer (drain_steps replaced_queue) (Stop_queue replaced_queue) = (q', inflight replaced_queue @ q_queue replaced_queue) \<and>
     q_finished q'"
  by (rule Stop_queue_drains [OF replaced_queue_run])

theorem Flush_returns_iff_no_replacement_witness:
  "\<not> (\<exists>n. flush_ready (flush_target replaced_queue) (fst (run_writer n replaced_queue)))"
  using Flush_returns_iff_no_replacement [OF replaced_queue_run] by (simp add: replaced_queue_def AsyncLogQueue_new_def)

section \<open>Writing through the logger\<close>

text \<open>
  A write at or above the level of the logger with level Error or Critical is never lost: after it
  the record is in the queue of the writing thread, or its line was handed to every sink at once.  A
  write below the level changes nothing and writes nothing.\<close>
theorem Write_protected_taken_over:
  assumes "lg_impl L = Some (ks, lg_level L)" and "IsProtectedLevel level" and "Write K now level m msg L = (L', out)"
    and "r = \<lparr>lr_level = level, lr_localTime = now, lr_module = m, lr_message = msg\<rparr>"
  shows "(level < lg_level L \<longrightarrow> L' = L \<and> out = []) \<and>
    (lg_level L \<le> level \<longrightarrow>
       (\<exists>q. lg_queue L' = Some q \<and> r \<in> set (q_queue q) \<and> out = []) \<or>
       out = map (\<lambda>k. (k, ToUtf8 K (FormatLogRecord r))) ks)"
proof (cases "level < lg_level L")
  case True
  then have "\<not> lg_level L \<le> level" by simp
  then show ?thesis using True assms(3) by (simp add: Write_def)
next
  case False
  show ?thesis
  proof (cases "lg_queue L")
    case None
    then show ?thesis using False assms by (auto simp: Write_def WriteNow_def)
  next
    case (Some q)
    obtain x q1 where p: "Push r q = (x, q1)" by fastforce
    show ?thesis
    proof (cases x)
      case (Inl e)
      then show ?thesis using False Some assms p by (auto simp: Write_def WriteNow_def)
    next
      case (Inr u)
      then have "Push r q = (Success (), q1)" using p by simp
      then have "r \<in> set (q_queue q1)" by (cases rule: Push_cases) (use assms(2,4) in auto)
      then show ?thesis using False Some assms p Inr by (auto simp: Write_def)
    qed
  qed
qed

definition sync_logger :: "nat Logger" where
  "sync_logger = Logger_new (Some 0) Info"

theorem Write_protected_taken_over_witness:
  "snd (Write byte_codec [] Error [] [] sync_logger) = [(0, ToUtf8 byte_codec (FormatLogRecord error_record))]"
proof -
  obtain L' out where w: "Write byte_codec [] Error [] [] sync_logger = (L', out)" by fastforce
  have q: "lg_queue L' = None"
    using w by (auto simp: sync_logger_def Logger_new_def Write_def less_LogLevel_def)
  show ?thesis
    using Write_protected_taken_over [OF _ _ w error_record_def, of "[0]"] q w
    by (simp add: sync_logger_def Logger_new_def IsProtectedLevel_def less_eq_LogLevel_def)
qed

text \<open>The level of the library and the level of the logger agree after every operation.\<close>

definition level_agrees :: "'k Logger \<Rightarrow> bool" where
  "level_agrees L \<longleftrightarrow> (\<forall>ks l. lg_impl L = Some (ks, l) \<longrightarrow> l = lg_level L)"

lemma level_agrees_ops:
  "level_agrees (Logger_new d l)"
  "level_agrees L \<Longrightarrow> level_agrees (SetLevel l L)"
  "level_agrees L \<Longrightarrow> level_agrees (SetPlainSink k L)"
  "level_agrees L \<Longrightarrow> level_agrees (snd (SetFileSink sysmsg K open_sink console p opts L))"
  "level_agrees L \<Longrightarrow> level_agrees (fst (StopAsync K L))"
  "level_agrees L \<Longrightarrow> level_agrees (fst (logger_work K L))"
  by (auto simp: level_agrees_def Logger_new_def SetLevel_def SetPlainSink_def SetFileSink_def StopAsync_def logger_work_def
      split: option.splits sum.splits prod.splits)

text \<open>
  Changing the log file while the asynchronous mode is on: the sink is exchanged before the queue is
  drained, so what was queued for the old file reaches the new one.
\<close>

lemma SetAsyncFileSink_drains_into_new_sink:
  assumes "lg_queue L = Some q" and "queue_run c q acc out k"
    and "open_sink (file_sink_spec (ToUtf8 K p) opts) = Inr sink" and "\<not> fo_alsoConsole opts"
    and "SetAsyncFileSink sysmsg K open_sink console True p opts n L = (res, L', lines)"
  shows "res = Success () \<and> lg_impl L' = Some ([sink], lg_level L) \<and>
    lines = map (\<lambda>r. (sink, ToUtf8 K (FormatLogRecord r))) (filter (\<lambda>r. lg_level L \<le> lr_level r) (inflight q @ q_queue q))"
proof -
  let ?L1 = "L\<lparr>lg_impl := Some ([sink], lg_level L)\<rparr>"
  have w: "WriteNow K r ?L1 = (if lg_level L \<le> lr_level r then [(sink, ToUtf8 K (FormatLogRecord r))] else [])" for r
    by (simp add: WriteNow_def)
  have c: "concat (map (\<lambda>r. WriteNow K r ?L1) rs) =
      map (\<lambda>r. (sink, ToUtf8 K (FormatLogRecord r))) (filter (\<lambda>r. lg_level L \<le> lr_level r) rs)" for rs
    by (induction rs) (simp_all add: w)
  show ?thesis
    using assms(1,3-5) run_writer_stopped [OF assms(2)] by (auto simp: SetAsyncFileSink_def SetFileSink_def StopAsync_def c)
qed

end
