(* ===== verification/Safety_Gates.thy ===== *)
theory Safety_Gates
  imports File_System
begin

text \<open>
  The six gates of a dangerous capability and the persistent cooldown ledger:
  \<^verbatim>\<open>include/policy/safety_gates.hpp\<close> and \<^verbatim>\<open>source/policy/safety_gates.cpp\<close>.
  The ledger is a \<open>std::map\<close> (ordered map) from capability id to Unix seconds; its values
  are 64-bit integers in the code and integers here, where the differences the code forms
  stay within 64 bits for clock readings that are not negative.
\<close>

section \<open>The gates\<close>

datatype GateId = CompileTime | Config | CommandLine | PermissionAndEnvironment | Audit | Cooldown

definition GateIdToString :: "GateId \<Rightarrow> string" where
  "GateIdToString g =
     (case g of
        CompileTime \<Rightarrow> ''compile''
      | Config \<Rightarrow> ''config''
      | CommandLine \<Rightarrow> ''cmdline''
      | PermissionAndEnvironment \<Rightarrow> ''perm_env''
      | Audit \<Rightarrow> ''audit''
      | Cooldown \<Rightarrow> ''cooldown'')"

record GateInputs =
  gi_compileTime :: bool
  gi_config :: bool
  gi_commandLine :: bool
  gi_permissionAndEnvironment :: bool
  gi_audit :: bool
  gi_cooldown :: bool

record GateEvaluation =
  ge_gates :: GateInputs
  ge_allowed :: bool
  ge_firstBlocking :: "GateId option"

definition gate_order :: "GateInputs \<Rightarrow> (GateId \<times> bool) list" where
  "gate_order i =
     [(CompileTime, gi_compileTime i), (Config, gi_config i), (CommandLine, gi_commandLine i),
      (PermissionAndEnvironment, gi_permissionAndEnvironment i), (Audit, gi_audit i),
      (Cooldown, gi_cooldown i)]"

definition gate_step :: "GateEvaluation \<Rightarrow> GateId \<times> bool \<Rightarrow> GateEvaluation" where
  "gate_step e g =
     (if \<not> snd g
      then e\<lparr>ge_allowed := False,
             ge_firstBlocking :=
               (if ge_firstBlocking e = None then Some (fst g) else ge_firstBlocking e)\<rparr>
      else e)"

definition EvaluateGates :: "GateInputs \<Rightarrow> GateEvaluation" where
  "EvaluateGates i =
     foldl gate_step \<lparr>ge_gates = i, ge_allowed = True, ge_firstBlocking = None\<rparr> (gate_order i)"

definition gate_passed :: "GateInputs \<Rightarrow> GateId \<Rightarrow> bool" where
  "gate_passed i g =
     (case g of
        CompileTime \<Rightarrow> gi_compileTime i
      | Config \<Rightarrow> gi_config i
      | CommandLine \<Rightarrow> gi_commandLine i
      | PermissionAndEnvironment \<Rightarrow> gi_permissionAndEnvironment i
      | Audit \<Rightarrow> gi_audit i
      | Cooldown \<Rightarrow> gi_cooldown i)"

text \<open>The declaration order of the enumeration.\<close>

definition gate_index :: "GateId \<Rightarrow> nat" where
  "gate_index g =
     (case g of CompileTime \<Rightarrow> 0 | Config \<Rightarrow> 1 | CommandLine \<Rightarrow> 2
      | PermissionAndEnvironment \<Rightarrow> 3 | Audit \<Rightarrow> 4 | Cooldown \<Rightarrow> 5)"

record EnvironmentFacts =
  ef_factsKnown :: bool
  ef_osSupported :: bool
  ef_onBattery :: bool
  ef_remoteSession :: bool
  ef_sessionLocked :: bool
  ef_interactiveSession :: bool

definition EvaluateEnvironmentGate :: "EnvironmentFacts \<Rightarrow> bool" where
  "EvaluateEnvironmentGate f \<longleftrightarrow>
     ef_factsKnown f \<and> ef_osSupported f \<and> \<not> ef_onBattery f \<and> \<not> ef_remoteSession f \<and>
     \<not> ef_sessionLocked f \<and> ef_interactiveSession f"

section \<open>The cooldown ledger\<close>

definition kCooldownEnvelope :: string where
  "kCooldownEnvelope = ''CppOptimizerCooldowns/1''"

definition kDefaultCooldown :: int where
  "kDefaultCooldown = 15 * 60"

type_synonym CooldownLedger = "(string \<times> int) list"

definition kMemoryCleanCapabilityId :: string where
  "kMemoryCleanCapabilityId = ''memory.clean''"

definition kPowerSchemeCapabilityId :: string where
  "kPowerSchemeCapabilityId = ''power.switch_power_scheme''"

definition EvaluateCooldownGate :: "CooldownLedger \<Rightarrow> string \<Rightarrow> int \<Rightarrow> int \<Rightarrow> bool" where
  "EvaluateCooldownGate ledger cap now cooldown =
     (case om_get ledger cap of
        None \<Rightarrow> True
      | Some found \<Rightarrow>
          if found \<le> 0 then True
          else let elapsed = now - found
               in if elapsed < 0 then False else cooldown \<le> elapsed)"

text \<open>One line after the envelope: empty or malformed lines are skipped.\<close>

definition read_entry :: "CooldownLedger \<Rightarrow> string \<Rightarrow> CooldownLedger" where
  "read_entry ledger line =
     (if line = [] then ledger
      else case split_first (CHR '' '') line of
             None \<Rightarrow> ledger
           | Some (k, v) \<Rightarrow>
               (case stoll v of None \<Rightarrow> ledger | Some t \<Rightarrow> om_put k t ledger))"

definition parse_ledger :: "string list \<Rightarrow> CooldownLedger" where
  "parse_ledger lines =
     (case lines of
        [] \<Rightarrow> []
      | first # rest \<Rightarrow>
          if first \<noteq> kCooldownEnvelope then [] else foldl read_entry [] rest)"

definition ReadCooldownLedger ::
  "(u32 \<Rightarrow> string) \<Rightarrow> disk_faults \<Rightarrow> path \<Rightarrow> disk \<Rightarrow> CooldownLedger result" where
  "ReadCooldownLedger sysmsg io p d =
     (if p = [] then Failure (Error_Validation ''ReadCooldownLedger'' ''path must not be empty'')
      else if is_directory io d p
        then Failure (Error_Validation ''ReadCooldownLedger'' ''ledger path is a directory, not a file'')
      else case path_exists io d p of
             (False, Some c) \<Rightarrow> Failure (FromWin32 sysmsg c ''exists(cooldown ledger)'')
           | (False, None) \<Rightarrow> Success []
           | (True, _) \<Rightarrow>
               (case open_read io d p of
                  Inl c \<Rightarrow> Failure (FromWin32 sysmsg c ''open cooldown ledger'')
                | Inr st \<Rightarrow> Success (parse_ledger (in_lines st))))"

definition ledger_lines :: "CooldownLedger \<Rightarrow> string list" where
  "ledger_lines ledger =
     kCooldownEnvelope # map (\<lambda>(k, t). k @ CHR '' '' # dec_of_int t) ledger"

definition ledger_text :: "CooldownLedger \<Rightarrow> string" where
  "ledger_text ledger = unlines (ledger_lines ledger)"

definition WriteCooldownLedger ::
  "(u32 \<Rightarrow> string) \<Rightarrow> disk_faults \<Rightarrow> path \<Rightarrow> CooldownLedger \<Rightarrow> disk \<Rightarrow> unit result \<times> disk" where
  "WriteCooldownLedger sysmsg io p ledger d =
     (if p = [] then (Failure (Error_Validation ''WriteCooldownLedger'' ''path must not be empty''), d)
      else case make_parent io p d of
             (Inl c, d1) \<Rightarrow> (Failure (FromWin32 sysmsg c ''create_directories(cooldown ledger)''), d1)
           | (Inr _, d1) \<Rightarrow>
               (case temp_replace io p (ledger_text ledger) d1 of
                  (Inr _, d2) \<Rightarrow> (Success (), d2)
                | (Inl (Temp_open c), d2) \<Rightarrow>
                    (Failure (FromWin32 sysmsg c ''open cooldown ledger temp file for write''), d2)
                | (Inl (Temp_flush c rc), d2) \<Rightarrow>
                    (Failure (FromWin32 sysmsg (case rc of None \<Rightarrow> c | Some r \<Rightarrow> r)
                       ''flush cooldown ledger temp file''), d2)
                | (Inl (Temp_move c), d2) \<Rightarrow>
                    (Failure (FromWin32 sysmsg c ''MoveFileExW(cooldown ledger)''), d2)))"

definition WithCooldownRun :: "CooldownLedger \<Rightarrow> string \<Rightarrow> int \<Rightarrow> CooldownLedger" where
  "WithCooldownRun ledger cap now =
     (if cap = [] \<or> now \<le> 0 then ledger
      else case om_get ledger cap of
             Some t \<Rightarrow> if now < t then ledger else om_put cap now ledger
           | None \<Rightarrow> om_put cap now ledger)"

definition RecordCooldownRun ::
  "(u32 \<Rightarrow> string) \<Rightarrow> disk_faults \<Rightarrow> path \<Rightarrow> string \<Rightarrow> int \<Rightarrow> disk \<Rightarrow> unit result \<times> disk" where
  "RecordCooldownRun sysmsg io p cap now d =
     (if p = [] then (Failure (Error_Validation ''RecordCooldownRun'' ''path must not be empty''), d)
      else if cap = []
        then (Failure (Error_Validation ''RecordCooldownRun'' ''capability id must not be empty''), d)
      else case ReadCooldownLedger sysmsg io p d of
             Inl e \<Rightarrow> (Failure e, d)
           | Inr ledger \<Rightarrow> WriteCooldownLedger sysmsg io p (WithCooldownRun ledger cap now) d)"

section \<open>The machine-readable report\<close>

record GatesReportEntry =
  gre_name :: string
  gre_allowed :: bool
  gre_firstBlocking :: string

record GatesReport =
  gr_readOnly :: bool
  gr_acknowledged :: bool
  gr_isolatedAcknowledged :: bool
  gr_factsKnown :: bool
  gr_osSupported :: bool
  gr_onBattery :: bool
  gr_remoteSession :: bool
  gr_sessionLocked :: bool
  gr_auditWritable :: bool
  gr_capabilities :: "GatesReportEntry list"

abbreviation dquote :: char where "dquote \<equiv> CHR 0x22"

definition json_bool :: "bool \<Rightarrow> string" where
  "json_bool b = (if b then ''true'' else ''false'')"

text \<open>A member name with its colon: \<open>"name":\<close>.\<close>

definition json_key :: "string \<Rightarrow> string" where
  "json_key k = [dquote] @ k @ [dquote] @ '':''"

definition gate_entry_json :: "GatesReportEntry \<Rightarrow> string" where
  "gate_entry_json e =
     ''{'' @ json_key ''name'' @ [dquote] @ gre_name e @ [dquote] @ '','' @
     json_key ''allowed'' @ json_bool (gre_allowed e) @ '','' @ json_key ''firstBlocking'' @
     (if gre_firstBlocking e = [] then ''null'' else [dquote] @ gre_firstBlocking e @ [dquote]) @ ''}''"

fun join_entries :: "GatesReportEntry list \<Rightarrow> string" where
  "join_entries [] = []"
| "join_entries [e] = gate_entry_json e"
| "join_entries (e # es) = gate_entry_json e @ '','' @ join_entries es"

definition FormatGatesJson :: "GatesReport \<Rightarrow> string" where
  "FormatGatesJson r =
     ''{'' @ json_key ''readOnly'' @ json_bool (gr_readOnly r) @
     '','' @ json_key ''acknowledged'' @ json_bool (gr_acknowledged r) @
     '','' @ json_key ''isolatedAcknowledged'' @ json_bool (gr_isolatedAcknowledged r) @
     '','' @ json_key ''environment'' @ ''{'' @ json_key ''factsKnown'' @ json_bool (gr_factsKnown r) @
     '','' @ json_key ''osSupported'' @ json_bool (gr_osSupported r) @
     '','' @ json_key ''onBattery'' @ json_bool (gr_onBattery r) @
     '','' @ json_key ''remoteSession'' @ json_bool (gr_remoteSession r) @
     '','' @ json_key ''sessionLocked'' @ json_bool (gr_sessionLocked r) @
     '','' @ json_key ''auditWritable'' @ json_bool (gr_auditWritable r) @
     ''},'' @ json_key ''capabilities'' @ ''['' @ join_entries (gr_capabilities r) @ '']}''"

section \<open>Gate evaluation\<close>

lemma all_gates:
  "(\<forall>g. P g) \<longleftrightarrow> P CompileTime \<and> P Config \<and> P CommandLine \<and>
     P PermissionAndEnvironment \<and> P Audit \<and> P Cooldown"
  by (auto intro: GateId.induct)

lemma EvaluateGates_explicit:
  "EvaluateGates i =
     \<lparr>ge_gates = i, ge_allowed = (\<forall>g. gate_passed i g),
      ge_firstBlocking =
        (if \<not> gi_compileTime i then Some CompileTime
         else if \<not> gi_config i then Some Config
         else if \<not> gi_commandLine i then Some CommandLine
         else if \<not> gi_permissionAndEnvironment i then Some PermissionAndEnvironment
         else if \<not> gi_audit i then Some Audit
         else if \<not> gi_cooldown i then Some Cooldown else None)\<rparr>"
  unfolding all_gates by (simp add: EvaluateGates_def gate_order_def gate_step_def gate_passed_def)

text \<open>
  A dangerous capability is allowed exactly when all six gates pass, and otherwise the
  reported gate is the failing one that comes first in the declared order; when nothing is
  reported the capability is allowed.\<close>
theorem EvaluateGates_first_blocking:
  "(ge_allowed (EvaluateGates i) \<longleftrightarrow> (\<forall>g. gate_passed i g)) \<and>
   (ge_firstBlocking (EvaluateGates i) = None \<longleftrightarrow> ge_allowed (EvaluateGates i)) \<and>
   (ge_firstBlocking (EvaluateGates i) = Some g \<longleftrightarrow>
      \<not> gate_passed i g \<and> (\<forall>h. gate_index h < gate_index g \<longrightarrow> gate_passed i h))"
  unfolding EvaluateGates_explicit all_gates
  by (cases g) (auto simp: gate_passed_def gate_index_def)

theorem EvaluateGates_first_blocking_witness:
  "ge_firstBlocking (EvaluateGates \<lparr>gi_compileTime = True, gi_config = True, gi_commandLine = False,
     gi_permissionAndEnvironment = True, gi_audit = False, gi_cooldown = True\<rparr>) = Some CommandLine"
  using EvaluateGates_first_blocking
    [of "\<lparr>gi_compileTime = True, gi_config = True, gi_commandLine = False,
     gi_permissionAndEnvironment = True, gi_audit = False, gi_cooldown = True\<rparr>" CommandLine]
  unfolding all_gates by (simp add: gate_passed_def gate_index_def)

section \<open>The ledger on disk\<close>

text \<open>What the text format can carry: keys without blank or newline, 64-bit values.\<close>

definition cap_ok :: "string \<Rightarrow> bool" where
  "cap_ok k \<longleftrightarrow> CHR '' '' \<notin> set k \<and> LF \<notin> set k"

definition int64_ok :: "int \<Rightarrow> bool" where
  "int64_ok t \<longleftrightarrow> - (2 ^ 63) \<le> t \<and> t < 2 ^ 63"

definition ledger_ok :: "CooldownLedger \<Rightarrow> bool" where
  "ledger_ok l \<longleftrightarrow> om_wf l \<and> (\<forall>(k, t) \<in> set l. cap_ok k \<and> int64_ok t)"

lemma set_om_put: "set (om_put k v m) \<subseteq> insert (k, v) (set m)"
  by (induction m) auto

lemma ledger_ok_put: "ledger_ok l \<Longrightarrow> cap_ok k \<Longrightarrow> int64_ok t \<Longrightarrow> ledger_ok (om_put k t l)"
  unfolding ledger_ok_def using set_om_put [of k t l] om.wf_put by fastforce

lemma stoll_int64: "stoll s = Some t \<Longrightarrow> int64_ok t"
  unfolding stoll_def int64_ok_def by (auto simp: Let_def split: option.splits if_splits)

lemma ledger_ok_read_entry: "ledger_ok l \<Longrightarrow> LF \<notin> set line \<Longrightarrow> ledger_ok (read_entry l line)"
  by (auto simp: read_entry_def cap_ok_def split: option.splits
      dest!: split_first_Some stoll_int64 intro!: ledger_ok_put)

lemma ledger_ok_parse:
  assumes "\<forall>l \<in> set lines. LF \<notin> set l"
  shows "ledger_ok (parse_ledger lines)"
proof -
  have empty: "ledger_ok []" by (simp add: ledger_ok_def om_wf_def)
  have "ledger_ok l \<Longrightarrow> \<forall>x \<in> set xs. LF \<notin> set x \<Longrightarrow> ledger_ok (foldl read_entry l xs)" for l xs
    by (induction xs arbitrary: l) (auto simp: ledger_ok_read_entry)
  with empty assms show ?thesis by (auto simp: parse_ledger_def split: list.splits)
qed

lemma read_entry_line:
  assumes "cap_ok k" and "int64_ok t"
  shows "read_entry l (k @ CHR '' '' # dec_of_int t) = om_put k t l"
  using assms split_first_append [of "CHR '' ''" k "dec_of_int t"] stoll_dec_of_int [of t]
  by (simp add: read_entry_def cap_ok_def int64_ok_def)

lemma foldl_read_entry:
  "\<forall>(k, t) \<in> set es. cap_ok k \<and> int64_ok t \<Longrightarrow>
   foldl read_entry l (map (\<lambda>(k, t). k @ CHR '' '' # dec_of_int t) es) =
   foldl (\<lambda>m e. om_put (fst e) (snd e) m) l es"
  by (induction es arbitrary: l) (auto simp: read_entry_line)

lemma parse_ledger_text:
  assumes "ledger_ok l"
  shows "parse_ledger (getlines (ledger_text l)) = l"
proof -
  have "LF \<notin> set kCooldownEnvelope" by (simp add: kCooldownEnvelope_def)
  with assms have "\<forall>x \<in> set (ledger_lines l). LF \<notin> set x"
    using dec_of_int_no_LF by (auto simp: ledger_lines_def ledger_ok_def cap_ok_def)
  then have "getlines (ledger_text l) = ledger_lines l"
    unfolding ledger_text_def by (rule getlines_unlines)
  then show ?thesis
    using assms foldl_read_entry [of l "[]"] foldl_om_put [of "[]" l]
    by (simp add: parse_ledger_def ledger_lines_def ledger_ok_def)
qed

lemma ReadCooldownLedger_ok_iff:
  "ReadCooldownLedger sysmsg io p d = Success l \<longleftrightarrow>
     p \<noteq> [] \<and> \<not> dirs d p \<and> fail_stat io p = None \<and>
     (files d p = None \<and> l = [] \<or>
      files d p \<noteq> None \<and> (\<exists>st. open_read io d p = Inr st \<and> l = parse_ledger (in_lines st)))"
  by (auto simp: ReadCooldownLedger_def is_directory_def path_exists_def
      split: option.splits sum.splits bool.splits)

lemma open_read_no_LF: "open_read io d p = Inr st \<Longrightarrow> x \<in> set (in_lines st) \<Longrightarrow> LF \<notin> set x"
  by (auto simp: open_read_def split: option.splits dest: getlines_no_LF)

lemma ReadCooldownLedger_ledger_ok:
  assumes "ReadCooldownLedger sysmsg io p d = Success l"
  shows "ledger_ok l"
  using assms open_read_no_LF ledger_ok_parse ledger_ok_parse [of "[]"]
  by (auto simp: ReadCooldownLedger_ok_iff parse_ledger_def [of "[]"])

lemma WriteCooldownLedger_ok:
  assumes "WriteCooldownLedger sysmsg io p l d = (Success u, d')"
  shows "p \<noteq> [] \<and> files d' = (files d)(temp_path p := None, p \<mapsto> ledger_text l) \<and> \<not> dirs d' p"
proof -
  from assms obtain d1 where p: "p \<noteq> []" and m: "make_parent io p d = (Inr (), d1)"
    and t: "temp_replace io p (ledger_text l) d1 = (Inr (), d')"
    by (auto simp: WriteCooldownLedger_def split: if_splits prod.splits sum.splits replace_fault.splits)
  from p temp_replace_ok [OF t] temp_replace_ok_dirs [OF t] make_parent_files [OF m] show ?thesis
    by auto
qed

lemma WriteCooldownLedger_fail:
  assumes "WriteCooldownLedger sysmsg io p l d = (Failure e, d')" and "q \<noteq> temp_path p"
  shows "files d' q = files d q"
proof -
  obtain r1 d1 where m: "make_parent io p d = (r1, d1)" by fastforce
  obtain r2 d2 where t: "temp_replace io p (ledger_text l) d1 = (r2, d2)" by fastforce
  from assms(1) m t have "d' = d \<or> d' = d1 \<or> (\<exists>e. r2 = Inl e \<and> d' = d2)"
    by (auto simp: WriteCooldownLedger_def split: if_splits sum.splits replace_fault.splits)
  with make_parent_files [OF m] t assms(2) show ?thesis
    by (auto dest: temp_replace_fail)
qed

interpretation ledger_store: atomic_store "WriteCooldownLedger sysmsg" temp_path ledger_text
  for sysmsg
proof
  show "temp_path p \<noteq> p" for p by simp
  show "WriteCooldownLedger sysmsg io p x d = (Success v, d') \<Longrightarrow>
      files d' = (files d)(temp_path p := None, p \<mapsto> ledger_text x)" for io p x d v d'
    using WriteCooldownLedger_ok by blast
  show "WriteCooldownLedger sysmsg io p x d = (Failure e, d') \<Longrightarrow> q \<noteq> temp_path p \<Longrightarrow>
      files d' q = files d q" for io p x d e d' q
    by (rule WriteCooldownLedger_fail)
qed

lemma read_back:
  assumes "WriteCooldownLedger sysmsg io p l d = (Success u, d')" and "ledger_ok l"
  shows "ReadCooldownLedger sysmsg no_faults p d' = Success l"
  using WriteCooldownLedger_ok [OF assms(1)] parse_ledger_text [OF assms(2)]
  by (auto simp: ReadCooldownLedger_ok_iff open_read_def)

text \<open>
  Whatever fails during a write of the cooldown ledger, a reader of the ledger file
  finds either the complete new ledger (the call reported success) or the old content
  unchanged (the call reported failure), and no other file than the temporary one is
  touched.\<close>
theorem WriteCooldownLedger_all_or_nothing:
  assumes "WriteCooldownLedger sysmsg io p l d = (r, d')"
  shows "files d' p = (if HasValue r then Some (ledger_text l) else files d p) \<and>
    (\<forall>q. q \<noteq> p \<and> q \<noteq> temp_path p \<longrightarrow> files d' q = files d q)"
  using ledger_store.store_all_or_nothing [OF assms] ledger_store.store_frame [OF assms] by blast

theorem WriteCooldownLedger_all_or_nothing_witness:
  "let io = no_faults\<lparr>fail_write := \<lambda>_. Some (7, 112)\<rparr>;
       d = set_file ''gate.txt'' ''old'' empty_disk
   in files (snd (WriteCooldownLedger (\<lambda>_. []) io ''gate.txt'' [(''memory.clean'', 100)] d)) ''gate.txt''
        = Some ''old''"
proof -
  let ?io = "no_faults\<lparr>fail_write := \<lambda>_. Some (7, 112)\<rparr>"
  let ?d = "set_file ''gate.txt'' ''old'' empty_disk"
  let ?x = "WriteCooldownLedger (\<lambda>_. []) ?io ''gate.txt'' [(''memory.clean'', 100)] ?d"
  have "\<not> HasValue (fst ?x)"
    by (simp add: WriteCooldownLedger_def make_parent_def parent_path_def root_path_len_def
        root_name_len_def has_drive_def is_slash_def Let_def temp_replace_def open_write_def
        write_flush_def remove_file_def empty_disk_def)
  with WriteCooldownLedger_all_or_nothing
    [of "\<lambda>_. []" ?io "''gate.txt''" "[(''memory.clean'', 100)]" ?d "fst ?x" "snd ?x"]
  show ?thesis by (simp add: Let_def)
qed

text \<open>
  A ledger that was written successfully is read back exactly, whatever stood in the
  file before.\<close>
theorem CooldownLedger_roundtrip:
  assumes "ledger_ok l" and "WriteCooldownLedger sysmsg io p l d = (Success u, d')"
  shows "ReadCooldownLedger sysmsg no_faults p d' = Success l"
  using read_back [OF assms(2,1)] .

theorem CooldownLedger_roundtrip_witness:
  "ReadCooldownLedger (\<lambda>_. []) no_faults ''gate.txt''
     (snd (WriteCooldownLedger (\<lambda>_. []) no_faults ''gate.txt'' [(''a.b'', 7), (''c'', 1700000000)] empty_disk))
   = Success [(''a.b'', 7), (''c'', 1700000000)]"
proof -
  let ?l = "[(''a.b'', 7), (''c'', 1700000000)] :: CooldownLedger"
  have ok: "ledger_ok ?l"
    by (simp add: ledger_ok_def om_wf_def cap_ok_def int64_ok_def less_char_def)
  let ?x = "WriteCooldownLedger (\<lambda>_. []) no_faults ''gate.txt'' ?l empty_disk"
  have "fst ?x = Success ()"
    by (simp add: WriteCooldownLedger_def make_parent_def parent_path_def root_path_len_def
        root_name_len_def has_drive_def is_slash_def Let_def temp_replace_def open_write_def
        write_flush_def move_replace_def temp_path_def empty_disk_def)
  then have "?x = (Success (), snd ?x)" by (metis prod.collapse)
  then show ?thesis by (rule CooldownLedger_roundtrip [OF ok])
qed

section \<open>The cooldown window\<close>

lemma ledger_ok_WithCooldownRun:
  "ledger_ok l \<Longrightarrow> cap_ok cap \<Longrightarrow> int64_ok now \<Longrightarrow> ledger_ok (WithCooldownRun l cap now)"
  by (auto simp: WithCooldownRun_def ledger_ok_put split: option.splits)

lemma WithCooldownRun_never_shortens:
  "EvaluateCooldownGate (WithCooldownRun l cap now) c t w \<Longrightarrow> EvaluateCooldownGate l c t w"
  by (auto simp: EvaluateCooldownGate_def WithCooldownRun_def om.get_put Let_def
      split: option.splits if_splits)

lemma WithCooldownRun_blocks:
  "cap \<noteq> [] \<Longrightarrow> 0 < now \<Longrightarrow> t < now + w \<Longrightarrow> \<not> EvaluateCooldownGate (WithCooldownRun l cap now) cap t w"
  by (auto simp: EvaluateCooldownGate_def WithCooldownRun_def om.get_put Let_def
      split: option.splits if_splits)

lemma WithCooldownRun_other: "c \<noteq> cap \<Longrightarrow> om_get (WithCooldownRun l cap now) c = om_get l c"
  by (auto simp: WithCooldownRun_def om.get_put split: option.splits)

lemma RecordCooldownRun_cases:
  assumes "RecordCooldownRun sysmsg io p cap now d = (Success u, d')"
  obtains l where "ReadCooldownLedger sysmsg io p d = Success l" "cap \<noteq> []"
    "WriteCooldownLedger sysmsg io p (WithCooldownRun l cap now) d = (Success u, d')"
  using assms by (auto simp: RecordCooldownRun_def split: if_splits sum.splits)

lemma open_read_undisturbed:
  "fail_read io p = None \<Longrightarrow> open_read io d p = Inr st \<Longrightarrow> open_read no_faults d p = Inr st"
  by (auto simp: open_read_def split: option.splits)

lemma ReadCooldownLedger_undisturbed:
  "fail_read io p = None \<Longrightarrow> ReadCooldownLedger sysmsg io p d = Success l \<Longrightarrow>
   ReadCooldownLedger sysmsg no_faults p d = Success l"
  by (auto simp: ReadCooldownLedger_ok_iff dest: open_read_undisturbed)

text \<open>
  C4: Recording a run that succeeded at time \<open>now\<close> blocks the capability until the end of
  its cooldown, also across a restart of the program (the ledger is read back from disk);
  no gate of any capability that was blocked opens earlier, also when the clock was set
  back, and the records of the other capabilities are kept.  The hypothesis on
  \<open>fail_read\<close> excludes a read that breaks off in the middle of the ledger.\<close>
theorem RecordCooldownRun_enforces_window:
  assumes "RecordCooldownRun sysmsg io p cap now d = (Success u, d')"
    and "fail_read io p = None" and "cap_ok cap" and "int64_ok now" and "0 < now"
  shows "\<exists>l l'. ReadCooldownLedger sysmsg no_faults p d = Success l \<and>
    ReadCooldownLedger sysmsg no_faults p d' = Success l' \<and>
    (\<forall>t w. t < now + w \<longrightarrow> \<not> EvaluateCooldownGate l' cap t w) \<and>
    (\<forall>c t w. EvaluateCooldownGate l' c t w \<longrightarrow> EvaluateCooldownGate l c t w) \<and>
    (\<forall>c. c \<noteq> cap \<longrightarrow> om_get l' c = om_get l c)"
proof -
  from assms(1) obtain l where r: "ReadCooldownLedger sysmsg io p d = Success l" and c: "cap \<noteq> []"
    and w: "WriteCooldownLedger sysmsg io p (WithCooldownRun l cap now) d = (Success u, d')"
    by (rule RecordCooldownRun_cases)
  let ?l' = "WithCooldownRun l cap now"
  have "ledger_ok ?l'"
    by (rule ledger_ok_WithCooldownRun [OF ReadCooldownLedger_ledger_ok [OF r] assms(3,4)])
  with w have "ReadCooldownLedger sysmsg no_faults p d' = Success ?l'" by (rule read_back)
  moreover have "ReadCooldownLedger sysmsg no_faults p d = Success l"
    by (rule ReadCooldownLedger_undisturbed [OF assms(2) r])
  ultimately show ?thesis
    using WithCooldownRun_blocks [OF c assms(5)] WithCooldownRun_never_shortens WithCooldownRun_other
    by blast
qed

theorem RecordCooldownRun_enforces_window_witness:
  "\<exists>l'. ReadCooldownLedger (\<lambda>_. []) no_faults ''gate.txt''
      (snd (RecordCooldownRun (\<lambda>_. []) no_faults ''gate.txt'' kMemoryCleanCapabilityId 1000 empty_disk))
      = Success l' \<and> \<not> EvaluateCooldownGate l' kMemoryCleanCapabilityId 1899 kDefaultCooldown"
proof -
  let ?x = "RecordCooldownRun (\<lambda>_. []) no_faults ''gate.txt'' kMemoryCleanCapabilityId 1000 empty_disk"
  have "fst ?x = Success ()"
    by (simp add: RecordCooldownRun_def ReadCooldownLedger_def is_directory_def path_exists_def
        WriteCooldownLedger_def make_parent_def parent_path_def root_path_len_def
        root_name_len_def has_drive_def is_slash_def Let_def temp_replace_def open_write_def
        write_flush_def move_replace_def temp_path_def empty_disk_def kMemoryCleanCapabilityId_def)
  then have "?x = (Success (), snd ?x)" by (metis prod.collapse)
  moreover have "cap_ok kMemoryCleanCapabilityId" "int64_ok 1000"
    by (simp_all add: cap_ok_def int64_ok_def kMemoryCleanCapabilityId_def)
  ultimately obtain l' where
    "ReadCooldownLedger (\<lambda>_. []) no_faults ''gate.txt'' (snd ?x) = Success l'"
    "\<forall>t w. t < 1000 + w \<longrightarrow> \<not> EvaluateCooldownGate l' kMemoryCleanCapabilityId t w"
    using RecordCooldownRun_enforces_window
      [of "\<lambda>_. []" no_faults "''gate.txt''" kMemoryCleanCapabilityId 1000 empty_disk "()" "snd ?x"]
    by auto
  moreover have "(1899::int) < 1000 + kDefaultCooldown" by (simp add: kDefaultCooldown_def)
  ultimately show ?thesis by blast
qed

text \<open>
  The stream error that ends a read early is not tested: recording a run of one
  capability through a read that breaks off after the first line reports success and
  erases the record of another capability, whose gate then opens inside its window.\<close>
theorem RecordCooldownRun_broken_read_erases_records:
  "let d = set_file ''g'' (ledger_text [(''memory.clean'', 1000)]) empty_disk;
       io = no_faults\<lparr>fail_read := \<lambda>_. Some (30, 23)\<rparr>;
       (r, d') = RecordCooldownRun (\<lambda>_. []) io ''g'' ''scheduler.tuner'' 1001 d
   in r = Success () \<and>
      \<not> EvaluateCooldownGate (parse_ledger (getlines (the (files d ''g'')))) ''memory.clean'' 1002 900 \<and>
      EvaluateCooldownGate (parse_ledger (getlines (the (files d' ''g'')))) ''memory.clean'' 1002 900"
  by code_simp

end
