(* ===== verification/Native_Api.thy ===== *)
theory Native_Api
  imports Common_Error
begin

text \<open>
  The read-only view of the platform: \<^verbatim>\<open>include/platform/native_api.hpp\<close> and
  \<^verbatim>\<open>source/platform/native_api.cpp\<close>.  What the system calls would answer is a record of
  values; the probe of the native entry points runs once and its result is kept.
\<close>

record OsVersion =
  os_majorVersion :: u32
  os_minorVersion :: u32
  os_buildNumber :: u32

datatype OsSupport = Supported | UnsupportedVersion | UnsupportedArchitecture

record NativeCapabilities =
  nc_ntdllLoaded :: bool
  nc_querySystemInformation :: bool
  nc_setSystemInformation :: bool
  nc_ntStatusConversion :: bool

text \<open>
  Whether \<^verbatim>\<open>ntdll.dll\<close> is loaded, what it exports, the answer of \<open>RtlGetVersion\<close> (status and
  version), of \<open>GetSystemPowerStatus\<close> (error code or \<open>ACLineStatus\<close>) and the processor
  architecture.
\<close>

record native_env =
  ne_ntdll :: bool
  ne_exports :: "string \<Rightarrow> bool"
  ne_getVersion :: "u32 \<times> OsVersion"
  ne_powerStatus :: "u32 + u8"
  ne_architecture :: u16

definition PROCESSOR_ARCHITECTURE_AMD64 :: u16 where
  "PROCESSOR_ARCHITECTURE_AMD64 = 9"

definition ClassifyOsSupport :: "OsVersion \<Rightarrow> bool \<Rightarrow> OsSupport" where
  "ClassifyOsSupport v nativeX64 =
     (if \<not> nativeX64 then UnsupportedArchitecture
      else if os_majorVersion v \<noteq> 10 \<or> os_minorVersion v \<noteq> 0 \<or> os_buildNumber v < 10240 then UnsupportedVersion
      else Supported)"

definition QueryOsVersion :: "(u32 \<Rightarrow> string) \<Rightarrow> native_env \<Rightarrow> OsVersion result" where
  "QueryOsVersion sysmsg E =
     (if \<not> ne_ntdll E
      then Failure (Error_Unsupported ''GetModuleHandleW(ntdll.dll)''
             ''ntdll.dll is not available in the current process'')
      else if \<not> ne_exports E ''RtlGetVersion''
      then Failure (Error_Unsupported ''RtlGetVersion'' ''RtlGetVersion is not exported by ntdll.dll'')
      else case ne_getVersion E of
             (status, v) \<Rightarrow>
               if status \<noteq> 0 then Failure (FromNtStatus sysmsg status ''RtlGetVersion'') else Success v)"

definition QueryOnBatteryPower :: "(u32 \<Rightarrow> string) \<Rightarrow> native_env \<Rightarrow> bool result" where
  "QueryOnBatteryPower sysmsg E =
     (case ne_powerStatus E of
        Inl c \<Rightarrow> Failure (FromWin32 sysmsg c ''GetSystemPowerStatus'')
      | Inr line \<Rightarrow>
          if line = 255 then Failure (Error_Unsupported ''QueryOnBatteryPower'' ''unknown AC state (ACLineStatus=255)'')
          else Success (line = 0))"

definition IsNativeX64 :: "native_env \<Rightarrow> bool" where
  "IsNativeX64 E \<longleftrightarrow> ne_architecture E = PROCESSOR_ARCHITECTURE_AMD64"

text \<open>The singleton: \<open>None\<close> until the flag of \<open>std::call_once\<close> is set.\<close>

definition no_capabilities :: NativeCapabilities where
  "no_capabilities =
     \<lparr>nc_ntdllLoaded = False, nc_querySystemInformation = False, nc_setSystemInformation = False,
      nc_ntStatusConversion = False\<rparr>"

definition ProbeOnce :: "native_env \<Rightarrow> NativeCapabilities option \<Rightarrow> NativeCapabilities" where
  "ProbeOnce E kept =
     (case kept of
        Some c \<Rightarrow> c
      | None \<Rightarrow>
          if \<not> ne_ntdll E then no_capabilities
          else \<lparr>nc_ntdllLoaded = True,
                nc_querySystemInformation = ne_exports E ''NtQuerySystemInformation'',
                nc_setSystemInformation = ne_exports E ''NtSetSystemInformation'',
                nc_ntStatusConversion = ne_exports E ''RtlNtStatusToDosError''\<rparr>)"

definition Probe ::
  "native_env \<Rightarrow> NativeCapabilities option \<Rightarrow> NativeCapabilities result \<times> NativeCapabilities option" where
  "Probe E kept =
     (let c = ProbeOnce E kept
      in if \<not> nc_ntdllLoaded c
         then (Failure (Error_Unsupported ''GetModuleHandleW(ntdll.dll)''
                 ''ntdll.dll is not available in the current process''), Some c)
         else (Success c, Some c))"

text \<open>A later probe repeats the first answer, whatever the system would say by then.\<close>

lemma Probe_repeats: "Probe E kept = (r, kept') \<Longrightarrow> Probe E' kept' = (r, kept')"
  by (auto simp: Probe_def ProbeOnce_def Let_def split: if_splits)

lemma ClassifyOsSupport_Supported:
  "ClassifyOsSupport v x64 = Supported \<longleftrightarrow>
     x64 \<and> os_majorVersion v = 10 \<and> os_minorVersion v = 0 \<and> 10240 \<le> os_buildNumber v"
  by (auto simp: ClassifyOsSupport_def not_less)

end
