(* ===== verification/User_Activity.thy ===== *)
theory User_Activity
  imports Common_Error
begin

text \<open>
  User activity: \<^verbatim>\<open>include/activity/user_activity.hpp\<close>, \<^verbatim>\<open>source/activity/user_activity.cpp\<close>,
  \<^verbatim>\<open>include/activity/raw_input.hpp\<close> and \<^verbatim>\<open>source/activity/raw_input.cpp\<close>.  The three probes are
  functions on an abstract machine state, sleeping between samples is a change of that state, and a
  call of the sample callback is an entry of a trace.  Ticks are 32-bit words and wrap around.
  Messages that are Chinese in the source are given in English.
\<close>

section \<open>States\<close>

datatype ActivityState = AS_Unknown | AS_Active | AS_Idle | AS_Locked | AS_Disconnected

fun ActivityStateToString :: "ActivityState \<Rightarrow> string" where
  "ActivityStateToString AS_Unknown = ''unknown''"
| "ActivityStateToString AS_Active = ''active''"
| "ActivityStateToString AS_Idle = ''idle''"
| "ActivityStateToString AS_Locked = ''locked''"
| "ActivityStateToString AS_Disconnected = ''disconnected''"

record InputActivitySample =
  ia_nowTick :: u32
  ia_lastInputTick :: u32

datatype SessionLinkState = SL_Unknown | SL_Active | SL_Connected | SL_Disconnected | SL_Idle | SL_Listen

fun SessionLinkStateToString :: "SessionLinkState \<Rightarrow> string" where
  "SessionLinkStateToString SL_Unknown = ''unknown''"
| "SessionLinkStateToString SL_Active = ''active''"
| "SessionLinkStateToString SL_Connected = ''connected''"
| "SessionLinkStateToString SL_Disconnected = ''disconnected''"
| "SessionLinkStateToString SL_Idle = ''idle''"
| "SessionLinkStateToString SL_Listen = ''listen''"

text \<open>The values of \<open>WTS_CONNECTSTATE_CLASS\<close>: active 0, connected 1, disconnected 4, idle 5, listen 6.\<close>

definition LinkStateFromWtsValue :: "int \<Rightarrow> SessionLinkState" where
  "LinkStateFromWtsValue v =
     (if v = 0 then SL_Active else if v = 1 then SL_Connected else if v = 4 then SL_Disconnected
      else if v = 5 then SL_Idle else if v = 6 then SL_Listen else SL_Unknown)"

record SessionContext =
  sx_remoteSession :: bool
  sx_locked :: bool
  sx_link :: SessionLinkState

record ForegroundSample =
  fs_hasWindow :: bool
  fs_pid :: u32

section \<open>The Windows probes\<close>

text \<open>
  What the session queries return: an error code, or the number of bytes with the value read there.
  A connection state takes 4 bytes, the extended information \<open>info_size\<close>.
\<close>

record wts_api =
  wts_remote :: bool
  wts_connect :: "u32 + (nat \<times> int)"
  wts_info :: "u32 + (nat \<times> int \<times> int)"
  wts_info_size :: nat

text \<open>\<open>WTS_SESSIONSTATE_LOCK\<close> is 0.\<close>

definition Win32SessionProbe :: "(u32 \<Rightarrow> string) \<Rightarrow> wts_api \<Rightarrow> SessionContext result" where
  "Win32SessionProbe sysmsg W =
     (case wts_connect W of
        Inl c \<Rightarrow> Failure (FromWin32 sysmsg c ''WTSQuerySessionInformationW(WTSConnectState)'')
      | Inr (n, v) \<Rightarrow>
          if n < 4 then Failure (Error_Validation ''Win32SessionProbe'' ''WTSConnectState is too short'')
          else (case wts_info W of
                  Inl c \<Rightarrow> Failure (FromWin32 sysmsg c ''WTSQuerySessionInformationW(WTSSessionInfoEx)'')
                | Inr (k, level, flags) \<Rightarrow>
                    if k < wts_info_size W \<or> level \<noteq> 1
                    then Failure (Error_Validation ''Win32SessionProbe'' ''WTSSessionInfoEx is not supported (not level 1)'')
                    else Success \<lparr>sx_remoteSession = wts_remote W, sx_locked = (flags = 0),
                                  sx_link = LinkStateFromWtsValue v\<rparr>))"

text \<open>The outcome of \<open>GetLastInputInfo\<close> and the tick count read after it.\<close>

definition Win32LastInputBackend :: "(u32 \<Rightarrow> string) \<Rightarrow> u32 + u32 \<Rightarrow> u32 \<Rightarrow> InputActivitySample result" where
  "Win32LastInputBackend sysmsg info now =
     (case info of
        Inl c \<Rightarrow> Failure (FromWin32 sysmsg c ''GetLastInputInfo'')
      | Inr t \<Rightarrow> Success \<lparr>ia_nowTick = now, ia_lastInputTick = t\<rparr>)"

text \<open>The foreground window, if any, with its process or the error of asking for it.\<close>

definition Win32ForegroundProbe :: "(u32 \<Rightarrow> string) \<Rightarrow> (u32 + u32) option \<Rightarrow> ForegroundSample result" where
  "Win32ForegroundProbe sysmsg w =
     (case w of
        None \<Rightarrow> Success \<lparr>fs_hasWindow = False, fs_pid = 0\<rparr>
      | Some (Inl c) \<Rightarrow> Failure (FromWin32 sysmsg c ''GetWindowThreadProcessId'')
      | Some (Inr pid) \<Rightarrow> Success \<lparr>fs_hasWindow = True, fs_pid = pid\<rparr>)"

section \<open>Classification\<close>

definition TickDeltaMs :: "u32 \<Rightarrow> u32 \<Rightarrow> int" where
  "TickDeltaMs fromTick toTick = (let d = sint (toTick - fromTick) in if d < 0 then 0 else d)"

definition IdleMilliseconds :: "u32 \<Rightarrow> u32 \<Rightarrow> int" where
  "IdleMilliseconds nowTick lastInputTick = TickDeltaMs lastInputTick nowTick"

definition ClassifyActivity :: "u32 \<Rightarrow> u32 \<Rightarrow> int \<Rightarrow> ActivityState" where
  "ClassifyActivity nowTick lastInputTick idleThresholdMs =
     (if idleThresholdMs < 0 then AS_Active
      else if IdleMilliseconds nowTick lastInputTick \<ge> idleThresholdMs then AS_Idle else AS_Active)"

definition ClassifyContextState :: "ActivityState \<Rightarrow> SessionContext \<Rightarrow> ActivityState" where
  "ClassifyContextState inputState c =
     (if sx_link c = SL_Disconnected then AS_Disconnected else if sx_locked c then AS_Locked else inputState)"

section \<open>Observation windows\<close>

text \<open>The probes and the sleep between two samples.\<close>

record 's activity_env =
  QueryInput :: "'s \<Rightarrow> InputActivitySample result \<times> 's"
  QuerySession :: "'s \<Rightarrow> SessionContext result \<times> 's"
  QueryForeground :: "'s \<Rightarrow> ForegroundSample result \<times> 's"
  SleepFor :: "'s \<Rightarrow> 's"

record ActivityWindowSummary =
  aw_samples :: nat
  aw_active :: nat
  aw_idle :: nat
  aw_unknown :: nat

definition observe_one :: "int \<Rightarrow> 's activity_env \<Rightarrow> ActivityWindowSummary \<Rightarrow> 's \<Rightarrow>
    ActivityWindowSummary \<times> (ActivityState \<times> int) \<times> 's" where
  "observe_one threshold E sm s =
     (case QueryInput E s of
        (Inl _, s1) \<Rightarrow>
          (sm\<lparr>aw_samples := aw_samples sm + 1, aw_unknown := aw_unknown sm + 1\<rparr>, (AS_Unknown, 0), s1)
      | (Inr x, s1) \<Rightarrow>
          (let state = ClassifyActivity (ia_nowTick x) (ia_lastInputTick x) threshold;
               idleMs = IdleMilliseconds (ia_nowTick x) (ia_lastInputTick x);
               sm1 = sm\<lparr>aw_samples := aw_samples sm + 1\<rparr>
           in (if state = AS_Idle then sm1\<lparr>aw_idle := aw_idle sm1 + 1\<rparr> else sm1\<lparr>aw_active := aw_active sm1 + 1\<rparr>,
               (state, idleMs), s1)))"

text \<open>\<open>n\<close> samples; the sleep comes between two of them when the interval is positive.\<close>

fun sample_loop :: "('m \<Rightarrow> 's \<Rightarrow> 'm \<times> 'e \<times> 's) \<Rightarrow> ('s \<Rightarrow> 's) \<Rightarrow> nat \<Rightarrow> 'm \<Rightarrow> 's \<Rightarrow> 'm \<times> 'e list \<times> 's" where
  "sample_loop body pause 0 sm s = (sm, [], s)"
| "sample_loop body pause (Suc n) sm s =
     (let (sm1, e, s1) = body sm s; (sm2, es, s2) = sample_loop body pause n sm1 (if n > 0 then pause s1 else s1)
      in (sm2, e # es, s2))"

definition sleep_if :: "'s activity_env \<Rightarrow> int \<Rightarrow> 's \<Rightarrow> 's" where
  "sleep_if E interval s = (if interval > 0 then SleepFor E s else s)"

definition ObserveActivity ::
  "'s activity_env \<Rightarrow> nat \<Rightarrow> int \<Rightarrow> int \<Rightarrow> 's \<Rightarrow> ActivityWindowSummary result \<times> (ActivityState \<times> int) list \<times> 's" where
  "ObserveActivity E sampleCount interval threshold s =
     (if sampleCount = 0 then (Failure (Error_Validation ''ObserveActivity'' ''sampleCount must be positive''), [], s)
      else
        (let (sm, es, s1) = sample_loop (observe_one threshold E) (sleep_if E interval) sampleCount
               \<lparr>aw_samples = 0, aw_active = 0, aw_idle = 0, aw_unknown = 0\<rparr> s
         in (Success sm, es, s1)))"

record ActivityContextSummary =
  ac_samples :: nat
  ac_active :: nat
  ac_idle :: nat
  ac_locked :: nat
  ac_disconnected :: nat
  ac_unknown :: nat

definition count_state :: "ActivityState \<Rightarrow> ActivityContextSummary \<Rightarrow> ActivityContextSummary" where
  "count_state st sm =
     (let sm1 = sm\<lparr>ac_samples := ac_samples sm + 1\<rparr>
      in case st of
           AS_Locked \<Rightarrow> sm1\<lparr>ac_locked := ac_locked sm1 + 1\<rparr>
         | AS_Disconnected \<Rightarrow> sm1\<lparr>ac_disconnected := ac_disconnected sm1 + 1\<rparr>
         | AS_Idle \<Rightarrow> sm1\<lparr>ac_idle := ac_idle sm1 + 1\<rparr>
         | AS_Active \<Rightarrow> sm1\<lparr>ac_active := ac_active sm1 + 1\<rparr>
         | AS_Unknown \<Rightarrow> sm1\<lparr>ac_unknown := ac_unknown sm1 + 1\<rparr>)"

definition empty_context_summary :: ActivityContextSummary where
  "empty_context_summary =
     \<lparr>ac_samples = 0, ac_active = 0, ac_idle = 0, ac_locked = 0, ac_disconnected = 0, ac_unknown = 0\<rparr>"

definition context_one :: "int \<Rightarrow> 's activity_env \<Rightarrow> ActivityContextSummary \<Rightarrow> 's \<Rightarrow>
    ActivityContextSummary \<times> (ActivityState \<times> int) \<times> 's" where
  "context_one threshold E sm s =
     (case QuerySession E s of
        (session, s1) \<Rightarrow>
          (case QueryInput E s1 of
             (inp, s2) \<Rightarrow>
               (case (session, inp) of
                  (Inr c, Inr x) \<Rightarrow>
                    (let state = ClassifyContextState (ClassifyActivity (ia_nowTick x) (ia_lastInputTick x) threshold) c
                     in (count_state state sm, (state, IdleMilliseconds (ia_nowTick x) (ia_lastInputTick x)), s2))
                | _ \<Rightarrow> (count_state AS_Unknown sm, (AS_Unknown, 0), s2))))"

definition ObserveActivityContext ::
  "'s activity_env \<Rightarrow> nat \<Rightarrow> int \<Rightarrow> int \<Rightarrow> 's \<Rightarrow> ActivityContextSummary result \<times> (ActivityState \<times> int) list \<times> 's" where
  "ObserveActivityContext E sampleCount interval threshold s =
     (if sampleCount = 0
      then (Failure (Error_Validation ''ObserveActivityContext'' ''sampleCount must be positive''), [], s)
      else
        (let (sm, es, s1) = sample_loop (context_one threshold E) (sleep_if E interval) sampleCount
               empty_context_summary s
         in (Success sm, es, s1)))"

datatype ForegroundAttribution = FA_NotApplicable | FA_Unknown | FA_NoWindow | FA_Pid

definition IsForegroundAttributable :: "ActivityState \<Rightarrow> bool" where
  "IsForegroundAttributable st \<longleftrightarrow> st = AS_Active \<or> st = AS_Idle"

definition ClassifyForegroundAttribution :: "bool \<Rightarrow> ForegroundAttribution" where
  "ClassifyForegroundAttribution hasWindow = (if hasWindow then FA_Pid else FA_NoWindow)"

record ForegroundAttributionInfo =
  fi_attribution :: ForegroundAttribution
  fi_pid :: u32

record ActivityForegroundSummary =
  af_states :: ActivityContextSummary
  af_attributedPid :: nat
  af_noWindow :: nat
  af_foregroundUnknown :: nat
  af_notApplicable :: nat

definition attribute :: "'s activity_env \<Rightarrow> ActivityState \<Rightarrow> 's \<Rightarrow> ForegroundAttributionInfo \<times> 's" where
  "attribute E st s =
     (if IsForegroundAttributable st
      then (case QueryForeground E s of
              (Inl _, s1) \<Rightarrow> (\<lparr>fi_attribution = FA_Unknown, fi_pid = 0\<rparr>, s1)
            | (Inr f, s1) \<Rightarrow>
                if fs_hasWindow f then (\<lparr>fi_attribution = FA_Pid, fi_pid = fs_pid f\<rparr>, s1)
                else (\<lparr>fi_attribution = FA_NoWindow, fi_pid = 0\<rparr>, s1))
      else (\<lparr>fi_attribution = FA_NotApplicable, fi_pid = 0\<rparr>, s))"

definition count_attribution :: "ForegroundAttribution \<Rightarrow> ActivityForegroundSummary \<Rightarrow> ActivityForegroundSummary" where
  "count_attribution a sm =
     (case a of
        FA_Unknown \<Rightarrow> sm\<lparr>af_foregroundUnknown := af_foregroundUnknown sm + 1\<rparr>
      | FA_Pid \<Rightarrow> sm\<lparr>af_attributedPid := af_attributedPid sm + 1\<rparr>
      | FA_NoWindow \<Rightarrow> sm\<lparr>af_noWindow := af_noWindow sm + 1\<rparr>
      | FA_NotApplicable \<Rightarrow> sm\<lparr>af_notApplicable := af_notApplicable sm + 1\<rparr>)"

text \<open>The state of a sample: the session is missing when its query failed.\<close>

definition sample_state ::
  "int \<Rightarrow> SessionContext option option \<Rightarrow> InputActivitySample result \<Rightarrow> ActivityState \<times> int" where
  "sample_state threshold session inp =
     (case (session, inp) of
        (Some c, Inr x) \<Rightarrow>
          (let st = ClassifyActivity (ia_nowTick x) (ia_lastInputTick x) threshold
           in (case c of None \<Rightarrow> st | Some ctx \<Rightarrow> ClassifyContextState st ctx,
               IdleMilliseconds (ia_nowTick x) (ia_lastInputTick x)))
      | _ \<Rightarrow> (AS_Unknown, 0))"

definition query_session :: "'s activity_env \<Rightarrow> bool \<Rightarrow> 's \<Rightarrow> SessionContext option option \<times> 's" where
  "query_session E withSession s =
     (if withSession
      then (case QuerySession E s of (Inl _, s1) \<Rightarrow> (None, s1) | (Inr c, s1) \<Rightarrow> (Some (Some c), s1))
      else (Some None, s))"

definition foreground_one :: "int \<Rightarrow> 's activity_env \<Rightarrow> bool \<Rightarrow> ActivityForegroundSummary \<Rightarrow> 's \<Rightarrow>
    ActivityForegroundSummary \<times> (ActivityState \<times> int \<times> ForegroundAttributionInfo) \<times> 's" where
  "foreground_one threshold E withSession sm s =
     (case query_session E withSession s of
        (session, s1) \<Rightarrow>
          (case QueryInput E s1 of
             (inp, s2) \<Rightarrow>
               (let (state, idleMs) = sample_state threshold session inp;
                    (info, s3) = attribute E state s2;
                    sm1 = count_attribution (fi_attribution info) sm
                in (sm1\<lparr>af_states := count_state state (af_states sm1)\<rparr>, (state, idleMs, info), s3))))"

definition ObserveActivityForeground ::
  "'s activity_env \<Rightarrow> bool \<Rightarrow> nat \<Rightarrow> int \<Rightarrow> int \<Rightarrow> 's \<Rightarrow>
   ActivityForegroundSummary result \<times> (ActivityState \<times> int \<times> ForegroundAttributionInfo) list \<times> 's" where
  "ObserveActivityForeground E withSession sampleCount interval threshold s =
     (if sampleCount = 0
      then (Failure (Error_Validation ''ObserveActivityForeground'' ''sampleCount must be positive''), [], s)
      else
        (let (sm, es, s1) = sample_loop (foreground_one threshold E withSession) (sleep_if E interval) sampleCount
               \<lparr>af_states = empty_context_summary, af_attributedPid = 0, af_noWindow = 0, af_foregroundUnknown = 0,
                af_notApplicable = 0\<rparr> s
         in (Success sm, es, s1)))"

section \<open>Raw input events\<close>

definition kRawInputMessage :: u32 where "kRawInputMessage = 0xFF"

text \<open>A registration: usage page and usage, flags and target window.\<close>

record RAWINPUTDEVICE =
  rd_usagePage :: u16
  rd_usage :: u16
  rd_flags :: u32
  rd_target :: u64

definition RIDEV_REMOVE :: u32 where "RIDEV_REMOVE = 1"

definition RIDEV_INPUTSINK :: u32 where "RIDEV_INPUTSINK = 0x100"

definition BuildDevices :: "u64 \<Rightarrow> bool \<Rightarrow> bool \<Rightarrow> bool \<Rightarrow> RAWINPUTDEVICE list" where
  "BuildDevices hwnd keyboard mouse remove =
     (let flags = (if remove then RIDEV_REMOVE else RIDEV_INPUTSINK)
      in (if keyboard then [\<lparr>rd_usagePage = 1, rd_usage = 6, rd_flags = flags, rd_target = hwnd\<rparr>] else []) @
         (if mouse then [\<lparr>rd_usagePage = 1, rd_usage = 2, rd_flags = flags, rd_target = hwnd\<rparr>] else []))"

record RawInputEventSource =
  ri_keyboard :: bool
  ri_mouse :: bool
  ri_attached :: bool
  ri_hwnd :: u64
  ri_eventCount :: u64
  ri_lastEventEpochMs :: int

definition RawInputEventSource_new :: "bool \<Rightarrow> bool \<Rightarrow> RawInputEventSource" where
  "RawInputEventSource_new keyboard mouse =
     \<lparr>ri_keyboard = keyboard, ri_mouse = mouse, ri_attached = False, ri_hwnd = 0, ri_eventCount = 0,
      ri_lastEventEpochMs = 0\<rparr>"

text \<open>\<open>register\<close> is \<open>RegisterRawInputDevices\<close>: an error code or success, and the new system state.\<close>

definition Attach ::
  "(u32 \<Rightarrow> string) \<Rightarrow> (RAWINPUTDEVICE list \<Rightarrow> 's \<Rightarrow> u32 option \<times> 's) \<Rightarrow> u64 \<Rightarrow> RawInputEventSource \<Rightarrow> 's \<Rightarrow>
   unit result \<times> RawInputEventSource \<times> 's" where
  "Attach sysmsg register hwnd R s =
     (if hwnd = 0 then (Failure (Error_Validation ''RawInputEventSource::Attach'' ''hwnd must not be null''), R, s)
      else if ri_attached R
        then (Failure (Error_Validation ''RawInputEventSource::Attach'' ''already attached (detach first)''), R, s)
      else
        (let R1 = R\<lparr>ri_attached := True, ri_hwnd := hwnd\<rparr>;
             devices = BuildDevices hwnd (ri_keyboard R) (ri_mouse R) False
         in if devices = [] then (Success (), R1\<lparr>ri_lastEventEpochMs := 0\<rparr>, s)
            else (case register devices s of
                    (Some c, s1) \<Rightarrow>
                      (Failure (FromWin32 sysmsg c ''RegisterRawInputDevices''),
                       R1\<lparr>ri_hwnd := 0, ri_attached := False\<rparr>, s1)
                  | (None, s1) \<Rightarrow> (Success (), R1\<lparr>ri_lastEventEpochMs := 0\<rparr>, s1))))"

definition Detach ::
  "(RAWINPUTDEVICE list \<Rightarrow> 's \<Rightarrow> u32 option \<times> 's) \<Rightarrow> RawInputEventSource \<Rightarrow> 's \<Rightarrow> RawInputEventSource \<times> 's" where
  "Detach register R s =
     (if \<not> ri_attached R then (R, s)
      else
        (let devices = BuildDevices (ri_hwnd R) (ri_keyboard R) (ri_mouse R) True;
             s1 = (if devices \<noteq> [] then snd (register devices s) else s)
         in (R\<lparr>ri_hwnd := 0, ri_attached := False, ri_lastEventEpochMs := 0\<rparr>, s1)))"

definition IsAttached :: "RawInputEventSource \<Rightarrow> bool" where
  "IsAttached R = ri_attached R"

text \<open>\<open>now\<close> is the reading of the steady clock in milliseconds.\<close>

definition OnWindowMessage :: "int \<Rightarrow> u32 \<Rightarrow> RawInputEventSource \<Rightarrow> bool \<times> RawInputEventSource" where
  "OnWindowMessage now message R =
     (if message \<noteq> kRawInputMessage then (False, R)
      else (True, R\<lparr>ri_lastEventEpochMs := now, ri_eventCount := ri_eventCount R + 1\<rparr>))"

definition InputEventCount :: "RawInputEventSource \<Rightarrow> u64" where
  "InputEventCount R = ri_eventCount R"

definition IdleDuration :: "int \<Rightarrow> RawInputEventSource \<Rightarrow> int option" where
  "IdleDuration now R =
     (if ri_lastEventEpochMs R = 0 then None
      else Some (if now \<ge> ri_lastEventEpochMs R then now - ri_lastEventEpochMs R else 0))"

section \<open>Ticks\<close>

lemma sint_of_nat_u32: "n < 2 ^ 31 \<Longrightarrow> sint (of_nat n :: u32) = int n"
  by (simp add: signed_of_nat signed_take_bit_int_eq_self)

lemma sint_of_nat_u32_neg:
  assumes "2 ^ 31 \<le> n" and "n < 2 ^ 32"
  shows "sint (of_nat n :: u32) < 0"
proof -
  have "n div 2 ^ 31 = 1" using assms by (intro div_nat_eqI) simp_all
  then have "int n div 2 ^ 31 = 1" by (simp add: zdiv_int [of n "2 ^ 31", simplified, symmetric])
  then have "bit (int n) 31" by (simp add: bit_iff_odd)
  then show ?thesis by (simp add: signed_of_nat signed_take_bit_negative_iff)
qed

text \<open>
  Idle time is right across the wrap-around of the tick counter.  Whatever the tick of the last
  input, after \<open>n\<close> milliseconds with \<open>n\<close> below \<open>2^31\<close> the idle time is \<open>n\<close> and the user counts
  as idle exactly from the threshold on; from \<open>2^31\<close> to the full period the idle time reads 0 and
  the user counts as active for every positive threshold.\<close>
theorem ClassifyActivity_exact:
  assumes "0 < threshold" and "n < 2 ^ 32"
  shows "IdleMilliseconds (t + of_nat n) t = (if n < 2 ^ 31 then int n else 0) \<and>
    ClassifyActivity (t + of_nat n) t threshold = (if n < 2 ^ 31 \<and> int n \<ge> threshold then AS_Idle else AS_Active)"
proof -
  have d: "(t + of_nat n) - t = of_nat n" by simp
  have idle: "IdleMilliseconds (t + of_nat n) t = (if n < 2 ^ 31 then int n else 0)"
  proof (cases "n < 2 ^ 31")
    case True
    then show ?thesis unfolding IdleMilliseconds_def TickDeltaMs_def d using sint_of_nat_u32 [OF True] by simp
  next
    case False
    then have "sint (of_nat n :: u32) < 0" using sint_of_nat_u32_neg assms(2) by simp
    then show ?thesis unfolding IdleMilliseconds_def TickDeltaMs_def d using False by simp
  qed
  show ?thesis unfolding ClassifyActivity_def idle using assms(1) by auto
qed

theorem ClassifyActivity_exact_witness:
  "ClassifyActivity (0xFFFFFFF0 + of_nat 100) 0xFFFFFFF0 50 = AS_Idle \<and>
   ClassifyActivity (0xFFFFFFF0 + of_nat 40) 0xFFFFFFF0 50 = AS_Active"
  using ClassifyActivity_exact [of 50 100 "0xFFFFFFF0"] ClassifyActivity_exact [of 50 40 "0xFFFFFFF0"] by simp

section \<open>Tallies\<close>

text \<open>A window whose samples change the summary only through the reported event is a tally of its trace.\<close>

lemma sample_loop_tally:
  assumes "\<And>sm s sm' e s'. body sm s = (sm', e, s') \<Longrightarrow> sm' = upd e sm \<and> P e"
    and "sample_loop body pause n sm s = (sm', es, s')"
  shows "sm' = fold upd es sm \<and> length es = n \<and> list_all P es"
  using assms(2)
proof (induction n arbitrary: sm s sm' es s')
  case (Suc n)
  obtain sm1 e s1 where b: "body sm s = (sm1, e, s1)" by (cases "body sm s") auto
  obtain sm2 es2 s2 where l: "sample_loop body pause n sm1 (if n > 0 then pause s1 else s1) = (sm2, es2, s2)"
    by (cases "sample_loop body pause n sm1 (if n > 0 then pause s1 else s1)") auto
  have "sm' = sm2" "es = e # es2" using Suc.prems b l by (simp_all add: Let_def)
  then show ?case using Suc.IH [OF l] assms(1) [OF b] by simp
qed simp

lemma fold_count_state:
  "fold (\<lambda>e. count_state (f e)) es sm =
     \<lparr>ac_samples = ac_samples sm + length es, ac_active = ac_active sm + count_list (map f es) AS_Active,
      ac_idle = ac_idle sm + count_list (map f es) AS_Idle, ac_locked = ac_locked sm + count_list (map f es) AS_Locked,
      ac_disconnected = ac_disconnected sm + count_list (map f es) AS_Disconnected,
      ac_unknown = ac_unknown sm + count_list (map f es) AS_Unknown\<rparr>"
proof (induction es arbitrary: sm)
  case (Cons e es)
  then show ?case by (cases "f e") (simp_all add: count_state_def Let_def)
qed simp

definition fg_update :: "ActivityState \<times> int \<times> ForegroundAttributionInfo \<Rightarrow> ActivityForegroundSummary \<Rightarrow>
    ActivityForegroundSummary" where
  "fg_update e sm =
     (let sm1 = count_attribution (fi_attribution (snd (snd e))) sm
      in sm1\<lparr>af_states := count_state (fst e) (af_states sm1)\<rparr>)"

definition fg_honest :: "ActivityState \<times> int \<times> ForegroundAttributionInfo \<Rightarrow> bool" where
  "fg_honest e \<longleftrightarrow>
     (fi_attribution (snd (snd e)) = FA_NotApplicable \<longleftrightarrow> \<not> IsForegroundAttributable (fst e)) \<and>
     (fi_attribution (snd (snd e)) \<noteq> FA_Pid \<longrightarrow> fi_pid (snd (snd e)) = 0) \<and>
     (fst e = AS_Unknown \<longrightarrow> fst (snd e) = 0)"

lemma attribute_honest:
  assumes "attribute E st s = (info, s')"
  shows "fi_attribution info = FA_NotApplicable \<longleftrightarrow> \<not> IsForegroundAttributable st"
    and "fi_attribution info \<noteq> FA_Pid \<longrightarrow> fi_pid info = 0"
  using assms by (auto simp: attribute_def split: if_splits sum.splits prod.splits)

lemma ClassifyActivity_known: "ClassifyActivity a b t \<noteq> AS_Unknown"
  by (simp add: ClassifyActivity_def)

lemma ClassifyContextState_known: "st \<noteq> AS_Unknown \<Longrightarrow> ClassifyContextState st c \<noteq> AS_Unknown"
  by (simp add: ClassifyContextState_def)

lemma foreground_one_update:
  assumes "foreground_one threshold E ws sm s = (sm', e, s')"
  shows "sm' = fg_update e sm \<and> fg_honest e"
proof -
  obtain session s1 where s1: "query_session E ws s = (session, s1)" by fastforce
  obtain inp s2 where s2: "QueryInput E s1 = (inp, s2)" by fastforce
  obtain st ms where st: "sample_state threshold session inp = (st, ms)" by fastforce
  obtain info s3 where a: "attribute E st s2 = (info, s3)" by fastforce
  have e: "e = (st, ms, info)" "sm' = fg_update (st, ms, info) sm"
    using assms by (auto simp: foreground_one_def s1 s2 st a fg_update_def Let_def)
  have "st = AS_Unknown \<longrightarrow> ms = 0"
    using st ClassifyActivity_known ClassifyContextState_known
    by (auto simp: sample_state_def Let_def split: option.splits sum.splits)
  then show ?thesis using e attribute_honest [OF a] by (simp add: fg_honest_def)
qed

lemma fold_fg_update:
  "fold fg_update es sm =
     \<lparr>af_states = fold (\<lambda>e. count_state (fst e)) es (af_states sm),
      af_attributedPid = af_attributedPid sm + count_list (map (\<lambda>e. fi_attribution (snd (snd e))) es) FA_Pid,
      af_noWindow = af_noWindow sm + count_list (map (\<lambda>e. fi_attribution (snd (snd e))) es) FA_NoWindow,
      af_foregroundUnknown = af_foregroundUnknown sm + count_list (map (\<lambda>e. fi_attribution (snd (snd e))) es) FA_Unknown,
      af_notApplicable = af_notApplicable sm + count_list (map (\<lambda>e. fi_attribution (snd (snd e))) es) FA_NotApplicable\<rparr>"
proof (induction es arbitrary: sm)
  case (Cons e es)
  then show ?case by (cases "fi_attribution (snd (snd e))") (simp_all add: fg_update_def count_attribution_def Let_def)
qed simp

lemma count_attributions:
  "count_list xs FA_Pid + count_list xs FA_NoWindow + count_list xs FA_Unknown + count_list xs FA_NotApplicable = length xs"
proof (induction xs)
  case (Cons x xs)
  then show ?case by (cases x) simp_all
qed simp

text \<open>
  An observation window reports honestly, for all probes: it makes exactly the requested number of
  samples, its summary is the tally of the reported samples, the four kinds of attribution add up to
  all samples, a process id appears only with an attributed foreground window, and a foreground
  window is attributed only while the user is known to be active or idle.\<close>
theorem ObserveActivityForeground_tally:
  assumes "ObserveActivityForeground E withSession n interval threshold s = (Success sm, es, s')"
  shows "length es = n \<and> ac_samples (af_states sm) = n \<and>
    ac_active (af_states sm) = count_list (map fst es) AS_Active \<and>
    ac_idle (af_states sm) = count_list (map fst es) AS_Idle \<and>
    ac_locked (af_states sm) = count_list (map fst es) AS_Locked \<and>
    ac_disconnected (af_states sm) = count_list (map fst es) AS_Disconnected \<and>
    ac_unknown (af_states sm) = count_list (map fst es) AS_Unknown \<and>
    af_attributedPid sm + af_noWindow sm + af_foregroundUnknown sm + af_notApplicable sm = n \<and>
    list_all (\<lambda>(st, ms, info).
      (fi_attribution info = FA_NotApplicable \<longleftrightarrow> st \<notin> {AS_Active, AS_Idle}) \<and>
      (fi_pid info \<noteq> 0 \<longrightarrow> fi_attribution info = FA_Pid)) es"
proof -
  obtain sm0 where loop: "sample_loop (foreground_one threshold E withSession) (sleep_if E interval) n sm0 s = (sm, es, s')"
    and sm0: "sm0 = \<lparr>af_states = empty_context_summary, af_attributedPid = 0, af_noWindow = 0, af_foregroundUnknown = 0,
      af_notApplicable = 0\<rparr>"
    using assms by (auto simp: ObserveActivityForeground_def split: if_splits prod.splits)
  have "sm = fold fg_update es sm0 \<and> length es = n \<and> list_all fg_honest es"
    by (rule sample_loop_tally [OF _ loop]) (rule foreground_one_update)
  then have T: "sm = fold fg_update es sm0" "length es = n" "list_all fg_honest es" by simp_all
  have "list_all (\<lambda>(st, ms, info).
      (fi_attribution info = FA_NotApplicable \<longleftrightarrow> st \<notin> {AS_Active, AS_Idle}) \<and>
      (fi_pid info \<noteq> 0 \<longrightarrow> fi_attribution info = FA_Pid)) es"
    using T(3) by (auto simp: list_all_iff fg_honest_def IsForegroundAttributable_def)
  then show ?thesis
    using T(2) count_attributions [of "map (\<lambda>e. fi_attribution (snd (snd e))) es"]
    unfolding T(1) sm0 fold_fg_update fold_count_state by (simp add: empty_context_summary_def)
qed

text \<open>A user who locks the session after one sample.\<close>

definition demo_env :: "nat activity_env" where
  "demo_env =
     \<lparr>QueryInput = (\<lambda>k. (Success \<lparr>ia_nowTick = 100, ia_lastInputTick = 10\<rparr>, k + 1)),
      QuerySession = (\<lambda>k. (Success \<lparr>sx_remoteSession = False, sx_locked = (k > 0), sx_link = SL_Active\<rparr>, k)),
      QueryForeground = (\<lambda>k. (Success \<lparr>fs_hasWindow = True, fs_pid = 7\<rparr>, k)), SleepFor = (\<lambda>k. k)\<rparr>"

theorem ObserveActivityForeground_tally_witness:
  "\<exists>sm es s'. ObserveActivityForeground demo_env True 2 1 1000 0 = (Success sm, es, s') \<and>
     ac_samples (af_states sm) = 2 \<and> map fst es = [AS_Active, AS_Locked]"
proof -
  have t: "map fst (fst (snd (ObserveActivityForeground demo_env True 2 1 1000 0))) = [AS_Active, AS_Locked]"
    by code_simp
  obtain sm es s' where r: "ObserveActivityForeground demo_env True 2 1 1000 0 = (Success sm, es, s')"
    by (cases "ObserveActivityForeground demo_env True 2 1 1000 0"; cases "fst (ObserveActivityForeground demo_env True 2 1 1000 0)")
      (auto simp: ObserveActivityForeground_def split: prod.splits)
  show ?thesis using ObserveActivityForeground_tally [OF r] t r by simp
qed

text \<open>Without a session the foreground window sees the same states as the plain window.\<close>

lemma foreground_as_plain:
  assumes "\<And>s. snd (QueryForeground E s) = s"
  shows "let (sm, es, s') = sample_loop (foreground_one threshold E False) pause n sm s;
             (sm2, es2, s2) = sample_loop (observe_one threshold E) pause n sm0 s
         in map (\<lambda>(st, ms, info). (st, ms)) es = es2 \<and> s' = s2"
proof (induction n arbitrary: sm sm0 s)
  case (Suc n)
  obtain inp s1 where q: "QueryInput E s = (inp, s1)" by fastforce
  obtain st ms where st: "sample_state threshold (Some None) inp = (st, ms)" by fastforce
  have att: "snd (attribute E st s1) = s1"
    using assms [of s1] by (cases "QueryForeground E s1"; cases "fst (QueryForeground E s1)") (auto simp: attribute_def)
  obtain info where info: "attribute E st s1 = (info, s1)" using att by (metis prod.collapse)
  obtain sm1 where f: "foreground_one threshold E False sm s = (sm1, (st, ms, info), s1)"
    by (simp add: foreground_one_def query_session_def q st info Let_def)
  obtain sm2 where o: "observe_one threshold E sm0 s = (sm2, (st, ms), s1)"
    using st by (cases inp) (auto simp: observe_one_def q sample_state_def Let_def)
  show ?case
    using Suc.IH [of sm1 "if n > 0 then pause s1 else s1" sm2] f o by (auto simp: Let_def split: prod.splits)
qed simp

text \<open>
  Observing with the foreground window but without the session gives the same states and idle times,
  sample by sample, as the plain observation, and leaves the machine in the same state, provided that
  asking for the foreground window does not change it.\<close>
theorem ObserveActivityForeground_refines_plain:
  assumes "\<And>s. snd (QueryForeground E s) = s"
  shows "map (\<lambda>(st, ms, info). (st, ms)) (fst (snd (ObserveActivityForeground E False n interval threshold s))) =
      fst (snd (ObserveActivity E n interval threshold s)) \<and>
    snd (snd (ObserveActivityForeground E False n interval threshold s)) =
      snd (snd (ObserveActivity E n interval threshold s))"
  using foreground_as_plain [OF assms, of threshold "sleep_if E interval" n
      "\<lparr>af_states = empty_context_summary, af_attributedPid = 0, af_noWindow = 0, af_foregroundUnknown = 0,
        af_notApplicable = 0\<rparr>" s "\<lparr>aw_samples = 0, aw_active = 0, aw_idle = 0, aw_unknown = 0\<rparr>"]
  by (auto simp: ObserveActivityForeground_def ObserveActivity_def Let_def split: prod.splits)

theorem ObserveActivityForeground_refines_plain_witness:
  "map fst (fst (snd (ObserveActivity demo_env 1 0 50 0))) = [AS_Idle] \<and>
   map (\<lambda>(st, ms, info). (st, ms)) (fst (snd (ObserveActivityForeground demo_env False 1 0 50 0))) =
     fst (snd (ObserveActivity demo_env 1 0 50 0))"
proof -
  have "map fst (fst (snd (ObserveActivity demo_env 1 0 50 0))) = [AS_Idle]" by code_simp
  then show ?thesis
    using ObserveActivityForeground_refines_plain [of demo_env 1 0 50 0] by (simp add: demo_env_def)
qed

section \<open>Raw input\<close>

fun messages :: "(int \<times> u32) list \<Rightarrow> RawInputEventSource \<Rightarrow> RawInputEventSource" where
  "messages [] R = R"
| "messages ((now, m) # ms) R = messages ms (snd (OnWindowMessage now m R))"

abbreviation inputs :: "(int \<times> u32) list \<Rightarrow> int list" where
  "inputs ms \<equiv> map fst (filter (\<lambda>e. snd e = kRawInputMessage) ms)"

lemma messages_effect:
  "ri_lastEventEpochMs (messages ms R) = (if inputs ms = [] then ri_lastEventEpochMs R else last (inputs ms)) \<and>
   ri_eventCount (messages ms R) = ri_eventCount R + of_nat (length (inputs ms)) \<and>
   ri_attached (messages ms R) = ri_attached R \<and> ri_hwnd (messages ms R) = ri_hwnd R"
  by (induction ms R rule: messages.induct) (auto simp: OnWindowMessage_def)

text \<open>
  Between attaching to a window and detaching, the event source reports no idle time before the first
  input message and afterwards the time since the last one, and it counts exactly the input messages;
  other messages are left to the window.  Attaching fails without a trace when it is refused.\<close>
theorem RawInput_idle_since_last_event:
  assumes "Attach sysmsg register hwnd R s = (r, R1, s1)" and "\<forall>t \<in> set (inputs ms). 0 < t \<and> t \<le> now"
  shows "(r = Success () \<longrightarrow> IsAttached R1 \<and>
      IdleDuration now (messages ms R1) = (if inputs ms = [] then None else Some (now - last (inputs ms))) \<and>
      InputEventCount (messages ms R1) = InputEventCount R + of_nat (length (inputs ms))) \<and>
    (r \<noteq> Success () \<longrightarrow> IsAttached R1 = IsAttached R \<and> IdleDuration now R1 = IdleDuration now R)"
proof -
  have l: "0 < last (inputs ms) \<and> last (inputs ms) \<le> now" if "inputs ms \<noteq> []"
    using assms(2) last_in_set [OF that] by blast
  have r: "r = Success () \<longrightarrow> ri_attached R1 \<and> ri_lastEventEpochMs R1 = 0 \<and> ri_eventCount R1 = ri_eventCount R"
    "r \<noteq> Success () \<longrightarrow> ri_attached R1 = ri_attached R \<and> ri_lastEventEpochMs R1 = ri_lastEventEpochMs R"
    using assms(1) by (auto simp: Attach_def Let_def split: if_splits prod.splits option.splits)
  show ?thesis
    using r l messages_effect [of ms R1] by (auto simp: IsAttached_def IdleDuration_def InputEventCount_def)
qed

theorem RawInput_idle_since_last_event_witness:
  "\<exists>R1. Attach (\<lambda>_. []) (\<lambda>_ s. (None, s)) 9 (RawInputEventSource_new True True) () = (Success (), R1, ()) \<and>
     IdleDuration 50 (messages [(20, 0xFF), (30, 1)] R1) = Some 30"
proof -
  obtain R1 where a: "Attach (\<lambda>_. []) (\<lambda>_ s. (None, s)) 9 (RawInputEventSource_new True True) () = (Success (), R1, ())"
    by (simp add: Attach_def RawInputEventSource_new_def BuildDevices_def Let_def)
  have i: "inputs [(20, 0xFF), (30, 1)] = [20]" by (simp add: kRawInputMessage_def)
  show ?thesis
    using RawInput_idle_since_last_event [OF a, of "[(20, 0xFF), (30, 1)]" 50] a by (simp add: i del: filter.simps messages.simps)
qed

text \<open>
  The documentation of \<open>RegisterRawInputDevices\<close> says that a removal with a target window fails.  Under
  this rule \<open>Detach\<close> removes nothing: the window keeps receiving input.
\<close>

definition documented_register ::
  "RAWINPUTDEVICE list \<Rightarrow> (u16 \<times> u64) list \<Rightarrow> u32 option \<times> (u16 \<times> u64) list" where
  "documented_register ds reg =
     (if list_ex (\<lambda>d. rd_flags d = RIDEV_REMOVE \<and> rd_target d \<noteq> 0) ds then (Some 87, reg)
      else (None, fold (\<lambda>d reg. let rest = filter (\<lambda>e. fst e \<noteq> rd_usage d) reg
              in if rd_flags d = RIDEV_REMOVE then rest else (rd_usage d, rd_target d) # rest) ds reg))"

lemma Detach_keeps_registration:
  assumes "ri_attached R" and "ri_hwnd R \<noteq> 0"
  shows "snd (Detach documented_register R reg) = reg"
  using assms by (auto simp: Detach_def BuildDevices_def documented_register_def Let_def)

end
