(* ===== verification/Cli_World.thy ===== *)
theory Cli_World
  imports Audit_Log Safety_Gates Native_Api User_Activity Console_Output
begin

text \<open>
  What the commands of \<^verbatim>\<open>source/main.cpp\<close> share: the text they print, the files of the user's
  data directory, the journal and the audit of an action, the facts behind the gates and the strict
  argument parsers.  A command takes the fixed surroundings of the process (\<open>cli_params\<close>) and a world:
  the disk, the printed texts in their order, the number of observations made so far and the state
  of the machine the command acts on.  Whatever the command observes is a function of the number of
  observations before it, so that two looks at the clock or at the session may differ.
\<close>

datatype cli_stream = To_Out | To_Err

record 's cli =
  cl_disk :: disk
  cl_lines :: "(cli_stream \<times> string) list"
  cl_ticks :: nat
  cl_machine :: 's

text \<open>
  The surroundings: texts of error codes, file faults, text conversion, the directories, the clock in
  seconds, the time stamp of a log line, the platform, the answer of the session probe (nothing when
  it cannot be made) and the installed forms of the agent (start entry, task, service).
\<close>

record cli_params =
  cp_sysmsg :: "u32 \<Rightarrow> string"
  cp_io :: disk_faults
  cp_codec :: codec
  cp_localAppData :: "string option"
  cp_temp :: string
  cp_time :: "nat \<Rightarrow> int"
  cp_stamp :: "nat \<Rightarrow> string"
  cp_native :: "nat \<Rightarrow> native_env"
  cp_session :: "nat \<Rightarrow> SessionContext result option"
  cp_startupEntry :: "nat \<Rightarrow> string result"
  cp_taskInstalled :: "nat \<Rightarrow> bool result"
  cp_serviceInstalled :: "nat \<Rightarrow> bool result"

section \<open>Printing\<close>

definition WriteLine :: "string \<Rightarrow> 's cli \<Rightarrow> 's cli" where
  "WriteLine t W = W\<lparr>cl_lines := cl_lines W @ [(To_Out, t)]\<rparr>"

definition ErrorLine :: "string \<Rightarrow> 's cli \<Rightarrow> 's cli" where
  "ErrorLine t W = W\<lparr>cl_lines := cl_lines W @ [(To_Err, t)]\<rparr>"

definition tick :: "'s cli \<Rightarrow> 's cli" where
  "tick W = W\<lparr>cl_ticks := cl_ticks W + 1\<rparr>"

text \<open>The bracketed form of an error: domain, code and message.\<close>

definition error_text :: "Error \<Rightarrow> string" where
  "error_text e = ''['' @ ErrorDomain_ToString (err_domain e) @ '':'' @ dec_of_nat (unat (err_code e)) @ ''] '' @ err_message e"

definition main_ToUtf8 :: "cli_params \<Rightarrow> string \<Rightarrow> string" where
  "main_ToUtf8 P t = (case WideToUtf8 (cp_sysmsg P) (cp_codec P) (wide t) of Inl _ \<Rightarrow> [] | Inr s \<Rightarrow> s)"

section \<open>The data directory\<close>

definition MAX_PATH :: nat where "MAX_PATH = 260"

definition DefaultHostConfigPath :: "cli_params \<Rightarrow> path" where
  "DefaultHostConfigPath P =
     (let root = (case cp_localAppData P of
                    Some v \<Rightarrow> if 0 < length v \<and> length v < MAX_PATH then v else cp_temp P
                  | None \<Rightarrow> cp_temp P)
      in path_append (path_append root ''CppOptimizer'') ''config.local.toml'')"

definition data_file :: "cli_params \<Rightarrow> string \<Rightarrow> path" where
  "data_file P n = path_append (parent_path (DefaultHostConfigPath P)) n"

definition DefaultPresenceTimelinePath :: "cli_params \<Rightarrow> path" where
  "DefaultPresenceTimelinePath P = data_file P ''presence-timeline.log''"

definition DefaultCooldownLedgerPath :: "cli_params \<Rightarrow> path" where
  "DefaultCooldownLedgerPath P = data_file P ''gate-cooldowns.txt''"

definition DefaultJournalPath :: "cli_params \<Rightarrow> path" where
  "DefaultJournalPath P = data_file P ''action-journal.log''"

definition DefaultPowerSchemeSavePath :: "cli_params \<Rightarrow> path" where
  "DefaultPowerSchemeSavePath P = data_file P ''power-scheme-save.txt''"

definition DefaultAuditLogPath :: "cli_params \<Rightarrow> path" where
  "DefaultAuditLogPath P = data_file P ''audit.log''"

section \<open>Journal and audit of an action\<close>

definition JournalAction ::
  "cli_params \<Rightarrow> string \<Rightarrow> string \<Rightarrow> bool \<Rightarrow> JournalPhase \<Rightarrow> string \<Rightarrow> 's cli \<Rightarrow> 's cli" where
  "JournalAction P operationId target ok ph detail W =
     (case AppendJournalLine (cp_sysmsg P) (cp_io P) (cp_stamp P (cl_ticks W)) (DefaultJournalPath P) ph operationId
             ok target detail (cl_disk W) of
        (Inl e, d) \<Rightarrow> WriteLine (''  journal  : action not recorded '' @ error_text e) (tick (W\<lparr>cl_disk := d\<rparr>))
      | (Inr _, d) \<Rightarrow> tick (W\<lparr>cl_disk := d\<rparr>))"

definition yes_no_unknown :: "bool result \<Rightarrow> string" where
  "yes_no_unknown r = (case r of Inl _ \<Rightarrow> ''unknown'' | Inr b \<Rightarrow> if b then ''yes'' else ''no'')"

definition DescribeAgentFormsSnapshot :: "cli_params \<Rightarrow> nat \<Rightarrow> string" where
  "DescribeAgentFormsSnapshot P n =
     ''startup_tray='' @ (case cp_startupEntry P n of Inl _ \<Rightarrow> ''unknown'' | Inr v \<Rightarrow> if v = [] then ''no'' else ''yes'') @
     '' task='' @ yes_no_unknown (cp_taskInstalled P n) @
     '' service='' @ yes_no_unknown (cp_serviceInstalled P n)"

definition AuditAction ::
  "cli_params \<Rightarrow> string \<Rightarrow> RiskLevel \<Rightarrow> string \<Rightarrow> bool \<Rightarrow> string \<Rightarrow> string \<Rightarrow> 's cli \<Rightarrow> 's cli" where
  "AuditAction P operationId risk target ok detail postState W =
     (let r = \<lparr>ar_operationId = operationId, ar_risk = risk, ar_caller = ''cli'', ar_target = target, ar_detail = detail,
               ar_ok = ok, ar_at = 0\<rparr>;
          W1 = (case AppendAuditLine (cp_sysmsg P) (cp_io P) (cp_stamp P (cl_ticks W)) (DefaultAuditLogPath P) r (cl_disk W) of
                  (Inl e, d) \<Rightarrow> WriteLine (''  audit    : action not recorded '' @ error_text e) (tick (W\<lparr>cl_disk := d\<rparr>))
                | (Inr _, d) \<Rightarrow> tick (W\<lparr>cl_disk := d\<rparr>));
          W2 = JournalAction P operationId target ok After detail W1
      in JournalAction P operationId target True State
           (if postState = [] then DescribeAgentFormsSnapshot P (cl_ticks W2) else postState) W2)"

text \<open>An operation of the machine, in the world of the command.\<close>

definition on_machine :: "('s \<Rightarrow> 'a \<times> 's) \<Rightarrow> 's cli \<Rightarrow> 'a \<times> 's cli" where
  "on_machine f W = (case f (cl_machine W) of (r, m) \<Rightarrow> (r, W\<lparr>cl_machine := m\<rparr>))"

definition probe_audit :: "cli_params \<Rightarrow> 's cli \<Rightarrow> bool \<times> 's cli" where
  "probe_audit P W =
     (case ProbeAuditWritable (cp_sysmsg P) (cp_io P) (DefaultAuditLogPath P) (cl_disk W) of
        (r, d) \<Rightarrow> (HasValue r, tick (W\<lparr>cl_disk := d\<rparr>)))"

section \<open>Facts behind the gates\<close>

definition GatherEnvironmentFacts :: "cli_params \<Rightarrow> nat \<Rightarrow> EnvironmentFacts" where
  "GatherEnvironmentFacts P n =
     (let E = cp_native P n;
          version = QueryOsVersion (cp_sysmsg P) E;
          battery = QueryOnBatteryPower (cp_sysmsg P) E;
          session = (case cp_session P n of Some (Inr c) \<Rightarrow> Some c | _ \<Rightarrow> None)
      in \<lparr>ef_factsKnown = HasValue version \<and> HasValue battery \<and> session \<noteq> None,
          ef_osSupported = (case version of Inl _ \<Rightarrow> False | Inr v \<Rightarrow> ClassifyOsSupport v (IsNativeX64 E) = Supported),
          ef_onBattery = (case battery of Inl _ \<Rightarrow> False | Inr b \<Rightarrow> b),
          ef_remoteSession = (case session of None \<Rightarrow> False | Some c \<Rightarrow> sx_remoteSession c),
          ef_sessionLocked = (case session of None \<Rightarrow> False | Some c \<Rightarrow> sx_locked c),
          ef_interactiveSession = (session \<noteq> None)\<rparr>)"

definition FirstBlockingGateName :: "GateEvaluation \<Rightarrow> string" where
  "FirstBlockingGateName g = (case ge_firstBlocking g of None \<Rightarrow> ''unknown'' | Some x \<Rightarrow> GateIdToString x)"

text \<open>The cooldown gate reads the ledger and then the clock; an unreadable ledger closes it.\<close>

definition cooldown_gate :: "cli_params \<Rightarrow> string \<Rightarrow> 's cli \<Rightarrow> bool" where
  "cooldown_gate P capabilityId W =
     (case ReadCooldownLedger (cp_sysmsg P) (cp_io P) (DefaultCooldownLedgerPath P) (cl_disk W) of
        Inl _ \<Rightarrow> False
      | Inr ledger \<Rightarrow> EvaluateCooldownGate ledger capabilityId (cp_time P (cl_ticks W)) kDefaultCooldown)"

section \<open>Arguments\<close>

text \<open>
  \<open>std::wcstoul\<close> with base 10 and a 32-bit result: leading white space and a sign are taken, a value
  that does not fit becomes the largest one, a minus negates the result; with the rest of the text.
\<close>

definition wcstoul10 :: "string \<Rightarrow> (u32 \<times> string) option" where
  "wcstoul10 s =
     (let t = dropWhile is_space s;
          neg = (t \<noteq> [] \<and> hd t = CHR ''-'');
          u = (if t \<noteq> [] \<and> (hd t = CHR ''-'' \<or> hd t = CHR ''+'') then tl t else t);
          ds = takeWhile is_digit u;
          n = dec_val 0 ds
      in if ds = [] then None
         else Some (if n > 4294967295 then 4294967295 else if neg then - of_nat n else of_nat n, drop (length ds) u))"

definition ParseUint32 :: "string \<Rightarrow> u32 option" where
  "ParseUint32 text =
     (case wcstoul10 text of
        None \<Rightarrow> None
      | Some (v, rest) \<Rightarrow> if rest \<noteq> [] then None else if unat v > 4294967295 then None else Some v)"

definition AsciiEqualsIgnoreCaseW :: "string \<Rightarrow> string \<Rightarrow> bool" where
  "AsciiEqualsIgnoreCaseW a b \<longleftrightarrow> length a = length b \<and> list_all2 (\<lambda>x y. to_lower x = to_lower y) a b"

section \<open>Laws\<close>

lemma cli_output_simps [simp]:
  "cl_disk (WriteLine t W) = cl_disk W" "cl_machine (WriteLine t W) = cl_machine W" "cl_ticks (WriteLine t W) = cl_ticks W"
  "cl_disk (ErrorLine t W) = cl_disk W" "cl_machine (ErrorLine t W) = cl_machine W" "cl_ticks (ErrorLine t W) = cl_ticks W"
  "cl_disk (tick W) = cl_disk W" "cl_machine (tick W) = cl_machine W" "cl_ticks (tick W) = cl_ticks W + 1"
  "cl_lines (tick W) = cl_lines W"
  "cl_lines (WriteLine t W) = cl_lines W @ [(To_Out, t)]" "cl_lines (ErrorLine t W) = cl_lines W @ [(To_Err, t)]"
  by (simp_all add: WriteLine_def ErrorLine_def tick_def)

lemma path_append_inj [simp]: "path_append p m = path_append p n \<longleftrightarrow> m = n"
  by (simp add: path_append_def)

lemma path_append_temp [simp]: "path_append p m = temp_path (path_append p n) \<longleftrightarrow> m = n @ ''.tmp''"
  by (simp add: path_append_def temp_path_def)

lemma data_paths_distinct [simp]:
  "DefaultCooldownLedgerPath P \<noteq> DefaultJournalPath P" "DefaultCooldownLedgerPath P \<noteq> DefaultAuditLogPath P"
  "DefaultAuditLogPath P \<noteq> DefaultJournalPath P" "DefaultJournalPath P \<noteq> DefaultAuditLogPath P"
  "DefaultPowerSchemeSavePath P \<noteq> DefaultJournalPath P" "DefaultPowerSchemeSavePath P \<noteq> DefaultAuditLogPath P"
  "DefaultAuditLogPath P \<noteq> DefaultCooldownLedgerPath P" "DefaultJournalPath P \<noteq> DefaultCooldownLedgerPath P"
  "DefaultPowerSchemeSavePath P \<noteq> DefaultCooldownLedgerPath P"
  "DefaultAuditLogPath P \<noteq> temp_path (DefaultCooldownLedgerPath P)"
  "DefaultPowerSchemeSavePath P \<noteq> temp_path (DefaultCooldownLedgerPath P)"
  by (simp_all add: DefaultCooldownLedgerPath_def DefaultJournalPath_def DefaultAuditLogPath_def
      DefaultPowerSchemeSavePath_def data_file_def)

text \<open>Recording an action touches the two logs and nothing else.\<close>

lemma JournalAction_frame:
  shows "cl_machine (JournalAction P op target ok ph detail W) = cl_machine W"
    and "q \<noteq> DefaultJournalPath P \<Longrightarrow> files (cl_disk (JournalAction P op target ok ph detail W)) q = files (cl_disk W) q"
proof -
  obtain r d where a: "AppendJournalLine (cp_sysmsg P) (cp_io P) (cp_stamp P (cl_ticks W)) (DefaultJournalPath P) ph op ok
      target detail (cl_disk W) = (r, d)" by fastforce
  show "cl_machine (JournalAction P op target ok ph detail W) = cl_machine W"
    by (cases r) (simp_all add: JournalAction_def a)
  show "files (cl_disk (JournalAction P op target ok ph detail W)) q = files (cl_disk W) q" if "q \<noteq> DefaultJournalPath P"
  proof -
    have "files d q = files (cl_disk W) q"
      by (rule journal_file.append_frame [where x = "(ph, op, ok, target, detail)", OF _ that]) (simp, rule a)
    then show ?thesis by (cases r) (simp_all add: JournalAction_def a)
  qed
qed


lemma AuditAction_frame:
  shows "cl_machine (AuditAction P op risk target ok detail post W) = cl_machine W"
    and "q \<noteq> DefaultJournalPath P \<Longrightarrow> q \<noteq> DefaultAuditLogPath P \<Longrightarrow>
      files (cl_disk (AuditAction P op risk target ok detail post W)) q = files (cl_disk W) q"
proof -
  let ?r = "\<lparr>ar_operationId = op, ar_risk = risk, ar_caller = ''cli'', ar_target = target, ar_detail = detail, ar_ok = ok, ar_at = 0\<rparr>"
  obtain r d where a: "AppendAuditLine (cp_sysmsg P) (cp_io P) (cp_stamp P (cl_ticks W)) (DefaultAuditLogPath P) ?r (cl_disk W) = (r, d)"
    by fastforce
  show "cl_machine (AuditAction P op risk target ok detail post W) = cl_machine W"
    by (cases r) (simp_all add: AuditAction_def a Let_def JournalAction_frame)
  show "files (cl_disk (AuditAction P op risk target ok detail post W)) q = files (cl_disk W) q"
    if "q \<noteq> DefaultJournalPath P" and "q \<noteq> DefaultAuditLogPath P"
  proof -
    have "files d q = files (cl_disk W) q"
      by (rule audit_file.append_frame [where x = ?r, OF _ that(2)]) (rule a)
    then show ?thesis using that(1) by (cases r) (simp_all add: AuditAction_def a Let_def JournalAction_frame)
  qed
qed

lemma ProbeAuditWritable_frame:
  assumes "ProbeAuditWritable sysmsg io p d = (r, d')" and "q \<noteq> p"
  shows "files d' q = files d q"
proof -
  obtain m d1 where m: "make_parent io p d = (m, d1)" by fastforce
  obtain w d2 where w: "open_write io p True d1 = (w, d2)" by fastforce
  have "files d1 = files d" by (rule make_parent_files [OF m])
  moreover have "files d2 q = files d1 q" using w by (cases rule: open_write_cases) (use assms(2) in auto)
  ultimately show ?thesis using assms(1) m w
    by (cases m; cases w) (auto simp: ProbeAuditWritable_def split: if_splits)
qed

lemma probe_audit_machine: "probe_audit P W = (b, W') \<Longrightarrow> cl_machine W' = cl_machine W"
  by (auto simp: probe_audit_def split: prod.splits)

lemma fold_WriteLine_machine [simp]: "cl_machine (fold WriteLine ts W) = cl_machine W"
  by (induction ts arbitrary: W) simp_all

lemma unat_u32_not_big [simp]: "\<not> 4294967295 < unat (v :: u32)"
  using unat_u32_less [of v] by simp

text \<open>
  Every 32-bit number is read back from its decimal text.\<close>
theorem ParseUint32_dec: "ParseUint32 (dec_of_nat (unat v)) = Some v"
proof -
  let ?s = "dec_of_nat (unat v)"
  obtain c r where s: "?s = c # r" using dec_of_nat_ne by (cases ?s) auto
  have d: "\<forall>x \<in> set ?s. is_digit x" by (rule dec_of_nat_digits)
  then have c: "is_digit c" using s by simp
  then have h: "\<not> is_space c" "c \<noteq> CHR ''-''" "c \<noteq> CHR ''+''" by (auto simp: is_digit_def)
  have t: "takeWhile is_digit ?s = ?s" using d by (simp add: takeWhile_eq_all_conv)
  have n: "dec_val 0 ?s = unat v" by simp
  have "wcstoul10 ?s = Some (v, [])"
    unfolding wcstoul10_def Let_def using s h t n unat_u32_less [of v] by simp
  then show ?thesis using unat_u32_less [of v] by (simp add: ParseUint32_def)
qed

text \<open>The parser is not strict: a sign and leading blanks pass, and what does not fit is cut to the largest value.\<close>

lemma ParseUint32_lenient:
  "ParseUint32 ''-1'' = Some 4294967295" "ParseUint32 ''  +7'' = Some 7" "ParseUint32 ''99999999999'' = Some 4294967295"
  "ParseUint32 ''7x'' = None" "ParseUint32 [] = None"
  by (simp_all add: ParseUint32_def wcstoul10_def Let_def is_space_def is_digit_def digit_val_def)


section \<open>A process without faults\<close>

text \<open>
  Files and directories behave, the data directory is \<^verbatim>\<open>CppOptimizer\<close> below the current directory, and
  there is no other directory: every record of an action succeeds and prints nothing.
\<close>

definition calm :: "cli_params \<Rightarrow> bool" where
  "calm P \<longleftrightarrow> cp_io P = no_faults \<and> cp_localAppData P = None \<and> cp_temp P = []"

definition calm_disk :: "disk \<Rightarrow> bool" where
  "calm_disk d \<longleftrightarrow> (\<forall>q. dirs d q \<longrightarrow> q = ''CppOptimizer'')"

abbreviation in_data :: "string \<Rightarrow> path" where
  "in_data n \<equiv> ''CppOptimizer'' @ [CHR 0x5C] @ n"

lemma path_simps:
  "root_name_len ''CppOptimizer'' = 0" "is_slash (last ''CppOptimizer'') = False"
  "parent_path (in_data ''config.local.toml'') = ''CppOptimizer''"
  "parent_path (in_data ''audit.log'') = ''CppOptimizer''"
  "parent_path (in_data ''action-journal.log'') = ''CppOptimizer''"
  "parent_path (in_data ''gate-cooldowns.txt'') = ''CppOptimizer''"
  "parent_path (in_data ''power-scheme-save.txt'') = ''CppOptimizer''"
  "ancestors ''CppOptimizer'' = [''CppOptimizer'']"
  by code_simp+

lemma calm_data_file: "calm P \<Longrightarrow> data_file P n = in_data n"
proof -
  assume c: "calm P"
  have "path_append [] ''CppOptimizer'' = ''CppOptimizer''" by (simp add: path_append_def root_name_len_def)
  moreover have a: "path_append ''CppOptimizer'' m = in_data m" for m
    unfolding path_append_def path_simps by simp
  ultimately have "DefaultHostConfigPath P = in_data ''config.local.toml''"
    using c by (simp add: DefaultHostConfigPath_def calm_def)
  then show ?thesis unfolding data_file_def by (simp only: path_simps a)
qed

lemma calm_parents:
  assumes "calm P"
  shows "parent_path (DefaultAuditLogPath P) = ''CppOptimizer''" "parent_path (DefaultJournalPath P) = ''CppOptimizer''"
    "parent_path (DefaultCooldownLedgerPath P) = ''CppOptimizer''" "parent_path (DefaultPowerSchemeSavePath P) = ''CppOptimizer''"
  unfolding DefaultAuditLogPath_def DefaultJournalPath_def DefaultCooldownLedgerPath_def DefaultPowerSchemeSavePath_def
    calm_data_file [OF assms] by (rule path_simps)+

lemma calm_make_parent:
  "parent_path p = ''CppOptimizer'' \<Longrightarrow> calm_disk d \<Longrightarrow>
     \<exists>d'. make_parent no_faults p d = (Inr (), d') \<and> files d' = files d \<and> calm_disk d'"
  by (auto simp: make_parent_def create_directories_named path_simps calm_disk_def)

lemma calm_append_text:
  assumes "parent_path p = ''CppOptimizer''" and "p \<noteq> ''CppOptimizer''" and "calm_disk d"
  shows "\<exists>d'. append_text no_faults p s d = (Inr (), d') \<and> calm_disk d'"
proof -
  obtain d1 where m: "make_parent no_faults p d = (Inr (), d1)" "calm_disk d1" using calm_make_parent [OF assms(1,3)] by blast
  then have "\<not> dirs d1 p" using assms(2) by (auto simp: calm_disk_def)
  then show ?thesis using m by (auto simp: append_text_def open_write_def write_flush_def calm_disk_def split: option.splits)
qed

lemma calm_paths_other:
  assumes "calm P"
  shows "data_file P n \<noteq> ''CppOptimizer''" "data_file P n \<noteq> []" "temp_path (data_file P n) \<noteq> ''CppOptimizer''"
  by (simp_all add: calm_data_file [OF assms] temp_path_def)

lemmas calm_logs = DefaultJournalPath_def DefaultAuditLogPath_def DefaultCooldownLedgerPath_def DefaultPowerSchemeSavePath_def

lemma calm_JournalAction:
  assumes "calm P" and "calm_disk (cl_disk W)"
  shows "calm_disk (cl_disk (JournalAction P op target ok ph detail W)) \<and>
    cl_lines (JournalAction P op target ok ph detail W) = cl_lines W"
proof -
  have io: "cp_io P = no_faults" using assms(1) by (simp add: calm_def)
  have n: "DefaultJournalPath P \<noteq> ''CppOptimizer''" "DefaultJournalPath P \<noteq> []"
    using calm_paths_other [OF assms(1)] by (simp_all add: DefaultJournalPath_def)
  from calm_append_text [OF calm_parents(2) [OF assms(1)] n(1) assms(2)]
  obtain d where "append_text no_faults (DefaultJournalPath P) (journal_line (cp_stamp P (cl_ticks W)) ph op ok target detail @ [LF])
      (cl_disk W) = (Inr (), d)" "calm_disk d" by blast
  then show ?thesis using n(2) io by (simp add: JournalAction_def AppendJournalLine_def)
qed

lemma calm_AuditAction:
  assumes "calm P" and "calm_disk (cl_disk W)"
  shows "calm_disk (cl_disk (AuditAction P op risk target ok detail post W)) \<and>
    cl_lines (AuditAction P op risk target ok detail post W) = cl_lines W"
proof -
  let ?r = "\<lparr>ar_operationId = op, ar_risk = risk, ar_caller = ''cli'', ar_target = target, ar_detail = detail, ar_ok = ok, ar_at = 0\<rparr>"
  have io: "cp_io P = no_faults" using assms(1) by (simp add: calm_def)
  have n: "DefaultAuditLogPath P \<noteq> ''CppOptimizer''" "DefaultAuditLogPath P \<noteq> []"
    using calm_paths_other [OF assms(1)] by (simp_all add: DefaultAuditLogPath_def)
  from calm_append_text [OF calm_parents(1) [OF assms(1)] n(1) assms(2)]
  obtain d where d: "append_text no_faults (DefaultAuditLogPath P) (FormatAuditLineAscii (cp_stamp P (cl_ticks W)) ?r @ [LF])
      (cl_disk W) = (Inr (), d)" "calm_disk d" by blast
  let ?W1 = "tick (W\<lparr>cl_disk := d\<rparr>)"
  define W2 where "W2 = JournalAction P op target ok After detail ?W1"
  define t where "t = (if post = [] then DescribeAgentFormsSnapshot P (cl_ticks W2) else post)"
  have "AuditAction P op risk target ok detail post W = JournalAction P op target True State t W2"
    using d n(2) io unfolding t_def W2_def by (simp add: AuditAction_def AppendAuditLine_def Let_def)
  moreover have "calm_disk (cl_disk W2) \<and> cl_lines W2 = cl_lines W"
    using calm_JournalAction [OF assms(1), of ?W1 op target ok After detail] d(2) unfolding W2_def by simp
  ultimately show ?thesis using calm_JournalAction [OF assms(1), of W2 op target True State t] by simp
qed

lemma calm_probe:
  assumes "calm P" and "calm_disk d"
  shows "\<exists>d'. ProbeAuditWritable sysmsg (cp_io P) (DefaultAuditLogPath P) d = (Success (), d') \<and> calm_disk d'"
proof -
  have n: "DefaultAuditLogPath P \<noteq> ''CppOptimizer''" "DefaultAuditLogPath P \<noteq> []"
    using calm_paths_other [OF assms(1)] by (simp_all add: DefaultAuditLogPath_def)
  obtain d1 where m: "make_parent no_faults (DefaultAuditLogPath P) d = (Inr (), d1)" "calm_disk d1"
    using calm_make_parent [OF calm_parents(1) [OF assms(1)] assms(2)] by blast
  then have "\<not> dirs d1 (DefaultAuditLogPath P)" using n(1) by (auto simp: calm_disk_def)
  then show ?thesis using m n(2) assms(1)
    by (auto simp: ProbeAuditWritable_def open_write_def calm_def calm_disk_def split: option.splits)
qed

lemma calm_probe_audit:
  assumes "calm P" and "calm_disk (cl_disk W)"
  shows "\<exists>W1. probe_audit P W = (True, W1) \<and> calm_disk (cl_disk W1) \<and> cl_machine W1 = cl_machine W"
  using calm_probe [OF assms, of "cp_sysmsg P"] by (auto simp: probe_audit_def)

lemma calm_record:
  assumes "calm P" and "calm_disk d" and "cap \<noteq> []"
  shows "\<exists>d'. RecordCooldownRun sysmsg (cp_io P) (DefaultCooldownLedgerPath P) cap now d = (Success (), d') \<and> calm_disk d'"
proof -
  let ?p = "DefaultCooldownLedgerPath P"
  have n: "?p \<noteq> ''CppOptimizer''" "?p \<noteq> []" "temp_path ?p \<noteq> ''CppOptimizer''"
    using calm_paths_other [OF assms(1)] by (simp_all add: DefaultCooldownLedgerPath_def)
  have io: "cp_io P = no_faults" using assms(1) by (simp add: calm_def)
  have "\<exists>l. ReadCooldownLedger sysmsg no_faults ?p d = Success l"
    using n assms(2) by (cases "files d ?p") (auto simp: ReadCooldownLedger_ok_iff open_read_def calm_disk_def)
  then obtain l where r: "ReadCooldownLedger sysmsg no_faults ?p d = Success l" ..
  obtain d1 where m: "make_parent no_faults ?p d = (Inr (), d1)" "calm_disk d1"
    using calm_make_parent [OF calm_parents(3) [OF assms(1)] assms(2)] by blast
  obtain w d2 where t: "temp_replace no_faults ?p (ledger_text (WithCooldownRun l cap now)) d1 = (w, d2)" by fastforce
  have "w = Inr ()" using temp_replace_no_faults [of d1 ?p "ledger_text (WithCooldownRun l cap now)"] m(2) n t
    by (auto simp: calm_disk_def)
  moreover have "calm_disk d2" using temp_replace_dirs [of no_faults ?p "ledger_text (WithCooldownRun l cap now)" d1] t m(2)
    by (simp add: calm_disk_def)
  ultimately show ?thesis using r m(1) t n(2) assms(3) io by (simp add: RecordCooldownRun_def WriteCooldownLedger_def)
qed


lemma calm_cooldown_open:
  assumes "calm P" and "calm_disk (cl_disk W)" and "files (cl_disk W) (DefaultCooldownLedgerPath P) = None"
  shows "cooldown_gate P cap W"
proof -
  have "\<not> dirs (cl_disk W) (DefaultCooldownLedgerPath P)" "DefaultCooldownLedgerPath P \<noteq> []"
    using assms(2) calm_paths_other [OF assms(1)] by (auto simp: calm_disk_def DefaultCooldownLedgerPath_def)
  then have "ReadCooldownLedger (cp_sysmsg P) (cp_io P) (DefaultCooldownLedgerPath P) (cl_disk W) = Success []"
    using assms(1,3) by (simp add: ReadCooldownLedger_ok_iff calm_def)
  then show ?thesis by (simp add: cooldown_gate_def EvaluateCooldownGate_def om_get_def)
qed

text \<open>A calm process on a supported machine.\<close>

definition calm_native :: native_env where
  "calm_native =
     \<lparr>ne_ntdll = True, ne_exports = \<lambda>_. True,
      ne_getVersion = (0, \<lparr>os_majorVersion = 10, os_minorVersion = 0, os_buildNumber = 19045\<rparr>), ne_powerStatus = Inr 1,
      ne_architecture = PROCESSOR_ARCHITECTURE_AMD64\<rparr>"

definition calm_cli :: cli_params where
  "calm_cli =
     \<lparr>cp_sysmsg = \<lambda>_. [], cp_io = no_faults, cp_codec = byte_codec, cp_localAppData = None, cp_temp = [],
      cp_time = \<lambda>_. 5, cp_stamp = \<lambda>_. ''now'', cp_native = \<lambda>_. calm_native,
      cp_session = \<lambda>_. Some (Success \<lparr>sx_remoteSession = False, sx_locked = False, sx_link = SL_Active\<rparr>),
      cp_startupEntry = \<lambda>_. Success [], cp_taskInstalled = \<lambda>_. Success False, cp_serviceInstalled = \<lambda>_. Success False\<rparr>"

lemma calm_calm_cli: "calm calm_cli"
  by (simp add: calm_def calm_cli_def)

lemma calm_environment: "EvaluateEnvironmentGate (GatherEnvironmentFacts calm_cli n)"
  by (simp add: EvaluateEnvironmentGate_def GatherEnvironmentFacts_def calm_cli_def calm_native_def QueryOsVersion_def
      QueryOnBatteryPower_def ClassifyOsSupport_def IsNativeX64_def Let_def)

end
