(* ===== verification/Memory_Cleaner.thy ===== *)
theory Memory_Cleaner
  imports Config_Manager
begin

text \<open>
  Memory observation and cleaning: \<^verbatim>\<open>source/memory/memory_tuner.cpp\<close>,
  \<^verbatim>\<open>source/memory/working_set.cpp\<close>, \<^verbatim>\<open>source/memory/memory_cleaner.cpp\<close> and
  \<^verbatim>\<open>source/memory/system_clean_backend.cpp\<close> with their headers.  A clean backend is a function on a
  machine state \<open>'s\<close>; the Win32 and native calls behind the two real backends are the record
  \<open>memory_api\<close> of functions on that state.
\<close>

section \<open>Readings of the physical memory\<close>

record MemoryStatus =
  ms_totalPhysicalBytes :: u64
  ms_availablePhysicalBytes :: u64
  ms_usedPhysicalBytes :: u64
  ms_memoryLoadPercent :: u32
  ms_sampledAt :: int

definition BuildMemoryStatus :: "u64 \<Rightarrow> u64 \<Rightarrow> u32 \<Rightarrow> int \<Rightarrow> MemoryStatus result" where
  "BuildMemoryStatus totalPhys available load at =
     (if totalPhys = 0
      then Failure (Error_Validation ''BuildMemoryStatus.totalPhysicalBytes''
             ''Total physical memory must be greater than zero'')
      else if available > totalPhys
      then Failure (Error_Validation ''BuildMemoryStatus.availablePhysicalBytes''
             ''Available physical memory cannot exceed total physical memory'')
      else if load > 100
      then Failure (Error_Validation ''BuildMemoryStatus.memoryLoadPercent''
             ''Memory load percent must be in the range 0 to 100'')
      else Success \<lparr>ms_totalPhysicalBytes = totalPhys, ms_availablePhysicalBytes = available,
             ms_usedPhysicalBytes = totalPhys - available, ms_memoryLoadPercent = load, ms_sampledAt = at\<rparr>)"

text \<open>One decimal of \<open>bytes / divisor\<close>, in 64-bit arithmetic.\<close>

definition ScaleToTenths :: "u64 \<Rightarrow> u64 \<Rightarrow> u64 \<times> u64" where
  "ScaleToTenths bytes divisor =
     (let whole = bytes div divisor; remainder = bytes mod divisor;
          tenths = (remainder * 10 + divisor div 2) div divisor
      in if tenths = 10 then (whole + 1, 0) else (whole, tenths))"

definition kKiB :: u64 where "kKiB = 1024"
definition kMiB :: u64 where "kMiB = kKiB * 1024"
definition kGiB :: u64 where "kGiB = kMiB * 1024"
definition kTiB :: u64 where "kTiB = kGiB * 1024"

definition kUnits :: "(u64 \<times> string) list" where
  "kUnits = [(kTiB, ''TiB''), (kGiB, ''GiB''), (kMiB, ''MiB''), (kKiB, ''KiB'')]"

fun format_unit :: "u64 \<Rightarrow> (u64 \<times> string) list \<Rightarrow> string" where
  "format_unit bytes [] = dec_of_nat (unat bytes) @ '' B''"
| "format_unit bytes ((divisor, label) # us) =
     (if divisor \<le> bytes
      then (case ScaleToTenths bytes divisor of
              (whole, tenths) \<Rightarrow> dec_of_nat (unat whole) @ ''.'' @ dec_of_nat (unat tenths) @ '' '' @ label)
      else format_unit bytes us)"

definition FormatBytes :: "u64 \<Rightarrow> string" where
  "FormatBytes bytes = (if bytes < kKiB then dec_of_nat (unat bytes) @ '' B'' else format_unit bytes kUnits)"

definition IsSnapshotFresh :: "int \<Rightarrow> int \<Rightarrow> int \<Rightarrow> bool" where
  "IsSnapshotFresh sampledAt now maxAge \<longleftrightarrow> now - sampledAt \<le> maxAge"

section \<open>Working sets\<close>

record WorkingSetReading =
  ws_workingSetBytes :: u64
  ws_peakWorkingSetBytes :: u64

record WorkingSetDelta =
  wd_beforeBytes :: "u64 option"
  wd_afterBytes :: "u64 option"

definition MakeWorkingSetDelta :: "WorkingSetReading option \<Rightarrow> WorkingSetReading option \<Rightarrow> WorkingSetDelta" where
  "MakeWorkingSetDelta before after =
     \<lparr>wd_beforeBytes = map_option ws_workingSetBytes before, wd_afterBytes = map_option ws_workingSetBytes after\<rparr>"

text \<open>Both readings are cast to \<open>std::int64_t\<close> before the subtraction.\<close>

definition DeltaBytes :: "WorkingSetDelta \<Rightarrow> int option" where
  "DeltaBytes d =
     (case (wd_beforeBytes d, wd_afterBytes d) of
        (Some b, Some a) \<Rightarrow> Some (sint a - sint b)
      | _ \<Rightarrow> None)"

definition WorkingSetReduced :: "WorkingSetDelta \<Rightarrow> bool" where
  "WorkingSetReduced d = (case DeltaBytes d of None \<Rightarrow> False | Some x \<Rightarrow> x < 0)"

definition bytes_or_unknown :: "u64 option \<Rightarrow> string" where
  "bytes_or_unknown b = (case b of None \<Rightarrow> ''unknown'' | Some x \<Rightarrow> dec_of_nat (unat x))"

definition DescribeWorkingSetDelta :: "WorkingSetDelta \<Rightarrow> string" where
  "DescribeWorkingSetDelta d =
     ''working_set_before='' @ bytes_or_unknown (wd_beforeBytes d) @
     '' working_set_after='' @ bytes_or_unknown (wd_afterBytes d) @
     '' delta='' @ (case DeltaBytes d of None \<Rightarrow> ''unknown'' | Some x \<Rightarrow> dec_of_int x)"

section \<open>Steps, plans and their execution\<close>

datatype CleanKind = WorkingSetTrim | StandbyListPurge | SystemFileCacheTrim

fun CleanKindToString :: "CleanKind \<Rightarrow> string" where
  "CleanKindToString WorkingSetTrim = ''working_set_trim''"
| "CleanKindToString StandbyListPurge = ''standby_list_purge''"
| "CleanKindToString SystemFileCacheTrim = ''system_file_cache_trim''"

fun CleanKindCapabilityId :: "CleanKind \<Rightarrow> string" where
  "CleanKindCapabilityId WorkingSetTrim = ''memory.clean''"
| "CleanKindCapabilityId StandbyListPurge = ''memory.purge_standby''"
| "CleanKindCapabilityId SystemFileCacheTrim = ''memory.file_cache_trim''"

text \<open>The capabilities switched on at build time.\<close>

record build_options =
  bo_memoryClean :: bool
  bo_standbyPurge :: bool
  bo_fileCacheTrim :: bool
  bo_powerSchemeSwitch :: bool
  bo_schedulerTuner :: bool

fun CleanStepImplemented :: "build_options \<Rightarrow> CleanKind \<Rightarrow> bool" where
  "CleanStepImplemented B WorkingSetTrim = True"
| "CleanStepImplemented B StandbyListPurge = bo_standbyPurge B"
| "CleanStepImplemented B SystemFileCacheTrim = bo_fileCacheTrim B"

text \<open>The levels are ordered as the enumeration declares them.\<close>

fun level_index :: "CleanLevel \<Rightarrow> nat" where
  "level_index Clean_None = 0"
| "level_index Clean_Light = 1"
| "level_index Clean_Medium = 2"
| "level_index Clean_Deep = 3"

record MemoryCleanPlan =
  mp_allowed :: bool
  mp_levelWithinLimit :: bool
  mp_gatesAllowed :: bool
  mp_steps :: "CleanKind list"

definition PlanMemoryClean :: "CleanLevel \<Rightarrow> CleanLevel \<Rightarrow> bool \<Rightarrow> MemoryCleanPlan" where
  "PlanMemoryClean requested configuredMax gatesAllowed =
     (if requested = Clean_None
      then \<lparr>mp_allowed = False, mp_levelWithinLimit = True, mp_gatesAllowed = gatesAllowed, mp_steps = []\<rparr>
      else if \<not> level_index requested \<le> level_index configuredMax
      then \<lparr>mp_allowed = False, mp_levelWithinLimit = False, mp_gatesAllowed = gatesAllowed, mp_steps = []\<rparr>
      else \<lparr>mp_allowed = gatesAllowed, mp_levelWithinLimit = True, mp_gatesAllowed = gatesAllowed,
            mp_steps =
              (if level_index requested \<ge> level_index Clean_Light then [WorkingSetTrim] else []) @
              (if level_index requested \<ge> level_index Clean_Medium then [StandbyListPurge] else []) @
              (if level_index requested \<ge> level_index Clean_Deep then [SystemFileCacheTrim] else [])\<rparr>)"

type_synonym 's clean_backend = "CleanKind \<Rightarrow> 's \<Rightarrow> unit result \<times> 's"

definition RefusingCleanBackend :: "'s clean_backend" where
  "RefusingCleanBackend kind s =
     (Failure (Error_Unsupported ''CleanBackend::Execute'' ''the conservative backend makes no system call''), s)"

record CleanExecutionReport =
  cr_executed :: nat
  cr_succeeded :: nat
  cr_ok :: bool
  cr_failedStep :: "CleanKind option"
  cr_failureDetail :: string

definition empty_report :: CleanExecutionReport where
  "empty_report =
     \<lparr>cr_executed = 0, cr_succeeded = 0, cr_ok = False, cr_failedStep = None, cr_failureDetail = []\<rparr>"

fun execute_steps ::
  "'s clean_backend \<Rightarrow> CleanKind list \<Rightarrow> CleanExecutionReport \<Rightarrow> 's \<Rightarrow> CleanExecutionReport \<times> 's" where
  "execute_steps Execute [] report s = (report\<lparr>cr_ok := True\<rparr>, s)"
| "execute_steps Execute (step # steps) report s =
     (let report1 = report\<lparr>cr_executed := cr_executed report + 1\<rparr>
      in case Execute step s of
           (Inl e, s1) \<Rightarrow>
             (report1\<lparr>cr_failedStep := Some step, cr_failureDetail := err_message e\<rparr>, s1)
         | (Inr _, s1) \<Rightarrow>
             execute_steps Execute steps (report1\<lparr>cr_succeeded := cr_succeeded report1 + 1\<rparr>) s1)"

definition ExecuteMemoryCleanPlan ::
  "'s clean_backend \<Rightarrow> MemoryCleanPlan \<Rightarrow> 's \<Rightarrow> CleanExecutionReport result \<times> 's" where
  "ExecuteMemoryCleanPlan Execute plan s =
     (if \<not> mp_allowed plan
      then (Failure (Error_Unsupported ''ExecuteMemoryCleanPlan'' ''the gates did not allow the plan''), s)
      else if mp_steps plan = []
      then (Failure (Error_Validation ''ExecuteMemoryCleanPlan'' ''the plan has no steps''), s)
      else (case execute_steps Execute (mp_steps plan) empty_report s of (report, s1) \<Rightarrow> (Success report, s1)))"

record CleanPlanReadiness =
  rd_allImplemented :: bool
  rd_hasStep :: bool
  rd_firstUnimplemented :: "CleanKind option"

definition readiness_step :: "build_options \<Rightarrow> CleanPlanReadiness \<Rightarrow> CleanKind \<Rightarrow> CleanPlanReadiness" where
  "readiness_step B r step =
     (if CleanStepImplemented B step then r
      else r\<lparr>rd_allImplemented := False,
             rd_firstUnimplemented :=
               (if rd_firstUnimplemented r = None then Some step else rd_firstUnimplemented r)\<rparr>)"

definition EvaluateCleanPlanReadiness :: "build_options \<Rightarrow> MemoryCleanPlan \<Rightarrow> CleanPlanReadiness" where
  "EvaluateCleanPlanReadiness B plan =
     foldl (readiness_step B)
       \<lparr>rd_allImplemented = True, rd_hasStep = (mp_steps plan \<noteq> []), rd_firstUnimplemented = None\<rparr> (mp_steps plan)"

section \<open>The real backends\<close>

text \<open>
  The system calls.  A privilege is named by a text and known to a token by its identifier; the token
  functions return a handle or an error, and \<open>AdjustTokenPrivileges\<close> its result with the last error.
  \<open>NtSetSystemInformation\<close> answers a status whose sign bit marks a failure.
\<close>

record 's memory_api =
  OpenProcessToken :: "bool \<Rightarrow> 's \<Rightarrow> u64 option \<times> 's"
  LookupPrivilegeValueW :: "string \<Rightarrow> 's \<Rightarrow> u64 option"
  TokenPrivilegesSize :: "u64 \<Rightarrow> 's \<Rightarrow> nat"
  allocate_bytes :: "nat \<Rightarrow> bool"
  GetTokenPrivileges :: "u64 \<Rightarrow> 's \<Rightarrow> u64 list option"
  AdjustTokenPrivileges :: "u64 \<Rightarrow> u64 \<Rightarrow> 's \<Rightarrow> (bool \<times> u32) \<times> 's"
  CloseHandle :: "u64 \<Rightarrow> 's \<Rightarrow> 's"
  ntdll_loaded :: "'s \<Rightarrow> bool"
  ntdll_exports :: "string \<Rightarrow> 's \<Rightarrow> bool"
  NtSetSystemInformation :: "u32 \<Rightarrow> u32 \<Rightarrow> 's \<Rightarrow> u32 \<times> 's"
  NtQueryMemoryList :: "'s \<Rightarrow> u32 \<times> nat \<times> u64 list"
  SetSystemFileCacheSize :: "u64 \<Rightarrow> u64 \<Rightarrow> 's \<Rightarrow> (u32 + unit) \<times> 's"
  GetPerformanceInfo :: "'s \<Rightarrow> (u64 \<times> u64) option"
  PageSize :: "'s \<Rightarrow> u32"
  EmptyWorkingSet :: "'s \<Rightarrow> (u32 + unit) \<times> 's"
  GlobalMemoryStatusEx :: "'s \<Rightarrow> u32 + u64 \<times> u64 \<times> u32"
  GetProcessMemoryInfo :: "u64 \<Rightarrow> 's \<Rightarrow> u32 + u64 \<times> u64"
  OpenProcess_query :: "u32 \<Rightarrow> 's \<Rightarrow> (u32 + u64) \<times> 's"

definition ERROR_SUCCESS :: u32 where "ERROR_SUCCESS = 0"

text \<open>The pseudo handle of the own process.\<close>

definition GetCurrentProcess :: u64 where "GetCurrentProcess = - 1"

definition kSeProfileSingleProcess :: string where
  "kSeProfileSingleProcess = ''SeProfileSingleProcessPrivilege''"

definition kSeIncreaseQuota :: string where
  "kSeIncreaseQuota = ''SeIncreaseQuotaPrivilege''"

definition kSystemMemoryListInformation :: u32 where "kSystemMemoryListInformation = 80"
definition kMemoryPurgeStandbyList :: u32 where "kMemoryPurgeStandbyList = 4"

text \<open>Five counters, two tables of eight and one more counter, eight bytes each.\<close>

definition sizeof_memory_list :: nat where "sizeof_memory_list = (5 + 8 + 8 + 1) * 8"

definition NtSuccess :: "u32 \<Rightarrow> bool" where
  "NtSuccess status \<longleftrightarrow> 0 \<le> sint status"

definition QueryMemoryStatus :: "(u32 \<Rightarrow> string) \<Rightarrow> 's memory_api \<Rightarrow> int \<Rightarrow> 's \<Rightarrow> MemoryStatus result" where
  "QueryMemoryStatus sysmsg A now s =
     (case GlobalMemoryStatusEx A s of
        Inl c \<Rightarrow> Failure (FromWin32 sysmsg c ''GlobalMemoryStatusEx'')
      | Inr (totalPhys, available, load) \<Rightarrow> BuildMemoryStatus totalPhys available load now)"

definition ToReading :: "u64 \<times> u64 \<Rightarrow> WorkingSetReading" where
  "ToReading counters = \<lparr>ws_workingSetBytes = fst counters, ws_peakWorkingSetBytes = snd counters\<rparr>"

definition QueryWorkingSet ::
  "(u32 \<Rightarrow> string) \<Rightarrow> 's memory_api \<Rightarrow> u32 \<Rightarrow> 's \<Rightarrow> WorkingSetReading result \<times> 's" where
  "QueryWorkingSet sysmsg A processId s =
     (if processId = 0 then (Failure (Error_Validation ''QueryWorkingSet'' ''the process id must not be 0''), s)
      else case OpenProcess_query A processId s of
             (Inl c, s1) \<Rightarrow> (Failure (FromWin32 sysmsg c ''OpenProcess(PROCESS_QUERY_LIMITED_INFORMATION)''), s1)
           | (Inr h, s1) \<Rightarrow>
               (case GetProcessMemoryInfo A h s1 of
                  Inl c \<Rightarrow> (Failure (FromWin32 sysmsg c ''GetProcessMemoryInfo''), CloseHandle A h s1)
                | Inr counters \<Rightarrow> (Success (ToReading counters), CloseHandle A h s1)))"

definition QueryOwnWorkingSet :: "(u32 \<Rightarrow> string) \<Rightarrow> 's memory_api \<Rightarrow> 's \<Rightarrow> WorkingSetReading result" where
  "QueryOwnWorkingSet sysmsg A s =
     (case GetProcessMemoryInfo A GetCurrentProcess s of
        Inl c \<Rightarrow> Failure (FromWin32 sysmsg c ''GetProcessMemoryInfo(own process)'')
      | Inr counters \<Rightarrow> Success (ToReading counters))"

definition TrimOwnWorkingSet :: "(u32 \<Rightarrow> string) \<Rightarrow> 's memory_api \<Rightarrow> 's \<Rightarrow> unit result \<times> 's" where
  "TrimOwnWorkingSet sysmsg A s =
     (case EmptyWorkingSet A s of
        (Inl c, s1) \<Rightarrow> (Failure (FromWin32 sysmsg c ''EmptyWorkingSet(own process)''), s1)
      | (Inr _, s1) \<Rightarrow> (Success (), s1))"

fun SelfWorkingSetTrimBackend :: "(u32 \<Rightarrow> string) \<Rightarrow> 's memory_api \<Rightarrow> 's clean_backend" where
  "SelfWorkingSetTrimBackend sysmsg A WorkingSetTrim s = TrimOwnWorkingSet sysmsg A s"
| "SelfWorkingSetTrimBackend sysmsg A StandbyListPurge s =
     (Failure (Error_Unsupported ''SelfWorkingSetTrimBackend::Execute'' ''the standby list is not purged here''), s)"
| "SelfWorkingSetTrimBackend sysmsg A SystemFileCacheTrim s =
     (Failure (Error_Unsupported ''SelfWorkingSetTrimBackend::Execute'' ''the file cache is not trimmed here''), s)"

definition TokenHasPrivilege :: "'s memory_api \<Rightarrow> string \<Rightarrow> 's \<Rightarrow> bool \<times> 's" where
  "TokenHasPrivilege A name s =
     (case OpenProcessToken A False s of
        (None, s1) \<Rightarrow> (False, s1)
      | (Some token, s1) \<Rightarrow>
          ((case LookupPrivilegeValueW A name s1 of
              None \<Rightarrow> False
            | Some luid \<Rightarrow>
                (let needed = TokenPrivilegesSize A token s1
                 in needed > 0 \<and> allocate_bytes A needed \<and>
                    (case GetTokenPrivileges A token s1 of None \<Rightarrow> False | Some held \<Rightarrow> luid \<in> set held))),
           CloseHandle A token s1))"

definition EnablePrivilege :: "'s memory_api \<Rightarrow> string \<Rightarrow> 's \<Rightarrow> bool \<times> 's" where
  "EnablePrivilege A name s =
     (case OpenProcessToken A True s of
        (None, s1) \<Rightarrow> (False, s1)
      | (Some token, s1) \<Rightarrow>
          (case LookupPrivilegeValueW A name s1 of
             None \<Rightarrow> (False, CloseHandle A token s1)
           | Some luid \<Rightarrow>
               (case AdjustTokenPrivileges A token luid s1 of
                  ((adjusted, lastError), s2) \<Rightarrow>
                    (adjusted \<and> lastError = ERROR_SUCCESS, CloseHandle A token s2))))"

definition PurgeStandbyList :: "(u32 \<Rightarrow> string) \<Rightarrow> 's memory_api \<Rightarrow> 's \<Rightarrow> unit result \<times> 's" where
  "PurgeStandbyList sysmsg A s =
     (case EnablePrivilege A kSeProfileSingleProcess s of
        (False, s1) \<Rightarrow>
          (Failure (Error_Unsupported ''PurgeStandbyList'' ''SeProfileSingleProcessPrivilege was not granted''), s1)
      | (True, s1) \<Rightarrow>
          if \<not> ntdll_loaded A s1
          then (Failure (Error_Unsupported ''PurgeStandbyList'' ''ntdll.dll is not loaded''), s1)
          else if \<not> ntdll_exports A ''NtSetSystemInformation'' s1
          then (Failure (Error_Unsupported ''PurgeStandbyList'' ''NtSetSystemInformation is not exported''), s1)
          else (case NtSetSystemInformation A kSystemMemoryListInformation kMemoryPurgeStandbyList s1 of
                  (status, s2) \<Rightarrow>
                    if \<not> NtSuccess status
                    then (Failure (FromNtStatus sysmsg status ''NtSetSystemInformation(SystemMemoryListInformation)''), s2)
                    else (Success (), s2)))"

definition TrimSystemFileCache :: "(u32 \<Rightarrow> string) \<Rightarrow> 's memory_api \<Rightarrow> 's \<Rightarrow> unit result \<times> 's" where
  "TrimSystemFileCache sysmsg A s =
     (case EnablePrivilege A kSeIncreaseQuota s of
        (False, s1) \<Rightarrow>
          (Failure (Error_Unsupported ''TrimSystemFileCache'' ''SeIncreaseQuotaPrivilege was not granted''), s1)
      | (True, s1) \<Rightarrow>
          (let noLimit = - 1
           in case SetSystemFileCacheSize A noLimit noLimit s1 of
                (Inl c, s2) \<Rightarrow> (Failure (FromWin32 sysmsg c ''SetSystemFileCacheSize''), s2)
              | (Inr _, s2) \<Rightarrow> (Success (), s2)))"

definition QuerySystemCacheBytes :: "'s memory_api \<Rightarrow> 's \<Rightarrow> u64 option" where
  "QuerySystemCacheBytes A s =
     (case GetPerformanceInfo A s of None \<Rightarrow> None | Some (pages, page) \<Rightarrow> Some (pages * page))"

definition QueryStandbyBytes :: "'s memory_api \<Rightarrow> 's \<Rightarrow> u64 option" where
  "QueryStandbyBytes A s =
     (if \<not> ntdll_loaded A s then None
      else if \<not> ntdll_exports A ''NtQuerySystemInformation'' s then None
      else case NtQueryMemoryList A s of
             (status, returned, byPriority) \<Rightarrow>
               if \<not> NtSuccess status \<or> returned \<noteq> sizeof_memory_list then None
               else Some (sum_list byPriority * ucast (PageSize A s)))"

fun HasRequiredPrivilege :: "'s memory_api \<Rightarrow> CleanKind \<Rightarrow> 's \<Rightarrow> bool \<times> 's" where
  "HasRequiredPrivilege A WorkingSetTrim s = (True, s)"
| "HasRequiredPrivilege A StandbyListPurge s = TokenHasPrivilege A kSeProfileSingleProcess s"
| "HasRequiredPrivilege A SystemFileCacheTrim s = TokenHasPrivilege A kSeIncreaseQuota s"

fun SystemMemoryCleanBackend :: "(u32 \<Rightarrow> string) \<Rightarrow> 's memory_api \<Rightarrow> 's clean_backend" where
  "SystemMemoryCleanBackend sysmsg A WorkingSetTrim s = TrimOwnWorkingSet sysmsg A s"
| "SystemMemoryCleanBackend sysmsg A StandbyListPurge s = PurgeStandbyList sysmsg A s"
| "SystemMemoryCleanBackend sysmsg A SystemFileCacheTrim s = TrimSystemFileCache sysmsg A s"


section \<open>Display of sizes\<close>

lemma ScaleToTenths_nat:
  assumes "0 < d" and "unat d \<le> 2 ^ 40" and "even (unat d)" and "ScaleToTenths b d = (w, t)"
  shows "unat t \<le> 9 \<and> 10 * unat w + unat t = (20 * unat b + unat d) div (2 * unat d)"
proof -
  define B D where "B = unat b" and "D = unat d"
  have D: "0 < D" "D \<le> 2 ^ 40" "even D" using assms(1-3) by (simp_all add: D_def word_gt_0 unat_gt_0)
  have D40: "D \<le> 1099511627776" using D(2) by simp
  have B: "B < 2 ^ 64" using unsigned_less [of b, where 'a = nat] by (simp add: B_def)
  have r: "B mod D < D" using D(1) by simp
  let ?t = "((B mod D) * 10 + D div 2) div D"
  have small: "(B mod D) * 10 + D div 2 < 18446744073709551616" using r D40 by linarith
  have t10: "?t \<le> 10"
  proof -
    have "(B mod D) * 10 + D div 2 < 11 * D" using r by linarith
    then have "?t < 11" using D(1) by (simp add: less_mult_imp_div_less)
    then show ?thesis by simp
  qed
  have tenths: "unat ((b mod d * 10 + d div 2) div d) = ?t"
    using small by (simp add: unat_div unat_mod unat_word_ariths B_def D_def)
  have exact: "(20 * B + D) div (2 * D) = 10 * (B div D) + ?t"
  proof -
    obtain h where h: "D = 2 * h" using D(3) by blast
    have "20 * B + D = 2 * ((B mod D) * 10 + D div 2) + (10 * (B div D)) * (2 * D)"
      using div_mult_mod_eq [of B D] h by (simp add: algebra_simps)
    moreover have "(2 * X + K * (2 * D)) div (2 * D) = K + X div D" for X K
    proof -
      have "2 * X + K * (2 * D) = 2 * (X + K * D)" by (simp add: algebra_simps)
      then have "(2 * X + K * (2 * D)) div (2 * D) = (X + K * D) div D" by (simp only:) (rule div_mult_mult1, simp)
      then show ?thesis using D(1) by simp
    qed
    ultimately show ?thesis by (simp only:)
  qed
  show ?thesis
  proof (cases "(b mod d * 10 + d div 2) div d = 10")
    case True
    then have w: "w = b div d + 1" "t = 0" using assms(4) by (simp_all add: ScaleToTenths_def Let_def)
    have "?t = 10" using tenths True by simp
    then have "D \<noteq> 1" using D(3) by auto
    then have "1 < D" using D(1) by simp
    then have "B div D < B \<or> B = 0" by (cases "B = 0") simp_all
    then have "B div D + 1 < 2 ^ 64" using B by auto
    then have "unat w = B div D + 1" by (simp add: w unat_word_ariths unat_div B_def D_def)
    then show ?thesis using exact \<open>?t = 10\<close> w by (simp add: B_def D_def)
  next
    case False
    then have w: "w = b div d" "t = (b mod d * 10 + d div 2) div d" using assms(4) by (simp_all add: ScaleToTenths_def Let_def)
    have "?t \<noteq> 10" using tenths False by (metis of_nat_numeral of_nat_unat ucast_id)
    then show ?thesis using exact t10 tenths w by (simp add: B_def D_def unat_div)
  qed
qed


lemma kUnits_nat:
  "unat kKiB = 1024" "unat kMiB = 1048576" "unat kGiB = 1073741824" "unat kTiB = 1099511627776"
  by (simp_all add: kKiB_def kMiB_def kGiB_def kTiB_def)

lemma format_unit_pick:
  "\<exists>d l. (d, l) \<in> set us \<and> d \<le> b \<Longrightarrow>
     \<exists>d l. (d, l) \<in> set us \<and> d \<le> b \<and> (\<forall>w t. ScaleToTenths b d = (w, t) \<longrightarrow>
        format_unit b us = dec_of_nat (unat w) @ ''.'' @ dec_of_nat (unat t) @ '' '' @ l)"
proof (induction us)
  case (Cons u us)
  obtain d l where u: "u = (d, l)" by fastforce
  show ?case
  proof (cases "d \<le> b")
    case True
    then show ?thesis by (intro exI [of _ d] exI [of _ l]) (simp add: u)
  next
    case False
    then have "\<exists>d l. (d, l) \<in> set us \<and> d \<le> b" using Cons.prems u by auto
    from Cons.IH [OF this] show ?thesis using False u by auto
  qed
qed simp

text \<open>
  The displayed size is the exact number of bytes below 1 KiB and otherwise one decimal rounded
  half up in a binary unit not above the size: the 64-bit arithmetic of the rounding never wraps.\<close>
theorem FormatBytes_rounds_half_up:
  "(b < kKiB \<longrightarrow> FormatBytes b = dec_of_nat (unat b) @ '' B'') \<and>
   (kKiB \<le> b \<longrightarrow> (\<exists>d l w t. (d, l) \<in> set kUnits \<and> d \<le> b \<and>
      FormatBytes b = dec_of_nat w @ ''.'' @ dec_of_nat t @ '' '' @ l \<and>
      t \<le> 9 \<and> 10 * w + t = (20 * unat b + unat d) div (2 * unat d)))"
proof (cases "b < kKiB")
  case True
  then show ?thesis by (simp add: FormatBytes_def not_le)
next
  case False
  then have "(kKiB, ''KiB'') \<in> set kUnits \<and> kKiB \<le> b" by (simp add: kUnits_def)
  then have "\<exists>d l. (d, l) \<in> set kUnits \<and> d \<le> b" by blast
  from format_unit_pick [OF this] obtain d l where d: "(d, l) \<in> set kUnits" "d \<le> b"
    and f: "\<forall>w t. ScaleToTenths b d = (w, t) \<longrightarrow>
        format_unit b kUnits = dec_of_nat (unat w) @ ''.'' @ dec_of_nat (unat t) @ '' '' @ l"
    by blast
  obtain w t where wt: "ScaleToTenths b d = (w, t)" by fastforce
  have u: "unat d \<in> {1024, 1048576, 1073741824, 1099511627776}"
    using d(1) by (auto simp: kUnits_def kUnits_nat)
  have "0 < d" by (rule word_neq_0_conv [THEN iffD1]) (use u in auto)
  moreover have "unat d \<le> 2 ^ 40" "even (unat d)" using u by auto
  ultimately have "0 < d \<and> unat d \<le> 2 ^ 40 \<and> even (unat d)" by blast
  then have "unat t \<le> 9 \<and> 10 * unat w + unat t = (20 * unat b + unat d) div (2 * unat d)"
    using ScaleToTenths_nat wt by blast
  moreover have "FormatBytes b = dec_of_nat (unat w) @ ''.'' @ dec_of_nat (unat t) @ '' '' @ l"
    using f wt False by (simp add: FormatBytes_def)
  ultimately show ?thesis using d False by blast
qed

theorem FormatBytes_rounds_half_up_witness:
  "FormatBytes 1023 = dec_of_nat 1023 @ '' B'' \<and> (\<exists>d l w t. (d, l) \<in> set kUnits \<and> d \<le> 1536 \<and>
      FormatBytes 1536 = dec_of_nat w @ ''.'' @ dec_of_nat t @ '' '' @ l \<and>
      t \<le> 9 \<and> 10 * w + t = (20 * 1536 + unat d) div (2 * unat d))"
  using FormatBytes_rounds_half_up [of 1023] FormatBytes_rounds_half_up [of 1536]
  by (simp add: kKiB_def)

section \<open>Running a plan\<close>

text \<open>A backend that also keeps the list of its calls.\<close>

definition logging :: "'s clean_backend \<Rightarrow> ('s \<times> CleanKind list) clean_backend" where
  "logging E k x = (case E k (fst x) of (r, s1) \<Rightarrow> (r, s1, snd x @ [k]))"

lemma logging_eq [simp]: "E k s = (r, s1) \<Longrightarrow> logging E k (s, cs) = (r, s1, cs @ [k])"
  by (simp add: logging_def)

lemma execute_steps_logging:
  "execute_steps (logging E) steps rep (s, cs) = (rep', s', cs') \<Longrightarrow> cr_failedStep rep = None \<Longrightarrow>
     \<exists>n \<le> length steps. cs' = cs @ take n steps \<and> cr_executed rep' = cr_executed rep + n \<and>
       (if cr_failedStep rep' = None
        then cr_ok rep' \<and> n = length steps \<and> cr_succeeded rep' = cr_succeeded rep + n
        else cr_ok rep' = cr_ok rep \<and> 0 < n \<and> cr_failedStep rep' = Some (steps ! (n - 1)) \<and>
             cr_succeeded rep' + 1 = cr_succeeded rep + n)"
proof (induction steps arbitrary: rep s cs)
  case Nil
  then show ?case by auto
next
  case (Cons k ks)
  obtain r s1 where E: "E k s = (r, s1)" by fastforce
  show ?case
  proof (cases r)
    case (Inl e)
    then show ?thesis using Cons.prems E by (intro exI [of _ 1]) (auto simp: Let_def)
  next
    case (Inr u)
    let ?rep = "rep\<lparr>cr_executed := cr_executed rep + 1, cr_succeeded := cr_succeeded rep + 1\<rparr>"
    have "execute_steps (logging E) ks ?rep (s1, cs @ [k]) = (rep', s', cs')"
      using Cons.prems(1) E Inr by (simp add: Let_def)
    from Cons.IH [OF this] Cons.prems(2) obtain n where n: "n \<le> length ks" "cs' = (cs @ [k]) @ take n ks"
      "cr_executed rep' = cr_executed ?rep + n"
      "if cr_failedStep rep' = None
        then cr_ok rep' \<and> n = length ks \<and> cr_succeeded rep' = cr_succeeded ?rep + n
        else cr_ok rep' = cr_ok ?rep \<and> 0 < n \<and> cr_failedStep rep' = Some (ks ! (n - 1)) \<and>
             cr_succeeded rep' + 1 = cr_succeeded ?rep + n"
      by auto
    then show ?thesis by (intro exI [of _ "Suc n"]) (auto simp: nth_Cons' split: if_splits)
  qed
qed

text \<open>
  A plan that is not allowed or has no steps fails without calling the backend.  Otherwise the
  backend is called for a prefix of the steps in their order: all of them if every call succeeds,
  and up to the first failing one if not; the report counts the calls and the successes and names
  the failing step.\<close>
theorem ExecuteMemoryCleanPlan_exact:
  assumes "ExecuteMemoryCleanPlan (logging E) plan (s, []) = (res, s', calls)"
  shows "(\<not> mp_allowed plan \<or> mp_steps plan = [] \<longrightarrow> \<not> HasValue res \<and> s' = s \<and> calls = []) \<and>
    (mp_allowed plan \<and> mp_steps plan \<noteq> [] \<longrightarrow>
       (\<exists>rep. res = Success rep \<and> calls = take (cr_executed rep) (mp_steps plan) \<and>
          (if cr_ok rep then cr_failedStep rep = None \<and> cr_executed rep = length (mp_steps plan) \<and>
               cr_succeeded rep = cr_executed rep
           else calls \<noteq> [] \<and> cr_failedStep rep = Some (last calls) \<and> cr_executed rep = cr_succeeded rep + 1)))"
proof (cases "mp_allowed plan \<and> mp_steps plan \<noteq> []")
  case False
  then show ?thesis using assms by (auto simp: ExecuteMemoryCleanPlan_def split: if_splits)
next
  case True
  obtain rep where e: "execute_steps (logging E) (mp_steps plan) empty_report (s, []) = (rep, s', calls)"
    and res: "res = Success rep"
    using assms True by (auto simp: ExecuteMemoryCleanPlan_def split: prod.splits)
  have z: "cr_failedStep empty_report = None" "cr_executed empty_report = 0" "cr_succeeded empty_report = 0"
    "cr_ok empty_report = False"
    by (simp_all add: empty_report_def)
  from execute_steps_logging [OF e z(1), unfolded z add_0 simp_thms]
  obtain n where n: "n \<le> length (mp_steps plan)" "calls = take n (mp_steps plan)" "cr_executed rep = n"
    and c: "if cr_failedStep rep = None then cr_ok rep \<and> n = length (mp_steps plan) \<and> cr_succeeded rep = n
        else \<not> cr_ok rep \<and> 0 < n \<and> cr_failedStep rep = Some (mp_steps plan ! (n - 1)) \<and> cr_succeeded rep + 1 = n"
    by auto
  have "last (take n (mp_steps plan)) = mp_steps plan ! (n - 1)" if "0 < n"
    using that n(1) True by (simp add: last_conv_nth)
  then show ?thesis using True res n c by (auto split: if_splits)
qed

theorem ExecuteMemoryCleanPlan_exact_witness:
  "\<exists>rep. ExecuteMemoryCleanPlan (logging RefusingCleanBackend) (PlanMemoryClean Clean_Deep Clean_Deep True) ((), []) =
     (Success rep, (), [WorkingSetTrim]) \<and> cr_failedStep rep = Some WorkingSetTrim \<and> \<not> cr_ok rep"
  using ExecuteMemoryCleanPlan_exact [of RefusingCleanBackend "PlanMemoryClean Clean_Deep Clean_Deep True" "()"]
  by (simp add: ExecuteMemoryCleanPlan_def PlanMemoryClean_def logging_def RefusingCleanBackend_def empty_report_def)

text \<open>The steps of a plan grow with the level.\<close>

lemma PlanMemoryClean_steps:
  "mp_steps (PlanMemoryClean l l g) =
     (case l of Clean_None \<Rightarrow> [] | Clean_Light \<Rightarrow> [WorkingSetTrim] | Clean_Medium \<Rightarrow> [WorkingSetTrim, StandbyListPurge]
      | Clean_Deep \<Rightarrow> [WorkingSetTrim, StandbyListPurge, SystemFileCacheTrim])"
  "mp_allowed (PlanMemoryClean l l g) \<longleftrightarrow> g \<and> l \<noteq> Clean_None"
  by (cases l; simp add: PlanMemoryClean_def)+

lemma EvaluateCleanPlanReadiness_exact:
  "rd_allImplemented (EvaluateCleanPlanReadiness B plan) \<longleftrightarrow> list_all (CleanStepImplemented B) (mp_steps plan)"
  "rd_firstUnimplemented (EvaluateCleanPlanReadiness B plan) = find (\<lambda>k. \<not> CleanStepImplemented B k) (mp_steps plan)"
proof -
  have "rd_allImplemented (foldl (readiness_step B) r ks) \<longleftrightarrow> rd_allImplemented r \<and> list_all (CleanStepImplemented B) ks" for r ks
    by (induction ks arbitrary: r) (auto simp: readiness_step_def)
  then show "rd_allImplemented (EvaluateCleanPlanReadiness B plan) \<longleftrightarrow> list_all (CleanStepImplemented B) (mp_steps plan)"
    by (simp add: EvaluateCleanPlanReadiness_def)
  have "rd_firstUnimplemented (foldl (readiness_step B) r ks) =
      (case rd_firstUnimplemented r of Some k \<Rightarrow> Some k | None \<Rightarrow> find (\<lambda>k. \<not> CleanStepImplemented B k) ks)" for r ks
    by (induction ks arbitrary: r) (auto simp: readiness_step_def split: option.splits)
  then show "rd_firstUnimplemented (EvaluateCleanPlanReadiness B plan) = find (\<lambda>k. \<not> CleanStepImplemented B k) (mp_steps plan)"
    by (simp add: EvaluateCleanPlanReadiness_def)
qed


section \<open>Handles\<close>

text \<open>
  What the code relies on of the handle table: opening gives a handle that was not open, closing
  removes it, the other calls leave the table alone.
\<close>

definition handle_laws :: "'s memory_api \<Rightarrow> ('s \<Rightarrow> u64 set) \<Rightarrow> bool" where
  "handle_laws A hs \<longleftrightarrow>
     (\<forall>w s h s1. OpenProcessToken A w s = (Some h, s1) \<longrightarrow> h \<notin> hs s \<and> hs s1 = insert h (hs s)) \<and>
     (\<forall>w s s1. OpenProcessToken A w s = (None, s1) \<longrightarrow> hs s1 = hs s) \<and>
     (\<forall>p s h s1. OpenProcess_query A p s = (Inr h, s1) \<longrightarrow> h \<notin> hs s \<and> hs s1 = insert h (hs s)) \<and>
     (\<forall>p s c s1. OpenProcess_query A p s = (Inl c, s1) \<longrightarrow> hs s1 = hs s) \<and>
     (\<forall>h s. hs (CloseHandle A h s) = hs s - {h}) \<and>
     (\<forall>t l s. hs (snd (AdjustTokenPrivileges A t l s)) = hs s) \<and>
     (\<forall>c x s. hs (snd (NtSetSystemInformation A c x s)) = hs s) \<and>
     (\<forall>x y s. hs (snd (SetSystemFileCacheSize A x y s)) = hs s) \<and>
     (\<forall>s. hs (snd (EmptyWorkingSet A s)) = hs s)"

lemma handle_laws_calls:
  assumes "handle_laws A hs"
  shows "AdjustTokenPrivileges A t l s = (r, s1) \<Longrightarrow> hs s1 = hs s"
    and "NtSetSystemInformation A c x s = (st, s1) \<Longrightarrow> hs s1 = hs s"
    and "SetSystemFileCacheSize A y z s = (q, s1) \<Longrightarrow> hs s1 = hs s"
    and "EmptyWorkingSet A s = (e, s1) \<Longrightarrow> hs s1 = hs s"
    and "hs (CloseHandle A h s) = hs s - {h}"
  using assms by (auto simp: handle_laws_def dest: arg_cong [where f = "\<lambda>p. hs (snd p)"])

lemma handle_laws_open:
  assumes "handle_laws A hs"
  shows "OpenProcessToken A w s = (None, s1) \<Longrightarrow> hs s1 = hs s"
    and "OpenProcessToken A w s = (Some h, s1) \<Longrightarrow> h \<notin> hs s \<and> hs s1 = insert h (hs s)"
proof -
  have "\<forall>w s s1. OpenProcessToken A w s = (None, s1) \<longrightarrow> hs s1 = hs s"
    using assms unfolding handle_laws_def by (elim conjE) assumption
  moreover have "\<forall>w s h s1. OpenProcessToken A w s = (Some h, s1) \<longrightarrow> h \<notin> hs s \<and> hs s1 = insert h (hs s)"
    using assms unfolding handle_laws_def by (elim conjE) assumption
  ultimately show "OpenProcessToken A w s = (None, s1) \<Longrightarrow> hs s1 = hs s"
    and "OpenProcessToken A w s = (Some h, s1) \<Longrightarrow> h \<notin> hs s \<and> hs s1 = insert h (hs s)"
    by blast+
qed

lemma EnablePrivilege_balanced:
  assumes "handle_laws A hs" and "EnablePrivilege A name s = (ok, s')"
  shows "hs s' = hs s"
proof -
  obtain t s1 where o: "OpenProcessToken A True s = (t, s1)" by fastforce
  show ?thesis
  proof (cases t)
    case None
    then show ?thesis using assms(2) o handle_laws_open(1) [OF assms(1)] by (simp add: EnablePrivilege_def)
  next
    case (Some h)
    then have h: "h \<notin> hs s" "hs s1 = insert h (hs s)" using o handle_laws_open(2) [OF assms(1)] by blast+
    show ?thesis
    proof (cases "LookupPrivilegeValueW A name s1")
      case None
      then have "s' = CloseHandle A h s1" using assms(2) o Some by (simp add: EnablePrivilege_def)
      then show ?thesis using h handle_laws_calls(5) [OF assms(1)] by simp
    next
      case (Some luid)
      obtain adj err s2 where a: "AdjustTokenPrivileges A h luid s1 = ((adj, err), s2)" by (metis prod.collapse)
      then have "hs s2 = hs s1" by (rule handle_laws_calls(1) [OF assms(1)])
      moreover have "s' = CloseHandle A h s2" using assms(2) o \<open>t = Some h\<close> Some a by (simp add: EnablePrivilege_def)
      ultimately show ?thesis using h handle_laws_calls(5) [OF assms(1)] by simp
    qed
  qed
qed

lemma TokenHasPrivilege_balanced:
  assumes "handle_laws A hs" and "TokenHasPrivilege A name s = (ok, s')"
  shows "hs s' = hs s"
proof -
  obtain t s1 where o: "OpenProcessToken A False s = (t, s1)" by fastforce
  show ?thesis
  proof (cases t)
    case None
    then show ?thesis using assms(2) o handle_laws_open(1) [OF assms(1)] by (simp add: TokenHasPrivilege_def)
  next
    case (Some h)
    then have h: "h \<notin> hs s" "hs s1 = insert h (hs s)" using o handle_laws_open(2) [OF assms(1)] by blast+
    have "s' = CloseHandle A h s1" using assms(2) o Some by (simp add: TokenHasPrivilege_def)
    then show ?thesis using h handle_laws_calls(5) [OF assms(1)] by simp
  qed
qed

lemma PurgeStandbyList_balanced:
  assumes "handle_laws A hs" and "PurgeStandbyList sysmsg A s = (r, s')"
  shows "hs s' = hs s"
proof -
  obtain ok s1 where e: "EnablePrivilege A kSeProfileSingleProcess s = (ok, s1)" by fastforce
  obtain st s2 where n: "NtSetSystemInformation A kSystemMemoryListInformation kMemoryPurgeStandbyList s1 = (st, s2)"
    by fastforce
  have "hs s1 = hs s" "hs s2 = hs s1"
    using EnablePrivilege_balanced [OF assms(1) e] handle_laws_calls(2) [OF assms(1) n] by simp_all
  then show ?thesis using assms(2) e n by (cases ok) (auto simp: PurgeStandbyList_def split: if_splits)
qed

lemma TrimSystemFileCache_balanced:
  assumes "handle_laws A hs" and "TrimSystemFileCache sysmsg A s = (r, s')"
  shows "hs s' = hs s"
proof -
  obtain ok s1 where e: "EnablePrivilege A kSeIncreaseQuota s = (ok, s1)" by fastforce
  obtain q s2 where n: "SetSystemFileCacheSize A (- 1) (- 1) s1 = (q, s2)" by fastforce
  have "hs s1 = hs s" "hs s2 = hs s1"
    using EnablePrivilege_balanced [OF assms(1) e] handle_laws_calls(3) [OF assms(1) n] by simp_all
  then show ?thesis using assms(2) e n by (cases ok; cases q) (auto simp: TrimSystemFileCache_def Let_def)
qed

text \<open>
  Whatever the system calls answer, a clean step, the probe of a privilege and the reading of
  another process leave exactly the handles open that were open before.\<close>
theorem clean_steps_close_their_handles:
  assumes "handle_laws A hs"
  shows "hs (snd (SystemMemoryCleanBackend sysmsg A k s)) = hs s \<and>
    hs (snd (HasRequiredPrivilege A k s)) = hs s \<and> hs (snd (QueryWorkingSet sysmsg A pid s)) = hs s"
proof -
  have "hs (snd (SystemMemoryCleanBackend sysmsg A k s)) = hs s"
  proof (cases k)
    case WorkingSetTrim
    obtain e s1 where "EmptyWorkingSet A s = (e, s1)" by fastforce
    then show ?thesis using WorkingSetTrim handle_laws_calls(4) [OF assms]
      by (cases e) (auto simp: TrimOwnWorkingSet_def)
  qed (use PurgeStandbyList_balanced [OF assms] TrimSystemFileCache_balanced [OF assms] in
      \<open>simp_all, metis prod.collapse, metis prod.collapse\<close>)
  moreover have "hs (snd (HasRequiredPrivilege A k s)) = hs s"
    by (cases k) (simp_all, (metis TokenHasPrivilege_balanced [OF assms] prod.collapse)+)
  moreover have "hs (snd (QueryWorkingSet sysmsg A pid s)) = hs s"
  proof -
    obtain r s1 where o: "OpenProcess_query A pid s = (r, s1)" by fastforce
    show ?thesis
    proof (cases r)
      case (Inl c)
      then have "hs s1 = hs s" using assms o by (simp add: handle_laws_def)
      then show ?thesis using o Inl by (simp add: QueryWorkingSet_def)
    next
      case (Inr h)
      moreover have "\<forall>p s h s1. OpenProcess_query A p s = (Inr h, s1) \<longrightarrow> h \<notin> hs s \<and> hs s1 = insert h (hs s)"
        using assms unfolding handle_laws_def by (elim conjE) assumption
      ultimately have "h \<notin> hs s \<and> hs s1 = insert h (hs s)" using o by blast
      then show ?thesis using o Inr handle_laws_calls(5) [OF assms] by (simp add: QueryWorkingSet_def split: sum.splits)
    qed
  qed
  ultimately show ?thesis by blast
qed

text \<open>A machine whose state is the list of open handles and the privileges of the token.\<close>

definition demo_api :: "(u64 list \<times> u64 list) memory_api" where
  "demo_api =
     \<lparr>OpenProcessToken = (\<lambda>_ s. if fst s = [] then (Some 4, [4], snd s) else (None, s)),
      LookupPrivilegeValueW = (\<lambda>_ _. Some 7), TokenPrivilegesSize = (\<lambda>_ _. 16), allocate_bytes = (\<lambda>_. True),
      GetTokenPrivileges = (\<lambda>_ s. Some (snd s)),
      AdjustTokenPrivileges = (\<lambda>_ l s. ((True, if l \<in> set (snd s) then ERROR_SUCCESS else 1300), s)),
      CloseHandle = (\<lambda>h s. (removeAll h (fst s), snd s)), ntdll_loaded = (\<lambda>_. True), ntdll_exports = (\<lambda>_ _. True),
      NtSetSystemInformation = (\<lambda>_ _ s. (0, s)), NtQueryMemoryList = (\<lambda>_. (0, sizeof_memory_list, [1, 2])),
      SetSystemFileCacheSize = (\<lambda>_ _ s. (Inr (), s)), GetPerformanceInfo = (\<lambda>_. Some (3, 4096)),
      PageSize = (\<lambda>_. 4096), EmptyWorkingSet = (\<lambda>s. (Inr (), s)),
      GlobalMemoryStatusEx = (\<lambda>_. Inr (4000, 1000, 75)), GetProcessMemoryInfo = (\<lambda>_ _. Inr (100, 200)),
      OpenProcess_query = (\<lambda>_ s. if fst s = [] then (Inr 8, [8], snd s) else (Inl 5, s))\<rparr>"

lemma demo_handle_laws: "handle_laws demo_api (\<lambda>s. set (fst s))"
  unfolding handle_laws_def demo_api_def memory_api.select_convs
  by (intro conjI allI) (auto split: if_splits)

theorem clean_steps_close_their_handles_witness:
  "set (fst (snd (SystemMemoryCleanBackend (\<lambda>_. []) demo_api StandbyListPurge ([], [7])))) = {} \<and>
   fst (SystemMemoryCleanBackend (\<lambda>_. []) demo_api StandbyListPurge ([], [7])) = Success ()"
  using clean_steps_close_their_handles [OF demo_handle_laws, of "\<lambda>_. []" StandbyListPurge "([], [7])"]
  by (simp add: PurgeStandbyList_def EnablePrivilege_def demo_api_def NtSuccess_def)

text \<open>Without the privilege in the token the purge is refused, although the adjusting call reports success.\<close>

lemma purge_needs_privilege:
  "\<not> HasValue (fst (SystemMemoryCleanBackend (\<lambda>_. []) demo_api StandbyListPurge ([], [])))"
  by (simp add: PurgeStandbyList_def EnablePrivilege_def demo_api_def ERROR_SUCCESS_def)

end
