(* ===== verification/Memory_Clean_Command.thy ===== *)
theory Memory_Clean_Command
  imports Cli_World Memory_Cleaner
begin

text \<open>
  The command \<^verbatim>\<open>--memory-clean\<close> of \<^verbatim>\<open>source/main.cpp\<close>: the gates of a clean step, the two executing
  paths and the plan that only prints.  The command joins the configuration, the six gates, the
  ledger of cooldowns, the clean plan with its backends, the audit log and the journal.
\<close>

section \<open>The gates of a step\<close>

record MemoryCleanConfigGate =
  mg_cleanEnabled :: bool
  mg_nativeWrite :: bool
  mg_maxLevel :: CleanLevel
  mg_mode :: RunMode
  mg_layers :: LayerConfig
  mg_hasConfig :: bool

definition no_config_gate :: MemoryCleanConfigGate where
  "no_config_gate =
     \<lparr>mg_cleanEnabled = False, mg_nativeWrite = False, mg_maxLevel = Clean_None, mg_mode = Observe,
      mg_layers = cs_layers default_snapshot, mg_hasConfig = False\<rparr>"

definition overlay_allows :: "MemoryCleanConfigGate \<Rightarrow> CleanKind \<Rightarrow> bool" where
  "overlay_allows config kind =
     (if kind = WorkingSetTrim then AllowsLocalReversibleActions (mg_mode config) (mg_layers config)
      else AllowsSystemLevelActions (mg_mode config) (mg_layers config))"

fun level_allows :: "MemoryCleanConfigGate \<Rightarrow> CleanKind \<Rightarrow> bool" where
  "level_allows config WorkingSetTrim = (level_index (mg_maxLevel config) \<ge> level_index Clean_Light)"
| "level_allows config StandbyListPurge = (level_index (mg_maxLevel config) \<ge> level_index Clean_Medium)"
| "level_allows config SystemFileCacheTrim = (mg_maxLevel config = Clean_Deep)"

definition ConfigAllowsCleanStep :: "MemoryCleanConfigGate \<Rightarrow> CleanKind \<Rightarrow> bool" where
  "ConfigAllowsCleanStep config kind =
     (if \<not> mg_hasConfig config then False
      else if \<not> overlay_allows config kind then False
      else mg_cleanEnabled config \<and> level_allows config kind \<and> (kind \<noteq> WorkingSetTrim \<longrightarrow> mg_nativeWrite config))"

text \<open>The missing settings, separated by commas.\<close>

fun join_gaps :: "string list \<Rightarrow> string" where
  "join_gaps [] = []"
| "join_gaps [g] = g"
| "join_gaps (g # gs) = g @ '', '' @ join_gaps gs"

definition DescribeCleanConfigGaps :: "MemoryCleanConfigGate \<Rightarrow> CleanKind \<Rightarrow> string" where
  "DescribeCleanConfigGaps config kind =
     join_gaps
       ((if \<not> mg_cleanEnabled config then [''[memory].scheduled_clean_enabled = false''] else []) @
        (if \<not> level_allows config kind then [''[memory].max_clean_level too low''] else []) @
        (if kind \<noteq> WorkingSetTrim \<and> \<not> mg_nativeWrite config then [''[memory].allow_native_write = false''] else []) @
        (if \<not> mg_hasConfig config then [''no config file given'']
         else if \<not> overlay_allows config kind
         then [if kind = WorkingSetTrim then ''[application].mode / [layers].maintenance|emergency''
               else ''[application].mode=experimental and [layers].emergency'']
         else []))"

record MemoryCleanGateContext =
  gc_environment :: EnvironmentFacts
  gc_inputs :: GateInputs
  gc_gates :: GateEvaluation
  gc_auditWritable :: bool

definition GatherMemoryCleanGates ::
  "cli_params \<Rightarrow> bool \<Rightarrow> bool \<Rightarrow> bool \<Rightarrow> string \<Rightarrow> bool \<Rightarrow> bool \<Rightarrow> 's cli \<Rightarrow> MemoryCleanGateContext \<times> 's cli" where
  "GatherMemoryCleanGates P acknowledged configEnabled compiledIn capabilityId requireIsolated isolated W =
     (let env = GatherEnvironmentFacts P (cl_ticks W);
          probe = ProbeAuditWritable (cp_sysmsg P) (cp_io P) (DefaultAuditLogPath P) (cl_disk W);
          W1 = (tick W)\<lparr>cl_disk := snd probe\<rparr>;
          inputs = \<lparr>gi_compileTime = compiledIn, gi_config = configEnabled,
                    gi_commandLine = (acknowledged \<and> (\<not> requireIsolated \<or> isolated)),
                    gi_permissionAndEnvironment = EvaluateEnvironmentGate env, gi_audit = HasValue (fst probe),
                    gi_cooldown = cooldown_gate P capabilityId W1\<rparr>
      in (\<lparr>gc_environment = env, gc_inputs = inputs, gc_gates = EvaluateGates inputs,
           gc_auditWritable = HasValue (fst probe)\<rparr>, tick W1))"

fun CleanStepCompiledIn :: "build_options \<Rightarrow> CleanKind \<Rightarrow> bool" where
  "CleanStepCompiledIn B WorkingSetTrim = bo_memoryClean B"
| "CleanStepCompiledIn B StandbyListPurge = bo_standbyPurge B"
| "CleanStepCompiledIn B SystemFileCacheTrim = bo_fileCacheTrim B"

definition CleanStepNeedsIsolatedEnvironment :: "CleanKind \<Rightarrow> bool" where
  "CleanStepNeedsIsolatedEnvironment kind \<longleftrightarrow> kind \<noteq> WorkingSetTrim"

definition QueryAvailablePhysicalBytes :: "'s memory_api \<Rightarrow> 's \<Rightarrow> u64 option" where
  "QueryAvailablePhysicalBytes A s =
     (case GlobalMemoryStatusEx A s of Inl _ \<Rightarrow> None | Inr (_, available, _) \<Rightarrow> Some available)"

definition DescribeByteDelta :: "string \<Rightarrow> u64 option \<Rightarrow> u64 option \<Rightarrow> string" where
  "DescribeByteDelta prefix before after =
     prefix @ ''_before='' @ bytes_or_unknown before @ '' '' @ prefix @ ''_after='' @ bytes_or_unknown after @
     '' '' @ prefix @ ''_delta='' @
     (case (before, after) of (Some b, Some a) \<Rightarrow> dec_of_int (sint a - sint b) | _ \<Rightarrow> ''unknown'')"

section \<open>Executing the configured steps\<close>

text \<open>What is reported of the first step that is not allowed.\<close>

record blocked_step =
  bs_capability :: string
  bs_gate :: string
  bs_auditWritable :: bool
  bs_compileMissing :: bool
  bs_cmdlineMissing :: bool
  bs_isolatedMissing :: bool
  bs_cooldownBlocked :: bool
  bs_configMissing :: bool
  bs_configGaps :: string

fun check_steps ::
  "cli_params \<Rightarrow> build_options \<Rightarrow> MemoryCleanConfigGate \<Rightarrow> bool \<Rightarrow> bool \<Rightarrow> CleanKind list \<Rightarrow> bool \<Rightarrow> 's cli \<Rightarrow>
   blocked_step option \<times> 's cli" where
  "check_steps P B config acknowledged isolated [] auditWritable W = (None, W)"
| "check_steps P B config acknowledged isolated (step # steps) auditWritable W =
     (let configAllows = ConfigAllowsCleanStep config step;
          needsIsolated = CleanStepNeedsIsolatedEnvironment step;
          (context, W1) = GatherMemoryCleanGates P acknowledged configAllows (CleanStepCompiledIn B step)
                            (CleanKindCapabilityId step) needsIsolated isolated W;
          writable = (auditWritable \<and> gc_auditWritable context)
      in if \<not> ge_allowed (gc_gates context)
         then (Some \<lparr>bs_capability = CleanKindCapabilityId step, bs_gate = FirstBlockingGateName (gc_gates context),
                     bs_auditWritable = writable, bs_compileMissing = (\<not> gi_compileTime (gc_inputs context)),
                     bs_cmdlineMissing = (\<not> gi_commandLine (gc_inputs context)),
                     bs_isolatedMissing = (needsIsolated \<and> \<not> isolated),
                     bs_cooldownBlocked = (\<not> gi_cooldown (gc_inputs context)), bs_configMissing = (\<not> configAllows),
                     bs_configGaps = DescribeCleanConfigGaps config step\<rparr>, W1)
         else check_steps P B config acknowledged isolated steps writable W1)"

definition err_when :: "bool \<Rightarrow> string \<Rightarrow> 's cli \<Rightarrow> 's cli" where
  "err_when b t W = (if b then ErrorLine (t @ [LF]) W else W)"

definition report_blocked :: "blocked_step \<Rightarrow> 's cli \<Rightarrow> 's cli" where
  "report_blocked b W =
     err_when (bs_cooldownBlocked b) ''  hint     : the cooldown window is still open for that step''
     (err_when (bs_configMissing b) (''  hint     : the config would not allow that step (missing: '' @ bs_configGaps b @ '')'')
     (err_when (bs_cmdlineMissing b)
        ''  hint     : pass --acknowledge-system-wide-side-effects (action-specific confirmation; --force is not accepted)''
     (err_when (bs_isolatedMissing b)
        (''  hint     : the R3 steps additionally require --acknowledge-isolated-environment'' @
         '' (an isolated environment must be confirmed by the operator)'')
     (err_when (bs_compileMissing b)
        (''  hint     : that step is compiled out by default (build options OPTIMIZER_ENABLE_MEMORY_CLEAN /'' @
         '' OPTIMIZER_ENABLE_STANDBY_PURGE / OPTIMIZER_ENABLE_FILE_CACHE_TRIM)'')
     (err_when (\<not> bs_auditWritable b)
        (''  audit    : unavailable - a real action is refused before any system call'' @
         '' (audit must be writable first)'')
     (err_when True
        (''  --memory-clean --execute refused [capability: '' @ bs_capability b @ '', first blocked gate: '' @ bs_gate b @
         ''] (no system call was made)'') W))))))"

definition own_reading :: "cli_params \<Rightarrow> 's memory_api \<Rightarrow> 's \<Rightarrow> WorkingSetReading option" where
  "own_reading P A s = (case QueryOwnWorkingSet (cp_sysmsg P) A s of Inl _ \<Rightarrow> None | Inr r \<Rightarrow> Some r)"

text \<open>The readings before and after, in the text of the journal.\<close>

definition delta_text :: "cli_params \<Rightarrow> 's memory_api \<Rightarrow> 's \<Rightarrow> 's \<Rightarrow> string" where
  "delta_text P A s0 s1 =
     DescribeWorkingSetDelta (MakeWorkingSetDelta (own_reading P A s0) (own_reading P A s1)) @ '' '' @
     DescribeByteDelta ''standby'' (QueryStandbyBytes A s0) (QueryStandbyBytes A s1) @ '' '' @
     DescribeByteDelta ''cache'' (QuerySystemCacheBytes A s0) (QuerySystemCacheBytes A s1) @ '' '' @
     DescribeByteDelta ''avail'' (QueryAvailablePhysicalBytes A s0) (QueryAvailablePhysicalBytes A s1)"

definition failed_detail :: "CleanExecutionReport \<Rightarrow> string" where
  "failed_detail report =
     ''failed at step '' @ (case cr_failedStep report of None \<Rightarrow> CleanKindToString WorkingSetTrim | Some k \<Rightarrow> CleanKindToString k) @
     '': '' @ cr_failureDetail report"

definition clean_outcome :: "string \<Rightarrow> string \<Rightarrow> CleanExecutionReport result \<Rightarrow> bool \<times> string" where
  "clean_outcome ok_head ok_tail executed =
     (case executed of
        Inr report \<Rightarrow>
          (cr_ok report,
           if cr_ok report then ok_head @ dec_of_nat (cr_succeeded report) @ ok_tail else failed_detail report)
      | Inl e \<Rightarrow> (False, ''not executed '' @ error_text e))"

text \<open>Cooldowns are recorded step by step; a failure is only reported.\<close>

definition record_cooldown :: "cli_params \<Rightarrow> string \<Rightarrow> string \<Rightarrow> 's cli \<Rightarrow> 's cli" where
  "record_cooldown P label capabilityId W =
     (case RecordCooldownRun (cp_sysmsg P) (cp_io P) (DefaultCooldownLedgerPath P) capabilityId (cp_time P (cl_ticks W))
             (cl_disk W) of
        (Inl e, d) \<Rightarrow>
          WriteLine (''  cooldown : not recorded '' @ label @ error_text e @ '' (the action itself did complete)'')
            (tick (W\<lparr>cl_disk := d\<rparr>))
      | (Inr _, d) \<Rightarrow> tick (W\<lparr>cl_disk := d\<rparr>))"

fun record_cooldowns :: "cli_params \<Rightarrow> CleanKind list \<Rightarrow> 's cli \<Rightarrow> 's cli" where
  "record_cooldowns P [] W = W"
| "record_cooldowns P (k # ks) W =
     record_cooldowns P ks (record_cooldown P (''for '' @ CleanKindCapabilityId k @ '' '') (CleanKindCapabilityId k) W)"

definition run_plan ::
  "cli_params \<Rightarrow> 's memory_api \<Rightarrow> string \<Rightarrow> MemoryCleanPlan \<Rightarrow> 's cli \<Rightarrow> int \<times> 's cli" where
  "run_plan P A target plan W =
     (let s0 = cl_machine W;
          W1 = JournalAction P ''memory.clean_execute'' target True Before
                 ''intent: execute the planned clean steps (gates passed, readiness checked)'' W;
          (executed, s1) = ExecuteMemoryCleanPlan (SystemMemoryCleanBackend (cp_sysmsg P) A) plan s0;
          W2 = W1\<lparr>cl_machine := s1\<rparr>;
          deltaText = delta_text P A s0 s1;
          (ok, detail) = clean_outcome ''executed '' '' planned step(s)'' executed;
          W3 = WriteLine (''  verdict  : '' @ (if ok then ''executed'' else ''failed''))
                 (WriteLine (''  reading  : '' @ deltaText)
                 (WriteLine (''  steps    : '' @ dec_of_nat (length (mp_steps plan)))
                 (WriteLine ''Memory clean execute (steps from config; audit + gate checked before any call)'' W2)));
          W4 = err_when (\<not> ok) (''  detail   : '' @ detail) W3;
          risk = (if list_ex (\<lambda>k. k \<noteq> WorkingSetTrim) (mp_steps plan) then R3 else R1);
          W5 = AuditAction P ''memory.clean_execute'' risk target ok (main_ToUtf8 P detail) deltaText W4
      in if \<not> ok then (2, W5) else (0, record_cooldowns P (mp_steps plan) W5))"

definition RunMemoryCleanExecuteCommand ::
  "cli_params \<Rightarrow> build_options \<Rightarrow> 's memory_api \<Rightarrow> bool \<Rightarrow> MemoryCleanConfigGate \<Rightarrow> bool \<Rightarrow> bool \<Rightarrow> 's cli \<Rightarrow> int \<times> 's cli" where
  "RunMemoryCleanExecuteCommand P B A hasPath config acknowledged isolated W =
     (let target = (if hasPath then ''config'' else ''defaults'');
          plan = PlanMemoryClean (mg_maxLevel config) (mg_maxLevel config) True
      in if mp_steps plan = []
         then (2, err_when True
                 ''  --memory-clean --execute refused: nothing to do (level is none; no system call was made)'' W)
         else case check_steps P B config acknowledged isolated (mp_steps plan) True W of
                (Some b, W1) \<Rightarrow> (2, report_blocked b W1)
              | (None, W1) \<Rightarrow>
                  (let readiness = EvaluateCleanPlanReadiness B plan
                   in if \<not> rd_allImplemented readiness
                      then (2, err_when True
                              (''  note     : the R3 backends are implemented only after the isolated environment is ready'' @
                               '' (they are not a substitute for the gates)'')
                              (err_when True
                                (''  --memory-clean --execute refused: gates passed, but step '' @ [CHR 0x27] @
                                 (case rd_firstUnimplemented readiness of None \<Rightarrow> ''unknown'' | Some k \<Rightarrow> CleanKindToString k) @
                                 [CHR 0x27] @ '' has no real backend in this build (it returns Unsupported).'' @
                                 '' No system call was made.'') W1))
                      else run_plan P A target plan W1))"

section \<open>Trimming the own working set\<close>

definition ascii_or_mark :: "string \<Rightarrow> string" where
  "ascii_or_mark t = map (\<lambda>c. if (of_char c :: nat) \<le> 0x7F then c else CHR ''?'') t"

definition RunMemoryCleanSelfTrim ::
  "cli_params \<Rightarrow> 's memory_api \<Rightarrow> bool \<Rightarrow> MemoryCleanConfigGate \<Rightarrow> bool \<Rightarrow> 's cli \<Rightarrow> int \<times> 's cli" where
  "RunMemoryCleanSelfTrim P A hasPath config acknowledged W =
     (let target = (if hasPath then ''config'' else ''defaults'');
          (context, W1) = GatherMemoryCleanGates P acknowledged (ConfigAllowsCleanStep config WorkingSetTrim) True
                            kMemoryCleanCapabilityId False False W
      in if \<not> ge_allowed (gc_gates context)
         then (2,
           err_when (\<not> gi_commandLine (gc_inputs context))
             ''  hint     : pass --acknowledge-system-wide-side-effects (action-specific confirmation; --force is not accepted)''
           (err_when (\<not> gi_config (gc_inputs context))
             (''  hint     : the config would not allow this step (missing: '' @ DescribeCleanConfigGaps config WorkingSetTrim @ '')'')
           (err_when (\<not> gi_compileTime (gc_inputs context))
             (''  hint     : this capability is compiled out by default'' @
              '' (build option OPTIMIZER_ENABLE_MEMORY_CLEAN)'')
           (err_when (\<not> gc_auditWritable context)
             (''  audit    : unavailable - a real action is refused before any system call'' @
              '' (audit must be writable first)'')
           (err_when True
             (''  --memory-clean --execute-self-trim refused [first blocked gate: '' @
              FirstBlockingGateName (gc_gates context) @ ''] (no system call was made)'') W1)))))
         else
           (let plan = PlanMemoryClean Clean_Light (mg_maxLevel config) True
            in if \<not> mp_allowed plan \<or> mp_steps plan = []
               then (2, err_when True
                       (''  --memory-clean --execute-self-trim refused: no executable step for this configuration'' @
                        '' (no system call was made)'') W1)
               else
                 (let W2 = JournalAction P ''memory.clean_execute'' target True Before
                             ''intent: trim own process working set (single call, no privilege)'' W1;
                      s0 = cl_machine W2;
                      (executed, s1) = ExecuteMemoryCleanPlan (SelfWorkingSetTrimBackend (cp_sysmsg P) A) plan s0;
                      deltaText = DescribeWorkingSetDelta (MakeWorkingSetDelta (own_reading P A s0) (own_reading P A s1));
                      (ok, detail) = clean_outcome ''self working set trim executed ('' '' step(s), own process only)'' executed;
                      W3 = WriteLine (''  verdict  : '' @ (if ok then ''executed'' else ''failed''))
                             (WriteLine (''  reading  : '' @ deltaText)
                             (WriteLine ''  step     : working_set_trim (level light; no other step is executed)''
                             (WriteLine ''Memory clean execute (R1; own process only, single call)'' (W2\<lparr>cl_machine := s1\<rparr>))));
                      W4 = WriteLine
                             (''  note     : trimming a working set does not free system cache; the pages are refilled'' @
                              '' on demand (reversible, R1)'')
                             (err_when (\<not> ok) (''  detail   : '' @ detail) W3);
                      W5 = AuditAction P ''memory.clean_execute'' R1 target ok (ascii_or_mark detail) deltaText W4
                  in if \<not> ok then (2, W5) else (0, record_cooldown P [] kMemoryCleanCapabilityId W5))))"

section \<open>The command\<close>

record clean_args =
  ca_configPath :: "path option"
  ca_acknowledged :: bool
  ca_executeSelfTrim :: bool
  ca_execute :: bool
  ca_isolated :: bool

definition no_clean_args :: clean_args where
  "no_clean_args =
     \<lparr>ca_configPath = None, ca_acknowledged = False, ca_executeSelfTrim = False, ca_execute = False, ca_isolated = False\<rparr>"

fun parse_clean_args :: "string list \<Rightarrow> clean_args \<Rightarrow> string + clean_args" where
  "parse_clean_args [] a = Inr a"
| "parse_clean_args (arg # args) a =
     (if arg = ''--dry-run'' then parse_clean_args args a
      else if arg = ''--acknowledge-system-wide-side-effects'' then parse_clean_args args (a\<lparr>ca_acknowledged := True\<rparr>)
      else if arg = ''--execute-self-trim'' then parse_clean_args args (a\<lparr>ca_executeSelfTrim := True\<rparr>)
      else if arg = ''--force''
      then Inl (''  --force is not accepted; use an action-specific confirmation such as'' @
                '' --acknowledge-system-wide-side-effects'')
      else if arg = ''--execute'' then parse_clean_args args (a\<lparr>ca_execute := True\<rparr>)
      else if arg = ''--acknowledge-isolated-environment'' then parse_clean_args args (a\<lparr>ca_isolated := True\<rparr>)
      else if ca_configPath a \<noteq> None then Inl (''  unknown --memory-clean option: '' @ arg)
      else parse_clean_args args (a\<lparr>ca_configPath := Some arg\<rparr>))"

definition gate_of_snapshot :: "ConfigSnapshot \<Rightarrow> MemoryCleanConfigGate" where
  "gate_of_snapshot s =
     \<lparr>mg_cleanEnabled = mc_scheduledCleanEnabled (cs_memory s), mg_nativeWrite = mc_allowNativeWrite (cs_memory s),
      mg_maxLevel = mc_maxCleanLevel (cs_memory s), mg_mode = ap_mode (cs_application s), mg_layers = cs_layers s,
      mg_hasConfig = True\<rparr>"

fun level_name :: "CleanLevel \<Rightarrow> string" where
  "level_name Clean_None = ''none''"
| "level_name Clean_Light = ''light''"
| "level_name Clean_Medium = ''medium''"
| "level_name Clean_Deep = ''deep''"

definition plan_text :: "MemoryCleanPlan \<Rightarrow> string" where
  "plan_text plan =
     (if mp_steps plan = [] then ''nothing to do (level is none)'' else join_gaps (map CleanKindToString (mp_steps plan)))"

text \<open>The path that only prints the plan, and records that it did.\<close>

definition clean_dry_run ::
  "cli_params \<Rightarrow> path option \<Rightarrow> MemoryCleanConfigGate \<Rightarrow> bool \<Rightarrow> 's cli \<Rightarrow> int \<times> 's cli" where
  "clean_dry_run P configPath config acknowledged W =
     (let (context, W1) = GatherMemoryCleanGates P acknowledged (ConfigAllowsCleanStep config WorkingSetTrim) True
                            kMemoryCleanCapabilityId False False W;
          gates = gc_gates context;
          plan = PlanMemoryClean (mg_maxLevel config) (mg_maxLevel config) (ge_allowed gates);
          target = (if configPath \<noteq> None then ''config'' else ''defaults'');
          W2 = JournalAction P ''memory.clean_plan'' target True Before
                 ''intent: plan memory clean (dry-run, no system call)'' W1;
          W3 = WriteLine ''Memory clean plan (dry-run; this mode performs no clean)'' W2;
          W4 = WriteLine (''  level    : '' @ level_name (mg_maxLevel config) @ '' (from '' @
                 (case configPath of Some p \<Rightarrow> p | None \<Rightarrow> ''built-in default'') @ '')'') W3;
          W5 = WriteLine (''  plan     : '' @ plan_text plan) W4;
          W6 = WriteLine (''  verdict  : '' @
                 (if mp_allowed plan then ''gates passed (dry-run only: --execute-self-trim runs the R1 step)''
                  else ''refused (execution not performed)'') @
                 (if \<not> ge_allowed gates \<and> ge_firstBlocking gates \<noteq> None
                  then '' [first blocked gate: '' @ FirstBlockingGateName gates @ '']'' else [])) W5;
          W7 = (if \<not> gi_config (gc_inputs context)
                then WriteLine (''  config   : would not allow the R1 step (missing: '' @
                       DescribeCleanConfigGaps config WorkingSetTrim @ '')'') W6
                else W6);
          W8 = WriteLine (''  note     : no system call was made; --execute-self-trim runs the R1 self trim (own process);'' @
                 '' the R3 steps have no real backend'') W7;
          W9 = WriteLine (''  confirm  : acknowledge-system-wide-side-effects='' @ (if acknowledged then ''yes'' else ''no'') @
                 '' (action-specific confirmation; --force is not accepted)'') W8
      in (0, AuditAction P ''memory.clean_plan'' R2 target True ''plan only (dry-run; no system call)''
               (if mp_steps plan = [] then ''no steps planned'' else ''working_set_trim planned, dry-run (no execution)'') W9))"

definition RunMemoryCleanCommand ::
  "cli_params \<Rightarrow> build_options \<Rightarrow> 's memory_api \<Rightarrow> 'n toml_api \<Rightarrow> (path \<Rightarrow> string + 'n) \<Rightarrow> string list \<Rightarrow> 's cli \<Rightarrow> int \<times> 's cli" where
  "RunMemoryCleanCommand P B A T parse args W =
     (case parse_clean_args args no_clean_args of
        Inl t \<Rightarrow> (2, err_when True t W)
      | Inr a \<Rightarrow>
          (case (case ca_configPath a of
                   None \<Rightarrow> Success no_config_gate
                 | Some p \<Rightarrow> (case LoadConfig T parse p of Inl e \<Rightarrow> Failure e | Inr s \<Rightarrow> Success (gate_of_snapshot s))) of
             Inl e \<Rightarrow> (2, err_when True (''  config load failed '' @ error_text e) W)
           | Inr config \<Rightarrow>
               if ca_execute a
               then RunMemoryCleanExecuteCommand P B A (ca_configPath a \<noteq> None) config (ca_acknowledged a) (ca_isolated a) W
               else if ca_executeSelfTrim a
               then RunMemoryCleanSelfTrim P A (ca_configPath a \<noteq> None) config (ca_acknowledged a) W
               else clean_dry_run P (ca_configPath a) config (ca_acknowledged a) W))"


section \<open>Gathering the gates\<close>

text \<open>The disk after so many probes of the audit log; each check of a step makes one, and reads the clock twice.\<close>

definition probed :: "cli_params \<Rightarrow> nat \<Rightarrow> disk \<Rightarrow> disk" where
  "probed P i d = ((\<lambda>d. snd (ProbeAuditWritable (cp_sysmsg P) (cp_io P) (DefaultAuditLogPath P) d)) ^^ i) d"

lemma probed_Suc: "probed P i (probed P 1 d) = probed P (Suc i) d"
  unfolding probed_def by (induction i) simp_all

lemma GatherMemoryCleanGates_facts:
  assumes "GatherMemoryCleanGates P ack cfg compiled cap req isol W = (c, W')"
  shows "cl_machine W' = cl_machine W" and "cl_lines W' = cl_lines W"
    and "q \<noteq> DefaultAuditLogPath P \<Longrightarrow> files (cl_disk W') q = files (cl_disk W) q"
    and "ge_allowed (gc_gates c) \<longleftrightarrow>
      compiled \<and> cfg \<and> ack \<and> (req \<longrightarrow> isol) \<and> EvaluateEnvironmentGate (GatherEnvironmentFacts P (cl_ticks W)) \<and>
      gc_auditWritable c \<and> gi_cooldown (gc_inputs c)"
    and "gi_cooldown (gc_inputs c) = cooldown_gate P cap (W'\<lparr>cl_ticks := cl_ticks W + 1\<rparr>)"
    and "gc_auditWritable c = HasValue (fst (ProbeAuditWritable (cp_sysmsg P) (cp_io P) (DefaultAuditLogPath P) (cl_disk W)))"
    and "cl_disk W' = probed P 1 (cl_disk W)" and "cl_ticks W' = cl_ticks W + 2"
proof -
  obtain r d where p: "ProbeAuditWritable (cp_sysmsg P) (cp_io P) (DefaultAuditLogPath P) (cl_disk W) = (r, d)" by fastforce
  note both = assms [unfolded GatherMemoryCleanGates_def Let_def p fst_conv snd_conv prod.inject]
  note def = conjunct1 [OF both, symmetric] conjunct2 [OF both, symmetric]
  show "cl_machine W' = cl_machine W" "cl_lines W' = cl_lines W" using def by simp_all
  show "q \<noteq> DefaultAuditLogPath P \<Longrightarrow> files (cl_disk W') q = files (cl_disk W) q"
    using def ProbeAuditWritable_frame [OF p] by simp
  show "ge_allowed (gc_gates c) \<longleftrightarrow>
      compiled \<and> cfg \<and> ack \<and> (req \<longrightarrow> isol) \<and> EvaluateEnvironmentGate (GatherEnvironmentFacts P (cl_ticks W)) \<and>
      gc_auditWritable c \<and> gi_cooldown (gc_inputs c)"
    using def by (auto simp: EvaluateGates_explicit all_gates gate_passed_def)
  show "gi_cooldown (gc_inputs c) = cooldown_gate P cap (W'\<lparr>cl_ticks := cl_ticks W + 1\<rparr>)"
    using def by (simp add: cooldown_gate_def cong: sum.case_cong)
  show "gc_auditWritable c = HasValue (fst (ProbeAuditWritable (cp_sysmsg P) (cp_io P) (DefaultAuditLogPath P) (cl_disk W)))"
    "cl_disk W' = probed P 1 (cl_disk W)" "cl_ticks W' = cl_ticks W + 2"
    using def p by (simp_all add: probed_def)
qed

text \<open>What the check of the steps has seen of a step that it let through, on the disk \<open>d\<close> at reading \<open>n\<close> of the clock.\<close>

definition step_permitted ::
  "cli_params \<Rightarrow> build_options \<Rightarrow> MemoryCleanConfigGate \<Rightarrow> bool \<Rightarrow> bool \<Rightarrow> CleanKind \<Rightarrow> disk \<Rightarrow> nat \<Rightarrow> bool" where
  "step_permitted P B config ack isol k d n \<longleftrightarrow>
     ack \<and> (k \<noteq> WorkingSetTrim \<longrightarrow> isol) \<and> CleanStepCompiledIn B k \<and> ConfigAllowsCleanStep config k \<and>
     EvaluateEnvironmentGate (GatherEnvironmentFacts P n) \<and>
     HasValue (fst (ProbeAuditWritable (cp_sysmsg P) (cp_io P) (DefaultAuditLogPath P) d)) \<and>
     (\<exists>ledger. ReadCooldownLedger (cp_sysmsg P) (cp_io P) (DefaultCooldownLedgerPath P) (probed P 1 d) = Success ledger \<and>
        EvaluateCooldownGate ledger (CleanKindCapabilityId k) (cp_time P (n + 1)) kDefaultCooldown)"

lemma check_steps_facts:
  "check_steps P B config ack isol steps a W = (b, W') \<Longrightarrow>
     cl_machine W' = cl_machine W \<and> cl_lines W' = cl_lines W \<and>
     (\<forall>q. q \<noteq> DefaultAuditLogPath P \<longrightarrow> files (cl_disk W') q = files (cl_disk W) q) \<and>
     (b = None \<longrightarrow> (\<forall>i < length steps.
        step_permitted P B config ack isol (steps ! i) (probed P i (cl_disk W)) (cl_ticks W + 2 * i)))"
proof (induction steps arbitrary: a W)
  case (Cons k ks)
  obtain c W1 where g: "GatherMemoryCleanGates P ack (ConfigAllowsCleanStep config k) (CleanStepCompiledIn B k)
      (CleanKindCapabilityId k) (CleanStepNeedsIsolatedEnvironment k) isol W = (c, W1)" by fastforce
  note f = GatherMemoryCleanGates_facts [OF g]
  show ?case
  proof (cases "ge_allowed (gc_gates c)")
    case False
    then have "W' = W1" "b \<noteq> None" using Cons.prems g by (auto simp: Let_def)
    then show ?thesis using f(1-3) by blast
  next
    case True
    have "check_steps P B config ack isol ks (a \<and> gc_auditWritable c) W1 = (b, W')"
      using Cons.prems g True by (simp add: Let_def)
    from Cons.IH [OF this] have ih: "cl_machine W' = cl_machine W1 \<and> cl_lines W' = cl_lines W1 \<and>
     (\<forall>q. q \<noteq> DefaultAuditLogPath P \<longrightarrow> files (cl_disk W') q = files (cl_disk W1) q) \<and>
     (b = None \<longrightarrow> (\<forall>i < length ks.
        step_permitted P B config ack isol (ks ! i) (probed P i (cl_disk W1)) (cl_ticks W1 + 2 * i)))" .
    have "step_permitted P B config ack isol k (probed P 0 (cl_disk W)) (cl_ticks W)"
      using True f(4-7)
      by (auto simp: step_permitted_def CleanStepNeedsIsolatedEnvironment_def cooldown_gate_def probed_def split: sum.splits)
    moreover have "probed P i (cl_disk W1) = probed P (Suc i) (cl_disk W)" "cl_ticks W1 + 2 * i = cl_ticks W + 2 * Suc i" for i
      using f(7,8) probed_Suc [of P i "cl_disk W"] by simp_all
    ultimately show ?thesis using ih f(1-3) by (auto simp: nth_Cons less_Suc_eq_0_disj split: nat.splits)
  qed
qed simp

lemma err_when_frame [simp]:
  "cl_machine (err_when b t W) = cl_machine W" "cl_disk (err_when b t W) = cl_disk W"
  by (simp_all add: err_when_def)

lemma report_blocked_frame [simp]:
  "cl_machine (report_blocked b W) = cl_machine W" "cl_disk (report_blocked b W) = cl_disk W"
  by (simp_all add: report_blocked_def)

text \<open>The three ways the executing command ends.\<close>

lemma RunMemoryCleanExecuteCommand_cases:
  assumes "RunMemoryCleanExecuteCommand P B A hasPath config ack isol W = (rc, W')"
  obtains (refused) "rc = 2" "cl_machine W' = cl_machine W"
      "\<forall>q. q \<noteq> DefaultAuditLogPath P \<longrightarrow> files (cl_disk W') q = files (cl_disk W) q"
  | (ran) W1 plan where "plan = PlanMemoryClean (mg_maxLevel config) (mg_maxLevel config) True" "mp_steps plan \<noteq> []"
      "\<forall>i < length (mp_steps plan). CleanStepImplemented B (mp_steps plan ! i) \<and>
         step_permitted P B config ack isol (mp_steps plan ! i) (probed P i (cl_disk W)) (cl_ticks W + 2 * i)"
      "check_steps P B config ack isol (mp_steps plan) True W = (None, W1)"
      "run_plan P A (if hasPath then ''config'' else ''defaults'') plan W1 = (rc, W')"
proof -
  define plan where "plan = PlanMemoryClean (mg_maxLevel config) (mg_maxLevel config) True"
  note c = assms [unfolded RunMemoryCleanExecuteCommand_def Let_def plan_def [symmetric]]
  show thesis
  proof (cases "mp_steps plan = []")
    case True
    then show thesis using c refused by auto
  next
    case False
    obtain b W1 where k: "check_steps P B config ack isol (mp_steps plan) True W = (b, W1)" by fastforce
    note f = check_steps_facts [OF k]
    show thesis
    proof (cases b)
      case (Some x)
      then show thesis using c False k f refused by auto
    next
      case None
      show thesis
      proof (cases "rd_allImplemented (EvaluateCleanPlanReadiness B plan)")
        case notready: False
        then show thesis using c False k None f refused by auto
      next
        case True
        then have "\<forall>k \<in> set (mp_steps plan). CleanStepImplemented B k"
          by (simp add: EvaluateCleanPlanReadiness_exact list_all_iff)
        then show thesis using ran [OF plan_def False] c False k None f True by auto
      qed
    qed
  qed
qed


section \<open>The cooldown after a run\<close>

text \<open>The ledger on disk keeps the gate of a capability closed until the window from \<open>t0\<close> is over.\<close>

definition ledger_blocks :: "cli_params \<Rightarrow> string \<Rightarrow> int \<Rightarrow> disk \<Rightarrow> bool" where
  "ledger_blocks P cap t0 d \<longleftrightarrow>
     (\<exists>l. files d (DefaultCooldownLedgerPath P) = Some (ledger_text l) \<and> ledger_ok l \<and>
        (\<forall>t. t < t0 + kDefaultCooldown \<longrightarrow> \<not> EvaluateCooldownGate l cap t kDefaultCooldown))"

lemma read_ledger_text:
  assumes "ReadCooldownLedger sysmsg io p d = Success l'" and "files d p = Some (ledger_text l)" and "ledger_ok l"
    and "fail_read io p = None"
  shows "l' = l"
proof -
  have "ReadCooldownLedger sysmsg no_faults p d = Success l'" by (rule ReadCooldownLedger_undisturbed [OF assms(4,1)])
  then show ?thesis using assms(2) parse_ledger_text [OF assms(3)] by (auto simp: ReadCooldownLedger_ok_iff open_read_def)
qed

lemma ledger_blocks_gate:
  assumes "ledger_blocks P cap t0 (cl_disk W)" and "cp_time P (cl_ticks W) < t0 + kDefaultCooldown"
    and "fail_read (cp_io P) (DefaultCooldownLedgerPath P) = None"
  shows "\<not> cooldown_gate P cap W"
proof
  assume g: "cooldown_gate P cap W"
  then obtain l' where r: "ReadCooldownLedger (cp_sysmsg P) (cp_io P) (DefaultCooldownLedgerPath P) (cl_disk W) = Success l'"
    and e: "EvaluateCooldownGate l' cap (cp_time P (cl_ticks W)) kDefaultCooldown"
    by (auto simp: cooldown_gate_def split: sum.splits)
  obtain l where l: "files (cl_disk W) (DefaultCooldownLedgerPath P) = Some (ledger_text l)" "ledger_ok l"
      "\<forall>t. t < t0 + kDefaultCooldown \<longrightarrow> \<not> EvaluateCooldownGate l cap t kDefaultCooldown"
    using assms(1) by (auto simp: ledger_blocks_def)
  have "l' = l" by (rule read_ledger_text [OF r l(1,2) assms(3)])
  then show False using e l(3) assms(2) by blast
qed

lemma record_blocks:
  assumes "RecordCooldownRun sysmsg (cp_io P) (DefaultCooldownLedgerPath P) cap now d = (Success u, d')"
    and "cap_ok cap" and "int64_ok now" and "0 < now" and "t0 \<le> now"
  shows "ledger_blocks P cap t0 d'"
proof -
  from assms(1) obtain l where r: "ReadCooldownLedger sysmsg (cp_io P) (DefaultCooldownLedgerPath P) d = Success l"
    and c: "cap \<noteq> []"
    and w: "WriteCooldownLedger sysmsg (cp_io P) (DefaultCooldownLedgerPath P) (WithCooldownRun l cap now) d = (Success u, d')"
    by (rule RecordCooldownRun_cases)
  have "ledger_ok (WithCooldownRun l cap now)"
    by (rule ledger_ok_WithCooldownRun [OF ReadCooldownLedger_ledger_ok [OF r] assms(2,3)])
  moreover have "files d' (DefaultCooldownLedgerPath P) = Some (ledger_text (WithCooldownRun l cap now))"
    using WriteCooldownLedger_ok [OF w] by simp
  ultimately show ?thesis
    unfolding ledger_blocks_def using WithCooldownRun_blocks [OF c assms(4)] assms(5) by force
qed

lemma record_keeps_blocks:
  assumes "ledger_blocks P cap t0 d"
    and "RecordCooldownRun sysmsg (cp_io P) (DefaultCooldownLedgerPath P) c now d = (Success u, d')"
    and "cap_ok c" and "int64_ok now" and "fail_read (cp_io P) (DefaultCooldownLedgerPath P) = None"
  shows "ledger_blocks P cap t0 d'"
proof -
  from assms(2) obtain l' where r: "ReadCooldownLedger sysmsg (cp_io P) (DefaultCooldownLedgerPath P) d = Success l'"
    and w: "WriteCooldownLedger sysmsg (cp_io P) (DefaultCooldownLedgerPath P) (WithCooldownRun l' c now) d = (Success u, d')"
    by (rule RecordCooldownRun_cases)
  obtain l where l: "files d (DefaultCooldownLedgerPath P) = Some (ledger_text l)" "ledger_ok l"
      "\<forall>t. t < t0 + kDefaultCooldown \<longrightarrow> \<not> EvaluateCooldownGate l cap t kDefaultCooldown"
    using assms(1) by (auto simp: ledger_blocks_def)
  have "l' = l" by (rule read_ledger_text [OF r l(1,2) assms(5)])
  moreover have "ledger_ok (WithCooldownRun l c now)" by (rule ledger_ok_WithCooldownRun [OF l(2) assms(3,4)])
  moreover have "files d' (DefaultCooldownLedgerPath P) = Some (ledger_text (WithCooldownRun l' c now))"
    using WriteCooldownLedger_ok [OF w] by simp
  ultimately show ?thesis using l(3) WithCooldownRun_never_shortens unfolding ledger_blocks_def by blast
qed

text \<open>The line that says that a cooldown was not recorded.\<close>

definition reports_unrecorded :: "'s cli \<Rightarrow> bool" where
  "reports_unrecorded W \<longleftrightarrow> (\<exists>t. (To_Out, ''  cooldown : not recorded '' @ t) \<in> set (cl_lines W))"

lemma record_cooldown_recorded:
  assumes "\<not> reports_unrecorded (record_cooldown P label cap W)"
  obtains d where "RecordCooldownRun (cp_sysmsg P) (cp_io P) (DefaultCooldownLedgerPath P) cap (cp_time P (cl_ticks W))
      (cl_disk W) = (Success (), d)" "record_cooldown P label cap W = tick (W\<lparr>cl_disk := d\<rparr>)"
proof -
  obtain r d where e: "RecordCooldownRun (cp_sysmsg P) (cp_io P) (DefaultCooldownLedgerPath P) cap (cp_time P (cl_ticks W))
      (cl_disk W) = (r, d)" by fastforce
  show thesis
  proof (cases r)
    case (Inl x)
    then show thesis using assms e by (auto simp: record_cooldown_def reports_unrecorded_def)
  next
    case (Inr u)
    then show thesis using that [of d] e by (simp add: record_cooldown_def)
  qed
qed

lemma record_cooldowns_lines: "set (cl_lines W) \<subseteq> set (cl_lines (record_cooldowns P ks W))"
proof (induction ks arbitrary: W)
  case (Cons k ks)
  have "set (cl_lines W) \<subseteq> set (cl_lines (record_cooldown P (''for '' @ CleanKindCapabilityId k @ '' '') (CleanKindCapabilityId k) W))"
    by (auto simp: record_cooldown_def split: prod.splits sum.splits)
  also have "\<dots> \<subseteq> set (cl_lines (record_cooldowns P (k # ks) W))" using Cons.IH by simp
  finally show ?case .
qed simp

lemma reports_unrecorded_mono: "set (cl_lines W) \<subseteq> set (cl_lines W') \<Longrightarrow> reports_unrecorded W \<Longrightarrow> reports_unrecorded W'"
  by (auto simp: reports_unrecorded_def)

lemma cap_ok_CleanKind: "cap_ok (CleanKindCapabilityId k)"
  by (cases k) (simp_all add: cap_ok_def)

lemma record_cooldowns_keep:
  assumes "ledger_blocks P cap t0 (cl_disk W)" and "\<not> reports_unrecorded (record_cooldowns P ks W)"
    and "\<forall>n. int64_ok (cp_time P n)" and "fail_read (cp_io P) (DefaultCooldownLedgerPath P) = None"
  shows "ledger_blocks P cap t0 (cl_disk (record_cooldowns P ks W))"
  using assms(1,2)
proof (induction ks arbitrary: W)
  case (Cons k ks)
  let ?W1 = "record_cooldown P (''for '' @ CleanKindCapabilityId k @ '' '') (CleanKindCapabilityId k) W"
  have "\<not> reports_unrecorded ?W1"
    using Cons.prems(2) reports_unrecorded_mono [OF record_cooldowns_lines [of ?W1 P ks]] by auto
  then obtain d where d: "RecordCooldownRun (cp_sysmsg P) (cp_io P) (DefaultCooldownLedgerPath P) (CleanKindCapabilityId k)
      (cp_time P (cl_ticks W)) (cl_disk W) = (Success (), d)" "?W1 = tick (W\<lparr>cl_disk := d\<rparr>)"
    by (rule record_cooldown_recorded)
  have "ledger_blocks P cap t0 d"
    by (rule record_keeps_blocks [OF Cons.prems(1) d(1) cap_ok_CleanKind _ assms(4)]) (use assms(3) in blast)
  then have "ledger_blocks P cap t0 (cl_disk ?W1)" using d(2) by simp
  from Cons.IH [OF this] show ?case using Cons.prems(2) by simp
qed simp


lemma run_plan_success_blocks:
  assumes "run_plan P A target plan W = (0, W')" and "mp_steps plan = k # ks" and "\<not> reports_unrecorded W'"
    and "fail_read (cp_io P) (DefaultCooldownLedgerPath P) = None"
    and "\<forall>n. 0 < cp_time P n \<and> int64_ok (cp_time P n) \<and> t0 \<le> cp_time P n"
  shows "ledger_blocks P (CleanKindCapabilityId k) t0 (cl_disk W')"
proof -
  obtain V where V: "W' = record_cooldowns P (k # ks) V"
    using assms(1,2) by (auto simp: run_plan_def Let_def split: prod.splits if_splits)
  let ?V1 = "record_cooldown P (''for '' @ CleanKindCapabilityId k @ '' '') (CleanKindCapabilityId k) V"
  have W': "W' = record_cooldowns P ks ?V1" using V by simp
  have "\<not> reports_unrecorded ?V1"
    using assms(3) reports_unrecorded_mono [OF record_cooldowns_lines [of ?V1 P ks]] W' by auto
  then obtain d where d: "RecordCooldownRun (cp_sysmsg P) (cp_io P) (DefaultCooldownLedgerPath P) (CleanKindCapabilityId k)
      (cp_time P (cl_ticks V)) (cl_disk V) = (Success (), d)" "?V1 = tick (V\<lparr>cl_disk := d\<rparr>)"
    by (rule record_cooldown_recorded)
  have "ledger_blocks P (CleanKindCapabilityId k) t0 d"
    by (rule record_blocks [OF d(1) cap_ok_CleanKind]) (use assms(5) in blast)+
  then have "ledger_blocks P (CleanKindCapabilityId k) t0 (cl_disk ?V1)" using d(2) by simp
  then show ?thesis
    unfolding W' by (rule record_cooldowns_keep) (use assms(3-5) W' in blast)+
qed

lemma plan_starts_with_trim:
  "mp_steps (PlanMemoryClean l l g) \<noteq> [] \<Longrightarrow> \<exists>ks. mp_steps (PlanMemoryClean l l g) = WorkingSetTrim # ks"
  by (cases l) (simp_all add: PlanMemoryClean_steps)

lemma gather_blocked:
  assumes "GatherMemoryCleanGates P ack cfg compiled cap req isol W = (c, W')" and "ledger_blocks P cap t0 (cl_disk W)"
    and "\<forall>n. cp_time P n < t0 + kDefaultCooldown" and "fail_read (cp_io P) (DefaultCooldownLedgerPath P) = None"
  shows "\<not> ge_allowed (gc_gates c)"
proof -
  note f = GatherMemoryCleanGates_facts [OF assms(1)]
  have "ledger_blocks P cap t0 (cl_disk (W'\<lparr>cl_ticks := cl_ticks W + 1\<rparr>))"
    using assms(2) f(3) by (simp add: ledger_blocks_def)
  then have "\<not> cooldown_gate P cap (W'\<lparr>cl_ticks := cl_ticks W + 1\<rparr>)"
    by (rule ledger_blocks_gate) (use assms(3,4) in auto)
  then show ?thesis using f(4,5) by simp
qed

lemma execute_blocked:
  assumes "ledger_blocks P ''memory.clean'' t0 (cl_disk W)" and "\<forall>n. cp_time P n < t0 + kDefaultCooldown"
    and "fail_read (cp_io P) (DefaultCooldownLedgerPath P) = None"
    and "RunMemoryCleanExecuteCommand P B A hasPath config ack isol W = (rc, W')"
  shows "rc = 2 \<and> cl_machine W' = cl_machine W"
  using assms(4)
proof (cases rule: RunMemoryCleanExecuteCommand_cases)
  case (ran W1 plan)
  then obtain ks where ks: "mp_steps plan = WorkingSetTrim # ks" using plan_starts_with_trim by blast
  obtain c W2 where g: "GatherMemoryCleanGates P ack (ConfigAllowsCleanStep config WorkingSetTrim) (CleanStepCompiledIn B WorkingSetTrim)
      (CleanKindCapabilityId WorkingSetTrim) (CleanStepNeedsIsolatedEnvironment WorkingSetTrim) isol W = (c, W2)" by fastforce
  have "\<not> ge_allowed (gc_gates c)" using gather_blocked [OF g, of t0] assms(1-3) by simp
  then show ?thesis using ran(4) ks g by (simp add: Let_def)
qed simp

lemma self_trim_blocked:
  assumes "ledger_blocks P ''memory.clean'' t0 (cl_disk W)" and "\<forall>n. cp_time P n < t0 + kDefaultCooldown"
    and "fail_read (cp_io P) (DefaultCooldownLedgerPath P) = None"
    and "RunMemoryCleanSelfTrim P A hasPath config ack W = (rc, W')"
  shows "rc = 2 \<and> cl_machine W' = cl_machine W"
proof -
  obtain c W1 where g: "GatherMemoryCleanGates P ack (ConfigAllowsCleanStep config WorkingSetTrim) True
      kMemoryCleanCapabilityId False False W = (c, W1)" by fastforce
  have "\<not> ge_allowed (gc_gates c)"
    using gather_blocked [OF g, of t0] assms(1-3) by (simp add: kMemoryCleanCapabilityId_def)
  then show ?thesis using assms(4) g GatherMemoryCleanGates_facts(1) [OF g]
    by (auto simp: RunMemoryCleanSelfTrim_def Let_def)
qed

text \<open>
  C6: After a clean that succeeded and reported no unrecorded cooldown, neither executing path of the
  command touches the machine again within the cooldown, also in a later process: it is refused
  with exit code 2.  The hypotheses say that all clock readings lie in one cooldown window, and that
  reads of the ledger do not break off in the middle.\<close>
theorem memory_clean_cooldown_enforced:
  assumes "RunMemoryCleanExecuteCommand P B A hasPath config ack isol W = (0, W1)" and "\<not> reports_unrecorded W1"
    and "\<forall>n. 0 < t0 \<and> t0 \<le> cp_time P n \<and> cp_time P n < t0 + kDefaultCooldown \<and> int64_ok (cp_time P n)"
    and "fail_read (cp_io P) (DefaultCooldownLedgerPath P) = None"
    and "files (cl_disk V) (DefaultCooldownLedgerPath P) = files (cl_disk W1) (DefaultCooldownLedgerPath P)"
  shows "(RunMemoryCleanExecuteCommand P B' A' hasPath' config' ack' isol' V = (rc, V') \<longrightarrow>
      rc = 2 \<and> cl_machine V' = cl_machine V) \<and>
    (RunMemoryCleanSelfTrim P A' hasPath' config' ack' V = (rc, V') \<longrightarrow> rc = 2 \<and> cl_machine V' = cl_machine V)"
proof -
  have "ledger_blocks P ''memory.clean'' t0 (cl_disk W1)"
    using assms(1)
  proof (cases rule: RunMemoryCleanExecuteCommand_cases)
    case (ran W2 plan)
    then obtain ks where "mp_steps plan = WorkingSetTrim # ks" using plan_starts_with_trim by blast
    moreover have "\<forall>n. 0 < cp_time P n \<and> int64_ok (cp_time P n) \<and> t0 \<le> cp_time P n" using assms(3) by (auto intro: less_le_trans)
    ultimately show ?thesis using run_plan_success_blocks [OF ran(5) _ assms(2,4)] by simp
  qed simp
  then have b: "ledger_blocks P ''memory.clean'' t0 (cl_disk V)" using assms(5) by (simp add: ledger_blocks_def)
  have t: "\<forall>n. cp_time P n < t0 + kDefaultCooldown" using assms(3) by blast
  show ?thesis using execute_blocked [OF b t assms(4)] self_trim_blocked [OF b t assms(4)] by blast
qed

text \<open>
  The path that trims the own working set never looks at the build option of its capability: its
  compile-time gate is always open.
\<close>

lemma self_trim_ignores_build_options:
  assumes "parse_clean_args args no_clean_args = Inr a" and "\<not> ca_execute a"
  shows "RunMemoryCleanCommand P B A T parse args W = RunMemoryCleanCommand P B' A T parse args W"
  using assms by (simp add: RunMemoryCleanCommand_def cong: sum.case_cong)


section \<open>A run\<close>

text \<open>A machine that counts its trims, and the lightest configuration.\<close>

definition trim_api :: "nat memory_api" where
  "trim_api =
     \<lparr>OpenProcessToken = (\<lambda>_ s. (None, s)), LookupPrivilegeValueW = (\<lambda>_ _. None), TokenPrivilegesSize = (\<lambda>_ _. 0),
      allocate_bytes = (\<lambda>_. True), GetTokenPrivileges = (\<lambda>_ _. None), AdjustTokenPrivileges = (\<lambda>_ _ s. ((False, 5), s)),
      CloseHandle = (\<lambda>_ s. s), ntdll_loaded = (\<lambda>_. False), ntdll_exports = (\<lambda>_ _. False),
      NtSetSystemInformation = (\<lambda>_ _ s. (0, s)), NtQueryMemoryList = (\<lambda>_. (0, 0, [])),
      SetSystemFileCacheSize = (\<lambda>_ _ s. (Inl 5, s)), GetPerformanceInfo = (\<lambda>_. None), PageSize = (\<lambda>_. 1),
      EmptyWorkingSet = (\<lambda>s. (Inr (), s + 1)), GlobalMemoryStatusEx = (\<lambda>_. Inl 5), GetProcessMemoryInfo = (\<lambda>_ _. Inl 5),
      OpenProcess_query = (\<lambda>_ s. (Inl 5, s))\<rparr>"

definition light_gate :: MemoryCleanConfigGate where
  "light_gate =
     \<lparr>mg_cleanEnabled = True, mg_nativeWrite = False, mg_maxLevel = Clean_Light, mg_mode = Balanced,
      mg_layers = \<lparr>ly_monitoring = True, ly_maintenance = True, ly_emergency = False\<rparr>, mg_hasConfig = True\<rparr>"

definition clean_build :: build_options where
  "clean_build =
     \<lparr>bo_memoryClean = True, bo_standbyPurge = False, bo_fileCacheTrim = False, bo_powerSchemeSwitch = False,
      bo_schedulerTuner = False\<rparr>"

definition fresh_cli :: "nat cli" where
  "fresh_cli = \<lparr>cl_disk = empty_disk, cl_lines = [], cl_ticks = 0, cl_machine = 0\<rparr>"



lemma light_check:
  "\<exists>W1. check_steps calm_cli clean_build light_gate True False [WorkingSetTrim] True fresh_cli = (None, W1) \<and>
     calm_disk (cl_disk W1) \<and> cl_machine W1 = 0 \<and> cl_lines W1 = []"
proof -
  obtain c W1 where g: "GatherMemoryCleanGates calm_cli True (ConfigAllowsCleanStep light_gate WorkingSetTrim)
      (CleanStepCompiledIn clean_build WorkingSetTrim) (CleanKindCapabilityId WorkingSetTrim)
      (CleanStepNeedsIsolatedEnvironment WorkingSetTrim) False fresh_cli = (c, W1)" by fastforce
  note f = GatherMemoryCleanGates_facts [OF g]
  have e: "calm_disk (cl_disk fresh_cli)" by (simp add: fresh_cli_def empty_disk_def calm_disk_def)
  obtain d where d: "ProbeAuditWritable (cp_sysmsg calm_cli) (cp_io calm_cli) (DefaultAuditLogPath calm_cli) (cl_disk fresh_cli) = (Success (), d)"
    "calm_disk d" using calm_probe [OF calm_calm_cli e] by blast
  have w: "gc_auditWritable c" "cl_disk W1 = d" using g d(1) by (auto simp: GatherMemoryCleanGates_def Let_def)
  have "files d (DefaultCooldownLedgerPath calm_cli) = None"
    using f(3) [of "DefaultCooldownLedgerPath calm_cli"] w(2) by (simp add: fresh_cli_def empty_disk_def)
  then have "gi_cooldown (gc_inputs c)" using f(5) w(2) d(2) by (simp add: calm_cooldown_open [OF calm_calm_cli])
  then have "ge_allowed (gc_gates c)"
    using f(4) w(1) calm_environment
    by (simp add: clean_build_def ConfigAllowsCleanStep_def light_gate_def overlay_allows_def AllowsLocalReversibleActions_def
        CleanStepNeedsIsolatedEnvironment_def)
  then show ?thesis using g f(1,2) d(2) w(2) by (simp add: Let_def) (simp add: fresh_cli_def)
qed

lemma light_run:
  "\<exists>W1. RunMemoryCleanExecuteCommand calm_cli clean_build trim_api True light_gate True False fresh_cli = (0, W1) \<and>
     cl_machine W1 = 1 \<and> \<not> reports_unrecorded W1"
proof -
  define plan where "plan = PlanMemoryClean Clean_Light Clean_Light True"
  have st: "mp_steps plan = [WorkingSetTrim]" "mp_allowed plan" by (simp_all add: plan_def PlanMemoryClean_steps)
  obtain W1 where w: "check_steps calm_cli clean_build light_gate True False [WorkingSetTrim] True fresh_cli = (None, W1)"
    "calm_disk (cl_disk W1)" "cl_machine W1 = 0" "cl_lines W1 = []" using light_check by blast
  have r: "rd_allImplemented (EvaluateCleanPlanReadiness clean_build plan)" by (simp add: EvaluateCleanPlanReadiness_exact st)
  have run: "RunMemoryCleanExecuteCommand calm_cli clean_build trim_api True light_gate True False fresh_cli =
      run_plan calm_cli trim_api ''config'' plan W1"
    unfolding RunMemoryCleanExecuteCommand_def Let_def using w(1) r st
    by (simp add: plan_def light_gate_def)
  define W2 where "W2 = JournalAction calm_cli ''memory.clean_execute'' ''config'' True Before
      ''intent: execute the planned clean steps (gates passed, readiness checked)'' W1"
  have j: "calm_disk (cl_disk W2)" "cl_lines W2 = []"
    using calm_JournalAction [OF calm_calm_cli w(2)] w(4) by (simp_all add: W2_def)
  have ex: "ExecuteMemoryCleanPlan (SystemMemoryCleanBackend (cp_sysmsg calm_cli) trim_api) plan 0 =
      (Success \<lparr>cr_executed = 1, cr_succeeded = 1, cr_ok = True, cr_failedStep = None, cr_failureDetail = []\<rparr>, 1)"
    using st by (simp add: ExecuteMemoryCleanPlan_def empty_report_def TrimOwnWorkingSet_def trim_api_def)
  obtain V detail delta where V: "run_plan calm_cli trim_api ''config'' plan W1 = (0, record_cooldowns calm_cli [WorkingSetTrim]
      (AuditAction calm_cli ''memory.clean_execute'' R1 ''config'' True detail delta V))"
    "cl_disk V = cl_disk W2" "cl_machine V = 1" "\<not> reports_unrecorded V"
    using j(2) by (simp add: run_plan_def Let_def w(3) ex st clean_outcome_def err_when_def W2_def [symmetric] reports_unrecorded_def)
  define U where "U = AuditAction calm_cli ''memory.clean_execute'' R1 ''config'' True detail delta V"
  have u: "calm_disk (cl_disk U)" "cl_lines U = cl_lines V" "cl_machine U = 1"
    using calm_AuditAction [OF calm_calm_cli, of V] V(2,3) j(1) by (simp_all add: U_def AuditAction_frame(1))
  obtain d where d: "RecordCooldownRun (cp_sysmsg calm_cli) (cp_io calm_cli) (DefaultCooldownLedgerPath calm_cli) ''memory.clean''
      (cp_time calm_cli (cl_ticks U)) (cl_disk U) = (Success (), d)"
    using calm_record [OF calm_calm_cli u(1)] by blast
  have "record_cooldowns calm_cli [WorkingSetTrim] U = tick (U\<lparr>cl_disk := d\<rparr>)" by (simp add: record_cooldown_def d)
  then show ?thesis using run V(1,4) u by (simp add: U_def [symmetric] reports_unrecorded_def)
qed


theorem memory_clean_cooldown_enforced_witness:
  "\<exists>W1. RunMemoryCleanExecuteCommand calm_cli clean_build trim_api True light_gate True False fresh_cli = (0, W1) \<and>
     fst (RunMemoryCleanExecuteCommand calm_cli clean_build trim_api True light_gate True False W1) = 2 \<and>
     cl_machine (snd (RunMemoryCleanExecuteCommand calm_cli clean_build trim_api True light_gate True False W1)) = 1"
proof -
  obtain W1 where w: "RunMemoryCleanExecuteCommand calm_cli clean_build trim_api True light_gate True False fresh_cli = (0, W1)"
    "cl_machine W1 = 1" "\<not> reports_unrecorded W1" using light_run by blast
  have t: "\<forall>n. 0 < (5 :: int) \<and> 5 \<le> cp_time calm_cli n \<and> cp_time calm_cli n < 5 + kDefaultCooldown \<and> int64_ok (cp_time calm_cli n)"
    by (simp add: calm_cli_def kDefaultCooldown_def int64_ok_def)
  have r: "fail_read (cp_io calm_cli) (DefaultCooldownLedgerPath calm_cli) = None" by (simp add: calm_cli_def)
  obtain rc V where v: "RunMemoryCleanExecuteCommand calm_cli clean_build trim_api True light_gate True False W1 = (rc, V)" by fastforce
  have "rc = 2 \<and> cl_machine V = cl_machine W1"
    using memory_clean_cooldown_enforced [OF w(1,3) t r refl] v by blast
  then show ?thesis using w v by simp
qed

end
