(* ===== verification/Power_Scheme.thy ===== *)
theory Power_Scheme
  imports File_System
begin

text \<open>
  Switching the power scheme: \<^verbatim>\<open>include/power/power_scheme.hpp\<close>,
  \<^verbatim>\<open>source/power/power_scheme.cpp\<close> and the apply command of \<^verbatim>\<open>source/main.cpp\<close>.  The backend is
  a record of functions over an abstract machine state, the Win32 backend an instance over the
  entry points it calls.  The record that makes a switch recoverable lives on the disk of
  \<open>File_System\<close>.  Messages that are Chinese in the source are given in English.
\<close>

section \<open>Scheme identifiers\<close>

definition kSchemeBalanced :: string where
  "kSchemeBalanced = ''381B4222-F694-41F0-9685-FF5BB260DF2E''"

definition kSchemeHighPerformance :: string where
  "kSchemeHighPerformance = ''8C5E7FDA-E8BF-4A96-9A85-A6E23A8C635C''"

definition kSchemePowerSaver :: string where
  "kSchemePowerSaver = ''A1841308-3541-4FAB-BC81-F71556F20B4A''"

definition to_upper :: "char \<Rightarrow> char" where
  "to_upper c = (if is_lower c then char_of ((of_char c :: nat) - 32) else c)"

definition hex_upper :: "char \<Rightarrow> bool" where
  "hex_upper c \<longleftrightarrow> is_digit c \<or> 65 \<le> (of_char c :: nat) \<and> (of_char c :: nat) \<le> 70"

fun guid_chars :: "nat \<Rightarrow> string \<Rightarrow> bool" where
  "guid_chars i [] = True"
| "guid_chars i (c # s) =
     ((if i = 8 \<or> i = 13 \<or> i = 18 \<or> i = 23 then c = CHR ''-'' else hex_upper c) \<and> guid_chars (i + 1) s)"

definition NormalizeSchemeGuid :: "string \<Rightarrow> string option" where
  "NormalizeSchemeGuid text =
     (let cleaned = map to_upper (filter (\<lambda>c. c \<notin> {CHR ''{'', CHR ''}'', CHR '' '', CHR 0x09}) text)
      in if length cleaned \<noteq> 36 then None
         else if guid_chars 0 cleaned then Some cleaned else None)"

definition ResolveSchemeArgument :: "string \<Rightarrow> string option" where
  "ResolveSchemeArgument text =
     (let folded = map (\<lambda>c. if to_lower c = CHR ''_'' then CHR ''-'' else to_lower c) text
      in if folded = ''balanced'' then Some kSchemeBalanced
         else if folded = ''high-performance'' \<or> folded = ''highperformance'' then Some kSchemeHighPerformance
         else if folded = ''power-saver'' \<or> folded = ''powersaver'' \<or> folded = ''saver'' then Some kSchemePowerSaver
         else NormalizeSchemeGuid text)"

section \<open>Backends\<close>

record 's SchemeBackend =
  GetActive :: "'s \<Rightarrow> string result \<times> 's"
  SetActive :: "string \<Rightarrow> 's \<Rightarrow> unit result \<times> 's"

text \<open>The Win32 entry points: the active scheme (status and pointer), switching, text forms.\<close>

record ('g, 's) powrprof =
  PowerGetActiveScheme :: "'s \<Rightarrow> (u32 \<times> 'g option) \<times> 's"
  PowerSetActiveScheme :: "'g \<Rightarrow> 's \<Rightarrow> u32 \<times> 's"
  StringFromGUID2 :: "'g \<Rightarrow> wstring option"
  CLSIDFromString :: "wstring \<Rightarrow> 'g option"

definition guid_char :: "u16 \<Rightarrow> char" where
  "guid_char u =
     (let up = (if 97 \<le> u \<and> u \<le> 122 then u - 97 + 65 else u)
      in if up \<le> 0x7F then char_of (unat up) else CHR ''?'')"

definition FormatGuid :: "('g, 's) powrprof \<Rightarrow> 'g \<Rightarrow> string" where
  "FormatGuid P g =
     (case StringFromGUID2 P g of
        None \<Rightarrow> []
      | Some w \<Rightarrow> map guid_char (filter (\<lambda>u. u \<noteq> 0x7B \<and> u \<noteq> 0x7D) w))"

definition ParseGuid :: "('g, 's) powrprof \<Rightarrow> string \<Rightarrow> 'g option" where
  "ParseGuid P text = CLSIDFromString P (wide (''{'' @ text @ ''}''))"

definition RealGetActive :: "(u32 \<Rightarrow> string) \<Rightarrow> ('g, 's) powrprof \<Rightarrow> 's \<Rightarrow> string result \<times> 's" where
  "RealGetActive sysmsg P s =
     (case PowerGetActiveScheme P s of
        ((status, ptr), s1) \<Rightarrow>
          if status \<noteq> 0 \<or> ptr = None then (Failure (FromWin32 sysmsg status ''PowerGetActiveScheme''), s1)
          else
            (let text = FormatGuid P (the ptr)
             in if text = []
                then (Failure (Error_Unsupported ''PowerGetActiveScheme'' ''the active scheme cannot be formatted''), s1)
                else (Success text, s1)))"

definition RealSetActive :: "(u32 \<Rightarrow> string) \<Rightarrow> ('g, 's) powrprof \<Rightarrow> string \<Rightarrow> 's \<Rightarrow> unit result \<times> 's" where
  "RealSetActive sysmsg P guid s =
     (case ParseGuid P guid of
        None \<Rightarrow> (Failure (Error_Validation ''PowerSetActiveScheme'' ''malformed power scheme GUID''), s)
      | Some g \<Rightarrow>
          (case PowerSetActiveScheme P g s of
             (status, s1) \<Rightarrow>
               if status \<noteq> 0 then (Failure (FromWin32 sysmsg status ''PowerSetActiveScheme''), s1)
               else (Success (), s1)))"

definition Win32PowerSchemeBackend :: "(u32 \<Rightarrow> string) \<Rightarrow> ('g, 's) powrprof \<Rightarrow> 's SchemeBackend" where
  "Win32PowerSchemeBackend sysmsg P = \<lparr>GetActive = RealGetActive sysmsg P, SetActive = RealSetActive sysmsg P\<rparr>"

section \<open>Switching and restoring\<close>

record SchemeSwitchOutcome =
  so_previousGuid :: string
  so_targetGuid :: string
  so_activeGuid :: string
  so_changed :: bool

definition ApplyScheme :: "'s SchemeBackend \<Rightarrow> string \<Rightarrow> 's \<Rightarrow> SchemeSwitchOutcome result \<times> 's" where
  "ApplyScheme B targetGuid s =
     (case NormalizeSchemeGuid targetGuid of
        None \<Rightarrow> (Failure (Error_Validation ''ApplyScheme'' ''malformed target GUID''), s)
      | Some g \<Rightarrow>
          (case GetActive B s of
             (Inl e, s1) \<Rightarrow> (Failure e, s1)
           | (Inr previous, s1) \<Rightarrow>
               (case SetActive B g s1 of
                  (Inl e, s2) \<Rightarrow> (Failure e, s2)
                | (Inr _, s2) \<Rightarrow>
                    (case GetActive B s2 of
                       (Inl e, s3) \<Rightarrow> (Failure e, s3)
                     | (Inr a, s3) \<Rightarrow>
                         (Success \<lparr>so_previousGuid = previous, so_targetGuid = g, so_activeGuid = a,
                                   so_changed = (a = g)\<rparr>, s3)))))"

record SchemeRestoreOutcome =
  sr_savedGuid :: string
  sr_activeGuid :: string
  sr_restored :: bool

definition RestoreScheme :: "'s SchemeBackend \<Rightarrow> string \<Rightarrow> 's \<Rightarrow> SchemeRestoreOutcome result \<times> 's" where
  "RestoreScheme B savedGuid s =
     (case NormalizeSchemeGuid savedGuid of
        None \<Rightarrow> (Failure (Error_Validation ''RestoreScheme'' ''malformed saved GUID''), s)
      | Some g \<Rightarrow>
          (case SetActive B g s of
             (Inl e, s1) \<Rightarrow> (Failure e, s1)
           | (Inr _, s1) \<Rightarrow>
               (case GetActive B s1 of
                  (Inl e, s2) \<Rightarrow> (Failure e, s2)
                | (Inr a, s2) \<Rightarrow>
                    (Success \<lparr>sr_savedGuid = g, sr_activeGuid = a, sr_restored = (a = g)\<rparr>, s2))))"

section \<open>The saved record\<close>

definition kSchemeSaveEnvelope :: string where
  "kSchemeSaveEnvelope = ''CppOptimizerPowerSchemeSave/1''"

datatype SchemeSaveState = Pending | Applied | Restored

fun SchemeSaveStateToString :: "SchemeSaveState \<Rightarrow> string" where
  "SchemeSaveStateToString Pending = ''pending''"
| "SchemeSaveStateToString Applied = ''applied''"
| "SchemeSaveStateToString Restored = ''restored''"

definition ParseSchemeSaveState :: "string \<Rightarrow> SchemeSaveState option" where
  "ParseSchemeSaveState text =
     (if text = ''pending'' then Some Pending
      else if text = ''applied'' then Some Applied
      else if text = ''restored'' then Some Restored else None)"

record SavedSchemeRecord =
  ss_savedGuid :: string
  ss_targetGuid :: "string option"
  ss_state :: SchemeSaveState

text \<open>The lines of a text, the part after the last line feed included.\<close>

fun all_lines :: "string \<Rightarrow> string list" where
  "all_lines [] = [[]]"
| "all_lines (c # s) =
     (if c = LF then [] # all_lines s
      else case all_lines s of [] \<Rightarrow> [[c]] | l # ls \<Rightarrow> (c # l) # ls)"

definition drop_cr :: "string \<Rightarrow> string" where
  "drop_cr l = (if l \<noteq> [] \<and> last l = CR then butlast l else l)"

record scheme_fields =
  sf_envelope :: bool
  sf_state :: "SchemeSaveState option"
  sf_saved :: "string option"
  sf_target :: "string option"

text \<open>One line; None when the whole content is refused.\<close>

definition scheme_line :: "string \<Rightarrow> scheme_fields \<Rightarrow> scheme_fields option" where
  "scheme_line raw f =
     (let line = drop_cr raw
      in if \<not> sf_envelope f then
           (if line \<noteq> kSchemeSaveEnvelope then None else Some (f\<lparr>sf_envelope := True\<rparr>))
         else if take 6 line = ''state='' then
           (case ParseSchemeSaveState (drop 6 line) of None \<Rightarrow> None | Some st \<Rightarrow> Some (f\<lparr>sf_state := Some st\<rparr>))
         else if take 6 line = ''saved='' then
           (case NormalizeSchemeGuid (drop 6 line) of None \<Rightarrow> None | Some g \<Rightarrow> Some (f\<lparr>sf_saved := Some g\<rparr>))
         else if take 7 line = ''target='' then
           (case NormalizeSchemeGuid (drop 7 line) of None \<Rightarrow> None | Some g \<Rightarrow> Some (f\<lparr>sf_target := Some g\<rparr>))
         else Some f)"

fun scheme_lines :: "string list \<Rightarrow> scheme_fields \<Rightarrow> scheme_fields option" where
  "scheme_lines [] f = Some f"
| "scheme_lines (l # ls) f = (case scheme_line l f of None \<Rightarrow> None | Some f' \<Rightarrow> scheme_lines ls f')"

definition ParseSavedSchemeRecord :: "string \<Rightarrow> SavedSchemeRecord option" where
  "ParseSavedSchemeRecord text =
     (case scheme_lines (all_lines text)
             \<lparr>sf_envelope = False, sf_state = None, sf_saved = None, sf_target = None\<rparr> of
        None \<Rightarrow> None
      | Some f \<Rightarrow>
          (case (sf_state f, sf_saved f) of
             (Some st, Some g) \<Rightarrow>
               if sf_envelope f then Some \<lparr>ss_savedGuid = g, ss_targetGuid = sf_target f, ss_state = st\<rparr> else None
           | _ \<Rightarrow> None))"

definition scheme_text :: "SchemeSaveState \<Rightarrow> string \<Rightarrow> string option \<Rightarrow> string" where
  "scheme_text st saved target =
     kSchemeSaveEnvelope @ [LF] @ ''state='' @ SchemeSaveStateToString st @ [LF] @ ''saved='' @ saved @ [LF] @
     (case target of None \<Rightarrow> [] | Some t \<Rightarrow> ''target='' @ t @ [LF])"

definition SaveSchemeRecord ::
  "(u32 \<Rightarrow> string) \<Rightarrow> disk_faults \<Rightarrow> path \<Rightarrow> SavedSchemeRecord \<Rightarrow> disk \<Rightarrow> unit result \<times> disk" where
  "SaveSchemeRecord sysmsg io p r d =
     (if p = [] then (Failure (Error_Validation ''SaveSchemeRecord'' ''path must not be empty''), d)
      else case NormalizeSchemeGuid (ss_savedGuid r) of
             None \<Rightarrow> (Failure (Error_Validation ''SaveSchemeRecord'' ''malformed rollback GUID''), d)
           | Some saved \<Rightarrow>
               (if ss_targetGuid r \<noteq> None \<and> NormalizeSchemeGuid (the (ss_targetGuid r)) = None
                then (Failure (Error_Validation ''SaveSchemeRecord'' ''malformed target GUID''), d)
                else
                  (let target = (case ss_targetGuid r of None \<Rightarrow> None | Some t \<Rightarrow> NormalizeSchemeGuid t)
                   in case make_parent io p d of
                        (Inl c, d1) \<Rightarrow> (Failure (FromWin32 sysmsg c ''create_directories(power scheme save)''), d1)
                      | (Inr _, d1) \<Rightarrow>
                          (case temp_replace io p (scheme_text (ss_state r) saved target) d1 of
                             (Inr _, d2) \<Rightarrow> (Success (), d2)
                           | (Inl (Temp_open c), d2) \<Rightarrow>
                               (Failure (FromWin32 sysmsg c ''open power scheme save temp file''), d2)
                           | (Inl (Temp_flush c rc), d2) \<Rightarrow>
                               (Failure (FromWin32 sysmsg (case rc of None \<Rightarrow> c | Some x \<Rightarrow> x)
                                  ''flush power scheme save temp file''), d2)
                           | (Inl (Temp_move c), d2) \<Rightarrow>
                               (Failure (FromWin32 sysmsg c ''MoveFileExW(power scheme save)''), d2)))))"

text \<open>All bytes a stream delivers before it ends or goes bad.\<close>

definition stream_bytes :: "disk_faults \<Rightarrow> disk \<Rightarrow> path \<Rightarrow> u32 + string" where
  "stream_bytes io d p =
     (case fail_open_read io p of
        Some c \<Rightarrow> Inl c
      | None \<Rightarrow>
          (case files d p of
             None \<Rightarrow> Inl 2
           | Some s \<Rightarrow> Inr (case fail_read io p of None \<Rightarrow> s | Some (n, _) \<Rightarrow> take n s)))"

definition ReadSavedSchemeRecord ::
  "(u32 \<Rightarrow> string) \<Rightarrow> disk_faults \<Rightarrow> path \<Rightarrow> disk \<Rightarrow> SavedSchemeRecord option result" where
  "ReadSavedSchemeRecord sysmsg io p d =
     (if p = [] then Failure (Error_Validation ''ReadSavedSchemeRecord'' ''path must not be empty'')
      else if is_directory io d p
        then Failure (Error_Validation ''ReadSavedSchemeRecord'' ''the path is a directory, not a file'')
      else case path_exists io d p of
             (False, Some c) \<Rightarrow> Failure (FromWin32 sysmsg c ''exists(power scheme save)'')
           | (False, None) \<Rightarrow> Success None
           | (True, _) \<Rightarrow>
               (case stream_bytes io d p of
                  Inl c \<Rightarrow> Failure (FromWin32 sysmsg c ''open power scheme save'')
                | Inr s \<Rightarrow> Success (ParseSavedSchemeRecord s)))"

section \<open>Flows with a record\<close>

datatype SchemeRecoveryAction = SRA_None | RestoreToSaved | MarkNeverApplied

fun SchemeRecoveryActionToString :: "SchemeRecoveryAction \<Rightarrow> string" where
  "SchemeRecoveryActionToString SRA_None = ''none''"
| "SchemeRecoveryActionToString RestoreToSaved = ''restore_to_saved''"
| "SchemeRecoveryActionToString MarkNeverApplied = ''mark_never_applied''"

definition DecideSchemeRecovery :: "SavedSchemeRecord option \<Rightarrow> string \<Rightarrow> SchemeRecoveryAction" where
  "DecideSchemeRecovery rec activeGuid =
     (case rec of
        None \<Rightarrow> SRA_None
      | Some r \<Rightarrow>
          if ss_state r \<noteq> Pending then SRA_None
          else (case NormalizeSchemeGuid activeGuid of
                  None \<Rightarrow> SRA_None
                | Some a \<Rightarrow> if a = ss_savedGuid r then MarkNeverApplied else RestoreToSaved))"

record SwitchFlowOutcome =
  sw_previousGuid :: string
  sw_targetGuid :: string
  sw_activeGuid :: string
  sw_changed :: bool
  sw_recordMarkedApplied :: bool

text \<open>The faults of the disk at the first and at the second save.\<close>

definition ApplySchemeWithRecord ::
  "'s SchemeBackend \<Rightarrow> (u32 \<Rightarrow> string) \<Rightarrow> disk_faults \<Rightarrow> disk_faults \<Rightarrow> path \<Rightarrow> string \<Rightarrow> 's \<Rightarrow> disk \<Rightarrow>
   SwitchFlowOutcome result \<times> 's \<times> disk" where
  "ApplySchemeWithRecord B sysmsg io io' p targetGuid s d =
     (case NormalizeSchemeGuid targetGuid of
        None \<Rightarrow> (Failure (Error_Validation ''ApplySchemeWithRecord'' ''malformed target GUID''), s, d)
      | Some g \<Rightarrow>
     (case GetActive B s of
        (Inl e, s1) \<Rightarrow> (Failure e, s1, d)
      | (Inr previous, s1) \<Rightarrow>
          (let pend = \<lparr>ss_savedGuid = previous, ss_targetGuid = Some g, ss_state = Pending\<rparr>
           in
     (case SaveSchemeRecord sysmsg io p pend d of
        (Inl e, d1) \<Rightarrow> (Failure e, s1, d1)
      | (Inr _, d1) \<Rightarrow>
     (case SetActive B g s1 of
        (Inl e, s2) \<Rightarrow> (Failure e, s2, d1)
      | (Inr _, s2) \<Rightarrow>
     (case GetActive B s2 of
        (Inl e, s3) \<Rightarrow> (Failure e, s3, d1)
      | (Inr a, s3) \<Rightarrow>
          if a \<noteq> g
          then (Success \<lparr>sw_previousGuid = previous, sw_targetGuid = g, sw_activeGuid = a, sw_changed = False,
                         sw_recordMarkedApplied = False\<rparr>, s3, d1)
          else
            (case SaveSchemeRecord sysmsg io' p (pend\<lparr>ss_state := Applied\<rparr>) d1 of
               (Inl e, d2) \<Rightarrow> (Failure e, s3, d2)
             | (Inr _, d2) \<Rightarrow>
                 (Success \<lparr>sw_previousGuid = previous, sw_targetGuid = g, sw_activeGuid = a, sw_changed = True,
                           sw_recordMarkedApplied = True\<rparr>, s3, d2))))))))"

record RestoreFlowOutcome =
  rf_savedGuid :: string
  rf_activeGuid :: string
  rf_restored :: bool
  rf_recordMarkedRestored :: bool

definition RestoreSchemeWithRecord ::
  "'s SchemeBackend \<Rightarrow> (u32 \<Rightarrow> string) \<Rightarrow> disk_faults \<Rightarrow> path \<Rightarrow> 's \<Rightarrow> disk \<Rightarrow>
   RestoreFlowOutcome result \<times> 's \<times> disk" where
  "RestoreSchemeWithRecord B sysmsg io p s d =
     (case ReadSavedSchemeRecord sysmsg io p d of
        Inl e \<Rightarrow> (Failure e, s, d)
      | Inr None \<Rightarrow>
          (Failure (Error_Validation ''RestoreSchemeWithRecord'' ''no saved scheme on disk''), s, d)
      | Inr (Some r) \<Rightarrow>
          (case RestoreScheme B (ss_savedGuid r) s of
             (Inl e, s1) \<Rightarrow> (Failure e, s1, d)
           | (Inr q, s1) \<Rightarrow>
               if \<not> sr_restored q
               then (Success \<lparr>rf_savedGuid = sr_savedGuid q, rf_activeGuid = sr_activeGuid q, rf_restored = False,
                              rf_recordMarkedRestored = False\<rparr>, s1, d)
               else
                 (case SaveSchemeRecord sysmsg io p (r\<lparr>ss_state := Restored\<rparr>) d of
                    (Inl e, d1) \<Rightarrow> (Failure e, s1, d1)
                  | (Inr _, d1) \<Rightarrow>
                      (Success \<lparr>rf_savedGuid = sr_savedGuid q, rf_activeGuid = sr_activeGuid q, rf_restored = True,
                                rf_recordMarkedRestored = True\<rparr>, s1, d1))))"

record SchemeRecoveryOutcome =
  ro_action :: SchemeRecoveryAction
  ro_savedGuid :: string
  ro_targetGuid :: string
  ro_activeGuid :: string
  ro_restored :: bool

definition RecoverPendingScheme ::
  "'s SchemeBackend \<Rightarrow> (u32 \<Rightarrow> string) \<Rightarrow> disk_faults \<Rightarrow> path \<Rightarrow> 's \<Rightarrow> disk \<Rightarrow>
   SchemeRecoveryOutcome result \<times> 's \<times> disk" where
  "RecoverPendingScheme B sysmsg io p s d =
     (case ReadSavedSchemeRecord sysmsg io p d of
        Inl e \<Rightarrow> (Failure e, s, d)
      | Inr rec \<Rightarrow>
     (case GetActive B s of
        (Inl e, s1) \<Rightarrow> (Failure e, s1, d)
      | (Inr a, s1) \<Rightarrow>
          (let saved = (case rec of None \<Rightarrow> [] | Some r \<Rightarrow> ss_savedGuid r);
               target = (case rec of None \<Rightarrow> [] | Some r \<Rightarrow> (case ss_targetGuid r of None \<Rightarrow> [] | Some t \<Rightarrow> t));
               action = DecideSchemeRecovery rec a;
               out = \<lparr>ro_action = action, ro_savedGuid = saved, ro_targetGuid = target, ro_activeGuid = a,
                      ro_restored = False\<rparr>
           in case action of
                SRA_None \<Rightarrow> (Success out, s1, d)
              | MarkNeverApplied \<Rightarrow>
                  (case SaveSchemeRecord sysmsg io p ((the rec)\<lparr>ss_state := Restored\<rparr>) d of
                     (Inl e, d1) \<Rightarrow> (Failure e, s1, d1)
                   | (Inr _, d1) \<Rightarrow> (Success out, s1, d1))
              | RestoreToSaved \<Rightarrow>
                  (case RestoreScheme B saved s1 of
                     (Inl e, s2) \<Rightarrow> (Failure e, s2, d)
                   | (Inr q, s2) \<Rightarrow>
                       (let out2 = out\<lparr>ro_activeGuid := sr_activeGuid q, ro_restored := sr_restored q\<rparr>
                        in if \<not> sr_restored q then (Success out2, s2, d)
                           else
                             (case SaveSchemeRecord sysmsg io p ((the rec)\<lparr>ss_state := Restored\<rparr>) d of
                                (Inl e, d1) \<Rightarrow> (Failure e, s2, d1)
                              | (Inr _, d1) \<Rightarrow> (Success out2, s2, d1)))))))"

text \<open>
  The apply command after its gates: a record in state pending, read before, is recovered first;
  when that fails the command is refused.
\<close>

definition apply_command ::
  "'s SchemeBackend \<Rightarrow> (u32 \<Rightarrow> string) \<Rightarrow> disk_faults \<Rightarrow> path \<Rightarrow> string \<Rightarrow> 's \<Rightarrow> disk \<Rightarrow>
   SwitchFlowOutcome result option \<times> 's \<times> disk" where
  "apply_command B sysmsg io p targetGuid s d =
     (let go = (\<lambda>s d. case ApplySchemeWithRecord B sysmsg io io p targetGuid s d of (r, x) \<Rightarrow> (Some r, x))
      in case ReadSavedSchemeRecord sysmsg io p d of
           Inr (Some r) \<Rightarrow>
             if ss_state r = Pending
             then (case RecoverPendingScheme B sysmsg io p s d of
                     (Inl _, x) \<Rightarrow> (None, x)
                   | (Inr _, s1, d1) \<Rightarrow> go s1 d1)
             else go s d
         | _ \<Rightarrow> go s d)"

section \<open>Normal forms\<close>

definition guid_ok :: "string \<Rightarrow> bool" where
  "guid_ok g \<longleftrightarrow> length g = 36 \<and> guid_chars 0 g"

definition guid_digit :: "char \<Rightarrow> bool" where
  "guid_digit c \<longleftrightarrow> c = CHR ''-'' \<or> hex_upper c"

lemma guid_chars_digits: "guid_chars i s \<Longrightarrow> c \<in> set s \<Longrightarrow> guid_digit c"
  by (induction i s rule: guid_chars.induct) (auto simp: guid_digit_def split: if_splits)

lemma guid_digit_plain:
  assumes "guid_digit c"
  shows "to_upper c = c" and "c \<notin> {CHR ''{'', CHR ''}'', CHR '' '', CHR 0x09}" and "c \<noteq> LF" and "c \<noteq> CR"
  using assms by (auto simp: guid_digit_def hex_upper_def is_digit_def to_upper_def is_lower_def)

lemma guid_ok_digits: "guid_ok g \<Longrightarrow> c \<in> set g \<Longrightarrow> guid_digit c"
  using guid_chars_digits by (auto simp: guid_ok_def)

lemma NormalizeSchemeGuid_ok: "NormalizeSchemeGuid t = Some g \<Longrightarrow> guid_ok g"
  by (auto simp: NormalizeSchemeGuid_def guid_ok_def Let_def split: if_splits)

lemma NormalizeSchemeGuid_fixed: "NormalizeSchemeGuid g = Some g \<longleftrightarrow> guid_ok g"
proof
  assume g: "guid_ok g"
  have "filter (\<lambda>c. c \<notin> {CHR ''{'', CHR ''}'', CHR '' '', CHR 0x09}) g = g"
    using guid_digit_plain(2) guid_ok_digits [OF g] by (intro filter_True) blast
  moreover have "map to_upper g = g" using guid_digit_plain(1) guid_ok_digits [OF g] by (intro map_idI) blast
  ultimately show "NormalizeSchemeGuid g = Some g" using g by (simp add: NormalizeSchemeGuid_def Let_def guid_ok_def)
qed (rule NormalizeSchemeGuid_ok)

text \<open>
  Normalisation of scheme identifiers is a projection on the canonical form, 36 characters, upper-case
  hexadecimal digits with dashes at four places, and every argument that resolves gives a canonical
  identifier.\<close>
theorem NormalizeSchemeGuid_canonical:
  "(\<forall>g. NormalizeSchemeGuid g = Some g \<longleftrightarrow>
      length g = 36 \<and> (\<forall>i < 36. if i \<in> {8, 13, 18, 23} then g ! i = CHR ''-'' else hex_upper (g ! i))) \<and>
   (\<forall>t g. NormalizeSchemeGuid t = Some g \<longrightarrow> NormalizeSchemeGuid g = Some g) \<and>
   (\<forall>t g. ResolveSchemeArgument t = Some g \<longrightarrow> NormalizeSchemeGuid g = Some g)"
proof -
  have nth: "guid_chars k s \<longleftrightarrow>
      (\<forall>i < length s. if k + i \<in> {8, 13, 18, 23} then s ! i = CHR ''-'' else hex_upper (s ! i))" for k s
  proof (induction s arbitrary: k)
    case (Cons c s)
    show ?case unfolding length_Cons All_less_Suc2 by (auto simp: Cons.IH)
  qed simp
  have "guid_ok kSchemeBalanced" "guid_ok kSchemeHighPerformance" "guid_ok kSchemePowerSaver"
    by (code_simp, code_simp, code_simp)
  then have "guid_ok g" if "ResolveSchemeArgument t = Some g" for t g
    using that NormalizeSchemeGuid_ok by (auto simp: ResolveSchemeArgument_def Let_def split: if_splits)
  then show ?thesis
    unfolding NormalizeSchemeGuid_fixed using NormalizeSchemeGuid_ok nth [of 0] by (auto simp: guid_ok_def)
qed

theorem NormalizeSchemeGuid_canonical_witness:
  "ResolveSchemeArgument ''Saver'' = Some kSchemePowerSaver \<and> length kSchemePowerSaver = 36"
proof -
  have "ResolveSchemeArgument ''Saver'' = Some kSchemePowerSaver" by code_simp
  then show ?thesis using NormalizeSchemeGuid_canonical by blast
qed

section \<open>Records on disk\<close>

definition record_ok :: "SavedSchemeRecord \<Rightarrow> bool" where
  "record_ok r \<longleftrightarrow> guid_ok (ss_savedGuid r) \<and> (\<forall>t. ss_targetGuid r = Some t \<longrightarrow> guid_ok t)"

definition record_text :: "SavedSchemeRecord \<Rightarrow> string" where
  "record_text r =
     scheme_text (ss_state r) (the (NormalizeSchemeGuid (ss_savedGuid r)))
       (case ss_targetGuid r of None \<Rightarrow> None | Some t \<Rightarrow> NormalizeSchemeGuid t)"

lemma all_lines_ne [simp]: "all_lines s \<noteq> []"
  by (induction s) (auto split: list.splits)

lemma all_lines_append: "LF \<notin> set l \<Longrightarrow> all_lines (l @ LF # s) = l # all_lines s"
  by (induction l) auto

lemma guid_no_LF: "guid_ok g \<Longrightarrow> LF \<notin> set g"
  using guid_ok_digits guid_digit_plain(3) by blast

lemma drop_cr_id: "CR \<notin> set l \<Longrightarrow> drop_cr l = l"
  using last_in_set by (fastforce simp: drop_cr_def)

lemma drop_cr_guid: "guid_ok g \<Longrightarrow> CR \<notin> set k \<Longrightarrow> drop_cr (k @ g) = k @ g"
  using guid_ok_digits guid_digit_plain(4) by (intro drop_cr_id) auto

lemma ParseSchemeSaveState_ToString [simp]: "ParseSchemeSaveState (SchemeSaveStateToString st) = Some st"
  by (cases st) (simp_all add: ParseSchemeSaveState_def)

lemma state_plain: "LF \<notin> set (SchemeSaveStateToString st)" "CR \<notin> set (SchemeSaveStateToString st)"
  by (cases st; simp)+

lemma ParseSavedSchemeRecord_text:
  assumes "record_ok r"
  shows "ParseSavedSchemeRecord (record_text r) = Some r"
proof -
  obtain saved target st where r: "r = \<lparr>ss_savedGuid = saved, ss_targetGuid = target, ss_state = st\<rparr>" by (cases r) auto
  have s: "guid_ok saved" "NormalizeSchemeGuid saved = Some saved"
    using assms r by (auto simp: record_ok_def NormalizeSchemeGuid_fixed)
  have env: "LF \<notin> set kSchemeSaveEnvelope" "drop_cr kSchemeSaveEnvelope = kSchemeSaveEnvelope" by (code_simp, code_simp)
  have l1: "LF \<notin> set (''state='' @ SchemeSaveStateToString st)" "LF \<notin> set (''saved='' @ saved)"
    using state_plain guid_no_LF [OF s(1)] by simp_all
  have d1: "drop_cr (''state='' @ SchemeSaveStateToString st) = ''state='' @ SchemeSaveStateToString st"
    using state_plain by (intro drop_cr_id) simp
  have d2: "drop_cr (''saved='' @ saved) = ''saved='' @ saved" by (rule drop_cr_guid [OF s(1)]) simp
  have tail: "scheme_lines [[]] f = Some f" if "sf_envelope f" for f
    using that by (simp add: scheme_line_def drop_cr_def)
  have lines: "all_lines (scheme_text st saved target) =
      kSchemeSaveEnvelope # (''state='' @ SchemeSaveStateToString st) # (''saved='' @ saved) #
      (case target of None \<Rightarrow> [[]] | Some t \<Rightarrow> [''target='' @ t, []])" if "\<forall>t. target = Some t \<longrightarrow> guid_ok t"
  proof (cases target)
    case None
    then show ?thesis
      using env(1) l1 all_lines_append [of "''state='' @ SchemeSaveStateToString st"] all_lines_append [of "''saved='' @ saved"]
      by (simp add: scheme_text_def all_lines_append)
  next
    case (Some t)
    have "LF \<notin> set (''target='' @ t)" using that Some guid_no_LF by simp
    then show ?thesis
      using Some env(1) l1 all_lines_append [of "''state='' @ SchemeSaveStateToString st"]
        all_lines_append [of "''saved='' @ saved"] all_lines_append [of "''target='' @ t" "[]"]
      by (simp add: scheme_text_def all_lines_append)
  qed
  show ?thesis
  proof (cases target)
    case None
    then show ?thesis
      using r s lines d1 d2 env(2) tail
      by (simp add: record_text_def ParseSavedSchemeRecord_def scheme_line_def Let_def)
  next
    case (Some t)
    have t: "guid_ok t" "NormalizeSchemeGuid t = Some t" using assms r Some by (auto simp: record_ok_def NormalizeSchemeGuid_fixed)
    have d3: "drop_cr (''target='' @ t) = ''target='' @ t" by (rule drop_cr_guid [OF t(1)]) simp
    show ?thesis
      using Some r s t lines d1 d2 d3 env(2) tail
      by (simp add: record_text_def ParseSavedSchemeRecord_def scheme_line_def Let_def)
  qed
qed

lemma scheme_line_cases:
  assumes "scheme_line l f = Some f'"
  obtains "sf_saved f' = sf_saved f" "sf_target f' = sf_target f"
  | g t where "NormalizeSchemeGuid t = Some g" "sf_saved f' = Some g" "sf_target f' = sf_target f"
  | g t where "NormalizeSchemeGuid t = Some g" "sf_saved f' = sf_saved f" "sf_target f' = Some g"
proof -
  define a b c where "a = (take 6 (drop_cr l) = ''state='')" and "b = (take 6 (drop_cr l) = ''saved='')"
    and "c = (take 7 (drop_cr l) = ''target='')"
  show thesis
    using assms that unfolding scheme_line_def Let_def a_def [symmetric] b_def [symmetric] c_def [symmetric]
    by (auto split: if_splits option.splits)
qed

lemma scheme_lines_guids:
  "scheme_lines ls f = Some f' \<Longrightarrow> (\<forall>g. sf_saved f = Some g \<longrightarrow> guid_ok g) \<Longrightarrow> (\<forall>g. sf_target f = Some g \<longrightarrow> guid_ok g) \<Longrightarrow>
     (\<forall>g. sf_saved f' = Some g \<longrightarrow> guid_ok g) \<and> (\<forall>g. sf_target f' = Some g \<longrightarrow> guid_ok g)"
proof (induction ls arbitrary: f)
  case (Cons l ls)
  obtain f1 where f1: "scheme_line l f = Some f1" "scheme_lines ls f1 = Some f'"
    using Cons.prems(1) by (auto split: option.splits)
  have "(\<forall>g. sf_saved f1 = Some g \<longrightarrow> guid_ok g) \<and> (\<forall>g. sf_target f1 = Some g \<longrightarrow> guid_ok g)"
    using f1(1)
  proof (cases rule: scheme_line_cases)
    case 1
    then show ?thesis using Cons.prems(2,3) by simp
  next
    case (2 g t)
    then show ?thesis using Cons.prems(3) NormalizeSchemeGuid_ok [OF 2(1)] by simp
  next
    case (3 g t)
    then show ?thesis using Cons.prems(2) NormalizeSchemeGuid_ok [OF 3(1)] by simp
  qed
  then show ?case using Cons.IH f1(2) by blast
qed auto

lemma ParseSavedSchemeRecord_ok: "ParseSavedSchemeRecord t = Some r \<Longrightarrow> record_ok r"
  by (auto simp: ParseSavedSchemeRecord_def record_ok_def split: option.splits if_splits dest: scheme_lines_guids)

section \<open>Saving\<close>

lemma SaveSchemeRecord_ok:
  assumes "SaveSchemeRecord sysmsg io p r d = (Success u, d')"
  shows "p \<noteq> [] \<and> files d' = (files d)(temp_path p := None, p \<mapsto> record_text r)"
proof -
  from assms obtain d1 where p: "p \<noteq> []" and m: "make_parent io p d = (Inr (), d1)"
    and t: "temp_replace io p (record_text r) d1 = (Inr (), d')"
    by (auto simp: SaveSchemeRecord_def record_text_def Let_def
        split: if_splits prod.splits sum.splits replace_fault.splits option.splits)
  from p temp_replace_ok [OF t] make_parent_files [OF m] show ?thesis by auto
qed

lemma SaveSchemeRecord_fail:
  assumes "SaveSchemeRecord sysmsg io p r d = (Failure e, d')" and "q \<noteq> temp_path p"
  shows "files d' q = files d q"
proof -
  obtain r1 d1 where m: "make_parent io p d = (r1, d1)" by fastforce
  obtain r2 d2 where t: "temp_replace io p (record_text r) d1 = (r2, d2)" by fastforce
  from assms(1) m t have "d' = d \<or> d' = d1 \<or> (\<exists>e. r2 = Inl e \<and> d' = d2)"
    by (auto simp: SaveSchemeRecord_def record_text_def Let_def
        split: if_splits sum.splits replace_fault.splits option.splits)
  with make_parent_files [OF m] t assms(2) show ?thesis by (auto dest: temp_replace_fail)
qed

interpretation scheme_store: atomic_store "SaveSchemeRecord sysmsg" temp_path record_text
  for sysmsg
proof
  show "temp_path p \<noteq> p" for p by simp
  show "SaveSchemeRecord sysmsg io p x d = (Success v, d') \<Longrightarrow>
      files d' = (files d)(temp_path p := None, p \<mapsto> record_text x)" for io p x d v d'
    using SaveSchemeRecord_ok by blast
  show "SaveSchemeRecord sysmsg io p x d = (Failure e, d') \<Longrightarrow> q \<noteq> temp_path p \<Longrightarrow>
      files d' q = files d q" for io p x d e d' q
    by (rule SaveSchemeRecord_fail)
qed

lemma SaveSchemeRecord_clear:
  assumes "clear_path p d" and "SaveSchemeRecord sysmsg io p r d = (x, d')"
  shows "clear_path p d'"
proof -
  obtain r1 d1 where m: "make_parent io p d = (r1, d1)" by fastforce
  obtain r2 d2 where t: "temp_replace io p (record_text r) d1 = (r2, d2)" by fastforce
  from assms(2) m t have "d' = d \<or> d' = d1 \<or> d' = d2"
    by (auto simp: SaveSchemeRecord_def record_text_def Let_def
        split: if_splits sum.splits replace_fault.splits option.splits)
  moreover have "dirs d2 = dirs d1" using temp_replace_dirs [of io p "record_text r" d1] t by simp
  ultimately show ?thesis using assms(1) make_parent_clear [OF assms(1) m] by (auto simp: clear_path_def)
qed

lemma SaveSchemeRecord_works:
  assumes "record_ok r" and "clear_path p d"
  shows "\<exists>d'. SaveSchemeRecord sysmsg no_faults p r d = (Success (), d')"
proof -
  obtain r1 d1 where m: "make_parent no_faults p d = (r1, d1)" by fastforce
  then have r1: "r1 = Inr ()" by (auto simp: make_parent_def create_directories_named split: if_splits)
  have "clear_path p d1" by (rule make_parent_clear [OF assms(2) m])
  then have "fst (temp_replace no_faults p (record_text r) d1) = Inr ()"
    by (intro temp_replace_no_faults) (auto simp: clear_path_def)
  then obtain d2 where "temp_replace no_faults p (record_text r) d1 = (Inr (), d2)"
    by (cases "temp_replace no_faults p (record_text r) d1") auto
  then show ?thesis
    using assms m r1
    by (auto simp: SaveSchemeRecord_def record_text_def record_ok_def clear_path_def Let_def NormalizeSchemeGuid_fixed [THEN iffD2]
        split: option.splits)
qed

lemma ReadSavedSchemeRecord_no_faults:
  "clear_path p d \<Longrightarrow> ReadSavedSchemeRecord sysmsg no_faults p d =
     Success (case files d p of None \<Rightarrow> None | Some s \<Rightarrow> ParseSavedSchemeRecord s)"
  by (auto simp: clear_path_def ReadSavedSchemeRecord_def is_directory_def path_exists_def stream_bytes_def
      split: option.splits)

lemma read_saved:
  assumes "record_ok r" and "clear_path p d" and "SaveSchemeRecord sysmsg io p r d = (Success u, d')"
  shows "ReadSavedSchemeRecord sysmsg no_faults p d' = Success (Some r)"
  using ReadSavedSchemeRecord_no_faults [OF SaveSchemeRecord_clear [OF assms(2,3)]] SaveSchemeRecord_ok [OF assms(3)]
    ParseSavedSchemeRecord_text [OF assms(1)] by simp

lemma read_unsaved:
  assumes "clear_path p d" and "SaveSchemeRecord sysmsg io p r d = (Failure e, d')"
  shows "ReadSavedSchemeRecord sysmsg no_faults p d' = ReadSavedSchemeRecord sysmsg no_faults p d"
  using ReadSavedSchemeRecord_no_faults [OF SaveSchemeRecord_clear [OF assms]]
    ReadSavedSchemeRecord_no_faults [OF assms(1)] SaveSchemeRecord_fail [OF assms(2), of p] by simp

section \<open>Crash recovery\<close>

text \<open>
  A backend that tells the truth: reading does not change the machine and reports its active scheme,
  which is canonical.  Switching may fail in any way.
\<close>

locale scheme_backend =
  fixes B :: "'s SchemeBackend" and active :: "'s \<Rightarrow> string"
  assumes get_keeps: "GetActive B s = (r, s') \<Longrightarrow> active s' = active s"
    and get_true: "GetActive B s = (Success g, s') \<Longrightarrow> g = active s"
    and active_ok: "GetActive B s = (Success g, s') \<Longrightarrow> guid_ok g"

text \<open>A backend that also works.\<close>

locale working_backend = scheme_backend +
  assumes get_works: "\<exists>g s'. GetActive B s = (Success g, s')"
    and set_works: "guid_ok g \<Longrightarrow> \<exists>s'. SetActive B g s = (Success (), s') \<and> active s' = g"

context working_backend
begin

lemma get_eq: "\<exists>s'. GetActive B s = (Success (active s), s') \<and> active s' = active s"
  using get_works [of s] get_true get_keeps by metis

lemma RestoreScheme_works:
  assumes "guid_ok g"
  shows "\<exists>s'. RestoreScheme B g s = (Success \<lparr>sr_savedGuid = g, sr_activeGuid = g, sr_restored = True\<rparr>, s') \<and> active s' = g"
proof -
  obtain s1 where s1: "SetActive B g s = (Success (), s1)" "active s1 = g" using set_works [OF assms] by blast
  obtain s2 where "GetActive B s1 = (Success g, s2)" "active s2 = g" using get_eq [of s1] s1(2) by auto
  then show ?thesis using s1 assms by (simp add: RestoreScheme_def NormalizeSchemeGuid_fixed [THEN iffD2])
qed

text \<open>Recovery of a pending record ends on the saved scheme, with the record closed.\<close>

lemma recover_pending:
  assumes "clear_path p d" and "ReadSavedSchemeRecord sysmsg no_faults p d = Success (Some r)"
    and "ss_state r = Pending"
  shows "\<exists>out s' d'. RecoverPendingScheme B sysmsg no_faults p s d = (Success out, s', d') \<and>
    active s' = ss_savedGuid r \<and>
    ReadSavedSchemeRecord sysmsg no_faults p d' = Success (Some (r\<lparr>ss_state := Restored\<rparr>))"
proof -
  have r: "record_ok r"
    using assms(1,2) ReadSavedSchemeRecord_no_faults [OF assms(1)] ParseSavedSchemeRecord_ok
    by (auto split: option.splits)
  then have r': "record_ok (r\<lparr>ss_state := Restored\<rparr>)" by (simp add: record_ok_def)
  obtain s1 where s1: "GetActive B s = (Success (active s), s1)" "active s1 = active s" using get_eq by blast
  have a: "NormalizeSchemeGuid (active s) = Some (active s)"
    using active_ok [OF s1(1)] by (simp add: NormalizeSchemeGuid_fixed)
  obtain d1 where d1: "SaveSchemeRecord sysmsg no_faults p (r\<lparr>ss_state := Restored\<rparr>) d = (Success (), d1)"
    using SaveSchemeRecord_works [OF r' assms(1)] by blast
  note reread = read_saved [OF r' assms(1) d1]
  show ?thesis
  proof (cases "active s = ss_savedGuid r")
    case True
    then show ?thesis
      using assms s1 a d1 reread by (simp add: RecoverPendingScheme_def DecideSchemeRecovery_def Let_def)
  next
    case False
    obtain s2 where s2: "RestoreScheme B (ss_savedGuid r) s1 =
        (Success \<lparr>sr_savedGuid = ss_savedGuid r, sr_activeGuid = ss_savedGuid r, sr_restored = True\<rparr>, s2)"
      "active s2 = ss_savedGuid r"
      using RestoreScheme_works [of "ss_savedGuid r" s1] r unfolding record_ok_def by blast
    then show ?thesis
      using False assms s1 a d1 reread by (simp add: RecoverPendingScheme_def DecideSchemeRecovery_def Let_def)
  qed
qed

lemma recover_settled:
  assumes "ReadSavedSchemeRecord sysmsg no_faults p d = Success rec" and "\<forall>r. rec = Some r \<longrightarrow> ss_state r \<noteq> Pending"
  shows "\<exists>out s'. RecoverPendingScheme B sysmsg no_faults p s d = (Success out, s', d) \<and> active s' = active s"
proof -
  obtain s1 where "GetActive B s = (Success (active s), s1)" "active s1 = active s" using get_eq by blast
  moreover have "DecideSchemeRecovery rec (active s) = SRA_None"
    using assms(2) by (auto simp: DecideSchemeRecovery_def split: option.splits)
  ultimately show ?thesis using assms(1) by (simp add: RecoverPendingScheme_def Let_def)
qed

end

context scheme_backend
begin

lemma apply_leaves:
  assumes "clear_path p d" and "ApplySchemeWithRecord B sysmsg io io' p t s d = (r, s', d')"
  shows "clear_path p d' \<and>
    (active s' = active s \<and> ReadSavedSchemeRecord sysmsg no_faults p d' = ReadSavedSchemeRecord sysmsg no_faults p d \<or>
     (\<exists>g. NormalizeSchemeGuid t = Some g \<and>
        (\<exists>st. ReadSavedSchemeRecord sysmsg no_faults p d' =
           Success (Some \<lparr>ss_savedGuid = active s, ss_targetGuid = Some g, ss_state = st\<rparr>) \<and>
           (st = Pending \<or> st = Applied \<and> active s' = g))))"
proof (cases "NormalizeSchemeGuid t")
  case None
  then show ?thesis using assms by (simp add: ApplySchemeWithRecord_def)
next
  case (Some g)
  have g: "guid_ok g" by (rule NormalizeSchemeGuid_ok [OF Some])
  obtain r1 s1 where get: "GetActive B s = (r1, s1)" by fastforce
  have a1: "active s1 = active s" by (rule get_keeps [OF get])
  show ?thesis
  proof (cases r1)
    case (Inl e)
    then show ?thesis using assms Some get a1 by (auto simp: ApplySchemeWithRecord_def)
  next
    case (Inr prev)
    have prev: "prev = active s" "guid_ok (active s)" using get_true [of s prev s1] active_ok [of s prev s1] get Inr by auto
    define pend where "pend = \<lparr>ss_savedGuid = active s, ss_targetGuid = Some g, ss_state = Pending\<rparr>"
    have ok: "record_ok pend" "record_ok (pend\<lparr>ss_state := Applied\<rparr>)" using g prev(2) by (auto simp: record_ok_def pend_def)
    obtain r2 d1 where save: "SaveSchemeRecord sysmsg io p pend d = (r2, d1)" by fastforce
    have c1: "clear_path p d1" by (rule SaveSchemeRecord_clear [OF assms(1) save])
    show ?thesis
    proof (cases r2)
      case (Inl e)
      then have "ReadSavedSchemeRecord sysmsg no_faults p d1 = ReadSavedSchemeRecord sysmsg no_faults p d"
        using read_unsaved [OF assms(1)] save by blast
      moreover have "(s', d') = (s1, d1)"
        using assms(2) Some get Inr prev(1) save Inl by (auto simp: ApplySchemeWithRecord_def Let_def pend_def)
      ultimately show ?thesis using a1 c1 by auto
    next
      case saved: (Inr u)
      then have R1: "ReadSavedSchemeRecord sysmsg no_faults p d1 = Success (Some pend)"
        using read_saved [OF ok(1) assms(1)] save by blast
      obtain d2 r3 where mark: "SaveSchemeRecord sysmsg io' p (pend\<lparr>ss_state := Applied\<rparr>) d1 = (r3, d2)" by fastforce
      have c2: "clear_path p d2" by (rule SaveSchemeRecord_clear [OF c1 mark])
      have R2: "ReadSavedSchemeRecord sysmsg no_faults p d2 =
          Success (Some (if HasValue r3 then pend\<lparr>ss_state := Applied\<rparr> else pend))"
        using read_saved [OF ok(2) c1] read_unsaved [OF c1] mark R1 by (cases r3) auto
      obtain r4 s2 where set: "SetActive B g s1 = (r4, s2)" by fastforce
      obtain r5 s3 where get2: "GetActive B s2 = (r5, s3)" by fastforce
      have a3: "active s3 = g" if "r5 = Success g" using get_true [of s2 g s3] get_keeps [OF get2] get2 that by simp
      have "d' = d1 \<or> (s', d') = (s3, d2) \<and> r5 = Success g"
        using assms(2) Some get Inr prev(1) save saved set get2 mark
        by (auto simp: ApplySchemeWithRecord_def Let_def pend_def split: sum.splits if_splits)
      then show ?thesis
        using a3 c1 c2 R1 R2 Some by (cases r3) (auto simp: pend_def)
    qed
  qed
qed

end

text \<open>
  A process that dies leaves what a run leaves in which every later call fails without effect.  For the disk
  these are the faults below: the save breaks off before its directories, before the temporary file is opened,
  after \<open>n\<close> characters of it, or before it replaces the record; nothing is cleaned up.
\<close>

datatype save_cut = At_directories | At_open | At_write nat | At_replace

fun cut_io :: "save_cut \<Rightarrow> disk_faults" where
  "cut_io At_directories = no_faults\<lparr>fail_mkdir := \<lambda>_. Some 5, fail_open_write := \<lambda>_. Some 5\<rparr>"
| "cut_io At_open = no_faults\<lparr>fail_open_write := \<lambda>_. Some 5\<rparr>"
| "cut_io (At_write n) = no_faults\<lparr>fail_write := \<lambda>_. Some (n, 5), fail_remove := \<lambda>_. Some 5\<rparr>"
| "cut_io At_replace = no_faults\<lparr>fail_move := \<lambda>_. Some 5, fail_remove := \<lambda>_. Some 5\<rparr>"

lemma cut_replace:
  assumes "\<not> dirs d p" and "\<not> dirs d (temp_path p)"
  shows "files (snd (temp_replace (cut_io c) p s d)) =
    (case c of At_write n \<Rightarrow> (files d)(temp_path p \<mapsto> take n s)
     | At_replace \<Rightarrow> (files d)(temp_path p \<mapsto> s) | _ \<Rightarrow> files d)"
  using assms
  by (cases c) (simp_all add: temp_replace_def Let_def open_write_def write_flush_def move_replace_def remove_file_def set_file_def)

lemma cut_save:
  assumes "record_ok r" and "clear_path p d"
  shows "files (snd (SaveSchemeRecord sysmsg (cut_io c) p r d)) =
    (case c of At_write n \<Rightarrow> (files d)(temp_path p \<mapsto> take n (record_text r))
     | At_replace \<Rightarrow> (files d)(temp_path p \<mapsto> record_text r) | _ \<Rightarrow> files d)"
proof -
  obtain m d1 where mk: "make_parent (cut_io c) p d = (m, d1)" by fastforce
  have f: "files d1 = files d" by (rule make_parent_files [OF mk])
  have "clear_path p d1" by (rule make_parent_clear [OF assms(2) mk])
  then have cr: "files (snd (temp_replace (cut_io c) p (record_text r) d1)) =
    (case c of At_write n \<Rightarrow> (files d)(temp_path p \<mapsto> take n (record_text r))
     | At_replace \<Rightarrow> (files d)(temp_path p \<mapsto> record_text r) | _ \<Rightarrow> files d)"
    using cut_replace [of d1 p c] f by (simp add: clear_path_def split: save_cut.splits)
  have m: "c = At_directories \<or> m = Inr ()"
    using mk by (cases c) (auto simp: make_parent_def create_directories_named split: if_splits)
  have save: "snd (SaveSchemeRecord sysmsg (cut_io c) p r d) =
      (case m of Inl _ \<Rightarrow> d1 | Inr _ \<Rightarrow> snd (temp_replace (cut_io c) p (record_text r) d1))"
    using assms mk
    by (auto simp: SaveSchemeRecord_def record_text_def record_ok_def clear_path_def Let_def NormalizeSchemeGuid_fixed [THEN iffD2]
        split: option.splits sum.splits prod.splits replace_fault.splits)
  show ?thesis unfolding save using cr f m by (cases m) auto
qed

text \<open>
  C14: A switch of the power scheme survives a crash at any point and any failure of the disk or of the
  backend on the way.  Whatever the run of the switch did and however it ended, each save failing at any
  step of its own and the switch failing with or without effect, a recovery on what it left succeeds and leaves no
  unconfirmed record; the machine is then on its original scheme, or on the target with a confirmed
  record that still names the original one.  A crash is a run whose later calls all fail, the saves as in
  \<open>cut_io\<close>.  The hypotheses: the backend of the switch reports the active scheme truthfully when it reports
  one; no switch was unconfirmed at the start; no directory is in the way of the record; and the
  recovery itself runs with a disk without faults and a backend that works.\<close>
theorem ApplySchemeWithRecord_crash_safe:
  assumes "scheme_backend B active" and "working_backend R active" and "clear_path p d"
    and "ReadSavedSchemeRecord sysmsg no_faults p d = Success rec" and "\<forall>r. rec = Some r \<longrightarrow> ss_state r \<noteq> Pending"
    and "ApplySchemeWithRecord B sysmsg io io' p t s d = (result, s', d')"
  shows "\<exists>out s'' d'' rec'. RecoverPendingScheme R sysmsg no_faults p s' d' = (Success out, s'', d'') \<and>
    ReadSavedSchemeRecord sysmsg no_faults p d'' = Success rec' \<and> (\<forall>r. rec' = Some r \<longrightarrow> ss_state r \<noteq> Pending) \<and>
    (active s'' = active s \<or>
     (\<exists>r. NormalizeSchemeGuid t = Some (active s'') \<and> rec' = Some r \<and> ss_state r = Applied \<and> ss_savedGuid r = active s))"
proof -
  note C = scheme_backend.apply_leaves [OF assms(1,3,6)]
  consider (untouched) "active s' = active s" "ReadSavedSchemeRecord sysmsg no_faults p d' = Success rec"
    | (pending) g where "ReadSavedSchemeRecord sysmsg no_faults p d' =
           Success (Some \<lparr>ss_savedGuid = active s, ss_targetGuid = Some g, ss_state = Pending\<rparr>)"
    | (applied) g where "ReadSavedSchemeRecord sysmsg no_faults p d' =
           Success (Some \<lparr>ss_savedGuid = active s, ss_targetGuid = Some g, ss_state = Applied\<rparr>)"
        "NormalizeSchemeGuid t = Some g" "active s' = g"
    using C assms(4) by auto
  then show ?thesis
  proof cases
    case untouched
    then show ?thesis using working_backend.recover_settled [OF assms(2) untouched(2) assms(5), of s'] assms(5) by fastforce
  next
    case pending
    then show ?thesis using working_backend.recover_pending [OF assms(2) conjunct1 [OF C] pending, of s'] by fastforce
  next
    case applied
    have "\<forall>r. Some \<lparr>ss_savedGuid = active s, ss_targetGuid = Some g, ss_state = Applied\<rparr> = Some r \<longrightarrow> ss_state r \<noteq> Pending"
      by auto
    then obtain out s'' where "RecoverPendingScheme R sysmsg no_faults p s' d' = (Success out, s'', d')" "active s'' = active s'"
      using working_backend.recover_settled [OF assms(2) applied(1), of s'] by blast
    then show ?thesis using applied by auto
  qed
qed

context scheme_backend
begin

lemma apply_confirmed:
  assumes "clear_path p d" and "ApplySchemeWithRecord B sysmsg io io' p t s d = (Success out, s', d')" and "sw_changed out"
  shows "\<exists>g. NormalizeSchemeGuid t = Some g \<and> active s' = g \<and> clear_path p d' \<and> guid_ok (active s) \<and>
    ReadSavedSchemeRecord sysmsg no_faults p d' =
      Success (Some \<lparr>ss_savedGuid = active s, ss_targetGuid = Some g, ss_state = Applied\<rparr>)"
proof -
  obtain g prev s1 d1 s2 where t: "NormalizeSchemeGuid t = Some g" and get: "GetActive B s = (Success prev, s1)"
    and save: "SaveSchemeRecord sysmsg io p \<lparr>ss_savedGuid = prev, ss_targetGuid = Some g, ss_state = Pending\<rparr> d = (Success (), d1)"
    and get2: "GetActive B s2 = (Success g, s')"
    and mark: "SaveSchemeRecord sysmsg io' p \<lparr>ss_savedGuid = prev, ss_targetGuid = Some g, ss_state = Applied\<rparr> d1 = (Success (), d')"
    using assms(2,3) by (auto simp: ApplySchemeWithRecord_def Let_def split: option.splits sum.splits prod.splits if_splits)
  have prev: "prev = active s" "guid_ok prev" using get_true [OF get] active_ok [OF get] by simp_all
  have "active s' = g" using get_true [OF get2] get_keeps [OF get2] by simp
  moreover have c1: "clear_path p d1" by (rule SaveSchemeRecord_clear [OF assms(1) save])
  moreover have "clear_path p d'" by (rule SaveSchemeRecord_clear [OF c1 mark])
  moreover have "record_ok \<lparr>ss_savedGuid = prev, ss_targetGuid = Some g, ss_state = Applied\<rparr>"
    using prev(2) NormalizeSchemeGuid_ok [OF t] by (simp add: record_ok_def)
  then have "ReadSavedSchemeRecord sysmsg no_faults p d' =
      Success (Some \<lparr>ss_savedGuid = prev, ss_targetGuid = Some g, ss_state = Applied\<rparr>)"
    by (rule read_saved [OF _ c1 mark])
  ultimately show ?thesis using t prev by simp
qed

end

text \<open>
  Restoring undoes a confirmed switch: after a switch that reports the change, the machine is on the
  target, and restoring with a working backend and disk succeeds, puts the machine back on the scheme
  it had before the switch and closes the record.\<close>
theorem RestoreSchemeWithRecord_undoes_switch:
  assumes "scheme_backend B active" and "working_backend R active" and "clear_path p d"
    and "ApplySchemeWithRecord B sysmsg io io' p t s d = (Success out, s', d')" and "sw_changed out"
  shows "NormalizeSchemeGuid t = Some (active s') \<and>
    (\<exists>q s'' d''. RestoreSchemeWithRecord R sysmsg no_faults p s' d' = (Success q, s'', d'') \<and>
       rf_restored q \<and> rf_recordMarkedRestored q \<and> active s'' = active s \<and>
       (\<exists>r. ReadSavedSchemeRecord sysmsg no_faults p d'' = Success (Some r) \<and> ss_state r = Restored))"
proof -
  obtain g where g: "NormalizeSchemeGuid t = Some g" "active s' = g" "clear_path p d'" "guid_ok (active s)"
    and rd: "ReadSavedSchemeRecord sysmsg no_faults p d' =
      Success (Some \<lparr>ss_savedGuid = active s, ss_targetGuid = Some g, ss_state = Applied\<rparr>)"
    using scheme_backend.apply_confirmed [OF assms(1,3,4,5)] by blast
  obtain s'' where r: "RestoreScheme R (active s) s' =
      (Success \<lparr>sr_savedGuid = active s, sr_activeGuid = active s, sr_restored = True\<rparr>, s'')" "active s'' = active s"
    using working_backend.RestoreScheme_works [OF assms(2) g(4)] by blast
  let ?r = "\<lparr>ss_savedGuid = active s, ss_targetGuid = Some g, ss_state = Restored\<rparr>"
  have ok: "record_ok ?r" using g(4) NormalizeSchemeGuid_ok [OF g(1)] by (simp add: record_ok_def)
  obtain d'' where w: "SaveSchemeRecord sysmsg no_faults p ?r d' = (Success (), d'')"
    using SaveSchemeRecord_works [OF ok g(3)] by blast
  show ?thesis
    using g(1,2) rd r w read_saved [OF ok g(3) w] by (simp add: RestoreSchemeWithRecord_def)
qed

section \<open>A machine\<close>

text \<open>
  A machine with an active scheme and a script of the errors its entry points return; it shows that the
  Win32 backend meets both contracts.
\<close>

typedef guid = "{g. guid_ok g}"
  by (rule exI [of _ kSchemeBalanced]) code_simp

record machine =
  ma_scheme :: guid
  ma_faults :: "u32 list"

definition next_fault :: "bool \<Rightarrow> machine \<Rightarrow> u32 \<times> machine" where
  "next_fault calm m =
     (if calm then (0, m) else case ma_faults m of [] \<Rightarrow> (0, m) | f # fs \<Rightarrow> (f, m\<lparr>ma_faults := fs\<rparr>))"

definition machine_api :: "bool \<Rightarrow> (guid, machine) powrprof" where
  "machine_api calm =
     \<lparr>PowerGetActiveScheme = (\<lambda>m. case next_fault calm m of
        (f, m1) \<Rightarrow> ((f, if f = 0 then Some (ma_scheme m) else None), m1)),
      PowerSetActiveScheme = (\<lambda>g m. case next_fault calm m of
        (f, m1) \<Rightarrow> (f, if f = 0 then m1\<lparr>ma_scheme := g\<rparr> else m1)),
      StringFromGUID2 = (\<lambda>g. Some (wide (''{'' @ Rep_guid g @ ''}''))),
      CLSIDFromString = (\<lambda>w.
        let t = map (\<lambda>u. char_of (unat u)) (filter (\<lambda>u. u \<noteq> 0x7B \<and> u \<noteq> 0x7D) w)
        in if guid_ok t then Some (Abs_guid t) else None)\<rparr>"

definition machine_active :: "machine \<Rightarrow> string" where
  "machine_active m = Rep_guid (ma_scheme m)"

lemma guid_digit_unit:
  assumes "guid_digit c"
  shows "unat (of_nat (of_char c) :: u16) = of_char c" and "guid_char (of_nat (of_char c)) = c"
    and "(of_nat (of_char c) :: u16) \<noteq> 0x7B" and "(of_nat (of_char c) :: u16) \<noteq> 0x7D"
proof -
  have le: "(of_char c :: nat) \<le> 70"
    using assms by (auto simp: guid_digit_def hex_upper_def is_digit_def)
  show u: "unat (of_nat (of_char c) :: u16) = of_char c"
    by (simp add: unsigned_of_nat take_bit_nat_eq_self_iff less_trans [OF nat_of_char_less_256])
  show "(of_nat (of_char c) :: u16) \<noteq> 0x7B" "(of_nat (of_char c) :: u16) \<noteq> 0x7D"
    using le u by (auto dest: arg_cong [of _ _ unat])
  have "\<not> (97 \<le> (of_nat (of_char c) :: u16))" "(of_nat (of_char c) :: u16) \<le> 0x7F"
    using le u by (simp_all add: word_le_nat_alt)
  then show "guid_char (of_nat (of_char c)) = c" using u by (simp add: guid_char_def)
qed

lemma wide_guid:
  assumes "guid_ok g"
  shows "filter (\<lambda>u. u \<noteq> 0x7B \<and> u \<noteq> 0x7D) (wide (''{'' @ g @ ''}'')) = wide g"
    and "map guid_char (wide g) = g" and "map (\<lambda>u. char_of (unat u)) (wide g) = g"
proof -
  have d: "guid_digit c" if "c \<in> set g" for c using guid_ok_digits [OF assms that] .
  have "filter (\<lambda>u. u \<noteq> 0x7B \<and> u \<noteq> 0x7D) (wide g) = wide g"
    using d guid_digit_unit(3,4) by (auto simp: wide_def)
  then show "filter (\<lambda>u. u \<noteq> 0x7B \<and> u \<noteq> 0x7D) (wide (''{'' @ g @ ''}'')) = wide g"
    by (simp add: wide_def)
  show "map guid_char (wide g) = g"
    using d guid_digit_unit(2) by (auto simp: wide_def intro: map_idI)
  show "map (\<lambda>u. char_of (unat u)) (wide g) = g"
    using d guid_digit_unit(1) by (auto simp: wide_def intro: map_idI)
qed

lemma guid_text: "guid_ok (Rep_guid g)"
  using Rep_guid by simp

lemma guid_ok_ne: "guid_ok g \<Longrightarrow> g \<noteq> []"
  by (auto simp: guid_ok_def)

lemma machine_format [simp]: "FormatGuid (machine_api calm) g = Rep_guid g"
  using wide_guid(1,2) [OF guid_text [of g]] by (simp add: FormatGuid_def machine_api_def)

lemma machine_parse: "guid_ok t \<Longrightarrow> ParseGuid (machine_api calm) t = Some (Abs_guid t)"
  using wide_guid(1,3) [of t] by (simp add: ParseGuid_def machine_api_def)

lemma machine_get:
  "RealGetActive sysmsg (machine_api calm) m =
     (case next_fault calm m of
        (f, m1) \<Rightarrow> if f = 0 then (Success (machine_active m), m1)
                  else (Failure (FromWin32 sysmsg f ''PowerGetActiveScheme''), m1))"
  using guid_ok_ne [OF guid_text [of "ma_scheme m"]]
  by (auto simp: RealGetActive_def machine_active_def Let_def split: prod.splits) (auto simp: machine_api_def split: prod.splits)

lemma next_fault_scheme: "next_fault calm m = (f, m1) \<Longrightarrow> ma_scheme m1 = ma_scheme m"
  by (auto simp: next_fault_def split: if_splits list.splits)

interpretation win32_scheme: scheme_backend "Win32PowerSchemeBackend sysmsg (machine_api calm)" machine_active
  for sysmsg calm
  by unfold_locales
    (auto simp: Win32PowerSchemeBackend_def machine_get machine_active_def guid_text
      dest: next_fault_scheme split: prod.splits if_splits)

interpretation calm_scheme: working_backend "Win32PowerSchemeBackend sysmsg (machine_api True)" machine_active
  for sysmsg
proof
  show "\<exists>g s'. GetActive (Win32PowerSchemeBackend sysmsg (machine_api True)) s = (Success g, s')" for s
    by (simp add: Win32PowerSchemeBackend_def machine_get next_fault_def)
  show "\<exists>s'. SetActive (Win32PowerSchemeBackend sysmsg (machine_api True)) g s = (Success (), s') \<and> machine_active s' = g"
    if "guid_ok g" for g s
    using that
    by (simp add: Win32PowerSchemeBackend_def RealSetActive_def machine_parse)
      (simp add: machine_api_def next_fault_def machine_active_def Abs_guid_inverse)
qed

context working_backend
begin

lemma apply_works:
  assumes "clear_path p d" and "NormalizeSchemeGuid t = Some g"
  shows "\<exists>out s' d'. ApplySchemeWithRecord B sysmsg no_faults no_faults p t s d = (Success out, s', d') \<and> sw_changed out"
proof -
  have g: "guid_ok g" by (rule NormalizeSchemeGuid_ok [OF assms(2)])
  obtain s1 where s1: "GetActive B s = (Success (active s), s1)" using get_eq by blast
  have ok: "record_ok \<lparr>ss_savedGuid = active s, ss_targetGuid = Some g, ss_state = st\<rparr>" for st
    using g active_ok [OF s1] by (simp add: record_ok_def)
  obtain d1 where d1: "SaveSchemeRecord sysmsg no_faults p
      \<lparr>ss_savedGuid = active s, ss_targetGuid = Some g, ss_state = Pending\<rparr> d = (Success (), d1)"
    using SaveSchemeRecord_works [OF ok assms(1)] by blast
  obtain s2 where s2: "SetActive B g s1 = (Success (), s2)" "active s2 = g" using set_works [OF g] by blast
  obtain s3 where s3: "GetActive B s2 = (Success g, s3)" using get_eq [of s2] s2(2) by auto
  obtain d2 where d2: "SaveSchemeRecord sysmsg no_faults p
      \<lparr>ss_savedGuid = active s, ss_targetGuid = Some g, ss_state = Applied\<rparr> d1 = (Success (), d2)"
    using SaveSchemeRecord_works [OF ok SaveSchemeRecord_clear [OF assms(1) d1]] by blast
  show ?thesis using assms(2) s1 d1 s2(1) s3 d2 by (simp add: ApplySchemeWithRecord_def Let_def)
qed

end

lemma demo_clear: "clear_path ''s'' empty_disk"
  by code_simp

lemma demo_target: "NormalizeSchemeGuid kSchemePowerSaver = Some kSchemePowerSaver"
  by code_simp

text \<open>The second save is cut off after five characters: the machine is on the target, the record still unconfirmed.\<close>

theorem ApplySchemeWithRecord_crash_safe_witness:
  "\<exists>out s'' d''. case ApplySchemeWithRecord (Win32PowerSchemeBackend (\<lambda>_. []) (machine_api True)) (\<lambda>_. []) no_faults
       (cut_io (At_write 5)) ''s'' kSchemePowerSaver \<lparr>ma_scheme = Abs_guid kSchemeBalanced, ma_faults = []\<rparr> empty_disk of
     (r, s', d') \<Rightarrow>
       RecoverPendingScheme (Win32PowerSchemeBackend (\<lambda>_. []) (machine_api True)) (\<lambda>_. []) no_faults ''s'' s' d' =
         (Success out, s'', d'')"
proof -
  let ?B = "Win32PowerSchemeBackend (\<lambda>_. []) (machine_api True)"
  let ?m = "\<lparr>ma_scheme = Abs_guid kSchemeBalanced, ma_faults = []\<rparr>"
  obtain r s' d' where a: "ApplySchemeWithRecord ?B (\<lambda>_. []) no_faults (cut_io (At_write 5)) ''s'' kSchemePowerSaver ?m empty_disk = (r, s', d')"
    by (metis prod.exhaust)
  moreover have "ReadSavedSchemeRecord (\<lambda>_. []) no_faults ''s'' empty_disk = Success None"
    by (simp add: ReadSavedSchemeRecord_no_faults [OF demo_clear]) (simp add: empty_disk_def)
  ultimately show ?thesis
    using ApplySchemeWithRecord_crash_safe [OF win32_scheme.scheme_backend_axioms calm_scheme.working_backend_axioms demo_clear _ _ a,
        where rec = None] by fastforce
qed

theorem RestoreSchemeWithRecord_undoes_switch_witness:
  "\<exists>out s' d' q s'' d''.
     ApplySchemeWithRecord (Win32PowerSchemeBackend (\<lambda>_. []) (machine_api True)) (\<lambda>_. []) no_faults no_faults ''s''
       kSchemePowerSaver \<lparr>ma_scheme = Abs_guid kSchemeBalanced, ma_faults = []\<rparr> empty_disk = (Success out, s', d') \<and>
     RestoreSchemeWithRecord (Win32PowerSchemeBackend (\<lambda>_. []) (machine_api True)) (\<lambda>_. []) no_faults ''s'' s' d' =
       (Success q, s'', d'') \<and> machine_active s'' = machine_active \<lparr>ma_scheme = Abs_guid kSchemeBalanced, ma_faults = []\<rparr>"
proof -
  let ?B = "Win32PowerSchemeBackend (\<lambda>_. []) (machine_api True)"
  let ?m = "\<lparr>ma_scheme = Abs_guid kSchemeBalanced, ma_faults = []\<rparr>"
  obtain out s' d' where a: "ApplySchemeWithRecord ?B (\<lambda>_. []) no_faults no_faults ''s'' kSchemePowerSaver ?m empty_disk =
      (Success out, s', d')" "sw_changed out"
    using calm_scheme.apply_works [OF demo_clear demo_target] by blast
  show ?thesis
    using RestoreSchemeWithRecord_undoes_switch [OF win32_scheme.scheme_backend_axioms
        calm_scheme.working_backend_axioms demo_clear a] a(1) by blast
qed

text \<open>
  The apply command goes on when the recovery of an earlier switch reported success without having
  restored: the new record then names the wrong scheme and the original one is lost.
\<close>

lemma apply_command_forgets_original:
  assumes "scheme_backend B active" and "clear_path p d"
    and "ReadSavedSchemeRecord sysmsg no_faults p d = Success (Some r)" and "ss_state r = Pending"
    and "RecoverPendingScheme B sysmsg no_faults p s d = (Success out, s1, d1)" and "ro_action out = RestoreToSaved"
    and "\<not> ro_restored out"
    and "apply_command B sysmsg no_faults p t s d = (Some (Success o2), s', d')" and "sw_changed o2"
  shows "\<exists>r'. ReadSavedSchemeRecord sysmsg no_faults p d' = Success (Some r') \<and> ss_savedGuid r' = active s1 \<and>
    active s1 \<noteq> ss_savedGuid r"
proof -
  obtain a0 s0 where g0: "GetActive B s = (Success a0, s0)"
    using assms(3,5) by (auto simp: RecoverPendingScheme_def split: sum.splits prod.splits)
  define act where "act = DecideSchemeRecovery (Some r) a0"
  have act: "act = RestoreToSaved"
    using assms(3,5,6) g0 unfolding RecoverPendingScheme_def act_def [symmetric]
    by (cases act) (auto simp: Let_def act_def [symmetric] split: sum.splits prod.splits if_splits)
  obtain q where d1: "d1 = d" and q: "RestoreScheme B (ss_savedGuid r) s0 = (Success q, s1)" "\<not> sr_restored q"
    using assms(3,5,7) g0 act
    by (auto simp: RecoverPendingScheme_def Let_def act_def [symmetric] split: sum.splits prod.splits if_splits)
  have "record_ok r"
    using assms(2,3) ReadSavedSchemeRecord_no_faults [OF assms(2)] ParseSavedSchemeRecord_ok by (auto split: option.splits)
  then have n: "NormalizeSchemeGuid (ss_savedGuid r) = Some (ss_savedGuid r)" by (simp add: record_ok_def NormalizeSchemeGuid_fixed)
  obtain s2 a where "GetActive B s2 = (Success a, s1)" "a \<noteq> ss_savedGuid r"
    using q n by (auto simp: RestoreScheme_def split: sum.splits prod.splits)
  then have ne: "active s1 \<noteq> ss_savedGuid r"
    using scheme_backend.get_true [OF assms(1)] scheme_backend.get_keeps [OF assms(1)] by metis
  have "ApplySchemeWithRecord B sysmsg no_faults no_faults p t s1 d1 = (Success o2, s', d')"
    using assms(3,4,5,8) by (auto simp: apply_command_def Let_def split: prod.splits)
  then show ?thesis
    using scheme_backend.apply_confirmed [OF assms(1), of p d1 sysmsg no_faults no_faults t s1 o2 s' d'] assms(2,9) d1 ne by auto
qed

end
