(* ===== verification/Power_Scheme_Command.thy ===== *)
theory Power_Scheme_Command
  imports Memory_Clean_Command Power_Scheme
begin

text \<open>
  The command \<^verbatim>\<open>--power-scheme\<close> of \<^verbatim>\<open>source/main.cpp\<close>: reading the active and the saved scheme,
  switching behind all six gates, and the two ways back (restore and recover), which by design pass
  with the build option and a writable audit log alone.
\<close>

section \<open>The gates\<close>

record PowerSchemeGateContext =
  pg_inputs :: GateInputs
  pg_gates :: GateEvaluation
  pg_auditWritable :: bool

definition GatherPowerSchemeGates ::
  "cli_params \<Rightarrow> build_options \<Rightarrow> bool \<Rightarrow> bool \<Rightarrow> bool \<Rightarrow> 's cli \<Rightarrow> PowerSchemeGateContext \<times> 's cli" where
  "GatherPowerSchemeGates P B acknowledged configEnabled cooldownApplies W =
     (let probe = ProbeAuditWritable (cp_sysmsg P) (cp_io P) (DefaultAuditLogPath P) (cl_disk W);
          W1 = tick (W\<lparr>cl_disk := snd probe\<rparr>);
          inputs = \<lparr>gi_compileTime = bo_powerSchemeSwitch B, gi_config = configEnabled, gi_commandLine = acknowledged,
                    gi_permissionAndEnvironment = EvaluateEnvironmentGate (GatherEnvironmentFacts P (cl_ticks W)),
                    gi_audit = HasValue (fst probe),
                    gi_cooldown = (if cooldownApplies then cooldown_gate P kPowerSchemeCapabilityId W1 else True)\<rparr>
      in (\<lparr>pg_inputs = inputs, pg_gates = EvaluateGates inputs, pg_auditWritable = HasValue (fst probe)\<rparr>,
          if cooldownApplies then tick W1 else W1))"

section \<open>Arguments\<close>

record scheme_args =
  sa_configPath :: "path option"
  sa_acknowledged :: bool
  sa_action :: string
  sa_targetGuid :: string

definition no_scheme_args :: scheme_args where
  "no_scheme_args = \<lparr>sa_configPath = None, sa_acknowledged = False, sa_action = [], sa_targetGuid = []\<rparr>"

fun parse_scheme_args :: "cli_params \<Rightarrow> string list \<Rightarrow> scheme_args \<Rightarrow> string + scheme_args" where
  "parse_scheme_args P [] a =
     (if sa_action a = []
      then Inl (''  --power-scheme requires status|saved|recover|restore|'' @
                ''balanced|high-performance|power-saver|<GUID>'')
      else Inr a)"
| "parse_scheme_args P (arg # args) a =
     (if arg = ''--acknowledge-system-wide-side-effects'' then parse_scheme_args P args (a\<lparr>sa_acknowledged := True\<rparr>)
      else if arg = ''--force''
      then Inl (''  --force is not accepted; use an action-specific confirmation such as'' @
                '' --acknowledge-system-wide-side-effects'')
      else case WideToUtf8 (cp_sysmsg P) (cp_codec P) (wide arg) of
             Inl _ \<Rightarrow> Inl ''  --power-scheme accepts ASCII tokens only''
           | Inr text \<Rightarrow>
               if sa_action a = []
               then (let folded = map to_lower text
                     in if folded = ''status'' \<or> folded = ''saved'' \<or> folded = ''restore'' \<or> folded = ''recover''
                        then parse_scheme_args P args (a\<lparr>sa_action := folded\<rparr>)
                        else case ResolveSchemeArgument text of
                               Some g \<Rightarrow> parse_scheme_args P args (a\<lparr>sa_action := ''apply'', sa_targetGuid := g\<rparr>)
                             | None \<Rightarrow>
                                 Inl (''  unknown --power-scheme target: '' @ text @
                                      '' (use status|saved|recover|restore|balanced|high-performance|power-saver|<GUID>)''))
               else if sa_configPath a \<noteq> None then Inl (''  unknown --power-scheme option: '' @ arg)
               else parse_scheme_args P args (a\<lparr>sa_configPath := Some arg\<rparr>))"

section \<open>Reading\<close>

definition show_saved :: "SavedSchemeRecord option \<Rightarrow> 's cli \<Rightarrow> int \<times> 's cli" where
  "show_saved rec W =
     (case rec of
        None \<Rightarrow> (0, WriteLine ''  record   : none'' W)
      | Some saved \<Rightarrow>
          (let W1 = WriteLine (''  state    : '' @ SchemeSaveStateToString (ss_state saved))
                      (WriteLine (''  saved    : '' @ ss_savedGuid saved) W);
               W2 = (case ss_targetGuid saved of None \<Rightarrow> W1 | Some t \<Rightarrow> WriteLine (''  target   : '' @ t) W1)
           in (0, if ss_state saved = Pending
                  then WriteLine (''  warning  : a previous switch was not confirmed (state=pending);'' @
                         '' run --power-scheme recover to roll back to the saved scheme'') W2
                  else W2)))"

definition show_scheme ::
  "'s SchemeBackend \<Rightarrow> bool \<Rightarrow> SavedSchemeRecord option result \<Rightarrow> 's cli \<Rightarrow> int \<times> 's cli" where
  "show_scheme X status rec W =
     (case rec of
        Inl e \<Rightarrow> (2, err_when True (''  saved scheme read failed '' @ error_text e) W)
      | Inr saved \<Rightarrow>
          if status
          then (case GetActive X (cl_machine W) of
                  (Inl e, s) \<Rightarrow> (2, err_when True (''  active scheme query failed '' @ error_text e) (W\<lparr>cl_machine := s\<rparr>))
                | (Inr a, s) \<Rightarrow>
                    show_saved saved (WriteLine (''  active   : '' @ a)
                      (WriteLine ''Power scheme (read-only, PowerGetActiveScheme)'' (W\<lparr>cl_machine := s\<rparr>))))
          else show_saved saved (WriteLine ''Saved power scheme (read-only; restore basis)'' W))"

section \<open>Acting\<close>

definition refuse_scheme :: "string \<Rightarrow> bool \<Rightarrow> GateEvaluation \<Rightarrow> PowerSchemeGateContext \<Rightarrow> 's cli \<Rightarrow> 's cli" where
  "refuse_scheme action isForward gates context W =
     err_when (isForward \<and> \<not> gi_cooldown (pg_inputs context))
       ''  hint     : the cooldown window is still open; rollback (restore/recover) is never blocked by cooldown''
     (err_when (isForward \<and> \<not> gi_commandLine (pg_inputs context))
       ''  hint     : pass --acknowledge-system-wide-side-effects''
     (err_when (isForward \<and> \<not> gi_config (pg_inputs context))
       (''  hint     : the config must allow this (needs [power].switch_power_scheme = true and [application].mode = '' @
        [CHR 0x22] @ ''experimental'' @ [CHR 0x22] @ '' with [layers].emergency = true)'')
     (err_when (\<not> gi_compileTime (pg_inputs context))
       (''  hint     : this capability is compiled out by default'' @
        '' (build option OPTIMIZER_ENABLE_POWER_SCHEME_SWITCH)'')
     (err_when (\<not> pg_auditWritable context)
       (''  audit    : unavailable - a real action is refused before any system call'' @
        '' (audit must be writable first)'')
     (err_when True
       (''  --power-scheme '' @ action @ '' refused [first blocked gate: '' @ FirstBlockingGateName gates @
        ''] (no system call was made)'') W)))))"

text \<open>The lines and the audit record that end each action.\<close>

definition finish_scheme ::
  "cli_params \<Rightarrow> string \<Rightarrow> string \<Rightarrow> string list \<Rightarrow> string \<Rightarrow> string \<Rightarrow> bool \<Rightarrow> string \<Rightarrow> string list \<Rightarrow> 's cli \<Rightarrow> 's cli" where
  "finish_scheme P operationId target heads state verdict ok detail tail W =
     (let W1 = fold WriteLine heads W;
          W2 = (if state \<noteq> [] then WriteLine (''  state    : '' @ state) W1 else W1);
          W3 = WriteLine (''  verdict  : '' @ verdict) W2;
          W4 = err_when (\<not> ok) (''  detail   : '' @ detail) W3;
          W5 = fold WriteLine tail W4
      in AuditAction P operationId R2 target ok (main_ToUtf8 P detail) state W5)"

definition failed_text :: "Error \<Rightarrow> string" where
  "failed_text e = ''failed '' @ error_text e"

definition recover_scheme ::
  "cli_params \<Rightarrow> 's SchemeBackend \<Rightarrow> string \<Rightarrow> SavedSchemeRecord option result \<Rightarrow> 's cli \<Rightarrow> int \<times> 's cli" where
  "recover_scheme P X target rec W =
     (case rec of
        Inl e \<Rightarrow> (2, err_when True (''  saved scheme read failed '' @ error_text e) W)
      | Inr None \<Rightarrow>
          (0, WriteLine ''  verdict  : nothing to recover''
                (WriteLine ''Power scheme recover (rollback; no record on disk)'' W))
      | Inr (Some _) \<Rightarrow>
          (let W1 = JournalAction P ''power.scheme_recover'' target True Before
                      ''intent: roll back an unconfirmed power scheme switch'' W
           in case RecoverPendingScheme X (cp_sysmsg P) (cp_io P) (DefaultPowerSchemeSavePath P) (cl_machine W1) (cl_disk W1) of
                (recovered, s, d) \<Rightarrow>
                  (let (ok, state, detail) =
                         (case recovered of
                            Inl e \<Rightarrow> (False, [], failed_text e)
                          | Inr q \<Rightarrow>
                              (let state = ''action='' @ SchemeRecoveryActionToString (ro_action q) @ '' saved='' @
                                           ro_savedGuid q @ '' active='' @ ro_activeGuid q
                               in case ro_action q of
                                    SRA_None \<Rightarrow> (True, state, ''nothing to roll back (record is applied/restored or absent)'')
                                  | MarkNeverApplied \<Rightarrow>
                                      (True, state, ''the switch never took effect; record marked as restored'')
                                  | RestoreToSaved \<Rightarrow>
                                      (ro_restored q, state,
                                       if ro_restored q then ''rolled back to the saved scheme and verified by read-back''
                                       else ''rollback call returned success but read-back differs'')))
                   in (if ok then 0 else 2,
                       finish_scheme P ''power.scheme_recover'' target
                         [''Power scheme recover (rollback; never blocked by cooldown)''] state
                         (if ok then ''recovered'' else ''not recovered'') ok detail []
                         (W1\<lparr>cl_machine := s, cl_disk := d\<rparr>)))))"

definition restore_scheme :: "cli_params \<Rightarrow> 's SchemeBackend \<Rightarrow> string \<Rightarrow> 's cli \<Rightarrow> int \<times> 's cli" where
  "restore_scheme P X target W =
     (let W1 = JournalAction P ''power.scheme_restore'' target True Before
                 ''intent: restore saved power scheme (rollback)'' W
      in case RestoreSchemeWithRecord X (cp_sysmsg P) (cp_io P) (DefaultPowerSchemeSavePath P) (cl_machine W1) (cl_disk W1) of
           (restored, s, d) \<Rightarrow>
             (let (ok, state, detail) =
                    (case restored of
                       Inl e \<Rightarrow> (False, [], failed_text e)
                     | Inr q \<Rightarrow>
                         (rf_restored q, ''saved='' @ rf_savedGuid q @ '' active='' @ rf_activeGuid q,
                          if rf_restored q then ''restored and verified by read-back; record marked restored''
                          else ''restore call returned success but read-back differs''))
              in (if ok then 0 else 2,
                  finish_scheme P ''power.scheme_restore'' target
                    [''Power scheme restore (rollback; never blocked by cooldown)''] state
                    (if ok then ''restored (verified by read-back)'' else ''not restored'') ok detail []
                    (W1\<lparr>cl_machine := s, cl_disk := d\<rparr>))))"

text \<open>Switching, once an unconfirmed earlier switch has been reconciled.\<close>

definition switch_scheme ::
  "cli_params \<Rightarrow> 's SchemeBackend \<Rightarrow> string \<Rightarrow> string \<Rightarrow> string list \<Rightarrow> 's cli \<Rightarrow> int \<times> 's cli" where
  "switch_scheme P X target targetGuid pre W =
     (let W1 = JournalAction P ''power.scheme_apply'' target True Before
                 ''intent: switch active power scheme (pending record written first)'' W
      in case ApplySchemeWithRecord X (cp_sysmsg P) (cp_io P) (cp_io P) (DefaultPowerSchemeSavePath P) targetGuid (cl_machine W1) (cl_disk W1) of
           (switched, s, d) \<Rightarrow>
             (let (ok, state, detail) =
                    (case switched of
                       Inl e \<Rightarrow> (False, [], failed_text e)
                     | Inr q \<Rightarrow>
                         (sw_changed q,
                          ''previous='' @ sw_previousGuid q @ '' target='' @ sw_targetGuid q @ '' active='' @ sw_activeGuid q,
                          if sw_changed q then ''switched and verified by read-back; record marked applied''
                          else ''switch call returned success but read-back shows a different active scheme;'' @
                               '' the record stays pending (next run rolls back)''));
                  W2 = finish_scheme P ''power.scheme_apply'' target
                         ([''Power scheme apply (R2, reversible; pending record written before the switch)'',
                           ''  target   : '' @ targetGuid] @ pre)
                         state (if ok then ''switched (verified by read-back)'' else ''not applied'') ok detail
                         [''  note     : roll back with --power-scheme restore; if this process dies mid-switch,'' @
                          '' --power-scheme status shows state=pending and recover rolls back'']
                         (W1\<lparr>cl_machine := s, cl_disk := d\<rparr>)
              in if \<not> ok then (2, W2) else (0, record_cooldown P [] kPowerSchemeCapabilityId W2)))"

definition apply_scheme ::
  "cli_params \<Rightarrow> 's SchemeBackend \<Rightarrow> string \<Rightarrow> string \<Rightarrow> SavedSchemeRecord option result \<Rightarrow> 's cli \<Rightarrow> int \<times> 's cli" where
  "apply_scheme P X target targetGuid rec W =
     (if (case rec of Inr (Some r) \<Rightarrow> ss_state r = Pending | _ \<Rightarrow> False)
      then (case RecoverPendingScheme X (cp_sysmsg P) (cp_io P) (DefaultPowerSchemeSavePath P) (cl_machine W) (cl_disk W) of
              (Inl e, s, d) \<Rightarrow>
                (2, err_when True
                      (''  --power-scheme apply refused: an unconfirmed previous switch exists and could not be rolled back '' @
                       error_text e @ '' (no new switch was made)'') (W\<lparr>cl_machine := s, cl_disk := d\<rparr>))
            | (Inr q, s, d) \<Rightarrow>
                switch_scheme P X target targetGuid
                  [''  pre-step : previous unconfirmed switch reconciled (action='' @
                   SchemeRecoveryActionToString (ro_action q) @ '')''] (W\<lparr>cl_machine := s, cl_disk := d\<rparr>))
      else switch_scheme P X target targetGuid [] W)"

section \<open>The command\<close>

definition config_allows_scheme :: "ConfigSnapshot \<Rightarrow> bool" where
  "config_allows_scheme s \<longleftrightarrow>
     pw_switchPowerScheme (cs_power s) \<and> AllowsSystemLevelActions (ap_mode (cs_application s)) (cs_layers s)"

definition RunPowerSchemeCommand ::
  "cli_params \<Rightarrow> build_options \<Rightarrow> 's SchemeBackend \<Rightarrow> 'n toml_api \<Rightarrow> (path \<Rightarrow> string + 'n) \<Rightarrow> string list \<Rightarrow> 's cli \<Rightarrow>
   int \<times> 's cli" where
  "RunPowerSchemeCommand P B X T parse args W =
     (case parse_scheme_args P args no_scheme_args of
        Inl t \<Rightarrow> (2, err_when True t W)
      | Inr a \<Rightarrow>
     (let action = sa_action a;
          rec = ReadSavedSchemeRecord (cp_sysmsg P) (cp_io P) (DefaultPowerSchemeSavePath P) (cl_disk W)
      in if action = ''status'' \<or> action = ''saved'' then show_scheme X (action = ''status'') rec W
         else
     (case (case sa_configPath a of
              None \<Rightarrow> Success False
            | Some p \<Rightarrow> (case LoadConfig T parse p of Inl e \<Rightarrow> Failure e | Inr s \<Rightarrow> Success (config_allows_scheme s))) of
        Inl e \<Rightarrow> (2, err_when True (''  config load failed '' @ error_text e) W)
      | Inr configEnabled \<Rightarrow>
          (let isForward = (action = ''apply'');
               (context, W1) = GatherPowerSchemeGates P B (if isForward then sa_acknowledged a else True) configEnabled isForward W;
               gates = (if isForward then pg_gates context
                        else EvaluateGates ((pg_inputs context)\<lparr>gi_config := True, gi_commandLine := True,
                               gi_permissionAndEnvironment := True, gi_cooldown := True\<rparr>));
               target = (if sa_configPath a \<noteq> None then ''config'' else ''defaults'')
           in if \<not> ge_allowed gates then (2, refuse_scheme action isForward gates context W1)
              else if action = ''recover'' then recover_scheme P X target rec W1
              else if action = ''restore'' then restore_scheme P X target W1
              else apply_scheme P X target (sa_targetGuid a) rec W1))))"


section \<open>Frames\<close>

lemma fold_WriteLine [simp]:
  "cl_machine (fold WriteLine ts W) = cl_machine W" "cl_disk (fold WriteLine ts W) = cl_disk W"
  by (induction ts arbitrary: W) simp_all

lemma finish_scheme_frame:
  shows "cl_machine (finish_scheme P op target heads state verdict ok detail tail W) = cl_machine W"
    and "q \<noteq> DefaultJournalPath P \<Longrightarrow> q \<noteq> DefaultAuditLogPath P \<Longrightarrow>
      files (cl_disk (finish_scheme P op target heads state verdict ok detail tail W)) q = files (cl_disk W) q"
    and "calm P \<Longrightarrow> calm_disk (cl_disk W) \<Longrightarrow>
      calm_disk (cl_disk (finish_scheme P op target heads state verdict ok detail tail W))"
  by (simp_all add: finish_scheme_def Let_def AuditAction_frame calm_AuditAction)

lemma refuse_scheme_frame [simp]:
  "cl_machine (refuse_scheme action fw gates context W) = cl_machine W"
  "cl_disk (refuse_scheme action fw gates context W) = cl_disk W"
  by (simp_all add: refuse_scheme_def)

lemma GatherPowerSchemeGates_facts:
  assumes "GatherPowerSchemeGates P B ack cfg cool W = (c, W')"
  shows "cl_machine W' = cl_machine W"
    and "q \<noteq> DefaultAuditLogPath P \<Longrightarrow> files (cl_disk W') q = files (cl_disk W) q"
    and "ge_allowed (pg_gates c) \<Longrightarrow> bo_powerSchemeSwitch B \<and> cfg \<and> ack \<and>
      EvaluateEnvironmentGate (GatherEnvironmentFacts P (cl_ticks W)) \<and> pg_auditWritable c"
    and "gi_compileTime (pg_inputs c) = bo_powerSchemeSwitch B" and "gi_audit (pg_inputs c) = pg_auditWritable c"
    and "calm P \<Longrightarrow> calm_disk (cl_disk W) \<Longrightarrow> calm_disk (cl_disk W') \<and> pg_auditWritable c"
proof -
  obtain r d where p: "ProbeAuditWritable (cp_sysmsg P) (cp_io P) (DefaultAuditLogPath P) (cl_disk W) = (r, d)" by fastforce
  note both = assms [unfolded GatherPowerSchemeGates_def Let_def p fst_conv snd_conv prod.inject]
  note def = conjunct1 [OF both, symmetric] conjunct2 [OF both, symmetric]
  show "cl_machine W' = cl_machine W" using def by simp
  show "q \<noteq> DefaultAuditLogPath P \<Longrightarrow> files (cl_disk W') q = files (cl_disk W) q"
    using def ProbeAuditWritable_frame [OF p] by simp
  show "ge_allowed (pg_gates c) \<Longrightarrow> bo_powerSchemeSwitch B \<and> cfg \<and> ack \<and>
      EvaluateEnvironmentGate (GatherEnvironmentFacts P (cl_ticks W)) \<and> pg_auditWritable c"
    using def by (simp add: EvaluateGates_explicit all_gates gate_passed_def)
  show "gi_compileTime (pg_inputs c) = bo_powerSchemeSwitch B" "gi_audit (pg_inputs c) = pg_auditWritable c"
    using def by simp_all
  show "calm P \<Longrightarrow> calm_disk (cl_disk W) \<Longrightarrow> calm_disk (cl_disk W') \<and> pg_auditWritable c"
    using def calm_probe [of P "cl_disk W" "cp_sysmsg P"] p by auto
qed

section \<open>Switching is gated, going back is not\<close>

lemma show_scheme_keeps:
  assumes "scheme_backend X active" and "show_scheme X b rec W = (rc, W')"
  shows "active (cl_machine W') = active (cl_machine W)"
proof -
  have s: "cl_machine (snd (show_saved q V)) = cl_machine V" for q V
    by (simp add: show_saved_def Let_def split: option.splits)
  obtain r s1 where g: "GetActive X (cl_machine W) = (r, s1)" by fastforce
  have k: "active s1 = active (cl_machine W)" by (rule scheme_backend.get_keeps [OF assms(1) g])
  have s': "show_saved q V = (c, V') \<Longrightarrow> cl_machine V' = cl_machine V" for q V c V'
    using s [of q V] by simp
  show ?thesis
    using assms(2) g k by (cases rec; cases b; cases r) (auto simp: show_scheme_def dest!: s')
qed

text \<open>The configuration gate of the command.\<close>

definition scheme_config :: "'n toml_api \<Rightarrow> (path \<Rightarrow> string + 'n) \<Rightarrow> path option \<Rightarrow> bool result" where
  "scheme_config T parse p =
     (case p of None \<Rightarrow> Success False
      | Some p \<Rightarrow> (case LoadConfig T parse p of Inl e \<Rightarrow> Failure e | Inr s \<Rightarrow> Success (config_allows_scheme s)))"

lemma scheme_config_True:
  "scheme_config T parse cp = Success True \<Longrightarrow>
     \<exists>p s. cp = Some p \<and> LoadConfig T parse p = Success s \<and> config_allows_scheme s"
  by (auto simp: scheme_config_def split: option.splits sum.splits)

text \<open>The command once its arguments are read.\<close>

lemma RunPowerSchemeCommand_cases:
  assumes "RunPowerSchemeCommand P B X T parse args W = (rc, W')" and "parse_scheme_args P args no_scheme_args = Inr a"
  obtains (shown) "sa_action a \<in> {''status'', ''saved''}"
      "show_scheme X (sa_action a = ''status'') (ReadSavedSchemeRecord (cp_sysmsg P) (cp_io P) (DefaultPowerSchemeSavePath P) (cl_disk W)) W = (rc, W')"
  | (refused) "rc = 2" "cl_machine W' = cl_machine W"
  | (acted) cfg c W1 target where "sa_action a \<notin> {''status'', ''saved''}" "scheme_config T parse (sa_configPath a) = Success cfg"
      "GatherPowerSchemeGates P B (if sa_action a = ''apply'' then sa_acknowledged a else True) cfg (sa_action a = ''apply'') W = (c, W1)"
      "sa_action a = ''apply'' \<Longrightarrow> ge_allowed (pg_gates c)"
      "bo_powerSchemeSwitch B" "pg_auditWritable c"
      "(rc, W') = (if sa_action a = ''recover''
         then recover_scheme P X target (ReadSavedSchemeRecord (cp_sysmsg P) (cp_io P) (DefaultPowerSchemeSavePath P) (cl_disk W)) W1
         else if sa_action a = ''restore'' then restore_scheme P X target W1
         else apply_scheme P X target (sa_targetGuid a)
           (ReadSavedSchemeRecord (cp_sysmsg P) (cp_io P) (DefaultPowerSchemeSavePath P) (cl_disk W)) W1)"
proof (cases "sa_action a \<in> {''status'', ''saved''}")
  case True
  then show thesis using assms shown by (auto simp: RunPowerSchemeCommand_def Let_def)
next
  case False
  note run = assms(1) [unfolded RunPowerSchemeCommand_def assms(2) sum.case Let_def scheme_config_def [symmetric]]
  show thesis
  proof (cases "scheme_config T parse (sa_configPath a)")
    case (Inl e)
    then show thesis using run False refused by auto
  next
    case (Inr cfg)
    obtain c W1 where g: "GatherPowerSchemeGates P B (if sa_action a = ''apply'' then sa_acknowledged a else True) cfg
        (sa_action a = ''apply'') W = (c, W1)" by fastforce
    define gates where "gates = (if sa_action a = ''apply'' then pg_gates c
        else EvaluateGates ((pg_inputs c)\<lparr>gi_config := True, gi_commandLine := True,
               gi_permissionAndEnvironment := True, gi_cooldown := True\<rparr>))"
    note f = GatherPowerSchemeGates_facts [OF g]
    note run2 = run [unfolded Inr sum.case g prod.case gates_def [symmetric]]
    show thesis
    proof (cases "ge_allowed gates")
      case notallowed: False
      then show thesis using run2 False f(1) refused by auto
    next
      case True
      have "bo_powerSchemeSwitch B \<and> pg_auditWritable c"
        using True f(3-5) by (simp add: gates_def EvaluateGates_explicit all_gates gate_passed_def split: if_splits)
      moreover have "sa_action a = ''apply'' \<Longrightarrow> ge_allowed (pg_gates c)" using True by (simp add: gates_def)
      moreover define target where "target = (if sa_configPath a \<noteq> None then ''config'' else ''defaults'')"
      have "(rc, W') = (if sa_action a = ''recover''
         then recover_scheme P X target (ReadSavedSchemeRecord (cp_sysmsg P) (cp_io P) (DefaultPowerSchemeSavePath P) (cl_disk W)) W1
         else if sa_action a = ''restore'' then restore_scheme P X target W1
         else apply_scheme P X target (sa_targetGuid a)
           (ReadSavedSchemeRecord (cp_sysmsg P) (cp_io P) (DefaultPowerSchemeSavePath P) (cl_disk W)) W1)"
        using run2 False True unfolding target_def by (simp split del: if_split)
      ultimately show thesis using acted [OF False Inr g] by blast
    qed
  qed
qed


text \<open>
  C15: The command changes the active power scheme only in a build that has the capability and never
  for a reading action.  A forward switch needs in addition the acknowledgement of the operator, a
  configuration that allows it in the experimental mode with the emergency layer, and an environment that
  passed; going back (recover, restore) needs none of these.\<close>
theorem power_scheme_switch_gated:
  assumes "scheme_backend X active" and "parse_scheme_args P args no_scheme_args = Inr a"
    and "RunPowerSchemeCommand P B X T parse args W = (rc, W')"
    and "active (cl_machine W') \<noteq> active (cl_machine W)"
  shows "bo_powerSchemeSwitch B \<and> sa_action a \<notin> {''status'', ''saved''} \<and>
    (sa_action a = ''apply'' \<longrightarrow> sa_acknowledged a \<and> EvaluateEnvironmentGate (GatherEnvironmentFacts P (cl_ticks W)) \<and>
       (\<exists>p s. sa_configPath a = Some p \<and> LoadConfig T parse p = Success s \<and> pw_switchPowerScheme (cs_power s) \<and>
          ap_mode (cs_application s) = Experimental \<and> ly_emergency (cs_layers s)))"
  using assms(3,2)
proof (cases rule: RunPowerSchemeCommand_cases)
  case shown
  then show ?thesis using show_scheme_keeps [OF assms(1) shown(2)] assms(4) by simp
next
  case refused
  then show ?thesis using assms(4) by simp
next
  case (acted cfg c W1 target)
  note f = GatherPowerSchemeGates_facts [OF acted(3)]
  have "\<exists>p s. sa_configPath a = Some p \<and> LoadConfig T parse p = Success s \<and> config_allows_scheme s"
    if "sa_action a = ''apply''"
    using scheme_config_True [of T parse "sa_configPath a"] acted(2) f(3) [OF acted(4) [OF that]] that by auto
  then show ?thesis using acted(1,5) f(3) [OF acted(4)]
    by (auto simp: config_allows_scheme_def AllowsSystemLevelActions_def)
qed

section \<open>Restoring after a switch\<close>

lemma calm_clear:
  assumes "calm P" and "calm_disk d"
  shows "clear_path (DefaultPowerSchemeSavePath P) d"
proof -
  have p: "DefaultPowerSchemeSavePath P = in_data ''power-scheme-save.txt''"
    by (simp add: DefaultPowerSchemeSavePath_def calm_data_file [OF assms(1)])
  show ?thesis
    using assms(2) calm_parents(4) [OF assms(1)] unfolding clear_path_def p by (auto simp: calm_disk_def temp_path_def)
qed

lemma calm_SaveSchemeRecord:
  assumes "calm P" and "calm_disk d" and "SaveSchemeRecord sysmsg no_faults (DefaultPowerSchemeSavePath P) r d = (x, d')"
  shows "calm_disk d'"
proof -
  let ?p = "DefaultPowerSchemeSavePath P"
  obtain d1 where m: "make_parent no_faults ?p d = (Inr (), d1)" "calm_disk d1"
    using calm_make_parent [OF calm_parents(4) [OF assms(1)] assms(2)] by blast
  obtain r2 d2 where t: "temp_replace no_faults ?p (record_text r) d1 = (r2, d2)" by fastforce
  from assms(3) m t have "d' = d \<or> d' = d2"
    by (auto simp: SaveSchemeRecord_def record_text_def Let_def
        split: if_splits sum.splits replace_fault.splits option.splits)
  moreover have "dirs d2 = dirs d1" using temp_replace_dirs [of no_faults ?p "record_text r" d1] t by simp
  ultimately show ?thesis using m(2) assms(2) by (auto simp: calm_disk_def)
qed

lemma calm_ApplySchemeWithRecord:
  assumes "calm P" and "calm_disk d"
    and "ApplySchemeWithRecord X sysmsg no_faults no_faults (DefaultPowerSchemeSavePath P) g s d = (r, s', d')"
  shows "calm_disk d'"
proof -
  have k: "SaveSchemeRecord sysmsg no_faults (DefaultPowerSchemeSavePath P) q d0 = (x, d1) \<Longrightarrow> calm_disk d0 \<Longrightarrow> calm_disk d1"
    for q d0 x d1 using calm_SaveSchemeRecord [OF assms(1)] by blast
  show ?thesis
    using assms(2,3) k by (auto simp: ApplySchemeWithRecord_def Let_def
        split: option.splits sum.splits prod.splits if_splits)
qed

lemma calm_record_cooldown:
  assumes "calm P" and "calm_disk (cl_disk W)" and "cap \<noteq> []"
  shows "calm_disk (cl_disk (record_cooldown P label cap W)) \<and> cl_machine (record_cooldown P label cap W) = cl_machine W \<and>
    files (cl_disk (record_cooldown P label cap W)) (DefaultPowerSchemeSavePath P) = files (cl_disk W) (DefaultPowerSchemeSavePath P)"
proof -
  obtain d where d: "RecordCooldownRun (cp_sysmsg P) (cp_io P) (DefaultCooldownLedgerPath P) cap (cp_time P (cl_ticks W)) (cl_disk W) =
      (Success (), d)" "calm_disk d" using calm_record [OF assms] by blast
  obtain l where w: "WriteCooldownLedger (cp_sysmsg P) (cp_io P) (DefaultCooldownLedgerPath P) l (cl_disk W) = (Success (), d)"
    using RecordCooldownRun_cases [OF d(1)] by blast
  have "files d (DefaultPowerSchemeSavePath P) = files (cl_disk W) (DefaultPowerSchemeSavePath P)"
    using ledger_store.store_frame [OF w] by simp
  then show ?thesis using d by (simp add: record_cooldown_def)
qed

lemma switch_scheme_confirmed:
  assumes "calm P" and "calm_disk (cl_disk W)" and "scheme_backend X active" and "switch_scheme P X target g pre W = (0, W')"
  shows "calm_disk (cl_disk W') \<and> guid_ok (active (cl_machine W)) \<and> NormalizeSchemeGuid g = Some (active (cl_machine W')) \<and>
    (\<exists>t. ReadSavedSchemeRecord (cp_sysmsg P) no_faults (DefaultPowerSchemeSavePath P) (cl_disk W') =
       Success (Some \<lparr>ss_savedGuid = active (cl_machine W), ss_targetGuid = Some t, ss_state = Applied\<rparr>))"
proof -
  let ?p = "DefaultPowerSchemeSavePath P"
  define W1 where "W1 = JournalAction P ''power.scheme_apply'' target True Before
      ''intent: switch active power scheme (pending record written first)'' W"
  have io: "cp_io P = no_faults" using assms(1) by (simp add: calm_def)
  have j: "cl_machine W1 = cl_machine W" "calm_disk (cl_disk W1)"
    using JournalAction_frame(1) calm_JournalAction [OF assms(1,2)] by (auto simp: W1_def)
  obtain r s d where ap: "ApplySchemeWithRecord X (cp_sysmsg P) no_faults no_faults ?p g (cl_machine W1) (cl_disk W1) = (r, s, d)"
    by (metis prod.exhaust)
  note sw = assms(4) [unfolded switch_scheme_def Let_def W1_def [symmetric] io ap prod.case]
  obtain q where q: "r = Success q" "sw_changed q" using sw by (cases r) (auto split: if_splits)
  obtain heads state verdict detail tail where W': "record_cooldown P [] kPowerSchemeCapabilityId
      (finish_scheme P ''power.scheme_apply'' target heads state verdict True detail tail (W1\<lparr>cl_machine := s, cl_disk := d\<rparr>)) = W'"
    using sw q by (simp only: sum.case prod.case if_True simp_thms if_False prod.inject)
  have d: "calm_disk d" by (rule calm_ApplySchemeWithRecord [OF assms(1) j(2) ap])
  from scheme_backend.apply_confirmed [OF assms(3) calm_clear [OF assms(1) j(2)] ap [unfolded q(1)] q(2)]
  obtain t where t: "NormalizeSchemeGuid g = Some t" "active s = t" "guid_ok (active (cl_machine W))"
    and rd: "ReadSavedSchemeRecord (cp_sysmsg P) no_faults ?p d =
      Success (Some \<lparr>ss_savedGuid = active (cl_machine W), ss_targetGuid = Some t, ss_state = Applied\<rparr>)"
    using j(1) by auto
  obtain V where V: "W' = record_cooldown P [] kPowerSchemeCapabilityId V" "cl_machine V = s" "calm_disk (cl_disk V)"
    "files (cl_disk V) ?p = files d ?p"
    by (rule that [OF W' [symmetric]]) (simp_all add: finish_scheme_frame d assms(1))
  have c: "calm_disk (cl_disk W')" "cl_machine W' = s" "files (cl_disk W') ?p = files d ?p"
    using calm_record_cooldown [OF assms(1) V(3), of kPowerSchemeCapabilityId "[]"] V
    by (simp_all add: kPowerSchemeCapabilityId_def)
  then show ?thesis
    using t rd ReadSavedSchemeRecord_no_faults [OF calm_clear [OF assms(1) c(1)]]
      ReadSavedSchemeRecord_no_faults [OF calm_clear [OF assms(1) d]] by auto
qed

lemma restore_scheme_works:
  assumes "calm P" and "calm_disk (cl_disk W)" and "working_backend X active" and "guid_ok g"
    and "ReadSavedSchemeRecord (cp_sysmsg P) no_faults (DefaultPowerSchemeSavePath P) (cl_disk W) = Success (Some r)"
    and "ss_savedGuid r = g"
  shows "\<exists>W'. restore_scheme P X target W = (0, W') \<and> active (cl_machine W') = g"
proof -
  let ?p = "DefaultPowerSchemeSavePath P"
  define W1 where "W1 = JournalAction P ''power.scheme_restore'' target True Before
      ''intent: restore saved power scheme (rollback)'' W"
  have io: "cp_io P = no_faults" using assms(1) by (simp add: calm_def)
  have j: "calm_disk (cl_disk W1)" "files (cl_disk W1) ?p = files (cl_disk W) ?p"
    using calm_JournalAction [OF assms(1,2)] by (simp_all add: W1_def JournalAction_frame)
  have rd: "ReadSavedSchemeRecord (cp_sysmsg P) no_faults ?p (cl_disk W1) = Success (Some r)"
    using assms(5) j(2) ReadSavedSchemeRecord_no_faults [OF calm_clear [OF assms(1) j(1)]]
      ReadSavedSchemeRecord_no_faults [OF calm_clear [OF assms(1,2)]] by simp
  have "\<exists>t. ParseSavedSchemeRecord t = Some r"
    using rd ReadSavedSchemeRecord_no_faults [OF calm_clear [OF assms(1) j(1)]] by (auto split: option.splits)
  then have ok: "record_ok (r\<lparr>ss_state := Restored\<rparr>)" using ParseSavedSchemeRecord_ok by (auto simp: record_ok_def)
  obtain s where s: "RestoreScheme X g (cl_machine W1) = (Success \<lparr>sr_savedGuid = g, sr_activeGuid = g, sr_restored = True\<rparr>, s)" "active s = g"
    using working_backend.RestoreScheme_works [OF assms(3,4)] by blast
  obtain d where d: "SaveSchemeRecord (cp_sysmsg P) no_faults ?p (r\<lparr>ss_state := Restored\<rparr>) (cl_disk W1) = (Success (), d)"
    using SaveSchemeRecord_works [OF ok calm_clear [OF assms(1) j(1)]] by blast
  have "RestoreSchemeWithRecord X (cp_sysmsg P) no_faults ?p (cl_machine W1) (cl_disk W1) =
      (Success \<lparr>rf_savedGuid = g, rf_activeGuid = g, rf_restored = True, rf_recordMarkedRestored = True\<rparr>, s, d)"
    using rd s(1) d assms(6) by (simp add: RestoreSchemeWithRecord_def)
  then show ?thesis using s(2) io by (simp add: restore_scheme_def Let_def W1_def [symmetric] finish_scheme_frame)
qed

text \<open>
  C16: What the command switched it can switch back: after a forward switch with exit code 0 from a
  state without an unconfirmed switch, the restore command succeeds, also without a configuration,
  without an acknowledgement and inside the cooldown, and puts the machine back on the scheme it had.
  The hypotheses say that files and the power interface work.\<close>
theorem power_scheme_restore_undoes_apply:
  assumes "calm P" and "calm_disk (cl_disk W)" and "working_backend X active"
    and "parse_scheme_args P args no_scheme_args = Inr a" and "sa_action a = ''apply''"
    and "\<forall>r. ReadSavedSchemeRecord (cp_sysmsg P) no_faults (DefaultPowerSchemeSavePath P) (cl_disk W) = Success (Some r) \<longrightarrow>
      ss_state r \<noteq> Pending"
    and "RunPowerSchemeCommand P B X T parse args W = (0, W1)"
    and "parse_scheme_args P args' no_scheme_args = Inr a'" and "sa_action a' = ''restore''" and "sa_configPath a' = None"
  shows "NormalizeSchemeGuid (sa_targetGuid a) = Some (active (cl_machine W1)) \<and>
    (\<exists>W2. RunPowerSchemeCommand P B X T parse args' W1 = (0, W2) \<and> active (cl_machine W2) = active (cl_machine W))"
proof -
  have X: "scheme_backend X active" using assms(3) by (simp add: working_backend_def)
  have io: "cp_io P = no_faults" using assms(1) by (simp add: calm_def)
  show ?thesis
    using assms(7,4)
  proof (cases rule: RunPowerSchemeCommand_cases)
    case (acted cfg c V target)
    note f = GatherPowerSchemeGates_facts [OF acted(3)]
    have V: "calm_disk (cl_disk V)" "cl_machine V = cl_machine W" using f(1,6) assms(1,2) by auto
    have "switch_scheme P X target (sa_targetGuid a) [] V = (0, W1)"
      using acted(7) assms(5,6) io by (auto simp: apply_scheme_def split: sum.splits option.splits)
    from switch_scheme_confirmed [OF assms(1) V(1) X this] V(2)
    obtain t where s: "calm_disk (cl_disk W1)" "guid_ok (active (cl_machine W))"
        "NormalizeSchemeGuid (sa_targetGuid a) = Some (active (cl_machine W1))"
      and r: "ReadSavedSchemeRecord (cp_sysmsg P) no_faults (DefaultPowerSchemeSavePath P) (cl_disk W1) =
       Success (Some \<lparr>ss_savedGuid = active (cl_machine W), ss_targetGuid = Some t, ss_state = Applied\<rparr>)" by auto
    obtain c' U where g: "GatherPowerSchemeGates P B True False False W1 = (c', U)" by fastforce
    note f' = GatherPowerSchemeGates_facts [OF g]
    have U: "calm_disk (cl_disk U)" "pg_auditWritable c'" using f'(6) assms(1) s(1) by auto
    have rU: "ReadSavedSchemeRecord (cp_sysmsg P) no_faults (DefaultPowerSchemeSavePath P) (cl_disk U) =
       Success (Some \<lparr>ss_savedGuid = active (cl_machine W), ss_targetGuid = Some t, ss_state = Applied\<rparr>)"
      using r f'(2) [of "DefaultPowerSchemeSavePath P"] ReadSavedSchemeRecord_no_faults [OF calm_clear [OF assms(1) s(1)]]
        ReadSavedSchemeRecord_no_faults [OF calm_clear [OF assms(1) U(1)]] by simp
    have "\<exists>W2. restore_scheme P X ''defaults'' U = (0, W2) \<and> active (cl_machine W2) = active (cl_machine W)"
      using restore_scheme_works [OF assms(1) U(1) assms(3) s(2) rU] by simp
    moreover have "ge_allowed (EvaluateGates ((pg_inputs c')\<lparr>gi_config := True, gi_commandLine := True,
        gi_permissionAndEnvironment := True, gi_cooldown := True\<rparr>))"
      using f'(4,5) U(2) acted(5) by (simp add: EvaluateGates_explicit all_gates gate_passed_def)
    ultimately show ?thesis using s(3) assms(8-10) g
      by (simp add: RunPowerSchemeCommand_def Let_def)
  qed (use assms(5) in auto)
qed


section \<open>A switch and its way back\<close>

lemma switch_scheme_works:
  assumes "calm P" and "calm_disk (cl_disk W)" and "working_backend X active" and "NormalizeSchemeGuid g = Some g'"
  shows "\<exists>W'. switch_scheme P X target g pre W = (0, W')"
proof -
  define W1 where "W1 = JournalAction P ''power.scheme_apply'' target True Before
      ''intent: switch active power scheme (pending record written first)'' W"
  have io: "cp_io P = no_faults" using assms(1) by (simp add: calm_def)
  have j: "calm_disk (cl_disk W1)" using calm_JournalAction [OF assms(1,2)] by (auto simp: W1_def)
  from working_backend.apply_works [OF assms(3) calm_clear [OF assms(1) j] assms(4)]
  obtain q s d where "ApplySchemeWithRecord X (cp_sysmsg P) no_faults no_faults (DefaultPowerSchemeSavePath P) g (cl_machine W1) (cl_disk W1) =
      (Success q, s, d)" "sw_changed q" by blast
  then show ?thesis by (simp add: switch_scheme_def Let_def W1_def [symmetric] io)
qed

definition scheme_build :: build_options where
  "scheme_build = clean_build\<lparr>bo_powerSchemeSwitch := True\<rparr>"

definition scheme_table :: toml where
  "scheme_table = T_table
     [(''application'', T_table [(''mode'', T_string ''Experimental'')]),
      (''layers'', T_table [(''emergency'', T_bool True)]),
      (''power'', T_table [(''switch_power_scheme'', T_bool True)])]"

definition saver_args :: "string list" where
  "saver_args = [''--acknowledge-system-wide-side-effects'', ''power-saver'', ''c.toml'']"

definition balanced_cli :: "machine cli" where
  "balanced_cli =
     \<lparr>cl_disk = empty_disk, cl_lines = [], cl_ticks = 0, cl_machine = \<lparr>ma_scheme = Abs_guid kSchemeBalanced, ma_faults = []\<rparr>\<rparr>"

abbreviation calm_backend :: "machine SchemeBackend" where
  "calm_backend \<equiv> Win32PowerSchemeBackend (\<lambda>_. []) (machine_api True)"

lemma saver_parsed:
  "parse_scheme_args calm_cli saver_args no_scheme_args =
     Inr \<lparr>sa_configPath = Some ''c.toml'', sa_acknowledged = True, sa_action = ''apply'', sa_targetGuid = kSchemePowerSaver\<rparr>"
  "parse_scheme_args calm_cli [''restore''] no_scheme_args =
     Inr \<lparr>sa_configPath = None, sa_acknowledged = False, sa_action = ''restore'', sa_targetGuid = []\<rparr>"
  by code_simp+

lemma experimental_mode: "ParseRunMode ''Experimental'' = Success Experimental"
  by code_simp

lemma scheme_table_loads: "scheme_config table_api (\<lambda>_. Inr scheme_table) (Some ''c.toml'') = Success True"
  by (simp add: scheme_config_def config_allows_scheme_def LoadConfig_def load_defs scheme_table_def table_simps
      experimental_mode load_layers_def load_power_def AllowsSystemLevelActions_def Let_def)

lemma balanced_calm: "calm_disk (cl_disk balanced_cli)"
  by (simp add: balanced_cli_def empty_disk_def calm_disk_def)

lemma saver_run:
  "\<exists>W1. RunPowerSchemeCommand calm_cli scheme_build calm_backend table_api (\<lambda>_. Inr scheme_table) saver_args balanced_cli = (0, W1)"
proof -
  obtain c V where g: "GatherPowerSchemeGates calm_cli scheme_build True True True balanced_cli = (c, V)" by fastforce
  note f = GatherPowerSchemeGates_facts [OF g]
  have V: "calm_disk (cl_disk V)" "pg_auditWritable c" using f(6) calm_calm_cli balanced_calm by auto
  have none: "files (cl_disk V) (DefaultCooldownLedgerPath calm_cli) = None" "files (cl_disk V) (DefaultPowerSchemeSavePath calm_cli) = None"
    using f(2) [of "DefaultCooldownLedgerPath calm_cli"] f(2) [of "DefaultPowerSchemeSavePath calm_cli"]
    by (simp_all add: balanced_cli_def empty_disk_def)
  define W1 where "W1 = tick (balanced_cli\<lparr>cl_disk := cl_disk V\<rparr>)"
  have W1: "calm_disk (cl_disk W1)" "files (cl_disk W1) (DefaultCooldownLedgerPath calm_cli) = None"
    using V(1) none(1) by (simp_all add: W1_def tick_def)
  have cg: "gi_cooldown (pg_inputs c) = cooldown_gate calm_cli kPowerSchemeCapabilityId W1"
    "pg_gates c = EvaluateGates (pg_inputs c)" "gi_permissionAndEnvironment (pg_inputs c)" "gi_config (pg_inputs c)"
    "gi_commandLine (pg_inputs c)"
    using g calm_environment by (auto simp: GatherPowerSchemeGates_def Let_def W1_def tick_def)
  have "ge_allowed (pg_gates c)"
    using f(4,5) V(2) cg calm_cooldown_open [OF calm_calm_cli W1]
    by (simp add: EvaluateGates_explicit all_gates gate_passed_def scheme_build_def)
  moreover have "ReadSavedSchemeRecord (cp_sysmsg calm_cli) (cp_io calm_cli) (DefaultPowerSchemeSavePath calm_cli)
      (cl_disk balanced_cli) = Success None"
    using ReadSavedSchemeRecord_no_faults [OF calm_clear [OF calm_calm_cli balanced_calm]] calm_calm_cli
    by (simp add: calm_def balanced_cli_def empty_disk_def)
  moreover obtain W1 where "switch_scheme calm_cli calm_backend ''config'' kSchemePowerSaver [] V = (0, W1)"
    using switch_scheme_works [OF calm_calm_cli V(1) calm_scheme.working_backend_axioms demo_target] by blast
  ultimately show ?thesis
    unfolding RunPowerSchemeCommand_def saver_parsed sum.case Let_def scheme_config_def [symmetric]
    using g scheme_table_loads by (simp add: apply_scheme_def)
qed

theorem power_scheme_restore_undoes_apply_witness:
  "\<exists>W1 W2. RunPowerSchemeCommand calm_cli scheme_build calm_backend table_api (\<lambda>_. Inr scheme_table) saver_args balanced_cli = (0, W1) \<and>
     RunPowerSchemeCommand calm_cli scheme_build calm_backend table_api (\<lambda>_. Inr scheme_table) [''restore''] W1 = (0, W2) \<and>
     machine_active (cl_machine W2) = machine_active (cl_machine balanced_cli)"
proof -
  obtain W1 where w: "RunPowerSchemeCommand calm_cli scheme_build calm_backend table_api (\<lambda>_. Inr scheme_table) saver_args balanced_cli = (0, W1)"
    using saver_run by blast
  have "\<forall>r. ReadSavedSchemeRecord (cp_sysmsg calm_cli) no_faults (DefaultPowerSchemeSavePath calm_cli) (cl_disk balanced_cli) =
      Success (Some r) \<longrightarrow> ss_state r \<noteq> Pending"
    using ReadSavedSchemeRecord_no_faults [OF calm_clear [OF calm_calm_cli balanced_calm]]
    by (simp add: balanced_cli_def empty_disk_def)
  then show ?thesis
    using power_scheme_restore_undoes_apply [OF calm_calm_cli balanced_calm calm_scheme.working_backend_axioms saver_parsed(1) _ _ w
        saver_parsed(2)] w by auto
qed

theorem power_scheme_switch_gated_witness:
  "\<exists>W1. RunPowerSchemeCommand calm_cli scheme_build calm_backend table_api (\<lambda>_. Inr scheme_table) saver_args balanced_cli = (0, W1) \<and>
     machine_active (cl_machine W1) \<noteq> machine_active (cl_machine balanced_cli) \<and> bo_powerSchemeSwitch scheme_build"
proof -
  obtain W1 where w: "RunPowerSchemeCommand calm_cli scheme_build calm_backend table_api (\<lambda>_. Inr scheme_table) saver_args balanced_cli = (0, W1)"
    using saver_run by blast
  have "NormalizeSchemeGuid kSchemePowerSaver = Some (machine_active (cl_machine W1))" using w saver_parsed(1)
  proof (cases rule: RunPowerSchemeCommand_cases)
    case (acted cfg c V target)
    have V: "calm_disk (cl_disk V)" using GatherPowerSchemeGates_facts(6) [OF acted(3)] calm_calm_cli balanced_calm by auto
    have "ReadSavedSchemeRecord (cp_sysmsg calm_cli) (cp_io calm_cli) (DefaultPowerSchemeSavePath calm_cli)
        (cl_disk balanced_cli) = Success None"
      using ReadSavedSchemeRecord_no_faults [OF calm_clear [OF calm_calm_cli balanced_calm]] calm_calm_cli
      by (simp add: calm_def balanced_cli_def empty_disk_def)
    then have "switch_scheme calm_cli calm_backend target kSchemePowerSaver [] V = (0, W1)"
      using acted(7) by (simp add: apply_scheme_def)
    then show ?thesis
      using switch_scheme_confirmed [OF calm_calm_cli V win32_scheme.scheme_backend_axioms] by blast
  qed simp_all
  moreover have "machine_active (cl_machine balanced_cli) = kSchemeBalanced"
    by (simp add: machine_active_def balanced_cli_def) (rule Abs_guid_inverse, code_simp)
  moreover have "kSchemePowerSaver \<noteq> kSchemeBalanced" by (simp add: kSchemePowerSaver_def kSchemeBalanced_def)
  ultimately have "machine_active (cl_machine W1) \<noteq> machine_active (cl_machine balanced_cli)" by (simp add: demo_target)
  then show ?thesis
    using power_scheme_switch_gated [OF win32_scheme.scheme_backend_axioms saver_parsed(1) w] w by blast
qed

end
