(* ===== verification/Thread_Tuner.thy ===== *)
theory Thread_Tuner
  imports Common_Error "HOL-Library.Multiset"
begin

text \<open>
  Thread priorities of a process: \<^verbatim>\<open>include/scheduler/thread_tuner.hpp\<close> and
  \<^verbatim>\<open>source/scheduler/thread_tuner.cpp\<close>.  The backend is a record of operations over a machine state;
  the production backend is built from the Win32 calls it makes.  The interface \<open>thread_backend\<close> states
  what a backend promises about the priorities of threads; raising the threads of a process and putting
  them back is proved over it once and holds for the production backend on a machine whose calls work.
\<close>

section \<open>Data\<close>

record ThreadSnapshot =
  ts_threadId :: u32
  ts_priority :: int
  ts_affinityMask :: u64

record 's SchedulerBackend =
  ListThreads :: "u32 \<Rightarrow> 's \<Rightarrow> ThreadSnapshot list result \<times> 's"
  GetPriority :: "u32 \<Rightarrow> 's \<Rightarrow> int result \<times> 's"
  SetPriority :: "u32 \<Rightarrow> int \<Rightarrow> 's \<Rightarrow> unit result \<times> 's"
  GetAffinity :: "u32 \<Rightarrow> 's \<Rightarrow> u64 result \<times> 's"
  SetAffinity :: "u32 \<Rightarrow> u64 \<Rightarrow> 's \<Rightarrow> unit result \<times> 's"

record PriorityAdjustment =
  pa_threadId :: u32
  pa_originalPriority :: int
  pa_appliedPriority :: int

record BoostReport =
  br_adjusted :: "PriorityAdjustment list"
  br_skipped :: nat

section \<open>The production backend\<close>

text \<open>
  The calls it makes.  A snapshot handle of 0 stands for the invalid one; \<open>th_Entries\<close> are the pairs
  (thread, owning process) that \<open>Thread32First\<close> and \<open>Thread32Next\<close> give for a snapshot, in order, and
  the first call fails when there are none.
\<close>

record 's thread_api =
  th_CreateSnapshot :: "'s \<Rightarrow> u64 \<times> 's"
  th_Entries :: "u64 \<Rightarrow> 's \<Rightarrow> (u32 \<times> u32) list"
  th_OpenThread :: "u32 \<Rightarrow> u32 \<Rightarrow> 's \<Rightarrow> u64 \<times> 's"
  th_CloseHandle :: "u64 \<Rightarrow> 's \<Rightarrow> 's"
  th_GetThreadPriority :: "u64 \<Rightarrow> 's \<Rightarrow> int"
  th_SetThreadPriority :: "u64 \<Rightarrow> int \<Rightarrow> 's \<Rightarrow> bool \<times> 's"
  th_GetThreadGroupAffinity :: "u64 \<Rightarrow> 's \<Rightarrow> u64 option"
  th_SetThreadGroupAffinity :: "u64 \<Rightarrow> u64 \<Rightarrow> 's \<Rightarrow> bool \<times> 's"
  th_GetLastError :: "'s \<Rightarrow> u32"
  th_FormatMessage :: "u32 \<Rightarrow> string"

abbreviation THREAD_SET_INFORMATION :: u32 where "THREAD_SET_INFORMATION \<equiv> 0x20"
abbreviation THREAD_QUERY_LIMITED_INFORMATION :: u32 where "THREAD_QUERY_LIMITED_INFORMATION \<equiv> 0x800"
abbreviation THREAD_PRIORITY_ERROR_RETURN :: int where "THREAD_PRIORITY_ERROR_RETURN \<equiv> 2147483647"
abbreviation ERROR_NO_MORE_FILES :: u32 where "ERROR_NO_MORE_FILES \<equiv> 18"

definition OpenThreadHandle :: "'s thread_api \<Rightarrow> u32 \<Rightarrow> u32 \<Rightarrow> 's \<Rightarrow> u64 \<times> 's" where
  "OpenThreadHandle A threadId access s = th_OpenThread A access threadId s"

definition thread_error :: "'s thread_api \<Rightarrow> string \<Rightarrow> 's \<Rightarrow> Error" where
  "thread_error A operation s = FromWin32 (th_FormatMessage A) (th_GetLastError A s) operation"

text \<open>One entry of the snapshot that belongs to the process.\<close>

definition list_one :: "'s thread_api \<Rightarrow> u32 \<Rightarrow> 's \<Rightarrow> ThreadSnapshot option \<times> 's" where
  "list_one A tid s =
     (let (h, s1) = OpenThreadHandle A tid THREAD_QUERY_LIMITED_INFORMATION s
      in if h = 0 then (None, s1)
         else (let p = th_GetThreadPriority A h s1
               in (Some \<lparr>ts_threadId = tid,
                         ts_priority = (if p \<noteq> THREAD_PRIORITY_ERROR_RETURN then p else 0),
                         ts_affinityMask = (case th_GetThreadGroupAffinity A h s1 of Some m \<Rightarrow> m | None \<Rightarrow> 0)\<rparr>,
                   th_CloseHandle A h s1)))"

fun list_entries :: "'s thread_api \<Rightarrow> u32 \<Rightarrow> (u32 \<times> u32) list \<Rightarrow> 's \<Rightarrow> ThreadSnapshot list \<times> 's" where
  "list_entries A pid [] s = ([], s)"
| "list_entries A pid (e # es) s =
     (if snd e \<noteq> pid then list_entries A pid es s
      else (let (x, s1) = list_one A (fst e) s; (xs, s2) = list_entries A pid es s1
            in ((case x of None \<Rightarrow> xs | Some t \<Rightarrow> t # xs), s2)))"

definition Real_ListThreads :: "'s thread_api \<Rightarrow> u32 \<Rightarrow> 's \<Rightarrow> ThreadSnapshot list result \<times> 's" where
  "Real_ListThreads A processId s =
     (if processId = 0 then (Failure (Error_Validation ''ListThreads'' ''the process id must not be 0''), s)
      else (let (snapshot, s1) = th_CreateSnapshot A s
            in if snapshot = 0 then (Failure (thread_error A ''CreateToolhelp32Snapshot'' s1), s1)
               else (case th_Entries A snapshot s1 of
                       [] \<Rightarrow> (if th_GetLastError A s1 = ERROR_NO_MORE_FILES then Success []
                             else Failure (thread_error A ''Thread32First'' s1), th_CloseHandle A snapshot s1)
                     | es \<Rightarrow> (let (ts, s2) = list_entries A processId es s1
                             in (Success ts, th_CloseHandle A snapshot s2)))))"

definition Real_GetPriority :: "'s thread_api \<Rightarrow> u32 \<Rightarrow> 's \<Rightarrow> int result \<times> 's" where
  "Real_GetPriority A threadId s =
     (let (h, s1) = OpenThreadHandle A threadId THREAD_QUERY_LIMITED_INFORMATION s
      in if h = 0 then (Failure (thread_error A ''OpenThread(query)'' s1), s1)
         else (let p = th_GetThreadPriority A h s1
               in (if p = THREAD_PRIORITY_ERROR_RETURN then Failure (thread_error A ''GetThreadPriority'' s1) else Success p,
                   th_CloseHandle A h s1)))"

definition Real_SetPriority :: "'s thread_api \<Rightarrow> u32 \<Rightarrow> int \<Rightarrow> 's \<Rightarrow> unit result \<times> 's" where
  "Real_SetPriority A threadId priority s =
     (let (h, s1) = OpenThreadHandle A threadId THREAD_SET_INFORMATION s
      in if h = 0 then (Failure (thread_error A ''OpenThread(set)'' s1), s1)
         else (let (ok, s2) = th_SetThreadPriority A h priority s1
               in (if \<not> ok then Failure (thread_error A ''SetThreadPriority'' s2) else Success (), th_CloseHandle A h s2)))"

definition Real_GetAffinity :: "'s thread_api \<Rightarrow> u32 \<Rightarrow> 's \<Rightarrow> u64 result \<times> 's" where
  "Real_GetAffinity A threadId s =
     (let (h, s1) = OpenThreadHandle A threadId THREAD_QUERY_LIMITED_INFORMATION s
      in if h = 0 then (Failure (thread_error A ''OpenThread(query)'' s1), s1)
         else ((case th_GetThreadGroupAffinity A h s1 of
                  None \<Rightarrow> Failure (thread_error A ''GetThreadGroupAffinity'' s1)
                | Some cpus \<Rightarrow> Success cpus), th_CloseHandle A h s1))"

definition Real_SetAffinity :: "'s thread_api \<Rightarrow> u32 \<Rightarrow> u64 \<Rightarrow> 's \<Rightarrow> unit result \<times> 's" where
  "Real_SetAffinity A threadId cpus s =
     (let (h, s1) = OpenThreadHandle A threadId THREAD_SET_INFORMATION s
      in if h = 0 then (Failure (thread_error A ''OpenThread(set)'' s1), s1)
         else (let (ok, s2) = th_SetThreadGroupAffinity A h cpus s1
               in (if \<not> ok then Failure (thread_error A ''SetThreadGroupAffinity'' s2) else Success (),
                   th_CloseHandle A h s2)))"

definition RealSchedulerBackend :: "'s thread_api \<Rightarrow> 's SchedulerBackend" where
  "RealSchedulerBackend A =
     \<lparr>ListThreads = Real_ListThreads A, GetPriority = Real_GetPriority A, SetPriority = Real_SetPriority A,
      GetAffinity = Real_GetAffinity A, SetAffinity = Real_SetAffinity A\<rparr>"

section \<open>Raising and putting back\<close>

definition IsValidPriority :: "int \<Rightarrow> bool" where
  "IsValidPriority priority \<longleftrightarrow> priority \<ge> -15 \<and> priority \<le> 15"

definition ShouldRaisePriority :: "int \<Rightarrow> int \<Rightarrow> bool" where
  "ShouldRaisePriority current target \<longleftrightarrow> current < target"

text \<open>The loop stops at the first thread whose priority cannot be set and returns what it has.\<close>

fun boost_threads ::
  "'s SchedulerBackend \<Rightarrow> int \<Rightarrow> ThreadSnapshot list \<Rightarrow> BoostReport \<Rightarrow> 's \<Rightarrow> BoostReport \<times> 's" where
  "boost_threads B target [] report s = (report, s)"
| "boost_threads B target (t # ts) report s =
     (if \<not> ShouldRaisePriority (ts_priority t) target
      then boost_threads B target ts (report\<lparr>br_skipped := br_skipped report + 1\<rparr>) s
      else (case SetPriority B (ts_threadId t) target s of
              (Inl _, s1) \<Rightarrow> (report, s1)
            | (Inr _, s1) \<Rightarrow>
                boost_threads B target ts
                  (report\<lparr>br_adjusted := br_adjusted report @
                     [\<lparr>pa_threadId = ts_threadId t, pa_originalPriority = ts_priority t, pa_appliedPriority = target\<rparr>]\<rparr>) s1))"

definition BoostProcessThreads :: "'s SchedulerBackend \<Rightarrow> u32 \<Rightarrow> int \<Rightarrow> 's \<Rightarrow> BoostReport result \<times> 's" where
  "BoostProcessThreads B processId targetPriority s =
     (if \<not> IsValidPriority targetPriority
      then (Failure (Error_Validation ''BoostProcessThreads'' ''the target priority is not in -15..15''), s)
      else (case ListThreads B processId s of
              (Inl e, s1) \<Rightarrow> (Failure e, s1)
            | (Inr threads, s1) \<Rightarrow>
                (let (report, s2) = boost_threads B targetPriority threads \<lparr>br_adjusted = [], br_skipped = 0\<rparr> s1
                 in (Success report, s2))))"

text \<open>The last error of the thread, read when a priority could not be put back, is \<open>lastError\<close>.\<close>

fun restore_priorities ::
  "(u32 \<Rightarrow> string) \<Rightarrow> ('s \<Rightarrow> u32) \<Rightarrow> 's SchedulerBackend \<Rightarrow> PriorityAdjustment list \<Rightarrow> nat \<Rightarrow> 's \<Rightarrow> nat result \<times> 's" where
  "restore_priorities sysmsg lastError B [] restored s = (Success restored, s)"
| "restore_priorities sysmsg lastError B (a # as) restored s =
     (case GetPriority B (pa_threadId a) s of
        (Inl _, s1) \<Rightarrow> restore_priorities sysmsg lastError B as restored s1
      | (Inr current, s1) \<Rightarrow>
          if current \<noteq> pa_appliedPriority a then restore_priorities sysmsg lastError B as restored s1
          else (case SetPriority B (pa_threadId a) (pa_originalPriority a) s1 of
                  (Inl _, s2) \<Rightarrow> (Failure (FromWin32 sysmsg (lastError s2) ''RestorePriorities''), s2)
                | (Inr _, s2) \<Rightarrow> restore_priorities sysmsg lastError B as (restored + 1) s2))"

definition RestorePriorities ::
  "(u32 \<Rightarrow> string) \<Rightarrow> ('s \<Rightarrow> u32) \<Rightarrow> 's SchedulerBackend \<Rightarrow> PriorityAdjustment list \<Rightarrow> 's \<Rightarrow> nat result \<times> 's" where
  "RestorePriorities sysmsg lastError B adjustments s = restore_priorities sysmsg lastError B adjustments 0 s"

section \<open>The record of adjustments\<close>

definition adjustment_line :: "PriorityAdjustment \<Rightarrow> string" where
  "adjustment_line a =
     ''tid='' @ dec_of_nat (unat (pa_threadId a)) @ '' from='' @ dec_of_int (pa_originalPriority a) @
     '' to='' @ dec_of_int (pa_appliedPriority a)"

definition FormatAdjustmentRecord :: "u32 \<Rightarrow> PriorityAdjustment list \<Rightarrow> string" where
  "FormatAdjustmentRecord processId adjustments =
     unlines (''CppOptimizerSchedulerRecord/1'' #
              (''pid='' @ dec_of_nat (unat processId) @ '' count='' @ dec_of_nat (length adjustments)) #
              map adjustment_line adjustments)"

text \<open>
  \<open>std::from_chars\<close> in base 10: the longest run of digits at the start, a minus sign only for a
  signed type, and nothing if there is none or it does not fit.  What follows the digits is ignored.
\<close>

definition from_chars_u32 :: "string \<Rightarrow> u32 option" where
  "from_chars_u32 s =
     (let ds = takeWhile is_digit s
      in if ds = [] \<or> dec_val 0 ds \<ge> 2 ^ 32 then None else Some (of_nat (dec_val 0 ds)))"

definition from_chars_int :: "string \<Rightarrow> int option" where
  "from_chars_int s =
     (let neg = (s \<noteq> [] \<and> hd s = CHR ''-''); ds = takeWhile is_digit (if neg then tl s else s);
          v = (if neg then - int (dec_val 0 ds) else int (dec_val 0 ds))
      in if ds = [] \<or> v < - (2 ^ 31) \<or> v \<ge> 2 ^ 31 then None else Some v)"

definition record_error :: "string \<Rightarrow> Error" where
  "record_error msg = Error_Validation ''ParseAdjustmentRecord'' msg"

definition drop_cr_end :: "string \<Rightarrow> string" where
  "drop_cr_end line = (if line \<noteq> [] \<and> last line = CR then butlast line else line)"

definition parse_adjustment :: "string \<Rightarrow> PriorityAdjustment result" where
  "parse_adjustment line =
     (if take 4 line \<noteq> ''tid='' then Failure (record_error ''bad line prefix'')
      else (case (split_sub '' from='' line, split_sub '' to='' line) of
              (Some (beforeFrom, afterFrom), Some (beforeTo, afterTo)) \<Rightarrow>
                if length beforeTo < length beforeFrom then Failure (record_error ''missing field'')
                else (let tidText = drop 4 beforeFrom;
                          fromText = take (length beforeTo - length beforeFrom - 6) afterFrom
                      in case (from_chars_u32 tidText, from_chars_int fromText, from_chars_int afterTo) of
                           (Some tid, Some frm, Some to) \<Rightarrow>
                             Success \<lparr>pa_threadId = tid, pa_originalPriority = frm, pa_appliedPriority = to\<rparr>
                         | _ \<Rightarrow> Failure (record_error ''bad number''))
            | _ \<Rightarrow> Failure (record_error ''missing field'')))"

fun parse_adjustments :: "string list \<Rightarrow> PriorityAdjustment list \<Rightarrow> PriorityAdjustment list result" where
  "parse_adjustments [] acc = Success acc"
| "parse_adjustments (raw # ls) acc =
     (let line = drop_cr_end raw
      in if line = [] then parse_adjustments ls acc
         else if take 4 line = ''pid='' then parse_adjustments ls acc
         else (case parse_adjustment line of
                 Inl e \<Rightarrow> Failure e
               | Inr item \<Rightarrow> parse_adjustments ls (acc @ [item])))"

definition ParseAdjustmentRecord :: "string \<Rightarrow> PriorityAdjustment list result" where
  "ParseAdjustmentRecord text =
     (case getlines text of
        [] \<Rightarrow> Failure (record_error ''bad envelope'')
      | l # ls \<Rightarrow> if l \<noteq> ''CppOptimizerSchedulerRecord/1'' then Failure (record_error ''bad envelope'')
                 else parse_adjustments ls [])"

section \<open>The record can be read back\<close>

lemma split_sub_absent: "c \<in> set pat \<Longrightarrow> c \<notin> set s \<Longrightarrow> split_sub pat s = None"
  using split_sub_Some by (cases "split_sub pat s") fastforce+

lemma from_chars_u32_dec: "n < 2 ^ 32 \<Longrightarrow> from_chars_u32 (dec_of_nat n) = Some (of_nat n)"
  by (simp add: from_chars_u32_def takeWhile_dec_of_nat dec_of_nat_ne dec_val_dec_of_nat)

lemma hd_dec_not_minus: "hd (dec_of_nat n) \<noteq> CHR ''-''"
  using hd_dec_of_nat_digit [of n] by (auto simp: is_digit_def)

lemma from_chars_int_dec: "- (2 ^ 31) \<le> i \<Longrightarrow> i < 2 ^ 31 \<Longrightarrow> from_chars_int (dec_of_int i) = Some i"
  by (simp add: from_chars_int_def dec_of_int_def takeWhile_dec_of_nat dec_of_nat_ne dec_val_dec_of_nat hd_dec_not_minus)
    auto

lemma dec_of_int_no: "c \<notin> {CHR ''-''} \<union> {d. is_digit d} \<Longrightarrow> c \<notin> set (dec_of_int i)"
  using dec_of_nat_digits by (auto simp: dec_of_int_def)

lemma dec_of_nat_no: "\<not> is_digit c \<Longrightarrow> c \<notin> set (dec_of_nat n)"
  using dec_of_nat_digits by auto

lemma not_digits_letters [simp]:
  "\<not> is_digit (CHR '' '')" "\<not> is_digit (CHR ''t'')" "\<not> is_digit CR" "\<not> is_digit LF"
  by (simp_all add: is_digit_def)

definition adjustment_ok :: "PriorityAdjustment \<Rightarrow> bool" where
  "adjustment_ok a \<longleftrightarrow> - (2 ^ 31) \<le> pa_originalPriority a \<and> pa_originalPriority a < 2 ^ 31 \<and>
     - (2 ^ 31) \<le> pa_appliedPriority a \<and> pa_appliedPriority a < 2 ^ 31"

lemma split_from: 
  "split_sub '' from='' (adjustment_line a) =
     Some (''tid='' @ dec_of_nat (unat (pa_threadId a)),
           dec_of_int (pa_originalPriority a) @ '' to='' @ dec_of_int (pa_appliedPriority a))"
proof -
  have "CHR '' '' \<notin> set (''tid='' @ dec_of_nat (unat (pa_threadId a)))" by (simp add: dec_of_nat_no)
  from split_sub_mark [of "'' from=''" "[]" "CHR '' ''" "''from=''", OF _ _ this]
  show ?thesis by (simp add: adjustment_line_def)
qed

lemma split_to: 
  "split_sub '' to='' (adjustment_line a) =
     Some (''tid='' @ dec_of_nat (unat (pa_threadId a)) @ '' from='' @ dec_of_int (pa_originalPriority a),
           dec_of_int (pa_appliedPriority a))"
proof -
  let ?n = "dec_of_nat (unat (pa_threadId a))" and ?i = "dec_of_int (pa_originalPriority a)" and ?j = "dec_of_int (pa_appliedPriority a)"
  have "CHR '' '' \<notin> set (''='' @ ?i)" by (simp add: dec_of_int_no)
  from split_sub_mark [of "'' to=''" "[]" "CHR '' ''" "''to=''", OF _ _ this]
  have 1: "split_sub '' to='' (''='' @ ?i @ '' to='' @ ?j) = Some (''='' @ ?i, ?j)" by simp
  have 2: "split_sub '' to='' (''='' @ ?n @ '' '') = None"
    by (rule split_sub_absent [of "CHR ''t''"]) (simp_all add: dec_of_nat_no)
  note skip = split_sub_skip [of "'' to=''"]
  have "split_sub '' to='' (''ro'' @ CHR ''m'' # ''='' @ ?i @ '' to='' @ ?j) = Some (''rom='' @ ?i, ?j)"
    by (subst skip) (simp_all add: 1 [simplified])
  then have "split_sub '' to='' ((''='' @ ?n @ '' '') @ CHR ''f'' # ''rom='' @ ?i @ '' to='' @ ?j) =
      Some (''='' @ ?n @ '' from='' @ ?i, ?j)"
    by (subst skip) (simp_all add: 2 [simplified])
  then have "split_sub '' to='' (''ti'' @ CHR ''d'' # ''='' @ ?n @ '' from='' @ ?i @ '' to='' @ ?j) =
      Some (''tid='' @ ?n @ '' from='' @ ?i, ?j)"
    by (subst skip) simp_all
  then show ?thesis by (simp add: adjustment_line_def)
qed

lemma parse_adjustment_line: "adjustment_ok a \<Longrightarrow> parse_adjustment (adjustment_line a) = Success a"
  unfolding parse_adjustment_def split_from split_to
  by (simp add: adjustment_line_def adjustment_ok_def from_chars_u32_dec unat_u32_less from_chars_int_dec)

lemma adjustment_line_plain: "CR \<notin> set (adjustment_line a)" "LF \<notin> set (adjustment_line a)"
  by (simp_all add: adjustment_line_def dec_of_nat_no dec_of_int_no)

lemma drop_cr_end_plain: "CR \<notin> set l \<Longrightarrow> drop_cr_end l = l"
  by (cases l rule: rev_cases) (auto simp: drop_cr_end_def)

lemma parse_adjustments_lines:
  "list_all adjustment_ok as \<Longrightarrow> parse_adjustments (map adjustment_line as) acc = Success (acc @ as)"
proof (induction as arbitrary: acc)
  case (Cons a as)
  have "adjustment_line a \<noteq> []" "take 4 (adjustment_line a) \<noteq> ''pid=''" by (simp_all add: adjustment_line_def)
  with Cons show ?case by (simp add: drop_cr_end_plain adjustment_line_plain parse_adjustment_line Let_def)
qed simp

text \<open>
  The record of a boost can be read back: for priorities that fit an \<open>int\<close>, parsing the
  formatted record gives the adjustments unchanged, in order and number.\<close>
theorem ParseAdjustmentRecord_inverts_Format:
  assumes "list_all adjustment_ok as"
  shows "ParseAdjustmentRecord (FormatAdjustmentRecord pid as) = Success as"
proof -
  let ?head = "''pid='' @ dec_of_nat (unat pid) @ '' count='' @ dec_of_nat (length as)"
  have "CR \<notin> set ?head" "LF \<notin> set ?head" by (simp_all add: dec_of_nat_no)
  then have "getlines (FormatAdjustmentRecord pid as) = ''CppOptimizerSchedulerRecord/1'' # ?head # map adjustment_line as"
    unfolding FormatAdjustmentRecord_def by (subst getlines_unlines) (auto simp: adjustment_line_plain)
  moreover have "parse_adjustments (?head # map adjustment_line as) [] = Success as"
    using \<open>CR \<notin> set ?head\<close> parse_adjustments_lines [OF assms, of "[]"] by (simp add: drop_cr_end_plain Let_def)
  ultimately show ?thesis by (simp add: ParseAdjustmentRecord_def)
qed

theorem ParseAdjustmentRecord_inverts_Format_witness:
  "ParseAdjustmentRecord (FormatAdjustmentRecord 42 [\<lparr>pa_threadId = 7, pa_originalPriority = -2, pa_appliedPriority = 1\<rparr>]) =
     Success [\<lparr>pa_threadId = 7, pa_originalPriority = -2, pa_appliedPriority = 1\<rparr>]"
  by (rule ParseAdjustmentRecord_inverts_Format) (simp add: adjustment_ok_def)

text \<open>The parser checks neither what follows a number nor the announced count.\<close>

lemma parse_adjustment_lenient:
  "parse_adjustment ''tid=7x from=0y to=1z'' = Success \<lparr>pa_threadId = 7, pa_originalPriority = 0, pa_appliedPriority = 1\<rparr>"
  by (simp add: parse_adjustment_def from_chars_u32_def from_chars_int_def is_digit_def digit_val_def)

section \<open>What a backend promises\<close>

text \<open>\<open>prio\<close> is the priority a thread really has, and nothing for a thread that cannot be reached.\<close>

locale thread_backend =
  fixes B :: "'s SchedulerBackend" and prio :: "u32 \<Rightarrow> 's \<Rightarrow> int option"
  assumes list_keeps: "ListThreads B pid s = (listed, s') \<Longrightarrow> prio t s' = prio t s"
    and list_honest: "ListThreads B pid s = (Success ts, s') \<Longrightarrow>
      distinct (map ts_threadId ts) \<and> (\<forall>t \<in> set ts. prio (ts_threadId t) s = Some (ts_priority t))"
    and get_keeps: "GetPriority B t s = (r, s') \<Longrightarrow> prio u s' = prio u s"
    and get_honest: "GetPriority B t s = (Success p, s') \<Longrightarrow> prio t s = Some p"
    and set_takes: "SetPriority B t p s = (Success v, s') \<Longrightarrow> prio u s' = (if u = t then Some p else prio u s)"
    and set_fails: "SetPriority B t p s = (Failure e, s') \<Longrightarrow> prio u s' = prio u s"
begin

text \<open>The adjustments that hold of a state: made on these threads, from these priorities.\<close>

definition adjusted_from :: "PriorityAdjustment list \<Rightarrow> int \<Rightarrow> 's \<Rightarrow> 's \<Rightarrow> bool" where
  "adjusted_from as target s s' \<longleftrightarrow> distinct (map pa_threadId as) \<and>
     (\<forall>a \<in> set as. pa_appliedPriority a = target \<and> pa_originalPriority a < target \<and>
        prio (pa_threadId a) s = Some (pa_originalPriority a) \<and> prio (pa_threadId a) s' = Some target) \<and>
     (\<forall>u. u \<notin> pa_threadId ` set as \<longrightarrow> prio u s' = prio u s)"

lemma boost_threads_adjusted:
  assumes "boost_threads B target ts report s1 = (report', s')"
    and "adjusted_from (br_adjusted report) target s s1"
    and "distinct (map ts_threadId ts)" and "ts_threadId ` set ts \<inter> pa_threadId ` set (br_adjusted report) = {}"
    and "\<forall>t \<in> set ts. prio (ts_threadId t) s = Some (ts_priority t)"
  shows "adjusted_from (br_adjusted report') target s s'"
  using assms
proof (induction ts arbitrary: report s1)
  case (Cons t ts)
  show ?case
  proof (cases "ShouldRaisePriority (ts_priority t) target")
    case False
    with Cons.prems show ?thesis
      by (intro Cons.IH [of "report\<lparr>br_skipped := br_skipped report + 1\<rparr>" s1]) auto
  next
    case raise: True
    show ?thesis
    proof (cases "SetPriority B (ts_threadId t) target s1")
      case (Pair r s2)
      show ?thesis
      proof (cases r)
        case (Inl e)
        with Pair set_fails [of "ts_threadId t" target s1 e s2] Cons.prems raise show ?thesis
          by (auto simp: adjusted_from_def)
      next
        case (Inr v)
        with Pair have took: "prio u s2 = (if u = ts_threadId t then Some target else prio u s1)" for u
          using set_takes by blast
        let ?a = "\<lparr>pa_threadId = ts_threadId t, pa_originalPriority = ts_priority t, pa_appliedPriority = target\<rparr>"
        have "adjusted_from (br_adjusted report @ [?a]) target s s2"
          using Cons.prems raise took by (auto simp: adjusted_from_def ShouldRaisePriority_def)
        with Cons.prems raise Pair Inr show ?thesis
          by (intro Cons.IH [of "report\<lparr>br_adjusted := br_adjusted report @ [?a]\<rparr>" s2]) auto
      qed
    qed
  qed
qed simp

lemma BoostProcessThreads_adjusted:
  assumes "BoostProcessThreads B pid target s = (Success report, s')"
  shows "adjusted_from (br_adjusted report) target s s'"
proof -
  from assms obtain ts s1 where l: "ListThreads B pid s = (Success ts, s1)"
    and b: "boost_threads B target ts \<lparr>br_adjusted = [], br_skipped = 0\<rparr> s1 = (report, s')"
    by (auto simp: BoostProcessThreads_def split: if_splits prod.splits sum.splits)
  from boost_threads_adjusted [OF b, of s] list_honest [OF l] list_keeps [OF l] show ?thesis
    by (simp add: adjusted_from_def)
qed

end

text \<open>In addition the calls on a reachable thread work.\<close>

locale working_threads = thread_backend B prio for B :: "'s SchedulerBackend" and prio :: "u32 \<Rightarrow> 's \<Rightarrow> int option" +
  assumes prio_range: "prio t s = Some p \<Longrightarrow> IsValidPriority p"
    and get_works: "prio t s = Some p \<Longrightarrow> \<exists>s'. GetPriority B t s = (Success p, s')"
    and get_gone: "prio t s = None \<Longrightarrow> \<exists>e s'. GetPriority B t s = (Failure e, s')"
    and set_works: "prio t s \<noteq> None \<Longrightarrow> IsValidPriority p \<Longrightarrow> \<exists>s'. SetPriority B t p s = (Success (), s')"
begin

definition still_applied :: "'s \<Rightarrow> PriorityAdjustment \<Rightarrow> bool" where
  "still_applied s a \<longleftrightarrow> prio (pa_threadId a) s = Some (pa_appliedPriority a)"

lemma restore_priorities_exact:
  assumes "distinct (map pa_threadId as)" and "\<forall>a \<in> set as. IsValidPriority (pa_originalPriority a)"
  shows "\<exists>s'. restore_priorities sysmsg lastError B as n s = (Success (n + length (filter (still_applied s) as)), s') \<and>
    (\<forall>a \<in> set as. prio (pa_threadId a) s' =
       (if still_applied s a then Some (pa_originalPriority a) else prio (pa_threadId a) s)) \<and>
    (\<forall>u. u \<notin> pa_threadId ` set as \<longrightarrow> prio u s' = prio u s)"
  using assms
proof (induction as arbitrary: n s)
  case (Cons a as)
  obtain r s1 where g: "GetPriority B (pa_threadId a) s = (r, s1)" by fastforce
  have k1: "prio u s1 = prio u s" for u using get_keeps [OF g] .
  show ?case
  proof (cases "still_applied s a")
    case False
    have "restore_priorities sysmsg lastError B (a # as) n s = restore_priorities sysmsg lastError B as n s1"
      using g False get_honest [of "pa_threadId a" s _ s1] by (auto simp: still_applied_def split: sum.splits)
    moreover have "still_applied s1 = still_applied s" by (simp add: fun_eq_iff still_applied_def k1)
    ultimately show ?thesis using Cons.IH [of n s1] Cons.prems False by (auto simp: k1)
  next
    case True
    then have r: "r = Success (pa_appliedPriority a)"
      using get_works [of "pa_threadId a" s] g by (auto simp: still_applied_def)
    obtain s2 where st: "SetPriority B (pa_threadId a) (pa_originalPriority a) s1 = (Success (), s2)"
      using set_works [of "pa_threadId a" s1 "pa_originalPriority a"] True Cons.prems(2) k1 by (auto simp: still_applied_def)
    have k2: "prio u s2 = (if u = pa_threadId a then Some (pa_originalPriority a) else prio u s)" for u
      using set_takes [OF st] k1 by simp
    have same: "x \<in> set as \<Longrightarrow> pa_threadId x \<noteq> pa_threadId a" for x using Cons.prems(1) by (auto simp: image_iff)
    then have sa: "x \<in> set as \<Longrightarrow> still_applied s2 x = still_applied s x" for x by (simp add: still_applied_def k2)
    then have f: "filter (still_applied s2) as = filter (still_applied s) as" by (intro filter_cong) auto
    have step: "restore_priorities sysmsg lastError B (a # as) n s = restore_priorities sysmsg lastError B as (n + 1) s2"
      using g r st by simp
    from Cons.IH [of "n + 1" s2] Cons.prems obtain s' where
      s': "restore_priorities sysmsg lastError B as (n + 1) s2 = (Success (n + 1 + length (filter (still_applied s2) as)), s')"
      "\<forall>a \<in> set as. prio (pa_threadId a) s' = (if still_applied s2 a then Some (pa_originalPriority a) else prio (pa_threadId a) s2)"
      "\<forall>u. u \<notin> pa_threadId ` set as \<longrightarrow> prio u s' = prio u s2" by auto
    have "pa_threadId a \<notin> pa_threadId ` set as" using Cons.prems(1) by simp
    with s'(2,3) True sa same have "\<forall>x \<in> set (a # as). prio (pa_threadId x) s' =
        (if still_applied s x then Some (pa_originalPriority x) else prio (pa_threadId x) s)"
      by (simp add: k2)
    moreover have "\<forall>u. u \<notin> pa_threadId ` set (a # as) \<longrightarrow> prio u s' = prio u s" using s'(3) k2 by simp
    ultimately show ?thesis using s'(1) True step f by simp
  qed
qed simp

lemma boost_then_restore:
  assumes "BoostProcessThreads B pid target s = (Success report, s')"
  shows "\<exists>s3. RestorePriorities sysmsg lastError B (br_adjusted report) s2 =
      (Success (length (filter (\<lambda>a. prio (pa_threadId a) s2 = Some target) (br_adjusted report))), s3) \<and>
    (\<forall>u. prio u s3 = (if u \<in> pa_threadId ` set (br_adjusted report) \<and> prio u s2 = Some target then prio u s else prio u s2))"
proof -
  note a = BoostProcessThreads_adjusted [OF assms, unfolded adjusted_from_def]
  then have "\<forall>x \<in> set (br_adjusted report). IsValidPriority (pa_originalPriority x)" using prio_range by blast
  from restore_priorities_exact [OF _ this, of sysmsg lastError 0 s2] a
  obtain s3 where r: "restore_priorities sysmsg lastError B (br_adjusted report) 0 s2 =
      (Success (length (filter (still_applied s2) (br_adjusted report))), s3)"
    and p: "\<forall>a \<in> set (br_adjusted report). prio (pa_threadId a) s3 =
       (if still_applied s2 a then Some (pa_originalPriority a) else prio (pa_threadId a) s2)"
      "\<forall>u. u \<notin> pa_threadId ` set (br_adjusted report) \<longrightarrow> prio u s3 = prio u s2" by auto
  have f: "filter (still_applied s2) (br_adjusted report) =
      filter (\<lambda>a. prio (pa_threadId a) s2 = Some target) (br_adjusted report)"
    by (rule filter_cong) (use a in \<open>auto simp: still_applied_def\<close>)
  have "prio u s3 = (if u \<in> pa_threadId ` set (br_adjusted report) \<and> prio u s2 = Some target then prio u s else prio u s2)" for u
    using p a by (cases "u \<in> pa_threadId ` set (br_adjusted report)") (auto simp: still_applied_def)
  then show ?thesis using r f by (auto simp: RestorePriorities_def)
qed

end

section \<open>A machine\<close>

text \<open>
  Threads with their process and their priority, and the open handles.  A thread without a priority in
  the valid range cannot be opened; otherwise every call works.
\<close>

record thread_machine =
  tt_threads :: "(u32 \<times> u32) list"
  tt_prio :: "u32 \<Rightarrow> int option"
  tt_open :: "u64 list"

definition machine_prio :: "u32 \<Rightarrow> thread_machine \<Rightarrow> int option" where
  "machine_prio t s = (case tt_prio s t of None \<Rightarrow> None | Some p \<Rightarrow> if IsValidPriority p then Some p else None)"

definition thread_of :: "u64 \<Rightarrow> u32" where "thread_of h = ucast (h - 1)"

definition machine_threads :: "thread_machine thread_api" where
  "machine_threads =
     \<lparr>th_CreateSnapshot = (\<lambda>s. (- 2, s\<lparr>tt_open := (- 2) # tt_open s\<rparr>)),
      th_Entries = (\<lambda>h s. map (\<lambda>t. (t, the (map_of (tt_threads s) t))) (remdups (map fst (tt_threads s)))),
      th_OpenThread = (\<lambda>access t s. case machine_prio t s of
          None \<Rightarrow> (0, s) | Some _ \<Rightarrow> (ucast t + 1, s\<lparr>tt_open := (ucast t + 1) # tt_open s\<rparr>)),
      th_CloseHandle = (\<lambda>h s. s\<lparr>tt_open := remove1 h (tt_open s)\<rparr>),
      th_GetThreadPriority = (\<lambda>h s. case machine_prio (thread_of h) s of None \<Rightarrow> THREAD_PRIORITY_ERROR_RETURN | Some p \<Rightarrow> p),
      th_SetThreadPriority = (\<lambda>h p s.
          if IsValidPriority p then (True, s\<lparr>tt_prio := (tt_prio s)(thread_of h := Some p)\<rparr>) else (False, s)),
      th_GetThreadGroupAffinity = (\<lambda>h s. Some 1),
      th_SetThreadGroupAffinity = (\<lambda>h m s. (True, s)),
      th_GetLastError = (\<lambda>s. if tt_threads s = [] then ERROR_NO_MORE_FILES else 5),
      th_FormatMessage = (\<lambda>_. [])\<rparr>"

lemma thread_handle [simp]: "ucast (t :: u32) + 1 \<noteq> (0 :: u64)" "thread_of (ucast t + 1) = t"
proof -
  have low: "\<not> bit (ucast t :: u64) 40" using bit_imp_le_length [of t 40] by (auto simp: bit_simps)
  have "bit (- 1 :: u64) 40" by simp
  with low have "(ucast t :: u64) \<noteq> - 1" by auto
  then show "ucast (t :: u32) + 1 \<noteq> (0 :: u64)" by (simp add: add_eq_0_iff2)
  show "thread_of (ucast t + 1) = t" by (simp add: thread_of_def) (simp add: bit_eq_iff bit_simps)
qed

lemma machine_prio_open [simp]: "machine_prio t (s\<lparr>tt_open := hs\<rparr>) = machine_prio t s"
  by (simp add: machine_prio_def)

lemma machine_prio_valid: "machine_prio t s = Some p \<Longrightarrow> IsValidPriority p"
  by (auto simp: machine_prio_def split: option.splits if_splits)

lemma valid_not_error: "IsValidPriority p \<Longrightarrow> p \<noteq> THREAD_PRIORITY_ERROR_RETURN"
  by (simp add: IsValidPriority_def)

lemma machine_list_one:
  "list_one machine_threads t s =
     (map_option (\<lambda>p. \<lparr>ts_threadId = t, ts_priority = p, ts_affinityMask = 1\<rparr>) (machine_prio t s), s)"
  using machine_prio_valid [of t s] valid_not_error
  by (cases "machine_prio t s") (auto simp: list_one_def OpenThreadHandle_def machine_threads_def)

lemma machine_list_entries:
  "list_entries machine_threads pid es s =
     (List.map_filter (\<lambda>e. if snd e = pid
        then map_option (\<lambda>p. \<lparr>ts_threadId = fst e, ts_priority = p, ts_affinityMask = 1\<rparr>) (machine_prio (fst e) s)
        else None) es, s)"
  by (induction es) (auto simp: machine_list_one List.map_filter_simps split: option.splits)

lemma machine_ListThreads:
  "ListThreads (RealSchedulerBackend machine_threads) pid s = (r, s') \<Longrightarrow> s' = s \<and>
     (\<forall>ts. r = Success ts \<longrightarrow> distinct (map ts_threadId ts) \<and>
        (\<forall>t \<in> set ts. machine_prio (ts_threadId t) s = Some (ts_priority t)))"
proof -
  assume l: "ListThreads (RealSchedulerBackend machine_threads) pid s = (r, s')"
  define f where "f e = (if snd e = pid
      then map_option (\<lambda>p. \<lparr>ts_threadId = fst e, ts_priority = p, ts_affinityMask = (1 :: u64)\<rparr>) (machine_prio (fst e) s)
      else None)" for e
  have ids: "distinct (map fst es) \<Longrightarrow> distinct (map ts_threadId (List.map_filter f es)) \<and>
      ts_threadId ` set (List.map_filter f es) \<subseteq> fst ` set es" for es
    by (induction es) (auto simp: List.map_filter_simps f_def split: option.splits)
  have prios: "\<forall>t \<in> set (List.map_filter f es). machine_prio (ts_threadId t) s = Some (ts_priority t)" for es
    by (induction es) (auto simp: List.map_filter_simps f_def split: option.splits)
  define es where "es = map (\<lambda>t. (t, the (map_of (tt_threads s) t))) (remdups (map fst (tt_threads s)))"
  have d: "distinct (map fst es)" by (simp add: es_def comp_def)
  have "list_entries machine_threads pid es (s\<lparr>tt_open := (- 2) # tt_open s\<rparr>) =
      (List.map_filter f es, s\<lparr>tt_open := (- 2) # tt_open s\<rparr>)"
    by (simp add: machine_list_entries f_def [abs_def] cong: if_cong)
  then show ?thesis using l ids [OF d] prios [of es]
    by (cases es) (auto simp: RealSchedulerBackend_def Real_ListThreads_def machine_threads_def es_def [symmetric] Let_def
        split: if_splits)
qed

interpretation real_threads: working_threads "RealSchedulerBackend machine_threads" machine_prio
proof (unfold_locales, goal_cases)
  case (1 pid s r s' t)
  then show ?case using machine_ListThreads by blast
next
  case (2 pid s ts s')
  then show ?case using machine_ListThreads by blast
next
  case (3 t s r s' u)
  then show ?case
    by (auto simp: RealSchedulerBackend_def Real_GetPriority_def OpenThreadHandle_def machine_threads_def Let_def
        split: option.splits if_splits)
next
  case (4 t s p s')
  then show ?case
    by (auto simp: RealSchedulerBackend_def Real_GetPriority_def OpenThreadHandle_def machine_threads_def Let_def
        split: option.splits if_splits)
next
  case (5 t p s v s' u)
  then show ?case
    by (auto simp: RealSchedulerBackend_def Real_SetPriority_def OpenThreadHandle_def machine_threads_def Let_def machine_prio_def
        split: option.splits if_splits)
next
  case (6 t p s e s' u)
  then show ?case
    by (auto simp: RealSchedulerBackend_def Real_SetPriority_def OpenThreadHandle_def machine_threads_def Let_def
        split: option.splits if_splits)
next
  case (7 t s p)
  then show ?case by (rule machine_prio_valid)
next
  case (8 t s p)
  then show ?case using machine_prio_valid [of t s p] valid_not_error [of p]
    by (auto simp: RealSchedulerBackend_def Real_GetPriority_def OpenThreadHandle_def machine_threads_def Let_def)
next
  case (9 t s)
  then show ?case
    by (auto simp: RealSchedulerBackend_def Real_GetPriority_def OpenThreadHandle_def machine_threads_def)
next
  case (10 t s p)
  then show ?case
    by (auto simp: RealSchedulerBackend_def Real_SetPriority_def OpenThreadHandle_def machine_threads_def Let_def)
qed

text \<open>
  C23: Raising the threads of a process never lowers one and reports exactly what it changed, and
  putting them back is conditional: whatever happened to the machine in between, a reported thread that
  still has the raised priority gets the one it had before, and no other thread changes.  The
  hypothesis is the contract of a backend whose calls on reachable threads work.\<close>
theorem boosted_threads_restored_conditionally:
  assumes "working_threads B prio" and "BoostProcessThreads B pid target s = (Success report, s1)"
  shows "(\<forall>u. prio u s1 = (if u \<in> pa_threadId ` set (br_adjusted report) then Some target else prio u s)) \<and>
    (\<forall>a \<in> set (br_adjusted report). prio (pa_threadId a) s = Some (pa_originalPriority a) \<and> pa_originalPriority a < target) \<and>
    (\<exists>s3. RestorePriorities sysmsg lastError B (br_adjusted report) s2 =
        (Success (length (filter (\<lambda>a. prio (pa_threadId a) s2 = Some target) (br_adjusted report))), s3) \<and>
      (\<forall>u. prio u s3 =
        (if u \<in> pa_threadId ` set (br_adjusted report) \<and> prio u s2 = Some target then prio u s else prio u s2)))"
proof -
  from assms(1) have t: "thread_backend B prio" by (simp add: working_threads_def)
  note a = thread_backend.BoostProcessThreads_adjusted [OF t assms(2), unfolded thread_backend.adjusted_from_def [OF t]]
  then have "\<forall>u. prio u s1 = (if u \<in> pa_threadId ` set (br_adjusted report) then Some target else prio u s)" by auto
  with a working_threads.boost_then_restore [OF assms] show ?thesis by blast
qed

definition demo_threads :: thread_machine where
  "demo_threads = \<lparr>tt_threads = [(7, 42), (8, 42), (9, 1)], tt_prio = [7 \<mapsto> - 2, 8 \<mapsto> 2, 9 \<mapsto> 0], tt_open = []\<rparr>"

lemmas thread_run_simps = RealSchedulerBackend_def Real_ListThreads_def Real_SetPriority_def Real_GetPriority_def
  OpenThreadHandle_def list_one_def machine_prio_def thread_of_def IsValidPriority_def ShouldRaisePriority_def

lemma demo_boost_threads:
  "\<exists>s1. BoostProcessThreads (RealSchedulerBackend machine_threads) 42 1 demo_threads =
     (Success \<lparr>br_adjusted = [\<lparr>pa_threadId = 7, pa_originalPriority = - 2, pa_appliedPriority = 1\<rparr>], br_skipped = 1\<rparr>, s1)"
  by (simp add: BoostProcessThreads_def thread_run_simps machine_threads_def demo_threads_def)

theorem boosted_threads_restored_conditionally_witness:
  "\<exists>report s1 s3. BoostProcessThreads (RealSchedulerBackend machine_threads) 42 1 demo_threads = (Success report, s1) \<and>
     machine_prio 7 s1 = Some 1 \<and>
     RestorePriorities (\<lambda>_. []) (\<lambda>_. 0) (RealSchedulerBackend machine_threads) (br_adjusted report) s1 = (Success 1, s3) \<and>
     (\<forall>u. machine_prio u s3 = machine_prio u demo_threads)"
proof -
  obtain s1 where b: "BoostProcessThreads (RealSchedulerBackend machine_threads) 42 1 demo_threads =
     (Success \<lparr>br_adjusted = [\<lparr>pa_threadId = 7, pa_originalPriority = - 2, pa_appliedPriority = 1\<rparr>], br_skipped = 1\<rparr>, s1)"
    using demo_boost_threads by blast
  from boosted_threads_restored_conditionally [OF real_threads.working_threads_axioms b, of "\<lambda>_. []" "\<lambda>_. 0" s1]
  show ?thesis using b by (auto simp: split: if_splits)
qed

section \<open>Handles\<close>

text \<open>What the handle calls promise: \<open>opened\<close> are the handles a state has open.\<close>

locale thread_handles =
  fixes A :: "'s thread_api" and opened :: "'s \<Rightarrow> u64 multiset"
  assumes snapshot_opens: "th_CreateSnapshot A s = (h, s') \<Longrightarrow> opened s' = (if h = 0 then opened s else add_mset h (opened s))"
    and thread_opens: "th_OpenThread A access t s = (h, s') \<Longrightarrow> opened s' = (if h = 0 then opened s else add_mset h (opened s))"
    and closes: "opened (th_CloseHandle A h s) = opened s - {#h#}"
    and set_priority_keeps: "th_SetThreadPriority A h p s = (ok, s') \<Longrightarrow> opened s' = opened s"
    and set_affinity_keeps: "th_SetThreadGroupAffinity A h cpus s = (ok, s') \<Longrightarrow> opened s' = opened s"
begin

lemma list_one_balanced: "list_one A t s = (x, s') \<Longrightarrow> opened s' = opened s"
  using thread_opens by (fastforce simp: list_one_def OpenThreadHandle_def closes Let_def split: prod.splits if_splits)

lemma list_entries_balanced: "list_entries A pid es s = (xs, s') \<Longrightarrow> opened s' = opened s"
  by (induction es arbitrary: s xs s') (auto split: if_splits prod.splits dest: list_one_balanced)

lemma ListThreads_balanced: "Real_ListThreads A pid s = (r, s') \<Longrightarrow> opened s' = opened s"
proof -
  obtain h s1 where c: "th_CreateSnapshot A s = (h, s1)" by fastforce
  obtain xs s2 where l: "list_entries A pid (th_Entries A h s1) s1 = (xs, s2)" by fastforce
  show "Real_ListThreads A pid s = (r, s') \<Longrightarrow> opened s' = opened s"
    using c l snapshot_opens [OF c] list_entries_balanced [OF l]
    by (cases "th_Entries A h s1") (auto simp: Real_ListThreads_def closes simp del: list_entries.simps split: if_splits)
qed

lemma priority_calls_balanced:
  "Real_GetPriority A t s = (p, s') \<Longrightarrow> opened s' = opened s"
  "Real_SetPriority A t q s = (r, s') \<Longrightarrow> opened s' = opened s"
  "Real_GetAffinity A t s = (m, s') \<Longrightarrow> opened s' = opened s"
  "Real_SetAffinity A t cpus s = (r, s') \<Longrightarrow> opened s' = opened s"
proof -
  obtain h s1 where opn: "th_OpenThread A THREAD_QUERY_LIMITED_INFORMATION t s = (h, s1)" by fastforce
  note op1 = thread_opens [OF opn]
  show "Real_GetPriority A t s = (p, s') \<Longrightarrow> opened s' = opened s" "Real_GetAffinity A t s = (m, s') \<Longrightarrow> opened s' = opened s"
    using opn op1 by (auto simp: Real_GetPriority_def Real_GetAffinity_def OpenThreadHandle_def closes Let_def split: if_splits)
next
  obtain h s1 where opn: "th_OpenThread A THREAD_SET_INFORMATION t s = (h, s1)" by fastforce
  note op1 = thread_opens [OF opn]
  obtain ok s2 where p: "th_SetThreadPriority A h q s1 = (ok, s2)" by fastforce
  obtain ok' s3 where a: "th_SetThreadGroupAffinity A h cpus s1 = (ok', s3)" by fastforce
  show "Real_SetPriority A t q s = (r, s') \<Longrightarrow> opened s' = opened s"
    using opn op1 p set_priority_keeps [OF p] by (auto simp: Real_SetPriority_def OpenThreadHandle_def closes split: if_splits)
  show "Real_SetAffinity A t cpus s = (r, s') \<Longrightarrow> opened s' = opened s"
    using opn op1 a set_affinity_keeps [OF a] by (auto simp: Real_SetAffinity_def OpenThreadHandle_def closes split: if_splits)
qed

end

interpretation machine_handles: thread_handles machine_threads "\<lambda>s. mset (tt_open s)"
  by unfold_locales (auto simp: machine_threads_def split: option.splits if_splits)

text \<open>
  Whatever the calls answer, an operation of the production backend closes every handle it opened:
  snapshots, query handles and handles to set, on the success paths and on every failing one.\<close>
theorem RealSchedulerBackend_closes_handles:
  assumes "thread_handles A opened"
  shows "opened (snd (ListThreads (RealSchedulerBackend A) pid s)) = opened s \<and>
    opened (snd (GetPriority (RealSchedulerBackend A) t s)) = opened s \<and>
    opened (snd (SetPriority (RealSchedulerBackend A) t p s)) = opened s \<and>
    opened (snd (GetAffinity (RealSchedulerBackend A) t s)) = opened s \<and>
    opened (snd (SetAffinity (RealSchedulerBackend A) t cpus s)) = opened s"
  using thread_handles.ListThreads_balanced [OF assms surjective_pairing] 
    thread_handles.priority_calls_balanced [OF assms surjective_pairing]
  by (simp add: RealSchedulerBackend_def)

theorem RealSchedulerBackend_closes_handles_witness:
  "mset (tt_open (snd (SetPriority (RealSchedulerBackend machine_threads) 7 1 demo_threads))) = mset (tt_open demo_threads)"
  using RealSchedulerBackend_closes_handles [OF machine_handles.thread_handles_axioms] by blast

text \<open>
  A thread that can be opened but whose priority cannot be read is listed with priority 0, so that a
  boost would record 0 as its original priority.
\<close>

lemma unreadable_priority_listed_as_zero:
  "th_OpenThread A THREAD_QUERY_LIMITED_INFORMATION t s = (h, s1) \<Longrightarrow> h \<noteq> 0 \<Longrightarrow>
     th_GetThreadPriority A h s1 = THREAD_PRIORITY_ERROR_RETURN \<Longrightarrow>
     \<exists>x s2. list_one A t s = (Some x, s2) \<and> ts_priority x = 0"
  by (simp add: list_one_def OpenThreadHandle_def Let_def)

end
