(* ===== verification/Scheduler_Command.thy ===== *)
theory Scheduler_Command
  imports Thread_Tuner Memory_Clean_Command
begin

text \<open>
  The thread priority command of \<^verbatim>\<open>source/main.cpp\<close> (\<open>RunSchedulerCommand\<close>): it lists the threads of a
  process and, with \<open>--execute\<close> and its gates open, raises the ones below the above-normal priority.
\<close>

definition kSchedulerTunerCapabilityId :: string where
  "kSchedulerTunerCapabilityId = ''scheduler.tuner''"

section \<open>Arguments\<close>

record sched_args =
  sh_execute :: bool
  sh_acknowledged :: bool
  sh_configPath :: "path option"

definition no_sched_args :: sched_args where
  "no_sched_args = \<lparr>sh_execute = False, sh_acknowledged = False, sh_configPath = None\<rparr>"

definition ends_toml :: "string \<Rightarrow> bool" where
  "ends_toml arg \<longleftrightarrow> length arg > 5 \<and> drop (length arg - 5) arg = ''.toml''"

fun parse_sched_args :: "string list \<Rightarrow> sched_args \<Rightarrow> string + sched_args" where
  "parse_sched_args [] a = Inr a"
| "parse_sched_args (arg # args) a =
     (if arg = ''--execute'' then parse_sched_args args (a\<lparr>sh_execute := True\<rparr>)
      else if arg = ''--acknowledge-system-wide-side-effects'' then parse_sched_args args (a\<lparr>sh_acknowledged := True\<rparr>)
      else if ends_toml arg then parse_sched_args args (a\<lparr>sh_configPath := Some arg\<rparr>)
      else Inl (''  unknown --scheduler option: '' @ arg))"

section \<open>The command\<close>

fun hex_lower :: "nat \<Rightarrow> string" where
  "hex_lower n = (let d = (\<lambda>k. if k < 10 then char_of (48 + k) else char_of (87 + k))
                  in if n < 16 then [d n] else hex_lower (n div 16) @ [d (n mod 16)])"

declare hex_lower.simps [simp del]

definition thread_line :: "ThreadSnapshot \<Rightarrow> string" where
  "thread_line t =
     ''    tid='' @ dec_of_nat (unat (ts_threadId t)) @ '' priority='' @ dec_of_int (ts_priority t) @
     '' affinity=0x'' @ hex_lower (unat (ts_affinityMask t))"

definition show_threads :: "u32 \<Rightarrow> ThreadSnapshot list \<Rightarrow> 's cli \<Rightarrow> 's cli" where
  "show_threads pid ts W =
     fold WriteLine ([''Scheduler snapshot (read-only)'', ''  pid      : '' @ dec_of_nat (unat pid),
                      ''  threads  : '' @ dec_of_nat (length ts)] @ map thread_line ts) W"

text \<open>The gates: the environment is not consulted.\<close>

definition sched_gates :: "cli_params \<Rightarrow> build_options \<Rightarrow> bool \<Rightarrow> bool \<Rightarrow> 's cli \<Rightarrow> GateEvaluation \<times> 's cli" where
  "sched_gates P B configAllows acknowledged W =
     (let probe = ProbeAuditWritable (cp_sysmsg P) (cp_io P) (DefaultAuditLogPath P) (cl_disk W);
          W1 = tick (W\<lparr>cl_disk := snd probe\<rparr>)
      in (EvaluateGates \<lparr>gi_compileTime = bo_schedulerTuner B, gi_config = configAllows, gi_commandLine = acknowledged,
            gi_permissionAndEnvironment = True, gi_audit = HasValue (fst probe),
            gi_cooldown = cooldown_gate P kSchedulerTunerCapabilityId W1\<rparr>, tick W1))"

definition boost_process :: "cli_params \<Rightarrow> 's SchedulerBackend \<Rightarrow> u32 \<Rightarrow> 's cli \<Rightarrow> int \<times> 's cli" where
  "boost_process P X pid W =
     (case BoostProcessThreads X pid 1 (cl_machine W) of
        (Inl e, m) \<Rightarrow> (41, ErrorLine (''  scheduler boost failed ['' @ err_operation e @ '']'') (W\<lparr>cl_machine := m\<rparr>))
      | (Inr report, m) \<Rightarrow>
          (let n = dec_of_nat (length (br_adjusted report)); target = dec_of_nat (unat pid);
               W1 = WriteLine (''  adjusted : '' @ n @ '' skipped: '' @ dec_of_nat (br_skipped report)) (W\<lparr>cl_machine := m\<rparr>);
               W2 = JournalAction P ''scheduler.boost_priority'' target True After
                      ''raise below-AboveNormal threads to AboveNormal'' W1;
               W3 = AuditAction P ''scheduler.boost_priority'' R1 target True (''adjusted '' @ n @ '' thread(s)'') ''target=1'' W2
           in (0, case RecordCooldownRun (cp_sysmsg P) (cp_io P) (DefaultCooldownLedgerPath P) kSchedulerTunerCapabilityId
                         (cp_time P (cl_ticks W3)) (cl_disk W3) of
                    (Inl _, d) \<Rightarrow> ErrorLine ''  cooldown : not recorded (action already applied)'' (tick (W3\<lparr>cl_disk := d\<rparr>))
                  | (Inr _, d) \<Rightarrow> tick (W3\<lparr>cl_disk := d\<rparr>))))"

definition execute_sched ::
  "cli_params \<Rightarrow> build_options \<Rightarrow> 's SchedulerBackend \<Rightarrow> u32 \<Rightarrow> bool \<Rightarrow> bool \<Rightarrow> 's cli \<Rightarrow> int \<times> 's cli" where
  "execute_sched P B X pid configAllows acknowledged W =
     (case sched_gates P B configAllows acknowledged W of
        (g, W1) \<Rightarrow>
          if \<not> ge_allowed g
          then (2, ErrorLine (''  --scheduler --execute refused [capability: scheduler.tuner, first blocked gate: '' @
                    FirstBlockingGateName g @ ''] (no system call was made)'') W1)
          else boost_process P X pid W1)"

text \<open>\<open>args\<close> are the words after the option name, of which there is at least one.\<close>

definition RunSchedulerCommand ::
  "cli_params \<Rightarrow> build_options \<Rightarrow> 's SchedulerBackend \<Rightarrow> 'n toml_api \<Rightarrow> (path \<Rightarrow> string + 'n) \<Rightarrow> string list \<Rightarrow> 's cli \<Rightarrow>
   int \<times> 's cli" where
  "RunSchedulerCommand P B X T parse args W =
     (case ParseUint32 (hd args) of
        None \<Rightarrow> (40, ErrorLine (''  invalid --scheduler target: '' @ hd args) W)
      | Some pid \<Rightarrow>
     if pid = 0 then (40, ErrorLine (''  invalid --scheduler target: '' @ hd args) W)
     else (case parse_sched_args (tl args) no_sched_args of
        Inl t \<Rightarrow> (40, ErrorLine t W)
      | Inr a \<Rightarrow>
     (case ListThreads X pid (cl_machine W) of
        (Inl e, m) \<Rightarrow> (41, ErrorLine (''  scheduler snapshot failed ['' @ err_operation e @ '']'') (W\<lparr>cl_machine := m\<rparr>))
      | (Inr ts, m) \<Rightarrow>
     (let W1 = show_threads pid ts (W\<lparr>cl_machine := m\<rparr>)
      in if \<not> sh_execute a then (0, W1)
         else (case sh_configPath a of
                 None \<Rightarrow> execute_sched P B X pid False (sh_acknowledged a) W1
               | Some p \<Rightarrow>
                   (case LoadConfig T parse p of
                      Inl e \<Rightarrow> (41, ErrorLine (''  config load failed ['' @ err_operation e @ '']'') W1)
                    | Inr s \<Rightarrow> execute_sched P B X pid (cs_scheduler s) (sh_acknowledged a) W1))))))"

section \<open>Laws\<close>

lemma fold_WriteLine_keeps [simp]:
  "cl_machine (fold WriteLine ts W) = cl_machine W" "cl_disk (fold WriteLine ts W) = cl_disk W" "cl_ticks (fold WriteLine ts W) = cl_ticks W"
  by (induction ts arbitrary: W) simp_all

lemma show_threads_keeps [simp]:
  "cl_machine (show_threads pid ts W) = cl_machine W" "cl_disk (show_threads pid ts W) = cl_disk W"
  by (simp_all add: show_threads_def del: fold.simps)

lemma sched_gates_facts:
  assumes "sched_gates P B cfg ack W = (g, W1)"
  shows "cl_machine W1 = cl_machine W"
    and "ge_allowed g \<Longrightarrow> bo_schedulerTuner B \<and> cfg \<and> ack \<and>
      HasValue (fst (ProbeAuditWritable (cp_sysmsg P) (cp_io P) (DefaultAuditLogPath P) (cl_disk W))) \<and>
      cooldown_gate P kSchedulerTunerCapabilityId (tick (W\<lparr>cl_disk := cl_disk W1\<rparr>))"
  using assms by (auto simp: sched_gates_def Let_def EvaluateGates_explicit all_gates gate_passed_def tick_def)

lemma boost_process_machine:
  "boost_process P X pid W = (rc, W') \<Longrightarrow> \<exists>r. BoostProcessThreads X pid 1 (cl_machine W) = (r, cl_machine W')"
  by (auto simp: boost_process_def Let_def AuditAction_frame JournalAction_frame split: prod.splits sum.splits)

lemma execute_sched_cases:
  assumes "execute_sched P B X pid cfg ack W = (rc, W')"
  obtains (quiet) "cl_machine W' = cl_machine W"
  | (acted) V where "bo_schedulerTuner B" "cfg" "ack" "boost_process P X pid V = (rc, W')" "cl_machine V = cl_machine W"
      "cooldown_gate P kSchedulerTunerCapabilityId (tick (W\<lparr>cl_disk := cl_disk V\<rparr>))"
proof -
  obtain g V where g: "sched_gates P B cfg ack W = (g, V)" by fastforce
  note f = sched_gates_facts [OF g]
  show thesis
  proof (cases "ge_allowed g")
    case True
    then show thesis using f(2) acted [of V] assms g f(1) by (simp add: execute_sched_def)
  next
    case False
    then show thesis using quiet assms g f(1) by (auto simp: execute_sched_def)
  qed
qed

lemma RunSchedulerCommand_cases:
  assumes "RunSchedulerCommand P B X T parse args W = (rc, W')"
  obtains (quiet) "cl_machine W' = cl_machine W"
  | (listed) pid r where "ListThreads X pid (cl_machine W) = (r, cl_machine W')"
  | (acted) a p s pid r V where "parse_sched_args (tl args) no_sched_args = Inr a" "sh_execute a" "sh_acknowledged a"
      "sh_configPath a = Some p" "LoadConfig T parse p = Success s" "cs_scheduler s" "bo_schedulerTuner B"
      "ListThreads X pid (cl_machine W) = (r, cl_machine V)" "boost_process P X pid V = (rc, W')"
      "ParseUint32 (hd args) = Some pid"
      "\<exists>U. cl_machine U = cl_machine V \<and> cl_disk U = cl_disk V \<and> cl_ticks U = cl_ticks W + 1 \<and> cooldown_gate P kSchedulerTunerCapabilityId U"
proof (cases "ParseUint32 (hd args)")
  case None
  then show thesis using assms quiet by (auto simp: RunSchedulerCommand_def)
next
  note hit = acted
  case (Some pid)
  show thesis
  proof (cases "pid = 0 \<or> (\<exists>t. parse_sched_args (tl args) no_sched_args = Inl t)")
    case True
    then show thesis using assms Some quiet by (auto simp: RunSchedulerCommand_def split: if_splits)
  next
    case False
    then obtain a where a: "pid \<noteq> 0" "parse_sched_args (tl args) no_sched_args = Inr a"
      by (cases "parse_sched_args (tl args) no_sched_args") auto
    obtain r m where l: "ListThreads X pid (cl_machine W) = (r, m)" by fastforce
    note run = assms [unfolded RunSchedulerCommand_def Some a(2) option.case sum.case l prod.case Let_def]
    show thesis
    proof (cases r)
      case (Inl e)
      then show thesis using run a(1) l listed by auto
    next
      case (Inr ts)
      define W1 where "W1 = show_threads pid ts (W\<lparr>cl_machine := m\<rparr>)"
      have W1: "cl_machine W1 = m" "cl_ticks W1 = cl_ticks W" by (simp_all add: W1_def show_threads_def del: fold.simps)
      note run2 = run [unfolded Inr sum.case W1_def [symmetric]]
      have go: thesis if x: "execute_sched P B X pid cfg (sh_acknowledged a) W1 = (rc, W')" "sh_execute a"
        and c: "cfg \<Longrightarrow> \<exists>p s. sh_configPath a = Some p \<and> LoadConfig T parse p = Success s \<and> cs_scheduler s" for cfg
        using x(1)
      proof (cases rule: execute_sched_cases)
        case quiet
        then show thesis using listed l W1 by simp
      next
        case (acted V)
        have "\<exists>U. cl_machine U = cl_machine V \<and> cl_disk U = cl_disk V \<and> cl_ticks U = cl_ticks W + 1 \<and> cooldown_gate P kSchedulerTunerCapabilityId U"
          using acted(5,6) W1(2) by (intro exI [of _ "tick (W1\<lparr>cl_disk := cl_disk V\<rparr>)"]) simp
        moreover obtain p s where "sh_configPath a = Some p" "LoadConfig T parse p = Success s" "cs_scheduler s"
          using c acted(2) by blast
        ultimately show thesis using hit [OF a(2) x(2) acted(3) _ _ _ acted(1) _ acted(4) Some] l W1(1) acted(5) by simp
      qed
      show thesis
      proof (cases "sh_execute a")
        case False
        then show thesis using run2 a(1) l listed W1 by auto
      next
        case ex: True
        show thesis
        proof (cases "sh_configPath a")
          case None
          then show thesis using run2 a(1) ex go [of False] by auto
        next
          case (Some p)
          show thesis
          proof (cases "LoadConfig T parse p")
            case (Inl e)
            then show thesis using run2 a(1) ex Some l listed W1 by auto
          next
            case (Inr st)
            then show thesis using run2 a(1) ex Some go [of "cs_scheduler st"] by auto
          qed
        qed
      qed
    qed
  qed
qed

text \<open>
  C24: The command raises a priority only when it was told to execute, in a build with the capability,
  acknowledged by the operator, allowed by a configuration that turns the scheduler on, with a writable
  audit log and outside the cooldown; and then only upwards, to above normal.  Otherwise no
  thread of the machine changes its priority.\<close>
theorem scheduler_boost_gated:
  assumes "thread_backend X prio" and "RunSchedulerCommand P B X T parse args W = (rc, W')"
    and "prio u (cl_machine W') \<noteq> prio u (cl_machine W)"
  shows "\<exists>a p s. parse_sched_args (tl args) no_sched_args = Inr a \<and> sh_execute a \<and> sh_acknowledged a \<and>
    sh_configPath a = Some p \<and> LoadConfig T parse p = Success s \<and> cs_scheduler s \<and> bo_schedulerTuner B \<and>
    prio u (cl_machine W') = Some 1 \<and> (\<exists>q < 1. prio u (cl_machine W) = Some q)"
  using assms(2)
proof (cases rule: RunSchedulerCommand_cases)
  case quiet
  then show ?thesis using assms(3) by simp
next
  case (listed pid r)
  then show ?thesis using assms(3) thread_backend.list_keeps [OF assms(1)] by metis
next
  case (acted a p s pid r V)
  from boost_process_machine [OF acted(9)] obtain b where
    b: "BoostProcessThreads X pid 1 (cl_machine V) = (b, cl_machine W')" by blast
  have V: "prio v (cl_machine V) = prio v (cl_machine W)" for v using thread_backend.list_keeps [OF assms(1) acted(8)] .
  show ?thesis
  proof (cases b)
    case (Inl e)
    with b have "prio u (cl_machine W') = prio u (cl_machine V)"
      using thread_backend.list_keeps [OF assms(1)]
      by (auto simp: BoostProcessThreads_def split: if_splits prod.splits sum.splits)
    with assms(3) V show ?thesis by simp
  next
    case (Inr report)
    from thread_backend.BoostProcessThreads_adjusted [OF assms(1) b [unfolded Inr]]
    have "u \<in> pa_threadId ` set (br_adjusted report)" "\<forall>x \<in> set (br_adjusted report). pa_originalPriority x < 1 \<and>
        prio (pa_threadId x) (cl_machine V) = Some (pa_originalPriority x) \<and> prio (pa_threadId x) (cl_machine W') = Some 1"
      using assms(3) V by (auto simp: thread_backend.adjusted_from_def [OF assms(1)])
    then show ?thesis using V acted(1-7) by auto
  qed
qed


lemma sched_gates_open:
  assumes "calm P" and "calm_disk (cl_disk W)" and "files (cl_disk W) (DefaultCooldownLedgerPath P) = None" and "bo_schedulerTuner B"
  shows "\<exists>g W1. sched_gates P B True True W = (g, W1) \<and> ge_allowed g \<and> cl_machine W1 = cl_machine W"
proof -
  obtain d where d: "ProbeAuditWritable (cp_sysmsg P) (cp_io P) (DefaultAuditLogPath P) (cl_disk W) = (Success (), d)" "calm_disk d"
    using calm_probe [OF assms(1,2)] by blast
  define W1 where "W1 = tick (W\<lparr>cl_disk := d\<rparr>)"
  have "files d (DefaultCooldownLedgerPath P) = None"
    using ProbeAuditWritable_frame [OF d(1), of "DefaultCooldownLedgerPath P"] assms(3) by simp
  then have "cooldown_gate P kSchedulerTunerCapabilityId W1"
    using d(2) by (simp add: W1_def calm_cooldown_open [OF assms(1)])
  then show ?thesis using d(1) assms(4)
    by (simp add: sched_gates_def Let_def W1_def EvaluateGates_explicit all_gates gate_passed_def)
qed

definition tuner_build :: build_options where
  "tuner_build = clean_build\<lparr>bo_schedulerTuner := True\<rparr>"

definition tuner_table :: toml where
  "tuner_table = T_table [(''scheduler'', T_table [(''enabled'', T_bool True)])]"

definition tuner_args :: "string list" where
  "tuner_args = [''42'', ''--execute'', ''--acknowledge-system-wide-side-effects'', ''c.toml'']"

definition tuner_cli :: "thread_machine cli" where
  "tuner_cli = \<lparr>cl_disk = empty_disk, cl_lines = [], cl_ticks = 0, cl_machine = demo_threads\<rparr>"

lemma tuner_table_loads: "\<exists>s. LoadConfig table_api (\<lambda>_. Inr tuner_table) ''c.toml'' = Success s \<and> cs_scheduler s"
  by (simp add: LoadConfig_def load_defs load_toggle_def tuner_table_def table_simps Let_def)

lemma tuner_args_parsed:
  "ParseUint32 (hd tuner_args) = Some 42"
  "parse_sched_args (tl tuner_args) no_sched_args =
     Inr \<lparr>sh_execute = True, sh_acknowledged = True, sh_configPath = Some ''c.toml''\<rparr>"
proof -
  have "dec_of_nat (unat (42 :: u32)) = ''42''" by code_simp
  then show "ParseUint32 (hd tuner_args) = Some 42" using ParseUint32_dec [of 42] by (simp add: tuner_args_def)
qed (simp add: tuner_args_def no_sched_args_def ends_toml_def)

lemma tuner_run:
  "\<exists>W'. RunSchedulerCommand calm_cli tuner_build (RealSchedulerBackend machine_threads) table_api (\<lambda>_. Inr tuner_table)
     tuner_args tuner_cli = (0, W') \<and> machine_prio 7 (cl_machine W') = Some 1"
proof -
  obtain st where st: "LoadConfig table_api (\<lambda>_. Inr tuner_table) ''c.toml'' = Success st" "cs_scheduler st"
    using tuner_table_loads by blast
  obtain ts m where l: "ListThreads (RealSchedulerBackend machine_threads) 42 demo_threads = (Success ts, m)"
    by (simp add: thread_run_simps machine_threads_def demo_threads_def)
  then have m: "m = demo_threads" using machine_ListThreads by blast
  define W1 where "W1 = show_threads 42 ts tuner_cli"
  have W1: "cl_machine W1 = demo_threads" "cl_disk W1 = empty_disk" by (simp_all add: W1_def tuner_cli_def)
  have "calm_disk (cl_disk W1)" by (simp add: W1 empty_disk_def calm_disk_def)
  from sched_gates_open [OF calm_calm_cli this, of tuner_build] W1 obtain g V where
    g: "sched_gates calm_cli tuner_build True True W1 = (g, V)" "ge_allowed g" "cl_machine V = demo_threads"
    by (auto simp: empty_disk_def tuner_build_def)
  obtain s1 where b: "BoostProcessThreads (RealSchedulerBackend machine_threads) 42 1 demo_threads =
     (Success \<lparr>br_adjusted = [\<lparr>pa_threadId = 7, pa_originalPriority = - 2, pa_appliedPriority = 1\<rparr>], br_skipped = 1\<rparr>, s1)"
    using demo_boost_threads by blast
  have "machine_prio 7 s1 = Some 1"
    using real_threads.BoostProcessThreads_adjusted [OF b] by (simp add: real_threads.adjusted_from_def)
  moreover obtain W' where "boost_process calm_cli (RealSchedulerBackend machine_threads) 42 V = (0, W')"
    using b g(3) by (simp add: boost_process_def Let_def)
  moreover from boost_process_machine [OF this] b g(3) have "cl_machine W' = s1" by auto
  moreover have "tuner_cli\<lparr>cl_machine := demo_threads\<rparr> = tuner_cli" by (simp add: tuner_cli_def)
  ultimately show ?thesis
    using l m st g
    by (simp add: RunSchedulerCommand_def tuner_args_parsed Let_def execute_sched_def W1_def [symmetric]) (simp add: tuner_cli_def W1_def execute_sched_def)
qed

theorem scheduler_boost_gated_witness:
  "\<exists>W'. RunSchedulerCommand calm_cli tuner_build (RealSchedulerBackend machine_threads) table_api (\<lambda>_. Inr tuner_table)
     tuner_args tuner_cli = (0, W') \<and> machine_prio 7 (cl_machine W') = Some 1 \<and> bo_schedulerTuner tuner_build"
proof -
  obtain W' where w: "RunSchedulerCommand calm_cli tuner_build (RealSchedulerBackend machine_threads) table_api (\<lambda>_. Inr tuner_table)
     tuner_args tuner_cli = (0, W')" "machine_prio 7 (cl_machine W') = Some 1" using tuner_run by blast
  have "machine_prio 7 (cl_machine W') \<noteq> machine_prio 7 (cl_machine tuner_cli)"
    using w(2) by (simp add: tuner_cli_def demo_threads_def machine_prio_def IsValidPriority_def)
  from scheduler_boost_gated [OF real_threads.thread_backend_axioms w(1) this] w show ?thesis by blast
qed

end
