(* ===== verification/Ipc_Protocol.thy ===== *)
theory Ipc_Protocol
  imports Common_Error
begin

text \<open>
  The fixed 16-byte frame header of the pipe protocol:
  \<^verbatim>\<open>include/ipc/ipc_protocol.hpp\<close> and \<^verbatim>\<open>source/ipc/ipc_protocol.cpp\<close>.  Bytes are
  \<open>8 word\<close>, the header fields keep their width; the little-endian conversions are the
  shift loops of the code.
\<close>

unbundle bit_operations_syntax

section \<open>Constants and types\<close>

definition kIpcMagic :: u32 where "kIpcMagic = 0x43504F50"
definition kIpcVersion :: u8 where "kIpcVersion = 1"
definition kMaxPayloadLength :: u32 where "kMaxPayloadLength = 4096"
definition kIpcHeaderSize :: nat where "kIpcHeaderSize = 16"

datatype IpcMessageType = Ping | Ack | FactsSnapshot | Msg_Error

definition type_byte :: "IpcMessageType \<Rightarrow> u8" where
  "type_byte t = (case t of Ping \<Rightarrow> 1 | Ack \<Rightarrow> 2 | FactsSnapshot \<Rightarrow> 3 | Msg_Error \<Rightarrow> 4)"

record IpcHeader =
  magic :: u32
  version :: u8
  mtype :: u8
  reserved :: u16
  payloadLength :: u32
  requestId :: u32

section \<open>Operations\<close>

definition ReadU32LE :: "u8 list \<Rightarrow> nat \<Rightarrow> u32" where
  "ReadU32LE bytes off =
     foldl (\<lambda>v i. v OR push_bit (8 * i) (ucast (bytes ! (off + i)))) 0 [0..<4]"

definition WriteU32LE :: "u32 \<Rightarrow> u8 list" where
  "WriteU32LE v = map (\<lambda>i. ucast (drop_bit (8 * i) v AND 0xFF)) [0..<4]"

definition MessageTypeToString :: "IpcMessageType \<Rightarrow> string" where
  "MessageTypeToString t =
     (case t of Ping \<Rightarrow> ''Ping'' | Ack \<Rightarrow> ''Ack'' | FactsSnapshot \<Rightarrow> ''FactsSnapshot''
      | Msg_Error \<Rightarrow> ''Error'')"

definition ParseMessageType :: "u8 \<Rightarrow> IpcMessageType option" where
  "ParseMessageType v =
     (if v = type_byte Ping then Some Ping
      else if v = type_byte Ack then Some Ack
      else if v = type_byte FactsSnapshot then Some FactsSnapshot
      else if v = type_byte Msg_Error then Some Msg_Error
      else None)"

definition MakeIpcHeader :: "IpcMessageType \<Rightarrow> u32 \<Rightarrow> u32 \<Rightarrow> IpcHeader" where
  "MakeIpcHeader t len rid =
     \<lparr>magic = kIpcMagic, version = kIpcVersion, mtype = type_byte t, reserved = 0,
      payloadLength = len, requestId = rid\<rparr>"

definition ValidateIpcHeader :: "IpcHeader \<Rightarrow> unit result" where
  "ValidateIpcHeader h =
     (if magic h \<noteq> kIpcMagic
        then Failure (Error_Validation ''ValidateIpcHeader'' ''frame magic mismatch'')
      else if version h \<noteq> kIpcVersion
        then Failure (Error_Validation ''ValidateIpcHeader'' ''unsupported protocol version'')
      else if ParseMessageType (mtype h) = None
        then Failure (Error_Validation ''ValidateIpcHeader'' ''unknown message type'')
      else if reserved h \<noteq> 0
        then Failure (Error_Validation ''ValidateIpcHeader'' ''reserved field is not zero'')
      else if payloadLength h > kMaxPayloadLength
        then Failure (Error_Validation ''ValidateIpcHeader'' ''payload over the limit'')
      else Success ())"

definition SerializeHeader :: "IpcHeader \<Rightarrow> u8 list" where
  "SerializeHeader h =
     WriteU32LE (magic h) @ [version h, mtype h, ucast (reserved h AND 0xFF),
       ucast (drop_bit 8 (reserved h) AND 0xFF)] @
     WriteU32LE (payloadLength h) @ WriteU32LE (requestId h)"

definition ParseHeader :: "u8 list \<Rightarrow> IpcHeader result" where
  "ParseHeader bytes =
     (if length bytes \<noteq> kIpcHeaderSize
      then Failure (Error_Validation ''ParseHeader'' ''header must be 16 bytes'')
      else let h = \<lparr>magic = ReadU32LE bytes 0, version = bytes ! 4, mtype = bytes ! 5,
                    reserved = ucast (bytes ! 6) OR push_bit 8 (ucast (bytes ! 7)),
                    payloadLength = ReadU32LE bytes 8, requestId = ReadU32LE bytes 12\<rparr>
           in case ValidateIpcHeader h of
                Inl e \<Rightarrow> Failure e
              | Inr _ \<Rightarrow> Success h)"

section \<open>Little-endian words\<close>

lemma length_WriteU32LE [simp]: "length (WriteU32LE v) = 4"
  by (simp add: WriteU32LE_def)

lemma low_byte_u32: "(ucast (w AND 0xFF) :: u8) = ucast (w :: u32)"
proof -
  have "(ucast (w AND mask 8) :: u8) = ucast w"
    by (rule bit_word_eqI) (auto simp: bit_simps)
  then show ?thesis by (simp add: mask_eq_exp_minus_1)
qed

lemma low_byte_u16: "(ucast (w AND 0xFF) :: u8) = ucast (w :: u16)"
proof -
  have "(ucast (w AND mask 8) :: u8) = ucast w"
    by (rule bit_word_eqI) (auto simp: bit_simps)
  then show ?thesis by (simp add: mask_eq_exp_minus_1)
qed

lemma upt_4: "[0..<4] = [0, 1, 2, 3 :: nat]"
  by (simp add: upt_rec)

lemma WriteU32LE_list:
  "WriteU32LE v = [ucast v, ucast (drop_bit 8 v), ucast (drop_bit 16 v), ucast (drop_bit 24 v)]"
  by (simp add: WriteU32LE_def low_byte_u32 upt_4)

lemma ReadU32LE_bytes:
  "ReadU32LE bytes off =
     ucast (bytes ! off) OR push_bit 8 (ucast (bytes ! (off + 1))) OR
     push_bit 16 (ucast (bytes ! (off + 2))) OR push_bit 24 (ucast (bytes ! (off + 3)))"
  by (simp add: ReadU32LE_def upt_4 or.assoc)

lemma join_split_u32:
  "ucast (ucast v :: u8) OR push_bit 8 (ucast (ucast (drop_bit 8 v) :: u8)) OR
   push_bit 16 (ucast (ucast (drop_bit 16 v) :: u8)) OR
   push_bit 24 (ucast (ucast (drop_bit 24 v) :: u8)) = (v :: u32)"
proof (rule bit_word_eqI)
  fix n assume "n < LENGTH(32)"
  then consider "n < 8" | "8 \<le> n" "n < 16" | "16 \<le> n" "n < 24" | "24 \<le> n" "n < 32"
    by fastforce
  then show "bit (ucast (ucast v :: u8) OR push_bit 8 (ucast (ucast (drop_bit 8 v) :: u8)) OR
     push_bit 16 (ucast (ucast (drop_bit 16 v) :: u8)) OR
     push_bit 24 (ucast (ucast (drop_bit 24 v) :: u8)) :: u32) n \<longleftrightarrow> bit v n"
    by cases (auto simp: bit_simps)
qed

lemma split_join_u32:
  fixes a b c d :: u8
  defines "v \<equiv> ucast a OR push_bit 8 (ucast b) OR push_bit 16 (ucast c) OR push_bit 24 (ucast d) :: u32"
  shows "ucast v = a" "ucast (drop_bit 8 v) = b" "ucast (drop_bit 16 v) = c" "ucast (drop_bit 24 v) = d"
  unfolding v_def by (rule bit_word_eqI, auto simp: bit_simps dest: bit_imp_le_length)+

lemma join_split_u16:
  "ucast (ucast v :: u8) OR push_bit 8 (ucast (ucast (drop_bit 8 v) :: u8)) = (v :: u16)"
  by (rule bit_word_eqI) (auto simp: bit_simps)

lemma split_join_u16:
  fixes a b :: u8
  defines "v \<equiv> ucast a OR push_bit 8 (ucast b) :: u16"
  shows "ucast v = a" "ucast (drop_bit 8 v) = b"
  unfolding v_def by (rule bit_word_eqI, auto simp: bit_simps dest: bit_imp_le_length)+

section \<open>Frame headers\<close>

text \<open>The frames the receiver is meant to accept.\<close>

definition header_ok :: "IpcHeader \<Rightarrow> bool" where
  "header_ok h \<longleftrightarrow> magic h = kIpcMagic \<and> version h = kIpcVersion \<and>
     mtype h \<in> range type_byte \<and> reserved h = 0 \<and> payloadLength h \<le> kMaxPayloadLength"

lemma type_byte_inj: "type_byte s = type_byte t \<longleftrightarrow> s = t"
  by (cases s; cases t) (simp_all add: type_byte_def)

lemma ParseMessageType_iff: "ParseMessageType v = Some t \<longleftrightarrow> v = type_byte t"
  by (cases t) (auto simp: ParseMessageType_def type_byte_inj)

lemma ParseMessageType_None: "ParseMessageType v = None \<longleftrightarrow> v \<notin> range type_byte"
  by (metis ParseMessageType_iff not_None_eq rangeE rangeI)

lemma ValidateIpcHeader_iff: "ValidateIpcHeader h = Success () \<longleftrightarrow> header_ok h"
  by (auto simp: ValidateIpcHeader_def header_ok_def ParseMessageType_None)

lemma length_SerializeHeader [simp]: "length (SerializeHeader h) = kIpcHeaderSize"
  by (simp add: SerializeHeader_def kIpcHeaderSize_def)

definition decode :: "u8 list \<Rightarrow> IpcHeader" where
  "decode bytes =
     \<lparr>magic = ReadU32LE bytes 0, version = bytes ! 4, mtype = bytes ! 5,
      reserved = ucast (bytes ! 6) OR push_bit 8 (ucast (bytes ! 7)),
      payloadLength = ReadU32LE bytes 8, requestId = ReadU32LE bytes 12\<rparr>"

lemma decode_SerializeHeader: "decode (SerializeHeader h) = h"
  by (cases h) (simp add: decode_def SerializeHeader_def WriteU32LE_list ReadU32LE_bytes
      join_split_u32 [simplified] low_byte_u16 join_split_u16)

lemma list_16:
  assumes "length (bs :: u8 list) = 16"
  shows "bs = [bs!0, bs!1, bs!2, bs!3, bs!4, bs!5, bs!6, bs!7, bs!8, bs!9, bs!10, bs!11, bs!12,
    bs!13, bs!14, bs!15]"
  using assms by (auto simp: list_eq_iff_nth_eq less_Suc_eq numeral_eq_Suc)

lemma SerializeHeader_decode:
  assumes "length bytes = kIpcHeaderSize"
  shows "SerializeHeader (decode bytes) = bytes"
proof -
  obtain a b c d e f g h i j k l m n p q where
    "bytes = [a, b, c, d, e, f, g, h, i, j, k, l, m, n, p, q]"
    using list_16 [of bytes] assms by (metis kIpcHeaderSize_def)
  then show ?thesis
    by (simp add: decode_def SerializeHeader_def WriteU32LE_list ReadU32LE_bytes
        split_join_u32 low_byte_u16 split_join_u16 del: drop_bit_or)
qed

lemma ParseHeader_iff:
  "ParseHeader bytes = Success h \<longleftrightarrow> length bytes = kIpcHeaderSize \<and> h = decode bytes \<and> header_ok h"
  by (auto simp: ParseHeader_def decode_def [symmetric] Let_def ValidateIpcHeader_iff [symmetric]
      split: sum.splits)

text \<open>
  The header parser accepts exactly the 16-byte serialisations of headers with the
  right magic and version, a known type, a zero reserved field and a payload length within
  the limit, and returns the header that was serialised: serialising and parsing are
  inverse in both directions, on all 32-bit field values.\<close>
theorem ParseHeader_inverts_SerializeHeader:
  "ParseHeader bytes = Success h \<longleftrightarrow> bytes = SerializeHeader h \<and> header_ok h"
  unfolding ParseHeader_iff using decode_SerializeHeader SerializeHeader_decode by auto

end
