(* ===== verification/Ipc_Facts.thy ===== *)
theory Ipc_Facts
  imports Ipc_Protocol
begin

text \<open>
  The structured facts payload: \<^verbatim>\<open>include/ipc/ipc_facts.hpp\<close> and
  \<^verbatim>\<open>source/ipc/ipc_facts.cpp\<close>.  A payload is a list of bytes, a text a list of
  characters (one per byte); \<open>BytesFromText\<close> and its inverse are the casts of the code.
\<close>

section \<open>Limits and types\<close>

definition kFactsEnvelopeV1 :: string where "kFactsEnvelopeV1 = ''CPOPFACTS/1''"
definition kFactsTokenKey :: string where "kFactsTokenKey = ''agent_token''"
definition kMaxFactsTokenBytes :: nat where "kMaxFactsTokenBytes = 64"
definition kMaxFactsEntries :: nat where "kMaxFactsEntries = 64"
definition kMaxFactsKeyBytes :: nat where "kMaxFactsKeyBytes = 64"
definition kMaxFactsValueBytes :: nat where "kMaxFactsValueBytes = 128"
definition kFactsSummaryMaxBytes :: nat where "kFactsSummaryMaxBytes = 480"

lemmas facts_limits = kMaxFactsTokenBytes_def kMaxFactsEntries_def kMaxFactsKeyBytes_def
  kMaxFactsValueBytes_def kFactsSummaryMaxBytes_def

record IpcFact =
  fkey :: string
  fval :: string

section \<open>Validation\<close>

definition is_alnum :: "char \<Rightarrow> bool" where
  "is_alnum c \<longleftrightarrow> is_lower c \<or> is_upper c \<or> is_digit c"

definition IsAsciiKeyChar :: "char \<Rightarrow> bool" where
  "IsAsciiKeyChar c \<longleftrightarrow> is_alnum c \<or> c = CHR ''_'' \<or> c = CHR ''-''"

definition is_control :: "char \<Rightarrow> bool" where
  "is_control c \<longleftrightarrow> (of_char c :: nat) < 0x20 \<or> (of_char c :: nat) = 0x7F"

definition HasControlByte :: "string \<Rightarrow> bool" where
  "HasControlByte s = list_ex is_control s"

definition byte_of :: "char \<Rightarrow> u8" where
  "byte_of c = of_nat (of_char c)"

definition char_of_byte :: "u8 \<Rightarrow> char" where
  "char_of_byte b = char_of (unat b)"

definition BytesFromText :: "string \<Rightarrow> u8 list" where
  "BytesFromText s = map byte_of s"

definition ValidateKey :: "string \<Rightarrow> string option" where
  "ValidateKey k =
     (if k = [] then Some ''empty key''
      else if length k > kMaxFactsKeyBytes then Some ''key over the length limit''
      else if HasControlByte k then Some ''key has a control character''
      else if list_ex (\<lambda>c. \<not> IsAsciiKeyChar c) k then Some ''key has an illegal character''
      else None)"

definition ValidateValue :: "string \<Rightarrow> string option" where
  "ValidateValue v =
     (if length v > kMaxFactsValueBytes then Some ''value over the length limit''
      else if HasControlByte v then Some ''value has a control character''
      else None)"

fun validate_from :: "IpcFact list \<Rightarrow> IpcFact list \<Rightarrow> string option" where
  "validate_from seen [] = None"
| "validate_from seen (f # fs) =
     (case ValidateKey (fkey f) of
        Some e \<Rightarrow> Some e
      | None \<Rightarrow>
          (case ValidateValue (fval f) of
             Some e \<Rightarrow> Some e
           | None \<Rightarrow>
               if list_ex (\<lambda>g. fkey g = fkey f) seen then Some (''duplicate key '' @ fkey f)
               else validate_from (seen @ [f]) fs))"

definition ValidateFacts :: "IpcFact list \<Rightarrow> string option" where
  "ValidateFacts fs =
     (if length fs > kMaxFactsEntries then Some ''too many facts'' else validate_from [] fs)"

text \<open>
  The 64-bit accumulator cannot overflow: it is at most \<open>UINT32_MAX\<close> before each step.
\<close>

fun parse_u32_acc :: "u64 \<Rightarrow> string \<Rightarrow> u32 option" where
  "parse_u32_acc acc [] = Some (ucast acc)"
| "parse_u32_acc acc (c # s) =
     (if \<not> is_digit c then None
      else let acc' = acc * 10 + of_nat (digit_val c)
           in if acc' > 0xFFFFFFFF then None else parse_u32_acc acc' s)"

definition ParseUint32 :: "string \<Rightarrow> u32 option" where
  "ParseUint32 s = (if s = [] then None else parse_u32_acc 0 s)"

definition FactsValidationError :: "string \<Rightarrow> Error" where
  "FactsValidationError msg = Error_Validation ''FactsV1'' msg"

section \<open>Parsing and serialising\<close>

text \<open>The splitting loop: a carriage return anywhere rejects the payload.\<close>

fun split_lines :: "string \<Rightarrow> string \<Rightarrow> string list option" where
  "split_lines cur [] = Some [rev cur]"
| "split_lines cur (c # s) =
     (if c = CR then None
      else if c = LF then map_option ((#) (rev cur)) (split_lines [] s)
      else split_lines (c # cur) s)"

fun parse_facts :: "IpcFact list \<Rightarrow> string list \<Rightarrow> IpcFact list result" where
  "parse_facts facts [] = Success facts"
| "parse_facts facts (line # ls) =
     (if length facts \<ge> kMaxFactsEntries then Failure (FactsValidationError ''too many facts'')
      else case split_first (CHR ''='') line of
             None \<Rightarrow> Failure (FactsValidationError ''fact line without ='')
           | Some (k, v) \<Rightarrow>
               (case ValidateKey k of
                  Some e \<Rightarrow> Failure (FactsValidationError e)
                | None \<Rightarrow>
                    (case ValidateValue v of
                       Some e \<Rightarrow> Failure (FactsValidationError e)
                     | None \<Rightarrow>
                         if list_ex (\<lambda>g. fkey g = k) facts
                         then Failure (FactsValidationError ''duplicate key'')
                         else parse_facts (facts @ [\<lparr>fkey = k, fval = v\<rparr>]) ls)))"

definition ParseFactsV1 :: "u8 list \<Rightarrow> IpcFact list result" where
  "ParseFactsV1 payload =
     (if payload = [] then Failure (FactsValidationError ''empty payload'')
      else case split_lines [] (map char_of_byte payload) of
             None \<Rightarrow> Failure (FactsValidationError ''payload has a CR'')
           | Some lines \<Rightarrow>
               if list_ex (\<lambda>l. l = []) lines
               then Failure (FactsValidationError ''payload has an empty line or a trailing newline'')
               else if hd lines \<noteq> kFactsEnvelopeV1
               then Failure (FactsValidationError ''first line must be the envelope CPOPFACTS/1'')
               else parse_facts [] (tl lines))"

definition fact_line :: "IpcFact \<Rightarrow> string" where
  "fact_line f = fkey f @ CHR ''='' # fval f"

definition facts_text :: "IpcFact list \<Rightarrow> string" where
  "facts_text fs = kFactsEnvelopeV1 @ concat (map (\<lambda>f. LF # fact_line f) fs)"

definition SerializeFactsV1 :: "IpcFact list \<Rightarrow> u8 list result" where
  "SerializeFactsV1 fs =
     (case ValidateFacts fs of
        Some e \<Rightarrow> Failure (FactsValidationError e)
      | None \<Rightarrow> Success (BytesFromText (facts_text fs)))"

section \<open>Summary and access\<close>

text \<open>A blank and the three UTF-8 bytes of the ellipsis character.\<close>

definition ellipsis :: string where
  "ellipsis = [CHR '' '', CHR 0xE2, CHR 0x80, CHR 0xA6]"

definition echoable :: "IpcFact \<Rightarrow> bool" where
  "echoable f \<longleftrightarrow> fkey f \<noteq> kFactsTokenKey"

fun summary_loop :: "string \<Rightarrow> IpcFact list \<Rightarrow> string" where
  "summary_loop out [] = out"
| "summary_loop out (f # fs) =
     (if \<not> echoable f then summary_loop out fs
      else let entry = CHR '' '' # fact_line f
           in if length out + length entry + 3 > kFactsSummaryMaxBytes then out @ ellipsis
              else if fs = [] then out @ entry
              else summary_loop (out @ entry) fs)"

definition FormatFactsSummary :: "IpcFact list \<Rightarrow> string" where
  "FormatFactsSummary fs =
     (let n = length (filter echoable fs);
          out = ''facts ok ('' @ dec_of_nat n @ '')''
      in if n = 0 then out else summary_loop (out @ '':'') fs)"

fun NumericFactValue :: "IpcFact list \<Rightarrow> string \<Rightarrow> u32 option" where
  "NumericFactValue [] k = None"
| "NumericFactValue (f # fs) k =
     (if fkey f \<noteq> k then NumericFactValue fs k else ParseUint32 (fval f))"

section \<open>The key registry\<close>

record schema_state =
  hasNonCredential :: bool
  totalMb :: "u32 option"
  availableMb :: "u32 option"

definition known_numeric :: "string \<Rightarrow> bool" where
  "known_numeric k \<longleftrightarrow>
     k = ''client_pid'' \<or> k = ''memory_total_mb'' \<or> k = ''memory_available_mb'' \<or>
     k = ''memory_load_percent'' \<or> k = ''user_idle_seconds'' \<or> k = ''foreground_pid''"

definition schema_numeric :: "schema_state \<Rightarrow> IpcFact \<Rightarrow> u32 \<Rightarrow> schema_state result" where
  "schema_numeric st f n =
     (let st = st\<lparr>hasNonCredential := True\<rparr>
      in if fkey f = ''memory_total_mb'' then
           (if n = 0 then Failure (FactsValidationError ''memory_total_mb must be >= 1'')
            else Success (st\<lparr>totalMb := Some n\<rparr>))
         else if fkey f = ''memory_available_mb'' then Success (st\<lparr>availableMb := Some n\<rparr>)
         else if fkey f = ''memory_load_percent'' \<and> n > 100
           then Failure (FactsValidationError ''memory_load_percent must be 0..100'')
         else if fkey f = ''foreground_pid'' \<and> n = 0
           then Failure (FactsValidationError ''foreground_pid must be >= 1'')
         else Success st)"

definition schema_fact :: "schema_state \<Rightarrow> IpcFact \<Rightarrow> schema_state result" where
  "schema_fact st f =
     (if fkey f = ''agent_token'' then
        (if fval f = [] \<or> length (fval f) > kMaxFactsTokenBytes
           then Failure (FactsValidationError ''agent_token length must be 1..64'')
         else if list_ex (\<lambda>c. \<not> is_alnum c \<and> c \<noteq> CHR ''_'' \<and> c \<noteq> CHR ''-'') (fval f)
           then Failure (FactsValidationError ''agent_token has an illegal character'')
         else Success st)
      else if fkey f = ''observer'' then
        (if fval f = [] then Failure (FactsValidationError ''observer must not be empty'')
         else Success (st\<lparr>hasNonCredential := True\<rparr>))
      else if \<not> known_numeric (fkey f)
        then Failure (FactsValidationError (''unknown fact key: '' @ fkey f))
      else case ParseUint32 (fval f) of
             None \<Rightarrow> Failure (FactsValidationError
               (''key '' @ fkey f @ '' must be an unsigned decimal integer''))
           | Some n \<Rightarrow> schema_numeric st f n)"

fun schema_loop :: "schema_state \<Rightarrow> IpcFact list \<Rightarrow> schema_state result" where
  "schema_loop st [] = Success st"
| "schema_loop st (f # fs) =
     (case schema_fact st f of Inl e \<Rightarrow> Failure e | Inr st' \<Rightarrow> schema_loop st' fs)"

definition ValidateFactsV1Schema :: "IpcFact list \<Rightarrow> unit result" where
  "ValidateFactsV1Schema fs =
     (case schema_loop \<lparr>hasNonCredential = False, totalMb = None, availableMb = None\<rparr> fs of
        Inl e \<Rightarrow> Failure e
      | Inr st \<Rightarrow>
          if (case (totalMb st, availableMb st) of (Some t, Some a) \<Rightarrow> a > t | _ \<Rightarrow> False)
          then Failure (FactsValidationError ''memory_available_mb must not exceed memory_total_mb'')
          else if \<not> hasNonCredential st
          then Failure (FactsValidationError ''no non-credential fact'')
          else Success ())"

section \<open>Bytes and lines\<close>

lemma char_of_byte_byte_of [simp]: "char_of_byte (byte_of c) = c"
  by (simp add: char_of_byte_def byte_of_def unat_of_nat)

lemma byte_of_char_of_byte [simp]: "byte_of (char_of_byte b) = b"
  using unsigned_less [of b, where 'a = nat] by (simp add: char_of_byte_def byte_of_def)

lemma map_char_of_BytesFromText [simp]: "map char_of_byte (BytesFromText s) = s"
  by (simp add: BytesFromText_def comp_def)

lemma BytesFromText_map_char_of [simp]: "BytesFromText (map char_of_byte p) = p"
  by (simp add: BytesFromText_def comp_def)

text \<open>Lines joined by single newlines.\<close>

fun join_lines :: "string list \<Rightarrow> string" where
  "join_lines [] = []"
| "join_lines [l] = l"
| "join_lines (l # ls) = l @ LF # join_lines ls"

definition line_ok :: "string \<Rightarrow> bool" where
  "line_ok l \<longleftrightarrow> LF \<notin> set l \<and> CR \<notin> set l"

lemma split_lines_plain: "line_ok l \<Longrightarrow> split_lines cur (l @ s) = split_lines (rev l @ cur) s"
  by (induction l arbitrary: cur) (auto simp: line_ok_def)

lemma split_lines_join:
  "ls \<noteq> [] \<Longrightarrow> \<forall>l \<in> set ls. line_ok l \<Longrightarrow> split_lines [] (join_lines ls) = Some ls"
proof (induction ls rule: join_lines.induct)
  case (2 l)
  then show ?case using split_lines_plain [of l "[]" "[]"] by simp
next
  case (3 l k ks)
  then show ?case by (simp add: split_lines_plain)
qed simp

lemma split_lines_Some:
  "split_lines cur s = Some ls \<Longrightarrow> line_ok cur \<Longrightarrow>
   ls \<noteq> [] \<and> rev cur @ s = join_lines ls \<and> (\<forall>l \<in> set ls. line_ok l)"
proof (induction cur s arbitrary: ls rule: split_lines.induct)
  case (2 cur c s)
  show ?case
  proof (cases "c = LF")
    case True
    with "2.prems" obtain ks where ks: "split_lines [] s = Some ks" and ls: "ls = rev cur # ks"
      by (auto split: if_splits)
    from "2.IH"(1) [OF _ True ks] True have "ks \<noteq> []" "s = join_lines ks" "\<forall>l \<in> set ks. line_ok l"
      by (auto simp: line_ok_def)
    moreover from this obtain k ks' where "ks = k # ks'" by (cases ks) auto
    moreover have "line_ok (rev cur)" using "2.prems"(2) by (simp add: line_ok_def)
    ultimately show ?thesis by (simp add: ls True)
  next
    case False
    with "2.prems"(1) have c: "c \<noteq> CR" and s: "split_lines (c # cur) s = Some ls"
      by (auto split: if_splits)
    with False "2.prems"(2) have "line_ok (c # cur)" by (simp add: line_ok_def)
    from "2.IH"(2) [OF c False s this] show ?thesis by simp
  qed
qed (auto simp: line_ok_def)

lemma facts_text_join: "facts_text fs = join_lines (kFactsEnvelopeV1 # map fact_line fs)"
proof -
  have "join_lines (l # map fact_line fs) = l @ concat (map (\<lambda>f. LF # fact_line f) fs)" for l
    by (induction fs arbitrary: l) auto
  then show ?thesis by (simp add: facts_text_def)
qed

section \<open>Parse and serialise are inverse\<close>

definition fact_ok :: "IpcFact \<Rightarrow> bool" where
  "fact_ok f \<longleftrightarrow> ValidateKey (fkey f) = None \<and> ValidateValue (fval f) = None"

definition facts_ok :: "IpcFact list \<Rightarrow> bool" where
  "facts_ok fs \<longleftrightarrow> length fs \<le> kMaxFactsEntries \<and> list_all fact_ok fs \<and> distinct (map fkey fs)"

lemma list_ex_key [simp]: "list_ex (\<lambda>g. fkey g = k) fs \<longleftrightarrow> k \<in> fkey ` set fs"
  by (induction fs) auto

lemma validate_from_None:
  "validate_from seen fs = None \<longleftrightarrow>
     list_all fact_ok fs \<and> distinct (map fkey fs) \<and> set (map fkey fs) \<inter> set (map fkey seen) = {}"
proof (induction fs arbitrary: seen)
  case (Cons f fs)
  then show ?case
    by (auto simp: fact_ok_def split: option.splits)
qed simp

lemma ValidateFacts_None: "ValidateFacts fs = None \<longleftrightarrow> facts_ok fs"
  by (auto simp: ValidateFacts_def facts_ok_def validate_from_None)

lemma fact_ok_key: "fact_ok f \<Longrightarrow> c \<in> set (fkey f) \<Longrightarrow> IsAsciiKeyChar c \<and> \<not> is_control c"
  by (auto simp: fact_ok_def ValidateKey_def HasControlByte_def list_ex_iff split: if_splits)

lemma fact_ok_value: "fact_ok f \<Longrightarrow> c \<in> set (fval f) \<Longrightarrow> \<not> is_control c"
  by (auto simp: fact_ok_def ValidateValue_def HasControlByte_def list_ex_iff split: if_splits)

lemma control_LF_CR: "is_control LF" "is_control CR"
  by (simp_all add: is_control_def)

lemma fact_ok_line: "fact_ok f \<Longrightarrow> line_ok (fact_line f)"
  using fact_ok_key [of f] fact_ok_value [of f] control_LF_CR
  by (auto simp: line_ok_def fact_line_def)

lemma fact_line_ne [simp]: "fact_line f \<noteq> []" "[] \<noteq> fact_line f"
  by (simp_all add: fact_line_def)

lemma fact_ok_split: "fact_ok f \<Longrightarrow> split_first (CHR ''='') (fact_line f) = Some (fkey f, fval f)"
  unfolding fact_line_def using fact_ok_key [of f "CHR ''=''"]
  by (intro split_first_append)
    (auto simp: IsAsciiKeyChar_def is_alnum_def is_lower_def is_upper_def is_digit_def)

text \<open>One accepted line: it is the line of a valid fact with a new key.\<close>

lemma parse_facts_Cons:
  "parse_facts acc (line # ls) = Success fs \<longleftrightarrow>
     length acc < kMaxFactsEntries \<and>
     (\<exists>f. line = fact_line f \<and> fact_ok f \<and> fkey f \<notin> set (map fkey acc) \<and>
          parse_facts (acc @ [f]) ls = Success fs)" (is "?L \<longleftrightarrow> ?R")
proof
  assume ?L
  then obtain k v where l: "length acc < kMaxFactsEntries"
    and sp: "split_first (CHR ''='') line = Some (k, v)"
    and k: "ValidateKey k = None" and v: "ValidateValue v = None"
    and n: "\<not> list_ex (\<lambda>g. fkey g = k) acc"
    and p: "parse_facts (acc @ [\<lparr>fkey = k, fval = v\<rparr>]) ls = Success fs"
    by (auto split: if_splits option.splits)
  let ?f = "\<lparr>fkey = k, fval = v\<rparr>"
  from split_first_Some [OF sp] have "line = fact_line ?f" by (simp add: fact_line_def)
  moreover from k v have "fact_ok ?f" by (simp add: fact_ok_def)
  moreover from n have "fkey ?f \<notin> set (map fkey acc)" by simp
  ultimately show ?R using l p by blast
next
  assume ?R
  then obtain f where "line = fact_line f" "fact_ok f" "fkey f \<notin> set (map fkey acc)"
    "parse_facts (acc @ [f]) ls = Success fs" "length acc < kMaxFactsEntries" by blast
  moreover from \<open>fact_ok f\<close> have "ValidateKey (fkey f) = None" "ValidateValue (fval f) = None"
    by (simp_all add: fact_ok_def)
  ultimately show ?L by (cases f) (auto simp: fact_ok_split)
qed

lemma parse_facts_iff:
  "facts_ok acc \<Longrightarrow> parse_facts acc ls = Success fs \<longleftrightarrow>
     (\<exists>new. fs = acc @ new \<and> ls = map fact_line new \<and> facts_ok fs)"
proof (induction ls arbitrary: acc)
  case (Cons line ls)
  show ?case (is "?L \<longleftrightarrow> ?R")
  proof
    assume ?L
    then obtain f where f: "line = fact_line f" "fact_ok f" "fkey f \<notin> set (map fkey acc)"
      and len: "length acc < kMaxFactsEntries" and p: "parse_facts (acc @ [f]) ls = Success fs"
      unfolding parse_facts_Cons by blast
    have "facts_ok (acc @ [f])" using Cons.prems f len by (auto simp: facts_ok_def)
    with Cons.IH p obtain new where "fs = (acc @ [f]) @ new" "ls = map fact_line new" "facts_ok fs"
      by blast
    with f show ?R by (intro exI [of _ "f # new"]) simp
  next
    assume ?R
    then obtain f new where f: "fs = acc @ f # new" "line = fact_line f" "ls = map fact_line new"
      and ok: "facts_ok fs" by auto
    from ok f have "facts_ok (acc @ [f])" by (auto simp: facts_ok_def)
    moreover from this Cons.IH f ok have "parse_facts (acc @ [f]) ls = Success fs" by auto
    ultimately show ?L using f unfolding parse_facts_Cons facts_ok_def by auto
  qed
qed (auto simp: facts_ok_def)

lemma SerializeFactsV1_iff:
  "SerializeFactsV1 fs = Success p \<longleftrightarrow> facts_ok fs \<and> p = BytesFromText (facts_text fs)"
  by (auto simp: SerializeFactsV1_def ValidateFacts_None [symmetric] split: option.splits)

lemma envelope_line_ok: "line_ok kFactsEnvelopeV1" "kFactsEnvelopeV1 \<noteq> []"
  by (simp_all add: kFactsEnvelopeV1_def line_ok_def)

lemma facts_ok_Nil: "facts_ok []"
  by (simp add: facts_ok_def)

lemma ParseFactsV1_text:
  assumes "facts_ok fs"
  shows "ParseFactsV1 (BytesFromText (facts_text fs)) = Success fs"
proof -
  let ?ls = "kFactsEnvelopeV1 # map fact_line fs"
  from assms have "\<forall>l \<in> set ?ls. line_ok l"
    using fact_ok_line envelope_line_ok by (auto simp: facts_ok_def list_all_iff)
  then have "split_lines [] (facts_text fs) = Some ?ls"
    unfolding facts_text_join by (intro split_lines_join) simp_all
  moreover have "facts_text fs \<noteq> []" using envelope_line_ok by (simp add: facts_text_def)
  moreover have "parse_facts [] (map fact_line fs) = Success fs"
    using parse_facts_iff [OF facts_ok_Nil, of "map fact_line fs" fs] assms by simp
  ultimately show ?thesis
    using envelope_line_ok by (auto simp: ParseFactsV1_def BytesFromText_def list_ex_iff comp_def)
qed

lemma ParseFactsV1_Success:
  assumes "ParseFactsV1 p = Success fs"
  shows "facts_ok fs \<and> p = BytesFromText (facts_text fs)"
proof -
  from assms obtain ls where sp: "split_lines [] (map char_of_byte p) = Some ls"
    and h: "hd ls = kFactsEnvelopeV1" and pf: "parse_facts [] (tl ls) = Success fs"
    by (auto simp: ParseFactsV1_def split: if_splits option.splits)
  from split_lines_Some [OF sp] have ls: "ls \<noteq> []" "map char_of_byte p = join_lines ls"
    by (simp_all add: line_ok_def)
  from pf have tl: "tl ls = map fact_line fs" and ok: "facts_ok fs"
    using parse_facts_iff [OF facts_ok_Nil] by auto
  from ls h tl have "ls = kFactsEnvelopeV1 # map fact_line fs" by (metis list.collapse)
  with ls have "map char_of_byte p = facts_text fs" by (simp add: facts_text_join)
  then show ?thesis using ok by (metis BytesFromText_map_char_of)
qed

text \<open>
  The facts parser and the serialiser are inverse: a payload parses to a list of facts
  exactly when that list serialises to that payload, so every accepted payload has one
  reading, every reading one payload, and nothing outside the documented limits (number of
  facts, key and value lengths, character sets, distinct keys) is accepted.\<close>
theorem ParseFactsV1_inverts_SerializeFactsV1:
  "(ParseFactsV1 p = Success fs \<longleftrightarrow> SerializeFactsV1 fs = Success p) \<and>
   (SerializeFactsV1 fs = Success p \<longleftrightarrow> facts_ok fs \<and> p = BytesFromText (facts_text fs))"
  using ParseFactsV1_text [of fs] ParseFactsV1_Success [of p fs] SerializeFactsV1_iff [of fs p]
  by metis

section \<open>The summary\<close>

lemma summary_loop_filter: "summary_loop out fs = summary_loop out (filter echoable fs)"
proof (induction fs arbitrary: out)
  case (Cons f fs)
  show ?case
  proof (cases "echoable f")
    case True
    have "filter echoable fs = [] \<Longrightarrow> summary_loop o' fs = o'" for o'
      by (induction fs) auto
    with True Cons show ?thesis by (auto simp: Let_def)
  qed (use Cons in simp)
qed simp

lemma summary_loop_length:
  "length out \<le> kFactsSummaryMaxBytes - 3 \<Longrightarrow> length (summary_loop out fs) \<le> kFactsSummaryMaxBytes + 1"
  by (induction out fs rule: summary_loop.induct) (auto simp: facts_limits ellipsis_def Let_def)

lemma length_dec_of_nat_small: "n < 1000 \<Longrightarrow> length (dec_of_nat n) \<le> 3"
proof -
  assume "n < 1000"
  then have "n div 10 < 100" "n div 10 div 10 < 10" by auto
  then show ?thesis
    by (subst dec_of_nat.simps, subst dec_of_nat.simps, subst dec_of_nat.simps) simp
qed

lemma FormatFactsSummary_length:
  assumes "length fs \<le> kMaxFactsEntries"
  shows "length (FormatFactsSummary fs) \<le> kFactsSummaryMaxBytes + 1"
proof -
  let ?n = "length (filter echoable fs)"
  have "?n \<le> 64"
    using assms le_trans [OF length_filter_le [of echoable fs]] by (simp add: facts_limits)
  then have "length (dec_of_nat ?n) \<le> 3" by (intro length_dec_of_nat_small) simp
  then show ?thesis
    unfolding FormatFactsSummary_def Let_def
    using summary_loop_length [of "''facts ok ('' @ dec_of_nat ?n @ '')'' @ '':''" fs]
    by (auto simp: facts_limits dec_of_nat.simps [of 0])
qed

text \<open>
  The summary that is echoed to clients and logs does not depend on the session
  credential: removing every \<open>agent_token\<close> fact gives the same text.  Its length is at
  most 481 bytes for every list the parser accepts.\<close>
theorem FormatFactsSummary_hides_token:
  assumes "length fs \<le> kMaxFactsEntries"
  shows "FormatFactsSummary fs = FormatFactsSummary (filter (\<lambda>f. fkey f \<noteq> kFactsTokenKey) fs) \<and>
    length (FormatFactsSummary fs) \<le> kFactsSummaryMaxBytes + 1"
proof
  have e: "(\<lambda>f. fkey f \<noteq> kFactsTokenKey) = echoable" by (simp add: echoable_def fun_eq_iff)
  show "FormatFactsSummary fs = FormatFactsSummary (filter (\<lambda>f. fkey f \<noteq> kFactsTokenKey) fs)"
    unfolding e FormatFactsSummary_def Let_def by (subst summary_loop_filter) simp
  show "length (FormatFactsSummary fs) \<le> kFactsSummaryMaxBytes + 1"
    by (rule FormatFactsSummary_length [OF assms])
qed

theorem FormatFactsSummary_hides_token_witness:
  "FormatFactsSummary [\<lparr>fkey = ''client_pid'', fval = ''7''\<rparr>, \<lparr>fkey = ''agent_token'', fval = ''secret''\<rparr>]
     = ''facts ok (1): client_pid=7''"
proof -
  let ?fs = "[\<lparr>fkey = ''client_pid'', fval = ''7''\<rparr>, \<lparr>fkey = ''agent_token'', fval = ''secret''\<rparr>]"
  have "FormatFactsSummary ?fs = FormatFactsSummary (filter (\<lambda>f. fkey f \<noteq> kFactsTokenKey) ?fs)"
    using FormatFactsSummary_hides_token [of ?fs] by (simp add: facts_limits)
  also have "\<dots> = ''facts ok (1): client_pid=7''" by code_simp
  finally show ?thesis .
qed

text \<open>
  The summary limit is missed by one byte: three bytes are reserved for the marker of
  a cut summary, which has four, so there are facts the parser accepts whose summary has
  481 bytes.\<close>
theorem FormatFactsSummary_exceeds_limit:
  "let big = (\<lambda>k n. \<lparr>fkey = [k], fval = replicate n (CHR ''x'')\<rparr>);
       fs = [big (CHR ''a'') 128, big (CHR ''b'') 128, big (CHR ''c'') 128, big (CHR ''d'') 68,
             big (CHR ''e'') 1]
   in facts_ok fs \<and> length (FormatFactsSummary fs) = kFactsSummaryMaxBytes + 1"
  by code_simp

section \<open>What the registry check guarantees\<close>

lemma parse_u32_acc_iff:
  "unat acc \<le> 4294967295 \<Longrightarrow> parse_u32_acc acc s = Some v \<longleftrightarrow>
     list_all is_digit s \<and> dec_val (unat acc) s \<le> 4294967295 \<and> unat v = dec_val (unat acc) s"
proof (induction acc s rule: parse_u32_acc.induct)
  case (1 acc)
  then have "unat (ucast acc :: u32) = unat acc"
    by (simp add: unsigned_ucast_eq take_bit_nat_eq_self_iff)
  with 1 show ?case by (auto simp: word_unat_eq_iff)
next
  case (2 acc c s)
  let ?a = "acc * 10 + of_nat (digit_val c)"
  show ?case
  proof (cases "is_digit c")
    case True
    then have "digit_val c < 10" by (rule digit_val_less)
    with "2.prems" have u: "unat ?a = unat acc * 10 + digit_val c"
      by (simp add: unat_word_ariths unat_of_nat)
    have gt: "?a > 0xFFFFFFFF \<longleftrightarrow> unat ?a > 4294967295" by (simp add: word_less_nat_alt)
    show ?thesis
    proof (cases "unat ?a > 4294967295")
      case True
      then have "dec_val (unat ?a) s > 4294967295" using dec_val_ge [of "unat ?a" s] by linarith
      with True gt u \<open>is_digit c\<close> show ?thesis by (auto simp: Let_def)
    next
      case False
      with gt u \<open>is_digit c\<close> "2.IH" [of ?a] show ?thesis by (simp add: Let_def)
    qed
  qed simp
qed

lemma ParseUint32_iff:
  "ParseUint32 s = Some v \<longleftrightarrow> s \<noteq> [] \<and> list_all is_digit s \<and> unat v = dec_val 0 s"
  using parse_u32_acc_iff [of 0 s v] unat_u32_less [of v] by (auto simp: ParseUint32_def)

text \<open>The documented registry, key by key.\<close>

definition fact_registered :: "IpcFact \<Rightarrow> bool" where
  "fact_registered f \<longleftrightarrow>
     (if fkey f = kFactsTokenKey
      then fval f \<noteq> [] \<and> length (fval f) \<le> kMaxFactsTokenBytes \<and> list_all IsAsciiKeyChar (fval f)
      else if fkey f = ''observer'' then fval f \<noteq> []
      else known_numeric (fkey f) \<and>
        (case ParseUint32 (fval f) of
           None \<Rightarrow> False
         | Some n \<Rightarrow>
             (fkey f = ''memory_total_mb'' \<or> fkey f = ''foreground_pid'' \<longrightarrow> 1 \<le> unat n) \<and>
             (fkey f = ''memory_load_percent'' \<longrightarrow> unat n \<le> 100)))"

definition schema_upd :: "schema_state \<Rightarrow> IpcFact \<Rightarrow> schema_state" where
  "schema_upd st f =
     \<lparr>hasNonCredential = (hasNonCredential st \<or> fkey f \<noteq> kFactsTokenKey),
      totalMb = (if fkey f = ''memory_total_mb'' then ParseUint32 (fval f) else totalMb st),
      availableMb = (if fkey f = ''memory_available_mb'' then ParseUint32 (fval f) else availableMb st)\<rparr>"

lemma u32_zero_or_pos: "(n :: u32) = 0 \<longleftrightarrow> \<not> 1 \<le> unat n"
  by (auto simp: word_unat_eq_iff)

lemma u32_over_100: "(n :: u32) > 100 \<longleftrightarrow> \<not> unat n \<le> 100"
  by (auto simp: word_less_nat_alt)

lemma schema_fact_iff: "schema_fact st f = Success st' \<longleftrightarrow> fact_registered f \<and> st' = schema_upd st f"
proof -
  consider "fkey f = kFactsTokenKey" | "fkey f = ''observer''" | "known_numeric (fkey f)"
    | "fkey f \<noteq> kFactsTokenKey" "fkey f \<noteq> ''observer''" "\<not> known_numeric (fkey f)"
    by blast
  then show ?thesis
  proof cases
    case 1
    then show ?thesis
      by (cases st) (auto simp: schema_fact_def fact_registered_def schema_upd_def kFactsTokenKey_def
          list_ex_iff list_all_iff IsAsciiKeyChar_def)
  next
    case 2
    then show ?thesis
      by (cases st) (auto simp: schema_fact_def fact_registered_def schema_upd_def kFactsTokenKey_def)
  next
    case 3
    then have "fkey f \<noteq> kFactsTokenKey" "fkey f \<noteq> ''observer''"
      by (auto simp: known_numeric_def kFactsTokenKey_def)
    with 3 show ?thesis
      by (cases st) (auto simp: schema_fact_def fact_registered_def schema_upd_def schema_numeric_def
          kFactsTokenKey_def u32_zero_or_pos u32_over_100 Let_def split: option.splits)
  next
    case 4
    then show ?thesis by (simp add: schema_fact_def fact_registered_def kFactsTokenKey_def)
  qed
qed

lemma schema_loop_iff:
  "schema_loop st fs = Success st' \<longleftrightarrow> list_all fact_registered fs \<and> st' = foldl schema_upd st fs"
proof (induction fs arbitrary: st)
  case (Cons f fs)
  show ?case
  proof (cases "schema_fact st f")
    case (Inl e)
    then have "\<not> fact_registered f" using schema_fact_iff [of st f "schema_upd st f"] by auto
    with Inl show ?thesis by simp
  next
    case (Inr st1)
    with Cons schema_fact_iff [of st f st1] show ?thesis by auto
  qed
qed auto

lemma NumericFactValue_notin: "k \<notin> set (map fkey fs) \<Longrightarrow> NumericFactValue fs k = None"
  by (induction fs) auto

lemma foldl_schema_upd:
  assumes "distinct (map fkey fs)" and "list_all fact_registered fs"
  shows "hasNonCredential (foldl schema_upd st fs) \<longleftrightarrow>
      hasNonCredential st \<or> (\<exists>f \<in> set fs. fkey f \<noteq> kFactsTokenKey)" (is ?H)
    and "totalMb (foldl schema_upd st fs) =
      (if ''memory_total_mb'' \<in> set (map fkey fs) then NumericFactValue fs ''memory_total_mb''
       else totalMb st)" (is ?T)
    and "availableMb (foldl schema_upd st fs) =
      (if ''memory_available_mb'' \<in> set (map fkey fs) then NumericFactValue fs ''memory_available_mb''
       else availableMb st)" (is ?A)
proof -
  show ?H by (induction fs arbitrary: st) (auto simp: schema_upd_def)
  show ?T using assms(1) by (induction fs arbitrary: st) (auto simp: schema_upd_def)
  show ?A using assms(1) by (induction fs arbitrary: st) (auto simp: schema_upd_def)
qed

text \<open>
  On parsed facts (distinct keys) the registry check accepts exactly the documented
  snapshots: every fact is registered with a value in its range (token alphabet and
  length, observer not empty, decimal 32-bit numbers, total memory and foreground process
  at least 1, load at most 100), available memory does not exceed total memory when both
  are given, and at least one fact is not a credential.\<close>
theorem ValidateFactsV1Schema_exact:
  assumes "distinct (map fkey fs)"
  shows "ValidateFactsV1Schema fs = Success () \<longleftrightarrow>
    list_all fact_registered fs \<and> (\<exists>f \<in> set fs. fkey f \<noteq> kFactsTokenKey) \<and>
    (\<forall>t a. NumericFactValue fs ''memory_total_mb'' = Some t \<and>
           NumericFactValue fs ''memory_available_mb'' = Some a \<longrightarrow> a \<le> t)"
proof (cases "list_all fact_registered fs")
  case True
  let ?init = "\<lparr>hasNonCredential = False, totalMb = None, availableMb = None\<rparr>"
  let ?fin = "foldl schema_upd ?init fs"
  note f = foldl_schema_upd [OF assms True, of ?init]
  have t: "totalMb ?fin = NumericFactValue fs ''memory_total_mb''"
    using f(2) NumericFactValue_notin [of "''memory_total_mb''" fs] by (auto split: if_splits)
  have a: "availableMb ?fin = NumericFactValue fs ''memory_available_mb''"
    using f(3) NumericFactValue_notin [of "''memory_available_mb''" fs] by (auto split: if_splits)
  have "schema_loop ?init fs = Success ?fin" using True schema_loop_iff by blast
  then show ?thesis
    using True f(1)
    by (auto simp: ValidateFactsV1Schema_def t a linorder_not_less split: option.splits)
next
  case False
  then show ?thesis
    using schema_loop_iff [of _ fs]
    by (auto simp: ValidateFactsV1Schema_def split: sum.splits)
qed

theorem ValidateFactsV1Schema_exact_witness:
  "ValidateFactsV1Schema [\<lparr>fkey = ''memory_total_mb'', fval = ''8192''\<rparr>,
     \<lparr>fkey = ''memory_available_mb'', fval = ''9000''\<rparr>] \<noteq> Success ()"
proof -
  let ?fs = "[\<lparr>fkey = ''memory_total_mb'', fval = ''8192''\<rparr>,
     \<lparr>fkey = ''memory_available_mb'', fval = ''9000''\<rparr>]"
  have "NumericFactValue ?fs ''memory_total_mb'' = Some 8192"
    "NumericFactValue ?fs ''memory_available_mb'' = Some 9000" by code_simp+
  moreover have "\<not> (9000 :: u32) \<le> 8192" by simp
  ultimately show ?thesis using ValidateFactsV1Schema_exact [of ?fs] by auto
qed

end
