(* ===== verification/Ipc_Session.thy ===== *)
theory Ipc_Session
  imports Ipc_Facts
begin

text \<open>
  The server and client ends of a pipe session: \<^verbatim>\<open>include/ipc/ipc_session.hpp\<close> and
  \<^verbatim>\<open>source/ipc/ipc_session.cpp\<close>.  The transport (\<open>IpcServerBackend\<close>,
  \<open>IpcClientBackend\<close>) is a record of functions on a state \<open>'s\<close> that stands for the pipe,
  the peer and the monotonic clock; times are milliseconds.  Beside that state the server
  model keeps a log of the calls that matter for the properties: handler calls, frames
  written, disconnects, closes and verdicts.  The log is only written, never read.

  The frame loop has no bound in the code (a client may send for ever), so it is a
  \<open>partial_function\<close>; that it returns is proved separately, always for \<open>ServeOne\<close> and
  for every client that sends finitely many frames for \<open>ServeSession\<close>.
\<close>

section \<open>Types\<close>

datatype IpcErrorCode =
  InvalidHeader | UnsupportedType | HandlerFailed | InternalError | InvalidFacts
  | UnauthorizedClient | AuthFailed

definition code_byte :: "IpcErrorCode \<Rightarrow> u8" where
  "code_byte c =
     (case c of InvalidHeader \<Rightarrow> 1 | UnsupportedType \<Rightarrow> 3 | HandlerFailed \<Rightarrow> 4 | InternalError \<Rightarrow> 5
      | InvalidFacts \<Rightarrow> 6 | UnauthorizedClient \<Rightarrow> 7 | AuthFailed \<Rightarrow> 8)"

text \<open>
  The text of a code given as the byte of an error reply; a byte outside the enumeration
  reaches the default of the switch.
\<close>

definition IpcErrorCodeToString :: "u8 \<Rightarrow> string" where
  "IpcErrorCodeToString b =
     (if b = code_byte InvalidHeader then ''invalid header''
      else if b = code_byte UnsupportedType then ''unsupported message type''
      else if b = code_byte HandlerFailed then ''handler failed''
      else if b = code_byte InternalError then ''internal error''
      else if b = code_byte InvalidFacts then ''invalid facts payload''
      else if b = code_byte UnauthorizedClient then ''unauthorized client''
      else if b = code_byte AuthFailed then ''authentication failed''
      else ''unknown error'')"

record IpcRequest =
  rq_type :: IpcMessageType
  rq_requestId :: u32
  rq_payload :: "u8 list"
  rq_clientPid :: u32
  rq_clientSessionId :: u32

record IpcReply =
  rp_type :: IpcMessageType
  rp_payload :: "u8 list"

datatype IpcSessionEndReason = ClientClosed | IdleTimeout | SessionBudget

definition IpcSessionEndReasonToString :: "IpcSessionEndReason \<Rightarrow> string" where
  "IpcSessionEndReasonToString r =
     (case r of ClientClosed \<Rightarrow> ''client closed'' | IdleTimeout \<Rightarrow> ''idle timeout''
      | SessionBudget \<Rightarrow> ''session budget'')"

datatype IpcClientVerdict = V_Accepted | V_UnauthorizedClient | V_AuthFailed

record IpcServeResult =
  sr_requestType :: IpcMessageType
  sr_replyType :: IpcMessageType
  sr_requestId :: u32
  sr_clientPid :: u32
  sr_clientSessionId :: u32
  sr_clientUserSid :: wstring
  sr_payloadBytes :: u32
  sr_framesServed :: u32
  sr_endReason :: IpcSessionEndReason

definition default_serve_result :: IpcServeResult where
  "default_serve_result =
     \<lparr>sr_requestType = Ping, sr_replyType = Ack, sr_requestId = 0, sr_clientPid = 0,
      sr_clientSessionId = 0, sr_clientUserSid = [], sr_payloadBytes = 0, sr_framesServed = 1,
      sr_endReason = ClientClosed\<rparr>"

record IpcClientIdentity =
  ci_pid :: u32
  ci_sessionId :: u32
  ci_userSid :: wstring

record IpcOptions =
  op_ioTimeout :: int
  op_clientGate :: "(IpcClientIdentity \<Rightarrow> unit result) option"
  op_persistentAccept :: bool
  op_allowedClientSids :: "wstring list"
  op_expectedToken :: wstring
  op_verdictObserver :: bool

record 's IpcServerBackend =
  sb_CreateAndListen :: "'s \<Rightarrow> unit result \<times> 's"
  sb_AcceptClient :: "int \<Rightarrow> 's \<Rightarrow> unit result \<times> 's"
  sb_ReadAll :: "nat \<Rightarrow> int \<Rightarrow> 's \<Rightarrow> u8 list result \<times> 's"
  sb_WriteAll :: "u8 list \<Rightarrow> int \<Rightarrow> 's \<Rightarrow> unit result \<times> 's"
  sb_DisconnectClient :: "'s \<Rightarrow> unit result \<times> 's"
  sb_Close :: "'s \<Rightarrow> 's"
  sb_ClientPid :: "'s \<Rightarrow> u32"
  sb_ClientSessionId :: "'s \<Rightarrow> u32"
  sb_ClientUserSid :: "'s \<Rightarrow> wstring"
  sb_now :: "'s \<Rightarrow> int \<times> 's"

type_synonym 's Handler = "IpcRequest \<Rightarrow> 's \<Rightarrow> IpcReply result \<times> 's"

datatype event =
  Ev_Handle IpcClientIdentity IpcRequest
  | Ev_Reply IpcClientIdentity IpcReply
  | Ev_Error IpcErrorCode
  | Ev_Disconnect
  | Ev_Close
  | Ev_Verdict IpcClientVerdict

record 's world =
  env :: 's
  log :: "event list"

section \<open>Frames, gates and the default handler\<close>

definition MakeFrame :: "IpcMessageType \<Rightarrow> u32 \<Rightarrow> u8 list \<Rightarrow> u8 list" where
  "MakeFrame t rid payload =
     SerializeHeader (MakeIpcHeader t (of_nat (length payload)) rid) @ payload"

fun TokenMatches :: "string \<Rightarrow> wstring \<Rightarrow> bool" where
  "TokenMatches [] [] = True"
| "TokenMatches (c # s) (e # es) =
     (if e > 0x7F then False else if of_nat (of_char c) \<noteq> e then False else TokenMatches s es)"
| "TokenMatches _ _ = False"

text \<open>The folding of ASCII letters; a locale can fold more, but the texts of SIDs hold nothing else.\<close>

definition towlower :: "u16 \<Rightarrow> u16" where
  "towlower c = (if 65 \<le> c \<and> c \<le> 90 then c + 32 else c)"

definition SidEqualsIgnoreCase :: "wstring \<Rightarrow> wstring \<Rightarrow> bool" where
  "SidEqualsIgnoreCase a b \<longleftrightarrow> length a = length b \<and> list_all2 (\<lambda>x y. towlower x = towlower y) a b"

definition DefaultClientGate :: "IpcClientIdentity \<Rightarrow> unit result" where
  "DefaultClientGate c =
     (if ci_pid c = 0
        then Failure (Error_Validation ''DefaultClientGate'' ''client PID unknown (0), refused'')
      else if ci_sessionId c = 0
        then Failure (Error_Validation ''DefaultClientGate'' ''client in session 0, refused'')
      else Success ())"

definition AllowAllClientGate :: "IpcClientIdentity \<Rightarrow> unit result" where
  "AllowAllClientGate c = Success ()"

definition default_options :: IpcOptions where
  "default_options =
     \<lparr>op_ioTimeout = 3000, op_clientGate = Some DefaultClientGate, op_persistentAccept = False,
      op_allowedClientSids = [], op_expectedToken = [], op_verdictObserver = False\<rparr>"

definition error_reply :: "IpcErrorCode \<Rightarrow> IpcReply" where
  "error_reply c = \<lparr>rp_type = Msg_Error, rp_payload = [code_byte c]\<rparr>"

definition DefaultHandler :: "IpcRequest \<Rightarrow> wstring \<Rightarrow> IpcReply result" where
  "DefaultHandler request expectedToken =
     (case rq_type request of
        Ping \<Rightarrow> Success \<lparr>rp_type = Ack, rp_payload = []\<rparr>
      | FactsSnapshot \<Rightarrow>
          (case ParseFactsV1 (rq_payload request) of
             Inl _ \<Rightarrow> Success (error_reply InvalidFacts)
           | Inr facts \<Rightarrow>
               if \<not> HasValue (ValidateFactsV1Schema facts) then Success (error_reply InvalidFacts)
               else if expectedToken \<noteq> [] \<and>
                 \<not> list_ex (\<lambda>f. fkey f = kFactsTokenKey \<and> TokenMatches (fval f) expectedToken) facts
               then Success (error_reply AuthFailed)
               else Success \<lparr>rp_type = Ack, rp_payload = BytesFromText (FormatFactsSummary facts)\<rparr>)
      | _ \<Rightarrow> Failure (Error_Validation ''DefaultHandler'' ''unsupported message type''))"

section \<open>The server loop\<close>

definition emit :: "event \<Rightarrow> 's world \<Rightarrow> 's world" where
  "emit e w = w\<lparr>log := log w @ [e]\<rparr>"

definition SendErrorReply ::
  "'s IpcServerBackend \<Rightarrow> IpcOptions \<Rightarrow> u32 \<Rightarrow> IpcErrorCode \<Rightarrow> 's world \<Rightarrow> 's world" where
  "SendErrorReply b opts rid c w =
     emit (Ev_Error c)
       (w\<lparr>env := snd (sb_WriteAll b (MakeFrame Msg_Error rid [code_byte c]) (op_ioTimeout opts) (env w))\<rparr>)"

definition disconnect :: "'s IpcServerBackend \<Rightarrow> 's world \<Rightarrow> 's world" where
  "disconnect b w = emit Ev_Disconnect (w\<lparr>env := snd (sb_DisconnectClient b (env w))\<rparr>)"

definition drainAndDisconnect :: "'s IpcServerBackend \<Rightarrow> IpcOptions \<Rightarrow> 's world \<Rightarrow> 's world" where
  "drainAndDisconnect b opts w =
     disconnect b (w\<lparr>env := snd (sb_ReadAll b 1 (op_ioTimeout opts) (env w))\<rparr>)"

definition closeUnlessPersistent :: "'s IpcServerBackend \<Rightarrow> IpcOptions \<Rightarrow> 's world \<Rightarrow> 's world" where
  "closeUnlessPersistent b opts w =
     (if op_persistentAccept opts then w else emit Ev_Close (w\<lparr>env := sb_Close b (env w)\<rparr>))"

definition emitVerdict :: "IpcOptions \<Rightarrow> IpcClientVerdict \<Rightarrow> 's world \<Rightarrow> 's world" where
  "emitVerdict opts v w = (if op_verdictObserver opts then emit (Ev_Verdict v) w else w)"

record loop_state =
  ls_frames :: u32
  ls_last :: IpcServeResult
  ls_authRejected :: bool

text \<open>What one pass of the loop does: leave with a failure, end normally, or go on.\<close>

datatype outcome = Out_fail Error | Out_end loop_state IpcSessionEndReason | Out_next loop_state

definition andthen ::
  "(outcome + 'a) \<times> 's world \<Rightarrow> ('a \<Rightarrow> 's world \<Rightarrow> outcome \<times> 's world) \<Rightarrow> outcome \<times> 's world" where
  "andthen m f = (case m of (Inl out, w) \<Rightarrow> (out, w) | (Inr x, w) \<Rightarrow> f x w)"

definition is_win32 :: "Error \<Rightarrow> u64 \<Rightarrow> bool" where
  "is_win32 e c \<longleftrightarrow> err_domain e = Win32 \<and> err_code e = c"

definition ERROR_BROKEN_PIPE :: u64 where "ERROR_BROKEN_PIPE = 109"
definition ERROR_NO_DATA :: u64 where "ERROR_NO_DATA = 232"
definition ERROR_TIMEOUT :: u32 where "ERROR_TIMEOUT = 1460"

text \<open>The session budget and the timeout of the next header.\<close>

definition header_timeout ::
  "(u32 \<Rightarrow> string) \<Rightarrow> 's IpcServerBackend \<Rightarrow> IpcOptions \<Rightarrow> bool \<Rightarrow> int \<Rightarrow> int \<Rightarrow> loop_state \<Rightarrow>
   's world \<Rightarrow> (outcome + int) \<times> 's world" where
  "header_timeout sysmsg b opts limited idle deadline ls w =
     (if limited then (Inr (op_ioTimeout opts), w)
      else let (now, s) = sb_now b (env w);
               w = w\<lparr>env := s\<rparr>;
               remaining = deadline - now
           in if remaining \<le> 0 then
                (if ls_frames ls = 0
                 then (Inl (Out_fail (FromWin32 sysmsg ERROR_TIMEOUT ''ServeSession'')),
                       closeUnlessPersistent b opts (disconnect b w))
                 else (Inl (Out_end ls SessionBudget), w))
              else (Inr (min idle remaining), w))"

definition read_header ::
  "'s IpcServerBackend \<Rightarrow> IpcOptions \<Rightarrow> int \<Rightarrow> loop_state \<Rightarrow> int \<Rightarrow> 's world \<Rightarrow>
   (outcome + IpcHeader) \<times> 's world" where
  "read_header b opts idle ls tmo w =
     (case sb_ReadAll b kIpcHeaderSize tmo (env w) of
        (Inl e, s) \<Rightarrow>
          (let w = w\<lparr>env := s\<rparr>;
               clientClosed = (is_win32 e ERROR_BROKEN_PIPE \<or> is_win32 e ERROR_NO_DATA);
               timedOut = is_win32 e (ucast ERROR_TIMEOUT)
           in if clientClosed \<and> ls_frames ls > 0 then (Inl (Out_end ls ClientClosed), w)
              else if timedOut \<and> ls_frames ls > 0
                then (Inl (Out_end ls (if tmo = idle then IdleTimeout else SessionBudget)), w)
              else (Inl (Out_fail e), closeUnlessPersistent b opts (disconnect b w)))
      | (Inr bytes, s) \<Rightarrow>
          (let w = w\<lparr>env := s\<rparr>
           in case ParseHeader bytes of
                Inl e \<Rightarrow>
                  (Inl (Out_fail e),
                   closeUnlessPersistent b opts
                     (drainAndDisconnect b opts (SendErrorReply b opts 0 InvalidHeader w)))
              | Inr h \<Rightarrow> (Inr h, w)))"

definition read_payload ::
  "'s IpcServerBackend \<Rightarrow> IpcOptions \<Rightarrow> IpcHeader \<Rightarrow> 's world \<Rightarrow> (outcome + u8 list) \<times> 's world" where
  "read_payload b opts h w =
     (if payloadLength h > 0 then
        (case sb_ReadAll b (unat (payloadLength h)) (op_ioTimeout opts) (env w) of
           (Inl e, s) \<Rightarrow> (Inl (Out_fail e), closeUnlessPersistent b opts (disconnect b (w\<lparr>env := s\<rparr>)))
         | (Inr p, s) \<Rightarrow> (Inr p, w\<lparr>env := s\<rparr>))
      else (Inr [], w))"

definition reject_client ::
  "'s IpcServerBackend \<Rightarrow> IpcOptions \<Rightarrow> u32 \<Rightarrow> 's world \<Rightarrow> 's world" where
  "reject_client b opts rid w =
     closeUnlessPersistent b opts (drainAndDisconnect b opts
       (emitVerdict opts V_UnauthorizedClient (SendErrorReply b opts rid UnauthorizedClient w)))"

definition authorize ::
  "'s IpcServerBackend \<Rightarrow> IpcOptions \<Rightarrow> IpcRequest \<Rightarrow> IpcClientIdentity \<Rightarrow> 's world \<Rightarrow>
   (outcome + unit) \<times> 's world" where
  "authorize b opts rq ident w =
     (case (case op_clientGate opts of None \<Rightarrow> Success () | Some g \<Rightarrow> g ident) of
        Inl e \<Rightarrow> (Inl (Out_fail e), reject_client b opts (rq_requestId rq) w)
      | Inr _ \<Rightarrow>
          if op_allowedClientSids opts \<noteq> [] \<and>
             \<not> list_ex (\<lambda>sid. SidEqualsIgnoreCase (ci_userSid ident) sid) (op_allowedClientSids opts)
          then (Inl (Out_fail (Error_Validation ''SessionSidGate'' ''client user not in the allow list'')),
                reject_client b opts (rq_requestId rq) w)
          else (Inr (), w))"

definition run_handler ::
  "'s IpcServerBackend \<Rightarrow> IpcOptions \<Rightarrow> 's Handler option \<Rightarrow> IpcRequest \<Rightarrow> IpcClientIdentity \<Rightarrow>
   's world \<Rightarrow> (outcome + IpcReply) \<times> 's world" where
  "run_handler b opts handler rq ident w =
     (let w = emit (Ev_Handle ident rq) w;
          (handled, s) = (case handler of
             Some h \<Rightarrow> h rq (env w)
           | None \<Rightarrow> (DefaultHandler rq (op_expectedToken opts), env w));
          w = w\<lparr>env := s\<rparr>
      in case handled of
           Inl e \<Rightarrow>
             (Inl (Out_fail e),
              closeUnlessPersistent b opts (drainAndDisconnect b opts
                (SendErrorReply b opts (rq_requestId rq)
                  (if handler \<noteq> None then HandlerFailed else UnsupportedType) w)))
         | Inr reply \<Rightarrow> (Inr reply, w))"

definition is_auth_failure :: "IpcReply \<Rightarrow> bool" where
  "is_auth_failure r \<longleftrightarrow> rp_type r = Msg_Error \<and> rp_payload r = [code_byte AuthFailed]"

definition write_reply ::
  "'s IpcServerBackend \<Rightarrow> IpcOptions \<Rightarrow> IpcRequest \<Rightarrow> IpcClientIdentity \<Rightarrow> IpcReply \<Rightarrow> 's world \<Rightarrow>
   (outcome + unit) \<times> 's world" where
  "write_reply b opts rq ident reply w =
     (case ValidateIpcHeader (MakeIpcHeader (rp_type reply) (of_nat (length (rp_payload reply)))
             (rq_requestId rq)) of
        Inl e \<Rightarrow> (Inl (Out_fail e), closeUnlessPersistent b opts (disconnect b w))
      | Inr _ \<Rightarrow>
          (case sb_WriteAll b (MakeFrame (rp_type reply) (rq_requestId rq) (rp_payload reply))
                  (op_ioTimeout opts) (env w) of
             (Inl e, s) \<Rightarrow> (Inl (Out_fail e), closeUnlessPersistent b opts (disconnect b (w\<lparr>env := s\<rparr>)))
           | (Inr _, s) \<Rightarrow> (Inr (), emit (Ev_Reply ident reply) (w\<lparr>env := s\<rparr>))))"

definition make_request :: "'s IpcServerBackend \<Rightarrow> IpcHeader \<Rightarrow> u8 list \<Rightarrow> 's \<Rightarrow> IpcRequest" where
  "make_request b h payload s =
     \<lparr>rq_type = the (ParseMessageType (mtype h)), rq_requestId = requestId h,
      rq_payload = payload, rq_clientPid = sb_ClientPid b s,
      rq_clientSessionId = sb_ClientSessionId b s\<rparr>"

definition make_identity :: "'s IpcServerBackend \<Rightarrow> 's \<Rightarrow> IpcClientIdentity" where
  "make_identity b s =
     \<lparr>ci_pid = sb_ClientPid b s, ci_sessionId = sb_ClientSessionId b s,
      ci_userSid = sb_ClientUserSid b s\<rparr>"

definition serve_result :: "IpcRequest \<Rightarrow> IpcClientIdentity \<Rightarrow> IpcReply \<Rightarrow> IpcServeResult \<Rightarrow> IpcServeResult" where
  "serve_result rq ident reply lst =
     lst\<lparr>sr_requestType := rq_type rq, sr_replyType := rp_type reply,
          sr_requestId := rq_requestId rq, sr_clientPid := rq_clientPid rq,
          sr_clientSessionId := rq_clientSessionId rq, sr_clientUserSid := ci_userSid ident,
          sr_payloadBytes := of_nat (length (rq_payload rq))\<rparr>"

text \<open>The bookkeeping after a served frame; the single-frame mode ends here.\<close>

definition next_outcome ::
  "u32 \<Rightarrow> loop_state \<Rightarrow> IpcRequest \<Rightarrow> IpcClientIdentity \<Rightarrow> IpcReply \<Rightarrow> outcome" where
  "next_outcome maxFrames ls rq ident reply =
     (let ls' = \<lparr>ls_frames = ls_frames ls + 1,
                 ls_last = serve_result rq ident reply (ls_last ls),
                 ls_authRejected = (ls_authRejected ls \<or> is_auth_failure reply)\<rparr>
      in if maxFrames \<noteq> 0 \<and> ls_frames ls' \<ge> maxFrames then Out_end ls' ClientClosed
         else Out_next ls')"

definition answer_request ::
  "'s IpcServerBackend \<Rightarrow> IpcOptions \<Rightarrow> 's Handler option \<Rightarrow> u32 \<Rightarrow> loop_state \<Rightarrow> IpcRequest \<Rightarrow>
   IpcClientIdentity \<Rightarrow> 's world \<Rightarrow> outcome \<times> 's world" where
  "answer_request b opts handler maxFrames ls rq ident w =
     andthen (authorize b opts rq ident w) (\<lambda>_ w.
     andthen (run_handler b opts handler rq ident w) (\<lambda>reply w.
     andthen (write_reply b opts rq ident reply w) (\<lambda>_ w.
       (next_outcome maxFrames ls rq ident reply, w))))"

text \<open>One pass of the loop.\<close>

definition serve_frame ::
  "(u32 \<Rightarrow> string) \<Rightarrow> 's IpcServerBackend \<Rightarrow> IpcOptions \<Rightarrow> 's Handler option \<Rightarrow> int \<Rightarrow> int \<Rightarrow> u32 \<Rightarrow>
   loop_state \<Rightarrow> 's world \<Rightarrow> outcome \<times> 's world" where
  "serve_frame sysmsg b opts handler idle deadline maxFrames ls w =
     andthen (header_timeout sysmsg b opts (maxFrames \<noteq> 0) idle deadline ls w) (\<lambda>tmo w.
     andthen (read_header b opts idle ls tmo w) (\<lambda>h w.
     andthen (read_payload b opts h w) (\<lambda>payload w.
       answer_request b opts handler maxFrames ls (make_request b h payload (env w))
         (make_identity b (env w)) w)))"

text \<open>The regular end of a session.\<close>

definition finish_session ::
  "'s IpcServerBackend \<Rightarrow> IpcOptions \<Rightarrow> loop_state \<Rightarrow> IpcSessionEndReason \<Rightarrow> 's world \<Rightarrow>
   IpcServeResult result \<times> 's world" where
  "finish_session b opts ls reason w =
     (Success ((ls_last ls)\<lparr>sr_framesServed := ls_frames ls, sr_endReason := reason\<rparr>),
      emitVerdict opts (if ls_authRejected ls then V_AuthFailed else V_Accepted)
        (closeUnlessPersistent b opts (drainAndDisconnect b opts w)))"

partial_function (option) serve_frames ::
  "(u32 \<Rightarrow> string) \<Rightarrow> 's IpcServerBackend \<Rightarrow> IpcOptions \<Rightarrow> 's Handler option \<Rightarrow> int \<Rightarrow> int \<Rightarrow> u32 \<Rightarrow>
   loop_state \<Rightarrow> 's world \<Rightarrow> (IpcServeResult result \<times> 's world) option" where
  "serve_frames sysmsg b opts handler idle deadline maxFrames ls w =
     (case serve_frame sysmsg b opts handler idle deadline maxFrames ls w of
        (out, w') \<Rightarrow>
          (case out of
             Out_fail e \<Rightarrow> Some (Failure e, w')
           | Out_end ls' reason \<Rightarrow> Some (finish_session b opts ls' reason w')
           | Out_next ls' \<Rightarrow> serve_frames sysmsg b opts handler idle deadline maxFrames ls' w'))"

declare serve_frames.simps [code]

definition ServeLoop ::
  "(u32 \<Rightarrow> string) \<Rightarrow> 's IpcServerBackend \<Rightarrow> IpcOptions \<Rightarrow> 's Handler option \<Rightarrow> int \<Rightarrow> int \<Rightarrow> int \<Rightarrow>
   u32 \<Rightarrow> 's world \<Rightarrow> (IpcServeResult result \<times> 's world) option" where
  "ServeLoop sysmsg b opts handler acceptTimeout idle budget maxFrames w =
     (let (now, s0) = sb_now b (env w);
          deadline = now + budget
      in case sb_CreateAndListen b s0 of
           (Inl e, s1) \<Rightarrow> Some (Failure e, w\<lparr>env := s1\<rparr>)
         | (Inr _, s1) \<Rightarrow>
             (case sb_AcceptClient b acceptTimeout s1 of
                (Inl e, s2) \<Rightarrow> Some (Failure e, closeUnlessPersistent b opts (w\<lparr>env := s2\<rparr>))
              | (Inr _, s2) \<Rightarrow>
                  serve_frames sysmsg b opts handler idle deadline maxFrames
                    \<lparr>ls_frames = 0, ls_last = default_serve_result, ls_authRejected = False\<rparr>
                    (w\<lparr>env := s2\<rparr>)))"

definition ServeOne ::
  "(u32 \<Rightarrow> string) \<Rightarrow> 's IpcServerBackend \<Rightarrow> IpcOptions \<Rightarrow> 's Handler option \<Rightarrow> int \<Rightarrow> 's world \<Rightarrow>
   (IpcServeResult result \<times> 's world) option" where
  "ServeOne sysmsg b opts handler acceptTimeout w =
     ServeLoop sysmsg b opts handler acceptTimeout (op_ioTimeout opts) (op_ioTimeout opts) 1 w"

definition ServeSession ::
  "(u32 \<Rightarrow> string) \<Rightarrow> 's IpcServerBackend \<Rightarrow> IpcOptions \<Rightarrow> 's Handler option \<Rightarrow> int \<Rightarrow> int \<Rightarrow> int \<Rightarrow>
   's world \<Rightarrow> (IpcServeResult result \<times> 's world) option" where
  "ServeSession sysmsg b opts handler acceptTimeout idle budget w =
     (if idle \<le> 0 \<or> budget \<le> 0
      then Some (Failure (Error_Validation ''ServeSession'' ''idleTimeout and sessionBudget must be positive''), w)
      else ServeLoop sysmsg b opts handler acceptTimeout idle budget 0 w)"

definition IpcSession_Close :: "'s IpcServerBackend \<Rightarrow> 's world \<Rightarrow> 's world" where
  "IpcSession_Close b w = emit Ev_Close (w\<lparr>env := sb_Close b (env w)\<rparr>)"

section \<open>The client side\<close>

record 's IpcClientBackend =
  cb_Connect :: "wstring \<Rightarrow> int \<Rightarrow> 's \<Rightarrow> unit result \<times> 's"
  cb_WriteAll :: "u8 list \<Rightarrow> int \<Rightarrow> 's \<Rightarrow> unit result \<times> 's"
  cb_ReadAll :: "nat \<Rightarrow> int \<Rightarrow> 's \<Rightarrow> u8 list result \<times> 's"
  cb_Close :: "'s \<Rightarrow> 's"

record IpcFrameRequest =
  fr_type :: IpcMessageType
  fr_requestId :: u32
  fr_payload :: "u8 list"

text \<open>
  Writing one frame and reading the paired answer.  The operation name is the caller's;
  closing is left to the callers, which do it on every path.
\<close>

definition check_reply :: "string \<Rightarrow> u32 \<Rightarrow> IpcHeader \<Rightarrow> u8 list \<Rightarrow> IpcReply result" where
  "check_reply op rid h payload =
     (if requestId h \<noteq> rid
        then Failure (Error_Validation op ''reply requestId does not match the request'')
      else let t = the (ParseMessageType (mtype h))
           in if t = Msg_Error
              then Failure (Error_Validation op (''server returned an error: '' @
                IpcErrorCodeToString (if payload = [] then code_byte InternalError else hd payload)))
              else Success \<lparr>rp_type = t, rp_payload = payload\<rparr>)"

definition exchange ::
  "string \<Rightarrow> 's IpcClientBackend \<Rightarrow> IpcFrameRequest \<Rightarrow> int \<Rightarrow> 's \<Rightarrow> IpcReply result \<times> 's" where
  "exchange op c fr timeout s =
     (case cb_WriteAll c (MakeFrame (fr_type fr) (fr_requestId fr) (fr_payload fr)) timeout s of
        (Inl e, s1) \<Rightarrow> (Failure e, s1)
      | (Inr _, s1) \<Rightarrow>
          (case cb_ReadAll c kIpcHeaderSize timeout s1 of
             (Inl e, s2) \<Rightarrow> (Failure e, s2)
           | (Inr bytes, s2) \<Rightarrow>
               (case ParseHeader bytes of
                  Inl e \<Rightarrow> (Failure e, s2)
                | Inr h \<Rightarrow>
                    if payloadLength h > 0 then
                      (case cb_ReadAll c (unat (payloadLength h)) timeout s2 of
                         (Inl e, s3) \<Rightarrow> (Failure e, s3)
                       | (Inr payload, s3) \<Rightarrow> (check_reply op (fr_requestId fr) h payload, s3))
                    else (check_reply op (fr_requestId fr) h [], s2))))"

definition IpcRoundTrip ::
  "'s IpcClientBackend \<Rightarrow> wstring \<Rightarrow> IpcMessageType \<Rightarrow> u8 list \<Rightarrow> u32 \<Rightarrow> int \<Rightarrow> 's \<Rightarrow>
   IpcReply result \<times> 's" where
  "IpcRoundTrip c pipe t payload rid timeout s =
     (case cb_Connect c pipe timeout s of
        (Inl e, s1) \<Rightarrow> (Failure e, s1)
      | (Inr _, s1) \<Rightarrow>
          (case exchange ''IpcRoundTrip'' c \<lparr>fr_type = t, fr_requestId = rid, fr_payload = payload\<rparr> timeout s1 of
             (r, s2) \<Rightarrow> (r, cb_Close c s2)))"

fun exchange_all ::
  "'s IpcClientBackend \<Rightarrow> IpcFrameRequest list \<Rightarrow> int \<Rightarrow> IpcReply list \<Rightarrow> 's \<Rightarrow>
   IpcReply list result \<times> 's" where
  "exchange_all c [] timeout replies s = (Success replies, cb_Close c s)"
| "exchange_all c (fr # frs) timeout replies s =
     (case exchange ''IpcRoundTripSession'' c fr timeout s of
        (Inl e, s1) \<Rightarrow> (Failure e, cb_Close c s1)
      | (Inr reply, s1) \<Rightarrow> exchange_all c frs timeout (replies @ [reply]) s1)"

definition IpcRoundTripSession ::
  "'s IpcClientBackend \<Rightarrow> wstring \<Rightarrow> IpcFrameRequest list \<Rightarrow> int \<Rightarrow> 's \<Rightarrow> IpcReply list result \<times> 's" where
  "IpcRoundTripSession c pipe requests timeout s =
     (if requests = [] then (Success [], s)
      else case cb_Connect c pipe timeout s of
             (Inl e, s1) \<Rightarrow> (Failure e, s1)
           | (Inr _, s1) \<Rightarrow> exchange_all c requests timeout [] s1)"

section \<open>Report pacing\<close>

text \<open>The doubling loop shared by both back-offs: \<open>n\<close> doublings, never above \<open>cap\<close>.\<close>

fun double_capped :: "nat \<Rightarrow> int \<Rightarrow> int \<Rightarrow> int" where
  "double_capped 0 gap cap = gap"
| "double_capped (Suc n) gap cap =
     (if gap < cap then
        (if gap > cap div 2 then cap
         else let gap' = gap * 2
              in double_capped n (if gap' > cap then cap else gap') cap)
      else gap)"

definition IpcReportGapAfterFailures :: "nat \<Rightarrow> int \<Rightarrow> int \<Rightarrow> int" where
  "IpcReportGapAfterFailures failures base cap =
     (if cap \<le> 0 then base
      else double_capped failures (if base > cap then cap else base) cap)"

definition IpcReportGapAfterUserIdle :: "int \<Rightarrow> int \<Rightarrow> int \<Rightarrow> int \<Rightarrow> int \<Rightarrow> int" where
  "IpcReportGapAfterUserIdle idle base awayAfter awayStep awayCap =
     (if awayCap \<le> 0 \<or> awayAfter \<le> 0 \<or> idle < awayAfter then base
      else let step = (if awayStep \<le> 0 then 1 else awayStep)
           in if base > awayCap then awayCap
              else double_capped (nat (1 + (idle - awayAfter) div step)) base awayCap)"

definition IpcReportNextGap ::
  "nat \<Rightarrow> int \<Rightarrow> int \<Rightarrow> int option \<Rightarrow> int \<Rightarrow> int \<Rightarrow> int \<Rightarrow> int" where
  "IpcReportNextGap failures base failureCap idle awayAfter awayStep awayCap =
     (let failureGap = (if failureCap > 0 \<and> failureCap > base \<and> failures > 0
                        then IpcReportGapAfterFailures failures base failureCap else base);
          awayGap = (case idle of
             Some i \<Rightarrow> if awayCap > 0 \<and> awayAfter > 0
                       then IpcReportGapAfterUserIdle i base awayAfter awayStep awayCap else base
           | None \<Rightarrow> base)
      in if failureGap > awayGap then failureGap else awayGap)"

section \<open>The log of a run\<close>

named_theorems log_simps \<open>what each call appends to the log\<close>

definition closing :: "IpcOptions \<Rightarrow> event list" where
  "closing opts = Ev_Disconnect # (if op_persistentAccept opts then [] else [Ev_Close])"

lemma log_emit [log_simps, simp]: "log (emit e w) = log w @ [e]"
  by (simp add: emit_def)

lemma log_SendErrorReply [log_simps]: "log (SendErrorReply b opts rid c w) = log w @ [Ev_Error c]"
  by (simp add: SendErrorReply_def)

lemma log_disconnect [log_simps]: "log (disconnect b w) = log w @ [Ev_Disconnect]"
  by (simp add: disconnect_def)

lemma log_drain [log_simps]: "log (drainAndDisconnect b opts w) = log w @ [Ev_Disconnect]"
  by (simp add: drainAndDisconnect_def disconnect_def)

lemma log_closeUnlessPersistent [log_simps]:
  "log (closeUnlessPersistent b opts w) = log w @ (if op_persistentAccept opts then [] else [Ev_Close])"
  by (simp add: closeUnlessPersistent_def)

lemma log_emitVerdict [log_simps]:
  "log (emitVerdict opts v w) = log w @ (if op_verdictObserver opts then [Ev_Verdict v] else [])"
  by (simp add: emitVerdict_def)

definition authorised :: "IpcOptions \<Rightarrow> IpcClientIdentity \<Rightarrow> bool" where
  "authorised opts ident \<longleftrightarrow>
     (case op_clientGate opts of None \<Rightarrow> True | Some g \<Rightarrow> g ident = Success ()) \<and>
     (op_allowedClientSids opts = [] \<or>
      (\<exists>sid \<in> set (op_allowedClientSids opts). SidEqualsIgnoreCase (ci_userSid ident) sid))"

text \<open>How each stage can end, with what it logs.\<close>

lemma header_timeout_cases:
  assumes "header_timeout sysmsg b opts lim idle deadline ls w = (r, w')"
  obtains (failed) e where "r = Inl (Out_fail e)" "log w' = log w @ closing opts"
  | (ended) reason where "r = Inl (Out_end ls reason)" "log w' = log w"
  | (ok) t where "r = Inr t" "log w' = log w"
  using assms
  by (auto simp: header_timeout_def Let_def log_simps closing_def split: if_splits prod.splits)

lemma read_header_cases:
  assumes "read_header b opts idle ls tmo w = (r, w')"
  obtains (failed) e pre where "r = Inl (Out_fail e)" "log w' = log w @ pre @ closing opts"
      "set pre \<subseteq> {Ev_Error InvalidHeader}"
  | (ended) reason where "r = Inl (Out_end ls reason)" "log w' = log w"
  | (ok) h where "r = Inr h" "log w' = log w"
proof (cases "sb_ReadAll b kIpcHeaderSize tmo (env w)")
  case (Pair x s)
  show ?thesis
  proof (cases x)
    case (Inl e)
    with Pair assms have "r = Inl (Out_fail e) \<and> log w' = log w @ closing opts \<or>
        (\<exists>reason. r = Inl (Out_end ls reason) \<and> log w' = log w)"
      by (auto simp: read_header_def Let_def log_simps closing_def split: if_splits)
    then show ?thesis using failed [of e "[]"] ended by auto
  next
    case (Inr bytes)
    with Pair assms show ?thesis
      using failed [of _ "[Ev_Error InvalidHeader]"] ok
      by (auto simp: read_header_def Let_def log_simps closing_def split: sum.splits)
  qed
qed

lemma read_payload_cases:
  assumes "read_payload b opts h w = (r, w')"
  obtains (failed) e where "r = Inl (Out_fail e)" "log w' = log w @ closing opts"
  | (ok) p where "r = Inr p" "log w' = log w"
  using assms
  by (auto simp: read_payload_def log_simps closing_def split: if_splits prod.splits sum.splits)

lemma authorize_cases:
  assumes "authorize b opts rq ident w = (r, w')"
  obtains (failed) e where "r = Inl (Out_fail e)" "\<not> authorised opts ident"
      "log w' = log w @ (Ev_Error UnauthorizedClient #
         (if op_verdictObserver opts then [Ev_Verdict V_UnauthorizedClient] else [])) @ closing opts"
  | (ok) "r = Inr ()" "w' = w" "authorised opts ident"
  using assms
  by (auto simp: authorize_def reject_client_def authorised_def log_simps closing_def list_ex_iff
      split: if_splits option.splits sum.splits)

lemma run_handler_cases:
  assumes "run_handler b opts handler rq ident w = (r, w')"
  obtains (failed) e c where "r = Inl (Out_fail e)"
      "log w' = log w @ [Ev_Handle ident rq, Ev_Error c] @ closing opts"
  | (ok) reply where "r = Inr reply" "log w' = log w @ [Ev_Handle ident rq]"
  using assms
  by (auto simp: run_handler_def Let_def log_simps closing_def split: prod.splits sum.splits)

lemma write_reply_cases:
  assumes "write_reply b opts rq ident reply w = (r, w')"
  obtains (failed) e where "r = Inl (Out_fail e)" "log w' = log w @ closing opts"
  | (ok) "r = Inr ()" "log w' = log w @ [Ev_Reply ident reply]"
  using assms
  by (auto simp: write_reply_def log_simps closing_def split: prod.splits sum.splits)

fun conn_event :: "event \<Rightarrow> bool" where
  "conn_event Ev_Disconnect = True"
| "conn_event Ev_Close = True"
| "conn_event _ = False"

definition conn_events :: "event list \<Rightarrow> event list" where
  "conn_events evs = filter conn_event evs"

fun verdict_of :: "event \<Rightarrow> IpcClientVerdict option" where
  "verdict_of (Ev_Verdict v) = Some v"
| "verdict_of _ = None"

definition verdicts :: "event list \<Rightarrow> IpcClientVerdict list" where
  "verdicts evs = List.map_filter verdict_of evs"

fun ev_ok :: "IpcOptions \<Rightarrow> event \<Rightarrow> bool" where
  "ev_ok opts (Ev_Handle i rq) = authorised opts i"
| "ev_ok opts (Ev_Reply i rp) = authorised opts i"
| "ev_ok opts _ = True"

fun auth_failure_event :: "event \<Rightarrow> bool" where
  "auth_failure_event (Ev_Reply i rp) = is_auth_failure rp"
| "auth_failure_event _ = False"

fun handle_event :: "event \<Rightarrow> bool" where
  "handle_event (Ev_Handle i rq) = True"
| "handle_event _ = False"

lemma conn_events_simps [simp]:
  "conn_events [] = []" "conn_events (xs @ ys) = conn_events xs @ conn_events ys"
  "conn_events (x # xs) = (if conn_event x then x # conn_events xs else conn_events xs)"
  by (simp_all add: conn_events_def)

lemma verdicts_simps [simp]:
  "verdicts [] = []" "verdicts (xs @ ys) = verdicts xs @ verdicts ys"
  "verdicts (x # xs) = (case verdict_of x of None \<Rightarrow> verdicts xs | Some v \<Rightarrow> v # verdicts xs)"
  by (simp_all add: verdicts_def map_filter_def split: option.splits)

lemma closing_simps [simp]:
  "conn_events (closing opts) = closing opts" "verdicts (closing opts) = []"
  "list_all (ev_ok opts) (closing opts)" "filter handle_event (closing opts) = []"
  "\<not> list_ex auth_failure_event (closing opts)"
  by (simp_all add: closing_def)

lemma andthen_cases:
  assumes "andthen m f = (out, w')"
  obtains (stop) "m = (Inl out, w')"
  | (cont) x w1 where "m = (Inr x, w1)" "f x w1 = (out, w')"
  using assms by (cases m; cases "fst m") (auto simp: andthen_def)

text \<open>What a pass that ends the session with a failure may have logged before it.\<close>

definition failed_log :: "IpcOptions \<Rightarrow> event list \<Rightarrow> bool" where
  "failed_log opts pre \<longleftrightarrow>
     list_all (ev_ok opts) pre \<and> conn_events pre = [] \<and> length (filter handle_event pre) \<le> 1 \<and>
     (verdicts pre = [] \<or> verdicts pre = [V_UnauthorizedClient] \<and> filter handle_event pre = [])"

lemma failed_log_simps [simp]:
  "failed_log opts []"
  "set pre \<subseteq> {Ev_Error c} \<Longrightarrow> failed_log opts pre"
  "failed_log opts (Ev_Error c' # (if ob then [Ev_Verdict V_UnauthorizedClient] else []))"
  "authorised opts i \<Longrightarrow> failed_log opts [Ev_Handle i rq, Ev_Error c]"
  "authorised opts i \<Longrightarrow> failed_log opts [Ev_Handle i rq]"
proof -
  show "set pre \<subseteq> {Ev_Error c} \<Longrightarrow> failed_log opts pre"
    unfolding failed_log_def by (induction pre) auto
qed (simp_all add: failed_log_def)

lemma answer_request_cases:
  assumes "answer_request b opts handler maxF ls rq i w = (out, w')"
  obtains (failed) e pre where "out = Out_fail e" "log w' = log w @ pre @ closing opts"
      "failed_log opts pre"
  | (served) reply where "authorised opts i" "log w' = log w @ [Ev_Handle i rq, Ev_Reply i reply]"
      "out = next_outcome maxF ls rq i reply"
  using assms unfolding answer_request_def
proof (rule andthen_cases)
  assume "authorize b opts rq i w = (Inl out, w')"
  then show ?thesis
    by (rule authorize_cases) (use failed in auto)
next
  fix u w1
  assume "authorize b opts rq i w = (Inr u, w1)"
  then have a: "authorised opts i" and w1: "w1 = w" by (auto elim: authorize_cases)
  assume "andthen (run_handler b opts handler rq i w1) (\<lambda>reply w. andthen
      (write_reply b opts rq i reply w) (\<lambda>_ w. (next_outcome maxF ls rq i reply, w))) = (out, w')"
  then show ?thesis
  proof (rule andthen_cases)
    assume "run_handler b opts handler rq i w1 = (Inl out, w')"
    then show ?thesis
      by (rule run_handler_cases)
        (use failed [of _ "[Ev_Handle i rq, Ev_Error _]"] a w1 in auto)
  next
    fix reply w2
    assume "run_handler b opts handler rq i w1 = (Inr reply, w2)"
    then have w2: "log w2 = log w @ [Ev_Handle i rq]"
      by (rule run_handler_cases) (use w1 in auto)
    assume "andthen (write_reply b opts rq i reply w2)
      (\<lambda>_ w. (next_outcome maxF ls rq i reply, w)) = (out, w')"
    then show ?thesis
    proof (rule andthen_cases)
      assume "write_reply b opts rq i reply w2 = (Inl out, w')"
      then show ?thesis
        by (rule write_reply_cases) (use failed [of _ "[Ev_Handle i rq]"] a w2 in auto)
    next
      fix u w3
      assume "write_reply b opts rq i reply w2 = (Inr u, w3)"
        and "(next_outcome maxF ls rq i reply, w3) = (out, w')"
      then show ?thesis
        by (elim write_reply_cases) (use served a w2 in auto)
    qed
  qed
qed

lemma serve_frame_cases:
  assumes "serve_frame sysmsg b opts handler idle deadline maxF ls w = (out, w')"
  obtains (failed) e pre where "out = Out_fail e" "log w' = log w @ pre @ closing opts"
      "failed_log opts pre"
  | (ended) reason where "out = Out_end ls reason" "log w' = log w"
  | (served) i rq reply where "authorised opts i"
      "log w' = log w @ [Ev_Handle i rq, Ev_Reply i reply]" "out = next_outcome maxF ls rq i reply"
  using assms unfolding serve_frame_def
proof (rule andthen_cases)
  assume "header_timeout sysmsg b opts (maxF \<noteq> 0) idle deadline ls w = (Inl out, w')"
  then show ?thesis
    by (rule header_timeout_cases) (use failed [of _ "[]"] ended in auto)
next
  fix tmo w1
  assume "header_timeout sysmsg b opts (maxF \<noteq> 0) idle deadline ls w = (Inr tmo, w1)"
  then have l1: "log w1 = log w" by (rule header_timeout_cases) auto
  assume "andthen (read_header b opts idle ls tmo w1) (\<lambda>h w. andthen (read_payload b opts h w)
    (\<lambda>payload w. answer_request b opts handler maxF ls (make_request b h payload (env w))
      (make_identity b (env w)) w)) = (out, w')"
  then show ?thesis
  proof (rule andthen_cases)
    assume "read_header b opts idle ls tmo w1 = (Inl out, w')"
    then show ?thesis
      by (rule read_header_cases) (use failed ended l1 in auto)
  next
    fix h w2
    assume "read_header b opts idle ls tmo w1 = (Inr h, w2)"
    then have l2: "log w2 = log w" by (rule read_header_cases) (use l1 in auto)
    assume "andthen (read_payload b opts h w2) (\<lambda>payload w. answer_request b opts handler maxF ls
      (make_request b h payload (env w)) (make_identity b (env w)) w) = (out, w')"
    then show ?thesis
    proof (rule andthen_cases)
      assume "read_payload b opts h w2 = (Inl out, w')"
      then show ?thesis
        by (rule read_payload_cases) (use failed [of _ "[]"] l2 in auto)
    next
      fix payload w3
      assume "read_payload b opts h w2 = (Inr payload, w3)"
      then have l3: "log w3 = log w" by (rule read_payload_cases) (use l2 in auto)
      assume "answer_request b opts handler maxF ls (make_request b h payload (env w3))
        (make_identity b (env w3)) w3 = (out, w')"
      then show ?thesis
        by (rule answer_request_cases) (use failed served l3 in auto)
    qed
  qed
qed

text \<open>The log of a whole run of the loop, by computation induction.\<close>

definition run_log :: "IpcOptions \<Rightarrow> bool \<Rightarrow> 'a result \<Rightarrow> event list \<Rightarrow> bool" where
  "run_log opts rejected r evs \<longleftrightarrow>
     list_all (ev_ok opts) evs \<and> conn_events evs = closing opts \<and>
     (if HasValue r
      then verdicts evs =
        (if op_verdictObserver opts
         then [if rejected \<or> list_ex auth_failure_event evs then V_AuthFailed else V_Accepted] else [])
      else verdicts evs = [] \<or> verdicts evs = [V_UnauthorizedClient])"

lemma run_log_failed: "failed_log opts pre \<Longrightarrow> run_log opts rej (Inl e) (pre @ closing opts)"
  by (auto simp: run_log_def failed_log_def)

lemma log_finish:
  "log (snd (finish_session b opts ls reason w)) = log w @ closing opts @
     (if op_verdictObserver opts then [Ev_Verdict (if ls_authRejected ls then V_AuthFailed else V_Accepted)] else [])"
  by (simp add: finish_session_def log_simps closing_def)

lemma run_log_finished:
  "run_log opts (ls_authRejected ls) (fst (finish_session b opts ls reason w)) (closing opts @
     (if op_verdictObserver opts then [Ev_Verdict (if ls_authRejected ls then V_AuthFailed else V_Accepted)] else []))"
  by (simp add: run_log_def finish_session_def)

lemma run_log_step:
  assumes "authorised opts i" and "run_log opts (rej \<or> is_auth_failure reply) r evs"
  shows "run_log opts rej r (Ev_Handle i rq # Ev_Reply i reply # evs)"
  using assms by (auto simp: run_log_def)

lemma serve_frames_log:
  assumes "serve_frames sysmsg b opts handler idle deadline maxF ls w = Some (r, w')"
  shows "\<exists>evs. log w' = log w @ evs \<and> run_log opts (ls_authRejected ls) r evs"
proof -
  let ?P = "\<lambda>_ b opts _ _ _ _ ls w y. \<exists>evs. log (snd y) = log w @ evs \<and>
       run_log opts (ls_authRejected ls) (fst y) evs"
  have "?P sysmsg b opts handler idle deadline maxF ls w (r, w')"
  proof (rule serve_frames.raw_induct [where P = ?P, OF _ assms], goal_cases)
    case (1 f sysmsg b opts handler idle deadline maxF ls w y)
    obtain r w' where y: "y = (r, w')" by fastforce
    note IH = "1"(1)
    note run = "1"(2) [unfolded y]
    obtain out w1 where fr: "serve_frame sysmsg b opts handler idle deadline maxF ls w = (out, w1)"
      by fastforce
    from fr have "\<exists>evs. log w' = log w @ evs \<and> run_log opts (ls_authRejected ls) r evs"
    proof (cases rule: serve_frame_cases)
      case (failed e pre)
      with run fr show ?thesis using run_log_failed by fastforce
    next
      case (ended reason)
      with run fr show ?thesis
        using log_finish [of b opts ls reason w1] run_log_finished [of opts ls b reason w1] by auto
    next
      case (served i rq reply)
      let ?ls = "\<lparr>ls_frames = ls_frames ls + 1, ls_last = serve_result rq i reply (ls_last ls),
        ls_authRejected = (ls_authRejected ls \<or> is_auth_failure reply)\<rparr>"
      have "\<exists>evs. log w' = log w1 @ evs \<and> run_log opts (ls_authRejected ?ls) r evs"
      proof (cases "out = Out_next ?ls")
        case True
        with run fr have "f sysmsg b opts handler idle deadline maxF ?ls w1 = Some (r, w')" by simp
        from IH [OF this] show ?thesis by simp
      next
        case False
        with served(3) have "out = Out_end ?ls ClientClosed"
          by (auto simp: next_outcome_def Let_def split: if_splits)
        with run fr show ?thesis
          using log_finish [of b opts ?ls ClientClosed w1]
            run_log_finished [of opts ?ls b ClientClosed w1] by auto
      qed
      with served run_log_step [OF served(1)] show ?thesis by fastforce
    qed
    then show ?case by (simp add: y)
  qed
  then show ?thesis by simp
qed

lemma run_log_authorised:
  assumes "run_log opts rej r evs"
  shows "Ev_Handle i rq \<in> set evs \<Longrightarrow> authorised opts i"
    and "Ev_Reply i rp \<in> set evs \<Longrightarrow> authorised opts i"
  using assms unfolding run_log_def list_all_iff by (metis ev_ok.simps(1), metis ev_ok.simps(2))

lemma ServeLoop_log:
  assumes "ServeLoop sysmsg b opts handler acc idle budget maxF w = Some (r, w')"
  shows "\<exists>evs. log w' = log w @ evs \<and>
    (run_log opts False r evs \<or>
     \<not> HasValue r \<and> (evs = [] \<or> evs = [Ev_Close] \<and> \<not> op_persistentAccept opts))"
proof -
  obtain now s0 where n: "sb_now b (env w) = (now, s0)" by fastforce
  obtain r1 s1 where c: "sb_CreateAndListen b s0 = (r1, s1)" by fastforce
  obtain r2 s2 where a: "sb_AcceptClient b acc s1 = (r2, s2)" by fastforce
  show ?thesis
  proof (cases "HasValue r1 \<and> HasValue r2")
    case True
    then obtain u1 u2 where "r1 = Inr u1" "r2 = Inr u2" by (cases r1; cases r2) auto
    with assms n c a have "serve_frames sysmsg b opts handler idle (now + budget) maxF
        \<lparr>ls_frames = 0, ls_last = default_serve_result, ls_authRejected = False\<rparr> (w\<lparr>env := s2\<rparr>) = Some (r, w')"
      by (simp add: ServeLoop_def)
    from serve_frames_log [OF this] show ?thesis by auto
  next
    case False
    with assms n c a show ?thesis
      by (cases r1; cases r2) (auto simp: ServeLoop_def log_simps)
  qed
qed

text \<open>
  A scripted peer (a fixed input, a clock that advances by one per reading) and a run with
  a client that sends two pings, from an interactive session or from session 0.
\<close>

record script =
  sc_in :: "u8 list"
  sc_out :: "u8 list list"
  sc_pid :: u32
  sc_session :: u32
  sc_sid :: wstring
  sc_clock :: int
  sc_there :: bool

definition script_error :: "u32 \<Rightarrow> string \<Rightarrow> Error" where
  "script_error c op = FromWin32 (\<lambda>_. []) c op"

definition script_backend :: "script IpcServerBackend" where
  "script_backend =
     \<lparr>sb_CreateAndListen = \<lambda>s. (Success (), s),
      sb_AcceptClient = \<lambda>t s. (if sc_there s then Success () else Failure (script_error ERROR_TIMEOUT ''ConnectNamedPipe''), s),
      sb_ReadAll = \<lambda>n t s. (if n \<le> length (sc_in s)
        then (Success (take n (sc_in s)), s\<lparr>sc_in := drop n (sc_in s)\<rparr>)
        else (Failure (script_error 109 ''ReadAll''), s)),
      sb_WriteAll = \<lambda>bs t s. (Success (), s\<lparr>sc_out := sc_out s @ [bs]\<rparr>),
      sb_DisconnectClient = \<lambda>s. (Success (), s\<lparr>sc_there := False\<rparr>),
      sb_Close = \<lambda>s. s,
      sb_ClientPid = sc_pid, sb_ClientSessionId = sc_session, sb_ClientUserSid = sc_sid,
      sb_now = \<lambda>s. (sc_clock s, s\<lparr>sc_clock := sc_clock s + 1\<rparr>)\<rparr>"

definition ping_client :: "u32 \<Rightarrow> script" where
  "ping_client session =
     \<lparr>sc_in = MakeFrame Ping 7 [] @ MakeFrame Ping 8 [], sc_out = [], sc_pid = 42,
      sc_session = session, sc_sid = [], sc_clock = 0, sc_there = True\<rparr>"

definition watched :: IpcOptions where
  "watched = default_options\<lparr>op_verdictObserver := True\<rparr>"

definition ping_run :: "u32 \<Rightarrow> (IpcServeResult result \<times> script world) option" where
  "ping_run session = ServeLoop (\<lambda>_. []) script_backend watched None 100 50 1000 0
     \<lparr>env = ping_client session, log = []\<rparr>"

definition run_facts ::
  "(IpcServeResult result \<times> script world) option \<Rightarrow> bool \<times> nat" where
  "run_facts x = (case x of None \<Rightarrow> (False, 0)
     | Some (r, w) \<Rightarrow> (HasValue r, length (filter handle_event (log w))))"

lemma ping_run_served: "ping_run 1 \<noteq> None \<and> run_facts (ping_run 1) = (True, 2)"
  by code_simp

lemma ping_run_refused: "ping_run 0 \<noteq> None \<and> run_facts (ping_run 0) = (False, 0)"
  by code_simp

text \<open>
  C3: The server hands a request to the application and writes a reply only for clients
  that pass the identity gate and the SID allow list: on every run, whatever the client
  sends and whatever the transport does, each handler call and each reply belongs to an
  authorised identity.\<close>
theorem ServeLoop_serves_only_authorised:
  assumes "ServeLoop sysmsg b opts handler acc idle budget maxF w = Some (r, w')"
  shows "\<exists>evs. log w' = log w @ evs \<and>
    (\<forall>i rq. Ev_Handle i rq \<in> set evs \<longrightarrow> authorised opts i) \<and>
    (\<forall>i rp. Ev_Reply i rp \<in> set evs \<longrightarrow> authorised opts i)"
  using ServeLoop_log [OF assms] run_log_authorised by fastforce

theorem ServeLoop_serves_only_authorised_witness:
  "case ping_run 1 of None \<Rightarrow> False
   | Some (r, w) \<Rightarrow> length (filter handle_event (log w)) = 2 \<and> list_all (ev_ok watched) (log w)"
proof -
  from ping_run_served obtain r w where run: "ping_run 1 = Some (r, w)" by auto
  from ServeLoop_serves_only_authorised [OF run [unfolded ping_run_def]]
  have h: "Ev_Handle i rq \<in> set (log w) \<Longrightarrow> authorised watched i"
    and p: "Ev_Reply i rp \<in> set (log w) \<Longrightarrow> authorised watched i" for i rq rp by auto
  have "ev_ok watched e" if "e \<in> set (log w)" for e
    using h p that by (cases e rule: event.exhaust) auto
  with run ping_run_served show ?thesis by (simp add: list_all_iff run_facts_def)
qed

text \<open>
  Every accepted client is disconnected exactly once, on the regular end and on every
  error path, and the pipe instance is then closed exactly when the session does not keep
  it for the next client; without an accepted client nothing is disconnected.\<close>
theorem ServeLoop_always_cleans_up:
  assumes "ServeLoop sysmsg b opts handler acc idle budget maxF w = Some (r, w')"
  shows "\<exists>evs. log w' = log w @ evs \<and>
    (conn_events evs = Ev_Disconnect # (if op_persistentAccept opts then [] else [Ev_Close]) \<or>
     \<not> HasValue r \<and> (evs = [] \<or> evs = [Ev_Close] \<and> \<not> op_persistentAccept opts))"
  using ServeLoop_log [OF assms] by (auto simp: run_log_def closing_def)

theorem ServeLoop_always_cleans_up_witness:
  "case ping_run 1 of None \<Rightarrow> False
   | Some (r, w) \<Rightarrow> conn_events (log w) = [Ev_Disconnect, Ev_Close]"
proof -
  from ping_run_served obtain r w where run: "ping_run 1 = Some (r, w)" and v: "HasValue r"
    by (auto simp: run_facts_def)
  from ServeLoop_always_cleans_up [OF run [unfolded ping_run_def]] v run show ?thesis
    by (simp add: watched_def default_options_def)
qed

text \<open>
  The verdict reported to the host is decided once per client: a served session
  reports exactly one verdict, \<open>AuthFailed\<close> if any reply of the connection was the
  credential error and \<open>Accepted\<close> otherwise; a failed session reports none, or once that
  the client was unauthorised.\<close>
theorem ServeLoop_verdict_once:
  assumes "ServeLoop sysmsg b opts handler acc idle budget maxF w = Some (r, w')"
    and "op_verdictObserver opts"
  shows "\<exists>evs. log w' = log w @ evs \<and>
    (if HasValue r
     then verdicts evs = [if list_ex auth_failure_event evs then V_AuthFailed else V_Accepted]
     else verdicts evs = [] \<or> verdicts evs = [V_UnauthorizedClient])"
  using ServeLoop_log [OF assms(1)] assms(2) by (auto simp: run_log_def)

theorem ServeLoop_verdict_once_witness:
  "case ping_run 0 of None \<Rightarrow> False
   | Some (r, w) \<Rightarrow> \<not> HasValue r \<and> (verdicts (log w) = [] \<or> verdicts (log w) = [V_UnauthorizedClient])"
proof -
  from ping_run_refused obtain r w where run: "ping_run 0 = Some (r, w)" and v: "\<not> HasValue r"
    by (auto simp: run_facts_def)
  from ServeLoop_verdict_once [OF run [unfolded ping_run_def]] v run show ?thesis
    by (simp add: watched_def)
qed

section \<open>The loop returns\<close>

lemma serve_frames_single:
  assumes "ls_frames ls = 0"
  shows "\<exists>r w' evs. serve_frames sysmsg b opts handler idle deadline 1 ls w = Some (r, w') \<and>
    log w' = log w @ evs \<and> length (filter handle_event evs) \<le> 1"
proof -
  obtain out w1 where fr: "serve_frame sysmsg b opts handler idle deadline 1 ls w = (out, w1)"
    by fastforce
  let ?s = "serve_frames sysmsg b opts handler idle deadline 1 ls w"
  from fr show ?thesis
  proof (cases rule: serve_frame_cases)
    case (failed e pre)
    with fr have "?s = Some (Inl e, w1)" by (subst serve_frames.simps) simp
    moreover from failed(3) have "length (filter handle_event (pre @ closing opts)) \<le> 1"
      by (simp add: failed_log_def)
    ultimately show ?thesis using failed(2) by blast
  next
    case (ended reason)
    with fr have s: "?s = Some (finish_session b opts ls reason w1)"
      by (subst serve_frames.simps) simp
    show ?thesis
      by (rule exI [of _ "fst (finish_session b opts ls reason w1)"],
          rule exI [of _ "snd (finish_session b opts ls reason w1)"])
        (simp add: s log_finish ended)
  next
    case (served i rq reply)
    then obtain ls' where "out = Out_end ls' ClientClosed"
      using assms by (simp add: next_outcome_def Let_def)
    with fr have s: "?s = Some (finish_session b opts ls' ClientClosed w1)"
      by (subst serve_frames.simps) simp
    show ?thesis
      by (rule exI [of _ "fst (finish_session b opts ls' ClientClosed w1)"],
          rule exI [of _ "snd (finish_session b opts ls' ClientClosed w1)"])
        (simp add: s log_finish served)
  qed
qed

text \<open>
  Serving one client always returns, on every transport and with every handler, and
  hands at most one request to the application.\<close>
theorem ServeOne_returns:
  "\<exists>r w' evs. ServeOne sysmsg b opts handler acc w = Some (r, w') \<and> log w' = log w @ evs \<and>
     length (filter handle_event evs) \<le> 1"
proof -
  obtain now s0 where n: "sb_now b (env w) = (now, s0)" by fastforce
  obtain r1 s1 where c: "sb_CreateAndListen b s0 = (r1, s1)" by fastforce
  obtain r2 s2 where a: "sb_AcceptClient b acc s1 = (r2, s2)" by fastforce
  let ?ls = "\<lparr>ls_frames = 0, ls_last = default_serve_result, ls_authRejected = False\<rparr>"
  show ?thesis
    using n c a serve_frames_single [of ?ls sysmsg b opts handler "op_ioTimeout opts"
        "now + op_ioTimeout opts" "w\<lparr>env := s2\<rparr>"]
    by (cases r1; cases r2) (auto simp: ServeOne_def ServeLoop_def log_simps)
qed

text \<open>No stage before the last asks for another pass.\<close>

definition stops :: "(outcome + 'a) \<times> 's world \<Rightarrow> bool" where
  "stops m \<longleftrightarrow> (\<forall>ls. fst m \<noteq> Inl (Out_next ls))"

lemma stopsI: "(\<And>r w' ls. m = (r, w') \<Longrightarrow> r \<noteq> Inl (Out_next ls)) \<Longrightarrow> stops m"
  by (cases m) (auto simp: stops_def)

lemma stops_stages:
  "stops (header_timeout sysmsg b opts lim idle deadline ls w)"
  "stops (read_header b opts idle ls tmo w)"
  "stops (read_payload b opts h w)"
  "stops (authorize b opts rq i w)"
  "stops (run_handler b opts handler rq i w)"
  "stops (write_reply b opts rq i reply w)"
  subgoal by (rule stopsI, erule header_timeout_cases) auto
  subgoal by (rule stopsI, erule read_header_cases) auto
  subgoal by (rule stopsI, erule read_payload_cases) auto
  subgoal by (rule stopsI, erule authorize_cases) auto
  subgoal by (rule stopsI, erule run_handler_cases) auto
  subgoal by (rule stopsI, erule write_reply_cases) auto
  done

lemma andthen_next:
  assumes "andthen m f = (Out_next ls, w')" and "stops m"
  obtains x w1 where "m = (Inr x, w1)" "f x w1 = (Out_next ls, w')"
  using assms by (auto elim!: andthen_cases simp: stops_def)

text \<open>
  A client that sends finitely many bytes: every successful read takes its bytes from the
  amount still to come, and no other call adds to it.
\<close>

locale finite_client =
  fixes b :: "'s IpcServerBackend"
    and handler :: "'s Handler option"
    and pending :: "'s \<Rightarrow> nat"
  assumes read_takes: "sb_ReadAll b n t s = (Inr bs, s') \<Longrightarrow> pending s' + n \<le> pending s"
    and write_keeps: "pending (snd (sb_WriteAll b bs t s)) \<le> pending s"
    and now_keeps: "pending (snd (sb_now b s)) \<le> pending s"
    and handler_keeps: "handler = Some h \<Longrightarrow> pending (snd (h rq s)) \<le> pending s"
begin

lemma header_timeout_keeps:
  assumes "header_timeout sysmsg b opts lim idle deadline ls w = (Inr t, w')"
  shows "pending (env w') \<le> pending (env w)"
  using assms now_keeps [of "env w"]
  by (auto simp: header_timeout_def Let_def split: if_splits prod.splits)

lemma read_header_takes:
  assumes "read_header b opts idle ls tmo w = (Inr h, w')"
  shows "pending (env w') + 16 \<le> pending (env w)"
  using assms
  by (auto simp: read_header_def Let_def kIpcHeaderSize_def split: prod.splits sum.splits if_splits
      dest: read_takes)

lemma read_payload_keeps:
  assumes "read_payload b opts h w = (Inr p, w')"
  shows "pending (env w') \<le> pending (env w)"
  using assms
  by (auto simp: read_payload_def split: prod.splits sum.splits if_splits dest!: read_takes)

lemma answer_keeps:
  assumes "answer_request b opts handler maxF ls rq i w = (Out_next ls', w')"
  shows "pending (env w') \<le> pending (env w)"
proof -
  from assms [unfolded answer_request_def] stops_stages(4)
  obtain u w1 where a: "authorize b opts rq i w = (Inr u, w1)"
    and r: "andthen (run_handler b opts handler rq i w1) (\<lambda>reply w. andthen
      (write_reply b opts rq i reply w) (\<lambda>_ w. (next_outcome maxF ls rq i reply, w))) = (Out_next ls', w')"
    by (rule andthen_next)
  from a have w1: "w1 = w" by (auto elim: authorize_cases)
  from r stops_stages(5) obtain reply w2 where h: "run_handler b opts handler rq i w1 = (Inr reply, w2)"
    and wr: "andthen (write_reply b opts rq i reply w2)
      (\<lambda>_ w. (next_outcome maxF ls rq i reply, w)) = (Out_next ls', w')"
    by (rule andthen_next)
  from h have "pending (env w2) \<le> pending (env w1)"
    by (cases handler) (auto simp: run_handler_def Let_def emit_def split: prod.splits sum.splits
        dest: handler_keeps [of _ rq "env w1"])
  moreover from wr stops_stages(6) have "write_reply b opts rq i reply w2 = (Inr (), w')"
    by (rule andthen_next) simp
  then have "pending (env w') \<le> pending (env w2)"
    using write_keeps by (auto simp: write_reply_def emit_def split: prod.splits sum.splits) (metis snd_conv)
  ultimately show ?thesis using w1 by simp
qed

lemma frame_takes:
  assumes "serve_frame sysmsg b opts handler idle deadline maxF ls w = (Out_next ls', w')"
  shows "pending (env w') < pending (env w)"
proof -
  from assms [unfolded serve_frame_def] stops_stages(1)
  obtain tmo w1 where t: "header_timeout sysmsg b opts (maxF \<noteq> 0) idle deadline ls w = (Inr tmo, w1)"
    and r: "andthen (read_header b opts idle ls tmo w1) (\<lambda>h w. andthen (read_payload b opts h w)
      (\<lambda>payload w. answer_request b opts handler maxF ls (make_request b h payload (env w))
        (make_identity b (env w)) w)) = (Out_next ls', w')"
    by (rule andthen_next)
  from r stops_stages(2) obtain h w2 where h: "read_header b opts idle ls tmo w1 = (Inr h, w2)"
    and p: "andthen (read_payload b opts h w2) (\<lambda>payload w. answer_request b opts handler maxF ls
      (make_request b h payload (env w)) (make_identity b (env w)) w) = (Out_next ls', w')"
    by (rule andthen_next)
  from p stops_stages(3) obtain payload w3 where pl: "read_payload b opts h w2 = (Inr payload, w3)"
    and an: "answer_request b opts handler maxF ls (make_request b h payload (env w3))
      (make_identity b (env w3)) w3 = (Out_next ls', w')"
    by (rule andthen_next)
  from header_timeout_keeps [OF t] read_header_takes [OF h] read_payload_keeps [OF pl] answer_keeps [OF an]
  show ?thesis by simp
qed

lemma serve_frames_returns:
  "\<exists>r w'. serve_frames sysmsg b opts handler idle deadline maxF ls w = Some (r, w')"
proof (induction "pending (env w)" arbitrary: ls w rule: less_induct)
  case less
  obtain out w1 where fr: "serve_frame sysmsg b opts handler idle deadline maxF ls w = (out, w1)"
    by fastforce
  show ?case
  proof (cases out)
    case (Out_next ls')
    with fr frame_takes have "pending (env w1) < pending (env w)" by blast
    from less [OF this] fr Out_next show ?thesis by (subst serve_frames.simps) auto
  qed (use fr in \<open>subst serve_frames.simps, auto simp: finish_session_def\<close>)+
qed

lemma serve_loop_returns:
  "\<exists>r w'. ServeLoop sysmsg b opts handler acc idle budget maxF w = Some (r, w')"
  unfolding ServeLoop_def using serve_frames_returns
  by (auto split: prod.splits sum.splits)

end

interpretation script: finite_client script_backend None "\<lambda>s. length (sc_in s)"
  by unfold_locales (auto simp: script_backend_def split: if_splits)

text \<open>
  A multi-frame session returns for every client that sends finitely many bytes,
  whatever the transport does otherwise and however the clock runs.\<close>
theorem ServeSession_returns:
  assumes "finite_client b handler pending"
  shows "\<exists>r w'. ServeSession sysmsg b opts handler acc idle budget w = Some (r, w')"
  using finite_client.serve_loop_returns [OF assms] by (simp add: ServeSession_def)

theorem ServeSession_returns_witness:
  "\<exists>r w'. ServeSession (\<lambda>_. []) script_backend watched None 100 50 1000
     \<lparr>env = ping_client 1, log = []\<rparr> = Some (r, w')"
  by (rule ServeSession_returns [OF script.finite_client_axioms])

section \<open>The default handler\<close>

lemma wide_Nil [simp]: "wide [] = []" and wide_Cons [simp]: "wide (c # s) = of_nat (of_char c) # wide s"
  by (simp_all add: wide_def)

lemma TokenMatches_iff: "TokenMatches t e \<longleftrightarrow> e = wide t \<and> list_all (\<lambda>c. c \<le> 0x7F) e"
  by (induction t e rule: TokenMatches.induct) (auto simp: not_le)

lemma token_ascii:
  assumes "fact_registered f" and "fkey f = kFactsTokenKey"
  shows "list_all (\<lambda>c. c \<le> 0x7F) (wide (fval f))"
proof -
  have ascii: "IsAsciiKeyChar c \<Longrightarrow> (of_nat (of_char c) :: u16) \<le> 0x7F" for c
  proof -
    assume "IsAsciiKeyChar c"
    then have "(of_char c :: nat) \<le> 127"
      by (auto simp: IsAsciiKeyChar_def is_alnum_def is_lower_def is_upper_def is_digit_def)
    then show ?thesis by (simp add: word_le_nat_alt unat_of_nat)
  qed
  from assms have "list_all IsAsciiKeyChar (fval f)" by (simp add: fact_registered_def)
  then show ?thesis using ascii by (auto simp: wide_def list_all_iff)
qed

lemma ValidateFactsV1Schema_registered:
  assumes "ValidateFactsV1Schema fs = Success ()"
  shows "list_all fact_registered fs"
  using assms schema_loop_iff [of _ fs]
  by (auto simp: ValidateFactsV1Schema_def split: sum.splits)

text \<open>The facts that justify an acknowledgement.\<close>

definition acknowledged :: "IpcRequest \<Rightarrow> wstring \<Rightarrow> IpcFact list \<Rightarrow> bool" where
  "acknowledged rq tok fs \<longleftrightarrow>
     SerializeFactsV1 fs = Success (rq_payload rq) \<and> ValidateFactsV1Schema fs = Success () \<and>
     (tok = [] \<or> (\<exists>f \<in> set fs. fkey f = kFactsTokenKey \<and> wide (fval f) = tok))"

lemma unit_result_HasValue: "HasValue r \<longleftrightarrow> r = Success ()"
  by (cases r) auto

lemma DefaultHandler_facts:
  assumes "rq_type rq = FactsSnapshot" and "ParseFactsV1 (rq_payload rq) = Success fs"
  shows "DefaultHandler rq tok =
    (if ValidateFactsV1Schema fs \<noteq> Success () then Success (error_reply InvalidFacts)
     else if \<not> acknowledged rq tok fs then Success (error_reply AuthFailed)
     else Success \<lparr>rp_type = Ack, rp_payload = BytesFromText (FormatFactsSummary fs)\<rparr>)"
proof (cases "ValidateFactsV1Schema fs = Success ()")
  case True
  have ser: "SerializeFactsV1 fs = Success (rq_payload rq)"
    using ParseFactsV1_Success [OF assms(2)] SerializeFactsV1_iff by blast
  have tok: "TokenMatches (fval f) tok \<longleftrightarrow> wide (fval f) = tok"
    if "f \<in> set fs" "fkey f = kFactsTokenKey" for f
    using token_ascii [of f] ValidateFactsV1Schema_registered [OF True] that
    by (auto simp: TokenMatches_iff list_all_iff)
  then show ?thesis
    using True assms ser
    by (auto simp: DefaultHandler_def unit_result_HasValue acknowledged_def list_ex_iff)
qed (use assms in \<open>simp add: DefaultHandler_def unit_result_HasValue\<close>)

lemma header_fits: "length p \<le> 4096 \<Longrightarrow> header_ok (MakeIpcHeader t (of_nat (length p)) rid)"
  by (simp add: header_ok_def MakeIpcHeader_def kMaxPayloadLength_def word_le_nat_alt unat_of_nat)

lemma error_reply_simps [simp]:
  "rp_type (error_reply c) = Msg_Error" "length (rp_payload (error_reply c)) = 1"
  by (simp_all add: error_reply_def)

lemma error_reply_fits: "header_ok (MakeIpcHeader Msg_Error 1 rid)"
  using header_fits [of "[0]" Msg_Error rid] by simp

lemma acknowledged_unique:
  assumes "acknowledged rq tok gs"
  shows "ParseFactsV1 (rq_payload rq) = Success gs \<and> ValidateFactsV1Schema gs = Success ()"
proof -
  from assms have ser: "SerializeFactsV1 gs = Success (rq_payload rq)"
    and sch: "ValidateFactsV1Schema gs = Success ()"
    by (simp_all add: acknowledged_def)
  from ser have "facts_ok gs" "rq_payload rq = BytesFromText (facts_text gs)"
    by (simp_all add: SerializeFactsV1_iff)
  then show ?thesis using ParseFactsV1_text [of gs] sch by simp
qed

text \<open>
  The default handler acknowledges a facts snapshot exactly when its payload is the
  serialisation of facts that pass the registry and, when a credential is required, carry
  it unchanged; and every reply it produces, for any request, fits into a frame.\<close>
theorem DefaultHandler_acknowledges_exactly:
  assumes "rq_type rq = FactsSnapshot"
  shows "((\<exists>r. DefaultHandler rq tok = Success r \<and> rp_type r = Ack) \<longleftrightarrow> (\<exists>fs. acknowledged rq tok fs)) \<and>
    (\<forall>r. DefaultHandler rq tok = Success r \<longrightarrow>
      header_ok (MakeIpcHeader (rp_type r) (of_nat (length (rp_payload r))) rid))"
proof (cases "ParseFactsV1 (rq_payload rq)")
  case (Inl e)
  then have "\<not> acknowledged rq tok fs" for fs using acknowledged_unique by fastforce
  moreover from Inl assms have "DefaultHandler rq tok = Success (error_reply InvalidFacts)"
    by (simp add: DefaultHandler_def)
  ultimately show ?thesis by (auto intro: error_reply_fits)
next
  case (Inr fs)
  have len: "length (BytesFromText (FormatFactsSummary fs)) \<le> 4096"
    using ParseFactsV1_Success [OF Inr] FormatFactsSummary_length [of fs]
    by (simp add: BytesFromText_def facts_ok_def facts_limits)
  have uniq: "acknowledged rq tok gs \<Longrightarrow> gs = fs \<and> ValidateFactsV1Schema fs = Success ()" for gs
    using acknowledged_unique [of rq tok gs] Inr by simp
  note h = DefaultHandler_facts [OF assms Inr, of tok]
  show ?thesis
  proof (cases "acknowledged rq tok fs")
    case True
    with h uniq [OF True] have "DefaultHandler rq tok =
        Success \<lparr>rp_type = Ack, rp_payload = BytesFromText (FormatFactsSummary fs)\<rparr>" by simp
    with True len show ?thesis by (auto intro: header_fits)
  next
    case False
    with uniq have "\<not> acknowledged rq tok gs" for gs by blast
    moreover from False h obtain c where "DefaultHandler rq tok = Success (error_reply c)"
      by (simp split: if_splits)
    ultimately show ?thesis by (auto intro: error_reply_fits)
  qed
qed

theorem DefaultHandler_acknowledges_exactly_witness:
  "\<not> (\<exists>r. DefaultHandler \<lparr>rq_type = FactsSnapshot, rq_requestId = 1,
      rq_payload = BytesFromText (''CPOPFACTS/1'' @ [LF] @ ''client_pid=7''), rq_clientPid = 7,
      rq_clientSessionId = 1\<rparr> (wide ''secret'') = Success r \<and> rp_type r = Ack)"
proof -
  let ?rq = "\<lparr>rq_type = FactsSnapshot, rq_requestId = 1,
      rq_payload = BytesFromText (''CPOPFACTS/1'' @ [LF] @ ''client_pid=7''), rq_clientPid = 7,
      rq_clientSessionId = 1\<rparr>"
  have p: "ParseFactsV1 (rq_payload ?rq) = Success [\<lparr>fkey = ''client_pid'', fval = ''7''\<rparr>]"
    by code_simp
  have "\<not> acknowledged ?rq (wide ''secret'') fs" for fs
  proof
    assume a: "acknowledged ?rq (wide ''secret'') fs"
    with acknowledged_unique [OF a] p have "fs = [\<lparr>fkey = ''client_pid'', fval = ''7''\<rparr>]" by simp
    with a show False by (simp add: acknowledged_def kFactsTokenKey_def)
  qed
  then show ?thesis
    using DefaultHandler_acknowledges_exactly [of ?rq "wide ''secret''"] by simp
qed

section \<open>Pacing\<close>

lemma double_capped_eq:
  "0 < gap \<Longrightarrow> gap \<le> cap \<Longrightarrow> double_capped n gap cap = min cap (gap * 2 ^ n)"
proof (induction n gap cap rule: double_capped.induct)
  case (2 n gap cap)
  have big: "gap * 2 \<le> gap * 2 ^ Suc n" using "2.prems" by simp
  show ?case
  proof (cases "gap < cap")
    case True
    show ?thesis
    proof (cases "gap > cap div 2")
      case True
      then have "cap \<le> gap * 2" by linarith
      with big have "cap \<le> gap * 2 ^ Suc n" by linarith
      with True \<open>gap < cap\<close> show ?thesis by simp
    next
      case False
      then have "gap * 2 \<le> cap" by linarith
      with False True "2.IH" "2.prems" show ?thesis by (simp add: Let_def mult.assoc)
    qed
  next
    case False
    with "2.prems" big have "cap = gap" "gap \<le> gap * 2 ^ Suc n" by linarith+
    with False show ?thesis by simp
  qed
qed simp

lemma gap_at_least: "0 < (g :: int) \<Longrightarrow> g \<le> g * 2 ^ n"
  using mult_left_mono [of 1 "2 ^ n" g] by simp

text \<open>
  The interval before the next report is never shorter than the base interval: it is
  the largest of the base, the base doubled once per consecutive failure up to the failure
  cap, and the base doubled once per step of absence up to the absence cap; with no
  failure and the user present (or presence unknown) it is exactly the base.\<close>
theorem IpcReportNextGap_exact:
  assumes "0 < base"
  shows "IpcReportNextGap failures base failureCap idle awayAfter awayStep awayCap =
    max (max base (if failures > 0 then min failureCap (base * 2 ^ failures) else base))
      (case idle of None \<Rightarrow> base
       | Some i \<Rightarrow> if awayCap > 0 \<and> awayAfter > 0 \<and> awayAfter \<le> i
           then min awayCap (base * 2 ^ nat (1 + (i - awayAfter) div max 1 awayStep)) else base)"
proof -
  let ?f = "if failureCap > 0 \<and> failureCap > base \<and> failures > 0
            then IpcReportGapAfterFailures failures base failureCap else base"
  have f: "?f = max base (if failures > 0 then min failureCap (base * 2 ^ failures) else base)"
    using assms gap_at_least [OF assms, of failures]
    by (auto simp: IpcReportGapAfterFailures_def double_capped_eq)
  have a: "IpcReportGapAfterUserIdle i base awayAfter awayStep awayCap =
      (if awayAfter \<le> i then min awayCap (base * 2 ^ nat (1 + (i - awayAfter) div max 1 awayStep)) else base)"
    if "awayCap > 0" "awayAfter > 0" for i
  proof -
    have step: "(if awayStep \<le> 0 then 1 else awayStep) = max 1 awayStep" by auto
    have cut: "awayCap < base \<Longrightarrow> min awayCap (base * 2 ^ n) = awayCap" for n
      using gap_at_least [OF assms, of n] by (metis less_le_trans min.absorb3)
    show ?thesis
      using that assms unfolding IpcReportGapAfterUserIdle_def Let_def step
      by (auto simp: double_capped_eq not_le cut)
  qed
  show ?thesis
    unfolding IpcReportNextGap_def Let_def f
    by (auto simp: a max_def split: option.splits)
qed

theorem IpcReportNextGap_exact_witness:
  "IpcReportNextGap 3 1000 5000 (Some 700) 600 60 8000 = 5000"
  using IpcReportNextGap_exact [of 1000 3 5000 "Some 700" 600 60 8000] by simp

section \<open>The client reads what the server wrote\<close>

text \<open>The first frame of a byte sequence.\<close>

definition read_frame :: "u8 list \<Rightarrow> (IpcHeader \<times> u8 list) option" where
  "read_frame bs =
     (if length bs < 16 then None
      else case ParseHeader (take 16 bs) of
             Inl _ \<Rightarrow> None
           | Inr h \<Rightarrow>
               if length bs < 16 + unat (payloadLength h) then None
               else Some (h, take (unat (payloadLength h)) (drop 16 bs)))"

lemma ParseHeader_take:
  "ParseHeader (take 16 bs) = Success h \<longleftrightarrow>
     header_ok h \<and> (\<exists>rest. bs = SerializeHeader h @ rest)"
proof
  assume "ParseHeader (take 16 bs) = Success h"
  then have "length (take 16 bs) = kIpcHeaderSize" "h = decode (take 16 bs)" "header_ok h"
    unfolding ParseHeader_iff by blast+
  with SerializeHeader_decode have "take 16 bs = SerializeHeader h" by metis
  then have "bs = SerializeHeader h @ drop 16 bs" by (metis append_take_drop_id)
  with \<open>header_ok h\<close> show "header_ok h \<and> (\<exists>rest. bs = SerializeHeader h @ rest)" by blast
next
  assume "header_ok h \<and> (\<exists>rest. bs = SerializeHeader h @ rest)"
  then show "ParseHeader (take 16 bs) = Success h"
    using length_SerializeHeader [of h]
    by (auto simp: ParseHeader_iff decode_SerializeHeader kIpcHeaderSize_def)
qed

lemma read_frame_iff:
  "read_frame bs = Some (h, p) \<longleftrightarrow> header_ok h \<and> length p = unat (payloadLength h) \<and>
     (\<exists>rest. bs = SerializeHeader h @ p @ rest)" (is "?L \<longleftrightarrow> ?R")
proof
  assume ?L
  then have ph: "ParseHeader (take 16 bs) = Success h" and l: "16 + unat (payloadLength h) \<le> length bs"
    and p: "p = take (unat (payloadLength h)) (drop 16 bs)"
    by (auto simp: read_frame_def split: if_splits sum.splits)
  from ph obtain rest where ok: "header_ok h" and bs: "bs = SerializeHeader h @ rest"
    using ParseHeader_take by blast
  with l p have "p = take (unat (payloadLength h)) rest" "unat (payloadLength h) \<le> length rest"
    using length_SerializeHeader [of h] by (simp_all add: kIpcHeaderSize_def)
  then have "length p = unat (payloadLength h)" "bs = SerializeHeader h @ p @ drop (unat (payloadLength h)) rest"
    using bs by simp_all
  with ok show ?R by blast
next
  assume ?R
  then obtain rest where ok: "header_ok h" and l: "length p = unat (payloadLength h)"
    and bs: "bs = SerializeHeader h @ p @ rest" by blast
  then have "ParseHeader (take 16 bs) = Success h" using ParseHeader_take by blast
  with l bs show ?L
    using length_SerializeHeader [of h] by (simp add: read_frame_def kIpcHeaderSize_def)
qed

lemma check_reply_iff:
  assumes "header_ok h"
  shows "check_reply op rid h p = Success r \<longleftrightarrow>
    requestId h = rid \<and> mtype h = type_byte (rp_type r) \<and> rp_type r \<noteq> Msg_Error \<and> p = rp_payload r"
proof -
  from assms obtain t where t: "mtype h = type_byte t" by (auto simp: header_ok_def)
  then have "ParseMessageType (mtype h) = Some t" by (simp add: ParseMessageType_iff)
  with t show ?thesis by (cases r) (auto simp: check_reply_def Let_def type_byte_inj)
qed

text \<open>A frame with a matching id that is not an error is exactly what \<open>MakeFrame\<close> produces.\<close>

lemma frame_of_reply:
  "(\<exists>h p. read_frame bs = Some (h, p) \<and> check_reply op rid h p = Success r) \<longleftrightarrow>
   rp_type r \<noteq> Msg_Error \<and> length (rp_payload r) \<le> 4096 \<and>
   (\<exists>rest. bs = MakeFrame (rp_type r) rid (rp_payload r) @ rest)" (is "?L \<longleftrightarrow> ?R")
proof
  assume ?L
  then obtain h p where f: "read_frame bs = Some (h, p)" and c: "check_reply op rid h p = Success r"
    by blast
  from f obtain rest where ok: "header_ok h" and len: "length p = unat (payloadLength h)"
    and bs: "bs = SerializeHeader h @ p @ rest" unfolding read_frame_iff by blast
  from c check_reply_iff [OF ok] have r: "requestId h = rid" "mtype h = type_byte (rp_type r)"
    "rp_type r \<noteq> Msg_Error" "p = rp_payload r" by auto
  have le: "length p \<le> 4096"
    using ok len by (simp add: header_ok_def kMaxPayloadLength_def word_le_nat_alt)
  have "h = MakeIpcHeader (rp_type r) (of_nat (length p)) rid"
    using ok r len by (cases h) (simp add: header_ok_def MakeIpcHeader_def)
  with bs r le show ?R by (auto simp: MakeFrame_def)
next
  assume ?R
  then obtain rest where e: "rp_type r \<noteq> Msg_Error" and le: "length (rp_payload r) \<le> 4096"
    and bs: "bs = MakeFrame (rp_type r) rid (rp_payload r) @ rest" by blast
  let ?h = "MakeIpcHeader (rp_type r) (of_nat (length (rp_payload r))) rid"
  have ok: "header_ok ?h" by (rule header_fits [OF le])
  have "unat (payloadLength ?h) = length (rp_payload r)"
    using le by (simp add: MakeIpcHeader_def unat_of_nat)
  with ok bs have "read_frame bs = Some (?h, rp_payload r)"
    by (auto simp: read_frame_iff MakeFrame_def)
  moreover have "check_reply op rid ?h (rp_payload r) = Success r"
    using check_reply_iff [OF ok] e by (simp add: MakeIpcHeader_def)
  ultimately show ?L by blast
qed

text \<open>
  A connected byte stream: writing does not change what the server is going to send
  (\<open>inp\<close>), and a read of \<open>n\<close> bytes takes the next \<open>n\<close> of them, failing only when there
  are fewer.
\<close>

locale byte_stream =
  fixes c :: "'s IpcClientBackend"
    and inp :: "'s \<Rightarrow> u8 list"
  assumes connects: "\<exists>s'. cb_Connect c pipe t s = (Success (), s') \<and> inp s' = inp s"
    and writes: "\<exists>s'. cb_WriteAll c bs t s = (Success (), s') \<and> inp s' = inp s"
    and reads: "if n \<le> length (inp s)
      then \<exists>s'. cb_ReadAll c n t s = (Success (take n (inp s)), s') \<and> inp s' = drop n (inp s)
      else \<exists>e s'. cb_ReadAll c n t s = (Failure e, s')"
begin

lemma exchange_frame:
  "(\<exists>s'. exchange op c fr t s = (Success r, s')) \<longleftrightarrow>
   (\<exists>h p. read_frame (inp s) = Some (h, p) \<and> check_reply op (fr_requestId fr) h p = Success r)"
proof -
  obtain s1 where w: "cb_WriteAll c (MakeFrame (fr_type fr) (fr_requestId fr) (fr_payload fr)) t s = (Success (), s1)"
    and i1: "inp s1 = inp s" using writes by blast
  show ?thesis
  proof (cases "16 \<le> length (inp s)")
    case False
    with reads [of 16 s1 t] i1 obtain e s2 where "cb_ReadAll c 16 t s1 = (Failure e, s2)" by auto
    with w False show ?thesis by (simp add: exchange_def kIpcHeaderSize_def read_frame_def)
  next
    case True
    with reads [of 16 s1 t] i1 obtain s2 where
      r: "cb_ReadAll c 16 t s1 = (Success (take 16 (inp s)), s2)" and i2: "inp s2 = drop 16 (inp s)"
      by auto
    show ?thesis
    proof (cases "ParseHeader (take 16 (inp s))")
      case (Inl e)
      with w r True show ?thesis by (simp add: exchange_def kIpcHeaderSize_def read_frame_def)
    next
      case (Inr h)
      show ?thesis
      proof (cases "payloadLength h > 0")
        case pos: True
        let ?n = "unat (payloadLength h)"
        show ?thesis
        proof (cases "?n \<le> length (inp s2)")
          case n: True
          with reads [of ?n s2 t] obtain s3 where
            r2: "cb_ReadAll c ?n t s2 = (Success (take ?n (inp s2)), s3)" by auto
          from n i2 True have "16 + ?n \<le> length (inp s)" by simp
          with w r Inr pos r2 i2 True show ?thesis
            by (auto simp: exchange_def kIpcHeaderSize_def read_frame_def)
        next
          case n: False
          with reads [of ?n s2 t] obtain e s3 where r2: "cb_ReadAll c ?n t s2 = (Failure e, s3)" by auto
          from n i2 True have "length (inp s) < 16 + ?n" by simp
          with w r Inr pos r2 True show ?thesis
            by (simp add: exchange_def kIpcHeaderSize_def read_frame_def)
        qed
      next
        case zero: False
        then have "unat (payloadLength h) = 0" by (simp add: word_less_nat_alt)
        with w r Inr zero True show ?thesis
          by (auto simp: exchange_def kIpcHeaderSize_def read_frame_def)
      qed
    qed
  qed
qed

lemma round_trip_frame:
  "(\<exists>s'. IpcRoundTrip c pipe ty payload rid t s = (Success r, s')) \<longleftrightarrow>
   rp_type r \<noteq> Msg_Error \<and> length (rp_payload r) \<le> 4096 \<and>
   (\<exists>rest. inp s = MakeFrame (rp_type r) rid (rp_payload r) @ rest)"
proof -
  obtain s1 where "cb_Connect c pipe t s = (Success (), s1)" and i: "inp s1 = inp s"
    using connects by blast
  then have "(\<exists>s'. IpcRoundTrip c pipe ty payload rid t s = (Success r, s')) \<longleftrightarrow>
      (\<exists>s'. exchange ''IpcRoundTrip'' c \<lparr>fr_type = ty, fr_requestId = rid, fr_payload = payload\<rparr> t s1 = (Success r, s'))"
    by (auto simp: IpcRoundTrip_def split: prod.splits)
  then show ?thesis unfolding exchange_frame frame_of_reply [symmetric, of _ _ _ "''IpcRoundTrip''"]
    by (simp add: i)
qed

end

text \<open>The stream of a connected pipe: the bytes still to come.\<close>

definition pipe_client :: "u8 list IpcClientBackend" where
  "pipe_client =
     \<lparr>cb_Connect = \<lambda>p t s. (Success (), s), cb_WriteAll = \<lambda>bs t s. (Success (), s),
      cb_ReadAll = \<lambda>n t s. (if n \<le> length s then (Success (take n s), drop n s)
                            else (Failure (script_error 109 ''ReadAll''), [])),
      cb_Close = \<lambda>s. s\<rparr>"

interpretation pipe: byte_stream pipe_client "\<lambda>s. s"
  by unfold_locales (auto simp: pipe_client_def)

text \<open>
  C39: Over a connected pipe the client's round trip succeeds with a reply exactly when
  the server's bytes begin with the frame the server writes for that reply, with the id
  of the request, a payload within the limit and a type other than \<open>Error\<close>: a reply to
  another request, a malformed frame, a cut frame or an error reply never comes back as
  success, and every proper reply does.\<close>
theorem IpcRoundTrip_exact:
  assumes "byte_stream c inp"
  shows "(\<exists>s'. IpcRoundTrip c pipe ty payload rid t s = (Success r, s')) \<longleftrightarrow>
    rp_type r \<noteq> Msg_Error \<and> length (rp_payload r) \<le> 4096 \<and>
    (\<exists>rest. inp s = MakeFrame (rp_type r) rid (rp_payload r) @ rest)"
  by (rule byte_stream.round_trip_frame [OF assms])

theorem IpcRoundTrip_exact_witness:
  "\<exists>s'. IpcRoundTrip pipe_client [] Ping [] 7 100 (MakeFrame Ack 7 [1, 2] @ MakeFrame Ack 8 []) =
     (Success \<lparr>rp_type = Ack, rp_payload = [1, 2]\<rparr>, s')"
  using IpcRoundTrip_exact [OF pipe.byte_stream_axioms, of "[]" Ping "[]" 7 100
      "MakeFrame Ack 7 [1, 2] @ MakeFrame Ack 8 []" "\<lparr>rp_type = Ack, rp_payload = [1, 2]\<rparr>"]
  by simp

end
