(* ===== verification/Ipc_Reporter.thy ===== *)
theory Ipc_Reporter
  imports Ipc_Session "HOL-Library.Multiset"
begin

text \<open>
  The two long-running users of the session layer in \<^verbatim>\<open>source/ipc/ipc_session.cpp\<close>: the periodic reporter of the
  agent (\<open>RunPeriodicReporter\<close>) and the server with several concurrent pipe instances (\<open>RunConcurrentServer\<close>).
  The reporter is a function over a state (client backend, steady clock in nanoseconds, sleeping, the
  supplier of frames and the idle probe are its parameters).  The workers of the server are a step
  relation: each has its own session, they share the summary, and every interleaving is a run.
\<close>

section \<open>The periodic reporter\<close>

record IpcPeriodicReportOptions =
  ro_pipePath :: wstring
  ro_window :: int
  ro_interval :: int
  ro_intervalCap :: int
  ro_ioTimeout :: int
  ro_maxConnectAttempts :: nat
  ro_reconnectBackoff :: int
  ro_userAwayAfterSeconds :: int
  ro_userAwayStepSeconds :: int
  ro_userAwayCap :: int

record IpcPeriodicReportSummary =
  rs_reportsSent :: nat
  rs_connectFailures :: nat
  rs_lastReplyAck :: bool

definition no_reports :: IpcPeriodicReportSummary where
  "no_reports = \<lparr>rs_reportsSent = 0, rs_connectFailures = 0, rs_lastReplyAck = False\<rparr>"

record 's reporter =
  re_client :: "'s IpcClientBackend"
  re_now :: "'s \<Rightarrow> int \<times> 's"
  re_sleep :: "int \<Rightarrow> 's \<Rightarrow> 's"
  re_request :: "('s \<Rightarrow> IpcFrameRequest result \<times> 's) option"
  re_idle :: "('s \<Rightarrow> int result \<times> 's) option"

text \<open>Milliseconds of the options, nanoseconds of the clock.\<close>

definition ms :: "int \<Rightarrow> int" where "ms t = t * 1000000"

text \<open>The attempts of one period; \<open>n\<close> is the number of attempts left.\<close>

fun try_report ::
  "'s reporter \<Rightarrow> IpcPeriodicReportOptions \<Rightarrow> int \<Rightarrow> IpcFrameRequest \<Rightarrow> nat \<Rightarrow> 's \<Rightarrow> IpcReply option \<times> 's" where
  "try_report R opts deadline fr 0 s = (None, s)"
| "try_report R opts deadline fr (Suc n) s =
     (let (now, s1) = re_now R s
      in if now \<ge> deadline then (None, s1)
         else (case IpcRoundTrip (re_client R) (ro_pipePath opts) (fr_type fr) (fr_payload fr) (fr_requestId fr) (ro_ioTimeout opts) s1 of
                 (Inr reply, s2) \<Rightarrow> (Some reply, s2)
               | (Inl _, s2) \<Rightarrow>
                   if n > 0 then try_report R opts deadline fr n (re_sleep R (ro_reconnectBackoff opts) s2) else (None, s2)))"

definition count_report :: "IpcReply option \<Rightarrow> IpcPeriodicReportSummary \<Rightarrow> IpcPeriodicReportSummary" where
  "count_report reply su =
     (case reply of
        Some r \<Rightarrow> su\<lparr>rs_reportsSent := rs_reportsSent su + 1, rs_lastReplyAck := (rp_type r = Ack)\<rparr>
      | None \<Rightarrow> su\<lparr>rs_connectFailures := rs_connectFailures su + 1\<rparr>)"

definition sample_idle :: "'s reporter \<Rightarrow> IpcPeriodicReportOptions \<Rightarrow> 's \<Rightarrow> int option \<times> 's" where
  "sample_idle R opts s =
     (case re_idle R of
        None \<Rightarrow> (None, s)
      | Some f \<Rightarrow>
          if ro_userAwayCap opts > 0 \<and> ro_userAwayAfterSeconds opts > 0
          then (case f s of (Inl _, s1) \<Rightarrow> (None, s1) | (Inr i, s1) \<Rightarrow> (Some i, s1))
          else (None, s))"

definition next_slot :: "'s reporter \<Rightarrow> IpcPeriodicReportOptions \<Rightarrow> nat \<Rightarrow> int option \<Rightarrow> 's \<Rightarrow> int \<times> 's" where
  "next_slot R opts failures idle s =
     (case re_now R s of (now, s1) \<Rightarrow>
        (now + ms (IpcReportNextGap failures (ro_interval opts) (ro_intervalCap opts) idle (ro_userAwayAfterSeconds opts)
                     (ro_userAwayStepSeconds opts) (ro_userAwayCap opts)), s1))"

partial_function (option) report_loop ::
  "'s reporter \<Rightarrow> IpcPeriodicReportOptions \<Rightarrow> ('s \<Rightarrow> IpcFrameRequest result \<times> 's) \<Rightarrow> int \<Rightarrow> int \<Rightarrow> nat \<Rightarrow>
   IpcPeriodicReportSummary \<Rightarrow> 's \<Rightarrow> (IpcPeriodicReportSummary result \<times> 's) option" where
  [code]: "report_loop R opts request deadline nextSlot failures su s =
     (let (now, s1) = re_now R s
      in if now \<ge> deadline then Some (Success su, cb_Close (re_client R) s1)
         else if now < nextSlot
         then report_loop R opts request deadline nextSlot failures su (re_sleep R ((nextSlot - now) div 1000000) s1)
         else (case request s1 of
                 (Inl e, s2) \<Rightarrow> Some (Failure e, s2)
               | (Inr fr, s2) \<Rightarrow>
                   (let (reply, s3) = try_report R opts deadline fr (ro_maxConnectAttempts opts) s2;
                        failures' = (if reply \<noteq> None then 0 else failures + 1);
                        (idle, s4) = sample_idle R opts s3;
                        (slot, s5) = next_slot R opts failures' idle s4
                    in report_loop R opts request deadline slot failures' (count_report reply su) s5)))"

definition RunPeriodicReporter ::
  "'s reporter \<Rightarrow> IpcPeriodicReportOptions \<Rightarrow> 's \<Rightarrow> (IpcPeriodicReportSummary result \<times> 's) option" where
  "RunPeriodicReporter R opts s =
     (if ro_window opts \<le> 0 \<or> ro_interval opts \<le> 0 \<or> ro_ioTimeout opts \<le> 0 \<or> ro_maxConnectAttempts opts = 0
      then Some (Failure (Error_Validation ''RunPeriodicReporter''
             ''window/interval/ioTimeout must be positive and maxConnectAttempts>0''), s)
      else (case re_request R of
              None \<Rightarrow> Some (Failure (Error_Validation ''RunPeriodicReporter'' ''requestFactory must not be empty''), s)
            | Some request \<Rightarrow>
                (let (t0, s1) = re_now R s; (slot, s2) = re_now R s1
                 in report_loop R opts request (t0 + ms (ro_window opts)) slot 0 no_reports s2)))"

section \<open>The concurrent server\<close>

record IpcConcurrentSummary =
  cu_workers :: nat
  cu_clientsServed :: nat
  cu_failedSessions :: nat
  cu_sessions :: "IpcServeResult list"

record conc_shared =
  ch_summary :: IpcConcurrentSummary
  ch_fatal :: bool

text \<open>What the workers have in common; each worker has its own state in \<open>'s world\<close>.\<close>

record 's conc_env =
  co_sysmsg :: "u32 \<Rightarrow> string"
  co_backend :: "'s IpcServerBackend"
  co_options :: IpcOptions
  co_handler :: "'s Handler option"
  co_deadline :: int
  co_frameIdle :: int

datatype 's worker = Working "'s world" | Finished "'s world option"

definition no_activity :: "Error \<Rightarrow> bool" where
  "no_activity e \<longleftrightarrow>
     err_domain e = Win32 \<and> (err_code e = ucast ERROR_TIMEOUT \<or> err_code e = ERROR_BROKEN_PIPE \<or> err_code e = ERROR_NO_DATA)"

definition add_session :: "IpcServeResult \<Rightarrow> conc_shared \<Rightarrow> conc_shared" where
  "add_session r c = c\<lparr>ch_summary := (ch_summary c)\<lparr>cu_sessions := cu_sessions (ch_summary c) @ [r],
     cu_clientsServed := cu_clientsServed (ch_summary c) + 1\<rparr>\<rparr>"

definition add_failure :: "conc_shared \<Rightarrow> conc_shared" where
  "add_failure c = c\<lparr>ch_summary := (ch_summary c)\<lparr>cu_failedSessions := cu_failedSessions (ch_summary c) + 1\<rparr>\<rparr>"

text \<open>One round of a worker: what it adds to the summary and how it goes on.\<close>

datatype round_result = Served IpcServeResult | Idle_round | Failed_round | Expired

definition worker_round :: "'s conc_env \<Rightarrow> 's world \<Rightarrow> (round_result \<times> 's world) option" where
  "worker_round C w =
     (let (now, s1) = sb_now (co_backend C) (env w); remaining = co_deadline C - now
      in if remaining \<le> 0 then Some (Expired, IpcSession_Close (co_backend C) (w\<lparr>env := s1\<rparr>))
         else (case ServeSession (co_sysmsg C) (co_backend C) (co_options C) (co_handler C) remaining (co_frameIdle C)
                      (remaining + co_frameIdle C) (w\<lparr>env := s1\<rparr>) of
                 None \<Rightarrow> None
               | Some (Inl e, w') \<Rightarrow> Some (if no_activity e then Idle_round else Failed_round, w')
               | Some (Inr r, w') \<Rightarrow> Some (Served r, w')))"

definition apply_round :: "round_result \<Rightarrow> conc_shared \<Rightarrow> conc_shared" where
  "apply_round r c = (case r of Served x \<Rightarrow> add_session x c | Failed_round \<Rightarrow> add_failure c | _ \<Rightarrow> c)"

inductive conc_step ::
  "'s conc_env \<Rightarrow> 's worker list \<times> conc_shared \<Rightarrow> 's worker list \<times> conc_shared \<Rightarrow> bool" for C :: "'s conc_env" where
  round: "i < length ws \<Longrightarrow> ws ! i = Working w \<Longrightarrow> worker_round C w = Some (r, w') \<Longrightarrow>
     conc_step C (ws, c) (ws[i := if r = Expired then Finished (Some w') else Working w'], apply_round r c)"
| thrown: "i < length ws \<Longrightarrow> ws ! i = Working w \<Longrightarrow> conc_step C (ws, c) (ws[i := Finished None], c\<lparr>ch_fatal := True\<rparr>)"

inductive_cases conc_stepE: "conc_step C (ws, c) (ws', c')"

text \<open>The start: a worker for every instance, without a session where the factory failed.\<close>

definition conc_start :: "'s world option list \<Rightarrow> 's worker list \<times> conc_shared" where
  "conc_start sessions =
     (map (\<lambda>x. case x of None \<Rightarrow> Finished None | Some w \<Rightarrow> Working w) sessions,
      \<lparr>ch_summary = \<lparr>cu_workers = length sessions, cu_clientsServed = 0, cu_failedSessions = 0, cu_sessions = []\<rparr>,
       ch_fatal = (None \<in> set sessions)\<rparr>)"

definition all_finished :: "'s worker list \<Rightarrow> bool" where
  "all_finished ws \<longleftrightarrow> list_all (\<lambda>w. case w of Working _ \<Rightarrow> False | Finished _ \<Rightarrow> True) ws"

text \<open>The result, once every worker has been joined.\<close>

definition conc_result :: "conc_shared \<Rightarrow> IpcConcurrentSummary result" where
  "conc_result c =
     (if ch_fatal c then Failure (Error_Validation ''RunConcurrentServer'' ''worker exception or session factory failure'')
      else Success (ch_summary c))"

definition check_concurrent :: "nat \<Rightarrow> int \<Rightarrow> int \<Rightarrow> bool \<Rightarrow> Error option" where
  "check_concurrent instances window frameIdle hasFactory =
     (if instances = 0 \<or> window \<le> 0 \<or> frameIdle \<le> 0
      then Some (Error_Validation ''RunConcurrentServer'' ''instances/window/frameIdle must be positive'')
      else if \<not> hasFactory then Some (Error_Validation ''RunConcurrentServer'' ''sessionFactory must not be empty'')
      else None)"

text \<open>The outcomes of \<open>RunConcurrentServer\<close>: refused, or the result of a complete run.\<close>

inductive RunConcurrentServer ::
  "'s conc_env \<Rightarrow> nat \<Rightarrow> int \<Rightarrow> bool \<Rightarrow> 's world option list \<Rightarrow> IpcConcurrentSummary result \<Rightarrow> bool" where
  refused: "check_concurrent instances window (co_frameIdle C) hasFactory = Some e \<Longrightarrow>
     RunConcurrentServer C instances window hasFactory sessions (Failure e)"
| joined: "check_concurrent instances window (co_frameIdle C) hasFactory = None \<Longrightarrow> length sessions = instances \<Longrightarrow>
     (conc_step C)\<^sup>*\<^sup>* (conc_start sessions) (ws, c) \<Longrightarrow> all_finished ws \<Longrightarrow>
     RunConcurrentServer C instances window hasFactory sessions (conc_result c)"

section \<open>Pacing of the reporter\<close>

lemma le_larger: "a \<le> f \<Longrightarrow> a \<le> (if f > g then f else g :: int)"
  by simp

text \<open>The clock: a reading takes time, and no call turns it back.\<close>

locale reporter_clock =
  fixes R :: "'s reporter" and time :: "'s \<Rightarrow> int"
  assumes now: "re_now R s = (t, s') \<Longrightarrow> t = time s \<and> time s < time s'"
    and sleep: "time s \<le> time (re_sleep R d s)"
    and request: "re_request R = Some f \<Longrightarrow> f s = (fr, s') \<Longrightarrow> time s \<le> time s'"
    and idle: "re_idle R = Some g \<Longrightarrow> g s = (i, s') \<Longrightarrow> time s \<le> time s'"
    and connect: "cb_Connect (re_client R) p d s = (r, s') \<Longrightarrow> time s \<le> time s'"
    and wr: "cb_WriteAll (re_client R) bs d s = (r, s') \<Longrightarrow> time s \<le> time s'"
    and rd: "cb_ReadAll (re_client R) n d s = (bytes, s') \<Longrightarrow> time s \<le> time s'"
    and close: "time s \<le> time (cb_Close (re_client R) s)"
begin

lemma exchange_time: "exchange op (re_client R) fr d s = (reply, s') \<Longrightarrow> time s \<le> time s'"
  by (auto simp: exchange_def split: prod.splits sum.splits if_splits dest!: wr rd)

lemma round_trip_time: "IpcRoundTrip (re_client R) p ty pl rid d s = (reply, s') \<Longrightarrow> time s \<le> time s'"
  by (auto simp: IpcRoundTrip_def split: prod.splits sum.splits dest!: connect exchange_time intro: order_trans [OF _ close])

lemma try_report_time: "try_report R opts deadline fr n s = (reply, s') \<Longrightarrow> time s \<le> time s'"
proof (induction n arbitrary: s)
  case (Suc n)
  obtain t s1 where n: "re_now R s = (t, s1)" by fastforce
  obtain r s2 where rt: "IpcRoundTrip (re_client R) (ro_pipePath opts) (fr_type fr) (fr_payload fr) (fr_requestId fr)
      (ro_ioTimeout opts) s1 = (r, s2)" by fastforce
  have "time s \<le> time s1" "time s1 \<le> time s2" using now [OF n] round_trip_time [OF rt] by auto
  moreover have "s' = s1 \<or> s' = s2 \<or> try_report R opts deadline fr n (re_sleep R (ro_reconnectBackoff opts) s2) = (reply, s')"
    using Suc.prems n rt by (cases r) (auto split: if_splits)
  ultimately show ?case using Suc.IH sleep by (metis order_trans)
qed simp

lemma sample_idle_time: "sample_idle R opts s = (i, s') \<Longrightarrow> time s \<le> time s'"
  by (auto simp: sample_idle_def split: option.splits prod.splits sum.splits if_splits dest!: idle)

lemma next_slot_time:
  assumes "next_slot R opts failures i s = (slot, s')" and "0 < ro_interval opts"
  shows "time s < time s' \<and> time s + ms (ro_interval opts) \<le> slot"
proof -
  have "ro_interval opts \<le> (if ro_intervalCap opts > 0 \<and> ro_intervalCap opts > ro_interval opts \<and> failures > 0
      then IpcReportGapAfterFailures failures (ro_interval opts) (ro_intervalCap opts) else ro_interval opts)"
    using assms(2) gap_at_least [OF assms(2), of failures] by (simp add: IpcReportGapAfterFailures_def double_capped_eq)
  then have "ro_interval opts \<le> IpcReportNextGap failures (ro_interval opts) (ro_intervalCap opts) i (ro_userAwayAfterSeconds opts)
      (ro_userAwayStepSeconds opts) (ro_userAwayCap opts)"
    unfolding IpcReportNextGap_def Let_def by (rule le_larger)
  then show ?thesis using assms(1) by (auto simp: next_slot_def ms_def split: prod.splits dest!: now)
qed

text \<open>The loop returns: every turn reads the clock.\<close>

lemma report_loop_returns:
  assumes "re_request R = Some request" and "0 < ro_interval opts"
  shows "\<exists>r s'. report_loop R opts request deadline slot failures su s = Some (r, s')"
proof (induction "nat (deadline - time s)" arbitrary: slot failures su s rule: less_induct)
  case less
  obtain t s1 where n: "re_now R s = (t, s1)" by fastforce
  note tm = now [OF n]
  have shorter: "nat (deadline - time u) < nat (deadline - time s)" if "time s1 \<le> time u" "t < deadline" for u
    using that tm by linarith
  consider "t \<ge> deadline" | "t < deadline" "t < slot" | "t < deadline" "\<not> t < slot" by linarith
  then show ?case
  proof cases
    case 1
    then show ?thesis using n by (simp add: report_loop.simps [of R opts request deadline slot])
  next
    case 2
    from less [OF shorter [OF sleep 2(1)]] show ?thesis using n 2 by (simp add: report_loop.simps [of R opts request deadline slot failures su s])
  next
    case 3
    obtain q s2 where q: "request s1 = (q, s2)" by fastforce
    show ?thesis
    proof (cases q)
      case (Inl e)
      then show ?thesis using n 3 q by (simp add: report_loop.simps [of R opts request deadline slot])
    next
      case (Inr fr)
      obtain reply s3 where r: "try_report R opts deadline fr (ro_maxConnectAttempts opts) s2 = (reply, s3)" by fastforce
      obtain i s4 where i: "sample_idle R opts s3 = (i, s4)" by fastforce
      obtain slot' s5 where nx: "next_slot R opts (if reply \<noteq> None then 0 else failures + 1) i s4 = (slot', s5)" by fastforce
      have "time s1 \<le> time s5"
        using request [OF assms(1) q] try_report_time [OF r] sample_idle_time [OF i] next_slot_time [OF nx assms(2)] by linarith
      from less [OF shorter [OF this 3(1)]] show ?thesis
        using n 3 q Inr r i nx by (simp add: report_loop.simps [of R opts request deadline slot failures su s])
    qed
  qed
qed

text \<open>The number of periods: each begins at least an interval after the one before, and inside the window.\<close>

lemma report_loop_paced:
  assumes "report_loop R opts request deadline slot failures su s = Some (Success su', s')"
    and "re_request R = Some request" and "0 < ro_interval opts" and "deadline \<le> t0 + ms (ro_window opts)"
    and "t0 + int (rs_reportsSent su + rs_connectFailures su) * ms (ro_interval opts) \<le> slot"
    and "0 < rs_reportsSent su + rs_connectFailures su \<longrightarrow>
       int (rs_reportsSent su + rs_connectFailures su - 1) * ro_interval opts < ro_window opts"
  shows "0 < rs_reportsSent su' + rs_connectFailures su' \<longrightarrow>
       int (rs_reportsSent su' + rs_connectFailures su' - 1) * ro_interval opts < ro_window opts"
  using assms(1,5,6)
proof (induction "nat (deadline - time s)" arbitrary: slot failures su s rule: less_induct)
  case less
  obtain t s1 where n: "re_now R s = (t, s1)" by fastforce
  note tm = now [OF n]
  have shorter: "nat (deadline - time u) < nat (deadline - time s)" if "time s1 \<le> time u" "t < deadline" for u
    using that tm by linarith
  note run = less.prems(1) [unfolded report_loop.simps [of R opts request deadline slot failures su s] n Let_def prod.case]
  consider "t \<ge> deadline" | "t < deadline" "t < slot" | "t < deadline" "\<not> t < slot" by linarith
  then show ?case
  proof cases
    case 1
    then show ?thesis using run less.prems(3) by simp
  next
    case 2
    then show ?thesis using less.hyps [OF shorter [OF sleep 2(1)] _ less.prems(2,3)] run by simp
  next
    case 3
    obtain q s2 where q: "request s1 = (q, s2)" by fastforce
    then obtain fr where fr: "q = Inr fr" using run 3 by (cases q) auto
    obtain reply s3 where r: "try_report R opts deadline fr (ro_maxConnectAttempts opts) s2 = (reply, s3)" by fastforce
    obtain i s4 where i: "sample_idle R opts s3 = (i, s4)" by fastforce
    obtain slot' s5 where nx: "next_slot R opts (if reply \<noteq> None then 0 else failures + 1) i s4 = (slot', s5)" by fastforce
    have t15: "time s1 \<le> time s4" "time s4 < time s5" "time s4 + ms (ro_interval opts) \<le> slot'"
      using request [OF assms(2) q] try_report_time [OF r] sample_idle_time [OF i] next_slot_time [OF nx assms(3)] by linarith+
    let ?c = "int (rs_reportsSent su + rs_connectFailures su)"
    have c': "rs_reportsSent (count_report reply su) + rs_connectFailures (count_report reply su) = rs_reportsSent su + rs_connectFailures su + 1"
      by (simp add: count_report_def split: option.splits)
    have "t0 + ?c * ms (ro_interval opts) \<le> t" using less.prems(2) 3(2) by linarith
    then have in_window: "?c * ms (ro_interval opts) < ms (ro_window opts)" using assms(4) 3(1) by linarith
    then have "(?c * ro_interval opts) * 1000000 < ro_window opts * 1000000" by (simp add: ms_def mult.assoc)
    then have Q: "?c * ro_interval opts < ro_window opts" by simp
    have next': "t0 + int (rs_reportsSent su + rs_connectFailures su + 1) * ms (ro_interval opts) \<le> slot'"
      using \<open>t0 + ?c * ms (ro_interval opts) \<le> t\<close> t15 tm by (simp add: distrib_right)
    have "report_loop R opts request deadline slot' (if reply \<noteq> None then 0 else failures + 1) (count_report reply su) s5 = Some (Success su', s')"
      using run 3 q fr r i nx by simp
    from less.hyps [OF shorter [OF _ 3(1)] this] show ?thesis
      using t15 next' Q by (simp only: c') simp
  qed
qed

lemma reporter_run:
  "\<exists>r s'. RunPeriodicReporter R opts s = Some (r, s') \<and>
    (\<forall>su. r = Success su \<and> 0 < rs_reportsSent su + rs_connectFailures su \<longrightarrow>
       int (rs_reportsSent su + rs_connectFailures su - 1) * ro_interval opts < ro_window opts)"
proof (cases "(ro_window opts \<le> 0 \<or> ro_interval opts \<le> 0 \<or> ro_ioTimeout opts \<le> 0 \<or> ro_maxConnectAttempts opts = 0) \<or> re_request R = None")
  case True
  then show ?thesis by (auto simp: RunPeriodicReporter_def)
next
  case False
  then obtain f where f: "re_request R = Some f" and pos: "0 < ro_interval opts" by auto
  obtain t0 s1 where n0: "re_now R s = (t0, s1)" by fastforce
  obtain slot s2 where n1: "re_now R s1 = (slot, s2)" by fastforce
  have run: "RunPeriodicReporter R opts s = report_loop R opts f (t0 + ms (ro_window opts)) slot 0 no_reports s2"
    using False f n0 n1 by (simp add: RunPeriodicReporter_def)
  obtain r s' where l: "report_loop R opts f (t0 + ms (ro_window opts)) slot 0 no_reports s2 = Some (r, s')"
    using report_loop_returns [OF f pos] by blast
  have "t0 \<le> slot" using now [OF n0] now [OF n1] by linarith
  then have "0 < rs_reportsSent su + rs_connectFailures su \<longrightarrow>
       int (rs_reportsSent su + rs_connectFailures su - 1) * ro_interval opts < ro_window opts" if "r = Success su" for su
    using report_loop_paced [OF l [unfolded that] f pos order_refl] by (simp add: no_reports_def)
  then show ?thesis using run l by auto
qed

end

text \<open>on a clock that never goes back and advances with every reading the reporter returns, whatever the pipe does;
  and when it ends normally the periods it counted (reports delivered and reports given up) lie an interval or more apart
  inside the window, however its back-off stretches the gaps.\<close>
theorem periodic_reporter_paced:
  assumes "reporter_clock R time"
  shows "\<exists>r s'. RunPeriodicReporter R opts s = Some (r, s') \<and>
    (\<forall>su. r = Success su \<and> 0 < rs_reportsSent su + rs_connectFailures su \<longrightarrow>
       int (rs_reportsSent su + rs_connectFailures su - 1) * ro_interval opts < ro_window opts)"
  using reporter_clock.reporter_run [OF assms] .

text \<open>Every client backend can be run on a clock: each call takes one nanosecond, sleeping what it says.\<close>

definition timed_client :: "'c IpcClientBackend \<Rightarrow> (int \<times> 'c) IpcClientBackend" where
  "timed_client c =
     \<lparr>cb_Connect = (\<lambda>p d (t, s). case cb_Connect c p d s of (r, s') \<Rightarrow> (r, (t + 1, s'))),
      cb_WriteAll = (\<lambda>bs d (t, s). case cb_WriteAll c bs d s of (r, s') \<Rightarrow> (r, (t + 1, s'))),
      cb_ReadAll = (\<lambda>n d (t, s). case cb_ReadAll c n d s of (r, s') \<Rightarrow> (r, (t + 1, s'))),
      cb_Close = (\<lambda>(t, s). (t + 1, cb_Close c s))\<rparr>"

definition timed_reporter ::
  "'c IpcClientBackend \<Rightarrow> IpcFrameRequest result \<Rightarrow> int result \<Rightarrow> (int \<times> 'c) reporter" where
  "timed_reporter c fr i =
     \<lparr>re_client = timed_client c, re_now = (\<lambda>(t, s). (t, (t + 1, s))), re_sleep = (\<lambda>d (t, s). (t + max 0 (ms d), s)),
      re_request = Some (\<lambda>s. (fr, s)), re_idle = Some (\<lambda>s. (i, s))\<rparr>"

interpretation timed: reporter_clock "timed_reporter c fr i" fst for c :: "'c IpcClientBackend" and fr i
  by unfold_locales (auto simp: timed_reporter_def timed_client_def split: prod.splits)

definition report_options :: IpcPeriodicReportOptions where
  "report_options = \<lparr>ro_pipePath = [], ro_window = 10, ro_interval = 4, ro_intervalCap = 0, ro_ioTimeout = 3,
     ro_maxConnectAttempts = 2, ro_reconnectBackoff = 1, ro_userAwayAfterSeconds = 0, ro_userAwayStepSeconds = 1, ro_userAwayCap = 0\<rparr>"

theorem periodic_reporter_paced_witness:
  "\<exists>r s'. RunPeriodicReporter (timed_reporter pipe_client (Success \<lparr>fr_type = Ping, fr_requestId = 1, fr_payload = []\<rparr>) (Success 0))
      report_options (0, []) = Some (r, s') \<and>
    (\<forall>su. r = Success su \<and> 0 < rs_reportsSent su + rs_connectFailures su \<longrightarrow>
       int (rs_reportsSent su + rs_connectFailures su - 1) * 4 < 10)"
  using periodic_reporter_paced [OF timed.reporter_clock_axioms, of pipe_client
      "Success \<lparr>fr_type = Ping, fr_requestId = 1, fr_payload = []\<rparr>" "Success 0" report_options "(0, [])"]
  by (simp add: report_options_def)

section \<open>What the concurrent server reports\<close>

text \<open>The rounds of one worker on its own.\<close>

inductive worker_trace :: "'s conc_env \<Rightarrow> 's world \<Rightarrow> round_result list \<Rightarrow> 's world \<Rightarrow> bool" for C w0 where
  start: "worker_trace C w0 [] w0"
| more: "worker_trace C w0 rs w \<Longrightarrow> Expired \<notin> set rs \<Longrightarrow> worker_round C w = Some (r, w') \<Longrightarrow> worker_trace C w0 (rs @ [r]) w'"

fun served_of :: "round_result \<Rightarrow> IpcServeResult multiset" where
  "served_of (Served r) = {#r#}"
| "served_of _ = {#}"

definition served_in :: "round_result list \<Rightarrow> IpcServeResult multiset" where
  "served_in rs = (\<Sum>r\<leftarrow>rs. served_of r)"

definition failed_in :: "round_result list \<Rightarrow> nat" where
  "failed_in rs = length (filter (\<lambda>r. r = Failed_round) rs)"

lemma sum_extend:
  fixes f :: "'a list \<Rightarrow> 'b :: comm_monoid_add" and n :: nat
  assumes "i < n" and "\<And>xs. f (xs @ [x]) = f xs + d"
  shows "(\<Sum>j<n. f ((tr(i := tr i @ [x])) j)) = (\<Sum>j<n. f (tr j)) + d"
proof -
  let ?tr = "tr(i := tr i @ [x])"
  have rest: "(\<Sum>j\<in>{..<n} - {i}. f (?tr j)) = (\<Sum>j\<in>{..<n} - {i}. f (tr j))" by (rule sum.cong) auto
  have "(\<Sum>j<n. f (?tr j)) = f (?tr i) + (\<Sum>j\<in>{..<n} - {i}. f (?tr j))" using assms(1) by (intro sum.remove) auto
  also have "\<dots> = (f (tr i) + (\<Sum>j\<in>{..<n} - {i}. f (tr j))) + d" using assms(2) rest by (simp add: ac_simps)
  also have "f (tr i) + (\<Sum>j\<in>{..<n} - {i}. f (tr j)) = (\<Sum>j<n. f (tr j))" using assms(1) by (intro sum.remove [symmetric]) auto
  finally show ?thesis .
qed

lemma served_in_snoc: "served_in (rs @ [r]) = served_in rs + served_of r"
  by (simp add: served_in_def)

lemma failed_in_snoc: "failed_in (rs @ [r]) = failed_in rs + (if r = Failed_round then 1 else 0)"
  by (simp add: failed_in_def)

lemma worker_round_expired: "worker_round C w = Some (Expired, w') \<Longrightarrow> log w' \<noteq> [] \<and> last (log w') = Ev_Close"
  by (auto simp: worker_round_def IpcSession_Close_def Let_def split: prod.splits if_splits option.splits sum.splits)

definition worker_ok :: "'s conc_env \<Rightarrow> 's world option \<Rightarrow> round_result list \<Rightarrow> bool \<Rightarrow> 's worker \<Rightarrow> bool" where
  "worker_ok C start rs fatal x =
     (case x of
        Working w \<Rightarrow> \<exists>w0. start = Some w0 \<and> worker_trace C w0 rs w \<and> Expired \<notin> set rs
      | Finished None \<Rightarrow> fatal
      | Finished (Some w) \<Rightarrow> \<exists>w0. start = Some w0 \<and> worker_trace C w0 rs w \<and> rs \<noteq> [] \<and> last rs = Expired \<and> last (log w) = Ev_Close)"

definition conc_inv :: "'s conc_env \<Rightarrow> 's world option list \<Rightarrow> (nat \<Rightarrow> round_result list) \<Rightarrow> 's worker list \<times> conc_shared \<Rightarrow> bool" where
  "conc_inv C sessions tr = (\<lambda>(ws, c).
     length ws = length sessions \<and> cu_workers (ch_summary c) = length sessions \<and>
     (\<forall>i < length ws. worker_ok C (sessions ! i) (tr i) (ch_fatal c) (ws ! i)) \<and>
     mset (cu_sessions (ch_summary c)) = (\<Sum>i < length ws. served_in (tr i)) \<and>
     cu_clientsServed (ch_summary c) = length (cu_sessions (ch_summary c)) \<and>
     cu_failedSessions (ch_summary c) = (\<Sum>i < length ws. failed_in (tr i)))"

lemma conc_inv_start: "conc_inv C sessions (\<lambda>_. []) (conc_start sessions)"
  by (auto simp: conc_inv_def conc_start_def worker_ok_def served_in_def failed_in_def intro: worker_trace.start split: option.splits)
    (metis nth_mem)+

lemma apply_round_summary:
  "mset (cu_sessions (ch_summary (apply_round r c))) = mset (cu_sessions (ch_summary c)) + served_of r"
  "cu_failedSessions (ch_summary (apply_round r c)) = cu_failedSessions (ch_summary c) + (if r = Failed_round then 1 else 0)"
  "cu_clientsServed (ch_summary c) = length (cu_sessions (ch_summary c)) \<Longrightarrow>
     cu_clientsServed (ch_summary (apply_round r c)) = length (cu_sessions (ch_summary (apply_round r c)))"
  "cu_workers (ch_summary (apply_round r c)) = cu_workers (ch_summary c)" "ch_fatal (apply_round r c) = ch_fatal c"
  by (cases r; simp add: apply_round_def add_session_def add_failure_def)+

lemma worker_ok_fatal: "worker_ok C st rs f x \<Longrightarrow> worker_ok C st rs True x" "worker_ok C st rs True (Finished None)"
  by (auto simp: worker_ok_def split: worker.splits option.splits)

lemma conc_inv_step:
  assumes "conc_step C s s'" and "conc_inv C sessions tr s"
  shows "\<exists>tr'. conc_inv C sessions tr' s'"
  using assms(1)
proof cases
  case (round i ws w r w' c)
  define tr' where "tr' = tr(i := tr i @ [r])"
  let ?ws = "ws[i := if r = Expired then Finished (Some w') else Working w']"
  have old: "worker_ok C (sessions ! i) (tr i) (ch_fatal c) (Working w)" using assms(2) round by (fastforce simp: conc_inv_def)
  then obtain w0 where w0: "sessions ! i = Some w0" "worker_trace C w0 (tr i) w" "Expired \<notin> set (tr i)" by (auto simp: worker_ok_def)
  have "worker_trace C w0 (tr i @ [r]) w'" using w0 round(5) by (intro worker_trace.more)
  then have new: "worker_ok C (sessions ! i) (tr i @ [r]) (ch_fatal c) (?ws ! i)"
    using w0 round worker_round_expired [of C w w'] by (auto simp: worker_ok_def)
  have "worker_ok C (sessions ! j) (tr' j) (ch_fatal c) (?ws ! j)" if "j < length ws" for j
    using new assms(2) that round(1) by (cases "j = i") (auto simp: tr'_def conc_inv_def)
  moreover have "(\<Sum>j < length ws. served_in (tr' j)) = (\<Sum>j < length ws. served_in (tr j)) + served_of r"
    unfolding tr'_def using round(3) served_in_snoc by (rule sum_extend)
  moreover have "(\<Sum>j < length ws. failed_in (tr' j)) = (\<Sum>j < length ws. failed_in (tr j)) + (if r = Failed_round then 1 else 0)"
    unfolding tr'_def using round(3) failed_in_snoc by (rule sum_extend)
  ultimately have "conc_inv C sessions tr' s'"
    using assms(2) round(1,2) by (simp add: conc_inv_def apply_round_summary)
  then show ?thesis by (intro exI [of _ tr'])
next
  case (thrown i ws w c)
  have "worker_ok C (sessions ! j) (tr j) True (ws[i := Finished None] ! j)" if "j < length ws" for j
    using assms(2) that thrown(1) worker_ok_fatal by (cases "j = i") (fastforce simp: conc_inv_def)+
  then have "conc_inv C sessions tr s'" using assms(2) thrown(1,2) by (simp add: conc_inv_def)
  then show ?thesis by (intro exI [of _ tr])
qed

lemma conc_inv_reachable: "(conc_step C)\<^sup>*\<^sup>* (conc_start sessions) s \<Longrightarrow> \<exists>tr. conc_inv C sessions tr s"
  by (induction rule: rtranclp_induct) (use conc_inv_start conc_inv_step in blast)+

text \<open>
  C40: whatever the interleaving of the workers, a successful summary of the concurrent server is the sum of what
  the workers did on their own: each ran its own session until the window ended and then closed its pipe instance, the
  listed sessions are exactly those the workers served, and the counters agree with them.\<close>
theorem concurrent_server_summary:
  assumes "RunConcurrentServer C instances window hasFactory sessions (Success su)"
  shows "\<exists>tr. (\<forall>i < instances. \<exists>w0 w. sessions ! i = Some w0 \<and> worker_trace C w0 (tr i) w \<and>
        last (tr i) = Expired \<and> last (log w) = Ev_Close) \<and>
     cu_workers su = instances \<and> mset (cu_sessions su) = (\<Sum>i<instances. served_in (tr i)) \<and>
     cu_clientsServed su = length (cu_sessions su) \<and> cu_failedSessions su = (\<Sum>i<instances. failed_in (tr i))"
  using assms
proof cases
  case (joined ws c)
  obtain tr where inv: "conc_inv C sessions tr (ws, c)" using conc_inv_reachable [OF joined(4)] by blast
  have ok: "\<not> ch_fatal c" "ch_summary c = su" using joined(1) by (auto simp: conc_result_def split: if_splits)
  have "\<exists>w0 w. sessions ! i = Some w0 \<and> worker_trace C w0 (tr i) w \<and> last (tr i) = Expired \<and> last (log w) = Ev_Close"
    if "i < instances" for i
  proof -
    have "i < length ws" using inv joined(3) that by (simp add: conc_inv_def)
    then have "worker_ok C (sessions ! i) (tr i) False (ws ! i)" "\<exists>y. ws ! i = Finished y"
      using inv ok joined(5) by (simp add: conc_inv_def, cases "ws ! i") (auto simp: all_finished_def list_all_length split: worker.splits)
    then show ?thesis by (fastforce simp: worker_ok_def split: option.splits)
  qed
  then show ?thesis using inv ok joined(3) by (intro exI [of _ tr]) (auto simp: conc_inv_def)
qed

text \<open>One instance, one client that sends two pings, and a window that is over when its session ends.\<close>

definition demo_server :: "script conc_env" where
  "demo_server = \<lparr>co_sysmsg = \<lambda>_. [], co_backend = script_backend, co_options = watched, co_handler = None,
     co_deadline = 1, co_frameIdle = 50\<rparr>"

definition demo_world :: "script world" where
  "demo_world = \<lparr>env = ping_client 1, log = []\<rparr>"

lemma demo_rounds:
  "case worker_round demo_server demo_world of
     Some (Served r, w1) \<Rightarrow> (case worker_round demo_server w1 of Some (Expired, w2) \<Rightarrow> True | _ \<Rightarrow> False)
   | _ \<Rightarrow> False"
  by code_simp

theorem concurrent_server_summary_witness:
  "\<exists>su. RunConcurrentServer demo_server 1 1 True [Some demo_world] (Success su) \<and> cu_clientsServed su = 1 \<and>
     length (cu_sessions su) = 1 \<and> cu_workers su = 1"
proof -
  obtain r w1 where r1: "worker_round demo_server demo_world = Some (Served r, w1)"
    using demo_rounds by (auto split: option.splits prod.splits round_result.splits)
  then obtain w2 where r2: "worker_round demo_server w1 = Some (Expired, w2)"
    using demo_rounds by (auto split: option.splits prod.splits round_result.splits)
  define c0 where "c0 = snd (conc_start [Some demo_world])"
  have start: "conc_start [Some demo_world] = ([Working demo_world], c0)" by (simp add: c0_def conc_start_def)
  have s1: "conc_step demo_server ([Working demo_world], c0) ([Working w1], add_session r c0)"
    using conc_step.round [of 0 "[Working demo_world]" demo_world demo_server "Served r" w1 c0] r1 by (simp add: apply_round_def)
  have s2: "conc_step demo_server ([Working w1], add_session r c0) ([Finished (Some w2)], add_session r c0)"
    using conc_step.round [of 0 "[Working w1]" w1 demo_server Expired w2 "add_session r c0"] r2 by (simp add: apply_round_def)
  have "(conc_step demo_server)\<^sup>*\<^sup>* (conc_start [Some demo_world]) ([Finished (Some w2)], add_session r c0)"
    unfolding start using s1 s2 by (meson converse_rtranclp_into_rtranclp rtranclp.rtrancl_refl)
  then have run: "RunConcurrentServer demo_server 1 1 True [Some demo_world] (conc_result (add_session r c0))"
    by (intro RunConcurrentServer.joined) (auto simp: check_concurrent_def demo_server_def all_finished_def)
  have su: "conc_result (add_session r c0) = Success (ch_summary (add_session r c0))" "cu_sessions (ch_summary (add_session r c0)) = [r]"
    by (simp_all add: conc_result_def add_session_def c0_def conc_start_def)
  show ?thesis using concurrent_server_summary [OF run [unfolded su(1)]] run su by (intro exI [of _ "ch_summary (add_session r c0)"]) auto
qed

end
