(* ===== verification/Service_Host.thy ===== *)
theory Service_Host
  imports Common_Error
begin

text \<open>
  The service host and its Safe Mode guard: \<^verbatim>\<open>include/service/service_host.hpp\<close> and
  \<^verbatim>\<open>source/service/service_host.cpp\<close>.  The guard reads its clock several times inside one
  call, so its operations take the readings as arguments; times are milliseconds.  The
  host runs against a record of functions on a state \<open>'s\<close> (the service control manager,
  the workload, the clock and the stop flag, which other threads set); the reports it
  makes are logged.
\<close>

section \<open>The Safe Mode guard\<close>

datatype SafeModeState = SM_Normal | SM_SafeMode

record SafeModeOptions =
  failuresToEnter :: nat
  countingWindow :: int
  cooldown :: int
  enabled :: bool

definition default_safe_mode_options :: SafeModeOptions where
  "default_safe_mode_options =
     \<lparr>failuresToEnter = 3, countingWindow = 5000, cooldown = 2000, enabled = True\<rparr>"

record SafeModeGuard =
  safeMode :: bool
  anomalyLatched :: bool
  cooldownUntil :: int
  failureTimes :: "int list"

definition SafeModeGuard_new :: SafeModeGuard where
  "SafeModeGuard_new =
     \<lparr>safeMode = False, anomalyLatched = False, cooldownUntil = 0, failureTimes = []\<rparr>"

definition PruneExpired :: "SafeModeOptions \<Rightarrow> int \<Rightarrow> SafeModeGuard \<Rightarrow> SafeModeGuard" where
  "PruneExpired opts now g =
     g\<lparr>failureTimes := dropWhile (\<lambda>t. t \<le> now - countingWindow opts) (failureTimes g)\<rparr>"

definition Refresh :: "SafeModeOptions \<Rightarrow> int \<Rightarrow> SafeModeGuard \<Rightarrow> SafeModeGuard" where
  "Refresh opts now g =
     (if anomalyLatched g then g
      else if safeMode g then
        (if now \<ge> cooldownUntil g then g\<lparr>safeMode := False, failureTimes := []\<rparr> else g)
      else PruneExpired opts now g)"

definition SafeModeGuard_State ::
  "SafeModeOptions \<Rightarrow> int \<Rightarrow> SafeModeGuard \<Rightarrow> SafeModeState \<times> SafeModeGuard" where
  "SafeModeGuard_State opts now g =
     (let g = Refresh opts now g
      in (if anomalyLatched g then SM_SafeMode
          else if safeMode g then SM_SafeMode else SM_Normal, g))"

definition ShouldAcceptClients ::
  "SafeModeOptions \<Rightarrow> int \<Rightarrow> SafeModeGuard \<Rightarrow> bool \<times> SafeModeGuard" where
  "ShouldAcceptClients opts now g =
     (let g = Refresh opts now g
      in (\<not> enabled opts \<or> (\<not> safeMode g \<and> \<not> anomalyLatched g), g))"

text \<open>\<open>t1\<close> is the reading inside \<open>Refresh\<close>, \<open>t2\<close> the one of the remaining time.\<close>

definition CooldownRemaining ::
  "SafeModeOptions \<Rightarrow> int \<Rightarrow> int \<Rightarrow> SafeModeGuard \<Rightarrow> int \<times> SafeModeGuard" where
  "CooldownRemaining opts t1 t2 g =
     (let g = Refresh opts t1 g
      in if anomalyLatched g \<or> \<not> safeMode g then (0, g)
         else let remaining = cooldownUntil g - t2
              in (if remaining > 0 then remaining else 0, g))"

text \<open>The four readings: refresh, time stamp, pruning, start of the cooldown.\<close>

definition OnClientRejected ::
  "SafeModeOptions \<Rightarrow> int \<Rightarrow> int \<Rightarrow> int \<Rightarrow> int \<Rightarrow> SafeModeGuard \<Rightarrow> SafeModeGuard" where
  "OnClientRejected opts t1 t2 t3 t4 g =
     (if \<not> enabled opts then g
      else let g = Refresh opts t1 g
           in if safeMode g \<or> anomalyLatched g then g
              else let g = PruneExpired opts t3 (g\<lparr>failureTimes := failureTimes g @ [t2]\<rparr>)
                   in if length (failureTimes g) \<ge> failuresToEnter opts
                      then g\<lparr>safeMode := True, cooldownUntil := t4 + cooldown opts\<rparr>
                      else g)"

definition OnAnomalyDetected :: "SafeModeOptions \<Rightarrow> SafeModeGuard \<Rightarrow> SafeModeGuard" where
  "OnAnomalyDetected opts g = (if \<not> enabled opts then g else g\<lparr>anomalyLatched := True\<rparr>)"

definition ClearAnomaly :: "SafeModeGuard \<Rightarrow> SafeModeGuard" where
  "ClearAnomaly g = g\<lparr>anomalyLatched := False\<rparr>"

definition IsAnomalyLatched :: "SafeModeGuard \<Rightarrow> bool" where
  "IsAnomalyLatched g = anomalyLatched g"

section \<open>The service life cycle\<close>

datatype RunMode = Console | Service | Install | Uninstall | Status

definition RunModeToString :: "RunMode \<Rightarrow> string" where
  "RunModeToString m =
     (case m of Console \<Rightarrow> ''console'' | Service \<Rightarrow> ''service'' | Install \<Rightarrow> ''install''
      | Uninstall \<Rightarrow> ''uninstall'' | Status \<Rightarrow> ''status'')"

definition ascii_fold :: "string \<Rightarrow> string" where
  "ascii_fold s = map to_lower s"

definition ParseRunMode :: "string \<Rightarrow> RunMode option" where
  "ParseRunMode text =
     (let eq = (\<lambda>a b. length a = length b \<and> ascii_fold a = ascii_fold b)
      in if eq text ''console'' then Some Console
         else if eq text ''service'' then Some Service
         else if eq text ''install'' then Some Install
         else if eq text ''uninstall'' then Some Uninstall
         else if eq text ''status'' then Some Status
         else None)"

datatype ServiceState = SS_Unknown | StartPending | Running | StopPending | Stopped

definition StateToString :: "ServiceState \<Rightarrow> string" where
  "StateToString s =
     (case s of SS_Unknown \<Rightarrow> ''unknown'' | StartPending \<Rightarrow> ''start_pending'' | Running \<Rightarrow> ''running''
      | StopPending \<Rightarrow> ''stop_pending'' | Stopped \<Rightarrow> ''stopped'')"

definition StartTypeToString :: "bool \<Rightarrow> bool \<Rightarrow> string" where
  "StartTypeToString autoStart known =
     (if \<not> known then ''unknown'' else if autoStart then ''auto'' else ''demand'')"

text \<open>\<open>SERVICE_ACCEPT_STOP | SERVICE_ACCEPT_SHUTDOWN\<close>.\<close>

definition kServiceControlsAccepted :: u32 where
  "kServiceControlsAccepted = 5"

record ServiceStatusReport =
  rep_state :: ServiceState
  rep_controlsAccepted :: u32
  rep_win32ExitCode :: u32
  rep_checkPoint :: u32
  rep_waitHintMs :: u32

definition MakeStatusReport :: "ServiceState \<Rightarrow> u32 \<Rightarrow> u32 \<Rightarrow> u32 \<Rightarrow> ServiceStatusReport" where
  "MakeStatusReport st exitCode checkPoint waitHint =
     \<lparr>rep_state = st,
      rep_controlsAccepted = (if st = Running then kServiceControlsAccepted else 0),
      rep_win32ExitCode = exitCode, rep_checkPoint = checkPoint, rep_waitHintMs = waitHint\<rparr>"

definition legal_transition :: "ServiceState \<Rightarrow> ServiceState \<Rightarrow> bool" where
  "legal_transition from to =
     (case from of
        SS_Unknown \<Rightarrow> to = StartPending
      | StartPending \<Rightarrow> to = Running \<or> to = StopPending \<or> to = Stopped
      | Running \<Rightarrow> to = StopPending \<or> to = Stopped
      | StopPending \<Rightarrow> to = Stopped
      | Stopped \<Rightarrow> False)"

definition ValidateStateTransition :: "ServiceState \<Rightarrow> ServiceState \<Rightarrow> unit result" where
  "ValidateStateTransition from to =
     (if legal_transition from to then Success ()
      else Failure (Error_Validation ''ValidateStateTransition''
        (''illegal service state transition: '' @ StateToString from @ '' -> '' @ StateToString to)))"

text \<open>What the host runs against.\<close>

record 's host_env =
  he_RegisterControlHandler :: "'s \<Rightarrow> unit result \<times> 's"
  he_ReportStatus :: "ServiceStatusReport \<Rightarrow> 's \<Rightarrow> unit result \<times> 's"
  he_workload :: "'s \<Rightarrow> unit result \<times> 's"
  he_stopRequested :: "'s \<Rightarrow> bool"
  he_now :: "'s \<Rightarrow> int \<times> 's"
  he_wait :: "'s \<Rightarrow> 's"

record 's host =
  h_env :: 's
  h_state :: ServiceState
  h_reports :: "ServiceStatusReport list"

definition kWaitHintMs :: u32 where "kWaitHintMs = 3000"

definition report_status ::
  "'s host_env \<Rightarrow> ServiceStatusReport \<Rightarrow> 's host \<Rightarrow> unit result \<times> 's host" where
  "report_status he rep h =
     (case he_ReportStatus he rep (h_env h) of
        (r, s) \<Rightarrow> (r, h\<lparr>h_env := s, h_reports := h_reports h @ [rep]\<rparr>))"

definition Transit ::
  "'s host_env \<Rightarrow> ServiceState \<Rightarrow> u32 \<Rightarrow> u32 \<Rightarrow> u32 \<Rightarrow> 's host \<Rightarrow> unit result \<times> 's host" where
  "Transit he nxt exitCode checkPoint waitHint h =
     (case ValidateStateTransition (h_state h) nxt of
        Inl e \<Rightarrow> (Failure e, h)
      | Inr _ \<Rightarrow> report_status he (MakeStatusReport nxt exitCode checkPoint waitHint) (h\<lparr>h_state := nxt\<rparr>))"

definition ReReportCurrentStatus :: "'s host_env \<Rightarrow> 's host \<Rightarrow> unit result \<times> 's host" where
  "ReReportCurrentStatus he h =
     (if h_state h = SS_Unknown \<or> h_state h = Stopped then (Success (), h)
      else report_status he (MakeStatusReport (h_state h) 0 0 0) h)"

text \<open>The main loop ends only on a stop request, the deadline or a failing tick.\<close>

partial_function (option) RunLoop ::
  "'s host_env \<Rightarrow> int option \<Rightarrow> 's \<Rightarrow> (unit result \<times> 's) option" where
  "RunLoop he deadline s =
     (if he_stopRequested he s then Some (Success (), s)
      else let (expired, s1) =
             (case deadline of None \<Rightarrow> (False, s)
              | Some d \<Rightarrow> (let (now, s') = he_now he s in (now \<ge> d, s')))
           in if expired then Some (Success (), s1)
              else (case he_workload he s1 of
                      (tick, s2) \<Rightarrow>
                        if \<not> HasValue tick then Some (tick, s2)
                        else RunLoop he deadline (he_wait he s2)))"

declare RunLoop.simps [code]

definition stop_service ::
  "'s host_env \<Rightarrow> unit result \<Rightarrow> 's host \<Rightarrow> unit result \<times> 's host" where
  "stop_service he loop h =
     (case Transit he StopPending 0 2 kWaitHintMs h of
        (Inl e, h1) \<Rightarrow> (Failure e, h1)
      | (Inr _, h1) \<Rightarrow>
          (case Transit he Stopped (if HasValue loop then 0 else 1) 0 0 h1 of
             (Inl e, h2) \<Rightarrow> (Failure e, h2)
           | (Inr _, h2) \<Rightarrow> (loop, h2)))"

definition RunServiceMain :: "'s host_env \<Rightarrow> 's host \<Rightarrow> (unit result \<times> 's host) option" where
  "RunServiceMain he h =
     (case he_RegisterControlHandler he (h_env h) of
        (Inl e, s) \<Rightarrow> Some (Failure e, h\<lparr>h_env := s\<rparr>)
      | (Inr _, s) \<Rightarrow>
          (case Transit he StartPending 0 1 kWaitHintMs (h\<lparr>h_env := s\<rparr>) of
             (Inl e, h1) \<Rightarrow> Some (Failure e, h1)
           | (Inr _, h1) \<Rightarrow>
               (case Transit he Running 0 0 0 h1 of
                  (Inl e, h2) \<Rightarrow> Some (Failure e, h2)
                | (Inr _, h2) \<Rightarrow>
                    (case RunLoop he None (h_env h2) of
                       None \<Rightarrow> None
                     | Some (loop, s') \<Rightarrow> Some (stop_service he loop (h2\<lparr>h_env := s'\<rparr>))))))"

section \<open>Service registration\<close>

record ServiceIdentity =
  si_name :: wstring
  si_displayName :: wstring
  si_description :: wstring
  si_executablePath :: wstring

record ServiceInstallStatus =
  is_installed :: bool
  is_state :: ServiceState
  is_autoStart :: bool
  is_startTypeKnown :: bool

record 's ScmInstallBackend =
  scm_Create :: "ServiceIdentity \<Rightarrow> 's \<Rightarrow> unit result \<times> 's"
  scm_Delete :: "wstring \<Rightarrow> 's \<Rightarrow> unit result \<times> 's"
  scm_Query :: "wstring \<Rightarrow> 's \<Rightarrow> ServiceInstallStatus result \<times> 's"

definition InstallService ::
  "'s ScmInstallBackend \<Rightarrow> ServiceIdentity \<Rightarrow> 's \<Rightarrow> unit result \<times> 's" where
  "InstallService b ident s =
     (if si_name ident = [] \<or> si_displayName ident = []
      then (Failure (Error_Validation ''InstallService'' ''service and display name must not be empty''), s)
      else scm_Create b ident s)"

definition UninstallService :: "'s ScmInstallBackend \<Rightarrow> wstring \<Rightarrow> 's \<Rightarrow> unit result \<times> 's" where
  "UninstallService b name s =
     (if name = [] then (Failure (Error_Validation ''UninstallService'' ''service name must not be empty''), s)
      else scm_Delete b name s)"

definition QueryService ::
  "'s ScmInstallBackend \<Rightarrow> wstring \<Rightarrow> 's \<Rightarrow> ServiceInstallStatus result \<times> 's" where
  "QueryService b name s =
     (if name = [] then (Failure (Error_Validation ''QueryService'' ''service name must not be empty''), s)
      else scm_Query b name s)"

section \<open>The guard implements its window specification\<close>

text \<open>
  What the guard promises, without pruning and lazy recovery: it remembers every rejection
  since the last recovery, trips when enough of them fall into the window, and then stays
  closed until the end of the cooldown; an anomaly closes it until it is cleared.
\<close>

record guard_spec =
  sp_latched :: bool
  sp_until :: "int option"
  sp_history :: "int list"

definition spec_new :: guard_spec where
  "spec_new = \<lparr>sp_latched = False, sp_until = None, sp_history = []\<rparr>"

datatype guard_event = Reject int int int int | Anomaly | Clear | Query int

definition guard_step :: "SafeModeOptions \<Rightarrow> guard_event \<Rightarrow> SafeModeGuard \<Rightarrow> SafeModeGuard" where
  "guard_step opts e g =
     (case e of
        Reject t1 t2 t3 t4 \<Rightarrow> OnClientRejected opts t1 t2 t3 t4 g
      | Anomaly \<Rightarrow> OnAnomalyDetected opts g
      | Clear \<Rightarrow> ClearAnomaly g
      | Query t \<Rightarrow> snd (ShouldAcceptClients opts t g))"

definition spec_step :: "SafeModeOptions \<Rightarrow> guard_event \<Rightarrow> guard_spec \<Rightarrow> guard_spec" where
  "spec_step opts e sp =
     (case e of
        Reject t1 t2 t3 t4 \<Rightarrow>
          if sp_latched sp \<or> (\<exists>u. sp_until sp = Some u \<and> t1 < u) then sp
          else let hist = (if sp_until sp = None then sp_history sp else []) @ [t2];
                   trip = (failuresToEnter opts \<le> length (filter (\<lambda>x. t3 - countingWindow opts < x) hist))
               in sp\<lparr>sp_until := (if trip then Some (t4 + cooldown opts) else None), sp_history := hist\<rparr>
      | Anomaly \<Rightarrow> sp\<lparr>sp_latched := True\<rparr>
      | Clear \<Rightarrow> sp\<lparr>sp_latched := False\<rparr>
      | Query t \<Rightarrow> sp)"

definition spec_accepts :: "int \<Rightarrow> guard_spec \<Rightarrow> bool" where
  "spec_accepts t sp \<longleftrightarrow> \<not> sp_latched sp \<and> (case sp_until sp of None \<Rightarrow> True | Some u \<Rightarrow> u \<le> t)"

definition guard_run :: "SafeModeOptions \<Rightarrow> guard_event list \<Rightarrow> SafeModeGuard" where
  "guard_run opts es = foldl (\<lambda>g e. guard_step opts e g) SafeModeGuard_new es"

definition spec_run :: "SafeModeOptions \<Rightarrow> guard_event list \<Rightarrow> guard_spec" where
  "spec_run opts es = foldl (\<lambda>sp e. spec_step opts e sp) spec_new es"

text \<open>Clock readings never go back: \<open>steady now es\<close>, with \<open>last_time\<close> the last reading.\<close>

fun last_reading :: "int \<Rightarrow> guard_event \<Rightarrow> int" where
  "last_reading now (Reject t1 t2 t3 t4) = t4"
| "last_reading now (Query t) = t"
| "last_reading now _ = now"

fun steady_event :: "int \<Rightarrow> guard_event \<Rightarrow> bool" where
  "steady_event now (Reject t1 t2 t3 t4) \<longleftrightarrow> now \<le> t1 \<and> t1 \<le> t2 \<and> t2 \<le> t3 \<and> t3 \<le> t4"
| "steady_event now (Query t) \<longleftrightarrow> now \<le> t"
| "steady_event now _ \<longleftrightarrow> True"

fun steady :: "int \<Rightarrow> guard_event list \<Rightarrow> int \<Rightarrow> bool" where
  "steady now [] t \<longleftrightarrow> now \<le> t"
| "steady now (e # es) t \<longleftrightarrow> steady_event now e \<and> steady (last_reading now e) es t"

definition guard_rel :: "SafeModeOptions \<Rightarrow> int \<Rightarrow> SafeModeGuard \<Rightarrow> guard_spec \<Rightarrow> bool" where
  "guard_rel opts now g sp \<longleftrightarrow>
     anomalyLatched g = sp_latched sp \<and>
     (case sp_until sp of
        None \<Rightarrow> \<not> safeMode g \<and> sorted (sp_history sp) \<and> (\<forall>x \<in> set (sp_history sp). x \<le> now) \<and>
          (\<exists>old. sp_history sp = old @ failureTimes g \<and> (\<forall>x \<in> set old. x \<le> now - countingWindow opts))
      | Some u \<Rightarrow> safeMode g \<and> cooldownUntil g = u \<or> \<not> safeMode g \<and> failureTimes g = [] \<and> u \<le> now)"

lemma dropWhile_sorted: "sorted (xs :: int list) \<Longrightarrow> dropWhile (\<lambda>t. t \<le> c) xs = filter (\<lambda>t. c < t) xs"
proof (induction xs)
  case (Cons x xs)
  show ?case
  proof (cases "x \<le> c")
    case False
    with Cons.prems have "\<forall>y \<in> set xs. c < y" by auto
    with False show ?thesis by (simp add: filter_id_conv)
  qed (use Cons in simp)
qed simp

lemma filter_old: "\<forall>x \<in> set old. x \<le> c \<Longrightarrow> c \<le> c' \<Longrightarrow> filter (\<lambda>t. c' < t) old = ([] :: int list)"
  by (auto simp: filter_empty_conv)

lemma guard_rel_later: "guard_rel opts now g sp \<Longrightarrow> now \<le> now' \<Longrightarrow> guard_rel opts now' g sp"
  unfolding guard_rel_def by (fastforce split: option.splits)

lemma Refresh_rel:
  assumes "guard_rel opts now g sp" and "now \<le> t"
  shows "guard_rel opts t (Refresh opts t g) sp"
proof (cases "sp_until sp")
  case (Some u)
  with assms show ?thesis
    by (auto simp: guard_rel_def Refresh_def PruneExpired_def)
next
  case None
  from assms None obtain old where h: "sp_history sp = old @ failureTimes g"
    and old: "\<forall>x \<in> set old. x \<le> now - countingWindow opts" and l: "anomalyLatched g = sp_latched sp"
    and n: "\<not> safeMode g" and srt: "sorted (sp_history sp)" and le: "\<forall>x \<in> set (sp_history sp). x \<le> now"
    unfolding guard_rel_def by auto
  let ?c = "t - countingWindow opts"
  have split: "failureTimes g = takeWhile (\<lambda>x. x \<le> ?c) (failureTimes g) @ dropWhile (\<lambda>x. x \<le> ?c) (failureTimes g)"
    by simp
  have "\<exists>old'. sp_history sp = old' @ failureTimes (Refresh opts t g) \<and> (\<forall>x \<in> set old'. x \<le> ?c)"
  proof (cases "anomalyLatched g")
    case True
    with h old assms(2) show ?thesis by (auto simp: Refresh_def)
  next
    case False
    have "\<forall>x \<in> set (old @ takeWhile (\<lambda>x. x \<le> ?c) (failureTimes g)). x \<le> ?c"
      using old assms(2) by (auto dest: set_takeWhileD)
    moreover have "sp_history sp = (old @ takeWhile (\<lambda>x. x \<le> ?c) (failureTimes g)) @
        failureTimes (Refresh opts t g)"
      using h split n False by (simp add: Refresh_def PruneExpired_def)
    ultimately show ?thesis by blast
  qed
  moreover have "anomalyLatched (Refresh opts t g) = sp_latched sp" "\<not> safeMode (Refresh opts t g)"
    using l n by (simp_all add: Refresh_def PruneExpired_def)
  moreover have "\<forall>x \<in> set (sp_history sp). x \<le> t" using le assms(2) by auto
  ultimately show ?thesis using None srt by (simp add: guard_rel_def)
qed

lemma Refresh_accepts:
  assumes "guard_rel opts now g sp" and "now \<le> t"
  shows "\<not> safeMode (Refresh opts t g) \<and> \<not> anomalyLatched (Refresh opts t g) \<longleftrightarrow> spec_accepts t sp"
  using assms
  by (auto simp: guard_rel_def spec_accepts_def Refresh_def PruneExpired_def split: option.splits if_splits)

lemma Reject_rel:
  assumes rel: "guard_rel opts now g sp" and t: "now \<le> t1" "t1 \<le> t2" "t2 \<le> t3" "t3 \<le> t4"
    and en: "enabled opts"
  shows "guard_rel opts t4 (OnClientRejected opts t1 t2 t3 t4 g) (spec_step opts (Reject t1 t2 t3 t4) sp)"
proof -
  let ?g = "Refresh opts t1 g"
  have r: "guard_rel opts t1 ?g sp" by (rule Refresh_rel [OF rel t(1)])
  show ?thesis
  proof (cases "spec_accepts t1 sp")
    case False
    with Refresh_accepts [OF rel t(1)] have "OnClientRejected opts t1 t2 t3 t4 g = ?g"
      using en by (auto simp: OnClientRejected_def Let_def)
    moreover from False have "spec_step opts (Reject t1 t2 t3 t4) sp = sp"
      by (auto simp: spec_accepts_def spec_step_def split: option.splits)
    ultimately show ?thesis using guard_rel_later [OF r] t by simp
  next
    case True
    with Refresh_accepts [OF rel t(1)] have open': "\<not> safeMode ?g" "\<not> anomalyLatched ?g" by auto
    define base where "base = (if sp_until sp = None then sp_history sp else [])"
    obtain old where h: "base = old @ failureTimes ?g" and o: "\<forall>x \<in> set old. x \<le> t1 - countingWindow opts"
      and srt: "sorted base" and le: "\<forall>x \<in> set base. x \<le> t1"
      using r open' unfolding guard_rel_def base_def by (auto split: option.splits)
    let ?ft = "failureTimes ?g @ [t2]"
    let ?win = "filter (\<lambda>x. t3 - countingWindow opts < x)"
    have le2: "\<forall>x \<in> set base. x \<le> t2" using le t(2) by (meson order_trans)
    then have "sorted ?ft" using srt unfolding h by (auto simp: sorted_append)
    then have pr: "dropWhile (\<lambda>x. x \<le> t3 - countingWindow opts) ?ft = ?win ?ft" by (rule dropWhile_sorted)
    have win: "?win (base @ [t2]) = ?win ?ft"
      using filter_old [OF o, of "t3 - countingWindow opts"] t unfolding h by simp
    have sorted': "sorted (base @ [t2])" and le': "\<forall>x \<in> set (base @ [t2]). x \<le> t4"
      using srt le2 t by (auto simp: sorted_append intro: order_trans)
    have "\<exists>old'. base @ [t2] = old' @ ?win ?ft \<and> (\<forall>x \<in> set old'. x \<le> t4 - countingWindow opts)"
    proof (intro exI conjI)
      let ?tw = "takeWhile (\<lambda>x. x \<le> t3 - countingWindow opts) ?ft"
      have "?ft = ?tw @ ?win ?ft" unfolding pr [symmetric] by (rule takeWhile_dropWhile_id [symmetric])
      then show "base @ [t2] = (old @ ?tw) @ ?win ?ft" unfolding h by (metis append.assoc)
      show "\<forall>x \<in> set (old @ ?tw). x \<le> t4 - countingWindow opts"
        using o t by (auto dest!: set_takeWhileD)
    qed
    moreover have "spec_step opts (Reject t1 t2 t3 t4) sp =
        sp\<lparr>sp_until := (if failuresToEnter opts \<le> length (?win ?ft) then Some (t4 + cooldown opts) else None),
           sp_history := base @ [t2]\<rparr>"
      using True unfolding win [symmetric]
      by (auto simp: spec_step_def spec_accepts_def base_def Let_def split: option.splits)
    moreover have "OnClientRejected opts t1 t2 t3 t4 g =
        (if failuresToEnter opts \<le> length (?win ?ft)
         then ?g\<lparr>failureTimes := ?win ?ft, safeMode := True, cooldownUntil := t4 + cooldown opts\<rparr>
         else ?g\<lparr>failureTimes := ?win ?ft\<rparr>)"
      using en open' by (simp add: OnClientRejected_def Let_def PruneExpired_def pr)
    moreover have "anomalyLatched ?g = sp_latched sp" using r by (simp add: guard_rel_def)
    ultimately show ?thesis using open' sorted' le' by (simp add: guard_rel_def)
  qed
qed

lemma guard_step_rel:
  assumes "guard_rel opts now g sp" and "steady_event now e" and "enabled opts"
  shows "guard_rel opts (last_reading now e) (guard_step opts e g) (spec_step opts e sp)"
proof (cases e)
  case (Reject t1 t2 t3 t4)
  with Reject_rel [OF assms(1)] assms show ?thesis by (simp add: guard_step_def)
next
  case (Query t)
  with Refresh_rel [OF assms(1)] assms show ?thesis
    by (simp add: guard_step_def spec_step_def ShouldAcceptClients_def Let_def)
qed (use assms in \<open>auto simp: guard_step_def spec_step_def OnAnomalyDetected_def ClearAnomaly_def
       guard_rel_def split: option.splits\<close>)

lemma guard_run_rel:
  "guard_rel opts now g sp \<Longrightarrow> steady now es t \<Longrightarrow> enabled opts \<Longrightarrow>
   \<exists>now'. now' \<le> t \<and> guard_rel opts now' (foldl (\<lambda>g e. guard_step opts e g) g es)
     (foldl (\<lambda>sp e. spec_step opts e sp) sp es)"
  by (induction es arbitrary: now g sp) (auto dest: guard_step_rel)

text \<open>
  C11: The Safe Mode guard accepts a client exactly when it is switched off or its specification does:
  no anomaly is latched, and the last rejection that brought the number of rejections since the last
  recovery within the counting window to the threshold lies at least one cooldown back.
  This holds for every sequence of rejections, anomalies, confirmations and queries with a
  clock that does not go back; the pruning of old entries and the recovery on the next
  query are never visible.\<close>
theorem SafeModeGuard_refines_spec:
  assumes "steady t0 es t"
  shows "fst (ShouldAcceptClients opts t (guard_run opts es)) \<longleftrightarrow> \<not> enabled opts \<or> spec_accepts t (spec_run opts es)"
proof (cases "enabled opts")
  case False
  then show ?thesis by (simp add: ShouldAcceptClients_def Let_def)
next
  case True
  have "guard_rel opts t0 SafeModeGuard_new spec_new"
    by (simp add: guard_rel_def SafeModeGuard_new_def spec_new_def)
  from guard_run_rel [OF this assms True] obtain now' where "now' \<le> t"
    and "guard_rel opts now' (guard_run opts es) (spec_run opts es)"
    unfolding guard_run_def spec_run_def by blast
  then show ?thesis
    using Refresh_accepts True by (simp add: ShouldAcceptClients_def Let_def)
qed

theorem SafeModeGuard_refines_spec_witness:
  "\<not> fst (ShouldAcceptClients default_safe_mode_options 3500
     (guard_run default_safe_mode_options
       [Reject 0 0 0 0, Reject 1000 1000 1000 1000, Query 1500, Reject 2000 2000 2000 2001]))"
proof -
  let ?es = "[Reject 0 0 0 0, Reject 1000 1000 1000 1000, Query 1500, Reject 2000 2000 2000 2001]"
  have "\<not> spec_accepts 3500 (spec_run default_safe_mode_options ?es)"
    by (simp add: spec_accepts_def spec_run_def spec_step_def spec_new_def default_safe_mode_options_def Let_def)
  moreover have "steady 0 ?es 3500" "enabled default_safe_mode_options"
    by (simp_all add: default_safe_mode_options_def)
  ultimately show ?thesis using SafeModeGuard_refines_spec by blast
qed

section \<open>The host reports a legal life cycle\<close>

text \<open>The four reports of a complete run, in order, for a given exit code.\<close>

definition life_cycle :: "u32 \<Rightarrow> ServiceStatusReport list" where
  "life_cycle exitCode =
     [MakeStatusReport StartPending 0 1 kWaitHintMs, MakeStatusReport Running 0 0 0,
      MakeStatusReport StopPending 0 2 kWaitHintMs, MakeStatusReport Stopped exitCode 0 0]"

lemma Transit_legal:
  assumes "legal_transition (h_state h) nxt" and "Transit he nxt x c wt h = (r, h')"
  shows "h_state h' = nxt \<and> h_reports h' = h_reports h @ [MakeStatusReport nxt x c wt]"
  using assms by (auto simp: Transit_def ValidateStateTransition_def report_status_def split: prod.splits)

lemma stop_service_reports:
  assumes "h_state h = Running" and "stop_service he loop h = (r, h')"
  shows "h_reports h' = h_reports h @ [MakeStatusReport StopPending 0 2 kWaitHintMs] \<and> \<not> HasValue r \<or>
    h_reports h' = h_reports h @ [MakeStatusReport StopPending 0 2 kWaitHintMs,
      MakeStatusReport Stopped (if HasValue loop then 0 else 1) 0 0] \<and> (HasValue r \<longrightarrow> r = loop)"
proof -
  obtain r1 h1 where t1: "Transit he StopPending 0 2 kWaitHintMs h = (r1, h1)" by fastforce
  then have h1: "h_state h1 = StopPending" "h_reports h1 = h_reports h @ [MakeStatusReport StopPending 0 2 kWaitHintMs]"
    using Transit_legal [of h StopPending] assms(1) by (auto simp: legal_transition_def)
  obtain r2 h2 where t2: "Transit he Stopped (if HasValue loop then 0 else 1) 0 0 h1 = (r2, h2)" by fastforce
  then have h2: "h_reports h2 = h_reports h1 @ [MakeStatusReport Stopped (if HasValue loop then 0 else 1) 0 0]"
    using Transit_legal [of h1 Stopped] h1 by (auto simp: legal_transition_def)
  show ?thesis
    using assms(2) t1 t2 h1 h2 by (cases r1; cases r2) (auto simp: stop_service_def)
qed

lemma RunServiceMain_reports:
  assumes "RunServiceMain he h = Some (r, h')" and "h_state h = SS_Unknown" and "h_reports h = []"
  shows "\<exists>n x. h_reports h' = take n (life_cycle x) \<and> (HasValue r \<longrightarrow> h_reports h' = life_cycle 0)"
proof -
  obtain r0 s0 where g: "he_RegisterControlHandler he (h_env h) = (r0, s0)" by fastforce
  obtain r1 h1 where t1: "Transit he StartPending 0 1 kWaitHintMs (h\<lparr>h_env := s0\<rparr>) = (r1, h1)" by fastforce
  then have h1: "h_state h1 = StartPending" "h_reports h1 = take 1 (life_cycle 0)"
    using Transit_legal [of "h\<lparr>h_env := s0\<rparr>" StartPending] assms by (auto simp: legal_transition_def life_cycle_def)
  obtain r2 h2 where t2: "Transit he Running 0 0 0 h1 = (r2, h2)" by fastforce
  then have h2: "h_state h2 = Running" "h_reports h2 = take 2 (life_cycle 0)"
    using Transit_legal [of h1 Running] h1 by (auto simp: legal_transition_def life_cycle_def)
  have none: "\<exists>n x. [] = take n (life_cycle x)" by (metis take0)
  show ?thesis
  proof (cases "HasValue r0 \<and> HasValue r1 \<and> HasValue r2")
    case False
    then have "\<not> HasValue r \<and> (h_reports h' = [] \<or> h_reports h' = h_reports h1 \<or> h_reports h' = h_reports h2)"
      using assms g t1 t2 by (cases r0; cases r1; cases r2) (auto simp: RunServiceMain_def)
    with h1 h2 none show ?thesis by auto
  next
    case True
    with assms g t1 t2 obtain loop s where l: "RunLoop he None (h_env h2) = Some (loop, s)"
      and st: "stop_service he loop (h2\<lparr>h_env := s\<rparr>) = (r, h')"
      by (cases r0; cases r1; cases r2) (auto simp: RunServiceMain_def split: option.splits)
    have "h_reports h' = take 3 (life_cycle 0) \<and> \<not> HasValue r \<or>
        h_reports h' = take 4 (life_cycle (if HasValue loop then 0 else 1)) \<and> (HasValue r \<longrightarrow> r = loop)"
      using stop_service_reports [OF _ st] h2 by (simp add: life_cycle_def)
    moreover have "take 4 (life_cycle x) = life_cycle x" for x by (simp add: life_cycle_def)
    ultimately show ?thesis by (elim disjE) (blast, metis)
  qed
qed

text \<open>
  Whatever the control manager answers and whatever the workload does, a service run
  that returns has reported a prefix of start pending, running, stop pending, stopped, in
  this order and each at most once; it succeeds only after all four were reported with
  exit code 0.\<close>
theorem RunServiceMain_reports_life_cycle:
  assumes "RunServiceMain he \<lparr>h_env = s, h_state = SS_Unknown, h_reports = []\<rparr> = Some (r, h')"
  shows "\<exists>n x. h_reports h' = take n (life_cycle x) \<and> (HasValue r \<longrightarrow> h_reports h' = life_cycle 0)"
  by (rule RunServiceMain_reports [OF assms]) simp_all

text \<open>A host whose workload fails in its second tick.\<close>

definition failing_host :: "nat host_env" where
  "failing_host =
     \<lparr>he_RegisterControlHandler = \<lambda>s. (Success (), s), he_ReportStatus = \<lambda>r s. (Success (), s),
      he_workload = \<lambda>s. (if s = 1 then Failure (Error_Validation ''tick'' ''failed'') else Success (), s + 1),
      he_stopRequested = \<lambda>s. False, he_now = \<lambda>s. (0, s), he_wait = \<lambda>s. s\<rparr>"

theorem RunServiceMain_reports_life_cycle_witness:
  "case RunServiceMain failing_host \<lparr>h_env = 0, h_state = SS_Unknown, h_reports = []\<rparr> of
     None \<Rightarrow> False
   | Some (r, h') \<Rightarrow> \<not> HasValue r \<and> (\<exists>n x. h_reports h' = take n (life_cycle x))"
proof -
  have "RunServiceMain failing_host \<lparr>h_env = 0, h_state = SS_Unknown, h_reports = []\<rparr> \<noteq> None \<and>
      \<not> HasValue (fst (the (RunServiceMain failing_host \<lparr>h_env = 0, h_state = SS_Unknown, h_reports = []\<rparr>)))"
    by code_simp
  then obtain r h' where run: "RunServiceMain failing_host \<lparr>h_env = 0, h_state = SS_Unknown, h_reports = []\<rparr> = Some (r, h')"
    and "\<not> HasValue r" by auto
  moreover from RunServiceMain_reports_life_cycle [OF run] have "\<exists>n x. h_reports h' = take n (life_cycle x)" by blast
  ultimately show ?thesis by simp
qed

end
