(* ===== verification/Registration.thy ===== *)
theory Registration
  imports Service_Host
begin

text \<open>
  The ways to have the host started: the entry of the user's run key
  (\<^verbatim>\<open>service/startup_entry.hpp/.cpp\<close>), the task of the task scheduler
  (\<^verbatim>\<open>service/scheduled_task.hpp/.cpp\<close>) and the service of the service control manager (the production
  backend of \<^verbatim>\<open>service/service_host.cpp\<close>), and the lock that keeps a second host away
  (\<^verbatim>\<open>service/host_instance.hpp/.cpp\<close>).  Each backend is built from the calls it makes on a machine
  state; texts are code unit lists within one byte.
\<close>

section \<open>The entry of the run key\<close>

definition kStartupValueName :: string where "kStartupValueName = ''CppOptimizer''"

record 's StartupEntryBackend =
  se_Read :: "'s \<Rightarrow> string result \<times> 's"
  se_Write :: "string \<Rightarrow> 's \<Rightarrow> unit result \<times> 's"
  se_Remove :: "'s \<Rightarrow> unit result \<times> 's"

definition InstallStartupEntry :: "'s StartupEntryBackend \<Rightarrow> string \<Rightarrow> 's \<Rightarrow> unit result \<times> 's" where
  "InstallStartupEntry b exePath s =
     (if exePath = [] then (Failure (Error_Validation ''InstallStartupEntry'' ''the path must not be empty''), s)
      else se_Write b (CHR 0x22 # exePath @ [CHR 0x22]) s)"

definition RemoveStartupEntry :: "'s StartupEntryBackend \<Rightarrow> 's \<Rightarrow> unit result \<times> 's" where
  "RemoveStartupEntry b s = se_Remove b s"

definition QueryStartupEntry :: "'s StartupEntryBackend \<Rightarrow> 's \<Rightarrow> string result \<times> 's" where
  "QueryStartupEntry b s = se_Read b s"

text \<open>
  The registry calls on the run key and its value: opening and creating the key (status and key, 0
  for none), the size of the value (status, type, bytes), the value itself into a buffer of so
  many units (status and the units delivered), setting, deleting and closing.
\<close>

record 's registry_api =
  rg_Open :: "u32 \<Rightarrow> 's \<Rightarrow> (u32 \<times> u64) \<times> 's"
  rg_Create :: "u32 \<Rightarrow> 's \<Rightarrow> (u32 \<times> u64) \<times> 's"
  rg_QuerySize :: "u64 \<Rightarrow> 's \<Rightarrow> u32 \<times> u32 \<times> nat"
  rg_QueryValue :: "u64 \<Rightarrow> nat \<Rightarrow> 's \<Rightarrow> u32 \<times> string"
  rg_SetValue :: "u64 \<Rightarrow> string \<Rightarrow> 's \<Rightarrow> u32 \<times> 's"
  rg_DeleteValue :: "u64 \<Rightarrow> 's \<Rightarrow> u32 \<times> 's"
  rg_Close :: "u64 \<Rightarrow> 's \<Rightarrow> 's"

abbreviation ERROR_FILE_NOT_FOUND :: u32 where "ERROR_FILE_NOT_FOUND \<equiv> 2"
abbreviation KEY_QUERY_VALUE :: u32 where "KEY_QUERY_VALUE \<equiv> 1"
abbreviation KEY_SET_VALUE :: u32 where "KEY_SET_VALUE \<equiv> 2"
abbreviation REG_SZ :: u32 where "REG_SZ \<equiv> 1"

definition ScopedRegKey_close :: "'s registry_api \<Rightarrow> u64 \<Rightarrow> 's \<Rightarrow> 's" where
  "ScopedRegKey_close A key s = (if key \<noteq> 0 then rg_Close A key s else s)"

text \<open>The buffer keeps its size: what the second query does not deliver stays zero; one final zero is cut.\<close>

definition startup_value :: "nat \<Rightarrow> string \<Rightarrow> string" where
  "startup_value units got =
     (let v = got @ replicate (units - length got) (CHR 0x00)
      in if v \<noteq> [] \<and> last v = CHR 0x00 then butlast v else v)"

definition Win32_Startup_Read :: "(u32 \<Rightarrow> string) \<Rightarrow> 's registry_api \<Rightarrow> 's \<Rightarrow> string result \<times> 's" where
  "Win32_Startup_Read sysmsg A s =
     (let ((opened, key), s1) = rg_Open A KEY_QUERY_VALUE s
      in (if opened = ERROR_FILE_NOT_FOUND then Success []
          else if opened \<noteq> 0 then Failure (FromWin32 sysmsg opened ''RegOpenKeyExW(startup run key)'')
          else (let (queried, type, bytes) = rg_QuerySize A key s1
                in if queried = ERROR_FILE_NOT_FOUND then Success []
                   else if queried \<noteq> 0 then Failure (FromWin32 sysmsg queried ''RegQueryValueExW(size)'')
                   else if type \<noteq> REG_SZ \<or> bytes < 2
                   then Failure (Error_Validation ''QueryStartupEntry'' ''the value is not of type REG_SZ'')
                   else (let (queried, got) = rg_QueryValue A key (bytes div 2) s1
                         in if queried \<noteq> 0 then Failure (FromWin32 sysmsg queried ''RegQueryValueExW(value)'')
                            else Success (startup_value (bytes div 2) got))),
          ScopedRegKey_close A key s1))"

definition Win32_Startup_Write :: "(u32 \<Rightarrow> string) \<Rightarrow> 's registry_api \<Rightarrow> string \<Rightarrow> 's \<Rightarrow> unit result \<times> 's" where
  "Win32_Startup_Write sysmsg A quotedCommand s =
     (let ((opened, key), s1) = rg_Create A KEY_SET_VALUE s
      in if opened \<noteq> 0
         then (Failure (FromWin32 sysmsg opened ''RegCreateKeyExW(startup run key)''), ScopedRegKey_close A key s1)
         else (let (written, s2) = rg_SetValue A key quotedCommand s1
               in (if written \<noteq> 0 then Failure (FromWin32 sysmsg written ''RegSetValueExW(startup entry)'') else Success (),
                   ScopedRegKey_close A key s2)))"

definition Win32_Startup_Remove :: "(u32 \<Rightarrow> string) \<Rightarrow> 's registry_api \<Rightarrow> 's \<Rightarrow> unit result \<times> 's" where
  "Win32_Startup_Remove sysmsg A s =
     (let ((opened, key), s1) = rg_Open A KEY_SET_VALUE s
      in if opened = ERROR_FILE_NOT_FOUND then (Success (), ScopedRegKey_close A key s1)
         else if opened \<noteq> 0
         then (Failure (FromWin32 sysmsg opened ''RegOpenKeyExW(startup run key)''), ScopedRegKey_close A key s1)
         else (let (deleted, s2) = rg_DeleteValue A key s1
               in (if deleted = 0 \<or> deleted = ERROR_FILE_NOT_FOUND then Success ()
                   else Failure (FromWin32 sysmsg deleted ''RegDeleteValueW(startup entry)''),
                   ScopedRegKey_close A key s2)))"

definition Win32StartupEntryBackend :: "(u32 \<Rightarrow> string) \<Rightarrow> 's registry_api \<Rightarrow> 's StartupEntryBackend" where
  "Win32StartupEntryBackend sysmsg A =
     \<lparr>se_Read = Win32_Startup_Read sysmsg A, se_Write = Win32_Startup_Write sysmsg A, se_Remove = Win32_Startup_Remove sysmsg A\<rparr>"

section \<open>The scheduled task\<close>

definition kScheduledTaskName :: string where "kScheduledTaskName = ''CppOptimizer''"

datatype TaskTrigger = OnLogon | OnBoot

record ScheduledTaskSpec =
  st_taskName :: string
  st_commandLine :: string
  st_trigger :: TaskTrigger

record ScheduledTaskStatus =
  sts_installed :: bool
  sts_commandLine :: string
  sts_trigger :: string

definition no_task_status :: ScheduledTaskStatus where
  "no_task_status = \<lparr>sts_installed = False, sts_commandLine = [], sts_trigger = []\<rparr>"

record 's ScheduledTaskBackend =
  tb_Read :: "string \<Rightarrow> 's \<Rightarrow> ScheduledTaskStatus result \<times> 's"
  tb_Create :: "ScheduledTaskSpec \<Rightarrow> 's \<Rightarrow> unit result \<times> 's"
  tb_Remove :: "string \<Rightarrow> 's \<Rightarrow> unit result \<times> 's"

definition InstallScheduledTask :: "'s ScheduledTaskBackend \<Rightarrow> ScheduledTaskSpec \<Rightarrow> 's \<Rightarrow> unit result \<times> 's" where
  "InstallScheduledTask b spec s =
     (let refuse = (\<lambda>msg. (Failure (Error_Validation ''InstallScheduledTask'' msg), s))
      in if st_taskName spec = [] then refuse ''the task name must not be empty''
         else if CHR 0x5C \<in> set (st_taskName spec) then refuse ''the task name must not contain a path separator''
         else if st_commandLine spec = [] then refuse ''the command line must not be empty''
         else if st_trigger spec \<noteq> OnLogon then refuse ''only the logon trigger is supported; a boot task would run as SYSTEM''
         else tb_Create b spec s)"

definition RemoveScheduledTask :: "'s ScheduledTaskBackend \<Rightarrow> string \<Rightarrow> 's \<Rightarrow> unit result \<times> 's" where
  "RemoveScheduledTask b taskName s =
     (if taskName = [] then (Failure (Error_Validation ''RemoveScheduledTask'' ''the task name must not be empty''), s)
      else if CHR 0x5C \<in> set taskName
      then (Failure (Error_Validation ''RemoveScheduledTask'' ''the task name must not contain a path separator''), s)
      else tb_Remove b taskName s)"

definition QueryScheduledTask :: "'s ScheduledTaskBackend \<Rightarrow> string \<Rightarrow> 's \<Rightarrow> ScheduledTaskStatus result \<times> 's" where
  "QueryScheduledTask b taskName s =
     (if taskName = [] then (Failure (Error_Validation ''QueryScheduledTask'' ''the task name must not be empty''), s)
      else if CHR 0x5C \<in> set taskName
      then (Failure (Error_Validation ''QueryScheduledTask'' ''the task name must not contain a path separator''), s)
      else tb_Read b taskName s)"

subsection \<open>The task scheduler\<close>

datatype trigger_type = TASK_TRIGGER_LOGON | TASK_TRIGGER_BOOT | TASK_TRIGGER_OTHER

definition TriggerTextFromType :: "trigger_type \<Rightarrow> string" where
  "TriggerTextFromType type =
     (case type of TASK_TRIGGER_LOGON \<Rightarrow> ''logon'' | TASK_TRIGGER_BOOT \<Rightarrow> ''boot'' | TASK_TRIGGER_OTHER \<Rightarrow> [])"

text \<open>A definition as the scheduler keeps it, with the values a new one has.\<close>

record task_definition =
  td_author :: string
  td_startWhenAvailable :: bool
  td_disallowStartIfOnBatteries :: bool
  td_stopIfGoingOnBatteries :: bool
  td_executionTimeLimit :: string
  td_triggers :: "trigger_type list"
  td_actions :: "(string \<times> string) list"

definition new_definition :: task_definition where
  "new_definition = \<lparr>td_author = [], td_startWhenAvailable = False, td_disallowStartIfOnBatteries = True,
     td_stopIfGoingOnBatteries = True, td_executionTimeLimit = ''PT72H'', td_triggers = [], td_actions = []\<rparr>"

datatype com_call =
    CoCreateInstance | Connect | GetFolder | NewTask
  | Get_RegistrationInfo | Put_Author string | Get_Settings | Put_StartWhenAvailable bool
  | Put_DisallowStartIfOnBatteries bool | Put_StopIfGoingOnBatteries bool | Put_ExecutionTimeLimit string
  | Get_Triggers | Create_Trigger trigger_type | Get_Actions | Create_Exec | As_ExecAction | Put_Path string | Put_Arguments string
  | Get_Definition | Get_ActionCount | Get_Action | Get_Path | Get_Arguments | Get_TriggerCount | Get_Trigger | Get_Type

text \<open>What a successful call changes in the definition at hand; the new action is the last one.\<close>

fun put_action :: "(string \<times> string \<Rightarrow> string \<times> string) \<Rightarrow> (string \<times> string) list \<Rightarrow> (string \<times> string) list" where
  "put_action f as = (if as = [] then [] else butlast as @ [f (last as)])"

fun apply_call :: "com_call \<Rightarrow> task_definition \<Rightarrow> task_definition" where
  "apply_call (Put_Author t) d = d\<lparr>td_author := t\<rparr>"
| "apply_call (Put_StartWhenAvailable b) d = d\<lparr>td_startWhenAvailable := b\<rparr>"
| "apply_call (Put_DisallowStartIfOnBatteries b) d = d\<lparr>td_disallowStartIfOnBatteries := b\<rparr>"
| "apply_call (Put_StopIfGoingOnBatteries b) d = d\<lparr>td_stopIfGoingOnBatteries := b\<rparr>"
| "apply_call (Put_ExecutionTimeLimit t) d = d\<lparr>td_executionTimeLimit := t\<rparr>"
| "apply_call (Create_Trigger t) d = d\<lparr>td_triggers := td_triggers d @ [t]\<rparr>"
| "apply_call Create_Exec d = d\<lparr>td_actions := td_actions d @ [([], [])]\<rparr>"
| "apply_call (Put_Path t) d = d\<lparr>td_actions := put_action (\<lambda>(_, a). (t, a)) (td_actions d)\<rparr>"
| "apply_call (Put_Arguments t) d = d\<lparr>td_actions := put_action (\<lambda>(p, _). (p, t)) (td_actions d)\<rparr>"
| "apply_call _ d = d"

text \<open>
  The calls: initialising and leaving COM on the thread, allocating a text, a call of an interface
  (its result and whether it delivered an object), registering, deleting and looking up a task, and
  the definition of a task that was found.
\<close>

record 's task_api =
  tk_CoInitialize :: "'s \<Rightarrow> u32 \<times> 's"
  tk_CoUninitialize :: "'s \<Rightarrow> 's"
  tk_SysAllocString :: "string \<Rightarrow> 's \<Rightarrow> bool"
  tk_call :: "com_call \<Rightarrow> 's \<Rightarrow> (u32 \<times> bool) \<times> 's"
  tk_Register :: "string \<Rightarrow> task_definition \<Rightarrow> 's \<Rightarrow> u32 \<times> 's"
  tk_Delete :: "string \<Rightarrow> 's \<Rightarrow> u32 \<times> 's"
  tk_GetTask :: "string \<Rightarrow> 's \<Rightarrow> u32 \<times> 's"
  tk_Task :: "string \<Rightarrow> 's \<Rightarrow> task_definition"

definition FAILED :: "u32 \<Rightarrow> bool" where "FAILED hr \<longleftrightarrow> bit hr 31"

abbreviation S_FALSE :: u32 where "S_FALSE \<equiv> 1"
abbreviation RPC_E_CHANGED_MODE :: u32 where "RPC_E_CHANGED_MODE \<equiv> 0x80010106"
abbreviation CO_E_NOTINITIALIZED :: u32 where "CO_E_NOTINITIALIZED \<equiv> 0x800401F0"
abbreviation HRESULT_NOT_FOUND :: u32 where "HRESULT_NOT_FOUND \<equiv> 0x80070002"

definition InternalError :: "string \<Rightarrow> string \<Rightarrow> Error" where
  "InternalError operation message =
     \<lparr>err_domain = Internal, err_code = 0, err_operation = operation, err_message = message\<rparr>"

definition with_com :: "(u32 \<Rightarrow> string) \<Rightarrow> 's task_api \<Rightarrow> ('s \<Rightarrow> 'a result \<times> 's) \<Rightarrow> 's \<Rightarrow> 'a result \<times> 's" where
  "with_com sysmsg A body s =
     (let (hr, s1) = tk_CoInitialize A s;
          ready = (\<not> FAILED hr \<or> hr = RPC_E_CHANGED_MODE);
          owns = (\<not> FAILED hr \<and> hr \<noteq> S_FALSE)
      in if \<not> ready then (Failure (FromHResult sysmsg CO_E_NOTINITIALIZED ''CoInitializeEx(task scheduler)''), s1)
         else (let (r, s2) = body s1 in (r, if owns then tk_CoUninitialize A s2 else s2)))"

text \<open>A sequence of calls stops at the first that fails or that delivers no object where one is needed.\<close>

datatype com_step = Call com_call string bool | Alloc string string string

fun run_steps :: "(u32 \<Rightarrow> string) \<Rightarrow> 's task_api \<Rightarrow> com_step list \<Rightarrow> 's \<Rightarrow> unit result \<times> 's" where
  "run_steps sysmsg A [] s = (Success (), s)"
| "run_steps sysmsg A (Call c operation needsObject # steps) s =
     (let ((hr, obj), s1) = tk_call A c s
      in if FAILED hr \<or> (needsObject \<and> \<not> obj) then (Failure (FromHResult sysmsg hr operation), s1)
         else run_steps sysmsg A steps s1)"
| "run_steps sysmsg A (Alloc t operation msg # steps) s =
     (if tk_SysAllocString A t s then run_steps sysmsg A steps s else (Failure (InternalError operation msg), s))"

definition ConnectRootFolder :: "(u32 \<Rightarrow> string) \<Rightarrow> 's task_api \<Rightarrow> 's \<Rightarrow> unit result \<times> 's" where
  "ConnectRootFolder sysmsg A s =
     run_steps sysmsg A
       [Call CoCreateInstance ''CoCreateInstance(TaskScheduler)'' False, Call Connect ''ITaskService::Connect'' False,
        Alloc [CHR 0x5C] ''ConnectRootFolder'' ''no memory for the path'', Call GetFolder ''ITaskService::GetFolder'' False] s"

text \<open>A quoted first word is the executable, the rest its arguments; otherwise the whole text is the executable.\<close>

definition split_command :: "string \<Rightarrow> string \<times> string" where
  "split_command commandLine =
     (let (executable, arguments) =
        (if commandLine \<noteq> [] \<and> hd commandLine = CHR 0x22
         then (case split_first (CHR 0x22) (tl commandLine) of
                 None \<Rightarrow> ([], [])
               | Some (e, rest) \<Rightarrow> (e, dropWhile (\<lambda>c. c = CHR '' '') rest))
         else ([], []))
      in if executable = [] then (commandLine, []) else (executable, arguments))"

definition prepare_steps :: "ScheduledTaskSpec \<Rightarrow> com_step list" where
  "prepare_steps spec =
     (let (executable, arguments) = split_command (st_commandLine spec)
      in [Call Get_Settings ''ITaskDefinition::get_Settings'' True,
          Alloc ''PT0S'' ''PrepareDefinition'' ''no memory for the time limit'',
          Call (Put_StartWhenAvailable True) ''ITaskSettings::put_StartWhenAvailable'' False,
          Call (Put_DisallowStartIfOnBatteries False) ''ITaskSettings::put_DisallowStartIfOnBatteries'' False,
          Call (Put_StopIfGoingOnBatteries False) ''ITaskSettings::put_StopIfGoingOnBatteries'' False,
          Call (Put_ExecutionTimeLimit ''PT0S'') ''ITaskSettings::put_ExecutionTimeLimit'' False,
          Call Get_Triggers ''ITaskDefinition::get_Triggers'' True,
          Call (Create_Trigger TASK_TRIGGER_LOGON) ''ITriggerCollection::Create(logon)'' True,
          Call Get_Actions ''ITaskDefinition::get_Actions'' True,
          Call Create_Exec ''IActionCollection::Create(exec)'' True,
          Call As_ExecAction ''IAction::QueryInterface(IExecAction)'' True,
          Alloc executable ''PrepareDefinition'' ''no memory for the action'',
          Alloc arguments ''PrepareDefinition'' ''no memory for the action'',
          Call (Put_Path executable) ''IExecAction::put_Path'' False,
          Call (Put_Arguments arguments) ''IExecAction::put_Arguments'' False])"

fun step_effect :: "com_step \<Rightarrow> task_definition \<Rightarrow> task_definition" where
  "step_effect (Call c _ _) d = apply_call c d"
| "step_effect (Alloc _ _ _) d = d"

definition author_steps :: "com_step list" where
  "author_steps =
     [Alloc ''CppOptimizer'' ''PrepareDefinition'' ''no memory for the author'',
      Call (Put_Author ''CppOptimizer'') ''IRegistrationInfo::put_Author'' False]"

text \<open>The definition it leaves is the one of a run in which every call succeeded.\<close>

definition PrepareDefinition ::
  "(u32 \<Rightarrow> string) \<Rightarrow> 's task_api \<Rightarrow> ScheduledTaskSpec \<Rightarrow> 's \<Rightarrow> task_definition result \<times> 's" where
  "PrepareDefinition sysmsg A spec s =
     (let ((hr, registration), s1) = tk_call A Get_RegistrationInfo s;
          steps = (if \<not> FAILED hr \<and> registration then author_steps else []) @ prepare_steps spec
      in case run_steps sysmsg A steps s1 of
           (Inl e, s2) \<Rightarrow> (Failure e, s2)
         | (Inr _, s2) \<Rightarrow> (Success (fold step_effect steps new_definition), s2))"

definition create_task :: "(u32 \<Rightarrow> string) \<Rightarrow> 's task_api \<Rightarrow> ScheduledTaskSpec \<Rightarrow> 's \<Rightarrow> unit result \<times> 's" where
  "create_task sysmsg A spec s =
     (case run_steps sysmsg A
             [Call CoCreateInstance ''CoCreateInstance(TaskScheduler)'' False, Call Connect ''ITaskService::Connect'' False,
              Call NewTask ''ITaskService::NewTask'' True] s of
        (Inl e, s1) \<Rightarrow> (Failure e, s1)
      | (Inr _, s1) \<Rightarrow>
     (case PrepareDefinition sysmsg A spec s1 of
        (Inl e, s2) \<Rightarrow> (Failure e, s2)
      | (Inr definition_made, s2) \<Rightarrow>
     (case run_steps sysmsg A
             [Alloc [CHR 0x5C] ''Create'' ''no memory for the path'', Alloc (st_taskName spec) ''Create'' ''no memory for the path'',
              Call GetFolder ''ITaskService::GetFolder'' False] s2 of
        (Inl e, s3) \<Rightarrow> (Failure e, s3)
      | (Inr _, s3) \<Rightarrow>
          (let (hr, s4) = tk_Register A (st_taskName spec) definition_made s3
           in (if FAILED hr then Failure (FromHResult sysmsg hr ''ITaskFolder::RegisterTaskDefinition'') else Success (), s4)))))"

definition Win32_Task_Create :: "(u32 \<Rightarrow> string) \<Rightarrow> 's task_api \<Rightarrow> ScheduledTaskSpec \<Rightarrow> 's \<Rightarrow> unit result \<times> 's" where
  "Win32_Task_Create sysmsg A spec s = with_com sysmsg A (create_task sysmsg A spec) s"

definition remove_task :: "(u32 \<Rightarrow> string) \<Rightarrow> 's task_api \<Rightarrow> string \<Rightarrow> 's \<Rightarrow> unit result \<times> 's" where
  "remove_task sysmsg A taskName s =
     (case ConnectRootFolder sysmsg A s of
        (Inl e, s1) \<Rightarrow> (Failure e, s1)
      | (Inr _, s1) \<Rightarrow>
          if \<not> tk_SysAllocString A taskName s1 then (Failure (InternalError ''Remove'' ''no memory for the path''), s1)
          else (let (hr, s2) = tk_Delete A taskName s1
                in (if hr = HRESULT_NOT_FOUND then Success ()
                    else if FAILED hr then Failure (FromHResult sysmsg hr ''ITaskFolder::DeleteTask'') else Success (), s2)))"

definition Win32_Task_Remove :: "(u32 \<Rightarrow> string) \<Rightarrow> 's task_api \<Rightarrow> string \<Rightarrow> 's \<Rightarrow> unit result \<times> 's" where
  "Win32_Task_Remove sysmsg A taskName s = with_com sysmsg A (remove_task sysmsg A taskName) s"

text \<open>Reading: the calls up to the first that fails or delivers nothing.\<close>

fun ok_calls :: "'s task_api \<Rightarrow> (com_call \<times> bool) list \<Rightarrow> 's \<Rightarrow> bool \<times> 's" where
  "ok_calls A [] s = (True, s)"
| "ok_calls A ((c, needsObject) # cs) s =
     (let ((hr, obj), s1) = tk_call A c s
      in if FAILED hr \<or> (needsObject \<and> \<not> obj) then (False, s1) else ok_calls A cs s1)"

definition ReadCommandLine :: "'s task_api \<Rightarrow> task_definition \<Rightarrow> 's \<Rightarrow> string \<times> 's" where
  "ReadCommandLine A d s =
     (let (ok, s1) = ok_calls A [(Get_Actions, True), (Get_ActionCount, False)] s
      in if \<not> ok \<or> td_actions d = [] then ([], s1)
         else (let (ok, s2) = ok_calls A [(Get_Action, True), (As_ExecAction, True)] s1
               in if \<not> ok then ([], s2)
                  else (let (hasPath, s3) = ok_calls A [(Get_Path, True)] s2;
                            path = (if hasPath then fst (hd (td_actions d)) else []);
                            (hasArguments, s4) = ok_calls A [(Get_Arguments, True)] s3
                        in (if hasArguments then (if path \<noteq> [] then path @ '' '' else []) @ snd (hd (td_actions d)) else path,
                            s4))))"

definition ReadTrigger :: "'s task_api \<Rightarrow> task_definition \<Rightarrow> 's \<Rightarrow> string \<times> 's" where
  "ReadTrigger A d s =
     (let (ok, s1) = ok_calls A [(Get_Triggers, True), (Get_TriggerCount, False)] s
      in if \<not> ok \<or> td_triggers d = [] then ([], s1)
         else (let (ok, s2) = ok_calls A [(Get_Trigger, True), (Get_Type, False)] s1
               in (if ok then TriggerTextFromType (hd (td_triggers d)) else [], s2)))"

definition ReadFromFolder :: "(u32 \<Rightarrow> string) \<Rightarrow> 's task_api \<Rightarrow> string \<Rightarrow> 's \<Rightarrow> ScheduledTaskStatus result \<times> 's" where
  "ReadFromFolder sysmsg A taskName s =
     (if \<not> tk_SysAllocString A taskName s then (Failure (InternalError ''Read'' ''no memory for the path''), s)
      else (let (hr, s1) = tk_GetTask A taskName s
            in if hr = HRESULT_NOT_FOUND then (Success no_task_status, s1)
               else if FAILED hr then (Failure (FromHResult sysmsg hr ''ITaskFolder::GetTask''), s1)
               else (let d = tk_Task A taskName s1; (ok, s2) = ok_calls A [(Get_Definition, True)] s1
                     in if \<not> ok then (Success \<lparr>sts_installed = True, sts_commandLine = [], sts_trigger = []\<rparr>, s2)
                        else (let (cmd, s3) = ReadCommandLine A d s2; (trg, s4) = ReadTrigger A d s3
                              in (Success \<lparr>sts_installed = True, sts_commandLine = cmd, sts_trigger = trg\<rparr>, s4)))))"

definition read_task :: "(u32 \<Rightarrow> string) \<Rightarrow> 's task_api \<Rightarrow> string \<Rightarrow> 's \<Rightarrow> ScheduledTaskStatus result \<times> 's" where
  "read_task sysmsg A taskName s =
     (case ConnectRootFolder sysmsg A s of
        (Inl e, s1) \<Rightarrow> (Failure e, s1)
      | (Inr _, s1) \<Rightarrow> ReadFromFolder sysmsg A taskName s1)"

definition Win32_Task_Read :: "(u32 \<Rightarrow> string) \<Rightarrow> 's task_api \<Rightarrow> string \<Rightarrow> 's \<Rightarrow> ScheduledTaskStatus result \<times> 's" where
  "Win32_Task_Read sysmsg A taskName s = with_com sysmsg A (read_task sysmsg A taskName) s"

definition Win32ScheduledTaskBackend :: "(u32 \<Rightarrow> string) \<Rightarrow> 's task_api \<Rightarrow> 's ScheduledTaskBackend" where
  "Win32ScheduledTaskBackend sysmsg A =
     \<lparr>tb_Read = Win32_Task_Read sysmsg A, tb_Create = Win32_Task_Create sysmsg A, tb_Remove = Win32_Task_Remove sysmsg A\<rparr>"

section \<open>The service\<close>

text \<open>
  The calls on the service control manager.  \<open>sc_ModulePath\<close> is the path of the running program
  (nothing when it cannot be read): a buffer takes it when it is longer than the path and is
  otherwise filled.  The status and the start type of an open service may be unavailable.
\<close>

record 's scm_api =
  sc_ModulePath :: "'s \<Rightarrow> wstring option"
  sc_OpenSCManager :: "u32 \<Rightarrow> 's \<Rightarrow> u64 \<times> 's"
  sc_CreateService :: "u64 \<Rightarrow> wstring \<Rightarrow> wstring \<Rightarrow> wstring \<Rightarrow> 's \<Rightarrow> u64 \<times> 's"
  sc_SetDescription :: "u64 \<Rightarrow> wstring \<Rightarrow> 's \<Rightarrow> 's"
  sc_OpenService :: "u64 \<Rightarrow> wstring \<Rightarrow> u32 \<Rightarrow> 's \<Rightarrow> u64 \<times> 's"
  sc_DeleteService :: "u64 \<Rightarrow> 's \<Rightarrow> bool \<times> 's"
  sc_CurrentState :: "u64 \<Rightarrow> 's \<Rightarrow> u32 option"
  sc_StartType :: "u64 \<Rightarrow> 's \<Rightarrow> u32 option"
  sc_CloseServiceHandle :: "u64 \<Rightarrow> 's \<Rightarrow> 's"
  sc_GetLastError :: "'s \<Rightarrow> u32"

abbreviation SC_MANAGER_CONNECT :: u32 where "SC_MANAGER_CONNECT \<equiv> 1"
abbreviation SC_MANAGER_CREATE_SERVICE :: u32 where "SC_MANAGER_CREATE_SERVICE \<equiv> 2"
abbreviation SERVICE_ACCESS_DELETE :: u32 where "SERVICE_ACCESS_DELETE \<equiv> 0x10000"
abbreviation SERVICE_QUERY_ACCESS :: u32 where "SERVICE_QUERY_ACCESS \<equiv> 5"
abbreviation ERROR_SERVICE_DOES_NOT_EXIST :: u32 where "ERROR_SERVICE_DOES_NOT_EXIST \<equiv> 1060"

text \<open>The buffer is doubled until the path fits.\<close>

function image_loop :: "wstring \<Rightarrow> nat \<Rightarrow> wstring" where
  "image_loop path k = (if length path < 260 * 2 ^ k then path else image_loop path (k + 1))"
  by pat_completeness auto

termination image_loop
proof (relation "measure (\<lambda>(path, k). Suc (length path) - 260 * 2 ^ k)")
  fix path :: wstring and k :: nat
  assume small: "\<not> length path < 260 * 2 ^ k"
  define x :: nat where "x = 260 * 2 ^ k"
  have "260 * 2 ^ (k + 1) = 2 * x" "0 < x" by (simp_all add: x_def)
  with small show "((path, k + 1), path, k) \<in> measure (\<lambda>(path, k). Suc (length path) - 260 * 2 ^ k)"
    unfolding in_measure prod.case x_def [symmetric] by linarith
qed simp

declare image_loop.simps [simp del]

definition ResolveImagePath :: "(u32 \<Rightarrow> string) \<Rightarrow> 's scm_api \<Rightarrow> wstring \<Rightarrow> 's \<Rightarrow> wstring result" where
  "ResolveImagePath sysmsg A executablePath s =
     (if executablePath \<noteq> [] then Success executablePath
      else case sc_ModulePath A s of
             None \<Rightarrow> Failure (FromWin32 sysmsg (sc_GetLastError A s) ''GetModuleFileNameW'')
           | Some path \<Rightarrow> Success (image_loop path 0))"

definition FromScmState :: "u32 \<Rightarrow> ServiceState" where
  "FromScmState state =
     (if state = 2 then StartPending else if state = 4 then Running else if state = 3 then StopPending
      else if state = 1 then Stopped else SS_Unknown)"

definition close_service :: "'s scm_api \<Rightarrow> u64 \<Rightarrow> 's \<Rightarrow> 's" where
  "close_service A h s = (if h \<noteq> 0 then sc_CloseServiceHandle A h s else s)"

definition scm_error :: "(u32 \<Rightarrow> string) \<Rightarrow> 's scm_api \<Rightarrow> string \<Rightarrow> 's \<Rightarrow> Error" where
  "scm_error sysmsg A operation s = FromWin32 sysmsg (sc_GetLastError A s) operation"

definition Win32_Scm_Create :: "(u32 \<Rightarrow> string) \<Rightarrow> 's scm_api \<Rightarrow> ServiceIdentity \<Rightarrow> 's \<Rightarrow> unit result \<times> 's" where
  "Win32_Scm_Create sysmsg A ident s =
     (case ResolveImagePath sysmsg A (si_executablePath ident) s of
        Inl e \<Rightarrow> (Failure e, s)
      | Inr imagePath \<Rightarrow>
          (let quoted = wide [CHR 0x22] @ imagePath @ wide [CHR 0x22];
               (scm, s1) = sc_OpenSCManager A SC_MANAGER_CREATE_SERVICE s
           in if scm = 0 then (Failure (scm_error sysmsg A ''OpenSCManagerW'' s1), s1)
              else (let (svc, s2) = sc_CreateService A scm (si_name ident) (si_displayName ident) quoted s1
                    in if svc = 0 then (Failure (scm_error sysmsg A ''CreateServiceW'' s2), close_service A scm s2)
                       else (let s3 = (if si_description ident \<noteq> [] then sc_SetDescription A svc (si_description ident) s2 else s2)
                             in (Success (), close_service A scm (close_service A svc s3))))))"

definition Win32_Scm_Delete :: "(u32 \<Rightarrow> string) \<Rightarrow> 's scm_api \<Rightarrow> wstring \<Rightarrow> 's \<Rightarrow> unit result \<times> 's" where
  "Win32_Scm_Delete sysmsg A name s =
     (let (scm, s1) = sc_OpenSCManager A SC_MANAGER_CONNECT s
      in if scm = 0 then (Failure (scm_error sysmsg A ''OpenSCManagerW'' s1), s1)
         else (let (svc, s2) = sc_OpenService A scm name SERVICE_ACCESS_DELETE s1
               in if svc = 0 then (Failure (scm_error sysmsg A ''OpenServiceW'' s2), close_service A scm s2)
                  else (let (ok, s3) = sc_DeleteService A svc s2
                        in (if \<not> ok then Failure (scm_error sysmsg A ''DeleteService'' s3) else Success (),
                            close_service A scm (close_service A svc s3)))))"

definition no_service :: ServiceInstallStatus where
  "no_service = \<lparr>is_installed = False, is_state = SS_Unknown, is_autoStart = False, is_startTypeKnown = False\<rparr>"

definition Win32_Scm_Query :: "(u32 \<Rightarrow> string) \<Rightarrow> 's scm_api \<Rightarrow> wstring \<Rightarrow> 's \<Rightarrow> ServiceInstallStatus result \<times> 's" where
  "Win32_Scm_Query sysmsg A name s =
     (let (scm, s1) = sc_OpenSCManager A SC_MANAGER_CONNECT s
      in if scm = 0 then (Failure (scm_error sysmsg A ''OpenSCManagerW'' s1), s1)
         else (let (svc, s2) = sc_OpenService A scm name SERVICE_QUERY_ACCESS s1
               in if svc = 0
                  then (if sc_GetLastError A s2 = ERROR_SERVICE_DOES_NOT_EXIST then Success no_service
                        else Failure (scm_error sysmsg A ''OpenServiceW(query)'' s2), close_service A scm s2)
                  else (Success \<lparr>is_installed = True,
                          is_state = (case sc_CurrentState A svc s2 of None \<Rightarrow> SS_Unknown | Some st \<Rightarrow> FromScmState st),
                          is_autoStart = (sc_StartType A svc s2 = Some 2),
                          is_startTypeKnown = (sc_StartType A svc s2 \<noteq> None)\<rparr>,
                        close_service A scm (close_service A svc s2))))"

definition Win32ScmInstallBackend :: "(u32 \<Rightarrow> string) \<Rightarrow> 's scm_api \<Rightarrow> 's ScmInstallBackend" where
  "Win32ScmInstallBackend sysmsg A =
     \<lparr>scm_Create = Win32_Scm_Create sysmsg A, scm_Delete = Win32_Scm_Delete sysmsg A, scm_Query = Win32_Scm_Query sysmsg A\<rparr>"

section \<open>The lock of the host\<close>

text \<open>
  A named mutex: creating it gives a handle (0 on failure) and whether the name already existed;
  \<open>hi_shared\<close> is the allocation of the object that owns the handle.
\<close>

record 's host_lock_api =
  hi_CreateMutex :: "string \<Rightarrow> 's \<Rightarrow> (u64 \<times> bool) \<times> 's"
  hi_CloseHandle :: "u64 \<Rightarrow> 's \<Rightarrow> 's"
  hi_shared :: "'s \<Rightarrow> bool"

definition TryAcquireHostInstance :: "'s host_lock_api \<Rightarrow> string \<Rightarrow> 's \<Rightarrow> u64 option \<times> 's" where
  "TryAcquireHostInstance A name s =
     (if name = [] then (None, s)
      else (let ((handle, existed), s1) = hi_CreateMutex A name s
            in if handle = 0 then (None, s1)
               else if existed then (None, hi_CloseHandle A handle s1)
               else if hi_shared A s1 then (Some handle, s1) else (None, hi_CloseHandle A handle s1)))"

definition release_host_instance :: "'s host_lock_api \<Rightarrow> u64 \<Rightarrow> 's \<Rightarrow> 's" where
  "release_host_instance A handle s = (if handle \<noteq> 0 then hi_CloseHandle A handle s else s)"

text \<open>
  The default name.  \<open>user\<close> is what asking for the user name with a buffer of a size gives: the
  name and the units written (with the final zero), or the error and the units asked for.
\<close>

function user_name_loop :: "(nat \<Rightarrow> (u32 \<times> nat) + string \<times> nat) \<Rightarrow> nat \<Rightarrow> string option" where
  "user_name_loop user buffer =
     (case user buffer of
        Inr (text, written) \<Rightarrow> Some (take (if written > 0 then written - 1 else 0) text)
      | Inl (err, written) \<Rightarrow>
          if err \<noteq> 122 then None
          else (let required = (if written > buffer then written else buffer * 2)
                in if required > 1024 \<or> required \<le> buffer then None else user_name_loop user required))"
  by pat_completeness auto

termination user_name_loop
  by (relation "measure (\<lambda>(user, buffer). 1024 - buffer)") auto

declare user_name_loop.simps [simp del]

definition DefaultHostInstanceName :: "(nat \<Rightarrow> (u32 \<times> nat) + string \<times> nat) \<Rightarrow> string" where
  "DefaultHostInstanceName user =
     ''Local'' @ [CHR 0x5C] @ ''CppOptimizerHost'' @
     (case user_name_loop user 64 of None \<Rightarrow> [] | Some n \<Rightarrow> ''_'' @ n)"

text \<open>The buffer of the loop is never empty, so its last test never decides.\<close>

lemma user_name_loop_grows:
  "0 < buffer \<Longrightarrow> user_name_loop user buffer =
     (case user buffer of
        Inr (text, written) \<Rightarrow> Some (take (if written > 0 then written - 1 else 0) text)
      | Inl (err, written) \<Rightarrow>
          if err \<noteq> 122 then None
          else (let required = (if written > buffer then written else buffer * 2)
                in if required > 1024 then None else user_name_loop user required))"
  by (subst user_name_loop.simps) (auto simp: Let_def split: sum.splits)

lemma image_loop_path: "image_loop path k = path"
  by (induction path k rule: image_loop.induct) (subst image_loop.simps, simp)

section \<open>What is registered as a task\<close>

definition task_for :: "ScheduledTaskSpec \<Rightarrow> string \<Rightarrow> task_definition" where
  "task_for spec author =
     \<lparr>td_author = author, td_startWhenAvailable = True, td_disallowStartIfOnBatteries = False,
      td_stopIfGoingOnBatteries = False, td_executionTimeLimit = ''PT0S'', td_triggers = [TASK_TRIGGER_LOGON],
      td_actions = [split_command (st_commandLine spec)]\<rparr>"

lemma prepared_definition:
  "fold step_effect (prepare_steps spec) new_definition = task_for spec []"
  "fold step_effect (author_steps @ prepare_steps spec) new_definition = task_for spec ''CppOptimizer''"
  by (simp_all add: prepare_steps_def author_steps_def new_definition_def task_for_def split: prod.splits)

lemma PrepareDefinition_made:
  "PrepareDefinition sysmsg A spec s = (Success d, s') \<Longrightarrow> d \<in> {task_for spec [], task_for spec ''CppOptimizer''}"
  using prepared_definition [of spec]
  by (auto simp: PrepareDefinition_def Let_def split: prod.splits sum.splits if_splits)

text \<open>
  A task is registered only for a valid name and a command with the logon trigger, and with
  everything that was asked for in place: whenever the install succeeds the scheduler was given exactly one
  logon trigger, the command split into program and arguments, no time limit and no battery
  restriction.  An invalid request reaches no backend.\<close>
theorem InstallScheduledTask_registers_exactly:
  "(InstallScheduledTask (Win32ScheduledTaskBackend sysmsg A) spec s = (Success (), s') \<longrightarrow>
     st_taskName spec \<noteq> [] \<and> CHR 0x5C \<notin> set (st_taskName spec) \<and> st_commandLine spec \<noteq> [] \<and> st_trigger spec = OnLogon \<and>
     (\<exists>author s1 hr s2. author \<in> {[], ''CppOptimizer''} \<and> tk_Register A (st_taskName spec) (task_for spec author) s1 = (hr, s2) \<and>
        \<not> FAILED hr \<and> s' \<in> {s2, tk_CoUninitialize A s2})) \<and>
   (st_taskName spec = [] \<or> CHR 0x5C \<in> set (st_taskName spec) \<or> st_commandLine spec = [] \<or> st_trigger spec = OnBoot \<longrightarrow>
     (\<exists>e. InstallScheduledTask b spec s = (Failure e, s)))"
proof (rule conjI; rule impI)
  assume "InstallScheduledTask (Win32ScheduledTaskBackend sysmsg A) spec s = (Success (), s')"
  then have v: "st_taskName spec \<noteq> []" "CHR 0x5C \<notin> set (st_taskName spec)" "st_commandLine spec \<noteq> []" "st_trigger spec = OnLogon"
    and "with_com sysmsg A (create_task sysmsg A spec) s = (Success (), s')"
    by (auto simp: InstallScheduledTask_def Win32ScheduledTaskBackend_def Win32_Task_Create_def Let_def split: if_splits)
  then obtain s0 s4 where c: "create_task sysmsg A spec s0 = (Success (), s4)" and s': "s' \<in> {s4, tk_CoUninitialize A s4}"
    by (auto simp: with_com_def Let_def split: prod.splits if_splits)
  from c obtain d s1 s2 s3 hr where "PrepareDefinition sysmsg A spec s1 = (Success d, s2)"
    "tk_Register A (st_taskName spec) d s3 = (hr, s4)" "\<not> FAILED hr"
    by (auto simp: create_task_def simp del: run_steps.simps split: prod.splits sum.splits if_splits)
  moreover obtain author where "d = task_for spec author" "author \<in> {[], ''CppOptimizer''}"
    using PrepareDefinition_made [OF calculation(1)] by auto
  ultimately have "tk_Register A (st_taskName spec) (task_for spec author) s3 = (hr, s4) \<and> \<not> FAILED hr"
    "author \<in> {[], ''CppOptimizer''}" by simp_all
  with s' v show "st_taskName spec \<noteq> [] \<and> CHR 0x5C \<notin> set (st_taskName spec) \<and>
     st_commandLine spec \<noteq> [] \<and> st_trigger spec = OnLogon \<and>
     (\<exists>author s1 hr s2. author \<in> {[], ''CppOptimizer''} \<and> tk_Register A (st_taskName spec) (task_for spec author) s1 = (hr, s2) \<and>
        \<not> FAILED hr \<and> s' \<in> {s2, tk_CoUninitialize A s2})"
    by blast
next
  assume "st_taskName spec = [] \<or> CHR 0x5C \<in> set (st_taskName spec) \<or> st_commandLine spec = [] \<or> st_trigger spec = OnBoot"
  then show "\<exists>e. InstallScheduledTask b spec s = (Failure e, s)" by (auto simp: InstallScheduledTask_def Let_def)
qed

text \<open>A quoted program and its arguments come apart as they were put together.\<close>

lemma split_command_quoted:
  assumes "exe \<noteq> []" and "CHR 0x22 \<notin> set exe" and "args = [] \<or> hd args \<noteq> CHR '' ''"
  shows "split_command (CHR 0x22 # exe @ CHR 0x22 # CHR '' '' # args) = (exe, args)"
  using assms split_first_append [of "CHR 0x22" exe "CHR '' '' # args"]
  by (cases args) (auto simp: split_command_def)

section \<open>One host at a time\<close>

text \<open>What named mutexes promise: \<open>handles n s\<close> are the handles open on the name.\<close>

locale named_mutex =
  fixes A :: "'s host_lock_api" and handles :: "string \<Rightarrow> 's \<Rightarrow> u64 set"
  assumes create_new: "hi_CreateMutex A n s = ((h, existed), s') \<Longrightarrow> h \<noteq> 0 \<Longrightarrow>
      existed = (handles n s \<noteq> {}) \<and> (\<forall>m. h \<notin> handles m s) \<and>
      handles m s' = (if m = n then insert h (handles n s) else handles m s)"
    and create_failed: "hi_CreateMutex A n s = ((0, existed), s') \<Longrightarrow> handles m s' = handles m s"
    and close_removes: "handles m (hi_CloseHandle A h s) = handles m s - {h}"
begin

lemma acquire_cases:
  assumes "TryAcquireHostInstance A n s = (r, s')"
  shows "(r = None \<and> (\<forall>m. handles m s' = handles m s)) \<or>
    (\<exists>h. r = Some h \<and> h \<noteq> 0 \<and> n \<noteq> [] \<and> handles n s = {} \<and> (\<forall>m. handles m s' = (if m = n then {h} else handles m s)))"
proof -
  obtain h existed s1 where c: "hi_CreateMutex A n s = ((h, existed), s1)" by (metis surj_pair)
  show ?thesis
  proof (cases "h = 0")
    case True
    then show ?thesis using c create_failed [of n s existed s1] assms
      by (auto simp: TryAcquireHostInstance_def split: if_splits)
  next
    case False
    note new = create_new [OF c False]
    have closed: "handles m (hi_CloseHandle A h s1) = handles m s" for m using new [of m] by (auto simp: close_removes)
    show ?thesis
    proof (cases "n \<noteq> [] \<and> \<not> existed \<and> hi_shared A s1")
      case True
      then have "r = Some h" "s' = s1" "handles n s = {}" using assms c False new by (auto simp: TryAcquireHostInstance_def)
      then show ?thesis using False True new by auto
    next
      case no: False
      then have "r = None" "s' = s \<or> s' = hi_CloseHandle A h s1"
        using assms c False by (auto simp: TryAcquireHostInstance_def split: if_splits)
      then show ?thesis using closed by metis
    qed
  qed
qed

end

text \<open>A kernel: the open handles with their names, the next handle to give out.\<close>

type_synonym lock_kernel = "(string \<times> nat) list \<times> nat"

definition kernel_locks :: "lock_kernel host_lock_api" where
  "kernel_locks =
     \<lparr>hi_CreateMutex = (\<lambda>n (t, k). if k + 1 < 1000 then ((of_nat (k + 1), \<exists>e \<in> set t. fst e = n \<and> snd e \<le> k), ((n, k + 1) # filter (\<lambda>e. snd e \<le> k) t, k + 1)) else ((0, False), (t, k))),
      hi_CloseHandle = (\<lambda>h (t, k). (filter (\<lambda>e. of_nat (snd e) \<noteq> h) t, k)),
      hi_shared = (\<lambda>_. True)\<rparr>"

definition kernel_handles :: "string \<Rightarrow> lock_kernel \<Rightarrow> u64 set" where
  "kernel_handles n s = {of_nat j | j. (n, j) \<in> set (fst s) \<and> j \<le> snd s}"

lemma kernel_number: "i < 1000 \<Longrightarrow> unat (of_nat i :: u64) = i"
  by (simp add: unsigned_of_nat take_bit_nat_eq_self_iff)

lemma kernel_number_inj: "i < 1000 \<Longrightarrow> j < 1000 \<Longrightarrow> (of_nat i :: u64) = of_nat j \<Longrightarrow> i = j"
  by (metis kernel_number)

lemma kernel_number_0: "i < 1000 \<Longrightarrow> (of_nat i :: u64) = 0 \<Longrightarrow> i = 0"
  using kernel_number_inj [of i 0] by simp

interpretation kernel_lock: named_mutex kernel_locks kernel_handles
proof (unfold_locales, goal_cases)
  case (1 n s h existed s' m)
  obtain t k where s: "s = (t, k)" by fastforce
  from 1 s have k: "k + 1 < 1000" "h = of_nat (k + 1)" "existed = (\<exists>e \<in> set t. fst e = n \<and> snd e \<le> k)"
    "s' = ((n, k + 1) # filter (\<lambda>e. snd e \<le> k) t, k + 1)"
    by (auto simp: kernel_locks_def split: if_splits)
  have "h \<notin> kernel_handles m s" for m
  proof
    assume "h \<in> kernel_handles m s"
    then obtain j where "j \<le> k" "(of_nat (k + 1) :: u64) = of_nat j" by (auto simp: kernel_handles_def s k(2) simp del: of_nat_add)
    with kernel_number_inj [of "k + 1" j] k(1) show False by simp
  qed
  moreover have "kernel_handles m s' = (if m = n then insert h (kernel_handles n s) else kernel_handles m s)"
    by (auto simp: kernel_handles_def s k(2,4) simp del: of_nat_add of_nat_Suc)
  moreover have "existed = (kernel_handles n s \<noteq> {})" by (force simp: kernel_handles_def s k(3))
  ultimately show ?case by blast
next
  case (2 n s existed s' m)
  then show ?case using kernel_number_0 [of "snd s + 1"]
    by (cases s) (auto simp: kernel_locks_def kernel_handles_def split: if_splits)
next
  case (3 m h s)
  then show ?case by (cases s) (auto simp: kernel_locks_def kernel_handles_def)
qed

text \<open>
  C25: While a host holds the lock of a name, a further attempt on it is refused and leaves every open
  handle as it was, its own temporary one included; an attempt that succeeds is the only
  holder; and once the holder is gone the name is free again.\<close>
theorem host_instance_exclusive:
  assumes "named_mutex A handles" and "TryAcquireHostInstance A n s = (r, s')"
  shows "(handles n s \<noteq> {} \<longrightarrow> r = None) \<and> (r = None \<longrightarrow> (\<forall>m. handles m s' = handles m s)) \<and>
    (\<forall>h. r = Some h \<longrightarrow> handles n s' = {h} \<and> (\<forall>m. handles m (release_host_instance A h s') = handles m s))"
proof -
  note c = named_mutex.acquire_cases [OF assms]
  have "handles m (release_host_instance A h s') = handles m s" if "r = Some h" for h m
  proof -
    from c that have h: "h \<noteq> 0" "handles n s = {}" "\<forall>m. handles m s' = (if m = n then {h} else handles m s)" by auto
    have "h \<notin> handles m s" if "m \<noteq> n"
    proof -
      obtain existed s1 where "hi_CreateMutex A n s = ((h, existed), s1)"
        using assms(2) \<open>r = Some h\<close> by (auto simp: TryAcquireHostInstance_def Let_def split: if_splits prod.splits)
      from named_mutex.create_new [OF assms(1) this h(1)] show ?thesis by blast
    qed
    with h show ?thesis by (auto simp: release_host_instance_def named_mutex.close_removes [OF assms(1)])
  qed
  with c show ?thesis by auto
qed

theorem host_instance_exclusive_witness:
  "TryAcquireHostInstance kernel_locks ''host'' ([], 0) = (Some 1, ([(''host'', 1)], 1)) \<and>
   fst (TryAcquireHostInstance kernel_locks ''host'' ([(''host'', 1)], 1)) = None"
proof -
  have a: "TryAcquireHostInstance kernel_locks ''host'' ([], 0) = (Some 1, ([(''host'', 1)], 1))"
    by (simp add: TryAcquireHostInstance_def kernel_locks_def)
  obtain r s' where b: "TryAcquireHostInstance kernel_locks ''host'' ([(''host'', 1)], 1) = (r, s')" by (metis surj_pair)
  have "kernel_handles ''host'' ([(''host'', 1)], 1) \<noteq> {}" by (simp add: kernel_handles_def)
  then show ?thesis
    using host_instance_exclusive [OF kernel_lock.named_mutex_axioms b] a b by simp
qed

section \<open>A machine\<close>

text \<open>
  The value of the run key, the tasks, the services with their image paths, the rights of the user, how
  often COM was initialised on the thread, the last error, the service opened last, the services whose
  process runs and those marked for deletion.  Registering and removing tasks and services needs the
  administrator's rights; all other calls work.  Deleting a running service only marks it.
\<close>

record reg_machine =
  rm_run :: "string option"
  rm_tasks :: "string \<Rightarrow> task_definition option"
  rm_services :: "wstring \<Rightarrow> wstring option"
  rm_admin :: bool
  rm_com :: nat
  rm_error :: u32
  rm_opened :: wstring
  rm_running :: "wstring \<Rightarrow> bool"
  rm_marked :: "wstring \<Rightarrow> bool"

definition machine_registry :: "reg_machine registry_api" where
  "machine_registry =
     \<lparr>rg_Open = (\<lambda>_ s. ((0, 1), s)), rg_Create = (\<lambda>_ s. ((0, 1), s)),
      rg_QuerySize = (\<lambda>_ s. case rm_run s of None \<Rightarrow> (ERROR_FILE_NOT_FOUND, 0, 0) | Some v \<Rightarrow> (0, REG_SZ, 2 * (length v + 1))),
      rg_QueryValue = (\<lambda>_ n s. case rm_run s of None \<Rightarrow> (ERROR_FILE_NOT_FOUND, []) | Some v \<Rightarrow> (0, v @ [CHR 0x00])),
      rg_SetValue = (\<lambda>_ v s. (0, s\<lparr>rm_run := Some v\<rparr>)),
      rg_DeleteValue = (\<lambda>_ s. if rm_run s = None then (ERROR_FILE_NOT_FOUND, s) else (0, s\<lparr>rm_run := None\<rparr>)),
      rg_Close = (\<lambda>_ s. s)\<rparr>"

definition machine_tasks :: "reg_machine task_api" where
  "machine_tasks =
     \<lparr>tk_CoInitialize = (\<lambda>s. (if rm_com s = 0 then 0 else S_FALSE, s\<lparr>rm_com := rm_com s + 1\<rparr>)),
      tk_CoUninitialize = (\<lambda>s. s\<lparr>rm_com := rm_com s - 1\<rparr>),
      tk_SysAllocString = (\<lambda>_ _. True),
      tk_call = (\<lambda>_ s. ((0, True), s)),
      tk_Register = (\<lambda>n d s. if rm_admin s then (0, s\<lparr>rm_tasks := (rm_tasks s)(n \<mapsto> d)\<rparr>) else (0x80070005, s)),
      tk_Delete = (\<lambda>n s. if rm_tasks s n = None then (HRESULT_NOT_FOUND, s)
                          else if rm_admin s then (0, s\<lparr>rm_tasks := (rm_tasks s)(n := None)\<rparr>) else (0x80070005, s)),
      tk_GetTask = (\<lambda>n s. (if rm_tasks s n = None then HRESULT_NOT_FOUND else 0, s)),
      tk_Task = (\<lambda>n s. the (rm_tasks s n))\<rparr>"

definition machine_services :: "reg_machine scm_api" where
  "machine_services =
     \<lparr>sc_ModulePath = (\<lambda>_. Some (wide ''C:/opt.exe'')),
      sc_OpenSCManager = (\<lambda>access s. if access = SC_MANAGER_CREATE_SERVICE \<and> \<not> rm_admin s then (0, s\<lparr>rm_error := 5\<rparr>) else (1, s)),
      sc_CreateService = (\<lambda>_ n _ im s. if rm_services s n \<noteq> None then (0, s\<lparr>rm_error := if rm_marked s n then 1072 else 1073\<rparr>)
                            else (2, s\<lparr>rm_services := (rm_services s)(n \<mapsto> im), rm_running := (rm_running s)(n := False),
                                      rm_marked := (rm_marked s)(n := False)\<rparr>)),
      sc_SetDescription = (\<lambda>_ _ s. s),
      sc_OpenService = (\<lambda>_ n access s. if rm_services s n = None then (0, s\<lparr>rm_error := ERROR_SERVICE_DOES_NOT_EXIST\<rparr>)
                          else if access = SERVICE_ACCESS_DELETE \<and> \<not> rm_admin s then (0, s\<lparr>rm_error := 5\<rparr>)
                          else (2, s\<lparr>rm_opened := n\<rparr>)),
      sc_DeleteService = (\<lambda>_ s. if rm_marked s (rm_opened s) then (False, s\<lparr>rm_error := 1072\<rparr>)
                            else if rm_running s (rm_opened s) then (True, s\<lparr>rm_marked := (rm_marked s)(rm_opened s := True)\<rparr>)
                            else (True, s\<lparr>rm_services := (rm_services s)(rm_opened s := None)\<rparr>)),
      sc_CurrentState = (\<lambda>_ s. Some (if rm_running s (rm_opened s) then 4 else 1)), sc_StartType = (\<lambda>_ _. Some 3),
      sc_CloseServiceHandle = (\<lambda>_ s. s), sc_GetLastError = rm_error\<rparr>"

abbreviation machine_startup :: "reg_machine StartupEntryBackend" where
  "machine_startup \<equiv> Win32StartupEntryBackend (\<lambda>_. []) machine_registry"

abbreviation machine_scheduler :: "reg_machine ScheduledTaskBackend" where
  "machine_scheduler \<equiv> Win32ScheduledTaskBackend (\<lambda>_. []) machine_tasks"

abbreviation machine_scm :: "reg_machine ScmInstallBackend" where
  "machine_scm \<equiv> Win32ScmInstallBackend (\<lambda>_. []) machine_services"

lemma hresults: "\<not> FAILED 0" "\<not> FAILED 1" "FAILED 0x80070005" "FAILED HRESULT_NOT_FOUND"
  by (simp_all add: FAILED_def)

lemma startup_value_whole: "startup_value (length v + 1) (v @ [CHR 0x00]) = v"
  by (simp add: startup_value_def)

lemma machine_startup_calls:
  "se_Read machine_startup s = (Success (case rm_run s of None \<Rightarrow> [] | Some v \<Rightarrow> v), s)"
  "se_Write machine_startup v s = (Success (), s\<lparr>rm_run := Some v\<rparr>)"
  "se_Remove machine_startup s = (Success (), s\<lparr>rm_run := None\<rparr>)"
  by (auto simp: Win32StartupEntryBackend_def Win32_Startup_Read_def Win32_Startup_Write_def Win32_Startup_Remove_def
      machine_registry_def ScopedRegKey_close_def startup_value_def split: option.splits)

lemma run_steps_machine: "run_steps sysmsg machine_tasks steps s = (Success (), s)"
  by (induction sysmsg machine_tasks steps s rule: run_steps.induct) (auto simp: machine_tasks_def hresults)

lemma ok_calls_machine: "ok_calls machine_tasks cs s = (True, s)"
  by (induction machine_tasks cs s rule: ok_calls.induct) (auto simp: machine_tasks_def hresults)

lemma with_com_machine:
  "with_com sysmsg machine_tasks body s =
     (case body (s\<lparr>rm_com := rm_com s + 1\<rparr>) of
        (r, s2) \<Rightarrow> (r, if rm_com s = 0 then s2\<lparr>rm_com := rm_com s2 - 1\<rparr> else s2))"
  by (auto simp: with_com_def machine_tasks_def hresults split: prod.splits)

lemma machine_prepare:
  "PrepareDefinition sysmsg machine_tasks spec s = (Success (task_for spec ''CppOptimizer''), s)"
  using prepared_definition(2) [of spec]
  by (simp add: PrepareDefinition_def run_steps_machine) (simp add: machine_tasks_def hresults)

lemma machine_create_task:
  "create_task sysmsg machine_tasks spec s =
     (if rm_admin s then (Success (), s\<lparr>rm_tasks := (rm_tasks s)(st_taskName spec \<mapsto> task_for spec ''CppOptimizer'')\<rparr>)
      else (Failure (FromHResult sysmsg 0x80070005 ''ITaskFolder::RegisterTaskDefinition''), s))"
  by (simp add: create_task_def run_steps_machine machine_prepare del: run_steps.simps)
    (simp add: machine_tasks_def hresults)

lemma machine_tasks_sel:
  "tk_SysAllocString machine_tasks t s" "tk_GetTask machine_tasks n s = (if rm_tasks s n = None then HRESULT_NOT_FOUND else 0, s)"
  "tk_Delete machine_tasks n s = (if rm_tasks s n = None then (HRESULT_NOT_FOUND, s)
     else if rm_admin s then (0, s\<lparr>rm_tasks := (rm_tasks s)(n := None)\<rparr>) else (0x80070005, s))"
  by (simp_all add: machine_tasks_def)

lemma machine_read_task:
  "\<exists>st. read_task sysmsg machine_tasks n s = (Success st, s) \<and> sts_installed st = (rm_tasks s n \<noteq> None)"
  unfolding read_task_def ConnectRootFolder_def run_steps_machine prod.case sum.case ReadFromFolder_def ReadCommandLine_def
    ReadTrigger_def ok_calls_machine machine_tasks_sel(2)
  by (simp add: machine_tasks_sel(1) hresults no_task_status_def Let_def)

lemma machine_remove_task:
  "remove_task sysmsg machine_tasks n s =
     (if rm_tasks s n = None \<or> rm_admin s then (Success (), s\<lparr>rm_tasks := (rm_tasks s)(n := None)\<rparr>)
      else (Failure (FromHResult sysmsg 0x80070005 ''ITaskFolder::DeleteTask''), s))"
proof -
  have "rm_tasks s n = None \<Longrightarrow> (rm_tasks s)(n := None) = rm_tasks s" by auto
  then show ?thesis
    unfolding remove_task_def ConnectRootFolder_def run_steps_machine prod.case sum.case machine_tasks_sel(3)
    by (simp add: machine_tasks_sel(1) hresults)
qed

lemma machine_scheduler_calls:
  "\<exists>k. tb_Create machine_scheduler spec s =
     (if rm_admin s then (Success (), s\<lparr>rm_tasks := (rm_tasks s)(st_taskName spec \<mapsto> task_for spec ''CppOptimizer''), rm_com := k\<rparr>)
      else (Failure (FromHResult (\<lambda>_. []) 0x80070005 ''ITaskFolder::RegisterTaskDefinition''), s\<lparr>rm_com := k\<rparr>))"
  "\<exists>k. tb_Remove machine_scheduler n s =
     (if rm_tasks s n = None \<or> rm_admin s then (Success (), s\<lparr>rm_tasks := (rm_tasks s)(n := None), rm_com := k\<rparr>)
      else (Failure (FromHResult (\<lambda>_. []) 0x80070005 ''ITaskFolder::DeleteTask''), s\<lparr>rm_com := k\<rparr>))"
  "\<exists>k st. tb_Read machine_scheduler n s = (Success st, s\<lparr>rm_com := k\<rparr>) \<and> sts_installed st = (rm_tasks s n \<noteq> None)"
proof -
  show "\<exists>k. tb_Create machine_scheduler spec s =
     (if rm_admin s then (Success (), s\<lparr>rm_tasks := (rm_tasks s)(st_taskName spec \<mapsto> task_for spec ''CppOptimizer''), rm_com := k\<rparr>)
      else (Failure (FromHResult (\<lambda>_. []) 0x80070005 ''ITaskFolder::RegisterTaskDefinition''), s\<lparr>rm_com := k\<rparr>))"
    by (intro exI [of _ "if rm_com s = 0 then 0 else rm_com s + 1"])
      (simp add: Win32ScheduledTaskBackend_def Win32_Task_Create_def with_com_machine machine_create_task)
  show "\<exists>k. tb_Remove machine_scheduler n s =
     (if rm_tasks s n = None \<or> rm_admin s then (Success (), s\<lparr>rm_tasks := (rm_tasks s)(n := None), rm_com := k\<rparr>)
      else (Failure (FromHResult (\<lambda>_. []) 0x80070005 ''ITaskFolder::DeleteTask''), s\<lparr>rm_com := k\<rparr>))"
    by (intro exI [of _ "if rm_com s = 0 then 0 else rm_com s + 1"])
      (simp add: Win32ScheduledTaskBackend_def Win32_Task_Remove_def with_com_machine machine_remove_task)
  obtain st where "read_task (\<lambda>_. []) machine_tasks n (s\<lparr>rm_com := rm_com s + 1\<rparr>) = (Success st, s\<lparr>rm_com := rm_com s + 1\<rparr>)"
    "sts_installed st = (rm_tasks s n \<noteq> None)"
    using machine_read_task [of "\<lambda>_. []" n "s\<lparr>rm_com := rm_com s + 1\<rparr>"] by auto
  then show "\<exists>k st. tb_Read machine_scheduler n s = (Success st, s\<lparr>rm_com := k\<rparr>) \<and> sts_installed st = (rm_tasks s n \<noteq> None)"
    by (intro exI [of _ "if rm_com s = 0 then 0 else rm_com s + 1"] exI [of _ st])
      (simp add: Win32ScheduledTaskBackend_def Win32_Task_Read_def with_com_machine)
qed

lemma machine_scm_calls:
  "\<exists>e n'. scm_Create machine_scm ident s =
     (if rm_admin s \<and> rm_services s (si_name ident) = None
      then (Success (), s\<lparr>rm_services := (rm_services s)(si_name ident \<mapsto>
         wide [CHR 0x22] @ (if si_executablePath ident = [] then wide ''C:/opt.exe'' else si_executablePath ident) @ wide [CHR 0x22]),
         rm_running := (rm_running s)(si_name ident := False), rm_marked := (rm_marked s)(si_name ident := False)\<rparr>)
      else (Failure e, s\<lparr>rm_error := n'\<rparr>))"
  "\<exists>e n' m. scm_Delete machine_scm n s =
     (if rm_admin s \<and> rm_services s n \<noteq> None \<and> \<not> rm_marked s n
      then (Success (), if rm_running s n then s\<lparr>rm_opened := m, rm_marked := (rm_marked s)(n := True)\<rparr>
                        else s\<lparr>rm_opened := m, rm_services := (rm_services s)(n := None)\<rparr>)
      else (Failure e, s\<lparr>rm_error := n', rm_opened := m\<rparr>))"
  "\<exists>st n' m. scm_Query machine_scm n s = (Success st, s\<lparr>rm_error := n', rm_opened := m\<rparr>) \<and> is_installed st = (rm_services s n \<noteq> None)"
proof -
  show "\<exists>e n'. scm_Create machine_scm ident s =
     (if rm_admin s \<and> rm_services s (si_name ident) = None
      then (Success (), s\<lparr>rm_services := (rm_services s)(si_name ident \<mapsto>
         wide [CHR 0x22] @ (if si_executablePath ident = [] then wide ''C:/opt.exe'' else si_executablePath ident) @ wide [CHR 0x22]),
         rm_running := (rm_running s)(si_name ident := False), rm_marked := (rm_marked s)(si_name ident := False)\<rparr>)
      else (Failure e, s\<lparr>rm_error := n'\<rparr>))"
    by (auto simp: Win32ScmInstallBackend_def Win32_Scm_Create_def ResolveImagePath_def image_loop_path machine_services_def
        close_service_def scm_error_def Let_def)
  show "\<exists>e n' m. scm_Delete machine_scm n s =
     (if rm_admin s \<and> rm_services s n \<noteq> None \<and> \<not> rm_marked s n
      then (Success (), if rm_running s n then s\<lparr>rm_opened := m, rm_marked := (rm_marked s)(n := True)\<rparr>
                        else s\<lparr>rm_opened := m, rm_services := (rm_services s)(n := None)\<rparr>)
      else (Failure e, s\<lparr>rm_error := n', rm_opened := m\<rparr>))"
    by (cases "rm_admin s"; cases "rm_services s n"; cases "rm_marked s n"; cases "rm_running s n")
      (simp_all add: Win32ScmInstallBackend_def Win32_Scm_Delete_def machine_services_def close_service_def scm_error_def,
       (metis reg_machine.surjective reg_machine.update_convs(6,7))+)
  show "\<exists>st n' m. scm_Query machine_scm n s = (Success st, s\<lparr>rm_error := n', rm_opened := m\<rparr>) \<and> is_installed st = (rm_services s n \<noteq> None)"
  proof (cases "rm_services s n")
    case None
    then show ?thesis
      by (intro exI [of _ no_service] exI [of _ ERROR_SERVICE_DOES_NOT_EXIST] exI [of _ "rm_opened s"])
        (simp add: Win32ScmInstallBackend_def Win32_Scm_Query_def machine_services_def close_service_def no_service_def)
  next
    case (Some im)
    then show ?thesis
      by (intro exI [of _ "\<lparr>is_installed = True, is_state = (if rm_running s n then Running else Stopped), is_autoStart = False, is_startTypeKnown = True\<rparr>"]
            exI [of _ "rm_error s"] exI [of _ n])
        (simp add: Win32ScmInstallBackend_def Win32_Scm_Query_def machine_services_def close_service_def FromScmState_def)
  qed
qed

theorem InstallScheduledTask_registers_exactly_witness:
  "\<exists>s'. InstallScheduledTask machine_scheduler \<lparr>st_taskName = ''t'', st_commandLine = ''x'', st_trigger = OnLogon\<rparr>
      \<lparr>rm_run = None, rm_tasks = (\<lambda>_. None), rm_services = (\<lambda>_. None), rm_admin = True, rm_com = 0, rm_error = 0, rm_opened = [],
       rm_running = (\<lambda>_. False), rm_marked = (\<lambda>_. False)\<rparr> =
      (Success (), s') \<and> td_triggers (the (rm_tasks s' ''t'')) = [TASK_TRIGGER_LOGON]"
proof -
  let ?spec = "\<lparr>st_taskName = ''t'', st_commandLine = ''x'', st_trigger = OnLogon\<rparr>"
  let ?s = "\<lparr>rm_run = None, rm_tasks = (\<lambda>_. None), rm_services = (\<lambda>_. None), rm_admin = True, rm_com = 0, rm_error = 0, rm_opened = [],
       rm_running = (\<lambda>_. False), rm_marked = (\<lambda>_. False)\<rparr>"
  obtain s' where i: "InstallScheduledTask machine_scheduler ?spec ?s = (Success (), s')"
    using machine_scheduler_calls(1) [of ?spec ?s] by (auto simp: InstallScheduledTask_def)
  with InstallScheduledTask_registers_exactly [of "\<lambda>_. []" machine_tasks ?spec ?s s' machine_scheduler]
  show ?thesis by (auto simp: machine_tasks_def task_for_def hresults split: if_splits)
qed

text \<open>
  Leaving COM is skipped when the thread had initialised it before, although that call counts too: every
  such operation leaves one more initialisation behind.
\<close>

lemma com_stays_initialised:
  "0 < rm_com s \<Longrightarrow> rm_com (snd (tb_Read machine_scheduler n s)) = rm_com s + 1"
proof -
  assume com: "0 < rm_com s"
  obtain st where "read_task (\<lambda>_. []) machine_tasks n (s\<lparr>rm_com := rm_com s + 1\<rparr>) = (Success st, s\<lparr>rm_com := rm_com s + 1\<rparr>)"
    using machine_read_task by blast
  with com show ?thesis by (simp add: Win32ScheduledTaskBackend_def Win32_Task_Read_def with_com_machine)
qed

end
