(* ===== verification/Agent_Lifecycle.thy ===== *)
theory Agent_Lifecycle
  imports File_System Service_Host
begin

text \<open>
  The resident agent: the forms in which it can be registered
  (\<^verbatim>\<open>agent_form.hpp/.cpp\<close>), the recovery marker that tells a crash from a regular end
  (\<^verbatim>\<open>recovery_marker.hpp/.cpp\<close>) with the part of the console host in \<^verbatim>\<open>main.cpp\<close> that
  reads it and closes the Safe Mode guard, and the presence ledger of the host
  (\<^verbatim>\<open>presence.hpp/.cpp\<close>), all under \<^verbatim>\<open>service/\<close>.
\<close>

section \<open>Registration forms\<close>

datatype AgentForm = StartupTray | ScheduledTask | ServiceForm

definition DefaultAgentForm :: AgentForm where
  "DefaultAgentForm = StartupTray"

text \<open>Text beyond ASCII normalises to the empty text.\<close>

fun normalize_from :: "string \<Rightarrow> wstring \<Rightarrow> string" where
  "normalize_from acc [] = rev acc"
| "normalize_from acc (w # ws) =
     (if w > 0x7F then []
      else let c = char_of (unat w :: nat);
               c = (if c = CHR ''-'' then CHR ''_'' else c)
           in normalize_from (to_lower c # acc) ws)"

definition NormalizeAscii :: "wstring \<Rightarrow> string" where
  "NormalizeAscii text = normalize_from [] text"

definition AgentFormToString :: "AgentForm \<Rightarrow> string" where
  "AgentFormToString f =
     (case f of StartupTray \<Rightarrow> ''startup_tray'' | ScheduledTask \<Rightarrow> ''task'' | ServiceForm \<Rightarrow> ''service'')"

definition ParseAgentForm :: "wstring \<Rightarrow> AgentForm option" where
  "ParseAgentForm text =
     (let n = NormalizeAscii text
      in if n = ''startup_tray'' then Some StartupTray
         else if n = ''task'' then Some ScheduledTask
         else if n = ''service'' then Some ServiceForm
         else None)"

definition AgentFormRequiresElevation :: "AgentForm \<Rightarrow> bool" where
  "AgentFormRequiresElevation f \<longleftrightarrow> f \<noteq> StartupTray"

definition IsDefaultAgentForm :: "AgentForm \<Rightarrow> bool" where
  "IsDefaultAgentForm f \<longleftrightarrow> f = DefaultAgentForm"

definition ConflictingAgentForms :: "AgentForm \<Rightarrow> bool \<Rightarrow> bool \<Rightarrow> bool \<Rightarrow> AgentForm list" where
  "ConflictingAgentForms target startupInstalled taskInstalled serviceInstalled =
     (if target \<noteq> StartupTray \<and> startupInstalled then [StartupTray] else []) @
     (if target \<noteq> ScheduledTask \<and> taskInstalled then [ScheduledTask] else []) @
     (if target \<noteq> ServiceForm \<and> serviceInstalled then [ServiceForm] else [])"

record AgentFormAction =
  afa_form :: AgentForm
  afa_install :: bool

definition ResolveFormApplyActions :: "AgentForm \<Rightarrow> bool \<Rightarrow> bool \<Rightarrow> bool \<Rightarrow> AgentFormAction list" where
  "ResolveFormApplyActions declared startupInstalled taskInstalled serviceInstalled =
     (let declaredInstalled =
            (if declared = StartupTray then startupInstalled
             else if declared = ScheduledTask then taskInstalled else serviceInstalled)
      in (if \<not> declaredInstalled then [\<lparr>afa_form = declared, afa_install = True\<rparr>] else []) @
         map (\<lambda>other. \<lparr>afa_form = other, afa_install = False\<rparr>)
           (ConflictingAgentForms declared startupInstalled taskInstalled serviceInstalled))"

section \<open>The recovery marker\<close>

definition kRecoveryMarkerEnvelope :: string where
  "kRecoveryMarkerEnvelope = ''CppOptimizerRecovery/1''"

definition WriteRecoveryMarker ::
  "(u32 \<Rightarrow> string) \<Rightarrow> disk_faults \<Rightarrow> path \<Rightarrow> disk \<Rightarrow> unit result \<times> disk" where
  "WriteRecoveryMarker sysmsg io p d =
     (case make_parent io p d of
        (Inl c, d1) \<Rightarrow> (Failure (FromWin32 sysmsg c ''create_directories(recovery marker)''), d1)
      | (Inr _, d1) \<Rightarrow>
          (case open_write io p False d1 of
             (Inl c, d2) \<Rightarrow> (Failure (FromWin32 sysmsg c ''open recovery marker for write''), d2)
           | (Inr _, d2) \<Rightarrow>
               (case write_flush io p (kRecoveryMarkerEnvelope @ [LF] @ ''unclean'' @ [LF]) d2 of
                  (Inl c, d3) \<Rightarrow> (Failure (FromWin32 sysmsg c ''flush recovery marker''), d3)
                | (Inr _, d3) \<Rightarrow> (Success (), d3))))"

definition ClearRecoveryMarker ::
  "(u32 \<Rightarrow> string) \<Rightarrow> disk_faults \<Rightarrow> path \<Rightarrow> disk \<Rightarrow> unit result \<times> disk" where
  "ClearRecoveryMarker sysmsg io p d =
     (case remove_file io p d of
        (Inl c, d1) \<Rightarrow> (Failure (FromWin32 sysmsg c ''remove recovery marker''), d1)
      | (Inr _, d1) \<Rightarrow> (Success (), d1))"

definition strip_CR :: "string \<Rightarrow> string" where
  "strip_CR l = (if l \<noteq> [] \<and> last l = CR then butlast l else l)"

definition IsRecoveryMarkerSet ::
  "(u32 \<Rightarrow> string) \<Rightarrow> disk_faults \<Rightarrow> path \<Rightarrow> disk \<Rightarrow> bool result" where
  "IsRecoveryMarkerSet sysmsg io p d =
     (case open_read io d p of
        Inl c \<Rightarrow>
          (if path_exists io d p = (False, None) then Success False
           else Failure (FromWin32 sysmsg c ''open recovery marker for read''))
      | Inr st \<Rightarrow>
          (let firstLine = (case in_lines st of [] \<Rightarrow> [] | l # _ \<Rightarrow> l)
           in Success (strip_CR firstLine = kRecoveryMarkerEnvelope)))"

datatype RecoveryAnomalyAction = RA_None | RA_Latch | RA_NoteOnly

definition DecideRecoveryAnomalyAction :: "bool \<Rightarrow> bool \<Rightarrow> bool \<Rightarrow> RecoveryAnomalyAction" where
  "DecideRecoveryAnomalyAction markerSet confirmRecovery latchEnabled =
     (if \<not> markerSet \<or> confirmRecovery then RA_None
      else if latchEnabled then RA_Latch else RA_NoteOnly)"

text \<open>
  The recovery part of the console host: an explicit confirmation clears the marker, the
  marker is read (an unreadable one counts as not set), the guard is closed when the last
  run did not end regularly, and the marker of this run is written.  The results of
  clearing and writing are ignored there.
\<close>

definition host_start ::
  "(u32 \<Rightarrow> string) \<Rightarrow> disk_faults \<Rightarrow> path \<Rightarrow> bool \<Rightarrow> bool \<Rightarrow> SafeModeOptions \<Rightarrow> SafeModeGuard \<Rightarrow> disk \<Rightarrow>
   RecoveryAnomalyAction \<times> SafeModeGuard \<times> disk" where
  "host_start sysmsg io p confirmRecovery latchEnabled opts g d =
     (let d1 = (if confirmRecovery then snd (ClearRecoveryMarker sysmsg io p d) else d);
          markerSet = (case IsRecoveryMarkerSet sysmsg io p d1 of Inl _ \<Rightarrow> False | Inr b \<Rightarrow> b);
          action = DecideRecoveryAnomalyAction markerSet confirmRecovery latchEnabled;
          g' = (if action = RA_Latch then OnAnomalyDetected opts g else g)
      in (action, g', snd (WriteRecoveryMarker sysmsg io p d1)))"

definition host_end :: "(u32 \<Rightarrow> string) \<Rightarrow> disk_faults \<Rightarrow> path \<Rightarrow> disk \<Rightarrow> disk" where
  "host_end sysmsg io p d = snd (ClearRecoveryMarker sysmsg io p d)"

section \<open>Presence\<close>

datatype PresenceState = P_Unknown | P_Present | P_Away

definition PresenceStateToString :: "PresenceState \<Rightarrow> string" where
  "PresenceStateToString s =
     (case s of P_Unknown \<Rightarrow> ''Unknown'' | P_Present \<Rightarrow> ''Present'' | P_Away \<Rightarrow> ''Away'')"

definition ClassifyPresence :: "u32 option \<Rightarrow> u32 \<Rightarrow> PresenceState" where
  "ClassifyPresence idle awayAfter =
     (case idle of
        None \<Rightarrow> P_Unknown
      | Some i \<Rightarrow> if awayAfter = 0 then P_Present else if i < awayAfter then P_Present else P_Away)"

definition EffectivePresenceAwaySeconds :: "u32 \<Rightarrow> u32 \<Rightarrow> u32" where
  "EffectivePresenceAwaySeconds policyAway fallback = (if policyAway > 0 then policyAway else fallback)"

definition AppendPresenceTransitionLine ::
  "(u32 \<Rightarrow> string) \<Rightarrow> disk_faults \<Rightarrow> string \<Rightarrow> path \<Rightarrow> PresenceState \<Rightarrow> PresenceState \<Rightarrow> disk \<Rightarrow>
   unit result \<times> disk" where
  "AppendPresenceTransitionLine sysmsg io timestamp p from to d =
     (if p = [] then (Failure (Error_Validation ''AppendPresenceTransitionLine'' ''path must not be empty''), d)
      else case append_text io p (timestamp @ '' '' @ PresenceStateToString from @ '' -> '' @
                  PresenceStateToString to @ [LF]) d of
        (Inl (App_mkdir c), d1) \<Rightarrow> (Failure (FromWin32 sysmsg c ''create_directories(presence timeline)''), d1)
      | (Inl (App_open c), d1) \<Rightarrow> (Failure (FromWin32 sysmsg c ''open presence timeline for append''), d1)
      | (Inl (App_flush c), d1) \<Rightarrow> (Failure (FromWin32 sysmsg c ''flush presence timeline''), d1)
      | (Inr _, d1) \<Rightarrow> (Success (), d1))"

text \<open>The timeline file is an append-only log of one line per transition.\<close>

interpretation presence_timeline: line_log
  "\<lambda>io p x d. AppendPresenceTransitionLine sysmsg io ts p (fst x) (snd x) d"
  "\<lambda>x. ts @ '' '' @ PresenceStateToString (fst x) @ '' -> '' @ PresenceStateToString (snd x)"
  for sysmsg ts
proof (unfold_locales, goal_cases)
  case (1 io p x d u d')
  then show ?case
    by (auto simp: AppendPresenceTransitionLine_def split: if_splits prod.splits sum.splits append_fault.splits
        elim!: append_text_cases)
next
  case (2 io p x d e d')
  then show ?case
    by (auto simp: AppendPresenceTransitionLine_def split: if_splits prod.splits sum.splits append_fault.splits
        elim!: append_text_cases)
qed

record PresenceEntry =
  pe_state :: PresenceState
  pe_idleSeconds :: "u32 option"
  pe_lastSeen :: int

record PresenceOptions =
  po_awayAfterSeconds :: u32
  po_forgetAfter :: int

record HostPresenceTracker =
  entries :: "(string \<times> PresenceEntry) list"
  lastSummary :: PresenceState
  changes :: "(PresenceState \<times> PresenceState) list"

definition HostPresenceTracker_new :: HostPresenceTracker where
  "HostPresenceTracker_new = \<lparr>entries = [], lastSummary = P_Unknown, changes = []\<rparr>"

definition Presence_PruneExpired ::
  "PresenceOptions \<Rightarrow> int \<Rightarrow> HostPresenceTracker \<Rightarrow> HostPresenceTracker" where
  "Presence_PruneExpired opts now h =
     (if po_forgetAfter opts \<le> 0 then h
      else let cutoff = now - po_forgetAfter opts
           in h\<lparr>entries := filter (\<lambda>e. \<not> pe_lastSeen (snd e) < cutoff) (entries h)\<rparr>)"

text \<open>\<open>t1\<close> is the reading of the pruning, \<open>t2\<close> the time stamp of the entry.\<close>

definition Presence_Record ::
  "PresenceOptions \<Rightarrow> int \<Rightarrow> int \<Rightarrow> string \<Rightarrow> u32 option \<Rightarrow> HostPresenceTracker \<Rightarrow>
   PresenceState \<times> HostPresenceTracker" where
  "Presence_Record opts t1 t2 key idle h =
     (if key = [] then (P_Unknown, h)
      else let h = Presence_PruneExpired opts t1 h;
               st = ClassifyPresence idle (po_awayAfterSeconds opts)
           in (st, h\<lparr>entries := om_put key
                 \<lparr>pe_state = st, pe_idleSeconds = idle, pe_lastSeen = t2\<rparr> (entries h)\<rparr>))"

definition ComputeSummary :: "HostPresenceTracker \<Rightarrow> PresenceState" where
  "ComputeSummary h =
     (let known = list_ex (\<lambda>e. pe_state (snd e) \<noteq> P_Unknown) (entries h);
          present = list_ex (\<lambda>e. pe_state (snd e) = P_Present) (entries h)
      in if \<not> known then P_Unknown else if present then P_Present else P_Away)"

text \<open>The change callback is the list of transitions.\<close>

definition Presence_Summary ::
  "PresenceOptions \<Rightarrow> int \<Rightarrow> HostPresenceTracker \<Rightarrow> PresenceState \<times> HostPresenceTracker" where
  "Presence_Summary opts now h =
     (let h = Presence_PruneExpired opts now h;
          current = ComputeSummary h
      in (current,
          if current \<noteq> lastSummary h
          then h\<lparr>lastSummary := current, changes := changes h @ [(lastSummary h, current)]\<rparr> else h))"

definition Presence_Clients ::
  "PresenceOptions \<Rightarrow> int \<Rightarrow> HostPresenceTracker \<Rightarrow>
   (string \<times> PresenceState \<times> u32 option) list \<times> HostPresenceTracker" where
  "Presence_Clients opts now h =
     (let h = Presence_PruneExpired opts now h
      in (map (\<lambda>(k, e). (k, pe_state e, pe_idleSeconds e)) (entries h), h))"

definition Presence_ClientCount ::
  "PresenceOptions \<Rightarrow> int \<Rightarrow> HostPresenceTracker \<Rightarrow> nat \<times> HostPresenceTracker" where
  "Presence_ClientCount opts now h =
     (let h = Presence_PruneExpired opts now h in (length (entries h), h))"

section \<open>Converging to the declared form\<close>

text \<open>The registered forms, and what one successful action does to them.\<close>

type_synonym forms = "AgentForm \<Rightarrow> bool"

definition do_action :: "forms \<Rightarrow> AgentFormAction \<Rightarrow> forms" where
  "do_action f a = f(afa_form a := afa_install a)"

definition plan :: "AgentForm \<Rightarrow> forms \<Rightarrow> AgentFormAction list" where
  "plan declared f = ResolveFormApplyActions declared (f StartupTray) (f ScheduledTask) (f ServiceForm)"

definition removals :: "AgentForm \<Rightarrow> forms \<Rightarrow> AgentFormAction list" where
  "removals declared f =
     map (\<lambda>x. \<lparr>afa_form = x, afa_install = False\<rparr>)
       (filter (\<lambda>x. x \<noteq> declared \<and> f x) [StartupTray, ScheduledTask, ServiceForm])"

lemma plan_eq:
  "plan declared f = (if f declared then [] else [\<lparr>afa_form = declared, afa_install = True\<rparr>]) @ removals declared f"
  by (cases declared) (auto simp: plan_def removals_def ResolveFormApplyActions_def ConflictingAgentForms_def)

lemma forms_eq_iff: "(f :: forms) = g \<longleftrightarrow> f StartupTray = g StartupTray \<and> f ScheduledTask = g ScheduledTask \<and>
  f ServiceForm = g ServiceForm"
  (is "?L \<longleftrightarrow> ?R")
proof
  assume ?R
  then have "f x = g x" for x by (cases x) auto
  then show ?L by blast
qed simp

lemma removals_result: "g declared \<Longrightarrow> \<forall>x. x \<noteq> declared \<longrightarrow> g x = f x \<Longrightarrow>
  foldl do_action g (removals declared f) = (\<lambda>x. x = declared)"
  by (cases declared) (auto simp: forms_eq_iff removals_def do_action_def)

lemma removals_keep:
  assumes "\<forall>a \<in> set as. afa_form a \<noteq> declared" and "g declared"
  shows "foldl do_action g as declared"
  using assms by (induction as arbitrary: g) (auto simp: do_action_def)

lemma removals_other: "a \<in> set (removals declared f) \<Longrightarrow> afa_form a \<noteq> declared"
  by (auto simp: removals_def simp del: filter.simps)

lemma prefix_keeps_one:
  assumes "0 < n \<or> (\<exists>x. f x)"
  shows "\<exists>x. foldl do_action f (take n (plan declared f)) x"
proof (cases "f declared")
  case True
  then have "foldl do_action f (take n (plan declared f)) declared"
    using removals_other by (intro removals_keep) (auto simp: plan_eq dest!: in_set_takeD)
  then show ?thesis by blast
next
  case False
  show ?thesis
  proof (cases n)
    case 0
    with assms show ?thesis by simp
  next
    case (Suc k)
    let ?g = "do_action f \<lparr>afa_form = declared, afa_install = True\<rparr>"
    have "foldl do_action ?g (take k (removals declared f)) declared"
      using removals_other by (intro removals_keep) (auto simp: do_action_def dest!: in_set_takeD)
    with Suc False show ?thesis by (auto simp: plan_eq)
  qed
qed

text \<open>
  Carrying out the planned actions registers exactly the declared form; nothing is
  planned exactly when this is already so; and an apply that stops after any number of
  actions (because one failed) never leaves the agent without any form, unless none was
  registered and nothing was done.\<close>
theorem ResolveFormApplyActions_converges:
  "foldl do_action f (plan declared f) = (\<lambda>x. x = declared) \<and>
   (plan declared f = [] \<longleftrightarrow> f = (\<lambda>x. x = declared)) \<and>
   (\<forall>n. 0 < n \<or> (\<exists>x. f x) \<longrightarrow> (\<exists>x. foldl do_action f (take n (plan declared f)) x))"
proof (intro conjI allI impI)
  show "foldl do_action f (plan declared f) = (\<lambda>x. x = declared)"
    using removals_result [of f declared f] removals_result [of "f(declared := True)" declared f]
    by (auto simp: plan_eq do_action_def)
  show "plan declared f = [] \<longleftrightarrow> f = (\<lambda>x. x = declared)"
    by (cases declared) (auto simp: plan_eq removals_def forms_eq_iff)
qed (rule prefix_keeps_one)

theorem ResolveFormApplyActions_converges_witness:
  "foldl do_action (\<lambda>x. x \<noteq> StartupTray) (plan StartupTray (\<lambda>x. x \<noteq> StartupTray)) = (\<lambda>x. x = StartupTray)"
  using ResolveFormApplyActions_converges [of "\<lambda>x. x \<noteq> StartupTray" StartupTray] by blast

section \<open>Crash detection\<close>

lemma WriteRecoveryMarker_ok:
  assumes "WriteRecoveryMarker sysmsg io p d = (Success u, d')"
  shows "files d' p = Some (kRecoveryMarkerEnvelope @ [LF] @ ''unclean'' @ [LF])"
proof -
  from assms obtain d1 d2 where m: "make_parent io p d = (Inr (), d1)"
    and o: "open_write io p False d1 = (Inr (), d2)"
    and w: "write_flush io p (kRecoveryMarkerEnvelope @ [LF] @ ''unclean'' @ [LF]) d2 = (Inr (), d')"
    by (auto simp: WriteRecoveryMarker_def split: prod.splits sum.splits)
  from o have "files d2 p = Some []" by (elim open_write_cases) auto
  with w show ?thesis by (elim write_flush_cases) auto
qed

lemma marker_lines: "getlines (kRecoveryMarkerEnvelope @ [LF] @ ''unclean'' @ [LF]) = [kRecoveryMarkerEnvelope, ''unclean'']"
  by (simp add: kRecoveryMarkerEnvelope_def getlines_def)

lemma IsRecoveryMarkerSet_written:
  assumes "files d p = Some (kRecoveryMarkerEnvelope @ [LF] @ ''unclean'' @ [LF])"
    and "fail_open_read io p = None" and "fail_read io p = None"
  shows "IsRecoveryMarkerSet sysmsg io p d = Success True"
  using assms marker_lines
  by (simp add: IsRecoveryMarkerSet_def open_read_def Let_def strip_CR_def kRecoveryMarkerEnvelope_def)

lemma IsRecoveryMarkerSet_removed:
  assumes "files d p = None"
  shows "(case IsRecoveryMarkerSet sysmsg io p d of Inl _ \<Rightarrow> False | Inr b \<Rightarrow> b) = False"
  using assms by (auto simp: IsRecoveryMarkerSet_def open_read_def split: option.splits sum.splits)

lemma ClearRecoveryMarker_removes:
  "fail_remove io p = None \<Longrightarrow> files (snd (ClearRecoveryMarker sysmsg io p d)) p = None"
  by (simp add: ClearRecoveryMarker_def remove_file_def)

lemma latched_refuses: "anomalyLatched g \<Longrightarrow> enabled opts \<Longrightarrow> \<not> fst (ShouldAcceptClients opts t g)"
  by (simp add: ShouldAcceptClients_def Let_def Refresh_def)

text \<open>
  A run that wrote its marker and did not reach its regular end is noticed by the next
  start: unless the operator confirms it, the guard refuses every client from then on;
  after a regular end, or with a confirmation, the start does not touch the guard.\<close>
theorem recovery_marker_detects_crash:
  assumes "WriteRecoveryMarker sysmsg io1 p d0 = (Success u, d1)"
    and "fail_open_read io2 p = None" and "fail_read io2 p = None"
    and "fail_remove io3 p = None" and "enabled opts"
  shows "(let (a, g', d2) = host_start sysmsg io2 p False True opts g d1
          in a = RA_Latch \<and> (\<forall>t. \<not> fst (ShouldAcceptClients opts t g'))) \<and>
    (let (a, g', d2) = host_start sysmsg io4 p False True opts g (host_end sysmsg io3 p d1)
     in a = RA_None \<and> g' = g) \<and>
    (let (a, g', d2) = host_start sysmsg io4 p True latch opts g d1 in a = RA_None \<and> g' = g)"
proof (intro conjI)
  note w = WriteRecoveryMarker_ok [OF assms(1)]
  have "IsRecoveryMarkerSet sysmsg io2 p d1 = Success True"
    by (rule IsRecoveryMarkerSet_written [OF w assms(2,3)])
  moreover have "anomalyLatched (OnAnomalyDetected opts g)"
    using assms(5) by (simp add: OnAnomalyDetected_def)
  ultimately show "let (a, g', d2) = host_start sysmsg io2 p False True opts g d1
      in a = RA_Latch \<and> (\<forall>t. \<not> fst (ShouldAcceptClients opts t g'))"
    using latched_refuses [OF _ assms(5)]
    by (simp add: host_start_def Let_def DecideRecoveryAnomalyAction_def)
  have "files (host_end sysmsg io3 p d1) p = None"
    unfolding host_end_def by (rule ClearRecoveryMarker_removes [OF assms(4)])
  from IsRecoveryMarkerSet_removed [OF this, of sysmsg io4]
  show "let (a, g', d2) = host_start sysmsg io4 p False True opts g (host_end sysmsg io3 p d1)
      in a = RA_None \<and> g' = g"
    by (simp add: host_start_def Let_def DecideRecoveryAnomalyAction_def)
  show "let (a, g', d2) = host_start sysmsg io4 p True latch opts g d1 in a = RA_None \<and> g' = g"
    by (simp add: host_start_def Let_def DecideRecoveryAnomalyAction_def)
qed

theorem recovery_marker_detects_crash_witness:
  "let d1 = snd (WriteRecoveryMarker (\<lambda>_. []) no_faults ''m'' empty_disk)
   in fst (host_start (\<lambda>_. []) no_faults ''m'' False True default_safe_mode_options SafeModeGuard_new d1) = RA_Latch"
proof -
  let ?x = "WriteRecoveryMarker (\<lambda>_. []) no_faults ''m'' empty_disk"
  have "fst ?x = Success ()"
    by (simp add: WriteRecoveryMarker_def make_parent_def parent_path_def root_path_len_def
        root_name_len_def has_drive_def is_slash_def Let_def open_write_def write_flush_def empty_disk_def)
  then have "?x = (Success (), snd ?x)" by (metis prod.collapse)
  from recovery_marker_detects_crash [OF this, of no_faults no_faults default_safe_mode_options SafeModeGuard_new
      no_faults True]
  show ?thesis by (auto simp: Let_def default_safe_mode_options_def split: prod.splits)
qed

section \<open>Presence\<close>

lemma ComputeSummary_Present:
  "ComputeSummary h = P_Present \<longleftrightarrow> (\<exists>(k, e) \<in> set (entries h). pe_state e = P_Present)"
  unfolding ComputeSummary_def Let_def list_ex_iff by (cases h) (force split: if_splits)

lemma ComputeSummary_Unknown:
  "ComputeSummary h = P_Unknown \<longleftrightarrow> (\<forall>(k, e) \<in> set (entries h). pe_state e = P_Unknown)"
  unfolding ComputeSummary_def Let_def list_ex_iff by (force split: if_splits)

lemma ClassifyPresence_monotone:
  "ClassifyPresence (Some i) away = P_Away \<Longrightarrow> i \<le> j \<Longrightarrow> ClassifyPresence (Some j) away = P_Away"
  by (auto simp: ClassifyPresence_def split: if_splits)

text \<open>
  The timeline is a chain: each transition starts where the last one ended and changes
  the state, and the last one ends in the current summary.
\<close>

fun chain :: "PresenceState \<Rightarrow> (PresenceState \<times> PresenceState) list \<Rightarrow> PresenceState \<Rightarrow> bool" where
  "chain s [] t \<longleftrightarrow> s = t"
| "chain s ((a, b) # cs) t \<longleftrightarrow> a = s \<and> a \<noteq> b \<and> chain b cs t"

definition presence_wf :: "HostPresenceTracker \<Rightarrow> bool" where
  "presence_wf h \<longleftrightarrow> om_wf (entries h) \<and> chain P_Unknown (changes h) (lastSummary h)"

lemma chain_snoc: "chain s cs t \<Longrightarrow> t \<noteq> u \<Longrightarrow> chain s (cs @ [(t, u)]) u"
  by (induction s cs t rule: chain.induct) auto

lemma Presence_PruneExpired_wf: "presence_wf h \<Longrightarrow> presence_wf (Presence_PruneExpired opts now h)"
  by (auto simp: presence_wf_def Presence_PruneExpired_def Let_def om_wf_filter)

lemma presence_wf_steps:
  assumes "presence_wf h"
  shows "presence_wf (snd (Presence_Record opts t1 t2 k i h))"
    and "presence_wf (snd (Presence_Summary opts now h))"
    and "fst (Presence_Summary opts now h) = lastSummary (snd (Presence_Summary opts now h))"
  using Presence_PruneExpired_wf [OF assms, of opts] assms
  by (auto simp: Presence_Record_def Presence_Summary_def presence_wf_def Let_def
      intro!: chain_snoc om_put_wf)

lemma Presence_Record_get:
  assumes "k \<noteq> []"
  shows "om_get (entries (snd (Presence_Record opts t1 t2 k i h))) k =
    Some \<lparr>pe_state = ClassifyPresence i (po_awayAfterSeconds opts), pe_idleSeconds = i, pe_lastSeen = t2\<rparr>"
  using assms by (simp add: Presence_Record_def Let_def om.get_put)

end
