(* ===== verification/Agent_Form_Command.thy ===== *)
theory Agent_Form_Command
  imports Registration Agent_Lifecycle Config_Manager Cli_World
begin

text \<open>
  The commands of \<^verbatim>\<open>source/main.cpp\<close> that register and remove the forms in which the host is started
  (\<open>RunStartupCommand\<close>, \<open>RunScheduledTaskCommand\<close>, the three service commands) and the two that work on all of
  them: \<open>RunAgentFormCommand\<close> and the declarative \<open>RunAgentFormApply\<close>.  The three backends act on the machine of
  the command's world; the interface \<open>form_registry\<close> says what they promise about the registered forms.
\<close>

section \<open>What the commands use\<close>

text \<open>\<open>fw_module\<close> is the path of the running program, or nothing when it cannot be read.\<close>

record 's form_world =
  fw_startup :: "'s StartupEntryBackend"
  fw_task :: "'s ScheduledTaskBackend"
  fw_scm :: "'s ScmInstallBackend"
  fw_module :: "string option"

definition kServiceName :: string where "kServiceName = ''CppOptimizerService''"

definition kServiceIdentity :: "string option \<Rightarrow> ServiceIdentity" where
  "kServiceIdentity exe =
     \<lparr>si_name = wide kServiceName, si_displayName = wide ''CppOptimizer Service'',
      si_description = wide ''CppOptimizer read-only observation and controlled optimisation host (R0 load)'',
      si_executablePath = wide (case exe of None \<Rightarrow> [] | Some p \<Rightarrow> p)\<rparr>"

definition kServiceRegistrationCapabilityId :: string where
  "kServiceRegistrationCapabilityId = ''service.registration''"

definition HostAutostartCommandLine :: "string \<Rightarrow> string" where
  "HostAutostartCommandLine exePath = CHR 0x22 # exePath @ CHR 0x22 # '' --service console run --tray --ipc-facts''"

definition ResolveExecutablePath :: "'s form_world \<Rightarrow> string option" where
  "ResolveExecutablePath F =
     (case fw_module F of None \<Rightarrow> None | Some p \<Rightarrow> if p = [] \<or> length p \<ge> MAX_PATH then None else Some p)"

definition refuse_audit :: "'s cli \<Rightarrow> int \<times> 's cli" where
  "refuse_audit W = (2, ErrorLine ''  refused: audit trail is not writable (no registration attempted)'' W)"

definition forms_snapshot :: "'s form_world \<Rightarrow> 's cli \<Rightarrow> string \<times> 's cli" where
  "forms_snapshot F W =
     (let (r1, W1) = on_machine (QueryStartupEntry (fw_startup F)) W;
          (r2, W2) = on_machine (QueryScheduledTask (fw_task F) kScheduledTaskName) W1;
          (r3, W3) = on_machine (QueryService (fw_scm F) (wide kServiceName)) W2
      in (''startup_tray='' @ (case r1 of Inl _ \<Rightarrow> ''unknown'' | Inr v \<Rightarrow> if v = [] then ''no'' else ''yes'') @
          '' task='' @ yes_no_unknown (case r2 of Inl e \<Rightarrow> Inl e | Inr st \<Rightarrow> Inr (sts_installed st)) @
          '' service='' @ yes_no_unknown (case r3 of Inl e \<Rightarrow> Inl e | Inr st \<Rightarrow> Inr (is_installed st)), W3))"

definition AuditAgentFormAction :: "cli_params \<Rightarrow> 's form_world \<Rightarrow> AgentForm \<Rightarrow> bool \<Rightarrow> bool \<Rightarrow> 's cli \<Rightarrow> 's cli" where
  "AuditAgentFormAction P F form install ok W =
     (let (snapshot, W1) = forms_snapshot F W
      in AuditAction P (if install then ''agent.form_install'' else ''agent.form_remove'') R1 (AgentFormToString form) ok
           (if install then ''explicit action (install)'' else ''explicit action (remove)'') snapshot W1)"

section \<open>One form at a time\<close>

definition install_startup :: "cli_params \<Rightarrow> 's form_world \<Rightarrow> 's cli \<Rightarrow> int \<times> 's cli" where
  "install_startup P F W =
     (case probe_audit P W of (writable, W1) \<Rightarrow>
      if \<not> writable then refuse_audit W1
      else (case ResolveExecutablePath F of
              None \<Rightarrow> (2, ErrorLine ''  cannot resolve current executable path'' W1)
            | Some exePath \<Rightarrow>
                (let command = HostAutostartCommandLine exePath;
                     W2 = JournalAction P ''agent.form_install'' ''startup_tray'' True Before
                            ''intent: install per-user startup entry'' W1
                 in case on_machine (se_Write (fw_startup F) command) W2 of
                      (Inl e, W3) \<Rightarrow> (2, ErrorLine (''  startup install failed '' @ error_text e) W3)
                    | (Inr _, W3) \<Rightarrow>
                        (0, WriteLine ''  revert   : CppOptimizer.exe --startup remove''
                              (WriteLine (''  startup  : installed (per-user) -> '' @ command)
                                (AuditAgentFormAction P F StartupTray True True W3))))))"

definition remove_startup :: "cli_params \<Rightarrow> 's form_world \<Rightarrow> 's cli \<Rightarrow> int \<times> 's cli" where
  "remove_startup P F W =
     (case on_machine (RemoveStartupEntry (fw_startup F))
             (JournalAction P ''agent.form_remove'' ''startup_tray'' True Before ''intent: remove per-user startup entry'' W) of
        (Inl e, W1) \<Rightarrow> (2, ErrorLine (''  startup remove failed '' @ error_text e) W1)
      | (Inr _, W1) \<Rightarrow> (0, WriteLine ''  startup  : removed (idempotent)'' (AuditAgentFormAction P F StartupTray False True W1)))"

text \<open>\<open>args\<close> are the words after the name of the command.\<close>

definition RunStartupCommand :: "cli_params \<Rightarrow> 's form_world \<Rightarrow> string list \<Rightarrow> 's cli \<Rightarrow> int \<times> 's cli" where
  "RunStartupCommand P F args W =
     (case args of
        [] \<Rightarrow> (2, ErrorLine ''  --startup requires status|install|remove'' W)
      | action # _ \<Rightarrow>
          if action = ''status''
          then (case on_machine (QueryStartupEntry (fw_startup F)) W of
                  (Inl e, W1) \<Rightarrow> (2, ErrorLine (''  startup query failed '' @ error_text e) W1)
                | (Inr v, W1) \<Rightarrow>
                    (0, WriteLine (if v = [] then ''  state    : not installed'' else ''  state    : installed -> '' @ v)
                          (WriteLine ''Startup entry (per-user, HKCU Run)'' W1)))
          else if action = ''install'' then install_startup P F W
          else if action = ''remove'' then remove_startup P F W
          else (2, ErrorLine ''  --startup requires status|install|remove'' W))"

definition install_task :: "cli_params \<Rightarrow> 's form_world \<Rightarrow> string \<Rightarrow> 's cli \<Rightarrow> int \<times> 's cli" where
  "install_task P F taskName W =
     (case probe_audit P W of (writable, W1) \<Rightarrow>
      if \<not> writable then refuse_audit W1
      else (case ResolveExecutablePath F of
              None \<Rightarrow> (2, ErrorLine ''  cannot resolve current executable path'' W1)
            | Some exePath \<Rightarrow>
                (let command = HostAutostartCommandLine exePath;
                     W2 = JournalAction P ''agent.form_install'' ''task'' True Before ''intent: install scheduled task'' W1
                 in case on_machine (InstallScheduledTask (fw_task F)
                           \<lparr>st_taskName = taskName, st_commandLine = command, st_trigger = OnLogon\<rparr>) W2 of
                      (Inl e, W3) \<Rightarrow>
                        (2, ErrorLine (''  hint     : registering a per-machine task needs elevated rights '' @
                                       ''(one-time UAC); the task itself never runs elevated'')
                              (ErrorLine (''  scheduled task install failed '' @ error_text e) W3))
                    | (Inr _, W3) \<Rightarrow>
                        (0, WriteLine ''  revert   : CppOptimizer.exe --scheduled-task remove''
                              (WriteLine (''  scheduled: installed (per-user, logon trigger) -> '' @ command)
                                (AuditAgentFormAction P F ScheduledTask True True W3))))))"

definition remove_task_form :: "cli_params \<Rightarrow> 's form_world \<Rightarrow> string \<Rightarrow> 's cli \<Rightarrow> int \<times> 's cli" where
  "remove_task_form P F taskName W =
     (case probe_audit P W of (writable, W1) \<Rightarrow>
      if \<not> writable then refuse_audit W1
      else (case on_machine (RemoveScheduledTask (fw_task F) taskName)
                   (JournalAction P ''agent.form_remove'' ''task'' True Before ''intent: remove scheduled task'' W1) of
              (Inl e, W2) \<Rightarrow> (2, ErrorLine (''  scheduled task remove failed '' @ error_text e) W2)
            | (Inr _, W2) \<Rightarrow>
                (0, WriteLine ''  scheduled: removed (idempotent)'' (AuditAgentFormAction P F ScheduledTask False True W2))))"

definition show_task :: "string \<Rightarrow> ScheduledTaskStatus \<Rightarrow> 's cli \<Rightarrow> 's cli" where
  "show_task taskName st W =
     (let W1 = WriteLine (''  task     : '' @ taskName) (WriteLine ''Scheduled task (logon trigger, current user token)'' W)
      in if \<not> sts_installed st then WriteLine ''  state    : not installed'' W1
         else WriteLine (if sts_commandLine st \<noteq> [] then ''  command  : '' @ sts_commandLine st
                         else ''  command  : unavailable (task exists but its action could not be read)'')
                (WriteLine (''  state    : installed'' @
                            (if sts_trigger st \<noteq> [] then '' (trigger '' @ sts_trigger st @ '')'' else [])) W1))"

definition RunScheduledTaskCommand :: "cli_params \<Rightarrow> 's form_world \<Rightarrow> string list \<Rightarrow> 's cli \<Rightarrow> int \<times> 's cli" where
  "RunScheduledTaskCommand P F args W =
     (case args of
        [] \<Rightarrow> (2, ErrorLine ''  --scheduled-task requires status|install|remove'' W)
      | action # rest \<Rightarrow>
          (let taskName = (case rest of [] \<Rightarrow> kScheduledTaskName | n # _ \<Rightarrow> n)
           in if action = ''status''
              then (case on_machine (QueryScheduledTask (fw_task F) taskName) W of
                      (Inl e, W1) \<Rightarrow> (2, ErrorLine (''  scheduled task query failed '' @ error_text e) W1)
                    | (Inr st, W1) \<Rightarrow> (0, show_task taskName st W1))
              else if action = ''install'' then install_task P F taskName W
              else if action = ''remove'' then remove_task_form P F taskName W
              else (2, ErrorLine ''  --scheduled-task requires status|install|remove'' W)))"

text \<open>The cooldown of a service registration: a ledger that cannot be read does not block.\<close>

definition service_cooldown_blocks :: "cli_params \<Rightarrow> 's cli \<Rightarrow> bool" where
  "service_cooldown_blocks P W =
     (case ReadCooldownLedger (cp_sysmsg P) (cp_io P) (DefaultCooldownLedgerPath P) (cl_disk W) of
        Inl _ \<Rightarrow> False
      | Inr ledger \<Rightarrow> \<not> EvaluateCooldownGate ledger kServiceRegistrationCapabilityId (cp_time P (cl_ticks W)) kDefaultCooldown)"

text \<open>The hints, which the code prints in Chinese, are written here in English.\<close>

definition scm_hint :: "Error \<Rightarrow> u64 \<Rightarrow> string \<Rightarrow> string" where
  "scm_hint e code hint =
     (if err_domain e = Win32 \<and> err_code e = 5 then '' (needs administrator rights)''
      else if err_domain e = Win32 \<and> err_code e = code then hint else [])"

definition RunServiceInstallCommand :: "cli_params \<Rightarrow> 's form_world \<Rightarrow> string option \<Rightarrow> 's cli \<Rightarrow> int \<times> 's cli" where
  "RunServiceInstallCommand P F exe W =
     (case probe_audit P W of (writable, W1) \<Rightarrow>
      if \<not> writable then refuse_audit W1
      else if service_cooldown_blocks P W1
      then (2, ErrorLine (''  --service install refused [capability: service.registration,'' @
                          '' first blocked gate: cooldown] (no registration attempted)'') (tick W1))
      else (let W2 = JournalAction P ''agent.form_install'' ''service'' True Before
                       ''intent: install SCM service (needs admin)'' (tick W1)
            in case on_machine (InstallService (fw_scm F) (kServiceIdentity exe)) W2 of
                 (Inl e, W3) \<Rightarrow>
                   (2, WriteLine (''  service install failed '' @ error_text e @
                         scm_hint e 1073 '' (the service exists, uninstall it first)'') W3)
               | (Inr _, W3) \<Rightarrow>
                   (let W4 = AuditAgentFormAction P F ServiceForm True True W3;
                        W5 = (case RecordCooldownRun (cp_sysmsg P) (cp_io P) (DefaultCooldownLedgerPath P)
                                kServiceRegistrationCapabilityId (cp_time P (cl_ticks W4)) (cl_disk W4) of
                                (Inl _, d) \<Rightarrow> WriteLine ''  cooldown : not recorded (action already applied)'' (tick (W4\<lparr>cl_disk := d\<rparr>))
                              | (Inr _, d) \<Rightarrow> tick (W4\<lparr>cl_disk := d\<rparr>))
                    in (0, fold WriteLine
                             [''Service installed: '' @ kServiceName @ '' (demand start, requires SCM start)'',
                              ''  start : sc start CppOptimizerService'', ''  test  : CppOptimizer.exe --service console 10''] W5))))"

definition RunServiceUninstallCommand :: "cli_params \<Rightarrow> 's form_world \<Rightarrow> 's cli \<Rightarrow> int \<times> 's cli" where
  "RunServiceUninstallCommand P F W =
     (case probe_audit P W of (writable, W1) \<Rightarrow>
      if \<not> writable then refuse_audit W1
      else (case on_machine (UninstallService (fw_scm F) (wide kServiceName))
                   (JournalAction P ''agent.form_remove'' ''service'' True Before
                      ''intent: uninstall SCM service (needs admin)'' W1) of
              (Inl e, W2) \<Rightarrow>
                (2, WriteLine (''  service uninstall failed '' @ error_text e @ scm_hint e 1060 '' (the service is not installed)'') W2)
            | (Inr _, W2) \<Rightarrow>
                (0, WriteLine (''Service uninstalled: '' @ kServiceName) (AuditAgentFormAction P F ServiceForm False True W2))))"

definition RunServiceStatusCommand :: "'s form_world \<Rightarrow> 's cli \<Rightarrow> int \<times> 's cli" where
  "RunServiceStatusCommand F W =
     (case on_machine (QueryService (fw_scm F) (wide kServiceName)) W of
        (Inl e, W1) \<Rightarrow> (2, ErrorLine (''  service status failed '' @ error_text e) W1)
      | (Inr st, W1) \<Rightarrow>
          (let W2 = WriteLine (''  name     : '' @ kServiceName) (WriteLine ''Service (SCM; install and uninstall need admin)'' W1)
           in (0, if \<not> is_installed st then WriteLine ''  state    : not installed'' W2
                  else WriteLine (''  start    : '' @ StartTypeToString (is_autoStart st) (is_startTypeKnown st))
                         (WriteLine (''  state    : installed ('' @ StateToString (is_state st) @ '')'') W2))))"

section \<open>All forms\<close>

definition RunAgentFormAction :: "cli_params \<Rightarrow> 's form_world \<Rightarrow> AgentForm \<Rightarrow> bool \<Rightarrow> 's cli \<Rightarrow> int \<times> 's cli" where
  "RunAgentFormAction P F target install W =
     (if target = ServiceForm
      then (if install then RunServiceInstallCommand P F None W else RunServiceUninstallCommand P F W)
      else (if target = StartupTray then RunStartupCommand else RunScheduledTaskCommand) P F
             [if install then ''install'' else ''remove''] W)"

text \<open>A form whose query fails counts as not installed.\<close>

definition query_forms :: "'s form_world \<Rightarrow> 's cli \<Rightarrow> (bool \<times> bool \<times> bool) \<times> 's cli" where
  "query_forms F W =
     (let (r1, W1) = on_machine (QueryStartupEntry (fw_startup F)) W;
          (r2, W2) = on_machine (QueryScheduledTask (fw_task F) kScheduledTaskName) W1;
          (r3, W3) = on_machine (QueryService (fw_scm F) (wide kServiceName)) W2
      in ((case r1 of Inl _ \<Rightarrow> False | Inr v \<Rightarrow> v \<noteq> [],
           case r2 of Inl _ \<Rightarrow> False | Inr st \<Rightarrow> sts_installed st,
           case r3 of Inl _ \<Rightarrow> False | Inr st \<Rightarrow> is_installed st), W3))"

fun parse_apply_args :: "string list \<Rightarrow> path option \<times> bool \<Rightarrow> string + path option \<times> bool" where
  "parse_apply_args [] a = Inr a"
| "parse_apply_args (arg # args) (cp, dry) =
     (if arg = ''--dry-run'' then parse_apply_args args (cp, True)
      else if cp \<noteq> None then Inl (''  unknown --agent-form apply option: '' @ arg)
      else parse_apply_args args (Some arg, dry))"

definition declared_text :: "'n toml_api \<Rightarrow> (path \<Rightarrow> string + 'n) \<Rightarrow> path option \<Rightarrow> string result" where
  "declared_text T parse cp =
     (case cp of None \<Rightarrow> Success ''startup_tray''
      | Some p \<Rightarrow> (case LoadConfig T parse p of Inl e \<Rightarrow> Failure e | Inr s \<Rightarrow> Success (cs_agentForm s)))"

definition apply_line :: "bool \<Rightarrow> AgentFormAction \<Rightarrow> string" where
  "apply_line dryRun a =
     (if afa_install a then ''  install  : '' else ''  remove   : '') @ AgentFormToString (afa_form a) @
     (if dryRun then '' (dry-run: not executed)'' else [])"

fun run_form_actions :: "cli_params \<Rightarrow> 's form_world \<Rightarrow> AgentFormAction list \<Rightarrow> 's cli \<Rightarrow> int \<times> 's cli" where
  "run_form_actions P F [] W = (0, WriteLine ''  result   : converged'' W)"
| "run_form_actions P F (a # as) W =
     (case RunAgentFormAction P F (afa_form a) (afa_install a) W of (result, W1) \<Rightarrow>
      if result \<noteq> 0
      then (result, ErrorLine (''  apply stopped: '' @ (if afa_install a then ''install'' else ''remove'') @ '' '' @
              AgentFormToString (afa_form a) @ '' failed (already-applied actions are kept; rerun after'' @ [LF] @
              ''             fixing the cause, or revert with --agent-form remove)'') W1)
      else run_form_actions P F as W1)"

definition RunAgentFormApply ::
  "cli_params \<Rightarrow> 's form_world \<Rightarrow> 'n toml_api \<Rightarrow> (path \<Rightarrow> string + 'n) \<Rightarrow> string list \<Rightarrow> 's cli \<Rightarrow> int \<times> 's cli" where
  "RunAgentFormApply P F T parse args W =
     (case parse_apply_args args (None, False) of
        Inl t \<Rightarrow> (2, ErrorLine t W)
      | Inr (cp, dryRun) \<Rightarrow>
     (case declared_text T parse cp of
        Inl e \<Rightarrow> (2, ErrorLine (''  config load failed '' @ error_text e) W)
      | Inr declared \<Rightarrow>
     (case ParseAgentForm (wide declared) of
        None \<Rightarrow> (2, ErrorLine ''  config declares an unsupported form'' W)
      | Some form \<Rightarrow>
          (let ((startupInstalled, taskInstalled, serviceInstalled), W1) = query_forms F W;
               actions = ResolveFormApplyActions form startupInstalled taskInstalled serviceInstalled;
               W2 = WriteLine (''  declared : '' @ AgentFormToString form @ '' (from '' @
                      (case cp of Some p \<Rightarrow> p | None \<Rightarrow> ''built-in default'') @ '')'') W1
           in if actions = [] then (0, WriteLine ''  result   : already converged (nothing to do)'' W2)
              else (let W3 = fold WriteLine (map (apply_line dryRun) actions) W2
                    in if dryRun then (0, WriteLine ''  note     : dry-run only; no system change was made'' W3)
                       else run_form_actions P F actions W3)))))"

text \<open>The reading action of the form command: a form whose query fails gets its own error line.\<close>

definition form_failed :: "string \<Rightarrow> Error \<Rightarrow> 's cli \<Rightarrow> 's cli" where
  "form_failed name e W = ErrorLine (name @ ''query failed '' @ error_text e) W"

definition show_forms :: "'s form_world \<Rightarrow> 's cli \<Rightarrow> (bool \<times> bool \<times> bool) \<times> 's cli" where
  "show_forms F W =
     (let (r1, W1) = on_machine (QueryStartupEntry (fw_startup F)) W;
          W1' = (case r1 of
                   Inl e \<Rightarrow> form_failed ''  startup_tray : '' e W1
                 | Inr v \<Rightarrow> WriteLine (''  startup_tray : '' @ (if v = [] then ''not installed'' else ''installed -> '' @ v)) W1);
          (r2, W2) = on_machine (QueryScheduledTask (fw_task F) kScheduledTaskName) W1';
          W2' = (case r2 of
                   Inl e \<Rightarrow> form_failed ''  task         : '' e W2
                 | Inr st \<Rightarrow> WriteLine (''  task         : '' @
                     (if \<not> sts_installed st then ''not installed''
                      else ''installed'' @ (if sts_trigger st \<noteq> [] then '' (trigger '' @ sts_trigger st @ '')'' else []) @
                           (if sts_commandLine st \<noteq> [] then '' -> '' @ sts_commandLine st else []))) W2);
          (r3, W3) = on_machine (QueryService (fw_scm F) (wide kServiceName)) W2';
          W3' = (case r3 of
                   Inl e \<Rightarrow> form_failed ''  service      : '' e W3
                 | Inr st \<Rightarrow> WriteLine (''  service      : '' @
                     (if \<not> is_installed st then ''not installed''
                      else ''installed ('' @ StateToString (is_state st) @ '', start '' @
                           StartTypeToString (is_autoStart st) (is_startTypeKnown st) @ '')'')) W3)
      in ((case r1 of Inl _ \<Rightarrow> False | Inr v \<Rightarrow> v \<noteq> [],
           case r2 of Inl _ \<Rightarrow> False | Inr st \<Rightarrow> sts_installed st,
           case r3 of Inl _ \<Rightarrow> False | Inr st \<Rightarrow> is_installed st), W3'))"

definition form_status ::
  "'s form_world \<Rightarrow> 'n toml_api \<Rightarrow> (path \<Rightarrow> string + 'n) \<Rightarrow> path option \<Rightarrow> 's cli \<Rightarrow> int \<times> 's cli" where
  "form_status F T parse cp W =
     (case (case cp of None \<Rightarrow> Success None
            | Some p \<Rightarrow> (case LoadConfig T parse p of Inl e \<Rightarrow> Failure e | Inr s \<Rightarrow> Success (Some (cs_agentForm s)))) of
        Inl e \<Rightarrow> (2, ErrorLine (''  config load failed '' @ error_text e) W)
      | Inr declaredForm \<Rightarrow>
          (let ((startupInstalled, taskInstalled, serviceInstalled), W1) =
                 show_forms F (WriteLine ''Agent forms (read-only; the default is startup_tray)'' W);
               W2 = WriteLine ''  act          : CppOptimizer.exe --agent-form install|remove <startup_tray|task|service>'' W1
           in (0, case declaredForm of
                    None \<Rightarrow> W2
                  | Some declared \<Rightarrow>
                      (let W3 = WriteLine (''  declared     : '' @ declared @ '' (from config; a declared form never installs itself)'') W2;
                           declaredInstalled = (if declared = ''startup_tray'' then startupInstalled
                             else if declared = ''task'' then taskInstalled else serviceInstalled)
                       in if declaredInstalled then W3
                          else WriteLine (''  note         : the declared form is not installed yet; run: '' @
                                 ''CppOptimizer.exe --agent-form install '' @ declared) W3))))"

fun parse_replace :: "string list \<Rightarrow> bool \<Rightarrow> string + bool" where
  "parse_replace [] replace = Inr replace"
| "parse_replace (extra # extras) replace =
     (if extra = ''--replace'' then parse_replace extras True
      else Inl (''  unknown --agent-form option: '' @ extra @ '' (expected --replace)''))"

fun remove_conflicts :: "cli_params \<Rightarrow> 's form_world \<Rightarrow> AgentForm list \<Rightarrow> 's cli \<Rightarrow> int \<times> 's cli" where
  "remove_conflicts P F [] W = (0, W)"
| "remove_conflicts P F (c # cs) W =
     (case RunAgentFormAction P F c False W of (removed, W1) \<Rightarrow>
      if removed \<noteq> 0
      then (removed, ErrorLine (''  note     : the previous form could not be removed; both may be'' @ [LF] @
                                ''             registered until it is removed manually'') W1)
      else remove_conflicts P F cs W1)"

definition install_form :: "cli_params \<Rightarrow> 's form_world \<Rightarrow> AgentForm \<Rightarrow> bool \<Rightarrow> 's cli \<Rightarrow> int \<times> 's cli" where
  "install_form P F form replace W =
     (let ((startupInstalled, taskInstalled, serviceInstalled), W1) = query_forms F W;
          conflicts = ConflictingAgentForms form startupInstalled taskInstalled serviceInstalled
      in if conflicts \<noteq> [] \<and> \<not> replace
         then (2, ErrorLine (''  hint     : only one form may be active at a time - remove it first'' @ [LF] @
                             ''             (--agent-form remove <form>) or pass --replace to'' @ [LF] @
                             ''             switch after the new form is installed'')
                    (ErrorLine (''  another agent form is already installed:'' @
                        concat (map (\<lambda>c. '' '' @ AgentFormToString c) conflicts)) W1))
         else (case RunAgentFormAction P F form True W1 of (installed, W2) \<Rightarrow>
               if installed \<noteq> 0 then (installed, W2) else remove_conflicts P F conflicts W2))"

definition RunAgentFormCommand ::
  "cli_params \<Rightarrow> 's form_world \<Rightarrow> 'n toml_api \<Rightarrow> (path \<Rightarrow> string + 'n) \<Rightarrow> string list \<Rightarrow> 's cli \<Rightarrow> int \<times> 's cli" where
  "RunAgentFormCommand P F T parse args W =
     (case args of
        [] \<Rightarrow> (2, ErrorLine ''  --agent-form requires status|install|remove'' W)
      | action # rest \<Rightarrow>
          if action = ''apply'' then RunAgentFormApply P F T parse rest W
          else if action = ''status'' then form_status F T parse (case rest of [] \<Rightarrow> None | p # _ \<Rightarrow> Some p) W
          else if action \<noteq> ''install'' \<and> action \<noteq> ''remove''
          then (2, ErrorLine ''  --agent-form requires status|install|remove'' W)
          else (case rest of
                  [] \<Rightarrow> (2, ErrorLine (''  --agent-form '' @ action @ '' needs a form: startup_tray|task|service'') W)
                | name # extras \<Rightarrow>
                    (case parse_replace extras False of
                       Inl t \<Rightarrow> (2, ErrorLine t W)
                     | Inr replace \<Rightarrow>
                         (case ParseAgentForm (wide name) of
                            None \<Rightarrow> (2, ErrorLine (''  unknown agent form: '' @ name @ '' (expected startup_tray|task|service)'') W)
                          | Some form \<Rightarrow>
                              if action = ''remove'' then RunAgentFormAction P F form False W
                              else install_form P F form replace W))))"

section \<open>What the backends promise\<close>

text \<open>
  \<open>inst\<close> says which forms a machine has registered to stay.  The service manager does not remove a service whose
  process is running: deleting it marks it (\<open>leaving\<close>), and it stays registered until it stops.  A successful
  query is honest, a leaving service counts as installed, and no query changes anything; an operation
  that succeeded has its effect on its own form and nothing else, and one that failed has none.  No
  operation starts the service, and only a running one can become leaving.
\<close>

definition drift :: "('s \<Rightarrow> bool) \<Rightarrow> ('s \<Rightarrow> bool) \<Rightarrow> 's \<Rightarrow> 's \<Rightarrow> bool" where
  "drift leaving running s s' \<longleftrightarrow> (leaving s' \<longrightarrow> leaving s \<or> running s) \<and> (running s' \<longrightarrow> running s)"

lemma drift_refl: "drift l r s s"
  by (simp add: drift_def)

lemma drift_trans: "drift l r s s' \<Longrightarrow> drift l r s' s'' \<Longrightarrow> drift l r s s''"
  by (auto simp: drift_def)

locale form_registry =
  fixes F :: "'s form_world" and inst :: "AgentForm \<Rightarrow> 's \<Rightarrow> bool" and leaving running :: "'s \<Rightarrow> bool"
  assumes startup_read: "se_Read (fw_startup F) s = (entry, s') \<Longrightarrow>
      inst f s' = inst f s \<and> leaving s' = leaving s \<and> running s' = running s \<and>
      (\<forall>v. entry = Success v \<longrightarrow> (v \<noteq> []) = inst StartupTray s)"
    and startup_write: "v \<noteq> [] \<Longrightarrow> se_Write (fw_startup F) v s = (r, s') \<Longrightarrow>
      inst f s' = (if HasValue r \<and> f = StartupTray then True else inst f s) \<and> drift leaving running s s'"
    and startup_remove: "se_Remove (fw_startup F) s = (r, s') \<Longrightarrow>
      inst f s' = (if HasValue r \<and> f = StartupTray then False else inst f s) \<and> drift leaving running s s'"
    and task_read: "tb_Read (fw_task F) kScheduledTaskName s = (tstatus, s') \<Longrightarrow>
      inst f s' = inst f s \<and> leaving s' = leaving s \<and> running s' = running s \<and>
      (\<forall>st. tstatus = Success st \<longrightarrow> sts_installed st = inst ScheduledTask s)"
    and task_create: "st_taskName spec = kScheduledTaskName \<Longrightarrow> tb_Create (fw_task F) spec s = (r, s') \<Longrightarrow>
      inst f s' = (if HasValue r \<and> f = ScheduledTask then True else inst f s) \<and> drift leaving running s s'"
    and task_remove: "tb_Remove (fw_task F) kScheduledTaskName s = (r, s') \<Longrightarrow>
      inst f s' = (if HasValue r \<and> f = ScheduledTask then False else inst f s) \<and> drift leaving running s s'"
    and service_query: "scm_Query (fw_scm F) (wide kServiceName) s = (sstatus, s') \<Longrightarrow>
      inst f s' = inst f s \<and> leaving s' = leaving s \<and> running s' = running s \<and>
      (\<forall>st. sstatus = Success st \<longrightarrow> is_installed st = (inst ServiceForm s \<or> leaving s))"
    and service_create: "si_name ident = wide kServiceName \<Longrightarrow> scm_Create (fw_scm F) ident s = (r, s') \<Longrightarrow>
      inst f s' = (if HasValue r \<and> f = ServiceForm then True else inst f s) \<and> drift leaving running s s'"
    and service_delete: "scm_Delete (fw_scm F) (wide kServiceName) s = (r, s') \<Longrightarrow>
      inst f s' = (if HasValue r \<and> f = ServiceForm then False else inst f s) \<and> drift leaving running s s'"
begin

lemma names [simp]: "kScheduledTaskName \<noteq> []" "CHR 0x5C \<notin> set kScheduledTaskName" "wide kServiceName \<noteq> []"
  by (simp_all add: kScheduledTaskName_def kServiceName_def wide_def)

lemma queries:
  "on_machine (QueryStartupEntry (fw_startup F)) W = (entry, W') \<Longrightarrow>
     inst f (cl_machine W') = inst f (cl_machine W) \<and> (\<forall>v. entry = Success v \<longrightarrow> (v \<noteq> []) = inst StartupTray (cl_machine W))"
  "on_machine (QueryScheduledTask (fw_task F) kScheduledTaskName) W = (tstatus, W') \<Longrightarrow>
     inst f (cl_machine W') = inst f (cl_machine W) \<and> (\<forall>st. tstatus = Success st \<longrightarrow> sts_installed st = inst ScheduledTask (cl_machine W))"
  "on_machine (QueryService (fw_scm F) (wide kServiceName)) W = (sstatus, W') \<Longrightarrow>
     inst f (cl_machine W') = inst f (cl_machine W) \<and>
     (\<forall>st. sstatus = Success st \<longrightarrow> is_installed st = (inst ServiceForm (cl_machine W) \<or> leaving (cl_machine W)))"
  using startup_read task_read service_query
  by (fastforce simp: on_machine_def QueryStartupEntry_def QueryScheduledTask_def QueryService_def split: prod.splits)+

lemma queries_keep:
  "on_machine (QueryStartupEntry (fw_startup F)) W = (entry, W') \<Longrightarrow>
     leaving (cl_machine W') = leaving (cl_machine W) \<and> running (cl_machine W') = running (cl_machine W)"
  "on_machine (QueryScheduledTask (fw_task F) kScheduledTaskName) W = (tstatus, W') \<Longrightarrow>
     leaving (cl_machine W') = leaving (cl_machine W) \<and> running (cl_machine W') = running (cl_machine W)"
  "on_machine (QueryService (fw_scm F) (wide kServiceName)) W = (sstatus, W') \<Longrightarrow>
     leaving (cl_machine W') = leaving (cl_machine W) \<and> running (cl_machine W') = running (cl_machine W)"
  using startup_read task_read service_query
  by (fastforce simp: on_machine_def QueryStartupEntry_def QueryScheduledTask_def QueryService_def split: prod.splits)+

lemma forms_snapshot_keeps:
  "forms_snapshot F W = (t, W') \<Longrightarrow> inst f (cl_machine W') = inst f (cl_machine W) \<and>
     leaving (cl_machine W') = leaving (cl_machine W) \<and> running (cl_machine W') = running (cl_machine W)"
  using queries queries_keep by (auto simp: forms_snapshot_def Let_def split: prod.splits)

lemma audit_keeps [simp]:
  "inst f (cl_machine (AuditAgentFormAction P F form install ok W)) = inst f (cl_machine W)"
  "leaving (cl_machine (AuditAgentFormAction P F form install ok W)) = leaving (cl_machine W)"
  "running (cl_machine (AuditAgentFormAction P F form install ok W)) = running (cl_machine W)"
  using forms_snapshot_keeps by (auto simp: AuditAgentFormAction_def AuditAction_frame split: prod.splits)

end

lemma refuse_audit_simps [simp]: "refuse_audit W = (rc, W') \<longleftrightarrow> rc = 2 \<and> W' = snd (refuse_audit W)"
  "cl_machine (snd (refuse_audit W)) = cl_machine W"
  by (auto simp: refuse_audit_def)

context form_registry
begin

lemma install_startup_effect:
  "install_startup P F W = (rc, W') \<Longrightarrow>
     inst f (cl_machine W') = (if rc = 0 \<and> f = StartupTray then True else inst f (cl_machine W))"
  by (auto simp: install_startup_def Let_def on_machine_def JournalAction_frame HostAutostartCommandLine_def
      dest!: probe_audit_machine startup_write [of _ _ _ _ f, rotated] split: prod.splits sum.splits option.splits if_splits)

lemma remove_startup_effect:
  "remove_startup P F W = (rc, W') \<Longrightarrow>
     inst f (cl_machine W') = (if rc = 0 \<and> f = StartupTray then False else inst f (cl_machine W))"
  using startup_remove
  by (fastforce simp: remove_startup_def RemoveStartupEntry_def on_machine_def JournalAction_frame
      split: prod.splits sum.splits if_splits)

lemma install_task_effect:
  "install_task P F kScheduledTaskName W = (rc, W') \<Longrightarrow>
     inst f (cl_machine W') = (if rc = 0 \<and> f = ScheduledTask then True else inst f (cl_machine W))"
  by (auto simp: install_task_def Let_def on_machine_def JournalAction_frame HostAutostartCommandLine_def InstallScheduledTask_def
      dest!: probe_audit_machine task_create [of _ _ _ _ f, rotated] split: prod.splits sum.splits option.splits if_splits)

lemma remove_task_effect:
  "remove_task_form P F kScheduledTaskName W = (rc, W') \<Longrightarrow>
     inst f (cl_machine W') = (if rc = 0 \<and> f = ScheduledTask then False else inst f (cl_machine W))"
  by (auto simp: remove_task_form_def on_machine_def JournalAction_frame RemoveScheduledTask_def
      dest!: probe_audit_machine task_remove [of _ _ _ f] split: prod.splits sum.splits if_splits)

lemma uninstall_service_effect:
  "RunServiceUninstallCommand P F W = (rc, W') \<Longrightarrow>
     inst f (cl_machine W') = (if rc = 0 \<and> f = ServiceForm then False else inst f (cl_machine W))"
  by (auto simp: RunServiceUninstallCommand_def on_machine_def JournalAction_frame UninstallService_def
      dest!: probe_audit_machine service_delete [of _ _ _ f] split: prod.splits sum.splits if_splits)

lemma install_service_effect:
  assumes "RunServiceInstallCommand P F exe W = (rc, W')"
  shows "inst f (cl_machine W') = (if rc = 0 \<and> f = ServiceForm then True else inst f (cl_machine W))"
proof -
  obtain b W1 where p: "probe_audit P W = (b, W1)" by fastforce
  define W2 where "W2 = JournalAction P ''agent.form_install'' ''service'' True Before
      ''intent: install SCM service (needs admin)'' (tick W1)"
  have m: "cl_machine W2 = cl_machine W" using probe_audit_machine [OF p] by (simp add: W2_def JournalAction_frame)
  obtain r m2 where i: "InstallService (fw_scm F) (kServiceIdentity exe) (cl_machine W2) = (r, m2)" by fastforce
  have ident: "si_name (kServiceIdentity exe) = wide kServiceName" "si_displayName (kServiceIdentity exe) \<noteq> []"
    by (simp_all add: kServiceIdentity_def wide_def)
  then have "scm_Create (fw_scm F) (kServiceIdentity exe) (cl_machine W2) = (r, m2)"
    using i names(3) by (simp add: InstallService_def)
  note e = service_create [OF ident(1) this, of f]
  note run = assms [unfolded RunServiceInstallCommand_def p prod.case W2_def [symmetric] Let_def on_machine_def i]
  show ?thesis
  proof (cases "b \<and> \<not> service_cooldown_blocks P W1")
    case False
    then show ?thesis using run probe_audit_machine [OF p] by (auto split: if_splits)
  next
    case True
    then show ?thesis using run e m by (cases r) (auto split: prod.splits sum.splits)
  qed
qed

lemma action_effect:
  "RunAgentFormAction P F target install W = (rc, W') \<Longrightarrow>
     inst f (cl_machine W') = (if rc = 0 \<and> f = target then install else inst f (cl_machine W))"
  using install_service_effect uninstall_service_effect install_startup_effect remove_startup_effect
    install_task_effect remove_task_effect
  by (cases target; cases install)
    (simp_all add: RunAgentFormAction_def RunStartupCommand_def RunScheduledTaskCommand_def)

text \<open>The same commands seen from the service process.\<close>

lemma startup_drift:
  "install_startup P F W = (rc, W') \<Longrightarrow> drift leaving running (cl_machine W) (cl_machine W')"
  "remove_startup P F W = (rc, W') \<Longrightarrow> drift leaving running (cl_machine W) (cl_machine W')"
  using startup_remove
  by (auto simp: install_startup_def Let_def on_machine_def JournalAction_frame HostAutostartCommandLine_def drift_refl
      dest!: probe_audit_machine startup_write [rotated] split: prod.splits sum.splits option.splits if_splits)
    (fastforce simp: remove_startup_def RemoveStartupEntry_def on_machine_def JournalAction_frame drift_def
      split: prod.splits sum.splits if_splits)+

lemma task_drift:
  "install_task P F kScheduledTaskName W = (rc, W') \<Longrightarrow> drift leaving running (cl_machine W) (cl_machine W')"
  "remove_task_form P F kScheduledTaskName W = (rc, W') \<Longrightarrow> drift leaving running (cl_machine W) (cl_machine W')"
  by (auto simp: install_task_def remove_task_form_def Let_def on_machine_def JournalAction_frame HostAutostartCommandLine_def
      InstallScheduledTask_def RemoveScheduledTask_def drift_def
      dest!: probe_audit_machine task_create [rotated] task_remove split: prod.splits sum.splits option.splits if_splits)

lemma uninstall_service_drift:
  "RunServiceUninstallCommand P F W = (rc, W') \<Longrightarrow> drift leaving running (cl_machine W) (cl_machine W')"
  by (auto simp: RunServiceUninstallCommand_def on_machine_def JournalAction_frame UninstallService_def drift_def
      dest!: probe_audit_machine service_delete split: prod.splits sum.splits if_splits)

lemma install_service_drift:
  assumes "RunServiceInstallCommand P F exe W = (rc, W')"
  shows "drift leaving running (cl_machine W) (cl_machine W')"
proof -
  obtain b W1 where p: "probe_audit P W = (b, W1)" by fastforce
  have ident: "si_name (kServiceIdentity exe) = wide kServiceName" "si_displayName (kServiceIdentity exe) \<noteq> []"
    by (simp_all add: kServiceIdentity_def wide_def)
  obtain r m where i: "InstallService (fw_scm F) (kServiceIdentity exe) (cl_machine W) = (r, m)" by fastforce
  then have "drift leaving running (cl_machine W) m"
    using service_create [OF ident(1)] ident names(3) by (simp add: InstallService_def)
  moreover have "cl_machine W' = cl_machine W \<or> leaving (cl_machine W') = leaving m \<and> running (cl_machine W') = running m"
    using assms probe_audit_machine [OF p] i
    by (auto simp: RunServiceInstallCommand_def p Let_def on_machine_def JournalAction_frame split: prod.splits sum.splits if_splits)
  ultimately show ?thesis by (auto simp: drift_def)
qed

lemma action_drift:
  "RunAgentFormAction P F target install W = (rc, W') \<Longrightarrow> drift leaving running (cl_machine W) (cl_machine W')"
  using startup_drift task_drift uninstall_service_drift install_service_drift
  by (cases target; cases install)
    (simp_all add: RunAgentFormAction_def RunStartupCommand_def RunScheduledTaskCommand_def)

lemma query_forms_keeps: "query_forms F W = (q, W') \<Longrightarrow> inst f (cl_machine W') = inst f (cl_machine W)"
  using queries by (auto simp: query_forms_def Let_def split: prod.splits)

lemma query_forms_keeps_service:
  "query_forms F W = (q, W') \<Longrightarrow>
     leaving (cl_machine W') = leaving (cl_machine W) \<and> running (cl_machine W') = running (cl_machine W)"
  using queries_keep by (auto simp: query_forms_def Let_def split: prod.splits)

lemma run_form_actions_drift:
  "run_form_actions P F as W = (rc, W') \<Longrightarrow> drift leaving running (cl_machine W) (cl_machine W')"
proof (induction as arbitrary: W)
  case (Cons a as)
  obtain r W1 where a: "RunAgentFormAction P F (afa_form a) (afa_install a) W = (r, W1)" by fastforce
  then have "cl_machine W' = cl_machine W1 \<or> run_form_actions P F as W1 = (rc, W')" using Cons.prems by (auto split: if_splits)
  with Cons.IH action_drift [OF a] show ?case using drift_trans by fastforce
qed (auto simp: drift_refl)

lemma remove_conflicts_drift:
  "remove_conflicts P F cs W = (rc, W') \<Longrightarrow> drift leaving running (cl_machine W) (cl_machine W')"
proof (induction cs arbitrary: W)
  case (Cons c cs)
  obtain r W1 where a: "RunAgentFormAction P F c False W = (r, W1)" by fastforce
  then have "cl_machine W' = cl_machine W1 \<or> remove_conflicts P F cs W1 = (rc, W')" using Cons.prems by (auto split: if_splits)
  with Cons.IH action_drift [OF a] show ?case using drift_trans by fastforce
qed (auto simp: drift_refl)

text \<open>A run of actions carries out a prefix of them, all of them exactly when it returns 0.\<close>

lemma run_form_actions_effect:
  "run_form_actions P F as W = (rc, W') \<Longrightarrow>
     \<exists>n \<le> length as. (rc = 0 \<longrightarrow> n = length as) \<and>
       (\<lambda>f. inst f (cl_machine W')) = foldl do_action (\<lambda>f. inst f (cl_machine W)) (take n as)"
proof (induction as arbitrary: W)
  case Nil
  then show ?case by auto
next
  case (Cons a as)
  obtain r W1 where a: "RunAgentFormAction P F (afa_form a) (afa_install a) W = (r, W1)" by fastforce
  note e = action_effect [OF a]
  show ?case
  proof (cases "r = 0")
    case False
    then have "rc \<noteq> 0" "cl_machine W' = cl_machine W1" using Cons.prems a by auto
    then show ?thesis using e False by (intro exI [of _ 0]) auto
  next
    case True
    then have "run_form_actions P F as W1 = (rc, W')" using Cons.prems a by simp
    from Cons.IH [OF this] obtain n where "n \<le> length as" "rc = 0 \<longrightarrow> n = length as"
      "(\<lambda>f. inst f (cl_machine W')) = foldl do_action (\<lambda>f. inst f (cl_machine W1)) (take n as)" by blast
    moreover have "(\<lambda>f. inst f (cl_machine W1)) = do_action (\<lambda>f. inst f (cl_machine W)) a"
      using e True by (auto simp: do_action_def)
    ultimately show ?thesis by (intro exI [of _ "Suc n"]) simp
  qed
qed

lemma remove_conflicts_effect:
  "remove_conflicts P F cs W = (rc, W') \<Longrightarrow>
     (\<forall>f. inst f (cl_machine W') \<longrightarrow> inst f (cl_machine W)) \<and>
     (\<forall>f. f \<notin> set cs \<longrightarrow> inst f (cl_machine W') = inst f (cl_machine W)) \<and>
     (rc = 0 \<longrightarrow> (\<forall>f \<in> set cs. \<not> inst f (cl_machine W')))"
proof (induction cs arbitrary: W)
  case (Cons c cs)
  obtain r W1 where a: "RunAgentFormAction P F c False W = (r, W1)" by fastforce
  note e = action_effect [OF a]
  show ?case
  proof (cases "r = 0")
    case False
    then have "rc \<noteq> 0" "cl_machine W' = cl_machine W1" using Cons.prems a by auto
    then show ?thesis using e False by simp
  next
    case True
    then have "remove_conflicts P F cs W1 = (rc, W')" using Cons.prems a by simp
    from Cons.IH [OF this] show ?thesis using e True by (auto split: if_splits)
  qed
qed simp

end

text \<open>In addition every query succeeds.\<close>

locale readable_forms = form_registry F inst leaving running
    for F :: "'s form_world" and inst :: "AgentForm \<Rightarrow> 's \<Rightarrow> bool" and leaving running :: "'s \<Rightarrow> bool" +
  assumes startup_readable: "\<exists>v s'. se_Read (fw_startup F) s = (Success v, s')"
    and task_readable: "\<exists>st s'. tb_Read (fw_task F) kScheduledTaskName s = (Success st, s')"
    and service_readable: "\<exists>st s'. scm_Query (fw_scm F) (wide kServiceName) s = (Success st, s')"
begin

lemma query_forms_honest:
  assumes "query_forms F W = (q, W')" and "\<not> leaving (cl_machine W)"
  shows "q = (inst StartupTray (cl_machine W), inst ScheduledTask (cl_machine W), inst ServiceForm (cl_machine W))"
proof -
  obtain v W1 where 1: "on_machine (QueryStartupEntry (fw_startup F)) W = (Success v, W1)"
    using startup_readable [of "cl_machine W"] by (auto simp: on_machine_def QueryStartupEntry_def)
  obtain st W2 where 2: "on_machine (QueryScheduledTask (fw_task F) kScheduledTaskName) W1 = (Success st, W2)"
    using task_readable [of "cl_machine W1"] by (auto simp: on_machine_def QueryScheduledTask_def)
  obtain sv W3 where 3: "on_machine (QueryService (fw_scm F) (wide kServiceName)) W2 = (Success sv, W3)"
    using service_readable [of "cl_machine W2"] by (auto simp: on_machine_def QueryService_def)
  have "\<not> leaving (cl_machine W2)" using assms(2) queries_keep(1) [OF 1] queries_keep(2) [OF 2] by simp
  then show ?thesis using assms(1) 1 2 3 queries(1) [OF 1] queries(2) [OF 2] queries(3) [OF 3]
    by (auto simp: query_forms_def)
qed

end

section \<open>The backends of Windows keep the promise\<close>

definition machine_forms :: "AgentForm \<Rightarrow> reg_machine \<Rightarrow> bool" where
  "machine_forms f s =
     (case f of StartupTray \<Rightarrow> rm_run s \<noteq> None \<and> rm_run s \<noteq> Some []
      | ScheduledTask \<Rightarrow> rm_tasks s kScheduledTaskName \<noteq> None
      | ServiceForm \<Rightarrow> rm_services s (wide kServiceName) \<noteq> None \<and> \<not> rm_marked s (wide kServiceName))"

definition machine_leaving :: "reg_machine \<Rightarrow> bool" where
  "machine_leaving s \<longleftrightarrow> rm_services s (wide kServiceName) \<noteq> None \<and> rm_marked s (wide kServiceName)"

definition machine_running :: "reg_machine \<Rightarrow> bool" where
  "machine_running s \<longleftrightarrow> rm_running s (wide kServiceName)"

definition machine_world :: "reg_machine form_world" where
  "machine_world = \<lparr>fw_startup = machine_startup, fw_task = machine_scheduler, fw_scm = machine_scm,
     fw_module = Some (''C:'' @ [CHR 0x5C] @ ''CppOptimizer.exe'')\<rparr>"

lemma machine_world_simps [simp]:
  "fw_startup machine_world = machine_startup" "fw_task machine_world = machine_scheduler" "fw_scm machine_world = machine_scm"
  by (simp_all add: machine_world_def)

lemmas machine_view = machine_forms_def machine_leaving_def machine_running_def drift_def

interpretation machine: readable_forms machine_world machine_forms machine_leaving machine_running
proof (unfold_locales, goal_cases)
  case (1 s entry s' f)
  then show ?case by (auto simp: machine_startup_calls machine_view split: option.splits AgentForm.splits)
next
  case (2 v s r s' f)
  then show ?case by (cases f) (auto simp: machine_startup_calls machine_view)
next
  case (3 s r s' f)
  then show ?case by (cases f) (auto simp: machine_startup_calls machine_view)
next
  case (4 s tstatus s' f)
  then show ?case using machine_scheduler_calls(3) [of kScheduledTaskName s] by (cases f) (auto simp: machine_view)
next
  case (5 spec s r s' f)
  then show ?case using machine_scheduler_calls(1) [of spec s] by (cases f) (auto simp: machine_view split: if_splits)
next
  case (6 s r s' f)
  then show ?case using machine_scheduler_calls(2) [of kScheduledTaskName s] by (cases f) (auto simp: machine_view split: if_splits)
next
  case (7 s sstatus s' f)
  then show ?case using machine_scm_calls(3) [of "wide kServiceName" s] by (cases f) (auto simp: machine_view)
next
  case (8 ident s r s' f)
  then show ?case using machine_scm_calls(1) [of ident s] by (cases f) (auto simp: machine_view split: if_splits)
next
  case (9 s r s' f)
  then show ?case using machine_scm_calls(2) [of "wide kServiceName" s] by (cases f) (auto simp: machine_view split: if_splits)
next
  case (10 s)
  then show ?case by (auto simp: machine_startup_calls)
next
  case (11 s)
  then show ?case using machine_scheduler_calls(3) [of kScheduledTaskName s] by auto
next
  case (12 s)
  then show ?case using machine_scm_calls(3) [of "wide kServiceName" s] by auto
qed

section \<open>Correctness of the form commands\<close>

lemma plan_result: "foldl do_action f (plan declared f) = (\<lambda>x. x = declared)"
  using removals_result [of f declared f] removals_result [of "f(declared := True)" declared f]
  by (auto simp: plan_eq do_action_def)

lemma plan_nothing: "plan declared f = [] \<Longrightarrow> f = (\<lambda>x. x = declared)"
  using plan_result [of f declared] by simp

lemma conflicts_iff:
  "f \<in> set (ConflictingAgentForms form (g StartupTray) (g ScheduledTask) (g ServiceForm)) \<longleftrightarrow> f \<noteq> form \<and> g f"
  by (cases f; cases form) (auto simp: ConflictingAgentForms_def)

context readable_forms
begin

lemma apply_effect:
  assumes "RunAgentFormApply P F T parse args W = (rc, W')" "parse_apply_args args (None, False) = Inr (cp, dry)"
    and "declared_text T parse cp = Success t" "ParseAgentForm (wide t) = Some d" and calm: "\<not> leaving (cl_machine W)"
  shows "(dry \<longrightarrow> rc = 0 \<and> (\<forall>f. inst f (cl_machine W') = inst f (cl_machine W)) \<and> \<not> leaving (cl_machine W')) \<and>
         (\<not> dry \<longrightarrow> (rc = 0 \<longrightarrow> (\<lambda>f. inst f (cl_machine W')) = (\<lambda>f. f = d)) \<and>
                    (leaving (cl_machine W') \<longrightarrow> running (cl_machine W)) \<and>
                    ((\<exists>f. inst f (cl_machine W)) \<longrightarrow> (\<exists>f. inst f (cl_machine W'))))"
proof -
  let ?g = "\<lambda>f. inst f (cl_machine W)"
  obtain q W1 where q: "query_forms F W = (q, W1)" by fastforce
  have W1: "inst f (cl_machine W1) = inst f (cl_machine W)" for f using query_forms_keeps [OF q] .
  define W2 where "W2 = WriteLine (''  declared : '' @ AgentFormToString d @ '' (from '' @
                      (case cp of Some p \<Rightarrow> p | None \<Rightarrow> ''built-in default'') @ '')'') W1"
  define W3 where "W3 = fold WriteLine (map (apply_line dry) (plan d ?g)) W2"
  have m: "inst f (cl_machine W2) = inst f (cl_machine W)" "inst f (cl_machine W3) = inst f (cl_machine W)" for f
    by (simp_all add: W2_def W3_def W1)
  have l: "\<not> leaving (cl_machine W2)" "\<not> leaving (cl_machine W3)" "running (cl_machine W3) = running (cl_machine W)"
    using query_forms_keeps_service [OF q] calm by (simp_all add: W2_def W3_def)
  have "RunAgentFormApply P F T parse args W = (if plan d ?g = [] then (0, WriteLine ''  result   : already converged (nothing to do)'' W2)
      else if dry then (0, WriteLine ''  note     : dry-run only; no system change was made'' W3)
      else run_form_actions P F (plan d ?g) W3)"
    using assms(2-4) q query_forms_honest [OF q calm] by (auto simp: RunAgentFormApply_def plan_def W2_def W3_def Let_def)
  note run = this [symmetric, unfolded assms(1), symmetric]
  show ?thesis
  proof (cases "plan d ?g = [] \<or> dry")
    case True
    then have "rc = 0" "\<forall>f. inst f (cl_machine W') = ?g f" "\<not> leaving (cl_machine W')" using run m l by (auto split: if_splits)
    moreover have "?g = (\<lambda>f. f = d)" if "\<not> dry" using plan_nothing True that by blast
    ultimately show ?thesis by auto
  next
    case False
    then have "run_form_actions P F (plan d ?g) W3 = (rc, W')" using run by simp
    note d = run_form_actions_drift [OF this] and run_form_actions_effect [OF this]
    then obtain n where n: "n \<le> length (plan d ?g)" "rc = 0 \<longrightarrow> n = length (plan d ?g)"
      and e: "(\<lambda>f. inst f (cl_machine W')) = foldl do_action ?g (take n (plan d ?g))" by (auto simp: m)
    have "(\<exists>f. ?g f) \<longrightarrow> (\<exists>f. inst f (cl_machine W'))" using prefix_keeps_one [of n ?g d] e by metis
    moreover have "rc = 0 \<longrightarrow> (\<lambda>f. inst f (cl_machine W')) = (\<lambda>f. f = d)" using n(2) e plan_result [of ?g d] by auto
    moreover have "leaving (cl_machine W') \<longrightarrow> running (cl_machine W)" using d l by (auto simp: drift_def)
    ultimately show ?thesis using False by blast
  qed
qed

lemma install_effect:
  assumes "install_form P F form replace W = (rc, W')" and calm: "\<not> leaving (cl_machine W)"
  shows "(rc = 0 \<longrightarrow> (\<forall>f. inst f (cl_machine W') = (f = form))) \<and>
         (leaving (cl_machine W') \<longrightarrow> running (cl_machine W)) \<and>
         (\<not> replace \<and> (\<exists>f. f \<noteq> form \<and> inst f (cl_machine W)) \<longrightarrow>
            rc = 2 \<and> (\<forall>f. inst f (cl_machine W') = inst f (cl_machine W))) \<and>
         ((\<exists>f. inst f (cl_machine W)) \<longrightarrow> (\<exists>f. inst f (cl_machine W')))"
proof -
  let ?g = "\<lambda>f. inst f (cl_machine W)"
  let ?cs = "ConflictingAgentForms form (?g StartupTray) (?g ScheduledTask) (?g ServiceForm)"
  obtain q W1 where q: "query_forms F W = (q, W1)" by fastforce
  have W1: "inst f (cl_machine W1) = ?g f" for f using query_forms_keeps [OF q] .
  have cs: "f \<in> set ?cs \<longleftrightarrow> f \<noteq> form \<and> ?g f" for f using conflicts_iff [of f form ?g] .
  obtain r W2 where a: "RunAgentFormAction P F form True W1 = (r, W2)" by fastforce
  have W2: "inst f (cl_machine W2) = (if r = 0 \<and> f = form then True else ?g f)" for f
    using action_effect [OF a, of f] W1 by simp
  have l: "drift leaving running (cl_machine W) (cl_machine W1)" using query_forms_keeps_service [OF q] by (simp add: drift_def)
  note l2 = drift_trans [OF l action_drift [OF a]]
  have run: "(rc, W') = (if ?cs \<noteq> [] \<and> \<not> replace then (2, snd (install_form P F form replace W))
      else if r \<noteq> 0 then (r, W2) else remove_conflicts P F ?cs W2)"
    and kept: "?cs \<noteq> [] \<and> \<not> replace \<Longrightarrow> cl_machine (snd (install_form P F form replace W)) = cl_machine W1"
    using assms(1) q query_forms_honest [OF q calm] a by (auto simp: install_form_def)
  consider (refused) "?cs \<noteq> []" "\<not> replace" | (failed) "?cs = [] \<or> replace" "r \<noteq> 0" | (switched) "?cs = [] \<or> replace" "r = 0"
    by blast
  then show ?thesis
  proof cases
    case refused
    then have "rc = 2" "cl_machine W' = cl_machine W1" using run kept by auto
    then show ?thesis using W1 l calm by (auto simp: drift_def)
  next
    case failed
    then have "\<not> replace \<Longrightarrow> \<not> (\<exists>f. f \<noteq> form \<and> ?g f)" using cs by fastforce
    moreover have "rc \<noteq> 0" "\<forall>f. inst f (cl_machine W') = ?g f" "cl_machine W' = cl_machine W2"
      using failed run W2 by (auto split: if_splits)
    ultimately show ?thesis using l2 calm by (auto simp: drift_def)
  next
    case switched
    then have "remove_conflicts P F ?cs W2 = (rc, W')" using run by auto
    note e = remove_conflicts_effect [OF this] and d = drift_trans [OF l2 remove_conflicts_drift [OF this]]
    have "form \<notin> set ?cs" using cs by blast
    then have on: "inst form (cl_machine W')" using e W2 [of form] switched(2) by auto
    have "inst f (cl_machine W') = (f = form)" if "rc = 0" for f
      using e cs [of f] W2 [of f] on that by (cases "f = form") auto
    moreover have "\<not> replace \<Longrightarrow> \<not> (\<exists>f. f \<noteq> form \<and> ?g f)" using cs switched(1) by fastforce
    moreover have "leaving (cl_machine W') \<longrightarrow> running (cl_machine W)" using d calm by (auto simp: drift_def)
    ultimately show ?thesis using on by blast
  qed
qed

end

text \<open>
  C17: when the registrations can be read and no service is still waiting to be removed, a successful
  declarative apply leaves exactly the declared form registered, up to a service whose process was running: the
  service manager only marks that one for deletion, and it stays listed until it stops.  An apply that
  stops half-way never leaves an agent that had a form without any, and a dry run succeeds and changes no
  registration.\<close>
theorem agent_form_apply_converges:
  assumes "readable_forms F inst leaving running"
    and "RunAgentFormApply P F T parse args W = (rc, W')"
    and "parse_apply_args args (None, False) = Inr (cp, dry)"
    and "declared_text T parse cp = Success t" and "ParseAgentForm (wide t) = Some d"
    and "\<not> leaving (cl_machine W)"
  shows "(dry \<longrightarrow> rc = 0 \<and> (\<forall>f. inst f (cl_machine W') = inst f (cl_machine W)) \<and> \<not> leaving (cl_machine W')) \<and>
         (\<not> dry \<longrightarrow> (rc = 0 \<longrightarrow> (\<lambda>f. inst f (cl_machine W')) = (\<lambda>f. f = d)) \<and>
                    (leaving (cl_machine W') \<longrightarrow> running (cl_machine W)) \<and>
                    ((\<exists>f. inst f (cl_machine W)) \<longrightarrow> (\<exists>f. inst f (cl_machine W'))))"
  using readable_forms.apply_effect [OF assms] .

text \<open>
  C18: when the registrations can be read and no service is still waiting to be removed, installing a form
  succeeds only with that form as the one registered to stay (a replaced service whose process was running is
  marked for deletion and stays listed until it stops); without \<^verbatim>\<open>--replace\<close> the installation is refused, and changes
  nothing, as long as another form is registered; and a switch that fails half-way never leaves the agent
  without a form.\<close>
theorem agent_form_install_exclusive:
  assumes "readable_forms F inst leaving running"
    and "RunAgentFormCommand P F T parse (''install'' # name # extras) W = (rc, W')"
    and "parse_replace extras False = Inr replace" and "ParseAgentForm (wide name) = Some form"
    and "\<not> leaving (cl_machine W)"
  shows "(rc = 0 \<longrightarrow> (\<forall>f. inst f (cl_machine W') = (f = form))) \<and>
         (leaving (cl_machine W') \<longrightarrow> running (cl_machine W)) \<and>
         (\<not> replace \<and> (\<exists>f. f \<noteq> form \<and> inst f (cl_machine W)) \<longrightarrow>
            rc = 2 \<and> (\<forall>f. inst f (cl_machine W') = inst f (cl_machine W))) \<and>
         ((\<exists>f. inst f (cl_machine W)) \<longrightarrow> (\<exists>f. inst f (cl_machine W')))"
  using assms(2-5) by (intro readable_forms.install_effect [OF assms(1)]) (simp_all add: RunAgentFormCommand_def)

section \<open>Runs on the machine\<close>

lemma machine_path: "\<exists>p. ResolveExecutablePath machine_world = Some p"
  by (simp add: ResolveExecutablePath_def machine_world_def MAX_PATH_def)

lemma machine_removes_startup: "\<exists>W'. remove_startup P machine_world W = (0, W')"
  by (simp add: remove_startup_def RemoveStartupEntry_def on_machine_def machine_startup_calls)

lemma machine_installs_startup:
  assumes "calm P" and "calm_disk (cl_disk W)" and "fw_startup F = machine_startup" and "fw_module F = fw_module machine_world"
  shows "\<exists>W'. install_startup P F W = (0, W')"
proof -
  obtain W1 where "probe_audit P W = (True, W1)" using calm_probe_audit [OF assms(1,2)] by blast
  moreover obtain p where "ResolveExecutablePath F = Some p" using machine_path assms(4) by (auto simp: ResolveExecutablePath_def)
  ultimately show ?thesis using assms(3) by (simp add: install_startup_def on_machine_def machine_startup_calls Let_def)
qed

lemma machine_removes_task:
  assumes "calm P" and "calm_disk (cl_disk W)" and "rm_admin (cl_machine W)"
  shows "\<exists>W'. remove_task_form P machine_world kScheduledTaskName W = (0, W')"
proof -
  obtain W1 where w: "probe_audit P W = (True, W1)" "cl_machine W1 = cl_machine W" using calm_probe_audit [OF assms(1,2)] by blast
  obtain m where "RemoveScheduledTask machine_scheduler kScheduledTaskName (cl_machine W) = (Success (), m)"
    using machine_scheduler_calls(2) [of kScheduledTaskName "cl_machine W"] assms(3) by (auto simp: RemoveScheduledTask_def)
  with w show ?thesis by (simp add: remove_task_form_def on_machine_def JournalAction_frame)
qed

lemma machine_installs_task:
  assumes "calm P" and "calm_disk (cl_disk W)" and "rm_admin (cl_machine W)"
  shows "\<exists>W'. install_task P machine_world kScheduledTaskName W = (0, W')"
proof -
  obtain W1 where w: "probe_audit P W = (True, W1)" "cl_machine W1 = cl_machine W" using calm_probe_audit [OF assms(1,2)] by blast
  obtain p where p: "ResolveExecutablePath machine_world = Some p" using machine_path by blast
  obtain m where "InstallScheduledTask machine_scheduler
      \<lparr>st_taskName = kScheduledTaskName, st_commandLine = HostAutostartCommandLine p, st_trigger = OnLogon\<rparr> (cl_machine W) = (Success (), m)"
    using machine_scheduler_calls(1) [of "\<lparr>st_taskName = kScheduledTaskName, st_commandLine = HostAutostartCommandLine p, st_trigger = OnLogon\<rparr>"
        "cl_machine W"] assms(3) by (auto simp: InstallScheduledTask_def HostAutostartCommandLine_def)
  with w p show ?thesis by (simp add: install_task_def on_machine_def JournalAction_frame Let_def)
qed

text \<open>A machine on which the start entry and, when asked for, the task are registered.\<close>

definition form_cli :: "bool \<Rightarrow> reg_machine cli" where
  "form_cli task =
     \<lparr>cl_disk = empty_disk, cl_lines = [], cl_ticks = 0, cl_machine =
       \<lparr>rm_run = Some ''x'', rm_tasks = (\<lambda>n. if task then Some (task_for \<lparr>st_taskName = n, st_commandLine = ''x'', st_trigger = OnLogon\<rparr> []) else None),
        rm_services = (\<lambda>_. None), rm_admin = True, rm_com = 0, rm_error = 0, rm_opened = [],
        rm_running = (\<lambda>_. False), rm_marked = (\<lambda>_. False)\<rparr>\<rparr>"

lemma form_cli_facts:
  "calm_disk (cl_disk (form_cli task))" "rm_admin (cl_machine (form_cli task))"
  "machine_forms f (cl_machine (form_cli task)) = (f = StartupTray \<or> f = ScheduledTask \<and> task)"
  "\<not> machine_leaving (cl_machine (form_cli task))" "\<not> machine_running (cl_machine (form_cli task))"
  by (simp_all add: form_cli_def empty_disk_def calm_disk_def machine_view split: AgentForm.splits)

lemma form_names: "ParseAgentForm (wide ''startup_tray'') = Some StartupTray" "ParseAgentForm (wide ''task'') = Some ScheduledTask"
  by code_simp+

lemma machine_query_keeps:
  assumes "query_forms machine_world W = (q, W')"
  shows "cl_disk W' = cl_disk W \<and> rm_admin (cl_machine W') = rm_admin (cl_machine W)"
proof -
  define s where "s = cl_machine W"
  obtain k st where 2: "tb_Read machine_scheduler kScheduledTaskName s = (Success st, s\<lparr>rm_com := k\<rparr>)"
    using machine_scheduler_calls(3) by blast
  obtain sv n m where 3: "scm_Query machine_scm (wide kServiceName) (s\<lparr>rm_com := k\<rparr>) = (Success sv, s\<lparr>rm_com := k, rm_error := n, rm_opened := m\<rparr>)"
    using machine_scm_calls(3) by blast
  show ?thesis using assms 2 3
    by (auto simp: query_forms_def on_machine_def QueryStartupEntry_def QueryScheduledTask_def QueryService_def
        machine_startup_calls s_def)
qed

theorem agent_form_apply_converges_witness:
  "\<exists>W'. RunAgentFormApply calm_cli machine_world table_api (\<lambda>_. Inl []) [] (form_cli True) = (0, W') \<and>
     (\<lambda>f. machine_forms f (cl_machine W')) = (\<lambda>f. f = StartupTray) \<and> \<not> machine_leaving (cl_machine W')"
proof -
  obtain q W1 where q: "query_forms machine_world (form_cli True) = (q, W1)" by fastforce
  have "q = (True, True, False)" using machine.query_forms_honest [OF q form_cli_facts(4)] by (simp add: form_cli_facts)
  moreover have "calm_disk (cl_disk W1)" "rm_admin (cl_machine W1)" using machine_query_keeps [OF q] by (simp_all add: form_cli_facts)
  then have "fst (remove_task_form calm_cli machine_world kScheduledTaskName (WriteLine x (WriteLine y W1))) = 0" for x y
    using machine_removes_task [OF calm_calm_cli, of "WriteLine x (WriteLine y W1)"] by auto
  moreover have d: "declared_text table_api (\<lambda>_. Inl []) None = Success ''startup_tray''" "ParseAgentForm (wide ''startup_tray'') = Some StartupTray"
    by (simp_all add: declared_text_def form_names)
  ultimately have "\<exists>W'. RunAgentFormApply calm_cli machine_world table_api (\<lambda>_. Inl []) [] (form_cli True) = (0, W')"
    using q by (simp add: RunAgentFormApply_def ResolveFormApplyActions_def ConflictingAgentForms_def RunAgentFormAction_def
        RunScheduledTaskCommand_def Let_def split_beta)
  then obtain W' where w: "RunAgentFormApply calm_cli machine_world table_api (\<lambda>_. Inl []) [] (form_cli True) = (0, W')" ..
  then show ?thesis using agent_form_apply_converges [OF machine.readable_forms_axioms w _ d form_cli_facts(4), of False]
    by (simp add: form_cli_facts)
qed

theorem agent_form_install_exclusive_witness:
  "\<exists>W'. RunAgentFormCommand calm_cli machine_world table_api (\<lambda>_. Inl []) [''install'', ''task'', ''--replace''] (form_cli False) = (0, W') \<and>
     (\<forall>f. machine_forms f (cl_machine W') = (f = ScheduledTask)) \<and> \<not> machine_leaving (cl_machine W') \<and>
     fst (RunAgentFormCommand calm_cli machine_world table_api (\<lambda>_. Inl []) [''install'', ''task''] (form_cli False)) = 2"
proof -
  obtain q W1 where q: "query_forms machine_world (form_cli False) = (q, W1)" by fastforce
  have qv: "q = (True, False, False)" using machine.query_forms_honest [OF q form_cli_facts(4)] by (simp add: form_cli_facts)
  have "calm_disk (cl_disk W1)" "rm_admin (cl_machine W1)" using machine_query_keeps [OF q] by (simp_all add: form_cli_facts)
  then obtain W2 where i: "install_task calm_cli machine_world kScheduledTaskName W1 = (0, W2)"
    using machine_installs_task [OF calm_calm_cli] by blast
  obtain W3 where "remove_startup calm_cli machine_world W2 = (0, W3)" using machine_removes_startup by blast
  moreover have p: "ParseAgentForm (wide ''task'') = Some ScheduledTask" by (rule form_names)
  ultimately have w: "RunAgentFormCommand calm_cli machine_world table_api (\<lambda>_. Inl []) [''install'', ''task'', ''--replace''] (form_cli False) = (0, W3)"
    using q qv i by (simp add: RunAgentFormCommand_def install_form_def ConflictingAgentForms_def RunAgentFormAction_def
        RunScheduledTaskCommand_def RunStartupCommand_def)
  obtain rc W' where w2: "RunAgentFormCommand calm_cli machine_world table_api (\<lambda>_. Inl []) [''install'', ''task''] (form_cli False) = (rc, W')"
    by fastforce
  have "rc = 2" using agent_form_install_exclusive [OF machine.readable_forms_axioms w2 _ p form_cli_facts(4)] form_cli_facts(3) [of StartupTray False]
    by (auto intro: exI [of _ StartupTray])
  then show ?thesis using agent_form_install_exclusive [OF machine.readable_forms_axioms w _ p form_cli_facts(4)] w w2
    by (simp add: form_cli_facts)
qed

text \<open>
  A form whose query fails is taken for absent, so it raises no conflict: with a task that cannot be read,
  installing the start entry succeeds without \<^verbatim>\<open>--replace\<close> and both forms are registered.
\<close>

lemma unreadable_form_overlooked:
  assumes "F = machine_world\<lparr>fw_task := machine_scheduler\<lparr>tb_Read := \<lambda>_ s. (Failure e, s)\<rparr>\<rparr>"
    and "calm P" and "calm_disk (cl_disk W)" and "machine_forms ScheduledTask (cl_machine W)"
    and "\<not> machine_forms ServiceForm (cl_machine W)" and "\<not> machine_leaving (cl_machine W)"
  shows "\<exists>W'. RunAgentFormCommand P F T parse [''install'', ''startup_tray''] W = (0, W') \<and>
     machine_forms StartupTray (cl_machine W') \<and> machine_forms ScheduledTask (cl_machine W')"
proof -
  have F: "fw_startup F = machine_startup" "fw_module F = fw_module machine_world" "fw_scm F = machine_scm"
    "tb_Read (fw_task F) x y = (Failure e, y)" for x y
    using assms(1) by simp_all
  have reg: "form_registry F machine_forms machine_leaving machine_running"
    using machine.form_registry_axioms assms(1) unfolding form_registry_def by simp
  obtain q W1 where q: "query_forms F W = (q, W1)" by fastforce
  have "snd q = (False, False)" "cl_disk W1 = cl_disk W"
    using q F assms(5,6) machine_scm_calls(3) [of "wide kServiceName" "cl_machine W"]
    by (auto simp: query_forms_def on_machine_def QueryStartupEntry_def QueryScheduledTask_def QueryService_def
        machine_startup_calls machine_view)
  moreover from this obtain W2 where i: "install_startup P F W1 = (0, W2)"
    using machine_installs_startup [OF assms(2) _ F(1,2)] assms(3) by metis
  ultimately have "RunAgentFormCommand P F T parse [''install'', ''startup_tray''] W = (0, W2)"
    using q by (cases q) (simp add: RunAgentFormCommand_def install_form_def ConflictingAgentForms_def form_names
        RunAgentFormAction_def RunStartupCommand_def)
  moreover have "machine_forms f (cl_machine W2) = (f = StartupTray \<or> machine_forms f (cl_machine W))" for f
    using form_registry.install_startup_effect [OF reg i, of f] form_registry.query_forms_keeps [OF reg q, of f] by auto
  ultimately show ?thesis using assms(4) by auto
qed

text \<open>
  A running service outlives its removal: the command returns 0, the form is no longer one that stays, but the
  service manager still lists the service, so the next query of the forms reports it as installed.
\<close>

lemma running_service_lingers:
  assumes "calm P" and "calm_disk (cl_disk W)" and "rm_admin (cl_machine W)"
    and "machine_forms ServiceForm (cl_machine W)" and "machine_running (cl_machine W)"
  shows "\<exists>W'. RunServiceUninstallCommand P machine_world W = (0, W') \<and>
     \<not> machine_forms ServiceForm (cl_machine W') \<and> machine_leaving (cl_machine W')"
proof -
  obtain W1 where w: "probe_audit P W = (True, W1)" "cl_machine W1 = cl_machine W" using calm_probe_audit [OF assms(1,2)] by blast
  obtain m where "UninstallService machine_scm (wide kServiceName) (cl_machine W) = (Success (), m)" "machine_leaving m"
    using machine_scm_calls(2) [of "wide kServiceName" "cl_machine W"] assms(3-5)
    by (auto simp: UninstallService_def machine_view wide_def kServiceName_def)
  with w have "\<exists>W'. RunServiceUninstallCommand P machine_world W = (0, W') \<and> machine_leaving (cl_machine W')"
    by (simp add: RunServiceUninstallCommand_def on_machine_def JournalAction_frame machine.audit_keeps)
  then show ?thesis by (auto simp: machine_view)
qed

text \<open>The other commands take a ledger that cannot be read for a closed gate, the service installation for an open one.\<close>

lemma service_cooldown_fails_open:
  "ReadCooldownLedger (cp_sysmsg P) (cp_io P) (DefaultCooldownLedgerPath P) (cl_disk W) = Failure e \<Longrightarrow>
     \<not> service_cooldown_blocks P W \<and> \<not> cooldown_gate P kServiceRegistrationCapabilityId W"
  by (simp add: service_cooldown_blocks_def cooldown_gate_def)

end
