(* ===== verification/Hold_Commands.thy ===== *)
theory Hold_Commands
  imports Power_Locker Process_Watcher Cli_World
begin

text \<open>
  The two commands of \<^verbatim>\<open>source/main.cpp\<close> that hold something for a bounded time: \<open>RunPowerLockCommand\<close> keeps
  power requests, \<open>RunPriorityBoostCommand\<close> a priority lease.  Both wait in a loop on the steady clock and
  give back what they took.  The clock (in milliseconds) is a function of the number of observations,
  and \<open>others\<close> is what the rest of the system does to the machine during one sleep.  A command that never
  returns has the value \<open>None\<close>.  The destructors of the locker and of the booster release again what the
  commands have already released, which has no effect.
\<close>

section \<open>What the two commands share\<close>

definition kHoldMaxSeconds :: u32 where "kHoldMaxSeconds = 60"

definition parse_hold_seconds :: "string \<Rightarrow> u32 option" where
  "parse_hold_seconds text =
     (case ParseUint32 text of None \<Rightarrow> None | Some s \<Rightarrow> if s = 0 \<or> s > kHoldMaxSeconds then None else Some s)"

definition refuse_hold :: "'s cli \<Rightarrow> int \<times> 's cli" where
  "refuse_hold W = (2, ErrorLine ''  refused: audit trail is not writable (no system call was made)'' W)"

partial_function (option) hold :: "(nat \<Rightarrow> nat) \<Rightarrow> ('s \<Rightarrow> 's) \<Rightarrow> nat \<Rightarrow> 's cli \<Rightarrow> 's cli option" where
  [code]: "hold clk others deadline W =
     (if clk (cl_ticks W) < deadline
      then hold clk others deadline (tick (W\<lparr>cl_machine := others (cl_machine W)\<rparr>))
      else Some (tick W))"

definition hold_for :: "(nat \<Rightarrow> nat) \<Rightarrow> ('s \<Rightarrow> 's) \<Rightarrow> u32 \<Rightarrow> 's cli \<Rightarrow> 's cli option" where
  "hold_for clk others seconds W =
     hold clk others (clk (cl_ticks W) + 1000 * unat seconds)
       (WriteLine (''  holding for '' @ dec_of_nat (unat seconds) @ '' s ...'') (tick W))"

section \<open>Power requests\<close>

definition lock_types :: "cli_params \<Rightarrow> string list \<Rightarrow> PowerLockType list \<times> string list" where
  "lock_types P args =
     (case args of
        [] \<Rightarrow> ([ExecutionRequired], [])
      | first # rest \<Rightarrow>
          if AsciiEqualsIgnoreCaseW first ''both'' then ([ExecutionRequired, DisplayRequired], rest)
          else (case WideToUtf8 (cp_sysmsg P) (cp_codec P) (wide first) of
                  Inl _ \<Rightarrow> ([ExecutionRequired], args)
                | Inr utf8 \<Rightarrow>
                    (case ParsePowerLockType utf8 of
                       Inl _ \<Rightarrow> ([ExecutionRequired], args)
                     | Inr t \<Rightarrow> ([t], rest))))"

fun join_blank :: "string list \<Rightarrow> string" where
  "join_blank [] = []"
| "join_blank [a] = a"
| "join_blank (a # as) = a @ '' '' @ join_blank as"

definition lock_reason :: "string list \<Rightarrow> string" where
  "lock_reason args = (if args = [] then ''CppOptimizer bounded power-lock demo (R1)'' else join_blank args)"

definition release_locks :: "'s PowerRequestBackend \<Rightarrow> PowerLocker \<Rightarrow> 's cli \<Rightarrow> 's cli" where
  "release_locks B p W = W\<lparr>cl_machine := snd (PowerLocker_ReleaseAll B p (cl_machine W))\<rparr>"

text \<open>One request after the other; the first failure releases what has been acquired.\<close>

fun acquire_locks ::
  "cli_params \<Rightarrow> 's PowerRequestBackend \<Rightarrow> PowerLockType list \<Rightarrow> string \<Rightarrow> PowerLocker \<Rightarrow> 's cli \<Rightarrow>
   PowerLocker option \<times> 's cli" where
  "acquire_locks P B [] reason p W = (Some p, W)"
| "acquire_locks P B (t # ts) reason p W =
     (let W1 = JournalAction P ''power.hold'' ''power-lock(cli)'' True Before ''intent: acquire bounded power request'' W
      in case AcquireLock B t reason p (cl_machine W1) of
           (Inl e, p1, m) \<Rightarrow>
             (None, release_locks B p1
                (AuditAction P ''power.hold'' R1 ''power-lock(cli)'' False (''acquire failed: '' @ err_operation e)
                   ''no power request held''
                   (ErrorLine (''  acquire '' @ PowerLockTypeToString t @ '' failed '' @ error_text e) (W1\<lparr>cl_machine := m\<rparr>))))
         | (Inr _, p1, m) \<Rightarrow>
             acquire_locks P B ts reason p1
               (WriteLine (''  [acquired] '' @ PowerLockTypeToString t)
                  (AuditAction P ''power.hold'' R1 ''power-lock(cli)'' True ''bounded foreground hold (cli)''
                     ''power request(s) held (bounded)'' (W1\<lparr>cl_machine := m\<rparr>))))"

definition RunPowerLockCommand ::
  "cli_params \<Rightarrow> 's PowerRequestBackend \<Rightarrow> (nat \<Rightarrow> nat) \<Rightarrow> ('s \<Rightarrow> 's) \<Rightarrow> string \<Rightarrow> string list \<Rightarrow> 's cli \<Rightarrow>
   (int \<times> 's cli) option" where
  "RunPowerLockCommand P B clk others secondsText args W =
     (case parse_hold_seconds secondsText of
        None \<Rightarrow> Some (2, ErrorLine ''  --power-lock seconds must be in 1..60'' W)
      | Some seconds \<Rightarrow>
          (let (types, args1) = lock_types P args; reason = lock_reason args1;
               (writable, W1) = probe_audit P W
           in if \<not> writable then Some (refuse_hold W1)
              else (let W2 = fold WriteLine
                          [''Power lock (R1, reversible; system state restored on exit)'',
                           ''  type(s) :'' @ concat (map (\<lambda>t. '' '' @ PowerLockTypeToString t) types),
                           ''  reason  : '' @ reason] W1
                    in case acquire_locks P B types reason (PowerLocker_new True) W2 of
                         (None, W3) \<Rightarrow> Some (2, W3)
                       | (Some p, W3) \<Rightarrow>
                           (case hold_for clk others seconds W3 of
                              None \<Rightarrow> None
                            | Some W4 \<Rightarrow>
                                (let W5 = JournalAction P ''power.release'' ''power-lock(cli)'' True Before
                                            ''intent: release bounded power requests'' W4;
                                     W6 = AuditAction P ''power.release'' R1 ''power-lock(cli)'' True
                                            ''released on bounded exit (cli)'' ''all power requests released''
                                            (release_locks B p W5)
                                 in Some (0, WriteLine ''  [released] all power requests (sleep/display restored)'' W6))))))"

section \<open>A priority lease\<close>

definition hold_level_name :: "PriorityLevel \<Rightarrow> string" where
  "hold_level_name level = (if level = PL_High then ''high'' else ''above_normal'')"

definition ascii_name :: "wstring \<Rightarrow> string" where
  "ascii_name t = map (\<lambda>u. char_of (unat u)) t"

definition boost_config ::
  "cli_params \<Rightarrow> 'n toml_api \<Rightarrow> (path \<Rightarrow> string + 'n) \<Rightarrow> path option \<Rightarrow> 's cli \<Rightarrow> PriorityConfig result" where
  "boost_config P T parse cp W =
     (case cp of
        None \<Rightarrow> Success (cs_priority default_snapshot)
      | Some mainPath \<Rightarrow>
          (case LoadConfigWithLocal T parse (cp_io P) (cl_disk W) mainPath
                  (path_append (parent_path mainPath) ''config.local.toml'') of
             Inl e \<Rightarrow> Failure e
           | Inr c \<Rightarrow> Success (cs_priority c)))"

text \<open>\<open>name\<close> is the name of the process, empty when it cannot be read.\<close>

definition run_boost ::
  "cli_params \<Rightarrow> 's PriorityBackend \<Rightarrow> (nat \<Rightarrow> nat) \<Rightarrow> ('s \<Rightarrow> 's) \<Rightarrow> u32 \<Rightarrow> u32 \<Rightarrow> PriorityConfig \<Rightarrow> string \<Rightarrow>
   's cli \<Rightarrow> (int \<times> 's cli) option" where
  "run_boost P B clk others seconds pid cfg name W =
     (let level = pr_maxLevel cfg; target = ''pid '' @ dec_of_nat (unat pid);
          W1 = fold WriteLine
                 [''Priority boost (R1, reversible; priority restored on exit)'',
                  ''  target   : '' @ target @ (if name \<noteq> [] then '' ('' @ name @ '')'' else []),
                  ''  level    : '' @ hold_level_name level,
                  ''  enabled  : '' @ (if pr_enabled cfg then ''yes''
                                       else ''no (policy automation off; manual demo still applies)'')] W;
          W2 = JournalAction P ''priority.boost'' target True Before ''intent: acquire bounded priority lease'' W1
      in case AcquireBoost B ''cli-demo'' pid 0 level (PriorityBooster_new level) (cl_machine W2) of
           (Inl e, b, m) \<Rightarrow>
             Some (2, ErrorLine (''  acquire failed '' @ error_text e)
                        (AuditAction P ''priority.boost'' R1 target False (''acquire failed: '' @ err_operation e)
                           ''priority unchanged'' (W2\<lparr>cl_machine := m\<rparr>)))
         | (Inr _, b, m) \<Rightarrow>
             (case hold_for clk others seconds
                     (WriteLine (''  [boosted] '' @ target @ '' -> '' @ hold_level_name level) (W2\<lparr>cl_machine := m\<rparr>)) of
                None \<Rightarrow> None
              | Some W3 \<Rightarrow>
                  (let W4 = JournalAction P ''priority.unboost'' target True Before
                              ''intent: release priority lease (conditional restore)'' W3;
                       W5 = AuditAction P ''priority.boost'' R1 target True ''bounded lease (cli)''
                              ''priority boosted (bounded lease)'' W4;
                       W6 = AuditAction P ''priority.unboost'' R1 target True ''bounded lease exit (cli)''
                              ''priority restored (conditional)'' W5;
                       W7 = W6\<lparr>cl_machine := snd (PriorityBooster_ReleaseAll B b (cl_machine W6))\<rparr>
                   in Some (0, WriteLine ''  [restored] priority (conditional restore; external changes never overwritten)'' W7))))"

text \<open>\<open>args\<close> are the process id and the path of the configuration.\<close>

definition RunPriorityBoostCommand ::
  "cli_params \<Rightarrow> 's PriorityBackend \<Rightarrow> process_api \<Rightarrow> nat \<Rightarrow> 'n toml_api \<Rightarrow> (path \<Rightarrow> string + 'n) \<Rightarrow>
   (nat \<Rightarrow> nat) \<Rightarrow> ('s \<Rightarrow> 's) \<Rightarrow> string \<Rightarrow> string list \<Rightarrow> 's cli \<Rightarrow> (int \<times> 's cli) option" where
  "RunPriorityBoostCommand P B A k T parse clk others secondsText args W =
     (case parse_hold_seconds secondsText of
        None \<Rightarrow> Some (2, ErrorLine ''  --priority-boost seconds must be in 1..60'' W)
      | Some seconds \<Rightarrow>
     (case (case args of [] \<Rightarrow> None | a # _ \<Rightarrow> ParseUint32 a) of
        None \<Rightarrow> Some (2, ErrorLine ''  --priority-boost requires a positive pid'' W)
      | Some pid \<Rightarrow>
          if pid = 0 then Some (2, ErrorLine ''  --priority-boost requires a positive pid'' W)
          else
     (case boost_config P T parse (case args of _ # c # _ \<Rightarrow> Some c | _ \<Rightarrow> None) W of
        Inl e \<Rightarrow> Some (2, ErrorLine (''  config load failed '' @ error_text e) W)
      | Inr cfg \<Rightarrow>
          if pr_maxLevel cfg = PL_None
          then Some (2, ErrorLine (''  [priority].max_level is '' @ [CHR 0x22] @ ''none'' @ [CHR 0x22] @ ''; nothing to boost'') W)
          else (case probe_audit P W of (writable, W1) \<Rightarrow>
                if \<not> writable then Some (refuse_hold W1)
                else run_boost P B clk others seconds pid cfg
                       (case QueryProcessDetails (cp_sysmsg P) A k pid of Inl _ \<Rightarrow> [] | Inr d \<Rightarrow> ascii_name (pd_name d)) W1))))"

section \<open>Waiting\<close>

text \<open>How often the others act: until the clock, read before each sleep, has reached the deadline.\<close>

definition sleeps :: "(nat \<Rightarrow> nat) \<Rightarrow> nat \<Rightarrow> nat \<Rightarrow> nat \<Rightarrow> bool" where
  "sleeps clk t deadline n \<longleftrightarrow> (\<forall>i < n. clk (t + i) < deadline) \<and> deadline \<le> clk (t + n)"

lemma hold_machine:
  assumes "hold clk others deadline W = Some W'"
  shows "\<exists>n. cl_machine W' = (others ^^ n) (cl_machine W) \<and> cl_disk W' = cl_disk W \<and> sleeps clk (cl_ticks W) deadline n"
proof (rule hold.raw_induct [where P = "\<lambda>clk others deadline W W'. \<exists>n. cl_machine W' = (others ^^ n) (cl_machine W) \<and>
      cl_disk W' = cl_disk W \<and> sleeps clk (cl_ticks W) deadline n", OF _ assms], goal_cases)
  case (1 hold clk others deadline W W')
  show ?case
  proof (cases "clk (cl_ticks W) < deadline")
    case True
    then have "hold clk others deadline (tick (W\<lparr>cl_machine := others (cl_machine W)\<rparr>)) = Some W'" using 1(2) by simp
    from 1(1) [OF this] obtain n where n: "cl_machine W' = (others ^^ n) (others (cl_machine W))" "cl_disk W' = cl_disk W"
      "sleeps clk (Suc (cl_ticks W)) deadline n" by (auto simp: tick_def)
    have "sleeps clk (cl_ticks W) deadline (Suc n)"
      using n(3) True by (auto simp: sleeps_def less_Suc_eq_0_disj)
    then show ?thesis using n(1,2) by (intro exI [of _ "Suc n"]) (simp add: funpow_swap1)
  next
    case False
    then show ?thesis using 1(2) by (intro exI [of _ 0]) (auto simp: sleeps_def)
  qed
qed

lemma funpow_keeps: "(\<And>s. f (others s) = f s) \<Longrightarrow> f ((others ^^ n) s) = f s"
  by (induction n) simp_all

lemma hold_for_machine:
  "hold_for clk others seconds W = Some W' \<Longrightarrow>
     \<exists>n. cl_machine W' = (others ^^ n) (cl_machine W) \<and> cl_disk W' = cl_disk W \<and>
       sleeps clk (Suc (cl_ticks W)) (clk (cl_ticks W) + 1000 * unat seconds) n"
  unfolding hold_for_def by (drule hold_machine) (simp add: tick_def WriteLine_def)

lemma hold_returns:
  assumes "\<And>n. clk n < clk (Suc n)"
  shows "\<exists>W'. hold clk others deadline W = Some W'"
proof (induction "deadline - clk (cl_ticks W)" arbitrary: W rule: less_induct)
  case less
  show ?case
  proof (cases "clk (cl_ticks W) < deadline")
    case True
    let ?V = "tick (W\<lparr>cl_machine := others (cl_machine W)\<rparr>)"
    have "deadline - clk (cl_ticks ?V) < deadline - clk (cl_ticks W)"
      using True assms [of "cl_ticks W"] by (simp add: tick_def)
    from less [OF this] show ?thesis using True by (simp add: hold.simps [of clk others deadline W])
  qed (simp add: hold.simps)
qed

section \<open>The power requests are given back\<close>

lemma acquire_locks_held:
  "acquire_locks P B ts reason p W = (Some p', W') \<Longrightarrow>
     (\<forall>t. IsLocked p t \<or> t \<in> set ts \<longrightarrow> IsLocked p' t)"
proof (induction ts arbitrary: p W)
  case (Cons t ts)
  obtain r p1 m where a: "AcquireLock B t reason p (cl_machine W) = (r, p1, m)" by (metis surj_pair)
  obtain u where r: "r = Inr u" using Cons.prems a by (cases r) (auto simp: JournalAction_frame Let_def)
  have "IsLocked p1 x" if "IsLocked p x \<or> x = t" for x
    using fun_cong [OF AcquireLock_LockCount [OF a], of x] that r by (auto simp: LockCount_def IsLocked_def split: if_splits)
  then show ?case using Cons.IH Cons.prems a r by (fastforce simp: JournalAction_frame Let_def)
qed simp

context power_backend
begin

lemma released:
  assumes "agrees Op A p (cl_machine W)"
  shows "opn (cl_machine (release_locks B p W)) = Op \<and> act (cl_machine (release_locks B p W)) = A"
proof -
  obtain p' m where r: "PowerLocker_ReleaseAll B p (cl_machine W) = (p', m)" by fastforce
  have "lock_requests p' = {}" using fun_cong [OF ReleaseAll_LockCount [OF r]] by (auto simp: lock_requests_def LockCount_def)
  then show ?thesis using agrees_ReleaseAll [OF assms r] r by (auto simp: agrees_def release_locks_def)
qed

lemma acquire_locks_agrees:
  "agrees Op A p (cl_machine W) \<Longrightarrow> acquire_locks P B ts reason p W = (r, W') \<Longrightarrow>
     (case r of Some p' \<Rightarrow> agrees Op A p' (cl_machine W')
      | None \<Rightarrow> opn (cl_machine W') = Op \<and> act (cl_machine W') = A)"
proof (induction ts arbitrary: p W)
  case (Cons t ts)
  obtain q p1 m where a: "AcquireLock B t reason p (cl_machine W) = (q, p1, m)" by (metis surj_pair)
  note ag = agrees_AcquireLock [OF Cons.prems(1) a]
  show ?case
  proof (cases q)
    case (Inl e)
    then show ?thesis using Cons.prems(2) a ag released by (auto simp: JournalAction_frame AuditAction_frame Let_def)
  next
    case (Inr u)
    then show ?thesis using Cons.prems(2) a ag
      by (intro Cons.IH [where p = p1]) (auto simp: JournalAction_frame AuditAction_frame Let_def)
  qed
qed auto

lemma power_lock_run:
  assumes "fst ` act (cl_machine W) \<subseteq> opn (cl_machine W)"
    and others: "\<And>s. opn (others s) = opn s" "\<And>s. act (others s) = act s"
    and run: "RunPowerLockCommand P B clk others secondsText args W = Some (rc, W')"
  shows "opn (cl_machine W') = opn (cl_machine W) \<and> act (cl_machine W') = act (cl_machine W)"
proof -
  obtain types args1 where ty: "lock_types P args = (types, args1)" by fastforce
  obtain b W1 where pr: "probe_audit P W = (b, W1)" by fastforce
  define W2 where "W2 = fold WriteLine [''Power lock (R1, reversible; system state restored on exit)'',
      ''  type(s) :'' @ concat (map (\<lambda>t. '' '' @ PowerLockTypeToString t) types), ''  reason  : '' @ lock_reason args1] W1"
  have W2: "cl_machine W2 = cl_machine W" using probe_audit_machine [OF pr] by (simp add: W2_def)
  obtain r W3 where ac: "acquire_locks P B types (lock_reason args1) (PowerLocker_new True) W2 = (r, W3)" by fastforce
  note ag = acquire_locks_agrees [where W = W2, unfolded W2, OF agrees_new [OF assms(1)] ac]
  note run' = run [unfolded RunPowerLockCommand_def ty pr Let_def prod.case, folded W2_def, unfolded ac prod.case]
  show ?thesis
  proof (cases "parse_hold_seconds secondsText")
    case None
    then show ?thesis using run by (auto simp: RunPowerLockCommand_def)
  next
    case (Some seconds)
    show ?thesis
    proof (cases "b \<and> r \<noteq> None")
      case False
      then show ?thesis using run' Some ag probe_audit_machine [OF pr] by (cases r) (auto simp: refuse_hold_def split: if_splits)
    next
      case True
      then obtain p W4 where p: "r = Some p" and h: "hold_for clk others seconds W3 = Some W4"
        using run' Some by (auto split: option.splits)
      from hold_for_machine [OF h] obtain n where "cl_machine W4 = (others ^^ n) (cl_machine W3)" by blast
      then have "opn (cl_machine W4) = opn (cl_machine W3)" "act (cl_machine W4) = act (cl_machine W3)"
        using others by (simp_all add: funpow_keeps)
      then have "agrees (opn (cl_machine W)) (act (cl_machine W)) p (cl_machine W4)" using ag p agrees_same by auto
      from released [where W = "JournalAction P x1 x2 x3 x4 x5 W4" for x1 x2 x3 x4 x5, unfolded JournalAction_frame, OF this]
      show ?thesis using run' Some p h True by (auto simp: AuditAction_frame)
    qed
  qed
qed

end

section \<open>The lease is given back\<close>

context priority_backend
begin

lemma lease_released:
  assumes "AcquireBoost B g pid 0 level (PriorityBooster_new level) s = (Inr u, b, s1)" and "hpid s2 = hpid s1"
    and "PriorityBooster_ReleaseAll B b s2 = (b', s3)"
  shows "hpid s3 = hpid s \<and> (\<exists>target h.
      PriorityLevelToWin32Class level = Success target \<and> hpid s1 h = Some pid \<and>
      pclass s1 = (pclass s)(pid := target) \<and> pclass s pid \<noteq> 0 \<and>
      pclass s3 = (if pclass s2 pid = target \<and> target \<noteq> 0 \<and> HasValue (fst (SetPriorityClass B h (pclass s pid) s2))
                   then (pclass s2)(pid := pclass s pid) else pclass s2))"
proof -
  have "acquire_fresh B g pid 0 level (PriorityBooster_new level) s = (Inr u, b, s1)"
    using assms(1) by (auto simp: AcquireBoost_def PriorityBooster_new_def om_get_def split: if_splits)
  from acquire_fresh_ok [OF this] obtain h st where h: "h \<noteq> 0" "hpid s h = None" "hpid s1 = (hpid s)(h \<mapsto> pid)"
    "PriorityLevelToWin32Class level = Success (ls_targetClass st)" "pclass s pid \<noteq> 0"
    "pclass s1 = (pclass s)(pid := ls_targetClass st)"
    "b = (PriorityBooster_new level)\<lparr>pb_leases := om_put g st (pb_leases (PriorityBooster_new level))\<rparr>"
    "ls_handle st = h" "ls_originalClass st = pclass s pid" by blast
  then have "pb_leases b = [(g, st)]" by (simp add: PriorityBooster_new_def)
  then have s3: "s3 = ForceCleanLease B st s2" using assms(3) by (simp add: PriorityBooster_ReleaseAll_def)
  have q: "QueryPriorityClass B h s2 = pclass s2 pid" using assms(2) h by (simp add: query_class)
  obtain r s4 where set: "SetPriorityClass B h (pclass s pid) s2 = (r, s4)" by fastforce
  have "hpid s3 = (hpid s2)(h := None)" using hpid_ForceCleanLease [of st s2] h s3 by simp
  then have "hpid s3 = hpid s" using assms(2) h by auto
  moreover have "pclass s3 = (if pclass s2 pid = ls_targetClass st \<and> ls_targetClass st \<noteq> 0 \<and> HasValue r
      then (pclass s2)(pid := pclass s pid) else pclass s2)"
    using s3 h q set close assms(2) set_ok [of h "pclass s pid" s2 _ s4] set_fail [of h "pclass s pid" s2 _ s4]
    by (cases r) (auto simp: ForceCleanLease_def Let_def)
  ultimately show ?thesis using h set by (intro conjI exI [of _ "ls_targetClass st"] exI [of _ h]) auto
qed

lemma boost_run:
  assumes run: "run_boost P B clk others seconds pid cfg name W = Some (rc, W')"
    and others: "\<And>s. hpid (others s) = hpid s"
  shows "hpid (cl_machine W') = hpid (cl_machine W) \<and>
    (\<forall>q. (\<forall>s. pclass (others s) q = pclass s q) \<and>
         (q = pid \<longrightarrow> (\<forall>h c s. hpid s h \<noteq> None \<longrightarrow> HasValue (fst (SetPriorityClass B h c s)))) \<longrightarrow>
       pclass (cl_machine W') q = pclass (cl_machine W) q) \<and>
    (rc \<noteq> 0 \<longrightarrow> pclass (cl_machine W') = pclass (cl_machine W)) \<and>
    (rc = 0 \<longrightarrow> (\<exists>target s1 t n. PriorityLevelToWin32Class (pr_maxLevel cfg) = Success target \<and>
       sleeps clk (Suc t) (clk t + 1000 * unat seconds) n \<and>
       pclass s1 = (pclass (cl_machine W))(pid := target) \<and>
       (if pclass ((others ^^ n) s1) pid \<noteq> target then pclass (cl_machine W') = pclass ((others ^^ n) s1)
        else pclass (cl_machine W') = pclass ((others ^^ n) s1) \<or>
             pclass (cl_machine W') = (pclass ((others ^^ n) s1))(pid := pclass (cl_machine W) pid))))"
proof -
  let ?level = "pr_maxLevel cfg" and ?s = "cl_machine W"
  define W2 where "W2 = JournalAction P ''priority.boost'' (''pid '' @ dec_of_nat (unat pid)) True Before
     ''intent: acquire bounded priority lease'' (fold WriteLine
                 [''Priority boost (R1, reversible; priority restored on exit)'',
                  ''  target   : '' @ (''pid '' @ dec_of_nat (unat pid)) @ (if name \<noteq> [] then '' ('' @ name @ '')'' else []),
                  ''  level    : '' @ hold_level_name (pr_maxLevel cfg),
                  ''  enabled  : '' @ (if pr_enabled cfg then ''yes''
                                       else ''no (policy automation off; manual demo still applies)'')] W)"
  have W2: "cl_machine W2 = ?s" by (simp add: W2_def JournalAction_frame)
  obtain r b m where a: "AcquireBoost B ''cli-demo'' pid 0 ?level (PriorityBooster_new ?level) ?s = (r, b, m)" by (metis surj_pair)
  define V where "V = WriteLine (''  [boosted] '' @ (''pid '' @ dec_of_nat (unat pid)) @ '' -> '' @ hold_level_name ?level)
      (W2\<lparr>cl_machine := m\<rparr>)"
  note run' = run [unfolded run_boost_def Let_def, folded W2_def, unfolded W2 a prod.case, folded V_def]
  show ?thesis
  proof (cases r)
    case (Inl e)
    then have "hpid m = hpid ?s" "pclass m = pclass ?s"
      using a acquire_fresh_fail by (auto simp: AcquireBoost_def PriorityBooster_new_def om_get_def split: if_splits)
    moreover have "rc = 2" "cl_machine W' = m" using run' Inl by (auto simp: AuditAction_frame)
    ultimately show ?thesis by simp
  next
    case (Inr u)
    have V: "cl_machine V = m" by (simp add: V_def)
    obtain W3 where hd: "hold_for clk others seconds V = Some W3"
      and rel: "rc = 0" "cl_machine W' = snd (PriorityBooster_ReleaseAll B b (cl_machine W3))"
      using run' Inr by (auto simp: AuditAction_frame JournalAction_frame split: option.splits)
    obtain n where n: "cl_machine W3 = (others ^^ n) m" "sleeps clk (Suc (cl_ticks V)) (clk (cl_ticks V) + 1000 * unat seconds) n"
      using hold_for_machine [OF hd] V by auto
    have "hpid (cl_machine W3) = hpid m" using n others by (simp add: funpow_keeps)
    from lease_released [OF a [unfolded Inr] this] obtain target h where l:
      "hpid (cl_machine W') = hpid ?s" "PriorityLevelToWin32Class ?level = Success target" "hpid m h = Some pid"
      "pclass m = (pclass ?s)(pid := target)"
      "pclass (cl_machine W') = (if pclass (cl_machine W3) pid = target \<and> target \<noteq> 0 \<and>
           HasValue (fst (SetPriorityClass B h (pclass ?s pid) (cl_machine W3)))
         then (pclass (cl_machine W3))(pid := pclass ?s pid) else pclass (cl_machine W3))"
      using rel(2) by (metis prod.collapse)
    have t0: "target \<noteq> 0" using l(2) by (auto simp: PriorityLevelToWin32Class_def split: PriorityLevel.splits)
    have restored: "pclass (cl_machine W') q = pclass ?s q"
      if "\<forall>s. pclass (others s) q = pclass s q"
        and "q = pid \<longrightarrow> (\<forall>h c s. hpid s h \<noteq> None \<longrightarrow> HasValue (fst (SetPriorityClass B h c s)))" for q
    proof -
      have "pclass (cl_machine W3) q = pclass m q" using n that(1) funpow_keeps [where f = "\<lambda>s. pclass s q"] by simp
      moreover have "hpid (cl_machine W3) h \<noteq> None" using l(3) \<open>hpid (cl_machine W3) = hpid m\<close> by simp
      ultimately show ?thesis using l(4,5) t0 that(2) by (cases "q = pid") auto
    qed
    have "if pclass ((others ^^ n) m) pid \<noteq> target then pclass (cl_machine W') = pclass ((others ^^ n) m)
        else pclass (cl_machine W') = pclass ((others ^^ n) m) \<or>
             pclass (cl_machine W') = (pclass ((others ^^ n) m))(pid := pclass ?s pid)"
      using l(5) n by auto
    then have "\<exists>target s1 t n. PriorityLevelToWin32Class ?level = Success target \<and>
       sleeps clk (Suc t) (clk t + 1000 * unat seconds) n \<and> pclass s1 = (pclass ?s)(pid := target) \<and>
       (if pclass ((others ^^ n) s1) pid \<noteq> target then pclass (cl_machine W') = pclass ((others ^^ n) s1)
        else pclass (cl_machine W') = pclass ((others ^^ n) s1) \<or>
             pclass (cl_machine W') = (pclass ((others ^^ n) s1))(pid := pclass ?s pid))"
      using l(2,4) n(2) by blast
    then show ?thesis using l(1) restored rel(1) by blast
  qed
qed

end

lemma RunPriorityBoostCommand_cases:
  assumes "RunPriorityBoostCommand P B A k T parse clk others secondsText args W = Some (rc, W')"
  obtains (refused) "rc = 2" "cl_machine W' = cl_machine W"
    | (acted) seconds pid cfg name W1 where "parse_hold_seconds secondsText = Some seconds" "args \<noteq> []" "ParseUint32 (hd args) = Some pid" "cl_machine W1 = cl_machine W"
        "boost_config P T parse (case args of _ # c # _ \<Rightarrow> Some c | _ \<Rightarrow> None) W = Success cfg"
        "run_boost P B clk others seconds pid cfg name W1 = Some (rc, W')"
  using assms
  by (auto simp: RunPriorityBoostCommand_def refuse_hold_def
      dest!: probe_audit_machine split: option.splits list.splits sum.splits prod.splits if_splits)

lemma hold_for_returns: "(\<And>n. clk n < clk (Suc n)) \<Longrightarrow> \<exists>W'. hold_for clk others seconds W = Some W'"
  unfolding hold_for_def by (rule hold_returns)

lemma after_hold: "\<exists>w. x = Some w \<Longrightarrow> \<exists>w'. (case x of None \<Rightarrow> None | Some w \<Rightarrow> Some (0 :: int, f w)) = Some (0, w')"
  by auto

lemma run_boost_returns:
  assumes "\<And>n. clk n < clk (Suc n)"
    and "AcquireBoost B ''cli-demo'' pid 0 (pr_maxLevel cfg) (PriorityBooster_new (pr_maxLevel cfg)) (cl_machine W) = (r, b, m)"
  shows "\<exists>W'. run_boost P B clk others seconds pid cfg name W = Some (if HasValue r then 0 else 2, W')"
proof (cases r)
  case (Inl e)
  then show ?thesis using assms(2) by (simp add: run_boost_def JournalAction_frame Let_def)
next
  case (Inr u)
  have h: "\<exists>X'. hold_for clk others seconds X = Some X'" for X using assms(1) by (rule hold_for_returns)
  show ?thesis
    unfolding run_boost_def Let_def JournalAction_frame fold_WriteLine_machine assms(2) Inr eqTrueI [OF HasValue_simps(1)] prod.case sum.case if_True
    by (rule after_hold [OF h])
qed

text \<open>
  C20: however the power lock command ends (refused, failed half-way or after holding), the handles and the power
  requests of the process are the ones it had before, provided nobody else in the process changes them.\<close>
theorem power_lock_command_gives_back:
  assumes "power_backend B opn act" and "fst ` act (cl_machine W) \<subseteq> opn (cl_machine W)"
    and "\<And>s. opn (others s) = opn s" and "\<And>s. act (others s) = act s"
    and "RunPowerLockCommand P B clk others secondsText args W = Some (rc, W')"
  shows "opn (cl_machine W') = opn (cl_machine W) \<and> act (cl_machine W') = act (cl_machine W)"
  using power_backend.power_lock_run [OF assms] .

text \<open>
  C19: the priority boost command closes every handle it opened.  A priority class nobody else changes is at
  the end what it was at the start (for the boosted process: when setting it works).  If the command did not
  boost (exit code not 0), no class has changed.  If it did, it set the boosted process to the class of the
  configured level, others acted at every sleep until the time was over (\<open>sleeps\<close>), in any way, and then: if the process no longer has
  the class the command set, nothing is overwritten; if it still has it, at most this one class goes back to
  the original.  A foreign change to the very class the command set cannot be told from its own.\<close>
theorem priority_boost_command_restores:
  assumes "priority_backend B hpid pclass ctime" and "\<And>s. hpid (others s) = hpid s"
    and "RunPriorityBoostCommand P B A k T parse clk others secondsText args W = Some (rc, W')"
  shows "hpid (cl_machine W') = hpid (cl_machine W) \<and>
    (\<forall>q. (\<forall>s. pclass (others s) q = pclass s q) \<and>
         (args \<noteq> [] \<and> ParseUint32 (hd args) = Some q \<longrightarrow>
            (\<forall>h c s. hpid s h \<noteq> None \<longrightarrow> HasValue (fst (SetPriorityClass B h c s)))) \<longrightarrow>
       pclass (cl_machine W') q = pclass (cl_machine W) q) \<and>
    (rc \<noteq> 0 \<longrightarrow> pclass (cl_machine W') = pclass (cl_machine W)) \<and>
    (rc = 0 \<longrightarrow> (\<exists>seconds q cfg target s1 t n. parse_hold_seconds secondsText = Some seconds \<and> ParseUint32 (hd args) = Some q \<and>
       boost_config P T parse (case args of _ # c # _ \<Rightarrow> Some c | _ \<Rightarrow> None) W = Success cfg \<and>
       PriorityLevelToWin32Class (pr_maxLevel cfg) = Success target \<and>
       sleeps clk (Suc t) (clk t + 1000 * unat seconds) n \<and> pclass s1 = (pclass (cl_machine W))(q := target) \<and>
       (if pclass ((others ^^ n) s1) q \<noteq> target then pclass (cl_machine W') = pclass ((others ^^ n) s1)
        else pclass (cl_machine W') = pclass ((others ^^ n) s1) \<or>
             pclass (cl_machine W') = (pclass ((others ^^ n) s1))(q := pclass (cl_machine W) q))))"
  using assms(3)
proof (cases rule: RunPriorityBoostCommand_cases)
  case refused
  then show ?thesis by simp
next
  case (acted seconds pid cfg name W1)
  note e = priority_backend.boost_run [OF assms(1) acted(6) assms(2), unfolded acted(4)]
  have 2: "pclass (cl_machine W') q = pclass (cl_machine W) q"
    if "\<forall>s. pclass (others s) q = pclass s q" "args \<noteq> [] \<and> ParseUint32 (hd args) = Some q \<longrightarrow>
            (\<forall>h c s. hpid s h \<noteq> None \<longrightarrow> HasValue (fst (SetPriorityClass B h c s)))" for q
    using e that acted(2,3) by blast
  show ?thesis using e 2 acted(1,3,5) by blast
qed

text \<open>
  C21: on a clock that advances both hold commands return.\<close>
theorem hold_commands_return:
  assumes "\<And>n. clk n < clk (Suc n)"
  shows "(\<exists>rc W'. RunPowerLockCommand P B clk others secondsText args W = Some (rc, W')) \<and>
    (\<exists>rc V'. RunPriorityBoostCommand P B' A k T parse clk others' secondsText args V = Some (rc, V'))"
proof
  obtain types args1 where ty: "lock_types P args = (types, args1)" by fastforce
  obtain b W1 where pr: "probe_audit P W = (b, W1)" by fastforce
  have "\<exists>W'. hold_for clk others s X = Some W'" for s X using assms by (rule hold_for_returns)
  then show "\<exists>rc W'. RunPowerLockCommand P B clk others secondsText args W = Some (rc, W')"
    by (auto simp: RunPowerLockCommand_def ty pr refuse_hold_def Let_def split: option.splits prod.splits)
       (metis option.distinct(1))+
next
  have "\<exists>rc V'. run_boost P B' clk others' s pid cfg name V = Some (rc, V')" for s pid cfg name V
    using run_boost_returns [where clk = clk, OF assms, of B' pid cfg V] by (metis surj_pair)
  then show "\<exists>rc V'. RunPriorityBoostCommand P B' A k T parse clk others' secondsText args V = Some (rc, V')"
    by (auto simp: RunPriorityBoostCommand_def refuse_hold_def split: option.splits prod.splits sum.splits)
qed

section \<open>Runs\<close>

text \<open>The clock of a run (one observation takes 100 ms), a process table nobody can be looked up in and the worlds.\<close>

definition run_clock :: "nat \<Rightarrow> nat" where "run_clock n = 100 * n"

definition hidden_processes :: process_api where
  "hidden_processes = 
     \<lparr>pa_snapshot = None, pa_first = Inl 5, pa_next = [], pa_times = (\<lambda>_ _. None),
      pa_desktop = (\<lambda>_. \<lparr>dk_windows = None, dk_foreground = None\<rparr>), pa_open = (\<lambda>_. Inl 5)\<rparr>"

definition hold_cli :: "'s \<Rightarrow> 's cli" where
  "hold_cli s = \<lparr>cl_disk = empty_disk, cl_lines = [], cl_ticks = 0, cl_machine = s\<rparr>"

lemma hold_cli_facts [simp]: "calm_disk (cl_disk (hold_cli s))" "cl_machine (hold_cli s) = s"
  by (simp_all add: hold_cli_def empty_disk_def calm_disk_def)

lemma run_clock_advances: "run_clock n < run_clock (Suc n)"
  by (simp add: run_clock_def)

lemma run_clock_returns: "\<exists>W'. hold_for run_clock others seconds W = Some W'"
  using run_clock_advances by (rule hold_for_returns)

lemma one_second: "parse_hold_seconds ''1'' = Some 1"
  by (simp add: parse_hold_seconds_def ParseUint32_def wcstoul10_def Let_def is_space_def is_digit_def digit_val_def kHoldMaxSeconds_def)

theorem power_lock_command_gives_back_witness:
  "\<exists>W'. RunPowerLockCommand calm_cli kernel_backend run_clock (\<lambda>s. s) ''1'' [] (hold_cli kernel_init) = Some (0, W') \<and>
     kernel_opn (cl_machine W') = {} \<and> lock_view (kernel_act (cl_machine W')) = {}"
proof -
  obtain W1 where w: "probe_audit calm_cli (hold_cli kernel_init) = (True, W1)" "cl_machine W1 = kernel_init"
    using calm_probe_audit [OF calm_calm_cli, of "hold_cli kernel_init"] by auto
  have "\<exists>p k. AcquireLock kernel_backend ExecutionRequired x (PowerLocker_new True) kernel_init = (Success (), p, k)" for x
    by (simp add: AcquireLock_def PowerLocker_new_def kernel_backend_def Win32PowerRequestBackend_def Win32_CreateRequest_def
        Win32_SetRequest_def kernel_power_api_def kernel_init_def kernel_limit_def INVALID_HANDLE_VALUE_def)
  then have "\<exists>p W3. acquire_locks calm_cli kernel_backend [ExecutionRequired] x (PowerLocker_new True) W2 = (Some p, W3)"
    if "cl_machine W2 = kernel_init" for x W2
    using that by (auto simp: JournalAction_frame Let_def split: prod.splits sum.splits) (metis prod.inject sum.distinct(1))
  then obtain p W3 where a: "acquire_locks calm_cli kernel_backend [ExecutionRequired] (lock_reason []) (PowerLocker_new True)
      (fold WriteLine [''Power lock (R1, reversible; system state restored on exit)'',
         ''  type(s) :'' @ concat (map (\<lambda>t. '' '' @ PowerLockTypeToString t) [ExecutionRequired]), ''  reason  : '' @ lock_reason []] W1) =
      (Some p, W3)" using w(2) by fastforce
  obtain W4 where "hold_for run_clock (\<lambda>s. s) 1 W3 = Some W4" using run_clock_returns by blast
  then obtain W' where r: "RunPowerLockCommand calm_cli kernel_backend run_clock (\<lambda>s. s) ''1'' [] (hold_cli kernel_init) = Some (0, W')"
    using w(1) a by (simp add: RunPowerLockCommand_def one_second lock_types_def Let_def)
  show ?thesis using power_lock_command_gives_back [OF kernel_backend_ok _ _ _ r] r
    by (simp add: kernel_opn_def kernel_act_def kernel_init_def lock_view_def)
qed

text \<open>Somebody else sets the class of process 7 while the command holds its lease.\<close>

definition meddle :: "ptable \<Rightarrow> ptable" where
  "meddle k = k\<lparr>pt_class := (pt_class k)(7 := 0x40)\<rparr>"

theorem priority_boost_command_restores_witness:
  "\<exists>W'. RunPriorityBoostCommand calm_cli ptable_backend hidden_processes 1 table_api (\<lambda>_. Inl []) run_clock meddle ''1'' [''7'']
       (hold_cli ptable_init) = Some (0, W') \<and>
     ptable_hpid (cl_machine W') = Map.empty \<and> pt_class (cl_machine W') 3 = 0x20 \<and> pt_class (cl_machine W') 7 = 0x40"
proof -
  let ?B = ptable_backend and ?cfg = "cs_priority default_snapshot"
  obtain W1 where w: "probe_audit calm_cli (hold_cli ptable_init) = (True, W1)" "cl_machine W1 = ptable_init"
    using calm_probe_audit [OF calm_calm_cli, of "hold_cli ptable_init"] by auto
  have pid: "ParseUint32 ''7'' = Some 7"
    by (simp add: ParseUint32_def wcstoul10_def Let_def is_space_def is_digit_def digit_val_def)
  have lv: "pr_maxLevel ?cfg = PL_AboveNormal" by (simp add: default_snapshot_def)
  have "\<exists>b m. AcquireBoost ?B ''cli-demo'' 7 0 PL_AboveNormal (PriorityBooster_new PL_AboveNormal) ptable_init = (Success (), b, m)"
    by (simp add: booster_eval ptable_eval Let_def)
  then have "\<exists>W'. run_boost calm_cli ?B run_clock meddle 1 7 ?cfg name W1 = Some (0, W')" for name
    using run_boost_returns [where clk = run_clock and cfg = ?cfg and W = W1 and B = ?B and others = meddle, OF run_clock_advances] w(2) lv by fastforce
  then obtain W' where r: "RunPriorityBoostCommand calm_cli ?B hidden_processes 1 table_api (\<lambda>_. Inl []) run_clock meddle ''1'' [''7'']
       (hold_cli ptable_init) = Some (0, W')"
    using w(1) pid lv by (auto simp: RunPriorityBoostCommand_def one_second boost_config_def)
  have meddle: "ptable_hpid (meddle s) = ptable_hpid s" for s by (simp add: meddle_def ptable_hpid_def)
  note e = priority_boost_command_restores [OF ptable_backend_ok meddle r]
  have "pt_class (cl_machine W') 3 = pt_class ptable_init 3"
    using e pid by (auto simp: meddle_def)
  moreover obtain target s1 t n where x: "sleeps run_clock (Suc t) (run_clock t + 1000) n" "target = 0x8000"
    "if pt_class ((meddle ^^ n) s1) 7 \<noteq> target then pt_class (cl_machine W') = pt_class ((meddle ^^ n) s1)
     else pt_class (cl_machine W') = pt_class ((meddle ^^ n) s1) \<or>
       pt_class (cl_machine W') = (pt_class ((meddle ^^ n) s1))(7 := pt_class (cl_machine (hold_cli ptable_init)) 7)"
    using e pid lv by (auto simp: one_second boost_config_def PriorityLevelToWin32Class_def)
  have "n \<noteq> 0" using x(1) by (auto simp: sleeps_def run_clock_def)
  then have "pt_class ((meddle ^^ n) s1) 7 = 0x40" by (cases n) (simp_all add: meddle_def)
  with x(2,3) have "pt_class (cl_machine W') 7 = 0x40" by simp
  moreover have "ptable_hpid (cl_machine W') = Map.empty" using conjunct1 [OF e] by (simp add: ptable_init_def ptable_hpid_def fun_eq_iff)
  ultimately show ?thesis using r by (simp add: ptable_init_def)
qed

theorem hold_commands_return_witness:
  "\<exists>rc W'. RunPowerLockCommand calm_cli kernel_backend run_clock (\<lambda>s. s) ''1'' [''both''] (hold_cli kernel_init) = Some (rc, W')"
  by (rule conjunct1 [OF hold_commands_return [where B' = ptable_backend and V = "hold_cli ptable_init" and A = hidden_processes
        and T = table_api and parse = "\<lambda>_. Inl []" and others' = meddle and k = 1]]) (rule run_clock_advances)

end
