(* ===== verification/Ipc_Credentials.thy ===== *)
theory Ipc_Credentials
  imports Ipc_Facts Cli_World
begin

text \<open>
  The supply of the shared agent token, \<^verbatim>\<open>source/ipc/ipc_credentials.cpp\<close>, the command that provisions it and
  the parsers of the pipe arguments in \<^verbatim>\<open>source/main.cpp\<close>.  The random source, the token of the process and the
  security calls are parameters (\<open>cred_env\<close>); the files are those of the disk model, and the explicit access
  list of a file is part of the state.  Messages the code has in Chinese are written in English.
\<close>

section \<open>The token file\<close>

text \<open>The answers of the calls that find the user of the process, in their order.\<close>

record sid_env =
  su_openToken :: bool
  su_needed :: u32
  su_getInfo :: bool
  su_sidNull :: bool
  su_text :: "string option"

text \<open>
  \<open>ce_convert\<close> and \<open>ce_setSecurity\<close> give the error of turning a text into a security descriptor and of setting
  it on a file.
\<close>

record cred_env =
  ce_io :: disk_faults
  ce_sysmsg :: "u32 \<Rightarrow> string"
  ce_localAppData :: "string option"
  ce_random :: "nat \<Rightarrow> 8 word list option"
  ce_sid :: sid_env
  ce_convert :: "string \<Rightarrow> u32 option"
  ce_setSecurity :: "path \<Rightarrow> u32 option"

type_synonym acls = "path \<Rightarrow> string option"

definition kTokenLength :: nat where "kTokenLength = 32"

definition kTokenAlphabet :: string where
  "kTokenAlphabet = ''ABCDEFGHIJKLMNOPQRSTUVWXYZabcdefghijklmnopqrstuvwxyz0123456789''"

definition IsAsciiTokenChar :: "16 word \<Rightarrow> bool" where
  "IsAsciiTokenChar ch \<longleftrightarrow>
     97 \<le> ch \<and> ch \<le> 122 \<or> 65 \<le> ch \<and> ch \<le> 90 \<or> 48 \<le> ch \<and> ch \<le> 57 \<or> ch = 95 \<or> ch = 45"

definition IsValidTokenText :: "wstring \<Rightarrow> bool" where
  "IsValidTokenText text \<longleftrightarrow> text \<noteq> [] \<and> length text \<le> 64 \<and> list_all IsAsciiTokenChar text"

definition token_letter :: "8 word \<Rightarrow> char" where
  "token_letter b = kTokenAlphabet ! (unat b mod 62)"

definition GenerateRandomToken :: "cred_env \<Rightarrow> string" where
  "GenerateRandomToken E = (case ce_random E kTokenLength of None \<Rightarrow> [] | Some bytes \<Rightarrow> map token_letter bytes)"

definition CurrentUserSid :: "sid_env \<Rightarrow> string" where
  "CurrentUserSid U =
     (if \<not> su_openToken U then [] else if su_needed U = 0 then [] else if \<not> su_getInfo U then []
      else if su_sidNull U then [] else (case su_text U of None \<Rightarrow> [] | Some t \<Rightarrow> t))"

definition private_sddl :: "string \<Rightarrow> string" where
  "private_sddl sid = ''D:P(A;;FA;;;SY)(A;;FA;;;'' @ sid @ '')''"

definition RestrictFileDacl :: "cred_env \<Rightarrow> path \<Rightarrow> acls \<Rightarrow> unit result \<times> acls" where
  "RestrictFileDacl E p acl =
     (let sid = CurrentUserSid (ce_sid E)
      in if sid = [] then (Failure (Error_Validation ''RestrictFileDacl'' ''cannot resolve the SID of the current user''), acl)
         else (case ce_convert E (private_sddl sid) of
                 Some c \<Rightarrow> (Failure (FromWin32 (ce_sysmsg E) c ''ConvertStringSecurityDescriptorToSecurityDescriptorW''), acl)
               | None \<Rightarrow>
                   (case ce_setSecurity E p of
                      Some c \<Rightarrow> (Failure (FromWin32 (ce_sysmsg E) c ''SetFileSecurityW''), acl)
                    | None \<Rightarrow> (Success (), acl(p \<mapsto> private_sddl sid)))))"

text \<open>The error of the failed call, or nothing.  An existing file is emptied and keeps its access list.\<close>

definition WriteTokenFile :: "cred_env \<Rightarrow> path \<Rightarrow> string \<Rightarrow> disk \<Rightarrow> u32 option \<times> disk" where
  "WriteTokenFile E p token d =
     (case open_write (ce_io E) p False d of
        (Inl c, d1) \<Rightarrow> (Some c, d1)
      | (Inr _, d1) \<Rightarrow>
          (case write_flush (ce_io E) p token d1 of (Inl c, d2) \<Rightarrow> (Some c, d2) | (Inr _, d2) \<Rightarrow> (None, d2)))"

definition ProvisionError :: "string \<Rightarrow> Error" where
  "ProvisionError message = Error_Validation ''IpcCredentials'' message"

definition DefaultAgentTokenFilePath :: "string option \<Rightarrow> path" where
  "DefaultAgentTokenFilePath localAppData =
     (case localAppData of
        None \<Rightarrow> []
      | Some v \<Rightarrow> if v = [] \<or> length v \<ge> 1024 then []
                  else path_append (path_append v ''CppOptimizer'') ''ipc_agent_token'')"

definition ProvisionAgentTokenFile :: "cred_env \<Rightarrow> path \<Rightarrow> bool \<Rightarrow> disk \<times> acls \<Rightarrow> unit result \<times> disk \<times> acls" where
  "ProvisionAgentTokenFile E p force = (\<lambda>(d, acl).
     if p = [] then (Failure (ProvisionError ''the token path is empty''), d, acl)
     else if fst (path_exists (ce_io E) d p) \<and> \<not> force
     then (Failure (ProvisionError ''the token store exists (idempotent; rotate with force)''), d, acl)
     else (case create_directories (ce_io E) (parent_path p) d of
             (Inl c, d1) \<Rightarrow> (Failure (ProvisionError ''cannot create the parent directory of the token store''), d1, acl)
           | (Inr _, d1) \<Rightarrow>
               (let token = GenerateRandomToken E
                in if token = [] then (Failure (ProvisionError ''cannot generate a random token''), d1, acl)
                   else (case WriteTokenFile E p token d1 of
                           (Some c, d2) \<Rightarrow> (Failure (FromWin32 (ce_sysmsg E) c ''WriteFile(token)''), d2, acl)
                         | (None, d2) \<Rightarrow>
                             (case RestrictFileDacl E p acl of
                                (Inl e, acl1) \<Rightarrow> (Failure e, d2, acl1)
                              | (Inr _, acl1) \<Rightarrow> (Success (), d2, acl1))))))"

text \<open>The bytes of the file in pieces of 64; a read that fails ends the loop like the end of the file.\<close>

fun read_chunks :: "string \<Rightarrow> string" where
  "read_chunks s = (if s = [] then [] else take 64 s @ read_chunks (drop 64 s))"

declare read_chunks.simps [simp del]

definition is_trailing :: "char \<Rightarrow> bool" where
  "is_trailing c \<longleftrightarrow> c = CR \<or> c = LF \<or> c = CHR '' '' \<or> c = CHR 0x09"

definition strip_trailing :: "string \<Rightarrow> string" where
  "strip_trailing s = rev (dropWhile is_trailing (rev s))"

definition ReadAgentTokenFile :: "cred_env \<Rightarrow> path \<Rightarrow> disk \<Rightarrow> wstring result" where
  "ReadAgentTokenFile E p d =
     (case (case fail_open_read (ce_io E) p of Some c \<Rightarrow> Inl c
            | None \<Rightarrow> (case files d p of None \<Rightarrow> Inl (if dirs d p then 5 else 2) | Some s \<Rightarrow> Inr s)) of
        Inl c \<Rightarrow> Failure (FromWin32 (ce_sysmsg E) c ''CreateFileW(token)'')
      | Inr s \<Rightarrow>
          (let bytes = strip_trailing (read_chunks (case fail_read (ce_io E) p of None \<Rightarrow> s | Some (n, _) \<Rightarrow> take n s))
           in if bytes = [] \<or> length bytes > 64 then Failure (ProvisionError ''the token has an illegal length'')
              else if list_ex (\<lambda>ch. \<not> IsAsciiTokenChar ch) (wide bytes)
              then Failure (ProvisionError ''the token has an illegal character'')
              else Success (wide bytes)))"

definition IsAgentTokenProvisioned :: "cred_env \<Rightarrow> path \<Rightarrow> disk \<Rightarrow> bool" where
  "IsAgentTokenProvisioned E p d = HasValue (ReadAgentTokenFile E p d)"

section \<open>The credential command\<close>

text \<open>The first word that is not an option is the path; unknown options are skipped.\<close>

fun credential_args :: "string list \<Rightarrow> path option \<Rightarrow> bool \<Rightarrow> path option \<times> bool" where
  "credential_args [] p force = (p, force)"
| "credential_args (a # as) p force =
     (if a = ''--force'' then credential_args as p True
      else if p = None \<and> \<not> (a \<noteq> [] \<and> hd a = CHR ''-'') then credential_args as (Some a) force
      else credential_args as p force)"

text \<open>The machine of this command is the table of access lists.\<close>

definition RunIpcCredentialCommand :: "cred_env \<Rightarrow> string \<Rightarrow> string list \<Rightarrow> acls cli \<Rightarrow> int \<times> acls cli" where
  "RunIpcCredentialCommand E action args W =
     (let (given, force) = credential_args args None False;
          p = (case given of Some q \<Rightarrow> q | None \<Rightarrow> DefaultAgentTokenFilePath (ce_localAppData E))
      in if p = [] then (2, ErrorLine ''  cannot locate LOCALAPPDATA; provide an explicit <path>'' W)
         else if action = ''provision''
         then (case ProvisionAgentTokenFile E p force (cl_disk W, cl_machine W) of
                 (Inl e, d, acl) \<Rightarrow> (2, ErrorLine (''  provision failed '' @ error_text e) (W\<lparr>cl_disk := d, cl_machine := acl\<rparr>))
               | (Inr _, d, acl) \<Rightarrow>
                   (0, WriteLine ((if force then ''  token store rotated (hidden): '' else ''  token store provisioned (hidden): '') @ p)
                         (W\<lparr>cl_disk := d, cl_machine := acl\<rparr>)))
         else if action = ''status''
         then (0, if IsAgentTokenProvisioned E p (cl_disk W)
                  then WriteLine (''  token store OK (provisioned, hidden): '' @ p) W
                  else WriteLine ''  -> run: CppOptimizer.exe --ipc-credential provision''
                         (WriteLine (''  token store NOT provisioned: '' @ p) W))
         else (2, ErrorLine ''  --ipc-credential requires provision|status'' W))"

section \<open>Arguments of the pipe commands\<close>

definition kIpcPipeBase :: string where
  "kIpcPipeBase = [CHR 0x5C, CHR 0x5C] @ ''.'' @ [CHR 0x5C] @ ''pipe'' @ [CHR 0x5C] @ ''CppOptimizerIpc''"

definition is_pipe_char :: "char \<Rightarrow> bool" where
  "is_pipe_char c \<longleftrightarrow> is_lower c \<or> is_upper c \<or> is_digit c \<or> c = CHR ''-'' \<or> c = CHR ''_''"

definition IpcPipeName :: "string \<Rightarrow> string" where
  "IpcPipeName suffix = (if list_all is_pipe_char suffix then kIpcPipeBase @ suffix else [])"

definition value_options :: "string list" where
  "value_options = [''--ipc-token'', ''--ipc-token-file'', ''--ipc-allow-user'', ''--frames'', ''--instances'',
     ''--interval-ms'', ''--max-interval-ms'', ''--away-after-seconds'', ''--away-cap-ms'']"

text \<open>Here \<^verbatim>\<open>--session\<close> is treated like an option with a value.\<close>

fun find_suffix :: "string list \<Rightarrow> bool \<Rightarrow> string \<Rightarrow> string" where
  "find_suffix [] skip suffix = suffix"
| "find_suffix (a # as) skip suffix =
     (if \<not> skip \<and> (a \<in> set value_options \<or> a = ''--session'') then find_suffix as True suffix
      else if skip then find_suffix as False suffix
      else find_suffix as False (if suffix = [] then a else suffix))"

definition FindIpcSuffix :: "string list \<Rightarrow> string" where
  "FindIpcSuffix args = find_suffix args False []"

fun session_flag :: "string list \<Rightarrow> bool \<Rightarrow> bool" where
  "session_flag [] skip = False"
| "session_flag (a # as) skip =
     (if \<not> skip \<and> a \<in> set value_options then session_flag as True
      else if skip then session_flag as False
      else a = ''--session'' \<or> session_flag as False)"

definition HasIpcSessionFlag :: "string list \<Rightarrow> bool" where
  "HasIpcSessionFlag args = session_flag args False"

text \<open>The word after the first occurrence of an option that is not the last word.\<close>

fun option_value :: "string \<Rightarrow> string list \<Rightarrow> string option" where
  "option_value opt (a # b # as) = (if a = opt then Some b else option_value opt (b # as))"
| "option_value opt _ = None"

definition find_number :: "string \<Rightarrow> u32 \<Rightarrow> string list \<Rightarrow> u32" where
  "find_number opt dflt args =
     (case option_value opt args of None \<Rightarrow> dflt
      | Some t \<Rightarrow> (case Cli_World.ParseUint32 t of None \<Rightarrow> 0 | Some v \<Rightarrow> v))"

definition FindIpcFrames :: "string list \<Rightarrow> u32" where "FindIpcFrames = find_number ''--frames'' 1"
definition FindIpcInstances :: "string list \<Rightarrow> u32" where "FindIpcInstances = find_number ''--instances'' 1"
definition FindIpcIntervalMs :: "string list \<Rightarrow> u32" where "FindIpcIntervalMs = find_number ''--interval-ms'' 1000"
definition FindIpcMaxIntervalMs :: "string list \<Rightarrow> u32" where "FindIpcMaxIntervalMs = find_number ''--max-interval-ms'' 0"
definition FindIpcToken :: "string list \<Rightarrow> string option" where "FindIpcToken = option_value ''--ipc-token''"

definition IsValidIpcToken :: "string \<Rightarrow> bool" where
  "IsValidIpcToken token \<longleftrightarrow> token \<noteq> [] \<and> length token \<le> 64 \<and>
     list_all (\<lambda>c. is_lower c \<or> is_upper c \<or> is_digit c \<or> c = CHR ''_'' \<or> c = CHR ''-'') token"

fun FindIpcTokenFile :: "string option \<Rightarrow> string list \<Rightarrow> path option" where
  "FindIpcTokenFile lad [] = None"
| "FindIpcTokenFile lad (a # as) =
     (if a = ''--ipc-token-file''
      then (case as of v # _ \<Rightarrow> if v \<noteq> [] \<and> hd v = CHR ''-'' then Some (DefaultAgentTokenFilePath lad) else Some v
            | [] \<Rightarrow> Some (DefaultAgentTokenFilePath lad))
      else FindIpcTokenFile lad as)"

section \<open>Lemmas\<close>

lemma read_chunks_all [simp]: "read_chunks s = s"
proof (induction s rule: read_chunks.induct)
  case (1 s)
  then show ?case by (subst read_chunks.simps) simp
qed

lemma unat_wide_char [simp]: "unat (of_nat (of_char c) :: 16 word) = of_char c"
proof -
  have "of_char c < (65536 :: nat)" using nat_of_char_less_256 [of c] by linarith
  then show ?thesis by (simp add: unat_of_nat)
qed

lemma IsAsciiTokenChar_wide:
  "IsAsciiTokenChar (of_nat (of_char c)) \<longleftrightarrow> is_lower c \<or> is_upper c \<or> is_digit c \<or> c = CHR ''_'' \<or> c = CHR ''-''"
proof -
  have "(of_char (CHR ''_'') :: nat) = 95" "(of_char (CHR ''-'') :: nat) = 45" by simp_all
  then have "of_char c = (95 :: nat) \<longleftrightarrow> c = CHR ''_''" "of_char c = (45 :: nat) \<longleftrightarrow> c = CHR ''-''"
    by (metis of_char_eq_iff)+
  then show ?thesis
    unfolding IsAsciiTokenChar_def is_lower_def is_upper_def is_digit_def word_le_nat_alt word_unat_eq_iff unat_wide_char
    by simp
qed

lemma token_letter_valid: "is_lower (token_letter b) \<or> is_upper (token_letter b) \<or> is_digit (token_letter b)"
proof -
  have "\<forall>c \<in> set kTokenAlphabet. is_lower c \<or> is_upper c \<or> is_digit c"
    by (simp add: kTokenAlphabet_def is_lower_def is_upper_def is_digit_def)
  moreover have "unat b mod 62 < length kTokenAlphabet" by (simp add: kTokenAlphabet_def)
  ultimately show ?thesis unfolding token_letter_def using nth_mem by blast
qed

lemma IsValidTokenText_wide: "IsValidTokenText (wide t) \<longleftrightarrow> IsValidIpcToken t"
  by (simp add: IsValidTokenText_def IsValidIpcToken_def wide_def list_all_iff IsAsciiTokenChar_wide)

lemma GenerateRandomToken_valid:
  assumes "\<And>bytes. ce_random E kTokenLength = Some bytes \<Longrightarrow> length bytes = kTokenLength" and "GenerateRandomToken E \<noteq> []"
  shows "length (GenerateRandomToken E) = kTokenLength \<and> IsValidIpcToken (GenerateRandomToken E)"
  using assms token_letter_valid
  by (auto simp: GenerateRandomToken_def IsValidIpcToken_def list_all_iff kTokenLength_def split: option.splits)

lemma strip_trailing_token: "IsValidIpcToken t \<Longrightarrow> strip_trailing t = t"
proof -
  assume "IsValidIpcToken t"
  then have "t \<noteq> []" "\<not> is_trailing (last t)"
    by (auto simp: IsValidIpcToken_def list_all_iff is_trailing_def is_lower_def is_upper_def is_digit_def dest!: last_in_set)
  then have "dropWhile is_trailing (rev t) = rev t" by (cases t rule: rev_cases) auto
  then show ?thesis by (simp add: strip_trailing_def)
qed

lemma WriteTokenFile_ok:
  assumes "WriteTokenFile E p token d = (None, d')"
  shows "files d' = (files d)(p \<mapsto> token) \<and> dirs d' = dirs d"
proof -
  obtain d1 where o: "open_write (ce_io E) p False d = (Inr (), d1)" and w: "write_flush (ce_io E) p token d1 = (Inr (), d')"
    using assms by (auto simp: WriteTokenFile_def split: prod.splits sum.splits)
  show ?thesis using o w
    by (auto simp: open_write_def write_flush_def set_file_def Let_def split: option.splits if_splits)
qed

lemma RestrictFileDacl_ok:
  assumes "RestrictFileDacl E p acl = (Success u, acl')"
  shows "CurrentUserSid (ce_sid E) \<noteq> [] \<and> acl' = acl(p \<mapsto> private_sddl (CurrentUserSid (ce_sid E)))"
  using assms by (auto simp: RestrictFileDacl_def Let_def split: if_splits option.splits)

lemma ReadAgentTokenFile_valid:
  assumes "ReadAgentTokenFile E p d = Success w"
  shows "IsValidTokenText w"
  using assms by (auto simp: ReadAgentTokenFile_def IsValidTokenText_def Let_def wide_def list_ex_iff list_all_iff
      split: sum.splits option.splits if_splits prod.splits)

lemma ProvisionAgentTokenFile_cases:
  assumes "ProvisionAgentTokenFile E p force (d, acl) = (Success u, d', acl')"
  obtains "p \<noteq> []" "force \<or> \<not> fst (path_exists (ce_io E) d p)" "GenerateRandomToken E \<noteq> []"
    "files d' = (files d)(p \<mapsto> GenerateRandomToken E)" "RestrictFileDacl E p acl = (Success (), acl')"
proof -
  obtain r1 d1 where c: "create_directories (ce_io E) (parent_path p) d = (r1, d1)" by fastforce
  obtain r2 d2 where w: "WriteTokenFile E p (GenerateRandomToken E) d1 = (r2, d2)" by fastforce
  obtain r3 acl3 where a: "RestrictFileDacl E p acl = (r3, acl3)" by fastforce
  have g: "p \<noteq> []" "force \<or> \<not> fst (path_exists (ce_io E) d p)" "GenerateRandomToken E \<noteq> []"
    and e: "r2 = None" "r3 = Inr ()" "d2 = d'" "acl3 = acl'"
    using assms unfolding ProvisionAgentTokenFile_def prod.case c w a Let_def
    by (auto split: if_splits sum.splits option.splits)
  have "files d1 = files d" using c by simp
  with g a e WriteTokenFile_ok [OF w [unfolded e]] that show thesis by simp
qed

text \<open>
  C22: a successful provisioning gives the file to the system and the current user alone, reading it back gives the
  generated token of 32 letters and digits, no other file changes, and without \<^verbatim>\<open>--force\<close> no existing file
  is replaced as long as it can be seen.\<close>
theorem token_provision_roundtrip:
  assumes "\<And>bytes. ce_random E kTokenLength = Some bytes \<Longrightarrow> length bytes = kTokenLength"
    and "ProvisionAgentTokenFile E p force (d, acl) = (Success u, d', acl')"
    and "fail_open_read (ce_io E) p = None" and "fail_read (ce_io E) p = None"
  shows "ReadAgentTokenFile E p d' = Success (wide (GenerateRandomToken E)) \<and>
    length (GenerateRandomToken E) = 32 \<and> IsValidIpcToken (GenerateRandomToken E) \<and>
    acl' = acl(p \<mapsto> private_sddl (CurrentUserSid (ce_sid E))) \<and> CurrentUserSid (ce_sid E) \<noteq> [] \<and>
    (\<forall>q. q \<noteq> p \<longrightarrow> files d' q = files d q) \<and>
    (force \<or> fail_stat (ce_io E) p \<noteq> None \<or> files d p = None)"
  using assms(2)
proof (cases rule: ProvisionAgentTokenFile_cases)
  case 1
  note v = GenerateRandomToken_valid [OF assms(1) 1(3)]
  have "\<not> list_ex (\<lambda>ch. \<not> IsAsciiTokenChar ch) (wide (GenerateRandomToken E))"
    using v IsValidTokenText_wide [of "GenerateRandomToken E"] by (auto simp: IsValidTokenText_def list_ex_iff list_all_iff)
  then have "ReadAgentTokenFile E p d' = Success (wide (GenerateRandomToken E))"
    using 1(4) assms(3,4) v by (simp add: ReadAgentTokenFile_def strip_trailing_token Let_def kTokenLength_def IsValidIpcToken_def)
  then show ?thesis using 1 v RestrictFileDacl_ok [OF 1(5)] by (auto simp: kTokenLength_def path_exists_def split: option.splits)
qed

text \<open>the three checks of a token agree: the one of the token file, the one of the command line and the one of the
  facts a server receives.  Hence a token that was read from the file is always accepted by the schema.\<close>
theorem token_checks_agree:
  "(IsValidTokenText (wide t) \<longleftrightarrow> IsValidIpcToken t) \<and>
   (schema_fact st \<lparr>fkey = ''agent_token'', fval = t\<rparr> = Success st \<longleftrightarrow> IsValidIpcToken t) \<and>
   (ReadAgentTokenFile E p d = Success (wide t) \<longrightarrow> schema_fact st \<lparr>fkey = ''agent_token'', fval = t\<rparr> = Success st)"
proof -
  have s: "schema_fact st \<lparr>fkey = ''agent_token'', fval = t\<rparr> = Success st \<longleftrightarrow> IsValidIpcToken t"
    by (auto simp: schema_fact_def IsValidIpcToken_def is_alnum_def list_ex_iff list_all_iff facts_limits)
  then show ?thesis using IsValidTokenText_wide [of t] ReadAgentTokenFile_valid [of E p d "wide t"] by blast
qed

section \<open>Runs\<close>

definition cred_demo :: cred_env where
  "cred_demo = \<lparr>ce_io = no_faults, ce_sysmsg = (\<lambda>_. []), ce_localAppData = None, ce_random = (\<lambda>n. Some (replicate n 61)),
     ce_sid = \<lparr>su_openToken = True, su_needed = 44, su_getInfo = True, su_sidNull = False, su_text = Some ''S-1-5-21''\<rparr>,
     ce_convert = (\<lambda>_. None), ce_setSecurity = (\<lambda>_. None)\<rparr>"

lemma demo_token: "GenerateRandomToken cred_demo = replicate 32 (CHR ''9'')"
  by (simp add: GenerateRandomToken_def cred_demo_def kTokenLength_def token_letter_def kTokenAlphabet_def)

lemma demo_provision:
  "\<exists>d' acl'. ProvisionAgentTokenFile cred_demo ''d/t'' False (empty_disk, \<lambda>_. None) = (Success (), d', acl')"
proof -
  have io: "ce_io cred_demo = no_faults" by (simp add: cred_demo_def)
  have pp: "parent_path ''d/t'' = ''d''" and an: "''d/t'' \<notin> set (ancestors ''d'')" by code_simp+
  define d1 where "d1 = empty_disk\<lparr>dirs := \<lambda>q. q \<in> set (ancestors ''d'')\<rparr>"
  have c: "create_directories no_faults (parent_path ''d/t'') empty_disk = (Inr (), d1)"
    unfolding pp by (simp add: create_directories_named d1_def no_faults_def empty_disk_def)
  have w: "WriteTokenFile cred_demo ''d/t'' x d1 = (None, d1\<lparr>files := [''d/t'' \<mapsto> x]\<rparr>)" for x
    using an by (simp add: WriteTokenFile_def io open_write_def write_flush_def set_file_def no_faults_def empty_disk_def d1_def)
  have "\<exists>acl'. RestrictFileDacl cred_demo ''d/t'' (\<lambda>_. None) = (Success (), acl')"
    by (simp add: RestrictFileDacl_def cred_demo_def CurrentUserSid_def)
  then show ?thesis using c w
    by (auto simp: ProvisionAgentTokenFile_def io demo_token Let_def path_exists_def no_faults_def empty_disk_def)
qed

theorem token_provision_roundtrip_witness:
  "\<exists>d' acl'. ProvisionAgentTokenFile cred_demo ''d/t'' False (empty_disk, \<lambda>_. None) = (Success (), d', acl') \<and>
     ReadAgentTokenFile cred_demo ''d/t'' d' = Success (wide (replicate 32 (CHR ''9''))) \<and>
     acl' ''d/t'' = Some ''D:P(A;;FA;;;SY)(A;;FA;;;S-1-5-21)''"
proof -
  obtain d' acl' where p: "ProvisionAgentTokenFile cred_demo ''d/t'' False (empty_disk, \<lambda>_. None) = (Success (), d', acl')"
    using demo_provision by blast
  show ?thesis using token_provision_roundtrip [OF _ p] p
    by (simp add: demo_token) (simp add: cred_demo_def no_faults_def CurrentUserSid_def private_sddl_def)
qed

theorem token_checks_agree_witness:
  "ReadAgentTokenFile cred_demo ''d/t'' (empty_disk\<lparr>files := [''d/t'' \<mapsto> ''a-9'' @ [LF]]\<rparr>) = Success (wide ''a-9'') \<and>
   schema_fact \<lparr>hasNonCredential = False, totalMb = None, availableMb = None\<rparr> \<lparr>fkey = ''agent_token'', fval = ''a-9''\<rparr> =
     Success \<lparr>hasNonCredential = False, totalMb = None, availableMb = None\<rparr>"
proof -
  have r: "ReadAgentTokenFile cred_demo ''d/t'' (empty_disk\<lparr>files := [''d/t'' \<mapsto> ''a-9'' @ [LF]]\<rparr>) = Success (wide ''a-9'')"
    by (simp add: ReadAgentTokenFile_def cred_demo_def no_faults_def strip_trailing_def is_trailing_def wide_def IsAsciiTokenChar_def)
  then show ?thesis using token_checks_agree [of "''a-9''"] by blast
qed

section \<open>What goes wrong\<close>

text \<open>When the access list cannot be set the token stays in the file, readable and without a list of its own.\<close>

lemma dacl_failure_leaves_token:
  assumes "\<And>bytes. ce_random E kTokenLength = Some bytes \<Longrightarrow> length bytes = kTokenLength"
    and "WriteTokenFile E p (GenerateRandomToken E) (snd (create_directories (ce_io E) (parent_path p) d)) = (None, d2)"
    and "fst (create_directories (ce_io E) (parent_path p) d) = Inr ()" and "p \<noteq> []" and "GenerateRandomToken E \<noteq> []"
    and "fail_stat (ce_io E) p = None" "fail_open_read (ce_io E) p = None" "fail_read (ce_io E) p = None" and "ce_setSecurity E p \<noteq> None"
  shows "\<exists>e. ProvisionAgentTokenFile E p True (d, acl) = (Failure e, d2, acl) \<and> IsAgentTokenProvisioned E p d2 \<and>
     (\<exists>e2. ProvisionAgentTokenFile E p False (d2, acl) = (Failure e2, d2, acl))"
proof -
  obtain d1 where c: "create_directories (ce_io E) (parent_path p) d = (Inr (), d1)" using assms(3) by (metis prod.collapse)
  have "\<exists>e. RestrictFileDacl E p acl = (Failure e, acl)"
    using assms(9) by (auto simp: RestrictFileDacl_def Let_def split: option.splits)
  then obtain e where r: "RestrictFileDacl E p acl = (Failure e, acl)" ..
  have f: "files d2 p = Some (GenerateRandomToken E)" using WriteTokenFile_ok [OF assms(2)] by simp
  note v = GenerateRandomToken_valid [OF assms(1) assms(5)]
  have "\<not> list_ex (\<lambda>ch. \<not> IsAsciiTokenChar ch) (wide (GenerateRandomToken E))"
    using v IsValidTokenText_wide [of "GenerateRandomToken E"] by (auto simp: IsValidTokenText_def list_ex_iff list_all_iff)
  then have "IsAgentTokenProvisioned E p d2"
    using f assms(7,8) v by (simp add: IsAgentTokenProvisioned_def ReadAgentTokenFile_def strip_trailing_token Let_def
        kTokenLength_def IsValidIpcToken_def)
  moreover have "ProvisionAgentTokenFile E p True (d, acl) = (Failure e, d2, acl)"
    using assms(2,4,5) c r by (simp add: ProvisionAgentTokenFile_def Let_def)
  moreover have "\<exists>e2. ProvisionAgentTokenFile E p False (d2, acl) = (Failure e2, d2, acl)"
    using f assms(4,6) by (simp add: ProvisionAgentTokenFile_def path_exists_def)
  ultimately show ?thesis by blast
qed

text \<open>The first eight letters of the alphabet are more likely than the others: 256 is not a multiple of 62.\<close>

lemma token_letters_biased:
  "length (filter (\<lambda>n. kTokenAlphabet ! (n mod 62) = CHR ''A'') [0 ..< 256]) = 5"
  "length (filter (\<lambda>n. kTokenAlphabet ! (n mod 62) = CHR ''9'') [0 ..< 256]) = 4"
  by code_simp+

text \<open>The search for the suffix skips the word after \<^verbatim>\<open>--session\<close>, which has no value.\<close>

lemma session_swallows_suffix:
  "HasIpcSessionFlag [''--session'', ''x'']" "FindIpcSuffix [''--session'', ''x''] = []" "FindIpcSuffix [''x'', ''--session''] = ''x''"
  "FindIpcSuffix [''--session'', ''--frames'', ''3''] = ''3''"
  by (simp_all add: HasIpcSessionFlag_def FindIpcSuffix_def value_options_def)

text \<open>Without \<^verbatim>\<open>--session\<close> the suffix is the first word that is neither an option nor its value, wherever the options stand.\<close>

lemma find_suffix_options:
  assumes "\<forall>(o', v) \<in> set os. o' \<in> set value_options"
  shows "find_suffix (concat (map (\<lambda>(o', v). [o', v]) os) @ as) False s = find_suffix as False s"
  using assms by (induction os) auto

lemma find_suffix_taken: "s \<noteq> [] \<Longrightarrow> find_suffix as skip s = s"
  by (induction as arbitrary: skip) auto

lemma FindIpcSuffix_first_word:
  assumes "\<forall>(o', v) \<in> set os. o' \<in> set value_options" and "w \<notin> set value_options" and "w \<noteq> ''--session''" and "w \<noteq> []"
  shows "FindIpcSuffix (concat (map (\<lambda>(o', v). [o', v]) os) @ w # rest) = w"
  using assms by (simp add: FindIpcSuffix_def find_suffix_options find_suffix_taken)

end
