(* ===== verification/Host_Control.thy ===== *)
theory Host_Control
  imports Service_Host
begin

text \<open>
  The sides of the service host that other threads drive (\<^verbatim>\<open>source/service/service_host.cpp\<close>): the console mode
  with its signal handler, the production backend towards the service control manager, and the control
  callback.  The callback runs beside the main thread; a step relation interleaves their accesses to
  the current state.
\<close>

section \<open>The console mode\<close>

text \<open>The pointer to the active host, the stop request and the registration of the signal handler.\<close>

record 's console_ops =
  cn_setActive :: "bool \<Rightarrow> 's \<Rightarrow> 's"
  cn_active :: "'s \<Rightarrow> bool"
  cn_requestStop :: "'s \<Rightarrow> 's"
  cn_SetConsoleCtrlHandler :: "bool \<Rightarrow> 's \<Rightarrow> (u32 + unit) \<times> 's"

text \<open>\<^verbatim>\<open>CTRL_C_EVENT\<close>, \<^verbatim>\<open>CTRL_BREAK_EVENT\<close>, \<^verbatim>\<open>CTRL_CLOSE_EVENT\<close> and \<^verbatim>\<open>CTRL_SHUTDOWN_EVENT\<close>.\<close>

definition stop_events :: "u32 list" where "stop_events = [0, 1, 2, 6]"

definition ConsoleSignalHandler :: "'s console_ops \<Rightarrow> u32 \<Rightarrow> 's \<Rightarrow> bool \<times> 's" where
  "ConsoleSignalHandler K ev s =
     (if ev \<in> set stop_events then (True, if cn_active K s then cn_requestStop K s else s) else (False, s))"

text \<open>Seconds of the bound, milliseconds of the clock.\<close>

definition RunConsole ::
  "(u32 \<Rightarrow> string) \<Rightarrow> 's host_env \<Rightarrow> 's console_ops \<Rightarrow> int option \<Rightarrow> 's \<Rightarrow> (unit result \<times> 's) option" where
  "RunConsole sysmsg he K boundedFor s =
     (if (case boundedFor of None \<Rightarrow> False | Some n \<Rightarrow> n \<le> 0)
      then Some (Failure (Error_Validation ''RunConsole'' ''boundedFor must be a positive number of seconds''), s)
      else (case cn_SetConsoleCtrlHandler K True (cn_setActive K True s) of
              (Inl c, s1) \<Rightarrow> Some (Failure (FromWin32 sysmsg c ''SetConsoleCtrlHandler''), cn_setActive K False s1)
            | (Inr _, s1) \<Rightarrow>
                (let (deadline, s2) = (case boundedFor of None \<Rightarrow> (None, s1)
                       | Some n \<Rightarrow> (let (now, s') = he_now he s1 in (Some (now + 1000 * n), s')))
                 in case RunLoop he deadline s2 of
                      None \<Rightarrow> None
                    | Some (loop, s3) \<Rightarrow> Some (loop, snd (cn_SetConsoleCtrlHandler K False (cn_setActive K False s3))))))"

section \<open>The service control manager\<close>

text \<open>
  \<open>sx_Register\<close> and \<open>sx_SetStatus\<close> are the calls of the control manager, \<open>sx_Dispatch\<close> the error of the dispatcher,
  if it cannot connect; otherwise it calls the service main function and returns when that has ended.
\<close>

record service_status =
  ss_type :: u32
  ss_currentState :: u32
  ss_controlsAccepted :: u32
  ss_exitCode :: u32
  ss_checkPoint :: u32
  ss_waitHint :: u32

record 's scm_calls =
  sx_Register :: "wstring \<Rightarrow> 's \<Rightarrow> u64 \<times> 's"
  sx_SetStatus :: "u64 \<Rightarrow> service_status \<Rightarrow> 's \<Rightarrow> bool \<times> 's"
  sx_Dispatch :: "wstring \<Rightarrow> 's \<Rightarrow> u32 option"
  sx_GetLastError :: "'s \<Rightarrow> u32"

record 's scm_backend =
  sw_hasHandler :: bool
  sw_statusHandle :: u64
  sw_env :: 's

definition ToScmState :: "ServiceState \<Rightarrow> u32" where
  "ToScmState st = (case st of StartPending \<Rightarrow> 2 | Running \<Rightarrow> 4 | StopPending \<Rightarrow> 3 | Stopped \<Rightarrow> 1 | SS_Unknown \<Rightarrow> 1)"

definition Win32_RegisterControlHandler ::
  "(u32 \<Rightarrow> string) \<Rightarrow> 's scm_calls \<Rightarrow> wstring \<Rightarrow> 's scm_backend \<Rightarrow> unit result \<times> 's scm_backend" where
  "Win32_RegisterControlHandler sysmsg A name b =
     (case sx_Register A name (sw_env b) of (h, s) \<Rightarrow>
      let b1 = b\<lparr>sw_hasHandler := True, sw_statusHandle := h, sw_env := s\<rparr>
      in if h = 0 then (Failure (FromWin32 sysmsg (sx_GetLastError A s) ''RegisterServiceCtrlHandlerExW''), b1)
         else (Success (), b1))"

definition Win32_ReportStatus ::
  "(u32 \<Rightarrow> string) \<Rightarrow> 's scm_calls \<Rightarrow> ServiceStatusReport \<Rightarrow> 's scm_backend \<Rightarrow> unit result \<times> 's scm_backend" where
  "Win32_ReportStatus sysmsg A rep b =
     (if sw_statusHandle b = 0
      then (Failure (Error_Validation ''ReportStatus'' ''the control handler is not registered''), b)
      else (case sx_SetStatus A (sw_statusHandle b)
                   \<lparr>ss_type = 0x10, ss_currentState = ToScmState (rep_state rep), ss_controlsAccepted = rep_controlsAccepted rep,
                    ss_exitCode = rep_win32ExitCode rep, ss_checkPoint = rep_checkPoint rep, ss_waitHint = rep_waitHintMs rep\<rparr>
                   (sw_env b) of
              (ok, s) \<Rightarrow>
                (if ok then Success () else Failure (FromWin32 sysmsg (sx_GetLastError A s) ''SetServiceStatus''), b\<lparr>sw_env := s\<rparr>)))"

text \<open>The environment of the host with this backend.\<close>

definition scm_host_env ::
  "(u32 \<Rightarrow> string) \<Rightarrow> 's scm_calls \<Rightarrow> wstring \<Rightarrow> 's scm_backend host_env \<Rightarrow> 's scm_backend host_env" where
  "scm_host_env sysmsg A name he =
     he\<lparr>he_RegisterControlHandler := Win32_RegisterControlHandler sysmsg A name, he_ReportStatus := Win32_ReportStatus sysmsg A\<rparr>"

text \<open>The trampoline drops the result of the main function.\<close>

definition RunServiceDispatcher ::
  "(u32 \<Rightarrow> string) \<Rightarrow> 's scm_calls \<Rightarrow> wstring \<Rightarrow> ('s scm_backend host \<Rightarrow> (unit result \<times> 's scm_backend host) option) \<Rightarrow>
   's scm_backend host \<Rightarrow> (unit result \<times> 's scm_backend host) option" where
  "RunServiceDispatcher sysmsg A name serviceMain h =
     (case sx_Dispatch A name (sw_env (h_env h)) of
        Some c \<Rightarrow> Some (Failure (FromWin32 sysmsg c ''StartServiceCtrlDispatcherW''), h)
      | None \<Rightarrow> (case serviceMain h of None \<Rightarrow> None | Some (_, h') \<Rightarrow> Some (Success (), h')))"

definition RunService ::
  "(u32 \<Rightarrow> string) \<Rightarrow> 's scm_calls \<Rightarrow> wstring \<Rightarrow> 's scm_backend host_env \<Rightarrow> 's scm_backend host \<Rightarrow>
   (unit result \<times> 's scm_backend host) option" where
  "RunService sysmsg A name he h = RunServiceDispatcher sysmsg A name (RunServiceMain (scm_host_env sysmsg A name he)) h"

section \<open>The control callback\<close>

definition SERVICE_CONTROL_STOP :: u32 where "SERVICE_CONTROL_STOP = 1"
definition SERVICE_CONTROL_INTERROGATE :: u32 where "SERVICE_CONTROL_INTERROGATE = 4"
definition SERVICE_CONTROL_SHUTDOWN :: u32 where "SERVICE_CONTROL_SHUTDOWN = 5"

definition HandleControl :: "'s host_env \<Rightarrow> ('s \<Rightarrow> 's) \<Rightarrow> u32 \<Rightarrow> 's host \<Rightarrow> 's host" where
  "HandleControl he requestStop code h =
     (if code = SERVICE_CONTROL_STOP \<or> code = SERVICE_CONTROL_SHUTDOWN then h\<lparr>h_env := requestStop (h_env h)\<rparr>
      else if code = SERVICE_CONTROL_INTERROGATE then snd (ReReportCurrentStatus he h)
      else h)"

text \<open>
  The same seen from two threads.  A transition of the main thread stores the state and then reports it;
  an interrogation loads the state and then reports what it loaded.
\<close>

record control_view =
  cv_state :: ServiceState
  cv_toReport :: "ServiceState option"
  cv_loaded :: "ServiceState option"
  cv_stop :: bool
  cv_reports :: "ServiceState list"

definition control_start :: control_view where
  "control_start = \<lparr>cv_state = SS_Unknown, cv_toReport = None, cv_loaded = None, cv_stop = False, cv_reports = []\<rparr>"

inductive control_step :: "control_view \<Rightarrow> control_view \<Rightarrow> bool" where
  store: "cv_toReport v = None \<Longrightarrow> legal_transition (cv_state v) nxt \<Longrightarrow>
     control_step v (v\<lparr>cv_state := nxt, cv_toReport := Some nxt\<rparr>)"
| report: "cv_toReport v = Some st \<Longrightarrow> control_step v (v\<lparr>cv_toReport := None, cv_reports := cv_reports v @ [st]\<rparr>)"
| load: "cv_loaded v = None \<Longrightarrow> cv_state v \<noteq> SS_Unknown \<Longrightarrow> cv_state v \<noteq> Stopped \<Longrightarrow>
     control_step v (v\<lparr>cv_loaded := Some (cv_state v)\<rparr>)"
| answer: "cv_loaded v = Some st \<Longrightarrow> control_step v (v\<lparr>cv_loaded := None, cv_reports := cv_reports v @ [st]\<rparr>)"
| stop: "control_step v (v\<lparr>cv_stop := True\<rparr>)"

section \<open>What the loop keeps\<close>

text \<open>A relation that every step of the loop respects relates the start of the loop to its end.\<close>

lemma RunLoop_related:
  assumes refl: "\<And>s. R s s" and trans: "\<And>s s' s''. R s s' \<Longrightarrow> R s' s'' \<Longrightarrow> R s s''"
    and work: "\<And>s w s'. he_workload he s = (w, s') \<Longrightarrow> R s s'" and wait: "\<And>s. R s (he_wait he s)"
    and now: "\<And>s n s'. he_now he s = (n, s') \<Longrightarrow> R s s'" and loop: "RunLoop he deadline s = Some (r, s')"
  shows "R s s'"
proof -
  have "he' = he \<longrightarrow> R s (snd y)" if run: "RunLoop he' deadline s = Some y" for he' y
  proof (rule RunLoop.raw_induct [where P = "\<lambda>he' _ s y. he' = he \<longrightarrow> R s (snd y)", OF _ run], goal_cases)
    case (1 rl he' d s y)
    show ?case
    proof
      assume he: "he' = he"
      obtain b s1 where x: "(case d of None \<Rightarrow> (False, s) | Some d \<Rightarrow> (let (now, s') = he_now he s in (now \<ge> d, s'))) = (b, s1)"
        by fastforce
      then have s1: "R s s1" using now refl by (auto split: option.splits prod.splits)
      obtain w s2 where w: "he_workload he s1 = (w, s2)" by fastforce
      with s1 work trans have s2: "R s s2" by metis
      show "R s (snd y)"
      proof (cases "he_stopRequested he s \<or> b \<or> \<not> HasValue w")
        case True
        with 1(2) he x w have "snd y \<in> {s, s1, s2}" by (auto simp: Let_def split: if_splits) (metis snd_conv)
        with refl s1 s2 show ?thesis by blast
      next
        case False
        then have "rl he d (he_wait he s2) = Some y"
          using 1(2) w unfolding he by (simp add: x Let_def)
        with 1(1) he have "R (he_wait he s2) (snd y)" by blast
        with wait s2 trans show ?thesis by metis
      qed
    qed
  qed
  from this [OF loop] show ?thesis by simp
qed

lemma RunLoop_keeps:
  assumes "\<And>s w s'. he_workload he s = (w, s') \<Longrightarrow> f s' = f s" and "\<And>s. f (he_wait he s) = f s"
    and "\<And>s n s'. he_now he s = (n, s') \<Longrightarrow> f s' = f s" and loop: "RunLoop he deadline s = Some (r, s')"
  shows "f s' = f s"
  by (rule RunLoop_related [where R = "\<lambda>s s'. f s' = f s" and he = he, OF _ _ _ _ _ loop]) (simp_all add: assms)

section \<open>The console mode leaves nothing behind\<close>

text \<open>\<open>act\<close> and \<open>hnd\<close>: whether a host is active, and how many handlers are registered.\<close>

locale console_host =
  fixes he :: "'s host_env" and K :: "'s console_ops" and act :: "'s \<Rightarrow> bool" and hnd :: "'s \<Rightarrow> nat"
  assumes active: "cn_active K s = act s"
    and set_active: "act (cn_setActive K b s) = b" "hnd (cn_setActive K b s) = hnd s"
    and install_ok: "cn_SetConsoleCtrlHandler K True s = (Inr u, s') \<Longrightarrow> act s' = act s \<and> hnd s' = hnd s + 1"
    and install_fail: "cn_SetConsoleCtrlHandler K True s = (Inl c, s') \<Longrightarrow> act s' = act s \<and> hnd s' = hnd s"
    and uninstall: "hnd s > 0 \<Longrightarrow> cn_SetConsoleCtrlHandler K False s = (r, s') \<Longrightarrow> act s' = act s \<and> hnd s' = hnd s - 1"
    and workload: "he_workload he s = (w, s') \<Longrightarrow> act s' = act s \<and> hnd s' = hnd s"
    and wait: "act (he_wait he s) = act s" "hnd (he_wait he s) = hnd s"
    and clock: "he_now he s = (t, s') \<Longrightarrow> act s' = act s \<and> hnd s' = hnd s"
begin

lemma loop_keeps:
  assumes "RunLoop he deadline s = Some (r, s')"
  shows "act s' = act s \<and> hnd s' = hnd s"
  using RunLoop_keeps [where f = "\<lambda>s. (act s, hnd s)", OF _ _ _ assms] workload wait clock by auto

lemma RunConsole_clean:
  assumes run: "RunConsole sysmsg he K bound s = Some (r, s')" and idle: "\<not> act s"
  shows "\<not> act s' \<and> hnd s' = hnd s"
proof (cases "case bound of None \<Rightarrow> False | Some n \<Rightarrow> n \<le> 0")
  case True
  with run idle show ?thesis by (auto simp: RunConsole_def)
next
  case False
  obtain inst s1 where i: "cn_SetConsoleCtrlHandler K True (cn_setActive K True s) = (inst, s1)" by fastforce
  show ?thesis
  proof (cases inst)
    case (Inl c)
    with run False i install_fail set_active show ?thesis by (auto simp: RunConsole_def split: option.splits)
  next
    case (Inr u)
    with i install_ok set_active have s1: "hnd s1 = hnd s + 1" by fastforce
    define start where "start = (case bound of None \<Rightarrow> (None, s1)
        | Some n \<Rightarrow> (let (now, s') = he_now he s1 in (Some (now + 1000 * n), s')))"
    obtain d s2 where st: "start = (d, s2)" by fastforce
    with s1 clock have s2: "hnd s2 = hnd s + 1" by (fastforce simp: start_def split: option.splits prod.splits)
    from run False i Inr st obtain s3 where l: "RunLoop he d s2 = Some (r, s3)"
      and s': "s' = snd (cn_SetConsoleCtrlHandler K False (cn_setActive K False s3))"
      by (cases bound) (auto simp: RunConsole_def start_def split: option.splits)
    obtain z where "cn_SetConsoleCtrlHandler K False (cn_setActive K False s3) = (z, s')" using s' by (metis prod.collapse)
    with uninstall [of "cn_setActive K False s3"] loop_keeps [OF l] s2 set_active show ?thesis by force
  qed
qed

end

text \<open>
  A console: the signals arrive one per wait, each through the handler while one is registered.  \<open>work\<close> gives the
  result of each tick, \<open>inst\<close> the error of the registration, if it fails.
\<close>

record console =
  cs_active :: bool
  cs_handlers :: nat
  cs_stop :: bool
  cs_clock :: int
  cs_ticks :: nat
  cs_signals :: "u32 option list"

definition console_calls :: "u32 option \<Rightarrow> console console_ops" where
  "console_calls inst =
     \<lparr>cn_setActive = \<lambda>b s. s\<lparr>cs_active := b\<rparr>, cn_active = cs_active, cn_requestStop = \<lambda>s. s\<lparr>cs_stop := True\<rparr>,
      cn_SetConsoleCtrlHandler = \<lambda>add s.
        if add then (case inst of Some c \<Rightarrow> (Inl c, s) | None \<Rightarrow> (Inr (), s\<lparr>cs_handlers := cs_handlers s + 1\<rparr>))
        else (Inr (), s\<lparr>cs_handlers := cs_handlers s - 1\<rparr>)\<rparr>"

definition deliver :: "console \<Rightarrow> console" where
  "deliver s =
     (case cs_signals s of
        Some ev # evs \<Rightarrow>
          (if cs_handlers s > 0 then snd (ConsoleSignalHandler (console_calls None) ev (s\<lparr>cs_signals := evs\<rparr>)) else s\<lparr>cs_signals := evs\<rparr>)
      | _ \<Rightarrow> s\<lparr>cs_signals := tl (cs_signals s)\<rparr>)"

definition console_env :: "int \<Rightarrow> (nat \<Rightarrow> unit result) \<Rightarrow> console host_env" where
  "console_env interval work =
     \<lparr>he_RegisterControlHandler = \<lambda>s. (Success (), s), he_ReportStatus = \<lambda>_ s. (Success (), s),
      he_workload = \<lambda>s. (work (cs_ticks s), s\<lparr>cs_ticks := cs_ticks s + 1\<rparr>),
      he_stopRequested = cs_stop, he_now = \<lambda>s. (cs_clock s, s),
      he_wait = \<lambda>s. deliver (s\<lparr>cs_clock := cs_clock s + interval\<rparr>)\<rparr>"

lemma deliver_keeps: "cs_active (deliver s) = cs_active s" "cs_handlers (deliver s) = cs_handlers s"
  by (auto simp: deliver_def ConsoleSignalHandler_def console_calls_def split: list.splits option.splits)

interpretation console: console_host "console_env interval work" "console_calls inst" cs_active cs_handlers for interval work inst
  by unfold_locales (auto simp: console_env_def console_calls_def deliver_keeps split: option.splits)

text \<open>The loop on this console, until the first stop signal.\<close>

lemma console_env_simps [simp]:
  "he_workload (console_env i work) s = (work (cs_ticks s), s\<lparr>cs_ticks := cs_ticks s + 1\<rparr>)"
  "he_stopRequested (console_env i work) = cs_stop"
  "he_now (console_env i work) s = (cs_clock s, s)"
  "he_wait (console_env i work) s = deliver (s\<lparr>cs_clock := cs_clock s + i\<rparr>)"
  by (simp_all add: console_env_def)

lemma deliver_stop:
  assumes "cs_signals s = Some ev # evs" "cs_active s" "cs_handlers s > 0" "ev \<in> set stop_events"
  shows "deliver s = s\<lparr>cs_signals := evs, cs_stop := True\<rparr>"
  using assms by (simp add: deliver_def ConsoleSignalHandler_def console_calls_def)

lemma console_loop_stops:
  assumes "cs_signals s = replicate k None @ Some ev # evs" and "ev \<in> set stop_events"
    and "cs_active s" "cs_handlers s > 0" "\<not> cs_stop s" and "\<forall>j \<le> k. HasValue (work (cs_ticks s + j))"
  shows "\<exists>s'. RunLoop (console_env i work) None s = Some (Success (), s') \<and> cs_ticks s' = cs_ticks s + k + 1"
  using assms
proof (induction k arbitrary: s)
  case 0
  then have "HasValue (work (cs_ticks s))" by (metis add_0_right le_refl)
  with 0 show ?case
    by (subst RunLoop.simps, subst RunLoop.simps) (simp add: deliver_stop)
next
  case (Suc k)
  define nx where "nx = s\<lparr>cs_ticks := Suc (cs_ticks s), cs_clock := cs_clock s + i, cs_signals := replicate k None @ Some ev # evs\<rparr>"
  have n: "deliver (s\<lparr>cs_ticks := Suc (cs_ticks s), cs_clock := cs_clock s + i\<rparr>) = nx"
    using Suc.prems(1) by (simp add: deliver_def nx_def)
  have "HasValue (work (cs_ticks s))" using Suc.prems(6) by (metis add_0_right le0)
  then have step: "RunLoop (console_env i work) None s = RunLoop (console_env i work) None nx"
    using Suc.prems(5) by (subst RunLoop.simps) (simp add: n)
  have "\<forall>j \<le> k. HasValue (work (cs_ticks nx + j))"
    using Suc.prems(6) by (auto simp: nx_def)
  then have "\<exists>s'. RunLoop (console_env i work) None nx = Some (Success (), s') \<and> cs_ticks s' = cs_ticks nx + k + 1"
    using Suc.prems by (intro Suc.IH) (simp_all add: nx_def)
  then show ?case by (simp add: step) (simp add: nx_def)
qed

text \<open>
  C13: A console run that ends, by a stop signal, its deadline, a failing tick, a refused bound or a refused
  registration, leaves no host in the active pointer and the handlers as they were, whatever the workload and
  the clock do.  The console's side of it: removing a registered handler takes effect; the code ignores the
  result of that call and could not tell.\<close>
theorem RunConsole_leaves_nothing:
  assumes "console_host he K act hnd" and "RunConsole sysmsg he K bound s = Some (r, s')" and "\<not> act s"
  shows "\<not> act s' \<and> hnd s' = hnd s"
  using console_host.RunConsole_clean [OF assms] .

text \<open>A console with one other handler, whose second wait brings a stop signal.\<close>

definition quiet_console :: console where
  "quiet_console = \<lparr>cs_active = False, cs_handlers = 1, cs_stop = False, cs_clock = 0, cs_ticks = 0, cs_signals = [None, Some 0]\<rparr>"

theorem RunConsole_leaves_nothing_witness:
  "case RunConsole (\<lambda>_. []) (console_env 500 (\<lambda>n. if n = 1 then Failure (Error_Validation ''tick'' []) else Success ()))
          (console_calls None) None quiet_console of
     None \<Rightarrow> False
   | Some (r, s') \<Rightarrow> \<not> HasValue r \<and> \<not> cs_active s' \<and> cs_handlers s' = 1"
proof -
  let ?run = "RunConsole (\<lambda>_. []) (console_env 500 (\<lambda>n. if n = 1 then Failure (Error_Validation ''tick'' []) else Success ()))
          (console_calls None) None quiet_console"
  have "?run \<noteq> None \<and> \<not> HasValue (fst (the ?run))" by code_simp
  then obtain r s' where run: "?run = Some (r, s')" "\<not> HasValue r" by auto
  with RunConsole_leaves_nothing [OF console.console_host_axioms run(1)] show ?thesis
    by (simp add: quiet_console_def)
qed

text \<open>
  An unbounded console run whose ticks succeed ends with success on the first stop signal, after one more
  tick than waits without a signal, and leaves the console as it found it.\<close>
theorem console_signal_ends_run:
  assumes "cs_signals s = replicate k None @ Some ev # evs" and "ev \<in> set stop_events"
    and "\<not> cs_active s" "\<not> cs_stop s" and "\<forall>j \<le> k. HasValue (work (cs_ticks s + j))"
  shows "\<exists>s'. RunConsole sysmsg (console_env i work) (console_calls None) None s = Some (Success (), s') \<and>
    cs_ticks s' = cs_ticks s + k + 1 \<and> \<not> cs_active s' \<and> cs_handlers s' = cs_handlers s"
proof -
  let ?s1 = "s\<lparr>cs_active := True, cs_handlers := cs_handlers s + 1\<rparr>"
  have "\<exists>s3. RunLoop (console_env i work) None ?s1 = Some (Success (), s3) \<and> cs_ticks s3 = cs_ticks ?s1 + k + 1"
    using assms by (intro console_loop_stops [of _ k ev evs]) simp_all
  then obtain s3 where l: "RunLoop (console_env i work) None ?s1 = Some (Success (), s3)" "cs_ticks s3 = cs_ticks s + k + 1"
    by auto
  have "cs_handlers s3 = cs_handlers s + 1" using console.loop_keeps [OF l(1)] by simp
  with l show ?thesis by (simp add: RunConsole_def console_calls_def)
qed

theorem console_signal_ends_run_witness:
  "\<exists>s'. RunConsole (\<lambda>_. []) (console_env 500 (\<lambda>_. Success ())) (console_calls None) None quiet_console = Some (Success (), s') \<and>
     cs_ticks s' = 2 \<and> \<not> cs_active s' \<and> cs_handlers s' = 1"
  using console_signal_ends_run [of quiet_console 1 0 "[]" "\<lambda>_. Success ()" "\<lambda>_. []" 500]
  by (simp add: quiet_console_def stop_events_def numeral_2_eq_2)

section \<open>What the control manager is told\<close>

text \<open>The status of a report.\<close>

definition status_of :: "ServiceStatusReport \<Rightarrow> service_status" where
  "status_of rep =
     \<lparr>ss_type = 0x10, ss_currentState = ToScmState (rep_state rep), ss_controlsAccepted = rep_controlsAccepted rep,
      ss_exitCode = rep_win32ExitCode rep, ss_checkPoint = rep_checkPoint rep, ss_waitHint = rep_waitHintMs rep\<rparr>"

text \<open>
  An interrogation is answered with the state reported last, without exit code and hints, as long as the
  service has not stopped; \<open>answered st n\<close> is the status \<open>st\<close> followed by \<open>n\<close> such answers.
\<close>

definition again :: "service_status \<Rightarrow> service_status" where
  "again st = st\<lparr>ss_exitCode := 0, ss_checkPoint := 0, ss_waitHint := 0\<rparr>"

definition answered :: "service_status \<Rightarrow> nat \<Rightarrow> service_status list" where
  "answered st n = st # replicate n (again st)"

text \<open>
  A manager that takes registration and statuses.  It may interrogate the service at any time between the
  reports, also while the loop works, waits or reads the clock: \<open>told\<close> is the list of statuses it
  has got, from the main thread and from the control callback.
\<close>

locale control_manager =
  fixes A :: "'s scm_calls" and he :: "'s scm_backend host_env" and told :: "'s \<Rightarrow> service_status list"
  assumes registers: "sx_Register A name s = (h, s') \<Longrightarrow> h \<noteq> 0 \<and> told s' = told s"
    and takes: "sx_SetStatus A h st s = (ok, s') \<Longrightarrow>
      ok \<and> (\<exists>n. told s' = told s @ answered st n \<and> (ss_currentState st = ToScmState Stopped \<longrightarrow> n = 0))"
    and work: "he_workload he b = (w, b') \<Longrightarrow> sw_statusHandle b' = sw_statusHandle b \<and>
      (\<exists>n. told (sw_env b') = told (sw_env b) @ replicate n (status_of (MakeStatusReport Running 0 0 0)))"
    and waits: "sw_statusHandle (he_wait he b) = sw_statusHandle b"
      "\<exists>n. told (sw_env (he_wait he b)) = told (sw_env b) @ replicate n (status_of (MakeStatusReport Running 0 0 0))"
    and reads: "he_now he b = (t, b') \<Longrightarrow> sw_statusHandle b' = sw_statusHandle b \<and>
      (\<exists>n. told (sw_env b') = told (sw_env b) @ replicate n (status_of (MakeStatusReport Running 0 0 0)))"
begin

lemma Transit_tells:
  assumes "Transit (scm_host_env sysmsg A name he) nxt x c wt h = (r, h')"
    and "legal_transition (h_state h) nxt" and "sw_statusHandle (h_env h) \<noteq> 0"
  shows "HasValue r \<and> h_state h' = nxt \<and> sw_statusHandle (h_env h') \<noteq> 0 \<and>
    (\<exists>n. told (sw_env (h_env h')) = told (sw_env (h_env h)) @ answered (status_of (MakeStatusReport nxt x c wt)) n \<and>
      (nxt = Stopped \<longrightarrow> n = 0))"
proof -
  let ?st = "status_of (MakeStatusReport nxt x c wt)"
  obtain ok s where set: "sx_SetStatus A (sw_statusHandle (h_env h)) ?st (sw_env (h_env h)) = (ok, s)" by fastforce
  have "ss_currentState ?st = ToScmState nxt" by (simp add: status_of_def MakeStatusReport_def)
  with takes [OF set] obtain n where ok and "told s = told (sw_env (h_env h)) @ answered ?st n" "nxt = Stopped \<longrightarrow> n = 0" by auto
  with assms set show ?thesis
    by (auto simp: Transit_def ValidateStateTransition_def report_status_def scm_host_env_def Win32_ReportStatus_def
        status_of_def [symmetric])
qed

lemma scm_loop_tells:
  assumes "RunLoop (scm_host_env sysmsg A name he) deadline b = Some (r, b')"
  shows "sw_statusHandle b' = sw_statusHandle b \<and>
    (\<exists>n. told (sw_env b') = told (sw_env b) @ replicate n (status_of (MakeStatusReport Running 0 0 0)))"
proof (rule RunLoop_related [where he = "scm_host_env sysmsg A name he" and R = "\<lambda>b b'. sw_statusHandle b' = sw_statusHandle b \<and>
    (\<exists>n. told (sw_env b') = told (sw_env b) @ replicate n (status_of (MakeStatusReport Running 0 0 0)))", OF _ _ _ _ _ assms], goal_cases)
  case (1 s)
  show ?case by (auto intro: exI [of _ 0])
next
  case (2 s s' s'')
  then show ?case by (metis append.assoc replicate_add)
qed (use work waits reads in \<open>auto simp: scm_host_env_def\<close>)

lemma stop_tells:
  assumes "stop_service (scm_host_env sysmsg A name he) loop h = (r, h')"
    and "h_state h = Running" and "sw_statusHandle (h_env h) \<noteq> 0"
  shows "r = loop \<and> (\<exists>n. told (sw_env (h_env h')) = told (sw_env (h_env h)) @
    answered (status_of (MakeStatusReport StopPending 0 2 kWaitHintMs)) n @
    [status_of (MakeStatusReport Stopped (if HasValue loop then 0 else 1) 0 0)])"
proof -
  let ?he = "scm_host_env sysmsg A name he"
  obtain r1 h1 where t1: "Transit ?he StopPending 0 2 kWaitHintMs h = (r1, h1)" by fastforce
  from Transit_tells [OF t1] assms(2,3) obtain n where k1: "HasValue r1" "h_state h1 = StopPending" "sw_statusHandle (h_env h1) \<noteq> 0"
    "told (sw_env (h_env h1)) = told (sw_env (h_env h)) @ answered (status_of (MakeStatusReport StopPending 0 2 kWaitHintMs)) n"
    by (auto simp: legal_transition_def)
  obtain r2 h2 where t2: "Transit ?he Stopped (if HasValue loop then 0 else 1) 0 0 h1 = (r2, h2)" by fastforce
  from Transit_tells [OF t2] k1 have k2: "HasValue r2"
    "told (sw_env (h_env h2)) = told (sw_env (h_env h1)) @ [status_of (MakeStatusReport Stopped (if HasValue loop then 0 else 1) 0 0)]"
    by (auto simp: legal_transition_def answered_def)
  from assms(1) t1 t2 k1(1) k2(1) have "r = loop \<and> h' = h2" by (cases r1; cases r2) (auto simp: stop_service_def)
  with k1(4) k2(2) show ?thesis by auto
qed

lemma RunServiceMain_tells:
  assumes "RunServiceMain (scm_host_env sysmsg A name he) h = Some (r, h')" and "h_state h = SS_Unknown"
  shows "\<exists>i j k. told (sw_env (h_env h')) = told (sw_env (h_env h)) @
    answered (status_of (MakeStatusReport StartPending 0 1 kWaitHintMs)) i @
    answered (status_of (MakeStatusReport Running 0 0 0)) j @
    answered (status_of (MakeStatusReport StopPending 0 2 kWaitHintMs)) k @
    [status_of (MakeStatusReport Stopped (if HasValue r then 0 else 1) 0 0)]"
proof -
  let ?he = "scm_host_env sysmsg A name he"
  obtain r0 s0 where g: "he_RegisterControlHandler ?he (h_env h) = (r0, s0)" by fastforce
  then have k0: "HasValue r0" "sw_statusHandle s0 \<noteq> 0" "told (sw_env s0) = told (sw_env (h_env h))"
    using registers by (fastforce simp: scm_host_env_def Win32_RegisterControlHandler_def Let_def split: prod.splits if_splits)+
  obtain r1 h1 where t1: "Transit ?he StartPending 0 1 kWaitHintMs (h\<lparr>h_env := s0\<rparr>) = (r1, h1)" by fastforce
  from Transit_tells [OF t1] k0 assms(2) obtain i where k1: "HasValue r1" "h_state h1 = StartPending" "sw_statusHandle (h_env h1) \<noteq> 0"
    "told (sw_env (h_env h1)) = told (sw_env (h_env h)) @ answered (status_of (MakeStatusReport StartPending 0 1 kWaitHintMs)) i"
    by (auto simp: legal_transition_def)
  obtain r2 h2 where t2: "Transit ?he Running 0 0 0 h1 = (r2, h2)" by fastforce
  from Transit_tells [OF t2] k1 obtain j where k2: "HasValue r2" "h_state h2 = Running" "sw_statusHandle (h_env h2) \<noteq> 0"
    "told (sw_env (h_env h2)) = told (sw_env (h_env h1)) @ answered (status_of (MakeStatusReport Running 0 0 0)) j"
    by (auto simp: legal_transition_def)
  from k0(1) k1(1) k2(1) assms(1) g t1 t2 obtain loop s where l: "RunLoop ?he None (h_env h2) = Some (loop, s)"
    and st: "stop_service ?he loop (h2\<lparr>h_env := s\<rparr>) = (r, h')"
    by (cases r0; cases r1; cases r2) (auto simp: RunServiceMain_def split: option.splits)
  from scm_loop_tells [OF l] obtain m where m: "sw_statusHandle s \<noteq> 0"
    "told (sw_env s) = told (sw_env (h_env h2)) @ replicate m (status_of (MakeStatusReport Running 0 0 0))" using k2(3) by auto
  have "again (status_of (MakeStatusReport Running 0 0 0)) = status_of (MakeStatusReport Running 0 0 0)"
    by (simp add: again_def status_of_def MakeStatusReport_def)
  then have j: "answered (status_of (MakeStatusReport Running 0 0 0)) j @ replicate m (status_of (MakeStatusReport Running 0 0 0)) =
      answered (status_of (MakeStatusReport Running 0 0 0)) (j + m)"
    by (simp add: answered_def replicate_add)
  from stop_tells [OF st] m(1) k2(2) obtain k where "r = loop" "told (sw_env (h_env h')) = told (sw_env s) @
    answered (status_of (MakeStatusReport StopPending 0 2 kWaitHintMs)) k @
    [status_of (MakeStatusReport Stopped (if HasValue loop then 0 else 1) 0 0)]" by auto
  then have "told (sw_env (h_env h')) = told (sw_env (h_env h)) @
    answered (status_of (MakeStatusReport StartPending 0 1 kWaitHintMs)) i @
    answered (status_of (MakeStatusReport Running 0 0 0)) (j + m) @
    answered (status_of (MakeStatusReport StopPending 0 2 kWaitHintMs)) k @
    [status_of (MakeStatusReport Stopped (if HasValue r then 0 else 1) 0 0)]"
    using k1(4) k2(4) m(2) by (simp add: j [symmetric])
  then show ?thesis by blast
qed

end

text \<open>
  A manager that keeps what it is told, and a host that counts its ticks, stops after \<open>n\<close> of them and gets one
  control code of a script per wait, handled by its own callback.
\<close>

record local_scm =
  lm_told :: "service_status list"
  lm_ticks :: nat
  lm_codes :: "u32 list"
  lm_stop :: bool

definition local_manager :: "local_scm scm_calls" where
  "local_manager =
     \<lparr>sx_Register = \<lambda>_ s. (1, s), sx_SetStatus = \<lambda>_ st s. (True, s\<lparr>lm_told := lm_told s @ [st]\<rparr>),
      sx_Dispatch = \<lambda>_ _. None, sx_GetLastError = \<lambda>_. 0\<rparr>"

definition idle_host :: "local_scm scm_backend host_env" where
  "idle_host =
     \<lparr>he_RegisterControlHandler = \<lambda>b. (Success (), b), he_ReportStatus = \<lambda>_ b. (Success (), b),
      he_workload = \<lambda>b. (Success (), b), he_stopRequested = \<lambda>b. lm_stop (sw_env b), he_now = \<lambda>b. (0, b), he_wait = \<lambda>b. b\<rparr>"

definition local_control :: "local_scm scm_backend \<Rightarrow> local_scm scm_backend" where
  "local_control b =
     (case lm_codes (sw_env b) of
        [] \<Rightarrow> b
      | code # codes \<Rightarrow>
          h_env (HandleControl (scm_host_env (\<lambda>_. []) local_manager [] idle_host)
            (\<lambda>b. b\<lparr>sw_env := (sw_env b)\<lparr>lm_stop := True\<rparr>\<rparr>) code
            \<lparr>h_env = b\<lparr>sw_env := (sw_env b)\<lparr>lm_codes := codes\<rparr>\<rparr>, h_state = Running, h_reports = []\<rparr>))"

definition counted_host :: "nat \<Rightarrow> (nat \<Rightarrow> unit result) \<Rightarrow> local_scm scm_backend host_env" where
  "counted_host n work =
     idle_host\<lparr>he_workload := \<lambda>b. (work (lm_ticks (sw_env b)), b\<lparr>sw_env := (sw_env b)\<lparr>lm_ticks := lm_ticks (sw_env b) + 1\<rparr>\<rparr>),
       he_stopRequested := \<lambda>b. lm_stop (sw_env b) \<or> n \<le> lm_ticks (sw_env b), he_wait := local_control\<rparr>"

lemma local_control_tells:
  "sw_statusHandle (local_control b) = sw_statusHandle b \<and>
    (\<exists>n. lm_told (sw_env (local_control b)) = lm_told (sw_env b) @ replicate n (status_of (MakeStatusReport Running 0 0 0)))"
proof (cases "lm_codes (sw_env b)")
  case Nil
  then show ?thesis by (auto simp: local_control_def intro: exI [of _ 0])
next
  case (Cons code codes)
  have "lm_told (sw_env (local_control b)) = lm_told (sw_env b) \<or>
      lm_told (sw_env (local_control b)) = lm_told (sw_env b) @ [status_of (MakeStatusReport Running 0 0 0)]"
    using Cons by (auto simp: local_control_def HandleControl_def ReReportCurrentStatus_def report_status_def scm_host_env_def
        Win32_ReportStatus_def local_manager_def status_of_def)
  then have "\<exists>n. lm_told (sw_env (local_control b)) = lm_told (sw_env b) @ replicate n (status_of (MakeStatusReport Running 0 0 0))"
    by (elim disjE) (auto intro: exI [of _ 0] exI [of _ 1])
  moreover have "sw_statusHandle (local_control b) = sw_statusHandle b"
    using Cons by (auto simp: local_control_def HandleControl_def ReReportCurrentStatus_def report_status_def scm_host_env_def
        Win32_ReportStatus_def local_manager_def)
  ultimately show ?thesis by blast
qed

interpretation local_scm: control_manager local_manager "counted_host n work" lm_told for n work
  using local_control_tells
  by unfold_locales
    (auto simp: local_manager_def counted_host_def idle_host_def answered_def ToScmState_def intro!: exI [of _ 0])





text \<open>The result of the run does not tell a failure of the main function: the trampoline drops it.\<close>

lemma RunService_hides_failure:
  "RunService sysmsg A name he h = Some (r, h') \<Longrightarrow> sx_Dispatch A name (sw_env (h_env h)) = None \<Longrightarrow> r = Success ()"
  by (auto simp: RunService_def RunServiceDispatcher_def split: option.splits)

section \<open>Reports of two threads\<close>

inductive_cases control_stepE: "control_step v v'"

text \<open>The reports after the first \<open>Stopped\<close>.\<close>

definition after_stopped :: "ServiceState list \<Rightarrow> ServiceState list" where
  "after_stopped xs = tl (dropWhile (\<lambda>st. st \<noteq> Stopped) xs)"

lemma after_stopped_append:
  "after_stopped (xs @ [st]) = (if Stopped \<in> set xs then after_stopped xs @ [st] else [])"
proof (cases "Stopped \<in> set xs")
  case True
  then have "dropWhile (\<lambda>st. st \<noteq> Stopped) (xs @ [st]) = dropWhile (\<lambda>st. st \<noteq> Stopped) xs @ [st]"
    and "dropWhile (\<lambda>st. st \<noteq> Stopped) xs \<noteq> []" by (auto simp: dropWhile_append1)
  with True show ?thesis by (simp add: after_stopped_def)
next
  case False
  then have "dropWhile (\<lambda>st. st \<noteq> Stopped) (xs @ [st]) = dropWhile (\<lambda>st. st \<noteq> Stopped) [st]"
    by (intro dropWhile_append2) auto
  with False show ?thesis by (simp add: after_stopped_def)
qed

definition control_inv :: "control_view \<Rightarrow> bool" where
  "control_inv v \<longleftrightarrow> cv_loaded v \<noteq> Some Stopped \<and> (cv_toReport v = None \<or> cv_toReport v = Some (cv_state v)) \<and>
     (if Stopped \<in> set (cv_reports v)
      then cv_state v = Stopped \<and> cv_toReport v = None \<and>
        length (after_stopped (cv_reports v)) + (if cv_loaded v = None then 0 else 1) \<le> 1
      else after_stopped (cv_reports v) = [])"

lemma control_inv_step: "control_step v v' \<Longrightarrow> control_inv v \<Longrightarrow> control_inv v'"
  by (elim control_stepE) (auto simp: control_inv_def after_stopped_append legal_transition_def split: if_splits)

lemma control_inv_reach: "control_step\<^sup>*\<^sup>* control_start v \<Longrightarrow> control_inv v"
  by (induction rule: rtranclp_induct)
    (auto simp: control_inv_step, simp add: control_inv_def control_start_def after_stopped_def)

lemma control_step_store:
  "legal_transition st nxt \<Longrightarrow> control_step \<lparr>cv_state = st, cv_toReport = None, cv_loaded = ld, cv_stop = sp, cv_reports = rs\<rparr>
     \<lparr>cv_state = nxt, cv_toReport = Some nxt, cv_loaded = ld, cv_stop = sp, cv_reports = rs\<rparr>"
  using control_step.store [of "\<lparr>cv_state = st, cv_toReport = None, cv_loaded = ld, cv_stop = sp, cv_reports = rs\<rparr>" nxt] by simp

lemma control_step_report:
  "control_step \<lparr>cv_state = st, cv_toReport = Some x, cv_loaded = ld, cv_stop = sp, cv_reports = rs\<rparr>
     \<lparr>cv_state = st, cv_toReport = None, cv_loaded = ld, cv_stop = sp, cv_reports = rs @ [x]\<rparr>"
  using control_step.report [of "\<lparr>cv_state = st, cv_toReport = Some x, cv_loaded = ld, cv_stop = sp, cv_reports = rs\<rparr>" x] by simp

lemma control_transit:
  "legal_transition st nxt \<Longrightarrow> control_step\<^sup>*\<^sup>* \<lparr>cv_state = st, cv_toReport = None, cv_loaded = ld, cv_stop = sp, cv_reports = rs\<rparr>
     \<lparr>cv_state = nxt, cv_toReport = None, cv_loaded = ld, cv_stop = sp, cv_reports = rs @ [nxt]\<rparr>"
  using control_step_store [of st nxt ld sp rs] control_step_report [of nxt nxt ld sp rs]
  by (meson rtranclp.rtrancl_into_rtrancl rtranclp.rtrancl_refl)

text \<open>An interrogation that loads the state before the last transition and answers after it is such a run.\<close>

lemma interrogation_overtaken:
  "\<exists>v. control_step\<^sup>*\<^sup>* control_start v \<and> cv_state v = Stopped \<and>
     cv_reports v = [StartPending, Running, StopPending, Stopped, StopPending]"
proof -
  let ?v = "\<lambda>st ld rs. \<lparr>cv_state = st, cv_toReport = None, cv_loaded = ld, cv_stop = False, cv_reports = rs\<rparr>"
  have "control_step\<^sup>*\<^sup>* control_start (?v StartPending None [StartPending])"
    using control_transit [of SS_Unknown StartPending None False "[]"] by (simp add: control_start_def legal_transition_def)
  moreover have "control_step\<^sup>*\<^sup>* (?v StartPending None [StartPending]) (?v Running None [StartPending, Running])"
    using control_transit [of StartPending Running None False "[StartPending]"] by (simp add: legal_transition_def)
  moreover have "control_step\<^sup>*\<^sup>* (?v Running None [StartPending, Running]) (?v StopPending None [StartPending, Running, StopPending])"
    using control_transit [of Running StopPending None False "[StartPending, Running]"] by (simp add: legal_transition_def)
  moreover have "control_step (?v StopPending None [StartPending, Running, StopPending])
      (?v StopPending (Some StopPending) [StartPending, Running, StopPending])"
    using control_step.load [of "?v StopPending None [StartPending, Running, StopPending]"] by simp
  moreover have "control_step\<^sup>*\<^sup>* (?v StopPending (Some StopPending) [StartPending, Running, StopPending])
      (?v Stopped (Some StopPending) [StartPending, Running, StopPending, Stopped])"
    using control_transit [of StopPending Stopped "Some StopPending" False "[StartPending, Running, StopPending]"]
    by (simp add: legal_transition_def)
  moreover have "control_step (?v Stopped (Some StopPending) [StartPending, Running, StopPending, Stopped])
      (?v Stopped None [StartPending, Running, StopPending, Stopped, StopPending])"
    using control_step.answer [of "?v Stopped (Some StopPending) [StartPending, Running, StopPending, Stopped]" StopPending] by simp
  ultimately have "control_step\<^sup>*\<^sup>* control_start (?v Stopped None [StartPending, Running, StopPending, Stopped, StopPending])"
    by (meson rtranclp.rtrancl_into_rtrancl rtranclp_trans)
  then show ?thesis by force
qed

text \<open>
  In whatever order the main thread and the interrogations of the control manager interleave, at most one
  report follows \<open>Stopped\<close>.\<close>
theorem control_reports_settle:
  assumes "control_step\<^sup>*\<^sup>* control_start v"
  shows "length (after_stopped (cv_reports v)) \<le> 1"
  using control_inv_reach [OF assms] by (auto simp: control_inv_def split: if_splits)

theorem control_reports_settle_witness:
  "\<exists>v. control_step\<^sup>*\<^sup>* control_start v \<and> cv_reports v = [StartPending, Running, StopPending, Stopped, StopPending] \<and>
     length (after_stopped (cv_reports v)) \<le> 1"
  using interrogation_overtaken control_reports_settle by blast

end
