(* ===== verification/Spec2Isabelle.thy ===== *)
theory Spec2Isabelle
  imports Policy_Executor Audit_Folding Watcher_Loop Logger Memory_Clean_Command Power_Scheme_Command Scheduler_Command Ipc_Reporter Agent_Form_Command Hold_Commands Ipc_Credentials Host_Control
begin

text \<open>
  CppOptimizer is a resident Windows agent that watches a game, grades the memory pressure of
  the machine and, when its gates are open, keeps the machine awake and raises the priority
  of the game, always reversibly.  This development models its decision and action core, its
  gates and persistent files, the pipe protocol between the agent and its host, the host itself
  and its registration, and the commands that act on the machine.  Paths below are relative to
  \<^verbatim>\<open>include\<close> and \<^verbatim>\<open>source\<close>.

  \<^bold>\<open>The program and how its parts interact.\<close>  A control loop samples memory and process
  facts and calls the policy engine, which returns a pressure grade, the actions of a rule
  table and their reasons, after a hysteresis filter.  The policy executor turns the decision
  into a desired state (power requests held, game boosted) and drives two
  reference-counting managers towards it: the power locker and the priority booster, each
  over an injected backend (Win32 in production).  The game is found by the process watcher,
  with rules from the configuration.  One-shot operations (memory cleaning, power scheme, thread
  priorities) pass the safety gates first, which read a persistent cooldown ledger; each leaves a
  record in the audit trail, whose file is compacted in two levels.  Agents report facts over a
  named pipe: frame header, facts text, session with authorisation and credential gates.  The
  host runs as a service or on the console, with a Safe Mode guard that counts crashes, a
  recovery marker that tells a crash from a regular end, a presence ledger of the reporting
  agents and registration forms that must not conflict.

  \<^bold>\<open>Theories and sources.\<close>
  \<^item> \<open>Opt_Prelude\<close>: machine integers, strings of the C++ library (\<open>std::to_string\<close>,
    \<open>std::stoll\<close>, \<open>std::getline\<close>, ASCII folding) with their round trips, and
    \<open>std::map\<close> as a key-sorted association list behind the locale \<open>ordered_map\<close>.
  \<^item> \<open>Common_Error\<close>: \<^verbatim>\<open>common/error\<close>; \<open>Result<T>\<close> is \<open>Error + 'a\<close>.
  \<^item> \<open>Console_Output\<close>: \<^verbatim>\<open>common/console_output\<close>; text conversion and output.
  \<^item> \<open>Native_Api\<close>: \<^verbatim>\<open>platform/native_api\<close>; the probed capabilities of the platform.
  \<^item> \<open>Policy_Engine\<close>: \<^verbatim>\<open>policy/policy_engine\<close>; margin, grading, rule table, the record
    \<open>HysteresisFilter\<close> and the evaluator.
  \<^item> \<open>Power_Locker\<close>: \<^verbatim>\<open>power/power_locker\<close>; the record \<open>PowerLocker\<close> (counts and
    handles) with Acquire, Release, ReleaseAll, and the Win32 backend.
  \<^item> \<open>Priority_Booster\<close>: \<^verbatim>\<open>priority/priority_booster\<close>; leases per game with the
    conditional restore, and the Win32 backend.
  \<^item> \<open>Policy_Executor\<close>: \<^verbatim>\<open>policy/policy_executor\<close>; desired-state reconciliation,
    observer events, halt after consecutive failures.
  \<^item> \<open>File_System\<close>: the file operations of \<open>std::filesystem\<close>, the streams and
    \<open>MoveFileExW\<close> on a disk with injected faults; the contracts of a log file and of an
    atomically replaced file.
  \<^item> \<open>Safety_Gates\<close>: \<^verbatim>\<open>policy/safety_gates\<close>; the six gates, the cooldown ledger file
    and the JSON report.
  \<^item> \<open>Audit_Log\<close>, \<open>Audit_Compaction\<close>, \<open>Audit_Folding\<close>: \<^verbatim>\<open>audit/audit_log\<close>; the ring of recent
    records and the file, the summary of the lines it drops, the merging of summaries.
  \<^item> \<open>Config_Manager\<close>: \<^verbatim>\<open>config/config_manager\<close>; validation, versions, snapshots, switches and
    game rules; the TOML library is a parameter.
  \<^item> \<open>Logger\<close>: \<^verbatim>\<open>logger/logger\<close>; levels, file rotation, the bounded queue between writers and the
    background thread.
  \<^item> \<open>Process_Watcher\<close>, \<open>Process_Lives\<close>, \<open>Watcher_Loop\<close>: \<^verbatim>\<open>process/process_watcher\<close>; matching
    and candidates, the specification of a process life, the rounds and the thread of the watcher.
  \<^item> \<open>User_Activity\<close>: \<^verbatim>\<open>activity\<close>; idle time, session state, the raw input counter.
  \<^item> \<open>Power_Scheme\<close>: \<^verbatim>\<open>power/power_scheme\<close>; the scheme switch with its saved record.
  \<^item> \<open>Memory_Cleaner\<close>: \<^verbatim>\<open>memory\<close>; the snapshot, plan and steps of a clean.
  \<^item> \<open>Thread_Tuner\<close>: \<^verbatim>\<open>scheduler/thread_tuner\<close>; thread priorities with conditional restore.
  \<^item> \<open>Ipc_Protocol\<close>, \<open>Ipc_Facts\<close>, \<open>Ipc_Session\<close>, \<open>Ipc_Reporter\<close>: \<^verbatim>\<open>ipc/ipc_protocol\<close>,
    \<^verbatim>\<open>ipc/ipc_facts\<close>, \<^verbatim>\<open>ipc/ipc_session\<close>; header codec, facts payload, the server loop in both
    modes, the default handler, the client round trips, the periodic reporter and, as a step
    relation over its workers, the concurrent server.
  \<^item> \<open>Ipc_Credentials\<close>: \<^verbatim>\<open>ipc/ipc_credentials\<close>; the shared token, its file and command, the
    arguments of the pipe commands.
  \<^item> \<open>Service_Host\<close>, \<open>Host_Control\<close>: \<^verbatim>\<open>service/service_host\<close>; Safe Mode guard, status reports and main
    loop; the console mode, the backend towards the service control manager and the control callback.
  \<^item> \<open>Agent_Lifecycle\<close>: \<^verbatim>\<open>service/agent_form\<close>, \<^verbatim>\<open>service/recovery_marker\<close>,
    \<^verbatim>\<open>service/presence\<close> and the recovery steps of the console host in \<^verbatim>\<open>main.cpp\<close>.
  \<^item> \<open>Registration\<close>: \<^verbatim>\<open>service/startup_entry\<close>, \<^verbatim>\<open>service/scheduled_task\<close>, the
    service registration of \<^verbatim>\<open>service/service_host\<close> and \<^verbatim>\<open>service/host_instance\<close>.
  \<^item> \<open>Cli_World\<close>: what the commands of \<^verbatim>\<open>main.cpp\<close> share.  \<open>Memory_Clean_Command\<close>,
    \<open>Power_Scheme_Command\<close>, \<open>Scheduler_Command\<close>, \<open>Agent_Form_Command\<close>, \<open>Hold_Commands\<close>: the commands
    that change the machine, from their arguments to the exit code.

  Each operation has the name of the C++ function (\<open>Class_Method\<close> where two classes share a
  method name, \<open>_\<close> added where HOL uses the name).  A class is a record; a mutating
  method takes the record and returns it with the result; a virtual interface is a record of
  functions over an abstract state.  \<open>Inl\<close> is every \<open>Result::Failure\<close>.

  \<^bold>\<open>What the lemmas show.\<close>
  \<^item> Policy: grading is total and monotone, the margin is exact on 64-bit counters, the rule
    table never proposes more than its inputs allow, filtered grades change no faster than the
    cooldown (locale \<open>debounce\<close>, interpreted by the filter).
  \<^item> Managers: after any sequence of calls the open handles and active requests of the
    system are exactly those the manager counts (\<open>power_backend\<close>, \<open>priority_backend\<close>);
    the priority of a process is restored only where it is still the one set; failures leave
    the state alone; the locker refines plain counters.  The two backends over the Win32 calls
    are sublocales of these interfaces for every API with the documented laws
    (\<open>win32_power_api\<close>, \<open>win32_process_api\<close>), and concrete kernels interpret those.
  \<^item> Executor and loop: one application of a decision reaches the desired state when the
    calls succeed, closed gates keep it advisory, it halts after the configured number of
    failures, and (last section of this theory) once the game has left, one tick of the loop
    releases every request and lease, from every reachable state.
  \<^item> Gates and files: the report names the first blocking gate; a ledger rewrite is all or
    nothing under every injected fault (locale \<open>atomic_store\<close>, interpreted by the ledger and by
    the saved power scheme); appending adds one line, and a failed append keeps what was there (\<open>line_log\<close>, interpreted by the
    audit file, the action journal and the presence timeline); parsing inverts printing; a recorded
    run closes the cooldown gate for the window.
  \<^item> Audit: the log holds its newest records, and in persistent mode each is in the file; compaction and folding keep
    every count and range, and a failure keeps the file, except where the roll-back is blind.
  \<^item> Configuration and log: a loaded snapshot is valid and its switches are the explicit ones;
    the queue never drops a record of level error or critical, and flushing returns exactly
    when no record was replaced.
  \<^item> Watcher and activity: every process follows the life protocol, whatever the observations;
    stopping returns; the idle tally is exact.
  \<^item> One-shot actions: no memory clean, scheme switch or thread boost happens behind a closed gate
    or inside the cooldown; whatever step of a scheme switch, or of the saves inside it, fails or is the last one
    before a crash, the recovery settles it (\<open>scheme_backend\<close>, \<open>working_backend\<close>); thread priorities are restored only where unchanged and
    every thread handle is closed (\<open>thread_backend\<close>, \<open>working_threads\<close>, \<open>thread_handles\<close>).
  \<^item> Held actions: the two commands that hold power requests or a priority return, and what they
    acquired is given back on every path.
  \<^item> Pipe: header and facts codecs are inverse to their parsers, the schema check accepts
    exactly the registered payloads, the echo never shows the credential; the server calls a
    handler only for authorised and authenticated clients, always disconnects and closes, gives
    one verdict per connection, and returns (\<open>finite_client\<close>); a client round trip succeeds exactly
    when the peer answers it (\<open>byte_stream\<close>); a provisioned token is read back; the reporter keeps its
    interval (\<open>reporter_clock\<close>); the summary of the concurrent server is the sum of what its workers did.
  \<^item> Host: the guard refines a crash counter over a window, status reports follow the
    order of the service protocol up to the control manager, interrogations answered in between
    (\<open>control_manager\<close>; a racing one adds at most one report after the last), the console mode ends on a stop signal and leaves nothing
    behind (\<open>console_host\<close>), a start after a crash sees the marker and a start after a regular end does
    not, one instance holds the lock at a time (\<open>named_mutex\<close>).
  \<^item> Forms: applying the form plan leaves exactly the wanted form, also as a command on a
    machine whose forms can be read (\<open>form_registry\<close>, \<open>readable_forms\<close>); a service removed while its process
    runs is only marked and stays listed until it stops.

  \<^bold>\<open>Bounds, fuel and time.\<close>  No fuel is used.  Counters whose width matters (memory sizes,
  handles, process ids, header fields) are words; reference counts and times, which the code
  keeps far below their width, are \<open>nat\<close> and \<open>int\<close>, and a clock reading is
  an argument of the operation that takes it or part of the state it reads.  Loops that may run for
  ever in the code (the frame loop of the server, the main loop of the host, the holding and
  reporting loops) are \<open>partial_function\<close>s whose \<open>None\<close> is not returning, and that they return is a
  theorem of its own: always for a single request, for every client with finitely many frames for a
  session, for an advancing clock for the holds and the reporter, at the first stop signal for the
  console.

  \<^bold>\<open>Parameters.\<close>  The texts of \<open>FormatMessageW\<close>, the local time stamp, environment
  variables, the Win32 calls, the TOML library, the pipe transport and the handlers are arguments.
  Display texts that the source writes in Chinese are ASCII glosses, one per literal; nothing
  compares them.

  \<^bold>\<open>Not modelled.\<close>  The overlapped pipe I/O and security descriptors of \<^verbatim>\<open>ipc_transport\<close>, the
  task scheduler behind its COM calls, tray and window code, the PDH, GPU and disk probes, the
  commands of \<^verbatim>\<open>main.cpp\<close> that only print readings and the dispatch of \<open>wmain\<close> are glue over Win32.
  An observer or handler that throws is not distinguished where the code swallows the exception.
\<close>

section \<open>The control loop on the real systems\<close>

text \<open>
  The executor between ticks of the control loop, with the rest of the system free to change
  priorities, processes and other programs' requests, but not this program's handles.  A tick applies
  the decision of the evaluator, or the default one when the readings are missing, to a target that is
  either a running game with its identifier or, when no game runs, the empty target; every decision and
  every target of this kind is a possible tick.
\<close>

inductive loop_reach ::
    "('s, 't) Backends \<Rightarrow> ('s \<Rightarrow> u64 set) \<Rightarrow> ('s \<Rightarrow> (u64 \<times> PowerLockType) set) \<Rightarrow> ('t \<Rightarrow> u64 \<rightharpoonup> u32) \<Rightarrow>
     ExecutorConfig \<Rightarrow> PriorityLevel \<Rightarrow> 's \<Rightarrow> 't \<Rightarrow> ('s, 't) PolicyExecutor \<Rightarrow> bool"
  for W opn act hpid c m s t where
  start: "loop_reach W opn act hpid c m s t
    (PolicyExecutor_new c (PowerLocker_new True) (PriorityBooster_new m) s t)"
| tick: "loop_reach W opn act hpid c m s t x \<Longrightarrow> (et_running tg \<longrightarrow> et_gameId tg \<noteq> []) \<Longrightarrow>
    ApplyDecision W d tg x = (r, x') \<Longrightarrow> loop_reach W opn act hpid c m s t x'"
| reset: "loop_reach W opn act hpid c m s t x \<Longrightarrow> loop_reach W opn act hpid c m s t (ResetHalt x)"
| outside: "loop_reach W opn act hpid c m s t x \<Longrightarrow>
    opn s' = opn (x_powerSys x) \<Longrightarrow> act s' = act (x_powerSys x) \<Longrightarrow> hpid t' = hpid (x_prioritySys x) \<Longrightarrow>
    loop_reach W opn act hpid c m s t (x\<lparr>x_powerSys := s', x_prioritySys := t'\<rparr>)"

lemma loop_reach_inv: "loop_reach W opn act hpid c m s t x \<Longrightarrow> exec_inv x \<and> x_config x = c"
proof (induction rule: loop_reach.induct)
  case start
  show ?case by (simp add: exec_inv_new) (simp add: PolicyExecutor_new_def)
next
  case (tick x tg d r x')
  then show ?case by (auto intro: exec_inv_ApplyDecision simp: ApplyDecision_config)
next
  case (reset x)
  then show ?case by (auto intro: exec_inv_ResetHalt) (simp add: ResetHalt_def)
next
  case (outside x s' t')
  then show ?case by (simp add: exec_inv_def type_held_def cong: PowerLockType.case_cong)
qed

lemma loop_reach_agrees:
  assumes "loop_reach W opn act hpid c m s t x"
    and pb: "power_backend (be_power W) opn act" and "fst ` act s \<subseteq> opn s"
  shows "power_backend.agrees opn act (opn s) (act s) (x_power x) (x_powerSys x)"
  using assms(1)
proof (induction rule: loop_reach.induct)
  case start
  show ?case using power_backend.agrees_new [OF pb assms(3)] by (simp add: PolicyExecutor_new_def)
next
  case (tick x tg d r x')
  then show ?case
    using power_backend.agrees_steps [OF pb ApplyDecision_power_steps [OF tick.hyps(3)]] by simp
next
  case (reset x)
  then show ?case by (simp add: ResetHalt_def)
next
  case (outside x s' t')
  then show ?case using power_backend.agrees_same [OF pb] by simp
qed

lemma loop_reach_owns:
  assumes "loop_reach W opn act hpid c m s t x"
    and qb: "priority_backend (be_priority W) hpid pclass ctime"
  shows "priority_backend.owns hpid (dom (hpid t)) (x_priority x) (x_prioritySys x)"
  using assms(1)
proof (induction rule: loop_reach.induct)
  case start
  show ?case using priority_backend.owns_new [OF qb] by (simp add: PolicyExecutor_new_def)
next
  case (tick x tg d r x')
  have "exec_inv x" using loop_reach_inv [OF tick.hyps(1)] by simp
  from priority_backend.owns_steps [OF qb ApplyDecision_priority_steps [OF this tick.hyps(3)]] tick.IH
  show ?case by simp
next
  case (reset x)
  then show ?case by (simp add: ResetHalt_def)
next
  case (outside x s' t')
  then show ?case using priority_backend.owns_same [OF qb] by simp
qed

text \<open>
  C7: Once no game runs, the next successful tick of an executor that is not halted leaves nothing
  behind: no power request of this program is in force, no handle of it is open in either
  subsystem and no lease is recorded, whatever the decision and whatever the ticks before did.
\<close>

theorem game_exit_releases_everything:
  assumes "power_backend (be_power W) opn act" and "priority_backend (be_priority W) hpid pclass ctime"
    and "fst ` act s \<subseteq> opn s" and "loop_reach W opn act hpid c m s t x"
    and "\<not> x_halted x" and "\<not> et_running tg"
    and "ApplyDecision W d tg x = (Success ef, x')"
  shows "act (x_powerSys x') = act s \<and> opn (x_powerSys x') = opn s \<and>
    dom (hpid (x_prioritySys x')) = dom (hpid t) \<and> pb_leases (x_priority x') = []"
proof -
  have inv: "exec_inv x" using loop_reach_inv [OF assms(4)] by simp
  have inv': "exec_inv x'" using exec_inv_ApplyDecision [OF inv _ assms(7)] assms(6) by blast
  have rec: "\<not> x_powerHeld x'" "\<not> x_displayHeld x'" "x_priorityGameId x' = []"
    using ApplyDecision_reconciled [OF assms(7,5)] assms(6) by (auto simp: boost_desired_def)
  have ag: "power_backend.agrees opn act (opn s) (act s) (x_power x') (x_powerSys x')"
    using power_backend.agrees_steps [OF assms(1) ApplyDecision_power_steps [OF assms(7)]]
      loop_reach_agrees [OF assms(4,1,3)] by simp
  have ow: "priority_backend.owns hpid (dom (hpid t)) (x_priority x') (x_prioritySys x')"
    using priority_backend.owns_steps [OF assms(2) ApplyDecision_priority_steps [OF inv assms(7)]]
      loop_reach_owns [OF assms(4,2)] by simp
  have nl: "\<And>ty. \<not> IsLocked (x_power x') ty"
    using inv' rec by (auto simp: exec_inv_def IsLocked_def LockCount_def type_held_def split: PowerLockType.splits)
  then have "lock_requests (x_power x') = {}" by (auto simp: lock_requests_iff)
  moreover have none: "lease_of (x_priority x') = Map.empty"
    using inv' rec(3) by (simp add: exec_inv_def lease_inv_def)
  then have "pb_leases (x_priority x') = []" by (simp add: om_get_def)
  moreover have "ran (lease_handles (x_priority x')) = {}"
    using none by (simp add: lease_handles_def ran_def)
  ultimately show ?thesis
    using ag ow
    by (simp add: power_backend.agrees_def [OF assms(1)] priority_backend.owns_def [OF assms(2)])
qed

definition first_evaluation :: "PolicyEvaluation \<times> PolicyEvaluator" where
  "first_evaluation =
     PolicyEvaluator_Evaluate (PolicyEvaluator_new default_thresholds 5000) (sample_input True) 0"

definition boosted_executor :: "(kernel, ptable) PolicyExecutor" where
  "boosted_executor =
     snd (ApplyDecision demo_backends (ev_decision (fst first_evaluation)) (demo_target True)
       (demo_executor kernel_init ptable_init))"

lemmas kernel_eval = AcquireLock_def ReleaseLock_def PowerLocker_new_def kernel_backend_def
  Win32PowerRequestBackend_def Win32_CreateRequest_def Win32_SetRequest_def Win32_ClearRequest_def
  Win32_CloseRequest_def kernel_power_api_def kernel_init_def kernel_limit_def
  INVALID_HANDLE_VALUE_def lk_empty_def set_lock_def

lemma first_evaluation_action: "d_action (ev_decision (fst first_evaluation)) = SuggestPriorityBoost"
  by (simp add: first_evaluation_def PolicyEvaluator_Evaluate_def PolicyEvaluator_new_def
      fresh_decision_def EvaluatePolicy_def sample_input_def Let_def)

lemma boosted_executor_held:
  "x_priorityGameId boosted_executor = ''g''" "\<not> x_halted boosted_executor" "x_powerHeld boosted_executor"
  by (simp_all add: boosted_executor_def first_evaluation_action demo_defs exec_eval booster_eval
      ptable_eval kernel_eval)

text \<open>The target of a tick on which no game runs.\<close>

definition no_target :: ExecutorTarget where
  "no_target = \<lparr>et_gameId = [], et_pid = 0, et_creationTime100ns = 0, et_running = False\<rparr>"

lemma boosted_executor_exit_ok:
  "HasValue (fst (ApplyDecision demo_backends empty_decision no_target boosted_executor))"
  by (simp add: no_target_def boosted_executor_def first_evaluation_action demo_defs exec_eval booster_eval
      ptable_eval kernel_eval)

theorem game_exit_releases_everything_witness:
  "\<exists>ef x'. x_priorityGameId boosted_executor = ''g'' \<and>
     ApplyDecision demo_backends empty_decision no_target boosted_executor = (Success ef, x') \<and>
     pb_leases (x_priority x') = [] \<and> kernel_opn (x_powerSys x') = {}"
proof -
  obtain ef x' where a:
    "ApplyDecision demo_backends empty_decision no_target boosted_executor = (Success ef, x')"
    using boosted_executor_exit_ok by (metis HasValue_simps(2) prod.collapse sum.exhaust)
  have pb: "power_backend (be_power demo_backends) kernel_opn (\<lambda>k. lock_view (kernel_act k))"
    by (simp add: demo_backends_def kernel_backend_ok)
  have qb: "priority_backend (be_priority demo_backends) ptable_hpid pt_class
      (\<lambda>k pid. filetime (pt_time k pid))"
    by (simp add: demo_backends_def ptable_backend_ok)
  have base: "fst ` lock_view (kernel_act kernel_init) \<subseteq> kernel_opn kernel_init"
    by (simp add: kernel_act_def kernel_init_def lock_view_def)
  have reach: "loop_reach demo_backends kernel_opn (\<lambda>k. lock_view (kernel_act k)) ptable_hpid
      demo_config PL_AboveNormal kernel_init ptable_init boosted_executor"
    unfolding boosted_executor_def demo_executor_def
    by (rule loop_reach.tick [OF loop_reach.start _ prod.collapse [symmetric]]) (simp add: demo_target_def)
  have "kernel_opn kernel_init = {}" by (simp add: kernel_opn_def kernel_init_def)
  moreover have "\<not> et_running no_target" by (simp add: no_target_def)
  ultimately show ?thesis
    using game_exit_releases_everything [OF pb qb base reach boosted_executor_held(2) _ a] a
      boosted_executor_held(1) by auto
qed

end
